(* ===== verification/Prelude.thy ===== *)
theory Prelude
  imports
    Complex_Main
    "HOL-Library.AList"
    "HOL-Library.List_Lexorder"
    "HOL-Library.Product_Lexorder"
    "HOL-Library.Option_ord"
    "HOL-Library.Log_Nat"
    "HOL-Library.Multiset"
    "HOL-Library.Code_Target_Nat"
begin

text \<open>
  Shared vocabulary of the development: Python text as code points, exceptions as
  values, insertion-ordered dictionaries, Python's \<open>max\<close> with a key, and the
  small list lemmas that the component theories use.

  \<^item> A Python \<open>str\<close> is a list of code points (\<open>pystr\<close>), because the program
    distinguishes lone surrogates (which do not encode as UTF-8) and counts UTF-8 bytes.
    A literal of the source is \<open>lit ''...''\<close>.
  \<^item> A call that may raise returns \<open>'a res\<close>, with \<open>Inl\<close> of the exception.
  \<^item> A \<open>dict\<close> is an association list with distinct keys in insertion order;
    \<open>AList.update\<close> is \<open>d[k] = v\<close> (an existing key keeps its place).
\<close>

named_theorems res_simps \<open>rewriting of computations that may raise\<close>
named_theorems text_simps \<open>decision of literals and text operations\<close>

section \<open>Text\<close>

type_synonym pystr = "nat list"

definition lit :: "string \<Rightarrow> pystr" where
  "lit s = map of_char s"

lemma lit_eq_iff [simp]: "lit a = lit b \<longleftrightarrow> a = b"
  unfolding lit_def by (rule inj_map_eq_map) (rule inj_of_char)

lemma lit_eq_Nil [simp]: "lit a = [] \<longleftrightarrow> a = []" "[] = lit a \<longleftrightarrow> a = []"
  by (auto simp: lit_def)

lemma length_lit [simp]: "length (lit a) = length a"
  by (simp add: lit_def)

lemma lit_append: "lit (a @ b) = lit a @ lit b"
  by (simp add: lit_def)

lemma lit_ascii: "c \<in> set (lit a) \<Longrightarrow> c < 256"
  by (auto simp: lit_def)

abbreviation cat :: "pystr list \<Rightarrow> pystr" where
  "cat \<equiv> concat"

fun join :: "pystr \<Rightarrow> pystr list \<Rightarrow> pystr" where
  "join sep [] = []"
| "join sep [x] = x"
| "join sep (x # xs) = x @ sep @ join sep xs"

definition is_surrogate :: "nat \<Rightarrow> bool" where
  "is_surrogate c \<longleftrightarrow> 0xD800 \<le> c \<and> c \<le> 0xDFFF"

text \<open>\<open>value.encode("utf-8")\<close>: a lone surrogate raises \<open>UnicodeEncodeError\<close>.\<close>

definition utf8_ok :: "pystr \<Rightarrow> bool" where
  "utf8_ok s \<longleftrightarrow> list_all (\<lambda>c. \<not> is_surrogate c) s"

definition utf8_width :: "nat \<Rightarrow> nat" where
  "utf8_width c = (if c < 0x80 then 1 else if c < 0x800 then 2 else if c < 0x10000 then 3 else 4)"

definition utf8_length :: "pystr \<Rightarrow> nat" where
  "utf8_length s = sum_list (map utf8_width s)"

lemma utf8_ok_Nil [simp]: "utf8_ok []"
  by (simp add: utf8_ok_def)

lemma utf8_ok_append [simp]: "utf8_ok (a @ b) \<longleftrightarrow> utf8_ok a \<and> utf8_ok b"
  by (simp add: utf8_ok_def)

lemma utf8_ok_lit [simp]: "utf8_ok (lit a)"
  by (fastforce simp: utf8_ok_def is_surrogate_def list_all_iff dest: lit_ascii)

lemma utf8_length_Nil [simp]: "utf8_length [] = 0"
  by (simp add: utf8_length_def)

lemma utf8_length_append [simp]: "utf8_length (a @ b) = utf8_length a + utf8_length b"
  by (simp add: utf8_length_def)

lemma length_le_utf8_length: "length s \<le> utf8_length s"
  by (induction s) (auto simp: utf8_length_def utf8_width_def)

fun starts_with :: "pystr \<Rightarrow> pystr \<Rightarrow> bool" where
  "starts_with s [] = True"
| "starts_with [] (p # ps) = False"
| "starts_with (c # s) (p # ps) = (c = p \<and> starts_with s ps)"

text \<open>The substring test \<open>p in s\<close>.\<close>

fun has_substring :: "pystr \<Rightarrow> pystr \<Rightarrow> bool" where
  "has_substring p [] = (p = [])"
| "has_substring p (c # s) = (starts_with (c # s) p \<or> has_substring p s)"

subsection \<open>Integers as decimal text\<close>

function digits :: "int \<Rightarrow> pystr" where
  "digits n = (if n < 10 then [48 + nat n] else digits (n div 10) @ [48 + nat (n mod 10)])"
  by pat_completeness auto
termination
  by (relation "measure nat") auto

declare digits.simps [simp del]

definition int_text :: "int \<Rightarrow> pystr" where
  "int_text i = (if i < 0 then lit ''-'' @ digits (- i) else digits i)"

lemma digits_not_Nil [simp]: "digits n \<noteq> []"
  by (subst digits.simps) simp

lemma digits_range: "c \<in> set (digits n) \<Longrightarrow> 48 \<le> c \<and> c \<le> 57"
proof (induction n rule: digits.induct)
  case (1 n)
  show ?case
  proof (cases "n < 10")
    case True
    then have "c = 48 + nat n" using 1 by (simp add: digits.simps [of n])
    with True show ?thesis by simp
  next
    case False
    then have "c \<in> set (digits (n div 10)) \<or> c = 48 + nat (n mod 10)"
      using "1.prems" by (simp add: digits.simps [of n] disj_commute)
    moreover have "nat (n mod 10) \<le> 9" by simp
    ultimately show ?thesis using "1.IH" False by auto
  qed
qed

section \<open>Exceptions as values\<close>

text \<open>
  One constructor per exception class the modelled code raises; the classes of the
  repository carry their message. \<open>UnsupportedSchemaError\<close> is a subclass of
  \<open>RunpackError\<close> in the source. \<open>FuelExhausted\<close> is no exception of the program:
  it marks a recursion bound of the model that was too small, and the theories that use
  a bound prove that it never appears.
\<close>

datatype err =
    RunpackError pystr
  | UnsupportedSchemaError pystr
  | ContractError pystr
  | AnnotationError pystr
  | ExperimentError pystr
  | DeepProfileError pystr
  | CaptureJobError pystr
  | EnrichmentError pystr
  | TemporalHistoryImportError pystr
  | KubernetesImportError pystr
  | OtelImportError pystr
  | PrometheusImportError pystr
  | JsonInputError pystr
  | ValueError pystr
  | DatabaseError pystr
  | AssertionError
  | JSONDecodeError
  | FuelExhausted
  | OverflowError
  | ZeroDivisionError
  | KeyError
  | IndexError
  | TypeError
  | RecursionError

type_synonym 'a res = "err + 'a"

definition rbind :: "'a res \<Rightarrow> ('a \<Rightarrow> 'b res) \<Rightarrow> 'b res" where
  "rbind m f = (case m of Inl e \<Rightarrow> Inl e | Inr x \<Rightarrow> f x)"

lemma rbind_simps [simp]: "rbind (Inl e) f = Inl e" "rbind (Inr x) f = f x"
  by (simp_all add: rbind_def)

lemma rbind_eq_Inr_iff [res_simps]: "rbind m f = Inr y \<longleftrightarrow> (\<exists>x. m = Inr x \<and> f x = Inr y)"
  by (cases m) auto

lemma rbind_eq_Inl_iff [res_simps]:
  "rbind m f = Inl e \<longleftrightarrow> m = Inl e \<or> (\<exists>x. m = Inr x \<and> f x = Inl e)"
  by (cases m) auto

lemma rbind_assoc: "rbind (rbind m f) g = rbind m (\<lambda>x. rbind (f x) g)"
  by (cases m) auto

lemma rbind_cong [fundef_cong]:
  "m = m' \<Longrightarrow> (\<And>x. m' = Inr x \<Longrightarrow> f x = f' x) \<Longrightarrow> rbind m f = rbind m' f'"
  by (cases m') auto

text \<open>\<open>if cond: raise error\<close> as a step, and \<open>assert x is not None\<close>.\<close>

definition raise_if :: "bool \<Rightarrow> err \<Rightarrow> unit res" where
  "raise_if b e = (if b then Inl e else Inr ())"

definition assert_some :: "'a option \<Rightarrow> 'a res" where
  "assert_some x = (case x of None \<Rightarrow> Inl AssertionError | Some v \<Rightarrow> Inr v)"

lemma raise_if_Inr_iff [res_simps]: "raise_if b e = Inr u \<longleftrightarrow> \<not> b"
  by (simp add: raise_if_def)

lemma raise_if_Inl_iff [res_simps]: "raise_if b e = Inl e' \<longleftrightarrow> b \<and> e' = e"
  by (auto simp: raise_if_def)

lemma raise_if_simps [simp]: "raise_if False e = Inr ()" "raise_if True e = Inl e"
  by (simp_all add: raise_if_def)

lemma assert_some_simps [simp]: "assert_some None = Inl AssertionError" "assert_some (Some v) = Inr v"
  by (simp_all add: assert_some_def)

lemma assert_some_Inr_iff [res_simps]: "assert_some x = Inr v \<longleftrightarrow> x = Some v"
  by (cases x) auto

text \<open>\<open>tuple(f(x) for x in xs)\<close>: the first exception ends the iteration.\<close>

fun traverse :: "('a \<Rightarrow> 'b res) \<Rightarrow> 'a list \<Rightarrow> 'b list res" where
  "traverse f [] = Inr []"
| "traverse f (x # xs) = rbind (f x) (\<lambda>y. rbind (traverse f xs) (\<lambda>ys. Inr (y # ys)))"

lemma traverse_cong [fundef_cong]:
  "xs = ys \<Longrightarrow> (\<And>x. x \<in> set ys \<Longrightarrow> f x = g x) \<Longrightarrow> traverse f xs = traverse g ys"
  by (induction ys arbitrary: xs) (auto intro: rbind_cong)

lemma traverse_eq_Inr_iff:
  "traverse f xs = Inr ys \<longleftrightarrow> list_all2 (\<lambda>x y. f x = Inr y) xs ys"
proof (induction xs arbitrary: ys)
  case (Cons x xs)
  then show ?case by (cases ys) (auto simp: res_simps)
qed auto

lemma list_all2_right: "list_all2 P xs ys \<Longrightarrow> y \<in> set ys \<Longrightarrow> \<exists>x\<in>set xs. P x y"
  by (induction rule: list_all2_induct) auto

lemma traverse_Inr_mem: "traverse f xs = Inr ys \<Longrightarrow> y \<in> set ys \<Longrightarrow> \<exists>x\<in>set xs. f x = Inr y"
  unfolding traverse_eq_Inr_iff by (rule list_all2_right)

lemma traverse_length: "traverse f xs = Inr ys \<Longrightarrow> length ys = length xs"
  by (auto simp: traverse_eq_Inr_iff dest: list_all2_lengthD)

lemma traverse_defined: "(\<exists>ys. traverse f xs = Inr ys) \<longleftrightarrow> (\<forall>x\<in>set xs. \<exists>y. f x = Inr y)"
  by (induction xs) (auto simp: res_simps)

lemma traverse_map_Inr: "(\<And>x. x \<in> set xs \<Longrightarrow> f x = Inr (g x)) \<Longrightarrow> traverse f xs = Inr (map g xs)"
  by (induction xs) auto

lemma traverse_Inl_exists: "traverse f xs = Inl e \<Longrightarrow> \<exists>x\<in>set xs. f x = Inl e"
  by (induction xs) (auto simp: res_simps)

lemma traverse_append:
  "traverse f (xs @ ys) = rbind (traverse f xs) (\<lambda>us. rbind (traverse f ys) (\<lambda>vs. Inr (us @ vs)))"
  by (induction xs) (auto simp: rbind_assoc rbind_def split: sum.splits)

section \<open>Dictionaries\<close>

type_synonym ('k, 'v) dict = "('k \<times> 'v) list"

abbreviation dget :: "('k, 'v) dict \<Rightarrow> 'k \<Rightarrow> 'v option" where
  "dget \<equiv> map_of"

definition dget_or :: "('k, 'v) dict \<Rightarrow> 'k \<Rightarrow> 'v \<Rightarrow> 'v" where
  "dget_or d k v = (case map_of d k of None \<Rightarrow> v | Some w \<Rightarrow> w)"

abbreviation dset :: "'k \<Rightarrow> 'v \<Rightarrow> ('k, 'v) dict \<Rightarrow> ('k, 'v) dict" where
  "dset \<equiv> AList.update"

definition has_key :: "('k, 'v) dict \<Rightarrow> 'k \<Rightarrow> bool" where
  "has_key d k \<longleftrightarrow> k \<in> fst ` set d"

lemma has_key_iff: "has_key d k \<longleftrightarrow> (\<exists>v. map_of d k = Some v)"
proof -
  have "has_key d k \<longleftrightarrow> map_of d k \<noteq> None"
    by (simp add: has_key_def map_of_eq_None_iff)
  then show ?thesis by auto
qed

lemma dget_dset [simp]: "dget (dset k v d) = (dget d)(k \<mapsto> v)"
  by (simp add: update_conv')

lemma dget_or_dset [simp]: "dget_or (dset k v d) k' w = (if k' = k then v else dget_or d k' w)"
  by (simp add: dget_or_def)

lemma dget_or_Nil [simp]: "dget_or [] k v = v"
  by (simp add: dget_or_def)

lemma keys_dset: "map fst (dset k v d) = (if k \<in> fst ` set d then map fst d else map fst d @ [k])"
  by (simp add: update_keys image_def)

lemma distinct_keys_dset [simp]: "distinct (map fst d) \<Longrightarrow> distinct (map fst (dset k v d))"
  by (rule distinct_update)

text \<open>\<open>counts[key] = counts.get(key, 0) + n\<close> over a sequence of keys.\<close>

definition add_count :: "'k \<Rightarrow> int \<Rightarrow> ('k, int) dict \<Rightarrow> ('k, int) dict" where
  "add_count k n d = dset k (dget_or d k 0 + n) d"

definition tally :: "'k list \<Rightarrow> ('k, int) dict" where
  "tally ks = fold (\<lambda>k. add_count k 1) ks []"

lemma dget_or_add_count: "dget_or (add_count k n d) k' 0 = dget_or d k' 0 + (if k' = k then n else 0)"
  by (simp add: add_count_def)

lemma dget_or_fold_add_count:
  "dget_or (fold (\<lambda>k. add_count k 1) ks d) k' 0 = dget_or d k' 0 + int (count_list ks k')"
  by (induction ks arbitrary: d) (auto simp: dget_or_add_count)

lemma dget_or_tally: "dget_or (tally ks) k 0 = int (count_list ks k)"
  by (simp add: tally_def dget_or_fold_add_count)

lemma distinct_keys_fold_add_count:
  "distinct (map fst d) \<Longrightarrow> distinct (map fst (fold (\<lambda>k. add_count k 1) ks d))"
  by (induction ks arbitrary: d) (simp_all add: add_count_def)

lemma distinct_keys_tally: "distinct (map fst (tally ks))"
  by (simp add: tally_def distinct_keys_fold_add_count)

lemma keys_fold_add_count: "fst ` set (fold (\<lambda>k. add_count k 1) ks d) = fst ` set d \<union> set ks"
proof (induction ks arbitrary: d)
  case (Cons k ks)
  have "fst ` set (add_count k 1 d) = insert k (fst ` set d)"
    using keys_dset [of k "dget_or d k 0 + 1" d]
    by (auto simp: add_count_def simp flip: set_map)
  with Cons show ?case by simp
qed simp

lemma keys_tally: "fst ` set (tally ks) = set ks"
  by (simp add: tally_def keys_fold_add_count)

text \<open>\<open>sum\<close> of the values of a dictionary whose key satisfies a condition.\<close>

definition sum_where :: "('k \<Rightarrow> bool) \<Rightarrow> ('k, int) dict \<Rightarrow> int" where
  "sum_where P d = sum_list (map snd (filter (\<lambda>kv. P (fst kv)) d))"

lemma sum_where_update:
  assumes "distinct (map fst d)"
  shows "sum_where P (add_count k n d) = sum_where P d + (if P k then n else 0)"
  using assms
proof (induction d)
  case Nil
  then show ?case by (simp add: sum_where_def add_count_def)
next
  case (Cons p d)
  obtain a b where p: "p = (a, b)" by (cases p)
  show ?case
  proof (cases "a = k")
    case True
    with p show ?thesis by (simp add: sum_where_def add_count_def dget_or_def)
  next
    case False
    with p Cons have "sum_where P (add_count k n d) = sum_where P d + (if P k then n else 0)"
      by simp
    with p False show ?thesis
      by (auto simp: sum_where_def add_count_def dget_or_def)
  qed
qed

lemma sum_where_fold_add_count:
  "distinct (map fst d) \<Longrightarrow>
     sum_where P (fold (\<lambda>k. add_count k 1) ks d) = sum_where P d + int (length (filter P ks))"
proof (induction ks arbitrary: d)
  case (Cons k ks)
  have "distinct (map fst (add_count k 1 d))"
    using Cons.prems by (simp add: add_count_def)
  with Cons show ?case by (simp add: sum_where_update)
qed simp

lemma sum_where_tally: "sum_where P (tally ks) = int (length (filter P ks))"
  unfolding tally_def by (subst sum_where_fold_add_count) (simp_all add: sum_where_def)

section \<open>Lists\<close>

text \<open>Python's \<open>max(xs, key=f)\<close>: the first element with the greatest key.\<close>

definition max_by :: "('a \<Rightarrow> 'k::linorder) \<Rightarrow> 'a \<Rightarrow> 'a list \<Rightarrow> 'a" where
  "max_by f x xs = fold (\<lambda>y best. if f best < f y then y else best) xs x"

lemma max_by_Nil [simp]: "max_by f x [] = x"
  by (simp add: max_by_def)

lemma max_by_Cons [simp]: "max_by f x (y # ys) = max_by f (if f x < f y then y else x) ys"
  by (simp add: max_by_def)

lemma max_by_in: "max_by f x xs \<in> insert x (set xs)"
  by (induction xs arbitrary: x) (auto split: if_splits)

lemma max_by_ge: "y \<in> insert x (set xs) \<Longrightarrow> f y \<le> f (max_by f x xs)"
proof (induction xs arbitrary: x y)
  case (Cons z xs)
  show ?case
  proof (cases "f x < f z")
    case True
    have "f z \<le> f (max_by f z xs)" by (rule Cons.IH) simp
    with True Cons show ?thesis by (auto intro: order.trans less_imp_le)
  next
    case False
    have "f x \<le> f (max_by f x xs)" by (rule Cons.IH) simp
    with False Cons show ?thesis by (auto intro: order.trans simp: not_less)
  qed
qed simp

text \<open>The elements of a list in their order, each kept at its first occurrence.\<close>

definition dedup_step :: "('a \<Rightarrow> 'k) \<Rightarrow> 'a \<Rightarrow> 'a list \<Rightarrow> 'a list" where
  "dedup_step f x acc = (if f x \<in> f ` set acc then acc else x # acc)"

definition dedup_by :: "('a \<Rightarrow> 'k) \<Rightarrow> 'a list \<Rightarrow> 'a list" where
  "dedup_by f xs = rev (fold (dedup_step f) xs [])"

lemma dedup_by_fold_set: "f ` set (fold (dedup_step f) xs acc) = f ` set acc \<union> f ` set xs"
  by (induction xs arbitrary: acc) (auto simp: dedup_step_def)

lemma dedup_by_fold_distinct:
  "distinct (map f acc) \<Longrightarrow> distinct (map f (fold (dedup_step f) xs acc))"
  by (induction xs arbitrary: acc) (auto simp: dedup_step_def)

lemma dedup_by_fold_subset: "set (fold (dedup_step f) xs acc) \<subseteq> set acc \<union> set xs"
proof (induction xs arbitrary: acc)
  case (Cons x xs)
  have "set (dedup_step f x acc) \<subseteq> insert x (set acc)" by (auto simp: dedup_step_def)
  with Cons.IH [of "dedup_step f x acc"] show ?case by auto
qed simp

lemma dedup_by_keys: "f ` set (dedup_by f xs) = f ` set xs"
  by (simp add: dedup_by_def dedup_by_fold_set)

lemma dedup_by_distinct: "distinct (map f (dedup_by f xs))"
proof -
  let ?ys = "fold (dedup_step f) xs []"
  have "distinct (map f ?ys)" by (rule dedup_by_fold_distinct) simp
  then have "distinct (rev (map f ?ys))" by (simp only: distinct_rev)
  then show ?thesis by (simp add: dedup_by_def rev_map)
qed

lemma dedup_by_subset: "set (dedup_by f xs) \<subseteq> set xs"
  using dedup_by_fold_subset [of f xs "[]"] by (simp add: dedup_by_def)

lemma sorted_wrt_sort_key: "sorted_wrt (\<lambda>x y. f x \<le> f y) (sort_key f xs)"
  using sorted_sort_key [of f xs] by (simp add: sorted_map)

text \<open>
  Sorting by a key that tells the elements apart does not depend on the order in which
  a set or a dictionary is enumerated.
\<close>

lemma sort_key_mset_unique:
  fixes f :: "'a \<Rightarrow> 'k::linorder"
  assumes "mset xs = mset ys" and "inj_on f (set xs)"
  shows "sort_key f xs = sort_key f ys"
proof (rule properties_for_sort_key)
  show "mset (sort_key f ys) = mset xs" using assms(1) by simp
  show "sorted (map f (sort_key f ys))" by simp
next
  fix k
  assume k: "k \<in> set (sort_key f ys)"
  have set_eq: "set xs = set ys" using assms(1) by (metis set_mset_mset)
  have "filter (\<lambda>x. f k = f x) (sort_key f ys) = filter (\<lambda>x. f k = f x) ys"
    using sort_key_stable [of f "f k" ys] by (simp add: eq_commute)
  moreover have "filter (\<lambda>x. f k = f x) zs = replicate (count_list zs k) k"
    if "set zs = set xs" for zs
  proof -
    have "\<forall>x\<in>set zs. f k = f x \<longleftrightarrow> k = x"
      using k assms(2) that set_eq by (auto simp: inj_on_def)
    then have "filter (\<lambda>x. f k = f x) zs = filter (\<lambda>x. k = x) zs"
      by (intro filter_cong) auto
    also have "\<dots> = replicate (count_list zs k) k"
      by (induction zs) auto
    finally show ?thesis .
  qed
  moreover have "count_list xs k = count_list ys k"
    using assms(1) by (metis count_mset)
  ultimately show "filter (\<lambda>x. f k = f x) (sort_key f ys) = filter (\<lambda>x. f k = f x) xs"
    using set_eq by metis
qed

end
