(* ===== verification/PyFloat.thy ===== *)
theory PyFloat
  imports Prelude
begin

text \<open>
  Python's \<open>float\<close>: binary64 with rounding to nearest, ties to even. A finite float
  is the rational number it denotes (the sign of zero, which only shows as a minus sign
  in some renderings of \<open>-0.0\<close>, is not kept). \<open>rnd\<close> rounds an exact rational; every
  arithmetic operation is the exact operation followed by \<open>rnd\<close>, as IEEE 754 requires.
  The theory ends with the renderings \<open>{:g}\<close> and \<open>{:.Nf}\<close> the reports use.
\<close>

section \<open>Rounding\<close>

definition round_half_even :: "rat \<Rightarrow> int" where
  "round_half_even q =
     (let f = \<lfloor>q\<rfloor>; r = q - of_int f
      in if r < 1 / 2 then f else if 1 / 2 < r then f + 1 else if even f then f else f + 1)"

text \<open>The exponent of the leading bit of a positive rational.\<close>

definition ilog2 :: "rat \<Rightarrow> int" where
  "ilog2 q = (case quotient_of q of (n, d) \<Rightarrow>
     (let e = bitlen n - bitlen d in if 2 powi e \<le> q then e else e - 1))"

text \<open>The exponent of the unit in the last place: 53 significant bits, subnormals below.\<close>

definition ulp_exp :: "rat \<Rightarrow> int" where
  "ulp_exp q = max (ilog2 \<bar>q\<bar> - 52) (- 1074)"

definition rnd_val :: "rat \<Rightarrow> rat" where
  "rnd_val q = (if q = 0 then 0
     else of_int (round_half_even (q / 2 powi ulp_exp q)) * 2 powi ulp_exp q)"

datatype pyfloat = Fin rat | PInf | NInf | NaN

definition rnd :: "rat \<Rightarrow> pyfloat" where
  "rnd q = (let v = rnd_val q in
     if 2 ^ 1024 \<le> v then PInf else if v \<le> - (2 ^ 1024) then NInf else Fin v)"

lemma round_half_even_bounds: "\<lfloor>q\<rfloor> \<le> round_half_even q" "round_half_even q \<le> \<lfloor>q\<rfloor> + 1"
  by (simp_all add: round_half_even_def Let_def)

lemma round_half_even_of_int [simp]: "round_half_even (of_int n) = n"
  by (simp add: round_half_even_def Let_def)

lemma round_half_even_mono: "x \<le> y \<Longrightarrow> round_half_even x \<le> round_half_even y"
proof -
  assume le: "x \<le> y"
  show ?thesis
  proof (cases "\<lfloor>x\<rfloor> = \<lfloor>y\<rfloor>")
    case True
    with le show ?thesis by (auto simp: round_half_even_def Let_def)
  next
    case False
    with le have "\<lfloor>x\<rfloor> + 1 \<le> \<lfloor>y\<rfloor>" using floor_mono [of x y] by linarith
    then show ?thesis using round_half_even_bounds [of x] round_half_even_bounds [of y] by linarith
  qed
qed

lemma round_half_even_error: "\<bar>of_int (round_half_even q) - q\<bar> \<le> 1 / 2"
proof -
  have "of_int \<lfloor>q\<rfloor> \<le> q" and "q < of_int \<lfloor>q\<rfloor> + 1" by linarith+
  then show ?thesis unfolding round_half_even_def Let_def by (cases "even \<lfloor>q\<rfloor>"; simp add: abs_if; linarith)
qed

lemma round_half_even_le: "x \<le> of_int n \<Longrightarrow> round_half_even x \<le> n"
  using round_half_even_mono [of x "of_int n"] by simp

lemma round_half_even_ge: "of_int n \<le> x \<Longrightarrow> n \<le> round_half_even x"
  using round_half_even_mono [of "of_int n" x] by simp

lemma round_half_even_uminus: "round_half_even (- q) = - round_half_even q"
proof (cases "q = of_int \<lfloor>q\<rfloor>")
  case True
  then have "- q = of_int (- \<lfloor>q\<rfloor>)" by simp
  with True show ?thesis by (metis round_half_even_of_int)
next
  case False
  have "of_int \<lfloor>q\<rfloor> \<le> q" and "q < of_int \<lfloor>q\<rfloor> + 1" by linarith+
  with False have "of_int \<lfloor>q\<rfloor> < q" by linarith
  with \<open>q < of_int \<lfloor>q\<rfloor> + 1\<close> have "\<lfloor>- q\<rfloor> = - \<lfloor>q\<rfloor> - 1"
    by (intro floor_unique) simp_all
  then show ?thesis
    by (auto simp: round_half_even_def Let_def)
qed

subsection \<open>The leading bit\<close>

lemma pow2_pos [simp]: "0 < (2 :: rat) powi e"
  by (rule zero_less_power_int) simp

lemma pow2_mono: "(2 :: rat) powi a \<le> 2 powi b \<longleftrightarrow> a \<le> b"
proof
  assume "(2 :: rat) powi a \<le> 2 powi b"
  show "a \<le> b"
  proof (rule ccontr)
    assume "\<not> a \<le> b"
    then have "(2 :: rat) powi b < 2 powi a" by (intro power_int_strict_increasing) auto
    with \<open>2 powi a \<le> (2 :: rat) powi b\<close> show False by simp
  qed
qed (auto intro: power_int_increasing)

lemma pow2_strict_mono: "(2 :: rat) powi a < 2 powi b \<longleftrightarrow> a < b"
  using pow2_mono [of b a] by auto

lemma pow2_add: "(2 :: rat) powi (a + b) = 2 powi a * 2 powi b"
  by (rule power_int_add) simp

lemma pow2_diff: "(2 :: rat) powi (a - b) = 2 powi a / 2 powi b"
  by (rule power_int_diff) simp

lemma bitlen_pow2_bounds:
  assumes "0 < n"
  shows "2 powi (bitlen n - 1) \<le> (of_int n :: rat)" "(of_int n :: rat) < 2 powi bitlen n"
proof -
  have b: "2 ^ nat (bitlen n - 1) \<le> n \<and> n < 2 ^ nat (bitlen n)"
    using assms by (rule bitlen_bounds)
  then have pos: "0 < bitlen n" using assms by (cases "bitlen n \<le> 0") auto
  from b have "of_int (2 ^ nat (bitlen n - 1)) \<le> (of_int n :: rat)"
    and "(of_int n :: rat) < of_int (2 ^ nat (bitlen n))"
    by (simp_all only: of_int_le_iff of_int_less_iff)
  with pos show "2 powi (bitlen n - 1) \<le> (of_int n :: rat)" "(of_int n :: rat) < 2 powi bitlen n"
    by (simp_all add: power_int_def)
qed

lemma ilog2_bounds:
  assumes "0 < q"
  shows "2 powi ilog2 q \<le> q" "q < 2 powi (ilog2 q + 1)"
proof -
  obtain n d where nd: "quotient_of q = (n, d)" by fastforce
  then have d: "0 < d" and q: "q = of_int n / of_int d"
    by (auto dest: quotient_of_denom_pos quotient_of_div)
  with assms have n: "0 < n" by (auto simp: zero_less_divide_iff)
  let ?e = "bitlen n - bitlen d"
  note bn = bitlen_pow2_bounds [OF n] and bd = bitlen_pow2_bounds [OF d]
  have dpos: "(0 :: rat) < of_int d" using d by simp
  have lower: "2 powi (?e - 1) \<le> q"
  proof -
    have "(2 :: rat) powi (?e - 1) * of_int d \<le> 2 powi (?e - 1) * 2 powi bitlen d"
      using bd(2) by simp
    also have "\<dots> = 2 powi (bitlen n - 1)" by (simp flip: pow2_add add: algebra_simps)
    also have "\<dots> \<le> of_int n" by (rule bn(1))
    finally show ?thesis using dpos by (simp add: q le_divide_eq)
  qed
  have upper: "q < 2 powi (?e + 1)"
  proof -
    have "of_int n < (2 :: rat) powi bitlen n" by (rule bn(2))
    also have "\<dots> = 2 powi (?e + 1) * 2 powi (bitlen d - 1)"
      by (simp flip: pow2_add add: algebra_simps)
    also have "\<dots> \<le> 2 powi (?e + 1) * of_int d" using bd(1) by simp
    finally show ?thesis using dpos by (simp add: q divide_less_eq)
  qed
  show "2 powi ilog2 q \<le> q" "q < 2 powi (ilog2 q + 1)"
    using lower upper by (auto simp: ilog2_def nd Let_def)
qed

lemma ilog2_eqI:
  assumes "2 powi e \<le> q" and "q < 2 powi (e + 1)"
  shows "ilog2 q = e"
proof -
  have "0 < q" using assms(1) pow2_pos [of e] by linarith
  note b = ilog2_bounds [OF this]
  have "(2 :: rat) powi e < 2 powi (ilog2 q + 1)" using assms(1) b(2) by linarith
  moreover have "(2 :: rat) powi ilog2 q < 2 powi (e + 1)" using assms(2) b(1) by linarith
  ultimately show ?thesis by (simp add: pow2_strict_mono)
qed

lemma ilog2_mono: "0 < q \<Longrightarrow> q \<le> r \<Longrightarrow> ilog2 q \<le> ilog2 r"
proof -
  assume "0 < q" and "q \<le> r"
  then have "(2 :: rat) powi ilog2 q < 2 powi (ilog2 r + 1)"
    using ilog2_bounds(1) [of q] ilog2_bounds(2) [of r] by linarith
  then show ?thesis by (simp add: pow2_strict_mono)
qed

subsection \<open>Rounding is monotone, symmetric and idempotent\<close>

lemma rnd_val_0 [simp]: "rnd_val 0 = 0"
  by (simp add: rnd_val_def)

lemma ulp_exp_uminus [simp]: "ulp_exp (- q) = ulp_exp q"
  by (simp add: ulp_exp_def)

lemma rnd_val_uminus: "rnd_val (- q) = - rnd_val q"
  using round_half_even_uminus [of "q / 2 powi ulp_exp q"] by (simp add: rnd_val_def)

lemma rnd_val_le_multiple:
  assumes "q \<le> of_int m * 2 powi ulp_exp q"
  shows "rnd_val q \<le> of_int m * 2 powi ulp_exp q"
proof (cases "q = 0")
  case True
  with assms show ?thesis by simp
next
  case False
  have "q / 2 powi ulp_exp q \<le> of_int m" using assms by (simp add: divide_le_eq)
  then have "round_half_even (q / 2 powi ulp_exp q) \<le> m" by (rule round_half_even_le)
  with False show ?thesis by (simp add: rnd_val_def)
qed

lemma rnd_val_ge_multiple:
  assumes "of_int m * 2 powi ulp_exp q \<le> q"
  shows "of_int m * 2 powi ulp_exp q \<le> rnd_val q"
proof -
  have "- q \<le> of_int (- m) * 2 powi ulp_exp (- q)" using assms by simp
  from rnd_val_le_multiple [OF this] show ?thesis by (simp add: rnd_val_uminus)
qed

lemma pow2_as_multiple:
  assumes "e \<le> k"
  shows "2 powi k = of_int (2 ^ nat (k - e)) * (2 :: rat) powi e"
proof -
  have "(2 :: rat) powi k = 2 powi (k - e) * 2 powi e" by (simp flip: pow2_add)
  with assms show ?thesis by (simp add: power_int_def)
qed

lemma rnd_val_le_pow2: "q \<le> 2 powi k \<Longrightarrow> ulp_exp q \<le> k \<Longrightarrow> rnd_val q \<le> 2 powi k"
  using rnd_val_le_multiple [of q "2 ^ nat (k - ulp_exp q)"] pow2_as_multiple [of "ulp_exp q" k]
  by metis

lemma rnd_val_ge_pow2: "2 powi k \<le> q \<Longrightarrow> ulp_exp q \<le> k \<Longrightarrow> 2 powi k \<le> rnd_val q"
  using rnd_val_ge_multiple [of "2 ^ nat (k - ulp_exp q)" q] pow2_as_multiple [of "ulp_exp q" k]
  by metis

lemma rnd_val_mono_pos:
  assumes "0 < q" and "q \<le> r"
  shows "rnd_val q \<le> rnd_val r"
proof -
  have il: "ilog2 q \<le> ilog2 r" using assms by (rule ilog2_mono)
  show ?thesis
  proof (cases "ulp_exp q = ulp_exp r")
    case True
    have "q / 2 powi ulp_exp r \<le> r / 2 powi ulp_exp r"
      using assms(2) by (simp add: divide_right_mono)
    from round_half_even_mono [OF this] True assms show ?thesis by (simp add: rnd_val_def)
  next
    case False
    with il assms have e: "ulp_exp q < ulp_exp r" and r: "ulp_exp r = ilog2 r - 52"
      and "ilog2 q < ilog2 r"
      by (auto simp: ulp_exp_def max_def split: if_splits)
    then have "2 powi (ilog2 q + 1) \<le> (2 :: rat) powi ilog2 r" by (simp add: pow2_mono)
    with ilog2_bounds(2) [OF assms(1)] have "q \<le> 2 powi ilog2 r" by linarith
    then have "rnd_val q \<le> 2 powi ilog2 r" by (rule rnd_val_le_pow2) (use e r in simp)
    also have "2 powi ilog2 r \<le> rnd_val r"
      by (rule rnd_val_ge_pow2) (use assms r ilog2_bounds(1) [of r] in auto)
    finally show ?thesis .
  qed
qed

lemma rnd_val_nonneg: "0 \<le> q \<Longrightarrow> 0 \<le> rnd_val q"
  using rnd_val_ge_multiple [of 0 q] by simp

lemma rnd_val_mono: "q \<le> r \<Longrightarrow> rnd_val q \<le> rnd_val r"
proof -
  assume le: "q \<le> r"
  consider "0 < q" | "q \<le> 0" "0 \<le> r" | "r < 0" by linarith
  then show ?thesis
  proof cases
    case 1
    with le show ?thesis by (intro rnd_val_mono_pos)
  next
    case 2
    then have "0 \<le> rnd_val (- q)" by (intro rnd_val_nonneg) simp
    with 2 show ?thesis using rnd_val_nonneg [of r] by (simp add: rnd_val_uminus)
  next
    case 3
    with le have "rnd_val (- r) \<le> rnd_val (- q)" by (intro rnd_val_mono_pos) auto
    then show ?thesis by (simp add: rnd_val_uminus)
  qed
qed

text \<open>A dyadic number with at most 53 significant bits is represented exactly.\<close>

lemma rnd_val_dyadic_pos:
  assumes "- 1074 \<le> e" and "0 < m" and "m \<le> 2 ^ 53"
  shows "rnd_val (of_int m * 2 powi e) = of_int m * 2 powi e"
proof -
  let ?v = "of_int m * 2 powi e :: rat"
  have v: "0 < ?v" using assms by simp
  have "\<exists>k. ?v = of_int k * 2 powi ulp_exp ?v"
  proof (cases "m = 2 ^ 53")
    case True
    have v_eq: "?v = 2 powi (e + 53)"
      using True pow2_as_multiple [of e "e + 53"] by simp
    then have "ilog2 ?v = e + 53" by (intro ilog2_eqI) (simp_all add: pow2_mono pow2_strict_mono)
    with v assms(1) have "ulp_exp ?v \<le> e + 53" by (auto simp: ulp_exp_def)
    from pow2_as_multiple [OF this] v_eq show ?thesis by metis
  next
    case False
    with assms have "m < 2 ^ 53" by simp
    then have "of_int m < (of_int (2 ^ 53) :: rat)" by (simp only: of_int_less_iff)
    then have "?v < of_int (2 ^ 53) * 2 powi e" by (rule mult_strict_right_mono) simp
    also have "\<dots> = 2 powi (e + 53)" using pow2_as_multiple [of e "e + 53"] by simp
    finally have "?v < 2 powi (e + 53)" .
    with ilog2_bounds(1) [OF v] have "(2 :: rat) powi ilog2 ?v < 2 powi (e + 53)" by linarith
    then have "ilog2 ?v < e + 53" by (simp only: pow2_strict_mono)
    with v assms(1) have le: "ulp_exp ?v \<le> e" by (auto simp: ulp_exp_def)
    have "?v = of_int (m * 2 ^ nat (e - ulp_exp ?v)) * 2 powi ulp_exp ?v"
      using pow2_as_multiple [OF le] by simp
    then show ?thesis by blast
  qed
  then obtain k where k: "?v = of_int k * 2 powi ulp_exp ?v" ..
  have "rnd_val ?v \<le> of_int k * 2 powi ulp_exp ?v"
    by (rule rnd_val_le_multiple) (rule eq_refl [OF k])
  moreover have "of_int k * 2 powi ulp_exp ?v \<le> rnd_val ?v"
    by (rule rnd_val_ge_multiple) (rule eq_refl [OF k [symmetric]])
  ultimately show ?thesis by (simp only: k [symmetric] order_eq_iff)
qed

lemma rnd_val_dyadic:
  assumes "- 1074 \<le> e" and "\<bar>m\<bar> \<le> 2 ^ 53"
  shows "rnd_val (of_int m * 2 powi e) = of_int m * 2 powi e"
proof -
  consider "m = 0" | "0 < m" | "m < 0" by linarith
  then show ?thesis
  proof cases
    case 2
    with assms show ?thesis by (intro rnd_val_dyadic_pos) auto
  next
    case 3
    with assms have "rnd_val (of_int (- m) * 2 powi e) = of_int (- m) * 2 powi e"
      by (intro rnd_val_dyadic_pos) auto
    then show ?thesis using rnd_val_uminus [of "of_int m * 2 powi e"] by simp
  qed simp
qed

lemma rnd_val_of_int: "\<bar>n\<bar> \<le> 2 ^ 53 \<Longrightarrow> rnd_val (of_int n) = of_int n"
  using rnd_val_dyadic [of 0 n] by simp

lemma rnd_val_form: "\<exists>m e. rnd_val q = of_int m * 2 powi e \<and> - 1074 \<le> e \<and> \<bar>m\<bar> \<le> 2 ^ 53"
proof (cases "q = 0")
  case True
  then show ?thesis by (intro exI [of _ 0]) simp
next
  case False
  let ?e = "ulp_exp q"
  let ?m = "round_half_even (q / 2 powi ?e)"
  have "\<bar>q\<bar> < 2 powi (ilog2 \<bar>q\<bar> + 1)" using False by (intro ilog2_bounds(2)) simp
  also have "\<dots> \<le> 2 powi (?e + 53)" by (simp add: pow2_mono ulp_exp_def)
  also have "\<dots> = of_int (2 ^ 53) * 2 powi ?e" using pow2_as_multiple [of ?e "?e + 53"] by simp
  finally have lt: "\<bar>q\<bar> < of_int (2 ^ 53) * 2 powi ?e" .
  have "q / 2 powi ?e \<le> of_int (2 ^ 53)" using lt by (simp add: divide_le_eq)
  moreover have "of_int (- (2 ^ 53)) \<le> q / 2 powi ?e" using lt by (simp add: le_divide_eq)
  ultimately have "?m \<le> 2 ^ 53" "- (2 ^ 53) \<le> ?m"
    by (simp_all only: round_half_even_le round_half_even_ge)
  then have "\<bar>?m\<bar> \<le> 2 ^ 53" by linarith
  moreover have "rnd_val q = of_int ?m * 2 powi ?e" using False by (simp add: rnd_val_def)
  ultimately show ?thesis by (intro exI [of _ ?m] exI [of _ ?e]) (simp add: ulp_exp_def)
qed

lemma rnd_val_idem [simp]: "rnd_val (rnd_val q) = rnd_val q"
  using rnd_val_form [of q] rnd_val_dyadic by metis

section \<open>Values and operations\<close>

text \<open>The rationals that are binary64 values.\<close>

definition representable :: "rat \<Rightarrow> bool" where
  "representable v \<longleftrightarrow> rnd v = Fin v"

fun is_float :: "pyfloat \<Rightarrow> bool" where
  "is_float (Fin v) = representable v"
| "is_float _ = True"

fun isfinite :: "pyfloat \<Rightarrow> bool" where
  "isfinite (Fin _) = True"
| "isfinite _ = False"

fun fle :: "pyfloat \<Rightarrow> pyfloat \<Rightarrow> bool" where
  "fle NaN _ = False"
| "fle _ NaN = False"
| "fle NInf _ = True"
| "fle _ PInf = True"
| "fle PInf _ = False"
| "fle _ NInf = False"
| "fle (Fin a) (Fin b) = (a \<le> b)"

definition flt :: "pyfloat \<Rightarrow> pyfloat \<Rightarrow> bool" where
  "flt a b \<longleftrightarrow> fle a b \<and> \<not> fle b a"

definition feq :: "pyfloat \<Rightarrow> pyfloat \<Rightarrow> bool" where
  "feq a b \<longleftrightarrow> fle a b \<and> fle b a"

lemma flt_Fin [simp]: "flt (Fin a) (Fin b) \<longleftrightarrow> a < b"
  by (auto simp: flt_def)

lemma feq_Fin [simp]: "feq (Fin a) (Fin b) \<longleftrightarrow> a = b"
  by (auto simp: feq_def)

lemma fle_refl: "fle a a \<longleftrightarrow> a \<noteq> NaN"
  by (cases a) auto

lemma fle_trans: "fle a b \<Longrightarrow> fle b c \<Longrightarrow> fle a c"
  by (cases a; cases b; cases c) auto

lemma rnd_cases:
  obtains "rnd q = PInf" "2 ^ 1024 \<le> rnd_val q"
  | "rnd q = NInf" "rnd_val q \<le> - (2 ^ 1024)"
  | "rnd q = Fin (rnd_val q)" "- (2 ^ 1024) < rnd_val q" "rnd_val q < 2 ^ 1024"
  by (cases "2 ^ 1024 \<le> rnd_val q"; cases "rnd_val q \<le> - (2 ^ 1024)")
    (auto simp: rnd_def Let_def)

lemma rnd_mono: "q \<le> r \<Longrightarrow> fle (rnd q) (rnd r)"
proof -
  assume "q \<le> r"
  then have "rnd_val q \<le> rnd_val r" by (rule rnd_val_mono)
  then show ?thesis by (cases q rule: rnd_cases; cases r rule: rnd_cases) auto
qed

lemma rnd_not_NaN [simp]: "rnd q \<noteq> NaN"
  by (simp add: rnd_def Let_def)

lemma rnd_0 [simp]: "rnd 0 = Fin 0"
  by (simp add: rnd_def)

lemma representable_rnd: "rnd q = Fin v \<Longrightarrow> representable v"
  by (cases q rule: rnd_cases) (auto simp: representable_def rnd_def Let_def)

lemma is_float_rnd [simp]: "is_float (rnd q)"
  by (cases q rule: rnd_cases) (auto simp: representable_def rnd_def Let_def)

lemma representable_of_int: "\<bar>n\<bar> \<le> 2 ^ 53 \<Longrightarrow> representable (of_int n)"
proof -
  assume n: "\<bar>n\<bar> \<le> 2 ^ 53"
  have "(2 :: int) ^ 53 < 2 ^ 1024" by (rule power_strict_increasing) auto
  with n have "n < 2 ^ 1024" and "- (2 ^ 1024) < n" by linarith+
  then have "of_int n < (of_int (2 ^ 1024) :: rat)" and "of_int (- (2 ^ 1024)) < (of_int n :: rat)"
    by (simp_all only: of_int_less_iff)
  with rnd_val_of_int [OF n] show ?thesis by (simp add: representable_def rnd_def Let_def)
qed

lemma rnd_Fin_le: "rnd q = Fin v \<Longrightarrow> representable b \<Longrightarrow> q \<le> b \<Longrightarrow> v \<le> b"
  using rnd_mono [of q b] by (simp add: representable_def)

lemma rnd_Fin_ge: "rnd q = Fin v \<Longrightarrow> representable b \<Longrightarrow> b \<le> q \<Longrightarrow> b \<le> v"
  using rnd_mono [of b q] by (simp add: representable_def)

text \<open>Arithmetic on floats; a zero divisor raises.\<close>

fun fneg :: "pyfloat \<Rightarrow> pyfloat" where
  "fneg (Fin a) = Fin (- a)"
| "fneg PInf = NInf"
| "fneg NInf = PInf"
| "fneg NaN = NaN"

fun fadd :: "pyfloat \<Rightarrow> pyfloat \<Rightarrow> pyfloat" where
  "fadd (Fin a) (Fin b) = rnd (a + b)"
| "fadd NaN _ = NaN"
| "fadd _ NaN = NaN"
| "fadd PInf NInf = NaN"
| "fadd NInf PInf = NaN"
| "fadd PInf _ = PInf"
| "fadd NInf _ = NInf"
| "fadd (Fin _) b = b"

definition fsub :: "pyfloat \<Rightarrow> pyfloat \<Rightarrow> pyfloat" where
  "fsub a b = fadd a (fneg b)"

fun fsign :: "pyfloat \<Rightarrow> int" where
  "fsign (Fin a) = (if a < 0 then - 1 else if a = 0 then 0 else 1)"
| "fsign PInf = 1"
| "fsign NInf = - 1"
| "fsign NaN = 0"

definition signed_inf :: "int \<Rightarrow> pyfloat" where
  "signed_inf s = (if 0 < s then PInf else if s < 0 then NInf else NaN)"

fun fmul :: "pyfloat \<Rightarrow> pyfloat \<Rightarrow> pyfloat" where
  "fmul (Fin a) (Fin b) = rnd (a * b)"
| "fmul a b = (if a = NaN \<or> b = NaN then NaN else signed_inf (fsign a * fsign b))"

fun fdiv :: "pyfloat \<Rightarrow> pyfloat \<Rightarrow> pyfloat res" where
  "fdiv a (Fin b) =
     (if b = 0 then Inl ZeroDivisionError
      else case a of Fin x \<Rightarrow> Inr (rnd (x / b)) | NaN \<Rightarrow> Inr NaN
        | _ \<Rightarrow> Inr (signed_inf (fsign a * fsign (Fin b))))"
| "fdiv a b = Inr (case a of Fin _ \<Rightarrow> if b = NaN then NaN else Fin 0 | _ \<Rightarrow> NaN)"

text \<open>\<open>float(n)\<close> and \<open>a / b\<close> on integers: correctly rounded, \<open>OverflowError\<close> out of range.\<close>

definition finite_or_overflow :: "pyfloat \<Rightarrow> pyfloat res" where
  "finite_or_overflow x = (if isfinite x then Inr x else Inl OverflowError)"

definition float_of_int :: "int \<Rightarrow> pyfloat res" where
  "float_of_int n = finite_or_overflow (rnd (of_int n))"

definition int_truediv :: "int \<Rightarrow> int \<Rightarrow> pyfloat res" where
  "int_truediv a b =
     (if b = 0 then Inl ZeroDivisionError else finite_or_overflow (rnd (of_int a / of_int b)))"

lemma finite_or_overflow_Inr [res_simps]:
  "finite_or_overflow x = Inr y \<longleftrightarrow> y = x \<and> isfinite x"
  by (auto simp: finite_or_overflow_def)

text \<open>\<open>max(a, b)\<close>: the first argument unless the second is greater.\<close>

definition fmax :: "pyfloat \<Rightarrow> pyfloat \<Rightarrow> pyfloat" where
  "fmax a b = (if flt a b then b else a)"

text \<open>\<open>round(x, n)\<close>: the exact decimal rounding, then the nearest float.\<close>

fun fround :: "nat \<Rightarrow> pyfloat \<Rightarrow> pyfloat" where
  "fround n (Fin v) = rnd (of_int (round_half_even (v * 10 ^ n)) / 10 ^ n)"
| "fround n x = x"

definition is_integer :: "pyfloat \<Rightarrow> bool" where
  "is_integer x = (case x of Fin v \<Rightarrow> of_int \<lfloor>v\<rfloor> = v | _ \<Rightarrow> False)"

text \<open>The order of floats under \<open>sort\<close>; a NaN does not occur in the sorted values.\<close>

definition float_key :: "pyfloat \<Rightarrow> int \<times> rat" where
  "float_key x = (case x of NInf \<Rightarrow> (- 1, 0) | Fin v \<Rightarrow> (0, v) | PInf \<Rightarrow> (1, 0) | NaN \<Rightarrow> (2, 0))"

fun fabs :: "pyfloat \<Rightarrow> pyfloat" where
  "fabs (Fin v) = Fin \<bar>v\<bar>"
| "fabs NInf = PInf"
| "fabs x = x"

text \<open>Code equations that keep the powers of two in the integers.\<close>

lemma pow2_code: "(2 :: rat) powi e = (if 0 \<le> e then of_int (2 ^ nat e) else 1 / of_int (2 ^ nat (- e)))"
  by (simp add: power_int_def power_one_over inverse_eq_divide)

lemma ilog2_code [code]:
  "ilog2 q = (case quotient_of q of (n, d) \<Rightarrow>
     (let e = bitlen n - bitlen d
      in if (if 0 \<le> e then 2 ^ nat e * d \<le> n else d \<le> n * 2 ^ nat (- e)) then e else e - 1))"
proof -
  obtain n d where nd: "quotient_of q = (n, d)" by fastforce
  then have d: "0 < (of_int d :: rat)" and q: "q = of_int n / of_int d"
    by (auto dest: quotient_of_denom_pos quotient_of_div)
  have "2 powi e \<le> q \<longleftrightarrow> (if 0 \<le> e then 2 ^ nat e * d \<le> n else d \<le> n * 2 ^ nat (- e))" for e
  proof (cases "0 \<le> e")
    case True
    have "2 powi e \<le> q \<longleftrightarrow> (of_int (2 ^ nat e * d) :: rat) \<le> of_int n"
      using True d by (simp add: q pow2_code le_divide_eq)
    with True show ?thesis by (simp only: of_int_le_iff if_True)
  next
    case False
    have "2 powi e \<le> q \<longleftrightarrow> (of_int d :: rat) \<le> of_int (n * 2 ^ nat (- e))"
      using False d by (simp add: q pow2_code le_divide_eq divide_le_eq)
    with False show ?thesis by (simp only: of_int_le_iff if_False)
  qed
  with nd show ?thesis by (simp add: ilog2_def Let_def)
qed

definition scaled_up :: "int \<Rightarrow> rat \<Rightarrow> rat" where
  "scaled_up e q = of_int (round_half_even (q / of_int (2 ^ nat e)) * 2 ^ nat e)"

definition scaled_down :: "int \<Rightarrow> rat \<Rightarrow> rat" where
  "scaled_down e q = of_int (round_half_even (q * of_int (2 ^ nat (- e)))) / of_int (2 ^ nat (- e))"

definition rnd_at :: "int \<Rightarrow> rat \<Rightarrow> rat" where
  "rnd_at e q = (if 0 \<le> e then scaled_up e q else scaled_down e q)"

lemma rnd_val_code [code]: "rnd_val q = (if q = 0 then 0 else rnd_at (ulp_exp q) q)"
  by (simp add: rnd_val_def rnd_at_def scaled_up_def scaled_down_def pow2_code)

definition rnd_pack :: "rat \<Rightarrow> pyfloat" where
  "rnd_pack v = (if v = 0 \<or> ilog2 \<bar>v\<bar> < 1024 then Fin v else if 0 < v then PInf else NInf)"

lemma ilog2_ge_iff: "0 < q \<Longrightarrow> e \<le> ilog2 q \<longleftrightarrow> 2 powi e \<le> q"
proof
  assume "0 < q" "e \<le> ilog2 q"
  with ilog2_bounds(1) [of q] show "2 powi e \<le> q"
    using pow2_mono [of e "ilog2 q"] by linarith
next
  assume q: "0 < q" and "2 powi e \<le> q"
  with ilog2_bounds(2) [of q] have "(2 :: rat) powi e < 2 powi (ilog2 q + 1)" by linarith
  then show "e \<le> ilog2 q" by (simp only: pow2_strict_mono)
qed

lemma rnd_code [code]: "rnd q = rnd_pack (rnd_val q)"
proof -
  define B :: rat where "B = 2 powi 1024"
  have B: "0 < B" "2 ^ 1024 = B"
    unfolding B_def by (rule zero_less_power_int, simp, simp only: power_int_numeral)
  have big: "ilog2 \<bar>v\<bar> < 1024 \<longleftrightarrow> \<bar>v\<bar> < B" if "v \<noteq> 0" for v
    using ilog2_ge_iff [of "\<bar>v\<bar>" 1024] that unfolding B_def by (simp only: not_le [symmetric] zero_less_abs_iff)
  define v where "v = rnd_val q"
  have "(if B \<le> v then PInf else if v \<le> - B then NInf else Fin v) = rnd_pack v"
  proof (cases "v = 0")
    case False
    then show ?thesis unfolding rnd_pack_def big [OF False] using B(1) by auto
  qed (use B(1) in \<open>simp add: rnd_pack_def\<close>)
  then show ?thesis unfolding rnd_def Let_def B(2) v_def .
qed

section \<open>Rendering\<close>

definition zeros :: "nat \<Rightarrow> pystr" where
  "zeros n = replicate n 48"

definition pad_digits :: "nat \<Rightarrow> pystr \<Rightarrow> pystr" where
  "pad_digits n s = zeros (n - length s) @ s"

text \<open>\<open>f"{x:.nf}"\<close>\<close>

definition fixed_rat :: "nat \<Rightarrow> rat \<Rightarrow> pystr" where
  "fixed_rat n q =
     (let ds = pad_digits (n + 1) (digits (round_half_even (\<bar>q\<bar> * of_int (10 ^ n))));
          k = length ds - n
      in (if q < 0 then lit ''-'' else []) @ take k ds @
         (if n = 0 then [] else lit ''.'' @ drop k ds))"

fun fmt_fixed :: "nat \<Rightarrow> pyfloat \<Rightarrow> pystr" where
  "fmt_fixed n (Fin v) = fixed_rat n v"
| "fmt_fixed n PInf = lit ''inf''"
| "fmt_fixed n NInf = lit ''-inf''"
| "fmt_fixed n NaN = lit ''nan''"

text \<open>\<open>f"{x:.0%}"\<close>: the product by 100 is a float product.\<close>

definition fmt_percent :: "pyfloat \<Rightarrow> pystr" where
  "fmt_percent x = fmt_fixed 0 (fmul x (Fin 100)) @ lit ''%''"

definition ilog10 :: "rat \<Rightarrow> int" where
  "ilog10 q = (case quotient_of q of (n, d) \<Rightarrow>
     (let e = int (length (digits n)) - int (length (digits d))
      in if 10 powi e \<le> q then e else e - 1))"

text \<open>The first \<open>p\<close> significant decimal digits of a positive number, and its exponent.\<close>

definition sig_digits :: "nat \<Rightarrow> rat \<Rightarrow> pystr \<times> int" where
  "sig_digits p q =
     (let e = ilog10 q; d = round_half_even (q / 10 powi (e - int p + 1))
      in if d = 10 ^ p then (digits (10 ^ (p - 1)), e + 1) else (digits d, e))"

definition strip_zeros :: "pystr \<Rightarrow> pystr" where
  "strip_zeros s = rev (dropWhile (\<lambda>c. c = 48) (rev s))"

definition point_frac :: "pystr \<Rightarrow> pystr" where
  "point_frac ds = (if ds = [] then [] else lit ''.'' @ ds)"

definition exp_text :: "int \<Rightarrow> pystr" where
  "exp_text e = lit ''e'' @ (if e < 0 then lit ''-'' else lit ''+'') @ pad_digits 2 (digits \<bar>e\<bar>)"

definition positional :: "pystr \<Rightarrow> int \<Rightarrow> pystr" where
  "positional ds e =
     (if e < 0 then lit ''0.'' @ zeros (nat (- e - 1)) @ strip_zeros ds
      else take (nat e + 1) ds @ point_frac (strip_zeros (drop (nat e + 1) ds)))"

text \<open>\<open>f"{x:g}"\<close>: six significant digits.\<close>

definition g_rat :: "rat \<Rightarrow> pystr" where
  "g_rat q =
     (if q = 0 then lit ''0'' else
       (case sig_digits 6 \<bar>q\<bar> of (ds, e) \<Rightarrow>
         (if q < 0 then lit ''-'' else []) @
         (if - 4 \<le> e \<and> e < 6 then positional ds e
          else take 1 ds @ point_frac (strip_zeros (drop 1 ds)) @ exp_text e)))"

fun fmt_g :: "pyfloat \<Rightarrow> pystr" where
  "fmt_g (Fin v) = g_rat v"
| "fmt_g PInf = lit ''inf''"
| "fmt_g NInf = lit ''-inf''"
| "fmt_g NaN = lit ''nan''"

end
