(* ===== verification/Model.thy ===== *)
theory Model
  imports PyFloat
begin

text \<open>
  The records of \<open>runtime_tools/model.py\<close> with the two views of a Python value the
  program distinguishes: \<open>obj\<close> is an arbitrary object as it comes from \<open>json.loads\<close>,
  \<open>yaml.load\<close> or a database row (\<open>value: object\<close> in the source), and \<open>json\<close> is the
  type \<open>JsonValue\<close> of values that passed validation. \<open>semantics.py\<close> follows.
\<close>

section \<open>Values\<close>

datatype json =
    JNull
  | JBool bool
  | JInt int
  | JFloat pyfloat
  | JStr pystr
  | JList "json list"
  | JObj "(pystr \<times> json) list"

type_synonym attrs = "(pystr \<times> json) list"

datatype obj =
    ONone
  | OBool bool
  | OInt int
  | OFloat pyfloat
  | OStr pystr
  | OBytes "nat list"
  | OList "obj list"
  | ODict "(obj \<times> obj) list"
  | OOther nat

fun obj_of_json :: "json \<Rightarrow> obj" where
  "obj_of_json JNull = ONone"
| "obj_of_json (JBool b) = OBool b"
| "obj_of_json (JInt i) = OInt i"
| "obj_of_json (JFloat x) = OFloat x"
| "obj_of_json (JStr s) = OStr s"
| "obj_of_json (JList vs) = OList (map obj_of_json vs)"
| "obj_of_json (JObj d) = ODict (map (\<lambda>(k, v). (OStr k, obj_of_json v)) d)"

text \<open>
  The values a runpack may hold: strings that encode as UTF-8, finite numbers, and
  dictionaries with distinct keys.
\<close>

fun json_ok :: "json \<Rightarrow> bool" where
  "json_ok (JFloat x) = isfinite x"
| "json_ok (JStr s) = utf8_ok s"
| "json_ok (JList vs) = list_all json_ok vs"
| "json_ok (JObj d) = (list_all (\<lambda>(k, v). utf8_ok k \<and> json_ok v) d \<and> distinct (map fst d))"
| "json_ok _ = True"

definition attrs_ok :: "attrs \<Rightarrow> bool" where
  "attrs_ok d \<longleftrightarrow> json_ok (JObj d)"

lemma attrs_ok_Nil [simp]: "attrs_ok []"
  by (simp add: attrs_ok_def)

text \<open>Python's \<open>==\<close> on the scalars: \<open>bool\<close>, \<open>int\<close> and \<open>float\<close> compare by number.\<close>

fun numeric_value :: "json \<Rightarrow> pyfloat option" where
  "numeric_value (JBool b) = Some (Fin (if b then 1 else 0))"
| "numeric_value (JInt i) = Some (Fin (of_int i))"
| "numeric_value (JFloat x) = Some x"
| "numeric_value _ = None"

section \<open>Records\<close>

record execution =
  exec_id :: pystr
  exec_name :: pystr
  exec_started_at_ns :: int
  exec_finished_at_ns :: "int option"
  exec_command :: "pystr list"
  exec_working_directory :: pystr
  exec_exit_code :: "int option"
  exec_revision :: "pystr option"
  exec_metadata :: attrs

record entity =
  ent_id :: pystr
  ent_kind :: pystr
  ent_name :: pystr
  ent_parent_id :: "pystr option"
  ent_attributes :: attrs

record event =
  ev_id :: pystr
  ev_kind :: pystr
  ev_name :: pystr
  ev_entity_id :: "pystr option"
  ev_started_at_ns :: "int option"
  ev_finished_at_ns :: "int option"
  ev_clock_domain :: "pystr option"
  ev_uncertainty_ns :: "int option"
  ev_sequence :: "int option"
  ev_attributes :: attrs

record causal_edge =
  edge_source :: pystr
  edge_target :: pystr
  edge_kind :: pystr
  edge_confidence :: pyfloat
  edge_attributes :: attrs

record measurement =
  meas_name :: pystr
  meas_value :: pyfloat
  meas_unit :: pystr
  meas_timestamp_ns :: "int option"
  meas_entity_id :: "pystr option"
  meas_attributes :: attrs

record attachment =
  att_id :: pystr
  att_kind :: pystr
  att_name :: pystr
  att_media_type :: pystr
  att_content :: "nat list"
  att_attributes :: attrs

section \<open>Shared predicates (semantics.py)\<close>

text \<open>\<open>status in (2, "2", "STATUS_CODE_ERROR")\<close>\<close>

definition is_error_status :: "json \<Rightarrow> bool" where
  "is_error_status v \<longleftrightarrow>
     numeric_value v = Some (Fin 2) \<or> v = JStr (lit ''2'') \<or> v = JStr (lit ''STATUS_CODE_ERROR'')"

definition is_operation_error :: "attrs \<Rightarrow> bool" where
  "is_operation_error a \<longleftrightarrow>
     dget a (lit ''error'') = Some (JBool True) \<or>
     (case dget a (lit ''otel.status.code'') of None \<Rightarrow> False | Some v \<Rightarrow> is_error_status v) \<or>
     (case dget a (lit ''error.type'') of Some (JStr s) \<Rightarrow> s \<noteq> [] | _ \<Rightarrow> False)"

lemma is_operation_error_flag: "is_operation_error (dset (lit ''error'') (JBool True) a)"
  by (simp add: is_operation_error_def)

end
