(* ===== verification/JsonSupport.thy ===== *)
theory JsonSupport
  imports Model
begin

text \<open>
  \<open>runtime_tools/json_support.py\<close>: the hooks given to \<open>json.loads\<close>, the protocol
  discriminator of output documents.
\<close>

section \<open>Object hooks\<close>

definition reject_duplicate_step :: "pystr \<times> obj \<Rightarrow> (obj, obj) dict res \<Rightarrow> (obj, obj) dict res" where
  "reject_duplicate_step kv r = rbind r (\<lambda>d.
     if has_key d (OStr (fst kv)) then Inl (ValueError (lit ''duplicate JSON key: '' @ fst kv))
     else Inr (dset (OStr (fst kv)) (snd kv) d))"

definition reject_duplicate_object :: "(pystr \<times> obj) list \<Rightarrow> (obj, obj) dict res" where
  "reject_duplicate_object pairs = fold reject_duplicate_step pairs (Inr [])"

lemma reject_duplicate_fold_Inl: "fold reject_duplicate_step pairs (Inl e) = Inl e"
  by (induction pairs) (simp_all add: reject_duplicate_step_def)

lemma update_new_key: "k \<notin> fst ` set d \<Longrightarrow> AList.update k v d = d @ [(k, v)]"
  by (induction d) auto

text \<open>The hook returns the members in their order, and fails exactly on a repeated name.\<close>

lemma reject_duplicate_fold:
  "fold reject_duplicate_step pairs (Inr d) =
     (if distinct (map fst pairs) \<and> (\<forall>k\<in>fst ` set pairs. OStr k \<notin> fst ` set d)
      then Inr (d @ map (\<lambda>(k, v). (OStr k, v)) pairs)
      else fold reject_duplicate_step pairs (Inr d))"
proof (induction pairs arbitrary: d)
  case (Cons p pairs)
  obtain k v where p: "p = (k, v)" by (cases p)
  show ?case
  proof (cases "distinct (map fst (p # pairs)) \<and> (\<forall>k\<in>fst ` set (p # pairs). OStr k \<notin> fst ` set d)")
    case True
    with p have "reject_duplicate_step p (Inr d) = Inr (d @ [(OStr k, v)])"
      by (simp add: reject_duplicate_step_def has_key_def update_new_key)
    moreover have "distinct (map fst pairs) \<and> (\<forall>k'\<in>fst ` set pairs. OStr k' \<notin> fst ` set (d @ [(OStr k, v)]))"
      using True p by (auto simp: image_def)
    ultimately show ?thesis using True Cons.IH [of "d @ [(OStr k, v)]"] p by simp
  qed auto
qed simp

lemma reject_duplicate_object_distinct:
  "distinct (map fst pairs) \<Longrightarrow>
     reject_duplicate_object pairs = Inr (map (\<lambda>(k, v). (OStr k, v)) pairs)"
  using reject_duplicate_fold [of pairs "[]"] by (simp add: reject_duplicate_object_def)

text \<open>A decoded document as a value of \<open>JsonValue\<close>.\<close>

fun json_of_obj :: "obj \<Rightarrow> json" where
  "json_of_obj (OBool b) = JBool b"
| "json_of_obj (OInt n) = JInt n"
| "json_of_obj (OFloat x) = JFloat x"
| "json_of_obj (OStr s) = JStr s"
| "json_of_obj (OList vs) = JList (map json_of_obj vs)"
| "json_of_obj (ODict d) = JObj (map (\<lambda>(k, v). (case k of OStr s \<Rightarrow> s | _ \<Rightarrow> [], json_of_obj v)) d)"
| "json_of_obj _ = JNull"

lemma json_of_obj_of_json [simp]: "json_of_obj (obj_of_json j) = j"
  by (induction j) (force intro!: map_idI)+

definition output_document :: "pystr \<Rightarrow> attrs \<Rightarrow> attrs res" where
  "output_document document_type body =
     (if has_key body (lit ''document_type'') \<or> has_key body (lit ''format_version'')
      then Inl (ValueError (lit ''output document body contains reserved protocol fields''))
      else Inr ((lit ''document_type'', JStr document_type) #
                (lit ''format_version'', JStr (lit ''2'')) # body))"

end
