(* ===== verification/PyJson.thy ===== *)
theory PyJson
  imports JsonSupport
begin

text \<open>
  What the runpack storage uses of Python's \<open>json\<close> module:
  \<open>json.dumps(v, allow_nan=False, separators=(",", ":"), sort_keys=True)\<close> and
  \<open>json.loads(s, object_pairs_hook=reject_duplicate_object)\<close>, with or without a
  \<open>parse_constant\<close> that refuses \<open>NaN\<close> and the infinities. The scanner follows
  \<open>json.scanner\<close> and \<open>json.decoder\<close>; its recursion bound is the length of the text,
  which is never exhausted (\<open>json_loads_fuel\<close>). The recursion limit of the interpreter is not
  part of these two functions: text that nests some thousands of lists or objects deep ends in a
  \<open>RecursionError\<close> in Python and in its value here. The programs that read such text turn the
  error into one of their own (\<open>storage/_validation.py\<close>, \<open>storage/_reader.py\<close>, \<open>json_support.py\<close>, \<open>annotations.py\<close>,
  \<open>proofline/contracts.py\<close>, \<open>deep_profile/_parsing.py\<close>); \<open>StorageValidation\<close> models this for the fields of a
  runpack, where the room of the stack is an argument.
\<close>

section \<open>Encoding\<close>

definition hex_digit :: "nat \<Rightarrow> nat" where
  "hex_digit n = (if n < 10 then 48 + n else 87 + n)"

definition hex4 :: "nat \<Rightarrow> pystr" where
  "hex4 n = [hex_digit (n div 4096 mod 16), hex_digit (n div 256 mod 16),
             hex_digit (n div 16 mod 16), hex_digit (n mod 16)]"

definition u_escape :: "nat \<Rightarrow> pystr" where
  "u_escape n = [92, 117] @ hex4 n"

text \<open>\<open>ensure_ascii\<close>: everything outside the printable ASCII range is escaped.\<close>

definition escape_char :: "nat \<Rightarrow> pystr" where
  "escape_char c =
     (if c = 92 then [92, 92] else if c = 34 then [92, 34]
      else if c = 10 then [92, 110] else if c = 13 then [92, 114] else if c = 9 then [92, 116]
      else if c = 12 then [92, 102] else if c = 8 then [92, 98]
      else if 32 \<le> c \<and> c \<le> 126 then [c]
      else if c < 0x10000 then u_escape c
      else u_escape (0xD800 + (c - 0x10000) div 0x400) @ u_escape (0xDC00 + (c - 0x10000) mod 0x400))"

definition encode_string :: "pystr \<Rightarrow> pystr" where
  "encode_string s = [34] @ concat (map escape_char s) @ [34]"

text \<open>The interpreter refuses to convert integers of more than 4300 digits to or from text.\<close>

definition int_repr :: "int \<Rightarrow> pystr res" where
  "int_repr i =
     (if 4300 < length (digits \<bar>i\<bar>) then Inl (ValueError (lit ''int string conversion limit''))
      else Inr (int_text i))"

text \<open>
  \<open>float.__repr__\<close>: the shortest decimal that reads back as the same float, the nearest
  one first among those with the same number of digits.
\<close>

definition decimal_candidates :: "nat \<Rightarrow> rat \<Rightarrow> (int \<times> int) list" where
  "decimal_candidates p q =
     (let e = ilog10 q - int p + 1; x = q / 10 powi e; d = round_half_even x
      in [(d, e), (if of_int d \<le> x then d + 1 else d - 1, e)])"

definition reads_back :: "rat \<Rightarrow> int \<times> int \<Rightarrow> bool" where
  "reads_back q de \<longleftrightarrow> rnd (of_int (fst de) * 10 powi snd de) = Fin q"

definition shortest_decimal :: "rat \<Rightarrow> int \<times> int" where
  "shortest_decimal q =
     (case List.find (reads_back q) (concat (map (\<lambda>p. decimal_candidates p q) [1..<18])) of
        Some de \<Rightarrow> de | None \<Rightarrow> hd (decimal_candidates 17 q))"

definition repr_digits :: "pystr \<Rightarrow> int \<Rightarrow> pystr" where
  "repr_digits ds e =
     (let x = e + int (length ds) - 1; ds' = strip_zeros ds
      in if - 4 \<le> x \<and> x < 16
         then (if x < 0 then lit ''0.'' @ zeros (nat (- x - 1)) @ ds'
               else (let n = nat x + 1; ip = take n (ds' @ zeros (n - length ds')); fp = drop n ds'
                     in ip @ lit ''.'' @ (if fp = [] then lit ''0'' else fp)))
         else take 1 ds' @ point_frac (drop 1 ds') @ exp_text x)"

definition float_repr :: "rat \<Rightarrow> pystr" where
  "float_repr v =
     (if v = 0 then lit ''0.0''
      else (case shortest_decimal \<bar>v\<bar> of (d, e) \<Rightarrow>
        (if v < 0 then lit ''-'' else []) @ repr_digits (digits d) e))"

text \<open>With \<open>sort_keys\<close> the members are written in the order of their names.\<close>

definition sort_members :: "(pystr \<times> 'a) list \<Rightarrow> (pystr \<times> 'a) list" where
  "sort_members = sort_key fst"

lemma set_sort_members [simp]: "set (sort_members d) = set d"
  by (simp add: sort_members_def)

function json_dumps :: "json \<Rightarrow> pystr res" where
  "json_dumps JNull = Inr (lit ''null'')"
| "json_dumps (JBool b) = Inr (if b then lit ''true'' else lit ''false'')"
| "json_dumps (JInt i) = int_repr i"
| "json_dumps (JFloat x) =
     (case x of Fin v \<Rightarrow> Inr (float_repr v)
      | _ \<Rightarrow> Inl (ValueError (lit ''Out of range float values are not JSON compliant'')))"
| "json_dumps (JStr s) = Inr (encode_string s)"
| "json_dumps (JList vs) =
     rbind (traverse json_dumps vs) (\<lambda>ts. Inr (lit ''['' @ join (lit '','') ts @ lit '']''))"
| "json_dumps (JObj d) =
     rbind (traverse (\<lambda>(k, v). rbind (json_dumps v) (\<lambda>t. Inr (encode_string k @ lit '':'' @ t)))
              (sort_members d))
       (\<lambda>ts. Inr (lit ''{'' @ join (lit '','') ts @ lit ''}''))"
  by pat_completeness auto
termination
proof (relation "measure size")
  fix d :: "(pystr \<times> json) list" and p k v
  assume "p \<in> set (sort_members d)" and "(k, v) = p"
  then have "(k, v) \<in> set d" by simp
  then have "size v < Suc (size_list (size_prod (\<lambda>_. 0) size) d)"
    by (induction d) auto
  then show "(v, JObj d) \<in> measure size" by simp
qed (auto simp: less_Suc_eq_le size_list_estimation')

section \<open>Decoding\<close>

type_synonym 'a scan = "('a \<times> pystr) res"

abbreviation bad_json :: "'a res" where
  "bad_json \<equiv> Inl JSONDecodeError"

definition is_ws :: "nat \<Rightarrow> bool" where
  "is_ws c \<longleftrightarrow> c = 32 \<or> c = 9 \<or> c = 10 \<or> c = 13"

definition skip_ws :: "pystr \<Rightarrow> pystr" where
  "skip_ws s = dropWhile is_ws s"

definition is_digit :: "nat \<Rightarrow> bool" where
  "is_digit c \<longleftrightarrow> 48 \<le> c \<and> c \<le> 57"

definition hex_value :: "nat \<Rightarrow> nat option" where
  "hex_value c =
     (if 48 \<le> c \<and> c \<le> 57 then Some (c - 48) else if 97 \<le> c \<and> c \<le> 102 then Some (c - 87)
      else if 65 \<le> c \<and> c \<le> 70 then Some (c - 55) else None)"

fun scan_hex4 :: "pystr \<Rightarrow> nat scan" where
  "scan_hex4 (a # b # c # d # s) =
     (case (hex_value a, hex_value b, hex_value c, hex_value d) of
        (Some w, Some x, Some y, Some z) \<Rightarrow> Inr (((w * 16 + x) * 16 + y) * 16 + z, s)
      | _ \<Rightarrow> bad_json)"
| "scan_hex4 _ = bad_json"

definition is_high_surrogate :: "nat \<Rightarrow> bool" where
  "is_high_surrogate c \<longleftrightarrow> 0xD800 \<le> c \<and> c \<le> 0xDBFF"

definition is_low_surrogate :: "nat \<Rightarrow> bool" where
  "is_low_surrogate c \<longleftrightarrow> 0xDC00 \<le> c \<and> c \<le> 0xDFFF"

text \<open>
  The text after \<open>\u\<close>: a high surrogate is joined with a low surrogate that follows it
  as another escape.
\<close>

definition scan_u :: "pystr \<Rightarrow> nat scan" where
  "scan_u s = rbind (scan_hex4 s) (\<lambda>(c, s1).
     if is_high_surrogate c \<and> take 2 s1 = [92, 117] then
       rbind (scan_hex4 (drop 2 s1)) (\<lambda>(c2, s2).
         if is_low_surrogate c2 then Inr (0x10000 + (c - 0xD800) * 0x400 + (c2 - 0xDC00), s2)
         else Inr (c, s1))
     else Inr (c, s1))"

definition simple_escape :: "nat \<Rightarrow> nat option" where
  "simple_escape c =
     (if c = 34 then Some 34 else if c = 92 then Some 92 else if c = 47 then Some 47
      else if c = 98 then Some 8 else if c = 102 then Some 12 else if c = 110 then Some 10
      else if c = 114 then Some 13 else if c = 116 then Some 9 else None)"

lemma scan_hex4_shorter: "scan_hex4 s = Inr (c, r) \<Longrightarrow> length r < length s"
  by (induction s rule: scan_hex4.induct) (auto split: option.splits)

lemma scan_u_shorter: "scan_u s = Inr (c, r) \<Longrightarrow> length r < length s"
  by (fastforce simp: scan_u_def res_simps split: if_splits prod.splits dest: scan_hex4_shorter)

text \<open>The text after an opening quote (strict mode: no raw control characters).\<close>

function scan_string :: "pystr \<Rightarrow> pystr scan" where
  "scan_string [] = bad_json"
| "scan_string (c # s) =
     (if c = 34 then Inr ([], s)
      else if c = 92 then
        (case s of [] \<Rightarrow> bad_json
         | e # s1 \<Rightarrow>
           (if e = 117 then
              rbind (scan_u s1) (\<lambda>(u, s2). rbind (scan_string s2) (\<lambda>(t, r). Inr (u # t, r)))
            else (case simple_escape e of None \<Rightarrow> bad_json
              | Some u \<Rightarrow> rbind (scan_string s1) (\<lambda>(t, r). Inr (u # t, r)))))
      else if c < 32 then bad_json
      else rbind (scan_string s) (\<lambda>(t, r). Inr (c # t, r)))"
  by pat_completeness auto
termination
  by (relation "measure length") (auto dest: scan_u_shorter)

subsection \<open>Numbers\<close>

definition digits_value :: "pystr \<Rightarrow> int" where
  "digits_value ds = fold (\<lambda>c n. n * 10 + int (c - 48)) ds 0"

definition span_digits :: "pystr \<Rightarrow> pystr \<times> pystr" where
  "span_digits s = (takeWhile is_digit s, dropWhile is_digit s)"

text \<open>\<open>(\.[0-9]+)?\<close> and \<open>([eE][-+]?[0-9]+)?\<close>\<close>

definition scan_frac :: "pystr \<Rightarrow> pystr option \<times> pystr" where
  "scan_frac s = (case s of c # r \<Rightarrow>
       (if c = 46 \<and> takeWhile is_digit r \<noteq> [] then (Some (takeWhile is_digit r), dropWhile is_digit r)
        else (None, s))
     | [] \<Rightarrow> (None, s))"

definition scan_exp :: "pystr \<Rightarrow> int option \<times> pystr" where
  "scan_exp s = (case s of c # r \<Rightarrow>
       (if c = 101 \<or> c = 69 then
          (let neg = (take 1 r = [45]);
               r' = (if take 1 r = [45] \<or> take 1 r = [43] then drop 1 r else r);
               (ds, rest) = span_digits r'
           in if ds = [] then (None, s)
              else (Some (if neg then - digits_value ds else digits_value ds), rest))
        else (None, s))
     | [] \<Rightarrow> (None, s))"

definition parse_int :: "bool \<Rightarrow> pystr \<Rightarrow> obj res" where
  "parse_int neg ds =
     (if 4300 < length ds then Inl (ValueError (lit ''int string conversion limit''))
      else Inr (OInt (if neg then - digits_value ds else digits_value ds)))"

definition parse_float :: "bool \<Rightarrow> pystr \<Rightarrow> pystr option \<Rightarrow> int option \<Rightarrow> obj" where
  "parse_float neg ds fp ex =
     (let fs = (case fp of None \<Rightarrow> [] | Some f \<Rightarrow> f);
          e = (case ex of None \<Rightarrow> 0 | Some i \<Rightarrow> i);
          q = of_int (digits_value (ds @ fs)) * 10 powi (e - int (length fs))
      in OFloat (rnd (if neg then - q else q)))"

definition scan_number :: "bool \<Rightarrow> pystr \<Rightarrow> obj scan" where
  "scan_number neg s =
     (case s of [] \<Rightarrow> bad_json
      | c # r \<Rightarrow>
        (if \<not> is_digit c then bad_json else
          (let (ds, s1) = (if c = 48 then ([c], r) else span_digits s);
               (fp, s2) = scan_frac s1;
               (ex, s3) = scan_exp s2
           in if fp = None \<and> ex = None then rbind (parse_int neg ds) (\<lambda>v. Inr (v, s3))
              else Inr (parse_float neg ds fp ex, s3))))"

subsection \<open>Values\<close>

definition strip_prefix :: "pystr \<Rightarrow> pystr \<Rightarrow> pystr option" where
  "strip_prefix p s = (if take (length p) s = p then Some (drop (length p) s) else None)"

text \<open>
  The \<open>parse_constant\<close> hook: Python's default, and \<open>reject_nonfinite_constant\<close> of
  \<open>json_support.py\<close>.
\<close>

type_synonym const_hook = "pystr \<Rightarrow> obj res"

definition default_constant :: const_hook where
  "default_constant name = Inr (OFloat
     (if name = lit ''Infinity'' then PInf else if name = lit ''-Infinity'' then NInf else NaN))"

definition reject_nonfinite_constant :: const_hook where
  "reject_nonfinite_constant name = Inl (ValueError (lit ''non-finite JSON constant: '' @ name))"

definition scan_constant :: "const_hook \<Rightarrow> pystr \<Rightarrow> pystr \<Rightarrow> obj scan" where
  "scan_constant hook name r = rbind (hook name) (\<lambda>v. Inr (v, r))"

definition scan_atom :: "const_hook \<Rightarrow> pystr \<Rightarrow> obj scan" where
  "scan_atom hook s =
     (case strip_prefix (lit ''null'') s of Some r \<Rightarrow> Inr (ONone, r) | None \<Rightarrow>
     (case strip_prefix (lit ''true'') s of Some r \<Rightarrow> Inr (OBool True, r) | None \<Rightarrow>
     (case strip_prefix (lit ''false'') s of Some r \<Rightarrow> Inr (OBool False, r) | None \<Rightarrow>
     (case strip_prefix (lit ''NaN'') s of Some r \<Rightarrow> scan_constant hook (lit ''NaN'') r | None \<Rightarrow>
     (case strip_prefix (lit ''Infinity'') s of
        Some r \<Rightarrow> scan_constant hook (lit ''Infinity'') r | None \<Rightarrow>
     (case strip_prefix (lit ''-Infinity'') s of
        Some r \<Rightarrow> scan_constant hook (lit ''-Infinity'') r | None \<Rightarrow>
     (case s of c # r \<Rightarrow> if c = 45 then scan_number True r else scan_number False s
      | [] \<Rightarrow> bad_json)))))))"

definition expect :: "nat \<Rightarrow> pystr \<Rightarrow> pystr res" where
  "expect c s = (case s of [] \<Rightarrow> bad_json | d # r \<Rightarrow> if d = c then Inr r else bad_json)"

text \<open>The value at the start of the text, the items after \<open>[\<close> and the members after \<open>{\<close>.\<close>

fun scan_value :: "nat \<Rightarrow> const_hook \<Rightarrow> pystr \<Rightarrow> obj scan"
  and scan_items :: "nat \<Rightarrow> const_hook \<Rightarrow> pystr \<Rightarrow> obj list scan"
  and scan_members :: "nat \<Rightarrow> const_hook \<Rightarrow> pystr \<Rightarrow> (pystr \<times> obj) list scan"
where
  "scan_value 0 hook s = Inl FuelExhausted"
| "scan_value (Suc n) hook s =
     (case s of [] \<Rightarrow> bad_json
      | c # r \<Rightarrow>
        (if c = 34 then rbind (scan_string r) (\<lambda>(t, r'). Inr (OStr t, r'))
         else if c = 91 then
           (if take 1 (skip_ws r) = [93] then Inr (OList [], drop 1 (skip_ws r))
            else rbind (scan_items n hook (skip_ws r)) (\<lambda>(vs, r'). Inr (OList vs, r')))
         else if c = 123 then
           (if take 1 (skip_ws r) = [125]
            then rbind (reject_duplicate_object []) (\<lambda>d. Inr (ODict d, drop 1 (skip_ws r)))
            else rbind (scan_members n hook (skip_ws r)) (\<lambda>(ps, r').
              rbind (reject_duplicate_object ps) (\<lambda>d. Inr (ODict d, r'))))
         else scan_atom hook s))"
| "scan_items 0 hook s = Inl FuelExhausted"
| "scan_items (Suc n) hook s =
     rbind (scan_value n hook s) (\<lambda>(v, r).
       (case skip_ws r of [] \<Rightarrow> bad_json
        | c # r' \<Rightarrow>
          (if c = 93 then Inr ([v], r')
           else if c = 44 then
             rbind (scan_items n hook (skip_ws r')) (\<lambda>(vs, r''). Inr (v # vs, r''))
           else bad_json)))"
| "scan_members 0 hook s = Inl FuelExhausted"
| "scan_members (Suc n) hook s =
     rbind (expect 34 s) (\<lambda>s1. rbind (scan_string s1) (\<lambda>(k, s2).
     rbind (expect 58 (skip_ws s2)) (\<lambda>s3. rbind (scan_value n hook (skip_ws s3)) (\<lambda>(v, s4).
       (case skip_ws s4 of [] \<Rightarrow> bad_json
        | c # r \<Rightarrow>
          (if c = 125 then Inr ([(k, v)], r)
           else if c = 44 then
             rbind (scan_members n hook (skip_ws r)) (\<lambda>(ps, r'). Inr ((k, v) # ps, r'))
           else bad_json))))))"

definition json_loads :: "const_hook \<Rightarrow> pystr \<Rightarrow> obj res" where
  "json_loads hook s =
     (if take 1 s = [0xFEFF] then bad_json
      else rbind (scan_value (2 * length s + 1) hook (skip_ws s)) (\<lambda>(v, r).
        if skip_ws r = [] then Inr v else bad_json))"

subsection \<open>The recursion bound suffices\<close>

lemma length_skip_ws: "length (skip_ws s) \<le> length s"
  by (simp add: skip_ws_def length_dropWhile_le)

lemma skip_ws_Cons_shorter: "skip_ws s = c # r \<Longrightarrow> length r < length s"
  using length_skip_ws [of s] by simp

lemma expect_shorter: "expect c s = Inr r \<Longrightarrow> length r < length s"
  by (auto simp: expect_def split: list.splits if_splits)

lemma scan_string_shorter: "scan_string s = Inr (t, r) \<Longrightarrow> length r < length s"
proof (induction "length s" arbitrary: s t r rule: less_induct)
  case less
  have IH: "length r' < length s'" if "scan_string s' = Inr (t', r')" "length s' < length s" for s' t' r'
    using less.hyps [OF that(2,1)] .
  show ?case
  proof (cases s)
    case Nil
    with less.prems show ?thesis by simp
  next
    case (Cons c s0)
    consider "c = 34" | "c = 92" | "c \<noteq> 34" "c \<noteq> 92" by blast
    then show ?thesis
    proof cases
      case 1
      with less.prems Cons show ?thesis by simp
    next
      case 2
      with less.prems Cons obtain e s1 where s0: "s0 = e # s1" by (auto split: list.splits)
      show ?thesis
      proof (cases "e = 117")
        case True
        with 2 less.prems Cons s0 obtain u s2 t' where "scan_u s1 = Inr (u, s2)" "scan_string s2 = Inr (t', r)"
          by (auto simp: res_simps)
        with Cons s0 show ?thesis using IH [of s2 t' r] by (auto dest: scan_u_shorter)
      next
        case False
        with 2 less.prems Cons s0 obtain t' where "scan_string s1 = Inr (t', r)"
          by (auto simp: res_simps split: option.splits)
        with Cons s0 show ?thesis using IH [of s1 t' r] by auto
      qed
    next
      case 3
      with less.prems Cons obtain t' where "scan_string s0 = Inr (t', r)"
        by (auto simp: res_simps split: if_splits)
      with Cons show ?thesis using IH [of s0 t' r] by auto
    qed
  qed
qed

lemma scan_frac_le: "scan_frac s = (f, r) \<Longrightarrow> length r \<le> length s"
  by (auto simp: scan_frac_def length_dropWhile_le le_SucI split: list.splits if_splits)

lemma scan_exp_le: "scan_exp s = (x, r) \<Longrightarrow> length r \<le> length s"
proof -
  have "length (dropWhile is_digit (tl xs)) \<le> length xs" for xs
    using length_dropWhile_le [of is_digit "tl xs"] by (cases xs) auto
  then show "scan_exp s = (x, r) \<Longrightarrow> length r \<le> length s"
    by (auto simp: scan_exp_def span_digits_def Let_def drop_Suc length_dropWhile_le le_SucI
        split: list.splits if_splits)
qed

lemma scan_number_shorter: "scan_number neg s = Inr (v, r) \<Longrightarrow> length r < length s"
proof (cases s)
  case (Cons c s0)
  assume scan: "scan_number neg s = Inr (v, r)"
  then have digit: "is_digit c" using Cons by (auto simp: scan_number_def split: if_splits)
  define rest where "rest = (if c = 48 then s0 else dropWhile is_digit s)"
  have rest: "length rest < length s"
    using Cons digit length_dropWhile_le [of is_digit s0] by (auto simp: rest_def le_less_Suc_eq less_Suc_eq_le)
  obtain f s2 where f: "scan_frac rest = (f, s2)" by fastforce
  obtain x s3 where x: "scan_exp s2 = (x, s3)" by fastforce
  from scan Cons digit f x have "r = s3"
    by (auto simp: scan_number_def rest_def span_digits_def Let_def res_simps split: if_splits)
  with rest scan_frac_le [OF f] scan_exp_le [OF x] show ?thesis by simp
qed (simp add: scan_number_def)

lemma strip_prefix_shorter: "strip_prefix p s = Some r \<Longrightarrow> p \<noteq> [] \<Longrightarrow> length r < length s"
  by (auto simp: strip_prefix_def split: if_splits) (metis diff_less length_greater_0_conv take_Nil)

lemma scan_atom_shorter: "scan_atom hook s = Inr (v, r) \<Longrightarrow> length r < length s"
  by (auto simp: scan_atom_def scan_constant_def res_simps
      split: option.splits list.splits if_splits
      dest: strip_prefix_shorter scan_number_shorter)

lemma scan_shorter:
  "scan_value n hook s = Inr (v, r) \<Longrightarrow> length r < length s"
  "scan_items n hook s = Inr (vs, r) \<Longrightarrow> length r < length s"
  "scan_members n hook s = Inr (ps, r) \<Longrightarrow> length r < length s"
proof (induction n arbitrary: s v vs ps r)
  case (Suc n)
  note ws = length_skip_ws
  {
    case 1
    then obtain c s0 where s: "s = c # s0" by (cases s) auto
    have le: "length (skip_ws s0) \<le> length s0" by (rule ws)
    then have le': "length (skip_ws s0) - Suc 0 < Suc (length s0)" by linarith
    from 1 s le' show ?case
      by (auto simp: res_simps split: if_splits
          dest!: scan_string_shorter scan_atom_shorter Suc.IH(2,3)
          dest: less_le_trans [OF _ le] intro: less_SucI)
  next
    case 2
    then obtain v r1 where v: "scan_value n hook s = Inr (v, r1)" by (auto simp: res_simps)
    then have r1: "length r1 < length s" by (rule Suc.IH(1))
    from 2 v obtain c r2 where c: "skip_ws r1 = c # r2" by (auto split: list.splits)
    have r2: "length r2 < length r1" by (rule skip_ws_Cons_shorter [OF c])
    from 2 v c show ?case
      using r1 r2 ws [of r2] by (auto simp: res_simps split: if_splits dest!: Suc.IH(2))
  next
    case 3
    then obtain s1 k s2 s3 v s4 where steps: "expect 34 s = Inr s1" "scan_string s1 = Inr (k, s2)"
        "expect 58 (skip_ws s2) = Inr s3" "scan_value n hook (skip_ws s3) = Inr (v, s4)"
      by (auto simp: res_simps)
    have lens: "length s1 < length s" "length s2 < length s1" "length s3 < length (skip_ws s2)"
        "length s4 < length (skip_ws s3)"
      using steps by (auto dest: expect_shorter scan_string_shorter Suc.IH(1))
    from 3 steps obtain c r2 where c: "skip_ws s4 = c # r2" by (auto split: list.splits)
    have r2: "length r2 < length s4" by (rule skip_ws_Cons_shorter [OF c])
    from 3 steps c show ?case
      using lens r2 ws [of r2] ws [of s2] ws [of s3]
      by (auto simp: res_simps split: if_splits dest!: Suc.IH(3))
  }
qed auto

lemma scan_hex4_fuel: "scan_hex4 s \<noteq> Inl FuelExhausted"
  by (induction s rule: scan_hex4.induct) (auto split: option.splits)

lemma scan_u_fuel: "scan_u s \<noteq> Inl FuelExhausted"
  by (auto simp: scan_u_def res_simps scan_hex4_fuel split: if_splits prod.splits)

lemma scan_string_fuel: "scan_string s \<noteq> Inl FuelExhausted"
proof (induction "length s" arbitrary: s rule: less_induct)
  case less
  show ?case
  proof (cases s)
    case (Cons c s0)
    with less.hyps show ?thesis
      by (auto simp: res_simps scan_u_fuel dest!: scan_u_shorter split: list.splits option.splits)
  qed simp
qed

lemma reject_duplicate_object_fuel: "reject_duplicate_object ps \<noteq> Inl FuelExhausted"
proof -
  have "r \<noteq> Inl FuelExhausted \<Longrightarrow> fold reject_duplicate_step ps r \<noteq> Inl FuelExhausted" for r
    by (induction ps arbitrary: r) (auto simp: reject_duplicate_step_def res_simps split: if_splits)
  then show ?thesis by (simp add: reject_duplicate_object_def)
qed

lemma scan_number_fuel: "scan_number neg s \<noteq> Inl FuelExhausted"
  by (cases s) (auto simp: scan_number_def parse_int_def res_simps split: prod.splits if_splits)

lemma scan_atom_fuel:
  assumes "\<And>name. hook name \<noteq> Inl FuelExhausted"
  shows "scan_atom hook s \<noteq> Inl FuelExhausted"
proof -
  have "scan_constant hook name r \<noteq> Inl FuelExhausted" for name r
    using assms by (auto simp: scan_constant_def res_simps)
  then show ?thesis
    unfolding scan_atom_def by (simp add: scan_number_fuel split: option.split list.split)
qed

lemma scan_fuel:
  assumes hook: "\<And>name. hook name \<noteq> Inl FuelExhausted"
  shows "2 * length s < n \<Longrightarrow> scan_value n hook s \<noteq> Inl FuelExhausted"
    and "2 * length s + 1 < n \<Longrightarrow> scan_items n hook s \<noteq> Inl FuelExhausted"
    and "2 * length s + 1 < n \<Longrightarrow> scan_members n hook s \<noteq> Inl FuelExhausted"
proof (induction n arbitrary: s)
  case (Suc n)
  note ws = length_skip_ws
  {
    case 1
    show ?case
    proof (cases s)
      case (Cons c s0)
      with 1 ws [of s0] have "2 * length (skip_ws s0) + 1 < n" by simp
      with Cons show ?thesis
        by (auto simp: res_simps scan_string_fuel scan_atom_fuel [OF hook] Suc.IH
            reject_duplicate_object_fuel split: if_splits)
    qed simp
  next
    case 2
    have items: "scan_items n hook (skip_ws r2) \<noteq> Inl FuelExhausted"
      if "scan_value n hook s = Inr (v, r1)" "skip_ws r1 = c # r2" for v r1 c r2
      using 2 ws [of r2] scan_shorter(1) [OF that(1)] skip_ws_Cons_shorter [OF that(2)]
      by (intro Suc.IH) linarith
    from 2 show ?case
      by (auto simp: res_simps Suc.IH items split: list.splits if_splits)
  next
    case 3
    have val: "scan_value n hook (skip_ws s3) \<noteq> Inl FuelExhausted"
      and "length s3 < length s"
      if "expect 34 s = Inr s1" "scan_string s1 = Inr (k, s2)" "expect 58 (skip_ws s2) = Inr s3"
      for s1 k s2 s3
      using 3 ws [of s3] ws [of s2] that
      by (auto intro!: Suc.IH dest!: expect_shorter scan_string_shorter)
    have members: "scan_members n hook (skip_ws r2) \<noteq> Inl FuelExhausted"
      if "expect 34 s = Inr s1" "scan_string s1 = Inr (k, s2)" "expect 58 (skip_ws s2) = Inr s3"
        "scan_value n hook (skip_ws s3) = Inr (v, s4)" "skip_ws s4 = c # r2"
      for s1 k s2 s3 v s4 c r2
      using 3 ws [of r2] ws [of s2] ws [of s3] that(1-3) scan_shorter(1) [OF that(4)]
        skip_ws_Cons_shorter [OF that(5)]
      by (auto intro!: Suc.IH dest!: expect_shorter scan_string_shorter)
    have ex: "expect c r \<noteq> Inl FuelExhausted" for c r
      by (auto simp: expect_def split: list.splits if_splits)
    show ?case
      by (auto simp: res_simps ex scan_string_fuel split: list.splits if_splits)
        (use val members in blast)+
  }
qed auto

theorem json_loads_fuel:
  assumes "\<And>name. hook name \<noteq> Inl FuelExhausted"
  shows "json_loads hook s \<noteq> Inl FuelExhausted"
proof -
  have "2 * length (skip_ws s) < 2 * length s + 1" using length_skip_ws [of s] by simp
  from scan_fuel(1) [OF assms this] show ?thesis
    by (auto simp: json_loads_def res_simps split: if_splits)
qed

text \<open>Decoding terminates on every text: with either of the program's constant hooks, the
  recursion bound given to the scanner (twice the length of the text) is never reached, so the
  result is a value or one of Python's errors.\<close>

theorem json_decoding_terminates:
  "json_loads default_constant s \<noteq> Inl FuelExhausted \<and>
   json_loads reject_nonfinite_constant s \<noteq> Inl FuelExhausted"
  by (simp add: json_loads_fuel default_constant_def reject_nonfinite_constant_def)

end
