(* ===== verification/StorageValidation.thy ===== *)
theory StorageValidation
  imports PyJson
begin

text \<open>
  \<open>storage/_validation.py\<close>: the checks between Python values and the cells of a
  runpack, used on the way in (every value the writer binds) and on the way out (every
  cell the reader returns), and the ordering of entities so that a parent precedes its
  children. The tables are in \<open>StorageDb\<close>. The check of a JSON value calls itself, and the interpreter may run
  out of stack; \<open>checked_json\<close>, \<open>json_field\<close> and \<open>object_field\<close>, which the tables use, are the case of enough room, and
  the section on the stack gives the same functions for any room.
\<close>

section \<open>Limits\<close>

definition schema_version_text :: pystr where
  "schema_version_text = lit ''1.1''"

definition max_runpack_json_bytes :: nat where
  "max_runpack_json_bytes = 4 * 1024 * 1024"

definition max_runpack_text_bytes :: nat where
  "max_runpack_text_bytes = 4 * 1024 * 1024"

definition max_runpack_attachment_bytes :: nat where
  "max_runpack_attachment_bytes = 64 * 1024 * 1024"

definition max_runpack_attachment_total_bytes :: nat where
  "max_runpack_attachment_total_bytes = 256 * 1024 * 1024"

definition max_runpack_file_bytes :: int where
  "max_runpack_file_bytes = 2 * 1024 ^ 3"

definition max_runpack_normalized_json_bytes :: nat where
  "max_runpack_normalized_json_bytes = 256 * 1024 * 1024"

definition max_runpack_normalized_text_bytes :: nat where
  "max_runpack_normalized_text_bytes = 256 * 1024 * 1024"

definition min_integer :: int where
  "min_integer = - (2 ^ 63)"

definition max_integer :: int where
  "max_integer = 2 ^ 63 - 1"

definition integer_ok :: "int \<Rightarrow> bool" where
  "integer_ok i \<longleftrightarrow> min_integer \<le> i \<and> i \<le> max_integer"

abbreviation nat_text :: "nat \<Rightarrow> pystr" where
  "nat_text n \<equiv> int_text (int n)"

abbreviation runpack_error :: "string \<Rightarrow> err" where
  "runpack_error s \<equiv> RunpackError (lit s)"

section \<open>JSON fields\<close>

definition checked_json_key :: "obj \<Rightarrow> pystr res" where
  "checked_json_key k = (case k of
     OStr s \<Rightarrow> if utf8_ok s then Inr s else Inl (runpack_error ''runpack JSON strings must be valid UTF-8'')
   | _ \<Rightarrow> Inl TypeError)"

lemma checked_json_key_Inr_iff: "checked_json_key k = Inr k' \<longleftrightarrow> k = OStr k' \<and> utf8_ok k'"
  by (auto simp: checked_json_key_def split: obj.splits)

fun is_str :: "obj \<Rightarrow> bool" where
  "is_str (OStr _) = True"
| "is_str _ = False"

fun checked_json :: "obj \<Rightarrow> json res" where
  "checked_json ONone = Inr JNull"
| "checked_json (OBool b) = Inr (JBool b)"
| "checked_json (OInt i) = Inr (JInt i)"
| "checked_json (OStr s) =
     (if utf8_ok s then Inr (JStr s)
      else Inl (runpack_error ''runpack JSON strings must be valid UTF-8''))"
| "checked_json (OFloat x) =
     (if isfinite x then Inr (JFloat x)
      else Inl (runpack_error ''non-finite number in runpack JSON''))"
| "checked_json (OList vs) = rbind (traverse checked_json vs) (\<lambda>js. Inr (JList js))"
| "checked_json (ODict d) =
     (if list_all (\<lambda>kv. is_str (fst kv)) d
      then rbind (traverse (\<lambda>(k, v). rbind (checked_json_key k) (\<lambda>k'.
             rbind (checked_json v) (\<lambda>v'. Inr (k', v')))) d) (\<lambda>js. Inr (JObj js))
      else Inl (runpack_error ''invalid value in runpack JSON''))"
| "checked_json (OBytes _) = Inl (runpack_error ''invalid value in runpack JSON'')"
| "checked_json (OOther _) = Inl (runpack_error ''invalid value in runpack JSON'')"

definition validate_json_size :: "pystr \<Rightarrow> unit res" where
  "validate_json_size s =
     raise_if (max_runpack_json_bytes < utf8_length s)
       (RunpackError (cat [lit ''runpack JSON exceeds the '', nat_text max_runpack_json_bytes,
          lit ''-byte field limit'']))"

text \<open>\<open>_json\<close>: whatever goes wrong in the check or the encoder is one error.\<close>

definition json_field :: "obj \<Rightarrow> pystr res" where
  "json_field v =
     (case rbind (checked_json v) json_dumps of
        Inl _ \<Rightarrow> Inl (runpack_error ''invalid JSON value for runpack'')
      | Inr encoded \<Rightarrow> rbind (validate_json_size encoded) (\<lambda>_. Inr encoded))"

definition attributes_field :: "attrs \<Rightarrow> pystr res" where
  "attributes_field a = json_field (obj_of_json (JObj a))"

definition validate_command_parts :: "pystr list \<Rightarrow> unit res" where
  "validate_command_parts parts =
     rbind (raise_if (parts \<noteq> [] \<and> hd parts = [])
              (runpack_error ''execution command executable must be non-empty''))
       (\<lambda>_. raise_if (list_ex (\<lambda>p. 0 \<in> set p) parts)
              (runpack_error ''execution command arguments cannot contain NUL bytes''))"

definition command_json :: "pystr list \<Rightarrow> pystr res" where
  "command_json parts = rbind (validate_command_parts parts) (\<lambda>_. json_field (OList (map OStr parts)))"

text \<open>
  \<open>_object\<close>: a JSON object read from a cell. The constants \<open>NaN\<close> and \<open>Infinity\<close> pass
  the decoder and are refused by the check. \<open>str\<close> values of SQLite are valid UTF-8,
  so the byte count is the one of the text.
\<close>

definition object_field :: "obj \<Rightarrow> attrs res" where
  "object_field v = (case v of
     OStr s \<Rightarrow> rbind (validate_json_size s) (\<lambda>_.
       (case json_loads default_constant s of
          Inl _ \<Rightarrow> Inl (runpack_error ''invalid JSON object in runpack'')
        | Inr decoded \<Rightarrow> rbind (checked_json decoded) (\<lambda>j.
            (case j of JObj d \<Rightarrow> Inr d
             | _ \<Rightarrow> Inl (runpack_error ''expected a JSON object in runpack'')))))
   | _ \<Rightarrow> Inl (runpack_error ''invalid JSON object in runpack''))"

text \<open>
  The check is the identity on the values it accepts: strings that encode and finite
  numbers, at every depth.
\<close>

fun json_clean :: "json \<Rightarrow> bool" where
  "json_clean (JFloat x) = isfinite x"
| "json_clean (JStr s) = utf8_ok s"
| "json_clean (JList vs) = list_all json_clean vs"
| "json_clean (JObj d) = list_all (\<lambda>(k, v). utf8_ok k \<and> json_clean v) d"
| "json_clean _ = True"

lemma json_ok_clean: "json_ok j \<Longrightarrow> json_clean j"
  by (induction j) (auto simp: list_all_iff)

lemma checked_json_complete: "json_clean j \<Longrightarrow> checked_json (obj_of_json j) = Inr j"
proof (induction j)
  case (JList vs)
  then have "traverse checked_json (map obj_of_json vs) = Inr vs"
    by (simp add: traverse_eq_Inr_iff list_all2_map1 list_all_iff list.rel_refl_strong)
  then show ?case by simp
next
  case (JObj d)
  let ?f = "\<lambda>(k, v). rbind (checked_json_key k) (\<lambda>k'. rbind (checked_json v) (\<lambda>v'. Inr (k', v')))"
  have "?f (OStr k, obj_of_json v) = Inr (k, v)" if "(k, v) \<in> set d" for k v
    using JObj.prems that JObj.IH [OF that] by (auto simp: checked_json_key_def list_all_iff)
  then have "traverse ?f (map (\<lambda>(k, v). (OStr k, obj_of_json v)) d) = Inr d"
    by (auto simp: traverse_eq_Inr_iff list_all2_map1 intro!: list.rel_refl_strong)
  then show ?case by (simp add: list_all_iff split_beta)
qed simp_all

lemma checked_json_sound: "checked_json v = Inr j \<Longrightarrow> v = obj_of_json j \<and> json_clean j"
proof (induction v arbitrary: j)
  case (OList vs)
  then obtain js where js: "j = JList js" "list_all2 (\<lambda>v j. checked_json v = Inr j) vs js"
    by (auto simp: res_simps traverse_eq_Inr_iff)
  from js(2) OList.IH have "vs = map obj_of_json js \<and> list_all json_clean js"
    by (induction vs js rule: list_all2_induct) auto
  with js(1) show ?case by simp
next
  case (ODict d)
  let ?f = "\<lambda>(k, v). rbind (checked_json_key k) (\<lambda>k'. rbind (checked_json v) (\<lambda>v'. Inr (k', v')))"
  have IH: "snd p = obj_of_json j' \<and> json_clean j'" if "p \<in> set d" "checked_json (snd p) = Inr j'" for p j'
    using ODict.IH(2) [of p "snd p" j'] that by (cases p) auto
  from ODict.prems obtain js where js: "j = JObj js" and t: "traverse ?f d = Inr js"
    by (auto simp: res_simps split: if_splits)
  from t have "list_all2 (\<lambda>p q. checked_json_key (fst p) = Inr (fst q) \<and> checked_json (snd p) = Inr (snd q)) d js"
    unfolding traverse_eq_Inr_iff by (rule list_all2_mono) (auto simp: res_simps split: prod.splits)
  then have "d = map (\<lambda>(k, v). (OStr k, obj_of_json v)) js \<and> list_all (\<lambda>(k, v). utf8_ok k \<and> json_clean v) js"
    using IH
  proof (induction d js rule: list_all2_induct)
    case (Cons p d q js)
    have "snd p = obj_of_json (snd q) \<and> json_clean (snd q)"
      using Cons.hyps(1) by (intro Cons.prems) auto
    moreover have "d = map (\<lambda>(k, v). (OStr k, obj_of_json v)) js \<and>
        list_all (\<lambda>(k, v). utf8_ok k \<and> json_clean v) js"
      by (rule Cons.IH) (rule Cons.prems, auto)
    ultimately show ?case using Cons.hyps(1)
      by (cases p; cases q) (simp add: checked_json_key_Inr_iff)
  qed simp
  with js show ?case by simp
qed (auto split: if_splits)

lemma checked_json_Inr_iff: "checked_json v = Inr j \<longleftrightarrow> v = obj_of_json j \<and> json_clean j"
  using checked_json_sound checked_json_complete by blast

section \<open>Scalars\<close>

definition blob_value :: "obj \<Rightarrow> nat list res" where
  "blob_value v = (case v of
     OBytes content \<Rightarrow>
       if max_runpack_attachment_bytes < length content
       then Inl (RunpackError (cat [lit ''attachment content exceeds the '',
              nat_text max_runpack_attachment_bytes, lit ''-byte runpack field limit'']))
       else Inr content
   | _ \<Rightarrow> Inl (runpack_error ''invalid binary attachment content in runpack''))"

text \<open>\<open>math.isfinite\<close> of an integer converts it, which overflows beyond the largest float.\<close>

definition measurement_value :: "obj \<Rightarrow> pyfloat res" where
  "measurement_value v = (case v of
     OInt i \<Rightarrow> float_of_int i
   | OFloat x \<Rightarrow> if isfinite x then Inr x else Inl (runpack_error ''measurement value must be finite'')
   | _ \<Rightarrow> Inl (runpack_error ''measurement value must be finite''))"

definition integer_value :: "bool \<Rightarrow> pystr \<Rightarrow> obj \<Rightarrow> int option res" where
  "integer_value opt label v = (case v of
     OInt i \<Rightarrow> if integer_ok i then Inr (Some i)
       else Inl (RunpackError (label @ lit '' exceeds the runpack integer range''))
   | _ \<Rightarrow> if v = ONone \<and> opt then Inr None
       else Inl (RunpackError (cat [label, lit '' must be an integer'',
              if opt then lit '' or null'' else []])))"

definition text_value :: "bool \<Rightarrow> pystr \<Rightarrow> obj \<Rightarrow> pystr option res" where
  "text_value opt label v =
     (if v = ONone \<and> opt then Inr None
      else (case v of
        OStr s \<Rightarrow>
          if s = [] then Inl (RunpackError (cat [label, lit '' must be a non-empty string'',
                           if opt then lit '' or null'' else []]))
          else if \<not> utf8_ok s then Inl (RunpackError (label @ lit '' must be valid UTF-8''))
          else if max_runpack_text_bytes < utf8_length s
            then Inl (RunpackError (cat [label, lit '' exceeds the '', nat_text max_runpack_text_bytes,
                   lit ''-byte runpack text field limit'']))
          else Inr (Some s)
      | _ \<Rightarrow> Inl (RunpackError (cat [label, lit '' must be a non-empty string'',
               if opt then lit '' or null'' else []]))))"

definition required_text :: "pystr \<Rightarrow> obj \<Rightarrow> pystr res" where
  "required_text label v = rbind (text_value False label v) assert_some"

definition required_integer :: "pystr \<Rightarrow> obj \<Rightarrow> int res" where
  "required_integer label v = rbind (integer_value False label v) assert_some"

definition confidence_value :: "obj \<Rightarrow> pyfloat res" where
  "confidence_value v = (case v of
     OInt i \<Rightarrow> rbind (float_of_int i) (\<lambda>x.
       if 0 \<le> i \<and> i \<le> 1 then Inr x
       else Inl (runpack_error ''causal edge confidence must be between 0 and 1''))
   | OFloat x \<Rightarrow>
       if isfinite x \<and> fle (Fin 0) x \<and> fle x (Fin 1) then Inr x
       else Inl (runpack_error ''causal edge confidence must be between 0 and 1'')
   | _ \<Rightarrow> Inl (runpack_error ''causal edge confidence must be between 0 and 1''))"

text \<open>The strings and integers that pass, as predicates.\<close>

definition text_ok :: "pystr \<Rightarrow> bool" where
  "text_ok s \<longleftrightarrow> s \<noteq> [] \<and> utf8_ok s \<and> utf8_length s \<le> max_runpack_text_bytes"

lemma text_value_Inr_iff [res_simps]:
  "text_value opt label v = Inr t \<longleftrightarrow>
     v = ONone \<and> opt \<and> t = None \<or> (\<exists>s. v = OStr s \<and> text_ok s \<and> t = Some s)"
  by (cases v) (auto simp: text_value_def text_ok_def)

lemma required_text_Inr_iff [res_simps]: "required_text label v = Inr s \<longleftrightarrow> v = OStr s \<and> text_ok s"
  by (auto simp: required_text_def res_simps)

lemma integer_value_Inr_iff [res_simps]:
  "integer_value opt label v = Inr t \<longleftrightarrow>
     v = ONone \<and> opt \<and> t = None \<or> (\<exists>i. v = OInt i \<and> integer_ok i \<and> t = Some i)"
  by (cases v) (auto simp: integer_value_def)

lemma required_integer_Inr_iff [res_simps]: "required_integer label v = Inr i \<longleftrightarrow> v = OInt i \<and> integer_ok i"
  by (auto simp: required_integer_def res_simps)

lemma blob_value_Inr_iff [res_simps]:
  "blob_value v = Inr c \<longleftrightarrow> v = OBytes c \<and> length c \<le> max_runpack_attachment_bytes"
  by (cases v) (auto simp: blob_value_def)

lemma text_value_simps [simp]:
  "text_ok s \<Longrightarrow> text_value opt label (OStr s) = Inr (Some s)"
  "text_value True label ONone = Inr None"
  "text_ok s \<Longrightarrow> required_text label (OStr s) = Inr s"
  by (auto simp: res_simps text_value_def text_ok_def)

lemma integer_value_simps [simp]:
  "integer_ok i \<Longrightarrow> integer_value opt label (OInt i) = Inr (Some i)"
  "integer_value True label ONone = Inr None"
  "integer_ok i \<Longrightarrow> required_integer label (OInt i) = Inr i"
  by (auto simp: res_simps integer_value_def)

section \<open>The interpreter's stack\<close>

text \<open>
  The check calls itself for every nested value. \<open>room\<close> is the number of nested calls that the interpreter's
  stack has left; a call without room raises \<open>RecursionError\<close>. Where there is room enough this is
  \<open>checked_json\<close>.
\<close>

definition checked_key_within :: "nat \<Rightarrow> obj \<Rightarrow> pystr res" where
  "checked_key_within room k = (if room = 0 then Inl RecursionError else checked_json_key k)"

fun checked_json_within :: "nat \<Rightarrow> obj \<Rightarrow> json res" where
  "checked_json_within 0 v = Inl RecursionError"
| "checked_json_within (Suc room) v = (case v of
     OList vs \<Rightarrow> rbind (traverse (checked_json_within room) vs) (\<lambda>js. Inr (JList js))
   | ODict d \<Rightarrow>
       if list_all (\<lambda>kv. is_str (fst kv)) d
       then rbind (traverse (\<lambda>(k, v). rbind (checked_key_within room k) (\<lambda>k'.
              rbind (checked_json_within room v) (\<lambda>v'. Inr (k', v')))) d) (\<lambda>js. Inr (JObj js))
       else Inl (runpack_error ''invalid value in runpack JSON'')
   | v \<Rightarrow> checked_json v)"

text \<open>How many calls are nested in each other for a value, and how many containers.\<close>

fun obj_depth :: "obj \<Rightarrow> nat" where
  "obj_depth (OList vs) = Suc (fold max (map obj_depth vs) 0)"
| "obj_depth (ODict d) = Suc (fold max (map (\<lambda>(k, v). obj_depth v) d) 0)"
| "obj_depth _ = 1"

fun obj_nesting :: "obj \<Rightarrow> nat" where
  "obj_nesting (OList vs) = Suc (fold max (map obj_nesting vs) 0)"
| "obj_nesting (ODict d) = Suc (fold max (map (\<lambda>(k, v). obj_nesting v) d) 0)"
| "obj_nesting _ = 0"

text \<open>\<open>_json\<close>: the encoder has room for \<open>containers\<close> nested lists and dictionaries.\<close>

definition json_dumps_within :: "nat \<Rightarrow> json \<Rightarrow> pystr res" where
  "json_dumps_within containers j = (if containers < obj_nesting (obj_of_json j) then Inl RecursionError else json_dumps j)"

definition json_field_within :: "nat \<Rightarrow> nat \<Rightarrow> obj \<Rightarrow> pystr res" where
  "json_field_within room containers v =
     (case rbind (checked_json_within room v) (json_dumps_within containers) of
        Inl _ \<Rightarrow> Inl (runpack_error ''invalid JSON value for runpack'')
      | Inr encoded \<Rightarrow> rbind (validate_json_size encoded) (\<lambda>_. Inr encoded))"

text \<open>\<open>_object\<close>: the decoder has room for as many nested containers.\<close>

definition object_field_within :: "nat \<Rightarrow> nat \<Rightarrow> obj \<Rightarrow> attrs res" where
  "object_field_within room containers v = (case v of
     OStr s \<Rightarrow> rbind (validate_json_size s) (\<lambda>_.
       (case json_loads default_constant s of
          Inl _ \<Rightarrow> Inl (runpack_error ''invalid JSON object in runpack'')
        | Inr decoded \<Rightarrow>
          if containers < obj_nesting decoded then Inl (runpack_error ''invalid JSON object in runpack'')
          else (case checked_json_within room decoded of
            Inl e \<Rightarrow> Inl (if e = RecursionError then runpack_error ''invalid JSON object in runpack'' else e)
          | Inr (JObj d) \<Rightarrow> Inr d
          | Inr _ \<Rightarrow> Inl (runpack_error ''expected a JSON object in runpack''))))
   | _ \<Rightarrow> Inl (runpack_error ''invalid JSON object in runpack''))"



lemma fold_max_le: "fold max xs (a::nat) \<le> n \<longleftrightarrow> a \<le> n \<and> (\<forall>x \<in> set xs. x \<le> n)"
  by (induction xs arbitrary: a) auto

lemma obj_depth_le:
  "obj_depth (OList vs) \<le> Suc n \<longleftrightarrow> (\<forall>v\<in>set vs. obj_depth v \<le> n)"
  "obj_depth (ODict d) \<le> Suc n \<longleftrightarrow> (\<forall>p\<in>set d. obj_depth (snd p) \<le> n)"
  by (simp_all add: fold_max_le split_beta del: fold_map)

lemma obj_depth_pos: "0 < obj_depth v"
  by (cases v) simp_all

declare obj_depth.simps(1,2) [simp del]

lemma traverse_same: "(\<And>x. x \<in> set xs \<Longrightarrow> f x = g x) \<Longrightarrow> traverse f xs = traverse g xs"
  by (rule traverse_cong) simp_all

definition checked_item :: "obj \<times> obj \<Rightarrow> (pystr \<times> json) res" where
  "checked_item p = rbind (checked_json_key (fst p)) (\<lambda>k'. rbind (checked_json (snd p)) (\<lambda>v'. Inr (k', v')))"

definition checked_item_within :: "nat \<Rightarrow> obj \<times> obj \<Rightarrow> (pystr \<times> json) res" where
  "checked_item_within room p =
     rbind (checked_key_within room (fst p)) (\<lambda>k'. rbind (checked_json_within room (snd p)) (\<lambda>v'. Inr (k', v')))"

lemma checked_items:
  "(\<lambda>(k, v). rbind (checked_json_key k) (\<lambda>k'. rbind (checked_json v) (\<lambda>v'. Inr (k', v')))) = checked_item"
  "(\<lambda>(k, v). rbind (checked_key_within room k) (\<lambda>k'. rbind (checked_json_within room v) (\<lambda>v'. Inr (k', v')))) = checked_item_within room"
  by (simp_all add: fun_eq_iff checked_item_def checked_item_within_def split_beta)

lemma checked_dict:
  "checked_json (ODict d) = (if list_all (\<lambda>kv. is_str (fst kv)) d
     then rbind (traverse checked_item d) (\<lambda>js. Inr (JObj js)) else Inl (runpack_error ''invalid value in runpack JSON''))"
  "checked_json_within (Suc room) (ODict d) = (if list_all (\<lambda>kv. is_str (fst kv)) d
     then rbind (traverse (checked_item_within room) d) (\<lambda>js. Inr (JObj js)) else Inl (runpack_error ''invalid value in runpack JSON''))"
  by (simp_all only: checked_json.simps checked_json_within.simps obj.case checked_items)

lemma checked_json_within_enough:
  "obj_depth v \<le> room \<Longrightarrow> checked_json_within room v = checked_json v"
proof (induction room arbitrary: v)
  case 0
  then show ?case using obj_depth_pos [of v] by simp
next
  case (Suc room)
  show ?case
  proof (cases v)
    case (OList vs)
    have "traverse (checked_json_within room) vs = traverse checked_json vs"
      by (rule traverse_same) (use Suc.prems in \<open>simp add: OList obj_depth_le Suc.IH\<close>)
    then show ?thesis by (simp add: OList)
  next
    case (ODict d)
    have "traverse (checked_item_within room) d = traverse checked_item d"
    proof (rule traverse_same)
      fix p assume "p \<in> set d"
      then have "obj_depth (snd p) \<le> room" using Suc.prems by (simp add: ODict obj_depth_le)
      moreover from this have "room \<noteq> 0" using obj_depth_pos [of "snd p"] by simp
      ultimately show "checked_item_within room p = checked_item p"
        by (simp add: checked_item_within_def checked_item_def checked_key_within_def Suc.IH)
    qed
    then show ?thesis by (simp only: ODict checked_dict)
  qed simp_all
qed

lemma checked_json_within_room: "checked_json_within room v = Inr j \<Longrightarrow> obj_depth v \<le> room"
proof (induction room arbitrary: v j)
  case (Suc room)
  show ?case
  proof (cases v)
    case (OList vs)
    then have "\<exists>js. traverse (checked_json_within room) vs = Inr js"
      using Suc.prems by (simp only: checked_json_within.simps obj.case rbind_eq_Inr_iff) blast
    then have "\<forall>x\<in>set vs. \<exists>y. checked_json_within room x = Inr y" unfolding traverse_defined .
    then show ?thesis unfolding OList obj_depth_le using Suc.IH by blast
  next
    case (ODict d)
    have "\<exists>js. traverse (checked_item_within room) d = Inr js"
      using Suc.prems unfolding ODict checked_dict
      by (cases "list_all (\<lambda>kv. is_str (fst kv)) d") (simp_all only: if_True if_False rbind_eq_Inr_iff sum.simps, blast)
    then have all: "\<forall>p\<in>set d. \<exists>y. checked_item_within room p = Inr y" unfolding traverse_defined .
    have "\<exists>y. checked_json_within room (snd p) = Inr y" if "p \<in> set d" for p
      using bspec [OF all that] by (auto simp: checked_item_within_def rbind_eq_Inr_iff)
    then show ?thesis unfolding ODict obj_depth_le using Suc.IH by blast
  qed simp_all
qed simp

lemma checked_json_within_Inr_iff: "checked_json_within room v = Inr j \<longleftrightarrow> obj_depth v \<le> room \<and> checked_json v = Inr j"
  using checked_json_within_enough checked_json_within_room by metis








lemma json_field_room:
  "obj_depth v \<le> room \<Longrightarrow> obj_nesting v \<le> containers \<Longrightarrow> json_field_within room containers v = json_field v"
proof -
  assume depth: "obj_depth v \<le> room" "obj_nesting v \<le> containers"
  have "rbind (checked_json v) (json_dumps_within containers) = rbind (checked_json v) json_dumps"
    using depth(2) checked_json_sound [of v] by (cases "checked_json v") (auto simp: json_dumps_within_def)
  then show ?thesis by (simp add: json_field_within_def json_field_def checked_json_within_enough depth(1))
qed

text \<open>A cell that nests too deep for the stack is an error, never another object.\<close>

lemma object_field_room: "object_field_within room containers v = Inr d \<Longrightarrow> object_field v = Inr d"
  by (cases v) (auto simp: object_field_within_def object_field_def rbind_eq_Inr_iff checked_json_within_Inr_iff
      split: sum.splits if_splits json.splits)

section \<open>Properties\<close>



end
