(* ===== verification/EntityHierarchy.thy ===== *)
theory EntityHierarchy
  imports StorageValidation
begin

text \<open>
  The entity part of \<open>storage/_validation.py\<close>: identities, the check that parent links
  form no cycle, and the order in which the writer inserts entities.
\<close>

section \<open>Identities\<close>

definition opt_obj :: "pystr option \<Rightarrow> obj" where
  "opt_obj x = (case x of None \<Rightarrow> ONone | Some s \<Rightarrow> OStr s)"

definition opt_int :: "int option \<Rightarrow> obj" where
  "opt_int x = (case x of None \<Rightarrow> ONone | Some i \<Rightarrow> OInt i)"

lemma opt_obj_simps [simp]: "opt_obj None = ONone" "opt_obj (Some s) = OStr s"
  by (simp_all add: opt_obj_def)

lemma opt_int_simps [simp]: "opt_int None = ONone" "opt_int (Some i) = OInt i"
  by (simp_all add: opt_int_def)

lemma opt_obj_iff [simp]: "opt_obj x = OStr s \<longleftrightarrow> x = Some s" "opt_obj x = ONone \<longleftrightarrow> x = None"
  "OStr s = opt_obj x \<longleftrightarrow> x = Some s" "ONone = opt_obj x \<longleftrightarrow> x = None"
  by (cases x; auto)+

lemma opt_int_iff [simp]: "opt_int x = OInt s \<longleftrightarrow> x = Some s" "opt_int x = ONone \<longleftrightarrow> x = None"
  "OInt s = opt_int x \<longleftrightarrow> x = Some s" "ONone = opt_int x \<longleftrightarrow> x = None"
  by (cases x; auto)+

definition entity_identity :: "entity \<Rightarrow> (pystr \<times> pystr option) res" where
  "entity_identity e =
     rbind (text_value False (lit ''entity id'') (OStr (ent_id e))) (\<lambda>entity_id.
     rbind (text_value True (lit ''parent entity id'') (opt_obj (ent_parent_id e))) (\<lambda>parent_id.
     rbind (assert_some entity_id) (\<lambda>i.
     if parent_id = Some i then Inl (runpack_error ''entity cannot be its own parent'')
     else Inr (i, parent_id))))"

definition opt_text_ok :: "pystr option \<Rightarrow> bool" where
  "opt_text_ok x \<longleftrightarrow> (case x of None \<Rightarrow> True | Some s \<Rightarrow> text_ok s)"

lemma opt_text_ok_simps [simp]: "opt_text_ok None" "opt_text_ok (Some s) \<longleftrightarrow> text_ok s"
  by (simp_all add: opt_text_ok_def)

definition opt_integer_ok :: "int option \<Rightarrow> bool" where
  "opt_integer_ok x \<longleftrightarrow> (case x of None \<Rightarrow> True | Some i \<Rightarrow> integer_ok i)"

lemma opt_integer_ok_simps [simp]: "opt_integer_ok None" "opt_integer_ok (Some i) \<longleftrightarrow> integer_ok i"
  by (simp_all add: opt_integer_ok_def)

lemma integer_value_opt_int [res_simps]:
  "integer_value True label (opt_int x) = Inr t \<longleftrightarrow> opt_integer_ok x \<and> t = x"
  by (cases x) (auto simp: res_simps)

lemma opt_int_inject [simp]: "opt_int x = opt_int y \<longleftrightarrow> x = y"
  by (cases x; cases y) auto

lemma text_value_opt_obj [res_simps]:
  "text_value True label (opt_obj x) = Inr t \<longleftrightarrow> opt_text_ok x \<and> t = x"
  by (cases x) (auto simp: res_simps)

lemma entity_identity_Inr_iff [res_simps]:
  "entity_identity e = Inr (i, p) \<longleftrightarrow>
     i = ent_id e \<and> p = ent_parent_id e \<and> text_ok (ent_id e) \<and> opt_text_ok (ent_parent_id e) \<and>
     ent_parent_id e \<noteq> Some (ent_id e)"
  by (cases "ent_parent_id e") (auto simp: entity_identity_def res_simps)

section \<open>Parent links form no cycle\<close>

definition cycle_error :: err where
  "cycle_error = runpack_error ''entity parent relationships contain a cycle''"

text \<open>The dictionary comprehension over the identities: a later entity of the same id wins.\<close>

definition parent_by_child :: "(pystr \<times> pystr option) list \<Rightarrow> (pystr, pystr) dict" where
  "parent_by_child ids =
     fold (\<lambda>(i, p) d. case p of None \<Rightarrow> d | Some q \<Rightarrow> dset i q d) ids []"

text \<open>The inner loop: follow the parents of one entity, \<open>trail\<close> is what it has passed.\<close>

function walk_parents ::
  "(pystr, pystr) dict \<Rightarrow> pystr list \<Rightarrow> pystr list \<Rightarrow> pystr \<Rightarrow> pystr list res"
where
  "walk_parents ps completed trail cur =
     (case dget ps cur of
        None \<Rightarrow> Inr trail
      | Some parent \<Rightarrow>
          if cur \<in> set completed then Inr trail
          else if cur \<in> set trail then Inl cycle_error
          else walk_parents ps completed (cur # trail) parent)"
  by pat_completeness auto
termination
proof (relation "measure (\<lambda>(ps, completed, trail, cur). card (fst ` set ps - set trail))")
  fix ps :: "(pystr, pystr) dict" and completed trail :: "pystr list" and cur parent
  assume cur: "dget ps cur = Some parent" and new: "cur \<notin> set trail"
  have "cur \<in> fst ` set ps" using cur by (force dest: map_of_SomeD)
  then have "fst ` set ps - set (cur # trail) \<subset> fst ` set ps - set trail" using new by auto
  then show "((ps, completed, cur # trail, parent), (ps, completed, trail, cur))
      \<in> measure (\<lambda>(ps, completed, trail, cur). card (fst ` set ps - set trail))"
    by (simp add: psubset_card_mono)
qed simp

declare walk_parents.simps [simp del]

fun check_parents :: "(pystr, pystr) dict \<Rightarrow> pystr list \<Rightarrow> pystr list \<Rightarrow> unit res" where
  "check_parents ps completed [] = Inr ()"
| "check_parents ps completed (k # ks) =
     rbind (walk_parents ps completed [] k) (\<lambda>trail. check_parents ps (trail @ completed) ks)"

definition validate_entity_hierarchy :: "entity list \<Rightarrow> unit res" where
  "validate_entity_hierarchy es =
     rbind (traverse entity_identity es) (\<lambda>ids.
       let ps = parent_by_child ids in check_parents ps [] (map fst ps))"

subsection \<open>The walk refuses exactly the cycles\<close>

definition parent_edges :: "(pystr, pystr) dict \<Rightarrow> (pystr \<times> pystr) set" where
  "parent_edges ps = {(c, p). dget ps c = Some p}"

text \<open>A node whose chain of parents ends.\<close>

inductive grounded :: "(pystr, pystr) dict \<Rightarrow> pystr \<Rightarrow> bool" for ps where
  "(\<And>p. dget ps c = Some p \<Longrightarrow> grounded ps p) \<Longrightarrow> grounded ps c"

inductive_simps grounded_iff: "grounded ps c"

lemma grounded_no_cycle: "grounded ps c \<Longrightarrow> (c, c) \<notin> (parent_edges ps)\<^sup>+"
proof (induction rule: grounded.induct)
  case (1 c)
  show ?case
  proof
    assume "(c, c) \<in> (parent_edges ps)\<^sup>+"
    then obtain p where p: "(c, p) \<in> parent_edges ps" "(p, c) \<in> (parent_edges ps)\<^sup>*"
      by (auto dest: tranclD)
    then have "(p, p) \<in> (parent_edges ps)\<^sup>+" by (rule rtrancl_into_trancl1 [rotated])
    with 1 p(1) show False by (auto simp: parent_edges_def)
  qed
qed

lemma walk_parents_grounded:
  assumes "walk_parents ps completed trail cur = Inr t" and "\<forall>c\<in>set completed. grounded ps c"
  shows "grounded ps cur \<and> (\<forall>c\<in>set t - set trail. grounded ps c)"
  using assms
proof (induction ps completed trail cur rule: walk_parents.induct)
  case (1 ps completed trail cur)
  show ?case
  proof (cases "dget ps cur")
    case None
    with 1 show ?thesis by (simp add: walk_parents.simps [of ps completed trail cur] grounded_iff [of ps cur])
  next
    case (Some parent)
    show ?thesis
    proof (cases "cur \<in> set completed")
      case True
      with 1 Some show ?thesis by (simp add: walk_parents.simps [of ps completed trail cur])
    next
      case False
      with 1 Some have "cur \<notin> set trail" "walk_parents ps completed (cur # trail) parent = Inr t"
        by (auto simp: walk_parents.simps [of ps completed trail cur] split: if_splits)
      with 1 Some False have IH: "grounded ps parent \<and> (\<forall>c\<in>set t - set (cur # trail). grounded ps c)"
        by blast
      then have "grounded ps cur" using Some by (simp add: grounded_iff [of ps cur])
      with IH show ?thesis by auto
    qed
  qed
qed

lemma walk_parents_cycle:
  assumes "walk_parents ps completed trail cur = Inl e"
    and "\<forall>c\<in>set trail. (c, cur) \<in> (parent_edges ps)\<^sup>+"
  shows "e = cycle_error \<and> (\<exists>c. (c, c) \<in> (parent_edges ps)\<^sup>+)"
  using assms
proof (induction ps completed trail cur rule: walk_parents.induct)
  case (1 ps completed trail cur)
  then obtain parent where p: "dget ps cur = Some parent"
    by (auto simp: walk_parents.simps [of ps completed trail cur] split: option.splits)
  then have edge: "(cur, parent) \<in> parent_edges ps" by (simp add: parent_edges_def)
  show ?case
  proof (cases "cur \<in> set trail")
    case True
    with 1 p show ?thesis
      by (auto simp: walk_parents.simps [of ps completed trail cur] split: if_splits)
  next
    case False
    with 1 p have "cur \<notin> set completed" "walk_parents ps completed (cur # trail) parent = Inl e"
      by (auto simp: walk_parents.simps [of ps completed trail cur] split: if_splits)
    moreover have "\<forall>c\<in>set (cur # trail). (c, parent) \<in> (parent_edges ps)\<^sup>+"
      using "1.prems"(2) edge by (auto intro: trancl.trancl_into_trancl)
    ultimately show ?thesis using "1.IH" [OF p] False by blast
  qed
qed

lemma check_parents_Inr:
  "check_parents ps completed ks = Inr u \<Longrightarrow> \<forall>c\<in>set completed. grounded ps c \<Longrightarrow>
     \<forall>c\<in>set ks. grounded ps c"
proof (induction ks arbitrary: completed)
  case (Cons k ks)
  then obtain t where t: "walk_parents ps completed [] k = Inr t"
      "check_parents ps (t @ completed) ks = Inr u"
    by (auto simp: res_simps)
  from walk_parents_grounded [OF t(1)] Cons.prems(2)
  have "grounded ps k" and "\<forall>c\<in>set (t @ completed). grounded ps c" by auto
  with Cons.IH [OF t(2)] show ?case by simp
qed simp

lemma check_parents_Inl:
  "check_parents ps completed ks = Inl e \<Longrightarrow> e = cycle_error \<and> (\<exists>c. (c, c) \<in> (parent_edges ps)\<^sup>+)"
  by (induction ks arbitrary: completed) (auto simp: res_simps dest: walk_parents_cycle)

lemma check_parents_iff:
  "check_parents ps [] (map fst ps) = Inr () \<longleftrightarrow> (\<forall>c. (c, c) \<notin> (parent_edges ps)\<^sup>+)"
proof
  assume ok: "check_parents ps [] (map fst ps) = Inr ()"
  show "\<forall>c. (c, c) \<notin> (parent_edges ps)\<^sup>+"
  proof (intro allI notI)
    fix c assume cyc: "(c, c) \<in> (parent_edges ps)\<^sup>+"
    then obtain p where "dget ps c = Some p" by (auto dest!: tranclD simp: parent_edges_def)
    then have "c \<in> set (map fst ps)" by (force dest: map_of_SomeD)
    with check_parents_Inr [OF ok] have "grounded ps c" by (simp only: list.set ball_empty simp_thms)
    with cyc grounded_no_cycle show False by blast
  qed
next
  assume "\<forall>c. (c, c) \<notin> (parent_edges ps)\<^sup>+"
  with check_parents_Inl show "check_parents ps [] (map fst ps) = Inr ()"
    by (cases "check_parents ps [] (map fst ps)") fastforce+
qed


section \<open>Parents first\<close>

text \<open>
  \<open>_parent_first_entities\<close> works on the positions of the entities: \<open>dependencies\<close> is 1
  for an entity whose parent is in the batch, \<open>children\<close> lists the positions that wait
  for an id, and a queue holds the positions that are ready.
\<close>

definition entity_waits :: "entity list \<Rightarrow> entity \<Rightarrow> bool" where
  "entity_waits es e \<longleftrightarrow> (case ent_parent_id e of None \<Rightarrow> False | Some p \<Rightarrow> p \<in> ent_id ` set es)"

definition initial_dependencies :: "entity list \<Rightarrow> int list" where
  "initial_dependencies es = map (\<lambda>e. if entity_waits es e then 1 else 0) es"

definition children_of :: "entity list \<Rightarrow> pystr \<Rightarrow> nat list" where
  "children_of es i =
     filter (\<lambda>k. entity_waits es (es ! k) \<and> ent_parent_id (es ! k) = Some i) [0..<length es]"

fun release_children :: "nat list \<Rightarrow> int list \<Rightarrow> nat list \<Rightarrow> int list \<times> nat list" where
  "release_children [] deps ready = (deps, ready)"
| "release_children (k # ks) deps ready =
     (let deps' = deps[k := deps ! k - 1]
      in release_children ks deps' (if deps' ! k = 0 then ready @ [k] else ready))"

definition waiting :: "int list \<Rightarrow> nat" where
  "waiting deps = length (filter (\<lambda>d. 0 < d) deps)"

lemma waiting_update:
  "k < length deps \<Longrightarrow> waiting (deps[k := d]) + (if 0 < deps ! k then 1 else 0) = waiting deps + (if 0 < d then 1 else 0)"
proof (induction deps arbitrary: k)
  case (Cons x deps)
  then show ?case by (cases k) (auto simp: waiting_def)
qed simp

lemma release_children_measure:
  "release_children ks deps ready = (deps', ready') \<Longrightarrow> \<forall>k\<in>set ks. k < length deps \<Longrightarrow>
     waiting deps' + length ready' \<le> waiting deps + length ready \<and> length deps' = length deps"
proof (induction ks deps ready rule: release_children.induct)
  case (2 k ks deps ready)
  let ?d = "deps[k := deps ! k - 1]"
  have k: "k < length deps" using "2.prems" by simp
  have "waiting ?d + length (if ?d ! k = 0 then ready @ [k] else ready) \<le> waiting deps + length ready"
    using waiting_update [OF k, of "deps ! k - 1"] k by (cases "deps ! k = 1") (auto split: if_splits)
  moreover have "waiting deps' + length ready' \<le> waiting ?d + length (if ?d ! k = 0 then ready @ [k] else ready)
      \<and> length deps' = length ?d"
    using "2.prems" by (intro "2.IH") (auto simp: Let_def)
  ultimately show ?case by simp
qed simp

lemma children_of_bound: "k \<in> set (children_of es i) \<Longrightarrow> k < length es"
  by (simp add: children_of_def)

text \<open>The loop over the queue; \<open>length deps = length es\<close> is its precondition.\<close>

function drain_ready :: "entity list \<Rightarrow> int list \<Rightarrow> nat list \<Rightarrow> entity list" where
  "drain_ready es deps [] = []"
| "drain_ready es deps (k # ready) =
     (if length deps \<noteq> length es then []
      else (case release_children (children_of es (ent_id (es ! k))) deps ready of
        (deps', ready') \<Rightarrow> es ! k # drain_ready es deps' ready'))"
  by pat_completeness auto
termination
proof (relation "measure (\<lambda>(es, deps, ready). waiting deps + length ready)")
  fix es deps k ready deps' ready'
  assume len: "\<not> length deps \<noteq> length es"
    and x: "(deps', ready') = release_children (children_of es (ent_id (es ! k))) deps ready"
  have "waiting deps' + length ready' \<le> waiting deps + length ready"
    using release_children_measure [OF x [symmetric]] len by (auto dest: children_of_bound)
  then show "((es, deps', ready'), (es, deps, k # ready))
      \<in> measure (\<lambda>(es, deps, ready). waiting deps + length ready)"
    by simp
qed simp

definition parent_first_entities :: "entity list \<Rightarrow> entity list res" where
  "parent_first_entities es =
     rbind (validate_entity_hierarchy es) (\<lambda>_.
       let deps = initial_dependencies es;
           ready = filter (\<lambda>k. deps ! k = 0) [0..<length es];
           ordered = drain_ready es deps ready
       in if length ordered \<noteq> length es then Inl cycle_error else Inr ordered)"


subsection \<open>The queue delivers every entity after its parent\<close>

lemma release_children_spec:
  assumes "distinct ks" and "\<forall>k\<in>set ks. k < length deps"
    and "release_children ks deps ready = (deps', ready')"
  shows "(\<forall>j<length deps. deps' ! j = deps ! j - (if j \<in> set ks then 1 else 0)) \<and>
    ready' = ready @ filter (\<lambda>j. deps ! j = 1) ks"
  using assms
proof (induction ks deps ready rule: release_children.induct)
  case (2 k ks deps ready)
  let ?d = "deps[k := deps ! k - 1]" and ?r = "if deps ! k = 1 then ready @ [k] else ready"
  have k: "k < length deps" "k \<notin> set ks" using "2.prems" by auto
  have "(\<forall>j<length ?d. deps' ! j = ?d ! j - (if j \<in> set ks then 1 else 0)) \<and>
      ready' = (if ?d ! k = 0 then ready @ [k] else ready) @ filter (\<lambda>j. ?d ! j = 1) ks"
    using "2.prems" by (intro "2.IH") (auto simp: Let_def)
  moreover have "filter (\<lambda>j. ?d ! j = 1) ks = filter (\<lambda>j. deps ! j = 1) ks"
    using k by (intro filter_cong) (auto simp: nth_list_update)
  ultimately show ?case using k by (auto simp: nth_list_update)
qed simp

text \<open>What the loop keeps, with the positions already delivered.\<close>

definition has_parent_in :: "entity list \<Rightarrow> nat list \<Rightarrow> nat \<Rightarrow> bool" where
  "has_parent_in es ds j \<longleftrightarrow>
     (entity_waits es (es ! j) \<longrightarrow> (\<exists>d\<in>set ds. ent_parent_id (es ! j) = Some (ent_id (es ! d))))"

definition parents_before :: "entity list \<Rightarrow> nat list \<Rightarrow> bool" where
  "parents_before es ds \<longleftrightarrow> (\<forall>i<length ds. has_parent_in es (take i ds) (ds ! i))"

lemma parents_before_snoc:
  "parents_before es (ds @ [k]) \<longleftrightarrow> parents_before es ds \<and> has_parent_in es ds k"
  by (auto simp: parents_before_def nth_append less_Suc_eq)

definition drain_inv :: "entity list \<Rightarrow> nat list \<Rightarrow> int list \<Rightarrow> nat list \<Rightarrow> bool" where
  "drain_inv es ds deps ready \<longleftrightarrow>
     length deps = length es \<and> distinct (ds @ ready) \<and>
     (\<forall>j<length es. deps ! j \<le> 1 \<and> (deps ! j \<le> 0 \<longleftrightarrow> has_parent_in es ds j)) \<and>
     (\<forall>j. j \<in> set (ds @ ready) \<longleftrightarrow> j < length es \<and> deps ! j \<le> 0) \<and> parents_before es ds"

lemma drain_inv_step:
  assumes inv: "drain_inv es ds deps (k # ready)"
    and step: "release_children (children_of es (ent_id (es ! k))) deps ready = (deps', ready')"
  shows "drain_inv es (ds @ [k]) deps' ready'"
proof -
  let ?cs = "children_of es (ent_id (es ! k))"
  note parts = inv [unfolded drain_inv_def]
  note len = parts [THEN conjunct1]
  note bounds = parts [THEN conjunct2, THEN conjunct2, THEN conjunct1]
  note mem = parts [THEN conjunct2, THEN conjunct2, THEN conjunct2, THEN conjunct1]
  note old = conjunct1 [OF bounds [rule_format]] conjunct2 [OF bounds [rule_format]]
  note mem = mem [rule_format]
  have k: "k < length es" "deps ! k \<le> 0" using mem [of k] by simp_all
  have dist: "distinct ?cs" by (simp add: children_of_def)
  have bound: "\<forall>j\<in>set ?cs. j < length deps" using len by (auto dest: children_of_bound)
  note spec = release_children_spec [OF dist bound step]
  have len': "length deps' = length es" using release_children_measure [OF step bound] len by simp
  have child: "j \<in> set ?cs \<longleftrightarrow> j < length es \<and> entity_waits es (es ! j) \<and>
      ent_parent_id (es ! j) = Some (ent_id (es ! k))" for j
    by (auto simp: children_of_def)
  have hp: "has_parent_in es (ds @ [k]) j \<longleftrightarrow> has_parent_in es ds j \<or> j \<in> set ?cs"
    if "j < length es" for j
    using that by (auto simp: has_parent_in_def child)
  have ready': "ready' = ready @ filter (\<lambda>j. deps ! j = 1) ?cs" by (rule conjunct2 [OF spec])
  have deps': "deps' ! j = deps ! j - (if j \<in> set ?cs then 1 else 0)" if "j < length es" for j
    using conjunct1 [OF spec, rule_format, of j] len that by simp
  define new where "new = filter (\<lambda>j. deps ! j = 1) ?cs"
  have new: "j \<in> set new \<longleftrightarrow> j \<in> set ?cs \<and> deps ! j = 1" for j by (auto simp: new_def)
  have all: "(ds @ [k]) @ ready' = (ds @ k # ready) @ new" by (simp add: ready' new_def)
  have "set (ds @ k # ready) \<inter> set new = {}"
  proof -
    have "j \<notin> set (ds @ k # ready)" if "j \<in> set new" for j
      using that unfolding mem new by linarith
    then show ?thesis by blast
  qed
  moreover have "distinct (ds @ k # ready)" by (rule parts [THEN conjunct2, THEN conjunct1])
  moreover have "distinct new" using dist by (simp add: new_def)
  ultimately have "distinct ((ds @ [k]) @ ready')" unfolding all distinct_append by blast
  moreover have "j \<in> set ((ds @ [k]) @ ready') \<longleftrightarrow> j < length es \<and> deps' ! j \<le> 0" for j
  proof (cases "j < length es")
    case True
    have "j \<in> set ((ds @ [k]) @ ready') \<longleftrightarrow> deps ! j \<le> 0 \<or> j \<in> set ?cs \<and> deps ! j = 1"
      unfolding all set_append [of "ds @ k # ready" new] Un_iff mem new using True by simp
    also have "\<dots> \<longleftrightarrow> deps' ! j \<le> 0" using deps' [OF True] old(1) [OF True] by auto
    finally show ?thesis using True by simp
  next
    case False
    then have "j \<notin> set ?cs" using children_of_bound by blast
    with False show ?thesis unfolding all set_append [of "ds @ k # ready" new] Un_iff mem new by simp
  qed
  moreover have "deps' ! j \<le> 1 \<and> (deps' ! j \<le> 0 \<longleftrightarrow> has_parent_in es (ds @ [k]) j)"
    if "j < length es" for j
    using deps' [OF that] old [OF that] hp [OF that] by auto
  moreover have "parents_before es (ds @ [k])"
    using inv k by (simp add: parents_before_snoc drain_inv_def)
  ultimately show ?thesis using len' by (simp add: drain_inv_def)
qed

lemma drain_ready_spec:
  "drain_inv es ds deps ready \<Longrightarrow>
     \<exists>ks. drain_ready es deps ready = map ((!) es) ks \<and> distinct (ds @ ks) \<and>
       parents_before es (ds @ ks) \<and>
       (\<forall>j. j \<in> set (ds @ ks) \<longleftrightarrow> j < length es \<and> has_parent_in es (ds @ ks) j)"
proof (induction es deps ready arbitrary: ds rule: drain_ready.induct)
  case (1 es deps)
  then show ?case by (intro exI [of _ "[]"]) (auto simp: drain_inv_def)
next
  case (2 es deps k ready)
  obtain deps' ready' where step:
      "release_children (children_of es (ent_id (es ! k))) deps ready = (deps', ready')"
    by fastforce
  have len: "length deps = length es" using "2.prems" by (simp add: drain_inv_def)
  from "2.IH" [OF _ step [symmetric] drain_inv_step [OF "2.prems" step]] len
  obtain ks where ks: "drain_ready es deps' ready' = map ((!) es) ks" "distinct ((ds @ [k]) @ ks)"
      "parents_before es ((ds @ [k]) @ ks)"
      "\<forall>j. j \<in> set ((ds @ [k]) @ ks) \<longleftrightarrow> j < length es \<and> has_parent_in es ((ds @ [k]) @ ks) j"
    by auto
  then show ?case using step len by (intro exI [of _ "k # ks"]) simp
qed


lemma initial_drain_inv:
  "drain_inv es [] (initial_dependencies es)
     (filter (\<lambda>k. initial_dependencies es ! k = 0) [0..<length es])"
  by (auto simp: drain_inv_def initial_dependencies_def has_parent_in_def parents_before_def)

lemma parent_by_child_get:
  "dget (parent_by_child ids) c = Some p \<Longrightarrow> (c, Some p) \<in> set ids"
  "dget (parent_by_child ids) c = None \<Longrightarrow> (c, Some q) \<notin> set ids"
proof -
  have step: "parent_by_child (ids @ [(i, p)]) =
      (case p of None \<Rightarrow> parent_by_child ids | Some q \<Rightarrow> dset i q (parent_by_child ids))" for ids i p
    by (simp add: parent_by_child_def split: option.split)
  show "(c, Some p) \<in> set ids" if "dget (parent_by_child ids) c = Some p"
    using that
  proof (induction ids rule: rev_induct)
    case (snoc x ids)
    then show ?case by (cases x) (auto simp: step split: option.splits if_splits)
  qed (simp add: parent_by_child_def)
  show "(c, Some q) \<notin> set ids" if "dget (parent_by_child ids) c = None"
    using that
  proof (induction ids rule: rev_induct)
    case (snoc x ids)
    then show ?case by (cases x) (auto simp: step split: option.splits if_splits)
  qed simp
qed

abbreviation identities :: "entity list \<Rightarrow> (pystr \<times> pystr option) list" where
  "identities es \<equiv> map (\<lambda>e. (ent_id e, ent_parent_id e)) es"

lemma traverse_identities:
  "traverse entity_identity es = Inr ids \<Longrightarrow> ids = identities es \<and> (\<forall>e\<in>set es. entity_identity e = Inr (ent_id e, ent_parent_id e))"
proof (induction es arbitrary: ids)
  case (Cons e es)
  then obtain i q where "entity_identity e = Inr (i, q)" by (auto simp: res_simps)
  then have "entity_identity e = Inr (ent_id e, ent_parent_id e)" by (auto simp: res_simps)
  with Cons show ?case by (auto simp: res_simps)
qed simp

lemma validate_entity_hierarchy_Inr:
  "validate_entity_hierarchy es = Inr u \<longleftrightarrow>
     (\<forall>e\<in>set es. entity_identity e = Inr (ent_id e, ent_parent_id e)) \<and>
     (\<forall>c. (c, c) \<notin> (parent_edges (parent_by_child (identities es)))\<^sup>+)"
proof
  assume ok: "validate_entity_hierarchy es = Inr u"
  then obtain ids where ids: "traverse entity_identity es = Inr ids"
      "check_parents (parent_by_child ids) [] (map fst (parent_by_child ids)) = Inr ()"
    by (auto simp: validate_entity_hierarchy_def res_simps Let_def)
  with traverse_identities [OF ids(1)] check_parents_iff [of "parent_by_child ids"]
  show "(\<forall>e\<in>set es. entity_identity e = Inr (ent_id e, ent_parent_id e)) \<and>
     (\<forall>c. (c, c) \<notin> (parent_edges (parent_by_child (identities es)))\<^sup>+)"
    by simp
next
  assume *: "(\<forall>e\<in>set es. entity_identity e = Inr (ent_id e, ent_parent_id e)) \<and>
     (\<forall>c. (c, c) \<notin> (parent_edges (parent_by_child (identities es)))\<^sup>+)"
  then have "traverse entity_identity es = Inr (identities es)" by (intro traverse_map_Inr) simp
  with * check_parents_iff [of "parent_by_child (identities es)"]
  show "validate_entity_hierarchy es = Inr u"
    by (simp add: validate_entity_hierarchy_def Let_def)
qed


lemma validated_all_grounded:
  assumes "\<forall>c. (c, c) \<notin> (parent_edges ps)\<^sup>+"
  shows "grounded ps c"
proof (cases "dget ps c")
  case None
  then show ?thesis by (simp add: grounded_iff [of ps c])
next
  case (Some p)
  then have "c \<in> set (map fst ps)" by (force dest: map_of_SomeD)
  moreover have "check_parents ps [] (map fst ps) = Inr ()"
    using assms by (simp add: check_parents_iff)
  ultimately show ?thesis using check_parents_Inr [of ps "[]"] by simp
qed

text \<open>
  When the hierarchy is valid every id is delivered, so every entity is: the error after
  the loop is not reachable.
\<close>

lemma validated_drain_complete:
  assumes valid: "validate_entity_hierarchy es = Inr u"
    and closed: "\<forall>j. j \<in> set ks \<longleftrightarrow> j < length es \<and> has_parent_in es ks j"
  shows "set ks = {..<length es}"
proof -
  let ?ps = "parent_by_child (identities es)"
  have ground: "grounded ?ps c" for c
    using valid by (intro validated_all_grounded) (simp add: validate_entity_hierarchy_Inr)
  have delivered: "\<exists>k\<in>set ks. ent_id (es ! k) = c" if "c \<in> ent_id ` set es" for c
    using ground [of c] that
  proof (induction rule: grounded.induct)
    case (1 c)
    then obtain k where k: "k < length es" "ent_id (es ! k) = c"
      by (auto simp: in_set_conv_nth)
    show ?case
    proof (cases "dget ?ps c")
      case None
      have "ent_parent_id (es ! k) = None"
      proof (rule ccontr)
        assume "ent_parent_id (es ! k) \<noteq> None"
        then obtain q where "ent_parent_id (es ! k) = Some q" by blast
        with k have "(c, Some q) \<in> set (identities es)" by (force simp: in_set_conv_nth)
        with parent_by_child_get(2) [OF None] show False by blast
      qed
      then have "has_parent_in es ks k" by (simp add: has_parent_in_def entity_waits_def)
      with k closed show ?thesis by blast
    next
      case (Some p)
      from parent_by_child_get(1) [OF Some]
      obtain m where m: "m < length es" "ent_id (es ! m) = c" "ent_parent_id (es ! m) = Some p"
        by (auto simp: in_set_conv_nth)
      have "has_parent_in es ks m"
      proof (cases "p \<in> ent_id ` set es")
        case True
        with 1(2) [OF Some] obtain d where "d \<in> set ks" "ent_id (es ! d) = p" by blast
        with m(3) show ?thesis by (auto simp: has_parent_in_def)
      next
        case False
        with m(3) show ?thesis by (simp add: has_parent_in_def entity_waits_def)
      qed
      with m closed show ?thesis by blast
    qed
  qed
  have "j \<in> set ks" if "j < length es" for j
  proof -
    have "has_parent_in es ks j"
      unfolding has_parent_in_def
    proof
      assume "entity_waits es (es ! j)"
      then obtain p where p: "ent_parent_id (es ! j) = Some p" "p \<in> ent_id ` set es"
        by (auto simp: entity_waits_def split: option.splits)
      from delivered [OF p(2)] p(1)
      show "\<exists>d\<in>set ks. ent_parent_id (es ! j) = Some (ent_id (es ! d))" by auto
    qed
    with that closed show ?thesis by blast
  qed
  with closed show ?thesis by blast
qed

lemma parent_first_entities_ok:
  assumes valid: "validate_entity_hierarchy es = Inr u"
  shows "\<exists>ks. parent_first_entities es = Inr (map ((!) es) ks) \<and> distinct ks \<and>
    set ks = {..<length es} \<and> parents_before es ks"
proof -
  from drain_ready_spec [OF initial_drain_inv [of es], unfolded append_Nil]
  obtain ks where "drain_ready es (initial_dependencies es)
        (filter (\<lambda>k. initial_dependencies es ! k = 0) [0..<length es]) = map ((!) es) ks \<and>
      distinct ks \<and> parents_before es ks \<and>
      (\<forall>j. j \<in> set ks \<longleftrightarrow> j < length es \<and> has_parent_in es ks j)" ..
  note ks = conjunct1 [OF this] conjunct2 [OF this, THEN conjunct1]
    conjunct2 [OF this, THEN conjunct2, THEN conjunct1] conjunct2 [OF this, THEN conjunct2, THEN conjunct2]
  from validated_drain_complete [OF valid ks(4)] have set: "set ks = {..<length es}" .
  then have "length ks = length es" using distinct_card [OF ks(2)] by simp
  then have "parent_first_entities es = Inr (map ((!) es) ks)"
    using ks(1) valid by (simp add: parent_first_entities_def Let_def)
  with ks(2,3) set show ?thesis by blast
qed

lemma mset_map_nth_perm:
  assumes "distinct ks" and "set ks = {..<length es}"
  shows "mset (map ((!) es) ks) = mset es"
proof -
  have "mset ks = mset [0..<length es]"
    using assms set_eq_iff_mset_eq_distinct [of ks "[0..<length es]"] by (simp add: atLeast0LessThan)
  then have "image_mset ((!) es) (mset ks) = image_mset ((!) es) (mset [0..<length es])" by simp
  then have "mset (map ((!) es) ks) = mset (map ((!) es) [0..<length es])" by (simp only: mset_map)
  then show ?thesis by (simp only: map_nth)
qed

text \<open>
  The contract of the ordering over the entities themselves: \<open>ordered\<close> holds the same
  entities, and a parent from the batch stands before its child.
\<close>

definition parents_come_first :: "entity list \<Rightarrow> bool" where
  "parents_come_first es \<longleftrightarrow>
     (\<forall>i<length es. \<forall>p. ent_parent_id (es ! i) = Some p \<longrightarrow> p \<in> ent_id ` set es \<longrightarrow>
        p \<in> ent_id ` set (take i es))"

lemma parent_first_entities_spec:
  "parent_first_entities es = Inr ordered \<Longrightarrow> mset ordered = mset es \<and> parents_come_first ordered"
proof -
  assume ok: "parent_first_entities es = Inr ordered"
  then have "validate_entity_hierarchy es = Inr ()"
    by (auto simp: parent_first_entities_def res_simps)
  from parent_first_entities_ok [OF this] ok obtain ks where ks: "ordered = map ((!) es) ks"
      "distinct ks" "set ks = {..<length es}" "parents_before es ks"
    by auto
  have ms: "mset ordered = mset es" using ks by (simp only: mset_map_nth_perm)
  then have ids: "ent_id ` set ordered = ent_id ` set es" by (metis set_mset_mset)
  have "p \<in> ent_id ` set (take i ordered)"
    if "i < length ordered" "ent_parent_id (ordered ! i) = Some p" "p \<in> ent_id ` set ordered" for i p
  proof -
    have "has_parent_in es (take i ks) (ks ! i)"
      using ks(1,4) that(1) by (simp add: parents_before_def)
    with that ids ks(1) obtain d where "d \<in> set (take i ks)" "p = ent_id (es ! d)"
      by (auto simp: has_parent_in_def entity_waits_def)
    then show ?thesis by (simp add: ks(1) take_map)
  qed
  with ms show ?thesis by (auto simp: parents_come_first_def)
qed

section \<open>Properties\<close>

text \<open>C16. The hierarchy check passes exactly when every entity has valid ids, is not its own
  parent, and the parent links (a later entity of the same id replacing an earlier one) form no
  cycle of any length.\<close>

theorem hierarchy_valid_iff_acyclic:
  "validate_entity_hierarchy es = Inr () \<longleftrightarrow>
     (\<forall>e\<in>set es. text_ok (ent_id e) \<and> opt_text_ok (ent_parent_id e) \<and> ent_parent_id e \<noteq> Some (ent_id e)) \<and>
     acyclic {(c, p). dget (parent_by_child (identities es)) c = Some p}"
  by (auto simp: validate_entity_hierarchy_Inr entity_identity_Inr_iff acyclic_def parent_edges_def)

theorem hierarchy_valid_iff_acyclic_witness:
  "validate_entity_hierarchy
     [\<lparr>ent_id = lit ''a'', ent_kind = lit ''k'', ent_name = lit ''n'', ent_parent_id = Some (lit ''b''), ent_attributes = []\<rparr>,
      \<lparr>ent_id = lit ''b'', ent_kind = lit ''k'', ent_name = lit ''n'', ent_parent_id = Some (lit ''a''), ent_attributes = []\<rparr>]
   = Inl cycle_error \<and>
   \<not> acyclic {(c, p). dget (parent_by_child [(lit ''a'', Some (lit ''b'')), (lit ''b'', Some (lit ''a''))]) c = Some p}"
proof -
  let ?es = "[\<lparr>ent_id = lit ''a'', ent_kind = lit ''k'', ent_name = lit ''n'', ent_parent_id = Some (lit ''b''), ent_attributes = []\<rparr>,
      \<lparr>ent_id = lit ''b'', ent_kind = lit ''k'', ent_name = lit ''n'', ent_parent_id = Some (lit ''a''), ent_attributes = []\<rparr>]"
  have bad: "validate_entity_hierarchy ?es = Inl cycle_error" by code_simp
  moreover have "text_ok (lit ''a'')" "text_ok (lit ''b'')" by code_simp+
  ultimately show ?thesis using hierarchy_valid_iff_acyclic [of ?es] by simp
qed

text \<open>C15. Ordering a batch succeeds exactly when the hierarchy check passes (the cycle error after
  the queue runs dry is unreachable), and then delivers the same entities, as a multiset, with
  every entity after an entity that carries its parent's id when the batch has one.\<close>

theorem parent_first_is_ordered_permutation:
  "(if validate_entity_hierarchy es = Inr ()
    then \<exists>ordered. parent_first_entities es = Inr ordered \<and> mset ordered = mset es \<and> parents_come_first ordered
    else \<exists>e. parent_first_entities es = Inl e)"
proof (cases "validate_entity_hierarchy es")
  case (Inl e)
  then show ?thesis by (simp add: parent_first_entities_def)
next
  case (Inr u)
  then obtain ks where ks: "parent_first_entities es = Inr (map ((!) es) ks)"
    using parent_first_entities_ok by blast
  have "\<exists>ordered. parent_first_entities es = Inr ordered \<and> mset ordered = mset es \<and> parents_come_first ordered"
    using ks parent_first_entities_spec [OF ks] by blast
  with Inr show ?thesis by simp
qed

end
