(* ===== verification/StorageDb.thy ===== *)
theory StorageDb
  imports EntityHierarchy
begin

text \<open>
  The tables of a runpack (\<open>_SCHEMA\<close> of \<open>storage/_validation.py\<close>), the rows the
  writer binds (\<open>_entity_values\<close> and its siblings) and the SQLite connection that holds
  them: the state after the last commit, the working state inside a transaction, and
  statements that change the working state or fail with the constraint they violate.
  A cell is an \<open>obj\<close>, because SQLite types values and not columns; the writer only ever
  stores what the checks let through. Constraints follow the SQLite documentation: a
  duplicate primary key is reported before a missing parent row, foreign keys are checked
  at the end of each statement, and a statement that fails changes nothing. Input and
  output errors of the file system are not modelled.
\<close>

section \<open>Rows\<close>

record execution_row =
  xr_id :: obj
  xr_name :: obj
  xr_started_at_ns :: obj
  xr_finished_at_ns :: obj
  xr_command_json :: obj
  xr_working_directory :: obj
  xr_exit_code :: obj
  xr_revision :: obj
  xr_metadata_json :: obj

record entity_row =
  er_id :: obj
  er_kind :: obj
  er_name :: obj
  er_parent_entity_id :: obj
  er_attributes_json :: obj

record event_row =
  vr_id :: obj
  vr_kind :: obj
  vr_name :: obj
  vr_entity_id :: obj
  vr_started_at_ns :: obj
  vr_finished_at_ns :: obj
  vr_clock_domain :: obj
  vr_uncertainty_ns :: obj
  vr_sequence :: obj
  vr_attributes_json :: obj

record edge_row =
  gr_source_event_id :: obj
  gr_target_event_id :: obj
  gr_kind :: obj
  gr_confidence :: obj
  gr_attributes_json :: obj

text \<open>The \<open>INTEGER PRIMARY KEY\<close> of a measurement is its row id, assigned on insertion.\<close>

record measurement_row =
  mr_name :: obj
  mr_value :: obj
  mr_unit :: obj
  mr_timestamp_ns :: obj
  mr_entity_id :: obj
  mr_attributes_json :: obj

record attachment_row =
  tr_id :: obj
  tr_kind :: obj
  tr_name :: obj
  tr_media_type :: obj
  tr_content :: obj
  tr_attributes_json :: obj

record db =
  db_manifest :: "(obj \<times> obj) list"
  db_executions :: "execution_row list"
  db_entities :: "entity_row list"
  db_events :: "event_row list"
  db_edges :: "edge_row list"
  db_measurements :: "measurement_row list"
  db_attachments :: "attachment_row list"

definition empty_db :: db where
  "empty_db = \<lparr>db_manifest = [], db_executions = [], db_entities = [], db_events = [],
     db_edges = [], db_measurements = [], db_attachments = []\<rparr>"

section \<open>The values of a record\<close>

definition entity_values :: "entity \<Rightarrow> entity_row res" where
  "entity_values e =
     rbind (entity_identity e) (\<lambda>(entity_id, parent_id).
     rbind (text_value False (lit ''entity kind'') (OStr (ent_kind e))) (\<lambda>kind.
     rbind (text_value False (lit ''entity name'') (OStr (ent_name e))) (\<lambda>name.
     rbind (attributes_field (ent_attributes e)) (\<lambda>attributes.
     Inr \<lparr>er_id = OStr entity_id, er_kind = opt_obj kind, er_name = opt_obj name,
       er_parent_entity_id = opt_obj parent_id, er_attributes_json = OStr attributes\<rparr>))))"

definition event_values :: "event \<Rightarrow> event_row res" where
  "event_values v =
     rbind (integer_value True (lit ''event start timestamp'') (opt_int (ev_started_at_ns v))) (\<lambda>started.
     rbind (integer_value True (lit ''event finish timestamp'') (opt_int (ev_finished_at_ns v))) (\<lambda>finished.
     rbind (raise_if (case (started, finished) of (Some s, Some f) \<Rightarrow> f < s | _ \<Rightarrow> False)
              (runpack_error ''event cannot finish before it starts'')) (\<lambda>_.
     rbind (integer_value True (lit ''event uncertainty'') (opt_int (ev_uncertainty_ns v))) (\<lambda>uncertainty.
     rbind (raise_if (case uncertainty of Some u \<Rightarrow> u < 0 | None \<Rightarrow> False)
              (runpack_error ''event uncertainty cannot be negative'')) (\<lambda>_.
     rbind (integer_value True (lit ''event sequence'') (opt_int (ev_sequence v))) (\<lambda>sequence.
     rbind (text_value False (lit ''event id'') (OStr (ev_id v))) (\<lambda>i.
     rbind (text_value False (lit ''event kind'') (OStr (ev_kind v))) (\<lambda>kind.
     rbind (text_value False (lit ''event name'') (OStr (ev_name v))) (\<lambda>name.
     rbind (text_value True (lit ''event entity id'') (opt_obj (ev_entity_id v))) (\<lambda>entity_id.
     rbind (text_value True (lit ''event clock domain'') (opt_obj (ev_clock_domain v))) (\<lambda>clock.
     rbind (attributes_field (ev_attributes v)) (\<lambda>attributes.
     Inr \<lparr>vr_id = opt_obj i, vr_kind = opt_obj kind, vr_name = opt_obj name,
       vr_entity_id = opt_obj entity_id, vr_started_at_ns = opt_int started,
       vr_finished_at_ns = opt_int finished, vr_clock_domain = opt_obj clock,
       vr_uncertainty_ns = opt_int uncertainty, vr_sequence = opt_int sequence,
       vr_attributes_json = OStr attributes\<rparr>))))))))))))"

definition edge_values :: "causal_edge \<Rightarrow> edge_row res" where
  "edge_values g =
     rbind (text_value False (lit ''causal edge source event id'') (OStr (edge_source g))) (\<lambda>source.
     rbind (text_value False (lit ''causal edge target event id'') (OStr (edge_target g))) (\<lambda>target.
     rbind (raise_if (source = target)
              (runpack_error ''causal edge cannot reference the same event twice'')) (\<lambda>_.
     rbind (text_value False (lit ''causal edge kind'') (OStr (edge_kind g))) (\<lambda>kind.
     rbind (confidence_value (OFloat (edge_confidence g))) (\<lambda>confidence.
     rbind (attributes_field (edge_attributes g)) (\<lambda>attributes.
     Inr \<lparr>gr_source_event_id = opt_obj source, gr_target_event_id = opt_obj target,
       gr_kind = opt_obj kind, gr_confidence = OFloat confidence,
       gr_attributes_json = OStr attributes\<rparr>))))))"

definition measurement_values :: "measurement \<Rightarrow> measurement_row res" where
  "measurement_values m =
     rbind (text_value False (lit ''measurement name'') (OStr (meas_name m))) (\<lambda>name.
     rbind (measurement_value (OFloat (meas_value m))) (\<lambda>v.
     rbind (text_value False (lit ''measurement unit'') (OStr (meas_unit m))) (\<lambda>u.
     rbind (integer_value True (lit ''measurement timestamp'') (opt_int (meas_timestamp_ns m))) (\<lambda>timestamp.
     rbind (text_value True (lit ''measurement entity id'') (opt_obj (meas_entity_id m))) (\<lambda>entity_id.
     rbind (attributes_field (meas_attributes m)) (\<lambda>attributes.
     Inr \<lparr>mr_name = opt_obj name, mr_value = OFloat v, mr_unit = opt_obj u,
       mr_timestamp_ns = opt_int timestamp, mr_entity_id = opt_obj entity_id,
       mr_attributes_json = OStr attributes\<rparr>))))))"

definition attachment_values :: "attachment \<Rightarrow> attachment_row res" where
  "attachment_values t =
     rbind (text_value False (lit ''attachment id'') (OStr (att_id t))) (\<lambda>i.
     rbind (text_value False (lit ''attachment kind'') (OStr (att_kind t))) (\<lambda>kind.
     rbind (text_value False (lit ''attachment name'') (OStr (att_name t))) (\<lambda>name.
     rbind (text_value False (lit ''attachment media type'') (OStr (att_media_type t))) (\<lambda>media.
     rbind (blob_value (OBytes (att_content t))) (\<lambda>content.
     rbind (attributes_field (att_attributes t)) (\<lambda>attributes.
     Inr \<lparr>tr_id = opt_obj i, tr_kind = opt_obj kind, tr_name = opt_obj name,
       tr_media_type = opt_obj media, tr_content = OBytes content,
       tr_attributes_json = OStr attributes\<rparr>))))))"

definition execution_interval :: "obj \<Rightarrow> obj \<Rightarrow> (int \<times> int option) res" where
  "execution_interval started_at_ns finished_at_ns =
     rbind (integer_value False (lit ''execution start timestamp'') started_at_ns) (\<lambda>started.
     rbind (integer_value True (lit ''execution finish timestamp'') finished_at_ns) (\<lambda>finished.
     rbind (assert_some started) (\<lambda>s.
     if (case finished of Some f \<Rightarrow> f < s | None \<Rightarrow> False)
     then Inl (runpack_error ''execution cannot finish before it starts'')
     else Inr (s, finished))))"

lemma execution_interval_Inr_iff [res_simps]:
  "execution_interval a b = Inr (s, f) \<longleftrightarrow>
     a = OInt s \<and> integer_ok s \<and> b = opt_int f \<and>
     (case f of None \<Rightarrow> True | Some t \<Rightarrow> integer_ok t \<and> s \<le> t)"
  by (cases f) (auto simp: execution_interval_def res_simps not_less intro!: exI [of _ s])

section \<open>Insertion\<close>

abbreviation unique_error :: "string \<Rightarrow> err" where
  "unique_error s \<equiv> DatabaseError (lit ''UNIQUE constraint failed: '' @ lit s)"

definition foreign_key_error :: err where
  "foreign_key_error = DatabaseError (lit ''FOREIGN KEY constraint failed'')"

text \<open>A \<open>NULL\<close> key equals no other key, and a \<open>NULL\<close> reference refers to nothing.\<close>

definition key_taken :: "obj \<Rightarrow> obj list \<Rightarrow> bool" where
  "key_taken k ks \<longleftrightarrow> k \<noteq> ONone \<and> k \<in> set ks"

definition reference_ok :: "obj \<Rightarrow> obj list \<Rightarrow> bool" where
  "reference_ok r ks \<longleftrightarrow> r = ONone \<or> r \<in> set ks"

definition insert_execution :: "execution_row \<Rightarrow> db \<Rightarrow> db res" where
  "insert_execution r d =
     rbind (raise_if (key_taken (xr_id r) (map xr_id (db_executions d))) (unique_error ''executions.id''))
       (\<lambda>_. Inr (d\<lparr>db_executions := db_executions d @ [r]\<rparr>))"

definition insert_entity :: "entity_row \<Rightarrow> db \<Rightarrow> db res" where
  "insert_entity r d =
     rbind (raise_if (key_taken (er_id r) (map er_id (db_entities d))) (unique_error ''entities.id'')) (\<lambda>_.
     rbind (raise_if (\<not> reference_ok (er_parent_entity_id r) (map er_id (db_entities d @ [r]))) foreign_key_error)
       (\<lambda>_. Inr (d\<lparr>db_entities := db_entities d @ [r]\<rparr>)))"

definition insert_event :: "event_row \<Rightarrow> db \<Rightarrow> db res" where
  "insert_event r d =
     rbind (raise_if (key_taken (vr_id r) (map vr_id (db_events d))) (unique_error ''events.id'')) (\<lambda>_.
     rbind (raise_if (\<not> reference_ok (vr_entity_id r) (map er_id (db_entities d))) foreign_key_error)
       (\<lambda>_. Inr (d\<lparr>db_events := db_events d @ [r]\<rparr>)))"

definition edge_key :: "edge_row \<Rightarrow> obj \<times> obj \<times> obj" where
  "edge_key r = (gr_source_event_id r, gr_target_event_id r, gr_kind r)"

definition insert_edge :: "edge_row \<Rightarrow> db \<Rightarrow> db res" where
  "insert_edge r d =
     rbind (raise_if (edge_key r \<in> edge_key ` set (db_edges d))
              (unique_error ''causal_edges.source_event_id, causal_edges.target_event_id, causal_edges.kind'')) (\<lambda>_.
     rbind (raise_if (\<not> reference_ok (gr_source_event_id r) (map vr_id (db_events d)) \<or>
                      \<not> reference_ok (gr_target_event_id r) (map vr_id (db_events d))) foreign_key_error)
       (\<lambda>_. Inr (d\<lparr>db_edges := db_edges d @ [r]\<rparr>)))"

definition insert_measurement :: "measurement_row \<Rightarrow> db \<Rightarrow> db res" where
  "insert_measurement r d =
     rbind (raise_if (\<not> reference_ok (mr_entity_id r) (map er_id (db_entities d))) foreign_key_error)
       (\<lambda>_. Inr (d\<lparr>db_measurements := db_measurements d @ [r]\<rparr>))"

definition insert_attachment :: "attachment_row \<Rightarrow> db \<Rightarrow> db res" where
  "insert_attachment r d =
     rbind (raise_if (key_taken (tr_id r) (map tr_id (db_attachments d))) (unique_error ''attachments.id''))
       (\<lambda>_. Inr (d\<lparr>db_attachments := db_attachments d @ [r]\<rparr>))"

section \<open>Order and size of cells\<close>

text \<open>
  SQLite orders cells by storage class, numbers by value and text by code point; \<open>min\<close> and
  \<open>max\<close> of two arguments are \<open>NULL\<close> when one of them is.
\<close>

fun cell_key :: "obj \<Rightarrow> nat \<times> rat \<times> nat list" where
  "cell_key ONone = (0, 0, [])"
| "cell_key (OBool b) = (2, if b then 1 else 0, [])"
| "cell_key (OInt i) = (2, of_int i, [])"
| "cell_key (OFloat x) = (case x of NaN \<Rightarrow> (0, 0, []) | NInf \<Rightarrow> (1, 0, []) | Fin v \<Rightarrow> (2, v, []) | PInf \<Rightarrow> (3, 0, []))"
| "cell_key (OStr s) = (4, 0, s)"
| "cell_key (OBytes b) = (5, 0, b)"
| "cell_key _ = (6, 0, [])"

definition sql_min :: "obj \<Rightarrow> obj \<Rightarrow> obj" where
  "sql_min a b = (if a = ONone \<or> b = ONone then ONone else if cell_key b < cell_key a then b else a)"

definition sql_max :: "obj \<Rightarrow> obj \<Rightarrow> obj" where
  "sql_max a b = (if a = ONone \<or> b = ONone then ONone else if cell_key a < cell_key b then b else a)"

lemma sql_min_int [simp]: "sql_min (OInt a) (OInt b) = OInt (min a b)"
  by (auto simp: sql_min_def)

lemma sql_max_int [simp]: "sql_max (OInt a) (OInt b) = OInt (max a b)"
  by (auto simp: sql_max_def)

text \<open>\<open>length(CAST(cell AS BLOB))\<close>; a real is rendered with 15 significant digits first.\<close>

definition sqlite_real_text :: "rat \<Rightarrow> pystr" where
  "sqlite_real_text q =
     (if q = 0 then lit ''0.0''
      else (case sig_digits 15 \<bar>q\<bar> of (ds, e) \<Rightarrow>
        (if q < 0 then lit ''-'' else []) @
        (if - 4 \<le> e \<and> e < 15 then
           (if strip_zeros (drop (nat e + 1) ds) = [] \<and> 0 \<le> e then take (nat e + 1) ds @ lit ''.0''
            else positional ds e)
         else take 1 ds @ (if strip_zeros (drop 1 ds) = [] then lit ''.0'' else lit ''.'' @ strip_zeros (drop 1 ds)) @
           exp_text e)))"

fun cell_bytes :: "obj \<Rightarrow> nat option" where
  "cell_bytes ONone = None"
| "cell_bytes (OBool b) = Some 1"
| "cell_bytes (OInt i) = Some (length (int_text i))"
| "cell_bytes (OFloat x) =
     (case x of Fin v \<Rightarrow> Some (length (sqlite_real_text v)) | PInf \<Rightarrow> Some 3 | NInf \<Rightarrow> Some 4 | NaN \<Rightarrow> None)"
| "cell_bytes (OStr s) = Some (utf8_length s)"
| "cell_bytes (OBytes b) = Some (length b)"
| "cell_bytes _ = None"

text \<open>\<open>COALESCE(max(...), 0)\<close> and \<open>COALESCE(sum(...), 0)\<close> over a column.\<close>

definition column_max_bytes :: "obj list \<Rightarrow> nat" where
  "column_max_bytes cs = fold max (List.map_filter cell_bytes cs) 0"

definition column_sum_bytes :: "obj list \<Rightarrow> nat" where
  "column_sum_bytes cs = sum_list (List.map_filter cell_bytes cs)"

end
