(* ===== verification/StorageWriter.thy ===== *)
theory StorageWriter
  imports StorageDb
begin

text \<open>
  \<open>storage/_writer.py\<close>: the operations of \<open>RunpackWriter\<close> over a connection with a
  committed and a working state. A statement changes the working state; \<open>commit\<close> and
  \<open>rollback\<close> are the two ends of \<open>with self._connection\<close>, and the operations that
  call \<open>commit()\<close> themselves leave an exception without either. Every operation either
  commits all of its rows or none, and keeps the invariant of the tables.
\<close>

section \<open>Statements\<close>

record conn =
  conn_path :: pystr
  conn_committed :: db
  conn_working :: db

type_synonym 'a stmt = "conn \<Rightarrow> conn \<times> 'a res"

definition sreturn :: "'a \<Rightarrow> 'a stmt" where
  "sreturn x c = (c, Inr x)"

definition slift :: "'a res \<Rightarrow> 'a stmt" where
  "slift r c = (c, r)"

definition sbind :: "'a stmt \<Rightarrow> ('a \<Rightarrow> 'b stmt) \<Rightarrow> 'b stmt" where
  "sbind m f c = (case m c of (c', Inl e) \<Rightarrow> (c', Inl e) | (c', Inr x) \<Rightarrow> f x c')"

text \<open>A statement that changes the database, atomic by itself, and one that reads it.\<close>

definition sexec :: "(db \<Rightarrow> (db \<times> 'a) res) \<Rightarrow> 'a stmt" where
  "sexec f c = (case f (conn_working c) of
     Inl e \<Rightarrow> (c, Inl e) | Inr (d, x) \<Rightarrow> (c\<lparr>conn_working := d\<rparr>, Inr x))"

definition squery :: "(db \<Rightarrow> 'a) \<Rightarrow> 'a stmt" where
  "squery f c = (c, Inr (f (conn_working c)))"

definition scommit :: "unit stmt" where
  "scommit c = (c\<lparr>conn_committed := conn_working c\<rparr>, Inr ())"

definition srollback :: "conn \<Rightarrow> conn" where
  "srollback c = c\<lparr>conn_working := conn_committed c\<rparr>"

text \<open>\<open>with self._connection: m\<close>\<close>

definition stransaction :: "'a stmt \<Rightarrow> 'a stmt" where
  "stransaction m c = (case m c of
     (c', Inl e) \<Rightarrow> (srollback c', Inl e)
   | (c', Inr x) \<Rightarrow> (fst (scommit c'), Inr x))"

text \<open>\<open>with self._writing(): m\<close>\<close>

definition write_error :: "pystr \<Rightarrow> pystr \<Rightarrow> err" where
  "write_error path message = RunpackError (cat [lit ''could not write runpack '', path, lit '': '', message])"

definition swriting :: "'a stmt \<Rightarrow> 'a stmt" where
  "swriting m c = (case m c of
     (c', Inl OverflowError) \<Rightarrow> (c', Inl (write_error (conn_path c) (lit ''int too large to convert to float'')))
   | (c', Inl (DatabaseError s)) \<Rightarrow> (c', Inl (write_error (conn_path c) s))
   | r \<Rightarrow> r)"

definition sinsert :: "('r \<Rightarrow> db \<Rightarrow> db res) \<Rightarrow> 'r \<Rightarrow> unit stmt" where
  "sinsert ins r = sexec (\<lambda>d. rbind (ins r d) (\<lambda>d'. Inr (d', ())))"

text \<open>
  \<open>executemany\<close> over a generator: the values of a record are computed just before its row
  is inserted, so an invalid record leaves the rows before it in the open transaction.
\<close>

fun sinsert_many :: "('a \<Rightarrow> 'r res) \<Rightarrow> ('r \<Rightarrow> db \<Rightarrow> db res) \<Rightarrow> 'a list \<Rightarrow> unit stmt" where
  "sinsert_many vals ins [] = sreturn ()"
| "sinsert_many vals ins (x # xs) =
     sbind (slift (vals x)) (\<lambda>r. sbind (sinsert ins r) (\<lambda>_. sinsert_many vals ins xs))"

text \<open>\<open>UPDATE executions SET ... WHERE ...\<close>, whose value is the row count.\<close>

definition update_executions ::
  "(execution_row \<Rightarrow> bool) \<Rightarrow> (execution_row \<Rightarrow> execution_row) \<Rightarrow> nat stmt" where
  "update_executions p f = sexec (\<lambda>d. Inr
     (d\<lparr>db_executions := map (\<lambda>r. if p r then f r else r) (db_executions d)\<rparr>,
      length (filter p (db_executions d))))"

definition sraise_if :: "bool \<Rightarrow> err \<Rightarrow> unit stmt" where
  "sraise_if b e = slift (raise_if b e)"

section \<open>Operations\<close>

text \<open>The manifest a new runpack starts with; \<open>producer\<close> is the version of the package.\<close>

definition create_runpack :: "bool \<Rightarrow> pystr \<Rightarrow> pystr \<Rightarrow> conn res" where
  "create_runpack path_exists path producer =
     (if path_exists then Inl (RunpackError (lit ''refusing to overwrite existing runpack: '' @ path))
      else (let d = empty_db\<lparr>db_manifest :=
              [(OStr (lit ''schema_version''), OStr schema_version_text),
               (OStr (lit ''producer_version''), OStr producer)]\<rparr>
            in Inr \<lparr>conn_path = path, conn_committed = d, conn_working = d\<rparr>))"

definition add_execution :: "execution \<Rightarrow> unit stmt" where
  "add_execution x =
     sbind (slift (execution_interval (OInt (exec_started_at_ns x)) (opt_int (exec_finished_at_ns x)))) (\<lambda>(started, finished).
     sbind (slift (integer_value True (lit ''execution exit code'') (opt_int (exec_exit_code x)))) (\<lambda>exit_code.
     sbind (slift (text_value False (lit ''execution id'') (OStr (exec_id x)))) (\<lambda>i.
     sbind (slift (text_value False (lit ''execution name'') (OStr (exec_name x)))) (\<lambda>name.
     sbind (slift (text_value False (lit ''execution working directory'') (OStr (exec_working_directory x)))) (\<lambda>cwd.
     sbind (slift (text_value True (lit ''execution revision'') (opt_obj (exec_revision x)))) (\<lambda>revision.
     swriting (
       sbind (squery (\<lambda>d. length (db_executions d))) (\<lambda>existing.
       sbind (sraise_if (existing \<noteq> 0) (runpack_error ''runpack already contains an execution'')) (\<lambda>_.
       sbind (slift (command_json (exec_command x))) (\<lambda>command.
       sbind (slift (attributes_field (exec_metadata x))) (\<lambda>metadata.
       sbind (sinsert insert_execution
         \<lparr>xr_id = opt_obj i, xr_name = opt_obj name, xr_started_at_ns = OInt started,
          xr_finished_at_ns = opt_int finished, xr_command_json = OStr command,
          xr_working_directory = opt_obj cwd, xr_exit_code = opt_int exit_code,
          xr_revision = opt_obj revision, xr_metadata_json = OStr metadata\<rparr>) (\<lambda>_.
       scommit))))))))))))"

definition add_entity :: "entity \<Rightarrow> unit stmt" where
  "add_entity e = swriting (sbind (slift (entity_values e)) (\<lambda>r. sbind (sinsert insert_entity r) (\<lambda>_. scommit)))"

definition add_entities :: "entity list \<Rightarrow> unit stmt" where
  "add_entities es =
     sbind (slift (parent_first_entities es)) (\<lambda>ordered.
     swriting (stransaction (sinsert_many entity_values insert_entity ordered)))"

definition add_event :: "event \<Rightarrow> unit stmt" where
  "add_event v = swriting (sbind (slift (event_values v)) (\<lambda>r. sbind (sinsert insert_event r) (\<lambda>_. scommit)))"

definition add_events :: "event list \<Rightarrow> unit stmt" where
  "add_events vs = swriting (stransaction (sinsert_many event_values insert_event vs))"

definition add_event_graph :: "event list \<Rightarrow> causal_edge list \<Rightarrow> unit stmt" where
  "add_event_graph vs gs = swriting (stransaction (
     sbind (sinsert_many event_values insert_event vs) (\<lambda>_. sinsert_many edge_values insert_edge gs)))"

definition missing_execution :: "pystr option \<Rightarrow> err" where
  "missing_execution i = RunpackError (lit ''execution does not exist: '' @ (case i of Some s \<Rightarrow> s | None \<Rightarrow> []))"

definition set_metadata_row :: "pystr \<Rightarrow> execution_row \<Rightarrow> execution_row" where
  "set_metadata_row metadata r = r\<lparr>xr_metadata_json := OStr metadata\<rparr>"

definition add_event_graph_and_set_execution_metadata ::
  "pystr \<Rightarrow> event list \<Rightarrow> causal_edge list \<Rightarrow> attrs \<Rightarrow> unit stmt" where
  "add_event_graph_and_set_execution_metadata execution_id vs gs metadata =
     sbind (slift (text_value False (lit ''execution id'') (OStr execution_id))) (\<lambda>i.
     sbind (slift (attributes_field metadata)) (\<lambda>encoded.
     swriting (stransaction (
       sbind (sinsert_many event_values insert_event vs) (\<lambda>_.
       sbind (sinsert_many edge_values insert_edge gs) (\<lambda>_.
       sbind (update_executions (\<lambda>r. xr_id r = opt_obj i) (set_metadata_row encoded)) (\<lambda>rowcount.
       sraise_if (rowcount \<noteq> 1) (missing_execution i))))))))"

definition add_causal_edge :: "causal_edge \<Rightarrow> unit stmt" where
  "add_causal_edge g = swriting (sbind (slift (edge_values g)) (\<lambda>r. sbind (sinsert insert_edge r) (\<lambda>_. scommit)))"

definition add_causal_edges :: "causal_edge list \<Rightarrow> unit stmt" where
  "add_causal_edges gs = swriting (stransaction (sinsert_many edge_values insert_edge gs))"

definition add_measurement :: "measurement \<Rightarrow> unit stmt" where
  "add_measurement m =
     swriting (sbind (slift (measurement_values m)) (\<lambda>r. sbind (sinsert insert_measurement r) (\<lambda>_. scommit)))"

definition add_measurements :: "measurement list \<Rightarrow> unit stmt" where
  "add_measurements ms = swriting (stransaction (sinsert_many measurement_values insert_measurement ms))"

definition attachment_total_error :: err where
  "attachment_total_error = RunpackError (cat [lit ''attachment content exceeds the '',
     nat_text max_runpack_attachment_total_bytes, lit ''-byte aggregate runpack limit''])"

definition attachment_field_error :: err where
  "attachment_field_error = RunpackError (cat [lit ''attachment content exceeds the '',
     nat_text max_runpack_attachment_bytes, lit ''-byte runpack field limit''])"

text \<open>The loop before the transaction: the rows and the bytes they add.\<close>

fun collect_attachments :: "attachment list \<Rightarrow> nat \<Rightarrow> (attachment_row list \<times> nat) res" where
  "collect_attachments [] added = Inr ([], added)"
| "collect_attachments (t # ts) added =
     rbind (attachment_values t) (\<lambda>r.
       (let added' = added + length (att_content t)
        in rbind (raise_if (max_runpack_attachment_total_bytes < added') attachment_total_error) (\<lambda>_.
           rbind (collect_attachments ts added') (\<lambda>(rs, total). Inr (r # rs, total)))))"

definition add_attachments :: "attachment list \<Rightarrow> unit stmt" where
  "add_attachments ts =
     sbind (slift (collect_attachments ts 0)) (\<lambda>(rows, added).
     swriting (stransaction (
       sbind (squery (\<lambda>d. map tr_content (db_attachments d))) (\<lambda>contents.
       sbind (sraise_if (max_runpack_attachment_bytes < column_max_bytes contents) attachment_field_error) (\<lambda>_.
       sbind (sraise_if (max_runpack_attachment_total_bytes < column_sum_bytes contents + added) attachment_total_error) (\<lambda>_.
       sinsert_many Inr insert_attachment rows))))))"

definition expand_row :: "obj \<Rightarrow> obj \<Rightarrow> execution_row \<Rightarrow> execution_row" where
  "expand_row started finished r = r\<lparr>
     xr_started_at_ns := sql_min (xr_started_at_ns r) started,
     xr_finished_at_ns :=
       (if xr_finished_at_ns r = ONone then ONone
        else if finished = ONone then xr_finished_at_ns r
        else sql_max (xr_finished_at_ns r) finished)\<rparr>"

definition expand_execution_bounds :: "int \<Rightarrow> int option \<Rightarrow> unit stmt" where
  "expand_execution_bounds started_at_ns finished_at_ns =
     sbind (slift (execution_interval (OInt started_at_ns) (opt_int finished_at_ns))) (\<lambda>(started, finished).
     swriting (stransaction (
       sbind (update_executions (\<lambda>_. True) (expand_row (OInt started) (opt_int finished))) (\<lambda>rowcount.
       sraise_if (rowcount \<noteq> 1) (runpack_error ''runpack must contain exactly one execution to expand'')))))"

definition set_execution_metadata :: "pystr \<Rightarrow> attrs \<Rightarrow> unit stmt" where
  "set_execution_metadata execution_id metadata =
     sbind (slift (text_value False (lit ''execution id'') (OStr execution_id))) (\<lambda>i.
     sbind (slift (attributes_field metadata)) (\<lambda>encoded.
     swriting (
       sbind (update_executions (\<lambda>r. xr_id r = opt_obj i) (set_metadata_row encoded)) (\<lambda>rowcount.
       sbind (sraise_if (rowcount \<noteq> 1) (missing_execution i)) (\<lambda>_.
       scommit)))))"

definition already_finished :: "pystr option \<Rightarrow> err" where
  "already_finished i =
     RunpackError (lit ''execution is already finished: '' @ (case i of Some s \<Rightarrow> s | None \<Rightarrow> []))"

definition finish_row :: "int option \<Rightarrow> int option \<Rightarrow> pystr \<Rightarrow> execution_row \<Rightarrow> execution_row" where
  "finish_row finish exit_code metadata r =
     r\<lparr>xr_finished_at_ns := opt_int finish, xr_exit_code := opt_int exit_code,
       xr_metadata_json := OStr metadata\<rparr>"

definition finish_execution ::
  "pystr \<Rightarrow> int \<Rightarrow> int \<Rightarrow> attrs \<Rightarrow> event \<Rightarrow> measurement list \<Rightarrow> unit stmt" where
  "finish_execution execution_id finished_at_ns exit_code metadata v ms =
     sbind (slift (text_value False (lit ''execution id'') (OStr execution_id))) (\<lambda>i.
     sbind (squery (\<lambda>d. List.find (\<lambda>r. xr_id r = opt_obj i) (db_executions d))) (\<lambda>found.
     sbind (slift (case found of None \<Rightarrow> Inl (missing_execution i) | Some r \<Rightarrow> Inr r)) (\<lambda>row.
     sbind (sraise_if (xr_finished_at_ns row \<noteq> ONone) (already_finished i)) (\<lambda>_.
     sbind (slift (execution_interval (xr_started_at_ns row) (OInt finished_at_ns))) (\<lambda>(_, finish).
     sbind (slift (integer_value False (lit ''execution exit code'') (OInt exit_code))) (\<lambda>exit.
     swriting (stransaction (
       sbind (slift (attributes_field metadata)) (\<lambda>encoded.
       sbind (update_executions (\<lambda>r. xr_id r = opt_obj i \<and> xr_finished_at_ns r = ONone)
                (finish_row finish exit encoded)) (\<lambda>rowcount.
       sbind (sraise_if (rowcount \<noteq> 1) (already_finished i)) (\<lambda>_.
       sbind (slift (event_values v)) (\<lambda>r.
       sbind (sinsert insert_event r) (\<lambda>_.
       sinsert_many measurement_values insert_measurement ms)))))))))))))"

end
