(* ===== verification/StorageInvariant.thy ===== *)
theory StorageInvariant
  imports StorageWriter
begin

text \<open>
  What a runpack under construction satisfies: each table holds rows that came through the
  checks, its keys are distinct, and every reference points to a row that is there (for an
  entity: to a row stored before it). Every operation of the writer keeps this, commits
  all of its changes or none, and never leaves an open transaction behind.
\<close>

named_theorems inner_intros \<open>statements that keep an invariant inside a transaction\<close>
named_theorems safe_intros \<open>operations that commit everything or nothing\<close>

section \<open>The invariant\<close>

definition execution_row_ok :: "execution_row \<Rightarrow> bool" where
  "execution_row_ok r \<longleftrightarrow>
     (\<exists>i n w rv s f x c m. text_ok i \<and> text_ok n \<and> text_ok w \<and> opt_text_ok rv \<and> integer_ok s \<and>
        (case f of None \<Rightarrow> True | Some t \<Rightarrow> integer_ok t \<and> s \<le> t) \<and>
        opt_integer_ok x \<and>
        (\<exists>parts. command_json parts = Inr c) \<and> (\<exists>a. attributes_field a = Inr m) \<and>
        r = \<lparr>xr_id = OStr i, xr_name = OStr n, xr_started_at_ns = OInt s, xr_finished_at_ns = opt_int f,
             xr_command_json = OStr c, xr_working_directory = OStr w, xr_exit_code = opt_int x,
             xr_revision = opt_obj rv, xr_metadata_json = OStr m\<rparr>)"

definition wf_executions :: "db \<Rightarrow> bool" where
  "wf_executions d \<longleftrightarrow> length (db_executions d) \<le> 1 \<and> (\<forall>r\<in>set (db_executions d). execution_row_ok r)"

definition entity_row_ok :: "entity_row \<Rightarrow> bool" where
  "entity_row_ok r \<longleftrightarrow> (\<exists>e. entity_values e = Inr r)"

definition wf_entities :: "db \<Rightarrow> bool" where
  "wf_entities d \<longleftrightarrow>
     distinct (map er_id (db_entities d)) \<and> (\<forall>r\<in>set (db_entities d). entity_row_ok r) \<and>
     (\<forall>k<length (db_entities d).
        reference_ok (er_parent_entity_id (db_entities d ! k)) (map er_id (take k (db_entities d))))"

definition wf_events :: "db \<Rightarrow> bool" where
  "wf_events d \<longleftrightarrow>
     distinct (map vr_id (db_events d)) \<and>
     (\<forall>r\<in>set (db_events d). (\<exists>v. event_values v = Inr r) \<and>
        reference_ok (vr_entity_id r) (map er_id (db_entities d)))"

definition wf_edges :: "db \<Rightarrow> bool" where
  "wf_edges d \<longleftrightarrow>
     distinct (map edge_key (db_edges d)) \<and>
     (\<forall>r\<in>set (db_edges d). (\<exists>g. edge_values g = Inr r) \<and>
        gr_source_event_id r \<in> vr_id ` set (db_events d) \<and> gr_target_event_id r \<in> vr_id ` set (db_events d))"

definition wf_measurements :: "db \<Rightarrow> bool" where
  "wf_measurements d \<longleftrightarrow>
     (\<forall>r\<in>set (db_measurements d). (\<exists>m. measurement_values m = Inr r) \<and>
        reference_ok (mr_entity_id r) (map er_id (db_entities d)))"

definition wf_attachments :: "db \<Rightarrow> bool" where
  "wf_attachments d \<longleftrightarrow>
     distinct (map tr_id (db_attachments d)) \<and>
     (\<forall>r\<in>set (db_attachments d). \<exists>t. attachment_values t = Inr r) \<and>
     column_sum_bytes (map tr_content (db_attachments d)) \<le> max_runpack_attachment_total_bytes"

definition wf_db :: "db \<Rightarrow> bool" where
  "wf_db d \<longleftrightarrow> wf_executions d \<and> wf_entities d \<and> wf_events d \<and> wf_edges d \<and> wf_measurements d \<and>
     wf_attachments d"

lemmas wf_defs = wf_db_def wf_executions_def wf_entities_def wf_events_def wf_edges_def
  wf_measurements_def wf_attachments_def

lemma wf_empty_db: "wf_db (empty_db\<lparr>db_manifest := m\<rparr>)"
  by (simp add: wf_defs empty_db_def column_sum_bytes_def)

section \<open>The statements of one table\<close>

lemma entity_values_id:
  "entity_values e = Inr r \<Longrightarrow> er_id r = OStr (ent_id e) \<and> er_parent_entity_id r = opt_obj (ent_parent_id e) \<and>
     entity_identity e = Inr (ent_id e, ent_parent_id e)"
  by (auto simp: entity_values_def res_simps)

lemma event_values_id:
  "event_values v = Inr r \<Longrightarrow> vr_id r = OStr (ev_id v) \<and> vr_entity_id r = opt_obj (ev_entity_id v)"
  by (auto simp: event_values_def res_simps)

lemma edge_values_id:
  "edge_values g = Inr r \<Longrightarrow> gr_source_event_id r = OStr (edge_source g) \<and>
     gr_target_event_id r = OStr (edge_target g) \<and> edge_source g \<noteq> edge_target g"
  by (auto simp: edge_values_def res_simps)

lemma attachment_values_id:
  "attachment_values t = Inr r \<Longrightarrow> tr_id r = OStr (att_id t) \<and> tr_content r = OBytes (att_content t) \<and>
     length (att_content t) \<le> max_runpack_attachment_bytes"
  by (auto simp: attachment_values_def res_simps)

lemma insert_execution_wf:
  "insert_execution r d = Inr d' \<Longrightarrow> wf_db d \<Longrightarrow> db_executions d = [] \<Longrightarrow> execution_row_ok r \<Longrightarrow> wf_db d'"
  by (auto simp: insert_execution_def res_simps wf_defs)

lemma insert_entity_wf:
  assumes "insert_entity r d = Inr d'" and "wf_db d" and "entity_values e = Inr r"
  shows "wf_db d'"
proof -
  have d': "d' = d\<lparr>db_entities := db_entities d @ [r]\<rparr>"
    and fresh: "er_id r \<notin> er_id ` set (db_entities d)"
    and ref: "reference_ok (er_parent_entity_id r) (map er_id (db_entities d))"
    using assms(1) entity_values_id [OF assms(3)]
    by (auto simp: insert_entity_def res_simps key_taken_def reference_ok_def)
  have "wf_entities d'"
    using assms(2,3) fresh ref
    by (auto simp: d' wf_db_def wf_entities_def entity_row_ok_def nth_append less_Suc_eq)
  moreover have "wf_events d'" "wf_measurements d'"
    using assms(2) by (auto simp: d' wf_db_def wf_events_def wf_measurements_def reference_ok_def)
  ultimately show ?thesis
    using assms(2) by (simp add: d' wf_db_def wf_executions_def wf_edges_def wf_attachments_def)
qed

lemma insert_event_wf:
  assumes "insert_event r d = Inr d'" and "wf_db d" and "event_values v = Inr r"
  shows "wf_db d'"
proof -
  have d': "d' = d\<lparr>db_events := db_events d @ [r]\<rparr>"
    and fresh: "vr_id r \<notin> vr_id ` set (db_events d)"
    and ref: "reference_ok (vr_entity_id r) (map er_id (db_entities d))"
    using assms(1) event_values_id [OF assms(3)]
    by (auto simp: insert_event_def res_simps key_taken_def)
  have "wf_events d'" using assms(2,3) fresh ref by (auto simp: d' wf_db_def wf_events_def)
  moreover have "wf_edges d'" using assms(2) by (auto simp: d' wf_db_def wf_edges_def)
  ultimately show ?thesis
    using assms(2)
    by (simp add: d' wf_db_def wf_executions_def wf_entities_def wf_measurements_def wf_attachments_def)
qed

lemma insert_edge_wf:
  assumes "insert_edge r d = Inr d'" and "wf_db d" and "edge_values g = Inr r"
  shows "wf_db d'"
  using assms edge_values_id [OF assms(3)]
  by (auto simp: insert_edge_def res_simps wf_defs reference_ok_def)

lemma insert_measurement_wf:
  assumes "insert_measurement r d = Inr d'" and "wf_db d" and "measurement_values m = Inr r"
  shows "wf_db d'"
  using assms by (auto simp: insert_measurement_def res_simps wf_defs)

lemma column_sum_bytes_append [simp]: "column_sum_bytes (xs @ ys) = column_sum_bytes xs + column_sum_bytes ys"
  by (induction xs) (auto simp: column_sum_bytes_def split: option.splits)

lemma insert_attachment_wf:
  assumes "insert_attachment r d = Inr d'" and "wf_db d" and "attachment_values t = Inr r"
    and "column_sum_bytes (map tr_content (db_attachments d @ [r])) \<le> max_runpack_attachment_total_bytes"
  shows "wf_db d' \<and> db_attachments d' = db_attachments d @ [r]"
  using assms attachment_values_id [OF assms(3)]
  by (auto simp: insert_attachment_def res_simps wf_defs key_taken_def)

section \<open>Statements inside a transaction\<close>

text \<open>
  A statement that only touches the working state, and keeps the invariant there whatever
  its outcome is.
\<close>

definition inner_at :: "(db \<Rightarrow> bool) \<Rightarrow> 'a stmt \<Rightarrow> conn \<Rightarrow> bool" where
  "inner_at P m c \<longleftrightarrow> (P (conn_working c) \<longrightarrow> P (conn_working (fst (m c)))) \<and>
     conn_committed (fst (m c)) = conn_committed c \<and> conn_path (fst (m c)) = conn_path c"

definition inner :: "(db \<Rightarrow> bool) \<Rightarrow> 'a stmt \<Rightarrow> bool" where
  "inner P m \<longleftrightarrow> (\<forall>c. inner_at P m c)"

lemma inner_slift [inner_intros]: "inner P (slift r)"
  by (simp add: inner_def inner_at_def slift_def)

lemma inner_sreturn [inner_intros]: "inner P (sreturn x)"
  by (simp add: inner_def inner_at_def sreturn_def)

lemma inner_sraise_if [inner_intros]: "inner P (sraise_if b e)"
  by (simp add: sraise_if_def inner_slift)

lemma inner_squery [inner_intros]: "inner P (squery f)"
  by (simp add: inner_def inner_at_def squery_def)

lemma inner_at_sbind: "inner_at P m c \<Longrightarrow> (\<And>x. inner P (f x)) \<Longrightarrow> inner_at P (sbind m f) c"
  by (auto simp: inner_at_def inner_def sbind_def split: prod.splits sum.splits)

lemma inner_sbind [inner_intros]: "inner P m \<Longrightarrow> (\<And>x. inner P (f x)) \<Longrightarrow> inner P (sbind m f)"
  by (simp add: inner_at_sbind inner_def)

lemma inner_at_slift_bind: "(\<And>x. r = Inr x \<Longrightarrow> inner_at P (f x) c) \<Longrightarrow> inner_at P (sbind (slift r) f) c"
  by (cases r) (auto simp: inner_at_def sbind_def slift_def)

lemma inner_slift_bind: "(\<And>x. r = Inr x \<Longrightarrow> inner P (f x)) \<Longrightarrow> inner P (sbind (slift r) f)"
  by (simp add: inner_at_slift_bind inner_def)

lemma inner_at_squery_bind: "inner_at P (f (q (conn_working c))) c \<Longrightarrow> inner_at P (sbind (squery q) f) c"
  by (auto simp: inner_at_def sbind_def squery_def)

lemma inner_at_sraise_bind: "(\<not> b \<Longrightarrow> inner_at P (f ()) c) \<Longrightarrow> inner_at P (sbind (sraise_if b e) f) c"
  unfolding sraise_if_def by (rule inner_at_slift_bind) (simp add: raise_if_def split: if_splits)

lemma inner_at_sexec:
  "(\<And>d' x. f (conn_working c) = Inr (d', x) \<Longrightarrow> P (conn_working c) \<Longrightarrow> P d') \<Longrightarrow> inner_at P (sexec f) c"
  by (auto simp: inner_at_def sexec_def split: sum.splits)

lemma inner_at_sinsert:
  "(\<And>d'. ins r (conn_working c) = Inr d' \<Longrightarrow> P (conn_working c) \<Longrightarrow> P d') \<Longrightarrow> inner_at P (sinsert ins r) c"
  unfolding sinsert_def by (rule inner_at_sexec) (auto simp: res_simps)

lemma inner_sinsert: "(\<And>d d'. ins r d = Inr d' \<Longrightarrow> P d \<Longrightarrow> P d') \<Longrightarrow> inner P (sinsert ins r)"
  by (simp add: inner_def inner_at_sinsert)

lemma inner_sinsert_many:
  assumes "\<And>x r d d'. x \<in> set xs \<Longrightarrow> vals x = Inr r \<Longrightarrow> ins r d = Inr d' \<Longrightarrow> P d \<Longrightarrow> P d'"
  shows "inner P (sinsert_many vals ins xs)"
  using assms by (induction xs) (auto intro!: inner_slift_bind inner_sbind inner_sinsert inner_sreturn)

section \<open>Operations\<close>

text \<open>
  Between operations nothing is uncommitted. An operation is safe when it keeps the
  invariant, leaves nothing uncommitted, and changes nothing at all when it fails.
\<close>

definition settled :: "conn \<Rightarrow> bool" where
  "settled c \<longleftrightarrow> conn_working c = conn_committed c"

definition safe_at :: "(db \<Rightarrow> bool) \<Rightarrow> 'a stmt \<Rightarrow> conn \<Rightarrow> bool" where
  "safe_at P m c \<longleftrightarrow> (settled c \<longrightarrow> P (conn_committed c) \<longrightarrow>
     settled (fst (m c)) \<and> P (conn_committed (fst (m c))) \<and>
     (\<forall>e. snd (m c) = Inl e \<longrightarrow> fst (m c) = c))"

lemma safe_slift_bind [safe_intros]:
  "(\<And>x. r = Inr x \<Longrightarrow> safe_at P (f x) c) \<Longrightarrow> safe_at P (sbind (slift r) f) c"
  by (cases r) (auto simp: safe_at_def sbind_def slift_def)

lemma safe_squery_bind [safe_intros]: "safe_at P (f (q (conn_working c))) c \<Longrightarrow> safe_at P (sbind (squery q) f) c"
  by (auto simp: safe_at_def sbind_def squery_def)

lemma safe_sraise_bind [safe_intros]:
  "(\<not> b \<Longrightarrow> safe_at P (f ()) c) \<Longrightarrow> safe_at P (sbind (sraise_if b e) f) c"
  unfolding sraise_if_def by (rule safe_slift_bind) (simp add: raise_if_def split: if_splits)

lemma fst_swriting: "fst (swriting m c) = fst (m c)"
  by (auto simp: swriting_def split: prod.splits sum.splits err.splits)

lemma snd_swriting_Inl: "snd (swriting m c) = Inl e \<Longrightarrow> \<exists>e'. snd (m c) = Inl e'"
  by (auto simp: swriting_def split: prod.splits sum.splits err.splits)

lemma safe_swriting [safe_intros]: "safe_at P m c \<Longrightarrow> safe_at P (swriting m) c"
  by (auto simp: safe_at_def fst_swriting dest!: snd_swriting_Inl)

lemma safe_exec_commit:
  assumes "\<And>d' x. f (conn_working c) = Inr (d', x) \<Longrightarrow> P (conn_working c) \<Longrightarrow> P d'"
  shows "safe_at P (sbind (sexec f) (\<lambda>_. scommit)) c"
  using assms by (auto simp: safe_at_def settled_def sexec_def sbind_def scommit_def split: sum.splits)

lemma safe_insert_commit [safe_intros]:
  assumes "\<And>d'. ins r (conn_working c) = Inr d' \<Longrightarrow> P (conn_working c) \<Longrightarrow> P d'"
  shows "safe_at P (sbind (sinsert ins r) (\<lambda>_. scommit)) c"
  unfolding sinsert_def using assms by (intro safe_exec_commit) (auto simp: res_simps)

lemma safe_transaction [safe_intros]:
  assumes "inner_at P m c"
  shows "safe_at P (stransaction m) c"
  using assms
  by (auto simp: safe_at_def inner_at_def settled_def stransaction_def srollback_def scommit_def
      split: prod.splits sum.splits)

section \<open>Every operation is safe\<close>

lemma execution_row_okI:
  assumes "text_ok i" and "text_ok n" and "text_ok w" and "opt_text_ok rv" and "integer_ok s"
    and "case f of None \<Rightarrow> True | Some t \<Rightarrow> integer_ok t \<and> s \<le> t" and "opt_integer_ok x"
    and "command_json parts = Inr c" and "attributes_field a = Inr m"
  shows "execution_row_ok \<lparr>xr_id = OStr i, xr_name = OStr n, xr_started_at_ns = OInt s,
    xr_finished_at_ns = opt_int f, xr_command_json = OStr c, xr_working_directory = OStr w,
    xr_exit_code = opt_int x, xr_revision = opt_obj rv, xr_metadata_json = OStr m\<rparr>"
  unfolding execution_row_ok_def
  by (rule exI [of _ i], rule exI [of _ n], rule exI [of _ w], rule exI [of _ rv], rule exI [of _ s],
      rule exI [of _ f], rule exI [of _ x], rule exI [of _ c], rule exI [of _ m])
    (use assms in blast)

lemma safe_add_execution: "safe_at wf_db (add_execution x) c"
  unfolding add_execution_def
proof (intro safe_intros, clarsimp simp only: split_paired_all prod.case, intro safe_intros)
  fix s f exit i n w rv cmd md d'
  assume vals: "execution_interval (OInt (exec_started_at_ns x)) (opt_int (exec_finished_at_ns x)) = Inr (s, f)"
    "integer_value True (lit ''execution exit code'') (opt_int (exec_exit_code x)) = Inr exit"
    "text_value False (lit ''execution id'') (OStr (exec_id x)) = Inr i"
    "text_value False (lit ''execution name'') (OStr (exec_name x)) = Inr n"
    "text_value False (lit ''execution working directory'') (OStr (exec_working_directory x)) = Inr w"
    "text_value True (lit ''execution revision'') (opt_obj (exec_revision x)) = Inr rv"
    "command_json (exec_command x) = Inr cmd" "attributes_field (exec_metadata x) = Inr md"
    and guard: "\<not> length (db_executions (conn_working c)) \<noteq> 0"
    and ins: "insert_execution \<lparr>xr_id = opt_obj i, xr_name = opt_obj n, xr_started_at_ns = OInt s,
          xr_finished_at_ns = opt_int f, xr_command_json = OStr cmd,
          xr_working_directory = opt_obj w, xr_exit_code = opt_int exit,
          xr_revision = opt_obj rv, xr_metadata_json = OStr md\<rparr> (conn_working c) = Inr d'"
    and wf: "wf_db (conn_working c)"
  show "wf_db d'"
  proof (rule insert_execution_wf [OF ins wf])
    show "db_executions (conn_working c) = []" using guard by simp
    from vals show "execution_row_ok \<lparr>xr_id = opt_obj i, xr_name = opt_obj n, xr_started_at_ns = OInt s,
          xr_finished_at_ns = opt_int f, xr_command_json = OStr cmd,
          xr_working_directory = opt_obj w, xr_exit_code = opt_int exit,
          xr_revision = opt_obj rv, xr_metadata_json = OStr md\<rparr>"
      by (auto simp: res_simps intro!: execution_row_okI)
  qed
qed


lemmas insert_many_wf = inner_sinsert_many [where P = wf_db]

lemma inner_entities: "inner wf_db (sinsert_many entity_values insert_entity es)"
  by (rule insert_many_wf) (rule insert_entity_wf)

lemma inner_events: "inner wf_db (sinsert_many event_values insert_event vs)"
  by (rule insert_many_wf) (rule insert_event_wf)

lemma inner_edges: "inner wf_db (sinsert_many edge_values insert_edge gs)"
  by (rule insert_many_wf) (rule insert_edge_wf)

lemma inner_measurements: "inner wf_db (sinsert_many measurement_values insert_measurement ms)"
  by (rule insert_many_wf) (rule insert_measurement_wf)

lemmas inner_tables [inner_intros] = inner_entities inner_events inner_edges inner_measurements

lemma inner_at_inner: "inner P m \<Longrightarrow> inner_at P m c"
  by (simp add: inner_def)

lemmas safe_ops_defs = add_entity_def add_entities_def add_event_def add_events_def
  add_event_graph_def add_causal_edge_def add_causal_edges_def add_measurement_def add_measurements_def

lemma safe_single:
  assumes "\<And>r d d'. vals x = Inr r \<Longrightarrow> ins r d = Inr d' \<Longrightarrow> P d \<Longrightarrow> P d'"
  shows "safe_at P (swriting (sbind (slift (vals x)) (\<lambda>r. sbind (sinsert ins r) (\<lambda>_. scommit)))) c"
  using assms by (intro safe_intros)

lemma safe_add_entity: "safe_at wf_db (add_entity e) c"
  unfolding add_entity_def by (rule safe_single) (rule insert_entity_wf)

lemma safe_add_event: "safe_at wf_db (add_event v) c"
  unfolding add_event_def by (rule safe_single) (rule insert_event_wf)

lemma safe_add_causal_edge: "safe_at wf_db (add_causal_edge g) c"
  unfolding add_causal_edge_def by (rule safe_single) (rule insert_edge_wf)

lemma safe_add_measurement: "safe_at wf_db (add_measurement m) c"
  unfolding add_measurement_def by (rule safe_single) (rule insert_measurement_wf)

lemma safe_add_entities: "safe_at wf_db (add_entities es) c"
  unfolding add_entities_def by (intro safe_intros inner_at_inner inner_intros)

lemma safe_add_events: "safe_at wf_db (add_events vs) c"
  unfolding add_events_def by (intro safe_intros inner_at_inner inner_intros)

lemma safe_add_event_graph: "safe_at wf_db (add_event_graph vs gs) c"
  unfolding add_event_graph_def by (intro safe_intros inner_at_inner inner_intros)

lemma safe_add_causal_edges: "safe_at wf_db (add_causal_edges gs) c"
  unfolding add_causal_edges_def by (intro safe_intros inner_at_inner inner_intros)

lemma safe_add_measurements: "safe_at wf_db (add_measurements ms) c"
  unfolding add_measurements_def by (intro safe_intros inner_at_inner inner_intros)

text \<open>The updates of the execution row.\<close>

lemma wf_update_executions:
  assumes "wf_db d" and "\<And>r. r \<in> set (db_executions d) \<Longrightarrow> p r \<Longrightarrow> execution_row_ok (f r)"
  shows "wf_db (d\<lparr>db_executions := map (\<lambda>r. if p r then f r else r) (db_executions d)\<rparr>)"
  using assms by (auto simp: wf_defs)

lemma inner_at_update:
  assumes "\<And>r. wf_db (conn_working c) \<Longrightarrow> r \<in> set (db_executions (conn_working c)) \<Longrightarrow> p r \<Longrightarrow>
    execution_row_ok (f r)"
  shows "inner_at wf_db (update_executions p f) c"
  unfolding update_executions_def
  by (rule inner_at_sexec) (auto intro!: wf_update_executions assms)

lemma set_metadata_row_ok:
  "execution_row_ok r \<Longrightarrow> attributes_field a = Inr m \<Longrightarrow> execution_row_ok (set_metadata_row m r)"
  unfolding execution_row_ok_def set_metadata_row_def by fastforce

lemma wf_db_execution_row: "wf_db d \<Longrightarrow> r \<in> set (db_executions d) \<Longrightarrow> execution_row_ok r"
  by (simp add: wf_db_def wf_executions_def)

lemma safe_graph_and_metadata:
  "safe_at wf_db (add_event_graph_and_set_execution_metadata i vs gs metadata) c"
  unfolding add_event_graph_and_set_execution_metadata_def
proof (intro safe_intros inner_at_inner inner_sbind inner_intros)
  fix t m and r :: nat
  assume "attributes_field metadata = Inr m"
  then show "inner wf_db (update_executions (\<lambda>r. xr_id r = opt_obj t) (set_metadata_row m))"
    unfolding inner_def by (blast intro: inner_at_update set_metadata_row_ok wf_db_execution_row)
qed

lemma execution_row_interval:
  assumes "execution_row_ok r"
  shows "\<exists>s f. xr_started_at_ns r = OInt s \<and> integer_ok s \<and> xr_finished_at_ns r = opt_int f \<and>
    (case f of None \<Rightarrow> True | Some t \<Rightarrow> integer_ok t \<and> s \<le> t)"
  using assms unfolding execution_row_ok_def by fastforce

lemma execution_row_ok_times:
  assumes "execution_row_ok r" and "integer_ok s"
    and "case f of None \<Rightarrow> True | Some t \<Rightarrow> integer_ok t \<and> s \<le> t"
  shows "execution_row_ok (r\<lparr>xr_started_at_ns := OInt s, xr_finished_at_ns := opt_int f\<rparr>)"
  using assms unfolding execution_row_ok_def by fastforce

lemma expand_row_ok:
  assumes "execution_row_ok r" and "integer_ok s"
    and "case f of None \<Rightarrow> True | Some t \<Rightarrow> integer_ok t \<and> s \<le> t"
  shows "execution_row_ok (expand_row (OInt s) (opt_int f) r)"
proof -
  from execution_row_interval [OF assms(1)] obtain s0 f0 where r: "xr_started_at_ns r = OInt s0"
    "integer_ok s0" "xr_finished_at_ns r = opt_int f0"
    "case f0 of None \<Rightarrow> True | Some t \<Rightarrow> integer_ok t \<and> s0 \<le> t" by blast
  define f' where "f' = (case f0 of None \<Rightarrow> None | Some t \<Rightarrow> (case f of None \<Rightarrow> Some t | Some u \<Rightarrow> Some (max t u)))"
  have "expand_row (OInt s) (opt_int f) r =
      r\<lparr>xr_started_at_ns := OInt (min s0 s), xr_finished_at_ns := opt_int f'\<rparr>"
    using r(1,3) by (auto simp: expand_row_def f'_def split: option.splits)
  moreover have "execution_row_ok \<dots>"
    using assms r by (intro execution_row_ok_times)
      (auto simp: f'_def integer_ok_def min_def max_def split: option.splits)
  ultimately show ?thesis by simp
qed

lemma safe_expand: "safe_at wf_db (expand_execution_bounds s f) c"
  unfolding expand_execution_bounds_def
proof (intro safe_intros, clarsimp simp only: split_paired_all prod.case,
    intro safe_intros inner_at_sbind inner_intros inner_at_update)
  fix s' f' r
  assume "execution_interval (OInt s) (opt_int f) = Inr (s', f')" "wf_db (conn_working c)"
    "r \<in> set (db_executions (conn_working c))"
  then show "execution_row_ok (expand_row (OInt s') (opt_int f') r)"
    by (intro expand_row_ok) (auto simp: res_simps wf_db_execution_row)
qed


text \<open>
  \<open>set_execution_metadata\<close> raises outside a transaction when its update matched no row;
  the update has then changed nothing.
\<close>

lemma update_no_match:
  "filter p (db_executions d) = [] \<Longrightarrow> map (\<lambda>r. if p r then f r else r) (db_executions d) = db_executions d"
  by (rule map_idI) (auto simp: filter_empty_conv)

lemma filter_length_le1: "length xs \<le> 1 \<Longrightarrow> length (filter p xs) \<noteq> 1 \<Longrightarrow> filter p xs = []"
  by (cases xs) (auto split: if_splits)

lemma safe_update_commit:
  assumes "\<And>r. wf_db (conn_working c) \<Longrightarrow> r \<in> set (db_executions (conn_working c)) \<Longrightarrow> p r \<Longrightarrow>
    execution_row_ok (f r)"
  shows "safe_at wf_db (sbind (update_executions p f) (\<lambda>n. sbind (sraise_if (n \<noteq> 1) e) (\<lambda>_. scommit))) c"
proof -
  have "wf_db (conn_working c) \<Longrightarrow> length (filter p (db_executions (conn_working c))) \<noteq> 1 \<Longrightarrow>
      filter p (db_executions (conn_working c)) = []"
    by (rule filter_length_le1) (auto simp: wf_db_def wf_executions_def)
  moreover have "wf_db (conn_working c) \<Longrightarrow> wf_db (conn_working c\<lparr>db_executions :=
      map (\<lambda>r. if p r then f r else r) (db_executions (conn_working c))\<rparr>)"
    by (rule wf_update_executions) (auto intro: assms)
  ultimately show ?thesis
    by (auto simp: safe_at_def settled_def sbind_def update_executions_def sexec_def sraise_if_def
        slift_def raise_if_def scommit_def update_no_match)
qed

lemma safe_set_metadata: "safe_at wf_db (set_execution_metadata i metadata) c"
  unfolding set_execution_metadata_def
  by (intro safe_intros safe_update_commit) (blast intro: set_metadata_row_ok wf_db_execution_row)

lemma finish_row_ok:
  assumes "execution_row_ok r" and "xr_started_at_ns r = OInt s" and "integer_ok t" and "s \<le> t"
    and "integer_ok x" and "attributes_field a = Inr m"
  shows "execution_row_ok (finish_row (Some t) (Some x) m r)"
proof -
  from assms(1) obtain i n w rv f y c m' parts where r: "text_ok i" "text_ok n" "text_ok w" "opt_text_ok rv"
      "integer_ok s" "command_json parts = Inr c"
      "r = \<lparr>xr_id = OStr i, xr_name = OStr n, xr_started_at_ns = OInt s, xr_finished_at_ns = opt_int f,
        xr_command_json = OStr c, xr_working_directory = OStr w, xr_exit_code = opt_int y,
        xr_revision = opt_obj rv, xr_metadata_json = OStr m'\<rparr>"
    using assms(2) unfolding execution_row_ok_def by auto
  then show ?thesis
    using assms(3-) execution_row_okI [of i n w rv s "Some t" "Some x" parts c a m]
    by (simp add: finish_row_def)
qed

lemma find_SomeD: "List.find p xs = Some x \<Longrightarrow> x \<in> set xs \<and> p x"
  by (auto simp: find_Some_iff)

lemma single_row: "wf_db d \<Longrightarrow> r \<in> set (db_executions d) \<Longrightarrow> r' \<in> set (db_executions d) \<Longrightarrow> r = r'"
  by (cases "db_executions d") (auto simp: wf_db_def wf_executions_def)

lemma inner_finish_body:
  assumes "\<And>m r. attributes_field metadata = Inr m \<Longrightarrow> wf_db (conn_working c) \<Longrightarrow>
    r \<in> set (db_executions (conn_working c)) \<Longrightarrow> p r \<Longrightarrow> execution_row_ok (f m r)"
  shows "inner_at wf_db
    (sbind (slift (attributes_field metadata)) (\<lambda>encoded.
     sbind (update_executions p (f encoded)) (\<lambda>n.
     sbind (sraise_if (n \<noteq> 1) e) (\<lambda>_.
     sbind (slift (event_values v)) (\<lambda>r.
     sbind (sinsert insert_event r) (\<lambda>_.
     sinsert_many measurement_values insert_measurement ms)))))) c"
  using assms
  by (intro inner_at_slift_bind inner_at_sbind inner_at_update
      inner_sbind [OF inner_sraise_if] inner_slift_bind inner_sbind [OF inner_sinsert] inner_measurements)
    (auto intro: insert_event_wf)

lemma safe_finish_execution: "safe_at wf_db (finish_execution i t x metadata v ms) c"
  unfolding finish_execution_def
proof (intro safe_intros, unfold split_paired_all prod.case, intro safe_intros inner_finish_body)
  fix i' row s f y m r
  assume found: "(case List.find (\<lambda>r. xr_id r = opt_obj i') (db_executions (conn_working c)) of
      None \<Rightarrow> Inl (missing_execution i') | Some r \<Rightarrow> Inr r) = Inr row"
    and iv: "execution_interval (xr_started_at_ns row) (OInt t) = Inr (s, f)"
    and y: "integer_value False (lit ''execution exit code'') (OInt x) = Inr y"
    and m: "attributes_field metadata = Inr m"
    and wf: "wf_db (conn_working c)" and r: "r \<in> set (db_executions (conn_working c))"
  from found have "row \<in> set (db_executions (conn_working c))"
    by (auto dest!: find_SomeD split: option.splits)
  with wf r have "row = r" by (blast intro: single_row)
  moreover have "opt_int f = OInt t" "s \<le> t" "integer_ok t" "xr_started_at_ns row = OInt s"
    using iv by (auto simp: res_simps split: option.splits)
  ultimately show "execution_row_ok (finish_row f y m r)"
    using y m finish_row_ok [OF wf_db_execution_row [OF wf r], of s t x metadata m]
    by (auto simp: res_simps)
qed

text \<open>Attachments: besides the rows, the bytes of all contents stay within the limit.\<close>

lemma collect_attachments_spec:
  "collect_attachments ts added = Inr (rs, bytes) \<Longrightarrow>
     list_all2 (\<lambda>t r. attachment_values t = Inr r) ts rs \<and>
     bytes = added + column_sum_bytes (map tr_content rs) \<and>
     (ts \<noteq> [] \<longrightarrow> bytes \<le> max_runpack_attachment_total_bytes)"
proof (induction ts arbitrary: added rs bytes)
  case Nil
  then show ?case by (auto simp: column_sum_bytes_def)
next
  case (Cons t ts)
  let ?a = "added + length (att_content t)"
  from Cons.prems obtain r rs' where r: "attachment_values t = Inr r"
      "\<not> max_runpack_attachment_total_bytes < ?a"
      "collect_attachments ts ?a = Inr (rs', bytes)" "rs = r # rs'"
    by (auto simp: res_simps Let_def)
  from Cons.IH [OF r(3)] r attachment_values_id [OF r(1)] show ?case
    by (cases ts) (auto simp: column_sum_bytes_def)
qed


lemma inner_at_attachments:
  assumes "\<forall>r\<in>set rs. \<exists>t. attachment_values t = Inr r"
    and "column_sum_bytes (map tr_content (db_attachments (conn_working c))) +
      column_sum_bytes (map tr_content rs) \<le> max_runpack_attachment_total_bytes"
  shows "inner_at wf_db (sinsert_many Inr insert_attachment rs) c"
  using assms
proof (induction rs arbitrary: c)
  case Nil
  then show ?case by (simp add: inner_at_def sreturn_def)
next
  case (Cons r rs)
  show ?case
  proof (cases "insert_attachment r (conn_working c)")
    case (Inl e)
    then show ?thesis
      by (simp add: inner_at_def sbind_def slift_def sinsert_def sexec_def)
  next
    case (Inr d)
    let ?c = "c\<lparr>conn_working := d\<rparr>"
    have run: "sinsert_many Inr insert_attachment (r # rs) c = sinsert_many Inr insert_attachment rs ?c"
      using Inr by (simp add: sbind_def slift_def sinsert_def sexec_def)
    have app: "db_attachments d = db_attachments (conn_working c) @ [r]"
      using Inr by (auto simp: insert_attachment_def res_simps)
    have r: "column_sum_bytes (map tr_content (r # rs)) =
        column_sum_bytes [tr_content r] + column_sum_bytes (map tr_content rs)"
      using column_sum_bytes_append [of "[tr_content r]" "map tr_content rs"]
      by (simp only: list.map append_Cons append_Nil)
    have IH: "inner_at wf_db (sinsert_many Inr insert_attachment rs) ?c"
    proof (rule Cons.IH)
      show "\<forall>r\<in>set rs. \<exists>t. attachment_values t = Inr r" using Cons.prems(1) by simp
      show "column_sum_bytes (map tr_content (db_attachments (conn_working ?c))) +
          column_sum_bytes (map tr_content rs) \<le> max_runpack_attachment_total_bytes"
        using Cons.prems(2) r by (simp add: app)
    qed
    have "wf_db d" if wf: "wf_db (conn_working c)"
    proof -
      obtain t where t: "attachment_values t = Inr r" using Cons.prems(1) by auto
      have "column_sum_bytes (map tr_content (db_attachments (conn_working c) @ [r]))
          \<le> max_runpack_attachment_total_bytes"
        using Cons.prems(2) r by simp
      from insert_attachment_wf [OF Inr wf t this] show ?thesis by blast
    qed
    with IH show ?thesis unfolding inner_at_def run by simp
  qed
qed

lemma safe_add_attachments: "safe_at wf_db (add_attachments ts) c"
  unfolding add_attachments_def
proof (intro safe_intros, unfold split_paired_all prod.case,
    intro safe_intros inner_at_squery_bind inner_at_sraise_bind inner_at_attachments)
  fix rs n
  assume rs: "collect_attachments ts 0 = Inr (rs, n)"
  note spec = collect_attachments_spec [OF rs]
  show "\<forall>r\<in>set rs. \<exists>t. attachment_values t = Inr r"
    using list_all2_right [OF conjunct1 [OF spec]] by blast
  assume "\<not> max_runpack_attachment_total_bytes <
      column_sum_bytes (map tr_content (db_attachments (conn_working c))) + n"
  with spec show "column_sum_bytes (map tr_content (db_attachments (conn_working c))) +
      column_sum_bytes (map tr_content rs) \<le> max_runpack_attachment_total_bytes"
    by simp
qed

section \<open>Sequences of operations\<close>

text \<open>One call of a writer: the state before, the outcome and the state after.\<close>

inductive writer_step :: "conn \<Rightarrow> unit res \<Rightarrow> conn \<Rightarrow> bool" where
  step_execution: "add_execution x c = (c', r) \<Longrightarrow> writer_step c r c'"
| step_entity: "add_entity e c = (c', r) \<Longrightarrow> writer_step c r c'"
| step_entities: "add_entities es c = (c', r) \<Longrightarrow> writer_step c r c'"
| step_event: "add_event v c = (c', r) \<Longrightarrow> writer_step c r c'"
| step_events: "add_events vs c = (c', r) \<Longrightarrow> writer_step c r c'"
| step_graph: "add_event_graph vs gs c = (c', r) \<Longrightarrow> writer_step c r c'"
| step_graph_metadata: "add_event_graph_and_set_execution_metadata i vs gs a c = (c', r) \<Longrightarrow> writer_step c r c'"
| step_edge: "add_causal_edge g c = (c', r) \<Longrightarrow> writer_step c r c'"
| step_edges: "add_causal_edges gs c = (c', r) \<Longrightarrow> writer_step c r c'"
| step_measurement: "add_measurement m c = (c', r) \<Longrightarrow> writer_step c r c'"
| step_measurements: "add_measurements ms c = (c', r) \<Longrightarrow> writer_step c r c'"
| step_attachments: "add_attachments ts c = (c', r) \<Longrightarrow> writer_step c r c'"
| step_expand: "expand_execution_bounds s f c = (c', r) \<Longrightarrow> writer_step c r c'"
| step_metadata: "set_execution_metadata i a c = (c', r) \<Longrightarrow> writer_step c r c'"
| step_finish: "finish_execution i t x a v ms c = (c', r) \<Longrightarrow> writer_step c r c'"

inductive writer_reachable :: "conn \<Rightarrow> bool" where
  reach_create: "create_runpack False path producer = Inr c \<Longrightarrow> writer_reachable c"
| reach_step: "writer_reachable c \<Longrightarrow> writer_step c r c' \<Longrightarrow> writer_reachable c'"

lemmas safe_operations = safe_add_execution safe_add_entity safe_add_entities safe_add_event
  safe_add_events safe_add_event_graph safe_graph_and_metadata safe_add_causal_edge
  safe_add_causal_edges safe_add_measurement safe_add_measurements safe_add_attachments
  safe_expand safe_set_metadata safe_finish_execution

lemma writer_step_safe:
  assumes "writer_step c r c'" and "settled c" and "wf_db (conn_committed c)"
  shows "settled c' \<and> wf_db (conn_committed c') \<and> (\<forall>e. r = Inl e \<longrightarrow> c' = c)"
proof -
  have all: "settled c' \<and> wf_db (conn_committed c') \<and> (\<forall>e. r = Inl e \<longrightarrow> c' = c)"
    if "m c = (c', r)" "safe_at wf_db m c" for m
    using that assms(2,3) by (simp add: safe_at_def)
  from assms(1) show ?thesis by cases (erule all, rule safe_operations)+
qed

lemma writer_reachable_wf: "writer_reachable c \<Longrightarrow> settled c \<and> wf_db (conn_committed c)"
proof (induction rule: writer_reachable.induct)
  case (reach_create path producer c)
  then show ?case by (auto simp: create_runpack_def Let_def settled_def wf_empty_db)
next
  case (reach_step c r c')
  then show ?case using writer_step_safe by blast
qed

section \<open>Properties\<close>

text \<open>A new runpack, and one with a single entity, for the witnesses.\<close>

definition sample_db :: db where
  "sample_db = empty_db\<lparr>db_manifest := [(OStr (lit ''schema_version''), OStr schema_version_text),
     (OStr (lit ''producer_version''), OStr (lit ''0.1.0''))]\<rparr>"

definition sample_conn :: conn where
  "sample_conn = \<lparr>conn_path = lit ''run.runpack'', conn_committed = sample_db, conn_working = sample_db\<rparr>"

definition sample_entity :: entity where
  "sample_entity = \<lparr>ent_id = lit ''svc'', ent_kind = lit ''service'', ent_name = lit ''api'',
     ent_parent_id = None, ent_attributes = [(lit ''retries'', JInt 3)]\<rparr>"

definition sample_entity_row :: entity_row where
  "sample_entity_row = \<lparr>er_id = OStr (lit ''svc''), er_kind = OStr (lit ''service''), er_name = OStr (lit ''api''),
     er_parent_entity_id = ONone, er_attributes_json = OStr [123, 34, 114, 101, 116, 114, 105, 101, 115, 34, 58, 51, 125]\<rparr>"

lemma sample_conn_reachable: "writer_reachable sample_conn"
  by (rule reach_create [of "lit ''run.runpack''" "lit ''0.1.0''"])
    (simp add: create_runpack_def sample_conn_def sample_db_def Let_def)

lemma sample_entity_values: "entity_values sample_entity = Inr sample_entity_row"
  by code_simp

lemma add_sample_entity:
  "add_entity sample_entity c =
     (if OStr (lit ''svc'') \<in> er_id ` set (db_entities (conn_working c))
      then (c, Inl (write_error (conn_path c) (lit ''UNIQUE constraint failed: entities.id'')))
      else (c\<lparr>conn_working := conn_working c\<lparr>db_entities := db_entities (conn_working c) @ [sample_entity_row]\<rparr>,
              conn_committed := conn_working c\<lparr>db_entities := db_entities (conn_working c) @ [sample_entity_row]\<rparr>\<rparr>, Inr ()))"
  by (simp add: add_entity_def sample_entity_values swriting_def sbind_def slift_def sinsert_def sexec_def
      insert_entity_def key_taken_def reference_ok_def scommit_def sample_entity_row_def lit_append [symmetric])

text \<open>C1. Whatever sequence of calls a writer has gone through, failed calls included, nothing
  is left uncommitted and the tables are well formed: at most one execution whose finish does
  not precede its start, distinct keys, every reference resolved (an entity's parent stored
  before it), edges between different events with a confidence in range, and attachment
  contents within the total limit.\<close>

theorem writer_keeps_tables_well_formed:
  assumes "writer_reachable c"
  shows "conn_working c = conn_committed c \<and> wf_db (conn_committed c)"
  using writer_reachable_wf [OF assms] by (simp add: settled_def)

theorem writer_keeps_tables_well_formed_witness:
  "wf_db (conn_committed (fst (add_entity sample_entity sample_conn))) \<and>
   db_entities (conn_committed (fst (add_entity sample_entity sample_conn))) = [sample_entity_row]"
proof -
  have "writer_reachable (fst (add_entity sample_entity sample_conn))"
    by (rule reach_step [OF sample_conn_reachable]) (rule step_entity [OF surjective_pairing])
  from writer_keeps_tables_well_formed [OF this] show ?thesis
    by (simp add: add_sample_entity) (simp add: sample_conn_def sample_db_def empty_db_def)
qed

text \<open>C5. Every operation is atomic: a call that raises leaves the runpack, committed and
  working state, exactly as it was, whichever record of the batch was at fault.\<close>

theorem writer_failure_changes_nothing:
  assumes "writer_reachable c" and "writer_step c (Inl e) c'"
  shows "c' = c"
  using writer_step_safe [OF assms(2)] writer_reachable_wf [OF assms(1)] by blast

theorem writer_failure_changes_nothing_witness:
  "fst (add_entities [sample_entity, sample_entity] sample_conn) = sample_conn"
proof (rule writer_failure_changes_nothing [OF sample_conn_reachable step_entities])
  show "add_entities [sample_entity, sample_entity] sample_conn =
    (fst (add_entities [sample_entity, sample_entity] sample_conn),
     Inl (write_error (lit ''run.runpack'') (lit ''UNIQUE constraint failed: entities.id'')))"
    by code_simp
qed

end
