(* ===== verification/StorageTables.thy ===== *)
theory StorageTables
  imports StorageInvariant
begin

text \<open>
  The functional behaviour of the writer. A table is an interface: rows that can be read
  and replaced, and an insertion that appends or fails. What \<open>executemany\<close> inside a
  transaction does to such a table is proved once, and holds of the six tables of a
  runpack by interpretation. The theory ends with the batch insertion of entities, which
  accepts a valid batch in any order, and the two updates of the execution row.
\<close>

section \<open>Tables\<close>

locale row_table =
  fixes rows :: "db \<Rightarrow> 'r list"
    and put :: "'r list \<Rightarrow> db \<Rightarrow> db"
    and ins :: "'r \<Rightarrow> db \<Rightarrow> db res"
  assumes ins_appends: "ins r d = Inr d' \<Longrightarrow> d' = put (rows d @ [r]) d"
    and rows_put: "rows (put rs d) = rs"
    and put_put: "put rs (put rs' d) = put rs d"
    and put_rows: "put (rows d) d = d"
begin

lemma insert_many_appends:
  "sinsert_many vals ins xs c = (c', Inr u) \<Longrightarrow>
     \<exists>rs. traverse vals xs = Inr rs \<and>
       c' = c\<lparr>conn_working := put (rows (conn_working c) @ rs) (conn_working c)\<rparr>"
proof (induction xs arbitrary: c)
  case Nil
  then show ?case by (simp add: sreturn_def put_rows)
next
  case (Cons x xs)
  from Cons.prems obtain r where r: "vals x = Inr r"
    by (cases "vals x") (auto simp: sbind_def slift_def)
  from Cons.prems r obtain d where d: "ins r (conn_working c) = Inr d"
      "sinsert_many vals ins xs (c\<lparr>conn_working := d\<rparr>) = (c', Inr u)"
    by (cases "ins r (conn_working c)") (auto simp: sbind_def slift_def sinsert_def sexec_def)
  from Cons.IH [OF d(2)] obtain rs where "traverse vals xs = Inr rs"
      "c' = c\<lparr>conn_working := put (rows d @ rs) d\<rparr>" by auto
  with r ins_appends [OF d(1)] show ?case by (simp add: rows_put put_put)
qed

lemma transaction_appends:
  assumes "swriting (stransaction (sinsert_many vals ins xs)) c = (c', Inr u)" and "settled c"
  shows "\<exists>rs. traverse vals xs = Inr rs \<and> settled c' \<and>
    conn_committed c' = put (rows (conn_committed c) @ rs) (conn_committed c)"
proof -
  obtain c1 r where run: "sinsert_many vals ins xs c = (c1, r)" by fastforce
  from assms(1) run have "r = Inr u \<and> c' = fst (scommit c1)"
    by (auto simp: swriting_def stransaction_def split: sum.splits err.splits)
  with insert_many_appends [of vals xs c c1 u] run assms(2) show ?thesis
    by (auto simp: scommit_def settled_def)
qed

text \<open>
  A transaction that fails has no effect, and fails with the first error met: either the
  values of a record or the insertion of its row.
\<close>

lemma insert_many_fails:
  "sinsert_many vals ins xs c = (c', Inl e) \<Longrightarrow>
     \<exists>ys x zs rs. xs = ys @ x # zs \<and> traverse vals ys = Inr rs \<and>
       (vals x = Inl e \<or>
        (\<exists>r. vals x = Inr r \<and> ins r (put (rows (conn_working c) @ rs) (conn_working c)) = Inl e))"
proof (induction xs arbitrary: c)
  case Nil
  then show ?case by (simp add: sreturn_def)
next
  case (Cons x xs)
  show ?case
  proof (cases "vals x")
    case (Inl e')
    with Cons.prems have "vals x = Inl e" by (simp add: sbind_def slift_def)
    then show ?thesis by (intro exI [of _ "[]"] exI [of _ x] exI [of _ xs]) simp
  next
    case (Inr r)
    note r = Inr
    show ?thesis
    proof (cases "ins r (conn_working c)")
      case (Inl e')
      with Cons.prems r have "ins r (conn_working c) = Inl e"
        by (simp add: sbind_def slift_def sinsert_def sexec_def)
      with r show ?thesis
        by (intro exI [of _ "[]"] exI [of _ x] exI [of _ xs]) (simp add: put_rows)
    next
      case (Inr d)
      with Cons.prems r have "sinsert_many vals ins xs (c\<lparr>conn_working := d\<rparr>) = (c', Inl e)"
        by (simp add: sbind_def slift_def sinsert_def sexec_def)
      from Cons.IH [OF this] obtain ys y zs rs where "xs = ys @ y # zs" "traverse vals ys = Inr rs"
          "vals y = Inl e \<or> (\<exists>r. vals y = Inr r \<and> ins r (put (rows d @ rs) d) = Inl e)"
        by auto
      with r ins_appends [OF Inr] show ?thesis
        by (intro exI [of _ "x # ys"] exI [of _ y] exI [of _ zs] exI [of _ "r # rs"])
          (auto simp: rows_put put_put)
    qed
  qed
qed

end

text \<open>A table with a primary key: an accepted row brings a key that is not there yet.\<close>

locale keyed_table = row_table +
  fixes key :: "'a \<Rightarrow> 'k"
    and usable :: "'a \<Rightarrow> bool"
  assumes ins_fresh: "ins r d = Inr d' \<Longrightarrow> usable r \<Longrightarrow> key r \<notin> key ` set (rows d)"
begin

lemma insert_many_fresh:
  "sinsert_many vals ins xs c = (c', Inr u) \<Longrightarrow> traverse vals xs = Inr rs \<Longrightarrow> \<forall>r\<in>set rs. usable r \<Longrightarrow>
     distinct (map key rs) \<and> key ` set rs \<inter> key ` set (rows (conn_working c)) = {}"
proof (induction xs arbitrary: c rs)
  case Nil
  then show ?case by simp
next
  case (Cons x xs)
  from Cons.prems(2) obtain r rs' where r: "vals x = Inr r" "traverse vals xs = Inr rs'" "rs = r # rs'"
    by (auto simp: res_simps)
  from Cons.prems(1) r obtain d where d: "ins r (conn_working c) = Inr d"
      "sinsert_many vals ins xs (c\<lparr>conn_working := d\<rparr>) = (c', Inr u)"
    by (cases "ins r (conn_working c)") (auto simp: sbind_def slift_def sinsert_def sexec_def)
  have "rows d = rows (conn_working c) @ [r]" using ins_appends [OF d(1)] by (simp add: rows_put)
  with Cons.IH [OF d(2) r(2)] Cons.prems(3) ins_fresh [OF d(1)] r(3) show ?case by auto
qed

lemma insert_many_duplicate:
  assumes "traverse vals xs = Inr rs" and "\<forall>r\<in>set rs. usable r"
    and "\<not> distinct (map key rs) \<or> key ` set rs \<inter> key ` set (rows (conn_working c)) \<noteq> {}"
  shows "\<exists>c' e. sinsert_many vals ins xs c = (c', Inl e)"
proof -
  obtain c' r where run: "sinsert_many vals ins xs c = (c', r)" by fastforce
  with insert_many_fresh [of vals xs c c' _ rs] assms show ?thesis by (cases r) auto
qed

end

text \<open>The tables of a runpack.\<close>

abbreviation put_executions :: "execution_row list \<Rightarrow> db \<Rightarrow> db" where
  "put_executions rs d \<equiv> d\<lparr>db_executions := rs\<rparr>"

abbreviation put_entities :: "entity_row list \<Rightarrow> db \<Rightarrow> db" where
  "put_entities rs d \<equiv> d\<lparr>db_entities := rs\<rparr>"

abbreviation put_events :: "event_row list \<Rightarrow> db \<Rightarrow> db" where
  "put_events rs d \<equiv> d\<lparr>db_events := rs\<rparr>"

abbreviation put_edges :: "edge_row list \<Rightarrow> db \<Rightarrow> db" where
  "put_edges rs d \<equiv> d\<lparr>db_edges := rs\<rparr>"

abbreviation put_measurements :: "measurement_row list \<Rightarrow> db \<Rightarrow> db" where
  "put_measurements rs d \<equiv> d\<lparr>db_measurements := rs\<rparr>"

abbreviation put_attachments :: "attachment_row list \<Rightarrow> db \<Rightarrow> db" where
  "put_attachments rs d \<equiv> d\<lparr>db_attachments := rs\<rparr>"

interpretation executions: keyed_table db_executions put_executions insert_execution xr_id "\<lambda>r. xr_id r \<noteq> ONone"
  by unfold_locales (auto simp: insert_execution_def res_simps key_taken_def)

interpretation entities: keyed_table db_entities put_entities insert_entity er_id "\<lambda>r. er_id r \<noteq> ONone"
  by unfold_locales (auto simp: insert_entity_def res_simps key_taken_def)

interpretation events: keyed_table db_events put_events insert_event vr_id "\<lambda>r. vr_id r \<noteq> ONone"
  by unfold_locales (auto simp: insert_event_def res_simps key_taken_def)

interpretation edges: keyed_table db_edges put_edges insert_edge edge_key "\<lambda>_. True"
  by unfold_locales (auto simp: insert_edge_def res_simps)

interpretation measurements: row_table db_measurements put_measurements insert_measurement
  by unfold_locales (auto simp: insert_measurement_def res_simps)

interpretation attachments: keyed_table db_attachments put_attachments insert_attachment tr_id "\<lambda>r. tr_id r \<noteq> ONone"
  by unfold_locales (auto simp: insert_attachment_def res_simps key_taken_def)

section \<open>Entities in any order\<close>

lemma insert_entities_succeeds:
  assumes "traverse entity_values es = Inr rs" and "distinct (map ent_id es)"
    and "\<forall>e\<in>set es. OStr (ent_id e) \<notin> er_id ` set (db_entities (conn_working c))"
    and "\<forall>k<length es. \<forall>p. ent_parent_id (es ! k) = Some p \<longrightarrow>
      p \<in> ent_id ` set (take k es) \<or> OStr p \<in> er_id ` set (db_entities (conn_working c))"
  shows "\<exists>c'. sinsert_many entity_values insert_entity es c = (c', Inr ())"
  using assms
proof (induction es arbitrary: c rs)
  case Nil
  then show ?case by (simp add: sreturn_def)
next
  case (Cons e es)
  from Cons.prems(1) obtain r rs' where r: "entity_values e = Inr r" "traverse entity_values es = Inr rs'"
    by (auto simp: res_simps)
  note row = entity_values_id [OF r(1)]
  let ?d = "conn_working c" and ?d' = "conn_working c\<lparr>db_entities := db_entities (conn_working c) @ [r]\<rparr>"
  have parent: "ent_parent_id e = Some p \<Longrightarrow> OStr p \<in> er_id ` set (db_entities ?d)" for p
    using Cons.prems(4) [rule_format, of 0] by simp
  have ins: "insert_entity r ?d = Inr ?d'"
    using row Cons.prems(3) parent
    by (cases "ent_parent_id e") (auto simp: insert_entity_def key_taken_def reference_ok_def)
  have "\<exists>c'. sinsert_many entity_values insert_entity es (c\<lparr>conn_working := ?d'\<rparr>) = (c', Inr ())"
  proof (rule Cons.IH [OF r(2)])
    show "distinct (map ent_id es)" using Cons.prems(2) by simp
    show "\<forall>e'\<in>set es. OStr (ent_id e') \<notin> er_id ` set (db_entities (conn_working (c\<lparr>conn_working := ?d'\<rparr>)))"
      using Cons.prems(2,3) row by (force simp: image_iff)
    show "\<forall>k<length es. \<forall>p. ent_parent_id (es ! k) = Some p \<longrightarrow>
        p \<in> ent_id ` set (take k es) \<or> OStr p \<in> er_id ` set (db_entities (conn_working (c\<lparr>conn_working := ?d'\<rparr>)))"
    proof (intro allI impI)
      fix k p assume "k < length es" "ent_parent_id (es ! k) = Some p"
      with Cons.prems(4) [rule_format, of "Suc k" p] row
      show "p \<in> ent_id ` set (take k es) \<or>
          OStr p \<in> er_id ` set (db_entities (conn_working (c\<lparr>conn_working := ?d'\<rparr>)))"
        by auto
    qed
  qed
  then show ?case using r ins by (auto simp: sbind_def slift_def sinsert_def sexec_def)
qed

lemma swriting_transaction_ok:
  "m c = (c1, Inr u) \<Longrightarrow> swriting (stransaction m) c = (c1\<lparr>conn_committed := conn_working c1\<rparr>, Inr u)"
  by (simp add: swriting_def stransaction_def scommit_def)

text \<open>
  A batch whose parents are in the batch or already stored is accepted whatever its order,
  and the table then holds exactly its rows after the old ones.
\<close>

lemma add_entities_accepts:
  assumes settled: "settled c" and valid: "validate_entity_hierarchy es = Inr u"
    and vals: "\<forall>e\<in>set es. \<exists>r. entity_values e = Inr r"
    and distinct: "distinct (map ent_id es)"
    and fresh: "\<forall>e\<in>set es. OStr (ent_id e) \<notin> er_id ` set (db_entities (conn_committed c))"
    and parents: "\<forall>e\<in>set es. \<forall>p. ent_parent_id e = Some p \<longrightarrow>
      p \<in> ent_id ` set es \<or> OStr p \<in> er_id ` set (db_entities (conn_committed c))"
  shows "\<exists>c' ordered rs. add_entities es c = (c', Inr ()) \<and> mset ordered = mset es \<and>
    traverse entity_values ordered = Inr rs \<and> settled c' \<and>
    conn_committed c' = (conn_committed c)\<lparr>db_entities := db_entities (conn_committed c) @ rs\<rparr>"
proof -
  obtain ks where "parent_first_entities es = Inr (map ((!) es) ks)"
    using parent_first_entities_ok [OF valid] by blast
  then obtain ordered where ordered: "parent_first_entities es = Inr ordered" by blast
  note spec = parent_first_entities_spec [OF ordered]
  then have set: "set ordered = set es" by (metis set_mset_mset)
  have w: "conn_working c = conn_committed c" using settled by (simp add: settled_def)
  obtain rs where rs: "traverse entity_values ordered = Inr rs"
    using vals set traverse_defined [of entity_values ordered] by auto
  have ids: "mset (map ent_id ordered) = mset (map ent_id es)" using spec by simp
  have "\<exists>c'. sinsert_many entity_values insert_entity ordered c = (c', Inr ())"
  proof (rule insert_entities_succeeds [OF rs])
    show "distinct (map ent_id ordered)"
      using distinct ids by (metis mset_eq_imp_distinct_iff)
    show "\<forall>e\<in>set ordered. OStr (ent_id e) \<notin> er_id ` set (db_entities (conn_working c))"
      using fresh set w by simp
    show "\<forall>k<length ordered. \<forall>p. ent_parent_id (ordered ! k) = Some p \<longrightarrow>
        p \<in> ent_id ` set (take k ordered) \<or> OStr p \<in> er_id ` set (db_entities (conn_working c))"
    proof (intro allI impI)
      fix k p assume k: "k < length ordered" "ent_parent_id (ordered ! k) = Some p"
      have "ordered ! k \<in> set es" using set nth_mem [OF k(1)] by simp
      with parents k(2) have "p \<in> ent_id ` set es \<or> OStr p \<in> er_id ` set (db_entities (conn_committed c))"
        by blast
      with spec k set w show "p \<in> ent_id ` set (take k ordered) \<or>
          OStr p \<in> er_id ` set (db_entities (conn_working c))"
        by (auto simp: parents_come_first_def)
    qed
  qed
  then obtain c1 where c1: "sinsert_many entity_values insert_entity ordered c = (c1, Inr ())" by blast
  have run: "add_entities es c = (c1\<lparr>conn_committed := conn_working c1\<rparr>, Inr ())"
    using swriting_transaction_ok [where m = "sinsert_many entity_values insert_entity ordered", OF c1]
    by (simp add: add_entities_def ordered sbind_def slift_def)
  from entities.insert_many_appends [OF c1] rs have
    "c1 = c\<lparr>conn_working := put_entities (db_entities (conn_working c) @ rs) (conn_working c)\<rparr>" by auto
  with run rs spec w show ?thesis by (auto simp: settled_def)
qed

section \<open>The execution row\<close>

text \<open>The runs of a statement that return.\<close>

named_theorems stmt_simps \<open>inversion of statements that return\<close>

lemma sbind_returns [stmt_simps]:
  "sbind m f c = (c', Inr y) \<longleftrightarrow> (\<exists>c1 x. m c = (c1, Inr x) \<and> f x c1 = (c', Inr y))"
  by (auto simp: sbind_def split: prod.splits sum.splits)

lemma slift_returns [stmt_simps]: "slift r c = (c', Inr x) \<longleftrightarrow> c' = c \<and> r = Inr x"
  by (auto simp: slift_def)

lemma squery_returns [stmt_simps]: "squery f c = (c', Inr x) \<longleftrightarrow> c' = c \<and> x = f (conn_working c)"
  by (auto simp: squery_def)

lemma sraise_if_returns [stmt_simps]: "sraise_if b e c = (c', Inr u) \<longleftrightarrow> c' = c \<and> \<not> b"
  by (auto simp: sraise_if_def slift_def raise_if_def)

lemma sinsert_returns [stmt_simps]:
  "sinsert ins r c = (c', Inr u) \<longleftrightarrow> (\<exists>d. ins r (conn_working c) = Inr d \<and> c' = c\<lparr>conn_working := d\<rparr>)"
  by (auto simp: sinsert_def sexec_def res_simps split: sum.splits)

lemma update_executions_returns [stmt_simps]:
  "update_executions p f c = (c', Inr n) \<longleftrightarrow>
     n = length (filter p (db_executions (conn_working c))) \<and>
     c' = c\<lparr>conn_working := put_executions (map (\<lambda>r. if p r then f r else r)
       (db_executions (conn_working c))) (conn_working c)\<rparr>"
  by (auto simp: update_executions_def sexec_def)

lemma scommit_returns [stmt_simps]: "scommit c = (c', Inr u) \<longleftrightarrow> c' = c\<lparr>conn_committed := conn_working c\<rparr>"
  by (auto simp: scommit_def)

lemma stransaction_returns [stmt_simps]:
  "stransaction m c = (c', Inr x) \<longleftrightarrow>
     (\<exists>c1. m c = (c1, Inr x) \<and> c' = c1\<lparr>conn_committed := conn_working c1\<rparr>)"
  by (auto simp: stransaction_def scommit_def split: prod.splits sum.splits)

lemma swriting_returns [stmt_simps]: "swriting m c = (c', Inr x) \<longleftrightarrow> m c = (c', Inr x)"
  by (auto simp: swriting_def split: prod.splits sum.splits err.splits)

lemma finish_execution_returns:
  assumes settled: "settled c" and wf: "wf_db (conn_committed c)"
    and run: "finish_execution i t x a v ms c = (c', Inr u)"
  shows "\<exists>r s. db_executions (conn_committed c) = [r] \<and> xr_id r = OStr i \<and>
    xr_started_at_ns r = OInt s \<and> xr_finished_at_ns r = ONone \<and> s \<le> t \<and>
    (\<exists>m. attributes_field a = Inr m \<and>
      db_executions (conn_committed c') = [finish_row (Some t) (Some x) m r])"
proof -
  let ?d = "conn_committed c"
  have w: "conn_working c = ?d" using settled by (simp add: settled_def)
  from run w have "\<exists>row s m r d. List.find (\<lambda>r. xr_id r = OStr i) (db_executions ?d) = Some row \<and>
      xr_finished_at_ns row = ONone \<and> execution_interval (xr_started_at_ns row) (OInt t) = Inr (s, Some t) \<and>
      attributes_field a = Inr m \<and>
      insert_event r (put_executions (map (\<lambda>r. if xr_id r = OStr i \<and> xr_finished_at_ns r = ONone
        then finish_row (Some t) (Some x) m r else r) (db_executions ?d)) ?d) = Inr d \<and>
      (\<exists>c1. sinsert_many measurement_values insert_measurement ms (c\<lparr>conn_working := d\<rparr>) = (c1, Inr ()) \<and>
        c' = c1\<lparr>conn_committed := conn_working c1\<rparr>)"
    unfolding finish_execution_def
    by (fastforce simp: stmt_simps res_simps split: option.splits prod.splits)
  then obtain row s m r d where
    found: "List.find (\<lambda>r. xr_id r = OStr i) (db_executions ?d) = Some row"
    and unfinished: "xr_finished_at_ns row = ONone"
    and iv: "execution_interval (xr_started_at_ns row) (OInt t) = Inr (s, Some t)"
    and m: "attributes_field a = Inr m"
    and ins: "insert_event r (put_executions (map (\<lambda>r. if xr_id r = OStr i \<and> xr_finished_at_ns r = ONone
        then finish_row (Some t) (Some x) m r else r) (db_executions ?d)) ?d) = Inr d"
    and rest: "\<exists>c1. sinsert_many measurement_values insert_measurement ms (c\<lparr>conn_working := d\<rparr>) = (c1, Inr ()) \<and>
        c' = c1\<lparr>conn_committed := conn_working c1\<rparr>"
    by blast
  from found have mem: "row \<in> set (db_executions ?d)" and id: "xr_id row = OStr i"
    by (auto dest: find_SomeD)
  with wf have one: "db_executions ?d = [row]"
    by (cases "db_executions ?d") (auto simp: wf_db_def wf_executions_def)
  from rest obtain c1 where c1: "sinsert_many measurement_values insert_measurement ms (c\<lparr>conn_working := d\<rparr>) = (c1, Inr ())"
    "c' = c1\<lparr>conn_committed := conn_working c1\<rparr>" by blast
  have "db_executions (conn_committed c') = db_executions d"
    using measurements.insert_many_appends [OF c1(1)] c1(2) by auto
  also have "\<dots> = [finish_row (Some t) (Some x) m row]"
    using events.ins_appends [OF ins] id unfinished by (simp add: one)
  finally show ?thesis
    using one id unfinished iv m by (auto simp: res_simps split: option.splits)
qed

text \<open>A second call finds the execution finished and changes nothing.\<close>

lemma finish_execution_once:
  assumes "settled c" and "wf_db (conn_committed c)"
    and "finish_execution i t x a v ms c = (c', Inr u)" and "settled c'"
  shows "finish_execution i t' x' a' v' ms' c' = (c', Inl (already_finished (Some i)))"
proof -
  from finish_execution_returns [OF assms(1-3)] obtain r m where
    r: "xr_id r = OStr i" "db_executions (conn_committed c') = [finish_row (Some t) (Some x) m r]"
    by blast
  moreover have "text_value False (lit ''execution id'') (OStr i) = Inr (Some i)"
    using assms(3) by (auto simp: finish_execution_def stmt_simps res_simps)
  moreover have "conn_working c' = conn_committed c'" using assms(4) by (simp add: settled_def)
  ultimately show ?thesis
    by (simp add: finish_execution_def sbind_def slift_def squery_def sraise_if_def finish_row_def)
qed

lemma expand_execution_bounds_returns:
  assumes settled: "settled c" and wf: "wf_db (conn_committed c)"
    and run: "expand_execution_bounds s f c = (c', Inr u)"
  shows "\<exists>r s0 f0. db_executions (conn_committed c) = [r] \<and> xr_started_at_ns r = OInt s0 \<and>
    xr_finished_at_ns r = opt_int f0 \<and>
    conn_committed c' = put_executions
      [r\<lparr>xr_started_at_ns := OInt (min s0 s),
         xr_finished_at_ns := opt_int (case f0 of None \<Rightarrow> None
           | Some t \<Rightarrow> Some (case f of None \<Rightarrow> t | Some u \<Rightarrow> max t u))\<rparr>] (conn_committed c)"
proof -
  let ?d = "conn_committed c"
  have w: "conn_working c = ?d" using settled by (simp add: settled_def)
  from run w have one: "length (db_executions ?d) = 1"
    and c': "conn_committed c' = put_executions (map (expand_row (OInt s) (opt_int f)) (db_executions ?d)) ?d"
    unfolding expand_execution_bounds_def by (auto simp: stmt_simps res_simps)
  from one obtain r where r: "db_executions ?d = [r]" by (cases "db_executions ?d") auto
  from execution_row_interval [of r] wf r obtain s0 f0 where
    "xr_started_at_ns r = OInt s0" "xr_finished_at_ns r = opt_int f0"
    by (auto simp: wf_db_def wf_executions_def)
  with r c' show ?thesis
    by (intro exI [of _ r] exI [of _ s0] exI [of _ f0])
      (auto simp: expand_row_def split: option.splits)
qed

lemma event_graph_stored:
  assumes settled: "settled c" and run: "add_event_graph vs gs c = (c', Inr u)"
  shows "\<exists>rs ss. traverse event_values vs = Inr rs \<and> traverse edge_values gs = Inr ss \<and>
    conn_committed c' = (conn_committed c)\<lparr>db_events := db_events (conn_committed c) @ rs,
      db_edges := db_edges (conn_committed c) @ ss\<rparr> \<and>
    distinct (map vr_id rs) \<and> vr_id ` set rs \<inter> vr_id ` set (db_events (conn_committed c)) = {} \<and>
    distinct (map edge_key ss) \<and> edge_key ` set ss \<inter> edge_key ` set (db_edges (conn_committed c)) = {}"
proof -
  from run obtain c1 c2 where c1: "sinsert_many event_values insert_event vs c = (c1, Inr ())"
      and c2: "sinsert_many edge_values insert_edge gs c1 = (c2, Inr ())"
      and c': "c' = c2\<lparr>conn_committed := conn_working c2\<rparr>"
    by (auto simp: add_event_graph_def stmt_simps)
  obtain rs where rs: "traverse event_values vs = Inr rs"
      "c1 = c\<lparr>conn_working := put_events (db_events (conn_working c) @ rs) (conn_working c)\<rparr>"
    using events.insert_many_appends [OF c1] by blast
  obtain ss where ss: "traverse edge_values gs = Inr ss"
      "c2 = c1\<lparr>conn_working := put_edges (db_edges (conn_working c1) @ ss) (conn_working c1)\<rparr>"
    using edges.insert_many_appends [OF c2] by blast
  have "\<forall>r\<in>set rs. vr_id r \<noteq> ONone"
    using rs(1) by (auto simp: traverse_eq_Inr_iff dest!: list_all2_right event_values_id)
  with events.insert_many_fresh [OF c1 rs(1)] edges.insert_many_fresh [OF c2 ss(1)] settled rs ss c'
  show ?thesis by (auto simp: settled_def)
qed

section \<open>Properties\<close>

text \<open>C21. A batch of valid entities with new, distinct ids whose parents are in the batch or already
  stored is accepted in whatever order it is given, and the entity table then holds the old rows
  followed by exactly the rows of the batch.\<close>

theorem add_entities_accepts_any_order:
  assumes "settled c" and "validate_entity_hierarchy es = Inr ()"
    and "\<forall>e\<in>set es. \<exists>r. entity_values e = Inr r" and "distinct (map ent_id es)"
    and "\<forall>e\<in>set es. OStr (ent_id e) \<notin> er_id ` set (db_entities (conn_committed c))"
    and "\<forall>e\<in>set es. \<forall>p. ent_parent_id e = Some p \<longrightarrow>
      p \<in> ent_id ` set es \<or> OStr p \<in> er_id ` set (db_entities (conn_committed c))"
  shows "\<exists>c' ordered rs. add_entities es c = (c', Inr ()) \<and> mset ordered = mset es \<and>
    traverse entity_values ordered = Inr rs \<and> settled c' \<and>
    conn_committed c' = (conn_committed c)\<lparr>db_entities := db_entities (conn_committed c) @ rs\<rparr>"
  by (rule add_entities_accepts [OF assms])

definition sample_child :: entity where
  "sample_child = \<lparr>ent_id = lit ''worker'', ent_kind = lit ''process'', ent_name = lit ''w0'',
     ent_parent_id = Some (lit ''svc''), ent_attributes = []\<rparr>"

theorem add_entities_accepts_any_order_witness:
  "\<exists>c' rs. add_entities [sample_child, sample_entity] sample_conn = (c', Inr ()) \<and>
     db_entities (conn_committed c') = rs \<and> length rs = 2"
proof -
  have "validate_entity_hierarchy [sample_child, sample_entity] = Inr ()" by code_simp
  moreover have "\<exists>r. entity_values sample_child = Inr r" "\<exists>r. entity_values sample_entity = Inr r"
    by (rule exI, code_simp)+
  ultimately have "\<exists>c' ordered rs. add_entities [sample_child, sample_entity] sample_conn = (c', Inr ()) \<and>
      mset ordered = mset [sample_child, sample_entity] \<and> traverse entity_values ordered = Inr rs \<and> settled c' \<and>
      conn_committed c' = (conn_committed sample_conn)\<lparr>db_entities := db_entities (conn_committed sample_conn) @ rs\<rparr>"
    by (intro add_entities_accepts_any_order)
      (auto simp: settled_def sample_conn_def sample_db_def empty_db_def sample_child_def sample_entity_def)
  then obtain c' ordered rs where run: "add_entities [sample_child, sample_entity] sample_conn = (c', Inr ())"
      "mset ordered = mset [sample_child, sample_entity]" "traverse entity_values ordered = Inr rs"
      "conn_committed c' = (conn_committed sample_conn)\<lparr>db_entities := db_entities (conn_committed sample_conn) @ rs\<rparr>"
    by blast
  have "length ordered = length [sample_child, sample_entity]" using run(2) by (rule mset_eq_length)
  moreover have "length rs = length ordered"
    using run(3) by (auto simp: traverse_eq_Inr_iff dest: list_all2_lengthD)
  ultimately show ?thesis using run by (simp add: sample_conn_def sample_db_def empty_db_def)
qed

text \<open>C24. When add_event_graph returns, every event and every edge of the call passed its
  checks and was stored, in the order given, the event ids are new and distinct, so are the edge
  keys, and no other table changed.\<close>

theorem add_event_graph_stores_all:
  assumes settled: "settled c" and run: "add_event_graph vs gs c = (c', Inr u)"
  shows "\<exists>rs ss. traverse event_values vs = Inr rs \<and> traverse edge_values gs = Inr ss \<and>
    conn_committed c' = (conn_committed c)\<lparr>db_events := db_events (conn_committed c) @ rs,
      db_edges := db_edges (conn_committed c) @ ss\<rparr> \<and>
    distinct (map vr_id rs) \<and> vr_id ` set rs \<inter> vr_id ` set (db_events (conn_committed c)) = {} \<and>
    distinct (map edge_key ss) \<and> edge_key ` set ss \<inter> edge_key ` set (db_edges (conn_committed c)) = {}"
  by (rule event_graph_stored [OF assms])

definition sample_event :: "string \<Rightarrow> event" where
  "sample_event i = \<lparr>ev_id = lit i, ev_kind = lit ''task'', ev_name = lit ''step'', ev_entity_id = None,
     ev_started_at_ns = Some 10, ev_finished_at_ns = Some 25, ev_clock_domain = None,
     ev_uncertainty_ns = Some 0, ev_sequence = None, ev_attributes = []\<rparr>"

definition sample_edge :: causal_edge where
  "sample_edge = \<lparr>edge_source = lit ''e1'', edge_target = lit ''e2'', edge_kind = lit ''causes'',
     edge_confidence = Fin 1, edge_attributes = []\<rparr>"

lemma returns_eq: "snd p = Inr x \<Longrightarrow> p = (fst p, Inr x)"
  by (cases p) simp

theorem add_event_graph_stores_all_witness:
  "length (db_events (conn_committed (fst (add_event_graph [sample_event ''e1'', sample_event ''e2''] [sample_edge] sample_conn)))) = 2 \<and>
   length (db_edges (conn_committed (fst (add_event_graph [sample_event ''e1'', sample_event ''e2''] [sample_edge] sample_conn)))) = 1"
proof -
  let ?m = "add_event_graph [sample_event ''e1'', sample_event ''e2''] [sample_edge]"
  have "snd (?m sample_conn) = Inr ()" by code_simp
  from add_event_graph_stores_all [OF _ returns_eq [OF this]] obtain rs ss where
    rs: "traverse event_values [sample_event ''e1'', sample_event ''e2''] = Inr rs"
    and ss: "traverse edge_values [sample_edge] = Inr ss"
    and d: "conn_committed (fst (?m sample_conn)) = (conn_committed sample_conn)\<lparr>db_events := db_events (conn_committed sample_conn) @ rs,
      db_edges := db_edges (conn_committed sample_conn) @ ss\<rparr>"
    by (auto simp: settled_def sample_conn_def)
  show ?thesis
    unfolding d using traverse_length [OF rs] traverse_length [OF ss]
    by (simp add: sample_conn_def sample_db_def empty_db_def)
qed

text \<open>finish_execution returns only for the stored, unfinished execution and a finish that
  does not precede its start; it then records the finish, the exit code and the metadata and
  leaves the rest of the row as it was.\<close>

theorem finish_execution_completes_row:
  assumes "writer_reachable c" and "finish_execution i t x a v ms c = (c', Inr u)"
  shows "\<exists>r s m. db_executions (conn_committed c) = [r] \<and> xr_id r = OStr i \<and>
    xr_started_at_ns r = OInt s \<and> xr_finished_at_ns r = ONone \<and> s \<le> t \<and> attributes_field a = Inr m \<and>
    db_executions (conn_committed c') =
      [r\<lparr>xr_finished_at_ns := OInt t, xr_exit_code := OInt x, xr_metadata_json := OStr m\<rparr>]"
  using finish_execution_returns [OF _ _ assms(2)] writer_reachable_wf [OF assms(1)]
  by (fastforce simp: finish_row_def)

definition sample_execution :: execution where
  "sample_execution = \<lparr>exec_id = lit ''run-1'', exec_name = lit ''demo'', exec_started_at_ns = 100,
     exec_finished_at_ns = None, exec_command = [lit ''python''], exec_working_directory = lit ''/w'',
     exec_exit_code = None, exec_revision = None, exec_metadata = []\<rparr>"

definition running_conn :: conn where
  "running_conn = fst (add_execution sample_execution sample_conn)"

lemma running_conn_reachable: "writer_reachable running_conn"
  unfolding running_conn_def
  by (rule reach_step [OF sample_conn_reachable]) (rule step_execution [OF surjective_pairing])

lemma finish_running: "snd (finish_execution (lit ''run-1'') 250 0 [] (sample_event ''done'') [] running_conn) = Inr ()"
  unfolding running_conn_def by code_simp

theorem finish_execution_completes_row_witness:
  "\<exists>r. db_executions (conn_committed (fst (finish_execution (lit ''run-1'') 250 0 [] (sample_event ''done'') [] running_conn))) = [r] \<and>
     xr_finished_at_ns r = OInt 250 \<and> xr_exit_code r = OInt 0"
  using finish_execution_completes_row [OF running_conn_reachable returns_eq [OF finish_running]] by auto

text \<open>An execution is finished at most once: after a call that returned, every further call for
  the same id is refused and changes nothing.\<close>

theorem finish_execution_at_most_once:
  assumes "writer_reachable c" and "finish_execution i t x a v ms c = (c', Inr u)"
  shows "finish_execution i t' x' a' v' ms' c' = (c', Inl (already_finished (Some i)))"
proof -
  have "settled c'"
    using writer_step_safe [OF step_finish [OF assms(2)]] writer_reachable_wf [OF assms(1)] by blast
  then show ?thesis
    using finish_execution_once [OF _ _ assms(2)] writer_reachable_wf [OF assms(1)] by blast
qed

theorem finish_execution_at_most_once_witness:
  "snd (finish_execution (lit ''run-1'') 300 1 [] (sample_event ''late'') []
      (fst (finish_execution (lit ''run-1'') 250 0 [] (sample_event ''done'') [] running_conn))) =
   Inl (already_finished (Some (lit ''run-1'')))"
  using finish_execution_at_most_once [OF running_conn_reachable returns_eq [OF finish_running],
      of 300 1 "[]" "sample_event ''late''" "[]"] by simp

text \<open>expand_execution_bounds never shrinks the interval of the execution: the start becomes the
  earlier of the two, a recorded finish the later, and an execution without a finish keeps none.\<close>

theorem expand_execution_bounds_covers:
  assumes "writer_reachable c" and "expand_execution_bounds s f c = (c', Inr u)"
  shows "\<exists>r s0 f0. db_executions (conn_committed c) = [r] \<and> xr_started_at_ns r = OInt s0 \<and>
    xr_finished_at_ns r = opt_int f0 \<and>
    conn_committed c' = (conn_committed c)\<lparr>db_executions :=
      [r\<lparr>xr_started_at_ns := OInt (min s0 s),
         xr_finished_at_ns := opt_int (case f0 of None \<Rightarrow> None
           | Some t \<Rightarrow> Some (case f of None \<Rightarrow> t | Some u \<Rightarrow> max t u))\<rparr>]\<rparr>"
  using expand_execution_bounds_returns [OF _ _ assms(2)] writer_reachable_wf [OF assms(1)] by blast

theorem expand_execution_bounds_covers_witness:
  "\<exists>r. db_executions (conn_committed (fst (expand_execution_bounds 40 (Some 90) running_conn))) = [r] \<and>
     (\<exists>s. xr_started_at_ns r = OInt s \<and> s \<le> 40)"
proof -
  have "snd (expand_execution_bounds 40 (Some 90) running_conn) = Inr ()"
    unfolding running_conn_def by code_simp
  from expand_execution_bounds_covers [OF running_conn_reachable returns_eq [OF this]] show ?thesis by auto
qed

end
