(* ===== verification/StorageReader.thy ===== *)
theory StorageReader
  imports StorageDb
begin

text \<open>
  \<open>storage/_reader.py\<close>: the queries of \<open>RunpackReader\<close> over the tables of
  \<open>StorageDb\<close>. Every cell that leaves the reader goes through the checks of
  \<open>StorageValidation\<close>. SQL comparisons follow the storage classes of the cells; integer
  subtraction that leaves 64 bits continues in floating point, as SQLite does. The floating
  point sum \<open>total()\<close> is SQLite's own (its summation algorithm differs between versions) and
  is the parameter \<open>sql_total\<close>. A dictionary that a query builds lists its groups at their
  first row; SQL leaves that order open, and no caller depends on it.
\<close>

section \<open>SQL expressions\<close>

definition sql_eq :: "obj \<Rightarrow> obj \<Rightarrow> bool" where
  "sql_eq a b \<longleftrightarrow> a \<noteq> ONone \<and> b \<noteq> ONone \<and> cell_key a = cell_key b"

definition sql_gt :: "obj \<Rightarrow> obj \<Rightarrow> bool" where
  "sql_gt a b \<longleftrightarrow> a \<noteq> ONone \<and> b \<noteq> ONone \<and> cell_key b < cell_key a"

text \<open>\<open>a IS NOT b\<close>: two \<open>NULL\<close>s are the same.\<close>

definition sql_is_not :: "obj \<Rightarrow> obj \<Rightarrow> bool" where
  "sql_is_not a b \<longleftrightarrow> cell_key a \<noteq> cell_key b"

definition coalesce :: "obj \<Rightarrow> obj \<Rightarrow> obj" where
  "coalesce a b = (if a = ONone then b else a)"

text \<open>The number a cell stands for in arithmetic: text counts with its numeric prefix.\<close>

definition sql_int_or_real :: "int \<Rightarrow> obj" where
  "sql_int_or_real i = (if integer_ok i then OInt i else OFloat (rnd (of_int i)))"

definition numeric_prefix :: "pystr \<Rightarrow> obj" where
  "numeric_prefix s =
     (let s0 = skip_ws s; neg = (take 1 s0 = [45]);
          s1 = (if take 1 s0 = [45] \<or> take 1 s0 = [43] then drop 1 s0 else s0);
          (ds, s2) = span_digits s1; (fp, s3) = scan_frac s2; (ex, s4) = scan_exp s3
      in if ds = [] \<and> fp = None then OInt 0
         else if fp = None \<and> ex = None
         then sql_int_or_real (if neg then - digits_value ds else digits_value ds)
         else parse_float neg ds fp ex)"

fun sql_number :: "obj \<Rightarrow> obj" where
  "sql_number (OStr s) = numeric_prefix s"
| "sql_number (OBytes s) = numeric_prefix s"
| "sql_number (OBool b) = OInt (if b then 1 else 0)"
| "sql_number x = x"

fun sql_real :: "obj \<Rightarrow> pyfloat" where
  "sql_real (OInt i) = rnd (of_int i)"
| "sql_real (OFloat x) = x"
| "sql_real _ = NaN"

definition sql_arith :: "(int \<Rightarrow> int \<Rightarrow> int) \<Rightarrow> (pyfloat \<Rightarrow> pyfloat \<Rightarrow> pyfloat) \<Rightarrow> obj \<Rightarrow> obj \<Rightarrow> obj" where
  "sql_arith f g a b =
     (case (sql_number a, sql_number b) of
        (ONone, _) \<Rightarrow> ONone
      | (_, ONone) \<Rightarrow> ONone
      | (OInt i, OInt j) \<Rightarrow> if integer_ok (f i j) then OInt (f i j) else OFloat (g (sql_real (OInt i)) (sql_real (OInt j)))
      | (x, y) \<Rightarrow> OFloat (g (sql_real x) (sql_real y)))"

abbreviation sql_minus :: "obj \<Rightarrow> obj \<Rightarrow> obj" where
  "sql_minus \<equiv> sql_arith (-) fsub"

abbreviation sql_plus :: "obj \<Rightarrow> obj \<Rightarrow> obj" where
  "sql_plus \<equiv> sql_arith (+) fadd"

lemma sql_minus_int [simp]: "integer_ok (i - j) \<Longrightarrow> sql_minus (OInt i) (OInt j) = OInt (i - j)"
  by (simp add: sql_arith_def)

lemma sql_plus_int [simp]: "integer_ok (i + j) \<Longrightarrow> sql_plus (OInt i) (OInt j) = OInt (i + j)"
  by (simp add: sql_arith_def)

text \<open>\<open>LEFT JOIN entities AS entity ON entity.id = event.entity_id\<close>\<close>

definition left_join :: "('b \<Rightarrow> bool) \<Rightarrow> 'b list \<Rightarrow> 'b option list" where
  "left_join p bs = (case filter p bs of [] \<Rightarrow> [None] | ms \<Rightarrow> map Some ms)"

definition owner_rows :: "db \<Rightarrow> event_row \<Rightarrow> entity_row option list" where
  "owner_rows d v = left_join (\<lambda>e. sql_eq (er_id e) (vr_entity_id v)) (db_entities d)"

definition owner_kind :: "entity_row option \<Rightarrow> obj" where
  "owner_kind e = coalesce (case e of None \<Rightarrow> ONone | Some r \<Rightarrow> er_kind r) (OStr (lit ''unowned''))"

definition owner_name :: "entity_row option \<Rightarrow> obj" where
  "owner_name e = coalesce (case e of None \<Rightarrow> ONone | Some r \<Rightarrow> er_name r) (OStr (lit ''unowned''))"

text \<open>The event kinds that are observations and not operations.\<close>

definition observation_kinds :: "obj list" where
  "observation_kinds = map OStr [lit ''log.record'', lit ''python.call.aggregate'',
     lit ''python.stack.sample'', lit ''python.callsite'']"

definition is_operation_kind :: "obj \<Rightarrow> bool" where
  "is_operation_kind k \<longleftrightarrow> k \<noteq> ONone \<and> k \<notin> set observation_kinds"

type_synonym identity_cells = "obj \<times> obj \<times> obj \<times> obj"
type_synonym operation = "pystr \<times> pystr \<times> pystr \<times> pystr"

text \<open>The operation events with their owners: entity kind and name, event kind and name.\<close>

definition operation_rows :: "db \<Rightarrow> (identity_cells \<times> event_row) list" where
  "operation_rows d = concat (map (\<lambda>v.
     map (\<lambda>e. ((owner_kind e, owner_name e, vr_kind v, vr_name v), v)) (owner_rows d v))
     (filter (\<lambda>v. is_operation_kind (vr_kind v)) (db_events d)))"

definition operation_identity :: "identity_cells \<Rightarrow> operation res" where
  "operation_identity cells = (case cells of (ek, en, vk, vn) \<Rightarrow>
     rbind (required_text (lit ''operation entity kind'') ek) (\<lambda>a.
     rbind (required_text (lit ''operation entity name'') en) (\<lambda>b.
     rbind (required_text (lit ''operation kind'') vk) (\<lambda>c.
     rbind (required_text (lit ''operation name'') vn) (\<lambda>d. Inr (a, b, c, d))))))"

text \<open>A dictionary built from the groups of a query: a check of the key and a value.\<close>

definition keyed_rows :: "('c \<Rightarrow> 'k res) \<Rightarrow> ('c \<times> 'v) list \<Rightarrow> ('k, 'v) dict res" where
  "keyed_rows ident rows = rbind (traverse (\<lambda>(c, v). rbind (ident c) (\<lambda>k. Inr (k, v))) rows)
     (\<lambda>kvs. Inr (fold (\<lambda>(k, v). dset k v) kvs []))"

section \<open>The reader\<close>

text \<open>
  A validated connection: the tables, and whether the file has the optional attachment
  table at all.
\<close>

record reader =
  rd_db :: db
  rd_has_attachments :: bool

subsection \<open>Records\<close>

fun all_strs :: "obj list \<Rightarrow> pystr list option" where
  "all_strs [] = Some []"
| "all_strs (OStr s # vs) = (case all_strs vs of None \<Rightarrow> None | Some ss \<Rightarrow> Some (s # ss))"
| "all_strs (_ # vs) = None"

definition read_command :: "obj \<Rightarrow> pystr list res" where
  "read_command cell = (case cell of
     OStr raw \<Rightarrow>
       rbind (validate_json_size raw) (\<lambda>_.
       (case json_loads default_constant raw of
          Inl _ \<Rightarrow> Inl (runpack_error ''execution command is invalid JSON'')
        | Inr decoded \<Rightarrow>
           (case (case decoded of OList vs \<Rightarrow> all_strs vs | _ \<Rightarrow> None) of
              None \<Rightarrow> Inl (runpack_error ''execution command is invalid'')
            | Some parts \<Rightarrow>
                rbind (validate_command_parts parts) (\<lambda>_.
                rbind (checked_json decoded) (\<lambda>_. Inr parts)))))
   | _ \<Rightarrow> Inl (runpack_error ''execution command is invalid JSON''))"

definition read_execution_row :: "execution_row \<Rightarrow> execution res" where
  "read_execution_row r =
     rbind (read_command (xr_command_json r)) (\<lambda>command.
     rbind (execution_interval (xr_started_at_ns r) (xr_finished_at_ns r)) (\<lambda>(started, finished).
     rbind (integer_value True (lit ''execution exit code'') (xr_exit_code r)) (\<lambda>exit_code.
     rbind (required_text (lit ''execution id'') (xr_id r)) (\<lambda>i.
     rbind (required_text (lit ''execution name'') (xr_name r)) (\<lambda>name.
     rbind (required_text (lit ''execution working directory'') (xr_working_directory r)) (\<lambda>cwd.
     rbind (text_value True (lit ''execution revision'') (xr_revision r)) (\<lambda>revision.
     rbind (object_field (xr_metadata_json r)) (\<lambda>metadata.
     Inr \<lparr>exec_id = i, exec_name = name, exec_started_at_ns = started, exec_finished_at_ns = finished,
       exec_command = command, exec_working_directory = cwd, exec_exit_code = exit_code,
       exec_revision = revision, exec_metadata = metadata\<rparr>))))))))"

definition read_execution :: "reader \<Rightarrow> execution res" where
  "read_execution rd = (case take 2 (db_executions (rd_db rd)) of
     [] \<Rightarrow> Inl (runpack_error ''expected exactly one execution, found 0'')
   | [r] \<Rightarrow> read_execution_row r
   | _ \<Rightarrow> Inl (runpack_error ''expected exactly one execution, found more than one''))"

definition read_manifest :: "reader \<Rightarrow> (pystr, pystr) dict res" where
  "read_manifest rd =
     rbind (traverse (\<lambda>(k, v).
         rbind (required_text (lit ''manifest key'') k) (\<lambda>k'.
         rbind (required_text (lit ''manifest value'') v) (\<lambda>v'. Inr (k', v'))))
       (sort_key (\<lambda>(k, v). cell_key k) (db_manifest (rd_db rd))))
     (\<lambda>kvs. Inr (fold (\<lambda>(k, v). dset k v) kvs []))"

definition read_measurement_row :: "measurement_row \<Rightarrow> measurement res" where
  "read_measurement_row r =
     rbind (required_text (lit ''measurement name'') (mr_name r)) (\<lambda>name.
     rbind (measurement_value (mr_value r)) (\<lambda>v.
     rbind (required_text (lit ''measurement unit'') (mr_unit r)) (\<lambda>u.
     rbind (integer_value True (lit ''measurement timestamp'') (mr_timestamp_ns r)) (\<lambda>timestamp.
     rbind (text_value True (lit ''measurement entity id'') (mr_entity_id r)) (\<lambda>entity_id.
     rbind (object_field (mr_attributes_json r)) (\<lambda>attributes.
     Inr \<lparr>meas_name = name, meas_value = v, meas_unit = u, meas_timestamp_ns = timestamp,
       meas_entity_id = entity_id, meas_attributes = attributes\<rparr>))))))"

definition read_measurements :: "reader \<Rightarrow> measurement list res" where
  "read_measurements rd = traverse read_measurement_row (db_measurements (rd_db rd))"

text \<open>The first value of each requested measurement, in row order.\<close>

fun first_measurement_values ::
  "reader \<Rightarrow> (pystr \<times> pystr) list \<Rightarrow> (pystr \<times> pystr, pyfloat) dict \<Rightarrow> (pystr \<times> pystr, pyfloat) dict res"
where
  "first_measurement_values rd [] values = Inr values"
| "first_measurement_values rd ((name, u) # ids) values =
     rbind (required_text (lit ''measurement name'') (OStr name)) (\<lambda>n'.
     rbind (required_text (lit ''measurement unit'') (OStr u)) (\<lambda>u'.
     (case List.find (\<lambda>r. sql_eq (mr_name r) (OStr n') \<and> sql_eq (mr_unit r) (OStr u'))
            (db_measurements (rd_db rd)) of
        None \<Rightarrow> first_measurement_values rd ids values
      | Some r \<Rightarrow> rbind (measurement_value (mr_value r)) (\<lambda>v.
          first_measurement_values rd ids (dset (name, u) v values)))))"

definition read_entity_row :: "entity_row \<Rightarrow> entity res" where
  "read_entity_row r =
     rbind (required_text (lit ''entity id'') (er_id r)) (\<lambda>i.
     rbind (required_text (lit ''entity kind'') (er_kind r)) (\<lambda>kind.
     rbind (required_text (lit ''entity name'') (er_name r)) (\<lambda>name.
     rbind (text_value True (lit ''parent entity id'') (er_parent_entity_id r)) (\<lambda>parent.
     rbind (object_field (er_attributes_json r)) (\<lambda>attributes.
     Inr \<lparr>ent_id = i, ent_kind = kind, ent_name = name, ent_parent_id = parent,
       ent_attributes = attributes\<rparr>)))))"

definition read_entities :: "reader \<Rightarrow> entity list res" where
  "read_entities rd =
     rbind (traverse read_entity_row (sort_key (\<lambda>r. cell_key (er_id r)) (db_entities (rd_db rd)))) (\<lambda>es.
     rbind (validate_entity_hierarchy es) (\<lambda>_. Inr es))"

definition read_event_row :: "event_row \<Rightarrow> event res" where
  "read_event_row r =
     rbind (integer_value True (lit ''event start timestamp'') (vr_started_at_ns r)) (\<lambda>started.
     rbind (integer_value True (lit ''event finish timestamp'') (vr_finished_at_ns r)) (\<lambda>finished.
     rbind (raise_if (case (started, finished) of (Some s, Some f) \<Rightarrow> f < s | _ \<Rightarrow> False)
              (runpack_error ''event cannot finish before it starts'')) (\<lambda>_.
     rbind (integer_value True (lit ''event uncertainty'') (vr_uncertainty_ns r)) (\<lambda>uncertainty.
     rbind (raise_if (case uncertainty of Some u \<Rightarrow> u < 0 | None \<Rightarrow> False)
              (runpack_error ''event uncertainty cannot be negative'')) (\<lambda>_.
     rbind (required_text (lit ''event id'') (vr_id r)) (\<lambda>i.
     rbind (required_text (lit ''event kind'') (vr_kind r)) (\<lambda>kind.
     rbind (required_text (lit ''event name'') (vr_name r)) (\<lambda>name.
     rbind (text_value True (lit ''event entity id'') (vr_entity_id r)) (\<lambda>entity_id.
     rbind (text_value True (lit ''event clock domain'') (vr_clock_domain r)) (\<lambda>clock.
     rbind (integer_value True (lit ''event sequence'') (vr_sequence r)) (\<lambda>sequence.
     rbind (object_field (vr_attributes_json r)) (\<lambda>attributes.
     Inr \<lparr>ev_id = i, ev_kind = kind, ev_name = name, ev_entity_id = entity_id,
       ev_started_at_ns = started, ev_finished_at_ns = finished, ev_clock_domain = clock,
       ev_uncertainty_ns = uncertainty, ev_sequence = sequence, ev_attributes = attributes\<rparr>))))))))))))"

definition event_order :: "event_row \<Rightarrow> (nat \<times> rat \<times> nat list) \<times> (nat \<times> rat \<times> nat list) \<times> (nat \<times> rat \<times> nat list)" where
  "event_order r = (cell_key (vr_started_at_ns r), cell_key (vr_sequence r), cell_key (vr_id r))"

definition read_events :: "reader \<Rightarrow> event list res" where
  "read_events rd = traverse read_event_row (sort_key event_order (db_events (rd_db rd)))"

definition read_edge_row :: "edge_row \<Rightarrow> causal_edge res" where
  "read_edge_row r =
     rbind (required_text (lit ''causal edge source event id'') (gr_source_event_id r)) (\<lambda>source.
     rbind (required_text (lit ''causal edge target event id'') (gr_target_event_id r)) (\<lambda>target.
     rbind (raise_if (source = target)
              (runpack_error ''causal edge cannot reference the same event twice'')) (\<lambda>_.
     rbind (required_text (lit ''causal edge kind'') (gr_kind r)) (\<lambda>kind.
     rbind (confidence_value (gr_confidence r)) (\<lambda>confidence.
     rbind (object_field (gr_attributes_json r)) (\<lambda>attributes.
     Inr \<lparr>edge_source = source, edge_target = target, edge_kind = kind,
       edge_confidence = confidence, edge_attributes = attributes\<rparr>))))))"

definition edge_order :: "edge_row \<Rightarrow> (nat \<times> rat \<times> nat list) \<times> (nat \<times> rat \<times> nat list) \<times> (nat \<times> rat \<times> nat list)" where
  "edge_order r = (cell_key (gr_source_event_id r), cell_key (gr_target_event_id r), cell_key (gr_kind r))"

definition read_causal_edges :: "reader \<Rightarrow> causal_edge list res" where
  "read_causal_edges rd = traverse read_edge_row (sort_key edge_order (db_edges (rd_db rd)))"

definition read_attachment_row :: "attachment_row \<Rightarrow> attachment res" where
  "read_attachment_row r =
     rbind (required_text (lit ''attachment id'') (tr_id r)) (\<lambda>i.
     rbind (required_text (lit ''attachment kind'') (tr_kind r)) (\<lambda>kind.
     rbind (required_text (lit ''attachment name'') (tr_name r)) (\<lambda>name.
     rbind (required_text (lit ''attachment media type'') (tr_media_type r)) (\<lambda>media.
     rbind (blob_value (tr_content r)) (\<lambda>content.
     rbind (object_field (tr_attributes_json r)) (\<lambda>attributes.
     Inr \<lparr>att_id = i, att_kind = kind, att_name = name, att_media_type = media,
       att_content = content, att_attributes = attributes\<rparr>))))))"

definition read_attachments :: "reader \<Rightarrow> attachment list res" where
  "read_attachments rd =
     (if \<not> rd_has_attachments rd then Inr []
      else (let contents = map tr_content (db_attachments (rd_db rd)) in
        rbind (raise_if (max_runpack_attachment_bytes < column_max_bytes contents)
          (RunpackError (cat [lit ''attachment content exceeds the '',
             nat_text max_runpack_attachment_bytes, lit ''-byte runpack field limit'']))) (\<lambda>_.
        rbind (raise_if (max_runpack_attachment_total_bytes < column_sum_bytes contents)
          (RunpackError (cat [lit ''attachment content exceeds the '',
             nat_text max_runpack_attachment_total_bytes, lit ''-byte aggregate runpack limit'']))) (\<lambda>_.
        traverse read_attachment_row
          (sort_key (\<lambda>r. cell_key (tr_id r)) (db_attachments (rd_db rd)))))))"

lemma fold_dset_get: "dget (fold (\<lambda>(k, v). dset k v) kvs d) k = Some v \<Longrightarrow> (k, v) \<in> set kvs \<or> dget d k = Some v"
proof (induction kvs arbitrary: d)
  case (Cons p kvs)
  obtain a b where p: "p = (a, b)" by (cases p)
  from Cons.IH [of "dset a b d"] Cons.prems show ?case by (auto simp: p split: if_splits)
qed simp

lemma keyed_rows_get:
  assumes "keyed_rows ident rows = Inr d" and "dget d k = Some v"
  shows "\<exists>c. (c, v) \<in> set rows \<and> ident c = Inr k"
proof -
  from assms(1) obtain kvs where kvs: "traverse (\<lambda>(c, v). rbind (ident c) (\<lambda>k. Inr (k, v))) rows = Inr kvs"
      "d = fold (\<lambda>(k, v). dset k v) kvs []"
    by (auto simp: keyed_rows_def res_simps)
  with assms(2) fold_dset_get [of kvs "[]" k v] have "(k, v) \<in> set kvs" by simp
  from traverse_Inr_mem [OF kvs(1) this] obtain c w where
    "(c, w) \<in> set rows" "rbind (ident c) (\<lambda>k. Inr (k, w)) = Inr (k, v)" by auto
  then show ?thesis by (auto simp: res_simps)
qed

end
