(* ===== verification/StorageQueries.thy ===== *)
theory StorageQueries
  imports StorageReader
begin

text \<open>
  The aggregate queries of \<open>RunpackReader\<close>: counts and durations of operations, the
  greatest number of simultaneous operations, edges between entities, clock
  inconsistencies and the byte counts of the normalized content. The sweep behind
  \<open>operation_max_concurrency\<close> is proved to compute the greatest number of intervals that
  contain a common instant.
\<close>

section \<open>Counts\<close>

definition operation_counts :: "reader \<Rightarrow> (operation, int) dict res" where
  "operation_counts rd = keyed_rows operation_identity (tally (map fst (operation_rows (rd_db rd))))"

fun count_errors :: "(identity_cells \<times> event_row) list \<Rightarrow> (operation, int) dict \<Rightarrow> (operation, int) dict res" where
  "count_errors [] counts = Inr counts"
| "count_errors ((cells, v) # rows) counts =
     rbind (operation_identity cells) (\<lambda>key.
     rbind (object_field (vr_attributes_json v)) (\<lambda>attributes.
     if is_operation_error attributes then count_errors rows (add_count key 1 counts)
     else count_errors rows counts))"

definition operation_error_counts :: "reader \<Rightarrow> (operation, int) dict res" where
  "operation_error_counts rd = count_errors (operation_rows (rd_db rd)) []"

definition entity_counts :: "reader \<Rightarrow> (pystr \<times> pystr, int) dict res" where
  "entity_counts rd = keyed_rows
     (\<lambda>(k, n). rbind (required_text (lit ''entity kind'') k) (\<lambda>kind.
        rbind (required_text (lit ''entity name'') n) (\<lambda>name. Inr (kind, name))))
     (tally (map (\<lambda>r. (er_kind r, er_name r)) (db_entities (rd_db rd))))"

text \<open>The rows of each group of a query, in the order of the groups' first rows.\<close>

definition group_rows :: "('c \<times> 'r) list \<Rightarrow> ('c \<times> 'r list) list" where
  "group_rows rows = map (\<lambda>c. (c, map snd (filter (\<lambda>x. fst x = c) rows))) (map fst (dedup_by fst rows))"

lemma group_rows_keys: "fst ` set (group_rows rows) = fst ` set rows"
  using dedup_by_keys [of fst rows] by (auto simp: group_rows_def image_image)

lemma group_rows_distinct: "distinct (map fst (group_rows rows))"
  using dedup_by_distinct [of fst rows] by (simp add: group_rows_def o_def)

text \<open>
  \<open>total(CAST(finished - started AS REAL)) / 1000000000.0\<close> over the groups whose events all
  have both timestamps.
\<close>

definition cast_real :: "obj \<Rightarrow> pyfloat option" where
  "cast_real x = (case sql_number x of ONone \<Rightarrow> None | y \<Rightarrow> Some (sql_real y))"

definition all_timed :: "event_row list \<Rightarrow> bool" where
  "all_timed vs \<longleftrightarrow> list_all (\<lambda>v. vr_started_at_ns v \<noteq> ONone \<and> vr_finished_at_ns v \<noteq> ONone) vs"

definition sql_divide :: "pyfloat \<Rightarrow> pyfloat \<Rightarrow> pyfloat" where
  "sql_divide a b = (case fdiv a b of Inr x \<Rightarrow> x | Inl _ \<Rightarrow> NaN)"

definition operation_duration_totals ::
  "(pyfloat list \<Rightarrow> pyfloat) \<Rightarrow> reader \<Rightarrow> (operation, pyfloat) dict res" where
  "operation_duration_totals sql_total rd = keyed_rows operation_identity
     (map (\<lambda>(c, vs). (c, sql_divide (sql_total (List.map_filter
            (\<lambda>v. cast_real (sql_minus (vr_finished_at_ns v) (vr_started_at_ns v))) vs)) (Fin 1000000000)))
        (filter (\<lambda>(c, vs). all_timed vs) (group_rows (operation_rows (rd_db rd)))))"

section \<open>Simultaneous operations\<close>

text \<open>
  The boundaries of the intervals of one group and clock domain, in the order of the
  window (time, then ends before starts), and the running sum of their deltas.
\<close>

definition boundaries :: "('t::linorder \<times> 't) list \<Rightarrow> ('t \<times> int) list" where
  "boundaries ivs = (let proper = filter (\<lambda>(s, f). s < f) ivs in
     map (\<lambda>(s, f). (s, 1)) proper @ map (\<lambda>(s, f). (f, - 1)) proper)"

fun running_sums :: "int \<Rightarrow> int list \<Rightarrow> int list" where
  "running_sums acc [] = []"
| "running_sums acc (x # xs) = (acc + x) # running_sums (acc + x) xs"

definition active_counts :: "('t::linorder \<times> 't) list \<Rightarrow> int list" where
  "active_counts ivs = running_sums 0 (map snd (sort_key (\<lambda>b. b) (boundaries ivs)))"

text \<open>The number of intervals that contain an instant, their end excluded.\<close>

definition open_at :: "('t::linorder \<times> 't) list \<Rightarrow> 't \<Rightarrow> int" where
  "open_at ivs t = int (length (filter (\<lambda>(s, f). s \<le> t \<and> t < f) ivs))"

lemma sum_list_split: "sum_list (map f xs) = sum_list (map f (filter P xs)) + sum_list (map f (filter (\<lambda>x. \<not> P x) xs))"
  for f :: "'a \<Rightarrow> int"
  by (induction xs) auto

lemma boundaries_until: "sum_list (map snd (filter (\<lambda>b. fst b \<le> t) (boundaries ivs))) = open_at ivs t"
proof (induction ivs)
  case Nil
  then show ?case by (simp add: boundaries_def open_at_def)
next
  case (Cons iv ivs)
  obtain s f where iv: "iv = (s, f)" by (cases iv)
  have step: "sum_list (map snd (filter (\<lambda>b. fst b \<le> t) (boundaries (iv # ivs)))) =
      (if s < f then (if s \<le> t then 1 else 0) - (if f \<le> t then 1 else 0) else 0) +
      sum_list (map snd (filter (\<lambda>b. fst b \<le> t) (boundaries ivs)))"
    by (simp add: boundaries_def iv Let_def)
  show ?case unfolding step Cons by (auto simp: open_at_def iv)
qed

lemma sum_list_mset: "mset xs = mset ys \<Longrightarrow> sum_list (map f xs) = sum_list (map f ys)" for f :: "'a \<Rightarrow> int"
  by (metis mset_map sum_mset_sum_list)

lemma running_sums_mem:
  "k \<in> set (running_sums acc ds) \<longleftrightarrow> (\<exists>xs d ys. ds = xs @ d # ys \<and> k = acc + sum_list xs + d)"
proof (induction ds arbitrary: acc)
  case Nil
  then show ?case by simp
next
  case (Cons x ds)
  show ?case (is "?L \<longleftrightarrow> ?R")
  proof
    assume ?L
    then consider "k = acc + x" | "k \<in> set (running_sums (acc + x) ds)" by auto
    then show ?R
    proof cases
      case 1
      then show ?thesis by (intro exI [of _ "[]"] exI [of _ x] exI [of _ ds]) simp
    next
      case 2
      with Cons.IH obtain xs d ys where "ds = xs @ d # ys" "k = acc + x + sum_list xs + d" by blast
      then show ?thesis by (intro exI [of _ "x # xs"] exI [of _ d] exI [of _ ys]) simp
    qed
  next
    assume ?R
    then obtain xs d ys where *: "x # ds = xs @ d # ys" "k = acc + sum_list xs + d" by blast
    show ?L
    proof (cases xs)
      case Nil
      with * show ?thesis by simp
    next
      case (Cons y zs)
      with * have "ds = zs @ d # ys" "k = (acc + x) + sum_list zs + d" by auto
      with Cons.IH show ?thesis by auto
    qed
  qed
qed

text \<open>A sorted list of boundaries with deltas 1 and -1.\<close>

locale sweep =
  fixes bs :: "('t::linorder \<times> int) list"
  assumes sorted_bs: "sorted bs" and deltas: "b \<in> set bs \<Longrightarrow> snd b = 1 \<or> snd b = - 1"
begin

definition upto :: "'t \<Rightarrow> int" where
  "upto t = sum_list (map snd (filter (\<lambda>b. fst b \<le> t) bs))"

lemma sum_nonneg: "\<forall>b\<in>set xs. 0 \<le> snd b \<Longrightarrow> 0 \<le> sum_list (map snd xs)" for xs :: "('t \<times> int) list"
  by (induction xs) auto

lemma sum_nonpos: "\<forall>b\<in>set xs. snd b \<le> 0 \<Longrightarrow> sum_list (map snd xs) \<le> 0" for xs :: "('t \<times> int) list"
  by (induction xs) auto

lemma prefix_reached: "filter (\<lambda>b. fst b \<le> t) bs \<noteq> [] \<Longrightarrow> upto t \<in> set (running_sums 0 (map snd bs))"
proof -
  assume ne: "filter (\<lambda>b. fst b \<le> t) bs \<noteq> []"
  have "filter (\<lambda>b. fst b \<le> t) bs = takeWhile (\<lambda>b. fst b \<le> t) bs"
    using sorted_bs
  proof (induction bs)
    case (Cons b bs)
    have "filter (\<lambda>b. fst b \<le> t) bs = []" if "\<not> fst b \<le> t"
      using Cons.prems that by (fastforce simp: filter_empty_conv less_eq_prod_def)
    with Cons show ?case by auto
  qed simp
  then have split: "bs = filter (\<lambda>b. fst b \<le> t) bs @ dropWhile (\<lambda>b. fst b \<le> t) bs"
    by (metis takeWhile_dropWhile_id)
  obtain xs b where F: "filter (\<lambda>b. fst b \<le> t) bs = xs @ [b]" using ne by (metis rev_exhaust)
  have "map snd bs = map snd (xs @ [b]) @ map snd (dropWhile (\<lambda>b. fst b \<le> t) bs)"
    using arg_cong [OF split, of "map snd"] unfolding F map_append .
  moreover have "upto t = 0 + sum_list (map snd xs) + snd b" by (simp add: upto_def F)
  ultimately have "map snd bs = map snd xs @ snd b # map snd (dropWhile (\<lambda>b. fst b \<le> t) bs) \<and>
      upto t = 0 + sum_list (map snd xs) + snd b" by simp
  then show ?thesis unfolding running_sums_mem by blast
qed

lemma reached_bounded:
  assumes "k \<in> set (running_sums 0 (map snd bs))"
  shows "k \<le> 0 \<or> (\<exists>t. k \<le> upto t)"
proof -
  from assms obtain us d vs where "map snd bs = us @ d # vs" "k = sum_list us + d"
    unfolding running_sums_mem by auto
  then obtain xs b ys where bs: "bs = xs @ b # ys" and k: "k = sum_list (map snd xs) + snd b"
    by (auto simp: map_eq_append_conv map_eq_Cons_conv)
  have before: "\<forall>a\<in>set xs. a \<le> b" and after: "\<forall>a\<in>set ys. b \<le> a"
    using sorted_bs by (auto simp: bs sorted_append)
  show ?thesis
  proof (cases "snd b = 1")
    case True
    have "filter (\<lambda>a. fst a \<le> fst b) bs = xs @ b # filter (\<lambda>a. fst a \<le> fst b) ys"
      using before by (auto simp: bs less_eq_prod_def filter_id_conv)
    moreover have "\<forall>a\<in>set (filter (\<lambda>a. fst a \<le> fst b) ys). 0 \<le> snd a"
      using after True by (auto simp: less_eq_prod_def)
    ultimately have "k \<le> upto (fst b)" using sum_nonneg by (fastforce simp: upto_def k)
    then show ?thesis by blast
  next
    case False
    with deltas [of b] have b: "snd b = - 1" by (auto simp: bs)
    let ?early = "filter (\<lambda>a. fst a < fst b) bs"
    have early: "?early = filter (\<lambda>a. fst a < fst b) xs"
      using after by (auto simp: bs less_eq_prod_def filter_empty_conv)
    have "\<forall>a\<in>set (filter (\<lambda>a. \<not> fst a < fst b) xs). snd a \<le> 0"
      using before b by (auto simp: less_eq_prod_def)
    from sum_nonpos [OF this] have le: "k \<le> sum_list (map snd ?early) - 1"
      using sum_list_split [of snd xs "\<lambda>a. fst a < fst b"] by (simp add: k b early)
    show ?thesis
    proof (cases "?early = []")
      case True
      with le show ?thesis by simp
    next
      case ne: False
      let ?t = "Max (fst ` set ?early)"
      have fin: "finite (fst ` set ?early)" "fst ` set ?early \<noteq> {}"
        using ne by (simp_all only: finite_imageI finite_set image_is_empty set_empty not_False_eq_True)
      have "?t \<in> fst ` set ?early" using fin by (rule Max_in)
      then have lt: "?t < fst b" by auto
      have "filter (\<lambda>a. fst a \<le> ?t) bs = ?early"
      proof (rule filter_cong [OF refl])
        fix a assume a: "a \<in> set bs"
        show "fst a \<le> ?t \<longleftrightarrow> fst a < fst b"
        proof
          assume "fst a < fst b"
          with a have "fst a \<in> fst ` set ?early" by auto
          with fin(1) show "fst a \<le> ?t" by (rule Max_ge)
        qed (use lt in simp)
      qed
      with le have "k \<le> upto ?t" by (simp add: upto_def)
      then show ?thesis by blast
    qed
  qed
qed

end

interpretation window: sweep "sort_key (\<lambda>b. b) (boundaries ivs)" for ivs :: "('t::linorder \<times> 't) list"
  by unfold_locales (auto simp: boundaries_def Let_def)

lemma upto_open_at: "window.upto ivs t = open_at ivs t"
proof -
  have "mset (filter (\<lambda>b. fst b \<le> t) (sort_key (\<lambda>b. b) (boundaries ivs))) =
      mset (filter (\<lambda>b. fst b \<le> t) (boundaries ivs))"
    by simp
  then show ?thesis
    using sum_list_mset [of _ _ snd] boundaries_until [of t ivs] by (metis window.upto_def)
qed

lemma open_at_active: "0 < open_at ivs t \<Longrightarrow> open_at ivs t \<in> set (active_counts ivs)"
proof -
  assume pos: "0 < open_at ivs t"
  have "filter (\<lambda>b. fst b \<le> t) (sort_key (\<lambda>b. b) (boundaries ivs)) \<noteq> []"
  proof
    assume "filter (\<lambda>b. fst b \<le> t) (sort_key (\<lambda>b. b) (boundaries ivs)) = []"
    then have "window.upto ivs t = 0" by (simp only: window.upto_def list.map sum_list.Nil)
    with pos show False by (simp add: upto_open_at)
  qed
  from window.prefix_reached [OF this] show ?thesis
    by (simp add: active_counts_def upto_open_at)
qed

lemma active_open_at: "k \<in> set (active_counts ivs) \<Longrightarrow> k \<le> 0 \<or> (\<exists>t. k \<le> open_at ivs t)"
  using window.reached_bounded [of k ivs] by (simp add: active_counts_def upto_open_at)

lemma active_counts_proper: "active_counts ivs \<noteq> [] \<Longrightarrow> \<exists>t. 0 < open_at ivs t"
proof -
  assume "active_counts ivs \<noteq> []"
  then have "sort_key (\<lambda>b. b) (boundaries ivs) \<noteq> []" by (auto simp: active_counts_def)
  then have "set (sort_key (\<lambda>b. b) (boundaries ivs)) \<noteq> {}" by (simp only: set_empty not_False_eq_True)
  then obtain s f where "(s, f) \<in> set ivs" "s < f" by (auto simp: boundaries_def Let_def)
  then have "(s, f) \<in> set (filter (\<lambda>(s', f'). s' \<le> s \<and> s < f') ivs)" by simp
  then have "0 < open_at ivs s" unfolding open_at_def by (metis length_pos_if_in_set of_nat_0_less_iff)
  then show ?thesis ..
qed

text \<open>The cells of one operation group: clock domain, start and finish of its events.\<close>

definition concurrency_domains :: "event_row list \<Rightarrow> obj list" where
  "concurrency_domains vs = remdups (map vr_clock_domain vs)"

definition domain_intervals ::
  "obj \<Rightarrow> event_row list \<Rightarrow> ((nat \<times> rat \<times> nat list) \<times> (nat \<times> rat \<times> nat list)) list" where
  "domain_intervals clk vs =
     map (\<lambda>v. (cell_key (vr_started_at_ns v), cell_key (vr_finished_at_ns v)))
       (filter (\<lambda>v. vr_clock_domain v = clk \<and> vr_started_at_ns v \<noteq> ONone \<and> vr_finished_at_ns v \<noteq> ONone) vs)"

definition group_active_counts :: "event_row list \<Rightarrow> int list" where
  "group_active_counts vs =
     concat (map (\<lambda>clk. active_counts (domain_intervals clk vs)) (concurrency_domains vs))"

definition concurrency_eligible :: "event_row list \<Rightarrow> bool" where
  "concurrency_eligible vs \<longleftrightarrow> all_timed vs \<and> list_all (\<lambda>v. vr_clock_domain v \<noteq> ONone) vs"

definition operation_max_concurrency :: "reader \<Rightarrow> (operation, int) dict res" where
  "operation_max_concurrency rd = keyed_rows operation_identity
     (List.map_filter (\<lambda>(c, vs).
        (if \<not> concurrency_eligible vs then None
         else (case group_active_counts vs of [] \<Rightarrow> None | n # ns \<Rightarrow> Some (c, fold max ns n))))
       (group_rows (operation_rows (rd_db rd))))"

lemma fold_max_ge: "(x::int) \<in> insert n (set ns) \<Longrightarrow> x \<le> fold max ns n"
proof (induction ns arbitrary: n x)
  case (Cons m ns)
  then show ?case using Cons.IH [of x "max m n"] Cons.IH [of "max m n" "max m n"] by auto
qed simp

lemma fold_max_in: "fold max ns n \<in> insert n (set (ns :: int list))"
proof (induction ns arbitrary: n)
  case (Cons m ns)
  from Cons.IH [of "max m n"] show ?case by (auto simp: max_def split: if_splits)
qed simp

text \<open>
  What is reported for a group: the greatest number of its events of one clock domain that
  contain a common instant.
\<close>

lemma group_active_counts_max:
  assumes "group_active_counts vs = n # ns"
  shows "(\<forall>clk\<in>set (concurrency_domains vs). \<forall>t. open_at (domain_intervals clk vs) t \<le> fold max ns n) \<and>
    (\<exists>clk\<in>set (concurrency_domains vs). \<exists>t. open_at (domain_intervals clk vs) t = fold max ns n)"
proof -
  have mem: "k \<in> insert n (set ns) \<longleftrightarrow> (\<exists>clk\<in>set (concurrency_domains vs). k \<in> set (active_counts (domain_intervals clk vs)))" for k
  proof -
    have "insert n (set ns) = set (group_active_counts vs)" using assms by simp
    then show ?thesis by (auto simp: group_active_counts_def)
  qed
  have upper: "open_at (domain_intervals clk vs) t \<le> fold max ns n"
    if clk: "clk \<in> set (concurrency_domains vs)" and pos: "0 < open_at (domain_intervals clk vs) t" for clk t
    using open_at_active [OF pos] clk mem fold_max_ge by blast
  obtain clk0 where clk0: "clk0 \<in> set (concurrency_domains vs)" "n \<in> set (active_counts (domain_intervals clk0 vs))"
    using mem by blast
  then obtain t0 where "0 < open_at (domain_intervals clk0 vs) t0"
    using active_counts_proper by (metis empty_iff list.set(1))
  with upper clk0 have pos: "0 < fold max ns n" by fastforce
  obtain clk where clk: "clk \<in> set (concurrency_domains vs)" "fold max ns n \<in> set (active_counts (domain_intervals clk vs))"
    using mem fold_max_in by blast
  from active_open_at [OF clk(2)] pos obtain t where t: "fold max ns n \<le> open_at (domain_intervals clk vs) t" by auto
  with pos upper [OF clk(1), of t] have "open_at (domain_intervals clk vs) t = fold max ns n" by linarith
  moreover have "open_at (domain_intervals c vs) u \<le> fold max ns n" if "c \<in> set (concurrency_domains vs)" for c u
    using upper [OF that, of u] pos by (cases "0 < open_at (domain_intervals c vs) u") auto
  ultimately show ?thesis using clk(1) by blast
qed

section \<open>Edges\<close>

definition edge_event_rows :: "db \<Rightarrow> (edge_row \<times> event_row \<times> event_row) list" where
  "edge_event_rows d = concat (map (\<lambda>g. concat (map (\<lambda>s. map (\<lambda>t. (g, s, t))
       (filter (\<lambda>t. sql_eq (vr_id t) (gr_target_event_id g)) (db_events d)))
       (filter (\<lambda>s. sql_eq (vr_id s) (gr_source_event_id g)) (db_events d))))
     (db_edges d))"

definition starts_out_of_order :: "event_row \<Rightarrow> event_row \<Rightarrow> bool" where
  "starts_out_of_order p c \<longleftrightarrow>
     vr_started_at_ns p \<noteq> ONone \<and> vr_started_at_ns c \<noteq> ONone \<and>
     sql_gt (sql_minus (vr_started_at_ns p) (vr_started_at_ns c))
       (sql_plus (coalesce (vr_uncertainty_ns p) (OInt 0)) (coalesce (vr_uncertainty_ns c) (OInt 0)))"

definition finishes_out_of_order :: "event_row \<Rightarrow> event_row \<Rightarrow> bool" where
  "finishes_out_of_order p c \<longleftrightarrow>
     vr_finished_at_ns p \<noteq> ONone \<and> vr_finished_at_ns c \<noteq> ONone \<and>
     sql_gt (sql_minus (vr_finished_at_ns c) (vr_finished_at_ns p))
       (sql_plus (coalesce (vr_uncertainty_ns p) (OInt 0)) (coalesce (vr_uncertainty_ns c) (OInt 0)))"

definition clock_inconsistent :: "edge_row \<times> event_row \<times> event_row \<Rightarrow> bool" where
  "clock_inconsistent = (\<lambda>(g, p, c).
     if sql_eq (gr_kind g) (OStr (lit ''parent'')) then starts_out_of_order p c \<or> finishes_out_of_order p c
     else gr_kind g \<noteq> ONone \<and> starts_out_of_order p c)"

definition clock_inconsistency_count :: "reader \<Rightarrow> int" where
  "clock_inconsistency_count rd = int (length (filter clock_inconsistent (edge_event_rows (rd_db rd))))"

type_synonym edge_identity = "pystr \<times> pystr \<times> pystr \<times> pystr \<times> pystr"

definition edge_endpoint_cells :: "db \<Rightarrow> edge_row \<times> event_row \<times> event_row \<Rightarrow> (obj \<times> obj \<times> obj \<times> obj \<times> obj) list" where
  "edge_endpoint_cells d = (\<lambda>(g, s, t). concat (map (\<lambda>se. map (\<lambda>te.
     (owner_kind se, owner_name se, owner_kind te, owner_name te, gr_kind g)) (owner_rows d t)) (owner_rows d s)))"

definition edge_identity_of :: "obj \<times> obj \<times> obj \<times> obj \<times> obj \<Rightarrow> edge_identity res" where
  "edge_identity_of = (\<lambda>(sk, sn, tk, tn, k).
     rbind (required_text (lit ''edge source entity kind'') sk) (\<lambda>a.
     rbind (required_text (lit ''edge source entity name'') sn) (\<lambda>b.
     rbind (required_text (lit ''edge target entity kind'') tk) (\<lambda>c.
     rbind (required_text (lit ''edge target entity name'') tn) (\<lambda>d.
     rbind (required_text (lit ''edge kind'') k) (\<lambda>e. Inr (a, b, c, d, e)))))))"

definition edge_counts :: "reader \<Rightarrow> (edge_identity, int) dict res" where
  "edge_counts rd = keyed_rows edge_identity_of
     (tally (concat (map (edge_endpoint_cells (rd_db rd))
       (filter (\<lambda>(g, s, t). is_operation_kind (vr_kind s) \<and> is_operation_kind (vr_kind t) \<and>
            sql_is_not (vr_entity_id s) (vr_entity_id t)) (edge_event_rows (rd_db rd))))))"

text \<open>Calls recorded by an edge, so that a peer service attribute does not count them twice.\<close>

definition not_log_record :: "obj \<Rightarrow> bool" where
  "not_log_record k \<longleftrightarrow> k \<noteq> ONone \<and> \<not> sql_eq k (OStr (lit ''log.record''))"

definition explicit_calls :: "reader \<Rightarrow> (pystr \<times> pystr \<times> pystr) list res" where
  "explicit_calls rd = traverse (\<lambda>(i, k, n).
       rbind (required_text (lit ''edge source event id'') i) (\<lambda>i'.
       rbind (required_text (lit ''edge target entity kind'') k) (\<lambda>k'.
       rbind (required_text (lit ''edge target entity name'') n) (\<lambda>n'. Inr (i', k', n')))))
     (concat (map (\<lambda>(g, s, t). map (\<lambda>te. (gr_source_event_id g, owner_kind te, owner_name te))
         (owner_rows (rd_db rd) t))
       (filter (\<lambda>(g, s, t). sql_eq (gr_kind g) (OStr (lit ''calls'')) \<and> not_log_record (vr_kind s) \<and>
            not_log_record (vr_kind t) \<and> sql_is_not (vr_entity_id s) (vr_entity_id t))
          (edge_event_rows (rd_db rd)))))"

fun count_peers ::
  "(pystr \<times> pystr \<times> pystr) list \<Rightarrow> (event_row \<times> entity_row option) list \<Rightarrow>
     (edge_identity, int) dict \<Rightarrow> (edge_identity, int) dict res"
where
  "count_peers calls [] counts = Inr counts"
| "count_peers calls ((v, e) # rows) counts =
     rbind (required_text (lit ''edge source entity kind'') (owner_kind e)) (\<lambda>sk.
     rbind (required_text (lit ''edge source entity name'') (owner_name e)) (\<lambda>sn.
     rbind (object_field (vr_attributes_json v)) (\<lambda>attributes.
     (case dget attributes (lit ''peer.service'') of
        Some (JStr peer) \<Rightarrow>
          if peer = [] then count_peers calls rows counts
          else rbind (required_text (lit ''peer service event id'') (vr_id v)) (\<lambda>i.
            if (i, lit ''service'', peer) \<in> set calls then count_peers calls rows counts
            else count_peers calls rows (add_count (sk, sn, lit ''service'', peer, lit ''calls'') 1 counts))
      | _ \<Rightarrow> count_peers calls rows counts))))"

definition peer_service_edge_counts :: "reader \<Rightarrow> (edge_identity, int) dict res" where
  "peer_service_edge_counts rd =
     rbind (explicit_calls rd) (\<lambda>calls.
     count_peers calls
       (concat (map (\<lambda>v. map (\<lambda>e. (v, e)) (owner_rows (rd_db rd) v))
          (filter (\<lambda>v. sql_eq (vr_kind v) (OStr (lit ''client.request''))) (db_events (rd_db rd))))) [])"

section \<open>Sizes\<close>

definition table_counts :: "reader \<Rightarrow> (pystr, int) dict" where
  "table_counts rd =
     [(lit ''entities'', int (length (db_entities (rd_db rd)))),
      (lit ''events'', int (length (db_events (rd_db rd)))),
      (lit ''causal_edges'', int (length (db_edges (rd_db rd)))),
      (lit ''measurements'', int (length (db_measurements (rd_db rd)))),
      (lit ''attachments'', if rd_has_attachments rd then int (length (db_attachments (rd_db rd))) else 0)]"

text \<open>
  The byte count of a row is \<open>NULL\<close>, and left out of the total, when one of its columns
  outside \<open>COALESCE\<close> is.
\<close>

definition row_bytes :: "obj list \<Rightarrow> obj list \<Rightarrow> pyfloat option" where
  "row_bytes required optional =
     (let bs = map cell_bytes required in
      if None \<in> set bs then None
      else Some (rnd (of_nat (sum_list (map the bs) + column_sum_bytes optional))))"

text \<open>\<open>CAST(total(byte_count) AS INTEGER)\<close>\<close>

definition cast_integer :: "pyfloat \<Rightarrow> int" where
  "cast_integer x = (case x of Fin v \<Rightarrow> max min_integer (min max_integer (if 0 \<le> v then \<lfloor>v\<rfloor> else \<lceil>v\<rceil>))
     | PInf \<Rightarrow> max_integer | NInf \<Rightarrow> min_integer | NaN \<Rightarrow> 0)"

definition total_bytes :: "(pyfloat list \<Rightarrow> pyfloat) \<Rightarrow> (obj list \<times> obj list) list \<Rightarrow> int" where
  "total_bytes sql_total rows = cast_integer (sql_total (List.map_filter (\<lambda>(r, s). row_bytes r s) rows))"

definition normalized_json_bytes :: "(pyfloat list \<Rightarrow> pyfloat) \<Rightarrow> reader \<Rightarrow> int" where
  "normalized_json_bytes sql_total rd = (let d = rd_db rd in total_bytes sql_total
     (map (\<lambda>r. ([xr_command_json r, xr_metadata_json r], [])) (db_executions d) @
      map (\<lambda>r. ([er_attributes_json r], [])) (db_entities d) @
      map (\<lambda>r. ([vr_attributes_json r], [])) (db_events d) @
      map (\<lambda>r. ([gr_attributes_json r], [])) (db_edges d) @
      map (\<lambda>r. ([mr_attributes_json r], [])) (db_measurements d)))"

definition normalized_text_bytes :: "(pyfloat list \<Rightarrow> pyfloat) \<Rightarrow> reader \<Rightarrow> int" where
  "normalized_text_bytes sql_total rd = (let d = rd_db rd in total_bytes sql_total
     (map (\<lambda>(k, v). ([k, v], [])) (db_manifest d) @
      map (\<lambda>r. ([xr_id r, xr_name r, xr_working_directory r], [xr_revision r])) (db_executions d) @
      map (\<lambda>r. ([er_id r, er_kind r, er_name r], [er_parent_entity_id r])) (db_entities d) @
      map (\<lambda>r. ([vr_id r, vr_kind r, vr_name r], [vr_entity_id r, vr_clock_domain r])) (db_events d) @
      map (\<lambda>r. ([gr_source_event_id r, gr_target_event_id r, gr_kind r], [])) (db_edges d) @
      map (\<lambda>r. ([mr_name r, mr_unit r], [mr_entity_id r])) (db_measurements d)))"

section \<open>Properties\<close>

text \<open>C27. The reported concurrency of an operation is exactly the greatest number of its events, on one
  clock, whose half-open intervals contain a common instant: no instant has more, and some
  instant has as many. It is only reported for operations whose events all carry a start, a
  finish and a clock domain.\<close>

theorem max_concurrency_is_peak_overlap:
  assumes "operation_max_concurrency rd = Inr d" and "dget d key = Some n"
  shows "\<exists>cells vs. (cells, vs) \<in> set (group_rows (operation_rows (rd_db rd))) \<and>
    operation_identity cells = Inr key \<and> concurrency_eligible vs \<and>
    (\<forall>clk\<in>set (concurrency_domains vs). \<forall>t. open_at (domain_intervals clk vs) t \<le> n) \<and>
    (\<exists>clk\<in>set (concurrency_domains vs). \<exists>t. open_at (domain_intervals clk vs) t = n)"
proof -
  from keyed_rows_get [OF assms(1) [unfolded operation_max_concurrency_def] assms(2)]
  obtain cells vs where g: "(cells, vs) \<in> set (group_rows (operation_rows (rd_db rd)))"
      "operation_identity cells = Inr key" "concurrency_eligible vs"
      "(case group_active_counts vs of [] \<Rightarrow> None | m # ms \<Rightarrow> Some (cells, fold max ms m)) = Some (cells, n)"
    by (auto simp: map_filter_def split: if_splits list.splits)
  then obtain m ms where "group_active_counts vs = m # ms" "n = fold max ms m"
    by (auto split: list.splits)
  with group_active_counts_max g show ?thesis by blast
qed

definition sample_span :: "int \<Rightarrow> int \<Rightarrow> int \<Rightarrow> event_row" where
  "sample_span i s f = \<lparr>vr_id = OStr (int_text i), vr_kind = OStr (lit ''task''), vr_name = OStr (lit ''step''),
     vr_entity_id = ONone, vr_started_at_ns = OInt s, vr_finished_at_ns = OInt f,
     vr_clock_domain = OStr (lit ''host''), vr_uncertainty_ns = ONone, vr_sequence = ONone,
     vr_attributes_json = OStr [123, 125]\<rparr>"

definition sample_reader :: reader where
  "sample_reader = \<lparr>rd_db = empty_db\<lparr>db_events := [sample_span 1 0 10, sample_span 2 10 20, sample_span 3 5 12]\<rparr>,
     rd_has_attachments = True\<rparr>"

theorem max_concurrency_is_peak_overlap_witness:
  "operation_max_concurrency sample_reader =
     Inr [((lit ''unowned'', lit ''unowned'', lit ''task'', lit ''step''), 2)] \<and>
   (\<exists>vs. concurrency_eligible vs \<and> (\<exists>clk\<in>set (concurrency_domains vs). \<exists>t. open_at (domain_intervals clk vs) t = 2))"
proof -
  have run: "operation_max_concurrency sample_reader =
      Inr [((lit ''unowned'', lit ''unowned'', lit ''task'', lit ''step''), 2)]"
    by code_simp
  have "dget [((lit ''unowned'', lit ''unowned'', lit ''task'', lit ''step''), 2 :: int)]
      (lit ''unowned'', lit ''unowned'', lit ''task'', lit ''step'') = Some 2" by simp
  from max_concurrency_is_peak_overlap [OF run this] run show ?thesis by blast
qed

end
