(* ===== verification/Terminal.thy ===== *)
theory Terminal
  imports PyJson
begin

text \<open>
  \<open>terminal.py\<close>: rendering of untrusted artifact text. Whether a character is printable is
  a property of the Unicode database (\<open>str.isprintable\<close>) and a parameter here; what is
  relied on is that the printable ASCII characters and the ellipsis are printable. The
  rendering is bounded and leaves only printable characters.
\<close>

definition max_terminal_text_characters :: int where
  "max_terminal_text_characters = 4096"

text \<open>The \<open>unicode_escape\<close> of a character that is not printable.\<close>

definition hex_digits :: "nat \<Rightarrow> nat \<Rightarrow> pystr" where
  "hex_digits w n = map (\<lambda>k. hex_digit (n div 16 ^ (w - 1 - k) mod 16)) [0..<w]"

definition unicode_escape :: "nat \<Rightarrow> pystr" where
  "unicode_escape c =
     (if c = 9 then [92, 116] else if c = 10 then [92, 110] else if c = 13 then [92, 114]
      else if c = 92 then [92, 92]
      else if 32 \<le> c \<and> c < 127 then [c]
      else if c < 256 then [92, 120] @ hex_digits 2 c
      else if c < 65536 then [92, 117] @ hex_digits 4 c
      else [92, 85] @ hex_digits 8 c)"

definition ellipsis :: nat where
  "ellipsis = 8230"

fun terminal_loop :: "(nat \<Rightarrow> bool) \<Rightarrow> pystr \<Rightarrow> int \<Rightarrow> pystr" where
  "terminal_loop printable [] n = []"
| "terminal_loop printable (c # s) n =
     (let rendered = (if printable c then [c] else unicode_escape c);
          available = max_terminal_text_characters - (if s = [] then 0 else 1)
      in if n + int (length rendered) > available then [ellipsis]
         else rendered @ terminal_loop printable s (n + int (length rendered)))"

definition terminal_text :: "(nat \<Rightarrow> bool) \<Rightarrow> pystr \<Rightarrow> pystr" where
  "terminal_text printable s = terminal_loop printable s 0"

text \<open>What is relied on of the Unicode database.\<close>

definition printable_ascii :: "(nat \<Rightarrow> bool) \<Rightarrow> bool" where
  "printable_ascii printable \<longleftrightarrow> (\<forall>c. 32 \<le> c \<and> c \<le> 126 \<longrightarrow> printable c) \<and> printable ellipsis"

lemma hex_digit_range: "n < 16 \<Longrightarrow> 48 \<le> hex_digit n \<and> hex_digit n \<le> 102"
  by (auto simp: hex_digit_def)

lemma unicode_escape_ascii: "c \<in> set (unicode_escape d) \<Longrightarrow> 32 \<le> c \<and> c \<le> 126"
proof -
  have hex: "32 \<le> c \<and> c \<le> 126" if "c \<in> set (hex_digits w n)" for w n
  proof -
    from that obtain k where "c = hex_digit (n div 16 ^ (w - 1 - k) mod 16)" by (auto simp: hex_digits_def)
    then show ?thesis using hex_digit_range [of "n div 16 ^ (w - 1 - k) mod 16"] by simp
  qed
  assume "c \<in> set (unicode_escape d)"
  then show ?thesis
    unfolding unicode_escape_def by (auto split: if_splits dest: hex)
qed

lemma terminal_loop_printable:
  assumes "printable_ascii printable"
  shows "c \<in> set (terminal_loop printable s n) \<Longrightarrow> printable c"
proof (induction s arbitrary: n)
  case (Cons d s)
  define r where "r = (if printable d then [d] else unicode_escape d)"
  have r: "c \<in> set r \<Longrightarrow> printable c"
    using assms unicode_escape_ascii [of c d] by (auto simp: r_def printable_ascii_def split: if_splits)
  have "terminal_loop printable (d # s) n = [ellipsis] \<or>
      terminal_loop printable (d # s) n = r @ terminal_loop printable s (n + int (length r))"
    by (simp add: r_def Let_def)
  then show ?case
  proof
    assume "terminal_loop printable (d # s) n = [ellipsis]"
    with Cons.prems assms show ?case by (simp add: printable_ascii_def)
  next
    assume "terminal_loop printable (d # s) n = r @ terminal_loop printable s (n + int (length r))"
    with Cons.prems r Cons.IH show ?case by (metis Un_iff set_append)
  qed
qed simp

lemma terminal_loop_length:
  "0 \<le> n \<Longrightarrow> n + (if s = [] then 0 else 1) \<le> max_terminal_text_characters \<Longrightarrow>
     n + int (length (terminal_loop printable s n)) \<le> max_terminal_text_characters"
proof (induction s arbitrary: n)
  case (Cons c s)
  let ?r = "if printable c then [c] else unicode_escape c"
  show ?case
  proof (cases "n + int (length ?r) > max_terminal_text_characters - (if s = [] then 0 else 1)")
    case True
    with Cons.prems show ?thesis by (simp add: Let_def)
  next
    case False
    then have "(n + int (length ?r)) + int (length (terminal_loop printable s (n + int (length ?r))))
        \<le> max_terminal_text_characters"
      using Cons.prems by (intro Cons.IH) auto
    with False show ?thesis by (simp add: Let_def)
  qed
qed simp

text \<open>A text of printable characters within the bound is rendered unchanged.\<close>

lemma terminal_loop_id:
  "list_all printable s \<Longrightarrow> 0 \<le> n \<Longrightarrow> n + int (length s) \<le> max_terminal_text_characters \<Longrightarrow>
     terminal_loop printable s n = s"
proof (induction s arbitrary: n)
  case (Cons c s)
  have "(if s = [] then 0 else 1) \<le> int (length s)" by (cases s) auto
  with Cons show ?case by (auto simp: Let_def)
qed simp

section \<open>Properties\<close>

text \<open>Whatever text an artifact holds, its rendering has at most 4096 characters, all of them
  printable (control characters and lone surrogates are escaped), and printable text within the
  bound is shown as it is.\<close>

theorem terminal_text_safe:
  assumes "printable_ascii printable"
  shows "length (terminal_text printable s) \<le> 4096 \<and> (\<forall>c\<in>set (terminal_text printable s). printable c) \<and>
    (list_all printable s \<longrightarrow> length s \<le> 4096 \<longrightarrow> terminal_text printable s = s)"
proof -
  have "int (length (terminal_text printable s)) \<le> 4096"
    using terminal_loop_length [of 0 s printable]
    by (simp add: terminal_text_def max_terminal_text_characters_def)
  moreover have "length s \<le> 4096 \<Longrightarrow> list_all printable s \<Longrightarrow> terminal_text printable s = s"
    using terminal_loop_id [of printable s 0] by (simp add: terminal_text_def max_terminal_text_characters_def)
  ultimately show ?thesis using terminal_loop_printable [OF assms] by (auto simp: terminal_text_def)
qed

definition sample_printable :: "nat \<Rightarrow> bool" where
  "sample_printable c \<longleftrightarrow> 32 \<le> c \<and> c \<noteq> 127 \<and> \<not> (128 \<le> c \<and> c < 160) \<and> \<not> is_surrogate c"

theorem terminal_text_safe_witness:
  "list_all sample_printable (terminal_text sample_printable [27, 91, 51, 49, 109, 0xD800]) \<and>
   terminal_text sample_printable [27, 91] = [92, 120, 49, 98, 91] \<and>
   terminal_text sample_printable (lit ''ok'') = lit ''ok''"
proof -
  have p: "printable_ascii sample_printable"
    by (auto simp: printable_ascii_def sample_printable_def is_surrogate_def ellipsis_def)
  have "terminal_text sample_printable [27, 91] = [92, 120, 49, 98, 91]" by code_simp
  moreover have "list_all sample_printable (lit ''ok'')" by code_simp
  moreover from this have "terminal_text sample_printable (lit ''ok'') = lit ''ok''"
    using terminal_text_safe [OF p, of "lit ''ok''"] by simp
  moreover have "list_all sample_printable (terminal_text sample_printable [27, 91, 51, 49, 109, 0xD800])"
    using terminal_text_safe [OF p] by (simp only: list_all_iff) blast
  ultimately show ?thesis by blast
qed

end
