(* ===== verification/Inspect.thy ===== *)
theory Inspect
  imports StorageQueries Terminal
begin

text \<open>
  \<open>inspect.py\<close> and the read-only facade \<open>runpack.py\<close>: the summary of one run, built from
  optional metadata that may have any shape, its terminal rendering, and the rendering of
  the causal structure, a depth-first walk over a graph that may have cycles, shared nodes
  and more events than the output may show.
\<close>

section \<open>The facade\<close>

record runpack =
  rp_reader :: reader
  rp_closed :: bool

definition active_reader :: "runpack \<Rightarrow> reader res" where
  "active_reader rp = (if rp_closed rp then Inl (runpack_error ''runpack is closed'') else Inr (rp_reader rp))"

definition runpack_execution :: "runpack \<Rightarrow> execution res" where
  "runpack_execution rp = rbind (active_reader rp) read_execution"

definition runpack_manifest :: "runpack \<Rightarrow> (pystr, pystr) dict res" where
  "runpack_manifest rp = rbind (active_reader rp) read_manifest"

definition runpack_entities :: "runpack \<Rightarrow> entity list res" where
  "runpack_entities rp = rbind (active_reader rp) read_entities"

definition runpack_events :: "runpack \<Rightarrow> event list res" where
  "runpack_events rp = rbind (active_reader rp) read_events"

definition runpack_causal_edges :: "runpack \<Rightarrow> causal_edge list res" where
  "runpack_causal_edges rp = rbind (active_reader rp) read_causal_edges"

definition runpack_measurements :: "runpack \<Rightarrow> measurement list res" where
  "runpack_measurements rp = rbind (active_reader rp) read_measurements"

definition runpack_attachments :: "runpack \<Rightarrow> attachment list res" where
  "runpack_attachments rp = rbind (active_reader rp) read_attachments"

definition runpack_close :: "runpack \<Rightarrow> runpack" where
  "runpack_close rp = rp\<lparr>rp_closed := True\<rparr>"

section \<open>Fields of the metadata\<close>

definition max_completeness_count :: int where
  "max_completeness_count = 2 ^ 63 - 1"

definition as_dict :: "json option \<Rightarrow> attrs option" where
  "as_dict v = (case v of Some (JObj d) \<Rightarrow> Some d | _ \<Rightarrow> None)"

definition nested_output :: "attrs \<Rightarrow> pystr \<Rightarrow> pystr \<Rightarrow> json option" where
  "nested_output metadata stream field =
     (case as_dict (dget metadata (lit ''output'')) of None \<Rightarrow> None
      | Some output \<Rightarrow> (case as_dict (dget output stream) of None \<Rightarrow> None
        | Some stream_data \<Rightarrow> (case dget stream_data field of
            Some (JStr s) \<Rightarrow> Some (JStr s)
          | Some (JInt i) \<Rightarrow> Some (JInt i)
          | Some (JBool b) \<Rightarrow> Some (JBool b)
          | _ \<Rightarrow> None)))"

definition as_int :: "json option \<Rightarrow> int option" where
  "as_int v = (case v of
     Some (JInt i) \<Rightarrow> if 0 \<le> i \<and> i \<le> max_completeness_count then Some i else None
   | _ \<Rightarrow> None)"

text \<open>
  Sixty-four characters that \<open>bytes.fromhex\<close> reads as 32 bytes are hexadecimal digits;
  \<open>lower\<close> on them.
\<close>

definition lower_hex :: "nat \<Rightarrow> nat" where
  "lower_hex c = (if 65 \<le> c \<and> c \<le> 70 then c + 32 else c)"

definition as_sha256 :: "json option \<Rightarrow> pystr option" where
  "as_sha256 v = (case v of
     Some (JStr s) \<Rightarrow> if length s = 64 \<and> list_all (\<lambda>c. hex_value c \<noteq> None) s then Some (map lower_hex s) else None
   | _ \<Rightarrow> None)"

definition as_nonempty_text :: "json option \<Rightarrow> pystr option" where
  "as_nonempty_text v = (case v of Some (JStr s) \<Rightarrow> if s = [] then None else Some s | _ \<Rightarrow> None)"

definition nonnegative :: "pyfloat option \<Rightarrow> pyfloat option" where
  "nonnegative v = (case v of Some x \<Rightarrow> if fle (Fin 0) x then Some x else None | None \<Rightarrow> None)"

text \<open>The comparison with the integer bound is exact.\<close>

definition peak_memory_bytes :: "pyfloat option \<Rightarrow> int option" where
  "peak_memory_bytes v = (case v of
     Some (Fin q) \<Rightarrow> if q < 0 \<or> of_int max_completeness_count < q \<or> \<not> is_integer (Fin q) then None else Some \<lfloor>q\<rfloor>
   | _ \<Rightarrow> None)"

definition annotation_error_of :: "attrs \<Rightarrow> pystr option" where
  "annotation_error_of metadata =
     (case as_dict (dget metadata (lit ''capture'')) of None \<Rightarrow> None
      | Some capture \<Rightarrow> as_nonempty_text (dget capture (lit ''annotation_error'')))"

definition count_field :: "attrs \<Rightarrow> pystr \<Rightarrow> int option" where
  "count_field d key = as_int (Some (case dget d key of None \<Rightarrow> JInt 0 | Some v \<Rightarrow> v))"

fun sum_counts :: "attrs \<Rightarrow> pystr list \<Rightarrow> int \<Rightarrow> int option" where
  "sum_counts d [] acc = Some acc"
| "sum_counts d (k # ks) acc = (case count_field d k of None \<Rightarrow> None
     | Some v \<Rightarrow> if max_completeness_count < acc + v then None else sum_counts d ks (acc + v))"

text \<open>\<open>metadata.get("otel")\<close>: absent and null both count as no telemetry.\<close>

definition otel_field :: "attrs \<Rightarrow> (attrs \<Rightarrow> int option) \<Rightarrow> int option" where
  "otel_field metadata f = (case dget metadata (lit ''otel'') of
     None \<Rightarrow> Some 0 | Some JNull \<Rightarrow> Some 0 | Some (JObj d) \<Rightarrow> f d | Some _ \<Rightarrow> None)"

definition missing_causal_references :: "attrs \<Rightarrow> int option" where
  "missing_causal_references metadata = otel_field metadata (\<lambda>otel.
     sum_counts otel [lit ''missing_parent_count'', lit ''missing_link_count'', lit ''missing_log_span_count''] 0)"

definition dropped_attribute_count :: "attrs \<Rightarrow> int option" where
  "dropped_attribute_count metadata = otel_field metadata (\<lambda>otel. count_field otel (lit ''dropped_attribute_count''))"

definition stream_complete :: "attrs \<Rightarrow> pystr \<Rightarrow> bool option" where
  "stream_complete metadata stream =
     (case as_dict (dget metadata (lit ''output'')) of None \<Rightarrow> None
      | Some output \<Rightarrow> (case as_dict (dget output stream) of None \<Rightarrow> None
        | Some stream_data \<Rightarrow> (case dget stream_data (lit ''pipe_open_after_exit'') of
            None \<Rightarrow> Some True
          | Some (JBool b) \<Rightarrow> Some (\<not> b)
          | Some _ \<Rightarrow> None)))"

section \<open>The summary\<close>

record stream_summary =
  ss_bytes :: "int option"
  ss_sha256 :: "pystr option"
  ss_complete :: "bool option"
  ss_relay_error :: "pystr option"

record execution_summary =
  sum_schema_version :: pystr
  sum_producer_version :: pystr
  sum_id :: pystr
  sum_name :: pystr
  sum_command :: "pystr list"
  sum_working_directory :: pystr
  sum_revision :: "pystr option"
  sum_started_at_ns :: int
  sum_finished_at_ns :: "int option"
  sum_exit_code :: "int option"
  sum_wall_time_seconds :: "pyfloat option"
  sum_cpu_user_seconds :: "pyfloat option"
  sum_cpu_system_seconds :: "pyfloat option"
  sum_peak_memory_bytes :: "int option"
  sum_stdout :: stream_summary
  sum_stderr :: stream_summary
  sum_annotation_error :: "pystr option"
  sum_missing_causal_references :: "int option"
  sum_dropped_attribute_count :: "int option"
  sum_record_counts :: "(pystr, int) dict"

definition stream_summary_of :: "attrs \<Rightarrow> pystr \<Rightarrow> stream_summary" where
  "stream_summary_of metadata stream =
     \<lparr>ss_bytes = as_int (nested_output metadata stream (lit ''bytes'')),
      ss_sha256 = as_sha256 (nested_output metadata stream (lit ''sha256'')),
      ss_complete = stream_complete metadata stream,
      ss_relay_error = as_nonempty_text (nested_output metadata stream (lit ''relay_error''))\<rparr>"

definition wall_time_of :: "execution \<Rightarrow> pyfloat option res" where
  "wall_time_of x = (case exec_finished_at_ns x of None \<Rightarrow> Inr None
     | Some f \<Rightarrow> rbind (int_truediv (f - exec_started_at_ns x) 1000000000) (\<lambda>w. Inr (Some w)))"

definition cpu_user_key :: "pystr \<times> pystr" where
  "cpu_user_key = (lit ''process.cpu.user'', lit ''s'')"

definition cpu_system_key :: "pystr \<times> pystr" where
  "cpu_system_key = (lit ''process.cpu.system'', lit ''s'')"

definition memory_peak_key :: "pystr \<times> pystr" where
  "memory_peak_key = (lit ''process.memory.peak'', lit ''By'')"

definition inspect_reader :: "reader \<Rightarrow> execution_summary res" where
  "inspect_reader rd =
     rbind (read_manifest rd) (\<lambda>manifest.
     rbind (read_execution rd) (\<lambda>x.
     rbind (first_measurement_values rd [cpu_user_key, cpu_system_key, memory_peak_key] []) (\<lambda>ms.
     rbind (wall_time_of x) (\<lambda>wall_time.
     (case dget manifest (lit ''schema_version'') of
        None \<Rightarrow> Inl KeyError
      | Some schema_version \<Rightarrow> Inr
         \<lparr>sum_schema_version = schema_version,
          sum_producer_version = dget_or manifest (lit ''producer_version'') (lit ''unknown''),
          sum_id = exec_id x, sum_name = exec_name x, sum_command = exec_command x,
          sum_working_directory = exec_working_directory x, sum_revision = exec_revision x,
          sum_started_at_ns = exec_started_at_ns x, sum_finished_at_ns = exec_finished_at_ns x,
          sum_exit_code = exec_exit_code x, sum_wall_time_seconds = wall_time,
          sum_cpu_user_seconds = nonnegative (dget ms cpu_user_key),
          sum_cpu_system_seconds = nonnegative (dget ms cpu_system_key),
          sum_peak_memory_bytes = peak_memory_bytes (dget ms memory_peak_key),
          sum_stdout = stream_summary_of (exec_metadata x) (lit ''stdout''),
          sum_stderr = stream_summary_of (exec_metadata x) (lit ''stderr''),
          sum_annotation_error = annotation_error_of (exec_metadata x),
          sum_missing_causal_references = missing_causal_references (exec_metadata x),
          sum_dropped_attribute_count = dropped_attribute_count (exec_metadata x),
          sum_record_counts = table_counts rd\<rparr>)))))"

end
