(* ===== verification/InspectRender.thy ===== *)
theory InspectRender
  imports Inspect
begin

text \<open>
  The terminal rendering of \<open>inspect.py\<close>: the summary as text and the causal structure.
  The Unicode predicate \<open>printable\<close> of \<open>Terminal\<close> is passed through. The walk over the
  causal graph terminates on every graph, shows at most 10000 items, and unless it says
  that it was truncated it has shown every event.
\<close>

section \<open>The summary as text\<close>

text \<open>\<open>shlex.join\<close>\<close>

definition shell_safe :: "nat \<Rightarrow> bool" where
  "shell_safe c \<longleftrightarrow> 48 \<le> c \<and> c \<le> 57 \<or> 65 \<le> c \<and> c \<le> 90 \<or> 97 \<le> c \<and> c \<le> 122 \<or>
     c \<in> set [95, 64, 37, 43, 61, 58, 44, 46, 47, 45]"

definition shell_quote :: "pystr \<Rightarrow> pystr" where
  "shell_quote s = (if s = [] then [39, 39] else if list_all shell_safe s then s
     else [39] @ concat (map (\<lambda>c. if c = 39 then [39, 34, 39, 34, 39] else [c]) s) @ [39])"

definition shell_join :: "pystr list \<Rightarrow> pystr" where
  "shell_join parts = join (lit '' '') (map shell_quote parts)"

definition format_outcome :: "execution_summary \<Rightarrow> pystr" where
  "format_outcome s = (case sum_exit_code s of
     None \<Rightarrow> if sum_finished_at_ns s = None then lit ''in progress'' else lit ''unknown (no exit status)''
   | Some x \<Rightarrow>
       if x < 0 then cat [lit ''failed (signal '', int_text (- x), lit '')'']
       else if x = 0 then lit ''success (exit 0)''
       else cat [lit ''failed (exit '', int_text x, lit '')''])"

definition format_runtime :: "execution_summary \<Rightarrow> pystr" where
  "format_runtime s = (case sum_wall_time_seconds s of
     Some w \<Rightarrow> fmt_fixed 3 w @ lit ''s''
   | None \<Rightarrow> if sum_finished_at_ns s = None \<and> sum_exit_code s = None then lit ''in progress'' else lit ''unknown'')"

definition format_cpu :: "execution_summary \<Rightarrow> pystr" where
  "format_cpu s = (case (sum_cpu_user_seconds s, sum_cpu_system_seconds s) of
     (Some u, Some v) \<Rightarrow> cat [fmt_fixed 3 u, lit ''s user, '', fmt_fixed 3 v, lit ''s system'']
   | _ \<Rightarrow> lit ''unknown'')"

definition format_output :: "stream_summary \<Rightarrow> pystr" where
  "format_output s = (case (ss_bytes s, ss_sha256 s) of
     (Some n, Some digest) \<Rightarrow>
       cat [int_text n, lit '' B, sha256:'', take 12 digest,
         (case ss_complete s of None \<Rightarrow> lit '' (completeness unknown)''
          | Some False \<Rightarrow> lit '' (incomplete: pipe remained open after exit)''
          | Some True \<Rightarrow> [])]
   | _ \<Rightarrow> lit ''unknown'')"

definition format_bytes :: "int \<Rightarrow> pystr res" where
  "format_bytes n =
     (if n < 1024 then Inr (int_text n @ lit '' B'')
      else if n < 1024 ^ 2 then rbind (int_truediv n 1024) (\<lambda>x. Inr (fmt_fixed 1 x @ lit '' KiB''))
      else rbind (int_truediv n (1024 ^ 2)) (\<lambda>x. Inr (fmt_fixed 1 x @ lit '' MiB'')))"

definition relay_error_summary :: "(nat \<Rightarrow> bool) \<Rightarrow> pystr \<Rightarrow> pystr option \<Rightarrow> pystr option" where
  "relay_error_summary printable stream e =
     map_option (\<lambda>m. cat [stream, lit '' relay: failed ('', terminal_text printable m, lit '')'']) e"

definition causality_summary :: "int option \<Rightarrow> pystr option" where
  "causality_summary n = (case n of None \<Rightarrow> Some (lit ''causality: invalid OTLP completeness metadata'')
     | Some k \<Rightarrow> if k = 0 then None
         else Some (cat [lit ''causality: '', int_text k, lit '' unresolved OTLP references'']))"

definition semantic_completeness_summary :: "int option \<Rightarrow> pystr option" where
  "semantic_completeness_summary n = (case n of
       None \<Rightarrow> Some (lit ''semantics: invalid OTLP dropped-attribute metadata'')
     | Some k \<Rightarrow> if k = 0 then None
         else Some (cat [lit ''semantics: '', int_text k, lit '' exporter-dropped OTLP attributes'']))"

definition record_count :: "execution_summary \<Rightarrow> string \<Rightarrow> pystr" where
  "record_count s table = int_text (dget_or (sum_record_counts s) (lit table) 0)"

definition render_summary_text :: "(nat \<Rightarrow> bool) \<Rightarrow> execution_summary \<Rightarrow> pystr res" where
  "render_summary_text printable s =
     (let tt = terminal_text printable in
      rbind (case sum_peak_memory_bytes s of None \<Rightarrow> Inr (lit ''unknown'') | Some n \<Rightarrow> format_bytes n) (\<lambda>peak.
      Inr (join [10] (List.map_filter (\<lambda>l. l)
        [Some (lit ''RUN '' @ tt (sum_name s)),
         Some (lit ''id:       '' @ tt (sum_id s)),
         Some (cat [lit ''schema:   '', tt (sum_schema_version s), lit '' (producer '', tt (sum_producer_version s), lit '')'']),
         Some (lit ''command:  '' @ (if sum_command s = [] then lit ''(telemetry import)'' else tt (shell_join (sum_command s)))),
         Some (lit ''revision: '' @ tt (case sum_revision s of None \<Rightarrow> lit ''unknown'' | Some r \<Rightarrow> if r = [] then lit ''unknown'' else r)),
         Some (lit ''outcome:  '' @ format_outcome s),
         Some (lit ''runtime:  '' @ format_runtime s),
         Some (lit ''cpu:      '' @ format_cpu s),
         Some (cat [lit ''memory:   '', peak, lit '' peak'']),
         Some (lit ''stdout:   '' @ format_output (sum_stdout s)),
         Some (lit ''stderr:   '' @ format_output (sum_stderr s)),
         relay_error_summary printable (lit ''stdout'') (ss_relay_error (sum_stdout s)),
         relay_error_summary printable (lit ''stderr'') (ss_relay_error (sum_stderr s)),
         (case sum_annotation_error s of None \<Rightarrow> None
          | Some e \<Rightarrow> if e = [] then None else Some (cat [lit ''annotations: ignored ('', tt e, lit '')''])),
         causality_summary (sum_missing_causal_references s),
         semantic_completeness_summary (sum_dropped_attribute_count s),
         Some (cat [lit ''records:  '', record_count s ''entities'', lit '' entities, '',
           record_count s ''events'', lit '' events, '', record_count s ''causal_edges'', lit '' edges, '',
           record_count s ''measurements'', lit '' measurements, '',
           record_count s ''attachments'', lit '' attachments''])]))))"

section \<open>The causal structure\<close>

definition max_tree_indent_depth :: nat where
  "max_tree_indent_depth = 40"

definition max_causal_tree_items :: int where
  "max_causal_tree_items = 10000"

definition profile_event_kinds :: "pystr list" where
  "profile_event_kinds = [lit ''python.call.aggregate'', lit ''python.callsite'']"

text \<open>A dictionary comprehension over ids keeps the last event of an id.\<close>

definition events_by_id :: "event list \<Rightarrow> (pystr, event) dict" where
  "events_by_id vs = fold (\<lambda>v. dset (ev_id v) v) vs []"

definition visible_step :: "(pystr, event) dict \<Rightarrow> causal_edge \<Rightarrow> pystr list \<Rightarrow> pystr list" where
  "visible_step by_id g visible =
     (if edge_kind g \<noteq> lit ''performs'' \<or> edge_target g \<notin> set visible then visible
      else (case dget by_id (edge_source g) of
          Some v \<Rightarrow> if ev_kind v = lit ''python.callsite'' then ev_id v # visible else visible
        | None \<Rightarrow> visible))"

definition semantic_causal_graph :: "event list \<Rightarrow> causal_edge list \<Rightarrow> event list \<times> causal_edge list" where
  "semantic_causal_graph vs gs =
     (let by_id = events_by_id vs;
          visible = fold (visible_step by_id) gs
            (map ev_id (filter (\<lambda>v. ev_kind v \<notin> set profile_event_kinds) vs))
      in (filter (\<lambda>v. ev_id v \<in> set visible) vs,
          filter (\<lambda>g. edge_kind g \<noteq> lit ''calls'' \<and> edge_source g \<in> set visible \<and> edge_target g \<in> set visible) gs))"

definition event_duration :: "event \<Rightarrow> pystr res" where
  "event_duration v = (case (ev_started_at_ns v, ev_finished_at_ns v) of
     (Some s, Some f) \<Rightarrow> rbind (int_truediv (f - s) 1000000) (\<lambda>x. Inr (fmt_fixed 3 x @ lit ''ms''))
   | _ \<Rightarrow> Inr (lit ''duration unknown''))"

definition event_status :: "(nat \<Rightarrow> bool) \<Rightarrow> event \<Rightarrow> pystr" where
  "event_status printable v =
     (if dget (ev_attributes v) (lit ''error'') \<noteq> Some (JBool True) then []
      else lit '', error '' @ (case dget (ev_attributes v) (lit ''error.type'') of
          Some (JStr s) \<Rightarrow> terminal_text printable s | _ \<Rightarrow> lit ''unknown''))"

text \<open>\<open>children[source].append(target)\<close> and \<open>incoming.add(target)\<close> for the edges between shown events.\<close>

definition tree_edges :: "(pystr, event) dict \<Rightarrow> causal_edge list \<Rightarrow> (pystr \<times> pystr) list" where
  "tree_edges by_id gs = map (\<lambda>g. (edge_source g, edge_target g))
     (filter (\<lambda>g. has_key by_id (edge_source g) \<and> has_key by_id (edge_target g)) gs)"

definition tree_sort_key :: "bool \<Rightarrow> (pystr, event) dict \<Rightarrow> pystr \<Rightarrow> int \<times> int \<times> pystr" where
  "tree_sort_key raw by_id i = (case dget by_id i of
     Some v \<Rightarrow> (if \<not> raw \<and> ev_kind v = lit ''python.callsite'' then 1 else 0,
                case ev_started_at_ns v of None \<Rightarrow> - 1 | Some s \<Rightarrow> s, ev_name v)
   | None \<Rightarrow> (0, 0, []))"

definition tree_children :: "bool \<Rightarrow> (pystr, event) dict \<Rightarrow> (pystr \<times> pystr) list \<Rightarrow> pystr \<Rightarrow> pystr list" where
  "tree_children raw by_id es i = sort_key (tree_sort_key raw by_id) (map snd (filter (\<lambda>e. fst e = i) es))"

definition tree_roots :: "bool \<Rightarrow> (pystr, event) dict \<Rightarrow> (pystr \<times> pystr) list \<Rightarrow> event list \<Rightarrow> pystr list" where
  "tree_roots raw by_id es vs = sort_key (tree_sort_key raw by_id)
     (map ev_id (filter (\<lambda>v. ev_id v \<notin> snd ` set es) vs))"

subsection \<open>The walk\<close>

record tree_state =
  ts_lines :: "(pystr \<times> nat \<times> pystr) list"
  ts_visited :: "pystr list"
  ts_items :: int
  ts_truncated :: bool

definition tree_marker :: "pystr list \<Rightarrow> tree_state \<Rightarrow> pystr \<Rightarrow> pystr" where
  "tree_marker active st cur =
     (if cur \<in> set active then lit '' (cycle)''
      else if cur \<in> set (ts_visited st) then lit '' (already shown)'' else [])"

text \<open>
  The stack of \<open>append_tree\<close>, top first; an item is an id, its depth and whether the walk
  leaves it. A line is kept as its event, depth and marker until it is rendered.
\<close>

function walk_tree ::
  "(pystr \<Rightarrow> pystr list) \<Rightarrow> (pystr \<times> nat \<times> bool) list \<Rightarrow> pystr list \<Rightarrow> tree_state \<Rightarrow> tree_state"
where
  "walk_tree kids [] active st = st"
| "walk_tree kids ((cur, depth, exiting) # stack) active st =
     (if exiting then walk_tree kids stack (remove1 cur active) st
      else if max_causal_tree_items \<le> ts_items st then st\<lparr>ts_truncated := True\<rparr>
      else (let marker = tree_marker active st cur;
                st' = st\<lparr>ts_items := ts_items st + 1, ts_lines := ts_lines st @ [(cur, depth, marker)]\<rparr>
            in if marker \<noteq> [] then walk_tree kids stack active st'
               else walk_tree kids (map (\<lambda>c. (c, depth + 1, False)) (kids cur) @ (cur, depth, True) # stack)
                      (cur # active) (st'\<lparr>ts_visited := cur # ts_visited st'\<rparr>)))"
  by pat_completeness auto
termination
  by (relation "measures [\<lambda>(kids, stack, active, st). nat (max_causal_tree_items - ts_items st),
        \<lambda>(kids, stack, active, st). length stack]") auto

definition append_tree :: "(pystr \<Rightarrow> pystr list) \<Rightarrow> pystr \<Rightarrow> tree_state \<Rightarrow> tree_state" where
  "append_tree kids i st = walk_tree kids [(i, 0, False)] [] st"

fun append_roots :: "(pystr \<Rightarrow> pystr list) \<Rightarrow> pystr list \<Rightarrow> tree_state \<Rightarrow> tree_state" where
  "append_roots kids [] st = st"
| "append_roots kids (i # is) st =
     (let st' = append_tree kids i st in if ts_truncated st' then st' else append_roots kids is st')"

fun append_rest :: "(pystr \<Rightarrow> pystr list) \<Rightarrow> pystr list \<Rightarrow> tree_state \<Rightarrow> tree_state" where
  "append_rest kids [] st = st"
| "append_rest kids (i # is) st =
     (if ts_truncated st then st
      else append_rest kids is (if i \<in> set (ts_visited st) then st else append_tree kids i st))"

definition initial_tree :: tree_state where
  "initial_tree = \<lparr>ts_lines = [], ts_visited = [], ts_items = 0, ts_truncated = False\<rparr>"

definition causal_tree :: "bool \<Rightarrow> event list \<Rightarrow> causal_edge list \<Rightarrow> tree_state" where
  "causal_tree raw vs gs =
     (let by_id = events_by_id vs; es = tree_edges by_id gs; kids = tree_children raw by_id es
      in append_rest kids (map ev_id vs) (append_roots kids (tree_roots raw by_id es vs) initial_tree))"

subsection \<open>Rendering\<close>

text \<open>\<open>f"{n:,}"\<close>\<close>

fun group_thousands :: "pystr \<Rightarrow> pystr" where
  "group_thousands ds = (if length ds \<le> 3 then ds
     else group_thousands (take (length ds - 3) ds) @ lit '','' @ drop (length ds - 3) ds)"

declare group_thousands.simps [simp del]

definition tree_line ::
  "(nat \<Rightarrow> bool) \<Rightarrow> bool \<Rightarrow> (pystr, pystr) dict \<Rightarrow> (pystr, event) dict \<Rightarrow> pystr \<times> nat \<times> pystr \<Rightarrow> pystr res"
where
  "tree_line printable raw entity_names by_id = (\<lambda>(i, depth, marker).
     (case dget by_id i of None \<Rightarrow> Inl KeyError
      | Some v \<Rightarrow>
        (let service = terminal_text printable (dget_or entity_names
               (case ev_entity_id v of None \<Rightarrow> [] | Some e \<Rightarrow> e) (lit ''unowned''));
             indent = concat (replicate (min depth max_tree_indent_depth) (lit ''  ''));
             depth_marker = (if max_tree_indent_depth < depth
               then cat [[ellipsis], lit '' depth '', int_text (int depth), lit '' '', [ellipsis], lit '' ''] else [])
         in rbind
              (if \<not> raw \<and> ev_kind v = lit ''python.callsite''
               then Inr (cat [service, lit '' :: '', terminal_text printable (ev_name v), lit '' [application callsite]'', marker])
               else rbind (event_duration v) (\<lambda>duration.
                 Inr (cat [service, lit '' :: '', terminal_text printable (ev_name v), lit '' ['',
                   terminal_text printable (ev_kind v), lit ''] '', duration,
                   if raw then [] else event_status printable v, marker])))
              (\<lambda>label. Inr (cat [indent, depth_marker, label])))))"

definition link_line :: "(nat \<Rightarrow> bool) \<Rightarrow> (pystr, event) dict \<Rightarrow> causal_edge \<Rightarrow> pystr option" where
  "link_line printable by_id g = (case (dget by_id (edge_source g), dget by_id (edge_target g)) of
     (Some s, Some t) \<Rightarrow> Some (cat [lit ''  '', terminal_text printable (ev_name s), [32, 8594, 32],
        terminal_text printable (ev_name t), lit '' ['', terminal_text printable (edge_kind g),
        lit '', confidence '', fmt_fixed 2 (edge_confidence g), lit '']''])
   | _ \<Rightarrow> None)"

definition link_lines :: "(nat \<Rightarrow> bool) \<Rightarrow> (pystr, event) dict \<Rightarrow> causal_edge list \<Rightarrow> pystr list" where
  "link_lines printable by_id others =
     (if others = [] then []
      else lit ''CAUSAL LINKS'' #
        List.map_filter (link_line printable by_id) (take (nat max_causal_tree_items) others) @
        (let omitted = int (length others) - max_causal_tree_items
         in if 0 < omitted then [cat [lit ''  '', [ellipsis], lit '' '', group_thousands (digits omitted),
              lit '' additional links omitted from text output'']] else []))"

definition render_causal_tree_reader :: "(nat \<Rightarrow> bool) \<Rightarrow> bool \<Rightarrow> reader \<Rightarrow> pystr res" where
  "render_causal_tree_reader printable raw rd =
     rbind (read_events rd) (\<lambda>events0.
     rbind (read_causal_edges rd) (\<lambda>edges0.
     rbind (read_entities rd) (\<lambda>entities.
       let (events, all_edges) = (if raw then (events0, edges0) else semantic_causal_graph events0 edges0);
           entity_names = fold (\<lambda>e. dset (ent_id e) (ent_name e)) entities [];
           hierarchy = (if raw then [lit ''parent''] else [lit ''parent'', lit ''performs'']);
           edges = filter (\<lambda>g. edge_kind g \<in> set hierarchy) all_edges;
           others = filter (\<lambda>g. edge_kind g \<notin> set hierarchy) all_edges;
           by_id = events_by_id events;
           st = causal_tree raw events edges
       in rbind (traverse (tree_line printable raw entity_names by_id) (ts_lines st)) (\<lambda>tree_lines.
          Inr (join [10] ([lit ''CAUSAL STRUCTURE''] @ tree_lines @
            (if ts_truncated st
             then [cat [lit ''  '', [ellipsis], lit '' additional causal structure omitted from text output'']] else []) @
            link_lines printable by_id others @
            [lit ''clock inconsistencies: '' @ int_text (clock_inconsistency_count rd)]))))))"

section \<open>What the walk shows\<close>

lemma walk_tree_visited_mono: "set (ts_visited st) \<subseteq> set (ts_visited (walk_tree kids stack active st))"
proof (induction kids stack active st rule: walk_tree.induct)
  case (2 kids cur depth exiting stack active st)
  then show ?case by (auto simp: Let_def split: if_splits)
qed simp

text \<open>Lines and items agree, the bound holds, and an event is shown in full at most once.\<close>

definition tree_inv :: "tree_state \<Rightarrow> bool" where
  "tree_inv st \<longleftrightarrow> ts_items st = int (length (ts_lines st)) \<and> ts_items st \<le> max_causal_tree_items \<and>
     distinct (ts_visited st) \<and> map fst (filter (\<lambda>l. snd (snd l) = []) (ts_lines st)) = rev (ts_visited st)"

lemma walk_tree_inv: "tree_inv st \<Longrightarrow> tree_inv (walk_tree kids stack active st)"
proof (induction kids stack active st rule: walk_tree.induct)
  case (2 kids cur depth exiting stack active st)
  show ?case
  proof (cases "exiting \<or> max_causal_tree_items \<le> ts_items st")
    case True
    with 2 show ?thesis by (auto simp: tree_inv_def)
  next
    case False
    let ?marker = "tree_marker active st cur"
    let ?st = "st\<lparr>ts_items := ts_items st + 1, ts_lines := ts_lines st @ [(cur, depth, ?marker)]\<rparr>"
    show ?thesis
    proof (cases "?marker = []")
      case True
      then have "cur \<notin> set (ts_visited st)" by (auto simp: tree_marker_def split: if_splits)
      with 2 False True have "tree_inv (?st\<lparr>ts_visited := cur # ts_visited ?st\<rparr>)"
        by (auto simp: tree_inv_def)
      with 2 False True show ?thesis by (simp add: Let_def)
    next
      case marked: False
      with 2 False have "tree_inv ?st" by (auto simp: tree_inv_def)
      with 2 False marked show ?thesis by (simp add: Let_def)
    qed
  qed
qed simp

lemma walk_tree_truncated_mono: "ts_truncated st \<Longrightarrow> ts_truncated (walk_tree kids stack active st)"
  by (induction kids stack active st rule: walk_tree.induct) (auto simp: Let_def)

lemma walk_tree_covers:
  "\<not> ts_truncated (walk_tree kids stack active st) \<Longrightarrow> set active \<subseteq> set (ts_visited st) \<Longrightarrow>
     (c, d, False) \<in> set stack \<Longrightarrow> c \<in> set (ts_visited (walk_tree kids stack active st))"
proof (induction kids stack active st arbitrary: c d rule: walk_tree.induct)
  case (2 kids cur depth exiting stack active st)
  show ?case
  proof (cases exiting)
    case True
    have "set (remove1 cur active) \<subseteq> set (ts_visited st)" using "2.prems"(2) set_remove1_subset by fast
    with 2 True show ?thesis by auto
  next
    case False
    with "2.prems"(1) have room: "\<not> max_causal_tree_items \<le> ts_items st" by auto
    let ?marker = "tree_marker active st cur"
    let ?st = "st\<lparr>ts_items := ts_items st + 1, ts_lines := ts_lines st @ [(cur, depth, ?marker)]\<rparr>"
    show ?thesis
    proof (cases "?marker = []")
      case True
      let ?v = "?st\<lparr>ts_visited := cur # ts_visited ?st\<rparr>"
      let ?stack = "map (\<lambda>c. (c, depth + 1, False)) (kids cur) @ (cur, depth, True) # stack"
      have run: "walk_tree kids ((cur, depth, exiting) # stack) active st = walk_tree kids ?stack (cur # active) ?v"
        using False room True by (simp add: Let_def)
      have cur: "cur \<in> set (ts_visited (walk_tree kids ?stack (cur # active) ?v))"
        using walk_tree_visited_mono [of ?v kids ?stack "cur # active"] by auto
      have "c \<in> set (ts_visited (walk_tree kids ?stack (cur # active) ?v))" if "(c, d, False) \<in> set stack"
        by (rule "2.IH"(3) [OF False room refl refl]) (use "2.prems" run that True in auto)
      with cur run "2.prems"(3) show ?thesis by auto
    next
      case marked: False
      then have "cur \<in> set (ts_visited st)"
        using "2.prems"(2) by (auto simp: tree_marker_def split: if_splits)
      then have cur: "cur \<in> set (ts_visited (walk_tree kids stack active ?st))"
        using walk_tree_visited_mono [of ?st kids stack active] by auto
      have run: "walk_tree kids ((cur, depth, exiting) # stack) active st = walk_tree kids stack active ?st"
        using False room marked by (simp add: Let_def)
      have "c \<in> set (ts_visited (walk_tree kids stack active ?st))" if "(c, d, False) \<in> set stack"
        by (rule "2.IH"(2) [OF False room refl refl]) (use "2.prems" run that marked in auto)
      with cur run "2.prems"(3) show ?thesis by auto
    qed
  qed
qed simp

lemma append_tree_covers: "\<not> ts_truncated (append_tree kids i st) \<Longrightarrow> i \<in> set (ts_visited (append_tree kids i st))"
  unfolding append_tree_def by (rule walk_tree_covers [of kids _ _ _ i 0]) auto

lemma append_tree_mono: "set (ts_visited st) \<subseteq> set (ts_visited (append_tree kids i st))"
  unfolding append_tree_def by (rule walk_tree_visited_mono)

lemma append_tree_inv: "tree_inv st \<Longrightarrow> tree_inv (append_tree kids i st)"
  unfolding append_tree_def by (rule walk_tree_inv)

lemma append_roots_inv: "tree_inv st \<Longrightarrow> tree_inv (append_roots kids is st)"
  by (induction kids "is" st rule: append_roots.induct) (auto simp: Let_def append_tree_inv)

lemma append_rest_inv: "tree_inv st \<Longrightarrow> tree_inv (append_rest kids is st)"
  by (induction kids "is" st rule: append_rest.induct) (auto simp: append_tree_inv)

lemma append_rest_mono: "set (ts_visited st) \<subseteq> set (ts_visited (append_rest kids is st))"
  by (induction kids "is" st rule: append_rest.induct) (use append_tree_mono in fastforce)+

lemma append_rest_truncated: "ts_truncated st \<Longrightarrow> append_rest kids is st = st"
  by (cases "is") auto

lemma append_rest_covers:
  "\<not> ts_truncated (append_rest kids is st) \<Longrightarrow> set is \<subseteq> set (ts_visited (append_rest kids is st))"
proof (induction kids "is" st rule: append_rest.induct)
  case (2 kids i "is" st)
  let ?st = "if i \<in> set (ts_visited st) then st else append_tree kids i st"
  have not: "\<not> ts_truncated st" using "2.prems" append_rest_truncated by (cases "ts_truncated st") auto
  then have run: "append_rest kids (i # is) st = append_rest kids is ?st" by simp
  have "\<not> ts_truncated ?st"
    using "2.prems" run append_rest_truncated [of ?st kids "is"] by (cases "ts_truncated ?st") auto
  then have "i \<in> set (ts_visited ?st)" using append_tree_covers by auto
  then have "i \<in> set (ts_visited (append_rest kids is ?st))" using append_rest_mono by blast
  moreover have "set is \<subseteq> set (ts_visited (append_rest kids is ?st))"
    using "2.IH" [OF not] "2.prems" run by simp
  ultimately show ?case using run by simp
qed simp

section \<open>Properties\<close>

text \<open>C25. The rendering of the causal structure is bounded and complete: on any events and edges (with
  cycles, shared children or unreachable events) it shows at most 10000 items, no event in full
  more than once, and, unless it reports that it was truncated, every event.\<close>

theorem causal_tree_bounded_and_complete:
  "(let st = causal_tree raw vs gs in
     int (length (ts_lines st)) \<le> max_causal_tree_items \<and>
     distinct (map fst (filter (\<lambda>l. snd (snd l) = []) (ts_lines st))) \<and>
     (ts_truncated st \<or> set (map ev_id vs) \<subseteq> fst ` set (ts_lines st)))"
proof -
  define st where "st = causal_tree raw vs gs"
  have inv: "tree_inv st"
    unfolding st_def causal_tree_def Let_def
    by (intro append_rest_inv append_roots_inv) (simp add: tree_inv_def initial_tree_def max_causal_tree_items_def)
  have "set (map ev_id vs) \<subseteq> set (ts_visited st)" if "\<not> ts_truncated st"
    using that unfolding st_def causal_tree_def Let_def by (rule append_rest_covers)
  moreover have "set (ts_visited st) \<subseteq> fst ` set (ts_lines st)"
  proof -
    have "set (ts_visited st) = set (map fst (filter (\<lambda>l. snd (snd l) = []) (ts_lines st)))"
      using inv by (simp add: tree_inv_def)
    then show ?thesis by auto
  qed
  ultimately show ?thesis using inv unfolding st_def [symmetric] Let_def
    by (auto simp: tree_inv_def)
qed

end
