(* ===== verification/RunDiff.thy ===== *)
theory RunDiff
  imports Inspect
begin

text \<open>
  \<open>rundiff/compare.py\<close>: the facts of a comparison of two runs. The analysis of a run
  (\<open>batchscope.analysis.analyze_reader\<close>) is an argument; what a comparison uses of it is the
  record \<open>analysis_view\<close>. The fields of \<open>ExecutionDiff\<close> that come in a baseline and a
  candidate version are the two values of one record \<open>diff_side\<close>. Python enumerates the
  union of two key sets in an arbitrary order, so the functions over it take the
  enumeration as an argument (\<open>..._from\<close>); the lists of changes are proved not to depend
  on it, with one exception.
\<close>

section \<open>Changes\<close>

record value_change =
  vc_baseline :: "pyfloat option"
  vc_candidate :: "pyfloat option"
  vc_percent :: "pyfloat option"

record entity_count_change =
  ec_entity_kind :: pystr
  ec_entity_name :: pystr
  ec_baseline :: int
  ec_candidate :: int

definition entity_change_kind :: "entity_count_change \<Rightarrow> pystr" where
  "entity_change_kind c =
     (if ec_baseline c = 0 then lit ''added'' else if ec_candidate c = 0 then lit ''removed'' else lit ''changed'')"

record operation_count_change =
  oc_entity_kind :: pystr
  oc_entity_name :: pystr
  oc_operation_kind :: pystr
  oc_operation_name :: pystr
  oc_baseline :: int
  oc_candidate :: int
  oc_percent :: "pyfloat option"

record operation_concurrency_change =
  cc_entity_kind :: pystr
  cc_entity_name :: pystr
  cc_operation_kind :: pystr
  cc_operation_name :: pystr
  cc_baseline :: int
  cc_candidate :: int
  cc_percent :: "pyfloat option"

record operation_duration_change =
  dc_entity_kind :: pystr
  dc_entity_name :: pystr
  dc_operation_kind :: pystr
  dc_operation_name :: pystr
  dc_baseline_seconds :: pyfloat
  dc_candidate_seconds :: pyfloat
  dc_percent :: "pyfloat option"

record edge_count_change =
  gc_source_kind :: pystr
  gc_source_name :: pystr
  gc_target_kind :: pystr
  gc_target_name :: pystr
  gc_relation :: pystr
  gc_baseline :: int
  gc_candidate :: int

definition edge_change_kind :: "edge_count_change \<Rightarrow> pystr" where
  "edge_change_kind c =
     (if gc_baseline c = 0 then lit ''new'' else if gc_candidate c = 0 then lit ''removed'' else lit ''changed'')"

record environment_change =
  nc_variable :: pystr
  nc_baseline_present :: bool
  nc_candidate_present :: bool

definition environment_change_kind :: "environment_change \<Rightarrow> pystr" where
  "environment_change_kind c =
     (if \<not> nc_baseline_present c then lit ''added'' else if \<not> nc_candidate_present c then lit ''removed''
      else lit ''changed'')"

record execution_reference =
  ref_id :: pystr
  ref_name :: pystr
  ref_exit_code :: "int option"

section \<open>Numbers\<close>

text \<open>\<open>_percent\<close> on integers and on floats: \<open>(candidate - baseline) / baseline * 100\<close>.\<close>

definition finite_percent :: "pyfloat \<Rightarrow> pyfloat option" where
  "finite_percent p = (if isfinite p then Some p else None)"

definition percent_int :: "int \<Rightarrow> int \<Rightarrow> pyfloat option res" where
  "percent_int baseline candidate =
     (if baseline = 0 then Inr None
      else rbind (int_truediv (candidate - baseline) baseline) (\<lambda>r. Inr (finite_percent (fmul r (Fin 100)))))"

definition percent_float :: "pyfloat \<Rightarrow> pyfloat \<Rightarrow> pyfloat option res" where
  "percent_float baseline candidate =
     (if feq baseline (Fin 0) then Inr None
      else rbind (fdiv (fsub candidate baseline) baseline) (\<lambda>r. Inr (finite_percent (fmul r (Fin 100)))))"

definition value_change_float :: "pyfloat option \<Rightarrow> pyfloat option \<Rightarrow> value_change res" where
  "value_change_float b c =
     rbind (case (b, c) of (Some x, Some y) \<Rightarrow> percent_float x y | _ \<Rightarrow> Inr None) (\<lambda>p.
     Inr \<lparr>vc_baseline = b, vc_candidate = c, vc_percent = p\<rparr>)"

definition opt_float :: "int option \<Rightarrow> pyfloat option res" where
  "opt_float x = (case x of None \<Rightarrow> Inr None | Some i \<Rightarrow> rbind (float_of_int i) (\<lambda>v. Inr (Some v)))"

definition value_change_int :: "int option \<Rightarrow> int option \<Rightarrow> value_change res" where
  "value_change_int b c =
     rbind (opt_float b) (\<lambda>b'. rbind (opt_float c) (\<lambda>c'.
     rbind (case (b, c) of (Some x, Some y) \<Rightarrow> percent_int x y | _ \<Rightarrow> Inr None) (\<lambda>p.
     Inr \<lparr>vc_baseline = b', vc_candidate = c', vc_percent = p\<rparr>)))"

section \<open>Equivalence\<close>

definition known_equivalence :: "int option \<Rightarrow> int option \<Rightarrow> bool option" where
  "known_equivalence b c = (case (b, c) of (Some x, Some y) \<Rightarrow> Some (x = y) | _ \<Rightarrow> None)"

definition cpu_time :: "execution_summary \<Rightarrow> pyfloat option" where
  "cpu_time s = (case (sum_cpu_user_seconds s, sum_cpu_system_seconds s) of
     (Some u, Some v) \<Rightarrow> if isfinite (fadd u v) then Some (fadd u v) else None
   | _ \<Rightarrow> None)"

definition output_equivalence :: "stream_summary \<Rightarrow> stream_summary \<Rightarrow> bool option" where
  "output_equivalence b c =
     (case (ss_bytes b, ss_sha256 b, ss_bytes c, ss_sha256 c) of
        (Some bn, Some bd, Some cn, Some cd) \<Rightarrow>
          if ss_complete b = Some True \<and> ss_complete c = Some True then Some (bn = cn \<and> bd = cd) else None
      | _ \<Rightarrow> None)"

definition incomplete_streams :: "execution_summary \<Rightarrow> pystr list" where
  "incomplete_streams s =
     (if ss_complete (sum_stdout s) = Some False then [lit ''stdout''] else []) @
     (if ss_complete (sum_stderr s) = Some False then [lit ''stderr''] else [])"

text \<open>The status and the dropped count of one capture, or neither.\<close>

type_synonym capture_summary = "(pystr \<times> int option) option"

definition capture_observation :: "capture_summary \<Rightarrow> pystr option \<times> int option" where
  "capture_observation s = (case s of None \<Rightarrow> (None, None) | Some (status, dropped) \<Rightarrow> (Some status, dropped))"

definition absent_status :: "pystr option \<Rightarrow> bool" where
  "absent_status s \<longleftrightarrow> s = None \<or> s = Some (lit ''unavailable'')"

definition optional_semantic_observation_complete :: "pystr option \<Rightarrow> pystr option \<Rightarrow> bool" where
  "optional_semantic_observation_complete b c \<longleftrightarrow>
     absent_status b \<and> absent_status c \<or> b = Some (lit ''complete'') \<and> c = Some (lit ''complete'')"

definition semantic_observation_complete :: "pystr option \<Rightarrow> pystr option \<Rightarrow> bool" where
  "semantic_observation_complete b c \<longleftrightarrow>
     b = None \<and> c = None \<or> b = Some (lit ''complete'') \<and> c = Some (lit ''complete'')"

definition outcome_of :: "bool option list \<Rightarrow> pystr" where
  "outcome_of es =
     (if list_ex (\<lambda>e. e = Some False) es then lit ''different''
      else if list_all (\<lambda>e. e = Some True) es then lit ''equivalent'' else lit ''unknown'')"

section \<open>Lists of changes\<close>

text \<open>An enumeration of \<open>baseline.keys() | candidate.keys()\<close>.\<close>

definition union_keys :: "('k, 'v) dict \<Rightarrow> ('k, 'v) dict \<Rightarrow> 'k list" where
  "union_keys b c = remdups (map fst b @ map fst c)"

definition operation_change_key :: "operation_count_change \<Rightarrow> int \<times> pystr \<times> pystr \<times> pystr \<times> pystr" where
  "operation_change_key c = (- \<bar>oc_candidate c - oc_baseline c\<bar>,
     oc_entity_kind c, oc_entity_name c, oc_operation_kind c, oc_operation_name c)"

definition operation_change_of ::
  "(operation, int) dict \<Rightarrow> (operation, int) dict \<Rightarrow> operation \<Rightarrow> operation_count_change res" where
  "operation_change_of baseline candidate key = (case key of (ek, en, vk, vn) \<Rightarrow>
     rbind (percent_int (dget_or baseline key 0) (dget_or candidate key 0)) (\<lambda>p.
     Inr \<lparr>oc_entity_kind = ek, oc_entity_name = en, oc_operation_kind = vk, oc_operation_name = vn,
       oc_baseline = dget_or baseline key 0, oc_candidate = dget_or candidate key 0, oc_percent = p\<rparr>))"

definition operation_changes_from ::
  "operation list \<Rightarrow> (operation, int) dict \<Rightarrow> (operation, int) dict \<Rightarrow> operation_count_change list res" where
  "operation_changes_from keys baseline candidate =
     rbind (traverse (operation_change_of baseline candidate)
        (filter (\<lambda>k. dget_or baseline k 0 \<noteq> dget_or candidate k 0) keys))
       (\<lambda>cs. Inr (sort_key operation_change_key cs))"

definition operation_changes ::
  "(operation, int) dict \<Rightarrow> (operation, int) dict \<Rightarrow> operation_count_change list res" where
  "operation_changes baseline candidate =
     operation_changes_from (union_keys baseline candidate) baseline candidate"

definition entity_change_rank :: "entity_count_change \<Rightarrow> int" where
  "entity_change_rank c = (if entity_change_kind c = lit ''added'' then 0
     else if entity_change_kind c = lit ''removed'' then 1 else 2)"

definition entity_change_key :: "entity_count_change \<Rightarrow> int \<times> int \<times> pystr \<times> pystr" where
  "entity_change_key c = (entity_change_rank c, - \<bar>ec_candidate c - ec_baseline c\<bar>, ec_entity_kind c, ec_entity_name c)"

definition entity_change_of ::
  "(pystr \<times> pystr, int) dict \<Rightarrow> (pystr \<times> pystr, int) dict \<Rightarrow> pystr \<times> pystr \<Rightarrow> entity_count_change" where
  "entity_change_of baseline candidate key =
     \<lparr>ec_entity_kind = fst key, ec_entity_name = snd key,
      ec_baseline = dget_or baseline key 0, ec_candidate = dget_or candidate key 0\<rparr>"

definition entity_changes_from ::
  "(pystr \<times> pystr) list \<Rightarrow> (pystr \<times> pystr, int) dict \<Rightarrow> (pystr \<times> pystr, int) dict \<Rightarrow> entity_count_change list" where
  "entity_changes_from keys baseline candidate = sort_key entity_change_key
     (map (entity_change_of baseline candidate)
        (filter (\<lambda>k. dget_or baseline k 0 \<noteq> dget_or candidate k 0) keys))"

definition entity_changes ::
  "(pystr \<times> pystr, int) dict \<Rightarrow> (pystr \<times> pystr, int) dict \<Rightarrow> entity_count_change list" where
  "entity_changes baseline candidate = entity_changes_from (union_keys baseline candidate) baseline candidate"

text \<open>An operation that ran but has no value on one side is not compared.\<close>

definition not_comparable ::
  "(operation, 'v) dict \<Rightarrow> (operation, 'v) dict \<Rightarrow> (operation, int) dict \<Rightarrow> (operation, int) dict \<Rightarrow> operation \<Rightarrow> bool" where
  "not_comparable baseline candidate baseline_counts candidate_counts key \<longleftrightarrow>
     \<not> has_key baseline key \<and> 0 < dget_or baseline_counts key 0 \<or>
     \<not> has_key candidate key \<and> 0 < dget_or candidate_counts key 0"

definition concurrency_change_key :: "operation_concurrency_change \<Rightarrow> int \<times> pystr \<times> pystr \<times> pystr \<times> pystr" where
  "concurrency_change_key c = (- \<bar>cc_candidate c - cc_baseline c\<bar>,
     cc_entity_kind c, cc_entity_name c, cc_operation_kind c, cc_operation_name c)"

definition concurrency_change_of ::
  "(operation, int) dict \<Rightarrow> (operation, int) dict \<Rightarrow> operation \<Rightarrow> operation_concurrency_change res" where
  "concurrency_change_of baseline candidate key = (case key of (ek, en, vk, vn) \<Rightarrow>
     rbind (percent_int (dget_or baseline key 0) (dget_or candidate key 0)) (\<lambda>p.
     Inr \<lparr>cc_entity_kind = ek, cc_entity_name = en, cc_operation_kind = vk, cc_operation_name = vn,
       cc_baseline = dget_or baseline key 0, cc_candidate = dget_or candidate key 0, cc_percent = p\<rparr>))"

definition concurrency_changes_from ::
  "operation list \<Rightarrow> (operation, int) dict \<Rightarrow> (operation, int) dict \<Rightarrow>
     (operation, int) dict \<Rightarrow> (operation, int) dict \<Rightarrow> operation_concurrency_change list res" where
  "concurrency_changes_from keys baseline candidate baseline_counts candidate_counts =
     rbind (traverse (concurrency_change_of baseline candidate)
        (filter (\<lambda>k. \<not> not_comparable baseline candidate baseline_counts candidate_counts k \<and>
             dget_or baseline k 0 \<noteq> dget_or candidate k 0) keys))
       (\<lambda>cs. Inr (sort_key concurrency_change_key cs))"

definition concurrency_changes ::
  "(operation, int) dict \<Rightarrow> (operation, int) dict \<Rightarrow> (operation, int) dict \<Rightarrow> (operation, int) dict \<Rightarrow>
     operation_concurrency_change list res" where
  "concurrency_changes baseline candidate = concurrency_changes_from (union_keys baseline candidate) baseline candidate"

definition edge_change_rank :: "edge_count_change \<Rightarrow> int" where
  "edge_change_rank c = (if edge_change_kind c = lit ''new'' then 0
     else if edge_change_kind c = lit ''removed'' then 1 else 2)"

definition edge_change_key :: "edge_count_change \<Rightarrow> int \<times> pystr \<times> pystr \<times> pystr" where
  "edge_change_key c = (edge_change_rank c, gc_source_name c, gc_target_name c, gc_relation c)"

type_synonym edge_key5 = "pystr \<times> pystr \<times> pystr \<times> pystr \<times> pystr"

definition edge_change_of :: "(edge_key5, int) dict \<Rightarrow> (edge_key5, int) dict \<Rightarrow> edge_key5 \<Rightarrow> edge_count_change" where
  "edge_change_of baseline candidate key = (case key of (sk, sn, tk, tn, relation) \<Rightarrow>
     \<lparr>gc_source_kind = sk, gc_source_name = sn, gc_target_kind = tk, gc_target_name = tn,
      gc_relation = relation, gc_baseline = dget_or baseline key 0, gc_candidate = dget_or candidate key 0\<rparr>)"

definition edge_changes_from ::
  "edge_key5 list \<Rightarrow> (edge_key5, int) dict \<Rightarrow> (edge_key5, int) dict \<Rightarrow> edge_count_change list" where
  "edge_changes_from keys baseline candidate = sort_key edge_change_key
     (map (edge_change_of baseline candidate)
        (filter (\<lambda>k. dget_or baseline k 0 \<noteq> dget_or candidate k 0) keys))"

definition edge_changes :: "(edge_key5, int) dict \<Rightarrow> (edge_key5, int) dict \<Rightarrow> edge_count_change list" where
  "edge_changes baseline candidate = edge_changes_from (union_keys baseline candidate) baseline candidate"

definition duration_change_key :: "operation_duration_change \<Rightarrow> (int \<times> rat) \<times> pystr \<times> pystr \<times> pystr \<times> pystr" where
  "duration_change_key c = (float_key (fneg (fabs (fsub (dc_candidate_seconds c) (dc_baseline_seconds c)))),
     dc_entity_kind c, dc_entity_name c, dc_operation_kind c, dc_operation_name c)"

definition duration_change_of ::
  "(operation, pyfloat) dict \<Rightarrow> (operation, pyfloat) dict \<Rightarrow> operation \<Rightarrow> operation_duration_change res" where
  "duration_change_of baseline candidate key = (case key of (ek, en, vk, vn) \<Rightarrow>
     rbind (percent_float (dget_or baseline key (Fin 0)) (dget_or candidate key (Fin 0))) (\<lambda>p.
     Inr \<lparr>dc_entity_kind = ek, dc_entity_name = en, dc_operation_kind = vk, dc_operation_name = vn,
       dc_baseline_seconds = dget_or baseline key (Fin 0), dc_candidate_seconds = dget_or candidate key (Fin 0),
       dc_percent = p\<rparr>))"

definition duration_changes_from ::
  "operation list \<Rightarrow> (operation, pyfloat) dict \<Rightarrow> (operation, pyfloat) dict \<Rightarrow>
     (operation, int) dict \<Rightarrow> (operation, int) dict \<Rightarrow> operation_duration_change list res" where
  "duration_changes_from keys baseline candidate baseline_counts candidate_counts =
     rbind (traverse (duration_change_of baseline candidate)
        (filter (\<lambda>k. \<not> not_comparable baseline candidate baseline_counts candidate_counts k \<and>
             \<not> feq (dget_or baseline k (Fin 0)) (dget_or candidate k (Fin 0))) keys))
       (\<lambda>cs. Inr (sort_key duration_change_key cs))"

definition duration_changes ::
  "(operation, pyfloat) dict \<Rightarrow> (operation, pyfloat) dict \<Rightarrow> (operation, int) dict \<Rightarrow> (operation, int) dict \<Rightarrow>
     operation_duration_change list res" where
  "duration_changes baseline candidate = duration_changes_from (union_keys baseline candidate) baseline candidate"

end
