(* ===== verification/RunDiffCompare.thy ===== *)
theory RunDiffCompare
  imports RunDiff
begin

text \<open>
  The second half of \<open>rundiff/compare.py\<close>: the structural identity of a run, the selected
  environment, the instrumentation mode, and \<open>compare_readers\<close>, which reads both snapshots
  and assembles the comparison.
\<close>

section \<open>Structure of a run\<close>

definition all_edge_counts :: "reader \<Rightarrow> (edge_key5, int) dict res" where
  "all_edge_counts rd =
     rbind (edge_counts rd) (\<lambda>counts.
     rbind (peer_service_edge_counts rd) (\<lambda>peers.
     Inr (fold (\<lambda>(key, count). add_count key count) peers counts)))"

type_synonym structural_edge = "pystr \<times> pystr \<times> pystr \<times> pystr \<times> pystr \<times> pystr \<times> pystr \<times> pystr \<times> pystr"

definition lookup :: "('k, 'v) dict \<Rightarrow> 'k \<Rightarrow> 'v res" where
  "lookup d k = (case dget d k of None \<Rightarrow> Inl KeyError | Some v \<Rightarrow> Inr v)"

definition event_owner :: "(pystr, pystr \<times> pystr) dict \<Rightarrow> event \<Rightarrow> (pystr \<times> pystr) res" where
  "event_owner entities v = (case ev_entity_id v of
     None \<Rightarrow> Inr (lit ''unowned'', lit ''unowned'') | Some i \<Rightarrow> lookup entities i)"

definition observation_texts :: "pystr list" where
  "observation_texts = [lit ''log.record'', lit ''python.call.aggregate'', lit ''python.stack.sample'', lit ''python.callsite'']"

fun structural_edges ::
  "(pystr, pystr \<times> pystr) dict \<Rightarrow> (pystr, event) dict \<Rightarrow> causal_edge list \<Rightarrow> structural_edge list res"
where
  "structural_edges entities events [] = Inr []"
| "structural_edges entities events (g # gs) =
     rbind (lookup events (edge_source g)) (\<lambda>s.
     rbind (lookup events (edge_target g)) (\<lambda>t.
     if ev_kind s \<in> set observation_texts \<or> ev_kind t \<in> set observation_texts
     then structural_edges entities events gs
     else rbind (event_owner entities s) (\<lambda>(sk, sn).
          rbind (event_owner entities t) (\<lambda>(tk, tn).
          rbind (structural_edges entities events gs) (\<lambda>keys.
          Inr ((sk, sn, ev_kind s, ev_name s, tk, tn, ev_kind t, ev_name t, edge_kind g) # keys))))))"

definition structural_edge_keys :: "reader \<Rightarrow> structural_edge list res" where
  "structural_edge_keys rd =
     rbind (read_entities rd) (\<lambda>es.
     rbind (read_events rd) (\<lambda>vs.
     rbind (read_causal_edges rd) (\<lambda>gs.
     structural_edges (fold (\<lambda>e. dset (ent_id e) (ent_kind e, ent_name e)) es [])
       (fold (\<lambda>v. dset (ev_id v) v) vs []) gs)))"

definition structural_entity_parent_keys :: "reader \<Rightarrow> (pystr \<times> pystr \<times> pystr \<times> pystr) list res" where
  "structural_entity_parent_keys rd =
     rbind (read_entities rd) (\<lambda>es.
       let entities = fold (\<lambda>e. dset (ent_id e) e) es [] in
       traverse (\<lambda>e. rbind (assert_some (ent_parent_id e)) (\<lambda>p. rbind (lookup entities p) (\<lambda>q.
           Inr (ent_kind e, ent_name e, ent_kind q, ent_name q))))
         (filter (\<lambda>e. ent_parent_id e \<noteq> None) (map snd entities)))"

definition same_elements :: "'a list \<Rightarrow> 'a list \<Rightarrow> bool" where
  "same_elements xs ys \<longleftrightarrow> list_all (\<lambda>x. x \<in> set ys) xs \<and> list_all (\<lambda>y. y \<in> set xs) ys"

text \<open>Equality of dictionaries, whose order does not matter.\<close>

definition dict_eq :: "('k, 'v) dict \<Rightarrow> ('k, 'v) dict \<Rightarrow> bool" where
  "dict_eq a b \<longleftrightarrow> list_all (\<lambda>k. dget a k = dget b k) (map fst a @ map fst b)"

section \<open>Environment and instrumentation\<close>

definition is_sha256_text :: "json \<Rightarrow> bool" where
  "is_sha256_text v = (case v of JStr s \<Rightarrow> length s = 64 \<and> list_all (\<lambda>c. hex_value c \<noteq> None) s | _ \<Rightarrow> False)"

fun checked_identities :: "attrs \<Rightarrow> (pystr, pystr) dict res" where
  "checked_identities [] = Inr []"
| "checked_identities ((variable, identity) # rest) =
     (case (if variable = [] then None else as_sha256 (Some identity)) of
        None \<Rightarrow> Inl (RunpackError (lit ''invalid selected environment identity: '' @ variable))
      | Some digest \<Rightarrow> rbind (checked_identities rest) (\<lambda>d. Inr ((variable, digest) # d)))"

definition selected_environment :: "attrs \<Rightarrow> (pystr, pystr) dict option res" where
  "selected_environment metadata = (case dget metadata (lit ''environment'') of
       None \<Rightarrow> Inr None
     | Some JNull \<Rightarrow> Inr None
     | Some (JObj environment) \<Rightarrow>
         (case dget environment (lit ''selected_value_sha256'') of
            None \<Rightarrow> Inr None
          | Some JNull \<Rightarrow> Inr None
          | Some (JObj selected) \<Rightarrow> rbind (checked_identities selected) (\<lambda>d. Inr (Some d))
          | Some _ \<Rightarrow> Inl (runpack_error ''selected environment identities must be an object''))
     | Some _ \<Rightarrow> Inl (runpack_error ''execution environment metadata must be an object''))"

definition instrumentation_mode :: "attrs \<Rightarrow> pystr" where
  "instrumentation_mode metadata = (case as_dict (dget metadata (lit ''capture'')) of
     None \<Rightarrow> lit ''passive''
   | Some capture \<Rightarrow>
      (let mode = (case as_dict (dget capture (lit ''instrumentation'')) of
             None \<Rightarrow> lit ''passive''
           | Some d \<Rightarrow> (case as_nonempty_text (dget d (lit ''mode'')) of None \<Rightarrow> lit ''passive'' | Some m \<Rightarrow> m));
           observes = (case as_dict (dget capture (lit ''process_observer'')) of
             None \<Rightarrow> False | Some d \<Rightarrow> dget d (lit ''requested'') = Some (JBool True))
       in if \<not> observes then mode
          else if mode = lit ''passive'' then lit ''process'' else mode @ lit ''+process''))"

definition environment_changes ::
  "(pystr, pystr) dict option \<Rightarrow> (pystr, pystr) dict option \<Rightarrow> environment_change list" where
  "environment_changes baseline candidate = (case (baseline, candidate) of
     (Some b, Some c) \<Rightarrow>
       map (\<lambda>v. \<lparr>nc_variable = v, nc_baseline_present = has_key b v, nc_candidate_present = has_key c v\<rparr>)
         (filter (\<lambda>v. dget b v \<noteq> dget c v) (sort_key (\<lambda>v. v) (union_keys b c)))
   | _ \<Rightarrow> [])"

section \<open>The comparison\<close>

record critical_path_view =
  cp_duration_seconds :: pyfloat
  cp_certainty :: pystr

record analysis_view =
  av_semantic_capture :: capture_summary
  av_http_capture :: capture_summary
  av_network_capture :: capture_summary
  av_network_setup_capture :: capture_summary
  av_logical_operation_capture :: capture_summary
  av_critical_path :: "critical_path_view option"

record diff_side =
  ds_reference :: execution_reference
  ds_annotation_error :: "pystr option"
  ds_missing_causal_references :: "int option"
  ds_dropped_attribute_count :: "int option"
  ds_semantic :: "pystr option \<times> int option"
  ds_http :: "pystr option \<times> int option"
  ds_network :: "pystr option \<times> int option"
  ds_network_setup :: "pystr option \<times> int option"
  ds_logical_operation :: "pystr option \<times> int option"
  ds_stdout_relay_error :: "pystr option"
  ds_stderr_relay_error :: "pystr option"
  ds_incomplete_streams :: "pystr list"
  ds_critical_path_certainty :: "pystr option"
  ds_instrumentation_mode :: pystr

record execution_diff =
  ed_baseline :: diff_side
  ed_candidate :: diff_side
  ed_timing_comparable :: bool
  ed_match_level :: pystr
  ed_outcome :: pystr
  ed_exit_code_equivalent :: "bool option"
  ed_output_equivalent :: "bool option"
  ed_stderr_equivalent :: "bool option"
  ed_operation_errors_equivalent :: "bool option"
  ed_wall_time :: value_change
  ed_cpu_time :: value_change
  ed_critical_path :: value_change
  ed_peak_memory :: value_change
  ed_entity_count_changes :: "entity_count_change list"
  ed_operation_count_changes :: "operation_count_change list"
  ed_operation_error_count_changes :: "operation_count_change list"
  ed_operation_concurrency_changes :: "operation_concurrency_change list"
  ed_operation_duration_changes :: "operation_duration_change list"
  ed_edge_count_changes :: "edge_count_change list"
  ed_environment_changes :: "environment_change list"

text \<open>What is read of one run, in the order of the source.\<close>

record run_facts =
  rf_summary :: execution_summary
  rf_analysis :: analysis_view
  rf_environment :: "(pystr, pystr) dict option"
  rf_instrumentation_mode :: pystr
  rf_entities :: "(pystr \<times> pystr, int) dict"
  rf_operations :: "(operation, int) dict"
  rf_errors :: "(operation, int) dict"
  rf_concurrency :: "(operation, int) dict"
  rf_durations :: "(operation, pyfloat) dict"
  rf_edges :: "(edge_key5, int) dict"
  rf_structural_edges :: "structural_edge list"
  rf_structural_parents :: "(pystr \<times> pystr \<times> pystr \<times> pystr) list"

definition gather_facts ::
  "(pyfloat list \<Rightarrow> pyfloat) \<Rightarrow> reader \<Rightarrow> execution_summary \<Rightarrow> analysis_view \<Rightarrow> run_facts res" where
  "gather_facts sql_total rd summary analysis =
     rbind (read_execution rd) (\<lambda>x.
     rbind (selected_environment (exec_metadata x)) (\<lambda>environment.
     rbind (entity_counts rd) (\<lambda>entities.
     rbind (operation_counts rd) (\<lambda>operations.
     rbind (operation_error_counts rd) (\<lambda>errors.
     rbind (operation_max_concurrency rd) (\<lambda>concurrency.
     rbind (operation_duration_totals sql_total rd) (\<lambda>durations.
     rbind (all_edge_counts rd) (\<lambda>edges.
     rbind (structural_edge_keys rd) (\<lambda>structural.
     rbind (structural_entity_parent_keys rd) (\<lambda>parents.
     Inr \<lparr>rf_summary = summary, rf_analysis = analysis, rf_environment = environment,
       rf_instrumentation_mode = instrumentation_mode (exec_metadata x),
       rf_entities = entities, rf_operations = operations, rf_errors = errors,
       rf_concurrency = concurrency, rf_durations = durations, rf_edges = edges,
       rf_structural_edges = structural, rf_structural_parents = parents\<rparr>))))))))))"

definition side_of :: "run_facts \<Rightarrow> diff_side" where
  "side_of f = (let s = rf_summary f; a = rf_analysis f in
     \<lparr>ds_reference = \<lparr>ref_id = sum_id s, ref_name = sum_name s, ref_exit_code = sum_exit_code s\<rparr>,
      ds_annotation_error = sum_annotation_error s,
      ds_missing_causal_references = sum_missing_causal_references s,
      ds_dropped_attribute_count = sum_dropped_attribute_count s,
      ds_semantic = capture_observation (av_semantic_capture a),
      ds_http = capture_observation (av_http_capture a),
      ds_network = capture_observation (av_network_capture a),
      ds_network_setup = capture_observation (av_network_setup_capture a),
      ds_logical_operation = capture_observation (av_logical_operation_capture a),
      ds_stdout_relay_error = ss_relay_error (sum_stdout s),
      ds_stderr_relay_error = ss_relay_error (sum_stderr s),
      ds_incomplete_streams = incomplete_streams s,
      ds_critical_path_certainty = map_option cp_certainty (av_critical_path a),
      ds_instrumentation_mode = rf_instrumentation_mode f\<rparr>)"

text \<open>A non-empty text is true; so is a positive count.\<close>

definition truthy_text :: "pystr option \<Rightarrow> bool" where
  "truthy_text t \<longleftrightarrow> (case t of None \<Rightarrow> False | Some s \<Rightarrow> s \<noteq> [])"

definition unreliable_attributes :: "diff_side \<Rightarrow> bool" where
  "unreliable_attributes s \<longleftrightarrow> truthy_text (ds_annotation_error s) \<or>
     (case ds_dropped_attribute_count s of None \<Rightarrow> True | Some n \<Rightarrow> 0 < n)"

definition errors_equivalent :: "diff_side \<Rightarrow> diff_side \<Rightarrow> bool \<Rightarrow> bool option" where
  "errors_equivalent b c same =
     (if unreliable_attributes b \<or> unreliable_attributes c \<or>
         \<not> semantic_observation_complete (fst (ds_semantic b)) (fst (ds_semantic c)) \<or>
         \<not> semantic_observation_complete (fst (ds_http b)) (fst (ds_http c)) \<or>
         \<not> semantic_observation_complete (fst (ds_network b)) (fst (ds_network c)) \<or>
         \<not> semantic_observation_complete (fst (ds_network_setup b)) (fst (ds_network_setup c)) \<or>
         \<not> optional_semantic_observation_complete (fst (ds_logical_operation b)) (fst (ds_logical_operation c))
      then None else Some same)"

definition match_level_of :: "run_facts \<Rightarrow> run_facts \<Rightarrow> pystr" where
  "match_level_of b c =
     (if sum_id (rf_summary b) = sum_id (rf_summary c) then lit ''exact''
      else if sum_missing_causal_references (rf_summary b) = Some 0 \<and>
              sum_missing_causal_references (rf_summary c) = Some 0 \<and>
              same_elements (map fst (rf_entities b)) (map fst (rf_entities c)) \<and>
              same_elements (map fst (rf_operations b)) (map fst (rf_operations c)) \<and>
              same_elements (map fst (rf_edges b)) (map fst (rf_edges c)) \<and>
              same_elements (rf_structural_edges b) (rf_structural_edges c) \<and>
              same_elements (rf_structural_parents b) (rf_structural_parents c)
      then lit ''structural'' else lit ''aggregate'')"

definition diff_facts :: "run_facts \<Rightarrow> run_facts \<Rightarrow> execution_diff res" where
  "diff_facts b c =
     (let bs = rf_summary b; cs = rf_summary c; bd = side_of b; cd = side_of c;
          exit_eq = known_equivalence (sum_exit_code bs) (sum_exit_code cs);
          output_eq = output_equivalence (sum_stdout bs) (sum_stdout cs);
          stderr_eq = output_equivalence (sum_stderr bs) (sum_stderr cs);
          error_eq = errors_equivalent bd cd (dict_eq (rf_errors b) (rf_errors c))
      in
      rbind (value_change_float (sum_wall_time_seconds bs) (sum_wall_time_seconds cs)) (\<lambda>wall.
      rbind (value_change_float (cpu_time bs) (cpu_time cs)) (\<lambda>cpu.
      rbind (value_change_float (map_option cp_duration_seconds (av_critical_path (rf_analysis b)))
                (map_option cp_duration_seconds (av_critical_path (rf_analysis c)))) (\<lambda>path.
      rbind (value_change_int (sum_peak_memory_bytes bs) (sum_peak_memory_bytes cs)) (\<lambda>memory.
      rbind (operation_changes (rf_operations b) (rf_operations c)) (\<lambda>operations.
      rbind (operation_changes (rf_errors b) (rf_errors c)) (\<lambda>errors.
      rbind (concurrency_changes (rf_concurrency b) (rf_concurrency c) (rf_operations b) (rf_operations c)) (\<lambda>concurrency.
      rbind (duration_changes (rf_durations b) (rf_durations c) (rf_operations b) (rf_operations c)) (\<lambda>durations.
      Inr \<lparr>ed_baseline = bd, ed_candidate = cd,
        ed_timing_comparable = (ds_instrumentation_mode bd = ds_instrumentation_mode cd),
        ed_match_level = match_level_of b c,
        ed_outcome = outcome_of [exit_eq, output_eq, stderr_eq, error_eq],
        ed_exit_code_equivalent = exit_eq, ed_output_equivalent = output_eq,
        ed_stderr_equivalent = stderr_eq, ed_operation_errors_equivalent = error_eq,
        ed_wall_time = wall, ed_cpu_time = cpu, ed_critical_path = path, ed_peak_memory = memory,
        ed_entity_count_changes = entity_changes (rf_entities b) (rf_entities c),
        ed_operation_count_changes = operations, ed_operation_error_count_changes = errors,
        ed_operation_concurrency_changes = concurrency, ed_operation_duration_changes = durations,
        ed_edge_count_changes = edge_changes (rf_edges b) (rf_edges c),
        ed_environment_changes = environment_changes (rf_environment b) (rf_environment c)\<rparr>)))))))))"

definition compare_readers ::
  "(pyfloat list \<Rightarrow> pyfloat) \<Rightarrow> (reader \<Rightarrow> execution_summary \<Rightarrow> analysis_view res) \<Rightarrow>
     reader \<Rightarrow> reader \<Rightarrow> execution_diff res" where
  "compare_readers sql_total analyze baseline candidate =
     rbind (inspect_reader baseline) (\<lambda>bs.
     rbind (inspect_reader candidate) (\<lambda>cs.
     rbind (analyze baseline bs) (\<lambda>ba.
     rbind (analyze candidate cs) (\<lambda>ca.
     rbind (gather_facts sql_total baseline bs ba) (\<lambda>b.
     rbind (gather_facts sql_total candidate cs ca) (\<lambda>c.
     diff_facts b c))))))"

end
