(* ===== verification/RunDiffLaws.thy ===== *)
theory RunDiffLaws
  imports RunDiffCompare
begin

text \<open>
  What a comparison of two runs promises. The lists of changes share a contract, the
  locale \<open>change_report\<close>: a change is built from a key, the sort key tells changes
  of different keys apart, and building can fail in one way only. It is interpreted on the
  changes of operation counts, entity counts, concurrency and durations; the sort key
  of the edge changes omits two parts of the key and does not satisfy it.
\<close>

section \<open>Reports over an enumeration of keys\<close>

locale change_report =
  fixes change_of :: "'k \<Rightarrow> 'c res" and order :: "'c \<Rightarrow> 'o::linorder" and key_of :: "'c \<Rightarrow> 'k" and failure :: err
  assumes key_of_change: "change_of k = Inr c \<Longrightarrow> key_of c = k"
    and order_keys: "order c = order c' \<Longrightarrow> key_of c = key_of c'"
    and one_failure: "change_of k = Inl e \<Longrightarrow> e = failure"
begin

definition report :: "('k \<Rightarrow> bool) \<Rightarrow> 'k list \<Rightarrow> 'c list res" where
  "report relevant keys = rbind (traverse change_of (filter relevant keys)) (\<lambda>cs. Inr (sort_key order cs))"

lemma traverse_values:
  assumes "traverse change_of ks = Inr cs"
  shows "cs = map (\<lambda>k. projr (change_of k)) ks"
  using assms unfolding traverse_eq_Inr_iff by (induction rule: list_all2_induct) simp_all

lemma traverse_failure: "traverse change_of ks = Inl e \<Longrightarrow> e = failure"
  by (drule traverse_Inl_exists) (auto dest: one_failure)

lemma report_enumeration:
  assumes "mset keys = mset keys'"
  shows "report relevant keys = report relevant keys'"
proof -
  let ?ks = "filter relevant keys" and ?ls = "filter relevant keys'"
  have m: "mset ?ks = mset ?ls" using assms by simp
  then have s: "set ?ks = set ?ls" by (rule mset_eq_setD)
  show ?thesis
  proof (cases "\<forall>k\<in>set ?ks. \<exists>c. change_of k = Inr c")
    case True
    then obtain cs ds where cs: "traverse change_of ?ks = Inr cs" and ds: "traverse change_of ?ls = Inr ds"
      using s traverse_defined [of change_of] by metis
    then have "mset cs = mset ds"
      using m traverse_values by (metis mset_map)
    moreover have "inj_on order (set cs)"
    proof (rule inj_onI)
      fix c c' assume c: "c \<in> set cs" "c' \<in> set cs" "order c = order c'"
      then obtain k k' where "change_of k = Inr c" "change_of k' = Inr c'"
        using traverse_Inr_mem [OF cs] by blast
      with c(3) show "c = c'" using key_of_change order_keys by (metis Inr_inject)
    qed
    ultimately show ?thesis
      using sort_key_mset_unique cs ds by (simp add: report_def del: filter.simps)
  next
    case False
    then obtain e e' where e: "traverse change_of ?ks = Inl e" "traverse change_of ?ls = Inl e'"
      using s traverse_defined [of change_of] by (metis sum.exhaust)
    then have "e = e'" using traverse_failure by metis
    with e show ?thesis by (simp add: report_def)
  qed
qed

lemma report_members:
  assumes "report relevant keys = Inr cs"
  shows "c \<in> set cs \<longleftrightarrow> (\<exists>k\<in>set keys. relevant k \<and> change_of k = Inr c)"
proof -
  obtain ds where ds: "traverse change_of (filter relevant keys) = Inr ds" "cs = sort_key order ds"
    using assms by (auto simp: report_def res_simps)
  have "c \<in> set ds \<longleftrightarrow> (\<exists>k\<in>set (filter relevant keys). change_of k = Inr c)"
  proof
    show "c \<in> set ds \<Longrightarrow> \<exists>k\<in>set (filter relevant keys). change_of k = Inr c"
      by (rule traverse_Inr_mem [OF ds(1)])
  next
    assume "\<exists>k\<in>set (filter relevant keys). change_of k = Inr c"
    then obtain k where "k \<in> set (filter relevant keys)" "change_of k = Inr c" by blast
    with traverse_values [OF ds(1)] show "c \<in> set ds" by force
  qed
  with ds(2) show ?thesis by auto
qed

lemma report_distinct:
  assumes "report relevant keys = Inr cs" and "distinct keys"
  shows "distinct (map key_of cs)"
proof -
  obtain ds where ds: "traverse change_of (filter relevant keys) = Inr ds" "cs = sort_key order ds"
    using assms by (auto simp: report_def res_simps)
  from ds(1) have "map key_of ds = filter relevant keys"
    unfolding traverse_eq_Inr_iff by (induction rule: list_all2_induct) (auto dest: key_of_change)
  with assms(2) have "distinct (map key_of ds)" by simp
  moreover have "mset (map key_of cs) = mset (map key_of ds)" using ds(2) by simp
  ultimately show ?thesis by (metis mset_eq_imp_distinct_iff)
qed

lemma report_sorted: "report relevant keys = Inr cs \<Longrightarrow> sorted (map order cs)"
  by (auto simp: report_def res_simps)

lemma report_Nil: "(\<And>k. k \<in> set keys \<Longrightarrow> \<not> relevant k) \<Longrightarrow> report relevant keys = Inr []"
  by (simp add: report_def)

end

section \<open>The lists of changes as reports\<close>

lemma percent_int_failure: "percent_int b c = Inl e \<Longrightarrow> e = OverflowError"
  by (auto simp: percent_int_def int_truediv_def finite_or_overflow_def res_simps split: if_splits)

lemma percent_float_defined: "\<exists>p. percent_float b c = Inr p"
proof (cases "feq b (Fin 0)")
  case False
  then have "\<exists>r. fdiv (fsub c b) b = Inr r"
    by (cases b) (auto split: pyfloat.splits)
  with False show ?thesis by (auto simp: percent_float_def)
qed (simp add: percent_float_def)

definition operation_key_of :: "operation_count_change \<Rightarrow> operation" where
  "operation_key_of c = (oc_entity_kind c, oc_entity_name c, oc_operation_kind c, oc_operation_name c)"

definition concurrency_key_of :: "operation_concurrency_change \<Rightarrow> operation" where
  "concurrency_key_of c = (cc_entity_kind c, cc_entity_name c, cc_operation_kind c, cc_operation_name c)"

definition duration_key_of :: "operation_duration_change \<Rightarrow> operation" where
  "duration_key_of c = (dc_entity_kind c, dc_entity_name c, dc_operation_kind c, dc_operation_name c)"

definition entity_key_of :: "entity_count_change \<Rightarrow> pystr \<times> pystr" where
  "entity_key_of c = (ec_entity_kind c, ec_entity_name c)"

interpretation operation_report:
  change_report "operation_change_of b c" operation_change_key operation_key_of OverflowError for b c
  by unfold_locales
    (auto simp: operation_change_of_def operation_key_of_def operation_change_key_def res_simps dest: percent_int_failure)

interpretation concurrency_report:
  change_report "concurrency_change_of b c" concurrency_change_key concurrency_key_of OverflowError for b c
  by unfold_locales
    (auto simp: concurrency_change_of_def concurrency_key_of_def concurrency_change_key_def res_simps dest: percent_int_failure)

lemma duration_change_defined: "\<exists>x. duration_change_of b c k = Inr x"
proof -
  obtain ek en vk vn where "k = (ek, en, vk, vn)" by (cases k)
  moreover obtain p where "percent_float (dget_or b k (Fin 0)) (dget_or c k (Fin 0)) = Inr p"
    using percent_float_defined by blast
  ultimately show ?thesis by (simp add: duration_change_of_def)
qed

interpretation duration_report:
  change_report "duration_change_of b c" duration_change_key duration_key_of OverflowError for b c
proof (unfold_locales, goal_cases)
  case (3 k e)
  then show ?case using duration_change_defined [of b c k] by auto
qed (auto simp: duration_change_of_def duration_key_of_def duration_change_key_def res_simps)

interpretation entity_report:
  change_report "\<lambda>k. Inr (entity_change_of b c k)" entity_change_key entity_key_of OverflowError for b c
  by unfold_locales (auto simp: entity_change_of_def entity_key_of_def entity_change_key_def)

lemma operation_changes_report:
  "operation_changes_from keys b c =
     operation_report.report b c (\<lambda>k. dget_or b k 0 \<noteq> dget_or c k 0) keys"
  by (simp add: operation_changes_from_def operation_report.report_def)

lemma concurrency_changes_report:
  "concurrency_changes_from keys b c bn cn =
     concurrency_report.report b c (\<lambda>k. \<not> not_comparable b c bn cn k \<and> dget_or b k 0 \<noteq> dget_or c k 0) keys"
  by (simp add: concurrency_changes_from_def concurrency_report.report_def)

lemma duration_changes_report:
  "duration_changes_from keys b c bn cn =
     duration_report.report b c (\<lambda>k. \<not> not_comparable b c bn cn k \<and>
        \<not> feq (dget_or b k (Fin 0)) (dget_or c k (Fin 0))) keys"
  by (simp add: duration_changes_from_def duration_report.report_def)

lemma entity_changes_report:
  "Inr (entity_changes_from keys b c) =
     entity_report.report b c (\<lambda>k. dget_or b k 0 \<noteq> dget_or c k 0) keys"
  by (simp add: entity_changes_from_def entity_report.report_def traverse_map_Inr [where g = "entity_change_of b c"])

lemma mset_union_keys: "distinct keys \<Longrightarrow> set keys = fst ` set b \<union> fst ` set c \<Longrightarrow> mset keys = mset (union_keys b c)"
  by (rule set_eq_iff_mset_eq_distinct [THEN iffD1]) (simp_all add: union_keys_def)

lemma set_union_keys: "set (union_keys b c) = fst ` set b \<union> fst ` set c"
  by (simp add: union_keys_def)

section \<open>Properties\<close>

text \<open>Python enumerates a union of key sets in an arbitrary order. The changes of
  operation counts, of entity counts, of concurrency and of durations do not depend on it.\<close>

theorem change_lists_do_not_depend_on_set_order:
  assumes "distinct keys" and "set keys = fst ` set b \<union> fst ` set c"
    and "distinct ekeys" and "set ekeys = fst ` set eb \<union> fst ` set ec"
    and "distinct dkeys" and "set dkeys = fst ` set db \<union> fst ` set dc"
  shows "operation_changes_from keys b c = operation_changes b c \<and>
    concurrency_changes_from keys b c bn cn = concurrency_changes b c bn cn \<and>
    entity_changes_from ekeys eb ec = entity_changes eb ec \<and>
    duration_changes_from dkeys db dc bn cn = duration_changes db dc bn cn"
proof -
  note m = mset_union_keys [OF assms(1,2)] mset_union_keys [OF assms(3,4)] mset_union_keys [OF assms(5,6)]
  have "operation_changes_from keys b c = operation_changes b c"
    unfolding operation_changes_def operation_changes_report by (rule operation_report.report_enumeration [OF m(1)])
  moreover have "concurrency_changes_from keys b c bn cn = concurrency_changes b c bn cn"
    unfolding concurrency_changes_def concurrency_changes_report
    by (rule concurrency_report.report_enumeration [OF m(1)])
  moreover have "Inr (entity_changes_from ekeys eb ec) = (Inr (entity_changes eb ec) :: entity_count_change list res)"
    unfolding entity_changes_def entity_changes_report by (rule entity_report.report_enumeration [OF m(2)])
  moreover have "duration_changes_from dkeys db dc bn cn = duration_changes db dc bn cn"
    unfolding duration_changes_def duration_changes_report by (rule duration_report.report_enumeration [OF m(3)])
  ultimately show ?thesis by simp
qed

definition sample_operation :: "string \<Rightarrow> operation" where
  "sample_operation n = (lit ''service'', lit ''api'', lit ''task'', lit n)"

theorem change_lists_do_not_depend_on_set_order_witness:
  "operation_changes_from [sample_operation ''b'', sample_operation ''a'']
     [(sample_operation ''a'', 1)] [(sample_operation ''b'', 1)] =
   operation_changes [(sample_operation ''a'', 1)] [(sample_operation ''b'', 1)]"
proof -
  have d: "distinct [sample_operation ''b'', sample_operation ''a'']" by (simp add: sample_operation_def)
  have s: "set [sample_operation ''b'', sample_operation ''a''] =
      fst ` set [(sample_operation ''a'', 1 :: int)] \<union> fst ` set [(sample_operation ''b'', 1 :: int)]" by auto
  have n: "set [] = fst ` set [] \<union> fst ` set []" by simp
  show ?thesis
    using change_lists_do_not_depend_on_set_order [OF d s distinct.simps(1) [THEN iffD2, OF TrueI] n
        distinct.simps(1) [THEN iffD2, OF TrueI] n] by blast
qed

text \<open>The changes of edge counts do depend on it: the sort key leaves out the kinds of the
  source and the target entity, so two edges between entities of the same names and different
  kinds keep the order in which the set was enumerated.\<close>

theorem edge_changes_depend_on_set_order:
  "\<exists>keys keys' b c. distinct keys \<and> distinct keys' \<and> set keys = set keys' \<and>
     set keys = fst ` set b \<union> fst ` set c \<and> edge_changes_from keys b c \<noteq> edge_changes_from keys' b c"
proof -
  let ?k = "(lit ''process'', lit ''api'', lit ''process'', lit ''db'', lit ''calls'')"
  let ?l = "(lit ''service'', lit ''api'', lit ''process'', lit ''db'', lit ''calls'')"
  have "edge_changes_from [?k, ?l] [] [(?k, 1), (?l, 1)] \<noteq> edge_changes_from [?l, ?k] [] [(?k, 1), (?l, 1)]"
    by code_simp
  moreover have "set [?k, ?l] = fst ` set [] \<union> fst ` set [(?k, 1 :: int), (?l, 1)]" by simp
  moreover have "distinct [?k, ?l]" "distinct [?l, ?k]" "set [?k, ?l] = set [?l, ?k]" by auto
  ultimately show ?thesis by blast
qed

lemma operation_change_counts:
  "operation_change_of b c k = Inr x \<Longrightarrow> oc_baseline x = dget_or b k 0 \<and> oc_candidate x = dget_or c k 0"
  by (cases k) (auto simp: operation_change_of_def res_simps)

text \<open>The reported changes of operation counts are exactly the operations whose counts differ,
  each once, with both counts, the greatest difference first.\<close>

theorem operation_changes_are_the_differences:
  assumes "operation_changes b c = Inr cs"
  shows "(\<forall>k. k \<in> operation_key_of ` set cs \<longleftrightarrow> dget_or b k 0 \<noteq> dget_or c k 0) \<and>
    distinct (map operation_key_of cs) \<and>
    (\<forall>x\<in>set cs. oc_baseline x = dget_or b (operation_key_of x) 0 \<and> oc_candidate x = dget_or c (operation_key_of x) 0) \<and>
    sorted (map (\<lambda>x. - \<bar>oc_candidate x - oc_baseline x\<bar>) cs)"
proof -
  note run = assms [unfolded operation_changes_def operation_changes_report]
  have defined: "\<exists>x. operation_change_of b c k = Inr x" if "k \<in> set (union_keys b c)" "dget_or b k 0 \<noteq> dget_or c k 0" for k
  proof -
    have "\<exists>ys. traverse (operation_change_of b c) (filter (\<lambda>k. dget_or b k 0 \<noteq> dget_or c k 0) (union_keys b c)) = Inr ys"
      using run by (auto simp: operation_report.report_def res_simps)
    then show ?thesis unfolding traverse_defined by (rule bspec) (simp add: that)
  qed
  have keys: "k \<in> operation_key_of ` set cs \<longleftrightarrow> dget_or b k 0 \<noteq> dget_or c k 0" for k
  proof
    assume "k \<in> operation_key_of ` set cs"
    then obtain x where x: "x \<in> set cs" "k = operation_key_of x" by blast
    from x(1) obtain k' where k': "dget_or b k' 0 \<noteq> dget_or c k' 0" "operation_change_of b c k' = Inr x"
      unfolding operation_report.report_members [OF run] by blast
    from x(2) operation_report.key_of_change [OF k'(2)] k'(1) show "dget_or b k 0 \<noteq> dget_or c k 0" by simp
  next
    assume ne: "dget_or b k 0 \<noteq> dget_or c k 0"
    then have "k \<in> set (union_keys b c)"
      unfolding set_union_keys by (auto simp: dget_or_def map_of_eq_None_iff split: option.splits dest: map_of_SomeD intro: rev_image_eqI)
    with ne defined obtain x where x: "operation_change_of b c k = Inr x" by blast
    with ne \<open>k \<in> set (union_keys b c)\<close> have "x \<in> set cs"
      unfolding operation_report.report_members [OF run] by blast
    with operation_report.key_of_change [OF x] show "k \<in> operation_key_of ` set cs" by blast
  qed
  have counts: "oc_baseline x = dget_or b (operation_key_of x) 0 \<and> oc_candidate x = dget_or c (operation_key_of x) 0"
    if "x \<in> set cs" for x
  proof -
    have "\<exists>k. operation_change_of b c k = Inr x"
      using that unfolding operation_report.report_members [OF run] by blast
    then obtain k where k: "operation_change_of b c k = Inr x" by (rule exE)
    with operation_report.key_of_change [OF k] operation_change_counts [OF k] show ?thesis by simp
  qed
  have "sorted (map operation_change_key cs)" by (rule operation_report.report_sorted [OF run])
  then have "sorted (map (\<lambda>x. - \<bar>oc_candidate x - oc_baseline x\<bar>) cs)"
    unfolding sorted_map by (rule sorted_wrt_mono_rel [rotated]) (auto simp: operation_change_key_def)
  moreover have "distinct (map operation_key_of cs)"
    by (rule operation_report.report_distinct [OF run]) (simp add: union_keys_def)
  ultimately show ?thesis using keys counts by blast
qed

theorem operation_changes_are_the_differences_witness:
  "\<exists>cs. operation_changes [(sample_operation ''a'', 4)]
       [(sample_operation ''b'', 1), (sample_operation ''a'', 4), (sample_operation ''c'', 3)] = Inr cs \<and>
     map operation_key_of cs = [sample_operation ''c'', sample_operation ''b''] \<and> distinct (map operation_key_of cs)"
proof -
  have "(case operation_changes [(sample_operation ''a'', 4)]
       [(sample_operation ''b'', 1), (sample_operation ''a'', 4), (sample_operation ''c'', 3)] of Inr cs \<Rightarrow>
     map operation_key_of cs = [sample_operation ''c'', sample_operation ''b''] | _ \<Rightarrow> False)"
    by code_simp
  then obtain cs where cs: "operation_changes [(sample_operation ''a'', 4)]
       [(sample_operation ''b'', 1), (sample_operation ''a'', 4), (sample_operation ''c'', 3)] = Inr cs"
      "map operation_key_of cs = [sample_operation ''c'', sample_operation ''b'']"
    by (auto split: sum.splits)
  from operation_changes_are_the_differences [OF cs(1), THEN conjunct2, THEN conjunct1] cs show ?thesis
    by (intro exI conjI)
qed

text \<open>Evidence of two runs that is complete and the same.\<close>

definition same_stream :: "stream_summary \<Rightarrow> stream_summary \<Rightarrow> bool" where
  "same_stream b c \<longleftrightarrow> ss_bytes b \<noteq> None \<and> ss_bytes b = ss_bytes c \<and> ss_sha256 b \<noteq> None \<and> ss_sha256 b = ss_sha256 c \<and>
     ss_complete b = Some True \<and> ss_complete c = Some True"

definition capture_agrees :: "capture_summary \<Rightarrow> capture_summary \<Rightarrow> bool" where
  "capture_agrees b c \<longleftrightarrow> b = None \<and> c = None \<or>
     map_option fst b = Some (lit ''complete'') \<and> map_option fst c = Some (lit ''complete'')"

definition attributes_reliable :: "execution_summary \<Rightarrow> bool" where
  "attributes_reliable s \<longleftrightarrow> sum_annotation_error s \<in> {None, Some []} \<and>
     (\<exists>n. sum_dropped_attribute_count s = Some n \<and> n \<le> 0)"

lemma output_equivalence_True: "output_equivalence b c = Some True \<longleftrightarrow> same_stream b c"
  by (auto simp: output_equivalence_def same_stream_def split: option.splits if_splits)

lemma known_equivalence_True: "known_equivalence b c = Some True \<longleftrightarrow> b \<noteq> None \<and> b = c"
  by (auto simp: known_equivalence_def split: option.splits)

lemma semantic_observation_agrees:
  "semantic_observation_complete (fst (capture_observation b)) (fst (capture_observation c)) \<longleftrightarrow> capture_agrees b c"
  by (auto simp: semantic_observation_complete_def capture_observation_def capture_agrees_def split: option.splits)

lemma unreliable_side: "unreliable_attributes (side_of f) \<longleftrightarrow> \<not> attributes_reliable (rf_summary f)"
  by (auto simp: unreliable_attributes_def side_of_def Let_def attributes_reliable_def truthy_text_def split: option.splits)

lemma outcome_equivalent: "outcome_of es = lit ''equivalent'' \<longleftrightarrow> list_all (\<lambda>e. e = Some True) es"
  by (auto simp: outcome_of_def list_all_iff list_ex_iff)

lemma outcome_different: "outcome_of es = lit ''different'' \<longleftrightarrow> list_ex (\<lambda>e. e = Some False) es"
  by (auto simp: outcome_of_def)

lemma errors_equivalent_True:
  "errors_equivalent (side_of b) (side_of c) same = Some True \<longleftrightarrow>
     same \<and> attributes_reliable (rf_summary b) \<and> attributes_reliable (rf_summary c) \<and>
     capture_agrees (av_semantic_capture (rf_analysis b)) (av_semantic_capture (rf_analysis c)) \<and>
     capture_agrees (av_http_capture (rf_analysis b)) (av_http_capture (rf_analysis c)) \<and>
     capture_agrees (av_network_capture (rf_analysis b)) (av_network_capture (rf_analysis c)) \<and>
     capture_agrees (av_network_setup_capture (rf_analysis b)) (av_network_setup_capture (rf_analysis c)) \<and>
     optional_semantic_observation_complete
       (fst (capture_observation (av_logical_operation_capture (rf_analysis b))))
       (fst (capture_observation (av_logical_operation_capture (rf_analysis c))))"
  unfolding errors_equivalent_def unreliable_side
  by (auto simp: side_of_def Let_def semantic_observation_agrees)

lemma diff_facts_equivalent_iff:
  assumes "diff_facts b c = Inr d"
  shows "ed_outcome d = lit ''equivalent'' \<longleftrightarrow>
    sum_exit_code (rf_summary b) \<noteq> None \<and> sum_exit_code (rf_summary b) = sum_exit_code (rf_summary c) \<and>
    same_stream (sum_stdout (rf_summary b)) (sum_stdout (rf_summary c)) \<and>
    same_stream (sum_stderr (rf_summary b)) (sum_stderr (rf_summary c)) \<and>
    dict_eq (rf_errors b) (rf_errors c) \<and>
    attributes_reliable (rf_summary b) \<and> attributes_reliable (rf_summary c) \<and>
    capture_agrees (av_semantic_capture (rf_analysis b)) (av_semantic_capture (rf_analysis c)) \<and>
    capture_agrees (av_http_capture (rf_analysis b)) (av_http_capture (rf_analysis c)) \<and>
    capture_agrees (av_network_capture (rf_analysis b)) (av_network_capture (rf_analysis c)) \<and>
    capture_agrees (av_network_setup_capture (rf_analysis b)) (av_network_setup_capture (rf_analysis c)) \<and>
    optional_semantic_observation_complete
      (fst (capture_observation (av_logical_operation_capture (rf_analysis b))))
      (fst (capture_observation (av_logical_operation_capture (rf_analysis c))))"
proof -
  have "ed_outcome d = outcome_of [known_equivalence (sum_exit_code (rf_summary b)) (sum_exit_code (rf_summary c)),
      output_equivalence (sum_stdout (rf_summary b)) (sum_stdout (rf_summary c)),
      output_equivalence (sum_stderr (rf_summary b)) (sum_stderr (rf_summary c)),
      errors_equivalent (side_of b) (side_of c) (dict_eq (rf_errors b) (rf_errors c))]"
    using assms by (auto simp: diff_facts_def Let_def res_simps)
  then show ?thesis
    by (simp add: outcome_equivalent output_equivalence_True known_equivalence_True errors_equivalent_True)
qed

text \<open>Two runs are called equivalent exactly when the exit codes are known and equal, both
  streams were captured completely with the same size and digest, and the operation errors agree
  on evidence that is complete on both sides; incomplete evidence is never called equivalent.\<close>

theorem equivalent_needs_complete_evidence:
  assumes "diff_facts b c = Inr d"
  shows "ed_outcome d = lit ''equivalent'' \<longleftrightarrow>
    sum_exit_code (rf_summary b) \<noteq> None \<and> sum_exit_code (rf_summary b) = sum_exit_code (rf_summary c) \<and>
    same_stream (sum_stdout (rf_summary b)) (sum_stdout (rf_summary c)) \<and>
    same_stream (sum_stderr (rf_summary b)) (sum_stderr (rf_summary c)) \<and>
    dict_eq (rf_errors b) (rf_errors c) \<and>
    attributes_reliable (rf_summary b) \<and> attributes_reliable (rf_summary c) \<and>
    capture_agrees (av_semantic_capture (rf_analysis b)) (av_semantic_capture (rf_analysis c)) \<and>
    capture_agrees (av_http_capture (rf_analysis b)) (av_http_capture (rf_analysis c)) \<and>
    capture_agrees (av_network_capture (rf_analysis b)) (av_network_capture (rf_analysis c)) \<and>
    capture_agrees (av_network_setup_capture (rf_analysis b)) (av_network_setup_capture (rf_analysis c)) \<and>
    optional_semantic_observation_complete
      (fst (capture_observation (av_logical_operation_capture (rf_analysis b))))
      (fst (capture_observation (av_logical_operation_capture (rf_analysis c))))"
  using diff_facts_equivalent_iff [OF assms] .

definition sample_stream :: stream_summary where
  "sample_stream = \<lparr>ss_bytes = Some 12, ss_sha256 = Some (lit ''aa''), ss_complete = Some True, ss_relay_error = None\<rparr>"

definition sample_summary :: "string \<Rightarrow> execution_summary" where
  "sample_summary i = \<lparr>sum_schema_version = lit ''1.1'', sum_producer_version = lit ''0.1'', sum_id = lit i,
     sum_name = lit ''run'', sum_command = [], sum_working_directory = lit ''/'', sum_revision = None,
     sum_started_at_ns = 0, sum_finished_at_ns = None, sum_exit_code = Some 0, sum_wall_time_seconds = None,
     sum_cpu_user_seconds = None, sum_cpu_system_seconds = None, sum_peak_memory_bytes = None,
     sum_stdout = sample_stream, sum_stderr = sample_stream, sum_annotation_error = None,
     sum_missing_causal_references = Some 0, sum_dropped_attribute_count = Some 0, sum_record_counts = []\<rparr>"

definition sample_analysis :: analysis_view where
  "sample_analysis = \<lparr>av_semantic_capture = Some (lit ''complete'', Some 0), av_http_capture = None,
     av_network_capture = None, av_network_setup_capture = None, av_logical_operation_capture = None,
     av_critical_path = None\<rparr>"

definition sample_facts :: "string \<Rightarrow> run_facts" where
  "sample_facts i = \<lparr>rf_summary = sample_summary i, rf_analysis = sample_analysis, rf_environment = None,
     rf_instrumentation_mode = lit ''passive'', rf_entities = [], rf_operations = [(sample_operation ''a'', 1)],
     rf_errors = [], rf_concurrency = [], rf_durations = [], rf_edges = [], rf_structural_edges = [],
     rf_structural_parents = []\<rparr>"

theorem equivalent_needs_complete_evidence_witness:
  "\<exists>d. diff_facts (sample_facts ''x'') (sample_facts ''y'') = Inr d \<and> ed_outcome d = lit ''equivalent'' \<and>
     same_stream (sum_stdout (sample_summary ''x'')) (sum_stdout (sample_summary ''y''))"
proof -
  have "(case diff_facts (sample_facts ''x'') (sample_facts ''y'') of Inr d \<Rightarrow> ed_outcome d = lit ''equivalent'' | _ \<Rightarrow> False)"
    by code_simp
  then obtain d where d: "diff_facts (sample_facts ''x'') (sample_facts ''y'') = Inr d" "ed_outcome d = lit ''equivalent''"
    by (auto split: sum.splits)
  then show ?thesis
    using equivalent_needs_complete_evidence [OF d(1)] by (auto simp: sample_facts_def)
qed

lemma dict_eq_refl [simp]: "dict_eq d d"
  by (simp add: dict_eq_def list_all_iff)

lemma feq_refl: "x \<noteq> NaN \<Longrightarrow> feq x x"
  by (cases x) (auto simp: feq_def)

lemma no_change_lists:
  "operation_changes b b = Inr []" "entity_changes eb eb = []" "edge_changes g g = []"
  "concurrency_changes b b bn cn = Inr []" "environment_changes n n = []"
  by (simp_all add: operation_changes_def operation_changes_from_def entity_changes_def entity_changes_from_def
      edge_changes_def edge_changes_from_def concurrency_changes_def concurrency_changes_from_def
      environment_changes_def split: option.splits)

lemma no_duration_changes:
  assumes "\<forall>x\<in>set ds. snd x \<noteq> NaN"
  shows "duration_changes ds ds bn cn = Inr []"
proof -
  have "feq (dget_or ds k (Fin 0)) (dget_or ds k (Fin 0))" for k
    using assms by (intro feq_refl) (auto simp: dget_or_def dest!: map_of_SomeD split: option.splits)
  then show ?thesis by (simp add: duration_changes_def duration_changes_from_def)
qed

text \<open>Comparing a run with itself reports an exact match on comparable timing, no change in any
  list, and no difference in the outcome, which is unknown when evidence is missing.\<close>

theorem comparing_a_run_with_itself:
  assumes "diff_facts f f = Inr d" and "\<forall>x\<in>set (rf_durations f). snd x \<noteq> NaN"
  shows "ed_match_level d = lit ''exact'' \<and> ed_timing_comparable d \<and> ed_outcome d \<noteq> lit ''different'' \<and>
    ed_entity_count_changes d = [] \<and> ed_operation_count_changes d = [] \<and> ed_operation_error_count_changes d = [] \<and>
    ed_operation_concurrency_changes d = [] \<and> ed_operation_duration_changes d = [] \<and>
    ed_edge_count_changes d = [] \<and> ed_environment_changes d = []"
proof -
  have "known_equivalence x x \<noteq> Some False" "output_equivalence s s \<noteq> Some False" "errors_equivalent g g True \<noteq> Some False" for x s g
    by (auto simp: known_equivalence_def output_equivalence_def errors_equivalent_def split: option.splits)
  with assms(1) show ?thesis
    by (auto simp: diff_facts_def Let_def res_simps no_change_lists no_duration_changes [OF assms(2)]
        outcome_different match_level_of_def)
qed

theorem comparing_a_run_with_itself_witness:
  "\<exists>d. diff_facts (sample_facts ''x'') (sample_facts ''x'') = Inr d \<and> ed_match_level d = lit ''exact''"
proof -
  have "(case diff_facts (sample_facts ''x'') (sample_facts ''x'') of Inr d \<Rightarrow> True | _ \<Rightarrow> False)"
    by code_simp
  then obtain d where d: "diff_facts (sample_facts ''x'') (sample_facts ''x'') = Inr d"
    by (auto split: sum.splits)
  have "\<forall>x\<in>set (rf_durations (sample_facts ''x'')). snd x \<noteq> NaN" by (simp add: sample_facts_def)
  from comparing_a_run_with_itself [OF d this] d show ?thesis by blast
qed

end
