(* ===== verification/Contracts.thy ===== *)
theory Contracts
  imports Terminal StorageValidation
begin

text \<open>
  \<open>proofline/contracts.py\<close>: parsing of contract documents. What the YAML loader returns
  is a value \<open>obj\<close>; loading it is \<open>yaml_support\<close> and PyYAML. Values here are trees,
  so the check against values that contain themselves never applies. The error message of a
  contract shows its name as \<open>repr\<close> does, which consults the Unicode database
  (\<open>printable\<close>). The required fields of an assertion type are a Python set: the order in
  which they are checked is an argument.
\<close>

section \<open>Assertion types\<close>

definition assertion_fields :: "(pystr, pystr list) dict" where
  "assertion_fields =
     [(lit ''candidate_exit_success'', []), (lit ''exit_code_equivalent'', []),
      (lit ''output_equivalent'', []), (lit ''result_equivalence'', []),
      (lit ''max_runtime_regression'', [lit ''percent'']),
      (lit ''max_cpu_time_regression'', [lit ''percent'']),
      (lit ''max_peak_memory_regression'', [lit ''percent'']),
      (lit ''forbid_new_dependency'', [lit ''from'', lit ''to'']),
      (lit ''max_operation_count'', [lit ''operation'', lit ''relative_to'', lit ''factor'']),
      (lit ''max_operation_error_count'', [lit ''operation'', lit ''relative_to'', lit ''factor''])]"

definition max_contract_assertions :: int where
  "max_contract_assertions = 1000"

abbreviation contract_error :: "pystr list \<Rightarrow> err" where
  "contract_error parts \<equiv> ContractError (cat parts)"

record assertion =
  as_type :: pystr
  as_name :: pystr
  as_config :: attrs

record contract =
  con_name :: pystr
  con_description :: "pystr option"
  con_assertions :: "assertion list"

text \<open>\<open>as_json_value\<close>: the type, the name and the other fields in the order of their names.\<close>

definition assertion_json :: "assertion \<Rightarrow> attrs" where
  "assertion_json a =
     (lit ''type'', JStr (as_type a)) # (lit ''name'', JStr (as_name a)) #
     sort_members (filter (\<lambda>kv. fst kv \<noteq> lit ''type'' \<and> fst kv \<noteq> lit ''name'') (as_config a))"

section \<open>Values\<close>

fun json_value :: "pystr \<Rightarrow> obj \<Rightarrow> json res" where
  "json_value label ONone = Inr JNull"
| "json_value label (OBool b) = Inr (JBool b)"
| "json_value label (OInt i) = Inr (JInt i)"
| "json_value label (OStr s) = Inr (JStr s)"
| "json_value label (OFloat x) =
     (if isfinite x then Inr (JFloat x)
      else Inl (contract_error [label, lit '' cannot contain non-finite numbers'']))"
| "json_value label (OList vs) = rbind (traverse (json_value label) vs) (\<lambda>js. Inr (JList js))"
| "json_value label (ODict d) =
     (if list_all (\<lambda>kv. is_str (fst kv)) d
      then rbind (traverse (\<lambda>(k, v). rbind (json_value label v) (\<lambda>v'.
             Inr (case k of OStr s \<Rightarrow> s | _ \<Rightarrow> [], v'))) d) (\<lambda>js. Inr (JObj js))
      else Inl (contract_error [label, lit '' must contain only JSON-compatible values'']))"
| "json_value label (OBytes _) = Inl (contract_error [label, lit '' must contain only JSON-compatible values''])"
| "json_value label (OOther _) = Inl (contract_error [label, lit '' must contain only JSON-compatible values''])"

definition contract_object :: "pystr \<Rightarrow> obj \<Rightarrow> attrs res" where
  "contract_object label v = rbind (json_value label v) (\<lambda>j.
     (case j of JObj d \<Rightarrow> Inr d | _ \<Rightarrow> Inl (contract_error [label, lit '' must be an object''])))"

definition required_string :: "pystr \<Rightarrow> json \<Rightarrow> pystr res" where
  "required_string label v = (case v of
     JStr s \<Rightarrow> if s = [] then Inl (contract_error [label, lit '' must be a non-empty string'']) else Inr s
   | _ \<Rightarrow> Inl (contract_error [label, lit '' must be a non-empty string'']))"

definition sorted_texts :: "pystr list \<Rightarrow> pystr list" where
  "sorted_texts = sort_key (\<lambda>s. s)"

definition reject_unknown_fields :: "attrs \<Rightarrow> pystr list \<Rightarrow> pystr \<Rightarrow> unit res" where
  "reject_unknown_fields d allowed label =
     (let unknown = sorted_texts (filter (\<lambda>k. k \<notin> set allowed) (map fst d))
      in raise_if (unknown \<noteq> [])
           (contract_error [label, lit '' contains unsupported fields: '', join (lit '', '') unknown]))"

text \<open>The value of one required field: a finite number that is not negative, or a non-empty text.\<close>

definition config_number :: "json \<Rightarrow> pyfloat res option" where
  "config_number v = (case v of JInt i \<Rightarrow> Some (float_of_int i) | JFloat x \<Rightarrow> Some (Inr x) | _ \<Rightarrow> None)"

definition check_field :: "pystr \<Rightarrow> attrs \<Rightarrow> pystr \<Rightarrow> unit res" where
  "check_field ty config f =
     (case dget config f of None \<Rightarrow> Inl KeyError
      | Some v \<Rightarrow>
         if f = lit ''percent'' \<or> f = lit ''factor'' then
           (case config_number v of
              None \<Rightarrow> Inl (contract_error [ty, lit '' requires numeric '', f])
            | Some (Inl _) \<Rightarrow> Inl (contract_error [ty, lit '' '', f, lit '' exceeds the numeric range''])
            | Some (Inr x) \<Rightarrow>
                if \<not> isfinite x then Inl (contract_error [ty, lit '' '', f, lit '' must be finite''])
                else if flt x (Fin 0) then Inl (contract_error [ty, lit '' '', f, lit '' cannot be negative''])
                else Inr ())
         else (case v of
              JStr s \<Rightarrow> if s = [] then Inl (contract_error [ty, lit '' requires string '', f]) else Inr ()
            | _ \<Rightarrow> Inl (contract_error [ty, lit '' requires string '', f])))"

fun check_fields :: "pystr \<Rightarrow> attrs \<Rightarrow> pystr list \<Rightarrow> unit res" where
  "check_fields ty config [] = Inr ()"
| "check_fields ty config (f # fs) = rbind (check_field ty config f) (\<lambda>_. check_fields ty config fs)"

definition validate_assertion_fields :: "pystr list \<Rightarrow> pystr \<Rightarrow> attrs \<Rightarrow> unit res" where
  "validate_assertion_fields required ty config =
     (let missing = sorted_texts (filter (\<lambda>f. \<not> has_key config f) required)
      in rbind (raise_if (missing \<noteq> []) (contract_error [ty, lit '' requires fields: '', join (lit '', '') missing])) (\<lambda>_.
         rbind (check_fields ty config required) (\<lambda>_.
         raise_if (dget config (lit ''relative_to'') \<notin> {None, Some JNull, Some (JStr (lit ''baseline''))})
           (contract_error [ty, lit '' relative_to must be baseline'']))))"

section \<open>Documents\<close>

definition dashed :: "pystr \<Rightarrow> pystr" where
  "dashed = map (\<lambda>c. if c = 95 then 45 else c)"

text \<open>\<open>parse_assertion\<close>; \<open>required_fields\<close> enumerates the required fields of each type.\<close>

definition parse_assertion_from :: "(pystr, pystr list) dict \<Rightarrow> pystr \<Rightarrow> obj \<Rightarrow> assertion res" where
  "parse_assertion_from required_fields label v =
     rbind (contract_object label v) (\<lambda>config.
     rbind (required_string (label @ lit '' type'') (case dget config (lit ''type'') of None \<Rightarrow> JNull | Some t \<Rightarrow> t)) (\<lambda>ty.
     (case dget required_fields ty of
        None \<Rightarrow> Inl (contract_error [lit ''unsupported assertion type: '', ty])
      | Some required \<Rightarrow>
          rbind (reject_unknown_fields config ([lit ''type'', lit ''name''] @ required) (ty @ lit '' assertion'')) (\<lambda>_.
          rbind (validate_assertion_fields required ty config) (\<lambda>_.
          rbind (required_string (label @ lit '' name'')
              (case dget config (lit ''name'') of None \<Rightarrow> JStr (dashed ty) | Some n \<Rightarrow> n)) (\<lambda>name.
          Inr \<lparr>as_type = ty, as_name = name, as_config = config\<rparr>))))))"

definition parse_assertion :: "pystr \<Rightarrow> obj \<Rightarrow> assertion res" where
  "parse_assertion = parse_assertion_from assertion_fields"

text \<open>\<open>repr\<close> of a text.\<close>

definition repr_char :: "(nat \<Rightarrow> bool) \<Rightarrow> nat \<Rightarrow> nat \<Rightarrow> pystr" where
  "repr_char printable quote c =
     (if c = quote then [92, c] else if c \<noteq> 92 \<and> printable c then [c] else unicode_escape c)"

definition str_repr :: "(nat \<Rightarrow> bool) \<Rightarrow> pystr \<Rightarrow> pystr" where
  "str_repr printable s =
     (let quote = (if 39 \<in> set s \<and> 34 \<notin> set s then 34 else 39)
      in [quote] @ concat (map (repr_char printable quote) s) @ [quote])"

definition indexed :: "'a list \<Rightarrow> (int \<times> 'a) list" where
  "indexed xs = zip (map int [1..<Suc (length xs)]) xs"

definition parse_contract :: "(nat \<Rightarrow> bool) \<Rightarrow> obj \<Rightarrow> pystr \<Rightarrow> contract res" where
  "parse_contract printable v default_name =
     rbind (contract_object (lit ''contract'') v) (\<lambda>raw.
     rbind (reject_unknown_fields raw [lit ''name'', lit ''description'', lit ''assertions''] (lit ''contract'')) (\<lambda>_.
     rbind (required_string (lit ''contract name'')
         (case dget raw (lit ''name'') of None \<Rightarrow> JStr default_name | Some n \<Rightarrow> n)) (\<lambda>name.
     rbind (case dget raw (lit ''description'') of
          None \<Rightarrow> Inr None | Some JNull \<Rightarrow> Inr None | Some (JStr s) \<Rightarrow> Inr (Some s)
        | Some _ \<Rightarrow> Inl (contract_error [lit ''contract description must be a string''])) (\<lambda>description.
     (case dget raw (lit ''assertions'') of
        Some (JList (j # js)) \<Rightarrow>
          rbind (traverse (\<lambda>(i, w). parse_assertion (lit ''assertion '' @ int_text i) (obj_of_json w)) (indexed (j # js)))
            (\<lambda>assertions. Inr \<lparr>con_name = name, con_description = description, con_assertions = assertions\<rparr>)
      | _ \<Rightarrow> Inl (contract_error [lit ''contract '', str_repr printable name,
               lit '' requires a non-empty assertions list'']))))))"

text \<open>The limit is applied to the raw lists, contract by contract, before any is parsed.\<close>

definition raw_assertion_count :: "json \<Rightarrow> int" where
  "raw_assertion_count v = (case v of
     JObj d \<Rightarrow> (case dget d (lit ''assertions'') of Some (JList js) \<Rightarrow> int (length js) | _ \<Rightarrow> 0) | _ \<Rightarrow> 0)"

abbreviation assertion_limit_error :: err where
  "assertion_limit_error \<equiv> contract_error [lit ''contract document exceeds the 1000-assertion input limit'']"

fun enforce_assertion_limit :: "int \<Rightarrow> json list \<Rightarrow> unit res" where
  "enforce_assertion_limit n [] = Inr ()"
| "enforce_assertion_limit n (v # vs) =
     (if raw_assertion_count v \<noteq> 0 \<and> n + raw_assertion_count v > max_contract_assertions then Inl assertion_limit_error
      else enforce_assertion_limit (n + raw_assertion_count v) vs)"

definition total_assertions :: "contract list \<Rightarrow> int" where
  "total_assertions cs = sum_list (map (\<lambda>c. int (length (con_assertions c))) cs)"

text \<open>\<open>load_contracts\<close> after the YAML document is read; \<open>stem\<close> is the file's name.\<close>

definition document_contracts :: "(nat \<Rightarrow> bool) \<Rightarrow> pystr \<Rightarrow> attrs \<Rightarrow> contract list res" where
  "document_contracts printable stem top_level =
     (let raw = (case dget top_level (lit ''contracts'') of None \<Rightarrow> JNull | Some v \<Rightarrow> v) in
      if raw = JNull then
        rbind (enforce_assertion_limit 0 [JObj top_level]) (\<lambda>_.
        rbind (parse_contract printable (obj_of_json (JObj top_level)) stem) (\<lambda>c. Inr [c]))
      else rbind (reject_unknown_fields top_level [lit ''contracts''] (lit ''contract document'')) (\<lambda>_.
        (case raw of
           JList (j # js) \<Rightarrow>
             rbind (enforce_assertion_limit 0 (j # js)) (\<lambda>_.
             traverse (\<lambda>(i, w). parse_contract printable (obj_of_json w) (cat [stem, lit ''-'', int_text i]))
               (indexed (j # js)))
         | _ \<Rightarrow> Inl (contract_error [lit ''contracts must be a non-empty list'']))))"

definition load_contracts :: "(nat \<Rightarrow> bool) \<Rightarrow> pystr \<Rightarrow> obj \<Rightarrow> contract list res" where
  "load_contracts printable stem document =
     rbind (contract_object (lit ''contract document'') document) (\<lambda>top_level.
     rbind (document_contracts printable stem top_level) (\<lambda>contracts.
     if total_assertions contracts > max_contract_assertions then Inl assertion_limit_error
     else Inr contracts))"

section \<open>Well-formed assertions\<close>

fun json_finite :: "json \<Rightarrow> bool" where
  "json_finite (JFloat x) = isfinite x"
| "json_finite (JList js) = list_all json_finite js"
| "json_finite (JObj d) = list_all (\<lambda>kv. json_finite (snd kv)) d"
| "json_finite _ = True"

definition number_ok :: "json option \<Rightarrow> bool" where
  "number_ok v \<longleftrightarrow> (\<exists>j x. v = Some j \<and> config_number j = Some (Inr x) \<and> isfinite x \<and> \<not> flt x (Fin 0))"

definition text_given :: "json option \<Rightarrow> bool" where
  "text_given v \<longleftrightarrow> (\<exists>s. v = Some (JStr s) \<and> s \<noteq> [])"

definition field_ok :: "attrs \<Rightarrow> pystr \<Rightarrow> bool" where
  "field_ok config f \<longleftrightarrow>
     (if f = lit ''percent'' \<or> f = lit ''factor'' then number_ok (dget config f) else text_given (dget config f))"

definition assertion_ok :: "assertion \<Rightarrow> bool" where
  "assertion_ok a \<longleftrightarrow> as_name a \<noteq> [] \<and> json_finite (JObj (as_config a)) \<and>
     dget (as_config a) (lit ''type'') = Some (JStr (as_type a)) \<and>
     dget (as_config a) (lit ''name'') \<in> {None, Some (JStr (as_name a))} \<and>
     (dget (as_config a) (lit ''name'') = None \<longrightarrow> as_name a = dashed (as_type a)) \<and>
     dget (as_config a) (lit ''relative_to'') \<in> {None, Some JNull, Some (JStr (lit ''baseline''))} \<and>
     (\<exists>required. dget assertion_fields (as_type a) = Some required \<and>
        (\<forall>f\<in>set required. field_ok (as_config a) f) \<and>
        fst ` set (as_config a) \<subseteq> {lit ''type'', lit ''name''} \<union> set required)"

lemma json_value_finite: "json_value label v = Inr j \<Longrightarrow> json_finite j"
proof (induction label v arbitrary: j rule: json_value.induct)
  case (6 label vs)
  then obtain js where js: "traverse (json_value label) vs = Inr js" "j = JList js" by (auto simp: res_simps)
  have "json_finite x" if "x \<in> set js" for x
    using traverse_Inr_mem [OF js(1) that] 6 by blast
  with js show ?case by (simp add: list_all_iff)
next
  case (7 label d)
  then obtain js where js: "traverse (\<lambda>(k, v). rbind (json_value label v) (\<lambda>v'.
      Inr (case k of OStr s \<Rightarrow> s | _ \<Rightarrow> [], v'))) d = Inr js" "j = JObj js"
    by (auto simp: res_simps split: if_splits)
  have "json_finite (snd x)" if "x \<in> set js" for x
    using traverse_Inr_mem [OF js(1) that] 7 by (fastforce simp: res_simps split: if_splits)
  with js show ?case by (simp add: list_all_iff)
qed (auto split: if_splits)

lemma json_value_obj_of_json: "json_finite j \<Longrightarrow> json_value label (obj_of_json j) = Inr j"
proof (induction j rule: obj_of_json.induct)
  case (6 js)
  then have "traverse (json_value label) (map obj_of_json js) = Inr js"
    by (auto simp: traverse_eq_Inr_iff list_all2_conv_all_nth list_all_length)
  then show ?case by simp
next
  case (7 d)
  then have "\<forall>kv\<in>set d. json_value label (obj_of_json (snd kv)) = Inr (snd kv)"
    by (auto simp: list_all_iff)
  then have "traverse (\<lambda>(k, v). rbind (json_value label v) (\<lambda>v'. Inr (case k of OStr s \<Rightarrow> s | _ \<Rightarrow> [], v')))
      (map (\<lambda>(k, v). (OStr k, obj_of_json v)) d) = Inr d"
    by (induction d) auto
  then show ?case by (auto simp: list_all_iff)
qed auto

lemma contract_object_Inr: "contract_object label v = Inr d \<Longrightarrow> json_value label v = Inr (JObj d)"
proof -
  assume "contract_object label v = Inr d"
  then obtain j where "json_value label v = Inr j"
      "(case j of JObj d \<Rightarrow> Inr d | _ \<Rightarrow> Inl (contract_error [label, lit '' must be an object''])) = Inr d"
    by (auto simp: contract_object_def res_simps)
  then show ?thesis by (cases j) auto
qed

lemma contract_object_obj_of_json: "json_finite (JObj d) \<Longrightarrow> contract_object label (obj_of_json (JObj d)) = Inr d"
  using json_value_obj_of_json [of "JObj d" label] by (simp add: contract_object_def)

lemma required_string_Inr [res_simps]: "required_string label v = Inr s \<longleftrightarrow> v = JStr s \<and> s \<noteq> []"
  by (auto simp: required_string_def split: json.splits if_splits)

lemma reject_unknown_fields_Inr [res_simps]:
  "reject_unknown_fields d allowed label = Inr u \<longleftrightarrow> fst ` set d \<subseteq> set allowed"
proof -
  have "sorted_texts xs = [] \<longleftrightarrow> xs = []" for xs
    using length_sort [of "\<lambda>s. s" xs] unfolding sorted_texts_def by (metis length_0_conv)
  then show ?thesis
    by (auto simp: reject_unknown_fields_def Let_def res_simps filter_empty_conv)
qed

lemma check_field_Inr [res_simps]: "check_field ty config f = Inr u \<longleftrightarrow> field_ok config f"
  by (auto simp: check_field_def field_ok_def number_ok_def text_given_def
      split: option.splits sum.splits json.splits)

lemma check_fields_Inr [res_simps]: "check_fields ty config fs = Inr u \<longleftrightarrow> (\<forall>f\<in>set fs. field_ok config f)"
  by (induction fs) (auto simp: res_simps)

lemma field_ok_has_key: "field_ok config f \<Longrightarrow> has_key config f"
  by (auto simp: field_ok_def number_ok_def text_given_def has_key_iff split: if_splits)

lemma validate_assertion_fields_Inr [res_simps]:
  "validate_assertion_fields required ty config = Inr u \<longleftrightarrow> (\<forall>f\<in>set required. field_ok config f) \<and>
     dget config (lit ''relative_to'') \<in> {None, Some JNull, Some (JStr (lit ''baseline''))}"
proof -
  have "sorted_texts xs = [] \<longleftrightarrow> xs = []" for xs
    using length_sort [of "\<lambda>s. s" xs] unfolding sorted_texts_def by (metis length_0_conv)
  then show ?thesis
    by (auto simp: validate_assertion_fields_def Let_def res_simps filter_empty_conv dest: field_ok_has_key)
qed

lemma option_step_Inr [res_simps]:
  "(case x of None \<Rightarrow> Inl e | Some r \<Rightarrow> f r) = Inr y \<longleftrightarrow> (\<exists>r. x = Some r \<and> f r = Inr y)"
  by (cases x) auto

lemma given_text_iff: "(case x of None \<Rightarrow> JNull | Some t \<Rightarrow> t) = JStr s \<longleftrightarrow> x = Some (JStr s)"
  by (cases x) auto

lemma default_text_iff:
  "(case x of None \<Rightarrow> JStr d | Some t \<Rightarrow> t) = JStr s \<longleftrightarrow> x \<in> {None, Some (JStr s)} \<and> (x = None \<longrightarrow> s = d)"
  by (cases x) auto

lemma parse_assertion_from_Inr:
  "parse_assertion_from table label v = Inr a \<longleftrightarrow>
     contract_object label v = Inr (as_config a) \<and>
     dget (as_config a) (lit ''type'') = Some (JStr (as_type a)) \<and> as_type a \<noteq> [] \<and>
     (\<exists>required. dget table (as_type a) = Some required \<and>
        fst ` set (as_config a) \<subseteq> {lit ''type'', lit ''name''} \<union> set required \<and>
        (\<forall>f\<in>set required. field_ok (as_config a) f)) \<and>
     dget (as_config a) (lit ''relative_to'') \<in> {None, Some JNull, Some (JStr (lit ''baseline''))} \<and>
     dget (as_config a) (lit ''name'') \<in> {None, Some (JStr (as_name a))} \<and>
     (dget (as_config a) (lit ''name'') = None \<longrightarrow> as_name a = dashed (as_type a)) \<and>
     as_name a \<noteq> []"
proof -
  obtain ty name config where a: "a = \<lparr>as_type = ty, as_name = name, as_config = config\<rparr>" by (cases a)
  have s: "set ([lit ''type'', lit ''name''] @ required) = {lit ''type'', lit ''name''} \<union> set required" for required
    by auto
  show ?thesis
    unfolding parse_assertion_from_def res_simps given_text_iff default_text_iff a s by auto
qed

section \<open>The canonical form\<close>

lemma map_of_filter_key: "map_of d k = map_of (filter (\<lambda>kv. fst kv = k) d) k"
  by (induction d) auto

lemma map_of_sort_members [simp]: "map_of (sort_members d) = map_of d"
proof
  fix k
  have "filter (\<lambda>kv. fst kv = k) (sort_members d) = filter (\<lambda>kv. fst kv = k) d"
    using sort_key_stable [of fst k d] by (simp add: sort_members_def)
  then show "map_of (sort_members d) k = map_of d k"
    using map_of_filter_key [of "sort_members d" k] map_of_filter_key [of d k] by simp
qed

lemma map_of_filter_other: "P k \<Longrightarrow> map_of (filter (\<lambda>kv. P (fst kv)) d) k = map_of d k"
  by (induction d) auto

abbreviation own_field :: "pystr \<Rightarrow> bool" where
  "own_field k \<equiv> k \<noteq> lit ''type'' \<and> k \<noteq> lit ''name''"

lemma dget_assertion_json:
  "dget (assertion_json a) k =
     (if k = lit ''type'' then Some (JStr (as_type a)) else if k = lit ''name'' then Some (JStr (as_name a))
      else dget (as_config a) k)"
  using map_of_filter_other [of own_field k "as_config a"] by (simp add: assertion_json_def)

lemma assertion_json_keys:
  "fst ` set (assertion_json a) = {lit ''type'', lit ''name''} \<union> fst ` set (as_config a)"
  by (auto simp: assertion_json_def)

lemma assertion_json_finite: "json_finite (JObj (as_config a)) \<Longrightarrow> json_finite (JObj (assertion_json a))"
  by (auto simp: assertion_json_def list_all_iff)

lemma field_ok_json: "own_field f \<Longrightarrow> field_ok (assertion_json a) f = field_ok (as_config a) f"
  by (simp add: field_ok_def dget_assertion_json)

lemma sort_members_sorted: "sorted (map fst d) \<Longrightarrow> sort_members d = d"
  by (simp add: sort_members_def sort_key_id_if_sorted)

lemma sort_members_idem [simp]: "sort_members (sort_members d) = sort_members d"
  by (rule sort_members_sorted) (simp add: sort_members_def)

lemma assertion_json_canonical:
  assumes "as_type b = as_type a" "as_name b = as_name a" "as_config b = assertion_json a"
  shows "assertion_json b = assertion_json a"
proof -
  have "filter (\<lambda>kv. own_field (fst kv)) (sort_members (filter (\<lambda>kv. own_field (fst kv)) (as_config a))) =
      sort_members (filter (\<lambda>kv. own_field (fst kv)) (as_config a))"
    by (rule filter_True) simp
  with assms show ?thesis by (simp add: assertion_json_def)
qed

lemma required_own_field:
  "dget assertion_fields ty = Some required \<Longrightarrow> f \<in> set required \<Longrightarrow> own_field f"
  by (auto simp: assertion_fields_def split: if_splits)

lemma parse_assertion_ok: "parse_assertion label v = Inr a \<Longrightarrow> assertion_ok a"
  unfolding parse_assertion_def parse_assertion_from_Inr assertion_ok_def
  using json_value_finite [OF contract_object_Inr] by blast

lemma parse_assertion_json:
  assumes ok: "assertion_ok a" and ty: "as_type a \<noteq> []"
  shows "parse_assertion label (obj_of_json (JObj (assertion_json a))) = Inr (a\<lparr>as_config := assertion_json a\<rparr>)"
proof -
  obtain required where req: "dget assertion_fields (as_type a) = Some required"
      "\<forall>f\<in>set required. field_ok (as_config a) f" "fst ` set (as_config a) \<subseteq> {lit ''type'', lit ''name''} \<union> set required"
    using ok unfolding assertion_ok_def by blast
  have "contract_object label (obj_of_json (JObj (assertion_json a))) = Inr (assertion_json a)"
    using ok by (intro contract_object_obj_of_json assertion_json_finite) (simp add: assertion_ok_def)
  moreover have "\<forall>f\<in>set required. field_ok (assertion_json a) f"
    using req field_ok_json required_own_field by blast
  moreover have "fst ` set (assertion_json a) \<subseteq> {lit ''type'', lit ''name''} \<union> set required"
    using req(3) unfolding assertion_json_keys by blast
  ultimately show ?thesis
    using ok ty req(1) unfolding parse_assertion_def parse_assertion_from_Inr
    by (simp add: dget_assertion_json assertion_ok_def del: obj_of_json.simps)
qed

section \<open>Properties\<close>

text \<open>C38. A parsed assertion has a supported type, every field its type requires with a value of the
  right kind and range, and no other field; and its canonical report form parses again to an
  assertion of the same type, name and canonical form.\<close>

theorem parse_assertion_sound_and_canonical:
  assumes "parse_assertion label v = Inr a"
  shows "assertion_ok a \<and>
    (\<exists>b. parse_assertion label' (obj_of_json (JObj (assertion_json a))) = Inr b \<and>
       as_type b = as_type a \<and> as_name b = as_name a \<and> assertion_json b = assertion_json a)"
proof -
  have ok: "assertion_ok a" by (rule parse_assertion_ok [OF assms])
  have "as_type a \<noteq> []" using assms by (simp add: parse_assertion_def parse_assertion_from_Inr)
  from parse_assertion_json [OF ok this, of label'] ok show ?thesis
    using assertion_json_canonical [of "a\<lparr>as_config := assertion_json a\<rparr>" a] by auto
qed

definition sample_assertion_value :: obj where
  "sample_assertion_value = ODict [(OStr (lit ''type''), OStr (lit ''max_operation_count'')),
     (OStr (lit ''relative_to''), OStr (lit ''baseline'')), (OStr (lit ''operation''), OStr (lit ''SELECT'')),
     (OStr (lit ''factor''), OInt 2)]"

definition sample_assertion :: assertion where
  "sample_assertion = \<lparr>as_type = lit ''max_operation_count'', as_name = lit ''max-operation-count'',
     as_config = [(lit ''type'', JStr (lit ''max_operation_count'')), (lit ''relative_to'', JStr (lit ''baseline'')),
       (lit ''operation'', JStr (lit ''SELECT'')), (lit ''factor'', JInt 2)]\<rparr>"

lemma sample_assertion_parses: "parse_assertion (lit ''assertion'') sample_assertion_value = Inr sample_assertion"
  by code_simp

theorem parse_assertion_sound_and_canonical_witness:
  "assertion_ok sample_assertion \<and> (\<exists>b. parse_assertion (lit ''again'') (obj_of_json (JObj (assertion_json sample_assertion))) = Inr b \<and>
     as_name b = lit ''max-operation-count'')"
  using parse_assertion_sound_and_canonical [OF sample_assertion_parses, of "lit ''again''"]
  by (auto simp: sample_assertion_def)

text \<open>The order in which the required fields of a type are enumerated decides at most which
  error is reported: the accepted assertions and their parses are the same.\<close>

theorem parse_assertion_any_field_order:
  assumes "\<And>ty. rel_option (\<lambda>r s. set r = set s) (dget table ty) (dget assertion_fields ty)"
  shows "parse_assertion_from table label v = Inr a \<longleftrightarrow> parse_assertion label v = Inr a"
proof -
  have "(\<exists>required. dget table (as_type a) = Some required \<and> P (set required)) \<longleftrightarrow>
      (\<exists>required. dget assertion_fields (as_type a) = Some required \<and> P (set required))" for P
    using assms [of "as_type a"] by (auto simp: option_rel_Some1 option_rel_Some2)
  from this [of "\<lambda>R. fst ` set (as_config a) \<subseteq> {lit ''type'', lit ''name''} \<union> R \<and> (\<forall>f\<in>R. field_ok (as_config a) f)"]
  show ?thesis unfolding parse_assertion_def parse_assertion_from_Inr by simp
qed

definition reversed_fields :: "(pystr, pystr list) dict" where
  "reversed_fields = map (\<lambda>(ty, fs). (ty, rev fs)) assertion_fields"

theorem parse_assertion_any_field_order_witness:
  "parse_assertion_from reversed_fields (lit ''assertion'') sample_assertion_value = Inr sample_assertion"
proof -
  have "rel_option (\<lambda>r s. set r = set s) (dget reversed_fields ty) (dget assertion_fields ty)" for ty
    unfolding reversed_fields_def map_of_map by (cases "dget assertion_fields ty") auto
  then show ?thesis
    using parse_assertion_any_field_order [of reversed_fields "lit ''assertion''" sample_assertion_value sample_assertion]
      sample_assertion_parses by blast
qed

definition contract_ok :: "contract \<Rightarrow> bool" where
  "contract_ok c \<longleftrightarrow> con_name c \<noteq> [] \<and> con_assertions c \<noteq> [] \<and> (\<forall>a\<in>set (con_assertions c). assertion_ok a)"

lemma length_indexed [simp]: "length (indexed xs) = length xs"
  by (simp add: indexed_def del: upt_Suc)

lemma parse_contract_ok:
  assumes "parse_contract printable v name = Inr c"
  shows "contract_ok c"
proof -
  obtain n d j js as where
    n: "n \<noteq> []" and as: "traverse (\<lambda>(i, w). parse_assertion (lit ''assertion '' @ int_text i) (obj_of_json w)) (indexed (j # js)) = Inr as"
    and c: "c = \<lparr>con_name = n, con_description = d, con_assertions = as\<rparr>"
    using assms unfolding parse_contract_def res_simps by (fastforce split: option.splits json.splits list.splits simp: res_simps)
  have "as \<noteq> []" using traverse_length [OF as] by auto
  moreover have "assertion_ok a" if "a \<in> set as" for a
    using traverse_Inr_mem [OF as that] parse_assertion_ok by fastforce
  ultimately show ?thesis using n c by (simp add: contract_ok_def)
qed

text \<open>The contracts come from the document itself or from its list \<open>contracts\<close>.\<close>

abbreviation listed_contracts :: "(nat \<Rightarrow> bool) \<Rightarrow> pystr \<Rightarrow> json list \<Rightarrow> contract list res" where
  "listed_contracts printable stem js \<equiv>
     traverse (\<lambda>(i, w). parse_contract printable (obj_of_json w) (cat [stem, lit ''-'', int_text i])) (indexed js)"

lemma document_contracts_cases:
  assumes "document_contracts printable stem top_level = Inr cs"
  shows "(\<exists>c. parse_contract printable (obj_of_json (JObj top_level)) stem = Inr c \<and> cs = [c]) \<or>
    (\<exists>js. js \<noteq> [] \<and> listed_contracts printable stem js = Inr cs)"
proof -
  define raw where "raw = (case dget top_level (lit ''contracts'') of None \<Rightarrow> JNull | Some v \<Rightarrow> v)"
  note run = assms [unfolded document_contracts_def Let_def, folded raw_def]
  show ?thesis
  proof (cases raw)
    case JNull
    with run show ?thesis by (auto simp: rbind_eq_Inr_iff simp del: obj_of_json.simps)
  next
    case (JList js)
    with run show ?thesis by (cases js) (auto simp: rbind_eq_Inr_iff simp del: obj_of_json.simps)
  qed (use run in \<open>simp_all add: rbind_eq_Inr_iff\<close>)
qed

lemma load_contracts_cases:
  assumes "load_contracts printable stem document = Inr cs"
  shows "total_assertions cs \<le> max_contract_assertions \<and> (\<exists>top_level. document_contracts printable stem top_level = Inr cs)"
  using assms by (auto simp: load_contracts_def res_simps split: if_splits)

lemma load_contracts_ok:
  assumes "load_contracts printable stem document = Inr cs"
  shows "cs \<noteq> [] \<and> total_assertions cs \<le> 1000 \<and> list_all contract_ok cs"
proof -
  obtain top_level where total: "total_assertions cs \<le> 1000" and "document_contracts printable stem top_level = Inr cs"
    using load_contracts_cases [OF assms] by (auto simp: max_contract_assertions_def)
  note cases = document_contracts_cases [OF this(2)]
  from cases have "cs \<noteq> [] \<and> (\<forall>c\<in>set cs. contract_ok c)"
  proof (elim disjE exE conjE)
    fix c
    assume "parse_contract printable (obj_of_json (JObj top_level)) stem = Inr c" "cs = [c]"
    then show ?thesis using parse_contract_ok by auto
  next
    fix js
    assume js: "js \<noteq> []" and t: "listed_contracts printable stem js = Inr cs"
    have "cs \<noteq> []" using traverse_length [OF t] js by auto
    moreover have "contract_ok c" if "c \<in> set cs" for c
      using traverse_Inr_mem [OF t that] parse_contract_ok by fastforce
    ultimately show ?thesis by blast
  qed
  with total show ?thesis by (simp add: list_all_iff)
qed

text \<open>A contract document that loads has at least one contract and at most 1000 assertions, and
  every contract has a name and at least one assertion, all of them well formed.\<close>

theorem load_contracts_well_formed:
  assumes "load_contracts printable stem document = Inr cs"
  shows "cs \<noteq> [] \<and> total_assertions cs \<le> 1000 \<and> list_all contract_ok cs"
  by (rule load_contracts_ok [OF assms])

definition sample_document :: obj where
  "sample_document = ODict [(OStr (lit ''name''), OStr (lit ''api'')), (OStr (lit ''assertions''), OList [sample_assertion_value])]"

theorem load_contracts_well_formed_witness:
  "\<exists>cs. load_contracts sample_printable (lit ''contract'') sample_document = Inr cs \<and> total_assertions cs = 1 \<and>
     list_all contract_ok cs"
proof -
  have "(case load_contracts sample_printable (lit ''contract'') sample_document of Inr cs \<Rightarrow> total_assertions cs = 1 | _ \<Rightarrow> False)"
    by code_simp
  then obtain cs where cs: "load_contracts sample_printable (lit ''contract'') sample_document = Inr cs" "total_assertions cs = 1"
    by (auto split: sum.splits)
  from load_contracts_well_formed [OF cs(1)] cs show ?thesis by blast
qed

end
