(* ===== verification/Verify.thy ===== *)
theory Verify
  imports RunDiffLaws Contracts
begin

text \<open>
  \<open>proofline/verify.py\<close>: evaluation of contract assertions against the comparison of two
  runs. A claim passes, fails, or is unverifiable when the evidence it needs is incomplete.
  \<open>evaluate\<close> is the dispatch on the assertion type; each branch of the source is a
  definition of its own.
\<close>

section \<open>Results\<close>

datatype claim_status = Pass | Fail | Unverifiable

definition status_text :: "claim_status \<Rightarrow> pystr" where
  "status_text s = (case s of Pass \<Rightarrow> lit ''pass'' | Fail \<Rightarrow> lit ''fail'' | Unverifiable \<Rightarrow> lit ''unverifiable'')"

record diff_evidence =
  de_path :: pystr
  de_selector :: "(pystr \<times> pystr) list"
  de_fact :: attrs

definition evidence :: "string \<Rightarrow> (pystr \<times> pystr) list \<Rightarrow> diff_evidence" where
  "evidence path selector = \<lparr>de_path = lit path, de_selector = sort_members selector, de_fact = []\<rparr>"

definition with_fact :: "attrs \<Rightarrow> diff_evidence \<Rightarrow> diff_evidence" where
  "with_fact facts e = e\<lparr>de_fact := facts\<rparr>"

definition evidence_json :: "diff_evidence \<Rightarrow> attrs" where
  "evidence_json e =
     [(lit ''diff_path'', JStr (de_path e)),
      (lit ''selector'', JObj (map (\<lambda>(k, v). (k, JStr v)) (de_selector e))),
      (lit ''fact'', JObj (de_fact e))]"

record claim_result =
  cl_contract :: pystr
  cl_name :: pystr
  cl_type :: pystr
  cl_status :: claim_status
  cl_expected :: pystr
  cl_observed :: pystr
  cl_evidence :: "diff_evidence list"
  cl_assertion :: "assertion option"

definition claim_json :: "bool \<Rightarrow> claim_result \<Rightarrow> attrs" where
  "claim_json include_evidence r =
     [(lit ''contract'', JStr (cl_contract r)), (lit ''name'', JStr (cl_name r)), (lit ''type'', JStr (cl_type r)),
      (lit ''status'', JStr (status_text (cl_status r))), (lit ''expected'', JStr (cl_expected r)),
      (lit ''observed'', JStr (cl_observed r))] @
     (if include_evidence then
        [(lit ''evidence'', JList (map (\<lambda>e. JObj (evidence_json e)) (cl_evidence r)))] @
        (case cl_assertion r of None \<Rightarrow> [] | Some a \<Rightarrow> [(lit ''assertion'', JObj (assertion_json a))])
      else [])"

record verification_report =
  vr_baseline_id :: pystr
  vr_candidate_id :: pystr
  vr_results :: "claim_result list"

definition passed :: "verification_report \<Rightarrow> bool" where
  "passed r \<longleftrightarrow> list_all (\<lambda>c. cl_status c = Pass) (vr_results r)"

text \<open>The report; the artifact bindings are the JSON form of the two artifact identities.\<close>

definition report_json :: "bool \<Rightarrow> attrs option \<Rightarrow> verification_report \<Rightarrow> attrs res" where
  "report_json include_evidence bindings r =
     rbind (output_document (lit ''proofline.verification'')
        [(lit ''baseline_id'', JStr (vr_baseline_id r)), (lit ''candidate_id'', JStr (vr_candidate_id r)),
         (lit ''passed'', JBool (passed r)), (lit ''claim_count'', JInt (int (length (vr_results r)))),
         (lit ''results'', JList (map (\<lambda>c. JObj (claim_json include_evidence c)) (vr_results r)))]) (\<lambda>document.
     Inr (case bindings of None \<Rightarrow> document | Some b \<Rightarrow> dset (lit ''artifact_bindings'') (JObj b) document))"

definition claim :: "contract \<Rightarrow> assertion \<Rightarrow> claim_status \<Rightarrow> pystr \<Rightarrow> pystr \<Rightarrow> diff_evidence \<Rightarrow> claim_result" where
  "claim con a status expected observed e =
     \<lparr>cl_contract = con_name con, cl_name = as_name a, cl_type = as_type a, cl_status = status,
      cl_expected = expected, cl_observed = observed, cl_evidence = [e], cl_assertion = Some a\<rparr>"

section \<open>Configuration\<close>

definition config_float :: "assertion \<Rightarrow> string \<Rightarrow> pyfloat res" where
  "config_float a key =
     (case (case dget (as_config a) (lit key) of None \<Rightarrow> None | Some v \<Rightarrow> config_number v) of
        None \<Rightarrow> Inl (contract_error [as_type a, lit '' requires numeric '', lit key])
      | Some (Inl _) \<Rightarrow> Inl (contract_error [as_type a, lit '' '', lit key, lit '' exceeds the numeric range''])
      | Some (Inr x) \<Rightarrow>
          if isfinite x then Inr x else Inl (contract_error [as_type a, lit '' '', lit key, lit '' must be finite'']))"

definition config_text :: "assertion \<Rightarrow> string \<Rightarrow> pystr res" where
  "config_text a key = (case dget (as_config a) (lit key) of
     Some (JStr s) \<Rightarrow> if s = [] then Inl (contract_error [as_type a, lit '' requires string '', lit key]) else Inr s
   | _ \<Rightarrow> Inl (contract_error [as_type a, lit '' requires string '', lit key]))"

abbreviation threshold_error :: "assertion \<Rightarrow> err" where
  "threshold_error a \<equiv> contract_error [as_type a, lit '' threshold exceeds the numeric range'']"

definition finite_limit :: "assertion \<Rightarrow> pyfloat \<Rightarrow> pyfloat res" where
  "finite_limit a x = (if isfinite x then Inr x else Inl (threshold_error a))"

definition exit_status :: "int option \<Rightarrow> pystr" where
  "exit_status c = (case c of None \<Rightarrow> lit ''unavailable''
     | Some n \<Rightarrow> if n < 0 then lit ''signal '' @ int_text (- n) else lit ''exit '' @ int_text n)"

fun json_of_int :: "int option \<Rightarrow> json" where
  "json_of_int None = JNull"
| "json_of_int (Some i) = JInt i"

fun json_of_float :: "pyfloat option \<Rightarrow> json" where
  "json_of_float None = JNull"
| "json_of_float (Some x) = JFloat x"

fun json_of_bool :: "bool option \<Rightarrow> json" where
  "json_of_bool None = JNull"
| "json_of_bool (Some b) = JBool b"

section \<open>Regressions\<close>

definition regression_limit :: "pyfloat \<Rightarrow> pyfloat \<Rightarrow> pyfloat res" where
  "regression_limit baseline percent =
     rbind (fdiv percent (Fin 100)) (\<lambda>share. Inr (fmul baseline (fadd (Fin 1) share)))"

definition max_regression ::
  "contract \<Rightarrow> assertion \<Rightarrow> value_change \<Rightarrow> string \<Rightarrow> diff_evidence \<Rightarrow> pystr \<times> pystr \<Rightarrow> claim_result res" where
  "max_regression con a change label e modes =
     rbind (config_float a ''percent'') (\<lambda>percent.
     rbind (raise_if (flt percent (Fin 0)) (contract_error [as_type a, lit '' percent cannot be negative''])) (\<lambda>_.
     let expected = cat [lit ''candidate '', lit label, lit '' <= baseline + '', fmt_g percent, lit ''%''] in
     if fst modes \<noteq> snd modes then
       Inr (claim con a Unverifiable expected
         (cat [lit ''timing instrumentation differs (baseline='', fst modes, lit '', candidate='', snd modes, lit '')''])
         (with_fact [(lit ''baseline_instrumentation'', JStr (fst modes)),
            (lit ''candidate_instrumentation'', JStr (snd modes)), (lit ''limit'', JNull)] e))
     else (case (vc_baseline change, vc_candidate change) of
       (Some b, Some c) \<Rightarrow>
         rbind (regression_limit b percent) (\<lambda>raw.
         rbind (finite_limit a raw) (\<lambda>limit.
         Inr (claim con a (if fle c limit then Pass else Fail) expected
           (cat [lit ''baseline='', fmt_g b, lit '', candidate='', fmt_g c, lit '', limit='', fmt_g limit])
           (with_fact [(lit ''baseline'', JFloat b), (lit ''candidate'', JFloat c), (lit ''limit'', JFloat limit)] e))))
     | (b, c) \<Rightarrow>
         Inr (claim con a Unverifiable expected (lit label @ lit '' unavailable'')
           (with_fact [(lit ''baseline'', json_of_float b), (lit ''candidate'', json_of_float c), (lit ''limit'', JNull)] e)))))"

section \<open>Completeness of evidence\<close>

definition observation :: "pystr list \<Rightarrow> string \<Rightarrow> pystr option" where
  "observation gaps title =
     (if gaps = [] then None else Some (cat [lit title, lit '' incomplete ('', join (lit ''; '') gaps, lit '')'']))"

definition incomplete_output_observation :: "execution_diff \<Rightarrow> pystr option" where
  "incomplete_output_observation d = observation
     ((if lit ''stdout'' \<in> set (ds_incomplete_streams (ed_baseline d)) then [lit ''baseline: stdout''] else []) @
      (if lit ''stdout'' \<in> set (ds_incomplete_streams (ed_candidate d)) then [lit ''candidate: stdout''] else []))
     ''output identity''"

text \<open>A count that is unknown or not zero is a gap.\<close>

definition count_gap :: "string \<Rightarrow> string \<times> int option \<Rightarrow> pystr list" where
  "count_gap what = (\<lambda>(side, count). (case count of
     None \<Rightarrow> [lit side @ lit '': completeness unknown'']
   | Some n \<Rightarrow> if n \<noteq> 0 then [cat [lit side, lit '': '', int_text n, lit what]] else []))"

definition incomplete_causal_observation :: "execution_diff \<Rightarrow> pystr option" where
  "incomplete_causal_observation d = observation
     (concat (map (count_gap '' unresolved references'')
        [(''baseline'', ds_missing_causal_references (ed_baseline d)),
         (''candidate'', ds_missing_causal_references (ed_candidate d))])) ''causal evidence''"

definition incomplete_semantic_observation :: "execution_diff \<Rightarrow> pystr option" where
  "incomplete_semantic_observation d = observation
     (concat (map (count_gap '' dropped attributes'')
        [(''baseline'', ds_dropped_attribute_count (ed_baseline d)),
         (''candidate'', ds_dropped_attribute_count (ed_candidate d))])) ''semantic evidence''"

text \<open>The gap of one capture on one side; \<open>absent\<close> are the statuses of a capture not taken.\<close>

definition capture_gap ::
  "(pystr option \<Rightarrow> bool) \<Rightarrow> string \<Rightarrow> string \<times> pystr option \<times> int option \<Rightarrow> pystr list" where
  "capture_gap absent what = (\<lambda>(side, status, dropped).
     if absent status then [cat [lit side, lit '': '', lit what, lit '' capture unavailable'']]
     else if status \<noteq> Some (lit ''complete'') then
       [cat [lit side, lit '': '', lit what, lit '' capture '', the status,
          (case dropped of Some n \<Rightarrow> if 0 < n then cat [lit '', '', int_text n, lit '' omitted''] else [] | None \<Rightarrow> [])]]
     else [])"

definition capture_gaps ::
  "(pystr option \<Rightarrow> bool) \<Rightarrow> string \<Rightarrow> pystr option \<times> int option \<Rightarrow> pystr option \<times> int option \<Rightarrow> pystr list" where
  "capture_gaps absent what b c =
     (if absent (fst b) \<and> absent (fst c) then []
      else concat (map (capture_gap absent what) [(''baseline'', b), (''candidate'', c)]))"

definition not_captured :: "pystr option \<Rightarrow> bool" where
  "not_captured s \<longleftrightarrow> s = None"

definition incomplete_subprocess_observation :: "execution_diff \<Rightarrow> pystr option" where
  "incomplete_subprocess_observation d = observation
     (capture_gaps not_captured ''subprocess'' (ds_semantic (ed_baseline d)) (ds_semantic (ed_candidate d)))
     ''subprocess evidence''"

definition incomplete_http_observation :: "execution_diff \<Rightarrow> pystr option" where
  "incomplete_http_observation d = observation
     (capture_gaps not_captured ''HTTP'' (ds_http (ed_baseline d)) (ds_http (ed_candidate d))) ''HTTP evidence''"

definition incomplete_network_observation :: "execution_diff \<Rightarrow> pystr option" where
  "incomplete_network_observation d = observation
     (capture_gaps not_captured ''network'' (ds_network (ed_baseline d)) (ds_network (ed_candidate d)))
     ''network evidence''"

definition incomplete_network_setup_observation :: "execution_diff \<Rightarrow> pystr option" where
  "incomplete_network_setup_observation d = observation
     (capture_gaps not_captured ''network setup'' (ds_network_setup (ed_baseline d)) (ds_network_setup (ed_candidate d)))
     ''network setup evidence''"

definition incomplete_logical_operation_observation :: "execution_diff \<Rightarrow> pystr option" where
  "incomplete_logical_operation_observation d = observation
     (capture_gaps absent_status ''logical operation''
        (ds_logical_operation (ed_baseline d)) (ds_logical_operation (ed_candidate d)))
     ''logical operation evidence''"

section \<open>Totals\<close>

definition operation_totals :: "bool \<Rightarrow> pystr \<Rightarrow> reader \<Rightarrow> int res" where
  "operation_totals errors_only operation rd =
     rbind (if errors_only then operation_error_counts rd else operation_counts rd) (\<lambda>counts.
     Inr (sum_where (\<lambda>(_, _, _, name). name = operation) counts))"

definition dependency_total :: "reader \<Rightarrow> pystr \<Rightarrow> pystr \<Rightarrow> int res" where
  "dependency_total rd source target =
     rbind (edge_counts rd) (\<lambda>edges.
     rbind (peer_service_edge_counts rd) (\<lambda>peers.
     Inr (sum_where (\<lambda>(_, s, _, t, _). s = source \<and> t = target) edges +
          sum_where (\<lambda>(_, s, _, t, _). s = source \<and> t = target) peers)))"

section \<open>Evaluation\<close>

definition evaluate_exit_success :: "contract \<Rightarrow> assertion \<Rightarrow> execution_diff \<Rightarrow> claim_result" where
  "evaluate_exit_success con a d =
     (let code = ref_exit_code (ds_reference (ed_candidate d)) in
      claim con a (case code of None \<Rightarrow> Unverifiable | Some n \<Rightarrow> if n = 0 then Pass else Fail)
        (lit ''candidate exits successfully'') (lit ''candidate='' @ exit_status code)
        (with_fact [(lit ''candidate_exit_code'', json_of_int code)] (evidence ''/candidate/exit_code'' [])))"

fun verdict :: "bool option \<Rightarrow> claim_status" where
  "verdict None = Unverifiable"
| "verdict (Some b) = (if b then Pass else Fail)"

definition evaluate_exit_equivalent :: "contract \<Rightarrow> assertion \<Rightarrow> execution_diff \<Rightarrow> claim_result" where
  "evaluate_exit_equivalent con a d =
     (let b = ref_exit_code (ds_reference (ed_baseline d)); c = ref_exit_code (ds_reference (ed_candidate d)) in
      claim con a (verdict (ed_exit_code_equivalent d)) (lit ''equivalent exit status'')
        (cat [lit ''baseline='', exit_status b, lit '', candidate='', exit_status c])
        (with_fact [(lit ''baseline_exit_code'', json_of_int b), (lit ''candidate_exit_code'', json_of_int c),
            (lit ''equivalent'', json_of_bool (ed_exit_code_equivalent d))] (evidence ''/exit_code_equivalent'' [])))"

definition evaluate_output_equivalent :: "contract \<Rightarrow> assertion \<Rightarrow> execution_diff \<Rightarrow> claim_result" where
  "evaluate_output_equivalent con a d =
     claim con a (verdict (ed_output_equivalent d)) (lit ''equivalent output'')
       (case ed_output_equivalent d of
          None \<Rightarrow> (case incomplete_output_observation d of None \<Rightarrow> lit ''output identity unavailable'' | Some t \<Rightarrow> t)
        | Some b \<Rightarrow> if b then lit ''equivalent'' else lit ''different'')
       (with_fact [(lit ''equivalent'', json_of_bool (ed_output_equivalent d))] (evidence ''/output_equivalent'' []))"

definition timing_modes :: "execution_diff \<Rightarrow> pystr \<times> pystr" where
  "timing_modes d = (ds_instrumentation_mode (ed_baseline d), ds_instrumentation_mode (ed_candidate d))"

text \<open>The first observation of incomplete evidence.\<close>

fun first_some :: "'a option list \<Rightarrow> 'a option" where
  "first_some [] = None"
| "first_some (None # xs) = first_some xs"
| "first_some (Some x # xs) = Some x"

definition annotation_gap :: "execution_diff \<Rightarrow> pystr option" where
  "annotation_gap d =
     (if truthy_text (ds_annotation_error (ed_baseline d)) \<or> truthy_text (ds_annotation_error (ed_candidate d))
      then Some (lit ''annotation evidence incomplete'') else None)"

definition dependency_gap :: "execution_diff \<Rightarrow> pystr option" where
  "dependency_gap d =
     first_some [annotation_gap d, incomplete_semantic_observation d, incomplete_causal_observation d]"

definition evaluate_dependency :: "contract \<Rightarrow> assertion \<Rightarrow> execution_diff \<Rightarrow> reader \<Rightarrow> reader \<Rightarrow> claim_result res" where
  "evaluate_dependency con a d baseline candidate =
     rbind (config_text a ''from'') (\<lambda>source.
     rbind (config_text a ''to'') (\<lambda>target.
     let e = evidence ''/edge_count_changes'' [(lit ''source_name'', source), (lit ''target_name'', target)];
         expected = cat [lit ''no new dependency '', source, lit '' -> '', target] in
     (case dependency_gap d of
        Some observed \<Rightarrow> Inr (claim con a Unverifiable expected observed
          (with_fact [(lit ''baseline'', JNull), (lit ''candidate'', JNull)] e))
      | None \<Rightarrow>
          rbind (dependency_total baseline source target) (\<lambda>b.
          rbind (dependency_total candidate source target) (\<lambda>c.
          let violation = (b = 0 \<and> 0 < c) in
          Inr (claim con a (if violation then Fail else Pass) expected
            (if violation then lit ''candidate count='' @ int_text c else lit ''not observed'')
            (with_fact [(lit ''baseline'', JInt b), (lit ''candidate'', JInt c)] e)))))))"

definition operation_gap :: "bool \<Rightarrow> execution_diff \<Rightarrow> pystr option" where
  "operation_gap errors_only d =
     first_some ([annotation_gap d, incomplete_subprocess_observation d, incomplete_http_observation d,
       incomplete_network_observation d, incomplete_network_setup_observation d,
       incomplete_logical_operation_observation d] @
       (if errors_only then [incomplete_semantic_observation d] else []))"

text \<open>\<open>before * factor\<close>: the count is converted first, which may overflow.\<close>

definition count_limit :: "assertion \<Rightarrow> int \<Rightarrow> pyfloat \<Rightarrow> pyfloat res" where
  "count_limit a before factor =
     (case float_of_int before of Inl _ \<Rightarrow> Inl (threshold_error a) | Inr x \<Rightarrow> finite_limit a (fmul x factor))"

text \<open>The comparison of the two counts, once the evidence is complete.\<close>

definition operation_verdict ::
  "contract \<Rightarrow> assertion \<Rightarrow> bool \<Rightarrow> pystr \<Rightarrow> pyfloat \<Rightarrow> pystr \<Rightarrow> diff_evidence \<Rightarrow> reader \<Rightarrow> reader \<Rightarrow> claim_result res" where
  "operation_verdict con a errors_only operation factor expected e baseline candidate =
     rbind (operation_totals False operation baseline) (\<lambda>baseline_operations.
     rbind (operation_totals False operation candidate) (\<lambda>candidate_operations.
     if baseline_operations = 0 \<and> candidate_operations = 0 then
       Inr (claim con a Unverifiable expected
         (cat [lit ''operation '', operation, lit '' not observed in either run''])
         (with_fact [(lit ''baseline'', JInt 0), (lit ''candidate'', JInt 0), (lit ''limit'', JFloat (Fin 0))] e))
     else
       rbind (if errors_only then operation_totals True operation baseline else Inr baseline_operations) (\<lambda>before.
       rbind (if errors_only then operation_totals True operation candidate else Inr candidate_operations) (\<lambda>after.
       rbind (count_limit a before factor) (\<lambda>limit.
       Inr (claim con a (if fle (Fin (of_int after)) limit then Pass else Fail) expected
         (cat [lit ''baseline='', int_text before, lit '', candidate='', int_text after, lit '', limit='', fmt_g limit])
         (with_fact [(lit ''baseline'', JInt before), (lit ''candidate'', JInt after), (lit ''limit'', JFloat limit)] e)))))))"

definition evaluate_operation_count ::
  "contract \<Rightarrow> assertion \<Rightarrow> bool \<Rightarrow> execution_diff \<Rightarrow> reader \<Rightarrow> reader \<Rightarrow> claim_result res" where
  "evaluate_operation_count con a errors_only d baseline candidate =
     rbind (config_text a ''operation'') (\<lambda>operation.
     let e = evidence (if errors_only then ''/operation_error_count_changes'' else ''/operation_count_changes'')
           [(lit ''operation_name'', operation)];
         count_label = (if errors_only then operation @ lit '' error'' else operation) in
     rbind (config_text a ''relative_to'') (\<lambda>relative_to.
     rbind (raise_if (relative_to \<noteq> lit ''baseline'') (contract_error [as_type a, lit '' relative_to must be baseline''])) (\<lambda>_.
     rbind (config_float a ''factor'') (\<lambda>factor.
     rbind (raise_if (flt factor (Fin 0)) (contract_error [as_type a, lit '' factor cannot be negative''])) (\<lambda>_.
     let expected = cat [lit ''candidate '', count_label, lit '' count <= baseline x '', fmt_g factor] in
     (case operation_gap errors_only d of
        Some observed \<Rightarrow> Inr (claim con a Unverifiable expected observed
          (with_fact [(lit ''baseline'', JNull), (lit ''candidate'', JNull), (lit ''limit'', JNull)] e))
      | None \<Rightarrow> operation_verdict con a errors_only operation factor expected e baseline candidate))))))"

definition evaluate :: "contract \<Rightarrow> assertion \<Rightarrow> execution_diff \<Rightarrow> reader \<Rightarrow> reader \<Rightarrow> claim_result res" where
  "evaluate con a d baseline candidate =
     (let ty = as_type a in
      if ty = lit ''candidate_exit_success'' then Inr (evaluate_exit_success con a d)
      else if ty = lit ''exit_code_equivalent'' then Inr (evaluate_exit_equivalent con a d)
      else if ty = lit ''output_equivalent'' \<or> ty = lit ''result_equivalence'' then Inr (evaluate_output_equivalent con a d)
      else if ty = lit ''max_runtime_regression''
        then max_regression con a (ed_wall_time d) ''runtime'' (evidence ''/wall_time'' []) (timing_modes d)
      else if ty = lit ''max_cpu_time_regression''
        then max_regression con a (ed_cpu_time d) ''CPU time'' (evidence ''/cpu_time'' []) (timing_modes d)
      else if ty = lit ''max_peak_memory_regression''
        then max_regression con a (ed_peak_memory d) ''peak memory'' (evidence ''/peak_memory'' []) (timing_modes d)
      else if ty = lit ''forbid_new_dependency'' then evaluate_dependency con a d baseline candidate
      else if ty = lit ''max_operation_count'' \<or> ty = lit ''max_operation_error_count''
        then evaluate_operation_count con a (ty = lit ''max_operation_error_count'') d baseline candidate
      else Inl (contract_error [lit ''unsupported assertion type: '', ty]))"

text \<open>The assertions to evaluate, in the order of the contracts.\<close>

definition claims_of :: "contract list \<Rightarrow> (contract \<times> assertion) list" where
  "claims_of contracts = concat (map (\<lambda>con. map (\<lambda>a. (con, a)) (con_assertions con)) contracts)"

definition verify_contracts_readers ::
  "contract list \<Rightarrow> reader \<Rightarrow> reader \<Rightarrow> execution_diff \<Rightarrow> verification_report res" where
  "verify_contracts_readers contracts baseline candidate d =
     rbind (read_execution baseline) (\<lambda>b.
     rbind (read_execution candidate) (\<lambda>c.
     rbind (raise_if (ref_id (ds_reference (ed_baseline d)) \<noteq> exec_id b \<or> ref_id (ds_reference (ed_candidate d)) \<noteq> exec_id c)
       (contract_error [lit ''runtime diff does not describe the supplied runpack readers''])) (\<lambda>_.
     rbind (traverse (\<lambda>(con, a). evaluate con a d baseline candidate) (claims_of contracts)) (\<lambda>results.
     Inr \<lparr>vr_baseline_id = ref_id (ds_reference (ed_baseline d)), vr_candidate_id = ref_id (ds_reference (ed_candidate d)),
          vr_results = results\<rparr>))))"

text \<open>\<open>_verify_contracts\<close> on two open readers.\<close>

definition verify_contracts ::
  "(pyfloat list \<Rightarrow> pyfloat) \<Rightarrow> (reader \<Rightarrow> execution_summary \<Rightarrow> analysis_view res) \<Rightarrow>
     contract list \<Rightarrow> reader \<Rightarrow> reader \<Rightarrow> (verification_report \<times> execution_diff) res" where
  "verify_contracts sql_total analyze contracts baseline candidate =
     rbind (compare_readers sql_total analyze baseline candidate) (\<lambda>d.
     rbind (verify_contracts_readers contracts baseline candidate d) (\<lambda>report. Inr (report, d)))"

end
