(* ===== verification/VerifyLaws.thy ===== *)
theory VerifyLaws
  imports Verify
begin

text \<open>
  What a verification promises. The abstract specification of a claim is a three-valued
  verdict from two predicates: the evidence it needs is available, and the claim holds on
  it. \<open>evaluate\<close> refines it on every assertion type, and an assertion that was
  parsed is never rejected as misconfigured.
\<close>

section \<open>Specification of a claim\<close>

definition three_valued :: "bool \<Rightarrow> bool \<Rightarrow> claim_status" where
  "three_valued available holds = (if \<not> available then Unverifiable else if holds then Pass else Fail)"

text \<open>The fact a regression claim is about.\<close>

definition regression_subject :: "execution_diff \<Rightarrow> pystr \<Rightarrow> value_change option" where
  "regression_subject d ty =
     (if ty = lit ''max_runtime_regression'' then Some (ed_wall_time d)
      else if ty = lit ''max_cpu_time_regression'' then Some (ed_cpu_time d)
      else if ty = lit ''max_peak_memory_regression'' then Some (ed_peak_memory d) else None)"

definition counts_operation :: "pystr \<Rightarrow> bool" where
  "counts_operation ty \<longleftrightarrow> ty = lit ''max_operation_count'' \<or> ty = lit ''max_operation_error_count''"

abbreviation counts_errors :: "assertion \<Rightarrow> bool" where
  "counts_errors a \<equiv> as_type a = lit ''max_operation_error_count''"

definition evidence_available :: "assertion \<Rightarrow> execution_diff \<Rightarrow> reader \<Rightarrow> reader \<Rightarrow> bool" where
  "evidence_available a d b c \<longleftrightarrow>
     (if as_type a = lit ''candidate_exit_success'' then ref_exit_code (ds_reference (ed_candidate d)) \<noteq> None
      else if as_type a = lit ''exit_code_equivalent'' then ed_exit_code_equivalent d \<noteq> None
      else if as_type a = lit ''output_equivalent'' \<or> as_type a = lit ''result_equivalence'' then ed_output_equivalent d \<noteq> None
      else case regression_subject d (as_type a) of
        Some change \<Rightarrow> fst (timing_modes d) = snd (timing_modes d) \<and> vc_baseline change \<noteq> None \<and> vc_candidate change \<noteq> None
      | None \<Rightarrow>
          if counts_operation (as_type a)
          then operation_gap (counts_errors a) d = None \<and>
            (\<exists>operation. config_text a ''operation'' = Inr operation \<and>
              \<not> (operation_totals False operation b = Inr 0 \<and> operation_totals False operation c = Inr 0))
          else dependency_gap d = None)"

definition claim_holds :: "assertion \<Rightarrow> execution_diff \<Rightarrow> reader \<Rightarrow> reader \<Rightarrow> bool" where
  "claim_holds a d b c \<longleftrightarrow>
     (if as_type a = lit ''candidate_exit_success'' then ref_exit_code (ds_reference (ed_candidate d)) = Some 0
      else if as_type a = lit ''exit_code_equivalent'' then ed_exit_code_equivalent d = Some True
      else if as_type a = lit ''output_equivalent'' \<or> as_type a = lit ''result_equivalence'' then ed_output_equivalent d = Some True
      else case regression_subject d (as_type a) of
        Some change \<Rightarrow> (\<exists>percent x y limit. config_float a ''percent'' = Inr percent \<and> vc_baseline change = Some x \<and>
           vc_candidate change = Some y \<and> regression_limit x percent = Inr limit \<and> fle y limit)
      | None \<Rightarrow>
          if counts_operation (as_type a)
          then (\<exists>operation factor before after limit. config_text a ''operation'' = Inr operation \<and>
             config_float a ''factor'' = Inr factor \<and>
             operation_totals (counts_errors a) operation b = Inr before \<and>
             operation_totals (counts_errors a) operation c = Inr after \<and>
             count_limit a before factor = Inr limit \<and> fle (Fin (of_int after)) limit)
          else (\<exists>source target before after. config_text a ''from'' = Inr source \<and> config_text a ''to'' = Inr target \<and>
             dependency_total b source target = Inr before \<and> dependency_total c source target = Inr after \<and>
             (before \<noteq> 0 \<or> after \<le> 0)))"

section \<open>Refinement\<close>

lemma claim_status_simp [simp]: "cl_status (claim con a s x y e) = s"
  by (simp add: claim_def)

lemma verdict_three_valued: "verdict v = three_valued (v \<noteq> None) (v = Some True)"
  by (cases v) (auto simp: three_valued_def)

lemma finite_limit_Inr [res_simps]: "finite_limit a x = Inr y \<longleftrightarrow> y = x \<and> isfinite x"
  by (auto simp: finite_limit_def)

lemma max_regression_status:
  assumes "max_regression con a change label e modes = Inr r"
  shows "cl_status r = three_valued
      (fst modes = snd modes \<and> vc_baseline change \<noteq> None \<and> vc_candidate change \<noteq> None)
      (\<exists>percent x y limit. config_float a ''percent'' = Inr percent \<and> vc_baseline change = Some x \<and>
         vc_candidate change = Some y \<and> regression_limit x percent = Inr limit \<and> fle y limit)"
proof (cases "fst modes = snd modes \<and> vc_baseline change \<noteq> None \<and> vc_candidate change \<noteq> None")
  case True
  then obtain x y where xy: "vc_baseline change = Some x" "vc_candidate change = Some y" "fst modes = snd modes" by blast
  with assms show ?thesis
    by (auto simp: max_regression_def Let_def res_simps three_valued_def)
next
  case False
  then have "cl_status r = Unverifiable"
    using assms by (auto simp: max_regression_def Let_def res_simps split: option.splits if_splits)
  with False show ?thesis by (simp only: three_valued_def) simp
qed

lemma evaluate_dependency_status:
  assumes "evaluate_dependency con a d b c = Inr r"
  shows "cl_status r = three_valued (dependency_gap d = None)
      (\<exists>source target before after. config_text a ''from'' = Inr source \<and> config_text a ''to'' = Inr target \<and>
         dependency_total b source target = Inr before \<and> dependency_total c source target = Inr after \<and>
         (before \<noteq> 0 \<or> after \<le> 0))"
  using assms by (cases "dependency_gap d") (auto simp: evaluate_dependency_def Let_def res_simps three_valued_def)

lemma evaluate_operation_gap:
  "evaluate_operation_count con a errors d b c = Inr r \<Longrightarrow> operation_gap errors d = Some gap \<Longrightarrow> cl_status r = Unverifiable"
  by (auto simp: evaluate_operation_count_def Let_def res_simps)

lemma operation_verdict_cases:
  assumes "operation_verdict con a errors operation factor expected e b c = Inr r"
  shows "\<exists>m n. operation_totals False operation b = Inr m \<and> operation_totals False operation c = Inr n \<and>
    (if m = 0 \<and> n = 0 then cl_status r = Unverifiable
     else \<exists>before after limit. operation_totals errors operation b = Inr before \<and>
       operation_totals errors operation c = Inr after \<and> count_limit a before factor = Inr limit \<and>
       cl_status r = (if fle (Fin (of_int after)) limit then Pass else Fail))"
proof -
  obtain m n where mn: "operation_totals False operation b = Inr m" "operation_totals False operation c = Inr n"
    using assms by (auto simp: operation_verdict_def rbind_eq_Inr_iff)
  have pick: "(if errors then operation_totals True operation rd else Inr k) = operation_totals errors operation rd"
    if "operation_totals False operation rd = Inr k" for rd k
    using that by (cases errors) simp_all
  from assms show ?thesis
    unfolding operation_verdict_def mn rbind_simps pick [OF mn(1)] pick [OF mn(2)]
    by (cases "m = 0 \<and> n = 0") (auto simp: rbind_eq_Inr_iff)
qed

lemma evaluate_operation_counts:
  assumes "evaluate_operation_count con a errors d b c = Inr r" and "operation_gap errors d = None"
  shows "\<exists>operation factor m n. config_text a ''operation'' = Inr operation \<and> config_float a ''factor'' = Inr factor \<and>
    operation_totals False operation b = Inr m \<and> operation_totals False operation c = Inr n \<and>
    (if m = 0 \<and> n = 0 then cl_status r = Unverifiable
     else \<exists>before after limit. operation_totals errors operation b = Inr before \<and>
       operation_totals errors operation c = Inr after \<and> count_limit a before factor = Inr limit \<and>
       cl_status r = (if fle (Fin (of_int after)) limit then Pass else Fail))"
proof -
  obtain operation factor expected e where "config_text a ''operation'' = Inr operation"
      "config_float a ''factor'' = Inr factor"
      "operation_verdict con a errors operation factor expected e b c = Inr r"
    using assms by (auto simp: evaluate_operation_count_def Let_def rbind_eq_Inr_iff)
  with operation_verdict_cases [OF this(3)] show ?thesis by blast
qed

lemma evaluate_operation_status:
  assumes "evaluate_operation_count con a errors d b c = Inr r"
  shows "cl_status r = three_valued
      (operation_gap errors d = None \<and> (\<exists>operation. config_text a ''operation'' = Inr operation \<and>
         \<not> (operation_totals False operation b = Inr 0 \<and> operation_totals False operation c = Inr 0)))
      (\<exists>operation factor before after limit. config_text a ''operation'' = Inr operation \<and>
         config_float a ''factor'' = Inr factor \<and>
         operation_totals errors operation b = Inr before \<and> operation_totals errors operation c = Inr after \<and>
         count_limit a before factor = Inr limit \<and> fle (Fin (of_int after)) limit)"
proof (cases "operation_gap errors d")
  case (Some gap)
  with evaluate_operation_gap [OF assms Some] show ?thesis by (simp add: three_valued_def)
next
  case None
  obtain operation factor m n where e:
    "config_text a ''operation'' = Inr operation" "config_float a ''factor'' = Inr factor"
    "operation_totals False operation b = Inr m" "operation_totals False operation c = Inr n"
    and split: "if m = 0 \<and> n = 0 then cl_status r = Unverifiable
     else \<exists>before after limit. operation_totals errors operation b = Inr before \<and>
       operation_totals errors operation c = Inr after \<and> count_limit a before factor = Inr limit \<and>
       cl_status r = (if fle (Fin (of_int after)) limit then Pass else Fail)"
    using evaluate_operation_counts [OF assms None] by blast
  show ?thesis
  proof (cases "m = 0 \<and> n = 0")
    case True
    with split e None show ?thesis by (simp add: three_valued_def)
  next
    case False
    with split obtain before after limit where "operation_totals errors operation b = Inr before"
        "operation_totals errors operation c = Inr after" "count_limit a before factor = Inr limit"
        "cl_status r = (if fle (Fin (of_int after)) limit then Pass else Fail)" by auto
    with e None False show ?thesis by (simp add: three_valued_def)
  qed
qed

lemma evaluate_verdict:
  assumes "evaluate con a d b c = Inr r"
  shows "cl_status r = three_valued (evidence_available a d b c) (claim_holds a d b c)"
proof -
  consider "as_type a = lit ''candidate_exit_success''" | "as_type a = lit ''exit_code_equivalent''"
    | "as_type a = lit ''output_equivalent'' \<or> as_type a = lit ''result_equivalence''"
    | change label where "regression_subject d (as_type a) = Some change"
        "\<exists>e. max_regression con a change label e (timing_modes d) = Inr r"
    | "as_type a = lit ''forbid_new_dependency''"
    | "counts_operation (as_type a)"
    using assms by (auto simp: evaluate_def Let_def regression_subject_def counts_operation_def split: if_splits)
  then show ?thesis
  proof cases
    case 1
    with assms show ?thesis
      by (auto simp: evaluate_def evaluate_exit_success_def Let_def evidence_available_def claim_holds_def three_valued_def
          split: option.splits)
  next
    case 2
    with assms show ?thesis
      by (auto simp: evaluate_def evaluate_exit_equivalent_def Let_def evidence_available_def claim_holds_def verdict_three_valued)
  next
    case 3
    with assms show ?thesis
      by (auto simp: evaluate_def evaluate_output_equivalent_def Let_def evidence_available_def claim_holds_def verdict_three_valued)
  next
    case 4
    from 4(1) have "as_type a \<notin> {lit ''candidate_exit_success'', lit ''exit_code_equivalent'', lit ''output_equivalent'', lit ''result_equivalence''}"
      by (auto simp: regression_subject_def split: if_splits)
    moreover obtain e where e: "max_regression con a change label e (timing_modes d) = Inr r" using 4(2) by blast
    ultimately show ?thesis
      using max_regression_status [OF e] 4(1) by (simp add: evidence_available_def claim_holds_def)
  next
    case 5
    with assms have "evaluate_dependency con a d b c = Inr r" by (simp add: evaluate_def Let_def)
    from evaluate_dependency_status [OF this] 5 show ?thesis
      by (simp add: evidence_available_def claim_holds_def regression_subject_def counts_operation_def)
  next
    case 6
    with assms have "evaluate_operation_count con a (counts_errors a) d b c = Inr r"
      by (auto simp: evaluate_def Let_def counts_operation_def)
    from evaluate_operation_status [OF this] 6 show ?thesis
      by (auto simp: evidence_available_def claim_holds_def regression_subject_def counts_operation_def)
  qed
qed

text \<open>C3. The verdict on a claim is its abstract one: unverifiable exactly when the evidence the claim
  needs is not available, and otherwise pass or fail according to whether it holds.\<close>

theorem evaluate_refines_verdict:
  assumes "evaluate con a d b c = Inr r"
  shows "cl_status r = three_valued (evidence_available a d b c) (claim_holds a d b c)"
  by (rule evaluate_verdict [OF assms])

lemma evaluate_status_iff:
  "evaluate con a d b c = Inr r \<Longrightarrow> cl_status r = Pass \<longleftrightarrow> evidence_available a d b c \<and> claim_holds a d b c"
  by (simp add: evaluate_verdict three_valued_def)

section \<open>Parsed assertions are configured\<close>

lemma config_float_Inr: "number_ok (dget (as_config a) (lit key)) \<Longrightarrow> \<exists>x. config_float a key = Inr x \<and> \<not> flt x (Fin 0)"
  by (auto simp: number_ok_def config_float_def)

lemma config_text_Inr: "text_given (dget (as_config a) (lit key)) \<Longrightarrow> \<exists>s. config_text a key = Inr s \<and> dget (as_config a) (lit key) = Some (JStr s)"
  by (auto simp: text_given_def config_text_def)

lemma assertion_ok_fields:
  assumes "assertion_ok a" and "dget assertion_fields (as_type a) = Some required" and "f \<in> set required"
  shows "field_ok (as_config a) f"
  using assms by (auto simp: assertion_ok_def)

lemma percent_field:
  assumes "assertion_ok a" "as_type a \<in> {lit ''max_runtime_regression'', lit ''max_cpu_time_regression'', lit ''max_peak_memory_regression''}"
  shows "\<exists>x. config_float a ''percent'' = Inr x \<and> \<not> flt x (Fin 0)"
  using assms(2) assertion_ok_fields [OF assms(1), of "[lit ''percent'']" "lit ''percent''"]
  by (intro config_float_Inr) (auto simp: assertion_fields_def field_ok_def)

lemma dependency_fields:
  assumes "assertion_ok a" "as_type a = lit ''forbid_new_dependency''"
  shows "(\<exists>s. config_text a ''from'' = Inr s) \<and> (\<exists>s. config_text a ''to'' = Inr s)"
  using assms(2) assertion_ok_fields [OF assms(1), of "[lit ''from'', lit ''to'']" "lit ''from''"]
    assertion_ok_fields [OF assms(1), of "[lit ''from'', lit ''to'']" "lit ''to''"]
    config_text_Inr [of a "''from''"] config_text_Inr [of a "''to''"]
  by (auto simp: assertion_fields_def field_ok_def)

lemma operation_fields:
  assumes ok: "assertion_ok a" and ty: "counts_operation (as_type a)"
  shows "(\<exists>s. config_text a ''operation'' = Inr s) \<and> config_text a ''relative_to'' = Inr (lit ''baseline'') \<and>
    (\<exists>x. config_float a ''factor'' = Inr x \<and> \<not> flt x (Fin 0))"
proof -
  let ?R = "[lit ''operation'', lit ''relative_to'', lit ''factor'']"
  have R: "dget assertion_fields (as_type a) = Some ?R" using ty by (auto simp: counts_operation_def assertion_fields_def)
  note f = assertion_ok_fields [OF ok R]
  have "text_given (dget (as_config a) (lit ''operation''))" "text_given (dget (as_config a) (lit ''relative_to''))"
    "number_ok (dget (as_config a) (lit ''factor''))"
    using f [of "lit ''operation''"] f [of "lit ''relative_to''"] f [of "lit ''factor''"] by (auto simp: field_ok_def)
  moreover have "dget (as_config a) (lit ''relative_to'') \<in> {None, Some JNull, Some (JStr (lit ''baseline''))}"
    using ok by (simp add: assertion_ok_def)
  ultimately show ?thesis
    using config_text_Inr [of a "''operation''"] config_text_Inr [of a "''relative_to''"] config_float_Inr [of a "''factor''"] by auto
qed

text \<open>The queries of the reader a claim may need.\<close>

definition query_fails :: "reader \<Rightarrow> err \<Rightarrow> bool" where
  "query_fails rd e \<longleftrightarrow> operation_counts rd = Inl e \<or> operation_error_counts rd = Inl e \<or>
     edge_counts rd = Inl e \<or> peer_service_edge_counts rd = Inl e"

lemma operation_totals_fails: "operation_totals errors operation rd = Inl e \<Longrightarrow> query_fails rd e"
  by (auto simp: operation_totals_def query_fails_def res_simps split: if_splits)

lemma dependency_total_fails: "dependency_total rd s t = Inl e \<Longrightarrow> query_fails rd e"
  by (auto simp: dependency_total_def query_fails_def res_simps)

lemma count_limit_fails: "count_limit a n x = Inl e \<Longrightarrow> e = threshold_error a"
  by (auto simp: count_limit_def finite_limit_def split: sum.splits if_splits)

lemma regression_limit_defined: "regression_limit b p \<noteq> Inl e"
  by (cases p) (auto simp: regression_limit_def)

lemma max_regression_fails:
  assumes "config_float a ''percent'' = Inr x \<and> \<not> flt x (Fin 0)" "max_regression con a change label e modes = Inl er"
  shows "er = threshold_error a"
  using assms
  by (auto simp: max_regression_def Let_def res_simps finite_limit_def regression_limit_defined split: option.splits if_splits)

lemma evaluate_dependency_fails:
  assumes "config_text a ''from'' = Inr s" "config_text a ''to'' = Inr t" "evaluate_dependency con a d b c = Inl er"
  shows "query_fails b er \<or> query_fails c er"
  using assms by (auto simp: evaluate_dependency_def Let_def res_simps split: option.splits dest: dependency_total_fails)

lemma operation_verdict_fails:
  assumes "operation_verdict con a errors operation factor expected e b c = Inl er"
  shows "er = threshold_error a \<or> query_fails b er \<or> query_fails c er"
  using assms
  by (auto simp: operation_verdict_def res_simps split: if_splits dest: operation_totals_fails count_limit_fails)

lemma evaluate_operation_fails:
  assumes "config_text a ''operation'' = Inr s" "config_text a ''relative_to'' = Inr (lit ''baseline'')"
    "config_float a ''factor'' = Inr x \<and> \<not> flt x (Fin 0)" "evaluate_operation_count con a errors d b c = Inl er"
  shows "er = threshold_error a \<or> query_fails b er \<or> query_fails c er"
  using assms
  by (auto simp: evaluate_operation_count_def Let_def res_simps split: option.splits dest!: operation_verdict_fails)

lemma assertion_ok_type:
  "assertion_ok a \<Longrightarrow> as_type a \<in> {lit ''candidate_exit_success'', lit ''exit_code_equivalent'', lit ''output_equivalent'',
     lit ''result_equivalence'', lit ''max_runtime_regression'', lit ''max_cpu_time_regression'',
     lit ''max_peak_memory_regression'', lit ''forbid_new_dependency'', lit ''max_operation_count'', lit ''max_operation_error_count''}"
  by (auto simp: assertion_ok_def assertion_fields_def split: if_splits)

text \<open>C36. Evaluating a parsed assertion never finds it misconfigured: the only errors are a threshold
  outside the range of floating point numbers and a failing query of one of the runpacks.\<close>

theorem parsed_assertions_evaluate:
  assumes "parse_assertion label v = Inr a" and "evaluate con a d b c = Inl er"
  shows "er = threshold_error a \<or> query_fails b er \<or> query_fails c er"
proof -
  have ok: "assertion_ok a" by (rule parse_assertion_ok [OF assms(1)])
  consider "as_type a \<in> {lit ''candidate_exit_success'', lit ''exit_code_equivalent'', lit ''output_equivalent'', lit ''result_equivalence''}"
    | "as_type a \<in> {lit ''max_runtime_regression'', lit ''max_cpu_time_regression'', lit ''max_peak_memory_regression''}"
    | "as_type a = lit ''forbid_new_dependency''" | "counts_operation (as_type a)"
    using assertion_ok_type [OF ok] by (auto simp: counts_operation_def)
  then show ?thesis
  proof cases
    case 1
    with assms(2) show ?thesis by (auto simp: evaluate_def Let_def)
  next
    case 2
    then obtain change what e where "max_regression con a change what e (timing_modes d) = Inl er"
      using assms(2) by (auto simp: evaluate_def Let_def)
    moreover obtain x where "config_float a ''percent'' = Inr x \<and> \<not> flt x (Fin 0)"
      using percent_field [OF ok 2] by blast
    ultimately have "er = threshold_error a" by (rule max_regression_fails [rotated])
    then show ?thesis by simp
  next
    case 3
    with dependency_fields [OF ok 3] assms(2) show ?thesis
      by (auto simp: evaluate_def Let_def dest: evaluate_dependency_fails)
  next
    case 4
    then have "evaluate_operation_count con a (counts_errors a) d b c = Inl er"
      using assms(2) by (auto simp: evaluate_def Let_def counts_operation_def)
    with operation_fields [OF ok 4] show ?thesis by (blast dest: evaluate_operation_fails)
  qed
qed

section \<open>Monotonicity of regressions\<close>

lemma rnd_between: "fle (rnd x) PInf" "fle NInf (rnd x)"
  using rnd_not_NaN [of x] by (cases "rnd x"; simp)+

lemma fadd_one_mono: "fle s t \<Longrightarrow> fle (fadd (Fin 1) s) (fadd (Fin 1) t)"
  by (cases s; cases t) (auto intro: rnd_mono rnd_between)

lemma fdiv_100_mono: "fle p q \<Longrightarrow> fdiv p (Fin 100) = Inr s \<Longrightarrow> fdiv q (Fin 100) = Inr t \<Longrightarrow> fle s t"
  by (cases p; cases q) (auto simp: signed_inf_def intro!: rnd_mono rnd_between divide_right_mono)

lemma fmul_nonneg_mono:
  assumes "fle (Fin 0) x" "fle u w" "isfinite (fmul x u)" "isfinite (fmul x w)"
  shows "fle (fmul x u) (fmul x w)"
  using assms
  by (cases x; cases u; cases w) (auto simp: signed_inf_def split: if_splits intro!: rnd_mono mult_left_mono)

lemma regression_limit_mono:
  assumes "fle p q" "fle (Fin 0) x" "regression_limit x p = Inr l" "regression_limit x q = Inr m" "isfinite l" "isfinite m"
  shows "fle l m"
proof -
  obtain s t where st: "fdiv p (Fin 100) = Inr s" "fdiv q (Fin 100) = Inr t"
      "l = fmul x (fadd (Fin 1) s)" "m = fmul x (fadd (Fin 1) t)"
    using assms(3,4) by (auto simp: regression_limit_def rbind_eq_Inr_iff simp del: fdiv.simps)
  from fdiv_100_mono [OF assms(1) st(1,2)] have "fle (fadd (Fin 1) s) (fadd (Fin 1) t)" by (rule fadd_one_mono)
  with st assms(2,5,6) show ?thesis by (simp add: fmul_nonneg_mono)
qed

lemma max_regression_pass:
  assumes "max_regression con a change label e modes = Inr r" "cl_status r = Pass"
    "config_float a ''percent'' = Inr p" "vc_baseline change = Some x" "vc_candidate change = Some y"
  shows "fst modes = snd modes \<and> (\<exists>l. regression_limit x p = Inr l \<and> isfinite l \<and> fle y l)"
  using assms by (auto simp: max_regression_def Let_def res_simps split: if_splits)

lemma max_regression_limit:
  assumes "max_regression con a change label e modes = Inr r" "fst modes = snd modes"
    "config_float a ''percent'' = Inr p" "vc_baseline change = Some x" "vc_candidate change = Some y"
  shows "\<exists>l. regression_limit x p = Inr l \<and> isfinite l \<and> cl_status r = (if fle y l then Pass else Fail)"
  using assms by (auto simp: max_regression_def Let_def res_simps)

text \<open>C35. A regression claim that passes still passes with a larger allowance and with a candidate that
  is no greater, in the rounded arithmetic of the code.\<close>

theorem regression_verdict_monotone:
  assumes "max_regression con a change label e modes = Inr r" "cl_status r = Pass"
    and "max_regression con a' change' label e modes = Inr r'"
    and "config_float a ''percent'' = Inr p" "config_float a' ''percent'' = Inr p'" "fle p p'"
    and "vc_baseline change = Some x" "vc_baseline change' = Some x" "fle (Fin 0) x"
    and "vc_candidate change = Some y" "vc_candidate change' = Some y'" "fle y' y"
  shows "cl_status r' = Pass"
proof -
  obtain l where l: "fst modes = snd modes" "regression_limit x p = Inr l" "isfinite l" "fle y l"
    using max_regression_pass [OF assms(1,2,4,7,10)] by blast
  obtain m where m: "regression_limit x p' = Inr m" "isfinite m" "cl_status r' = (if fle y' m then Pass else Fail)"
    using max_regression_limit [OF assms(3) l(1) assms(5,8,11)] by blast
  have "fle l m" by (rule regression_limit_mono [OF assms(6,9) l(2) m(1) l(3) m(2)])
  with l(4) assms(12) have "fle y' m" by (blast intro: fle_trans)
  with m(3) show ?thesis by simp
qed

section \<open>Reports\<close>

lemma three_valued_Pass: "three_valued p q = Pass \<longleftrightarrow> p \<and> q"
  by (simp add: three_valued_def)

text \<open>Every result of an assertion names its contract and itself.\<close>

definition claim_for :: "contract \<Rightarrow> assertion \<Rightarrow> claim_result \<Rightarrow> bool" where
  "claim_for con a r \<longleftrightarrow> cl_contract r = con_name con \<and> cl_name r = as_name a"

lemma claim_for_claim [simp]: "claim_for con a (claim con a s x y e)"
  by (simp add: claim_for_def claim_def)

lemma max_regression_for: "max_regression con a change what e modes = Inr r \<Longrightarrow> claim_for con a r"
  by (auto simp: max_regression_def Let_def rbind_eq_Inr_iff split: option.splits if_splits)

lemma evaluate_dependency_for: "evaluate_dependency con a d b c = Inr r \<Longrightarrow> claim_for con a r"
  by (cases "dependency_gap d") (auto simp: evaluate_dependency_def Let_def rbind_eq_Inr_iff)

lemma operation_verdict_for:
  assumes "operation_verdict con a errors operation factor expected e b c = Inr r"
  shows "claim_for con a r"
proof -
  obtain m n where mn: "operation_totals False operation b = Inr m" "operation_totals False operation c = Inr n"
    using assms by (auto simp: operation_verdict_def rbind_eq_Inr_iff)
  from assms show ?thesis
    unfolding operation_verdict_def mn rbind_simps by (cases "m = 0 \<and> n = 0") (auto simp: rbind_eq_Inr_iff)
qed

lemma evaluate_operation_for:
  assumes "evaluate_operation_count con a errors d b c = Inr r"
  shows "claim_for con a r"
proof (cases "operation_gap errors d")
  case None
  then obtain operation factor expected e where "operation_verdict con a errors operation factor expected e b c = Inr r"
    using assms by (auto simp: evaluate_operation_count_def Let_def rbind_eq_Inr_iff)
  then show ?thesis by (rule operation_verdict_for)
next
  case (Some gap)
  then obtain s x y e where "r = claim con a s x y e"
    using assms by (auto simp: evaluate_operation_count_def Let_def rbind_eq_Inr_iff)
  then show ?thesis by simp
qed

lemma evaluate_for: "evaluate con a d b c = Inr r \<Longrightarrow> claim_for con a r"
  unfolding evaluate_def Let_def
  by (auto simp: evaluate_exit_success_def evaluate_exit_equivalent_def evaluate_output_equivalent_def Let_def
      split: if_splits dest: max_regression_for evaluate_dependency_for evaluate_operation_for)

lemma verify_results:
  assumes "verify_contracts_readers contracts b c d = Inr rep"
  shows "list_all2 (\<lambda>x r. (case x of (con, a) \<Rightarrow> evaluate con a d b c) = Inr r) (claims_of contracts) (vr_results rep)"
  using assms
  by (auto simp: verify_contracts_readers_def rbind_eq_Inr_iff traverse_eq_Inr_iff)

text \<open>C2. A verification reports one result per assertion, in the order of the contracts, and passes
  exactly when for every assertion the evidence is available and the claim holds: a claim that
  cannot be verified never counts as passed.\<close>

theorem verification_passes_iff_every_claim_holds:
  assumes "verify_contracts_readers contracts b c d = Inr rep"
  shows "map (\<lambda>r. (cl_contract r, cl_name r)) (vr_results rep) =
      map (\<lambda>(con, a). (con_name con, as_name a)) (claims_of contracts) \<and>
    (passed rep \<longleftrightarrow> list_all (\<lambda>(con, a). evidence_available a d b c \<and> claim_holds a d b c) (claims_of contracts))"
proof -
  have "map (\<lambda>r. (cl_contract r, cl_name r)) rs = map (\<lambda>(con, a). (con_name con, as_name a)) qs \<and>
      (list_all (\<lambda>r. cl_status r = Pass) rs \<longleftrightarrow>
       list_all (\<lambda>(con, a). evidence_available a d b c \<and> claim_holds a d b c) qs)"
    if "list_all2 (\<lambda>x r. (case x of (con, a) \<Rightarrow> evaluate con a d b c) = Inr r) qs rs" for qs rs
    using that
    by (induction rule: list_all2_induct)
      (auto simp: evaluate_status_iff claim_for_def dest: evaluate_for)
  from this [OF verify_results [OF assms]] show ?thesis by (simp add: passed_def)
qed

lemma capture_gaps_Nil:
  "capture_gaps not_captured what b c = [] \<longleftrightarrow> semantic_observation_complete (fst b) (fst c)"
  by (cases b; cases c) (auto simp: capture_gaps_def capture_gap_def not_captured_def semantic_observation_complete_def)

lemma logical_gaps_Nil:
  "capture_gaps absent_status what b c = [] \<longleftrightarrow> optional_semantic_observation_complete (fst b) (fst c)"
  by (cases b; cases c) (auto simp: capture_gaps_def capture_gap_def absent_status_def optional_semantic_observation_complete_def)

lemma observation_None: "observation gaps title = None \<longleftrightarrow> gaps = []"
  by (simp add: observation_def)

lemma first_some_None: "first_some xs = None \<longleftrightarrow> list_all (\<lambda>x. x = None) xs"
  by (induction xs rule: first_some.induct) auto

text \<open>Error claims and the comparison of operation errors agree on what complete evidence is: the
  comparison knows whether the errors are equivalent exactly when no gap makes an error claim
  unverifiable (dropped attribute counts are never negative).\<close>

theorem error_claims_need_comparable_errors:
  assumes "diff_facts b c = Inr d"
    and "\<And>n. sum_dropped_attribute_count (rf_summary b) = Some n \<Longrightarrow> 0 \<le> n"
    and "\<And>n. sum_dropped_attribute_count (rf_summary c) = Some n \<Longrightarrow> 0 \<le> n"
  shows "operation_gap True d = None \<longleftrightarrow> ed_operation_errors_equivalent d \<noteq> None"
proof -
  have d: "ed_baseline d = side_of b" "ed_candidate d = side_of c"
      "ed_operation_errors_equivalent d = errors_equivalent (side_of b) (side_of c) (dict_eq (rf_errors b) (rf_errors c))"
    using assms(1) by (auto simp: diff_facts_def Let_def rbind_eq_Inr_iff)
  have b: "\<forall>n. sum_dropped_attribute_count (rf_summary b) = Some n \<longrightarrow> 0 \<le> n"
    and c: "\<forall>n. sum_dropped_attribute_count (rf_summary c) = Some n \<longrightarrow> 0 \<le> n"
    using assms(2,3) by blast+
  have drop: "unreliable_attributes (side_of f) \<longleftrightarrow> truthy_text (ds_annotation_error (side_of f)) \<or>
      count_gap '' dropped attributes'' (t, ds_dropped_attribute_count (side_of f)) \<noteq> []"
    if "\<forall>n. sum_dropped_attribute_count (rf_summary f) = Some n \<longrightarrow> 0 \<le> n" for f t
    using that by (fastforce simp: unreliable_attributes_def count_gap_def side_of_def Let_def split: option.splits)
  show ?thesis
    unfolding operation_gap_def first_some_None annotation_gap_def incomplete_subprocess_observation_def
      incomplete_http_observation_def incomplete_network_observation_def incomplete_network_setup_observation_def
      incomplete_logical_operation_observation_def incomplete_semantic_observation_def d
    by (auto simp: observation_None capture_gaps_Nil logical_gaps_Nil errors_equivalent_def
        drop [OF b, of "''baseline''"] drop [OF c, of "''candidate''"])
qed

section \<open>Examples\<close>

definition example_execution :: "string \<Rightarrow> execution_row" where
  "example_execution i = \<lparr>xr_id = OStr (lit i), xr_name = OStr (lit ''run''), xr_started_at_ns = OInt 0,
     xr_finished_at_ns = ONone, xr_command_json = OStr [91, 93], xr_working_directory = OStr (lit ''/''),
     xr_exit_code = ONone, xr_revision = ONone, xr_metadata_json = OStr [123, 125]\<rparr>"

definition example_reader :: "string \<Rightarrow> reader" where
  "example_reader i = \<lparr>rd_db = empty_db\<lparr>db_executions := [example_execution i],
       db_events := [sample_span 1 0 10, sample_span 2 10 20]\<rparr>, rd_has_attachments = True\<rparr>"

text \<open>A runpack whose event name is not a text.\<close>

definition broken_reader :: reader where
  "broken_reader = \<lparr>rd_db = empty_db\<lparr>db_events := [(sample_span 1 0 10)\<lparr>vr_name := OInt 7\<rparr>]\<rparr>, rd_has_attachments = True\<rparr>"

definition example_diff :: execution_diff where
  "example_diff = projr (diff_facts (sample_facts ''x'') (sample_facts ''y''))"

definition example_assertion_value :: obj where
  "example_assertion_value = ODict [(OStr (lit ''type''), OStr (lit ''max_operation_count'')),
     (OStr (lit ''relative_to''), OStr (lit ''baseline'')), (OStr (lit ''operation''), OStr (lit ''step'')),
     (OStr (lit ''factor''), OInt 2)]"

definition example_assertion :: assertion where
  "example_assertion = \<lparr>as_type = lit ''max_operation_count'', as_name = lit ''max-operation-count'',
     as_config = [(lit ''type'', JStr (lit ''max_operation_count'')), (lit ''relative_to'', JStr (lit ''baseline'')),
       (lit ''operation'', JStr (lit ''step'')), (lit ''factor'', JInt 2)]\<rparr>"

definition example_contract :: contract where
  "example_contract = \<lparr>con_name = lit ''api'', con_description = None, con_assertions = [example_assertion]\<rparr>"

theorem evaluate_refines_verdict_witness:
  "\<exists>r. evaluate example_contract example_assertion example_diff (example_reader ''x'') (example_reader ''y'') = Inr r \<and>
     cl_status r = Pass \<and> claim_holds example_assertion example_diff (example_reader ''x'') (example_reader ''y'')"
proof -
  have "(case evaluate example_contract example_assertion example_diff (example_reader ''x'') (example_reader ''y'') of
      Inr r \<Rightarrow> cl_status r = Pass | _ \<Rightarrow> False)" by code_simp
  then obtain r where r: "evaluate example_contract example_assertion example_diff (example_reader ''x'') (example_reader ''y'') = Inr r"
      "cl_status r = Pass" by (auto split: sum.splits)
  from evaluate_refines_verdict [OF r(1)] r show ?thesis by (metis three_valued_Pass)
qed

theorem parsed_assertions_evaluate_witness:
  "\<exists>e. evaluate example_contract example_assertion example_diff broken_reader broken_reader = Inl e \<and>
     (e = threshold_error example_assertion \<or> query_fails broken_reader e)"
proof -
  have p: "parse_assertion (lit ''assertion'') example_assertion_value = Inr example_assertion" by code_simp
  have "(case evaluate example_contract example_assertion example_diff broken_reader broken_reader of
      Inl e \<Rightarrow> True | _ \<Rightarrow> False)" by code_simp
  then obtain e where e: "evaluate example_contract example_assertion example_diff broken_reader broken_reader = Inl e"
    by (auto split: sum.splits)
  from parsed_assertions_evaluate [OF p e] e show ?thesis by blast
qed

definition example_regression :: "int \<Rightarrow> assertion" where
  "example_regression n = \<lparr>as_type = lit ''max_runtime_regression'', as_name = lit ''runtime'',
     as_config = [(lit ''type'', JStr (lit ''max_runtime_regression'')), (lit ''percent'', JInt n)]\<rparr>"

definition example_change :: "rat \<Rightarrow> value_change" where
  "example_change y = \<lparr>vc_baseline = Some (Fin 4), vc_candidate = Some (Fin y), vc_percent = None\<rparr>"

abbreviation example_verdict :: "int \<Rightarrow> rat \<Rightarrow> claim_result res" where
  "example_verdict n y \<equiv> max_regression example_contract (example_regression n) (example_change y) ''runtime''
     (evidence ''/wall_time'' []) (lit ''passive'', lit ''passive'')"

theorem regression_verdict_monotone_witness:
  "\<exists>r r'. example_verdict 50 5 = Inr r \<and> cl_status r = Pass \<and> example_verdict 100 4 = Inr r' \<and> cl_status r' = Pass"
proof -
  have "(case example_verdict 50 5 of Inr r \<Rightarrow> cl_status r = Pass | _ \<Rightarrow> False)" by code_simp
  then obtain r where r: "example_verdict 50 5 = Inr r" "cl_status r = Pass" by (auto split: sum.splits)
  have "(case example_verdict 100 4 of Inr r \<Rightarrow> True | _ \<Rightarrow> False)" by code_simp
  then obtain r' where r': "example_verdict 100 4 = Inr r'" by (auto split: sum.splits)
  have p: "config_float (example_regression 50) ''percent'' = Inr (Fin 50)"
      "config_float (example_regression 100) ''percent'' = Inr (Fin 100)" by code_simp+
  have "cl_status r' = Pass"
    by (rule regression_verdict_monotone [OF r r' p, of "Fin 4" "Fin 5" "Fin 4"]) (simp_all add: example_change_def)
  with r r' show ?thesis by blast
qed

theorem verification_passes_iff_every_claim_holds_witness:
  "\<exists>rep. verify_contracts_readers [example_contract] (example_reader ''x'') (example_reader ''y'') example_diff = Inr rep \<and>
     passed rep \<and> claim_holds example_assertion example_diff (example_reader ''x'') (example_reader ''y'')"
proof -
  have "(case verify_contracts_readers [example_contract] (example_reader ''x'') (example_reader ''y'') example_diff of
      Inr rep \<Rightarrow> passed rep | _ \<Rightarrow> False)" by code_simp
  then obtain rep where r: "verify_contracts_readers [example_contract] (example_reader ''x'') (example_reader ''y'') example_diff = Inr rep"
      "passed rep" by (auto split: sum.splits)
  from verification_passes_iff_every_claim_holds [OF r(1)] r show ?thesis
    by (auto simp: claims_of_def example_contract_def)
qed

theorem error_claims_need_comparable_errors_witness:
  "\<exists>d. diff_facts (sample_facts ''x'') (sample_facts ''y'') = Inr d \<and>
     (operation_gap True d = None \<longleftrightarrow> ed_operation_errors_equivalent d \<noteq> None)"
proof -
  have "(case diff_facts (sample_facts ''x'') (sample_facts ''y'') of Inr d \<Rightarrow> True | _ \<Rightarrow> False)" by code_simp
  then obtain d where d: "diff_facts (sample_facts ''x'') (sample_facts ''y'') = Inr d" by (auto split: sum.splits)
  have "operation_gap True d = None \<longleftrightarrow> ed_operation_errors_equivalent d \<noteq> None"
    by (rule error_claims_need_comparable_errors [OF d]) (simp_all add: sample_facts_def sample_summary_def)
  with d show ?thesis by (intro exI conjI)
qed

end
