(* ===== verification/Counterexamples.thy ===== *)
theory Counterexamples
  imports Verify
begin

text \<open>
  \<open>proofline/counterexamples.py\<close>: the search for workload parameters that make a contract
  fail, and their reduction toward zero. Running an experiment starts processes: \<open>run n args\<close>
  is the verification of the \<open>n\<close>-th experiment, which may differ from an earlier one with the same
  arguments. \<open>randint k a b\<close> is the \<open>k\<close>-th draw of \<open>Random(0).randint(a, b)\<close>, of which only
  the range is used. \<open>is_space\<close> is \<open>str.isspace\<close> of one character.
\<close>

section \<open>Parameters\<close>

record parameter =
  par_name :: pystr
  par_flag :: pystr
  par_minimum :: int
  par_maximum :: int

definition max_counterexample_examples :: int where
  "max_counterexample_examples = 1000"

definition max_counterexample_parameters :: nat where
  "max_counterexample_parameters = 64"

definition parameter_object :: "pystr \<Rightarrow> obj option \<Rightarrow> (pystr, obj) dict res" where
  "parameter_object label v = (case v of
     Some (ODict d) \<Rightarrow>
       if list_all (\<lambda>kv. is_str (fst kv)) d
       then Inr (map (\<lambda>(k, w). (case k of OStr s \<Rightarrow> s | _ \<Rightarrow> [], w)) d)
       else Inl (contract_error [label, lit '' must be an object with string keys''])
   | _ \<Rightarrow> Inl (contract_error [label, lit '' must be an object with string keys'']))"

definition parameter_integer :: "pystr \<Rightarrow> obj option \<Rightarrow> int res" where
  "parameter_integer label v = (case v of
     Some (OInt i) \<Rightarrow>
       if min_integer \<le> i \<and> i \<le> max_integer then Inr i
       else Inl (contract_error [label, lit '' exceeds the supported integer range''])
   | _ \<Rightarrow> Inl (contract_error [label, lit '' must be an integer'']))"

definition reject_unknown_parameter_fields :: "(pystr, obj) dict \<Rightarrow> pystr list \<Rightarrow> pystr \<Rightarrow> unit res" where
  "reject_unknown_parameter_fields d allowed label =
     (let unknown = sorted_texts (filter (\<lambda>k. k \<notin> set allowed) (map fst d))
      in raise_if (unknown \<noteq> [])
           (contract_error [label, lit '' contains unsupported fields: '', join (lit '', '') unknown]))"

definition flag_ok :: "(nat \<Rightarrow> bool) \<Rightarrow> pystr \<Rightarrow> bool" where
  "flag_ok is_space flag \<longleftrightarrow> starts_with flag (lit ''-'') \<and> flag \<noteq> lit ''-'' \<and> flag \<noteq> lit ''--'' \<and>
     61 \<notin> set flag \<and> 0 \<notin> set flag \<and> \<not> list_ex is_space flag"

definition parameter_flag :: "(nat \<Rightarrow> bool) \<Rightarrow> pystr \<Rightarrow> (pystr, obj) dict \<Rightarrow> pystr res" where
  "parameter_flag is_space name spec =
     (let flag = (case dget spec (lit ''flag'') of None \<Rightarrow> OStr (lit ''--'' @ dashed name) | Some f \<Rightarrow> f)
      in (case flag of
           OStr s \<Rightarrow> if flag_ok is_space s then Inr s
             else Inl (contract_error [lit ''parameter '', name, lit '' flag must be an option name without whitespace or '', [39, 61, 39]])
         | _ \<Rightarrow> Inl (contract_error [lit ''parameter '', name, lit '' flag must be an option name without whitespace or '', [39, 61, 39]])))"

definition load_parameter :: "(nat \<Rightarrow> bool) \<Rightarrow> pystr \<Rightarrow> obj \<Rightarrow> parameter res" where
  "load_parameter is_space name raw =
     rbind (raise_if (name = [] \<or> 0 \<in> set name) (contract_error [lit ''parameter names must be non-empty strings''])) (\<lambda>_.
     rbind (parameter_object (lit ''parameter '' @ name) (Some raw)) (\<lambda>spec.
     rbind (reject_unknown_parameter_fields spec [lit ''type'', lit ''min'', lit ''max'', lit ''flag''] (lit ''parameter '' @ name)) (\<lambda>_.
     rbind (raise_if (dget spec (lit ''type'') \<noteq> Some (OStr (lit ''integer'')))
       (contract_error [lit ''parameter '', name, lit '' supports only type: integer''])) (\<lambda>_.
     rbind (parameter_integer (cat [lit ''parameter '', name, lit '' min'']) (dget spec (lit ''min''))) (\<lambda>minimum.
     rbind (parameter_integer (cat [lit ''parameter '', name, lit '' max'']) (dget spec (lit ''max''))) (\<lambda>maximum.
     rbind (raise_if (maximum < minimum) (contract_error [lit ''parameter '', name, lit '' max must be >= min''])) (\<lambda>_.
     rbind (parameter_flag is_space name spec) (\<lambda>flag.
     Inr \<lparr>par_name = name, par_flag = flag, par_minimum = minimum, par_maximum = maximum\<rparr>))))))))"

fun load_each :: "(nat \<Rightarrow> bool) \<Rightarrow> pystr list \<Rightarrow> (pystr, obj) dict \<Rightarrow> parameter list res" where
  "load_each is_space flags [] = Inr []"
| "load_each is_space flags ((name, raw) # rest) =
     rbind (load_parameter is_space name raw) (\<lambda>p.
     rbind (raise_if (par_flag p \<in> set flags) (contract_error [lit ''parameter flags must be unique: '', par_flag p])) (\<lambda>_.
     rbind (load_each is_space (par_flag p # flags) rest) (\<lambda>ps. Inr (p # ps))))"

definition load_parameters :: "(nat \<Rightarrow> bool) \<Rightarrow> obj \<Rightarrow> parameter list res" where
  "load_parameters is_space document =
     rbind (parameter_object (lit ''parameter document'') (Some document)) (\<lambda>top_level.
     rbind (reject_unknown_parameter_fields top_level [lit ''parameters''] (lit ''parameter document'')) (\<lambda>_.
     rbind (parameter_object (lit ''parameters'') (dget top_level (lit ''parameters''))) (\<lambda>raw.
     rbind (raise_if (raw = []) (contract_error [lit ''parameters cannot be empty''])) (\<lambda>_.
     rbind (raise_if (length raw > max_counterexample_parameters)
       (contract_error [lit ''parameters cannot contain more than 64 entries''])) (\<lambda>_.
     load_each is_space [] raw)))))"

section \<open>Candidates\<close>

type_synonym valuation = "(pystr, int) dict"

text \<open>\<open>min(maximum, max(minimum, 0))\<close>, the value nearest to zero.\<close>

definition nearest_zero :: "parameter \<Rightarrow> int" where
  "nearest_zero p = min (par_maximum p) (max (par_minimum p) 0)"

text \<open>A dictionary comprehension over the parameters.\<close>

definition assign :: "(parameter \<Rightarrow> int) \<Rightarrow> parameter list \<Rightarrow> valuation" where
  "assign f ps = fold (\<lambda>p. dset (par_name p) (f p)) ps []"

definition simple_values :: "parameter list \<Rightarrow> valuation" where
  "simple_values ps = assign nearest_zero ps"

text \<open>The draws of one random candidate start at number \<open>k\<close>.\<close>

definition random_values :: "(nat \<Rightarrow> int \<Rightarrow> int \<Rightarrow> int) \<Rightarrow> nat \<Rightarrow> parameter list \<Rightarrow> valuation" where
  "random_values randint k ps =
     fold (\<lambda>(i, p). dset (par_name p) (randint (k + i) (par_minimum p) (par_maximum p))) (zip [0..<length ps] ps) []"

definition all_candidates :: "(nat \<Rightarrow> int \<Rightarrow> int \<Rightarrow> int) \<Rightarrow> parameter list \<Rightarrow> nat \<Rightarrow> valuation list" where
  "all_candidates randint ps budget =
     [simple_values ps, assign par_maximum ps, assign par_minimum ps] @
     concat (map (\<lambda>p. [dset (par_name p) (par_minimum p) (simple_values ps),
                       dset (par_name p) (par_maximum p) (simple_values ps)]) ps) @
     map (\<lambda>r. random_values randint (r * length ps) ps) [0..<budget * 4]"

text \<open>\<open>tuple(sorted(candidate.items()))\<close>\<close>

definition values_key :: "valuation \<Rightarrow> valuation" where
  "values_key v = sort_key (\<lambda>kv. kv) v"

text \<open>The loop keeps new candidates until there are \<open>budget\<close> of them.\<close>

fun take_unique :: "nat \<Rightarrow> valuation list \<Rightarrow> valuation list \<Rightarrow> valuation list \<Rightarrow> valuation list" where
  "take_unique budget seen acc [] = rev acc"
| "take_unique budget seen acc (c # cs) =
     (if values_key c \<in> set seen then take_unique budget seen acc cs
      else if length (c # acc) \<ge> budget then rev (c # acc)
      else take_unique budget (values_key c # seen) (c # acc) cs)"

definition candidate_values :: "(nat \<Rightarrow> int \<Rightarrow> int \<Rightarrow> int) \<Rightarrow> parameter list \<Rightarrow> nat \<Rightarrow> valuation list" where
  "candidate_values randint ps budget = take_unique budget [] [] (all_candidates randint ps budget)"

section \<open>Shrinking\<close>

text \<open>A test of values that reads and updates a state and may raise.\<close>

type_synonym 's tester = "valuation \<Rightarrow> 's \<Rightarrow> (bool \<times> 's) res"

text \<open>
  The bisection of one parameter: \<open>violating\<close> is the value in \<open>current\<close>, \<open>safe\<close> one that
  was not seen to violate.
\<close>

function bisect ::
  "'s tester \<Rightarrow> pystr \<Rightarrow> int \<Rightarrow> int \<Rightarrow> valuation \<Rightarrow> 's \<Rightarrow> (valuation \<times> 's) res"
where
  "bisect violates name safe violating current s =
     (if \<bar>violating - safe\<bar> > 1 then
        let midpoint = safe + (violating - safe) div 2; candidate = dset name midpoint current in
        rbind (violates candidate s) (\<lambda>(bad, s').
        if bad then bisect violates name safe midpoint candidate s'
        else bisect violates name midpoint violating current s')
      else Inr (current, s))"
  by pat_completeness auto
termination
  by (relation "measure (\<lambda>(violates, name, safe, violating, current, s). nat \<bar>violating - safe\<bar>)") auto

declare bisect.simps [simp del]

definition shrink_parameter :: "'s tester \<Rightarrow> parameter \<Rightarrow> valuation \<Rightarrow> 's \<Rightarrow> (valuation \<times> 's) res" where
  "shrink_parameter violates p current s =
     (let target = nearest_zero p; candidate = dset (par_name p) target current in
      rbind (violates candidate s) (\<lambda>(bad, s').
      if bad then Inr (candidate, s')
      else (case dget current (par_name p) of
          None \<Rightarrow> Inl KeyError
        | Some violating \<Rightarrow> bisect violates (par_name p) target violating current s')))"

fun shrink_values :: "'s tester \<Rightarrow> parameter list \<Rightarrow> valuation \<Rightarrow> 's \<Rightarrow> (valuation \<times> 's) res" where
  "shrink_values violates [] current s = Inr (current, s)"
| "shrink_values violates (p # ps) current s =
     rbind (shrink_parameter violates p current s) (\<lambda>(current', s'). shrink_values violates ps current' s')"

section \<open>The search\<close>

definition parameter_arguments :: "parameter list \<Rightarrow> valuation \<Rightarrow> pystr list res" where
  "parameter_arguments ps v = traverse (\<lambda>p. (case dget v (par_name p) of
     None \<Rightarrow> Inl KeyError | Some n \<Rightarrow> Inr (cat [par_flag p, lit ''='', int_text n]))) ps"

definition has_violation :: "verification_report \<Rightarrow> bool" where
  "has_violation r \<longleftrightarrow> list_ex (\<lambda>c. cl_status c = Fail) (vr_results r)"

text \<open>The number of experiments run so far, the cache of \<open>violates\<close> and its flag.\<close>

record search_state =
  ss_runs :: nat
  ss_cache :: "(valuation, bool) dict"
  ss_exhausted :: bool

definition run_experiment ::
  "(nat \<Rightarrow> pystr list \<Rightarrow> verification_report res) \<Rightarrow> parameter list \<Rightarrow> valuation \<Rightarrow> search_state \<Rightarrow>
     (verification_report \<times> search_state) res" where
  "run_experiment run ps v s =
     rbind (parameter_arguments ps v) (\<lambda>args.
     rbind (run (ss_runs s) args) (\<lambda>report. Inr (report, s\<lparr>ss_runs := ss_runs s + 1\<rparr>)))"

definition violates ::
  "(nat \<Rightarrow> pystr list \<Rightarrow> verification_report res) \<Rightarrow> parameter list \<Rightarrow> nat \<Rightarrow> search_state tester" where
  "violates run ps max_examples v s =
     (case dget (ss_cache s) (values_key v) of
        Some b \<Rightarrow> Inr (b, s)
      | None \<Rightarrow>
          if length (ss_cache s) \<ge> max_examples then Inr (False, s\<lparr>ss_exhausted := True\<rparr>)
          else rbind (run_experiment run ps v s) (\<lambda>(report, s').
            let bad = has_violation report in
            Inr (bad, s'\<lparr>ss_cache := dset (values_key v) bad (ss_cache s')\<rparr>)))"

text \<open>\<open>next(candidate for candidate in ... if violates(candidate))\<close>\<close>

fun first_violation :: "'s tester \<Rightarrow> valuation list \<Rightarrow> 's \<Rightarrow> (valuation option \<times> 's) res" where
  "first_violation test [] s = Inr (None, s)"
| "first_violation test (c # cs) s =
     rbind (test c s) (\<lambda>(bad, s'). if bad then Inr (Some c, s') else first_violation test cs s')"

record counterexample =
  ce_parameters :: valuation
  ce_report :: verification_report
  ce_exhausted :: bool

definition initial_search :: search_state where
  "initial_search = \<lparr>ss_runs = 0, ss_cache = [], ss_exhausted = False\<rparr>"

definition search_loaded ::
  "(nat \<Rightarrow> int \<Rightarrow> int \<Rightarrow> int) \<Rightarrow> (nat \<Rightarrow> pystr list \<Rightarrow> verification_report res) \<Rightarrow> parameter list \<Rightarrow> nat \<Rightarrow>
     (counterexample option \<times> search_state) res" where
  "search_loaded randint run ps max_examples =
     rbind (first_violation (violates run ps max_examples) (candidate_values randint ps max_examples) initial_search)
       (\<lambda>(found, s).
     (case found of
        None \<Rightarrow> Inr (None, s)
      | Some v \<Rightarrow>
          rbind (shrink_values (violates run ps max_examples) ps v s) (\<lambda>(v', s').
          rbind (run_experiment run ps v' s') (\<lambda>(report, s'').
          if \<not> has_violation report
          then Inl (ExperimentError (lit ''selected counterexample did not reproduce on the preserved run''))
          else Inr (Some \<lparr>ce_parameters = v', ce_report = report, ce_exhausted = ss_exhausted s''\<rparr>, s'')))))"

text \<open>The checks before the search; \<open>paths\<close> is the outcome of the checks of the file system.\<close>

definition search_counterexample ::
  "(nat \<Rightarrow> bool) \<Rightarrow> (nat \<Rightarrow> bool) \<Rightarrow> (nat \<Rightarrow> int \<Rightarrow> int \<Rightarrow> int) \<Rightarrow>
     (contract list \<Rightarrow> nat \<Rightarrow> pystr list \<Rightarrow> verification_report res) \<Rightarrow>
     unit res \<Rightarrow> obj \<Rightarrow> pystr \<Rightarrow> obj \<Rightarrow> obj \<Rightarrow> counterexample option res" where
  "search_counterexample is_space printable randint run paths max_examples stem contract_document parameter_document =
     (case max_examples of
        OInt n \<Rightarrow>
          rbind (raise_if (n \<le> 0) (contract_error [lit ''max_examples must be positive''])) (\<lambda>_.
          rbind (raise_if (n > max_counterexample_examples) (contract_error [lit ''max_examples cannot exceed 1000''])) (\<lambda>_.
          rbind paths (\<lambda>_.
          rbind (load_parameters is_space parameter_document) (\<lambda>ps.
          rbind (load_contracts printable stem contract_document) (\<lambda>contracts.
          rbind (search_loaded randint (run contracts) ps (nat n)) (\<lambda>(found, s). Inr found))))))
      | _ \<Rightarrow> Inl (contract_error [lit ''max_examples must be an integer'']))"

end
