(* ===== verification/CounterexampleLaws.thy ===== *)
theory CounterexampleLaws
  imports Counterexamples
begin

text \<open>
  What the counterexample search promises. The functions that search and shrink only rely
  on a tester whose positive answers stay true, the locale \<open>tester_laws\<close>. It is
  interpreted on the cached, budgeted test of the search, and on a plain predicate, for
  which shrinking ends in a local minimum.
\<close>

section \<open>Values within the bounds\<close>

definition parameter_ok :: "parameter \<Rightarrow> bool" where
  "parameter_ok p \<longleftrightarrow> par_minimum p \<le> par_maximum p"

definition in_bounds :: "parameter list \<Rightarrow> valuation \<Rightarrow> bool" where
  "in_bounds ps v \<longleftrightarrow> (\<forall>p\<in>set ps. \<exists>n. dget v (par_name p) = Some n \<and> par_minimum p \<le> n \<and> n \<le> par_maximum p)"

definition parameters_ok :: "parameter list \<Rightarrow> bool" where
  "parameters_ok ps \<longleftrightarrow> distinct (map par_name ps) \<and> (\<forall>p\<in>set ps. parameter_ok p)"

lemma nearest_zero_bounds: "parameter_ok p \<Longrightarrow> par_minimum p \<le> nearest_zero p \<and> nearest_zero p \<le> par_maximum p"
  by (auto simp: nearest_zero_def parameter_ok_def)

lemma in_bounds_dset:
  assumes "in_bounds ps v" "distinct (map par_name ps)" "p \<in> set ps" "par_minimum p \<le> n" "n \<le> par_maximum p"
  shows "in_bounds ps (dset (par_name p) n v)"
  unfolding in_bounds_def
proof
  fix q assume q: "q \<in> set ps"
  show "\<exists>m. dget (dset (par_name p) n v) (par_name q) = Some m \<and> par_minimum q \<le> m \<and> m \<le> par_maximum q"
  proof (cases "par_name q = par_name p")
    case True
    then have "q = p" using assms(2,3) q by (metis distinct_map inj_on_def)
    with assms(4,5) show ?thesis by simp
  next
    case False
    with assms(1) q show ?thesis by (simp add: in_bounds_def)
  qed
qed

section \<open>Testers\<close>

lemma bisect_step:
  "\<bar>violating - safe\<bar> > 1 \<Longrightarrow> bisect test name safe violating current s =
     rbind (test (dset name (safe + (violating - safe) div 2) current) s) (\<lambda>(b, t).
       if b then bisect test name safe (safe + (violating - safe) div 2)
           (dset name (safe + (violating - safe) div 2) current) t
       else bisect test name (safe + (violating - safe) div 2) violating current t)"
  by (subst bisect.simps) (simp only: Let_def if_True)

lemma bisect_stop: "\<not> \<bar>violating - safe\<bar> > 1 \<Longrightarrow> bisect test name safe violating current s = Inr (current, s)"
  by (subst bisect.simps) (simp only: if_False)

locale tester_laws =
  fixes test :: "'s tester" and inv :: "'s \<Rightarrow> bool" and bad :: "'s \<Rightarrow> valuation \<Rightarrow> bool"
  assumes test_inv: "inv s \<Longrightarrow> test v s = Inr (b, s') \<Longrightarrow> inv s'"
    and test_bad: "inv s \<Longrightarrow> test v s = Inr (True, s') \<Longrightarrow> bad s' v"
    and test_keeps: "inv s \<Longrightarrow> test v s = Inr (b, s') \<Longrightarrow> bad s w \<Longrightarrow> bad s' w"
begin

lemma bisect_spec:
  assumes "bisect test name safe violating current s = Inr (r, s')"
    and "inv s" "bad s current" "dget current name = Some violating"
    and "lo \<le> safe" "safe \<le> hi" "lo \<le> violating" "violating \<le> hi"
  shows "inv s' \<and> bad s' r \<and> (\<forall>w. bad s w \<longrightarrow> bad s' w) \<and>
    (\<exists>n. lo \<le> n \<and> n \<le> hi \<and> dget r = (dget current)(name \<mapsto> n))"
  using assms
proof (induction "nat \<bar>violating - safe\<bar>" arbitrary: safe violating current s rule: less_induct)
  case less
  show ?case
  proof (cases "\<bar>violating - safe\<bar> > 1")
    case False
    with less.prems show ?thesis
      by (auto simp: bisect_stop fun_upd_idem intro!: exI [of _ violating])
  next
    case True
    define m where "m = safe + (violating - safe) div 2"
    let ?c = "dset name m current"
    have m: "lo \<le> m" "m \<le> hi" using less.prems by (auto simp: m_def)
    have d: "nat \<bar>m - safe\<bar> < nat \<bar>violating - safe\<bar>" "nat \<bar>violating - m\<bar> < nat \<bar>violating - safe\<bar>"
      using True by (auto simp: m_def)
    have "bisect test name safe violating current s = rbind (test ?c s) (\<lambda>(b, t).
        if b then bisect test name safe m ?c t else bisect test name m violating current t)"
      unfolding m_def by (rule bisect_step [OF True])
    with less.prems(1) obtain b t where t: "test ?c s = Inr (b, t)"
      and rest: "(if b then bisect test name safe m ?c t else bisect test name m violating current t) = Inr (r, s')"
      by (auto simp: rbind_eq_Inr_iff)
    have t': "inv t" "\<And>w. bad s w \<Longrightarrow> bad t w" "b \<Longrightarrow> bad t ?c"
      using test_inv [OF less.prems(2) t] test_keeps [OF less.prems(2) t] test_bad [OF less.prems(2)] t by auto
    show ?thesis
    proof (cases b)
      case True
      with rest have "bisect test name safe m ?c t = Inr (r, s')" by simp
      from less.hyps [OF d(1) this t'(1) t'(3) [OF True] _ less.prems(5,6) m]
      have "inv s' \<and> bad s' r \<and> (\<forall>w. bad t w \<longrightarrow> bad s' w) \<and>
          (\<exists>n. lo \<le> n \<and> n \<le> hi \<and> dget r = (dget current)(name \<mapsto> n))" by simp
      with t'(2) show ?thesis by blast
    next
      case False
      with rest have "bisect test name m violating current t = Inr (r, s')" by simp
      from less.hyps [OF d(2) this t'(1) t'(2) [OF less.prems(3)] less.prems(4) m less.prems(7,8)]
      have "inv s' \<and> bad s' r \<and> (\<forall>w. bad t w \<longrightarrow> bad s' w) \<and>
          (\<exists>n. lo \<le> n \<and> n \<le> hi \<and> dget r = (dget current)(name \<mapsto> n))" .
      with t'(2) show ?thesis by blast
    qed
  qed
qed

lemma shrink_parameter_spec:
  assumes run: "shrink_parameter test p current s = Inr (r, s')"
    and s: "inv s" "bad s current" and v: "in_bounds ps current" "distinct (map par_name ps)" "p \<in> set ps" "parameter_ok p"
  shows "inv s' \<and> bad s' r \<and> in_bounds ps r"
proof -
  obtain b t where t: "test (dset (par_name p) (nearest_zero p) current) s = Inr (b, t)"
    and rest: "(if b then Inr (dset (par_name p) (nearest_zero p) current, t)
      else case dget current (par_name p) of None \<Rightarrow> Inl KeyError
        | Some violating \<Rightarrow> bisect test (par_name p) (nearest_zero p) violating current t) = Inr (r, s')"
    using run by (auto simp: shrink_parameter_def Let_def rbind_eq_Inr_iff)
  have t': "inv t" "bad t current" "b \<Longrightarrow> bad t (dset (par_name p) (nearest_zero p) current)"
    using test_inv [OF s(1) t] test_keeps [OF s(1) t s(2)] test_bad [OF s(1)] t by auto
  note z = nearest_zero_bounds [OF v(4)]
  obtain n where n: "dget current (par_name p) = Some n" "par_minimum p \<le> n" "n \<le> par_maximum p"
    using v(1,3) by (auto simp: in_bounds_def)
  show ?thesis
  proof (cases b)
    case True
    with rest t' in_bounds_dset [OF v(1-3), of "nearest_zero p"] z show ?thesis by auto
  next
    case False
    with rest n have "bisect test (par_name p) (nearest_zero p) n current t = Inr (r, s')" by simp
    from bisect_spec [OF this t'(1,2) n(1), of "par_minimum p" "par_maximum p"] z n
    obtain k where "inv s'" "bad s' r" "par_minimum p \<le> k" "k \<le> par_maximum p"
        "dget r = (dget current)(par_name p \<mapsto> k)" by blast
    moreover from this have "dget r = dget (dset (par_name p) k current)" by simp
    ultimately show ?thesis using in_bounds_dset [OF v(1-3), of k] by (simp add: in_bounds_def)
  qed
qed

lemma shrink_values_spec:
  assumes "shrink_values test qs current s = Inr (r, s')" and "inv s" "bad s current"
    and "in_bounds ps current" "parameters_ok ps" "set qs \<subseteq> set ps"
  shows "inv s' \<and> bad s' r \<and> in_bounds ps r"
  using assms
proof (induction qs arbitrary: current s)
  case (Cons q qs)
  obtain c t where ct: "shrink_parameter test q current s = Inr (c, t)" "shrink_values test qs c t = Inr (r, s')"
    using Cons.prems(1) by (auto simp: rbind_eq_Inr_iff)
  have "distinct (map par_name ps)" "q \<in> set ps" "parameter_ok q"
    using Cons.prems(5,6) by (auto simp: parameters_ok_def)
  from shrink_parameter_spec [OF ct(1) Cons.prems(2,3,4) this] Cons.IH [OF ct(2)] Cons.prems
  show ?case by auto
qed auto

lemma first_violation_spec:
  assumes "first_violation test cs s = Inr (found, s')" and "inv s"
  shows "inv s' \<and> (\<forall>v. found = Some v \<longrightarrow> v \<in> set cs \<and> bad s' v)"
  using assms
proof (induction cs arbitrary: s)
  case (Cons c cs)
  obtain b t where t: "test c s = Inr (b, t)"
    and rest: "(if b then Inr (Some c, t) else first_violation test cs t) = Inr (found, s')"
    using Cons.prems(1) by (auto simp: rbind_eq_Inr_iff)
  have "inv t" by (rule test_inv [OF Cons.prems(2) t])
  show ?case
  proof (cases b)
    case True
    with rest t test_bad [OF Cons.prems(2)] \<open>inv t\<close> show ?thesis by auto
  next
    case False
    with rest Cons.IH [OF _ \<open>inv t\<close>] show ?thesis by auto
  qed
qed auto

end

section \<open>A plain predicate\<close>

definition pure_tester :: "(valuation \<Rightarrow> bool) \<Rightarrow> unit tester" where
  "pure_tester P v s = Inr (P v, s)"

interpretation pure: tester_laws "pure_tester P" "\<lambda>_. True" "\<lambda>_. P" for P
  by unfold_locales (auto simp: pure_tester_def)

text \<open>
  With a predicate the bisection ends next to a value that does not violate, on the side
  of the target; \<open>d\<close> is the direction from the target.
\<close>

lemma bisect_pure:
  assumes "bisect (pure_tester P) name safe violating current () = Inr (r, u)"
    and "P current" "dget current name = Some violating" "\<not> P (dset name safe current)"
    and "d = sgn (violating - safe)" "violating \<noteq> safe" "0 \<le> d * (safe - target)"
  shows "P r \<and> (\<exists>n. dget r name = Some n \<and> sgn (n - target) = d \<and> \<not> P (dset name (n - d) r))"
  using assms
proof (induction "nat \<bar>violating - safe\<bar>" arbitrary: safe violating current rule: less_induct)
  case less
  show ?case
  proof (cases "\<bar>violating - safe\<bar> > 1")
    case False
    with less.prems(6) have "violating - safe = 1 \<or> violating - safe = - 1" by linarith
    with less.prems(5) have d: "safe = violating - d" "d = 1 \<or> d = - 1" by auto
    with less.prems(7) have "sgn (violating - target) = d" by auto
    moreover have "r = current" using less.prems(1) unfolding bisect_stop [OF False] by simp
    ultimately show ?thesis using less.prems(2-4) d(1) by simp
  next
    case True
    define m where "m = safe + (violating - safe) div 2"
    have dist: "nat \<bar>m - safe\<bar> < nat \<bar>violating - safe\<bar>" "nat \<bar>violating - m\<bar> < nat \<bar>violating - safe\<bar>"
      using True by (auto simp: m_def)
    have dir: "d = 1 \<and> safe < m \<and> m < violating \<or> d = - 1 \<and> m < safe \<and> violating < m"
      using True less.prems(5) by (auto simp: m_def sgn_if)
    have step: "bisect (pure_tester P) name safe violating current () =
        (if P (dset name m current) then bisect (pure_tester P) name safe m (dset name m current) ()
         else bisect (pure_tester P) name m violating current ())"
      unfolding m_def by (subst bisect_step [OF True]) (simp only: pure_tester_def rbind_simps case_prod_conv)
    show ?thesis
    proof (cases "P (dset name m current)")
      case True
      with step less.prems(1) have "bisect (pure_tester P) name safe m (dset name m current) () = Inr (r, u)" by simp
      from less.hyps [OF dist(1) this True] dir less.prems(4,7) show ?thesis by auto
    next
      case False
      with step less.prems(1) have "bisect (pure_tester P) name m violating current () = Inr (r, u)" by simp
      moreover have "0 \<le> d * (m - target)" using dir less.prems(7) by auto
      ultimately show ?thesis using less.hyps [OF dist(2) _ less.prems(2,3) False] dir by auto
    qed
  qed
qed

lemma shrink_parameter_pure:
  assumes "shrink_parameter (pure_tester P) p current () = Inr (r, u)" and "P current"
  shows "P r \<and> (dget r (par_name p) = Some (nearest_zero p) \<or>
    (\<exists>n. dget r (par_name p) = Some n \<and> \<not> P (dset (par_name p) (n - sgn (n - nearest_zero p)) r)))"
proof (cases "P (dset (par_name p) (nearest_zero p) current)")
  case True
  with assms show ?thesis by (auto simp: shrink_parameter_def pure_tester_def)
next
  case False
  with assms(1) obtain n where n: "dget current (par_name p) = Some n"
      "bisect (pure_tester P) (par_name p) (nearest_zero p) n current () = Inr (r, u)"
    by (auto simp: shrink_parameter_def pure_tester_def split: option.splits)
  show ?thesis
  proof (cases "n = nearest_zero p")
    case True
    with n(2) have "r = current" using bisect_stop [of n "nearest_zero p" "pure_tester P" "par_name p" current "()"] by simp
    with True n(1) assms(2) show ?thesis by simp
  next
    case no: False
    from bisect_pure [OF n(2) assms(2) n(1) False refl no, of "nearest_zero p"] show ?thesis by auto
  qed
qed

section \<open>The cached test\<close>

lemma values_key_set: "set (values_key v) = set v"
  by (simp add: values_key_def)

text \<open>A cached answer is the verdict of an earlier experiment with the same parameters.\<close>

definition experiment_gave ::
  "(nat \<Rightarrow> pystr list \<Rightarrow> verification_report res) \<Rightarrow> parameter list \<Rightarrow> nat \<Rightarrow> valuation \<Rightarrow> bool \<Rightarrow> bool" where
  "experiment_gave run ps n key b \<longleftrightarrow> (\<exists>i<n. \<exists>v args report. values_key v = key \<and>
     parameter_arguments ps v = Inr args \<and> run i args = Inr report \<and> has_violation report = b)"

definition search_ok ::
  "(nat \<Rightarrow> pystr list \<Rightarrow> verification_report res) \<Rightarrow> parameter list \<Rightarrow> nat \<Rightarrow> search_state \<Rightarrow> bool" where
  "search_ok run ps m s \<longleftrightarrow> length (ss_cache s) \<le> m \<and> ss_runs s = length (ss_cache s) \<and>
     (\<forall>k b. dget (ss_cache s) k = Some b \<longrightarrow> experiment_gave run ps (ss_runs s) k b)"

lemma experiment_gave_mono:
  assumes "experiment_gave run ps n k b" and "n \<le> n'"
  shows "experiment_gave run ps n' k b"
proof -
  obtain i v args report where "i < n" and *: "values_key v = k" "parameter_arguments ps v = Inr args"
      "run i args = Inr report" "has_violation report = b"
    using assms(1) unfolding experiment_gave_def by blast
  from \<open>i < n\<close> assms(2) have "i < n'" by simp
  with * show ?thesis unfolding experiment_gave_def by blast
qed

lemma experiment_gave_Suc: "experiment_gave run ps n k b \<Longrightarrow> experiment_gave run ps (Suc n) k b"
  by (erule experiment_gave_mono) simp

definition known_bad :: "search_state \<Rightarrow> valuation \<Rightarrow> bool" where
  "known_bad s v \<longleftrightarrow> dget (ss_cache s) (values_key v) = Some True"

lemma violates_cached: "dget (ss_cache s) (values_key v) = Some b \<Longrightarrow> violates run ps m v s = Inr (b, s)"
  by (simp add: violates_def)

lemma violates_exhausted:
  "dget (ss_cache s) (values_key v) = None \<Longrightarrow> m \<le> length (ss_cache s) \<Longrightarrow>
     violates run ps m v s = Inr (False, s\<lparr>ss_exhausted := True\<rparr>)"
  by (simp add: violates_def)

lemma violates_runs:
  "dget (ss_cache s) (values_key v) = None \<Longrightarrow> length (ss_cache s) < m \<Longrightarrow>
     violates run ps m v s = rbind (parameter_arguments ps v) (\<lambda>args. rbind (run (ss_runs s) args) (\<lambda>report.
       Inr (has_violation report, s\<lparr>ss_runs := ss_runs s + 1,
         ss_cache := dset (values_key v) (has_violation report) (ss_cache s)\<rparr>)))"
  by (simp add: violates_def run_experiment_def rbind_assoc Let_def)

text \<open>A test that returns answers from the cache, gives up, or runs one experiment.\<close>

lemma violates_cases:
  assumes "violates run ps m v s = Inr (b, s')"
  shows "(dget (ss_cache s) (values_key v) = Some b \<and> s' = s) \<or>
    (dget (ss_cache s) (values_key v) = None \<and> m \<le> length (ss_cache s) \<and> \<not> b \<and> s' = s\<lparr>ss_exhausted := True\<rparr>) \<or>
    (dget (ss_cache s) (values_key v) = None \<and> length (ss_cache s) < m \<and>
      s' = s\<lparr>ss_runs := ss_runs s + 1, ss_cache := dset (values_key v) b (ss_cache s)\<rparr> \<and>
      experiment_gave run ps (ss_runs s + 1) (values_key v) b)"
proof (cases "dget (ss_cache s) (values_key v)")
  case (Some c)
  with violates_cached [OF Some] assms show ?thesis by simp
next
  case None
  show ?thesis
  proof (cases "m \<le> length (ss_cache s)")
    case True
    with violates_exhausted [OF None True] None assms show ?thesis by simp
  next
    case False
    then have "length (ss_cache s) < m" by simp
    with violates_runs [OF None this] None assms show ?thesis
      by (auto simp: rbind_eq_Inr_iff experiment_gave_def intro!: exI [of _ "ss_runs s"])
  qed
qed

lemma length_dset_new: "dget d k = None \<Longrightarrow> length (dset k v d) = Suc (length d)"
  by (induction d) (auto split: if_splits)

interpretation search: tester_laws "violates run ps m" "search_ok run ps m" known_bad for run ps m
proof (unfold_locales, goal_cases)
  case (1 s v b s')
  have "experiment_gave run ps (Suc (ss_runs s)) k c" if "dget (ss_cache s) k = Some c" for k c
    by (rule experiment_gave_Suc) (use that 1(1) in \<open>unfold search_ok_def, blast\<close>)
  with violates_cases [OF 1(2)] 1(1) show ?case
    by (auto simp: search_ok_def length_dset_new split: if_splits)
next
  case (2 s v s')
  from violates_cases [OF 2(2)] show ?case by (auto simp: known_bad_def)
next
  case (3 s v b s' w)
  from violates_cases [OF 3(2)] 3(3) show ?case by (auto simp: known_bad_def)
qed

section \<open>The candidates\<close>

text \<open>The documented range of \<open>randint\<close>.\<close>

definition randint_in_range :: "(nat \<Rightarrow> int \<Rightarrow> int \<Rightarrow> int) \<Rightarrow> bool" where
  "randint_in_range randint \<longleftrightarrow> (\<forall>k a b. a \<le> b \<longrightarrow> a \<le> randint k a b \<and> randint k a b \<le> b)"

lemma fold_dset_other:
  "k \<notin> (\<lambda>x. par_name (g x)) ` set xs \<Longrightarrow> dget (fold (\<lambda>x. dset (par_name (g x)) (f x)) xs d) k = dget d k"
  by (induction xs arbitrary: d) auto

lemma fold_dset_value:
  "distinct (map (\<lambda>x. par_name (g x)) xs) \<Longrightarrow> x \<in> set xs \<Longrightarrow>
     dget (fold (\<lambda>x. dset (par_name (g x)) (f x)) xs d) (par_name (g x)) = Some (f x)"
proof (induction xs arbitrary: d)
  case (Cons y ys)
  show ?case
  proof (cases "x \<in> set ys")
    case True
    with Cons show ?thesis by simp
  next
    case False
    with Cons.prems have "x = y" "par_name (g x) \<notin> (\<lambda>x. par_name (g x)) ` set ys" by auto
    with fold_dset_other [of "par_name (g x)" g ys f] show ?thesis by simp
  qed
qed simp

lemma assign_in_bounds:
  assumes "distinct (map par_name ps)" "\<And>p. p \<in> set ps \<Longrightarrow> par_minimum p \<le> f p \<and> f p \<le> par_maximum p"
  shows "in_bounds ps (assign f ps)"
  using assms fold_dset_value [of "\<lambda>p. p" ps _ f "[]"] by (auto simp: in_bounds_def assign_def)

lemma random_in_bounds:
  assumes "parameters_ok ps" "randint_in_range randint"
  shows "in_bounds ps (random_values randint k ps)"
  unfolding in_bounds_def
proof
  fix p assume "p \<in> set ps"
  then obtain i where i: "(i, p) \<in> set (zip [0..<length ps] ps)"
    by (metis in_set_impl_in_set_zip2 length_upt diff_zero)
  have "map (\<lambda>x. par_name (snd x)) (zip [0..<length ps] ps) = map par_name (map snd (zip [0..<length ps] ps))"
    by (simp only: map_map o_def)
  also have "map snd (zip [0..<length ps] ps) = ps" by (rule map_snd_zip) simp
  finally have names: "map (\<lambda>x. par_name (snd x)) (zip [0..<length ps] ps) = map par_name ps" .
  have "distinct (map (\<lambda>x. par_name (snd x)) (zip [0..<length ps] ps))"
    using assms(1) unfolding names by (simp add: parameters_ok_def)
  from fold_dset_value [OF this i, of "\<lambda>(i, p). randint (k + i) (par_minimum p) (par_maximum p)" "[]"]
  have "dget (random_values randint k ps) (par_name p) = Some (randint (k + i) (par_minimum p) (par_maximum p))"
    by (simp add: random_values_def case_prod_unfold)
  moreover have "par_minimum p \<le> par_maximum p"
    using assms(1) \<open>p \<in> set ps\<close> by (auto simp: parameters_ok_def parameter_ok_def)
  ultimately show "\<exists>n. dget (random_values randint k ps) (par_name p) = Some n \<and> par_minimum p \<le> n \<and> n \<le> par_maximum p"
    using assms(2) by (auto simp: randint_in_range_def)
qed

lemma all_candidates_in_bounds:
  assumes ok: "parameters_ok ps" and r: "randint_in_range randint" and c: "c \<in> set (all_candidates randint ps budget)"
  shows "in_bounds ps c"
proof -
  have d: "distinct (map par_name ps)" and p: "\<And>p. p \<in> set ps \<Longrightarrow> parameter_ok p"
    using ok by (auto simp: parameters_ok_def)
  have simple: "in_bounds ps (simple_values ps)"
    unfolding simple_values_def by (rule assign_in_bounds [OF d]) (use p nearest_zero_bounds in blast)
  have extreme: "in_bounds ps (assign par_maximum ps)" "in_bounds ps (assign par_minimum ps)"
    by (rule assign_in_bounds [OF d]; use p in \<open>auto simp: parameter_ok_def\<close>)+
  have one: "in_bounds ps (dset (par_name q) n (simple_values ps))"
    if "q \<in> set ps" "n = par_minimum q \<or> n = par_maximum q" for q n
    by (rule in_bounds_dset [OF simple d that(1)]) (use that p [OF that(1)] in \<open>auto simp: parameter_ok_def\<close>)
  from c show ?thesis
    using simple extreme one random_in_bounds [OF ok r] by (auto simp: all_candidates_def)
qed

lemma take_unique_spec:
  assumes "distinct (map values_key acc)" "set seen = values_key ` set acc" "length acc < budget"
  shows "distinct (map values_key (take_unique budget seen acc cs)) \<and>
    length (take_unique budget seen acc cs) \<le> budget \<and>
    set (take_unique budget seen acc cs) \<subseteq> set acc \<union> set cs \<and>
    (length (take_unique budget seen acc cs) < budget \<longrightarrow>
       values_key ` set (take_unique budget seen acc cs) = values_key ` (set acc \<union> set cs))"
  using assms
proof (induction cs arbitrary: seen acc)
  case Nil
  then show ?case by (simp flip: rev_map)
next
  case (Cons c cs)
  show ?case
  proof (cases "values_key c \<in> set seen")
    case True
    with Cons show ?thesis by auto
  next
    case False
    show ?thesis
    proof (cases "length (c # acc) \<ge> budget")
      case True
      with False Cons.prems show ?thesis by (auto simp flip: rev_map)
    next
      case no: False
      have "distinct (map values_key (c # acc))" "set (values_key c # seen) = values_key ` set (c # acc)" "length (c # acc) < budget"
        using False Cons.prems no by auto
      from Cons.IH [OF this] False no show ?thesis by auto
    qed
  qed
qed

section \<open>Completeness over the candidates\<close>

lemma candidate_values_spec:
  assumes "0 < budget"
  shows "distinct (map values_key (candidate_values randint ps budget)) \<and>
    length (candidate_values randint ps budget) \<le> budget \<and>
    set (candidate_values randint ps budget) \<subseteq> set (all_candidates randint ps budget) \<and>
    (length (candidate_values randint ps budget) < budget \<longrightarrow>
       values_key ` set (candidate_values randint ps budget) = values_key ` set (all_candidates randint ps budget))"
  using take_unique_spec [of "[]" "[]" budget "all_candidates randint ps budget"] assms
  by (simp add: candidate_values_def)

lemma take_unique_prefix: "\<exists>zs. take_unique budget seen acc cs = rev acc @ zs"
  by (induction cs arbitrary: seen acc) (auto, metis append.assoc rev.simps(2))

lemma candidate_values_simple: "\<exists>zs. candidate_values randint ps budget = simple_values ps # zs"
proof -
  obtain rest where "all_candidates randint ps budget = simple_values ps # rest"
    by (simp add: all_candidates_def)
  then have "candidate_values randint ps budget = (if budget \<le> 1 then [simple_values ps]
      else take_unique budget [values_key (simple_values ps)] [simple_values ps] rest)"
    by (simp add: candidate_values_def)
  then show ?thesis
    using take_unique_prefix [of budget "[values_key (simple_values ps)]" "[simple_values ps]" rest] by auto
qed

text \<open>A candidate that is tested first, within the budget, gets an answer.\<close>

lemma first_violation_complete:
  assumes "first_violation (violates run ps m) cs s = Inr (None, s')"
    and "distinct (map values_key cs)" "\<forall>c\<in>set cs. dget (ss_cache s) (values_key c) = None"
    and "length (ss_cache s) + length cs \<le> m"
  shows "(\<forall>c\<in>set cs. dget (ss_cache s') (values_key c) = Some False) \<and> ss_exhausted s' = ss_exhausted s \<and>
    (\<forall>k b. dget (ss_cache s) k = Some b \<longrightarrow> dget (ss_cache s') k = Some b)"
  using assms
proof (induction cs arbitrary: s)
  case (Cons c cs)
  obtain t where t: "violates run ps m c s = Inr (False, t)" and rest: "first_violation (violates run ps m) cs t = Inr (None, s')"
    using Cons.prems(1) by (auto simp: rbind_eq_Inr_iff split: if_splits)
  have new: "dget (ss_cache s) (values_key c) = None" "length (ss_cache s) < m" using Cons.prems by auto
  with violates_cases [OF t] have tt: "t = s\<lparr>ss_runs := ss_runs s + 1, ss_cache := dset (values_key c) False (ss_cache s)\<rparr>"
    by auto
  have "length (ss_cache t) + length cs \<le> m" using Cons.prems(4) new(1) by (simp add: tt length_dset_new)
  moreover have "values_key c \<notin> values_key ` set cs" using Cons.prems(2) by simp
  then have "values_key d \<noteq> values_key c" if "d \<in> set cs" for d using that by (metis imageI)
  then have "\<forall>d\<in>set cs. dget (ss_cache t) (values_key d) = None" using Cons.prems(3) by (simp add: tt)
  moreover have "distinct (map values_key cs)" using Cons.prems(2) by simp
  ultimately have IH: "(\<forall>c\<in>set cs. dget (ss_cache s') (values_key c) = Some False) \<and> ss_exhausted s' = ss_exhausted t \<and>
      (\<forall>k b. dget (ss_cache t) k = Some b \<longrightarrow> dget (ss_cache s') k = Some b)"
    using Cons.IH [OF rest] by blast
  have "dget (ss_cache t) (values_key c) = Some False" by (simp add: tt)
  moreover have "dget (ss_cache t) k = Some b" if "dget (ss_cache s) k = Some b" for k b
    using that new(1) by (auto simp: tt)
  ultimately show ?case using IH by (auto simp: tt)
qed simp

section \<open>Properties\<close>

text \<open>The candidates of a search are pairwise different, at most as many as the budget, all within the
  bounds of the parameters, and the one nearest to zero comes first.\<close>

theorem candidates_distinct_bounded_in_range:
  assumes "parameters_ok ps" "randint_in_range randint" "0 < budget"
  shows "distinct (map values_key (candidate_values randint ps budget)) \<and>
    length (candidate_values randint ps budget) \<le> budget \<and>
    list_all (in_bounds ps) (candidate_values randint ps budget) \<and>
    hd (candidate_values randint ps budget) = simple_values ps"
  using candidate_values_spec [OF assms(3), of randint ps] all_candidates_in_bounds [OF assms(1,2)]
    candidate_values_simple [of randint ps budget]
  by (auto simp: list_all_iff)

text \<open>C6. A counterexample the search reports is within the bounds of the parameters, an earlier
  experiment with the same parameters violated the contract, and so did the preserved run; at most
  one experiment beyond the budget was run.\<close>

theorem search_reports_reproduced_violation:
  assumes "search_loaded randint run ps m = Inr (Some ce, s)"
    and "parameters_ok ps" "randint_in_range randint" "0 < m"
  shows "in_bounds ps (ce_parameters ce) \<and> has_violation (ce_report ce) \<and>
    experiment_gave run ps (ss_runs s - 1) (values_key (ce_parameters ce)) True \<and> ss_runs s \<le> m + 1"
proof -
  obtain v t v' t' report where
    first: "first_violation (violates run ps m) (candidate_values randint ps m) initial_search = Inr (Some v, t)"
    and shrink: "shrink_values (violates run ps m) ps v t = Inr (v', t')"
    and final: "run_experiment run ps v' t' = Inr (report, s)" "has_violation report"
      "ce = \<lparr>ce_parameters = v', ce_report = report, ce_exhausted = ss_exhausted s\<rparr>"
    using assms(1) by (auto simp: search_loaded_def rbind_eq_Inr_iff split: option.splits if_splits)
  have "search_ok run ps m initial_search" by (simp add: search_ok_def initial_search_def)
  from search.first_violation_spec [OF first this] have t: "search_ok run ps m t" "known_bad t v"
      "v \<in> set (candidate_values randint ps m)" by auto
  have "in_bounds ps v"
    using t(3) candidate_values_spec [OF assms(4), of randint ps] all_candidates_in_bounds [OF assms(2,3)] by blast
  from search.shrink_values_spec [OF shrink t(1,2) this assms(2)]
  have t': "search_ok run ps m t'" "known_bad t' v'" "in_bounds ps v'" by auto
  have s: "ss_runs s = ss_runs t' + 1" using final(1) by (auto simp: run_experiment_def rbind_eq_Inr_iff)
  have "experiment_gave run ps (ss_runs t') (values_key v') True" "ss_runs t' \<le> m"
    using t' by (auto simp: search_ok_def known_bad_def)
  with t'(3) final(2,3) s show ?thesis by simp
qed

text \<open>A search that reports nothing has tried every candidate: each was run and none violated the
  contract, and the budget was not exceeded.\<close>

theorem search_without_result_tried_every_candidate:
  assumes "search_loaded randint run ps m = Inr (None, s)" and "0 < m"
  shows "list_all (\<lambda>c. experiment_gave run ps m (values_key c) False) (candidate_values randint ps m) \<and> \<not> ss_exhausted s"
proof -
  have first: "first_violation (violates run ps m) (candidate_values randint ps m) initial_search = Inr (None, s)"
    using assms(1) by (auto simp: search_loaded_def rbind_eq_Inr_iff split: option.splits if_splits)
  note c = candidate_values_spec [OF assms(2), of randint ps]
  have all: "(\<forall>c\<in>set (candidate_values randint ps m). dget (ss_cache s) (values_key c) = Some False) \<and> \<not> ss_exhausted s"
    using first_violation_complete [OF first] c by (auto simp: initial_search_def)
  have "search_ok run ps m initial_search" by (simp add: search_ok_def initial_search_def)
  then have "search_ok run ps m s" using search.first_violation_spec [OF first] by blast
  then have "experiment_gave run ps m (values_key c) False" if "c \<in> set (candidate_values randint ps m)" for c
    using all that experiment_gave_mono [of run ps "ss_runs s" _ _ m] by (fastforce simp: search_ok_def)
  with all show ?thesis by (simp add: list_all_iff)
qed

text \<open>On a workload whose verdict depends on the parameters alone, shrinking a parameter keeps the
  violation and ends in a local minimum: the value nearest to zero, or one whose neighbour toward it
  does not violate the contract.\<close>

theorem shrinking_ends_in_local_minimum:
  assumes "shrink_parameter (pure_tester P) p current () = Inr (r, u)" and "P current"
  shows "P r \<and> (dget r (par_name p) = Some (nearest_zero p) \<or>
    (\<exists>n. dget r (par_name p) = Some n \<and> \<not> P (dset (par_name p) (n - sgn (n - nearest_zero p)) r)))"
  by (rule shrink_parameter_pure [OF assms])

section \<open>Parameter documents\<close>

lemma parameter_flag_ok: "parameter_flag is_space name spec = Inr f \<Longrightarrow> flag_ok is_space f"
  by (auto simp: parameter_flag_def Let_def split: option.splits obj.splits if_splits)

lemma parameter_integer_ok: "parameter_integer label v = Inr n \<Longrightarrow> min_integer \<le> n \<and> n \<le> max_integer"
  by (auto simp: parameter_integer_def split: option.splits obj.splits if_splits)

definition loaded_ok :: "(nat \<Rightarrow> bool) \<Rightarrow> parameter \<Rightarrow> bool" where
  "loaded_ok is_space p \<longleftrightarrow> par_name p \<noteq> [] \<and> 0 \<notin> set (par_name p) \<and> flag_ok is_space (par_flag p) \<and>
     min_integer \<le> par_minimum p \<and> par_minimum p \<le> par_maximum p \<and> par_maximum p \<le> max_integer"

lemma load_parameter_ok:
  assumes "load_parameter is_space name raw = Inr p"
  shows "loaded_ok is_space p \<and> par_name p = name"
proof -
  obtain spec minimum maximum flag where "name \<noteq> []" "0 \<notin> set name" "minimum \<le> maximum"
    "parameter_integer (cat [lit ''parameter '', name, lit '' min'']) (dget spec (lit ''min'')) = Inr minimum"
    "parameter_integer (cat [lit ''parameter '', name, lit '' max'']) (dget spec (lit ''max'')) = Inr maximum"
    "parameter_flag is_space name spec = Inr flag"
    "p = \<lparr>par_name = name, par_flag = flag, par_minimum = minimum, par_maximum = maximum\<rparr>"
    using assms unfolding load_parameter_def rbind_eq_Inr_iff raise_if_Inr_iff by auto
  then show ?thesis using parameter_flag_ok parameter_integer_ok by (auto simp: loaded_ok_def)
qed

lemma load_each_ok:
  "load_each is_space flags raw = Inr ps \<Longrightarrow> list_all (loaded_ok is_space) ps \<and> map par_name ps = map fst raw \<and>
     distinct (map par_flag ps) \<and> set (map par_flag ps) \<inter> set flags = {}"
proof (induction is_space flags raw arbitrary: ps rule: load_each.induct)
  case (2 is_space flags name raw rest)
  then obtain p qs where p: "load_parameter is_space name raw = Inr p" "par_flag p \<notin> set flags"
      "load_each is_space (par_flag p # flags) rest = Inr qs" "ps = p # qs"
    by (auto simp: res_simps)
  from 2(1) [OF p(1) _ p(3)] p(2) have "list_all (loaded_ok is_space) qs \<and> map par_name qs = map fst rest \<and>
      distinct (map par_flag qs) \<and> set (map par_flag qs) \<inter> set (par_flag p # flags) = {}"
    by (simp add: raise_if_def)
  with load_parameter_ok [OF p(1)] p(2,4) show ?case by auto
qed simp

lemma load_parameters_ok:
  assumes "load_parameters is_space document = Inr ps"
  shows "ps \<noteq> [] \<and> length ps \<le> 64 \<and> list_all (loaded_ok is_space) ps \<and> distinct (map par_flag ps)"
proof -
  obtain raw where raw: "raw \<noteq> []" "\<not> length raw > max_counterexample_parameters" "load_each is_space [] raw = Inr ps"
    using assms unfolding load_parameters_def rbind_eq_Inr_iff raise_if_Inr_iff by blast
  from load_each_ok [OF raw(3)] have ok: "list_all (loaded_ok is_space) ps" "map par_name ps = map fst raw" "distinct (map par_flag ps)"
    by auto
  from ok(2) have "length ps = length raw" by (metis length_map)
  with raw(1,2) ok show ?thesis by (auto simp: max_counterexample_parameters_def)
qed

text \<open>A parameter document that loads has between 1 and 64 parameters, each with a name, an option
  flag of its own without whitespace or an equals sign, and an interval of 64-bit integers that is
  not empty.\<close>

theorem load_parameters_valid:
  assumes "load_parameters is_space document = Inr ps"
  shows "ps \<noteq> [] \<and> length ps \<le> 64 \<and> list_all (loaded_ok is_space) ps \<and> distinct (map par_flag ps)"
  by (rule load_parameters_ok [OF assms])

section \<open>Examples\<close>

definition ascii_space :: "nat \<Rightarrow> bool" where
  "ascii_space c \<longleftrightarrow> c = 32 \<or> 9 \<le> c \<and> c \<le> 13 \<or> 28 \<le> c \<and> c \<le> 31"

definition example_parameter :: parameter where
  "example_parameter = \<lparr>par_name = lit ''n'', par_flag = lit ''--n'', par_minimum = - 4, par_maximum = 9\<rparr>"

text \<open>A generator that always draws the lower bound.\<close>

definition lowest :: "nat \<Rightarrow> int \<Rightarrow> int \<Rightarrow> int" where
  "lowest k a b = a"

text \<open>A workload whose contract fails unless the argument is \<open>--n=0\<close>.\<close>

definition example_claim :: "claim_status \<Rightarrow> claim_result" where
  "example_claim s = \<lparr>cl_contract = lit ''c'', cl_name = lit ''a'', cl_type = lit ''exit_code_equivalent'', cl_status = s,
     cl_expected = [], cl_observed = [], cl_evidence = [], cl_assertion = None\<rparr>"

definition example_run :: "pystr list \<Rightarrow> nat \<Rightarrow> pystr list \<Rightarrow> verification_report res" where
  "example_run fine i args = Inr \<lparr>vr_baseline_id = [], vr_candidate_id = [],
     vr_results = [example_claim (if args = fine \<or> fine = [] then Pass else Fail)]\<rparr>"

lemma example_parameters_ok: "parameters_ok [example_parameter]" "randint_in_range lowest"
  by (auto simp: parameters_ok_def parameter_ok_def example_parameter_def randint_in_range_def lowest_def)

theorem candidates_distinct_bounded_in_range_witness:
  "length (candidate_values lowest [example_parameter] 5) \<le> 5 \<and>
   hd (candidate_values lowest [example_parameter] 5) = [(lit ''n'', 0)]"
proof -
  have "simple_values [example_parameter] = [(lit ''n'', 0)]" by code_simp
  with candidates_distinct_bounded_in_range [OF example_parameters_ok, of 5] show ?thesis by simp
qed

theorem search_reports_reproduced_violation_witness:
  "\<exists>ce s. search_loaded lowest (example_run [lit ''--n=0'']) [example_parameter] 6 = Inr (Some ce, s) \<and>
     ce_parameters ce = [(lit ''n'', 1)] \<and> has_violation (ce_report ce) \<and> ss_runs s \<le> 7"
proof -
  have "(case search_loaded lowest (example_run [lit ''--n=0'']) [example_parameter] 6 of
      Inr (Some ce, s) \<Rightarrow> ce_parameters ce = [(lit ''n'', 1)] | _ \<Rightarrow> False)" by code_simp
  then obtain ce s where "search_loaded lowest (example_run [lit ''--n=0'']) [example_parameter] 6 = Inr (Some ce, s)"
      "ce_parameters ce = [(lit ''n'', 1)]" by (auto split: sum.splits option.splits)
  with search_reports_reproduced_violation [OF this(1) example_parameters_ok] show ?thesis by auto
qed

theorem search_without_result_tried_every_candidate_witness:
  "\<exists>s. search_loaded lowest (example_run []) [example_parameter] 6 = Inr (None, s) \<and> \<not> ss_exhausted s"
proof -
  have "(case search_loaded lowest (example_run []) [example_parameter] 6 of
      Inr (None, s) \<Rightarrow> True | _ \<Rightarrow> False)" by code_simp
  then obtain s where s: "search_loaded lowest (example_run []) [example_parameter] 6 = Inr (None, s)"
    by (auto split: sum.splits option.splits)
  from search_without_result_tried_every_candidate [OF s] s show ?thesis by auto
qed

definition exceeds_five :: "valuation \<Rightarrow> bool" where
  "exceeds_five v \<longleftrightarrow> dget_or v (lit ''n'') 0 > 5"

theorem shrinking_ends_in_local_minimum_witness:
  "shrink_parameter (pure_tester exceeds_five) example_parameter [(lit ''n'', 9)] () = Inr ([(lit ''n'', 6)], ()) \<and>
   exceeds_five [(lit ''n'', 6)]"
proof -
  have run: "shrink_parameter (pure_tester exceeds_five) example_parameter [(lit ''n'', 9)] () = Inr ([(lit ''n'', 6)], ())"
    by code_simp
  have "exceeds_five [(lit ''n'', 9)]" by code_simp
  from shrinking_ends_in_local_minimum [OF run this] run show ?thesis by blast
qed

definition example_parameter_document :: obj where
  "example_parameter_document = ODict [(OStr (lit ''parameters''), ODict [(OStr (lit ''n''),
     ODict [(OStr (lit ''type''), OStr (lit ''integer'')), (OStr (lit ''min''), OInt (- 4)), (OStr (lit ''max''), OInt 9)])])]"

theorem load_parameters_valid_witness:
  "load_parameters ascii_space example_parameter_document = Inr [example_parameter] \<and> loaded_ok ascii_space example_parameter"
proof -
  have run: "load_parameters ascii_space example_parameter_document = Inr [example_parameter]" by code_simp
  from load_parameters_valid [OF run] run show ?thesis by simp
qed

end
