(* ===== verification/Validation.thy ===== *)
theory Validation
  imports CounterexampleLaws
begin

text \<open>
  \<open>proofline/validation.py\<close>: a summary of the inputs of a verification without running it.
  The JSON rendering is the standard library's.
\<close>

record validation_report =
  vl_contract_count :: int
  vl_assertion_count :: int
  vl_assertion_types :: "pystr list"
  vl_parameter_count :: "int option"

definition validate_inputs ::
  "(nat \<Rightarrow> bool) \<Rightarrow> (nat \<Rightarrow> bool) \<Rightarrow> pystr \<Rightarrow> obj \<Rightarrow> obj option \<Rightarrow> validation_report res" where
  "validate_inputs printable is_space stem contract_document parameter_document =
     rbind (load_contracts printable stem contract_document) (\<lambda>contracts.
     rbind (case parameter_document of
          None \<Rightarrow> Inr None
        | Some d \<Rightarrow> rbind (load_parameters is_space d) (\<lambda>ps. Inr (Some (int (length ps))))) (\<lambda>parameter_count.
     Inr \<lparr>vl_contract_count = int (length contracts), vl_assertion_count = total_assertions contracts,
       vl_assertion_types = sorted_texts (remdups (map (\<lambda>(con, a). as_type a) (claims_of contracts))),
       vl_parameter_count = parameter_count\<rparr>))"

definition render_validation_text :: "validation_report \<Rightarrow> pystr" where
  "render_validation_text r = join [10]
     [lit ''PROOFLINE INPUTS VALID'', [],
      lit ''contracts:  '' @ int_text (vl_contract_count r),
      lit ''assertions: '' @ int_text (vl_assertion_count r),
      lit ''parameters: '' @ (case vl_parameter_count r of None \<Rightarrow> lit ''not provided'' | Some n \<Rightarrow> int_text n)]"

text \<open>Inputs that validate will verify: the counts are those of the loaded documents, within their
  limits, and every reported assertion type is a supported one, listed once, in order.\<close>

theorem validated_inputs_are_loadable:
  assumes "validate_inputs printable is_space stem cd pd = Inr r"
  shows "1 \<le> vl_contract_count r \<and> 1 \<le> vl_assertion_count r \<and> vl_assertion_count r \<le> 1000 \<and>
    list_all (has_key assertion_fields) (vl_assertion_types r) \<and> sorted (vl_assertion_types r) \<and> distinct (vl_assertion_types r) \<and>
    (vl_parameter_count r = None \<longleftrightarrow> pd = None) \<and>
    list_all (\<lambda>n. 1 \<le> n \<and> n \<le> 64) (case vl_parameter_count r of None \<Rightarrow> [] | Some n \<Rightarrow> [n])"
proof -
  obtain cs pc where cs: "load_contracts printable stem cd = Inr cs"
    and pc: "(case pd of None \<Rightarrow> Inr None | Some d \<Rightarrow> rbind (load_parameters is_space d) (\<lambda>ps. Inr (Some (int (length ps))))) = Inr pc"
    and r: "r = \<lparr>vl_contract_count = int (length cs), vl_assertion_count = total_assertions cs,
       vl_assertion_types = sorted_texts (remdups (map (\<lambda>(con, a). as_type a) (claims_of cs))), vl_parameter_count = pc\<rparr>"
    using assms by (auto simp: validate_inputs_def rbind_eq_Inr_iff)
  have ok: "cs \<noteq> []" "total_assertions cs \<le> 1000" "\<forall>c\<in>set cs. contract_ok c"
    using load_contracts_ok [OF cs] by (auto simp: list_all_iff)
  obtain c rest where c: "cs = c # rest" using ok(1) by (cases cs) auto
  then have "1 \<le> length (con_assertions c)" using ok(3) by (auto simp: contract_ok_def Suc_le_eq)
  moreover have "0 \<le> sum_list (map (\<lambda>c. int (length (con_assertions c))) rest)" by (rule sum_list_nonneg) auto
  ultimately have one: "1 \<le> total_assertions cs" using c by (simp add: total_assertions_def)
  have ty: "has_key assertion_fields (as_type a)" if "(con, a) \<in> set (claims_of cs)" for con a
  proof -
    have "con \<in> set cs" "a \<in> set (con_assertions con)" using that by (auto simp: claims_of_def)
    then have "assertion_ok a" using ok(3) by (auto simp: contract_ok_def)
    then show ?thesis unfolding assertion_ok_def has_key_iff by blast
  qed
  have params: "pc = None \<longleftrightarrow> pd = None" "list_all (\<lambda>n. 1 \<le> n \<and> n \<le> 64) (case pc of None \<Rightarrow> [] | Some n \<Rightarrow> [n])"
    using pc load_parameters_ok by (auto simp: rbind_eq_Inr_iff Suc_le_eq split: option.splits)
  have "distinct (sorted_texts xs) = distinct xs" "set (sorted_texts xs) = set xs" "sorted (sorted_texts xs)" for xs
    using sorted_sort_key [of "\<lambda>s. s" xs] by (auto simp: sorted_texts_def)
  then show ?thesis using ok one params ty c by (auto simp: r list_all_iff)
qed

definition sample_contracts :: obj where
  "sample_contracts = ODict [(OStr (lit ''assertions''), OList [sample_assertion_value])]"

theorem validated_inputs_are_loadable_witness:
  "\<exists>r. validate_inputs sample_printable ascii_space (lit ''contract'') sample_contracts (Some example_parameter_document) = Inr r \<and>
     vl_parameter_count r = Some 1 \<and> 1 \<le> vl_assertion_count r"
proof -
  have "(case validate_inputs sample_printable ascii_space (lit ''contract'') sample_contracts (Some example_parameter_document) of
      Inr r \<Rightarrow> vl_parameter_count r = Some 1 | _ \<Rightarrow> False)" by code_simp
  then obtain r where r: "validate_inputs sample_printable ascii_space (lit ''contract'') sample_contracts (Some example_parameter_document) = Inr r"
      "vl_parameter_count r = Some 1" by (auto split: sum.splits)
  from validated_inputs_are_loadable [OF r(1)] r show ?thesis by blast
qed

end
