(* ===== verification/Lifecycle.thy ===== *)
theory Lifecycle
  imports StorageQueries
begin

text \<open>
  \<open>batchscope/analysis/_lifecycle.py\<close>, first part: merging of intervals and the critical
  path. The search is the source's depth-first walk with an explicit stack; a node is
  entered (state 1), its children are walked, and it is finished (state 2) with the best
  path through an already finished child. A dictionary lookup that fails is a \<open>KeyError\<close>.
\<close>

section \<open>Intervals\<close>

type_synonym interval = "int \<times> int"

definition duration_ns :: "event \<Rightarrow> int" where
  "duration_ns v = (case (ev_started_at_ns v, ev_finished_at_ns v) of
     (Some s, Some f) \<Rightarrow> max 0 (f - s) | _ \<Rightarrow> 0)"

text \<open>One step of the loop; the list is kept with its last element first.\<close>

definition merge_step :: "interval \<Rightarrow> interval list \<Rightarrow> interval list" where
  "merge_step i merged = (case merged of
     [] \<Rightarrow> [i]
   | (ps, pe) # rest \<Rightarrow> if fst i > pe then i # merged else (ps, max pe (snd i)) # rest)"

definition merge_intervals :: "interval list \<Rightarrow> interval list" where
  "merge_intervals intervals = rev (fold merge_step (sort_key (\<lambda>i. i) intervals) [])"

definition event_interval :: "event \<Rightarrow> interval res" where
  "event_interval v = (case (ev_started_at_ns v, ev_finished_at_ns v) of
     (Some s, Some f) \<Rightarrow> Inr (s, f)
   | _ \<Rightarrow> Inl (ValueError (lit ''critical-path event requires a complete interval'')))"

definition has_complete_interval :: "event \<Rightarrow> bool" where
  "has_complete_interval v \<longleftrightarrow> ev_started_at_ns v \<noteq> None \<and> ev_finished_at_ns v \<noteq> None"

section \<open>Paths\<close>

datatype path = Path (path_intervals: "interval list") (path_event: pystr) (path_child: "path option") (path_length: int)

definition active_ns :: "path \<Rightarrow> int" where
  "active_ns p = sum_list (map (\<lambda>(s, e). e - s) (path_intervals p))"

definition path_duration_ns :: "path \<Rightarrow> int" where
  "path_duration_ns p = (if path_intervals p = [] then 0 else snd (last (path_intervals p)) - fst (hd (path_intervals p)))"

fun path_event_ids :: "path \<Rightarrow> pystr list" where
  "path_event_ids (Path intervals i child n) = i # (case child of None \<Rightarrow> [] | Some p \<Rightarrow> path_event_ids p)"

definition path_key :: "path \<Rightarrow> bool \<times> int \<times> int \<times> int" where
  "path_key p = (path_intervals p \<noteq> [], path_duration_ns p, active_ns p, path_length p)"

section \<open>The graph\<close>

type_synonym edge_value = "pystr \<times> pystr \<times> pyfloat"

record graph =
  gr_children :: "(pystr, pystr list) dict"
  gr_confidence :: "(pystr \<times> pystr, pyfloat) dict"
  gr_incoming :: "pystr list"

definition add_edge_value :: "(pystr, event) dict \<Rightarrow> edge_value \<Rightarrow> graph \<Rightarrow> graph" where
  "add_edge_value nodes = (\<lambda>(source, target, confidence) g.
     if has_key nodes source \<and> has_key nodes target then
       g\<lparr>gr_children := (if has_key (gr_confidence g) (source, target) then gr_children g
            else dset source (dget_or (gr_children g) source [] @ [target]) (gr_children g)),
         gr_confidence := dset (source, target) (fmax (dget_or (gr_confidence g) (source, target) (Fin 0)) confidence) (gr_confidence g),
         gr_incoming := target # gr_incoming g\<rparr>
     else g)"

text \<open>\<open>{event.id: event for event in events}\<close>\<close>

definition event_table :: "event list \<Rightarrow> (pystr, event) dict" where
  "event_table events = fold (\<lambda>v. dset (ev_id v) v) events []"

definition build_graph :: "(pystr, event) dict \<Rightarrow> edge_value list \<Rightarrow> graph" where
  "build_graph nodes edge_facts = fold (add_edge_value nodes) edge_facts
     \<lparr>gr_children = map (\<lambda>(i, v). (i, [])) nodes, gr_confidence = [], gr_incoming = []\<rparr>"

section \<open>The walk\<close>

record walk_state =
  ws_state :: "(pystr, int) dict"
  ws_memo :: "(pystr, path) dict"
  ws_cycle :: bool

abbreviation find :: "('k, 'v) dict \<Rightarrow> 'k \<Rightarrow> 'v res" where
  "find d k \<equiv> (case dget d k of None \<Rightarrow> Inl KeyError | Some v \<Rightarrow> Inr v)"

text \<open>The children to walk, in the order of the stack, and whether one of them is being walked.\<close>

definition open_children :: "walk_state \<Rightarrow> pystr list \<Rightarrow> pystr list" where
  "open_children st cs = filter (\<lambda>c. \<not> has_key (ws_memo st) c \<and> dget (ws_state st) c \<noteq> Some 1) cs"

definition cycle_child :: "walk_state \<Rightarrow> pystr list \<Rightarrow> bool" where
  "cycle_child st cs \<longleftrightarrow> list_ex (\<lambda>c. \<not> has_key (ws_memo st) c \<and> dget (ws_state st) c = Some 1) cs"

definition path_candidates :: "event \<Rightarrow> pystr \<Rightarrow> pystr list \<Rightarrow> (pystr, path) dict \<Rightarrow> path list" where
  "path_candidates v i cs memo = List.map_filter (\<lambda>c. case dget memo c of
       None \<Rightarrow> None
     | Some p \<Rightarrow> Some (Path
         (case (ev_started_at_ns v, ev_finished_at_ns v) of
            (Some s, Some f) \<Rightarrow> merge_intervals ((s, f) # path_intervals p)
          | _ \<Rightarrow> path_intervals p) i (Some p) (path_length p + 1))) cs"

definition lone_path :: "event \<Rightarrow> pystr \<Rightarrow> path" where
  "lone_path v i = Path (case (ev_started_at_ns v, ev_finished_at_ns v) of (Some s, Some f) \<Rightarrow> [(s, f)] | _ \<Rightarrow> []) i None 1"

text \<open>\<open>max(candidates, key=_path_key, default=...)\<close>\<close>

definition best_path :: "event \<Rightarrow> pystr \<Rightarrow> pystr list \<Rightarrow> (pystr, path) dict \<Rightarrow> path" where
  "best_path v i cs memo = (case path_candidates v i cs memo of [] \<Rightarrow> lone_path v i | p # ps \<Rightarrow> max_by path_key p ps)"

definition finish_node :: "(pystr, event) dict \<Rightarrow> (pystr, pystr list) dict \<Rightarrow> pystr \<Rightarrow> walk_state \<Rightarrow> walk_state res" where
  "finish_node nodes children i st =
     rbind (find nodes i) (\<lambda>v.
     rbind (find children i) (\<lambda>cs.
     Inr (st\<lparr>ws_state := dset i 2 (ws_state st), ws_memo := dset i (best_path v i cs (ws_memo st)) (ws_memo st)\<rparr>)))"

definition enter_node :: "pystr \<Rightarrow> pystr list \<Rightarrow> walk_state \<Rightarrow> walk_state" where
  "enter_node i cs st = (let st' = st\<lparr>ws_state := dset i 1 (ws_state st)\<rparr>
     in st'\<lparr>ws_cycle := ws_cycle st \<or> cycle_child st' cs\<rparr>)"

definition untouched :: "(pystr, pystr list) dict \<Rightarrow> walk_state \<Rightarrow> pystr set" where
  "untouched children st = {k \<in> fst ` set children. dget (ws_state st) k \<noteq> Some 1 \<and> \<not> has_key (ws_memo st) k}"

lemma untouched_finite [simp]: "finite (untouched children st)"
  by (simp add: untouched_def)

lemma untouched_cycle [simp]: "untouched children (st\<lparr>ws_cycle := b\<rparr>) = untouched children st"
  by (simp add: untouched_def)

lemma untouched_enter:
  assumes "\<not> has_key (ws_memo st) i" "dget (ws_state st) i \<noteq> Some 1" "dget children i = Some cs"
  shows "card (untouched children (enter_node i cs st)) < card (untouched children st)"
proof (rule psubset_card_mono)
  have "i \<in> fst ` set children" using assms(3) by (force dest: map_of_SomeD)
  with assms(1,2) have "i \<in> untouched children st" by (simp add: untouched_def)
  moreover have "i \<notin> untouched children (enter_node i cs st)" by (simp add: untouched_def enter_node_def Let_def)
  moreover have "untouched children (enter_node i cs st) \<subseteq> untouched children st"
    by (auto simp: untouched_def enter_node_def Let_def split: if_splits)
  ultimately show "untouched children (enter_node i cs st) \<subset> untouched children st" by blast
qed simp

lemma untouched_finish:
  assumes "finish_node nodes children i st = Inr st'"
  shows "card (untouched children st') \<le> card (untouched children st)"
proof (rule card_mono)
  show "untouched children st' \<subseteq> untouched children st"
    using assms by (auto simp: finish_node_def untouched_def has_key_iff res_simps split: option.splits if_splits)
qed simp

function walk ::
  "(pystr, event) dict \<Rightarrow> (pystr, pystr list) dict \<Rightarrow> (pystr \<times> bool) list \<Rightarrow> walk_state \<Rightarrow> walk_state res"
where
  "walk nodes children [] st = Inr st"
| "walk nodes children ((i, expanded) # stack) st =
     (if has_key (ws_memo st) i then walk nodes children stack st
      else if expanded then rbind (finish_node nodes children i st) (\<lambda>st'. walk nodes children stack st')
      else if dget (ws_state st) i = Some 1 then walk nodes children stack (st\<lparr>ws_cycle := True\<rparr>)
      else rbind (find children i) (\<lambda>cs.
        let st' = enter_node i cs st in
        walk nodes children (map (\<lambda>c. (c, False)) (open_children st' cs) @ (i, True) # stack) st'))"
  by pat_completeness auto
termination
proof (relation "measures [\<lambda>(nodes, children, stack, st). card (untouched children st),
    \<lambda>(nodes, children, stack, st). length stack]", goal_cases)
  case (3 nodes children i expanded stack st st')
  then show ?case using untouched_finish [of nodes children i st st'] by (auto simp: le_less)
next
  case (5 nodes children i expanded stack st cs st')
  then show ?case using untouched_enter [of st i children cs] by (auto split: option.splits)
qed auto

declare walk.simps [simp del]

definition visit :: "(pystr, event) dict \<Rightarrow> (pystr, pystr list) dict \<Rightarrow> pystr \<Rightarrow> walk_state \<Rightarrow> (path \<times> walk_state) res" where
  "visit nodes children i st =
     rbind (if has_key (ws_memo st) i then Inr st else walk nodes children [(i, False)] st) (\<lambda>st'.
     rbind (find (ws_memo st') i) (\<lambda>p. Inr (p, st')))"

fun visit_all :: "(pystr, event) dict \<Rightarrow> (pystr, pystr list) dict \<Rightarrow> pystr list \<Rightarrow> walk_state \<Rightarrow> (path list \<times> walk_state) res" where
  "visit_all nodes children [] st = Inr ([], st)"
| "visit_all nodes children (i # is) st =
     rbind (visit nodes children i st) (\<lambda>(p, st').
     rbind (visit_all nodes children is st') (\<lambda>(ps, st''). Inr (p # ps, st'')))"

fun visit_rest :: "(pystr, event) dict \<Rightarrow> (pystr, pystr list) dict \<Rightarrow> pystr list \<Rightarrow> walk_state \<Rightarrow> (path list \<times> walk_state) res" where
  "visit_rest nodes children [] st = Inr ([], st)"
| "visit_rest nodes children (i # is) st =
     (if has_key (ws_memo st) i then visit_rest nodes children is st
      else rbind (visit nodes children i st) (\<lambda>(p, st').
           rbind (visit_rest nodes children is st') (\<lambda>(ps, st''). Inr (p # ps, st''))))"

section \<open>The result\<close>

record critical_path =
  cr_duration_seconds :: pyfloat
  cr_active_seconds :: pyfloat
  cr_waiting_seconds :: pyfloat
  cr_parallel_slack_seconds :: pyfloat
  cr_event_ids :: "pystr list"
  cr_event_names :: "pystr list"
  cr_certainty :: pystr
  cr_cycle_detected :: bool

definition nanoseconds_per_second :: int where
  "nanoseconds_per_second = 1000000000"

definition seconds :: "int \<Rightarrow> pyfloat res" where
  "seconds n = int_truediv n nanoseconds_per_second"

text \<open>The path with the best key over all walks, and whether a cycle was met.\<close>

definition search_paths :: "(pystr, event) dict \<Rightarrow> graph \<Rightarrow> (path \<times> bool) res" where
  "search_paths nodes g =
     (let ids = map fst nodes in
      rbind (visit_all nodes (gr_children g) (filter (\<lambda>i. i \<notin> set (gr_incoming g)) ids)
          \<lparr>ws_state = [], ws_memo = [], ws_cycle = False\<rparr>) (\<lambda>(ps, st).
      rbind (visit_rest nodes (gr_children g) ids st) (\<lambda>(qs, st').
      (case ps @ qs of
         [] \<Rightarrow> Inl (ValueError (lit ''max() arg is an empty sequence''))
       | p # rest \<Rightarrow> Inr (max_by path_key p rest, ws_cycle st')))))"

text \<open>\<open>zip(event_ids, event_ids[1:])\<close>\<close>

definition adjacent_pairs :: "'a list \<Rightarrow> ('a \<times> 'a) list" where
  "adjacent_pairs xs = zip xs (tl xs)"

definition shared_clock :: "event list \<Rightarrow> bool" where
  "shared_clock vs \<longleftrightarrow> vs \<noteq> [] \<and> ev_clock_domain (hd vs) \<noteq> None \<and> list_all (\<lambda>v. ev_clock_domain v = ev_clock_domain (hd vs)) vs"

definition slack :: "pyfloat option \<Rightarrow> pyfloat \<Rightarrow> pyfloat" where
  "slack reported duration =
     fmax (Fin 0) (fround 12 (fsub (case reported of None \<Rightarrow> duration | Some t \<Rightarrow> if feq t (Fin 0) then duration else t) duration))"

definition path_observed :: "nat \<Rightarrow> bool \<Rightarrow> bool \<Rightarrow> bool \<Rightarrow> pyfloat list \<Rightarrow> event list \<Rightarrow> bool" where
  "path_observed node_count skewed causality_complete cycle confidences vs \<longleftrightarrow>
     (node_count = 1 \<or> confidences \<noteq> []) \<and> list_all (\<lambda>c. feq c (Fin 1)) confidences \<and>
     list_all has_complete_interval vs \<and> shared_clock vs \<and> causality_complete \<and> \<not> skewed \<and> \<not> cycle"

definition path_record :: "path \<Rightarrow> event list \<Rightarrow> pyfloat option \<Rightarrow> bool \<Rightarrow> bool \<Rightarrow> critical_path res" where
  "path_record best vs reported observed cycle =
     rbind (seconds (path_duration_ns best)) (\<lambda>duration.
     rbind (seconds (active_ns best)) (\<lambda>active.
     rbind (seconds (path_duration_ns best - active_ns best)) (\<lambda>waiting.
     Inr \<lparr>cr_duration_seconds = duration, cr_active_seconds = active, cr_waiting_seconds = waiting,
       cr_parallel_slack_seconds = slack reported duration,
       cr_event_ids = path_event_ids best, cr_event_names = map ev_name vs,
       cr_certainty = (if observed then lit ''observed'' else lit ''inferred''),
       cr_cycle_detected = cycle\<rparr>)))"

definition critical_path_of ::
  "event list \<Rightarrow> edge_value list \<Rightarrow> pyfloat option \<Rightarrow> bool \<Rightarrow> bool \<Rightarrow> critical_path option res" where
  "critical_path_of events edge_facts reported skewed causality_complete =
     (let nodes = event_table events; g = build_graph nodes edge_facts in
      if \<not> list_ex has_complete_interval events then Inr None
      else rbind (search_paths nodes g) (\<lambda>(best, cycle).
        rbind (traverse (find (gr_confidence g)) (adjacent_pairs (path_event_ids best))) (\<lambda>confidences.
        rbind (traverse (find nodes) (path_event_ids best)) (\<lambda>vs.
        rbind (path_record best vs reported (path_observed (length nodes) skewed causality_complete cycle confidences vs) cycle) (\<lambda>cp.
        Inr (Some cp))))))"

end
