(* ===== verification/LifecycleLaws.thy ===== *)
theory LifecycleLaws
  imports Lifecycle
begin

text \<open>
  Properties of the interval merge and of the critical path: merged intervals represent the
  given ones, and the walk keeps an invariant from which follow that no dictionary lookup
  fails, that the reported path is a simple path of the graph that no remembered path beats,
  and that the cycle flag is exact.
\<close>

section \<open>Merged intervals\<close>

definition ordered :: "interval \<Rightarrow> bool" where
  "ordered i \<longleftrightarrow> fst i \<le> snd i"

definition points :: "interval list \<Rightarrow> int set" where
  "points is = (\<Union>i\<in>set is. {fst i..<snd i})"

definition separated :: "interval list \<Rightarrow> bool" where
  "separated is \<longleftrightarrow> sorted_wrt (\<lambda>i j. snd i < fst j) is \<and> list_all ordered is"

definition covers :: "interval list \<Rightarrow> interval \<Rightarrow> bool" where
  "covers ms i \<longleftrightarrow> (\<exists>m\<in>set ms. fst m \<le> fst i \<and> snd i \<le> snd m)"

definition represents :: "interval list \<Rightarrow> interval list \<Rightarrow> bool" where
  "represents ms is \<longleftrightarrow> separated ms \<and> points ms = points is \<and>
     fst ` set ms \<subseteq> fst ` set is \<and> snd ` set ms \<subseteq> snd ` set is \<and>
     (\<forall>i\<in>set is. covers ms i)"

lemma covers_trans: "covers ms i \<Longrightarrow> \<forall>m\<in>set ms. covers ms' m \<Longrightarrow> covers ms' i"
  unfolding covers_def by (meson order_trans)

lemma covers_simps [simp]: "\<not> covers [] i" "covers (m # ms) i \<longleftrightarrow> (fst m \<le> fst i \<and> snd i \<le> snd m) \<or> covers ms i"
  by (auto simp: covers_def)

lemma points_simps [simp]: "points [] = {}" "points (i # is) = {fst i..<snd i} \<union> points is"
  by (auto simp: points_def)

lemma finite_points [simp]: "finite (points is)"
  by (simp add: points_def)

lemma separated_Cons: "separated (i # is) \<longleftrightarrow> ordered i \<and> list_all (\<lambda>j. snd i < fst j) is \<and> separated is"
  by (auto simp: separated_def list_all_iff)

lemma card_points: "separated is \<Longrightarrow> int (card (points is)) = sum_list (map (\<lambda>(s, e). e - s) is)"
proof (induction "is")
  case (Cons i rest)
  have "{fst i..<snd i} \<inter> points rest = {}"
    using Cons.prems by (fastforce simp: separated_Cons points_def list_all_iff)
  then have "card (points (i # rest)) = card {fst i..<snd i} + card (points rest)"
    by (simp add: card_Un_disjoint)
  with Cons show ?case by (auto simp: separated_Cons ordered_def split: prod.splits)
qed simp

text \<open>The loop invariant; the merged list has its last element first.\<close>

definition merging :: "interval list \<Rightarrow> interval list \<Rightarrow> bool" where
  "merging acc is \<longleftrightarrow> sorted_wrt (\<lambda>i j. snd j < fst i) acc \<and> list_all ordered acc \<and> points acc = points is \<and>
     fst ` set acc \<subseteq> fst ` set is \<and> snd ` set acc \<subseteq> snd ` set is \<and>
     (\<forall>i\<in>set is. covers acc i)"

lemma merging_step:
  assumes "merging acc is" "ordered i" "list_all (\<lambda>j. fst j \<le> fst i) is"
  shows "merging (merge_step i acc) (i # is)"
proof (cases acc)
  case Nil
  with assms(1,2) show ?thesis by (auto simp: merging_def merge_step_def points_def)
next
  case (Cons p rest)
  obtain ps pe where p: "p = (ps, pe)" by force
  have le: "ps \<le> fst i" "ps \<le> pe" "\<forall>j\<in>set rest. snd j < ps"
    using assms Cons p by (auto simp: merging_def ordered_def list_all_iff image_subset_iff)
  have "{ps..<max pe (snd i)} = {ps..<pe} \<union> {fst i..<snd i}" if "\<not> pe < fst i"
    using le that assms(2) by (auto simp: ordered_def max_def)
  moreover have "sorted_wrt (\<lambda>i j. snd j < fst i) (merge_step i acc)" "list_all ordered (merge_step i acc)"
    using assms le Cons p by (auto simp: merging_def merge_step_def ordered_def max_def)
  moreover have "fst ` set (merge_step i acc) \<subseteq> fst ` set (i # is)" "snd ` set (merge_step i acc) \<subseteq> snd ` set (i # is)"
    using assms(1) Cons p by (auto simp: merging_def merge_step_def max_def image_subset_iff)
  moreover have "\<forall>j\<in>set (i # is). covers (merge_step i acc) j"
    using assms(1) Cons p le by (auto simp: merging_def merge_step_def max_def)
  ultimately show ?thesis
    using assms(1) Cons p by (auto simp: merging_def merge_step_def)
qed

lemma merging_fold:
  "merging acc is \<Longrightarrow> list_all ordered xs \<Longrightarrow> sorted_wrt (\<lambda>i j. fst i \<le> fst j) xs \<Longrightarrow>
   \<forall>j\<in>set is. \<forall>i\<in>set xs. fst j \<le> fst i \<Longrightarrow> merging (fold merge_step xs acc) (rev xs @ is)"
proof (induction xs arbitrary: acc "is")
  case (Cons x xs)
  then have "merging (merge_step x acc) (x # is)" by (intro merging_step) (auto simp: list_all_iff)
  then show ?case using Cons.IH [of "merge_step x acc" "x # is"] Cons.prems by auto
qed simp

lemma merge_represents:
  assumes "list_all ordered is"
  shows "represents (merge_intervals is) is"
proof -
  let ?xs = "sort_key (\<lambda>i. i) is"
  have "sorted ?xs" using sorted_sort_key [of "\<lambda>i. i" "is"] by simp
  then have "sorted_wrt (\<lambda>i j. fst i \<le> fst j) ?xs"
    by (rule sorted_wrt_mono_rel [rotated]) (auto simp: less_eq_prod_def)
  then have "merging (fold merge_step ?xs []) (rev ?xs @ [])"
    using assms by (intro merging_fold) (auto simp: merging_def list_all_iff)
  moreover have "points (rev ?xs @ []) = points is" by (simp add: points_def)
  ultimately show ?thesis
    by (auto simp: represents_def merge_intervals_def merging_def separated_def sorted_wrt_rev points_def list_all_iff covers_def)
qed

lemma represents_trans:
  assumes "represents ms is" "fst ` set is \<subseteq> fst ` set js" "snd ` set is \<subseteq> snd ` set js"
    and "points is = points js" "\<forall>j\<in>set js. covers ms j"
  shows "represents ms js"
  using assms unfolding represents_def by (elim conjE) (intro conjI; (assumption | erule (1) subset_trans | simp))

lemma represents_merge:
  assumes "represents ms is" "ordered x"
  shows "represents (merge_intervals (x # ms)) (x # is)"
proof -
  have new: "represents (merge_intervals (x # ms)) (x # ms)"
    by (rule merge_represents) (use assms in \<open>auto simp: represents_def separated_def\<close>)
  then have all: "\<forall>m\<in>set (x # ms). covers (merge_intervals (x # ms)) m" by (simp add: represents_def)
  then have "covers (merge_intervals (x # ms)) i" if "i \<in> set is" for i
    using covers_trans [of ms i] assms(1) that by (auto simp: represents_def)
  with all show ?thesis
    using assms(1) by (intro represents_trans [OF new]) (auto simp: represents_def)
qed

lemma represents_Nil [simp]: "represents [] is \<longleftrightarrow> is = []" "represents ms [] \<longleftrightarrow> ms = []"
proof -
  show "represents [] is \<longleftrightarrow> is = []" by (cases "is") (auto simp: represents_def separated_def)
  show "represents ms [] \<longleftrightarrow> ms = []" by (cases ms) (auto simp: represents_def separated_def)
qed

lemma separated_hull:
  assumes "separated ms" "m \<in> set ms"
  shows "fst (hd ms) \<le> fst m \<and> snd m \<le> snd (last ms)"
  using assms
proof (induction ms)
  case (Cons x xs)
  show ?case
  proof (cases "xs = []")
    case False
    then have ends: "hd xs \<in> set xs" "last xs \<in> set xs" by auto
    with Cons.prems have "snd x < fst (hd xs)" "ordered x" "ordered (last xs)" "snd x < fst (last xs)" "separated xs"
      by (auto simp: separated_Cons list_all_iff separated_def)
    with Cons False show ?thesis by (auto simp: ordered_def)
  qed (use Cons.prems in simp)
qed simp

lemma represents_hull:
  assumes "represents ms is" "is \<noteq> []"
  shows "fst (hd ms) = Min (fst ` set is)" "snd (last ms) = Max (snd ` set is)"
proof -
  have "ms \<noteq> []" using assms by auto
  then have ends: "hd ms \<in> set ms" "last ms \<in> set ms" by auto
  have below: "fst (hd ms) \<le> fst i \<and> snd i \<le> snd (last ms)" if "i \<in> set is" for i
    using assms(1) that separated_hull [of ms] unfolding represents_def covers_def by (meson order_trans)
  show "fst (hd ms) = Min (fst ` set is)"
    using ends(1) assms(1) below by (intro Min_eqI [symmetric]) (auto simp: represents_def)
  show "snd (last ms) = Max (snd ` set is)"
    using ends(2) assms(1) below by (intro Max_eqI [symmetric]) (auto simp: represents_def)
qed

section \<open>Remembered paths\<close>

definition event_span :: "event \<Rightarrow> interval list" where
  "event_span v = (case (ev_started_at_ns v, ev_finished_at_ns v) of (Some s, Some f) \<Rightarrow> [(s, f)] | _ \<Rightarrow> [])"

definition extended :: "event \<Rightarrow> pystr \<Rightarrow> path \<Rightarrow> path" where
  "extended v i p = Path (case event_span v of [] \<Rightarrow> path_intervals p | x # _ \<Rightarrow> merge_intervals (x # path_intervals p))
     i (Some p) (path_length p + 1)"

lemma path_candidates_eq: "path_candidates v i cs memo = map (extended v i) (List.map_filter (dget memo) cs)"
  by (induction cs) (auto simp: path_candidates_def extended_def event_span_def split: option.splits)

lemma lone_path_eq: "lone_path v i = Path (event_span v) i None 1"
  by (auto simp: lone_path_def event_span_def split: option.splits)

definition graph_edges :: "(pystr, pystr list) dict \<Rightarrow> (pystr \<times> pystr) set" where
  "graph_edges children = {(i, c). \<exists>cs. dget children i = Some cs \<and> c \<in> set cs}"

definition graph_ok :: "(pystr, event) dict \<Rightarrow> (pystr, pystr list) dict \<Rightarrow> bool" where
  "graph_ok nodes children \<longleftrightarrow> (\<forall>k. has_key children k \<longleftrightarrow> has_key nodes k) \<and>
     (\<forall>i c. (i, c) \<in> graph_edges children \<longrightarrow> has_key nodes c) \<and>
     (\<forall>k v. dget nodes k = Some v \<longrightarrow> list_all ordered (event_span v))"

text \<open>A path is the event's own interval, or the extension of the remembered path of a child.\<close>

definition path_ok :: "(pystr, event) dict \<Rightarrow> (pystr, pystr list) dict \<Rightarrow> (pystr, path) dict \<Rightarrow> pystr \<Rightarrow> path \<Rightarrow> bool" where
  "path_ok nodes children memo k p \<longleftrightarrow> (\<exists>v. dget nodes k = Some v \<and>
     (p = lone_path v k \<or> (\<exists>c q. (k, c) \<in> graph_edges children \<and> dget memo c = Some q \<and> p = extended v k q)))"

definition remembered :: "(pystr, event) dict \<Rightarrow> (pystr, pystr list) dict \<Rightarrow> (pystr, path) dict \<Rightarrow> bool" where
  "remembered nodes children memo \<longleftrightarrow> (\<forall>k p. dget memo k = Some p \<longrightarrow> path_ok nodes children memo k p)"

definition node_span :: "(pystr, event) dict \<Rightarrow> pystr \<Rightarrow> interval list" where
  "node_span nodes i = (case dget nodes i of None \<Rightarrow> [] | Some v \<Rightarrow> event_span v)"

definition path_sound :: "(pystr, event) dict \<Rightarrow> (pystr, pystr list) dict \<Rightarrow> (pystr, path) dict \<Rightarrow> pystr \<Rightarrow> path \<Rightarrow> bool" where
  "path_sound nodes children memo k p \<longleftrightarrow>
     represents (path_intervals p) (concat (map (node_span nodes) (path_event_ids p))) \<and>
     (\<forall>i\<in>set (path_event_ids p). \<exists>q. dget memo i = Some q \<and> path_length q \<le> path_length p) \<and>
     distinct (path_event_ids p) \<and> set (adjacent_pairs (path_event_ids p)) \<subseteq> graph_edges children \<and>
     path_event_ids p \<noteq> [] \<and> hd (path_event_ids p) = k"

lemma represents_self: "list_all ordered (event_span v) \<Longrightarrow> represents (event_span v) (event_span v)"
  by (auto simp: represents_def separated_def event_span_def split: option.splits)

lemma extended_represents:
  assumes "represents (path_intervals p) is" "list_all ordered (event_span v)"
  shows "represents (path_intervals (extended v i p)) (event_span v @ is)"
  using assms represents_merge [OF assms(1)] by (auto simp: extended_def event_span_def split: option.splits)

lemma extended_ids [simp]: "path_event_ids (extended v i p) = i # path_event_ids p"
  "path_length (extended v i p) = path_length p + 1" "path_event (extended v i p) = i"
  by (simp_all add: extended_def)

lemma lone_ids [simp]: "path_event_ids (lone_path v i) = [i]" "path_length (lone_path v i) = 1" "path_event (lone_path v i) = i"
  "path_intervals (lone_path v i) = event_span v"
  by (simp_all add: lone_path_eq)

lemma remembered_sound:
  assumes "remembered nodes children memo" "graph_ok nodes children"
  shows "dget memo k = Some p \<Longrightarrow> path_sound nodes children memo k p"
proof (induction p arbitrary: k rule: measure_induct_rule [of size])
  case (less p)
  have "path_ok nodes children memo k p" using assms(1) less.prems by (simp add: remembered_def)
  then obtain v where v: "dget nodes k = Some v"
    and cases: "p = lone_path v k \<or> (\<exists>c q. (k, c) \<in> graph_edges children \<and> dget memo c = Some q \<and> p = extended v k q)"
    unfolding path_ok_def by blast
  have span: "list_all ordered (event_span v)" "node_span nodes k = event_span v"
    using assms(2) v by (auto simp: graph_ok_def node_span_def)
  from cases show ?case
  proof
    assume "p = lone_path v k"
    then show ?thesis using span less.prems by (auto simp: path_sound_def represents_self adjacent_pairs_def)
  next
    assume "\<exists>c q. (k, c) \<in> graph_edges children \<and> dget memo c = Some q \<and> p = extended v k q"
    then obtain c q where q: "(k, c) \<in> graph_edges children" "dget memo c = Some q" "p = extended v k q" by blast
    then have IH: "path_sound nodes children memo c q" using less.IH [of q c] by (simp add: extended_def)
    then have "k \<notin> set (path_event_ids q)" using less.prems q(3) by (fastforce simp: path_sound_def)
    moreover have "\<exists>q'. dget memo i = Some q' \<and> path_length q' \<le> path_length q + 1" if "i \<in> set (path_event_ids q)" for i
      using IH that by (fastforce simp: path_sound_def)
    moreover have "set (adjacent_pairs (k # path_event_ids q)) \<subseteq> graph_edges children"
      using IH q(1) by (cases "path_event_ids q") (auto simp: path_sound_def adjacent_pairs_def)
    ultimately show ?thesis
      using IH q less.prems span extended_represents [of q _ v k] by (auto simp: path_sound_def)
  qed
qed

lemma card_mono_points: "points is \<subseteq> points js \<Longrightarrow> card (points is) \<le> card (points js)"
  by (simp add: card_mono)

lemma active_points: "represents (path_intervals p) is \<Longrightarrow> active_ns p = int (card (points is))"
  by (simp add: active_ns_def represents_def flip: card_points)

lemma duration_hull:
  assumes "represents (path_intervals p) is" "is \<noteq> []"
  shows "path_duration_ns p = Max (snd ` set is) - Min (fst ` set is)"
  using assms represents_hull [OF assms] by (auto simp: path_duration_ns_def)

lemma extended_key:
  assumes "represents (path_intervals p) is" "list_all ordered (event_span v)"
  shows "path_key p < path_key (extended v i p)"
proof (cases "is = []")
  case True
  then show ?thesis using assms extended_represents [OF assms, of i]
    by (cases "event_span v") (auto simp: path_key_def extended_def path_duration_ns_def active_ns_def merge_intervals_def merge_step_def less_prod_def)
next
  case False
  let ?js = "event_span v @ is"
  have ext: "represents (path_intervals (extended v i p)) ?js" by (rule extended_represents [OF assms])
  have "path_duration_ns p \<le> path_duration_ns (extended v i p)"
    using False by (simp add: duration_hull [OF ext] duration_hull [OF assms(1)] Max_mono Min_antimono diff_mono image_mono)
  moreover have "active_ns p \<le> active_ns (extended v i p)"
    using active_points [OF ext] active_points [OF assms(1)] by (auto simp: points_def intro!: card_mono)
  moreover have "path_intervals p \<noteq> []" "path_intervals (extended v i p) \<noteq> []" using assms(1) ext False by auto
  ultimately show ?thesis by (auto simp: path_key_def less_prod_def less_eq_prod_def)
qed

section \<open>The invariant of the walk\<close>

abbreviation greys :: "(pystr \<times> bool) list \<Rightarrow> pystr list" where
  "greys stack \<equiv> map fst (filter snd stack)"

text \<open>Every entry of the stack is a start or a child of the nearest expanded entry below it.\<close>

fun chained :: "pystr set \<Rightarrow> (pystr \<times> pystr) set \<Rightarrow> (pystr \<times> bool) list \<Rightarrow> bool" where
  "chained S E [] \<longleftrightarrow> True"
| "chained S E ((i, b) # rest) \<longleftrightarrow> (case greys rest of [] \<Rightarrow> i \<in> S | g # _ \<Rightarrow> (g, i) \<in> E) \<and> chained S E rest"

text \<open>The children of an expanded entry are finished or above it on the stack.\<close>

fun covered :: "(pystr \<times> pystr) set \<Rightarrow> pystr set \<Rightarrow> (pystr \<times> bool) list \<Rightarrow> bool" where
  "covered E U [] \<longleftrightarrow> True"
| "covered E U ((g, b) # rest) \<longleftrightarrow> (b \<longrightarrow> E `` {g} \<subseteq> U) \<and> covered E (insert g U) rest"

text \<open>Finished nodes, the latest first: every child is older.\<close>

fun topological :: "(pystr \<times> pystr) set \<Rightarrow> pystr list \<Rightarrow> bool" where
  "topological E [] \<longleftrightarrow> True"
| "topological E (k # older) \<longleftrightarrow> E `` {k} \<subseteq> set older \<and> topological E older"

definition outranked :: "pystr set \<Rightarrow> (pystr \<times> pystr) set \<Rightarrow> (pystr, path) dict \<Rightarrow> (pystr \<times> bool) list \<Rightarrow> bool" where
  "outranked S E memo stack \<longleftrightarrow> (\<forall>m p. dget memo m = Some p \<longrightarrow> m \<in> S \<or>
     (\<exists>j. (j, m) \<in> E \<and> ((j, True) \<in> set stack \<or> (\<exists>q. dget memo j = Some q \<and> path_key p < path_key q))))"

definition memo_keys :: "walk_state \<Rightarrow> pystr list" where
  "memo_keys st = map fst (ws_memo st)"

definition walk_inv ::
  "(pystr, event) dict \<Rightarrow> (pystr, pystr list) dict \<Rightarrow> pystr set \<Rightarrow> (pystr \<times> bool) list \<Rightarrow> walk_state \<Rightarrow> bool" where
  "walk_inv nodes children S stack st \<longleftrightarrow> (let E = graph_edges children in
     distinct (greys stack) \<and> set (greys stack) = {k. dget (ws_state st) k = Some 1 \<and> \<not> has_key (ws_memo st) k} \<and>
     list_all (\<lambda>e. has_key nodes (fst e)) stack \<and> distinct (memo_keys st) \<and>
     remembered nodes children (ws_memo st) \<and> chained S E stack \<and> outranked S E (ws_memo st) stack \<and>
     (\<not> ws_cycle st \<longrightarrow> covered E (set (memo_keys st)) stack \<and> topological E (rev (memo_keys st))) \<and>
     (ws_cycle st \<longrightarrow> (\<exists>k. (k, k) \<in> E\<^sup>+)))"

lemma greys_chained:
  "chained S E stack \<Longrightarrow> greys stack = g # gs \<Longrightarrow> k \<in> set (greys stack) \<Longrightarrow> (k, g) \<in> E\<^sup>*"
proof (induction stack arbitrary: g gs)
  case (Cons e rest)
  obtain i b where e: "e = (i, b)" by force
  show ?case
  proof (cases b)
    case True
    show ?thesis
    proof (cases "greys rest")
      case (Cons h hs)
      then have "(h, i) \<in> E" "k = i \<or> (k, h) \<in> E\<^sup>*" using Cons.prems Cons.IH [of h hs] e True by auto
      with Cons.prems(2) e True show ?thesis by auto
    qed (use Cons.prems e True in auto)
  qed (use Cons e in auto)
qed simp

lemma chained_reach:
  assumes "chained S E ((i, b) # rest)" "k \<in> set (greys rest)"
  shows "(k, i) \<in> E\<^sup>+"
proof (cases "greys rest")
  case (Cons g gs)
  with assms have "(g, i) \<in> E" "(k, g) \<in> E\<^sup>*" using greys_chained [of S E rest g gs k] by auto
  then show ?thesis by auto
qed (use assms in auto)

lemma chained_push:
  "chained S E ((i, True) # stack) \<Longrightarrow> \<forall>c\<in>set cs. (i, c) \<in> E \<Longrightarrow> chained S E (map (\<lambda>c. (c, False)) cs @ (i, True) # stack)"
  by (induction cs) auto

lemma greys_push [simp]: "greys (map (\<lambda>c. (c, False)) cs @ stack) = greys stack"
  by (induction cs) auto

lemma covered_mono: "covered E U stack \<Longrightarrow> U \<subseteq> V \<Longrightarrow> covered E V stack"
proof (induction stack arbitrary: U V)
  case (Cons e rest)
  then show ?case using Cons.IH [of "insert (fst e) U" "insert (fst e) V"] by (cases e) auto
qed simp

lemma covered_push: "covered E U (map (\<lambda>c. (c, False)) cs @ stack) \<longleftrightarrow> covered E (U \<union> set cs) stack"
  by (induction cs arbitrary: U) auto

lemma topological_acyclic:
  "topological E ks \<Longrightarrow> distinct ks \<Longrightarrow> k \<in> set ks \<Longrightarrow> (k, k) \<notin> E\<^sup>+"
proof (induction ks)
  case (Cons x older)
  have closed: "(a, b) \<in> E \<Longrightarrow> a \<in> set xs \<Longrightarrow> b \<in> set xs" if "topological E xs" for a b xs
    using that by (induction xs) auto
  have stays: "b \<in> set older" if "(a, b) \<in> E\<^sup>*" "a \<in> set older" for a b
    using that Cons.prems(1) by (induction rule: rtrancl_induct) (auto dest: closed)
  show ?case
  proof (cases "k = x")
    case True
    have "(k, k) \<in> E\<^sup>+ \<Longrightarrow> \<exists>y. (k, y) \<in> E \<and> (y, k) \<in> E\<^sup>*" by (meson tranclD)
    with True Cons.prems stays show ?thesis by fastforce
  qed (use Cons in auto)
qed simp

lemma has_key_memo: "has_key (ws_memo st) k \<longleftrightarrow> k \<in> set (memo_keys st)"
  by (simp add: has_key_def memo_keys_def)

lemma memo_keys_simps [simp]: "memo_keys (st\<lparr>ws_cycle := b\<rparr>) = memo_keys st" "memo_keys (st\<lparr>ws_state := d\<rparr>) = memo_keys st"
  by (simp_all add: memo_keys_def)

lemma outranked_white [simp]: "outranked S E memo ((i, False) # stack) \<longleftrightarrow> outranked S E memo stack"
  by (simp add: outranked_def)

lemma grey_entry: "g \<in> set (greys stack) \<longleftrightarrow> (g, True) \<in> set stack"
  by force

lemma outranked_stack: "outranked S E memo stack \<Longrightarrow> set (greys stack) \<subseteq> set (greys stack') \<Longrightarrow> outranked S E memo stack'"
  unfolding outranked_def by (fastforce simp: image_subset_iff)

lemma walk_inv_skip:
  assumes "walk_inv nodes children S ((i, expanded) # stack) st" "has_key (ws_memo st) i"
  shows "walk_inv nodes children S stack st"
proof -
  have "\<not> expanded" using assms by (auto simp: walk_inv_def Let_def)
  moreover have "insert i (set (memo_keys st)) = set (memo_keys st)" using assms(2) by (auto simp: has_key_memo)
  ultimately show ?thesis using assms(1) by (auto simp: walk_inv_def Let_def outranked_def)
qed

lemma walk_inv_again:
  assumes "walk_inv nodes children S ((i, False) # stack) st" "\<not> has_key (ws_memo st) i" "dget (ws_state st) i = Some 1"
  shows "walk_inv nodes children S stack (st\<lparr>ws_cycle := True\<rparr>)" "i \<in> set (greys stack)"
proof -
  show grey: "i \<in> set (greys stack)" using assms by (auto simp: walk_inv_def Let_def)
  then have "(i, i) \<in> (graph_edges children)\<^sup>+"
    using assms(1) by (intro chained_reach [of S _ i False stack]) (simp_all add: walk_inv_def Let_def)
  then show "walk_inv nodes children S stack (st\<lparr>ws_cycle := True\<rparr>)"
    using assms(1) by (simp add: walk_inv_def Let_def) blast
qed

lemma best_path_cases:
  obtains "best_path v i cs memo = lone_path v i" "\<forall>c\<in>set cs. dget memo c = None"
  | c q where "c \<in> set cs" "dget memo c = Some q" "best_path v i cs memo = extended v i q"
      "\<And>c' q'. c' \<in> set cs \<Longrightarrow> dget memo c' = Some q' \<Longrightarrow> path_key (extended v i q') \<le> path_key (extended v i q)"
proof (cases "path_candidates v i cs memo")
  case Nil
  then have "\<forall>c\<in>set cs. dget memo c = None"
    by (auto simp: path_candidates_eq List.map_filter_def filter_empty_conv)
  with Nil that(1) show ?thesis by (simp add: best_path_def)
next
  case (Cons p ps)
  have mem: "x \<in> set (p # ps) \<longleftrightarrow> (\<exists>c\<in>set cs. \<exists>q. dget memo c = Some q \<and> x = extended v i q)" for x
    unfolding Cons [symmetric] path_candidates_eq by (force simp: List.map_filter_def)
  have best: "best_path v i cs memo = max_by path_key p ps" using Cons by (simp add: best_path_def)
  have "max_by path_key p ps \<in> set (p # ps)" using max_by_in [of path_key p ps] by simp
  then obtain c q where q: "c \<in> set cs" "dget memo c = Some q" "max_by path_key p ps = extended v i q"
    using mem by blast
  have "path_key (extended v i q') \<le> path_key (extended v i q)" if "c' \<in> set cs" "dget memo c' = Some q'" for c' q'
    using max_by_ge [of "extended v i q'" p ps path_key] mem that q(3) by auto
  with q best show ?thesis by (intro that(2)) auto
qed

lemma remembered_new:
  assumes "remembered nodes children memo" "dget memo i = None" "path_ok nodes children memo i p"
  shows "remembered nodes children (dset i p memo)"
proof -
  have keep: "path_ok nodes children (dset i p memo) k q" if "path_ok nodes children memo k q" for k q
  proof -
    have "dget memo c = Some q' \<Longrightarrow> dget (dset i p memo) c = Some q'" for c q' using assms(2) by auto
    then show ?thesis using that unfolding path_ok_def by metis
  qed
  then show ?thesis using assms by (auto simp: remembered_def)
qed

lemma best_path_ok:
  assumes "dget nodes i = Some v" "dget children i = Some cs"
  shows "path_ok nodes children memo i (best_path v i cs memo)"
  by (rule best_path_cases [of v i cs memo]) (use assms in \<open>auto simp: path_ok_def graph_edges_def\<close>)

lemma best_path_outranks:
  assumes "remembered nodes children memo" "graph_ok nodes children" "dget nodes i = Some v"
    and "c \<in> set cs" "dget memo c = Some q"
  shows "path_key q < path_key (best_path v i cs memo)"
proof (rule best_path_cases [of v i cs memo])
  fix c' q'
  assume *: "best_path v i cs memo = extended v i q'"
    "\<And>c' q''. c' \<in> set cs \<Longrightarrow> dget memo c' = Some q'' \<Longrightarrow> path_key (extended v i q'') \<le> path_key (extended v i q')"
  have "path_key q < path_key (extended v i q)"
    using remembered_sound [OF assms(1,2,5)] assms(2,3) by (intro extended_key) (auto simp: path_sound_def graph_ok_def)
  with * assms(4,5) show ?thesis by (auto intro: less_le_trans)
qed (use assms in auto)

lemma walk_inv_finish:
  assumes inv: "walk_inv nodes children S ((i, True) # stack) st" and ok: "graph_ok nodes children"
    and v: "dget nodes i = Some v" and cs: "dget children i = Some cs"
    and st': "st' = st\<lparr>ws_state := dset i 2 (ws_state st), ws_memo := dset i (best_path v i cs (ws_memo st)) (ws_memo st)\<rparr>"
  shows "walk_inv nodes children S stack st'"
proof -
  let ?E = "graph_edges children" and ?memo = "ws_memo st" and ?p = "best_path v i cs (ws_memo st)"
  note facts = inv [unfolded walk_inv_def Let_def]
  have edges: "(i, c) \<in> ?E \<longleftrightarrow> c \<in> set cs" for c using cs by (auto simp: graph_edges_def)
  have new: "i \<notin> set (memo_keys st)" using facts by (auto simp: has_key_memo)
  then have none: "dget ?memo i = None" by (simp add: memo_keys_def map_of_eq_None_iff)
  have keys: "memo_keys st' = memo_keys st @ [i]"
    using new by (simp add: st' memo_keys_def keys_dset)
  have "remembered nodes children (ws_memo st')"
    using facts none best_path_ok [OF v cs] by (simp add: st' remembered_new)
  moreover have "outranked S ?E (ws_memo st') stack"
    unfolding outranked_def
  proof (intro allI impI)
    fix m p assume m: "dget (ws_memo st') m = Some p"
    show "m \<in> S \<or> (\<exists>j. (j, m) \<in> ?E \<and> ((j, True) \<in> set stack \<or> (\<exists>q. dget (ws_memo st') j = Some q \<and> path_key p < path_key q)))"
    proof (cases "m = i")
      case True
      show ?thesis
      proof (cases "greys stack")
        case (Cons g gs)
        then have "(g, True) \<in> set stack" using grey_entry [of g stack] by simp
        with Cons facts True show ?thesis by auto
      qed (use facts True in auto)
    next
      case False
      then have old: "dget ?memo m = Some p" using m by (simp add: st')
      then consider "m \<in> S" | "(i, m) \<in> ?E" | j where "(j, m) \<in> ?E" "(j, True) \<in> set stack"
        | j q where "(j, m) \<in> ?E" "dget ?memo j = Some q" "path_key p < path_key q"
        using conjunct1 [OF conjunct2 [OF conjunct2 [OF conjunct2 [OF conjunct2 [OF conjunct2 [OF conjunct2 [OF facts]]]]]]]
        unfolding outranked_def by force
      then show ?thesis
      proof cases
        case 2
        then have "path_key p < path_key ?p"
          using best_path_outranks [OF _ ok v _ old] facts edges by blast
        with 2 show ?thesis by (auto simp: st')
      next
        case 4
        then have "dget (ws_memo st') j = Some q" using none by (auto simp: st')
        with 4 show ?thesis by blast
      qed auto
    qed
  qed
  moreover have "set (greys stack) = {k. dget (ws_state st') k = Some 1 \<and> \<not> has_key (ws_memo st') k}"
  proof -
    have "has_key (ws_memo st') k \<longleftrightarrow> k = i \<or> has_key ?memo k" for k
      using keys by (auto simp: has_key_memo)
    moreover have "set (greys stack) = {k. dget (ws_state st) k = Some 1 \<and> \<not> has_key ?memo k} - {i}"
      using facts by (auto simp: insert_eq_iff)
    ultimately show ?thesis by (auto simp: st')
  qed
  moreover have "ws_cycle st' = ws_cycle st" by (simp add: st')
  moreover have "covered ?E (set (memo_keys st')) stack \<and> topological ?E (rev (memo_keys st'))" if "\<not> ws_cycle st"
    using facts that by (simp add: keys)
  ultimately show ?thesis using facts keys new by (simp add: walk_inv_def Let_def)
qed

lemma walk_inv_enter:
  assumes inv: "walk_inv nodes children S ((i, False) # stack) st" and ok: "graph_ok nodes children"
    and fresh: "\<not> has_key (ws_memo st) i" "dget (ws_state st) i \<noteq> Some 1" and cs: "dget children i = Some cs"
    and st': "st' = enter_node i cs st"
  shows "walk_inv nodes children S (map (\<lambda>c. (c, False)) (open_children st' cs) @ (i, True) # stack) st'"
proof -
  let ?E = "graph_edges children" and ?open = "open_children st' cs"
  let ?stack = "map (\<lambda>c. (c, False)) (open_children st' cs) @ (i, True) # stack"
  note facts = inv [unfolded walk_inv_def Let_def]
  have edges: "(i, c) \<in> ?E \<longleftrightarrow> c \<in> set cs" for c using cs by (auto simp: graph_edges_def)
  have memo: "ws_memo st' = ws_memo st" "memo_keys st' = memo_keys st" by (simp_all add: st' enter_node_def Let_def memo_keys_def)
  have state: "dget (ws_state st') k = (if k = i then Some 1 else dget (ws_state st) k)" for k
    by (simp add: st' enter_node_def Let_def)
  have out: "i \<notin> set (greys stack)" using facts fresh by auto
  have grey: "set (greys ?stack) = {k. dget (ws_state st') k = Some 1 \<and> \<not> has_key (ws_memo st') k}"
    using facts fresh by (auto simp: memo state)
  have sub: "set ?open \<subseteq> set cs" by (auto simp: open_children_def)
  have chain: "chained S ?E ?stack"
    using facts sub by (intro chained_push) (auto simp: edges)
  have "list_all (\<lambda>e. has_key nodes (fst e)) ?stack"
  proof -
    have "\<forall>c\<in>set ?open. has_key nodes c" using sub ok edges unfolding graph_ok_def by blast
    moreover have "has_key nodes i" "list_all (\<lambda>e. has_key nodes (fst e)) stack" using facts by auto
    ultimately show ?thesis by (auto simp: list_all_iff)
  qed
  moreover have "outranked S ?E (ws_memo st') ?stack"
    using facts by (auto simp: memo intro: outranked_stack)
  moreover have "covered ?E (set (memo_keys st')) ?stack \<and> topological ?E (rev (memo_keys st'))" if "\<not> ws_cycle st'"
  proof -
    have "\<not> cycle_child st' cs" "\<not> ws_cycle st" using that by (auto simp: st' enter_node_def Let_def cycle_child_def)
    then have "set cs \<subseteq> set (memo_keys st') \<union> set ?open"
      by (auto simp: cycle_child_def list_ex_iff open_children_def has_key_memo)
    moreover have "covered ?E (insert i (set (memo_keys st))) stack" using facts \<open>\<not> ws_cycle st\<close> by simp
    ultimately show ?thesis
      using facts \<open>\<not> ws_cycle st\<close> by (auto simp: covered_push edges memo intro: covered_mono)
  qed
  moreover have "\<exists>k. (k, k) \<in> ?E\<^sup>+" if "ws_cycle st'"
  proof (cases "ws_cycle st")
    case False
    with that obtain c where c: "c \<in> set cs" "\<not> has_key (ws_memo st') c" "dget (ws_state st') c = Some 1"
      by (auto simp: st' enter_node_def Let_def cycle_child_def list_ex_iff)
    then have "c \<in> set (greys ((i, True) # stack))" using grey by auto
    moreover have "chained S ?E ((c, False) # (i, True) # stack)" using facts c(1) by (simp add: edges)
    ultimately show ?thesis using chained_reach by blast
  qed (use facts in blast)
  ultimately show ?thesis
    using facts grey chain out by (simp add: walk_inv_def Let_def memo)
qed

theorem walk_correct:
  assumes "graph_ok nodes children"
  shows "walk_inv nodes children S stack st \<Longrightarrow>
    \<exists>st'. walk nodes children stack st = Inr st' \<and> walk_inv nodes children S [] st' \<and>
      (\<forall>e\<in>set stack. has_key (ws_memo st') (fst e)) \<and> (\<forall>k p. dget (ws_memo st) k = Some p \<longrightarrow> dget (ws_memo st') k = Some p)"
  using assms
proof (induction nodes children stack st rule: walk.induct)
  case (1 nodes children st)
  then show ?case by (simp add: walk.simps)
next
  case (2 nodes children i expanded stack st)
  note inv = "2.prems"(1) and ok = "2.prems"(2)
  note facts = inv [unfolded walk_inv_def Let_def]
  have node: "has_key nodes i" using facts by simp
  then have "has_key children i" using ok by (simp add: graph_ok_def)
  with node obtain v cs where v: "dget nodes i = Some v" and cs: "dget children i = Some cs" by (auto simp: has_key_iff)
  let ?walk = "walk nodes children"
  consider (memo) "has_key (ws_memo st) i" | (expanded) "\<not> has_key (ws_memo st) i" expanded
    | (again) "\<not> has_key (ws_memo st) i" "\<not> expanded" "dget (ws_state st) i = Some 1"
    | (enter) "\<not> has_key (ws_memo st) i" "\<not> expanded" "dget (ws_state st) i \<noteq> Some 1" by blast
  then show ?case
  proof cases
    case memo
    have "?walk ((i, expanded) # stack) st = ?walk stack st" by (subst walk.simps) (simp add: memo)
    with "2.IH"(1) [OF memo walk_inv_skip [OF inv memo] ok] memo show ?thesis
      by (fastforce simp: has_key_iff)
  next
    case expanded
    let ?st = "st\<lparr>ws_state := dset i 2 (ws_state st), ws_memo := dset i (best_path v i cs (ws_memo st)) (ws_memo st)\<rparr>"
    have fin: "finish_node nodes children i st = Inr ?st" by (simp add: finish_node_def v cs)
    have eq: "?walk ((i, expanded) # stack) st = ?walk stack ?st" by (subst walk.simps) (simp add: expanded fin)
    have none: "dget (ws_memo st) i = None" using expanded(1) by (cases "dget (ws_memo st) i") (auto simp: has_key_iff)
    have "walk_inv nodes children S stack ?st" using walk_inv_finish [OF _ ok v cs refl] inv expanded(2) by simp
    from "2.IH"(2) [OF expanded fin this ok] obtain st' where
      st': "?walk stack ?st = Inr st'" "walk_inv nodes children S [] st'" "\<forall>e\<in>set stack. has_key (ws_memo st') (fst e)"
        "\<forall>k p. dget (ws_memo ?st) k = Some p \<longrightarrow> dget (ws_memo st') k = Some p" by blast
    have "dget (ws_memo st') k = Some p" if "dget (ws_memo st) k = Some p" for k p
    proof -
      have "k \<noteq> i" using that none by auto
      with that st'(4) show ?thesis by auto
    qed
    moreover have "has_key (ws_memo st') i" using st'(4) by (auto simp: has_key_iff)
    ultimately show ?thesis using st'(1-3) eq by auto
  next
    case again
    have eq: "?walk ((i, expanded) # stack) st = ?walk stack (st\<lparr>ws_cycle := True\<rparr>)"
      by (subst walk.simps) (simp add: again)
    from walk_inv_again [of nodes children S i stack st] inv again
    have inv': "walk_inv nodes children S stack (st\<lparr>ws_cycle := True\<rparr>)" and "i \<in> set (greys stack)" by auto
    from this(2) have "\<exists>e\<in>set stack. fst e = i" by auto
    with "2.IH"(3) [OF again inv' ok] eq show ?thesis by fastforce
  next
    case enter
    let ?st = "enter_node i cs st"
    let ?stack = "map (\<lambda>c. (c, False)) (open_children ?st cs) @ (i, True) # stack"
    have found: "find children i = Inr cs" by (simp add: cs)
    have eq: "?walk ((i, expanded) # stack) st = ?walk ?stack ?st"
      by (subst walk.simps) (simp add: enter cs Let_def)
    have inv': "walk_inv nodes children S ?stack ?st"
      using walk_inv_enter [OF _ ok enter(1,3) cs refl] inv enter(2) by simp
    from "2.IH"(4) [OF enter found refl inv' ok] obtain st' where
      st': "?walk ?stack ?st = Inr st'" "walk_inv nodes children S [] st'" "\<forall>e\<in>set ?stack. has_key (ws_memo st') (fst e)"
        "\<forall>k p. dget (ws_memo ?st) k = Some p \<longrightarrow> dget (ws_memo st') k = Some p" by blast
    have "ws_memo ?st = ws_memo st" by (simp add: enter_node_def Let_def)
    with st' eq show ?thesis by auto
  qed
qed

section \<open>All walks\<close>

abbreviation settled :: "(pystr, event) dict \<Rightarrow> (pystr, pystr list) dict \<Rightarrow> pystr set \<Rightarrow> walk_state \<Rightarrow> bool" where
  "settled nodes children S st \<equiv> walk_inv nodes children S [] st"

definition extends :: "walk_state \<Rightarrow> walk_state \<Rightarrow> bool" where
  "extends st st' \<longleftrightarrow> (\<forall>k p. dget (ws_memo st) k = Some p \<longrightarrow> dget (ws_memo st') k = Some p)"

lemma extends_trans: "extends st st' \<Longrightarrow> extends st' st'' \<Longrightarrow> extends st st''"
  by (simp add: extends_def)

lemma extends_refl [simp]: "extends st st"
  by (simp add: extends_def)

lemma extends_key: "extends st st' \<Longrightarrow> has_key (ws_memo st) k \<Longrightarrow> has_key (ws_memo st') k"
  by (auto simp: extends_def has_key_iff)

lemma settled_more: "settled nodes children S st \<Longrightarrow> S \<subseteq> T \<Longrightarrow> settled nodes children T st"
  by (auto simp: walk_inv_def Let_def outranked_def)

lemma visit_correct:
  assumes "graph_ok nodes children" "settled nodes children S st" "has_key nodes i"
  shows "\<exists>p st'. visit nodes children i st = Inr (p, st') \<and> settled nodes children (insert i S) st' \<and>
    extends st st' \<and> dget (ws_memo st') i = Some p"
proof (cases "has_key (ws_memo st) i")
  case True
  then show ?thesis using settled_more [OF assms(2) subset_insertI] by (auto simp: visit_def has_key_iff)
next
  case False
  have "walk_inv nodes children (insert i S) [(i, False)] st"
    using assms(2,3) by (auto simp: walk_inv_def Let_def outranked_def)
  from walk_correct [OF assms(1) this] False show ?thesis
    by (auto simp: visit_def has_key_iff extends_def)
qed

lemma visit_all_correct:
  assumes "graph_ok nodes children" "settled nodes children S st" "list_all (has_key nodes) is"
  shows "\<exists>ps st'. visit_all nodes children is st = Inr (ps, st') \<and> settled nodes children (S \<union> set is) st' \<and>
    extends st st' \<and> map Some ps = map (dget (ws_memo st')) is"
  using assms(2,3)
proof (induction "is" arbitrary: S st)
  case (Cons i "is")
  obtain p st' where 1: "visit nodes children i st = Inr (p, st')" "settled nodes children (insert i S) st'"
    "extends st st'" "dget (ws_memo st') i = Some p"
    using visit_correct [OF assms(1) Cons.prems(1), of i] Cons.prems(2) by auto
  obtain ps st'' where 2: "visit_all nodes children is st' = Inr (ps, st'')" "settled nodes children (insert i S \<union> set is) st''"
    "extends st' st''" "map Some ps = map (dget (ws_memo st'')) is"
    using Cons.IH [OF 1(2)] Cons.prems(2) by auto
  have "dget (ws_memo st'') i = Some p" using 1(4) 2(3) by (simp add: extends_def)
  with 1 2 extends_trans [OF 1(3) 2(3)] show ?case by simp
qed simp

lemma visit_rest_correct:
  assumes "graph_ok nodes children" "settled nodes children S st" "list_all (has_key nodes) is"
  shows "\<exists>ps st' R. visit_rest nodes children is st = Inr (ps, st') \<and> settled nodes children (S \<union> set R) st' \<and>
    extends st st' \<and> map Some ps = map (dget (ws_memo st')) R \<and> list_all (has_key (ws_memo st')) is"
  using assms(2,3)
proof (induction "is" arbitrary: S st)
  case Nil
  then show ?case by (auto intro: exI [of _ "[]"])
next
  case (Cons i "is")
  show ?case
  proof (cases "has_key (ws_memo st) i")
    case True
    obtain ps st' R where "visit_rest nodes children is st = Inr (ps, st')" "settled nodes children (S \<union> set R) st'"
      "extends st st'" "map Some ps = map (dget (ws_memo st')) R" "list_all (has_key (ws_memo st')) is"
      using Cons.IH [OF Cons.prems(1)] Cons.prems(2) by auto
    with True show ?thesis by (auto intro: extends_key)
  next
    case False
    obtain p st' where 1: "visit nodes children i st = Inr (p, st')" "settled nodes children (insert i S) st'"
      "extends st st'" "dget (ws_memo st') i = Some p"
      using visit_correct [OF assms(1) Cons.prems(1), of i] Cons.prems(2) by auto
    obtain ps st'' R where 2: "visit_rest nodes children is st' = Inr (ps, st'')" "settled nodes children (insert i S \<union> set R) st''"
      "extends st' st''" "map Some ps = map (dget (ws_memo st'')) R" "list_all (has_key (ws_memo st'')) is"
      using Cons.IH [OF 1(2)] Cons.prems(2) by auto
    have i: "dget (ws_memo st'') i = Some p" using 1(4) 2(3) by (simp add: extends_def)
    then have "has_key (ws_memo st'') i" by (simp add: has_key_iff)
    with i False 1 2 extends_trans [OF 1(3) 2(3)] show ?thesis
      by (intro exI [of _ "p # ps"] exI [of _ st''] exI [of _ "i # R"]) auto
  qed
qed

lemma settled_best:
  assumes "settled nodes children S st" "dget (ws_memo st) m = Some p"
  shows "\<exists>s q. s \<in> S \<and> dget (ws_memo st) s = Some q \<and> path_key p \<le> path_key q"
proof -
  let ?K = "path_key ` ran (dget (ws_memo st))"
  have fin: "finite ?K" by (simp add: finite_ran finite_dom_map_of)
  have mem: "path_key p \<in> ?K" using assms(2) by (auto simp: ran_def)
  then have "Max ?K \<in> ?K" using fin by (intro Max_in) auto
  then obtain s q where s: "dget (ws_memo st) s = Some q" "path_key q = Max ?K" by (auto simp: ran_def)
  have top: "path_key q' \<le> path_key q" if "dget (ws_memo st) j = Some q'" for j q'
    unfolding s(2) using fin that by (intro Max_ge) (auto simp: ran_def)
  have "s \<in> S" using assms(1) s(1) top unfolding walk_inv_def Let_def outranked_def by (fastforce simp: not_less)
  with s top [OF assms(2)] show ?thesis by blast
qed

theorem search_paths_correct:
  assumes ok: "graph_ok nodes (gr_children g)" and "nodes \<noteq> []"
  shows "\<exists>best st. search_paths nodes g = Inr (best, ws_cycle st) \<and> settled nodes (gr_children g) UNIV st \<and>
    dget (ws_memo st) (path_event best) = Some best \<and>
    (\<forall>k. has_key nodes k \<longrightarrow> (\<exists>p. dget (ws_memo st) k = Some p \<and> path_key p \<le> path_key best))"
proof -
  let ?ids = "map fst nodes" and ?init = "\<lparr>ws_state = [], ws_memo = [], ws_cycle = False\<rparr>"
  let ?roots = "filter (\<lambda>i. i \<notin> set (gr_incoming g)) ?ids"
  have "settled nodes (gr_children g) {} ?init"
    by (simp add: walk_inv_def Let_def remembered_def outranked_def memo_keys_def)
  moreover have ids: "list_all (has_key nodes) ?ids" "list_all (has_key nodes) ?roots" by (auto simp: list_all_iff has_key_def)
  ultimately obtain ps st1 where 1: "visit_all nodes (gr_children g) ?roots ?init = Inr (ps, st1)"
    "settled nodes (gr_children g) (set ?roots) st1" "map Some ps = map (dget (ws_memo st1)) ?roots"
    using visit_all_correct [OF ok] by fastforce
  obtain qs st2 R where 2: "visit_rest nodes (gr_children g) ?ids st1 = Inr (qs, st2)"
    "settled nodes (gr_children g) (set ?roots \<union> set R) st2" "extends st1 st2" "map Some qs = map (dget (ws_memo st2)) R"
    "list_all (has_key (ws_memo st2)) ?ids"
    using visit_rest_correct [OF ok 1(2) ids(1)] by blast
  have "dget (ws_memo st2) i = dget (ws_memo st1) i" if "i \<in> set ?roots" for i
  proof -
    have "dget (ws_memo st1) i \<in> set (map (dget (ws_memo st1)) ?roots)" unfolding set_map using that by (rule imageI)
    then have "dget (ws_memo st1) i \<in> Some ` set ps" unfolding 1(3) [symmetric] set_map .
    then obtain p where "dget (ws_memo st1) i = Some p" by blast
    with 2(3) show ?thesis by (simp add: extends_def)
  qed
  then have "map Some ps = map (dget (ws_memo st2)) ?roots" using 1(3) by simp
  with 2(4) have all: "map Some (ps @ qs) = map (dget (ws_memo st2)) (?roots @ R)" by simp
  have ranked: "\<exists>q\<in>set (ps @ qs). path_key p \<le> path_key q" if "dget (ws_memo st2) k = Some p" for k p
  proof -
    obtain s q where "s \<in> set (?roots @ R)" "dget (ws_memo st2) s = Some q" "path_key p \<le> path_key q"
      using settled_best [OF 2(2) \<open>dget (ws_memo st2) k = Some p\<close>] by auto
    moreover from this(1,2) have "Some q \<in> set (map Some (ps @ qs))" unfolding all by force
    ultimately show ?thesis by auto
  qed
  have keys: "\<exists>p. dget (ws_memo st2) k = Some p" if "has_key nodes k" for k
    using 2(5) that unfolding list_all_iff has_key_iff [symmetric] by (auto simp: has_key_def)
  obtain k v rest where "nodes = (k, v) # rest" using assms(2) by (cases nodes) auto
  then obtain p0 where "dget (ws_memo st2) k = Some p0" using keys [of k] by (auto simp: has_key_def)
  then obtain b bs where list: "ps @ qs = b # bs" using ranked by (cases "ps @ qs") fastforce+
  let ?best = "max_by path_key b bs"
  have "?best \<in> set (ps @ qs)" unfolding list using max_by_in by fastforce
  then have "Some ?best \<in> set (map (dget (ws_memo st2)) (?roots @ R))" unfolding all [symmetric] by auto
  then obtain i where i: "dget (ws_memo st2) i = Some ?best" by auto
  have "remembered nodes (gr_children g) (ws_memo st2)" using 2(2) by (simp add: walk_inv_def Let_def)
  then have "path_ok nodes (gr_children g) (ws_memo st2) i ?best" using i by (simp add: remembered_def)
  then have "path_event ?best = i" by (auto simp: path_ok_def)
  moreover have "\<exists>p. dget (ws_memo st2) k = Some p \<and> path_key p \<le> path_key ?best" if "has_key nodes k" for k
  proof -
    obtain p where p: "dget (ws_memo st2) k = Some p" using keys [OF \<open>has_key nodes k\<close>] by blast
    from ranked [OF p] obtain q where "q \<in> set (b # bs)" "path_key p \<le> path_key q" unfolding list by blast
    with p max_by_ge [of q b bs path_key] show ?thesis by (auto intro: order_trans)
  qed
  moreover have "search_paths nodes g = Inr (?best, ws_cycle st2)"
    by (simp add: search_paths_def Let_def 1(1) 2(1) list)
  ultimately show ?thesis using i settled_more [OF 2(2), of UNIV] by blast
qed

section \<open>The graph of a recording\<close>

definition causal_edges :: "event list \<Rightarrow> edge_value list \<Rightarrow> (pystr \<times> pystr) set" where
  "causal_edges events es = {(s, t). s \<in> ev_id ` set events \<and> t \<in> ev_id ` set events \<and> (\<exists>c. (s, t, c) \<in> set es)}"

lemma event_table_key [simp]: "has_key (event_table events) k \<longleftrightarrow> k \<in> ev_id ` set events"
proof -
  have "has_key (fold (\<lambda>v. dset (ev_id v) v) events d) k \<longleftrightarrow> has_key d k \<or> k \<in> ev_id ` set events" for d
    by (induction events arbitrary: d) (auto simp: has_key_iff)
  from this [of "[]"] show ?thesis by (simp add: event_table_def has_key_def)
qed

lemma event_table_get: "dget (event_table events) k = Some v \<Longrightarrow> v \<in> set events \<and> ev_id v = k"
proof -
  have "dget (fold (\<lambda>v. dset (ev_id v) v) events d) k = Some v \<Longrightarrow> dget d k = Some v \<or> v \<in> set events \<and> ev_id v = k" for d
  proof (induction events arbitrary: d)
    case (Cons e events)
    then have "dget (fold (\<lambda>v. dset (ev_id v) v) events (dset (ev_id e) e d)) k = Some v" by simp
    from Cons.IH [OF this] show ?case by (auto split: if_splits)
  qed simp
  from this [of "[]"] show "dget (event_table events) k = Some v \<Longrightarrow> ?thesis" by (simp add: event_table_def)
qed

lemma event_table_unique:
  assumes "distinct (map ev_id events)" "v \<in> set events"
  shows "dget (event_table events) (ev_id v) = Some v"
proof -
  have "has_key (event_table events) (ev_id v)" using assms(2) by simp
  then obtain w where w: "dget (event_table events) (ev_id v) = Some w" by (auto simp: has_key_iff)
  with event_table_get [OF w] assms show ?thesis by (auto simp: distinct_map inj_on_def)
qed

definition graph_built :: "(pystr, event) dict \<Rightarrow> edge_value list \<Rightarrow> graph \<Rightarrow> bool" where
  "graph_built nodes es g \<longleftrightarrow> (\<forall>k. has_key (gr_children g) k \<longleftrightarrow> has_key nodes k) \<and>
     (\<forall>s t. (s, t) \<in> graph_edges (gr_children g) \<longleftrightarrow> has_key nodes s \<and> has_key nodes t \<and> (\<exists>c. (s, t, c) \<in> set es)) \<and>
     (\<forall>s t. has_key (gr_confidence g) (s, t) \<longleftrightarrow> (s, t) \<in> graph_edges (gr_children g))"

lemma has_key_dset [simp]: "has_key (dset k v d) k' \<longleftrightarrow> k' = k \<or> has_key d k'"
  by (auto simp: has_key_iff)

lemma graph_edges_dset:
  "(s, t) \<in> graph_edges (dset a cs d) \<longleftrightarrow> (if s = a then t \<in> set cs else (s, t) \<in> graph_edges d)"
  by (auto simp: graph_edges_def)

lemma graph_edges_get: "t \<in> set (dget_or d s []) \<longleftrightarrow> (s, t) \<in> graph_edges d"
  by (cases "dget d s") (auto simp: graph_edges_def dget_or_def)

lemma graph_built_step:
  assumes "graph_built nodes es g"
  shows "graph_built nodes (e # es) (add_edge_value nodes e g)"
proof -
  obtain a b c where e: "e = (a, b, c)" by (cases e)
  show ?thesis
    using assms unfolding graph_built_def e
    by (auto simp: add_edge_value_def graph_edges_dset graph_edges_get)
qed

lemma build_graph_built: "graph_built nodes es (build_graph nodes es)"
proof -
  have "graph_built nodes ds g \<Longrightarrow> graph_built nodes (rev es @ ds) (fold (add_edge_value nodes) es g)" for ds g
  proof (induction es arbitrary: ds g)
    case (Cons e es)
    from Cons.IH [OF graph_built_step [OF Cons.prems, of e]] show ?case by simp
  qed simp
  moreover have "graph_built nodes [] \<lparr>gr_children = map (\<lambda>(i, v). (i, [])) nodes, gr_confidence = [], gr_incoming = []\<rparr>"
  proof -
    have "dget (map (\<lambda>(i, v). (i, [])) nodes) k = Some cs \<Longrightarrow> cs = []" for k and cs :: "pystr list"
      by (induction nodes) (auto split: if_splits)
    then show ?thesis by (force simp: graph_built_def has_key_def graph_edges_def image_image split_beta)
  qed
  ultimately have "graph_built nodes (rev es @ []) (build_graph nodes es)" unfolding build_graph_def by blast
  then show ?thesis by (simp add: graph_built_def)
qed

section \<open>The critical path\<close>

definition interval_ordered :: "event \<Rightarrow> bool" where
  "interval_ordered v \<longleftrightarrow> list_all ordered (event_span v)"

lemma built_graph_ok:
  assumes "list_all interval_ordered events"
  shows "graph_ok (event_table events) (gr_children (build_graph (event_table events) es))"
proof -
  have "list_all ordered (event_span v)" if "dget (event_table events) k = Some v" for k v
    using event_table_get [OF that] assms by (auto simp: list_all_iff interval_ordered_def)
  then show ?thesis
    using build_graph_built [of "event_table events" es] by (auto simp: graph_ok_def graph_built_def)
qed

lemma built_edges: "graph_edges (gr_children (build_graph (event_table events) es)) = causal_edges events es"
  using build_graph_built [of "event_table events" es] by (auto simp: graph_built_def causal_edges_def)

text \<open>What the search returns, over the events of the recording.\<close>

lemma search_paths_of_events:
  assumes "list_all interval_ordered events" "events \<noteq> []"
  obtains best c where
    "search_paths (event_table events) (build_graph (event_table events) es) = Inr (best, c)"
    "distinct (path_event_ids best)" "path_event_ids best \<noteq> []"
    "set (path_event_ids best) \<subseteq> ev_id ` set events"
    "set (adjacent_pairs (path_event_ids best)) \<subseteq> causal_edges events es"
    "represents (path_intervals best) (concat (map (node_span (event_table events)) (path_event_ids best)))"
    "c \<longleftrightarrow> \<not> acyclic (causal_edges events es)"
    "\<And>k. k \<in> ev_id ` set events \<Longrightarrow> \<exists>p is. path_key p \<le> path_key best \<and>
       represents (path_intervals p) (node_span (event_table events) k @ is)"
proof -
  let ?nodes = "event_table events" and ?g = "build_graph (event_table events) es" and ?E = "causal_edges events es"
  note ok = built_graph_ok [OF assms(1), of es]
  have "?nodes \<noteq> []" using event_table_key [of events "ev_id (hd events)"] assms(2) by (auto simp: has_key_def)
  then obtain best st where best: "search_paths ?nodes ?g = Inr (best, ws_cycle st)"
      and inv: "settled ?nodes (gr_children ?g) UNIV st" and get: "dget (ws_memo st) (path_event best) = Some best"
      and all: "\<And>k. has_key ?nodes k \<Longrightarrow> \<exists>p. dget (ws_memo st) k = Some p \<and> path_key p \<le> path_key best"
    using search_paths_correct [OF ok] by blast
  have rem: "remembered ?nodes (gr_children ?g) (ws_memo st)" using inv by (simp add: walk_inv_def Let_def)
  have sound: "path_sound ?nodes (gr_children ?g) (ws_memo st) k p" if "dget (ws_memo st) k = Some p" for k p
    by (rule remembered_sound [OF rem ok that])
  have ids: "set (path_event_ids best) \<subseteq> ev_id ` set events"
  proof
    fix i assume "i \<in> set (path_event_ids best)"
    then obtain q where "dget (ws_memo st) i = Some q" using sound [OF get] by (auto simp: path_sound_def)
    then have "path_ok ?nodes (gr_children ?g) (ws_memo st) i q" using rem by (simp add: remembered_def)
    then have "has_key ?nodes i" by (auto simp: path_ok_def has_key_iff)
    then show "i \<in> ev_id ` set events" by simp
  qed
  have "ws_cycle st \<longleftrightarrow> \<not> acyclic ?E"
  proof
    assume "ws_cycle st" then show "\<not> acyclic ?E" using inv by (auto simp: walk_inv_def Let_def built_edges acyclic_def)
  next
    assume "\<not> acyclic ?E"
    then obtain k where k: "(k, k) \<in> ?E\<^sup>+" by (auto simp: acyclic_def)
    then obtain l where "(k, l) \<in> ?E" by (auto dest: tranclD)
    then have "has_key ?nodes k" by (auto simp: causal_edges_def)
    then have "has_key (ws_memo st) k" using all [of k] by (auto simp: has_key_iff)
    then have "k \<in> set (memo_keys st)" by (simp add: has_key_memo)
    with k topological_acyclic [of ?E "rev (memo_keys st)" k] inv show "ws_cycle st"
      by (auto simp: walk_inv_def Let_def built_edges)
  qed
  moreover have "\<exists>p is. path_key p \<le> path_key best \<and> represents (path_intervals p) (node_span ?nodes k @ is)"
    if k: "k \<in> ev_id ` set events" for k
  proof -
    obtain p where p: "dget (ws_memo st) k = Some p" "path_key p \<le> path_key best" using all [of k] k by auto
    from sound [OF p(1)] have "represents (path_intervals p) (concat (map (node_span ?nodes) (path_event_ids p)))"
      "path_event_ids p = k # tl (path_event_ids p)"
      by (auto simp: path_sound_def)
    then have "represents (path_intervals p) (node_span ?nodes k @ concat (map (node_span ?nodes) (tl (path_event_ids p))))"
      by (metis concat.simps(2) list.simps(9))
    with p(2) show ?thesis by blast
  qed
  ultimately show ?thesis
    using that [OF best] sound [OF get] ids by (auto simp: path_sound_def built_edges)
qed


lemma seconds_defined:
  assumes "\<bar>n\<bar> \<le> 2 ^ 65"
  shows "\<exists>x. seconds n = Inr x"
proof -
  let ?q = "of_int n / of_int nanoseconds_per_second :: rat"
  have "\<bar>rat_of_int n\<bar> \<le> 2 ^ 65"
    using assms by (metis of_int_abs of_int_le_iff of_int_numeral of_int_power)
  then have bounds: "- (2 ^ 53) \<le> ?q" "?q \<le> 2 ^ 53" by (auto simp: nanoseconds_per_second_def abs_le_iff)
  have limits: "rnd (2 ^ 53) = Fin (2 ^ 53)" "rnd (- (2 ^ 53)) = Fin (- (2 ^ 53))" by code_simp+
  have "fle (rnd ?q) (Fin (2 ^ 53))" "fle (Fin (- (2 ^ 53))) (rnd ?q)"
    using rnd_mono [OF bounds(2)] rnd_mono [OF bounds(1)] by (simp_all only: limits)
  then have "isfinite (rnd ?q)" by (cases "rnd ?q") simp_all
  then show ?thesis
    by (simp add: seconds_def int_truediv_def finite_or_overflow_def nanoseconds_per_second_def)
qed

lemma active_within_duration:
  assumes "represents (path_intervals p) is" "is \<noteq> []"
  shows "0 \<le> active_ns p \<and> active_ns p \<le> path_duration_ns p"
proof -
  have "points is \<subseteq> {Min (fst ` set is)..<Max (snd ` set is)}"
  proof
    fix x assume "x \<in> points is"
    then obtain i where i: "i \<in> set is" "fst i \<le> x" "x < snd i" by (auto simp: points_def)
    then have "Min (fst ` set is) \<le> fst i" "snd i \<le> Max (snd ` set is)" by auto
    with i show "x \<in> {Min (fst ` set is)..<Max (snd ` set is)}" unfolding atLeastLessThan_iff by linarith
  qed
  then have "card (points is) \<le> card {Min (fst ` set is)..<Max (snd ` set is)}" by (intro card_mono) auto
  moreover have "Min (fst ` set is) \<le> Max (snd ` set is)"
  proof -
    have "path_intervals p \<noteq> []" using assms by auto
    then have hd: "hd (path_intervals p) \<in> set (path_intervals p)" by simp
    have sep: "separated (path_intervals p)" using assms(1) by (simp add: represents_def)
    with hd have "fst (hd (path_intervals p)) \<le> snd (hd (path_intervals p))"
      by (simp add: separated_def list_all_iff ordered_def)
    also have "\<dots> \<le> snd (last (path_intervals p))" using separated_hull [OF sep hd] by simp
    finally have "fst (hd (path_intervals p)) \<le> snd (last (path_intervals p))" .
    with represents_hull [OF assms] show ?thesis by simp
  qed
  ultimately show ?thesis by (simp add: active_points [OF assms(1)] duration_hull [OF assms])
qed

definition path_spans :: "event list \<Rightarrow> pystr list \<Rightarrow> interval list" where
  "path_spans events ids = concat (map (node_span (event_table events)) ids)"

lemma path_spans_event:
  assumes "i \<in> set (path_spans events ids)"
  shows "\<exists>v\<in>set events. i \<in> set (event_span v)"
proof -
  obtain k where "i \<in> set (node_span (event_table events) k)" using assms by (auto simp: path_spans_def)
  then show ?thesis
    by (cases "dget (event_table events) k") (auto simp: node_span_def dest: event_table_get)
qed

text \<open>The computation of the critical path, once the search is done.\<close>

lemma critical_path_computed:
  assumes ordered: "list_all interval_ordered events" and complete: "list_ex has_complete_interval events"
    and one: "distinct (map ev_id events)"
  obtains best c confidences vs where
    "distinct (path_event_ids best)" "path_event_ids best \<noteq> []"
    "set (adjacent_pairs (path_event_ids best)) \<subseteq> causal_edges events es"
    "represents (path_intervals best) (path_spans events (path_event_ids best))" "path_spans events (path_event_ids best) \<noteq> []"
    "c \<longleftrightarrow> \<not> acyclic (causal_edges events es)"
    "\<And>v x. v \<in> set events \<Longrightarrow> x \<in> set (event_span v) \<Longrightarrow> snd x - fst x \<le> path_duration_ns best"
    "traverse (find (gr_confidence (build_graph (event_table events) es))) (adjacent_pairs (path_event_ids best)) = Inr confidences"
    "list_all2 (\<lambda>i v. v \<in> set events \<and> ev_id v = i) (path_event_ids best) vs"
    "critical_path_of events es reported skewed causality_complete = rbind (path_record best vs reported
       (path_observed (length (event_table events)) skewed causality_complete c confidences vs) c) (\<lambda>cp. Inr (Some cp))"
proof -
  let ?nodes = "event_table events" and ?g = "build_graph (event_table events) es"
  have "events \<noteq> []" using complete by auto
  from search_paths_of_events [OF ordered this, of es] obtain best c where
    search: "search_paths ?nodes ?g = Inr (best, c)" and
    path: "distinct (path_event_ids best)" "path_event_ids best \<noteq> []" "set (path_event_ids best) \<subseteq> ev_id ` set events"
      "set (adjacent_pairs (path_event_ids best)) \<subseteq> causal_edges events es" and
    spans: "represents (path_intervals best) (path_spans events (path_event_ids best))" and
    cycle: "c \<longleftrightarrow> \<not> acyclic (causal_edges events es)" and
    all: "\<And>k. k \<in> ev_id ` set events \<Longrightarrow> \<exists>p is. path_key p \<le> path_key best \<and>
       represents (path_intervals p) (node_span ?nodes k @ is)"
    unfolding path_spans_def by blast
  have long: "path_intervals best \<noteq> [] \<and> snd x - fst x \<le> path_duration_ns best"
    if v: "v \<in> set events" "x \<in> set (event_span v)" for v x
  proof -
    have "node_span ?nodes (ev_id v) = event_span v" using event_table_unique [OF one v(1)] by (simp add: node_span_def)
    with all [of "ev_id v"] v(1) obtain p "is" where p: "path_key p \<le> path_key best"
      "represents (path_intervals p) (event_span v @ is)" by auto
    then have x: "x \<in> set (event_span v @ is)" using v(2) by simp
    then have "Min (fst ` set (event_span v @ is)) \<le> fst x" "snd x \<le> Max (snd ` set (event_span v @ is))" by auto
    moreover have "event_span v @ is \<noteq> []" using v(2) by auto
    ultimately have "snd x - fst x \<le> path_duration_ns p" using duration_hull [OF p(2)] by simp
    moreover have "path_intervals p \<noteq> []" using p(2) \<open>event_span v @ is \<noteq> []\<close> by auto
    ultimately show ?thesis using p(1) by (auto simp: path_key_def less_eq_prod_def less_prod_def)
  qed
  obtain v where v: "v \<in> set events" "has_complete_interval v" using complete by (auto simp: list_ex_iff)
  then have "event_span v \<noteq> []" by (auto simp: has_complete_interval_def event_span_def)
  with long [OF v(1)] have "path_intervals best \<noteq> []" by (cases "event_span v") auto
  with spans have nonempty: "path_spans events (path_event_ids best) \<noteq> []" by auto
  have "\<exists>ys. traverse (find (gr_confidence ?g)) (adjacent_pairs (path_event_ids best)) = Inr ys"
  proof (unfold traverse_defined, intro ballI)
    fix e assume "e \<in> set (adjacent_pairs (path_event_ids best))"
    then have "e \<in> graph_edges (gr_children ?g)" using path(4) by (auto simp: built_edges)
    then have "has_key (gr_confidence ?g) e"
      using build_graph_built [of ?nodes es] by (cases e) (simp add: graph_built_def)
    then show "\<exists>y. find (gr_confidence ?g) e = Inr y" by (auto simp: has_key_iff)
  qed
  then obtain confidences where conf: "traverse (find (gr_confidence ?g)) (adjacent_pairs (path_event_ids best)) = Inr confidences" ..
  have "\<exists>ys. traverse (find ?nodes) (path_event_ids best) = Inr ys"
  proof (unfold traverse_defined, intro ballI)
    fix i assume "i \<in> set (path_event_ids best)"
    then have "has_key ?nodes i" using path(3) by auto
    then show "\<exists>y. find ?nodes i = Inr y" by (auto simp: has_key_iff)
  qed
  then obtain vs where vs: "traverse (find ?nodes) (path_event_ids best) = Inr vs" ..
  have "list_all2 (\<lambda>i v. v \<in> set events \<and> ev_id v = i) (path_event_ids best) vs"
    using vs unfolding traverse_eq_Inr_iff
    by (rule list_all2_mono) (auto split: option.splits dest: event_table_get)
  then show ?thesis
    using that [OF path(1,2,4) spans nonempty cycle _ conf] long complete search conf vs
    by (simp add: critical_path_of_def Let_def)
qed

lemma seconds_overflow: "seconds n = Inl e \<Longrightarrow> e = OverflowError"
  by (auto simp: seconds_def int_truediv_def finite_or_overflow_def nanoseconds_per_second_def split: if_splits)

lemma observed_not_inferred [simp]: "(if b then lit ''observed'' else lit ''inferred'') = lit ''observed'' \<longleftrightarrow> b"
  by (auto simp: lit_def)

text \<open>The remembered confidence of an edge is that of one of its facts, or zero.\<close>

lemma confidence_of_fact:
  assumes "dget (gr_confidence (build_graph nodes es)) (s, t) = Some c" "feq c (Fin 1)"
  shows "\<exists>c'. (s, t, c') \<in> set es \<and> feq c' (Fin 1)"
proof -
  have "dget (gr_confidence (fold (add_edge_value nodes) es g)) (s, t) = Some c \<Longrightarrow>
    dget (gr_confidence g) (s, t) = Some c \<or> c = Fin 0 \<or> (s, t, c) \<in> set es" for g
  proof (induction es arbitrary: g)
    case (Cons e es)
    obtain a b d where e: "e = (a, b, d)" by (cases e)
    from Cons.IH [of "add_edge_value nodes e g"] Cons.prems
    have "dget (gr_confidence (add_edge_value nodes e g)) (s, t) = Some c \<or> c = Fin 0 \<or> (s, t, c) \<in> set es" by simp
    then show ?case
      by (auto simp: e add_edge_value_def fmax_def dget_or_def split: if_splits option.splits)
  qed simp
  from this [of "\<lparr>gr_children = map (\<lambda>(i, v). (i, [])) nodes, gr_confidence = [], gr_incoming = []\<rparr>"] assms
  show ?thesis by (auto simp: build_graph_def)
qed

section \<open>Properties\<close>

definition times_64 :: "event \<Rightarrow> bool" where
  "times_64 v \<longleftrightarrow> list_all (\<lambda>i. - (2 ^ 63) \<le> fst i \<and> snd i < 2 ^ 63) (event_span v)"

lemma path_recorded:
  assumes "path_record best vs reported observed c = Inr cp"
  shows "cr_event_ids cp = path_event_ids best" "cr_event_names cp = map ev_name vs" "cr_cycle_detected cp = c"
    "cr_certainty cp = (if observed then lit ''observed'' else lit ''inferred'')"
    "seconds (path_duration_ns best) = Inr (cr_duration_seconds cp)" "seconds (active_ns best) = Inr (cr_active_seconds cp)"
    "seconds (path_duration_ns best - active_ns best) = Inr (cr_waiting_seconds cp)"
  using assms by (auto simp: path_record_def rbind_eq_Inr_iff)

lemma list_all2_left: "list_all2 P xs ys \<Longrightarrow> x \<in> set xs \<Longrightarrow> \<exists>y\<in>set ys. P x y"
  by (induction rule: list_all2_induct) auto

lemma critical_path_found:
  assumes "list_all interval_ordered events" "distinct (map ev_id events)"
    and found: "critical_path_of events es reported skewed causality_complete = Inr (Some cp)"
  obtains best confidences vs where
    "distinct (cr_event_ids cp)" "cr_event_ids cp \<noteq> []" "cr_event_ids cp = path_event_ids best"
    "set (adjacent_pairs (cr_event_ids cp)) \<subseteq> causal_edges events es"
    "represents (path_intervals best) (path_spans events (cr_event_ids cp))" "path_spans events (cr_event_ids cp) \<noteq> []"
    "cr_cycle_detected cp \<longleftrightarrow> \<not> acyclic (causal_edges events es)"
    "\<And>v x. v \<in> set events \<Longrightarrow> x \<in> set (event_span v) \<Longrightarrow> snd x - fst x \<le> path_duration_ns best"
    "traverse (find (gr_confidence (build_graph (event_table events) es))) (adjacent_pairs (cr_event_ids cp)) = Inr confidences"
    "list_all2 (\<lambda>i v. v \<in> set events \<and> ev_id v = i) (cr_event_ids cp) vs" "cr_event_names cp = map ev_name vs"
    "seconds (path_duration_ns best) = Inr (cr_duration_seconds cp)" "seconds (active_ns best) = Inr (cr_active_seconds cp)"
    "seconds (path_duration_ns best - active_ns best) = Inr (cr_waiting_seconds cp)"
    "cr_certainty cp = (if path_observed (length (event_table events)) skewed causality_complete (cr_cycle_detected cp) confidences vs
       then lit ''observed'' else lit ''inferred'')"
proof -
  have complete: "list_ex has_complete_interval events"
    using found by (auto simp: critical_path_of_def Let_def split: if_splits)
  obtain best c confidences vs where *: "distinct (path_event_ids best)" "path_event_ids best \<noteq> []"
    "set (adjacent_pairs (path_event_ids best)) \<subseteq> causal_edges events es"
    "represents (path_intervals best) (path_spans events (path_event_ids best))" "path_spans events (path_event_ids best) \<noteq> []"
    "c \<longleftrightarrow> \<not> acyclic (causal_edges events es)"
    "\<And>v x. v \<in> set events \<Longrightarrow> x \<in> set (event_span v) \<Longrightarrow> snd x - fst x \<le> path_duration_ns best"
    "traverse (find (gr_confidence (build_graph (event_table events) es))) (adjacent_pairs (path_event_ids best)) = Inr confidences"
    "list_all2 (\<lambda>i v. v \<in> set events \<and> ev_id v = i) (path_event_ids best) vs"
    and eq: "critical_path_of events es reported skewed causality_complete = rbind (path_record best vs reported
       (path_observed (length (event_table events)) skewed causality_complete c confidences vs) c) (\<lambda>cp. Inr (Some cp))"
    by (rule critical_path_computed [OF assms(1) complete assms(2), of es reported skewed causality_complete])
      (rule that; assumption)
  from found [unfolded eq]
  have "path_record best vs reported (path_observed (length (event_table events)) skewed causality_complete c confidences vs) c = Inr cp"
    by (simp add: rbind_eq_Inr_iff)
  note r = path_recorded [OF this]
  show ?thesis
  proof (rule that [of best confidences vs], unfold r(1-4))
    fix v x assume "v \<in> set events" "x \<in> set (event_span v)"
    then show "snd x - fst x \<le> path_duration_ns best" by (rule *(7))
  qed (fact * r(5-7) refl)+
qed

text \<open>C34. A critical path exists exactly when some event has a complete interval: for events whose
  times are ordered 64-bit integers no lookup fails, no walk runs forever and nothing overflows.\<close>

theorem critical_path_exists:
  assumes "list_all interval_ordered events" "list_all times_64 events" "distinct (map ev_id events)"
  shows "\<exists>r. critical_path_of events es reported skewed causality_complete = Inr r \<and>
    (r = None \<longleftrightarrow> \<not> list_ex has_complete_interval events)"
proof (cases "list_ex has_complete_interval events")
  case True
  from critical_path_computed [OF assms(1) True assms(3), of es reported skewed causality_complete]
  obtain best c confidences vs where
    rep: "represents (path_intervals best) (path_spans events (path_event_ids best))" and
    ne: "path_spans events (path_event_ids best) \<noteq> []" and
    eq: "critical_path_of events es reported skewed causality_complete = rbind (path_record best vs reported
       (path_observed (length (event_table events)) skewed causality_complete c confidences vs) c) (\<lambda>cp. Inr (Some cp))" by metis
  have "- (2 ^ 63) \<le> fst i \<and> snd i < 2 ^ 63" if i: "i \<in> set (path_spans events (path_event_ids best))" for i
  proof -
    obtain v where "v \<in> set events" "i \<in> set (event_span v)" using path_spans_event [OF i] by blast
    with assms(2) show ?thesis by (auto simp: list_all_iff times_64_def)
  qed
  then have "- (2 ^ 63) \<le> Min (fst ` set (path_spans events (path_event_ids best)))"
    "Max (snd ` set (path_spans events (path_event_ids best))) < 2 ^ 63"
    using ne by auto
  then have "path_duration_ns best \<le> 2 ^ 64" using duration_hull [OF rep ne] by simp
  with active_within_duration [OF rep ne]
  have "\<bar>path_duration_ns best\<bar> \<le> 2 ^ 65" "\<bar>active_ns best\<bar> \<le> 2 ^ 65" "\<bar>path_duration_ns best - active_ns best\<bar> \<le> 2 ^ 65"
    by simp_all
  then obtain x y z where "seconds (path_duration_ns best) = Inr x" "seconds (active_ns best) = Inr y"
    "seconds (path_duration_ns best - active_ns best) = Inr z" using seconds_defined by metis
  with eq True show ?thesis by (simp add: path_record_def)
qed (simp add: critical_path_of_def Let_def)

text \<open>C28. The reported path is a simple path of the causal graph: its events are distinct and recorded,
  each successive pair is a recorded edge, and the names are those of the events.\<close>

theorem critical_path_is_simple_causal_path:
  assumes "list_all interval_ordered events" "distinct (map ev_id events)"
    and "critical_path_of events es reported skewed causality_complete = Inr (Some cp)"
  shows "cr_event_ids cp \<noteq> [] \<and> distinct (cr_event_ids cp) \<and>
    list_all (\<lambda>e. e \<in> causal_edges events es) (adjacent_pairs (cr_event_ids cp)) \<and>
    list_all2 (\<lambda>i n. (i, n) \<in> (\<lambda>v. (ev_id v, ev_name v)) ` set events) (cr_event_ids cp) (cr_event_names cp)"
proof (rule critical_path_found [OF assms])
  fix vs assume vs: "list_all2 (\<lambda>i v. v \<in> set events \<and> ev_id v = i) (cr_event_ids cp) vs" "cr_event_names cp = map ev_name vs"
    and path: "distinct (cr_event_ids cp)" "cr_event_ids cp \<noteq> []" "set (adjacent_pairs (cr_event_ids cp)) \<subseteq> causal_edges events es"
  from vs(1) have "list_all2 (\<lambda>i n. (i, n) \<in> (\<lambda>v. (ev_id v, ev_name v)) ` set events) (cr_event_ids cp) (cr_event_names cp)"
    unfolding vs(2) list_all2_map2 by (rule list_all2_mono) auto
  with path show ?thesis by (auto simp: list_all_iff)
qed

text \<open>C32. The times of the critical path: its duration is the span of its events, its active time counts
  every covered nanosecond once, waiting is the rest, and no single event lasts longer.\<close>

theorem critical_path_times:
  assumes "list_all interval_ordered events" "distinct (map ev_id events)"
    and "critical_path_of events es reported skewed causality_complete = Inr (Some cp)"
  shows "let spans = path_spans events (cr_event_ids cp);
      duration = Max (snd ` set spans) - Min (fst ` set spans); active = int (card (points spans)) in
    seconds duration = Inr (cr_duration_seconds cp) \<and> seconds active = Inr (cr_active_seconds cp) \<and>
    seconds (duration - active) = Inr (cr_waiting_seconds cp) \<and> active \<le> duration \<and>
    list_all (\<lambda>v. list_all (\<lambda>i. snd i - fst i \<le> duration) (event_span v)) events"
proof (rule critical_path_found [OF assms])
  fix best
  assume rep: "represents (path_intervals best) (path_spans events (cr_event_ids cp))" and ne: "path_spans events (cr_event_ids cp) \<noteq> []"
    and "\<And>v x. v \<in> set events \<Longrightarrow> x \<in> set (event_span v) \<Longrightarrow> snd x - fst x \<le> path_duration_ns best"
    and "seconds (path_duration_ns best) = Inr (cr_duration_seconds cp)" "seconds (active_ns best) = Inr (cr_active_seconds cp)"
      "seconds (path_duration_ns best - active_ns best) = Inr (cr_waiting_seconds cp)"
  with active_within_duration [OF rep ne] show ?thesis
    by (simp add: Let_def duration_hull [OF rep ne] active_points [OF rep] list_all_iff)
qed

text \<open>C31. The cycle flag is exact: it is set if and only if the recorded causal edges form a cycle.\<close>

theorem cycle_detected_iff_cyclic:
  assumes "list_all interval_ordered events" "distinct (map ev_id events)"
    and "critical_path_of events es reported skewed causality_complete = Inr (Some cp)"
  shows "cr_cycle_detected cp \<longleftrightarrow> \<not> acyclic (causal_edges events es)"
  by (rule critical_path_found [OF assms])

text \<open>A path is called observed only on complete evidence: the causal graph is acyclic and complete,
  the clocks are consistent, and every edge of the path has a fact of full confidence.\<close>

theorem observed_path_is_certain:
  assumes "list_all interval_ordered events" "distinct (map ev_id events)"
    and "critical_path_of events es reported skewed causality_complete = Inr (Some cp)"
    and "cr_certainty cp = lit ''observed''"
  shows "causality_complete \<and> \<not> skewed \<and> acyclic (causal_edges events es) \<and>
    list_all (\<lambda>(s, t). list_ex (\<lambda>(s', t', c). s' = s \<and> t' = t \<and> feq c (Fin 1)) es) (adjacent_pairs (cr_event_ids cp))"
proof (rule critical_path_found [OF assms(1-3)])
  fix confidences vs
  assume trav: "traverse (find (gr_confidence (build_graph (event_table events) es))) (adjacent_pairs (cr_event_ids cp)) = Inr confidences"
    and cycle: "cr_cycle_detected cp \<longleftrightarrow> \<not> acyclic (causal_edges events es)"
    and "cr_certainty cp = (if path_observed (length (event_table events)) skewed causality_complete (cr_cycle_detected cp) confidences vs
       then lit ''observed'' else lit ''inferred'')"
  then have sure: "list_all (\<lambda>c. feq c (Fin 1)) confidences" "causality_complete" "\<not> skewed" "\<not> cr_cycle_detected cp"
    using assms(4) by (auto simp: path_observed_def)
  have "list_ex (\<lambda>(s', t', c). s' = s \<and> t' = t \<and> feq c (Fin 1)) es"
    if st: "(s, t) \<in> set (adjacent_pairs (cr_event_ids cp))" for s t
  proof -
    obtain c where c: "c \<in> set confidences" "find (gr_confidence (build_graph (event_table events) es)) (s, t) = Inr c"
      using list_all2_left [OF trav [unfolded traverse_eq_Inr_iff] st] by blast
    then have "dget (gr_confidence (build_graph (event_table events) es)) (s, t) = Some c" by (simp split: option.splits)
    from confidence_of_fact [OF this] sure(1) c(1) show ?thesis by (fastforce simp: list_all_iff list_ex_iff)
  qed
  with cycle sure show ?thesis by (auto simp: list_all_iff)
qed

section \<open>Witnesses\<close>

definition example_stage :: "string \<Rightarrow> int \<Rightarrow> int \<Rightarrow> event" where
  "example_stage i s f = \<lparr>ev_id = lit i, ev_kind = lit ''stage'', ev_name = lit ''work'', ev_entity_id = None,
     ev_started_at_ns = Some s, ev_finished_at_ns = Some f, ev_clock_domain = Some (lit ''host''), ev_uncertainty_ns = None,
     ev_sequence = None, ev_attributes = []\<rparr>"

definition example_events :: "event list" where
  "example_events = [example_stage ''a'' 0 8, example_stage ''b'' 4 16]"

definition example_edge :: edge_value where
  "example_edge = (lit ''a'', lit ''b'', Fin 1)"

lemma example_events_ok: "list_all interval_ordered example_events" "list_all times_64 example_events"
  "distinct (map ev_id example_events)"
  by code_simp+

lemma example_path:
  obtains cp where "critical_path_of example_events [example_edge] None False True = Inr (Some cp)"
    "cr_certainty cp = lit ''observed''"
proof -
  have "(case critical_path_of example_events [example_edge] None False True of
      Inr (Some cp) \<Rightarrow> cr_certainty cp = lit ''observed'' | _ \<Rightarrow> False)" by code_simp
  with that show ?thesis by (auto split: sum.splits option.splits)
qed

theorem critical_path_exists_witness:
  "\<exists>cp. critical_path_of example_events [example_edge] None False True = Inr (Some cp)"
  using critical_path_exists [OF example_events_ok, of "[example_edge]" None False True]
  by (auto simp: example_events_def example_stage_def has_complete_interval_def)

theorem critical_path_is_simple_causal_path_witness:
  "\<exists>cp. critical_path_of example_events [example_edge] None False True = Inr (Some cp) \<and> distinct (cr_event_ids cp)"
proof -
  obtain cp where cp: "critical_path_of example_events [example_edge] None False True = Inr (Some cp)" by (rule example_path)
  from critical_path_is_simple_causal_path [OF example_events_ok(1,3) cp] cp show ?thesis by blast
qed

theorem critical_path_times_witness:
  "\<exists>cp x. critical_path_of example_events [example_edge] None False True = Inr (Some cp) \<and> seconds x = Inr (cr_active_seconds cp)"
proof -
  obtain cp where cp: "critical_path_of example_events [example_edge] None False True = Inr (Some cp)" by (rule example_path)
  from critical_path_times [OF example_events_ok(1,3) cp] cp show ?thesis unfolding Let_def by blast
qed

theorem cycle_detected_iff_cyclic_witness:
  "\<exists>cp. critical_path_of example_events [example_edge] None False True = Inr (Some cp) \<and>
    (cr_cycle_detected cp \<longleftrightarrow> \<not> acyclic (causal_edges example_events [example_edge]))"
proof -
  obtain cp where cp: "critical_path_of example_events [example_edge] None False True = Inr (Some cp)" by (rule example_path)
  from cycle_detected_iff_cyclic [OF example_events_ok(1,3) cp] cp show ?thesis by blast
qed

theorem observed_path_is_certain_witness:
  "acyclic (causal_edges example_events [example_edge])"
proof -
  obtain cp where cp: "critical_path_of example_events [example_edge] None False True = Inr (Some cp)"
    and sure: "cr_certainty cp = lit ''observed''" by (rule example_path)
  from observed_path_is_certain [OF example_events_ok(1,3) cp sure] show ?thesis by blast
qed

end
