(* ===== verification/Throughput.thy ===== *)
theory Throughput
  imports Lifecycle
begin

text \<open>
  \<open>batchscope/analysis/_lifecycle.py\<close>, second part: the throughput of the one progress series of
  a run. A Python set of identifiers is a list without repetition whose order no result depends
  on. \<open>lower\<close> is \<open>str.lower\<close>, a table of the Unicode database.
\<close>

section \<open>Parents and descendants\<close>

type_synonym parents = "(pystr, pystr list) dict"

definition parent_kind :: pystr where
  "parent_kind = lit ''parent''"

definition add_parent :: "causal_edge \<Rightarrow> parents \<Rightarrow> parents" where
  "add_parent e d =
     (if edge_kind e = parent_kind then
        let ps = dget_or d (edge_target e) [] in
        dset (edge_target e) (if edge_source e \<in> set ps then ps else ps @ [edge_source e]) d
      else d)"

definition parents_by_target :: "causal_edge list \<Rightarrow> parents" where
  "parents_by_target edges = fold add_parent edges []"

definition add_child :: "causal_edge \<Rightarrow> (pystr, pystr list) dict \<Rightarrow> (pystr, pystr list) dict" where
  "add_child e d =
     (if edge_kind e = parent_kind then dset (edge_source e) (dget_or d (edge_source e) [] @ [edge_target e]) d else d)"

definition children_by_parent :: "causal_edge list \<Rightarrow> (pystr, pystr list) dict" where
  "children_by_parent edges = fold add_child edges []"

text \<open>The loop over the children of one parent; the pending list has its last element first.\<close>

fun push_new :: "pystr list \<Rightarrow> pystr list \<times> pystr list \<Rightarrow> pystr list \<times> pystr list" where
  "push_new [] (seen, pending) = (seen, pending)"
| "push_new (c # cs) (seen, pending) =
     (if c \<in> set seen then push_new cs (seen, pending) else push_new cs (c # seen, c # pending))"

lemma push_new_seen: "set (fst (push_new cs (seen, pending))) = set seen \<union> set cs"
  by (induction cs arbitrary: seen pending) auto

lemma push_new_pending:
  "set (snd (push_new cs (seen, pending))) = set pending \<union> (set cs - set seen)"
  by (induction cs arbitrary: seen pending) auto

lemma push_new_same: "set cs \<subseteq> set seen \<Longrightarrow> push_new cs (seen, pending) = (seen, pending)"
  by (induction cs arbitrary: seen pending) auto

function descend :: "(pystr, pystr list) dict \<Rightarrow> pystr list \<Rightarrow> pystr list \<Rightarrow> pystr list" where
  "descend children seen [] = seen"
| "descend children seen (p # pending) =
     (case push_new (dget_or children p []) (seen, pending) of (seen', pending') \<Rightarrow> descend children seen' pending')"
  by pat_completeness auto
termination
proof (relation "measures [\<lambda>(children, seen, pending). card (set (concat (map snd children)) - set seen),
    \<lambda>(children, seen, pending). length pending]", goal_cases)
  case (2 children seen p pending seen' pending')
  let ?all = "set (concat (map snd children))" and ?cs = "dget_or children p []"
  have r: "push_new ?cs (seen, pending) = (seen', pending')" using 2 by simp
  show ?case
  proof (cases "set ?cs \<subseteq> set seen")
    case True
    then show ?thesis using r push_new_same [OF True, of pending] by simp
  next
    case False
    have "set ?cs \<subseteq> ?all" by (cases "dget children p") (auto simp: dget_or_def dest!: map_of_SomeD)
    moreover have "set seen' = set seen \<union> set ?cs" using push_new_seen [of ?cs seen pending] r by simp
    ultimately have "?all - set seen' \<subset> ?all - set seen" using False by auto
    then have "card (?all - set seen') < card (?all - set seen)" by (rule psubset_card_mono [rotated]) simp
    then show ?thesis by simp
  qed
qed simp

declare descend.simps(2) [simp del]

definition parent_descendants :: "pystr \<Rightarrow> causal_edge list \<Rightarrow> pystr list" where
  "parent_descendants i edges = descend (children_by_parent edges) [i] [i]"

text \<open>The runs above an event, and the one run above all of the given events.\<close>

function climb :: "(pystr, event) dict \<Rightarrow> parents \<Rightarrow> pystr list \<Rightarrow> pystr list \<Rightarrow> pystr list \<Rightarrow> pystr list" where
  "climb table ps seen found [] = found"
| "climb table ps seen found (a # pending) =
     (if a \<in> set seen then climb table ps seen found pending
      else (case dget table a of
          None \<Rightarrow> climb table ps (a # seen) found pending
        | Some v \<Rightarrow> climb table ps (a # seen) (if ev_kind v = lit ''run'' then a # found else found) (dget_or ps a [] @ pending)))"
  by pat_completeness auto
termination
proof (relation "measures [\<lambda>(table, ps, seen, found, pending). card (fst ` set ps - set seen),
    \<lambda>(table, ps, seen, found, pending). length pending]", goal_cases)
  case (3 table ps seen found a pending)
  have "card (fst ` set ps - set (a # seen)) \<le> card (fst ` set ps - set seen)" by (rule card_mono) auto
  then show ?case by (auto simp: le_less)
next
  case (4 table ps seen found a pending v)
  show ?case
  proof (cases "a \<in> fst ` set ps")
    case True
    with 4 have "fst ` set ps - set (a # seen) \<subset> fst ` set ps - set seen" by auto
    then have "card (fst ` set ps - set (a # seen)) < card (fst ` set ps - set seen)" by (rule psubset_card_mono [rotated]) simp
    then show ?thesis by simp
  next
    case False
    then have "dget_or ps a [] = []" by (simp add: dget_or_def map_of_eq_None_iff [THEN iffD2])
    moreover have "card (fst ` set ps - set (a # seen)) \<le> card (fst ` set ps - set seen)" by (rule card_mono) auto
    ultimately show ?thesis by (auto simp: le_less)
  qed
qed auto

definition run_ancestors :: "(pystr, event) dict \<Rightarrow> parents \<Rightarrow> pystr \<Rightarrow> pystr list" where
  "run_ancestors table ps i = climb table ps [i] [] (dget_or ps i [])"

fun common_elements :: "pystr list list \<Rightarrow> pystr list" where
  "common_elements [] = []"
| "common_elements [a] = a"
| "common_elements (a # b # rest) = common_elements (filter (\<lambda>x. x \<in> set b) a # rest)"

definition common_parent_run :: "pystr list \<Rightarrow> event list \<Rightarrow> parents \<Rightarrow> event option" where
  "common_parent_run ids events ps =
     (let table = event_table events in
      case remdups (common_elements (map (run_ancestors table ps) ids)) of
        [r] \<Rightarrow> (case dget table r of
             Some v \<Rightarrow> if ev_finished_at_ns v = None then None else Some v
           | None \<Rightarrow> None)
      | _ \<Rightarrow> None)"

section \<open>Progress samples\<close>

record sample =
  sm_timestamp_ns :: int
  sm_uncertainty_ns :: "int option"
  sm_sequence :: "int option"
  sm_completed :: pyfloat
  sm_total :: pyfloat

text \<open>\<open>float(v)\<close> of a number that is not a boolean, \<open>None\<close> when it is not represented exactly.\<close>

fun exact_float :: "json \<Rightarrow> pyfloat option" where
  "exact_float (JInt n) = (if rnd (of_int n) = Fin (of_int n) then Some (Fin (of_int n)) else None)"
| "exact_float (JFloat x) = Some x"
| "exact_float _ = None"

definition progress_values :: "json option \<Rightarrow> json option \<Rightarrow> (pyfloat \<times> pyfloat) option" where
  "progress_values done whole =
     (case (Option.bind done exact_float, Option.bind whole exact_float) of
        (Some x, Some y) \<Rightarrow> if isfinite x \<and> isfinite y \<and> fle (Fin 0) x \<and> fle x y then Some (x, y) else None
      | _ \<Rightarrow> None)"

definition or_zero :: "int option \<Rightarrow> int" where
  "or_zero x = (case x of None \<Rightarrow> 0 | Some n \<Rightarrow> n)"

definition timestamps_establish_order :: "sample list \<Rightarrow> bool" where
  "timestamps_establish_order samples \<longleftrightarrow>
     list_all (\<lambda>(p, c). sm_timestamp_ns p + or_zero (sm_uncertainty_ns p) < sm_timestamp_ns c - or_zero (sm_uncertainty_ns c))
       (adjacent_pairs samples)"

text \<open>The samples of one timestamp are merged if they agree; \<open>None\<close> when they do not.\<close>

fun merge_samples :: "sample list \<Rightarrow> (int, sample) dict \<Rightarrow> (int, sample) dict option" where
  "merge_samples [] d = Some d"
| "merge_samples (s # ss) d =
     (case dget d (sm_timestamp_ns s) of
        None \<Rightarrow> merge_samples ss (dset (sm_timestamp_ns s) s d)
      | Some p \<Rightarrow>
          if \<not> (feq (sm_completed p) (sm_completed s) \<and> feq (sm_total p) (sm_total s)) then None
          else merge_samples ss (dset (sm_timestamp_ns s)
            \<lparr>sm_timestamp_ns = sm_timestamp_ns s,
             sm_uncertainty_ns = Some (max (or_zero (sm_uncertainty_ns p)) (or_zero (sm_uncertainty_ns s))),
             sm_sequence = None, sm_completed = sm_completed s, sm_total = sm_total s\<rparr> d))"

definition ordered_progress_samples :: "bool \<Rightarrow> sample list \<Rightarrow> sample list option" where
  "ordered_progress_samples use_sequence samples =
     (if use_sequence \<and> list_all (\<lambda>s. sm_sequence s \<noteq> None) samples \<and> distinct (map sm_sequence samples)
      then Some (sort_key (\<lambda>s. or_zero (sm_sequence s)) samples)
      else (case merge_samples samples [] of
          None \<Rightarrow> None
        | Some d \<Rightarrow>
            let ordered = map snd (sort_key fst d) in
            if timestamps_establish_order ordered then Some ordered else None))"

definition finite_ratio :: "pyfloat \<Rightarrow> pyfloat option \<Rightarrow> pyfloat option res" where
  "finite_ratio numerator denominator = (case denominator of
     None \<Rightarrow> Inr None
   | Some d \<Rightarrow>
       if fle numerator (Fin 0) \<or> fle d (Fin 0) then Inr None
       else rbind (fdiv numerator d) (\<lambda>r. Inr (if isfinite r then Some r else None)))"

definition sample_rate :: "sample list \<Rightarrow> pyfloat option res" where
  "sample_rate samples =
     (if length samples < 2 then Inr None
      else if list_ex (\<lambda>s. \<not> feq (sm_total s) (sm_total (hd samples))) (tl samples) then Inr None
      else if list_ex (\<lambda>(p, c). flt (sm_completed c) (sm_completed p)) (adjacent_pairs samples) then Inr None
      else if \<not> timestamps_establish_order samples then Inr None
      else rbind (seconds (sm_timestamp_ns (last samples) - sm_timestamp_ns (hd samples))) (\<lambda>elapsed.
        finite_ratio (fsub (sm_completed (last samples)) (sm_completed (hd samples))) (Some elapsed)))"

section \<open>Throughput\<close>

record throughput =
  tp_completed :: pyfloat
  tp_total :: pyfloat
  tp_rate_per_second :: "pyfloat option"
  tp_remaining :: pyfloat
  tp_estimated_drain_seconds :: "pyfloat option"
  tp_compute_finished_at_ns :: "int option"
  tp_remaining_at_compute_completion :: "pyfloat option"
  tp_post_compute_seconds :: "pyfloat option"
  tp_post_compute_rate_per_second :: "pyfloat option"

text \<open>\<open>x or default\<close> for an optional string.\<close>

definition text_or :: "pystr \<Rightarrow> pystr option \<Rightarrow> pystr" where
  "text_or d x = (case x of None \<Rightarrow> d | Some s \<Rightarrow> if s = [] then d else s)"

text \<open>The series of a progress event; \<open>None\<close> when it has several parents.\<close>

definition series_of :: "parents \<Rightarrow> event \<Rightarrow> (pystr \<times> pystr) option" where
  "series_of ps v =
     (let by_parent = (case dget_or ps (ev_id v) [] of
            [] \<Rightarrow> Some (lit ''entity'', text_or (lit ''unowned'') (ev_entity_id v))
          | [p] \<Rightarrow> Some (lit ''parent'', p)
          | _ \<Rightarrow> None)
      in (case dget (ev_attributes v) (lit ''series'') of
            Some (JStr s) \<Rightarrow> if s \<noteq> [] then Some (lit ''series'', s) else by_parent
          | _ \<Rightarrow> by_parent))"

definition progress_sample :: "event \<Rightarrow> sample option" where
  "progress_sample v =
     (if ev_kind v \<noteq> lit ''progress'' then None
      else (case (ev_started_at_ns v, progress_values (dget (ev_attributes v) (lit ''completed'')) (dget (ev_attributes v) (lit ''total''))) of
          (Some t, Some (x, y)) \<Rightarrow> Some \<lparr>sm_timestamp_ns = t, sm_uncertainty_ns = ev_uncertainty_ns v,
             sm_sequence = ev_sequence v, sm_completed = x, sm_total = y\<rparr>
        | _ \<Rightarrow> None))"

text \<open>The events of the only series with their samples; \<open>None\<close> when there is not exactly one series.\<close>

definition single_series :: "event list \<Rightarrow> parents \<Rightarrow> ((pystr \<times> pystr) \<times> event list \<times> sample list) option" where
  "single_series events ps =
     (let progress = filter (\<lambda>v. progress_sample v \<noteq> None) events;
          series = map (series_of ps) progress
      in if None \<in> set series then None
         else (case remdups series of
             [Some s] \<Rightarrow> Some (s, progress, List.map_filter progress_sample progress)
           | _ \<Rightarrow> None))"

text \<open>The events of the series, if they are known, and the time at which it finished.\<close>

definition series_scope ::
  "pystr \<times> pystr \<Rightarrow> event list \<Rightarrow> causal_edge list \<Rightarrow> event list \<Rightarrow> int option \<Rightarrow> pystr list option \<times> int option" where
  "series_scope series events edges progress execution_finished =
     (if fst series = lit ''parent'' then
        (Some (parent_descendants (snd series) edges),
         (case List.find (\<lambda>v. ev_id v = snd series) events of
            None \<Rightarrow> execution_finished
          | Some v \<Rightarrow> if ev_finished_at_ns v = None then execution_finished else ev_finished_at_ns v))
      else (case common_parent_run (map ev_id progress) events (parents_by_target edges) of
          None \<Rightarrow> (None, execution_finished)
        | Some run \<Rightarrow> (Some (parent_descendants (ev_id run) edges), ev_finished_at_ns run)))"

definition is_compute :: "(pystr \<Rightarrow> pystr) \<Rightarrow> event \<Rightarrow> bool" where
  "is_compute lower v \<longleftrightarrow> has_substring (lit ''compute'') (lower (ev_name v)) \<or>
     dget (ev_attributes v) (lit ''phase'') = Some (JStr (lit ''compute'')) \<or>
     dget (ev_attributes v) (lit ''phase'') = Some (JStr (lit ''executing''))"

definition compute_finishes ::
  "(pystr \<Rightarrow> pystr) \<Rightarrow> event list \<Rightarrow> pystr option \<Rightarrow> pystr option list \<Rightarrow> pystr list option \<Rightarrow> int list" where
  "compute_finishes lower events domain entities scope = List.map_filter (\<lambda>v.
     if ev_kind v = lit ''stage'' \<and> domain \<noteq> None \<and> ev_clock_domain v = domain \<and>
        length (remdups entities) = 1 \<and> ev_entity_id v \<in> set entities \<and>
        (case scope of None \<Rightarrow> True | Some ids \<Rightarrow> ev_id v \<in> set ids) \<and> is_compute lower v
     then ev_finished_at_ns v else None) events"

definition max_option :: "int list \<Rightarrow> int option" where
  "max_option xs = (if xs = [] then None else Some (Max (set xs)))"

text \<open>The facts after the end of the computation: what remained, how long the drain took and its rate.\<close>

definition after_compute ::
  "sample list \<Rightarrow> int option \<Rightarrow> int option \<Rightarrow> (pyfloat option \<times> pyfloat option \<times> pyfloat option) res" where
  "after_compute samples series_finished compute = (case compute of
     None \<Rightarrow> Inr (None, None, None)
   | Some c \<Rightarrow>
       let before = filter (\<lambda>s. sm_timestamp_ns s \<le> c) samples;
           left = (if before = [] then None
             else Some (fmax (Fin 0) (fsub (sm_total (last before)) (sm_completed (last before))))) in
       rbind (case series_finished of
           None \<Rightarrow> Inr None
         | Some f \<Rightarrow> rbind (seconds (f - c)) (\<lambda>x. Inr (Some (fmax (Fin 0) x)))) (\<lambda>post.
       rbind (sample_rate (filter (\<lambda>s. c \<le> sm_timestamp_ns s) samples)) (\<lambda>rate. Inr (left, post, rate))))"

definition throughput_of ::
  "(pystr \<Rightarrow> pystr) \<Rightarrow> event list \<Rightarrow> causal_edge list \<Rightarrow> int option \<Rightarrow> throughput option res" where
  "throughput_of lower events edges execution_finished =
     (case single_series events (parents_by_target edges) of
        None \<Rightarrow> Inr None
      | Some (series, progress, samples) \<Rightarrow>
          let domains = remdups (map ev_clock_domain progress); entities = remdups (map ev_entity_id progress) in
          if length domains \<noteq> 1 then Inr None
          else (case ordered_progress_samples (length entities = 1 \<and> None \<notin> set entities) samples of
              None \<Rightarrow> Inr None
            | Some ordered \<Rightarrow>
                rbind (sample_rate ordered) (\<lambda>rate.
                let latest = last ordered;
                    remaining = fmax (Fin 0) (fsub (sm_total latest) (sm_completed latest));
                    (scope, finished) = series_scope series events edges progress execution_finished;
                    compute = max_option (compute_finishes lower events (hd domains) entities scope) in
                rbind (after_compute ordered finished compute) (\<lambda>(left, post, post_rate).
                rbind (if feq remaining (Fin 0) then Inr (Some (Fin 0)) else finite_ratio remaining rate) (\<lambda>drain.
                Inr (Some \<lparr>tp_completed = sm_completed latest, tp_total = sm_total latest, tp_rate_per_second = rate,
                  tp_remaining = remaining, tp_estimated_drain_seconds = drain, tp_compute_finished_at_ns = compute,
                  tp_remaining_at_compute_completion = left, tp_post_compute_seconds = post,
                  tp_post_compute_rate_per_second = post_rate\<rparr>))))))"

end
