(* ===== verification/Bottlenecks.thy ===== *)
theory Bottlenecks
  imports Throughput
begin

text \<open>
  \<open>batchscope/analysis/_lifecycle.py\<close>, third part: the phases of a batch run, from its own stages
  or from the Kubernetes workload that is tied to it, and the bottlenecks that its events show.
\<close>

section \<open>The Kubernetes workload\<close>

definition of_kind :: "string \<Rightarrow> event list \<Rightarrow> event list" where
  "of_kind k = filter (\<lambda>v. ev_kind v = lit k)"

definition edge_targets :: "string \<Rightarrow> (pystr \<Rightarrow> bool) \<Rightarrow> causal_edge list \<Rightarrow> pystr list" where
  "edge_targets k from_ok edges = map edge_target (filter (\<lambda>e. edge_kind e = lit k \<and> from_ok (edge_source e)) edges)"

definition correlated_jobs :: "causal_edge list \<Rightarrow> pystr list" where
  "correlated_jobs edges =
     (let pods = map edge_source (filter (\<lambda>e. edge_kind e = lit ''correlates'') edges)
      in remdups (map edge_source (filter (\<lambda>e. edge_kind e = lit ''owns'' \<and> edge_target e \<in> set pods) edges)))"

text \<open>The job of the run: the only correlated one, or the only one there is.\<close>

definition selected_job :: "event list \<Rightarrow> causal_edge list \<Rightarrow> pystr option" where
  "selected_job jobs edges = (case correlated_jobs edges of
     [j] \<Rightarrow> Some j
   | [] \<Rightarrow> (case jobs of [v] \<Rightarrow> Some (ev_id v) | _ \<Rightarrow> None)
   | _ \<Rightarrow> None)"

definition kubernetes_workload_events ::
  "event list \<Rightarrow> causal_edge list \<Rightarrow> event list \<times> event list \<times> event list" where
  "kubernetes_workload_events events edges =
     (let jobs = of_kind ''workload.job'' events; pods = of_kind ''workload.pod'' events;
          containers = of_kind ''workload.container'' events in
      if jobs = [] \<or> pods = [] then (jobs, pods, containers)
      else (case selected_job jobs edges of
          None \<Rightarrow> ([], [], [])
        | Some j \<Rightarrow>
            let pod_ids = edge_targets ''owns'' (\<lambda>s. s = j) edges in
            if pod_ids = [] then ([], [], [])
            else
              let own_pods = filter (\<lambda>v. ev_id v \<in> set pod_ids) pods;
                  container_ids = edge_targets ''contains'' (\<lambda>s. s \<in> ev_id ` set own_pods) edges in
              (filter (\<lambda>v. ev_id v = j) jobs, own_pods, filter (\<lambda>v. ev_id v \<in> set container_ids) containers)))"

definition complete_cohort_start :: "event list \<Rightarrow> int option" where
  "complete_cohort_start events =
     (let starts = List.map_filter ev_started_at_ns events in
      if length starts = length events \<and> starts \<noteq> [] then Some (Min (set starts)) else None)"

definition complete_cohort_finish :: "event list \<Rightarrow> int option" where
  "complete_cohort_finish events =
     (let finishes = List.map_filter ev_finished_at_ns events in
      if length finishes = length events \<and> finishes \<noteq> [] then Some (Max (set finishes)) else None)"

section \<open>Phases\<close>

record lifecycle_phase =
  ph_name :: pystr
  ph_duration_seconds :: pyfloat
  ph_source :: pystr

definition complete_stage_ids :: "event list \<Rightarrow> pystr list" where
  "complete_stage_ids events = map ev_id (filter (\<lambda>v. ev_kind v = lit ''stage'' \<and> 0 < duration_ns v) events)"

definition nested_stage_ids :: "pystr list \<Rightarrow> causal_edge list \<Rightarrow> pystr list" where
  "nested_stage_ids stages edges = map edge_target (filter (\<lambda>e. edge_kind e = parent_kind \<and>
     edge_source e \<in> set stages \<and> edge_target e \<in> set stages) edges)"

definition explicit_phases :: "event list \<Rightarrow> causal_edge list \<Rightarrow> lifecycle_phase list res" where
  "explicit_phases events edges =
     (let stages = complete_stage_ids events; nested = nested_stage_ids stages edges in
      traverse (\<lambda>v. rbind (seconds (duration_ns v)) (\<lambda>x.
          Inr \<lparr>ph_name = ev_name v, ph_duration_seconds = x, ph_source = lit ''explicit''\<rparr>))
        (filter (\<lambda>v. ev_id v \<in> set stages \<and> ev_id v \<notin> set nested) events))"

text \<open>The phases between the known boundaries that lie in order.\<close>

fun bounded_phases :: "(string \<times> int option \<times> int option) list \<Rightarrow> lifecycle_phase list res" where
  "bounded_phases [] = Inr []"
| "bounded_phases ((name, start, finish) # rest) = (case (start, finish) of
     (Some s, Some f) \<Rightarrow>
       if s < f then
         rbind (seconds (f - s)) (\<lambda>x. rbind (bounded_phases rest) (\<lambda>ps.
         Inr (\<lparr>ph_name = lit name, ph_duration_seconds = x, ph_source = lit ''derived''\<rparr> # ps)))
       else bounded_phases rest
   | _ \<Rightarrow> bounded_phases rest)"

definition workload_boundaries :: "event list \<Rightarrow> event list \<Rightarrow> event list \<Rightarrow> (string \<times> int option \<times> int option) list" where
  "workload_boundaries jobs pods containers =
     [(''provisioning'', complete_cohort_start jobs, complete_cohort_start pods),
      (''starting'', complete_cohort_start pods, complete_cohort_start containers),
      (''executing'', complete_cohort_start containers, complete_cohort_finish containers),
      (''cleanup'', complete_cohort_finish containers, complete_cohort_finish jobs)]"

definition lifecycle_phases :: "event list \<Rightarrow> causal_edge list \<Rightarrow> pyfloat option \<Rightarrow> lifecycle_phase list res" where
  "lifecycle_phases events edges reported =
     rbind (explicit_phases events edges) (\<lambda>explicit.
     if explicit \<noteq> [] then Inr explicit
     else (case kubernetes_workload_events events edges of (jobs, pods, containers) \<Rightarrow>
       if jobs \<noteq> [] \<and> pods \<noteq> [] then bounded_phases (workload_boundaries jobs pods containers)
       else Inr (case reported of
           None \<Rightarrow> []
         | Some t \<Rightarrow> [\<lparr>ph_name = lit ''executing'', ph_duration_seconds = t, ph_source = lit ''derived''\<rparr>])))"

section \<open>Bottlenecks\<close>

record bottleneck =
  bn_classification :: pystr
  bn_evidence :: pystr
  bn_confidence :: pyfloat

definition bottleneck_of :: "string \<Rightarrow> pystr list \<Rightarrow> rat \<Rightarrow> bottleneck" where
  "bottleneck_of k evidence_parts confidence =
     \<lparr>bn_classification = lit k, bn_evidence = cat evidence_parts, bn_confidence = rnd confidence\<rparr>"

text \<open>The events the selected workload emitted; \<open>None\<close> when no workload restricts them.\<close>

definition selected_kubernetes_emitted_event_ids :: "event list \<Rightarrow> causal_edge list \<Rightarrow> pystr list option" where
  "selected_kubernetes_emitted_event_ids events edges =
     (case kubernetes_workload_events events edges of (jobs, pods, containers) \<Rightarrow>
       if jobs = [] \<or> pods = [] then
         (if of_kind ''workload.job'' events = [] \<or> of_kind ''workload.pod'' events = [] then None else Some [])
       else Some (edge_targets ''emits'' (\<lambda>s. s \<in> ev_id ` set (jobs @ pods @ containers)) edges))"

definition failed_scheduling_count :: "event list \<Rightarrow> causal_edge list \<Rightarrow> nat" where
  "failed_scheduling_count events edges =
     (let selected = selected_kubernetes_emitted_event_ids events edges in
      length (filter (\<lambda>v. ev_kind v = lit ''kubernetes.event'' \<and> ev_name v = lit ''FailedScheduling'' \<and>
        (case selected of None \<Rightarrow> True | Some ids \<Rightarrow> ev_id v \<in> set ids)) events))"

definition capacity_starvation :: "event list \<Rightarrow> causal_edge list \<Rightarrow> bottleneck list" where
  "capacity_starvation events edges =
     (let n = failed_scheduling_count events edges in
      if n = 0 then []
      else [bottleneck_of ''capacity_starvation''
        [int_text (int n), lit '' Kubernetes FailedScheduling '', lit (if n = 1 then ''event'' else ''events''), lit '' '',
         lit (if n = 1 then ''indicates'' else ''indicate''), lit '' placement failure''] (85 / 100)])"

text \<open>
  The breadth-first search for the nearest run above an event: whether one was found, and the length of
  the only one. A parent that is no event is a \<open>KeyError\<close>.
\<close>

definition new_parents :: "parents \<Rightarrow> pystr list \<Rightarrow> pystr list \<Rightarrow> pystr list" where
  "new_parents ps seen frontier = remdups (filter (\<lambda>p. p \<notin> set seen) (concat (map (\<lambda>c. dget_or ps c []) frontier)))"

lemma new_parents_fresh:
  "set (new_parents ps seen frontier) \<subseteq> set (concat (map snd ps)) - set seen"
proof -
  have "set (dget_or ps c []) \<subseteq> set (concat (map snd ps))" for c
    by (cases "dget ps c") (auto simp: dget_or_def dest!: map_of_SomeD)
  then show ?thesis by (force simp: new_parents_def)
qed

function run_window ::
  "(pystr, event) dict \<Rightarrow> parents \<Rightarrow> pystr list \<Rightarrow> pystr list \<Rightarrow> (bool \<times> pyfloat option) res" where
  "run_window table ps seen frontier =
     (let parents = new_parents ps seen frontier in
      if parents = [] then Inr (False, None)
      else rbind (traverse (find table) parents) (\<lambda>vs.
        (case of_kind ''run'' vs of
           [] \<Rightarrow> run_window table ps (seen @ parents) parents
         | [v] \<Rightarrow> if \<not> has_complete_interval v then Inr (True, None)
             else rbind (seconds (duration_ns v)) (\<lambda>x. Inr (True, Some x))
         | _ \<Rightarrow> Inr (True, None))))"
  by pat_completeness auto
termination
proof (relation "measure (\<lambda>(table, ps, seen, frontier). card (set (concat (map snd ps)) - set seen))", goal_cases)
  case (2 table ps seen frontier parents vs)
  then have "parents \<noteq> []" by simp
  then have "hd parents \<in> set parents" by (rule hd_in_set)
  moreover have "set parents \<subseteq> set (concat (map snd ps)) - set seen" using new_parents_fresh 2(1) by simp
  ultimately have "set (concat (map snd ps)) - set (seen @ parents) \<subset> set (concat (map snd ps)) - set seen"
    by (simp del: set_concat) blast
  then have "card (set (concat (map snd ps)) - set (seen @ parents)) < card (set (concat (map snd ps)) - set seen)"
    by (rule psubset_card_mono [rotated]) simp
  then show ?case by simp
qed simp

declare run_window.simps [simp del]

definition causal_run_window :: "pystr \<Rightarrow> (pystr, event) dict \<Rightarrow> parents \<Rightarrow> (bool \<times> pyfloat option) res" where
  "causal_run_window i table ps = run_window table ps [i] [i]"

section \<open>Serialized stages\<close>

text \<open>\<open>concurrency\<close> is the number one and no boolean.\<close>

definition is_serial :: "event \<Rightarrow> bool" where
  "is_serial v \<longleftrightarrow> ev_kind v = lit ''stage'' \<and> (case dget (ev_attributes v) (lit ''concurrency'') of
     Some (JInt n) \<Rightarrow> n = 1 | Some (JFloat x) \<Rightarrow> feq x (Fin 1) | _ \<Rightarrow> False)"

definition min_or :: "pyfloat \<Rightarrow> pyfloat list \<Rightarrow> pyfloat" where
  "min_or d xs = (case xs of [] \<Rightarrow> d | y # ys \<Rightarrow> fold (\<lambda>x m. if flt x m then x else m) ys y)"

definition enclosing_run_durations :: "event list \<Rightarrow> event \<Rightarrow> pyfloat list res" where
  "enclosing_run_durations events v =
     rbind (traverse event_interval (filter (\<lambda>r. ev_kind r = lit ''run'' \<and> has_complete_interval r) events)) (\<lambda>runs.
     traverse (\<lambda>(s, f). seconds (f - s))
       (case (ev_started_at_ns v, ev_finished_at_ns v) of
          (Some a, Some b) \<Rightarrow> filter (\<lambda>(s, f). s \<le> a \<and> b \<le> f) runs | _ \<Rightarrow> []))"

definition serialized_stage ::
  "event list \<Rightarrow> (pystr, event) dict \<Rightarrow> parents \<Rightarrow> pyfloat \<Rightarrow> event \<Rightarrow> bottleneck list res" where
  "serialized_stage events table ps reported v =
     (if \<not> is_serial v then Inr []
      else rbind (seconds (duration_ns v)) (\<lambda>duration.
        rbind (causal_run_window (ev_id v) table ps) (\<lambda>(run_found, window).
        if run_found \<and> window = None then Inr []
        else rbind (case window of
            Some w \<Rightarrow> Inr w
          | None \<Rightarrow> rbind (enclosing_run_durations events v) (\<lambda>xs. Inr (min_or reported xs))) (\<lambda>w.
          if \<not> flt (Fin 0) w then Inr []
          else rbind (fdiv duration w) (\<lambda>share.
            Inr (if fle (Fin (1 / 4)) share
                 then [bottleneck_of ''serialized_stage''
                   [ev_name v, lit '' ran at concurrency 1 for '', fmt_fixed 3 duration, lit ''s''] (9 / 10)]
                 else []))))))"

section \<open>Client operations on the critical path\<close>

definition external_dependency :: "event list \<Rightarrow> critical_path option \<Rightarrow> bottleneck list res" where
  "external_dependency events critical =
     rbind (traverse event_interval (filter (\<lambda>v.
        ev_id v \<in> set (case critical of None \<Rightarrow> [] | Some c \<Rightarrow> cr_event_ids c) \<and>
        ev_kind v = lit ''client.request'' \<and> 0 < duration_ns v) events)) (\<lambda>intervals.
     rbind (seconds (sum_list (map (\<lambda>(s, f). f - s) (merge_intervals intervals)))) (\<lambda>client.
     (case critical of
        None \<Rightarrow> Inr []
      | Some c \<Rightarrow>
          if \<not> flt (Fin 0) (cr_duration_seconds c) then Inr []
          else rbind (fdiv client (cr_duration_seconds c)) (\<lambda>share.
            Inr (if fle (Fin (1 / 2)) share
                 then [bottleneck_of ''external_dependency''
                   [if cr_certainty c = lit ''inferred'' then lit ''inferred '' else [],
                    lit ''client operations occupy '', fmt_fixed 3 client, lit ''s of a '',
                    fmt_fixed 3 (cr_duration_seconds c), lit ''s critical path'']
                   (if cr_certainty c = lit ''observed'' then 3 / 4 else 1 / 2)]
                 else [])))))"

section \<open>Queue waits\<close>

definition text_attribute :: "string \<Rightarrow> event \<Rightarrow> pystr \<Rightarrow> pystr" where
  "text_attribute k v d = (case dget (ev_attributes v) (lit k) of Some (JStr s) \<Rightarrow> s | _ \<Rightarrow> d)"

definition queue_candidate ::
  "(pystr, event) dict \<Rightarrow> parents \<Rightarrow> pyfloat \<Rightarrow> event \<Rightarrow> (pyfloat \<times> pystr \<times> pyfloat) list res" where
  "queue_candidate table ps reported v =
     (if ev_kind v \<noteq> lit ''queue.wait'' \<or> \<not> has_complete_interval v then Inr []
      else rbind (seconds (duration_ns v)) (\<lambda>duration.
        rbind (causal_run_window (ev_id v) table ps) (\<lambda>(run_found, window).
        if run_found \<and> window = None then Inr []
        else let w = (case window of None \<Rightarrow> reported | Some x \<Rightarrow> x) in
          if fle w (Fin 0) then Inr []
          else rbind (fdiv duration w) (\<lambda>ratio.
            Inr (if flt ratio (Fin (1 / 4)) then []
                 else [(ratio, text_attribute ''temporal.activity_type'' v (ev_name v), duration)])))))"

definition queue_wait :: "event list \<Rightarrow> (pystr, event) dict \<Rightarrow> parents \<Rightarrow> pyfloat \<Rightarrow> bottleneck list res" where
  "queue_wait events table ps reported =
     rbind (traverse (queue_candidate table ps reported) events) (\<lambda>found.
     Inr (case concat found of
        [] \<Rightarrow> []
      | c # cs \<Rightarrow> (case max_by (\<lambda>(r, n, d). (float_key r, n, float_key d)) c cs of (ratio, name, duration) \<Rightarrow>
          [bottleneck_of ''queue_wait''
             [name, lit '' waited '', fmt_fixed 3 duration, lit ''s in queue ('', fmt_percent ratio, lit '' of its run)''] (9 / 10)])))"

section \<open>Retries\<close>

definition retry_candidate :: "event \<Rightarrow> (int \<times> pystr \<times> pystr) option" where
  "retry_candidate v =
     (if ev_kind v \<noteq> lit ''temporal.activity'' then None
      else (case dget (ev_attributes v) (lit ''temporal.attempt'') of
          Some (JInt n) \<Rightarrow> if n \<le> 1 then None
            else Some (n, ev_name v, text_attribute ''temporal.outcome'' v (lit ''started''))
        | _ \<Rightarrow> None))"

definition retry_amplification :: "event list \<Rightarrow> bottleneck list" where
  "retry_amplification events = (case List.map_filter retry_candidate events of
     [] \<Rightarrow> []
   | c # cs \<Rightarrow> (case max_by (\<lambda>x. x) c cs of (attempt, name, state) \<Rightarrow>
       [bottleneck_of ''retry_amplification''
          [name, lit '' '', state, lit '' on Temporal attempt '', int_text attempt] (9 / 10)]))"

section \<open>Stragglers\<close>

definition cohort_key :: "event \<Rightarrow> pystr \<times> pystr \<times> pystr" where
  "cohort_key v = (ev_kind v, ev_name v,
     text_or (lit ''entity:'' @ text_or (lit ''unowned'') (ev_entity_id v)) (ev_clock_domain v))"

definition cohorts :: "event list \<Rightarrow> (pystr \<times> pystr \<times> pystr, event list) dict" where
  "cohorts events = fold (\<lambda>v d. dset (cohort_key v) (dget_or d (cohort_key v) [] @ [v]) d)
     (filter (\<lambda>v. ev_kind v \<in> set [lit ''operation'', lit ''message.consume'', lit ''server.request''] \<and>
        has_complete_interval v) events) []"

text \<open>\<open>statistics.median\<close> of a list that is not empty.\<close>

definition median_of :: "pyfloat list \<Rightarrow> pyfloat res" where
  "median_of xs =
     (let ys = sort_key float_key xs; n = length ys; i = n div 2 in
      if n mod 2 = 1 then Inr (ys ! i) else fdiv (fadd (ys ! (i - 1)) (ys ! i)) (Fin 2))"

definition straggler_candidate ::
  "pyfloat \<Rightarrow> (pystr \<times> pystr \<times> pystr) \<times> event list \<Rightarrow> (pyfloat \<times> pystr \<times> pyfloat \<times> pyfloat \<times> int) list res" where
  "straggler_candidate reported = (\<lambda>((_, name, _), cohort).
     if length cohort < 5 then Inr []
     else
       let starts = List.map_filter ev_started_at_ns cohort; tenth = fmul reported (rnd (1 / 10)) in
       rbind (seconds (Max (set starts) - Min (set starts))) (\<lambda>spread.
       if flt tenth spread then Inr []
       else rbind (traverse (\<lambda>v. seconds (duration_ns v)) cohort) (\<lambda>durations.
         rbind (median_of durations) (\<lambda>typical.
         let longest = max_by float_key (hd durations) (tl durations); excess = fsub longest typical in
         Inr (if fle typical (Fin 0) \<or> flt longest (fmul typical (Fin (5 / 2))) \<or> flt excess tenth then []
              else [(excess, name, longest, typical, int (length cohort))])))))"

definition straggler_tail :: "event list \<Rightarrow> pyfloat \<Rightarrow> bottleneck list res" where
  "straggler_tail events reported =
     rbind (traverse (straggler_candidate reported) (cohorts events)) (\<lambda>found.
     Inr (case concat found of
        [] \<Rightarrow> []
      | c # cs \<Rightarrow> (case max_by (\<lambda>(e, n, l, t, k). (float_key e, n, float_key l, float_key t, k)) c cs of
          (_, name, longest, typical, n) \<Rightarrow>
            [bottleneck_of ''straggler_tail''
               [name, lit '' max duration '', fmt_fixed 3 longest, lit ''s versus '', fmt_fixed 3 typical,
                lit ''s median across '', int_text n, lit '' operations''] (4 / 5)])))"

section \<open>All bottlenecks\<close>

definition bottlenecks ::
  "event list \<Rightarrow> causal_edge list \<Rightarrow> critical_path option \<Rightarrow> pyfloat option \<Rightarrow> bottleneck list res" where
  "bottlenecks events edges critical reported = (case reported of
     None \<Rightarrow> Inr []
   | Some t \<Rightarrow>
       if fle t (Fin 0) then Inr []
       else
         let table = event_table events; ps = parents_by_target edges in
         rbind (traverse (serialized_stage events table ps t) events) (\<lambda>serialized.
         rbind (external_dependency events critical) (\<lambda>external.
         rbind (queue_wait events table ps t) (\<lambda>queued.
         rbind (straggler_tail events t) (\<lambda>stragglers.
         Inr (capacity_starvation events edges @ concat serialized @ external @ queued @
              retry_amplification events @ stragglers))))))"

end
