(* ===== verification/LifecycleFacts.thy ===== *)
theory LifecycleFacts
  imports Bottlenecks
begin

text \<open>
  Properties of the facts of \<open>Throughput\<close>: the descendants of an event are the events reachable over
  parent edges, and the numbers of a throughput are consistent.
\<close>

section \<open>Descendants\<close>

definition parent_relation :: "causal_edge list \<Rightarrow> (pystr \<times> pystr) set" where
  "parent_relation edges = (\<lambda>e. (edge_source e, edge_target e)) ` {e \<in> set edges. edge_kind e = parent_kind}"

lemma children_by_parent_get: "c \<in> set (dget_or (children_by_parent edges) p []) \<longleftrightarrow> (p, c) \<in> parent_relation edges"
proof -
  have "c \<in> set (dget_or (fold add_child edges d) p []) \<longleftrightarrow> c \<in> set (dget_or d p []) \<or> (p, c) \<in> parent_relation edges" for d
  proof (induction edges arbitrary: d)
    case (Cons e edges)
    have "c \<in> set (dget_or (add_child e d) p []) \<longleftrightarrow> c \<in> set (dget_or d p []) \<or> (p, c) \<in> parent_relation [e]"
      by (auto simp: add_child_def parent_relation_def)
    moreover have "parent_relation (e # edges) = parent_relation [e] \<union> parent_relation edges" by (auto simp: parent_relation_def)
    ultimately show ?case using Cons [of "add_child e d"] by auto
  qed (simp add: parent_relation_def)
  then show ?thesis by (simp add: children_by_parent_def)
qed

lemma descend_reachable:
  assumes "i \<in> set seen" "set pending \<subseteq> set seen" "set seen \<subseteq> {x. (i, x) \<in> E\<^sup>*}"
    and "\<And>p c. c \<in> set (dget_or children p []) \<longleftrightarrow> (p, c) \<in> E"
    and "\<forall>p\<in>set seen - set pending. E `` {p} \<subseteq> set seen"
  shows "set (descend children seen pending) = {x. (i, x) \<in> E\<^sup>*}"
  using assms
proof (induction children seen pending rule: descend.induct)
  case (1 children seen)
  have "x \<in> set seen" if "(i, x) \<in> E\<^sup>*" for x
    using that 1(1,5) by (induction rule: rtrancl_induct) auto
  with 1(3) show ?case by auto
next
  case (2 children seen p pending)
  let ?cs = "dget_or children p []"
  obtain seen' pending' where new: "push_new ?cs (seen, pending) = (seen', pending')" by force
  have seen': "set seen' = set seen \<union> set ?cs" and pending': "set pending' = set pending \<union> (set ?cs - set seen)"
    using push_new_seen [of ?cs seen pending] push_new_pending [of ?cs seen pending] by (simp_all add: new)
  have reach: "(i, p) \<in> E\<^sup>*" using "2.prems"(2,3) by auto
  have "set (descend children seen' pending') = {x. (i, x) \<in> E\<^sup>*}"
  proof (rule "2.IH" [OF new [symmetric]])
    show "i \<in> set seen'" using "2.prems"(1) seen' by simp
    show "set pending' \<subseteq> set seen'" using "2.prems"(2) seen' pending' by auto
    have "(i, c) \<in> E\<^sup>*" if "c \<in> set ?cs" for c
      using that reach by (auto simp: "2.prems"(4) intro: rtrancl_into_rtrancl)
    with "2.prems"(3) show "set seen' \<subseteq> {x. (i, x) \<in> E\<^sup>*}" unfolding seen' by auto
    have own: "E `` {p} \<subseteq> set ?cs" using "2.prems"(4) by auto
    show "\<forall>q\<in>set seen' - set pending'. E `` {q} \<subseteq> set seen'"
      using "2.prems"(5) own unfolding seen' pending' by fastforce
  qed (rule "2.prems"(4))
  then show ?case by (simp add: descend.simps(2) new)
qed

text \<open>The descendants of an event are exactly the events reachable from it over parent edges: the
  worklist ends on every graph and reaches all of them.\<close>

theorem parent_descendants_are_reachable:
  "set (parent_descendants i edges) = {x. (i, x) \<in> (parent_relation edges)\<^sup>*}"
  unfolding parent_descendants_def
  by (rule descend_reachable) (auto simp: children_by_parent_get)

section \<open>Throughput\<close>

definition sample_ok :: "sample \<Rightarrow> bool" where
  "sample_ok s \<longleftrightarrow> isfinite (sm_completed s) \<and> isfinite (sm_total s) \<and> fle (Fin 0) (sm_completed s) \<and> fle (sm_completed s) (sm_total s)"

lemma progress_sample_ok: "progress_sample v = Some s \<Longrightarrow> sample_ok s"
  by (auto simp: progress_sample_def progress_values_def sample_ok_def split: if_splits option.splits)

lemma single_series_ok: "single_series events ps = Some (s, progress, samples) \<Longrightarrow> list_all sample_ok samples \<and> samples \<noteq> []"
proof -
  assume "single_series events ps = Some (s, progress, samples)"
  then have p: "progress = filter (\<lambda>v. progress_sample v \<noteq> None) events" "samples = List.map_filter progress_sample progress"
    "remdups (map (series_of ps) progress) = [Some s]"
    by (auto simp: single_series_def Let_def split: if_splits list.splits option.splits)
  then have "progress \<noteq> []" by auto
  moreover have "filter (\<lambda>v. progress_sample v \<noteq> None) progress = progress" unfolding p(1) by simp
  ultimately have "samples \<noteq> []" unfolding p(2) List.map_filter_def by simp
  moreover have "list_all sample_ok samples"
    unfolding p(2) by (auto simp: list_all_iff List.map_filter_def dest: progress_sample_ok)
  ultimately show ?thesis by simp
qed

lemma list_all_dset: "list_all P (map snd d) \<Longrightarrow> P x \<Longrightarrow> list_all P (map snd (dset k x d))"
  by (induction d) auto

lemma dset_not_Nil [simp]: "dset k x d \<noteq> []"
  by (cases d) auto

lemma merge_samples_ok:
  "merge_samples ss d = Some d' \<Longrightarrow> list_all sample_ok ss \<Longrightarrow> list_all sample_ok (map snd d) \<Longrightarrow>
   list_all sample_ok (map snd d') \<and> (ss \<noteq> [] \<or> d \<noteq> [] \<longrightarrow> d' \<noteq> [])"
proof (induction ss arbitrary: d)
  case (Cons s ss)
  have s: "sample_ok s" "list_all sample_ok ss" using Cons.prems(2) by simp_all
  have step: "list_all sample_ok (map snd d') \<and> d' \<noteq> []"
    if m: "merge_samples ss (dset k x d) = Some d'" and "sample_ok x" for k x
    using Cons.IH [OF m s(2) list_all_dset [OF Cons.prems(3) \<open>sample_ok x\<close>]] by simp
  show ?case
  proof (cases "dget d (sm_timestamp_ns s)")
    case None
    with Cons.prems(1) step [of "sm_timestamp_ns s" s] s(1) show ?thesis by simp
  next
    case (Some p)
    let ?m = "\<lparr>sm_timestamp_ns = sm_timestamp_ns s,
             sm_uncertainty_ns = Some (max (or_zero (sm_uncertainty_ns p)) (or_zero (sm_uncertainty_ns s))),
             sm_sequence = None, sm_completed = sm_completed s, sm_total = sm_total s\<rparr>"
    have "sample_ok ?m" using s(1) by (simp add: sample_ok_def)
    with Some Cons.prems(1) step [of "sm_timestamp_ns s" ?m] show ?thesis by (simp split: if_splits)
  qed
qed simp

lemma ordered_progress_samples_ok:
  assumes "ordered_progress_samples use_sequence samples = Some ordered" "list_all sample_ok samples" "samples \<noteq> []"
  shows "ordered \<noteq> [] \<and> list_all sample_ok ordered"
proof (cases "use_sequence \<and> list_all (\<lambda>s. sm_sequence s \<noteq> None) samples \<and> distinct (map sm_sequence samples)")
  case True
  then have "ordered = sort_key (\<lambda>s. or_zero (sm_sequence s)) samples"
    using assms(1) by (simp add: ordered_progress_samples_def)
  with assms(2,3) show ?thesis by (auto simp: list_all_iff dest: arg_cong [where f = set])
next
  case False
  with assms(1) obtain d where d: "merge_samples samples [] = Some d" "ordered = map snd (sort_key fst d)"
    unfolding ordered_progress_samples_def by (simp add: Let_def split: option.splits if_splits)
  from merge_samples_ok [OF d(1) assms(2)] assms(3) have "list_all sample_ok (map snd d)" "d \<noteq> []" by auto
  then show ?thesis unfolding d(2) by (auto simp: list_all_iff dest: arg_cong [where f = length])
qed

definition not_negative :: "pyfloat option \<Rightarrow> bool" where
  "not_negative x = (case x of None \<Rightarrow> True | Some r \<Rightarrow> fle (Fin 0) r)"

lemma finite_ratio_not_negative: "finite_ratio a d = Inr r \<Longrightarrow> not_negative r"
proof (cases d)
  case (Some b)
  assume r: "finite_ratio a d = Inr r"
  show ?thesis
  proof (cases "fle a (Fin 0) \<or> fle b (Fin 0)")
    case False
    with r Some obtain q where q: "fdiv a b = Inr q" "r = (if isfinite q then Some q else None)"
      by (auto simp: finite_ratio_def rbind_eq_Inr_iff)
    have "fle (Fin 0) q" if "isfinite q"
    proof (cases a; cases b)
      fix x y assume xy: "a = Fin x" "b = Fin y"
      then have "0 \<le> x / y" using False by simp
      then have "fle (rnd 0) (rnd (x / y))" by (rule rnd_mono)
      with xy q(1) False show ?thesis by auto
    qed (use False q(1) that in \<open>auto simp: signed_inf_def split: if_splits\<close>)
    with q(2) show ?thesis by (simp add: not_negative_def)
  qed (use r Some in \<open>auto simp: finite_ratio_def not_negative_def\<close>)
qed (auto simp: finite_ratio_def not_negative_def)

lemma sample_rate_not_negative: "sample_rate samples = Inr r \<Longrightarrow> not_negative r"
  by (auto simp: sample_rate_def rbind_eq_Inr_iff not_negative_def split: if_splits dest!: finite_ratio_not_negative)

lemma fmax_not_negative: "fle (Fin 0) (fmax (Fin 0) x)"
  by (cases x) (auto simp: fmax_def flt_def)

lemma after_compute_not_negative:
  "after_compute samples finished compute = Inr (left, post, rate) \<Longrightarrow> not_negative left \<and> not_negative post \<and> not_negative rate"
  by (auto simp: after_compute_def Let_def rbind_eq_Inr_iff not_negative_def fmax_not_negative
      dest!: sample_rate_not_negative split: option.splits if_splits)

text \<open>The numbers of a throughput are consistent: finite progress between zero and the total, and
  remaining work, rates and times that are never negative; without a rate there is no estimate for
  work that remains.\<close>

theorem throughput_is_consistent:
  assumes "throughput_of lower events edges finished = Inr (Some t)"
  shows "isfinite (tp_completed t) \<and> isfinite (tp_total t) \<and> fle (Fin 0) (tp_completed t) \<and> fle (tp_completed t) (tp_total t) \<and>
    fle (Fin 0) (tp_remaining t) \<and>
    list_all not_negative [tp_rate_per_second t, tp_estimated_drain_seconds t, tp_remaining_at_compute_completion t,
      tp_post_compute_seconds t, tp_post_compute_rate_per_second t] \<and>
    (tp_rate_per_second t = None \<and> \<not> feq (tp_remaining t) (Fin 0) \<longrightarrow> tp_estimated_drain_seconds t = None)"
proof -
  obtain series progress samples where series: "single_series events (parents_by_target edges) = Some (series, progress, samples)"
    using assms by (auto simp: throughput_of_def split: option.splits)
  note t = assms [unfolded throughput_of_def series option.case prod.case Let_def]
  obtain ordered where ordered: "ordered_progress_samples (length (remdups (map ev_entity_id progress)) = 1 \<and>
      None \<notin> set (remdups (map ev_entity_id progress))) samples = Some ordered"
    using t by (auto split: if_splits option.splits)
  define latest where "latest = last ordered"
  define remaining where "remaining = fmax (Fin 0) (fsub (sm_total latest) (sm_completed latest))"
  obtain scope stop where scope: "series_scope series events edges progress finished = (scope, stop)" by force
  define compute where "compute = max_option (compute_finishes lower events
    (hd (remdups (map ev_clock_domain progress))) (remdups (map ev_entity_id progress)) scope)"
  note t = t [unfolded ordered option.case scope prod.case, folded latest_def, folded remaining_def compute_def]
  from t obtain rate left post post_rate drain where
    parts: "sample_rate ordered = Inr rate" "after_compute ordered stop compute = Inr (left, post, post_rate)"
      "(if feq remaining (Fin 0) then Inr (Some (Fin 0)) else finite_ratio remaining rate) = Inr drain"
      "t = \<lparr>tp_completed = sm_completed latest, tp_total = sm_total latest, tp_rate_per_second = rate,
        tp_remaining = remaining, tp_estimated_drain_seconds = drain, tp_compute_finished_at_ns = compute,
        tp_remaining_at_compute_completion = left, tp_post_compute_seconds = post, tp_post_compute_rate_per_second = post_rate\<rparr>"
    by (auto simp: rbind_eq_Inr_iff split: if_splits)
  have "sample_ok latest"
    using ordered_progress_samples_ok [OF ordered] single_series_ok [OF series] by (auto simp: latest_def list_all_iff)
  moreover have "not_negative drain" using parts(3) finite_ratio_not_negative by (auto simp: not_negative_def split: if_splits)
  moreover have "rate = None \<Longrightarrow> \<not> feq remaining (Fin 0) \<Longrightarrow> drain = None" using parts(3) by (simp add: finite_ratio_def)
  ultimately show ?thesis
    using sample_rate_not_negative [OF parts(1)] after_compute_not_negative [OF parts(2)]
    by (simp add: parts(4) sample_ok_def remaining_def fmax_not_negative)
qed

section \<open>Witness\<close>

definition example_progress :: "string \<Rightarrow> int \<Rightarrow> int \<Rightarrow> event" where
  "example_progress i s n = \<lparr>ev_id = lit i, ev_kind = lit ''progress'', ev_name = lit ''step'', ev_entity_id = None,
     ev_started_at_ns = Some s, ev_finished_at_ns = None, ev_clock_domain = Some (lit ''host''), ev_uncertainty_ns = None,
     ev_sequence = None, ev_attributes = [(lit ''completed'', JInt n), (lit ''total'', JInt 8)]\<rparr>"

theorem throughput_is_consistent_witness:
  "\<exists>t. throughput_of (\<lambda>s. s) [example_progress ''p'' 0 2, example_progress ''q'' 1000000000 4] [] None = Inr (Some t) \<and>
    fle (Fin 0) (tp_remaining t)"
proof -
  have "(case throughput_of (\<lambda>s. s) [example_progress ''p'' 0 2, example_progress ''q'' 1000000000 4] [] None of
      Inr (Some t) \<Rightarrow> True | _ \<Rightarrow> False)" by code_simp
  then obtain t where t: "throughput_of (\<lambda>s. s) [example_progress ''p'' 0 2, example_progress ''q'' 1000000000 4] [] None = Inr (Some t)"
    by (auto split: sum.splits option.splits)
  from throughput_is_consistent [OF t] t show ?thesis by blast
qed

end
