(* ===== verification/Utf8.thy ===== *)
theory Utf8
  imports Prelude
begin

text \<open>
  \<open>bytes.decode("utf-8")\<close> and \<open>str.encode("utf-8")\<close>: the strict codec, which refuses overlong
  forms, surrogates and values beyond U+10FFFF. A byte is a number below 256.
\<close>

definition cont_byte :: "nat \<Rightarrow> bool" where
  "cont_byte b \<longleftrightarrow> 0x80 \<le> b \<and> b \<le> 0xBF"

definition utf8_bytes :: "nat \<Rightarrow> nat list" where
  "utf8_bytes c =
     (if c < 0x80 then [c]
      else if c < 0x800 then [0xC0 + c div 64, 0x80 + c mod 64]
      else if c < 0x10000 then [0xE0 + c div 4096, 0x80 + c div 64 mod 64, 0x80 + c mod 64]
      else [0xF0 + c div 262144, 0x80 + c div 4096 mod 64, 0x80 + c div 64 mod 64, 0x80 + c mod 64])"

definition utf8_encode :: "pystr \<Rightarrow> nat list" where
  "utf8_encode s = concat (map utf8_bytes s)"

text \<open>The first code point of a byte string and the rest; \<open>None\<close> when no character starts there.\<close>

fun utf8_first :: "nat list \<Rightarrow> (nat \<times> nat list) option" where
  "utf8_first [] = None"
| "utf8_first (b # r) =
     (if b < 0x80 then Some (b, r)
      else if 0xC2 \<le> b \<and> b \<le> 0xDF then
        (case r of c # r' \<Rightarrow> if cont_byte c then Some ((b - 0xC0) * 64 + (c - 0x80), r') else None | _ \<Rightarrow> None)
      else if 0xE0 \<le> b \<and> b \<le> 0xEF then
        (case r of c # d # r' \<Rightarrow>
             if cont_byte c \<and> cont_byte d \<and> (b = 0xE0 \<longrightarrow> 0xA0 \<le> c) \<and> (b = 0xED \<longrightarrow> c < 0xA0)
             then Some ((b - 0xE0) * 4096 + (c - 0x80) * 64 + (d - 0x80), r') else None
         | _ \<Rightarrow> None)
      else if 0xF0 \<le> b \<and> b \<le> 0xF4 then
        (case r of c # d # e # r' \<Rightarrow>
             if cont_byte c \<and> cont_byte d \<and> cont_byte e \<and> (b = 0xF0 \<longrightarrow> 0x90 \<le> c) \<and> (b = 0xF4 \<longrightarrow> c < 0x90)
             then Some ((b - 0xF0) * 262144 + (c - 0x80) * 4096 + (d - 0x80) * 64 + (e - 0x80), r') else None
         | _ \<Rightarrow> None)
      else None)"

lemma utf8_first_shorter: "utf8_first bs = Some (c, r) \<Longrightarrow> length r < length bs"
  by (cases bs) (auto split: if_splits list.splits)

function utf8_decode :: "nat list \<Rightarrow> pystr option" where
  "utf8_decode bs =
     (if bs = [] then Some []
      else (case utf8_first bs of
          None \<Rightarrow> None
        | Some (c, r) \<Rightarrow> (case utf8_decode r of None \<Rightarrow> None | Some s \<Rightarrow> Some (c # s))))"
  by pat_completeness auto
termination
  by (relation "measure length") (auto dest: utf8_first_shorter)

declare utf8_decode.simps [simp del]

lemma utf8_decode_Nil [simp]: "utf8_decode [] = Some []"
  by (simp add: utf8_decode.simps)

lemma utf8_decode_first:
  "utf8_first bs = Some (c, r) \<Longrightarrow> utf8_decode bs = map_option (Cons c) (utf8_decode r)"
  by (subst utf8_decode.simps) (auto split: option.splits)

definition unicode_scalar :: "nat \<Rightarrow> bool" where
  "unicode_scalar c \<longleftrightarrow> c < 0x110000 \<and> \<not> is_surrogate c"

lemma utf8_first_bytes:
  assumes "unicode_scalar c"
  shows "utf8_first (utf8_bytes c @ r) = Some (c, r)"
proof -
  define m q n p k l where parts: "m = c mod 64" "q = c div 64" "n = q mod 64" "p = q div 64" "k = p mod 64" "l = p div 64"
  have quotients: "c div 64 = q" "c div 4096 = p" "c div 262144 = l"
    unfolding parts by (simp_all flip: div_mult2_eq)
  have digits: "c = 64 * q + m" "q = 64 * p + n" "p = 64 * l + k" "m < 64" "n < 64" "k < 64"
    unfolding parts by simp_all
  have bytes: "utf8_bytes c =
     (if c < 0x80 then [c]
      else if c < 0x800 then [0xC0 + q, 0x80 + m]
      else if c < 0x10000 then [0xE0 + p, 0x80 + n, 0x80 + m]
      else [0xF0 + l, 0x80 + k, 0x80 + n, 0x80 + m])"
    unfolding utf8_bytes_def quotients by (simp add: parts)
  have scalar: "c < 1114112" "\<not> (55296 \<le> c \<and> c \<le> 57343)" using assms by (simp_all add: unicode_scalar_def is_surrogate_def)
  consider "c < 128" | "128 \<le> c" "c < 2048" | "2048 \<le> c" "c < 65536" | "65536 \<le> c" by linarith
  then show ?thesis
  proof cases
    case 1
    then show ?thesis by (simp add: bytes)
  next
    case 2
    then have "2 \<le> q" "q < 32" using digits by linarith+
    moreover have "q * 64 + m = c" using digits by linarith
    moreover have "utf8_bytes c = [192 + q, 128 + m]" using 2 by (simp add: bytes)
    ultimately show ?thesis using \<open>m < 64\<close> by (simp add: cont_byte_def)
  next
    case 3
    then have "p < 16" "p = 0 \<Longrightarrow> 32 \<le> n" "p = 13 \<Longrightarrow> n < 32" using digits scalar by linarith+
    moreover have "p * 4096 + n * 64 + m = c" using digits by linarith
    moreover have "utf8_bytes c = [224 + p, 128 + n, 128 + m]" using 3 by (simp add: bytes)
    ultimately show ?thesis using \<open>m < 64\<close> \<open>n < 64\<close> by (simp add: cont_byte_def)
  next
    case 4
    then have "l \<le> 4" "l = 0 \<Longrightarrow> 16 \<le> k" "l = 4 \<Longrightarrow> k < 16" using digits scalar by linarith+
    moreover have "l * 262144 + k * 4096 + n * 64 + m = c" using digits by linarith
    moreover have "utf8_bytes c = [240 + l, 128 + k, 128 + n, 128 + m]" using 4 by (simp add: bytes)
    ultimately show ?thesis using \<open>m < 64\<close> \<open>n < 64\<close> \<open>k < 64\<close> by (simp add: cont_byte_def)
  qed
qed

text \<open>Decoding what was encoded gives the text back.\<close>

theorem utf8_round_trip: "list_all unicode_scalar s \<Longrightarrow> utf8_decode (utf8_encode s) = Some s"
  by (induction s) (simp_all add: utf8_encode_def utf8_decode_first [OF utf8_first_bytes])


end
