(* ===== verification/Annotations.thy ===== *)
theory Annotations
  imports Utf8 PyJson EntityHierarchy
begin

text \<open>
  \<open>annotations.py\<close>: the stream of annotation records an observed program wrote, one JSON object
  per line, turned into events and causal edges. The bytes of the stream are the input; the lock,
  the reading of the file, a file that is missing (an empty stream) and the interpreter's recursion limit are not
  modelled.
\<close>

definition annotation_error :: "pystr list \<Rightarrow> err" where
  "annotation_error parts = AnnotationError (cat parts)"

definition max_timestamp_ns :: int where
  "max_timestamp_ns = 2 ^ 63 - 1"

definition max_annotation_stream_bytes :: nat where
  "max_annotation_stream_bytes = 64 * 1024 * 1024"

definition max_annotation_records :: nat where
  "max_annotation_records = 200000"

definition record_fields :: "(pystr, pystr list) dict" where
  "record_fields =
     [(lit ''event_start'', map lit [''record'', ''id'', ''kind'', ''name'', ''timestamp_ns'', ''parent_id'', ''attributes'']),
      (lit ''event_end'', map lit [''record'', ''id'', ''timestamp_ns'', ''error'']),
      (lit ''event_instant'', map lit [''record'', ''id'', ''kind'', ''name'', ''timestamp_ns'', ''parent_id'', ''attributes'']),
      (lit ''link'', map lit [''record'', ''source_id'', ''target_id'', ''relation''])]"

section \<open>Values\<close>

definition annotation_text :: "pystr \<Rightarrow> pystr \<Rightarrow> pystr res" where
  "annotation_text label s =
     (if utf8_ok s then Inr s else Inl (annotation_error [label, lit '' contains a string that is not valid UTF-8'']))"

fun annotation_key :: "pystr \<Rightarrow> obj \<Rightarrow> pystr res" where
  "annotation_key label (OStr s) = annotation_text label s"
| "annotation_key label _ = Inl TypeError"

fun annotation_json :: "pystr \<Rightarrow> obj \<Rightarrow> json res" where
  "annotation_json label (OStr s) = rbind (annotation_text label s) (\<lambda>t. Inr (JStr t))"
| "annotation_json label ONone = Inr JNull"
| "annotation_json label (OBool b) = Inr (JBool b)"
| "annotation_json label (OInt n) = Inr (JInt n)"
| "annotation_json label (OFloat x) =
     (if isfinite x then Inr (JFloat x) else Inl (annotation_error [label, lit '' contains a non-finite number'']))"
| "annotation_json label (OList vs) = rbind (traverse (annotation_json label) vs) (\<lambda>js. Inr (JList js))"
| "annotation_json label (ODict d) =
     (if list_all (\<lambda>kv. is_str (fst kv)) d
      then rbind (traverse (\<lambda>(k, v). rbind (annotation_key label k) (\<lambda>k'.
             rbind (annotation_json label v) (\<lambda>v'. Inr (k', v')))) d) (\<lambda>js. Inr (JObj js))
      else Inl (annotation_error [label, lit '' contains an invalid JSON value'']))"
| "annotation_json label _ = Inl (annotation_error [label, lit '' contains an invalid JSON value''])"

definition annotation_object :: "pystr \<Rightarrow> obj \<Rightarrow> attrs res" where
  "annotation_object label v = rbind (annotation_json label v) (\<lambda>j. (case j of
     JObj d \<Rightarrow> Inr d
   | _ \<Rightarrow> Inl (annotation_error [label, lit '' must be an object''])))"

definition reject_json_constant :: const_hook where
  "reject_json_constant name = Inl (ValueError (lit ''non-finite constant '' @ name))"

definition record_string :: "attrs \<Rightarrow> string \<Rightarrow> pystr res" where
  "record_string r k = (case dget r (lit k) of
     Some (JStr s) \<Rightarrow> if s = [] then Inl (annotation_error [lit ''annotation '', lit k, lit '' must be a non-empty string''])
       else Inr s
   | _ \<Rightarrow> Inl (annotation_error [lit ''annotation '', lit k, lit '' must be a non-empty string'']))"

definition record_timestamp :: "attrs \<Rightarrow> int res" where
  "record_timestamp r = (case dget r (lit ''timestamp_ns'') of
     Some (JInt n) \<Rightarrow>
       if n < 0 then Inl (annotation_error [lit ''annotation timestamp_ns must be a non-negative integer''])
       else if max_timestamp_ns < n then Inl (annotation_error [lit ''annotation timestamp_ns exceeds the runpack integer range''])
       else Inr n
   | _ \<Rightarrow> Inl (annotation_error [lit ''annotation timestamp_ns must be a non-negative integer'']))"

definition record_attributes :: "attrs \<Rightarrow> attrs res" where
  "record_attributes r = (case dget r (lit ''attributes'') of
     None \<Rightarrow> Inr []
   | Some j \<Rightarrow> annotation_object (lit ''annotation attributes'') (obj_of_json j))"

section \<open>Records\<close>

text \<open>\<open>text.split("\n")\<close>\<close>

fun split_lines :: "pystr \<Rightarrow> pystr list" where
  "split_lines [] = [[]]"
| "split_lines (c # s) = (if c = 10 then [] # split_lines s
     else (case split_lines s of [] \<Rightarrow> [[c]] | l # ls \<Rightarrow> (c # l) # ls))"

definition annotation_lines :: "pystr \<Rightarrow> pystr list" where
  "annotation_lines s = (let ls = split_lines s in if last ls = [] then butlast ls else ls)"

definition record_count :: "nat list \<Rightarrow> nat" where
  "record_count raw = count_list raw 10 + (if raw \<noteq> [] \<and> last raw \<noteq> 10 then 1 else 0)"

definition line_text :: "nat \<Rightarrow> pystr" where
  "line_text n = lit ''line '' @ nat_text n"

text \<open>The message of the exceptions that the parser and the check may raise.\<close>

fun exception_text :: "err \<Rightarrow> pystr" where
  "exception_text (ValueError m) = m"
| "exception_text (AnnotationError m) = m"
| "exception_text _ = []"

definition parse_record :: "nat \<Rightarrow> pystr \<Rightarrow> attrs res" where
  "parse_record n line =
     (case rbind (json_loads reject_json_constant line) (annotation_object (lit ''annotation'')) of
        Inr r \<Rightarrow> Inr r
      | Inl e \<Rightarrow> Inl (annotation_error (lit ''invalid annotation JSON on '' # line_text n #
          (if e = JSONDecodeError then [] else [lit '': '', exception_text e]))))"

record annotation_state =
  as_starts :: "(pystr, attrs) dict"
  as_ends :: "(pystr, attrs \<times> nat) dict"
  as_instants :: "attrs list"
  as_links :: "attrs list"
  as_event_ids :: "pystr list"

definition no_records :: annotation_state where
  "no_records = \<lparr>as_starts = [], as_ends = [], as_instants = [], as_links = [], as_event_ids = []\<rparr>"

definition unsupported_fields :: "pystr \<Rightarrow> attrs \<Rightarrow> pystr list" where
  "unsupported_fields kind r = sort (filter (\<lambda>k. k \<notin> set (dget_or record_fields kind [])) (map fst r))"

definition add_start :: "nat \<Rightarrow> attrs \<Rightarrow> annotation_state \<Rightarrow> annotation_state res" where
  "add_start n r s = rbind (record_string r ''id'') (\<lambda>i.
     if i \<in> set (as_event_ids s) then Inl (annotation_error [lit ''duplicate annotation event id on '', line_text n])
     else Inr (s\<lparr>as_event_ids := i # as_event_ids s, as_starts := dset i r (as_starts s)\<rparr>))"

definition add_end :: "nat \<Rightarrow> attrs \<Rightarrow> annotation_state \<Rightarrow> annotation_state res" where
  "add_end n r s = rbind (record_string r ''id'') (\<lambda>i.
     if (case dget r (lit ''error'') of None \<Rightarrow> False | Some JNull \<Rightarrow> False | Some (JBool b) \<Rightarrow> False | Some j \<Rightarrow> True)
     then Inl (annotation_error [lit ''annotation event_end error must be a boolean on '', line_text n])
     else if has_key (as_ends s) i then Inl (annotation_error [lit ''duplicate annotation event end on '', line_text n])
     else Inr (s\<lparr>as_ends := dset i (r, n) (as_ends s)\<rparr>))"

definition add_instant :: "nat \<Rightarrow> attrs \<Rightarrow> annotation_state \<Rightarrow> annotation_state res" where
  "add_instant n r s = rbind (record_string r ''id'') (\<lambda>i.
     if i \<in> set (as_event_ids s) then Inl (annotation_error [lit ''duplicate annotation event id on '', line_text n])
     else Inr (s\<lparr>as_event_ids := i # as_event_ids s, as_instants := as_instants s @ [r]\<rparr>))"

definition add_record :: "nat \<Rightarrow> attrs \<Rightarrow> annotation_state \<Rightarrow> annotation_state res" where
  "add_record n r s = (case dget r (lit ''record'') of
     Some (JStr kind) \<Rightarrow>
       if \<not> has_key record_fields kind then Inl (annotation_error [lit ''unknown annotation record on '', line_text n])
       else if unsupported_fields kind r \<noteq> [] then
         Inl (annotation_error [lit ''annotation '', kind, lit '' on '', line_text n, lit '' contains unsupported fields: '',
           join (lit '', '') (unsupported_fields kind r)])
       else if kind = lit ''event_start'' then add_start n r s
       else if kind = lit ''event_end'' then add_end n r s
       else if kind = lit ''event_instant'' then add_instant n r s
       else Inr (s\<lparr>as_links := as_links s @ [r]\<rparr>)
   | _ \<Rightarrow> Inl (annotation_error [lit ''unknown annotation record on '', line_text n]))"

fun read_records :: "nat \<Rightarrow> pystr list \<Rightarrow> annotation_state \<Rightarrow> annotation_state res" where
  "read_records n [] s = Inr s"
| "read_records n (line # ls) s =
     rbind (parse_record n line) (\<lambda>r. rbind (add_record n r s) (\<lambda>s'. read_records (n + 1) ls s'))"

text \<open>The first end without a start.\<close>

definition orphaned_end_lines :: "annotation_state \<Rightarrow> nat list" where
  "orphaned_end_lines s = List.map_filter (\<lambda>(i, (r, n)). if has_key (as_starts s) i then None else Some n) (as_ends s)"

definition check_orphans :: "annotation_state \<Rightarrow> unit res" where
  "check_orphans s = (let ls = orphaned_end_lines s in
     if ls = [] then Inr () else Inl (annotation_error [lit ''orphan annotation event end on '', line_text (Min (set ls))]))"

section \<open>Events and edges\<close>

definition annotation_edge :: "pystr \<Rightarrow> pystr \<Rightarrow> pystr \<Rightarrow> attrs \<Rightarrow> causal_edge" where
  "annotation_edge source target kind attributes = \<lparr>edge_source = source, edge_target = target, edge_kind = kind,
     edge_confidence = Fin 1, edge_attributes = attributes\<rparr>"

definition annotation_parent :: "attrs \<Rightarrow> pystr \<Rightarrow> pystr list \<Rightarrow> causal_edge list res" where
  "annotation_parent r i known = (case dget r (lit ''parent_id'') of
     None \<Rightarrow> Inr []
   | Some JNull \<Rightarrow> Inr []
   | Some (JStr p) \<Rightarrow>
       if p = [] then Inl (annotation_error [lit ''annotation parent_id must be a non-empty string or null''])
       else if p \<notin> set known then Inl (annotation_error [lit ''annotation parent event is unresolved: '', p])
       else Inr [annotation_edge p i (lit ''parent'') [(lit ''source'', JStr (lit ''annotation''))]]
   | Some j \<Rightarrow> Inl (annotation_error [lit ''annotation parent_id must be a non-empty string or null'']))"

definition annotation_event :: "pystr \<Rightarrow> pystr \<Rightarrow> pystr \<Rightarrow> pystr \<Rightarrow> int \<Rightarrow> int option \<Rightarrow> attrs \<Rightarrow> event" where
  "annotation_event entity_id i kind name started finished attributes =
     \<lparr>ev_id = i, ev_kind = kind, ev_name = name, ev_entity_id = Some entity_id, ev_started_at_ns = Some started,
      ev_finished_at_ns = finished, ev_clock_domain = Some (lit ''host.wall''), ev_uncertainty_ns = None,
      ev_sequence = None, ev_attributes = attributes\<rparr>"

definition span_event ::
  "pystr \<Rightarrow> (pystr, attrs \<times> nat) dict \<Rightarrow> pystr list \<Rightarrow> pystr \<times> attrs \<Rightarrow> (event \<times> causal_edge list) res" where
  "span_event entity_id ends known = (\<lambda>(i, start).
     rbind (record_attributes start) (\<lambda>given.
     let attributes = (case dget ends i of
           Some (e, n) \<Rightarrow> if dget e (lit ''error'') = Some (JBool True) then dset (lit ''error'') (JBool True) given else given
         | None \<Rightarrow> given) in
     rbind (record_timestamp start) (\<lambda>started.
     rbind (case dget ends i of None \<Rightarrow> Inr None | Some (e, n) \<Rightarrow> rbind (record_timestamp e) (\<lambda>t. Inr (Some t))) (\<lambda>finished.
     rbind (raise_if (case finished of Some f \<Rightarrow> f < started | None \<Rightarrow> False)
       (annotation_error [lit ''annotation event '', i, lit '' ends before it starts''])) (\<lambda>_.
     rbind (record_string start ''kind'') (\<lambda>kind.
     rbind (record_string start ''name'') (\<lambda>name.
     rbind (annotation_parent start i known) (\<lambda>edges.
     Inr (annotation_event entity_id i kind name started finished attributes, edges)))))))))"

definition instant_event :: "pystr \<Rightarrow> pystr list \<Rightarrow> attrs \<Rightarrow> (event \<times> causal_edge list) res" where
  "instant_event entity_id known r =
     rbind (record_string r ''id'') (\<lambda>i.
     rbind (record_timestamp r) (\<lambda>t.
     rbind (record_string r ''kind'') (\<lambda>kind.
     rbind (record_string r ''name'') (\<lambda>name.
     rbind (record_attributes r) (\<lambda>attributes.
     rbind (annotation_parent r i known) (\<lambda>edges.
     Inr (annotation_event entity_id i kind name t (Some t) attributes, edges)))))))"

definition link_edge :: "pystr list \<Rightarrow> attrs \<Rightarrow> causal_edge res" where
  "link_edge known r =
     rbind (record_string r ''source_id'') (\<lambda>source.
     rbind (record_string r ''target_id'') (\<lambda>target.
     rbind (record_string r ''relation'') (\<lambda>relation.
     if source \<notin> set known \<or> target \<notin> set known then
       Inl (annotation_error [lit ''annotation link '', source, lit '' -> '', target, lit '' is unresolved''])
     else if source = target then Inl (annotation_error [lit ''annotation event cannot link to itself: '', source])
     else Inr (annotation_edge source target relation []))))"

text \<open>The parents by child; a child with two parents is an error.\<close>

fun annotation_parents :: "causal_edge list \<Rightarrow> (pystr, pystr) dict \<Rightarrow> (pystr, pystr) dict res" where
  "annotation_parents [] d = Inr d"
| "annotation_parents (e # es) d =
     (if edge_kind e \<noteq> lit ''parent'' then annotation_parents es d
      else if (case dget d (edge_target e) of None \<Rightarrow> False | Some p \<Rightarrow> p \<noteq> edge_source e)
      then Inl (annotation_error [lit ''annotation event cannot have multiple parents''])
      else annotation_parents es (dset (edge_target e) (edge_source e) d))"

text \<open>The loops over the parents are those of the entity hierarchy, with an error of their own.\<close>

definition validate_parent_hierarchy :: "causal_edge list \<Rightarrow> unit res" where
  "validate_parent_hierarchy edges = rbind (annotation_parents edges []) (\<lambda>ps.
     (case check_parents ps [] (map fst ps) of
        Inr u \<Rightarrow> Inr u
      | Inl e \<Rightarrow> Inl (annotation_error [lit ''annotation parent relationships contain a cycle''])))"

definition edge_identity :: "causal_edge \<Rightarrow> pystr \<times> pystr \<times> pystr" where
  "edge_identity e = (edge_source e, edge_target e, edge_kind e)"

definition annotation_order :: "event \<Rightarrow> int \<times> pystr" where
  "annotation_order v = ((case ev_started_at_ns v of None \<Rightarrow> - 1 | Some s \<Rightarrow> s), ev_id v)"

definition normalize_annotations :: "pystr \<Rightarrow> annotation_state \<Rightarrow> (event list \<times> causal_edge list) res" where
  "normalize_annotations entity_id s =
     rbind (check_orphans s) (\<lambda>_.
     rbind (traverse (\<lambda>r. record_string r ''id'') (as_instants s)) (\<lambda>instant_ids.
     let known = map fst (as_starts s) @ instant_ids in
     rbind (traverse (span_event entity_id (as_ends s) known) (as_starts s)) (\<lambda>spans.
     rbind (traverse (instant_event entity_id known) (as_instants s)) (\<lambda>instants.
     rbind (traverse (link_edge known) (as_links s)) (\<lambda>links.
     let edges = dedup_by edge_identity (concat (map snd spans) @ concat (map snd instants) @ links) in
     rbind (validate_parent_hierarchy edges) (\<lambda>_.
     Inr (sort_key annotation_order (map fst spans @ map fst instants), edges)))))))"

definition load_annotations :: "pystr \<Rightarrow> nat list \<Rightarrow> (event list \<times> causal_edge list) res" where
  "load_annotations entity_id raw =
     (if max_annotation_stream_bytes < length raw then
        Inl (annotation_error [lit ''captured annotations exceed the '', nat_text max_annotation_stream_bytes, lit ''-byte input limit''])
      else if max_annotation_records < record_count raw then
        Inl (annotation_error [lit ''captured annotations exceed the '', nat_text max_annotation_records, lit ''-record input limit''])
      else (case utf8_decode raw of
          None \<Rightarrow> Inl (annotation_error [lit ''captured annotations must be UTF-8''])
        | Some decoded \<Rightarrow> rbind (read_records 1 (annotation_lines decoded) no_records) (normalize_annotations entity_id)))"

end
