(* ===== verification/AnnotationLaws.thy ===== *)
theory AnnotationLaws
  imports Annotations
begin

text \<open>
  What a loaded annotation stream is: events with distinct identities and valid times, in order, and
  edges between them that give every event at most one parent and form no cycle.
\<close>

section \<open>Values and records\<close>

lemma annotation_text_Inr [res_simps]: "annotation_text label s = Inr t \<longleftrightarrow> utf8_ok s \<and> t = s"
  by (auto simp: annotation_text_def)

lemma annotation_key_Inr: "annotation_key label k = Inr s \<Longrightarrow> utf8_ok s"
  by (cases k) (auto simp: res_simps)

lemma annotation_json_clean: "annotation_json label v = Inr j \<Longrightarrow> json_clean j"
proof (induction label v arbitrary: j rule: annotation_json.induct)
  case (6 label vs)
  then obtain js where js: "traverse (annotation_json label) vs = Inr js" "j = JList js" by (auto simp: res_simps)
  have "json_clean x" if "x \<in> set js" for x
    using traverse_Inr_mem [OF js(1) that] 6 by auto
  with js(2) show ?case by (simp add: list_all_iff)
next
  case (7 label d)
  let ?f = "\<lambda>(k, v). rbind (annotation_key label k) (\<lambda>k'. rbind (annotation_json label v) (\<lambda>v'. Inr (k', v')))"
  obtain js where js: "traverse ?f d = Inr js" "j = JObj js"
    using 7(2) by (auto simp: res_simps split: if_splits)
  have "utf8_ok k \<and> json_clean x" if kx: "(k, x) \<in> set js" for k x
  proof -
    obtain k0 v0 where "(k0, v0) \<in> set d" "annotation_key label k0 = Inr k" "annotation_json label v0 = Inr x"
      using traverse_Inr_mem [OF js(1) kx] by (auto simp: res_simps)
    with 7(1,2) show ?thesis by (fastforce dest: annotation_key_Inr split: if_splits)
  qed
  with js(2) show ?case by (auto simp: list_all_iff)
qed (auto simp: res_simps split: if_splits)

definition record_ok :: "attrs \<Rightarrow> bool" where
  "record_ok r \<longleftrightarrow> json_clean (JObj r)"

lemma annotation_object_ok: "annotation_object label v = Inr r \<Longrightarrow> record_ok r"
proof -
  assume "annotation_object label v = Inr r"
  then obtain j where j: "annotation_json label v = Inr j"
      "(case j of JObj d \<Rightarrow> Inr d | _ \<Rightarrow> Inl (annotation_error [label, lit '' must be an object''])) = Inr r"
    by (auto simp: annotation_object_def rbind_eq_Inr_iff)
  then have "j = JObj r" by (cases j) auto
  with annotation_json_clean [OF j(1)] show ?thesis by (simp add: record_ok_def)
qed

lemma parse_record_ok: "parse_record n line = Inr r \<Longrightarrow> record_ok r"
  by (auto simp: parse_record_def res_simps split: sum.splits dest: annotation_object_ok)

lemma record_ok_get: "record_ok r \<Longrightarrow> dget r k = Some j \<Longrightarrow> json_clean j"
  by (auto simp: record_ok_def list_all_iff dest: map_of_SomeD)

definition annotated_text :: "pystr \<Rightarrow> bool" where
  "annotated_text s \<longleftrightarrow> s \<noteq> [] \<and> utf8_ok s"

lemma record_string_ok: "record_string r k = Inr s \<Longrightarrow> record_ok r \<Longrightarrow> annotated_text s"
  by (auto simp: record_string_def annotated_text_def dest!: record_ok_get split: option.splits json.splits if_splits)

lemma record_timestamp_ok: "record_timestamp r = Inr t \<Longrightarrow> 0 \<le> t \<and> t \<le> max_timestamp_ns"
  by (auto simp: record_timestamp_def split: option.splits json.splits if_splits)

lemma record_attributes_ok: "record_attributes r = Inr d \<Longrightarrow> record_ok d"
  by (auto simp: record_attributes_def record_ok_def [of "[]"] split: option.splits dest: annotation_object_ok)

section \<open>The records of a stream\<close>

definition instant_id :: "attrs \<Rightarrow> pystr" where
  "instant_id r = (case dget r (lit ''id'') of Some (JStr s) \<Rightarrow> s | _ \<Rightarrow> [])"

lemma record_string_id: "record_string r ''id'' = Inr i \<Longrightarrow> instant_id r = i"
  by (auto simp: record_string_def instant_id_def split: option.splits json.splits if_splits)

definition state_ok :: "annotation_state \<Rightarrow> bool" where
  "state_ok s \<longleftrightarrow> distinct (map fst (as_starts s) @ map instant_id (as_instants s)) \<and>
     set (as_event_ids s) = set (map fst (as_starts s) @ map instant_id (as_instants s)) \<and>
     list_all (\<lambda>(i, r). annotated_text i \<and> record_ok r) (as_starts s) \<and>
     list_all record_ok (as_instants s) \<and> list_all record_ok (as_links s) \<and>
     list_all (\<lambda>(i, (r, n)). record_ok r) (as_ends s)"

lemma dset_new: "i \<notin> fst ` set d \<Longrightarrow> dset i x d = d @ [(i, x)]"
  by (rule update_new_key)

lemma add_record_ok:
  assumes "add_record n r s = Inr s'" "record_ok r" "state_ok s"
  shows "state_ok s'"
proof -
  obtain j where j: "dget r (lit ''record'') = Some j"
    using assms(1) by (cases "dget r (lit ''record'')") (auto simp: add_record_def)
  then obtain kind where kind: "dget r (lit ''record'') = Some (JStr kind)"
    using assms(1) by (cases j) (auto simp: add_record_def)
  note run = assms(1) [unfolded add_record_def kind option.case json.case]
  have known: "has_key record_fields kind" using run by (cases "has_key record_fields kind") auto
  have fields: "unsupported_fields kind r = []" using run known by (cases "unsupported_fields kind r = []") auto
  consider (start) "add_start n r s = Inr s'" | (finish) "add_end n r s = Inr s'" | (instant) "add_instant n r s = Inr s'"
    | (link) "s' = s\<lparr>as_links := as_links s @ [r]\<rparr>"
    using run known fields by (cases "kind = lit ''event_start''"; cases "kind = lit ''event_end''"; cases "kind = lit ''event_instant''") auto
  then show ?thesis
  proof cases
    case start
    then obtain i where i: "record_string r ''id'' = Inr i" "i \<notin> set (as_event_ids s)"
      "s' = s\<lparr>as_event_ids := i # as_event_ids s, as_starts := dset i r (as_starts s)\<rparr>"
      by (auto simp: add_start_def res_simps split: if_splits)
    then have "dset i r (as_starts s) = as_starts s @ [(i, r)]" using assms(3) by (intro dset_new) (auto simp: state_ok_def)
    with i assms(2,3) record_string_ok [OF i(1) assms(2)] show ?thesis by (auto simp: state_ok_def)
  next
    case finish
    then obtain i where i: "\<not> has_key (as_ends s) i" "s' = s\<lparr>as_ends := dset i (r, n) (as_ends s)\<rparr>"
      by (auto simp: add_end_def res_simps split: if_splits)
    then have "dset i (r, n) (as_ends s) = as_ends s @ [(i, (r, n))]" by (intro dset_new) (simp add: has_key_def)
    with i assms(2,3) show ?thesis by (simp add: state_ok_def)
  next
    case instant
    then obtain i where i: "record_string r ''id'' = Inr i" "i \<notin> set (as_event_ids s)"
      "s' = s\<lparr>as_event_ids := i # as_event_ids s, as_instants := as_instants s @ [r]\<rparr>"
      by (auto simp: add_instant_def res_simps split: if_splits)
    with record_string_id [OF i(1)] assms(2,3) show ?thesis by (auto simp: state_ok_def)
  next
    case link
    with assms(2,3) show ?thesis by (simp add: state_ok_def)
  qed
qed

lemma read_records_ok: "read_records n ls s = Inr s' \<Longrightarrow> state_ok s \<Longrightarrow> state_ok s'"
proof (induction n ls s rule: read_records.induct)
  case (2 n line ls s)
  from "2.prems"(1) obtain r t where r: "parse_record n line = Inr r" "add_record n r s = Inr t" "read_records (n + 1) ls t = Inr s'"
    by (auto simp: res_simps)
  from "2.IH" [OF r(1,2,3)] add_record_ok [OF r(2) parse_record_ok [OF r(1)] "2.prems"(2)] show ?case .
qed simp

section \<open>The parent hierarchy\<close>

definition annotated_parents :: "causal_edge list \<Rightarrow> (pystr \<times> pystr) set" where
  "annotated_parents es = (\<lambda>e. (edge_target e, edge_source e)) ` {e \<in> set es. edge_kind e = lit ''parent''}"

lemma annotation_parents_sound:
  "annotation_parents es d = Inr ps \<Longrightarrow> parent_edges ps = parent_edges d \<union> annotated_parents es"
proof (induction es arbitrary: d)
  case (Cons e es)
  show ?case
  proof (cases "edge_kind e = lit ''parent''")
    case True
    then have step: "\<not> (case dget d (edge_target e) of None \<Rightarrow> False | Some p \<Rightarrow> p \<noteq> edge_source e)"
      "annotation_parents es (dset (edge_target e) (edge_source e) d) = Inr ps"
      using Cons.prems by (auto split: if_splits)
    then have "parent_edges (dset (edge_target e) (edge_source e) d) = insert (edge_target e, edge_source e) (parent_edges d)"
      by (auto simp: parent_edges_def split: option.splits if_splits)
    with Cons.IH [OF step(2)] True show ?thesis by (auto simp: annotated_parents_def)
  next
    case False
    then have "annotated_parents (e # es) = annotated_parents es" by (auto simp: annotated_parents_def)
    with Cons False show ?thesis by simp
  qed
qed (simp add: annotated_parents_def)

lemma validate_parent_hierarchy_sound:
  assumes "validate_parent_hierarchy es = Inr u"
  shows "single_valued (annotated_parents es) \<and> acyclic (annotated_parents es)"
proof -
  obtain ps where ps: "annotation_parents es [] = Inr ps"
      "(case check_parents ps [] (map fst ps) of Inr u \<Rightarrow> Inr u
        | Inl e \<Rightarrow> Inl (annotation_error [lit ''annotation parent relationships contain a cycle''])) = Inr u"
    using assms by (auto simp: validate_parent_hierarchy_def rbind_eq_Inr_iff)
  then have "check_parents ps [] (map fst ps) = Inr ()" by (cases "check_parents ps [] (map fst ps)") auto
  then have "\<forall>c. (c, c) \<notin> (parent_edges ps)\<^sup>+" by (simp add: check_parents_iff)
  moreover have "parent_edges ps = annotated_parents es"
    using annotation_parents_sound [OF ps(1)] by (simp add: parent_edges_def)
  moreover have "single_valued (parent_edges ps)" by (auto simp: parent_edges_def single_valued_def)
  ultimately show ?thesis by (simp add: acyclic_def)
qed

section \<open>Events\<close>

definition annotated_event :: "pystr \<Rightarrow> event \<Rightarrow> bool" where
  "annotated_event entity_id v \<longleftrightarrow> list_all annotated_text [ev_id v, ev_kind v, ev_name v] \<and>
     ev_entity_id v = Some entity_id \<and> ev_clock_domain v = Some (lit ''host.wall'') \<and>
     ev_uncertainty_ns v = None \<and> ev_sequence v = None \<and> record_ok (ev_attributes v) \<and>
     (case ev_started_at_ns v of None \<Rightarrow> False | Some s \<Rightarrow> 0 \<le> s \<and> s \<le> max_timestamp_ns \<and>
        (case ev_finished_at_ns v of None \<Rightarrow> True | Some f \<Rightarrow> s \<le> f \<and> f \<le> max_timestamp_ns))"

definition annotated_edge :: "pystr set \<Rightarrow> causal_edge \<Rightarrow> bool" where
  "annotated_edge ids e \<longleftrightarrow> edge_source e \<in> ids \<and> edge_target e \<in> ids \<and> annotated_text (edge_kind e) \<and>
     edge_confidence e = Fin 1 \<and> record_ok (edge_attributes e)"

lemma annotation_parent_edges:
  assumes "annotation_parent r i known = Inr es"
  shows "\<forall>e\<in>set es. edge_source e \<in> set known \<and> edge_target e = i \<and> edge_kind e = lit ''parent'' \<and>
    edge_confidence e = Fin 1 \<and> record_ok (edge_attributes e)"
proof (cases "dget r (lit ''parent_id'')")
  case (Some j)
  with assms show ?thesis
    by (cases j) (auto simp: annotation_parent_def annotation_edge_def record_ok_def split: if_splits)
qed (use assms in \<open>simp add: annotation_parent_def\<close>)

lemma record_ok_dset: "record_ok r \<Longrightarrow> utf8_ok k \<Longrightarrow> json_clean j \<Longrightarrow> record_ok (dset k j r)"
  by (induction r) (auto simp: record_ok_def)

lemma span_event_ok:
  assumes "span_event entity_id ends known (i, start) = Inr (v, es)" "annotated_text i" "record_ok start"
  shows "annotated_event entity_id v \<and> ev_id v = i \<and> (i \<in> set known \<longrightarrow> list_all (annotated_edge (set known)) es)"
proof -
  from assms(1) obtain given started finished kind name where
    given: "record_attributes start = Inr given" and
    started: "record_timestamp start = Inr started" and
    finished: "(case dget ends i of None \<Rightarrow> Inr None | Some (e, n) \<Rightarrow> rbind (record_timestamp e) (\<lambda>t. Inr (Some t))) = Inr finished"
      "\<not> (case finished of Some f \<Rightarrow> f < started | None \<Rightarrow> False)" and
    kind: "record_string start ''kind'' = Inr kind" and name: "record_string start ''name'' = Inr name" and
    es: "annotation_parent start i known = Inr es" and
    v: "v = annotation_event entity_id i kind name started finished (case dget ends i of
           Some (e, n) \<Rightarrow> if dget e (lit ''error'') = Some (JBool True) then dset (lit ''error'') (JBool True) given else given
         | None \<Rightarrow> given)"
    unfolding span_event_def Let_def prod.case by (auto simp: rbind_eq_Inr_iff raise_if_Inr_iff)
  have "case finished of None \<Rightarrow> True | Some f \<Rightarrow> started \<le> f \<and> f \<le> max_timestamp_ns"
    using finished by (auto simp: rbind_eq_Inr_iff split: option.splits dest: record_timestamp_ok)
  then have "annotated_event entity_id v"
    using record_attributes_ok [OF given] record_timestamp_ok [OF started] record_string_ok [OF kind assms(3)]
      record_string_ok [OF name assms(3)] assms(2) v
    by (auto simp: annotated_event_def annotation_event_def record_ok_dset split: option.splits)
  moreover have "annotated_text (lit ''parent'')" by (simp add: annotated_text_def)
  ultimately show ?thesis
    using annotation_parent_edges [OF es] v by (auto simp: annotation_event_def annotated_edge_def list_all_iff)
qed

lemma instant_event_ok:
  assumes "instant_event entity_id known r = Inr (v, es)" "record_ok r"
  shows "annotated_event entity_id v \<and> ev_id v = instant_id r \<and>
    (instant_id r \<in> set known \<longrightarrow> list_all (annotated_edge (set known)) es)"
proof -
  from assms(1) obtain i t kind name attributes where
    i: "record_string r ''id'' = Inr i" and t: "record_timestamp r = Inr t" and
    kind: "record_string r ''kind'' = Inr kind" and name: "record_string r ''name'' = Inr name" and
    attributes: "record_attributes r = Inr attributes" and es: "annotation_parent r i known = Inr es" and
    v: "v = annotation_event entity_id i kind name t (Some t) attributes"
    unfolding instant_event_def by (auto simp: rbind_eq_Inr_iff)
  have "annotated_event entity_id v"
    using record_attributes_ok [OF attributes] record_timestamp_ok [OF t] record_string_ok [OF kind assms(2)]
      record_string_ok [OF name assms(2)] record_string_ok [OF i assms(2)] v
    by (auto simp: annotated_event_def annotation_event_def)
  moreover have "annotated_text (lit ''parent'')" by (simp add: annotated_text_def)
  ultimately show ?thesis
    using annotation_parent_edges [OF es] v record_string_id [OF i]
    by (auto simp: annotation_event_def annotated_edge_def list_all_iff)
qed

lemma link_edge_ok:
  assumes "link_edge known r = Inr e" "record_ok r"
  shows "annotated_edge (set known) e \<and> edge_source e \<noteq> edge_target e"
  using assms(1) record_string_ok [of r "''relation''", OF _ assms(2)]
  by (auto simp: link_edge_def rbind_eq_Inr_iff annotated_edge_def annotation_edge_def record_ok_def split: if_splits)

lemma traverse_map_eq:
  "traverse f xs = Inr ys \<Longrightarrow> (\<And>x y. x \<in> set xs \<Longrightarrow> f x = Inr y \<Longrightarrow> g y = h x) \<Longrightarrow> map g ys = map h xs"
proof (induction xs arbitrary: ys)
  case (Cons x xs)
  then obtain y zs where "ys = y # zs" "f x = Inr y" "traverse f xs = Inr zs" by (auto simp: res_simps)
  with Cons show ?case by auto
qed simp

lemma normalize_annotations_ok:
  assumes run: "normalize_annotations entity_id s = Inr (vs, es)" and ok: "state_ok s"
  shows "distinct (map ev_id vs) \<and> list_all (annotated_event entity_id) vs \<and> sorted (map annotation_order vs) \<and>
    distinct (map edge_identity es) \<and> list_all (annotated_edge (ev_id ` set vs)) es \<and>
    list_all (\<lambda>e. edge_source e \<noteq> edge_target e) es \<and>
    single_valued (annotated_parents es) \<and> acyclic (annotated_parents es)"
proof -
  from run obtain instant_ids where ids: "traverse (\<lambda>r. record_string r ''id'') (as_instants s) = Inr instant_ids"
    by (auto simp: normalize_annotations_def rbind_eq_Inr_iff)
  define known where "known = map fst (as_starts s) @ instant_ids"
  from run obtain spans instants links where
    spans: "traverse (span_event entity_id (as_ends s) known) (as_starts s) = Inr spans" and
    instants: "traverse (instant_event entity_id known) (as_instants s) = Inr instants" and
    links: "traverse (link_edge known) (as_links s) = Inr links" and
    edges: "es = dedup_by edge_identity (concat (map snd spans) @ concat (map snd instants) @ links)" and
    parents: "validate_parent_hierarchy es = Inr ()" and
    vs: "vs = sort_key annotation_order (map fst spans @ map fst instants)"
    unfolding normalize_annotations_def ids known_def by (auto simp: rbind_eq_Inr_iff Let_def)
  have "map (\<lambda>i. i) instant_ids = map instant_id (as_instants s)"
    by (rule traverse_map_eq [OF ids]) (simp add: record_string_id)
  then have known: "known = map fst (as_starts s) @ map instant_id (as_instants s)" by (simp add: known_def)
  have start_ok: "annotated_text (fst x) \<and> record_ok (snd x)" if "x \<in> set (as_starts s)" for x
    using ok that by (auto simp: state_ok_def list_all_iff)
  have instant_ok: "record_ok r" if "r \<in> set (as_instants s)" for r using ok that by (auto simp: state_ok_def list_all_iff)
  have span: "annotated_event entity_id (fst y) \<and> ev_id (fst y) = fst x \<and> list_all (annotated_edge (set known)) (snd y)"
    if "x \<in> set (as_starts s)" "span_event entity_id (as_ends s) known x = Inr y" for x y
    using span_event_ok [of entity_id "as_ends s" known "fst x" "snd x" "fst y" "snd y"] start_ok [OF that(1)] that
    by (auto simp: known)
  have instant: "annotated_event entity_id (fst y) \<and> ev_id (fst y) = instant_id r \<and> list_all (annotated_edge (set known)) (snd y)"
    if "r \<in> set (as_instants s)" "instant_event entity_id known r = Inr y" for r y
    using instant_event_ok [of entity_id known r "fst y" "snd y"] instant_ok [OF that(1)] that by (auto simp: known)
  have "map (ev_id \<circ> fst) spans = map fst (as_starts s)" by (rule traverse_map_eq [OF spans]) (simp add: span)
  moreover have "map (ev_id \<circ> fst) instants = map instant_id (as_instants s)"
    by (rule traverse_map_eq [OF instants]) (simp add: instant)
  ultimately have all_ids: "map ev_id (map fst spans @ map fst instants) = known" by (simp add: known)
  have span_mem: "\<exists>x\<in>set (as_starts s). span_event entity_id (as_ends s) known x = Inr y" if "y \<in> set spans" for y
    using traverse_Inr_mem [OF spans that] .
  have instant_mem: "\<exists>r\<in>set (as_instants s). instant_event entity_id known r = Inr y" if "y \<in> set instants" for y
    using traverse_Inr_mem [OF instants that] .
  have ids_set: "ev_id ` set vs = set known" using arg_cong [OF all_ids, of set] by (simp add: vs image_Un image_image)
  have "mset (map ev_id vs) = mset (map ev_id (map fst spans @ map fst instants))" unfolding vs by (simp add: multiset.map_comp)
  then have "mset (map ev_id vs) = mset known" unfolding all_ids .
  moreover have "distinct known" using ok by (simp add: known state_ok_def)
  ultimately have "distinct (map ev_id vs)" by (metis mset_eq_imp_distinct_iff)
  moreover have "list_all (annotated_event entity_id) vs"
  proof -
    have "annotated_event entity_id (fst y)" if "y \<in> set spans" for y using span_mem [OF that] span by blast
    moreover have "annotated_event entity_id (fst y)" if "y \<in> set instants" for y using instant_mem [OF that] instant by blast
    ultimately show ?thesis by (auto simp: vs list_all_iff)
  qed
  moreover have "sorted (map annotation_order vs)" unfolding vs by (rule sorted_sort_key)
  moreover have "distinct (map edge_identity es)" unfolding edges by (rule dedup_by_distinct)
  moreover have each: "annotated_edge (set known) e \<and> (edge_kind e \<noteq> lit ''parent'' \<longrightarrow> edge_source e \<noteq> edge_target e)"
    if e: "e \<in> set es" for e
  proof -
    have "e \<in> set (concat (map snd spans) @ concat (map snd instants) @ links)"
      by (rule subsetD [OF dedup_by_subset e [unfolded edges]])
    then consider y where "y \<in> set spans" "e \<in> set (snd y)" | y where "y \<in> set instants" "e \<in> set (snd y)" | "e \<in> set links"
      by auto
    then show ?thesis
    proof cases
      case (1 y)
      then obtain x where x: "x \<in> set (as_starts s)" "span_event entity_id (as_ends s) known x = Inr y" using span_mem by blast
      obtain es' where "annotation_parent (snd x) (fst x) known = Inr es'" "snd y = es'"
        using x(2) by (cases x; cases y) (auto simp: span_event_def Let_def rbind_eq_Inr_iff)
      with annotation_parent_edges [OF this(1)] 1 span [OF x] show ?thesis by (auto simp: list_all_iff)
    next
      case (2 y)
      then obtain r where r: "r \<in> set (as_instants s)" "instant_event entity_id known r = Inr y" using instant_mem by blast
      obtain i es' where "annotation_parent r i known = Inr es'" "snd y = es'"
        using r(2) by (cases y) (auto simp: instant_event_def rbind_eq_Inr_iff)
      with annotation_parent_edges [OF this(1)] 2 instant [OF r] show ?thesis by (auto simp: list_all_iff)
    next
      case 3
      then obtain r where "r \<in> set (as_links s)" "link_edge known r = Inr e" using traverse_Inr_mem [OF links] by blast
      with link_edge_ok [of known r e] ok show ?thesis by (auto simp: state_ok_def list_all_iff)
    qed
  qed
  moreover note tree = validate_parent_hierarchy_sound [OF parents]
  moreover have "edge_source e \<noteq> edge_target e" if "e \<in> set es" for e
  proof
    assume loop: "edge_source e = edge_target e"
    with each [OF that] have "edge_kind e = lit ''parent''" by blast
    with that loop have "(edge_target e, edge_target e) \<in> annotated_parents es" by (force simp: annotated_parents_def)
    with tree show False by (auto simp: acyclic_def)
  qed
  ultimately show ?thesis by (auto simp: list_all_iff ids_set)
qed

section \<open>Properties\<close>

text \<open>C12. A loaded annotation stream is sound: its events are valid, have distinct ids and are sorted by
  start, its edges are distinct and join two of the events, and no event has two parents or is its
  own ancestor.\<close>

theorem annotations_well_formed:
  assumes "load_annotations entity_id raw = Inr (vs, es)"
  shows "distinct (map ev_id vs) \<and> list_all (annotated_event entity_id) vs \<and> sorted (map annotation_order vs) \<and>
    distinct (map edge_identity es) \<and> list_all (annotated_edge (ev_id ` set vs)) es \<and>
    list_all (\<lambda>e. edge_source e \<noteq> edge_target e) es \<and>
    single_valued (annotated_parents es) \<and> acyclic (annotated_parents es)"
proof -
  obtain decoded s where s: "read_records 1 (annotation_lines decoded) no_records = Inr s" "normalize_annotations entity_id s = Inr (vs, es)"
    using assms by (auto simp: load_annotations_def rbind_eq_Inr_iff split: if_splits option.splits)
  have "state_ok no_records" by (simp add: state_ok_def no_records_def)
  from normalize_annotations_ok [OF s(2) read_records_ok [OF s(1) this]] show ?thesis .
qed

text \<open>A stream of a span and of an instant inside it.\<close>

definition sample_stream :: "nat list" where
  "sample_stream =
     lit ''{\"record\":\"event_start\",\"id\":\"a\",\"kind\":\"k\",\"name\":\"n\",\"timestamp_ns\":5}'' @ [10] @
     lit ''{\"record\":\"event_instant\",\"id\":\"b\",\"kind\":\"k\",\"name\":\"m\",\"timestamp_ns\":3,\"parent_id\":\"a\"}''"

theorem annotations_well_formed_witness:
  "\<exists>vs es. load_annotations (lit ''e'') sample_stream = Inr (vs, es) \<and> map ev_id vs = [lit ''b'', lit ''a''] \<and>
     distinct (map ev_id vs) \<and> sorted (map annotation_order vs) \<and> acyclic (annotated_parents es)"
proof -
  have "case load_annotations (lit ''e'') sample_stream of Inr (vs, es) \<Rightarrow> map ev_id vs = [lit ''b'', lit ''a''] | _ \<Rightarrow> False"
    by code_simp
  then obtain vs es where run: "load_annotations (lit ''e'') sample_stream = Inr (vs, es)" "map ev_id vs = [lit ''b'', lit ''a'']"
    by (auto split: sum.splits)
  show ?thesis using annotations_well_formed [OF run(1)] run by (intro exI [of _ vs] exI [of _ es]) simp
qed

end
