(* ===== verification/Evidence.thy ===== *)
theory Evidence
  imports Bottlenecks
begin

text \<open>
  Reading captured evidence: \<open>batchscope/analysis/_values.py\<close>, \<open>_common.py\<close> and the helpers that
  every summary of \<open>batchscope/analysis\<close> shares. Events and metadata hold any JSON value under any key.
  A missing key and \<open>null\<close> are the same \<open>None\<close>. A test \<open>value in {...}\<close> hashes the value, which raises
  on lists and objects, so a chain of tests joined by \<open>or\<close> is a list of steps that may raise, read up to
  the first true one.
\<close>

section \<open>Attributes\<close>

text \<open>\<open>d.get(k)\<close> and \<open>d.get(k, default)\<close>\<close>

definition jget :: "attrs \<Rightarrow> string \<Rightarrow> json" where
  "jget d k = (case dget d (lit k) of None \<Rightarrow> JNull | Some j \<Rightarrow> j)"

definition jget_or :: "attrs \<Rightarrow> string \<Rightarrow> json \<Rightarrow> json" where
  "jget_or d k j = (case dget d (lit k) of None \<Rightarrow> j | Some i \<Rightarrow> i)"

lemma jget_Cons: "jget ((lit k, v) # d) k' = (if k' = k then v else jget d k')"
  by (simp add: jget_def)

lemma jget_or_Cons: "jget_or ((lit k, v) # d) k' j = (if k' = k then v else jget_or d k' j)"
  by (simp add: jget_or_def)

lemma jget_Nil: "jget [] k = JNull"
  by (simp add: jget_def)

abbreviation eget :: "event \<Rightarrow> string \<Rightarrow> json" where
  "eget v k \<equiv> jget (ev_attributes v) k"

abbreviation jtext :: "string \<Rightarrow> json" where
  "jtext s \<equiv> JStr (lit s)"

definition is_false :: "json \<Rightarrow> bool" where
  "is_false j \<longleftrightarrow> j = JBool False"

definition is_true :: "json \<Rightarrow> bool" where
  "is_true j \<longleftrightarrow> j = JBool True"

text \<open>\<open>isinstance(v, int) and not isinstance(v, bool)\<close> and a range.\<close>

definition int_in :: "(int \<Rightarrow> bool) \<Rightarrow> json \<Rightarrow> bool" where
  "int_in P j = (case j of JInt n \<Rightarrow> P n | _ \<Rightarrow> False)"

definition filled_text :: "json \<Rightarrow> bool" where
  "filled_text j = (case j of JStr s \<Rightarrow> s \<noteq> [] | _ \<Rightarrow> False)"

definition null_or :: "(json \<Rightarrow> bool) \<Rightarrow> json \<Rightarrow> bool" where
  "null_or P j \<longleftrightarrow> j = JNull \<or> P j"

definition all_false :: "attrs \<Rightarrow> string list \<Rightarrow> bool" where
  "all_false d ks \<longleftrightarrow> list_all (\<lambda>k. is_false (jget d k)) ks"

text \<open>The value of a checked field.\<close>

fun the_int :: "json \<Rightarrow> int" where
  "the_int (JInt n) = n"
| "the_int _ = 0"

fun the_text :: "json \<Rightarrow> pystr" where
  "the_text (JStr s) = s"
| "the_text _ = []"

definition int_or_none :: "json \<Rightarrow> int option" where
  "int_or_none j = (case j of JInt n \<Rightarrow> Some n | _ \<Rightarrow> None)"

definition text_or_none :: "json \<Rightarrow> pystr option" where
  "text_or_none j = (case j of JStr s \<Rightarrow> Some s | _ \<Rightarrow> None)"

section \<open>Tests that may raise\<close>

text \<open>\<open>v in {"...", ...}\<close>\<close>

definition member :: "json \<Rightarrow> pystr list \<Rightarrow> bool res" where
  "member j names = (case j of
     JStr s \<Rightarrow> Inr (s \<in> set names)
   | JList _ \<Rightarrow> Inl TypeError
   | JObj _ \<Rightarrow> Inl TypeError
   | _ \<Rightarrow> Inr False)"

definition not_member :: "json \<Rightarrow> pystr list \<Rightarrow> bool res" where
  "not_member j names = rbind (member j names) (\<lambda>b. Inr (\<not> b))"

text \<open>\<open>a or b or ...\<close>\<close>

fun any_of :: "bool res list \<Rightarrow> bool res" where
  "any_of [] = Inr False"
| "any_of (c # cs) = rbind c (\<lambda>b. if b then Inr True else any_of cs)"

lemma any_of_False_iff: "any_of cs = Inr False \<longleftrightarrow> list_all (\<lambda>c. c = Inr False) cs"
  by (induction cs) (auto simp: rbind_eq_Inr_iff)

lemma not_member_False_iff [res_simps]:
  "not_member j names = Inr False \<longleftrightarrow> (\<exists>s\<in>set names. j = JStr s)"
  by (cases j) (auto simp: not_member_def member_def)

lemma not_member_defined: "(\<exists>b. not_member j names = Inr b) \<longleftrightarrow> (\<nexists>vs. j = JList vs) \<and> (\<nexists>d. j = JObj d)"
  by (cases j) (auto simp: not_member_def member_def)

lemma any_of_defined: "list_all (\<lambda>c. \<exists>b. c = Inr b) cs \<Longrightarrow> \<exists>b. any_of cs = Inr b"
  by (induction cs) (auto simp: rbind_eq_Inr_iff)

text \<open>The ladders of comparisons that name a literal; the last name is the default.\<close>

fun literal_of :: "pystr list \<Rightarrow> json \<Rightarrow> pystr" where
  "literal_of [] j = []"
| "literal_of [n] j = n"
| "literal_of (n # ns) j = (if j = JStr n then n else literal_of ns j)"

lemma literal_of_member: "s \<in> set ns \<Longrightarrow> literal_of ns (JStr s) = s"
proof (induction ns)
  case (Cons n ns)
  then show ?case by (cases ns) auto
qed simp

definition roles :: "pystr list" where
  "roles = map lit [''root'', ''descendant'', ''unknown'']"

section \<open>Numbers\<close>

definition max_int64 :: int where
  "max_int64 = 2 ^ 63 - 1"

text \<open>A count of the metadata that does not fit is 0 here and unknown there.\<close>

definition metadata_count :: "json \<Rightarrow> int" where
  "metadata_count j = (case j of JInt n \<Rightarrow> if 0 \<le> n \<and> n \<le> max_int64 then n else 0 | _ \<Rightarrow> 0)"

definition semantic_count :: "json \<Rightarrow> int option" where
  "semantic_count j = (case j of JInt n \<Rightarrow> if n < 0 \<or> max_int64 < n then None else Some n | _ \<Rightarrow> None)"

definition count_or_zero :: "int option \<Rightarrow> int" where
  "count_or_zero c = (case c of None \<Rightarrow> 0 | Some n \<Rightarrow> n)"

text \<open>\<open>float\<close> of an integer beyond the range of floats raises.\<close>

definition nonnegative_number :: "json \<Rightarrow> pyfloat option res" where
  "nonnegative_number j =
     rbind (case j of JInt n \<Rightarrow> rbind (float_of_int n) (\<lambda>x. Inr (Some x)) | JFloat x \<Rightarrow> Inr (Some x) | _ \<Rightarrow> Inr None) (\<lambda>r.
     Inr (case r of None \<Rightarrow> None | Some x \<Rightarrow> if isfinite x \<and> fle (Fin 0) x then Some x else None))"

definition event_number :: "event \<Rightarrow> string \<Rightarrow> pyfloat option res" where
  "event_number v k = nonnegative_number (eget v k)"

lemma nonnegative_number_range: "nonnegative_number j = Inr (Some x) \<Longrightarrow> isfinite x \<and> fle (Fin 0) x"
  by (auto simp: nonnegative_number_def rbind_eq_Inr_iff split: option.splits if_splits)

text \<open>\<open>math.isclose\<close>\<close>

definition isclose :: "pyfloat \<Rightarrow> pyfloat \<Rightarrow> pyfloat \<Rightarrow> pyfloat \<Rightarrow> bool" where
  "isclose rel_tol abs_tol a b =
     (if feq a b then True
      else if a \<in> {PInf, NInf} \<or> b \<in> {PInf, NInf} then False
      else let diff = fabs (fsub b a) in
        fle diff (fabs (fmul rel_tol b)) \<or> fle diff (fabs (fmul rel_tol a)) \<or> fle diff abs_tol)"

definition tolerance :: pyfloat where
  "tolerance = rnd (1 / 10 ^ 9)"

text \<open>\<open>sum\<close> over floats is compensated: the rounding errors are added up beside the sum.\<close>

fun compensated :: "pyfloat \<Rightarrow> pyfloat \<Rightarrow> pyfloat list \<Rightarrow> pyfloat" where
  "compensated s c [] = (if \<not> feq c (Fin 0) \<and> isfinite c then fadd s c else s)"
| "compensated s c (x # xs) =
     (let t = fadd s x in
      compensated t (fadd c (if fle (fabs x) (fabs s) then fadd (fsub s t) x else fadd (fsub x t) s)) xs)"

definition float_sum :: "pyfloat list \<Rightarrow> pyfloat" where
  "float_sum xs = compensated (Fin 0) (Fin 0) xs"

text \<open>\<open>f"{n:,}"\<close> and \<open>f"{x:,.1f}"\<close>: groups of three digits before the point.\<close>

fun group_digits :: "pystr \<Rightarrow> pystr" where
  "group_digits (a # b # c # d # ds) = a # b # c # lit '','' @ group_digits (d # ds)"
| "group_digits ds = ds"

definition grouped_int :: "int \<Rightarrow> pystr" where
  "grouped_int n = (if n < 0 then lit ''-'' else []) @ rev (group_digits (rev (digits \<bar>n\<bar>)))"

definition grouped_fixed1 :: "pyfloat \<Rightarrow> pystr" where
  "grouped_fixed1 x = (let s = fmt_fixed 1 x; sign = takeWhile (\<lambda>c. c = 45) s; whole = takeWhile (\<lambda>c. c \<noteq> 46) (dropWhile (\<lambda>c. c = 45) s)
     in if isfinite x then sign @ rev (group_digits (rev whole)) @ drop (length sign + length whole) s else s)"

section \<open>Statuses\<close>

definition status_names :: "pystr list" where
  "status_names = map lit [''complete'', ''partial'', ''truncated'', ''unavailable'', ''invalid'']"

definition capture_status :: "json \<Rightarrow> pystr" where
  "capture_status j = literal_of status_names j"

record attribution =
  at_status :: pystr
  at_caller_count :: int
  at_attributed_count :: int
  at_unattributed_count :: int
  at_invalid_count :: int
  at_callback_error_count :: int

definition attribution_fallback :: "string \<Rightarrow> int \<Rightarrow> attribution" where
  "attribution_fallback status target_count = \<lparr>at_status = lit status, at_caller_count = 0, at_attributed_count = 0,
     at_unattributed_count = target_count, at_invalid_count = 0, at_callback_error_count = 0\<rparr>"

definition attribution_inconsistent :: "attrs \<Rightarrow> attribution \<Rightarrow> int \<Rightarrow> int \<Rightarrow> int \<Rightarrow> int \<Rightarrow> bool" where
  "attribution_inconsistent d c target_count caller_count attributed_count invalid_count \<longleftrightarrow>
     \<not> all_false d [''arguments_captured'', ''locals_captured''] \<or>
     at_caller_count c \<noteq> caller_count \<or> at_attributed_count c \<noteq> attributed_count \<or>
     at_attributed_count c + at_unattributed_count c \<noteq> target_count \<or>
     at_invalid_count c < invalid_count \<or> invalid_count \<noteq> 0"

definition caller_attribution_counts ::
  "json \<Rightarrow> string \<Rightarrow> int \<Rightarrow> int \<Rightarrow> int \<Rightarrow> int \<Rightarrow> attribution" where
  "caller_attribution_counts raw target_name target_count caller_count attributed_count invalid_count = (case raw of
     JNull \<Rightarrow> attribution_fallback ''unavailable'' target_count
   | JObj d \<Rightarrow>
       (case (semantic_count (jget d ''caller_count''),
              semantic_count (jget d (''attributed_'' @ target_name @ ''_count'')),
              semantic_count (jget d (''unattributed_'' @ target_name @ ''_count'')),
              semantic_count (jget d ''invalid_caller_count''),
              semantic_count (jget d ''callback_error_count'')) of
          (Some a, Some b, Some c, Some e, Some f) \<Rightarrow>
            let counts = \<lparr>at_status = capture_status (jget d ''status''), at_caller_count = a, at_attributed_count = b,
                  at_unattributed_count = c, at_invalid_count = e, at_callback_error_count = f\<rparr> in
            if attribution_inconsistent d counts target_count caller_count attributed_count invalid_count
            then counts\<lparr>at_status := lit ''invalid''\<rparr> else counts
        | _ \<Rightarrow> attribution_fallback ''invalid'' target_count)
   | _ \<Rightarrow> attribution_fallback ''invalid'' target_count)"

section \<open>Sections of the metadata\<close>

definition as_object :: "json \<Rightarrow> attrs option" where
  "as_object j = (case j of JObj d \<Rightarrow> Some d | _ \<Rightarrow> None)"

definition capture_section :: "attrs \<Rightarrow> attrs option" where
  "capture_section metadata = as_object (jget metadata ''capture'')"

definition instrumentation_section :: "attrs \<Rightarrow> attrs option" where
  "instrumentation_section metadata =
     Option.bind (capture_section metadata) (\<lambda>capture. as_object (jget capture ''instrumentation''))"

definition instrumented :: "attrs \<Rightarrow> string \<Rightarrow> attrs option" where
  "instrumented metadata k =
     Option.bind (instrumentation_section metadata) (\<lambda>i. as_object (jget i k))"

end
