(* ===== verification/Callers.thy ===== *)
theory Callers
  imports Evidence
begin

text \<open>
  \<open>batchscope/analysis/_subprocess.py\<close>: the call sites that operations are attributed to, under
  the contract of their observer, the subprocess calls of a run and the summary of their capture.
  A Python set of event ids is a list without repetition whose order no result depends on.
\<close>

section \<open>Caller contracts\<close>

record caller_contract =
  ct_source :: pystr
  ct_count_attribute :: string
  ct_relations :: "(pystr option \<times> pystr) list"

definition callsite_kind :: pystr where
  "callsite_kind = lit ''python.callsite''"

definition contract_targets :: "caller_contract \<Rightarrow> event \<Rightarrow> bool" where
  "contract_targets c v =
     (let kinds = List.map_filter fst (ct_relations c) in
      if kinds \<noteq> [] then ev_kind v \<in> set kinds
      else ev_kind v \<noteq> callsite_kind \<and> eget v ''source'' = JStr (ct_source c))"

fun first_relation :: "(pystr option \<times> pystr) list \<Rightarrow> pystr \<Rightarrow> pystr option" where
  "first_relation [] k = None"
| "first_relation ((kind, relation) # rest) k =
     (if kind = None \<or> kind = Some k then Some relation else first_relation rest k)"

definition relation_for :: "caller_contract \<Rightarrow> event \<Rightarrow> pystr option" where
  "relation_for c v = first_relation (ct_relations c) (ev_kind v)"

definition subprocess_contract :: caller_contract where
  "subprocess_contract = \<lparr>ct_source = lit ''python-subprocess-wrapper'', ct_count_attribute = ''subprocess_count'',
     ct_relations = [(Some (lit ''subprocess.run''), lit ''launches'')]\<rparr>"

definition http_contract :: caller_contract where
  "http_contract = \<lparr>ct_source = lit ''python-http-client-wrapper'', ct_count_attribute = ''http_request_count'',
     ct_relations = [(Some (lit ''http.client.request''), lit ''requests'')]\<rparr>"

definition network_contract :: caller_contract where
  "network_contract = \<lparr>ct_source = lit ''python-network-connection-wrapper'',
     ct_count_attribute = ''network_connection_count'',
     ct_relations = [(Some (lit ''network.connect''), lit ''connects'')]\<rparr>"

definition network_setup_contract :: caller_contract where
  "network_setup_contract = \<lparr>ct_source = lit ''python-network-setup-wrapper'',
     ct_count_attribute = ''network_setup_phase_count'',
     ct_relations = [(Some (lit ''network.resolve''), lit ''resolves''),
       (Some (lit ''network.tls_handshake''), lit ''handshakes'')]\<rparr>"

definition logical_contract :: caller_contract where
  "logical_contract = \<lparr>ct_source = lit ''python-logical-operation-wrapper'',
     ct_count_attribute = ''logical_operation_count'', ct_relations = [(None, lit ''performs'')]\<rparr>"

section \<open>Attribution\<close>

record caller_attribution =
  ca_event_id :: pystr
  ca_name :: pystr
  ca_module :: pystr
  ca_qualname :: pystr
  ca_filename :: pystr
  ca_firstlineno :: int
  ca_scope :: pystr
  ca_observation :: pystr
  ca_confidence :: pyfloat

type_synonym callers = "(pystr, caller_attribution) dict"

definition scopes :: "pystr list" where
  "scopes = map lit [''application'', ''library'', ''runtime'']"

definition observations :: "pystr list" where
  "observations = map lit [''exact'', ''sampled'']"

definition expected_confidence :: "causal_edge \<Rightarrow> pyfloat" where
  "expected_confidence e = (if jget (edge_attributes e) ''observation'' = jtext ''exact'' then Fin 1 else rnd (9 / 10))"

text \<open>The conditions under which an edge from a call site does not attribute its target.\<close>

definition caller_invalid :: "caller_contract \<Rightarrow> event \<Rightarrow> event \<Rightarrow> causal_edge \<Rightarrow> callers \<Rightarrow> bool res" where
  "caller_invalid c source target e callers = any_of
     [Inr (has_key callers (ev_id target)),
      Inr (eget target ''caller_event_id'' \<noteq> JStr (ev_id source)),
      Inr (eget source ''source'' \<noteq> JStr (ct_source c)),
      Inr (\<not> is_false (eget source ''arguments_captured'')),
      Inr (\<not> is_false (eget source ''locals_captured'')),
      Inr (\<not> filled_text (eget source ''module'')),
      Inr (\<not> filled_text (eget source ''qualname'')),
      Inr (\<not> filled_text (eget source ''filename'')),
      Inr (\<not> int_in (\<lambda>n. 0 \<le> n) (eget source ''firstlineno'')),
      Inr (\<not> int_in (\<lambda>n. 0 < n) (eget source (ct_count_attribute c))),
      not_member (eget source ''scope'') scopes,
      not_member (jget (edge_attributes e) ''observation'') observations,
      Inr (jget (edge_attributes e) ''source'' \<noteq> JStr (ct_source c)),
      Inr (\<not> isclose tolerance (Fin 0) (edge_confidence e) (expected_confidence e)),
      Inr (ev_name source \<noteq> the_text (eget source ''module'') @ lit ''.'' @ the_text (eget source ''qualname''))]"

definition attribution_of :: "event \<Rightarrow> causal_edge \<Rightarrow> caller_attribution" where
  "attribution_of source e =
     \<lparr>ca_event_id = ev_id source, ca_name = ev_name source, ca_module = the_text (eget source ''module''),
      ca_qualname = the_text (eget source ''qualname''), ca_filename = the_text (eget source ''filename''),
      ca_firstlineno = the_int (eget source ''firstlineno''), ca_scope = literal_of scopes (eget source ''scope''),
      ca_observation = literal_of observations (jget (edge_attributes e) ''observation''),
      ca_confidence = edge_confidence e\<rparr>"

definition caller_step ::
  "caller_contract \<Rightarrow> (pystr, event) dict \<Rightarrow> (pystr, event) dict \<Rightarrow> causal_edge \<Rightarrow>
     callers \<times> pystr list \<Rightarrow> (callers \<times> pystr list) res" where
  "caller_step c by_id targets e = (\<lambda>(callers, invalid).
     (case (dget by_id (edge_source e), dget by_id (edge_target e)) of
        (Some source, Some target) \<Rightarrow>
          if ev_kind source \<noteq> callsite_kind \<or> \<not> has_key targets (ev_id target) then Inr (callers, invalid)
          else if relation_for c target \<noteq> Some (edge_kind e) then Inr (callers, List.insert (ev_id target) invalid)
          else rbind (caller_invalid c source target e callers) (\<lambda>bad.
            Inr (if bad then (AList.delete (ev_id target) callers, List.insert (ev_id target) invalid)
                 else (dset (ev_id target) (attribution_of source e) callers, invalid)))
      | _ \<Rightarrow> Inr (callers, invalid)))"

fun caller_loop ::
  "caller_contract \<Rightarrow> (pystr, event) dict \<Rightarrow> (pystr, event) dict \<Rightarrow> causal_edge list \<Rightarrow>
     callers \<times> pystr list \<Rightarrow> (callers \<times> pystr list) res" where
  "caller_loop c by_id targets [] st = Inr st"
| "caller_loop c by_id targets (e # es) st =
     rbind (caller_step c by_id targets e st) (\<lambda>st'. caller_loop c by_id targets es st')"

text \<open>The targets whose declared caller is no text, those of a caller that declares another count,
  and those that declare a caller and have none.\<close>

definition misdeclared :: "(pystr, event) dict \<Rightarrow> pystr list" where
  "misdeclared targets = map fst (filter (\<lambda>(i, v). \<not> null_or filled_text (eget v ''caller_event_id'')) targets)"

definition callers_targets :: "callers \<Rightarrow> (pystr, pystr list) dict" where
  "callers_targets callers =
     fold (\<lambda>(i, c) d. dset (ca_event_id c) (dget_or d (ca_event_id c) [] @ [i]) d) callers []"

definition count_agrees :: "caller_contract \<Rightarrow> event \<Rightarrow> nat \<Rightarrow> bool" where
  "count_agrees c source n \<longleftrightarrow> numeric_value (eget source (ct_count_attribute c)) = Some (Fin (of_nat n))"

definition miscounted :: "caller_contract \<Rightarrow> (pystr, event) dict \<Rightarrow> callers \<Rightarrow> pystr list res" where
  "miscounted c by_id callers =
     rbind (traverse (\<lambda>(i, ts). rbind (find by_id i) (\<lambda>source.
       Inr (if count_agrees c source (length ts) then [] else ts))) (callers_targets callers)) (\<lambda>tss. Inr (concat tss))"

definition unresolved :: "(pystr, event) dict \<Rightarrow> callers \<Rightarrow> pystr list" where
  "unresolved targets callers =
     map fst (filter (\<lambda>(i, v). eget v ''caller_event_id'' \<noteq> JNull \<and> \<not> has_key callers i) targets)"

definition operation_callers :: "event list \<Rightarrow> causal_edge list \<Rightarrow> caller_contract \<Rightarrow> (callers \<times> int) res" where
  "operation_callers events edges c =
     (let by_id = event_table events; targets = event_table (filter (contract_targets c) events) in
      rbind (caller_loop c by_id targets edges ([], misdeclared targets)) (\<lambda>(callers, invalid).
      rbind (miscounted c by_id callers) (\<lambda>wrong.
      let invalid' = remdups (invalid @ wrong @ unresolved targets callers) in
      Inr (filter (\<lambda>(i, _). i \<notin> set invalid') callers, int (length invalid')))))"

text \<open>The number of distinct call sites.\<close>

definition caller_total :: "callers \<Rightarrow> int" where
  "caller_total callers = int (length (remdups (map (\<lambda>(i, c). ca_event_id c) callers)))"

section \<open>Reading the operations of a run\<close>

text \<open>
  The loop that every observer has: events of other kinds are passed over, events that break the contract
  are counted, the others give a record. The first exception ends it.
\<close>

definition read_operations :: "(event \<Rightarrow> bool) \<Rightarrow> (event \<Rightarrow> 'a option res) \<Rightarrow> event list \<Rightarrow> ('a list \<times> int) res" where
  "read_operations relevant parse events =
     rbind (traverse parse (filter relevant events)) (\<lambda>rs.
     Inr (List.map_filter id rs, int (length (filter (\<lambda>r. r = None) rs))))"

definition elapsed_seconds :: "int \<Rightarrow> int option \<Rightarrow> pyfloat option res" where
  "elapsed_seconds started finished = (case finished of
     None \<Rightarrow> Inr None
   | Some f \<Rightarrow> rbind (seconds (max 0 (f - started))) (\<lambda>x. Inr (Some x)))"

definition pid_ok :: "json \<Rightarrow> bool" where
  "pid_ok = int_in (\<lambda>n. 0 < n)"

section \<open>Subprocess calls\<close>

record process_identity =
  pi_name :: pystr
  pi_parent_name :: "pystr option"

record subprocess_call =
  sc_event_id :: pystr
  sc_name :: pystr
  sc_parent_pid :: int
  sc_role :: pystr
  sc_child_pid :: "int option"
  sc_child_observed :: bool
  sc_shell :: "bool option"
  sc_outcome :: pystr
  sc_exit_code :: "int option"
  sc_error_type :: "pystr option"
  sc_started_at_ns :: int
  sc_duration_seconds :: "pyfloat option"
  sc_caller :: "caller_attribution option"

definition subprocess_outcomes :: "pystr list" where
  "subprocess_outcomes = map lit [''exited'', ''launch_error'', ''unknown'']"

definition bool_or_none :: "json \<Rightarrow> bool option" where
  "bool_or_none j = (case j of JBool b \<Rightarrow> Some b | _ \<Rightarrow> None)"

definition subprocess_malformed :: "event \<Rightarrow> bool res" where
  "subprocess_malformed v = any_of
     [Inr (ev_name v = []),
      Inr (ev_started_at_ns v = None),
      Inr (eget v ''source'' \<noteq> jtext ''python-subprocess-wrapper''),
      Inr (\<not> is_false (eget v ''arguments_captured'')),
      Inr (\<not> pid_ok (eget v ''parent_pid'')),
      not_member (eget v ''role'') roles,
      Inr (\<not> null_or pid_ok (eget v ''child_pid'')),
      Inr (\<not> null_or (\<lambda>j. bool_or_none j \<noteq> None) (eget v ''shell'')),
      not_member (eget v ''outcome'') subprocess_outcomes,
      Inr (\<not> null_or (int_in (\<lambda>_. True)) (eget v ''exit_code'')),
      Inr (\<not> null_or filled_text (eget v ''error.type''))]"

text \<open>The outcome against the other fields.\<close>

definition subprocess_contradicts :: "event \<Rightarrow> pystr \<Rightarrow> bool" where
  "subprocess_contradicts v outcome =
     (let unfinished = (ev_finished_at_ns v = None); no_child = (eget v ''child_pid'' = JNull);
          code = eget v ''exit_code''; error_type = eget v ''error.type''; flagged = is_true (eget v ''error'') in
      (outcome = lit ''exited'' \<and>
         (unfinished \<or> no_child \<or> code = JNull \<or>
          code = JInt 0 \<and> (error_type \<noteq> JNull \<or> flagged) \<or>
          code \<noteq> JInt 0 \<and> (error_type \<noteq> jtext ''subprocess_exit'' \<or> \<not> flagged))) \<or>
      (outcome = lit ''launch_error'' \<and>
         (unfinished \<or> \<not> no_child \<or> code \<noteq> JNull \<or> error_type = JNull \<or> \<not> flagged)) \<or>
      (outcome = lit ''unknown'' \<and>
         (\<not> unfinished \<or> no_child \<or> code \<noteq> JNull \<or> error_type \<noteq> JNull \<or> flagged)))"

definition subprocess_call_of ::
  "callers \<Rightarrow> (int, process_identity) dict \<Rightarrow> event \<Rightarrow> subprocess_call option res" where
  "subprocess_call_of callers observed v =
     rbind (subprocess_malformed v) (\<lambda>bad.
     if bad then Inr None
     else (case ev_started_at_ns v of
       None \<Rightarrow> Inr None
     | Some started \<Rightarrow>
        let outcome = literal_of subprocess_outcomes (eget v ''outcome''); child = int_or_none (eget v ''child_pid'') in
        if subprocess_contradicts v outcome then Inr None
        else rbind (elapsed_seconds started (ev_finished_at_ns v)) (\<lambda>duration.
          Inr (Some \<lparr>sc_event_id = ev_id v, sc_name = ev_name v, sc_parent_pid = the_int (eget v ''parent_pid''),
            sc_role = literal_of roles (eget v ''role''), sc_child_pid = child,
            sc_child_observed = (case child of None \<Rightarrow> False | Some p \<Rightarrow> has_key observed p),
            sc_shell = bool_or_none (eget v ''shell''), sc_outcome = outcome,
            sc_exit_code = int_or_none (eget v ''exit_code''), sc_error_type = text_or_none (eget v ''error.type''),
            sc_started_at_ns = started, sc_duration_seconds = duration, sc_caller = dget callers (ev_id v)\<rparr>))))"

definition is_subprocess_event :: "event \<Rightarrow> bool" where
  "is_subprocess_event v \<longleftrightarrow> ev_kind v = lit ''subprocess.run''"

definition max_subprocess_call_summaries :: nat where
  "max_subprocess_call_summaries = 100"

definition subprocess_calls ::
  "event list \<Rightarrow> causal_edge list \<Rightarrow> (int, process_identity) dict \<Rightarrow> (subprocess_call list \<times> int \<times> int \<times> int \<times> int) res" where
  "subprocess_calls events edges observed =
     rbind (operation_callers events edges subprocess_contract) (\<lambda>(callers, invalid_callers).
     rbind (read_operations is_subprocess_event (subprocess_call_of callers observed) events) (\<lambda>(calls, invalid_events).
     Inr (take max_subprocess_call_summaries
            (sort_key (\<lambda>c. (sc_started_at_ns c, sc_parent_pid c, sc_event_id c)) calls),
          invalid_events, invalid_callers, caller_total callers, int (length callers))))"

section \<open>The summary of a capture\<close>

text \<open>The fields that the summaries of all captures have; the two last ones are not of every capture.\<close>

record captured_summary =
  cs_status :: pystr
  cs_process_count :: int
  cs_operation_count :: int
  cs_dropped_count :: int
  cs_callback_error_count :: int
  cs_invalid_event_count :: int
  cs_attribution :: attribution
  cs_adapters :: "pystr list"
  cs_hotspot_count :: int

record capture_counts =
  cn_process :: "int option"
  cn_operation :: "int option"
  cn_dropped :: "int option"
  cn_callback_error :: "int option"

definition raw_counts :: "attrs \<Rightarrow> string \<Rightarrow> capture_counts" where
  "raw_counts d operation =
     \<lparr>cn_process = semantic_count (jget d ''process_count''), cn_operation = semantic_count (jget d (operation @ ''_count'')),
      cn_dropped = semantic_count (jget d (''dropped_'' @ operation @ ''_count'')),
      cn_callback_error = semantic_count (jget d ''callback_error_count'')\<rparr>"

definition count_missing :: "capture_counts \<Rightarrow> bool" where
  "count_missing c \<longleftrightarrow> cn_process c = None \<or> cn_operation c = None \<or> cn_dropped c = None \<or> cn_callback_error c = None"

definition summary_of ::
  "attrs \<Rightarrow> string \<Rightarrow> bool \<Rightarrow> int \<Rightarrow> int \<Rightarrow> int \<Rightarrow> int \<Rightarrow> int \<Rightarrow> pystr list \<Rightarrow> int \<Rightarrow> captured_summary" where
  "summary_of d operation rejected event_count invalid_events caller_count attributed invalid_callers adapters hotspots =
     (let counts = raw_counts d operation in
      \<lparr>cs_status = (if rejected \<or> count_missing counts \<or> cn_operation counts \<noteq> Some event_count \<or> invalid_events \<noteq> 0
           then lit ''invalid'' else capture_status (jget d ''status'')),
       cs_process_count = count_or_zero (cn_process counts), cs_operation_count = count_or_zero (cn_operation counts),
       cs_dropped_count = count_or_zero (cn_dropped counts),
       cs_callback_error_count = count_or_zero (cn_callback_error counts), cs_invalid_event_count = invalid_events,
       cs_attribution = caller_attribution_counts (jget d ''caller_attribution'') operation event_count
         caller_count attributed invalid_callers,
       cs_adapters = adapters, cs_hotspot_count = hotspots\<rparr>)"

definition semantic_capture_summary :: "attrs \<Rightarrow> int \<Rightarrow> int \<Rightarrow> int \<Rightarrow> int \<Rightarrow> int \<Rightarrow> captured_summary option" where
  "semantic_capture_summary metadata event_count invalid_events caller_count attributed invalid_callers =
     (case instrumented metadata ''semantic_capture'' of
        None \<Rightarrow> None
      | Some d \<Rightarrow> Some (summary_of d ''subprocess''
          (jget d ''observer'' \<noteq> jtext ''python-subprocess-wrapper'' \<or> \<not> is_true (jget d ''zero_code'') \<or>
           \<not> all_false d [''arguments_captured'', ''environment_captured'', ''working_directory_captured''])
          event_count invalid_events caller_count attributed invalid_callers [] 0))"

text \<open>The adapters that a capture declares: its list, sorted, and whether it is unacceptable.\<close>

definition declared_adapters :: "json \<Rightarrow> pystr list \<Rightarrow> pystr option \<Rightarrow> pystr list \<Rightarrow> pystr list \<times> bool" where
  "declared_adapters raw known required observed = (case raw of
     JList js \<Rightarrow>
       let names = List.map_filter text_or_none js in
       if length known < length js \<or> length names \<noteq> length js then ([], True)
       else (sort names,
         \<not> distinct names \<or> (case required of None \<Rightarrow> False | Some a \<Rightarrow> a \<notin> set names) \<or>
         \<not> set names \<subseteq> set known \<or> \<not> set observed \<subseteq> set names)
   | _ \<Rightarrow> ([], True))"

section \<open>Hotspots\<close>

text \<open>The counts and durations of the operations that share a key.\<close>

record hotspot_counts =
  hc_count :: int
  hc_completed :: int
  hc_failed :: int
  hc_unfinished :: int
  hc_total_seconds :: pyfloat
  hc_max_seconds :: pyfloat

definition no_counts :: hotspot_counts where
  "no_counts = \<lparr>hc_count = 0, hc_completed = 0, hc_failed = 0, hc_unfinished = 0, hc_total_seconds = Fin 0, hc_max_seconds = Fin 0\<rparr>"

definition add_duration :: "pyfloat option \<Rightarrow> hotspot_counts \<Rightarrow> hotspot_counts" where
  "add_duration duration c = (case duration of
     None \<Rightarrow> c
   | Some x \<Rightarrow> c\<lparr>hc_total_seconds := fadd (hc_total_seconds c) x, hc_max_seconds := fmax (hc_max_seconds c) x\<rparr>)"

definition add_operation :: "pystr \<Rightarrow> pystr \<Rightarrow> pystr \<Rightarrow> pyfloat option \<Rightarrow> hotspot_counts \<Rightarrow> hotspot_counts" where
  "add_operation completed failed outcome duration c =
     add_duration duration
       (if outcome = completed then c\<lparr>hc_count := hc_count c + 1, hc_completed := hc_completed c + 1\<rparr>
        else if outcome = failed then c\<lparr>hc_count := hc_count c + 1, hc_failed := hc_failed c + 1\<rparr>
        else c\<lparr>hc_count := hc_count c + 1, hc_unfinished := hc_unfinished c + 1\<rparr>)"

text \<open>The dictionary of aggregates; each keeps the first operation of its key.\<close>

definition add_to_hotspot ::
  "('o \<Rightarrow> 'k) \<Rightarrow> ('o \<Rightarrow> hotspot_counts \<Rightarrow> hotspot_counts) \<Rightarrow> 'o \<Rightarrow> ('k, 'o \<times> hotspot_counts) dict \<Rightarrow>
     ('k, 'o \<times> hotspot_counts) dict" where
  "add_to_hotspot key add x d =
     (case dget d (key x) of
        None \<Rightarrow> dset (key x) (x, add x no_counts) d
      | Some (first, c) \<Rightarrow> dset (key x) (first, add x c) d)"

definition hotspot_table ::
  "('o \<Rightarrow> 'k) \<Rightarrow> ('o \<Rightarrow> hotspot_counts \<Rightarrow> hotspot_counts) \<Rightarrow> 'o list \<Rightarrow> ('k, 'o \<times> hotspot_counts) dict" where
  "hotspot_table key add xs = fold (add_to_hotspot key add) xs []"

definition caller_id :: "caller_attribution option \<Rightarrow> pystr option" where
  "caller_id c = map_option ca_event_id c"

definition caller_name :: "caller_attribution option \<Rightarrow> pystr" where
  "caller_name c = (case c of None \<Rightarrow> [] | Some a \<Rightarrow> ca_name a)"

definition descending :: "pyfloat \<Rightarrow> int \<times> rat" where
  "descending x = float_key (fneg x)"

text \<open>The first element with the greatest duration; \<open>or 0.0\<close> reads a missing one.\<close>

definition slowest :: "('o \<Rightarrow> pyfloat option) \<Rightarrow> 'o \<Rightarrow> 'o list \<Rightarrow> 'o" where
  "slowest duration = max_by (\<lambda>x. float_key (case duration x of None \<Rightarrow> Fin 0 | Some s \<Rightarrow> s))"

end
