(* ===== verification/CallerLaws.thy ===== *)
theory CallerLaws
  imports Callers LifecycleLaws
begin

text \<open>
  What the attribution of operations promises: an operation has a caller only on the evidence of an
  edge from a call site that agrees with it, and an operation that names a caller has it or is counted
  as invalid.
\<close>

section \<open>The loop over the edges\<close>

text \<open>The evidence for an entry: the edge, the call site and the operation.\<close>

definition witnessed ::
  "caller_contract \<Rightarrow> event list \<Rightarrow> causal_edge list \<Rightarrow> pystr \<Rightarrow> caller_attribution \<Rightarrow> event \<Rightarrow> event \<Rightarrow> causal_edge \<Rightarrow> bool" where
  "witnessed c events edges i a source target e \<longleftrightarrow>
     source \<in> set events \<and> target \<in> set events \<and> e \<in> set edges \<and>
     edge_source e = ev_id source \<and> edge_target e = i \<and> ev_id target = i \<and>
     contract_targets c target \<and> ev_kind source = callsite_kind \<and> relation_for c target = Some (edge_kind e) \<and>
     eget target ''caller_event_id'' = JStr (ev_id source) \<and> eget source ''source'' = JStr (ct_source c) \<and>
     (\<exists>n. eget source (ct_count_attribute c) = JInt n \<and> 0 < n) \<and> a = attribution_of source e"

definition justified :: "caller_contract \<Rightarrow> event list \<Rightarrow> causal_edge list \<Rightarrow> pystr \<times> caller_attribution \<Rightarrow> bool" where
  "justified c events edges = (\<lambda>(i, a). \<exists>source target e. witnessed c events edges i a source target e)"

definition loop_ok :: "caller_contract \<Rightarrow> event list \<Rightarrow> causal_edge list \<Rightarrow> callers \<times> pystr list \<Rightarrow> bool" where
  "loop_ok c events edges = (\<lambda>(callers, invalid).
     distinct (map fst callers) \<and> list_all (justified c events edges) callers \<and>
     distinct invalid \<and> set invalid \<subseteq> ev_id ` {v \<in> set events. contract_targets c v})"

lemma caller_invalid_False:
  assumes "caller_invalid c source target e callers = Inr False"
  shows "\<not> has_key callers (ev_id target) \<and> eget target ''caller_event_id'' = JStr (ev_id source) \<and>
    eget source ''source'' = JStr (ct_source c) \<and> (\<exists>n. eget source (ct_count_attribute c) = JInt n \<and> 0 < n)"
proof -
  have "int_in (\<lambda>n. 0 < n) (eget source (ct_count_attribute c))"
    using assms by (simp add: caller_invalid_def any_of_False_iff del: any_of.simps)
  then have "\<exists>n. eget source (ct_count_attribute c) = JInt n \<and> 0 < n" by (auto simp: int_in_def split: json.splits)
  then show ?thesis using assms by (simp add: caller_invalid_def any_of_False_iff del: any_of.simps)
qed

lemma set_dset: "set (dset k v d) \<subseteq> insert (k, v) (set d)"
  by (induction d) auto

lemma set_delete: "set (AList.delete k d) \<subseteq> set d"
  by (auto simp: AList.delete_eq)

lemma caller_step_ok:
  assumes "caller_step c (event_table events) (event_table (filter (contract_targets c) events)) e st = Inr st'"
    and "loop_ok c events edges st" and e: "e \<in> set edges" and one: "distinct (map ev_id events)"
  shows "loop_ok c events edges st'"
proof -
  let ?table = "event_table events" and ?targets = "event_table (filter (contract_targets c) events)"
  obtain callers invalid where st: "st = (callers, invalid)" by (cases st)
  note run = assms(1) [unfolded st caller_step_def, simplified]
  have ok: "distinct (map fst callers)" "list_all (justified c events edges) callers" "distinct invalid"
    "set invalid \<subseteq> ev_id ` {v \<in> set events. contract_targets c v}"
    using assms(2) by (simp_all add: st loop_ok_def)
  show ?thesis
  proof (cases "\<exists>source target. dget ?table (edge_source e) = Some source \<and> dget ?table (edge_target e) = Some target \<and>
      ev_kind source = callsite_kind \<and> has_key ?targets (ev_id target)")
    case False
    then have "st' = (callers, invalid)" using run by (auto split: option.splits if_splits)
    then show ?thesis using assms(2) st by simp
  next
    case True
    then obtain source target where s: "dget ?table (edge_source e) = Some source" and t: "dget ?table (edge_target e) = Some target"
      and kind: "ev_kind source = callsite_kind" and key: "has_key ?targets (ev_id target)" by blast
    note step = run [simplified s t option.case prod.case, simplified kind key, simplified]
    have target: "target \<in> set events" "ev_id target = edge_target e" using event_table_get [OF t] by simp_all
    have source: "source \<in> set events" "ev_id source = edge_source e" using event_table_get [OF s] by simp_all
    have id: "ev_id target \<in> ev_id ` {v \<in> set events. contract_targets c v}" using key by auto
    show ?thesis
    proof (cases "relation_for c target = Some (edge_kind e)")
      case False
      then have "st' = (callers, List.insert (ev_id target) invalid)" using step by auto
      then show ?thesis using ok id by (simp add: loop_ok_def)
    next
      case rel: True
      then obtain bad where bad: "caller_invalid c source target e callers = Inr bad" and
        st': "st' = (if bad then (AList.delete (ev_id target) callers, List.insert (ev_id target) invalid)
          else (dset (ev_id target) (attribution_of source e) callers, invalid))"
        using step by (auto simp: rbind_eq_Inr_iff)
      show ?thesis
      proof (cases bad)
        case True
        then show ?thesis using ok id set_delete [of "ev_id target" callers]
          by (auto simp: st' loop_ok_def list_all_iff distinct_delete)
      next
        case False
        note facts = caller_invalid_False [OF bad [unfolded eq_False [THEN iffD2, OF False]]]
        obtain w where "w \<in> set events" "contract_targets c w" "ev_id w = ev_id target" using id by auto
        with one target(1) have w: "w = target" by (auto simp: distinct_map inj_on_def)
        have "witnessed c events edges (ev_id target) (attribution_of source e) source target e"
          using facts source target kind rel e \<open>contract_targets c w\<close> by (simp add: witnessed_def w)
        then have "justified c events edges (ev_id target, attribution_of source e)" by (auto simp: justified_def)
        moreover have "set (dset (ev_id target) (attribution_of source e) callers) \<subseteq>
            insert (ev_id target, attribution_of source e) (set callers)" by (rule set_dset)
        ultimately have "list_all (justified c events edges) (dset (ev_id target) (attribution_of source e) callers)"
          using ok(2) unfolding list_all_iff by blast
        then show ?thesis using ok False by (simp add: st' loop_ok_def)
      qed
    qed
  qed
qed

lemma caller_loop_ok:
  assumes "caller_loop c (event_table events) (event_table (filter (contract_targets c) events)) es st = Inr st'"
    and "loop_ok c events edges st" and "set es \<subseteq> set edges" and "distinct (map ev_id events)"
  shows "loop_ok c events edges st'"
  using assms
proof (induction es arbitrary: st)
  case (Cons e es)
  then obtain st1 where one: "caller_step c (event_table events) (event_table (filter (contract_targets c) events)) e st = Inr st1"
    and rest: "caller_loop c (event_table events) (event_table (filter (contract_targets c) events)) es st1 = Inr st'"
    by (auto simp: rbind_eq_Inr_iff)
  have "loop_ok c events edges st1" using caller_step_ok [OF one] Cons.prems by simp
  with Cons.IH [OF rest] Cons.prems show ?case by simp
qed simp

lemma event_table_distinct: "distinct (map fst (event_table events))"
proof -
  have "distinct (map fst (fold (\<lambda>v. dset (ev_id v) v) events d))" if "distinct (map fst d)" for d :: "(pystr, event) dict"
    using that by (induction events arbitrary: d) simp_all
  then show ?thesis by (simp add: event_table_def)
qed

lemma event_table_mem:
  assumes "(i, v) \<in> set (event_table events)"
  shows "v \<in> set events \<and> ev_id v = i"
proof -
  have "distinct (map fst (event_table events))" by (rule event_table_distinct)
  then have "dget (event_table events) i = Some v" using assms by simp
  then show ?thesis by (rule event_table_get)
qed

lemma misdeclared_ok: "distinct (misdeclared (event_table events)) \<and> set (misdeclared (event_table events)) \<subseteq> ev_id ` set events"
proof
  have "distinct (map fst (event_table events))" by (rule event_table_distinct)
  then show "distinct (misdeclared (event_table events))"
    by (simp add: misdeclared_def distinct_map_filter)
  show "set (misdeclared (event_table events)) \<subseteq> ev_id ` set events"
    by (auto simp: misdeclared_def dest!: event_table_mem)
qed

section \<open>The counts of the callers\<close>

lemma traverse_result: "traverse f xs = Inr ys \<Longrightarrow> x \<in> set xs \<Longrightarrow> \<exists>y\<in>set ys. f x = Inr y"
proof (induction xs arbitrary: ys)
  case (Cons z xs)
  then show ?case by (auto simp: rbind_eq_Inr_iff)
qed simp

definition own_targets :: "callers \<Rightarrow> pystr \<Rightarrow> pystr list" where
  "own_targets callers k = map fst (filter (\<lambda>(i, a). ca_event_id a = k) callers)"

definition group_target :: "pystr \<times> caller_attribution \<Rightarrow> (pystr, pystr list) dict \<Rightarrow> (pystr, pystr list) dict" where
  "group_target = (\<lambda>(i, c) d. dset (ca_event_id c) (dget_or d (ca_event_id c) [] @ [i]) d)"

lemma group_targets_get:
  "dget_or (fold group_target callers d) k [] = dget_or d k [] @ own_targets callers k"
  by (induction callers arbitrary: d) (auto simp: own_targets_def group_target_def)

lemma group_targets_distinct:
  "distinct (map fst d) \<Longrightarrow> distinct (map fst (fold group_target callers d))"
  by (induction callers arbitrary: d) (auto simp: group_target_def)

lemma group_targets_key:
  "has_key (fold group_target callers d) k \<longleftrightarrow> has_key d k \<or> k \<in> ca_event_id ` snd ` set callers"
  by (induction callers arbitrary: d) (auto simp: group_target_def has_key_iff)

lemma callers_targets_eq: "callers_targets callers = fold group_target callers []"
  by (simp add: callers_targets_def group_target_def)

lemma callers_targets_mem:
  "(k, ts) \<in> set (callers_targets callers) \<longleftrightarrow> k \<in> ca_event_id ` snd ` set callers \<and> ts = own_targets callers k"
proof -
  let ?d = "callers_targets callers"
  have d: "distinct (map fst ?d)" unfolding callers_targets_eq by (rule group_targets_distinct) simp
  have key: "has_key ?d k \<longleftrightarrow> k \<in> ca_event_id ` snd ` set callers"
    unfolding callers_targets_eq using group_targets_key [of callers "[]" k] by (simp add: has_key_def [of "[]"])
  have get: "dget_or ?d k [] = own_targets callers k" unfolding callers_targets_eq by (simp add: group_targets_get)
  have "(k, ts) \<in> set ?d \<longleftrightarrow> dget ?d k = Some ts" using d by (metis map_of_SomeD map_of_is_SomeI)
  with key get show ?thesis by (auto simp: has_key_iff dget_or_def)
qed

lemma miscounted_ok:
  assumes "miscounted c (event_table events) callers = Inr wrong" and "(i, a) \<in> set callers" and "i \<notin> set wrong"
  shows "\<exists>source. dget (event_table events) (ca_event_id a) = Some source \<and>
    count_agrees c source (length (own_targets callers (ca_event_id a)))"
proof -
  let ?k = "ca_event_id a" and ?table = "event_table events"
  obtain tss where run: "traverse (\<lambda>(i, ts). rbind (find ?table i) (\<lambda>source.
      Inr (if count_agrees c source (length ts) then [] else ts))) (callers_targets callers) = Inr tss" and w: "wrong = concat tss"
    using assms(1) by (auto simp: miscounted_def rbind_eq_Inr_iff)
  have group: "(?k, own_targets callers ?k) \<in> set (callers_targets callers)"
    using assms(2) by (force simp: callers_targets_mem)
  have own: "i \<in> set (own_targets callers ?k)" using assms(2) by (force simp: own_targets_def)
  from traverse_result [OF run group] obtain ts where ts: "ts \<in> set tss" and at: "rbind (find ?table ?k) (\<lambda>source.
      Inr (if count_agrees c source (length (own_targets callers ?k)) then [] else own_targets callers ?k)) = Inr ts"
    by auto
  from at obtain source where s: "dget ?table ?k = Some source" and
    t: "ts = (if count_agrees c source (length (own_targets callers ?k)) then [] else own_targets callers ?k)"
    by (auto simp: rbind_eq_Inr_iff split: option.splits)
  have "count_agrees c source (length (own_targets callers ?k))"
  proof (rule ccontr)
    assume "\<not> ?thesis"
    with t own ts have "i \<in> set wrong" by (auto simp: w)
    with assms(3) show False ..
  qed
  with s show ?thesis by blast
qed

definition declares_enough :: "caller_contract \<Rightarrow> event list \<Rightarrow> callers \<Rightarrow> bool" where
  "declares_enough c events callers \<longleftrightarrow> list_all (\<lambda>source.
     own_targets callers (ev_id source) = [] \<or>
     int_in (\<lambda>n. int (length (own_targets callers (ev_id source))) \<le> n) (eget source (ct_count_attribute c))) events"

definition target_ids :: "caller_contract \<Rightarrow> event list \<Rightarrow> pystr set" where
  "target_ids c events = ev_id ` {v \<in> set events. contract_targets c v}"

definition named_ids :: "caller_contract \<Rightarrow> event list \<Rightarrow> pystr set" where
  "named_ids c events = ev_id ` {v \<in> set events. contract_targets c v \<and> eget v ''caller_event_id'' \<noteq> JNull}"

lemma own_targets_filter: "length (own_targets (filter P callers) k) \<le> length (own_targets callers k)"
  by (induction callers) (auto simp: own_targets_def)

lemma justified_source: "justified c events edges (i, a) \<Longrightarrow>
    \<exists>source\<in>set events. ev_id source = ca_event_id a \<and> (\<exists>n. eget source (ct_count_attribute c) = JInt n)"
  by (auto simp: justified_def witnessed_def attribution_of_def)

lemma miscounted_subset:
  assumes "miscounted c by_id found = Inr wrong"
  shows "set wrong \<subseteq> fst ` set found"
proof
  fix i
  assume i: "i \<in> set wrong"
  obtain tss where run: "traverse (\<lambda>(i, ts). rbind (find by_id i) (\<lambda>source.
      Inr (if count_agrees c source (length ts) then [] else ts))) (callers_targets found) = Inr tss" and w: "wrong = concat tss"
    using assms by (auto simp: miscounted_def rbind_eq_Inr_iff)
  from i w obtain ts where ts: "ts \<in> set tss" "i \<in> set ts" by auto
  from traverse_Inr_mem [OF run ts(1)] obtain k us where us: "(k, us) \<in> set (callers_targets found)" and
    at: "rbind (find by_id k) (\<lambda>source. Inr (if count_agrees c source (length us) then [] else us)) = Inr ts" by auto
  have "i \<in> set us" using at ts(2) by (auto simp: rbind_eq_Inr_iff split: if_splits)
  with us show "i \<in> fst ` set found" by (auto simp: callers_targets_mem own_targets_def)
qed

lemma operation_callers_parts:
  assumes run: "operation_callers events edges c = Inr (callers, n)" and one: "distinct (map ev_id events)"
  obtains found invalid wrong where
    "loop_ok c events edges (found, invalid)" "miscounted c (event_table events) found = Inr wrong"
    "set wrong \<subseteq> fst ` set found"
    "callers = filter (\<lambda>(i, _). i \<notin> set (invalid @ wrong @ unresolved (event_table (filter (contract_targets c) events)) found)) found"
    "n = int (card (set (invalid @ wrong @ unresolved (event_table (filter (contract_targets c) events)) found)))"
proof -
  let ?targets = "event_table (filter (contract_targets c) events)"
  obtain found invalid wrong where
    loop: "caller_loop c (event_table events) ?targets edges ([], misdeclared ?targets) = Inr (found, invalid)" and
    wrong: "miscounted c (event_table events) found = Inr wrong" and
    callers: "callers = filter (\<lambda>(i, _). i \<notin> set (remdups (invalid @ wrong @ unresolved ?targets found))) found" and
    n: "n = int (length (remdups (invalid @ wrong @ unresolved ?targets found)))"
    using run by (auto simp: operation_callers_def Let_def rbind_eq_Inr_iff)
  have "loop_ok c events edges ([], misdeclared ?targets)"
    using misdeclared_ok [of "filter (contract_targets c) events"] by (auto simp: loop_ok_def)
  from caller_loop_ok [OF loop this _ one] have ok: "loop_ok c events edges (found, invalid)" by simp
  have "set wrong \<subseteq> fst ` set found" using miscounted_subset [OF wrong] .
  then show ?thesis using that [OF ok wrong] callers n by (simp add: length_remdups_card_conv)
qed

lemma found_targets:
  assumes "loop_ok c events edges (found, invalid)"
  shows "fst ` set found \<subseteq> target_ids c events" "set invalid \<subseteq> target_ids c events"
proof -
  have "list_all (justified c events edges) found" using assms by (simp add: loop_ok_def)
  then have "i \<in> target_ids c events" if "(i, a) \<in> set found" for i a
  proof -
    have "justified c events edges (i, a)" using that \<open>list_all _ found\<close> by (simp add: list_all_iff)
    then obtain source target e where "witnessed c events edges i a source target e" by (auto simp: justified_def)
    then have "target \<in> set events" "contract_targets c target" "ev_id target = i" by (simp_all add: witnessed_def)
    then show ?thesis unfolding target_ids_def by blast
  qed
  then show "fst ` set found \<subseteq> target_ids c events" by auto
  show "set invalid \<subseteq> target_ids c events" using assms by (simp add: loop_ok_def target_ids_def)
qed

lemma unresolved_targets:
  assumes "distinct (map ev_id events)"
  shows "set (unresolved (event_table (filter (contract_targets c) events)) found) = named_ids c events - fst ` set found"
proof -
  let ?targets = "filter (contract_targets c) events"
  have "(i, v) \<in> set (event_table ?targets) \<longleftrightarrow> v \<in> set ?targets \<and> ev_id v = i" for i v
  proof
    assume "v \<in> set ?targets \<and> ev_id v = i"
    moreover have "distinct (map ev_id ?targets)" using assms by (rule distinct_map_filter)
    ultimately show "(i, v) \<in> set (event_table ?targets)" using event_table_unique [of ?targets v] by (auto dest: map_of_SomeD)
  qed (rule event_table_mem)
  then have "i \<in> set (unresolved (event_table ?targets) found) \<longleftrightarrow>
      (\<exists>v. v \<in> set ?targets \<and> ev_id v = i \<and> eget v ''caller_event_id'' \<noteq> JNull \<and> i \<notin> fst ` set found)" for i
    by (simp add: unresolved_def has_key_def image_iff split_beta) auto
  then show ?thesis unfolding named_ids_def by (auto simp: image_iff)
qed

lemma operation_callers_law:
  assumes "operation_callers events edges c = Inr (callers, n)" and "distinct (map ev_id events)"
  shows "distinct (map fst callers) \<and> list_all (justified c events edges) callers \<and> declares_enough c events callers \<and>
    int (card (named_ids c events)) \<le> int (length callers) + n \<and>
    int (length callers) + n \<le> int (card (target_ids c events))"
proof -
  let ?targets = "event_table (filter (contract_targets c) events)"
  obtain found invalid wrong where ok: "loop_ok c events edges (found, invalid)" and
    wrong: "miscounted c (event_table events) found = Inr wrong" "set wrong \<subseteq> fst ` set found" and
    callers: "callers = filter (\<lambda>(i, _). i \<notin> set (invalid @ wrong @ unresolved ?targets found)) found" and
    n: "n = int (card (set (invalid @ wrong @ unresolved ?targets found)))"
    using operation_callers_parts [OF assms] by blast
  define bad where "bad = set (invalid @ wrong @ unresolved ?targets found)"
  have callers': "callers = filter (\<lambda>(i, _). i \<notin> bad) found" and n': "n = int (card bad)" by (simp_all add: callers n bad_def)
  have distinct: "distinct (map fst callers)" and just: "list_all (justified c events edges) callers"
    using ok by (auto simp: loop_ok_def callers' list_all_iff distinct_map_filter)
  have "declares_enough c events callers"
    unfolding declares_enough_def list_all_iff
  proof
    fix source
    assume source: "source \<in> set events"
    show "own_targets callers (ev_id source) = [] \<or>
      int_in (\<lambda>k. int (length (own_targets callers (ev_id source))) \<le> k) (eget source (ct_count_attribute c))"
    proof (cases "own_targets callers (ev_id source) = []")
      case False
      then obtain i a where a: "(i, a) \<in> set callers" "ca_event_id a = ev_id source"
        by (auto simp: own_targets_def filter_empty_conv)
      then have "(i, a) \<in> set found" "i \<notin> set wrong" by (auto simp: callers' bad_def)
      from miscounted_ok [OF wrong(1) this] have agrees: "count_agrees c source (length (own_targets found (ev_id source)))"
        using event_table_unique [OF assms(2) source] a(2) by simp
      obtain w m where w: "w \<in> set events" "ev_id w = ca_event_id a" "eget w (ct_count_attribute c) = JInt m"
        using justified_source [of c events edges i a] just a(1) unfolding list_all_iff by blast
      then have "w = source" using source a(2) assms(2) by (auto simp: distinct_map inj_on_def)
      with w(3) agrees have "int (length (own_targets found (ev_id source))) = m"
        by (simp add: count_agrees_def)
      moreover have "length (own_targets callers (ev_id source)) \<le> length (own_targets found (ev_id source))"
        unfolding callers' by (rule own_targets_filter)
      ultimately show ?thesis using w(3) \<open>w = source\<close> by (simp add: int_in_def)
    qed simp
  qed
  moreover have keys: "length callers = card (fst ` set callers)"
    using distinct_card [OF distinct] by simp
  have disjoint: "fst ` set callers \<inter> bad = {}" by (auto simp: callers')
  have sub: "fst ` set callers \<union> bad \<subseteq> target_ids c events"
    using found_targets [OF ok] wrong(2) unresolved_targets [OF assms(2), of c found]
    by (auto simp: callers' bad_def named_ids_def target_ids_def)
  have names: "named_ids c events \<subseteq> fst ` set callers \<union> bad"
  proof
    fix i
    assume "i \<in> named_ids c events"
    then consider "i \<in> bad" | "i \<in> fst ` set found" "i \<notin> bad"
      using unresolved_targets [OF assms(2), of c found] by (auto simp: bad_def)
    then show "i \<in> fst ` set callers \<union> bad" by cases (auto simp: callers' image_iff)
  qed
  have finite: "finite bad" "finite (target_ids c events)" by (simp_all add: bad_def target_ids_def)
  have "card (fst ` set callers \<union> bad) = length callers + card bad"
    using card_Un_disjoint [of "fst ` set callers" bad] finite disjoint keys by simp
  moreover have "card (named_ids c events) \<le> card (fst ` set callers \<union> bad)"
    using names finite by (intro card_mono) simp_all
  moreover have "card (fst ` set callers \<union> bad) \<le> card (target_ids c events)" using sub finite by (intro card_mono)
  ultimately show ?thesis using distinct just n' by simp
qed

text \<open>C10. Every operation of the result is attributed on the evidence of an edge from a call site that
  agrees with it, no call site is given more operations than it declares, and every operation that names
  a caller is either attributed or counted as invalid.\<close>

theorem attribution_is_justified:
  assumes "operation_callers events edges c = Inr (callers, n)" and "distinct (map ev_id events)"
  shows "distinct (map fst callers) \<and> list_all (justified c events edges) callers \<and> declares_enough c events callers \<and>
    int (card (named_ids c events)) \<le> int (length callers) + n \<and>
    int (length callers) + n \<le> int (card (target_ids c events))"
  using operation_callers_law [OF assms] .

text \<open>A call site that launches one subprocess.\<close>

definition sample_callsite :: event where
  "sample_callsite = \<lparr>ev_id = lit ''c'', ev_kind = callsite_kind, ev_name = lit ''m.f'', ev_entity_id = None,
     ev_started_at_ns = Some 0, ev_finished_at_ns = Some 0, ev_clock_domain = None, ev_uncertainty_ns = None, ev_sequence = None,
     ev_attributes = [(lit ''source'', JStr (ct_source subprocess_contract)), (lit ''arguments_captured'', JBool False),
       (lit ''locals_captured'', JBool False), (lit ''module'', jtext ''m''), (lit ''qualname'', jtext ''f''),
       (lit ''filename'', jtext ''m.py''), (lit ''firstlineno'', JInt 1), (lit ''subprocess_count'', JInt 1),
       (lit ''scope'', jtext ''application'')]\<rparr>"

definition sample_launch :: event where
  "sample_launch = \<lparr>ev_id = lit ''s'', ev_kind = lit ''subprocess.run'', ev_name = lit ''ls'', ev_entity_id = None,
     ev_started_at_ns = Some 3, ev_finished_at_ns = Some 5, ev_clock_domain = None, ev_uncertainty_ns = None, ev_sequence = None,
     ev_attributes = [(lit ''caller_event_id'', jtext ''c'')]\<rparr>"

definition sample_launch_edge :: causal_edge where
  "sample_launch_edge = \<lparr>edge_source = lit ''c'', edge_target = lit ''s'', edge_kind = lit ''launches'', edge_confidence = Fin 1,
     edge_attributes = [(lit ''observation'', jtext ''exact''), (lit ''source'', JStr (ct_source subprocess_contract))]\<rparr>"

theorem attribution_is_justified_witness:
  "\<exists>callers. operation_callers [sample_callsite, sample_launch] [sample_launch_edge] subprocess_contract = Inr (callers, 0) \<and>
     map fst callers = [lit ''s''] \<and>
     list_all (justified subprocess_contract [sample_callsite, sample_launch] [sample_launch_edge]) callers"
proof -
  have "case operation_callers [sample_callsite, sample_launch] [sample_launch_edge] subprocess_contract of
      Inr (callers, n) \<Rightarrow> n = 0 \<and> map fst callers = [lit ''s''] | _ \<Rightarrow> False"
    by code_simp
  then obtain callers where
    run: "operation_callers [sample_callsite, sample_launch] [sample_launch_edge] subprocess_contract = Inr (callers, 0)"
      "map fst callers = [lit ''s'']"
    by (auto split: sum.splits)
  have "distinct (map ev_id [sample_callsite, sample_launch])" by code_simp
  note law = attribution_is_justified [OF run(1) this]
  show ?thesis using run law by (intro exI [of _ callers] conjI) simp_all
qed

end
