(* ===== verification/HttpCapture.thy ===== *)
theory HttpCapture
  imports Callers
begin

text \<open>\<open>batchscope/analysis/_http.py\<close>: the outbound HTTP requests of a run and the summary of their capture.\<close>

section \<open>Requests\<close>

record http_request =
  hr_event_id :: pystr
  hr_method :: pystr
  hr_scheme :: pystr
  hr_server_port :: "int option"
  hr_parent_pid :: int
  hr_role :: pystr
  hr_outcome :: pystr
  hr_status_code :: "int option"
  hr_error_type :: "pystr option"
  hr_started_at_ns :: int
  hr_duration_seconds :: "pyfloat option"
  hr_caller :: "caller_attribution option"
  hr_adapter :: pystr

definition http_adapters :: "pystr list" where
  "http_adapters = map lit [''stdlib.http.client'', ''httpcore.sync'', ''httpcore.async'', ''aiohttp.async'']"

definition default_http_adapter :: pystr where
  "default_http_adapter = lit ''stdlib.http.client''"

definition http_outcomes :: "pystr list" where
  "http_outcomes = map lit [''response'', ''request_error'', ''closed'', ''unknown'']"

definition http_schemes :: "pystr list" where
  "http_schemes = map lit [''http'', ''https'']"

definition method_ok :: "json \<Rightarrow> bool" where
  "method_ok j = (case j of
     JStr s \<Rightarrow> s \<noteq> [] \<and> length s \<le> 32 \<and>
       (s = lit ''<method>'' \<or> list_all (\<lambda>c. c \<in> set (lit ''ABCDEFGHIJKLMNOPQRSTUVWXYZ-'')) s)
   | _ \<Rightarrow> False)"

definition port_ok :: "json \<Rightarrow> bool" where
  "port_ok = null_or (int_in (\<lambda>n. 0 < n \<and> n \<le> 65535))"

definition known_text :: "pystr list \<Rightarrow> json \<Rightarrow> bool" where
  "known_text names j = (case j of JStr s \<Rightarrow> s \<in> set names | _ \<Rightarrow> False)"

definition http_malformed :: "event \<Rightarrow> bool res" where
  "http_malformed v = any_of
     [Inr (ev_started_at_ns v = None),
      Inr (eget v ''source'' \<noteq> jtext ''python-http-client-wrapper''),
      Inr (\<not> method_ok (eget v ''method'')),
      Inr (ev_name v \<noteq> lit ''HTTP '' @ the_text (eget v ''method'')),
      Inr (\<not> known_text http_adapters (jget_or (ev_attributes v) ''adapter'' (JStr default_http_adapter))),
      not_member (eget v ''scheme'') http_schemes,
      Inr (eget v ''server_address'' \<noteq> JNull),
      Inr (eget v ''server_identity_policy'' \<noteq> jtext ''redact''),
      Inr (\<not> port_ok (eget v ''server_port'')),
      Inr (\<not> pid_ok (eget v ''parent_pid'')),
      not_member (eget v ''role'') roles,
      not_member (eget v ''outcome'') http_outcomes,
      Inr (\<not> null_or (int_in (\<lambda>n. 100 \<le> n \<and> n \<le> 999)) (eget v ''status_code'')),
      Inr (\<not> null_or filled_text (eget v ''error.type'')),
      Inr (\<not> all_false (ev_attributes v) [''headers_captured'', ''body_captured'', ''path_captured'', ''query_captured'',
        ''response_body_captured'']),
      Inr (eget v ''duration_boundary'' \<noteq> jtext ''response_headers'')]"

definition http_contradicts :: "event \<Rightarrow> pystr \<Rightarrow> bool" where
  "http_contradicts v outcome =
     (let unfinished = (ev_finished_at_ns v = None); coded = (eget v ''status_code'' \<noteq> JNull);
          failed = (eget v ''error.type'' \<noteq> JNull); flagged = is_true (eget v ''error'') in
      (outcome = lit ''response'' \<and> (unfinished \<or> failed \<or> flagged)) \<or>
      (outcome = lit ''request_error'' \<and> (unfinished \<or> coded \<or> \<not> failed \<or> \<not> flagged)) \<or>
      (outcome = lit ''closed'' \<and> (unfinished \<or> coded \<or> failed \<or> flagged)) \<or>
      (outcome = lit ''unknown'' \<and> (\<not> unfinished \<or> coded \<or> failed \<or> flagged)))"

definition http_request_of :: "callers \<Rightarrow> event \<Rightarrow> http_request option res" where
  "http_request_of callers v =
     rbind (http_malformed v) (\<lambda>bad.
     if bad then Inr None
     else (case ev_started_at_ns v of
       None \<Rightarrow> Inr None
     | Some started \<Rightarrow>
        let outcome = literal_of http_outcomes (eget v ''outcome'') in
        if http_contradicts v outcome then Inr None
        else rbind (elapsed_seconds started (ev_finished_at_ns v)) (\<lambda>duration.
          Inr (Some \<lparr>hr_event_id = ev_id v, hr_method = the_text (eget v ''method''),
            hr_scheme = literal_of http_schemes (eget v ''scheme''), hr_server_port = int_or_none (eget v ''server_port''),
            hr_parent_pid = the_int (eget v ''parent_pid''), hr_role = literal_of roles (eget v ''role''),
            hr_outcome = outcome, hr_status_code = int_or_none (eget v ''status_code''),
            hr_error_type = text_or_none (eget v ''error.type''), hr_started_at_ns = started,
            hr_duration_seconds = duration, hr_caller = dget callers (ev_id v),
            hr_adapter = the_text (jget_or (ev_attributes v) ''adapter'' (JStr default_http_adapter))\<rparr>))))"

definition is_http_event :: "event \<Rightarrow> bool" where
  "is_http_event v \<longleftrightarrow> ev_kind v = lit ''http.client.request''"

definition max_http_request_summaries :: nat where
  "max_http_request_summaries = 100"

definition http_requests ::
  "event list \<Rightarrow> causal_edge list \<Rightarrow> (http_request list \<times> int \<times> int \<times> int \<times> int \<times> pystr list) res" where
  "http_requests events edges =
     rbind (operation_callers events edges http_contract) (\<lambda>(callers, invalid_callers).
     rbind (read_operations is_http_event (http_request_of callers) events) (\<lambda>(requests, invalid_events).
     Inr (take max_http_request_summaries
            (sort_key (\<lambda>r. (hr_started_at_ns r, hr_parent_pid r, hr_event_id r)) requests),
          invalid_events, invalid_callers, caller_total callers, int (length callers),
          sort (remdups (map hr_adapter requests)))))"

section \<open>The summary of the capture\<close>

definition http_capture_summary ::
  "attrs \<Rightarrow> int \<Rightarrow> int \<Rightarrow> int \<Rightarrow> int \<Rightarrow> int \<Rightarrow> pystr list \<Rightarrow> captured_summary option" where
  "http_capture_summary metadata event_count invalid_events caller_count attributed invalid_callers observed =
     (case instrumented metadata ''http_capture'' of
        None \<Rightarrow> None
      | Some d \<Rightarrow>
          (case declared_adapters (jget_or d ''adapters'' (JList [JStr default_http_adapter])) http_adapters
                  (Some default_http_adapter) observed of (adapters, unacceptable) \<Rightarrow>
           Some (summary_of d ''request''
             (jget d ''observer'' \<noteq> jtext ''python-http-client-wrapper'' \<or> \<not> is_true (jget d ''zero_code'') \<or>
              jget d ''server_identity_policy'' \<noteq> jtext ''redact'' \<or>
              \<not> is_true (jget d ''method_captured'') \<or> \<not> is_true (jget d ''scheme_captured'') \<or>
              \<not> all_false d [''server_address_captured'', ''path_captured'', ''query_captured'', ''headers_captured'',
                ''body_captured'', ''response_body_captured''] \<or> unacceptable)
             event_count invalid_events caller_count attributed invalid_callers adapters 0)))"

end
