(* ===== verification/NetworkCapture.thy ===== *)
theory NetworkCapture
  imports HttpCapture
begin

text \<open>
  \<open>batchscope/analysis/_network.py\<close>: the outbound connections of a run and the phases that set them
  up, their hotspots, the bottlenecks they show and the summaries of their captures.
\<close>

section \<open>Connections\<close>

record network_connection =
  nc_event_id :: pystr
  nc_adapter :: pystr
  nc_transport :: pystr
  nc_address_family :: pystr
  nc_server_port :: "int option"
  nc_tls_requested :: "bool option"
  nc_parent_pid :: int
  nc_role :: pystr
  nc_outcome :: pystr
  nc_error_type :: "pystr option"
  nc_started_at_ns :: int
  nc_duration_seconds :: "pyfloat option"
  nc_caller :: "caller_attribution option"

definition network_adapters :: "pystr list" where
  "network_adapters = map lit [''stdlib.socket.connect'', ''asyncio.create_connection'', ''asyncio.create_unix_connection'']"

definition transports :: "pystr list" where
  "transports = map lit [''tcp'', ''unix'']"

definition address_families :: "pystr list" where
  "address_families = map lit [''ipv4'', ''ipv6'', ''unix'', ''unknown'']"

definition connection_outcomes :: "pystr list" where
  "connection_outcomes = map lit [''connected'', ''connect_error'', ''unknown'']"

text \<open>\<open>f"{transport.upper()} connect"\<close> of the two transports.\<close>

definition connection_title :: "json \<Rightarrow> pystr" where
  "connection_title j = (if j = jtext ''tcp'' then lit ''TCP connect'' else lit ''UNIX connect'')"

definition connection_malformed :: "event \<Rightarrow> bool res" where
  "connection_malformed v = any_of
     [Inr (ev_started_at_ns v = None),
      Inr (eget v ''source'' \<noteq> jtext ''python-network-connection-wrapper''),
      Inr (\<not> known_text network_adapters (eget v ''adapter'')),
      Inr (\<not> known_text transports (eget v ''transport'')),
      Inr (\<not> known_text address_families (eget v ''address_family'')),
      Inr ((eget v ''transport'' = jtext ''unix'') \<noteq> (eget v ''address_family'' = jtext ''unix'')),
      Inr (ev_name v \<noteq> connection_title (eget v ''transport'')),
      Inr (eget v ''server_address'' \<noteq> JNull),
      Inr (eget v ''server_identity_policy'' \<noteq> jtext ''redact''),
      Inr (\<not> port_ok (eget v ''server_port'')),
      Inr (eget v ''transport'' = jtext ''unix'' \<and> eget v ''server_port'' \<noteq> JNull),
      Inr (\<not> null_or (\<lambda>j. bool_or_none j \<noteq> None) (eget v ''tls_requested'')),
      Inr (\<not> pid_ok (eget v ''parent_pid'')),
      not_member (eget v ''role'') roles,
      not_member (eget v ''outcome'') connection_outcomes,
      Inr (\<not> null_or filled_text (eget v ''error.type'')),
      Inr (\<not> all_false (ev_attributes v) [''path_captured'', ''credentials_captured'']),
      Inr (eget v ''duration_boundary'' \<noteq> jtext ''connection_ready'')]"

text \<open>A done, a failed or an unfinished operation against its other fields.\<close>

definition outcome_contradicts :: "event \<Rightarrow> pystr \<Rightarrow> pystr \<Rightarrow> pystr \<Rightarrow> bool" where
  "outcome_contradicts v finished failed outcome =
     (let unfinished = (ev_finished_at_ns v = None); error_named = (eget v ''error.type'' \<noteq> JNull);
          flagged = is_true (eget v ''error'') in
      (outcome = finished \<and> (unfinished \<or> error_named \<or> flagged)) \<or>
      (outcome = failed \<and> (unfinished \<or> \<not> error_named \<or> \<not> flagged)) \<or>
      (outcome = lit ''unknown'' \<and> (\<not> unfinished \<or> error_named \<or> flagged)))"

definition connection_of :: "callers \<Rightarrow> event \<Rightarrow> network_connection option res" where
  "connection_of callers v =
     rbind (connection_malformed v) (\<lambda>bad.
     if bad then Inr None
     else (case ev_started_at_ns v of
       None \<Rightarrow> Inr None
     | Some started \<Rightarrow>
        let outcome = literal_of connection_outcomes (eget v ''outcome'') in
        if outcome_contradicts v (lit ''connected'') (lit ''connect_error'') outcome then Inr None
        else rbind (elapsed_seconds started (ev_finished_at_ns v)) (\<lambda>duration.
          Inr (Some \<lparr>nc_event_id = ev_id v, nc_adapter = the_text (eget v ''adapter''),
            nc_transport = literal_of transports (eget v ''transport''),
            nc_address_family = literal_of address_families (eget v ''address_family''),
            nc_server_port = int_or_none (eget v ''server_port''), nc_tls_requested = bool_or_none (eget v ''tls_requested''),
            nc_parent_pid = the_int (eget v ''parent_pid''), nc_role = literal_of roles (eget v ''role''),
            nc_outcome = outcome, nc_error_type = text_or_none (eget v ''error.type''), nc_started_at_ns = started,
            nc_duration_seconds = duration, nc_caller = dget callers (ev_id v)\<rparr>))))"

definition is_connection_event :: "event \<Rightarrow> bool" where
  "is_connection_event v \<longleftrightarrow> ev_kind v = lit ''network.connect''"

definition network_connections ::
  "event list \<Rightarrow> causal_edge list \<Rightarrow> (network_connection list \<times> int \<times> int \<times> int \<times> int \<times> pystr list) res" where
  "network_connections events edges =
     rbind (operation_callers events edges network_contract) (\<lambda>(callers, invalid_callers).
     rbind (read_operations is_connection_event (connection_of callers) events) (\<lambda>(connections, invalid_events).
     Inr (sort_key (\<lambda>c. (nc_started_at_ns c, nc_parent_pid c, nc_event_id c)) connections,
          invalid_events, invalid_callers, caller_total callers, int (length callers),
          sort (remdups (map nc_adapter connections)))))"

section \<open>Setup phases\<close>

record setup_phase =
  np_event_id :: pystr
  np_phase :: pystr
  np_adapter :: pystr
  np_parent_pid :: int
  np_role :: pystr
  np_outcome :: pystr
  np_error_type :: "pystr option"
  np_started_at_ns :: int
  np_duration_seconds :: "pyfloat option"
  np_caller :: "caller_attribution option"

definition setup_adapters :: "pystr list" where
  "setup_adapters = map lit [''stdlib.socket.getaddrinfo'', ''stdlib.ssl.SSLObject.do_handshake'',
     ''stdlib.ssl.SSLSocket.do_handshake'']"

definition resolver_adapter :: pystr where
  "resolver_adapter = lit ''stdlib.socket.getaddrinfo''"

definition phase_names :: "pystr list" where
  "phase_names = map lit [''dns'', ''tls'']"

definition setup_outcomes :: "pystr list" where
  "setup_outcomes = map lit [''completed'', ''setup_error'', ''unknown'']"

definition expected_phase :: "json \<Rightarrow> (pystr \<times> pystr) option" where
  "expected_phase j =
     (if j = jtext ''dns'' then Some (lit ''network.resolve'', lit ''DNS resolution'')
      else if j = jtext ''tls'' then Some (lit ''network.tls_handshake'', lit ''TLS handshake'')
      else None)"

definition setup_malformed :: "event \<Rightarrow> bool res" where
  "setup_malformed v = any_of
     [Inr (ev_started_at_ns v = None),
      Inr (eget v ''source'' \<noteq> jtext ''python-network-setup-wrapper''),
      Inr (expected_phase (eget v ''phase'') \<noteq> Some (ev_kind v, ev_name v)),
      Inr (\<not> known_text setup_adapters (eget v ''adapter'')),
      Inr ((eget v ''phase'' = jtext ''dns'') \<noteq> (eget v ''adapter'' = JStr resolver_adapter)),
      Inr (\<not> pid_ok (eget v ''parent_pid'')),
      not_member (eget v ''role'') roles,
      not_member (eget v ''outcome'') setup_outcomes,
      Inr (\<not> null_or filled_text (eget v ''error.type'')),
      Inr (\<not> all_false (ev_attributes v) [''hostname_captured'', ''server_address_captured'', ''sni_captured'',
        ''certificate_captured'', ''credentials_captured'']),
      Inr (eget v ''duration_boundary'' \<noteq> eget v ''phase'')]"

definition setup_phase_of :: "callers \<Rightarrow> event \<Rightarrow> setup_phase option res" where
  "setup_phase_of callers v =
     rbind (setup_malformed v) (\<lambda>bad.
     if bad then Inr None
     else (case ev_started_at_ns v of
       None \<Rightarrow> Inr None
     | Some started \<Rightarrow>
        let outcome = literal_of setup_outcomes (eget v ''outcome'') in
        if outcome_contradicts v (lit ''completed'') (lit ''setup_error'') outcome then Inr None
        else rbind (elapsed_seconds started (ev_finished_at_ns v)) (\<lambda>duration.
          Inr (Some \<lparr>np_event_id = ev_id v, np_phase = literal_of phase_names (eget v ''phase''),
            np_adapter = the_text (eget v ''adapter''), np_parent_pid = the_int (eget v ''parent_pid''),
            np_role = literal_of roles (eget v ''role''), np_outcome = outcome,
            np_error_type = text_or_none (eget v ''error.type''), np_started_at_ns = started,
            np_duration_seconds = duration, np_caller = dget callers (ev_id v)\<rparr>))))"

definition is_setup_event :: "event \<Rightarrow> bool" where
  "is_setup_event v \<longleftrightarrow> ev_kind v = lit ''network.resolve'' \<or> ev_kind v = lit ''network.tls_handshake''"

definition setup_phases ::
  "event list \<Rightarrow> causal_edge list \<Rightarrow> (setup_phase list \<times> int \<times> int \<times> int \<times> int \<times> pystr list) res" where
  "setup_phases events edges =
     rbind (operation_callers events edges network_setup_contract) (\<lambda>(callers, invalid_callers).
     rbind (read_operations is_setup_event (setup_phase_of callers) events) (\<lambda>(phases, invalid_events).
     Inr (sort_key (\<lambda>p. (np_started_at_ns p, np_parent_pid p, np_event_id p)) phases,
          invalid_events, invalid_callers, caller_total callers, int (length callers),
          sort (remdups (map np_adapter phases)))))"

section \<open>Hotspots\<close>

record setup_hotspot =
  sh_phase :: pystr
  sh_adapter :: pystr
  sh_counts :: hotspot_counts
  sh_caller :: "caller_attribution option"

definition setup_key :: "setup_phase \<Rightarrow> pystr option \<times> pystr \<times> pystr" where
  "setup_key p = (caller_id (np_caller p), np_phase p, np_adapter p)"

definition add_phase :: "setup_phase \<Rightarrow> hotspot_counts \<Rightarrow> hotspot_counts" where
  "add_phase p = add_operation (lit ''completed'') (lit ''setup_error'') (np_outcome p) (np_duration_seconds p)"

definition setup_hotspots :: "setup_phase list \<Rightarrow> setup_hotspot list" where
  "setup_hotspots phases =
     sort_key (\<lambda>h. (- hc_failed (sh_counts h), - hc_count (sh_counts h), descending (hc_total_seconds (sh_counts h)),
        sh_phase h, caller_name (sh_caller h), sh_adapter h))
       (map (\<lambda>(_, p, c). \<lparr>sh_phase = np_phase p, sh_adapter = np_adapter p, sh_counts = c, sh_caller = np_caller p\<rparr>)
         (hotspot_table setup_key add_phase phases))"

record connection_hotspot =
  ch_adapter :: pystr
  ch_counts :: hotspot_counts
  ch_caller :: "caller_attribution option"

definition connection_key :: "network_connection \<Rightarrow> pystr option \<times> pystr" where
  "connection_key c = (caller_id (nc_caller c), nc_adapter c)"

definition add_connection :: "network_connection \<Rightarrow> hotspot_counts \<Rightarrow> hotspot_counts" where
  "add_connection c = add_operation (lit ''connected'') (lit ''connect_error'') (nc_outcome c) (nc_duration_seconds c)"

definition connection_hotspots :: "network_connection list \<Rightarrow> connection_hotspot list" where
  "connection_hotspots connections =
     sort_key (\<lambda>h. (- hc_failed (ch_counts h), - hc_count (ch_counts h), descending (hc_total_seconds (ch_counts h)),
        caller_name (ch_caller h), ch_adapter h))
       (map (\<lambda>(_, x, c). \<lparr>ch_adapter = nc_adapter x, ch_counts = c, ch_caller = nc_caller x\<rparr>)
         (hotspot_table connection_key add_connection connections))"

section \<open>Bottlenecks\<close>

definition usable_capture :: "captured_summary option \<Rightarrow> pyfloat option \<Rightarrow> (captured_summary \<times> pyfloat) option" where
  "usable_capture capture reported = (case (capture, reported) of
     (Some c, Some t) \<Rightarrow>
       if cs_status c \<in> {lit ''unavailable'', lit ''invalid''} \<or> fle t (Fin 0) then None else Some (c, t)
   | _ \<Rightarrow> None)"

definition failure_confidence :: "captured_summary \<Rightarrow> rat" where
  "failure_confidence c = (if cs_status c = lit ''complete'' then 9 / 10 else 7 / 10)"

definition min_setup_seconds :: pyfloat where
  "min_setup_seconds = rnd (5 / 100)"

definition min_setup_ratio :: pyfloat where
  "min_setup_ratio = Fin (1 / 4)"

text \<open>The greatest duration of the completed operations, its share of the run and its operation.\<close>

definition slowest_share ::
  "('o \<Rightarrow> pyfloat option) \<Rightarrow> pyfloat \<Rightarrow> 'o list \<Rightarrow> ('o \<times> pyfloat \<times> pyfloat) option res" where
  "slowest_share duration total_time completed_operations = (case completed_operations of
     [] \<Rightarrow> Inr None
   | x # xs \<Rightarrow>
       let s = slowest duration x xs; d = (case duration s of None \<Rightarrow> Fin 0 | Some y \<Rightarrow> y) in
       rbind (fdiv d total_time) (\<lambda>ratio. Inr (Some (s, d, ratio))))"

definition long_enough :: "pyfloat \<Rightarrow> pyfloat \<Rightarrow> bool" where
  "long_enough d ratio \<longleftrightarrow> fle min_setup_seconds d \<and> fle min_setup_ratio ratio"

definition phase_bottlenecks ::
  "setup_phase list \<Rightarrow> captured_summary \<Rightarrow> pyfloat \<Rightarrow> string \<times> string \<times> string \<Rightarrow> bottleneck list res" where
  "phase_bottlenecks phases capture total_time = (\<lambda>(name, label, lower_label).
     let matching = filter (\<lambda>p. np_phase p = lit name) phases;
         failed = length (filter (\<lambda>p. np_outcome p = lit ''setup_error'') matching);
         failures = (if failed = 0 then [] else [bottleneck_of (name @ ''_failures'')
           [grouped_int (int failed), lit '' of '', grouped_int (int (length matching)), lit '' retained '',
            lit lower_label, lit '' attempts failed''] (failure_confidence capture)]) in
     rbind (slowest_share np_duration_seconds total_time
       (filter (\<lambda>p. np_outcome p = lit ''completed'' \<and> np_duration_seconds p \<noteq> None) matching)) (\<lambda>found.
     Inr (failures @ (case found of
         None \<Rightarrow> []
       | Some (_, d, ratio) \<Rightarrow> if \<not> long_enough d ratio then []
           else [bottleneck_of (name @ ''_latency'')
             [lit label, lit '' took '', fmt_fixed 3 d, lit ''s ('', fmt_percent ratio, lit '' of the run)''] (8 / 10)]))))"

definition setup_bottlenecks :: "setup_phase list \<Rightarrow> captured_summary option \<Rightarrow> pyfloat option \<Rightarrow> bottleneck list res" where
  "setup_bottlenecks phases capture reported = (case usable_capture capture reported of
     None \<Rightarrow> Inr []
   | Some (c, t) \<Rightarrow>
       rbind (traverse (phase_bottlenecks phases c t)
         [(''dns'', ''DNS resolution'', ''dns resolution''), (''tls'', ''TLS handshake'', ''tls handshake'')])
         (\<lambda>found. Inr (concat found)))"

definition connection_failures :: "network_connection list \<Rightarrow> captured_summary \<Rightarrow> bottleneck list" where
  "connection_failures connections capture =
     (let failed = length (filter (\<lambda>c. nc_outcome c = lit ''connect_error'') connections) in
      if failed = 0 then []
      else [bottleneck_of ''connection_failures''
        [grouped_int (int failed), lit '' of '', grouped_int (cs_operation_count capture),
         lit '' retained outbound connection '', lit (if cs_operation_count capture = 1 then ''attempt'' else ''attempts''),
         lit '' failed''] (failure_confidence capture)])"

definition connection_target :: "network_connection \<Rightarrow> pystr" where
  "connection_target c = nc_transport c @ lit ''://<redacted>'' @
     (case nc_server_port c of None \<Rightarrow> [] | Some p \<Rightarrow> lit '':'' @ int_text p)"

definition connection_setup :: "network_connection list \<Rightarrow> pyfloat \<Rightarrow> bottleneck list res" where
  "connection_setup connections total_time =
     rbind (slowest_share nc_duration_seconds total_time
       (filter (\<lambda>c. nc_outcome c = lit ''connected'' \<and> nc_duration_seconds c \<noteq> None) connections)) (\<lambda>found.
     Inr (case found of
         None \<Rightarrow> []
       | Some (c, d, ratio) \<Rightarrow> if \<not> long_enough d ratio then []
           else [bottleneck_of ''connection_setup''
             [connection_target c, lit '' took '', fmt_fixed 3 d, lit ''s to become ready ('', fmt_percent ratio,
              lit '' of the run)''] (8 / 10)]))"

definition connection_churn :: "captured_summary \<Rightarrow> pyfloat \<Rightarrow> bottleneck list res" where
  "connection_churn capture total_time =
     rbind (float_of_int (cs_operation_count capture)) (\<lambda>n.
     rbind (fdiv n total_time) (\<lambda>rate.
     Inr (if cs_operation_count capture < 10 \<or> \<not> fle (Fin 5) rate then []
          else [bottleneck_of ''connection_churn''
            [lit (if cs_status capture = lit ''complete'' then [] else ''at least ''), grouped_int (cs_operation_count capture),
             lit '' outbound connection attempts occurred ('', grouped_fixed1 rate,
             lit ''/s); inspect pooling or retry behavior'']
            (if cs_status capture = lit ''complete'' then 65 / 100 else 1 / 2)])))"

definition network_bottlenecks ::
  "network_connection list \<Rightarrow> captured_summary option \<Rightarrow> pyfloat option \<Rightarrow> bottleneck list res" where
  "network_bottlenecks connections capture reported = (case usable_capture capture reported of
     None \<Rightarrow> Inr []
   | Some (c, t) \<Rightarrow>
       rbind (connection_setup connections t) (\<lambda>slow.
       rbind (connection_churn c t) (\<lambda>churn.
       Inr (connection_failures connections c @ slow @ churn))))"

section \<open>The summaries of the captures\<close>

definition network_capture_summary ::
  "attrs \<Rightarrow> int \<Rightarrow> int \<Rightarrow> int \<Rightarrow> int \<Rightarrow> int \<Rightarrow> pystr list \<Rightarrow> int \<Rightarrow> captured_summary option" where
  "network_capture_summary metadata event_count invalid_events caller_count attributed invalid_callers observed hotspots =
     (case instrumented metadata ''network_capture'' of
        None \<Rightarrow> None
      | Some d \<Rightarrow>
          (case declared_adapters (jget_or d ''adapters'' (JList [jtext ''stdlib.socket.connect''])) network_adapters
                  (Some (lit ''stdlib.socket.connect'')) observed of (adapters, unacceptable) \<Rightarrow>
           Some (summary_of d ''connection''
             (jget d ''observer'' \<noteq> jtext ''python-network-connection-wrapper'' \<or> \<not> is_true (jget d ''zero_code'') \<or>
              jget d ''server_identity_policy'' \<noteq> jtext ''redact'' \<or>
              \<not> all_false d [''server_address_captured'', ''path_captured'', ''credentials_captured''] \<or> unacceptable)
             event_count invalid_events caller_count attributed invalid_callers adapters hotspots)))"

definition setup_capture_summary ::
  "attrs \<Rightarrow> int \<Rightarrow> int \<Rightarrow> int \<Rightarrow> int \<Rightarrow> int \<Rightarrow> pystr list \<Rightarrow> int \<Rightarrow> captured_summary option" where
  "setup_capture_summary metadata event_count invalid_events caller_count attributed invalid_callers observed hotspots =
     (case instrumented metadata ''network_setup_capture'' of
        None \<Rightarrow> None
      | Some d \<Rightarrow>
          (case declared_adapters (jget d ''adapters'') setup_adapters (Some resolver_adapter) observed of
             (adapters, unacceptable) \<Rightarrow>
           Some (summary_of d ''phase''
             (jget d ''observer'' \<noteq> jtext ''python-network-setup-wrapper'' \<or> \<not> is_true (jget d ''zero_code'') \<or>
              \<not> all_false d [''hostname_captured'', ''server_address_captured'', ''sni_captured'', ''certificate_captured'',
                ''credentials_captured''] \<or> unacceptable)
             event_count invalid_events caller_count attributed invalid_callers adapters hotspots)))"

end
