(* ===== verification/LogicalCapture.thy ===== *)
theory LogicalCapture
  imports NetworkCapture
begin

text \<open>
  \<open>batchscope/analysis/_logical.py\<close>: the logical operations of a run (database, cache, queue, broker,
  executor, scheduler and server), their hotspots and bottlenecks, and the summary of their capture.
\<close>

section \<open>Operations\<close>

record logical_operation =
  lo_event_id :: pystr
  lo_category :: pystr
  lo_operation :: pystr
  lo_adapter :: pystr
  lo_parent_pid :: int
  lo_role :: pystr
  lo_outcome :: pystr
  lo_error_type :: "pystr option"
  lo_status_code :: "int option"
  lo_started_at_ns :: int
  lo_duration_seconds :: "pyfloat option"
  lo_caller :: "caller_attribution option"

definition adapter_categories :: "(pystr, pystr) dict" where
  "adapter_categories = map (\<lambda>(a, c). (lit a, lit c))
     [(''stdlib.asyncio.TaskGroup'', ''scheduler''), (''stdlib.asyncio.create_task'', ''scheduler''),
      (''stdlib.asyncio.ensure_future'', ''scheduler''), (''stdlib.asyncio.gather'', ''scheduler''),
      (''stdlib.wsgiref'', ''server''), (''uvicorn.h11'', ''server''), (''uvicorn.httptools'', ''server''),
      (''stdlib.concurrent.futures.ProcessPoolExecutor'', ''executor''),
      (''stdlib.concurrent.futures.ThreadPoolExecutor'', ''executor''),
      (''stdlib.asyncio.Queue'', ''queue''), (''stdlib.queue.Queue'', ''queue''),
      (''stdlib.sqlite3.Connection'', ''database''), (''stdlib.sqlite3.Cursor'', ''database''),
      (''sqlalchemy.engine.Connection'', ''database''), (''sqlalchemy.orm.Session'', ''database''),
      (''sqlalchemy.ext.asyncio.AsyncConnection'', ''database''), (''sqlalchemy.ext.asyncio.AsyncSession'', ''database''),
      (''redis.Redis'', ''cache''), (''redis.Pipeline'', ''cache''), (''redis.asyncio.Redis'', ''cache''),
      (''redis.asyncio.Pipeline'', ''cache''), (''pika.BlockingChannel'', ''broker''),
      (''aiokafka.AIOKafkaProducer'', ''broker''), (''aiokafka.AIOKafkaConsumer'', ''broker'')]"

definition logical_adapters :: "pystr list" where
  "logical_adapters = map fst adapter_categories"

definition operation_titles :: "(pystr \<times> pystr, pystr) dict" where
  "operation_titles = map (\<lambda>(c, n, t). ((lit c, lit n), lit t))
     [(''cache'', ''batch'', ''Cache batch''), (''cache'', ''command'', ''Cache command''),
      (''database'', ''commit'', ''Database commit''), (''broker'', ''consume'', ''Broker consume''),
      (''database'', ''execute'', ''Database execute''), (''database'', ''executemany'', ''Database executemany''),
      (''database'', ''executescript'', ''Database script''), (''queue'', ''get'', ''Queue get''),
      (''broker'', ''publish'', ''Broker publish''), (''queue'', ''put'', ''Queue put''),
      (''database'', ''rollback'', ''Database rollback''), (''executor'', ''task'', ''Executor task''),
      (''scheduler'', ''task'', ''Async task''), (''server'', ''request'', ''Inbound HTTP request'')]"

definition logical_categories :: "pystr list" where
  "logical_categories = map lit [''broker'', ''cache'', ''database'', ''executor'', ''queue'', ''scheduler'', ''server'']"

definition logical_names :: "pystr list" where
  "logical_names = map lit [''batch'', ''command'', ''commit'', ''consume'', ''execute'', ''executemany'', ''executescript'',
     ''get'', ''publish'', ''put'', ''rollback'', ''request'', ''task'']"

definition logical_outcomes :: "pystr list" where
  "logical_outcomes = map lit [''completed'', ''operation_error'', ''unknown'']"

text \<open>The kind and the name an event of a category and an operation has.\<close>

definition logical_kind :: "json \<Rightarrow> json \<Rightarrow> pystr option" where
  "logical_kind category operation = (case (category, operation) of
     (JStr c, JStr n) \<Rightarrow> Some (c @ lit ''.'' @ n) | _ \<Rightarrow> None)"

definition logical_title :: "json \<Rightarrow> json \<Rightarrow> pystr option" where
  "logical_title category operation = (case (category, operation) of
     (JStr c, JStr n) \<Rightarrow> dget operation_titles (c, n) | _ \<Rightarrow> None)"

definition logical_boundary :: "json \<Rightarrow> json" where
  "logical_boundary category =
     (if category = jtext ''executor'' then jtext ''submission_to_completion''
      else if category = jtext ''scheduler'' then jtext ''creation_to_completion''
      else if category = jtext ''server'' then jtext ''request_to_response_completion''
      else jtext ''logical_operation'')"

definition server_malformed :: "event \<Rightarrow> bool" where
  "server_malformed v =
     (let status = eget v ''status_code''; outcome = eget v ''outcome'' in
      \<not> all_false (ev_attributes v) [''http_method_captured'', ''route_captured'', ''url_captured'', ''headers_captured'',
        ''body_captured'', ''response_body_captured'', ''client_address_captured''] \<or>
      \<not> null_or (int_in (\<lambda>n. 100 \<le> n \<and> n \<le> 999)) status \<or>
      (status = JNull \<and> outcome \<noteq> jtext ''completed'') \<or>
      (int_in (\<lambda>n. 500 \<le> n) status \<and>
        (outcome \<noteq> jtext ''operation_error'' \<or> eget v ''error.type'' \<noteq> jtext ''HTTPStatusError'')) \<or>
      (int_in (\<lambda>n. n < 500) status \<and> outcome \<noteq> jtext ''completed''))"

definition logical_malformed :: "event \<Rightarrow> bool res" where
  "logical_malformed v =
     (let category = eget v ''category''; operation = eget v ''operation'' in any_of
     [Inr (ev_started_at_ns v = None),
      Inr (logical_kind category operation \<noteq> Some (ev_kind v)),
      Inr (logical_title category operation \<noteq> Some (ev_name v)),
      Inr (\<not> known_text logical_adapters (eget v ''adapter'')),
      Inr (dget adapter_categories (the_text (eget v ''adapter'')) \<noteq> text_or_none category),
      Inr (\<not> pid_ok (eget v ''parent_pid'')),
      not_member (eget v ''role'') roles,
      not_member (eget v ''outcome'') logical_outcomes,
      Inr (\<not> null_or filled_text (eget v ''error.type'')),
      Inr (\<not> all_false (ev_attributes v) [''statement_captured'', ''parameters_captured'', ''payload_captured'',
        ''queue_item_captured'', ''queue_identity_captured'', ''return_value_captured'']),
      Inr (eget v ''duration_boundary'' \<noteq> logical_boundary category),
      Inr (category = jtext ''executor'' \<and> \<not> all_false (ev_attributes v) [''callable_captured'', ''arguments_captured'']),
      Inr (category = jtext ''scheduler'' \<and> \<not> all_false (ev_attributes v) [''callable_captured'', ''awaitable_captured'',
        ''task_name_captured'', ''context_captured'', ''arguments_captured'']),
      Inr (category = jtext ''server'' \<and> server_malformed v),
      Inr (category \<noteq> jtext ''server'' \<and> eget v ''status_code'' \<noteq> JNull)])"

definition logical_operation_of :: "callers \<Rightarrow> event \<Rightarrow> logical_operation option res" where
  "logical_operation_of callers v =
     rbind (logical_malformed v) (\<lambda>bad.
     if bad \<or> \<not> known_text logical_categories (eget v ''category'') \<or> \<not> known_text logical_names (eget v ''operation'')
     then Inr None
     else (case ev_started_at_ns v of
       None \<Rightarrow> Inr None
     | Some started \<Rightarrow>
        let outcome = literal_of logical_outcomes (eget v ''outcome'') in
        if outcome_contradicts v (lit ''completed'') (lit ''operation_error'') outcome then Inr None
        else rbind (elapsed_seconds started (ev_finished_at_ns v)) (\<lambda>duration.
          Inr (Some \<lparr>lo_event_id = ev_id v, lo_category = the_text (eget v ''category''),
            lo_operation = the_text (eget v ''operation''), lo_adapter = the_text (eget v ''adapter''),
            lo_parent_pid = the_int (eget v ''parent_pid''), lo_role = literal_of roles (eget v ''role''),
            lo_outcome = outcome, lo_error_type = text_or_none (eget v ''error.type''),
            lo_status_code = int_or_none (eget v ''status_code''), lo_started_at_ns = started,
            lo_duration_seconds = duration, lo_caller = dget callers (ev_id v)\<rparr>))))"

definition is_logical_event :: "event \<Rightarrow> bool" where
  "is_logical_event v \<longleftrightarrow> eget v ''source'' = jtext ''python-logical-operation-wrapper'' \<and> ev_kind v \<noteq> callsite_kind"

definition logical_operations ::
  "event list \<Rightarrow> causal_edge list \<Rightarrow> (logical_operation list \<times> int \<times> int \<times> int \<times> int \<times> pystr list) res" where
  "logical_operations events edges =
     rbind (operation_callers events edges logical_contract) (\<lambda>(callers, invalid_callers).
     rbind (read_operations is_logical_event (logical_operation_of callers) events) (\<lambda>(operations, invalid_events).
     Inr (sort_key (\<lambda>x. (lo_started_at_ns x, lo_parent_pid x, lo_event_id x)) operations,
          invalid_events, invalid_callers, caller_total callers, int (length callers),
          sort (remdups (map lo_adapter operations)))))"

section \<open>Hotspots\<close>

record logical_hotspot =
  lh_category :: pystr
  lh_operation :: pystr
  lh_adapter :: pystr
  lh_counts :: hotspot_counts
  lh_caller :: "caller_attribution option"

definition logical_key :: "logical_operation \<Rightarrow> pystr option \<times> pystr \<times> pystr \<times> pystr" where
  "logical_key x = (caller_id (lo_caller x), lo_category x, lo_operation x, lo_adapter x)"

definition add_logical :: "logical_operation \<Rightarrow> hotspot_counts \<Rightarrow> hotspot_counts" where
  "add_logical x = add_operation (lit ''completed'') (lit ''operation_error'') (lo_outcome x) (lo_duration_seconds x)"

definition logical_hotspots :: "logical_operation list \<Rightarrow> logical_hotspot list" where
  "logical_hotspots operations =
     sort_key (\<lambda>h. (- hc_failed (lh_counts h), - hc_count (lh_counts h), descending (hc_total_seconds (lh_counts h)),
        lh_category h, lh_operation h, caller_name (lh_caller h), lh_adapter h))
       (map (\<lambda>(_, x, c). \<lparr>lh_category = lo_category x, lh_operation = lo_operation x, lh_adapter = lo_adapter x,
           lh_counts = c, lh_caller = lo_caller x\<rparr>)
         (hotspot_table logical_key add_logical operations))"

section \<open>Bottlenecks\<close>

definition category_labels :: "(string \<times> string \<times> string) list" where
  "category_labels =
     [(''database'', ''Database'', ''database''), (''cache'', ''Cache'', ''cache''), (''queue'', ''Queue'', ''queue''),
      (''broker'', ''Broker'', ''broker''), (''executor'', ''Executor'', ''executor''),
      (''scheduler'', ''Scheduler'', ''scheduler''), (''server'', ''Server'', ''server'')]"

definition category_bottlenecks ::
  "logical_operation list \<Rightarrow> captured_summary \<Rightarrow> pyfloat \<Rightarrow> string \<times> string \<times> string \<Rightarrow> bottleneck list res" where
  "category_bottlenecks operations capture total_time = (\<lambda>(category, label, lower_label).
     let matching = filter (\<lambda>x. lo_category x = lit category) operations;
         failed = length (filter (\<lambda>x. lo_outcome x = lit ''operation_error'') matching);
         failures = (if failed = 0 then [] else [bottleneck_of (category @ ''_operation_failures'')
           [grouped_int (int failed), lit '' of '', grouped_int (int (length matching)), lit '' retained '',
            lit lower_label, lit '' operations failed''] (failure_confidence capture)]) in
     rbind (slowest_share lo_duration_seconds total_time
       (filter (\<lambda>x. lo_outcome x = lit ''completed'' \<and> lo_duration_seconds x \<noteq> None) matching)) (\<lambda>found.
     Inr (failures @ (case found of
         None \<Rightarrow> []
       | Some (x, d, ratio) \<Rightarrow> if \<not> long_enough d ratio then []
           else [bottleneck_of (category @ ''_operation_latency'')
             [lit label, lit '' '', lo_operation x, lit '' took '', fmt_fixed 3 d, lit ''s ('', fmt_percent ratio,
              lit '' of the run)''] (8 / 10)]))))"

definition logical_bottlenecks ::
  "logical_operation list \<Rightarrow> captured_summary option \<Rightarrow> pyfloat option \<Rightarrow> bottleneck list res" where
  "logical_bottlenecks operations capture reported = (case usable_capture capture reported of
     None \<Rightarrow> Inr []
   | Some (c, t) \<Rightarrow> rbind (traverse (category_bottlenecks operations c t) category_labels) (\<lambda>found. Inr (concat found)))"

section \<open>The summary of the capture\<close>

definition logical_capture_rejected :: "attrs \<Rightarrow> pystr list \<Rightarrow> bool \<Rightarrow> int \<Rightarrow> bool" where
  "logical_capture_rejected d adapters unacceptable event_count \<longleftrightarrow>
     jget d ''observer'' \<noteq> jtext ''python-logical-operation-wrapper'' \<or> \<not> is_true (jget d ''zero_code'') \<or>
     \<not> is_true (jget d ''deep_only'') \<or>
     \<not> all_false d [''statement_captured'', ''parameters_captured'', ''payload_captured'', ''queue_item_captured'',
       ''queue_identity_captured'', ''return_value_captured''] \<or>
     \<not> list_all (\<lambda>k. is_false (jget_or d k (JBool False)))
       [''callable_captured'', ''awaitable_captured'', ''task_name_captured'', ''context_captured'', ''arguments_captured'',
        ''exception_messages_captured'', ''http_method_captured'', ''route_captured'', ''url_captured'', ''headers_captured'',
        ''body_captured'', ''response_body_captured'', ''client_address_captured''] \<or> unacceptable \<or>
     (let c = raw_counts d ''operation'' in
      capture_status (jget d ''status'') = lit ''unavailable'' \<and>
      (count_or_zero (cn_process c) \<noteq> 0 \<or> count_or_zero (cn_operation c) \<noteq> 0 \<or> count_or_zero (cn_dropped c) \<noteq> 0 \<or>
       count_or_zero (cn_callback_error c) \<noteq> 0 \<or> adapters \<noteq> [] \<or> event_count \<noteq> 0))"

definition logical_capture_summary ::
  "attrs \<Rightarrow> int \<Rightarrow> int \<Rightarrow> int \<Rightarrow> int \<Rightarrow> int \<Rightarrow> pystr list \<Rightarrow> int \<Rightarrow> captured_summary option" where
  "logical_capture_summary metadata event_count invalid_events caller_count attributed invalid_callers observed hotspots =
     (case instrumented metadata ''logical_operation_capture'' of
        None \<Rightarrow> None
      | Some d \<Rightarrow>
          (case declared_adapters (jget d ''adapters'') logical_adapters None observed of (adapters, unacceptable) \<Rightarrow>
           Some (summary_of d ''operation'' (logical_capture_rejected d adapters unacceptable event_count)
             event_count invalid_events caller_count attributed invalid_callers adapters hotspots)))"

end
