(* ===== verification/CaptureLaws.thy ===== *)
theory CaptureLaws
  imports CallerLaws LogicalCapture
begin

text \<open>
  The five captures of operations (subprocesses, HTTP requests, connections, setup phases, logical
  operations) read their events under one contract, the locale \<open>operation_capture\<close>: a record keeps the id,
  the start and the caller of its event, and reading returns on evidence that can be hashed. Its
  interpretations on the five readers carry over what follows: every event is counted once and nothing
  raises. The hotspots partition the operations, and a complete summary is consistent.
\<close>

section \<open>Evidence that can be hashed\<close>

definition hashable :: "json \<Rightarrow> bool" where
  "hashable j = (case j of JList _ \<Rightarrow> False | JObj _ \<Rightarrow> False | _ \<Rightarrow> True)"

definition event_hashable :: "event \<Rightarrow> bool" where
  "event_hashable v \<longleftrightarrow> list_all (\<lambda>k. hashable (eget v k)) [''role'', ''outcome'', ''scheme'', ''scope'']"

definition timed_64 :: "event \<Rightarrow> bool" where
  "timed_64 v \<longleftrightarrow> (case ev_started_at_ns v of None \<Rightarrow> True | Some s \<Rightarrow> \<bar>s\<bar> \<le> 2 ^ 64) \<and>
     (case ev_finished_at_ns v of None \<Rightarrow> True | Some f \<Rightarrow> \<bar>f\<bar> \<le> 2 ^ 64)"

definition safe_event :: "event \<Rightarrow> bool" where
  "safe_event v \<longleftrightarrow> event_hashable v \<and> timed_64 v"

definition safe_edge :: "causal_edge \<Rightarrow> bool" where
  "safe_edge e \<longleftrightarrow> hashable (jget (edge_attributes e) ''observation'')"

lemma not_member_total: "hashable j \<Longrightarrow> \<exists>b. not_member j names = Inr b"
  unfolding not_member_defined by (auto simp: hashable_def)

lemma not_member_list [simp]: "not_member (JList vs) names = Inl TypeError"
  by (simp add: not_member_def member_def)

lemma elapsed_total:
  assumes "\<bar>s\<bar> \<le> 2 ^ 64" "case f of None \<Rightarrow> True | Some t \<Rightarrow> \<bar>t\<bar> \<le> 2 ^ 64"
  shows "\<exists>x. elapsed_seconds s f = Inr x"
proof (cases f)
  case (Some t)
  then have "\<bar>max 0 (t - s)\<bar> \<le> 2 ^ 65" using assms by (auto simp: max_def abs_if split: if_splits)
  from seconds_defined [OF this] Some show ?thesis by (auto simp: elapsed_seconds_def)
qed (simp add: elapsed_seconds_def)

section \<open>Reading events\<close>

lemma filter_split_length: "length (List.map_filter id rs) + length (filter (\<lambda>r. r = None) rs) = length rs"
  by (induction rs) (auto split: option.splits)

locale operation_capture =
  fixes parse :: "callers \<Rightarrow> event \<Rightarrow> 'a option res"
    and relevant :: "event \<Rightarrow> bool"
    and rank :: "'a \<Rightarrow> int \<times> int \<times> pystr"
    and caller_of :: "'a \<Rightarrow> caller_attribution option"
  assumes parse_keeps: "parse callers v = Inr (Some x) \<Longrightarrow>
      ev_started_at_ns v = Some (fst (rank x)) \<and> 0 < fst (snd (rank x)) \<and> snd (snd (rank x)) = ev_id v \<and>
      caller_of x = dget callers (ev_id v)"
    and parse_total: "safe_event v \<Longrightarrow> \<exists>r. parse callers v = Inr r"
begin

lemma counts_every_event:
  assumes "read_operations relevant (parse callers) events = Inr (xs, n)"
  shows "int (length xs) + n = int (length (filter relevant events)) \<and> 0 \<le> n"
proof -
  obtain rs where rs: "traverse (parse callers) (filter relevant events) = Inr rs" and
    xs: "xs = List.map_filter id rs" "n = int (length (filter (\<lambda>r. r = None) rs))"
    using assms by (auto simp: read_operations_def rbind_eq_Inr_iff)
  have "length xs + length (filter (\<lambda>r. r = None) rs) = length (filter relevant events)"
    using filter_split_length [of rs] traverse_length [OF rs] by (simp add: xs)
  then show ?thesis by (simp add: xs(2) flip: of_nat_add)
qed

lemma reads_events:
  assumes "read_operations relevant (parse callers) events = Inr (xs, n)" and "x \<in> set xs"
  shows "\<exists>v\<in>set events. relevant v \<and> parse callers v = Inr (Some x)"
proof -
  obtain rs where rs: "traverse (parse callers) (filter relevant events) = Inr rs" "xs = List.map_filter id rs"
    using assms(1) by (auto simp: read_operations_def rbind_eq_Inr_iff)
  then have "Some x \<in> set rs" using assms(2) by (auto simp: map_filter_def)
  from traverse_Inr_mem [OF rs(1) this] show ?thesis by auto
qed

lemma read_ids:
  assumes "traverse (parse callers) vs = Inr rs" "distinct (map ev_id vs)"
  shows "distinct (map (\<lambda>x. snd (snd (rank x))) (List.map_filter id rs)) \<and>
    set (map (\<lambda>x. snd (snd (rank x))) (List.map_filter id rs)) \<subseteq> ev_id ` set vs"
  using assms
proof (induction vs arbitrary: rs)
  case (Cons v vs)
  then obtain r qs where r: "parse callers v = Inr r" and qs: "traverse (parse callers) vs = Inr qs" and rs: "rs = r # qs"
    by (auto simp: rbind_eq_Inr_iff)
  note IH = Cons.IH [OF qs]
  show ?case
  proof (cases r)
    case None
    with IH Cons.prems show ?thesis by (auto simp: rs)
  next
    case (Some x)
    then have "snd (snd (rank x)) = ev_id v" using parse_keeps r by blast
    with IH Cons.prems show ?thesis by (auto simp: rs Some)
  qed
qed simp

lemma read_total:
  assumes "list_all safe_event events"
  shows "\<exists>xs n. read_operations relevant (parse callers) events = Inr (xs, n)"
proof -
  have "\<exists>rs. traverse (parse callers) (filter relevant events) = Inr rs"
    unfolding traverse_defined using parse_total assms by (auto simp: list_all_iff)
  then show ?thesis by (auto simp: read_operations_def)
qed

text \<open>What a reader returns, sorted: every event is counted once, ids are distinct, and an operation has
  exactly the caller that the attribution gives its event.\<close>

lemma sorted_operations:
  assumes "read_operations relevant (parse callers) events = Inr (xs, n)" and "distinct (map ev_id events)"
  shows "int (length (sort_key rank xs)) + n = int (length (filter relevant events)) \<and> sorted (map rank (sort_key rank xs)) \<and>
    distinct (map (\<lambda>x. snd (snd (rank x))) (sort_key rank xs)) \<and>
    list_all (\<lambda>x. 0 < fst (snd (rank x)) \<and> caller_of x = dget callers (snd (snd (rank x)))) (sort_key rank xs)"
proof -
  obtain rs where rs: "traverse (parse callers) (filter relevant events) = Inr rs" "xs = List.map_filter id rs"
    using assms(1) by (auto simp: read_operations_def rbind_eq_Inr_iff)
  have "distinct (map (\<lambda>x. snd (snd (rank x))) xs)"
    using read_ids [OF rs(1)] assms(2) by (simp add: rs(2) distinct_map_filter)
  moreover have "mset (map (\<lambda>x. snd (snd (rank x))) (sort_key rank xs)) = mset (map (\<lambda>x. snd (snd (rank x))) xs)" by simp
  ultimately have "distinct (map (\<lambda>x. snd (snd (rank x))) (sort_key rank xs))" using mset_eq_imp_distinct_iff by blast
  moreover have "0 < fst (snd (rank x)) \<and> caller_of x = dget callers (snd (snd (rank x)))" if "x \<in> set xs" for x
    using reads_events [OF assms(1) that] parse_keeps by metis
  ultimately show ?thesis using counts_every_event [OF assms(1)] by (auto simp: list_all_iff)
qed

text \<open>Together with the attribution: the caller of an operation is justified by the evidence.\<close>

lemma callers_justified:
  assumes "operation_callers events edges c = Inr (callers, m)" and "read_operations relevant (parse callers) events = Inr (xs, n)"
    and one: "distinct (map ev_id events)"
  shows "list_all (\<lambda>x. case caller_of x of None \<Rightarrow> True | Some a \<Rightarrow> justified c events edges (snd (snd (rank x)), a)) xs \<and>
    length (filter (\<lambda>x. caller_of x \<noteq> None) xs) \<le> length callers"
proof -
  have facts: "distinct (map fst callers)" "list_all (justified c events edges) callers"
    using operation_callers_law [OF assms(1) one] by simp_all
  have kept: "caller_of x = dget callers (snd (snd (rank x)))" if "x \<in> set xs" for x
    using reads_events [OF assms(2) that] parse_keeps by metis
  have "justified c events edges (snd (snd (rank x)), a)" if "x \<in> set xs" "caller_of x = Some a" for x a
  proof -
    have "dget callers (snd (snd (rank x))) = Some a" using kept [OF that(1)] that(2) by simp
    then have "(snd (snd (rank x)), a) \<in> set callers" by (rule map_of_SomeD)
    with facts(2) show ?thesis by (auto simp: list_all_iff)
  qed
  moreover have "length (filter (\<lambda>x. caller_of x \<noteq> None) xs) \<le> length callers"
  proof -
    let ?ids = "map (\<lambda>x. snd (snd (rank x))) (filter (\<lambda>x. caller_of x \<noteq> None) xs)"
    obtain rs where rs: "traverse (parse callers) (filter relevant events) = Inr rs" "xs = List.map_filter id rs"
      using assms(2) by (auto simp: read_operations_def rbind_eq_Inr_iff)
    have "distinct (map (\<lambda>x. snd (snd (rank x))) xs)"
      using read_ids [OF rs(1)] one by (simp add: rs(2) distinct_map_filter)
    then have d: "distinct ?ids" by (rule distinct_map_filter)
    have "set ?ids \<subseteq> fst ` set callers" using kept by (force simp: dest: map_of_SomeD)
    then have "card (set ?ids) \<le> card (fst ` set callers)" by (intro card_mono) simp_all
    also have "\<dots> \<le> length callers" using card_image_le [of "set callers" fst] card_length [of callers] by simp
    finally show ?thesis using distinct_card [OF d] by simp
  qed
  ultimately show ?thesis by (auto simp: list_all_iff split: option.splits)
qed

end

lemma pid_positive: "pid_ok j \<Longrightarrow> 0 < the_int j"
  by (cases j) (auto simp: pid_ok_def int_in_def)

lemma safe_fields:
  assumes "safe_event v"
  shows "hashable (eget v ''role'')" "hashable (eget v ''outcome'')" "hashable (eget v ''scheme'')"
  using assms by (simp_all add: safe_event_def event_hashable_def)

lemma safe_elapsed: "safe_event v \<Longrightarrow> ev_started_at_ns v = Some s \<Longrightarrow> \<exists>x. elapsed_seconds s (ev_finished_at_ns v) = Inr x"
  by (rule elapsed_total) (auto simp: safe_event_def timed_64_def)

interpretation calls: operation_capture
  "\<lambda>callers. subprocess_call_of callers observed" is_subprocess_event
  "\<lambda>c. (sc_started_at_ns c, sc_parent_pid c, sc_event_id c)" sc_caller for observed
proof (unfold_locales, goal_cases)
  case (1 callers v x)
  then have "subprocess_malformed v = Inr False"
    by (auto simp: subprocess_call_of_def rbind_eq_Inr_iff split: if_splits)
  then have "pid_ok (eget v ''parent_pid'')" by (simp add: subprocess_malformed_def any_of_False_iff del: any_of.simps)
  then show ?case using 1
    by (auto simp: subprocess_call_of_def rbind_eq_Inr_iff Let_def pid_positive split: if_splits option.splits)
next
  case (2 v callers)
  have "\<exists>b. subprocess_malformed v = Inr b"
    unfolding subprocess_malformed_def by (rule any_of_defined) (simp add: not_member_total safe_fields [OF 2])
  then obtain b where "subprocess_malformed v = Inr b" ..
  then show ?case using safe_elapsed [OF 2] by (auto simp: subprocess_call_of_def rbind_def Let_def split: option.splits)
qed

interpretation requests: operation_capture http_request_of is_http_event
  "\<lambda>r. (hr_started_at_ns r, hr_parent_pid r, hr_event_id r)" hr_caller
proof (unfold_locales, goal_cases)
  case (1 callers v x)
  then have "http_malformed v = Inr False" by (auto simp: http_request_of_def rbind_eq_Inr_iff split: if_splits)
  then have "pid_ok (eget v ''parent_pid'')" by (simp add: http_malformed_def any_of_False_iff del: any_of.simps)
  then show ?case using 1
    by (auto simp: http_request_of_def rbind_eq_Inr_iff Let_def pid_positive split: if_splits option.splits)
next
  case (2 v callers)
  have "\<exists>b. http_malformed v = Inr b"
    unfolding http_malformed_def by (rule any_of_defined) (simp add: not_member_total safe_fields [OF 2])
  then obtain b where "http_malformed v = Inr b" ..
  then show ?case using safe_elapsed [OF 2] by (auto simp: http_request_of_def rbind_def Let_def split: option.splits)
qed

interpretation connections: operation_capture connection_of is_connection_event
  "\<lambda>c. (nc_started_at_ns c, nc_parent_pid c, nc_event_id c)" nc_caller
proof (unfold_locales, goal_cases)
  case (1 callers v x)
  then have "connection_malformed v = Inr False" by (auto simp: connection_of_def rbind_eq_Inr_iff split: if_splits)
  then have "pid_ok (eget v ''parent_pid'')" by (simp add: connection_malformed_def any_of_False_iff del: any_of.simps)
  then show ?case using 1
    by (auto simp: connection_of_def rbind_eq_Inr_iff Let_def pid_positive split: if_splits option.splits)
next
  case (2 v callers)
  have "\<exists>b. connection_malformed v = Inr b"
    unfolding connection_malformed_def by (rule any_of_defined) (simp add: not_member_total safe_fields [OF 2])
  then obtain b where "connection_malformed v = Inr b" ..
  then show ?case using safe_elapsed [OF 2] by (auto simp: connection_of_def rbind_def Let_def split: option.splits)
qed

interpretation phases: operation_capture setup_phase_of is_setup_event
  "\<lambda>p. (np_started_at_ns p, np_parent_pid p, np_event_id p)" np_caller
proof (unfold_locales, goal_cases)
  case (1 callers v x)
  then have "setup_malformed v = Inr False" by (auto simp: setup_phase_of_def rbind_eq_Inr_iff split: if_splits)
  then have "pid_ok (eget v ''parent_pid'')" by (simp add: setup_malformed_def any_of_False_iff del: any_of.simps)
  then show ?case using 1
    by (auto simp: setup_phase_of_def rbind_eq_Inr_iff Let_def pid_positive split: if_splits option.splits)
next
  case (2 v callers)
  have "\<exists>b. setup_malformed v = Inr b"
    unfolding setup_malformed_def by (rule any_of_defined) (simp add: not_member_total safe_fields [OF 2])
  then obtain b where "setup_malformed v = Inr b" ..
  then show ?case using safe_elapsed [OF 2] by (auto simp: setup_phase_of_def rbind_def Let_def split: option.splits)
qed

interpretation operations: operation_capture logical_operation_of is_logical_event
  "\<lambda>x. (lo_started_at_ns x, lo_parent_pid x, lo_event_id x)" lo_caller
proof (unfold_locales, goal_cases)
  case (1 callers v x)
  then have "logical_malformed v = Inr False" by (auto simp: logical_operation_of_def rbind_eq_Inr_iff split: if_splits)
  then have "pid_ok (eget v ''parent_pid'')" by (simp add: logical_malformed_def Let_def any_of_False_iff del: any_of.simps)
  then show ?case using 1
    by (auto simp: logical_operation_of_def rbind_eq_Inr_iff Let_def pid_positive split: if_splits option.splits)
next
  case (2 v callers)
  have "\<exists>b. logical_malformed v = Inr b"
    unfolding logical_malformed_def Let_def by (rule any_of_defined) (simp add: not_member_total safe_fields [OF 2])
  then obtain b where "logical_malformed v = Inr b" ..
  then show ?case using safe_elapsed [OF 2] by (auto simp: logical_operation_of_def rbind_def Let_def split: option.splits)
qed

section \<open>Attribution returns\<close>

lemma caller_step_total:
  assumes "list_all safe_event events" "safe_edge e"
  shows "\<exists>st'. caller_step c (event_table events) targets e st = Inr st'"
proof -
  obtain callers invalid where st: "st = (callers, invalid)" by (cases st)
  have "\<exists>b. caller_invalid c source target e callers = Inr b" if "dget (event_table events) (edge_source e) = Some source" for source target
  proof -
    have "safe_event source" using event_table_get [OF that] assms(1) by (auto simp: list_all_iff)
    then have "hashable (eget source ''scope'')" by (simp add: safe_event_def event_hashable_def)
    then show ?thesis
      using assms(2) unfolding caller_invalid_def by (intro any_of_defined) (simp add: not_member_total safe_edge_def)
  qed
  then show ?thesis by (auto simp: st caller_step_def rbind_def split: option.splits sum.splits) (metis Inr_not_Inl)+
qed

lemma caller_loop_total:
  assumes "list_all safe_event events" "list_all safe_edge es"
  shows "\<exists>st'. caller_loop c (event_table events) targets es st = Inr st'"
  using assms(2)
proof (induction es arbitrary: st)
  case (Cons e es)
  obtain st1 where "caller_step c (event_table events) targets e st = Inr st1"
    using caller_step_total [OF assms(1)] Cons.prems by fastforce
  with Cons show ?case by simp
qed simp

lemma miscounted_total:
  assumes "list_all (justified c events edges) found"
  shows "\<exists>wrong. miscounted c (event_table events) found = Inr wrong"
proof -
  have "has_key (event_table events) k" if "(k, ts) \<in> set (callers_targets found)" for k ts
  proof -
    obtain i a where "(i, a) \<in> set found" "ca_event_id a = k" using \<open>(k, ts) \<in> _\<close> by (auto simp: callers_targets_mem)
    moreover from this(1) have "justified c events edges (i, a)" using assms by (auto simp: list_all_iff)
    ultimately obtain source where "source \<in> set events" "ev_id source = k" using justified_source by blast
    then show ?thesis by auto
  qed
  then have "\<exists>tss. traverse (\<lambda>(i, ts). rbind (find (event_table events) i) (\<lambda>source.
      Inr (if count_agrees c source (length ts) then [] else ts))) (callers_targets found) = Inr tss"
    unfolding traverse_defined by (fastforce simp: has_key_iff)
  then show ?thesis by (auto simp: miscounted_def)
qed

lemma operation_callers_total:
  assumes "list_all safe_event events" "list_all safe_edge edges" "distinct (map ev_id events)"
  shows "\<exists>callers n. operation_callers events edges c = Inr (callers, n)"
proof -
  let ?targets = "event_table (filter (contract_targets c) events)"
  obtain found invalid where loop: "caller_loop c (event_table events) ?targets edges ([], misdeclared ?targets) = Inr (found, invalid)"
    using caller_loop_total [OF assms(1,2)] by (metis surj_pair)
  have "loop_ok c events edges ([], misdeclared ?targets)"
    using misdeclared_ok [of "filter (contract_targets c) events"] by (auto simp: loop_ok_def)
  from caller_loop_ok [OF loop this _ assms(3)] have "list_all (justified c events edges) found" by (simp add: loop_ok_def)
  from miscounted_total [OF this] obtain wrong where "miscounted c (event_table events) found = Inr wrong" ..
  with loop show ?thesis by (simp add: operation_callers_def Let_def)
qed

lemma read_pipeline:
  assumes "\<exists>callers n. m = Inr (callers, n)" "\<And>callers. \<exists>xs k. g callers = Inr (xs, k)"
  shows "\<exists>r. rbind m (\<lambda>(callers, n). rbind (g callers) (\<lambda>(xs, k). Inr (h callers n xs k))) = Inr r"
  using assms by (auto simp: rbind_eq_Inr_iff)

text \<open>C29. On evidence that can be hashed and 64-bit times, none of the five readers raises.\<close>

theorem captures_return_on_hashable_evidence:
  assumes "list_all safe_event events" "list_all safe_edge edges" "distinct (map ev_id events)"
  shows "(\<exists>r. subprocess_calls events edges observed = Inr r) \<and> (\<exists>r. http_requests events edges = Inr r) \<and>
    (\<exists>r. network_connections events edges = Inr r) \<and> (\<exists>r. setup_phases events edges = Inr r) \<and>
    (\<exists>r. logical_operations events edges = Inr r)"
proof -
  note callers = operation_callers_total [OF assms]
  have "\<exists>r. subprocess_calls events edges observed = Inr r"
    unfolding subprocess_calls_def by (rule read_pipeline [OF callers calls.read_total [OF assms(1)]])
  moreover have "\<exists>r. http_requests events edges = Inr r"
    unfolding http_requests_def by (rule read_pipeline [OF callers requests.read_total [OF assms(1)]])
  moreover have "\<exists>r. network_connections events edges = Inr r"
    unfolding network_connections_def by (rule read_pipeline [OF callers connections.read_total [OF assms(1)]])
  moreover have "\<exists>r. setup_phases events edges = Inr r"
    unfolding setup_phases_def by (rule read_pipeline [OF callers phases.read_total [OF assms(1)]])
  moreover have "\<exists>r. logical_operations events edges = Inr r"
    unfolding logical_operations_def by (rule read_pipeline [OF callers operations.read_total [OF assms(1)]])
  ultimately show ?thesis by blast
qed

text \<open>One outbound connection, as the wrapper records it.\<close>

definition sample_connection :: event where
  "sample_connection = \<lparr>ev_id = lit ''n'', ev_kind = lit ''network.connect'', ev_name = lit ''TCP connect'',
     ev_entity_id = None, ev_started_at_ns = Some 3, ev_finished_at_ns = Some 5, ev_clock_domain = None,
     ev_uncertainty_ns = None, ev_sequence = None, ev_attributes =
       map (\<lambda>(k, j). (lit k, j)) [(''source'', jtext ''python-network-connection-wrapper''),
         (''adapter'', jtext ''stdlib.socket.connect''), (''transport'', jtext ''tcp''), (''address_family'', jtext ''ipv4''),
         (''server_identity_policy'', jtext ''redact''), (''server_port'', JInt 443), (''tls_requested'', JBool True),
         (''parent_pid'', JInt 7), (''role'', jtext ''root''), (''outcome'', jtext ''connected''),
         (''path_captured'', JBool False), (''credentials_captured'', JBool False),
         (''duration_boundary'', jtext ''connection_ready'')]\<rparr>"

theorem captures_return_on_hashable_evidence_witness:
  "list_all safe_event [sample_connection] \<and> (\<exists>r. network_connections [sample_connection] [] = Inr r)"
proof -
  have safe: "list_all safe_event [sample_connection]" by code_simp
  have "list_all safe_edge []" "distinct (map ev_id [sample_connection])" by simp_all
  note law = captures_return_on_hashable_evidence [OF safe this]
  show ?thesis using safe law by blast
qed

text \<open>The connections that are returned and the events that are counted as invalid are together the
  connection events of the run; the connections are in order of their start, each of another event, and
  those with a caller have it on the evidence of an edge from a call site.\<close>

theorem connections_account_for_every_event:
  assumes "network_connections events edges = Inr (cs, invalid_events, invalid_callers, caller_count, attributed, adapters)"
    and "distinct (map ev_id events)"
  shows "int (length cs) + invalid_events = int (length (filter is_connection_event events)) \<and>
    sorted (map (\<lambda>c. (nc_started_at_ns c, nc_parent_pid c, nc_event_id c)) cs) \<and> distinct (map nc_event_id cs) \<and>
    list_all (\<lambda>c. case nc_caller c of None \<Rightarrow> True | Some a \<Rightarrow> justified network_contract events edges (nc_event_id c, a)) cs \<and>
    int (length (filter (\<lambda>c. nc_caller c \<noteq> None) cs)) \<le> attributed \<and> sorted adapters \<and> distinct adapters \<and>
    set adapters = nc_adapter ` set cs"
proof -
  obtain callers xs where c: "operation_callers events edges network_contract = Inr (callers, invalid_callers)" and
    r: "read_operations is_connection_event (connection_of callers) events = Inr (xs, invalid_events)" and
    cs: "cs = sort_key (\<lambda>c. (nc_started_at_ns c, nc_parent_pid c, nc_event_id c)) xs" and
    a: "attributed = int (length callers)" "adapters = sort (remdups (map nc_adapter xs))"
    using assms(1) by (auto simp: network_connections_def rbind_eq_Inr_iff)
  have "mset (filter (\<lambda>c. nc_caller c \<noteq> None) cs) = mset (filter (\<lambda>c. nc_caller c \<noteq> None) xs)" by (simp add: cs)
  then have "length (filter (\<lambda>c. nc_caller c \<noteq> None) cs) = length (filter (\<lambda>c. nc_caller c \<noteq> None) xs)" by (rule mset_eq_length)
  moreover note connections.sorted_operations [OF r assms(2), unfolded fst_conv snd_conv, folded cs]
  moreover note connections.callers_justified [OF c r assms(2), unfolded fst_conv snd_conv]
  moreover have "set cs = set xs" "set adapters = nc_adapter ` set xs" "sorted adapters" "distinct adapters" by (simp_all add: cs a)
  ultimately show ?thesis unfolding a(1) list_all_iff by simp
qed

theorem connections_account_for_every_event_witness:
  "\<exists>cs. network_connections [sample_connection, sample_connection\<lparr>ev_id := lit ''m'', ev_name := lit ''connect''\<rparr>] [] =
       Inr (cs, 1, 0, 0, 0, [lit ''stdlib.socket.connect'']) \<and> map nc_event_id cs = [lit ''n''] \<and>
       set [lit ''stdlib.socket.connect''] = nc_adapter ` set cs"
proof -
  let ?events = "[sample_connection, sample_connection\<lparr>ev_id := lit ''m'', ev_name := lit ''connect''\<rparr>]"
  have "case network_connections ?events [] of Inr (cs, i, n, m, k, adapters) \<Rightarrow>
      i = 1 \<and> n = 0 \<and> m = 0 \<and> k = 0 \<and> adapters = [lit ''stdlib.socket.connect''] \<and> map nc_event_id cs = [lit ''n''] | _ \<Rightarrow> False"
    by code_simp
  then obtain cs where run: "network_connections ?events [] = Inr (cs, 1, 0, 0, 0, [lit ''stdlib.socket.connect''])"
      "map nc_event_id cs = [lit ''n'']"
    by (auto split: sum.splits)
  have "distinct (map ev_id ?events)" by code_simp
  note law = connections_account_for_every_event [OF run(1) this]
  show ?thesis using run law by (intro exI [of _ cs] conjI) simp_all
qed

end
