(* ===== verification/ProfileMetrics.thy ===== *)
theory ProfileMetrics
  imports Callers
begin

text \<open>
  \<open>batchscope/analysis/_profile_summary.py\<close>, first part: the metrics of the profile snapshots, of their
  publication and of their normalization, the identity of the profiled processes and the coverage of the
  observed ones. Each metric is unavailable when absent and invalid as a whole when any part of it is
  inconsistent. \<open>casefold\<close> is \<open>str.casefold\<close>, a table of the Unicode database.
\<close>

section \<open>Reading\<close>

text \<open>The 64-bit counts under the keys, if all are there.\<close>

fun read_counts :: "attrs \<Rightarrow> string list \<Rightarrow> int list option" where
  "read_counts d [] = Some []"
| "read_counts d (k # ks) = (case semantic_count (jget d k) of
     None \<Rightarrow> None
   | Some n \<Rightarrow> map_option (\<lambda>ns. n # ns) (read_counts d ks))"

definition available_status :: "json \<Rightarrow> pystr option" where
  "available_status j = (if j = jtext ''available'' then Some (lit ''available'')
     else if j = jtext ''unavailable'' then Some (lit ''unavailable'') else None)"

definition max_process_contributions :: nat where
  "max_process_contributions = 128"

text \<open>A list of distinct positive process ids, in its order.\<close>

fun read_pids :: "json list \<Rightarrow> int list \<Rightarrow> int list option" where
  "read_pids [] seen = Some []"
| "read_pids (j # js) seen = (case j of
     JInt n \<Rightarrow> if n \<le> 0 \<or> n \<in> set seen then None else map_option (\<lambda>ns. n # ns) (read_pids js (n # seen))
   | _ \<Rightarrow> None)"

section \<open>Snapshots\<close>

record snapshot_metrics =
  sn_status :: pystr
  sn_message_count :: int
  sn_payload_bytes :: int
  sn_max_payload_bytes :: int
  sn_serialization_seconds :: pyfloat
  sn_max_serialization_seconds :: pyfloat
  sn_checkpoint_message_count :: int
  sn_checkpoint_payload_bytes :: int
  sn_max_checkpoint_payload_bytes :: int
  sn_checkpoint_serialization_seconds :: pyfloat
  sn_max_checkpoint_serialization_seconds :: pyfloat

definition no_snapshot_metrics :: "string \<Rightarrow> snapshot_metrics" where
  "no_snapshot_metrics status = \<lparr>sn_status = lit status, sn_message_count = 0, sn_payload_bytes = 0,
     sn_max_payload_bytes = 0, sn_serialization_seconds = Fin 0, sn_max_serialization_seconds = Fin 0,
     sn_checkpoint_message_count = 0, sn_checkpoint_payload_bytes = 0, sn_max_checkpoint_payload_bytes = 0,
     sn_checkpoint_serialization_seconds = Fin 0, sn_max_checkpoint_serialization_seconds = Fin 0\<rparr>"

definition snapshot_keys :: "string list" where
  "snapshot_keys = [''message_count'', ''payload_bytes'', ''max_payload_bytes'', ''serialization_ns'',
     ''max_serialization_ns'', ''checkpoint_message_count'', ''checkpoint_payload_bytes'',
     ''max_checkpoint_payload_bytes'', ''checkpoint_serialization_ns'', ''max_checkpoint_serialization_ns'']"

fun snapshot_of :: "pystr \<Rightarrow> int list \<Rightarrow> snapshot_metrics res" where
  "snapshot_of status [messages, payload, max_payload, time, max_time, c_messages, c_payload, c_max_payload, c_time, c_max_time] =
     (if payload < max_payload \<or> time < max_time \<or> messages < c_messages \<or> payload < c_payload \<or>
        c_payload < c_max_payload \<or> time < c_time \<or> c_time < c_max_time \<or>
        (status = lit ''unavailable'' \<and>
         list_ex (\<lambda>n. n \<noteq> 0) [messages, payload, max_payload, time, max_time, c_messages, c_payload, c_max_payload, c_time, c_max_time])
      then Inr (no_snapshot_metrics ''invalid'')
      else rbind (seconds time) (\<lambda>t. rbind (seconds max_time) (\<lambda>mt. rbind (seconds c_time) (\<lambda>ct. rbind (seconds c_max_time) (\<lambda>cmt.
        Inr \<lparr>sn_status = status, sn_message_count = messages, sn_payload_bytes = payload,
          sn_max_payload_bytes = max_payload, sn_serialization_seconds = t, sn_max_serialization_seconds = mt,
          sn_checkpoint_message_count = c_messages, sn_checkpoint_payload_bytes = c_payload,
          sn_max_checkpoint_payload_bytes = c_max_payload, sn_checkpoint_serialization_seconds = ct,
          sn_max_checkpoint_serialization_seconds = cmt\<rparr>)))))"
| "snapshot_of status _ = Inr (no_snapshot_metrics ''invalid'')"

definition profile_snapshot_metrics :: "attrs \<Rightarrow> snapshot_metrics res" where
  "profile_snapshot_metrics instrumentation = (case jget instrumentation ''snapshot_metrics'' of
     JNull \<Rightarrow> Inr (no_snapshot_metrics ''unavailable'')
   | JObj d \<Rightarrow> (case (available_status (jget d ''status''), read_counts d snapshot_keys) of
       (Some status, Some counts) \<Rightarrow> snapshot_of status counts
     | _ \<Rightarrow> Inr (no_snapshot_metrics ''invalid''))
   | _ \<Rightarrow> Inr (no_snapshot_metrics ''invalid''))"

section \<open>Publication\<close>

record publication_metrics =
  pb_status :: pystr
  pb_fallback_process_count :: int
  pb_fallback_process_ids :: "int list"
  pb_socket_attempted_process_count :: int
  pb_socket_failure_seconds :: pyfloat
  pb_max_socket_failure_seconds :: pyfloat

definition no_publication_metrics :: "string \<Rightarrow> publication_metrics" where
  "no_publication_metrics status = \<lparr>pb_status = lit status, pb_fallback_process_count = 0, pb_fallback_process_ids = [],
     pb_socket_attempted_process_count = 0, pb_socket_failure_seconds = Fin 0, pb_max_socket_failure_seconds = Fin 0\<rparr>"

definition publication_keys :: "string list" where
  "publication_keys = [''fallback_process_count'', ''socket_attempted_process_count'', ''socket_failure_ns'', ''max_socket_failure_ns'']"

definition bounded_pids :: "json \<Rightarrow> int list option" where
  "bounded_pids j = (case j of
     JList js \<Rightarrow> if max_process_contributions < length js then None else read_pids js []
   | _ \<Rightarrow> None)"

fun publication_of :: "pystr \<Rightarrow> int list \<Rightarrow> int list \<Rightarrow> publication_metrics res" where
  "publication_of status [fallback, attempted, failure, max_failure] pids =
     (if fallback \<noteq> int (length pids) \<or> fallback < attempted \<or> failure < max_failure \<or>
        (attempted = 0 \<and> (failure \<noteq> 0 \<or> max_failure \<noteq> 0)) \<or>
        (status = lit ''unavailable'' \<and> (pids \<noteq> [] \<or> list_ex (\<lambda>n. n \<noteq> 0) [fallback, attempted, failure, max_failure]))
      then Inr (no_publication_metrics ''invalid'')
      else rbind (seconds failure) (\<lambda>t. rbind (seconds max_failure) (\<lambda>mt.
        Inr \<lparr>pb_status = status, pb_fallback_process_count = fallback, pb_fallback_process_ids = pids,
          pb_socket_attempted_process_count = attempted, pb_socket_failure_seconds = t,
          pb_max_socket_failure_seconds = mt\<rparr>)))"
| "publication_of status _ pids = Inr (no_publication_metrics ''invalid'')"

definition profile_publication_metrics :: "attrs \<Rightarrow> publication_metrics res" where
  "profile_publication_metrics instrumentation = (case jget instrumentation ''publication_metrics'' of
     JNull \<Rightarrow> Inr (no_publication_metrics ''unavailable'')
   | JObj d \<Rightarrow> (case (available_status (jget d ''status''), read_counts d publication_keys, bounded_pids (jget d ''fallback_process_ids'')) of
       (Some status, Some counts, Some pids) \<Rightarrow> publication_of status counts pids
     | _ \<Rightarrow> Inr (no_publication_metrics ''invalid''))
   | _ \<Rightarrow> Inr (no_publication_metrics ''invalid''))"

section \<open>Normalization\<close>

record normalization_metrics =
  nm_status :: pystr
  nm_duration_seconds :: pyfloat
  nm_ranking_peak_bytes :: int
  nm_ranking_limit_bytes :: int

definition no_normalization_metrics :: "string \<Rightarrow> normalization_metrics" where
  "no_normalization_metrics status = \<lparr>nm_status = lit status, nm_duration_seconds = Fin 0, nm_ranking_peak_bytes = 0,
     nm_ranking_limit_bytes = 0\<rparr>"

definition normalization_keys :: "string list" where
  "normalization_keys = [''duration_ns'', ''ranking_database_peak_bytes'', ''ranking_database_limit_bytes'']"

fun normalization_of :: "pystr \<Rightarrow> int list \<Rightarrow> normalization_metrics res" where
  "normalization_of status [duration, peak, limit] =
     (if limit \<le> 0 \<or> limit < peak \<or> (status = lit ''unavailable'' \<and> (duration \<noteq> 0 \<or> peak \<noteq> 0))
      then Inr (no_normalization_metrics ''invalid'')
      else rbind (seconds duration) (\<lambda>t.
        Inr \<lparr>nm_status = status, nm_duration_seconds = t, nm_ranking_peak_bytes = peak, nm_ranking_limit_bytes = limit\<rparr>))"
| "normalization_of status _ = Inr (no_normalization_metrics ''invalid'')"

definition profile_normalization_metrics :: "attrs \<Rightarrow> normalization_metrics res" where
  "profile_normalization_metrics instrumentation = (case jget instrumentation ''normalization_metrics'' of
     JNull \<Rightarrow> Inr (no_normalization_metrics ''unavailable'')
   | JObj d \<Rightarrow> (case (available_status (jget d ''status''), read_counts d normalization_keys) of
       (Some status, Some counts) \<Rightarrow> normalization_of status counts
     | _ \<Rightarrow> Inr (no_normalization_metrics ''invalid''))
   | _ \<Rightarrow> Inr (no_normalization_metrics ''invalid''))"

section \<open>Processes\<close>

definition profile_process_ids :: "attrs \<Rightarrow> int \<Rightarrow> pystr \<times> int list" where
  "profile_process_ids instrumentation process_count = (case jget instrumentation ''process_ids'' of
     JNull \<Rightarrow> (lit ''unavailable'', [])
   | JList js \<Rightarrow>
       if int (length js) \<noteq> process_count \<or> max_process_contributions < length js then (lit ''invalid'', [])
       else (case read_pids js [] of
           None \<Rightarrow> (lit ''invalid'', [])
         | Some pids \<Rightarrow> (lit ''complete'', sort pids))
   | _ \<Rightarrow> (lit ''invalid'', []))"

text \<open>\<open>Path(name).name\<close> of a POSIX path: the last component that is not empty and not a dot.\<close>

fun split_path :: "pystr \<Rightarrow> pystr list" where
  "split_path [] = [[]]"
| "split_path (c # s) = (if c = 47 then [] # split_path s
     else (case split_path s of [] \<Rightarrow> [[c]] | p # ps \<Rightarrow> (c # p) # ps))"

definition path_name :: "pystr \<Rightarrow> pystr" where
  "path_name s = (case rev (filter (\<lambda>p. p \<noteq> [] \<and> p \<noteq> lit ''.'') (split_path s)) of [] \<Rightarrow> [] | p # _ \<Rightarrow> p)"

definition is_python_process_name :: "(pystr \<Rightarrow> pystr) \<Rightarrow> pystr \<Rightarrow> bool" where
  "is_python_process_name casefold name \<longleftrightarrow>
     (let normalized = casefold (path_name name) in
      starts_with normalized (lit ''python'') \<or> starts_with normalized (lit ''pypy''))"

record observer_summary =
  po_status :: pystr
  po_process_count :: int
  po_descendant_process_count :: int
  po_sample_count :: int
  po_poll_count :: int
  po_truncated :: bool
  po_dropped_process_count :: int
  po_interval_seconds :: pyfloat
  po_error :: "pystr option"

definition observer_statuses :: "pystr list" where
  "observer_statuses = map lit [''complete'', ''truncated'', ''partial'', ''unavailable'', ''invalid'']"

definition known_status :: "pystr list \<Rightarrow> json \<Rightarrow> pystr" where
  "known_status names j = (case j of JStr s \<Rightarrow> if s \<in> set names then s else lit ''invalid'' | _ \<Rightarrow> lit ''invalid'')"

definition nonempty_text :: "json \<Rightarrow> pystr option" where
  "nonempty_text j = (case j of JStr s \<Rightarrow> if s = [] then None else Some s | _ \<Rightarrow> None)"

definition process_observer_summary :: "attrs \<Rightarrow> observer_summary option res" where
  "process_observer_summary metadata =
     (case Option.bind (capture_section metadata) (\<lambda>capture. as_object (jget capture ''process_observer'')) of
        None \<Rightarrow> Inr None
      | Some d \<Rightarrow>
          if \<not> is_true (jget d ''requested'') then Inr None
          else rbind (seconds (metadata_count (jget d ''interval_ns''))) (\<lambda>interval.
            Inr (Some \<lparr>po_status = known_status observer_statuses (jget d ''status''),
              po_process_count = metadata_count (jget d ''process_count''),
              po_descendant_process_count = metadata_count (jget d ''descendant_process_count''),
              po_sample_count = metadata_count (jget d ''sample_count''), po_poll_count = metadata_count (jget d ''poll_count''),
              po_truncated = is_true (jget d ''truncated''),
              po_dropped_process_count = metadata_count (jget d ''dropped_process_count''),
              po_interval_seconds = interval, po_error = nonempty_text (jget d ''error'')\<rparr>)))"

record coverage_gap =
  gap_pid :: int
  gap_process_name :: pystr
  gap_parent_name :: "pystr option"

record profile_coverage =
  pc_status :: pystr
  pc_profiled_process_count :: int
  pc_observed_python_process_count :: "int option"
  pc_matched_process_count :: int
  pc_unprofiled_process_count :: int
  pc_unprofiled_processes :: "coverage_gap list"
  pc_unobserved_profile_process_ids :: "int list"

definition max_profile_coverage_gaps :: nat where
  "max_profile_coverage_gaps = 100"

definition no_coverage :: "string \<Rightarrow> int \<Rightarrow> profile_coverage" where
  "no_coverage status process_count = \<lparr>pc_status = lit status, pc_profiled_process_count = process_count,
     pc_observed_python_process_count = None, pc_matched_process_count = 0, pc_unprofiled_process_count = 0,
     pc_unprofiled_processes = [], pc_unobserved_profile_process_ids = []\<rparr>"

definition gap_of :: "(int, process_identity) dict \<Rightarrow> int \<Rightarrow> coverage_gap res" where
  "gap_of observed pid = rbind (find observed pid) (\<lambda>p.
     Inr \<lparr>gap_pid = pid, gap_process_name = pi_name p, gap_parent_name = pi_parent_name p\<rparr>)"

definition coverage_of ::
  "(pystr \<Rightarrow> pystr) \<Rightarrow> int \<Rightarrow> pystr \<Rightarrow> int list \<Rightarrow> (int, process_identity) dict \<Rightarrow> profile_coverage res" where
  "coverage_of casefold process_count observer_status pids observed =
     (let python_ids = map fst (filter (\<lambda>(pid, p). pid \<in> set pids \<or> is_python_process_name casefold (pi_name p)) observed);
          unprofiled = filter (\<lambda>pid. pid \<notin> set pids) python_ids;
          unobserved = sort (filter (\<lambda>pid. \<not> has_key observed pid) pids) in
      rbind (traverse (gap_of observed) (take max_profile_coverage_gaps (sort unprofiled))) (\<lambda>gaps.
      Inr \<lparr>pc_status = lit (if observer_status = lit ''complete'' \<and> unprofiled = [] \<and> unobserved = [] then ''complete'' else ''partial''),
        pc_profiled_process_count = process_count, pc_observed_python_process_count = Some (int (length python_ids)),
        pc_matched_process_count = int (length (filter (\<lambda>pid. pid \<in> set python_ids) pids)),
        pc_unprofiled_process_count = int (length unprofiled), pc_unprofiled_processes = gaps,
        pc_unobserved_profile_process_ids = unobserved\<rparr>))"

definition python_profile_coverage ::
  "(pystr \<Rightarrow> pystr) \<Rightarrow> attrs \<Rightarrow> pystr \<Rightarrow> int \<Rightarrow> observer_summary option \<Rightarrow> (int, process_identity) dict \<Rightarrow>
     (int list \<times> profile_coverage) res" where
  "python_profile_coverage casefold instrumentation profile_status process_count observer observed =
     (case profile_process_ids instrumentation process_count of (identity_status, pids) \<Rightarrow>
       if profile_status = lit ''invalid'' \<or> identity_status = lit ''invalid'' then Inr ([], no_coverage ''invalid'' process_count)
       else if identity_status = lit ''unavailable'' then Inr (pids, no_coverage ''unavailable'' process_count)
       else (case observer of
           None \<Rightarrow> Inr (pids, no_coverage ''unavailable'' process_count)
         | Some ob \<Rightarrow>
             if po_status ob \<in> {lit ''unavailable'', lit ''invalid''} then Inr (pids, no_coverage ''unavailable'' process_count)
             else rbind (coverage_of casefold process_count (po_status ob) pids observed) (\<lambda>c. Inr (pids, c))))"

end
