(* ===== verification/ProfileSummary.thy ===== *)
theory ProfileSummary
  imports ProfileMetrics
begin

text \<open>
  \<open>batchscope/analysis/_profile_summary.py\<close>, second part: what the metadata of a run say of the calls
  into native code, of the Python exceptions and of the integrity of the observer, and the summaries
  of a deep and of a sampling profile that gather all of it.
\<close>

section \<open>Native calls\<close>

record native_capture =
  nv_status :: pystr
  nv_function_count :: int
  nv_call_count :: int
  nv_exception_count :: int
  nv_max_functions_per_process :: int
  nv_max_edges_per_process :: int

definition max_native_functions_per_process :: int where
  "max_native_functions_per_process = 2000"

definition max_native_edges_per_process :: int where
  "max_native_edges_per_process = 10000"

definition equals_int :: "int \<Rightarrow> json \<Rightarrow> bool" where
  "equals_int n j \<longleftrightarrow> numeric_value j = Some (Fin (of_int n))"

definition native_of :: "pystr \<Rightarrow> int \<Rightarrow> int \<Rightarrow> int \<Rightarrow> native_capture" where
  "native_of status functions calls exceptions = \<lparr>nv_status = status, nv_function_count = functions, nv_call_count = calls,
     nv_exception_count = exceptions, nv_max_functions_per_process = max_native_functions_per_process,
     nv_max_edges_per_process = max_native_edges_per_process\<rparr>"

definition limits_ok :: "json \<Rightarrow> (string \<times> int) list \<Rightarrow> bool" where
  "limits_ok j ls = (case j of JObj d \<Rightarrow> list_all (\<lambda>(k, n). equals_int n (jget d k)) ls | _ \<Rightarrow> False)"

definition native_call_capture_summary :: "attrs \<Rightarrow> pystr \<Rightarrow> int \<Rightarrow> native_capture option" where
  "native_call_capture_summary instrumentation profile_status profile_functions =
     (case jget instrumentation ''native_call_capture'' of
        JNull \<Rightarrow> None
      | JObj d \<Rightarrow> Some (case (jget d ''function_count'', jget d ''call_count'', jget d ''exception_count'') of
          (JInt functions, JInt calls, JInt exceptions) \<Rightarrow>
            if is_true (jget d ''enabled'') \<and> is_true (jget d ''deep_only'') \<and>
               all_false d [''arguments_captured'', ''return_values_captured'', ''exception_messages_captured''] \<and>
               0 \<le> functions \<and> functions \<le> profile_functions \<and> functions \<le> calls \<and>
               0 \<le> exceptions \<and> exceptions \<le> calls \<and>
               limits_ok (jget d ''limits'') [(''max_functions_per_process'', max_native_functions_per_process),
                 (''max_edges_per_process'', max_native_edges_per_process)]
            then native_of profile_status functions calls exceptions
            else native_of (lit ''invalid'') 0 0 0
        | _ \<Rightarrow> native_of (lit ''invalid'') 0 0 0)
      | _ \<Rightarrow> Some (native_of (lit ''invalid'') 0 0 0))"

section \<open>The integrity of the observer\<close>

record observer_integrity =
  oi_status :: pystr
  oi_process_count :: int
  oi_missing_process_count :: int
  oi_profile_hook_setter_call_count :: int
  oi_profile_hook_setter_process_count :: int
  oi_trace_hook_setter_call_count :: int
  oi_trace_hook_setter_process_count :: int

definition invalid_integrity :: "int \<Rightarrow> observer_integrity" where
  "invalid_integrity process_count = \<lparr>oi_status = lit ''invalid'', oi_process_count = 0,
     oi_missing_process_count = process_count, oi_profile_hook_setter_call_count = 0,
     oi_profile_hook_setter_process_count = 0, oi_trace_hook_setter_call_count = 0, oi_trace_hook_setter_process_count = 0\<rparr>"

definition integrity_statuses :: "pystr list" where
  "integrity_statuses = map lit [''complete'', ''partial'', ''unavailable'']"

definition integrity_keys :: "string list" where
  "integrity_keys = [''process_count'', ''missing_process_count'', ''profile_hook_setter_call_count'',
     ''profile_hook_setter_process_count'', ''trace_hook_setter_call_count'', ''trace_hook_setter_process_count'']"

definition expected_integrity :: "int \<Rightarrow> int \<Rightarrow> int \<Rightarrow> int \<Rightarrow> pystr" where
  "expected_integrity processes missing profile_calls trace_calls =
     lit (if processes = 0 then ''unavailable''
          else if missing \<noteq> 0 \<or> profile_calls \<noteq> 0 \<or> trace_calls \<noteq> 0 then ''partial'' else ''complete'')"

fun integrity_of :: "int \<Rightarrow> json \<Rightarrow> int list \<Rightarrow> observer_integrity" where
  "integrity_of total_processes raw_status [processes, missing, profile_calls, profile_processes, trace_calls, trace_processes] =
     (let expected = expected_integrity processes missing profile_calls trace_calls in
      if processes + missing \<noteq> total_processes \<or> processes < profile_processes \<or> processes < trace_processes \<or>
         profile_calls < profile_processes \<or> trace_calls < trace_processes \<or> raw_status \<noteq> JStr expected
      then invalid_integrity total_processes
      else \<lparr>oi_status = expected, oi_process_count = processes, oi_missing_process_count = missing,
        oi_profile_hook_setter_call_count = profile_calls, oi_profile_hook_setter_process_count = profile_processes,
        oi_trace_hook_setter_call_count = trace_calls, oi_trace_hook_setter_process_count = trace_processes\<rparr>)"
| "integrity_of total_processes raw_status _ = invalid_integrity total_processes"

definition observer_integrity_summary :: "attrs \<Rightarrow> int \<Rightarrow> observer_integrity option res" where
  "observer_integrity_summary instrumentation total_processes = (case jget instrumentation ''observer_integrity'' of
     JNull \<Rightarrow> Inr None
   | JObj d \<Rightarrow> rbind (any_of
       [Inr (\<not> equals_int 1 (jget d ''format_version'')),
        not_member (jget d ''status'') integrity_statuses,
        Inr (\<not> all_false d [''arguments_captured'', ''locals_captured'', ''hook_values_captured'']),
        Inr (\<not> list_all (\<lambda>k. int_in (\<lambda>n. 0 \<le> n) (jget d k)) integrity_keys)]) (\<lambda>bad.
       Inr (Some (if bad then invalid_integrity total_processes
         else integrity_of total_processes (jget d ''status'') (map (\<lambda>k. the_int (jget d k)) integrity_keys))))
   | _ \<Rightarrow> Inr (Some (invalid_integrity total_processes)))"

section \<open>Python exceptions\<close>

record exception_filter =
  ef_status :: pystr
  ef_non_control_flow_function_count :: int
  ef_non_control_flow_event_count :: int
  ef_filtered_event_count :: int
  ef_dropped_non_control_flow_event_count :: int
  ef_dropped_filtered_event_count :: int

record exception_capture =
  ec_status :: pystr
  ec_function_count :: int
  ec_event_count :: int
  ec_dropped_event_count :: int
  ec_max_functions_per_process :: int
  ec_control_flow_filter :: "exception_filter option"

definition max_python_functions_per_process :: int where
  "max_python_functions_per_process = 2000"

definition invalid_exceptions :: exception_capture where
  "invalid_exceptions = \<lparr>ec_status = lit ''invalid'', ec_function_count = 0, ec_event_count = 0, ec_dropped_event_count = 0,
     ec_max_functions_per_process = max_python_functions_per_process, ec_control_flow_filter = None\<rparr>"

definition exceptions_malformed :: "attrs \<Rightarrow> int \<Rightarrow> bool" where
  "exceptions_malformed d profile_functions \<longleftrightarrow>
     \<not> is_true (jget d ''enabled'') \<or> \<not> is_true (jget d ''deep_only'') \<or>
     jget d ''event_semantics'' \<noteq> jtext ''per_propagated_frame'' \<or>
     \<not> all_false d [''arguments_captured'', ''locals_captured'', ''exception_types_captured'', ''exception_values_captured'',
       ''exception_messages_captured'', ''tracebacks_captured'', ''line_events_enabled'', ''opcode_events_enabled''] \<or>
     \<not> int_in (\<lambda>n. 0 \<le> n \<and> n \<le> profile_functions) (jget d ''function_count'') \<or>
     \<not> int_in (\<lambda>n. the_int (jget d ''function_count'') \<le> n) (jget d ''event_count'') \<or>
     \<not> int_in (\<lambda>n. 0 \<le> n) (jget d ''dropped_event_count'') \<or>
     \<not> limits_ok (jget d ''limits'') [(''max_functions_per_process'', max_python_functions_per_process)]"

text \<open>The status of the profile, lowered when the observer could not watch all of it.\<close>

definition exception_status :: "pystr \<Rightarrow> observer_integrity option \<Rightarrow> pystr" where
  "exception_status profile_status integrity = (case integrity of
     None \<Rightarrow> profile_status
   | Some i \<Rightarrow>
       if oi_status i = lit ''invalid'' then lit ''invalid''
       else if oi_status i = lit ''partial'' \<and> (oi_trace_hook_setter_call_count i \<noteq> 0 \<or> oi_missing_process_count i \<noteq> 0)
         then lit ''partial''
       else profile_status)"

definition filtered_exception_types :: "json list" where
  "filtered_exception_types = [jtext ''GeneratorExit'', jtext ''StopAsyncIteration'', jtext ''StopIteration'']"

definition filter_keys :: "string list" where
  "filter_keys = [''non_control_flow_function_count'', ''non_control_flow_event_count'', ''filtered_event_count'',
     ''dropped_non_control_flow_event_count'', ''dropped_filtered_event_count'']"

definition filter_malformed :: "attrs \<Rightarrow> pystr \<Rightarrow> bool" where
  "filter_malformed f profile_status \<longleftrightarrow>
     \<not> equals_int 1 (jget f ''format_version'') \<or> jget f ''status'' \<noteq> JStr profile_status \<or>
     jget f ''event_semantics'' \<noteq> jtext ''exact_type_identity'' \<or>
     jget f ''filtered_exception_types'' \<noteq> JList filtered_exception_types \<or>
     \<not> is_true (jget f ''exception_type_identity_inspected'') \<or> \<not> is_false (jget f ''exception_types_captured'') \<or>
     \<not> list_all (\<lambda>k. int_in (\<lambda>n. 0 \<le> n) (jget f k)) filter_keys"

fun filter_of :: "pystr \<Rightarrow> int \<Rightarrow> int \<Rightarrow> int \<Rightarrow> int list \<Rightarrow> exception_filter option" where
  "filter_of status functions events dropped [own_functions, own_events, filtered, dropped_own, dropped_filtered] =
     (if functions < own_functions \<or> own_events < own_functions \<or> events < own_events \<or>
         filtered \<noteq> events - own_events \<or> dropped < dropped_own \<or> dropped_filtered \<noteq> dropped - dropped_own
      then None
      else Some \<lparr>ef_status = status, ef_non_control_flow_function_count = own_functions,
        ef_non_control_flow_event_count = own_events, ef_filtered_event_count = filtered,
        ef_dropped_non_control_flow_event_count = dropped_own, ef_dropped_filtered_event_count = dropped_filtered\<rparr>)"
| "filter_of status functions events dropped _ = None"

definition exceptions_of :: "attrs \<Rightarrow> pystr \<Rightarrow> exception_filter option \<Rightarrow> exception_capture" where
  "exceptions_of d status f = \<lparr>ec_status = status, ec_function_count = the_int (jget d ''function_count''),
     ec_event_count = the_int (jget d ''event_count''), ec_dropped_event_count = the_int (jget d ''dropped_event_count''),
     ec_max_functions_per_process = max_python_functions_per_process, ec_control_flow_filter = f\<rparr>"

definition python_exception_capture_summary ::
  "attrs \<Rightarrow> pystr \<Rightarrow> int \<Rightarrow> observer_integrity option \<Rightarrow> exception_capture option" where
  "python_exception_capture_summary instrumentation profile_status profile_functions integrity =
     (case jget instrumentation ''python_exception_capture'' of
        JNull \<Rightarrow> None
      | JObj d \<Rightarrow>
          let status = exception_status profile_status integrity in
          Some (if exceptions_malformed d profile_functions then invalid_exceptions
            else (case jget d ''control_flow_filter'' of
                JNull \<Rightarrow> exceptions_of d status None
              | JObj f \<Rightarrow>
                  if filter_malformed f profile_status then invalid_exceptions
                  else (case filter_of status (the_int (jget d ''function_count'')) (the_int (jget d ''event_count''))
                          (the_int (jget d ''dropped_event_count'')) (map (\<lambda>k. the_int (jget f k)) filter_keys) of
                      None \<Rightarrow> invalid_exceptions
                    | Some s \<Rightarrow> exceptions_of d status (Some s))
              | _ \<Rightarrow> invalid_exceptions))
      | _ \<Rightarrow> Some invalid_exceptions)"

section \<open>The profiles\<close>

text \<open>The fields that both profiles have.\<close>

record profile_common =
  pf_status :: pystr
  pf_process_count :: int
  pf_function_count :: int
  pf_edge_count :: int
  pf_truncated :: bool
  pf_checkpoint_process_count :: int
  pf_registration_only_process_count :: int
  pf_dropped_profile_process_count :: int
  pf_dropped_profile_process_count_truncated :: bool
  pf_first_checkpoint_delay_seconds :: pyfloat
  pf_checkpoint_interval_seconds :: pyfloat
  pf_transport :: pystr
  pf_collector_error_count :: int
  pf_snapshot_metrics :: snapshot_metrics
  pf_publication_metrics :: publication_metrics
  pf_normalization_metrics :: normalization_metrics
  pf_process_ids :: "int list"
  pf_process_coverage :: profile_coverage

record deep_profile_summary =
  dp_common :: profile_common
  dp_dropped_call_count :: int
  dp_open_call_count :: int
  dp_native_call_capture :: "native_capture option"
  dp_python_exception_capture :: "exception_capture option"
  dp_observer_integrity :: "observer_integrity option"

record sample_profile_summary =
  sp_common :: profile_common
  sp_sample_count :: int
  sp_thread_sample_count :: int
  sp_dropped_frame_sample_count :: int
  sp_interval_seconds :: pyfloat

definition transport_text :: "json \<Rightarrow> pystr" where
  "transport_text j = (case nonempty_text j of None \<Rightarrow> lit ''unknown'' | Some s \<Rightarrow> s)"

definition profile_common_of ::
  "(pystr \<Rightarrow> pystr) \<Rightarrow> attrs \<Rightarrow> observer_summary option \<Rightarrow> (int, process_identity) dict \<Rightarrow> profile_common res" where
  "profile_common_of casefold i observer observed =
     (let status = known_status status_names (jget i ''status''); processes = metadata_count (jget i ''process_count'') in
      rbind (python_profile_coverage casefold i status processes observer observed) (\<lambda>(pids, coverage).
      rbind (seconds (metadata_count (jget i ''first_checkpoint_delay_ns''))) (\<lambda>delay.
      rbind (seconds (metadata_count (jget i ''checkpoint_interval_ns''))) (\<lambda>interval.
      rbind (profile_snapshot_metrics i) (\<lambda>snapshots.
      rbind (profile_publication_metrics i) (\<lambda>publication.
      rbind (profile_normalization_metrics i) (\<lambda>normalization.
      Inr \<lparr>pf_status = status, pf_process_count = processes,
        pf_function_count = metadata_count (jget i ''function_count''), pf_edge_count = metadata_count (jget i ''edge_count''),
        pf_truncated = is_true (jget i ''truncated''),
        pf_checkpoint_process_count = metadata_count (jget i ''checkpoint_process_count''),
        pf_registration_only_process_count = metadata_count (jget i ''registration_only_process_count''),
        pf_dropped_profile_process_count = metadata_count (jget i ''dropped_profile_process_count''),
        pf_dropped_profile_process_count_truncated = is_true (jget i ''dropped_profile_process_count_truncated''),
        pf_first_checkpoint_delay_seconds = delay, pf_checkpoint_interval_seconds = interval,
        pf_transport = transport_text (jget i ''transport''),
        pf_collector_error_count = metadata_count (jget i ''collector_error_count''),
        pf_snapshot_metrics = snapshots, pf_publication_metrics = publication, pf_normalization_metrics = normalization,
        pf_process_ids = pids, pf_process_coverage = coverage\<rparr>)))))))"

definition instrumentation_in_mode :: "string \<Rightarrow> attrs \<Rightarrow> attrs option" where
  "instrumentation_in_mode mode metadata =
     Option.bind (instrumentation_section metadata) (\<lambda>i. if jget i ''mode'' = jtext mode then Some i else None)"

definition deep_profile_summary ::
  "(pystr \<Rightarrow> pystr) \<Rightarrow> attrs \<Rightarrow> observer_summary option \<Rightarrow> (int, process_identity) dict \<Rightarrow> deep_profile_summary option res" where
  "deep_profile_summary casefold metadata observer observed =
     (case instrumentation_in_mode ''deep'' metadata of
        None \<Rightarrow> Inr None
      | Some i \<Rightarrow>
          rbind (profile_common_of casefold i observer observed) (\<lambda>c.
          rbind (observer_integrity_summary i (pf_process_count c)) (\<lambda>integrity.
          Inr (Some \<lparr>dp_common = c, dp_dropped_call_count = metadata_count (jget i ''dropped_call_count''),
            dp_open_call_count = metadata_count (jget i ''open_call_count''),
            dp_native_call_capture = native_call_capture_summary i (pf_status c) (pf_function_count c),
            dp_python_exception_capture = python_exception_capture_summary i (pf_status c) (pf_function_count c) integrity,
            dp_observer_integrity = integrity\<rparr>))))"

definition sample_profile_summary ::
  "(pystr \<Rightarrow> pystr) \<Rightarrow> attrs \<Rightarrow> observer_summary option \<Rightarrow> (int, process_identity) dict \<Rightarrow> sample_profile_summary option res" where
  "sample_profile_summary casefold metadata observer observed =
     (case instrumentation_in_mode ''sample'' metadata of
        None \<Rightarrow> Inr None
      | Some i \<Rightarrow>
          rbind (profile_common_of casefold i observer observed) (\<lambda>c.
          rbind (seconds (metadata_count (jget i ''interval_ns''))) (\<lambda>interval.
          Inr (Some \<lparr>sp_common = c, sp_sample_count = metadata_count (jget i ''sample_count''),
            sp_thread_sample_count = metadata_count (jget i ''thread_sample_count''),
            sp_dropped_frame_sample_count = metadata_count (jget i ''dropped_frame_sample_count''),
            sp_interval_seconds = interval\<rparr>))))"

end
