(* ===== verification/Hotspots.thy ===== *)
theory Hotspots
  imports ProfileSummary HttpCapture Inspect
begin

text \<open>
  \<open>batchscope/analysis/_hotspots.py\<close> and \<open>_resources.py\<close>: the Python functions that a deep or a
  sampling profile found hot, the processes that contribute to each, the bottlenecks they show, and
  the resources that the observed processes used.
\<close>

section \<open>Process contributions\<close>

definition identify_process ::
  "int \<Rightarrow> pystr \<Rightarrow> (int, process_identity) dict \<Rightarrow> pystr option \<Rightarrow> pystr option \<times> pystr option \<times> bool" where
  "identify_process pid role observed root_name = (case dget observed pid of
     Some p \<Rightarrow> (Some (pi_name p), pi_parent_name p, True)
   | None \<Rightarrow> (if role = lit ''root'' then root_name else None, None, False))"

definition process_role :: "json \<Rightarrow> pystr option" where
  "process_role j = (case j of JStr s \<Rightarrow> if s \<in> set roles then Some s else None | _ \<Rightarrow> None)"

record call_contribution =
  pcc_pid :: int
  pcc_role :: pystr
  pcc_process_name :: "pystr option"
  pcc_parent_name :: "pystr option"
  pcc_observed :: bool
  pcc_call_count :: int
  pcc_total_seconds :: pyfloat
  pcc_self_seconds :: pyfloat
  pcc_max_seconds :: pyfloat
  pcc_exception_count :: int
  pcc_own_exception_count :: "int option"

text \<open>What the aggregate of a function says, which its contributions must add up to.\<close>

record call_totals =
  ct_native :: bool
  ct_call_count :: int
  ct_total_seconds :: pyfloat
  ct_self_seconds :: pyfloat
  ct_max_seconds :: pyfloat
  ct_exception_count :: int
  ct_own_exception_count :: "int option"

definition close_to :: "pyfloat \<Rightarrow> pyfloat \<Rightarrow> bool" where
  "close_to = isclose tolerance (rnd (1 / 10 ^ 12))"

text \<open>The list of processes of an aggregate, with the declared length; the error is the status.\<close>

definition process_entries :: "attrs \<Rightarrow> pystr + json list" where
  "process_entries d = (case jget d ''processes'' of
     JNull \<Rightarrow> Inl (lit ''unavailable'')
   | JList js \<Rightarrow>
       if js = [] \<or> max_process_contributions < length js then Inl (lit ''invalid'')
       else if \<not> int_in (\<lambda>n. n = int (length js)) (jget d ''process_count'') then Inl (lit ''invalid'')
       else Inr js
   | _ \<Rightarrow> Inl (lit ''invalid''))"

definition own_exceptions_bad :: "call_totals \<Rightarrow> json \<Rightarrow> int \<Rightarrow> bool" where
  "own_exceptions_bad t j exceptions = (case ct_own_exception_count t of
     None \<Rightarrow> j \<noteq> JNull
   | Some _ \<Rightarrow> \<not> int_in (\<lambda>n. 0 \<le> n \<and> n \<le> exceptions) j)"

text \<open>
  One entry; \<open>None\<close> ends the loop. The durations are converted before anything is checked.
\<close>

definition call_contribution_of ::
  "call_totals \<Rightarrow> (int, process_identity) dict \<Rightarrow> pystr option \<Rightarrow> int list \<Rightarrow> json \<Rightarrow> call_contribution option res" where
  "call_contribution_of t observed root_name seen j = (case j of
     JObj d \<Rightarrow>
       rbind (nonnegative_number (jget d ''total_seconds'')) (\<lambda>tot.
       rbind (nonnegative_number (jget d ''self_seconds'')) (\<lambda>own.
       rbind (nonnegative_number (jget d ''max_seconds'')) (\<lambda>longest.
       Inr (case (jget d ''pid'', process_role (jget d ''role''), jget d ''call_count'', jget_or d ''exception_count'' (JInt 0),
                  tot, own, longest) of
         (JInt pid, Some role, JInt calls, JInt exceptions, Some x, Some y, Some z) \<Rightarrow>
           if pid \<le> 0 \<or> pid \<in> set seen \<or> calls < 0 \<or> exceptions < 0 \<or> (ct_native t \<and> calls < exceptions) \<or>
              own_exceptions_bad t (jget d ''non_control_flow_exception_count'') exceptions \<or> flt x y \<or> flt x z
           then None
           else (case identify_process pid role observed root_name of (name, parent, known) \<Rightarrow>
             Some \<lparr>pcc_pid = pid, pcc_role = role, pcc_process_name = name, pcc_parent_name = parent, pcc_observed = known,
               pcc_call_count = calls, pcc_total_seconds = x, pcc_self_seconds = y, pcc_max_seconds = z,
               pcc_exception_count = exceptions,
               pcc_own_exception_count = int_or_none (jget d ''non_control_flow_exception_count'')\<rparr>)
       | _ \<Rightarrow> None))))
   | _ \<Rightarrow> Inr None)"

text \<open>The loop over the entries; a second root ends it.\<close>

fun call_contributions ::
  "call_totals \<Rightarrow> (int, process_identity) dict \<Rightarrow> pystr option \<Rightarrow> int list \<Rightarrow> bool \<Rightarrow> json list \<Rightarrow>
     call_contribution list option res" where
  "call_contributions t observed root_name seen rooted [] = Inr (Some [])"
| "call_contributions t observed root_name seen rooted (j # js) =
     rbind (call_contribution_of t observed root_name seen j) (\<lambda>r. (case r of
         None \<Rightarrow> Inr None
       | Some c \<Rightarrow>
           let root = (pcc_role c = lit ''root'') in
           if rooted \<and> root then Inr None
           else rbind (call_contributions t observed root_name (pcc_pid c # seen) (rooted \<or> root) js) (\<lambda>cs.
             Inr (map_option (\<lambda>ds. c # ds) cs))))"

definition calls_add_up :: "call_totals \<Rightarrow> call_contribution list \<Rightarrow> bool" where
  "calls_add_up t cs \<longleftrightarrow>
     sum_list (map pcc_call_count cs) = ct_call_count t \<and> sum_list (map pcc_exception_count cs) = ct_exception_count t \<and>
     (case ct_own_exception_count t of None \<Rightarrow> True
      | Some n \<Rightarrow> sum_list (map (\<lambda>c. count_or_zero (pcc_own_exception_count c)) cs) = n) \<and>
     close_to (float_sum (map pcc_total_seconds cs)) (ct_total_seconds t) \<and>
     close_to (float_sum (map pcc_self_seconds cs)) (ct_self_seconds t) \<and>
     close_to (case cs of [] \<Rightarrow> Fin 0 | c # rest \<Rightarrow> pcc_max_seconds (max_by (\<lambda>c. float_key (pcc_max_seconds c)) c rest))
       (ct_max_seconds t)"

definition deep_process_contributions ::
  "attrs \<Rightarrow> call_totals \<Rightarrow> (int, process_identity) dict \<Rightarrow> pystr option \<Rightarrow> (pystr \<times> call_contribution list) res" where
  "deep_process_contributions d t observed root_name = (case process_entries d of
     Inl status \<Rightarrow> Inr (status, [])
   | Inr js \<Rightarrow> rbind (call_contributions t observed root_name [] False js) (\<lambda>r.
       Inr (case r of
           None \<Rightarrow> (lit ''invalid'', [])
         | Some cs \<Rightarrow> if \<not> calls_add_up t cs then (lit ''invalid'', [])
             else (lit ''complete'',
               sort_key (\<lambda>c. (descending (pcc_self_seconds c), descending (pcc_total_seconds c), pcc_pid c)) cs))))"

record sample_contribution =
  psc_pid :: int
  psc_role :: pystr
  psc_process_name :: "pystr option"
  psc_parent_name :: "pystr option"
  psc_observed :: bool
  psc_sample_count :: int
  psc_leaf_sample_count :: int
  psc_total_seconds :: pyfloat
  psc_leaf_seconds :: pyfloat

definition sample_contribution_of ::
  "(int, process_identity) dict \<Rightarrow> pystr option \<Rightarrow> int list \<Rightarrow> json \<Rightarrow> sample_contribution option res" where
  "sample_contribution_of observed root_name seen j = (case j of
     JObj d \<Rightarrow>
       rbind (nonnegative_number (jget d ''estimated_total_seconds'')) (\<lambda>tot.
       rbind (nonnegative_number (jget d ''estimated_leaf_seconds'')) (\<lambda>leaf.
       Inr (case (jget d ''pid'', process_role (jget d ''role''), jget d ''sample_count'', jget d ''leaf_sample_count'', tot, leaf) of
         (JInt pid, Some role, JInt samples, JInt leaves, Some x, Some y) \<Rightarrow>
           if pid \<le> 0 \<or> pid \<in> set seen \<or> samples < 0 \<or> leaves < 0 \<or> samples < leaves \<or> flt x y then None
           else (case identify_process pid role observed root_name of (name, parent, known) \<Rightarrow>
             Some \<lparr>psc_pid = pid, psc_role = role, psc_process_name = name, psc_parent_name = parent, psc_observed = known,
               psc_sample_count = samples, psc_leaf_sample_count = leaves, psc_total_seconds = x, psc_leaf_seconds = y\<rparr>)
       | _ \<Rightarrow> None)))
   | _ \<Rightarrow> Inr None)"

fun sample_contributions ::
  "(int, process_identity) dict \<Rightarrow> pystr option \<Rightarrow> int list \<Rightarrow> bool \<Rightarrow> json list \<Rightarrow> sample_contribution list option res" where
  "sample_contributions observed root_name seen rooted [] = Inr (Some [])"
| "sample_contributions observed root_name seen rooted (j # js) =
     rbind (sample_contribution_of observed root_name seen j) (\<lambda>r. (case r of
         None \<Rightarrow> Inr None
       | Some c \<Rightarrow>
           let root = (psc_role c = lit ''root'') in
           if rooted \<and> root then Inr None
           else rbind (sample_contributions observed root_name (psc_pid c # seen) (rooted \<or> root) js) (\<lambda>cs.
             Inr (map_option (\<lambda>ds. c # ds) cs))))"

definition samples_add_up :: "int \<Rightarrow> int \<Rightarrow> pyfloat \<Rightarrow> pyfloat \<Rightarrow> sample_contribution list \<Rightarrow> bool" where
  "samples_add_up samples leaves total_time leaf_time cs \<longleftrightarrow>
     sum_list (map psc_sample_count cs) = samples \<and> sum_list (map psc_leaf_sample_count cs) = leaves \<and>
     close_to (float_sum (map psc_total_seconds cs)) total_time \<and>
     close_to (float_sum (map psc_leaf_seconds cs)) leaf_time"

definition sample_process_contributions ::
  "attrs \<Rightarrow> int \<Rightarrow> int \<Rightarrow> pyfloat \<Rightarrow> pyfloat \<Rightarrow> (int, process_identity) dict \<Rightarrow> pystr option \<Rightarrow>
     (pystr \<times> sample_contribution list) res" where
  "sample_process_contributions d samples leaves total_time leaf_time observed root_name = (case process_entries d of
     Inl status \<Rightarrow> Inr (status, [])
   | Inr js \<Rightarrow> rbind (sample_contributions observed root_name [] False js) (\<lambda>r.
       Inr (case r of
           None \<Rightarrow> (lit ''invalid'', [])
         | Some cs \<Rightarrow> if \<not> samples_add_up samples leaves total_time leaf_time cs then (lit ''invalid'', [])
             else (lit ''complete'',
               sort_key (\<lambda>c. (- psc_leaf_sample_count c, - psc_sample_count c, psc_pid c)) cs))))"

section \<open>Functions\<close>

record python_hotspot =
  hs_name :: pystr
  hs_filename :: pystr
  hs_firstlineno :: int
  hs_scope :: pystr
  hs_call_count :: int
  hs_total_seconds :: pyfloat
  hs_self_seconds :: pyfloat
  hs_max_seconds :: pyfloat
  hs_attribution_status :: pystr
  hs_processes :: "call_contribution list"
  hs_implementation :: pystr
  hs_exception_count :: int
  hs_own_exception_count :: "int option"

text \<open>Every field of an aggregate that is not a duration; \<open>None\<close> when the event is passed over.\<close>

record aggregate_fields =
  ag_filename :: pystr
  ag_firstlineno :: int
  ag_scope :: pystr
  ag_call_count :: int
  ag_implementation :: pystr
  ag_exception_count :: int
  ag_own_exception_count :: "int option"

definition implementations :: "pystr list" where
  "implementations = map lit [''python'', ''native'']"

definition own_count_bad :: "json \<Rightarrow> pystr \<Rightarrow> int \<Rightarrow> bool" where
  "own_count_bad j implementation exceptions \<longleftrightarrow> j \<noteq> JNull \<and>
     (implementation \<noteq> lit ''python'' \<or> \<not> int_in (\<lambda>n. 0 \<le> n \<and> n \<le> exceptions) j)"

definition aggregate_of :: "event \<Rightarrow> aggregate_fields option res" where
  "aggregate_of v =
     (let i = jget_or (ev_attributes v) ''implementation'' (jtext ''python'');
          e = jget_or (ev_attributes v) ''exception_count'' (JInt 0);
          own = eget v ''non_control_flow_exception_count'' in
      rbind (any_of
        [Inr (\<not> filled_text (eget v ''filename'')),
         Inr (\<not> int_in (\<lambda>n. 0 \<le> n) (eget v ''firstlineno'')),
         Inr (\<not> known_text scopes (eget v ''scope'')),
         Inr (\<not> int_in (\<lambda>n. 0 \<le> n) (eget v ''call_count'')),
         not_member i implementations,
         Inr ((i = jtext ''native'') \<noteq> (eget v ''filename'' = jtext ''<native>'')),
         Inr (\<not> int_in (\<lambda>n. 0 \<le> n) e),
         Inr (i = jtext ''native'' \<and> the_int (eget v ''call_count'') < the_int e),
         Inr (own_count_bad own (the_text i) (the_int e))]) (\<lambda>bad.
      Inr (if bad then None
        else Some \<lparr>ag_filename = the_text (eget v ''filename''), ag_firstlineno = the_int (eget v ''firstlineno''),
          ag_scope = the_text (eget v ''scope''), ag_call_count = the_int (eget v ''call_count''),
          ag_implementation = the_text i, ag_exception_count = the_int e, ag_own_exception_count = int_or_none own\<rparr>)))"

definition python_hotspot_of ::
  "(int, process_identity) dict \<Rightarrow> pystr option \<Rightarrow> event \<Rightarrow> python_hotspot option res" where
  "python_hotspot_of observed root_name v =
     rbind (event_number v ''total_seconds'') (\<lambda>tot.
     rbind (event_number v ''self_seconds'') (\<lambda>own.
     rbind (event_number v ''max_seconds'') (\<lambda>longest.
     rbind (aggregate_of v) (\<lambda>r. (case (r, tot, own, longest) of
         (Some a, Some x, Some y, Some z) \<Rightarrow>
           rbind (deep_process_contributions (ev_attributes v)
             \<lparr>ct_native = (ag_implementation a = lit ''native''), ct_call_count = ag_call_count a, ct_total_seconds = x,
              ct_self_seconds = y, ct_max_seconds = z, ct_exception_count = ag_exception_count a,
              ct_own_exception_count = ag_own_exception_count a\<rparr> observed root_name) (\<lambda>(status, cs).
           Inr (Some \<lparr>hs_name = ev_name v, hs_filename = ag_filename a, hs_firstlineno = ag_firstlineno a,
             hs_scope = ag_scope a, hs_call_count = ag_call_count a, hs_total_seconds = x, hs_self_seconds = y,
             hs_max_seconds = z, hs_attribution_status = status, hs_processes = cs,
             hs_implementation = ag_implementation a, hs_exception_count = ag_exception_count a,
             hs_own_exception_count = ag_own_exception_count a\<rparr>))
       | _ \<Rightarrow> Inr None)))))"

definition application_scope :: pystr where
  "application_scope = lit ''application''"

definition python_hotspots ::
  "event list \<Rightarrow> (int, process_identity) dict \<Rightarrow> pystr option \<Rightarrow> python_hotspot list res" where
  "python_hotspots events observed root_name =
     rbind (read_operations (\<lambda>v. ev_kind v = lit ''python.call.aggregate'') (python_hotspot_of observed root_name) events)
       (\<lambda>(hs, _). Inr (sort_key (\<lambda>h. (hs_scope h \<noteq> application_scope, descending (hs_self_seconds h),
          descending (hs_total_seconds h), hs_name h)) hs))"

record sample_hotspot =
  ss_name :: pystr
  ss_filename :: pystr
  ss_firstlineno :: int
  ss_scope :: pystr
  ss_sample_count :: int
  ss_leaf_sample_count :: int
  ss_total_seconds :: pyfloat
  ss_leaf_seconds :: pyfloat
  ss_attribution_status :: pystr
  ss_processes :: "sample_contribution list"

definition sample_hotspot_of ::
  "(int, process_identity) dict \<Rightarrow> pystr option \<Rightarrow> event \<Rightarrow> sample_hotspot option res" where
  "sample_hotspot_of observed root_name v =
     rbind (event_number v ''estimated_total_seconds'') (\<lambda>tot.
     rbind (event_number v ''estimated_leaf_seconds'') (\<lambda>leaf.
     (case (eget v ''filename'', eget v ''firstlineno'', eget v ''scope'', eget v ''sample_count'', eget v ''leaf_sample_count'', tot, leaf) of
        (JStr filename, JInt line, JStr scope, JInt samples, JInt leaves, Some x, Some y) \<Rightarrow>
          if filename = [] \<or> line < 0 \<or> scope \<notin> set scopes \<or> samples < 0 \<or> leaves < 0 \<or> samples < leaves then Inr None
          else rbind (sample_process_contributions (ev_attributes v) samples leaves x y observed root_name) (\<lambda>(status, cs).
            Inr (Some \<lparr>ss_name = ev_name v, ss_filename = filename, ss_firstlineno = line, ss_scope = scope,
              ss_sample_count = samples, ss_leaf_sample_count = leaves, ss_total_seconds = x, ss_leaf_seconds = y,
              ss_attribution_status = status, ss_processes = cs\<rparr>))
      | _ \<Rightarrow> Inr None)))"

definition python_sample_hotspots ::
  "event list \<Rightarrow> (int, process_identity) dict \<Rightarrow> pystr option \<Rightarrow> sample_hotspot list res" where
  "python_sample_hotspots events observed root_name =
     rbind (read_operations (\<lambda>v. ev_kind v = lit ''python.stack.sample'') (sample_hotspot_of observed root_name) events)
       (\<lambda>(hs, _). Inr (take 100 (sort_key (\<lambda>h. (ss_scope h \<noteq> application_scope, - ss_leaf_sample_count h,
          - ss_sample_count h, ss_name h)) hs)))"

section \<open>Bottlenecks\<close>

definition python_hotspot_bottleneck :: "python_hotspot list \<Rightarrow> pyfloat option \<Rightarrow> bottleneck option res" where
  "python_hotspot_bottleneck hotspots reported =
     (case (filter (\<lambda>h. hs_scope h = application_scope) hotspots, reported) of
        (h # _, Some t) \<Rightarrow>
          if fle t (Fin 0) then Inr None
          else rbind (fdiv (hs_self_seconds h) t) (\<lambda>share.
            Inr (if flt share (Fin (1 / 4)) then None
              else Some (bottleneck_of ''python_hotspot''
                [hs_name h, lit '' accumulated '', fmt_fixed 3 (hs_self_seconds h), lit ''s self time across '',
                 int_text (hs_call_count h), lit '' calls under intrusive deep capture''] (6 / 10))))
      | _ \<Rightarrow> Inr None)"

text \<open>The evidence is complete: nothing was dropped, truncated or left unobserved.\<close>

definition exception_evidence ::
  "deep_profile_summary option \<Rightarrow> (deep_profile_summary \<times> exception_capture \<times> exception_filter) option" where
  "exception_evidence profile = (case profile of
     None \<Rightarrow> None
   | Some p \<Rightarrow> (case (dp_python_exception_capture p, dp_observer_integrity p) of
       (Some c, Some i) \<Rightarrow> (case ec_control_flow_filter c of
           None \<Rightarrow> None
         | Some f \<Rightarrow>
             if pf_status (dp_common p) = lit ''complete'' \<and> \<not> pf_truncated (dp_common p) \<and> dp_dropped_call_count p = 0 \<and>
                ec_status c = lit ''complete'' \<and> ec_dropped_event_count c = 0 \<and> ef_status f = lit ''complete'' \<and>
                ef_dropped_non_control_flow_event_count f = 0 \<and> oi_status i = lit ''complete''
             then Some (p, c, f) else None)
     | _ \<Rightarrow> None))"

definition exceptions_account ::
  "python_hotspot list \<Rightarrow> deep_profile_summary \<Rightarrow> exception_capture \<Rightarrow> exception_filter \<Rightarrow> bool" where
  "exceptions_account hotspots p c f \<longleftrightarrow>
     (let python = filter (\<lambda>h. hs_implementation h = lit ''python'') hotspots;
          owns = List.map_filter hs_own_exception_count python in
      int (length hotspots) = pf_function_count (dp_common p) \<and>
      sum_list (map hs_exception_count python) = ec_event_count c \<and>
      int (length (filter (\<lambda>h. 0 < hs_exception_count h) python)) = ec_function_count c \<and>
      length owns = length python \<and> sum_list owns = ef_non_control_flow_event_count f \<and>
      int (length (filter (\<lambda>n. 0 < n) owns)) = ef_non_control_flow_function_count f)"

definition churn_candidate :: "python_hotspot \<Rightarrow> (python_hotspot \<times> int \<times> pyfloat) list res" where
  "churn_candidate h = (case hs_own_exception_count h of
     None \<Rightarrow> Inr []
   | Some n \<Rightarrow>
       if hs_implementation h \<noteq> lit ''python'' \<or> hs_scope h \<noteq> application_scope \<or> hs_call_count h \<le> 0 \<or> n < 10 then Inr []
       else rbind (int_truediv n (hs_call_count h)) (\<lambda>rate.
         Inr (if fle (Fin (1 / 2)) rate then [(h, n, rate)] else [])))"

text \<open>\<open>min(xs, key=f)\<close>: the first element with the least key.\<close>

definition min_by :: "('a \<Rightarrow> 'k::linorder) \<Rightarrow> 'a \<Rightarrow> 'a list \<Rightarrow> 'a" where
  "min_by f x xs = fold (\<lambda>y best. if f y < f best then y else best) xs x"

definition python_exception_churn_bottleneck ::
  "python_hotspot list \<Rightarrow> deep_profile_summary option \<Rightarrow> bottleneck option res" where
  "python_exception_churn_bottleneck hotspots profile = (case exception_evidence profile of
     None \<Rightarrow> Inr None
   | Some (p, c, f) \<Rightarrow>
       if \<not> exceptions_account hotspots p c f then Inr None
       else rbind (traverse churn_candidate hotspots) (\<lambda>found.
         Inr (case concat found of
             [] \<Rightarrow> None
           | x # xs \<Rightarrow> (case min_by (\<lambda>(h, n, rate). (- n, descending rate, descending (hs_self_seconds h), hs_name h)) x xs of
               (h, n, rate) \<Rightarrow> Some (bottleneck_of ''python_exception_churn''
                 [hs_name h, lit '' recorded '', int_text n, lit '' non-control-flow Python exception propagation events across '',
                  int_text (hs_call_count h), lit '' calls ('', fmt_fixed 2 rate,
                  lit '' per call); built-in iterator completion is excluded and events are not unique failures''] (6 / 10))))))"

definition python_sample_hotspot_bottleneck :: "sample_hotspot list \<Rightarrow> bottleneck option res" where
  "python_sample_hotspot_bottleneck hotspots =
     (let leaves = sum_list (map ss_leaf_sample_count hotspots) in
      case filter (\<lambda>h. ss_scope h = application_scope) hotspots of
        [] \<Rightarrow> Inr None
      | h # _ \<Rightarrow>
          if ss_leaf_sample_count h < 3 \<or> leaves \<le> 0 then Inr None
          else rbind (int_truediv (ss_leaf_sample_count h) leaves) (\<lambda>share.
            Inr (if flt share (Fin (1 / 4)) then None
              else Some (bottleneck_of ''python_sample_hotspot''
                [ss_name h, lit '' was the leaf Python frame in '', int_text (ss_leaf_sample_count h), lit '' / '',
                 int_text leaves, lit '' thread samples''] (1 / 2)))))"

section \<open>Resources of processes\<close>

record resource_aggregate =
  ra_name :: pystr
  ra_pid :: int
  ra_parent_name :: "pystr option"
  ra_sample_count :: int
  ra_peak_rss_bytes :: pyfloat
  ra_cpu_seconds :: pyfloat

definition is_resource :: "measurement \<Rightarrow> bool" where
  "is_resource m \<longleftrightarrow>
     (meas_name m = lit ''process.memory.rss'' \<or> meas_name m = lit ''process.cpu.total'') \<and>
     jget (meas_attributes m) ''source'' = jtext ''process-observer'' \<and> meas_entity_id m \<noteq> None \<and>
     pid_ok (jget (meas_attributes m) ''pid'') \<and> filled_text (jget (meas_attributes m) ''process_name'')"

definition entity_parent_name :: "(pystr, entity) dict \<Rightarrow> pystr \<Rightarrow> pystr option" where
  "entity_parent_name entities i =
     map_option ent_name (Option.bind (dget entities i) (\<lambda>e. Option.bind (ent_parent_id e) (dget entities)))"

definition new_aggregate :: "(pystr, entity) dict \<Rightarrow> pystr \<Rightarrow> measurement \<Rightarrow> resource_aggregate" where
  "new_aggregate entities i m = \<lparr>ra_name = the_text (jget (meas_attributes m) ''process_name''),
     ra_pid = the_int (jget (meas_attributes m) ''pid''), ra_parent_name = entity_parent_name entities i,
     ra_sample_count = 0, ra_peak_rss_bytes = Fin 0, ra_cpu_seconds = Fin 0\<rparr>"

definition add_resource ::
  "(pystr, entity) dict \<Rightarrow> measurement \<Rightarrow> (pystr, resource_aggregate) dict \<Rightarrow> (pystr, resource_aggregate) dict" where
  "add_resource entities m d = (case meas_entity_id m of
     None \<Rightarrow> d
   | Some i \<Rightarrow>
       let a = (case dget d i of None \<Rightarrow> new_aggregate entities i m | Some a \<Rightarrow> a) in
       dset i (if meas_name m = lit ''process.memory.rss''
         then a\<lparr>ra_sample_count := ra_sample_count a + 1, ra_peak_rss_bytes := fmax (ra_peak_rss_bytes a) (meas_value m)\<rparr>
         else a\<lparr>ra_cpu_seconds := fmax (ra_cpu_seconds a) (meas_value m)\<rparr>) d)"

text \<open>The processes by their id; an id that two processes share identifies neither.\<close>

definition add_identity ::
  "resource_aggregate \<Rightarrow> (int, process_identity) dict \<times> int list \<Rightarrow> (int, process_identity) dict \<times> int list" where
  "add_identity a = (\<lambda>(ids, ambiguous).
     if has_key ids (ra_pid a) then (AList.delete (ra_pid a) ids, ra_pid a # ambiguous)
     else if ra_pid a \<notin> set ambiguous
       then (dset (ra_pid a) \<lparr>pi_name = ra_name a, pi_parent_name = ra_parent_name a\<rparr> ids, ambiguous)
     else (ids, ambiguous))"

definition resource_evidence ::
  "entity list \<Rightarrow> measurement list \<Rightarrow> resource_aggregate list \<times> (int, process_identity) dict" where
  "resource_evidence entities measurements =
     (let table = fold (\<lambda>e. dset (ent_id e) e) entities [];
          hotspots = map snd (fold (add_resource table) (filter is_resource measurements) []) in
      (take 100 (sort_key (\<lambda>a. (descending (ra_cpu_seconds a), descending (ra_peak_rss_bytes a), ra_name a, ra_pid a)) hotspots),
       fst (fold add_identity hotspots ([], []))))"

definition process_resource_evidence :: "reader \<Rightarrow> (resource_aggregate list \<times> (int, process_identity) dict) res" where
  "process_resource_evidence rd =
     rbind (read_entities rd) (\<lambda>entities.
     rbind (read_measurements rd) (\<lambda>measurements.
     Inr (resource_evidence entities measurements)))"

end
