(* ===== verification/Analyzer.thy ===== *)
theory Analyzer
  imports LogicalCapture Hotspots
begin

text \<open>
  \<open>batchscope/analysis/_analyzer.py\<close> and \<open>_result.py\<close>: the analysis of one run, composed of the
  capture summaries, the profiles and the lifecycle of the events that no observer made. The first
  exception of a step ends the analysis, so the steps stand in the order of the source.
\<close>

record batch_analysis =
  ba_execution_id :: pystr
  ba_name :: pystr
  ba_total_seconds :: "pyfloat option"
  ba_lifecycle :: "lifecycle_phase list"
  ba_critical_path :: "critical_path option"
  ba_throughput :: "throughput option"
  ba_bottlenecks :: "bottleneck list"
  ba_deep_profile :: "deep_profile_summary option"
  ba_python_hotspots :: "python_hotspot list"
  ba_sample_profile :: "sample_profile_summary option"
  ba_python_sample_hotspots :: "sample_hotspot list"
  ba_process_observer :: "observer_summary option"
  ba_process_hotspots :: "resource_aggregate list"
  ba_semantic_capture :: "captured_summary option"
  ba_subprocess_calls :: "subprocess_call list"
  ba_http_capture :: "captured_summary option"
  ba_http_requests :: "http_request list"
  ba_network_capture :: "captured_summary option"
  ba_network_connections :: "network_connection list"
  ba_network_connection_hotspots :: "connection_hotspot list"
  ba_network_setup_capture :: "captured_summary option"
  ba_network_setup_phases :: "setup_phase list"
  ba_network_setup_hotspots :: "setup_hotspot list"
  ba_logical_operation_capture :: "captured_summary option"
  ba_logical_operations :: "logical_operation list"
  ba_logical_operation_hotspots :: "logical_hotspot list"

section \<open>The captures\<close>

definition max_capture_summaries :: nat where
  "max_capture_summaries = 100"

definition count_events :: "(event \<Rightarrow> bool) \<Rightarrow> event list \<Rightarrow> int" where
  "count_events P events = int (length (filter P events))"

definition analyze_subprocesses ::
  "event list \<Rightarrow> causal_edge list \<Rightarrow> attrs \<Rightarrow> (int, process_identity) dict \<Rightarrow> (subprocess_call list \<times> captured_summary option) res" where
  "analyze_subprocesses events edges metadata observed =
     rbind (subprocess_calls events edges observed) (\<lambda>(calls, invalid_events, invalid_callers, caller_count, attributed).
     Inr (calls, semantic_capture_summary metadata (count_events is_subprocess_event events) invalid_events
       caller_count attributed invalid_callers))"

definition analyze_http :: "event list \<Rightarrow> causal_edge list \<Rightarrow> attrs \<Rightarrow> (http_request list \<times> captured_summary option) res" where
  "analyze_http events edges metadata =
     rbind (http_requests events edges) (\<lambda>(requests, invalid_events, invalid_callers, caller_count, attributed, adapters).
     Inr (requests, http_capture_summary metadata (count_events is_http_event events) invalid_events
       caller_count attributed invalid_callers adapters))"

definition analyze_network ::
  "event list \<Rightarrow> causal_edge list \<Rightarrow> attrs \<Rightarrow> (network_connection list \<times> connection_hotspot list \<times> captured_summary option) res" where
  "analyze_network events edges metadata =
     rbind (network_connections events edges) (\<lambda>(connections, invalid_events, invalid_callers, caller_count, attributed, adapters).
     let hotspots = connection_hotspots connections in
     Inr (connections, hotspots, network_capture_summary metadata (count_events is_connection_event events) invalid_events
       caller_count attributed invalid_callers adapters (int (length hotspots))))"

definition analyze_setup ::
  "event list \<Rightarrow> causal_edge list \<Rightarrow> attrs \<Rightarrow> (setup_phase list \<times> setup_hotspot list \<times> captured_summary option) res" where
  "analyze_setup events edges metadata =
     rbind (setup_phases events edges) (\<lambda>(phases, invalid_events, invalid_callers, caller_count, attributed, adapters).
     let hotspots = setup_hotspots phases in
     Inr (phases, hotspots, setup_capture_summary metadata (count_events is_setup_event events) invalid_events
       caller_count attributed invalid_callers adapters (int (length hotspots))))"

definition analyze_logical ::
  "event list \<Rightarrow> causal_edge list \<Rightarrow> attrs \<Rightarrow> (logical_operation list \<times> logical_hotspot list \<times> captured_summary option) res" where
  "analyze_logical events edges metadata =
     rbind (logical_operations events edges) (\<lambda>(operations, invalid_events, invalid_callers, caller_count, attributed, adapters).
     let hotspots = logical_hotspots operations in
     Inr (operations, hotspots, logical_capture_summary metadata (count_events is_logical_event events) invalid_events
       caller_count attributed invalid_callers adapters (int (length hotspots))))"

definition analyze_processes ::
  "reader \<Rightarrow> observer_summary option \<Rightarrow> (resource_aggregate list \<times> (int, process_identity) dict) res" where
  "analyze_processes rd observer = (case observer of None \<Rightarrow> Inr ([], []) | Some _ \<Rightarrow> process_resource_evidence rd)"

section \<open>The remaining events\<close>

definition captured_kinds :: "pystr list" where
  "captured_kinds = map lit [''log.record'', ''python.call.aggregate'', ''python.stack.sample'', ''python.callsite'',
     ''subprocess.run'', ''http.client.request'', ''network.connect'', ''network.resolve'', ''network.tls_handshake'']"

definition run_events :: "event list \<Rightarrow> event list" where
  "run_events = filter (\<lambda>v. ev_kind v \<notin> set captured_kinds \<and>
     eget v ''source'' \<noteq> jtext ''python-logical-operation-wrapper'')"

definition run_edges :: "event list \<Rightarrow> causal_edge list \<Rightarrow> causal_edge list" where
  "run_edges events = filter (\<lambda>e. edge_source e \<in> ev_id ` set events \<and> edge_target e \<in> ev_id ` set events)"

definition edge_facts_of :: "causal_edge list \<Rightarrow> edge_value list" where
  "edge_facts_of = map (\<lambda>e. (edge_source e, edge_target e, edge_confidence e))"

definition option_to_list :: "'a option \<Rightarrow> 'a list" where
  "option_to_list x = (case x of None \<Rightarrow> [] | Some y \<Rightarrow> [y])"

definition root_process_name :: "execution_summary \<Rightarrow> pystr option" where
  "root_process_name s = (case sum_command s of [] \<Rightarrow> None | c # _ \<Rightarrow> Some (path_name c))"

section \<open>The analysis\<close>

definition analyze_with ::
  "(pystr \<Rightarrow> pystr) \<Rightarrow> (pystr \<Rightarrow> pystr) \<Rightarrow> reader \<Rightarrow> execution_summary \<Rightarrow> batch_analysis res" where
  "analyze_with lower casefold rd s =
     rbind (read_events rd) (\<lambda>all_events.
     rbind (read_causal_edges rd) (\<lambda>all_edges.
     rbind (read_execution rd) (\<lambda>x.
     let metadata = exec_metadata x; wall = sum_wall_time_seconds s; root_name = root_process_name s;
         events = run_events all_events; edges = run_edges events all_edges in
     rbind (process_observer_summary metadata) (\<lambda>observer.
     rbind (analyze_processes rd observer) (\<lambda>(process_hotspots, observed).
     rbind (analyze_subprocesses all_events all_edges metadata observed) (\<lambda>(calls, semantic).
     rbind (analyze_http all_events all_edges metadata) (\<lambda>(requests, http).
     rbind (analyze_network all_events all_edges metadata) (\<lambda>(connections, c_hotspots, network).
     rbind (analyze_setup all_events all_edges metadata) (\<lambda>(phases, p_hotspots, setup).
     rbind (analyze_logical all_events all_edges metadata) (\<lambda>(operations, l_hotspots, logical).
     rbind (deep_profile_summary casefold metadata observer observed) (\<lambda>deep.
     rbind (sample_profile_summary casefold metadata observer observed) (\<lambda>sampled.
     rbind (python_hotspots all_events observed root_name) (\<lambda>all_hotspots.
     rbind (python_sample_hotspots all_events observed root_name) (\<lambda>s_hotspots.
     rbind (critical_path_of events (edge_facts_of edges) wall (0 < clock_inconsistency_count rd)
       (sum_missing_causal_references s = Some 0 \<and> sum_annotation_error s = None)) (\<lambda>critical.
     rbind (bottlenecks events edges critical wall) (\<lambda>found.
     rbind (network_bottlenecks connections network wall) (\<lambda>found_network.
     rbind (setup_bottlenecks phases setup wall) (\<lambda>found_setup.
     rbind (logical_bottlenecks operations logical wall) (\<lambda>found_logical.
     rbind (python_hotspot_bottleneck (take 100 all_hotspots) wall) (\<lambda>hot.
     rbind (python_exception_churn_bottleneck all_hotspots deep) (\<lambda>churn.
     rbind (python_sample_hotspot_bottleneck s_hotspots) (\<lambda>sample_hot.
     rbind (lifecycle_phases events edges wall) (\<lambda>phases_of_run.
     rbind (throughput_of lower events edges (sum_finished_at_ns s)) (\<lambda>progress.
     Inr \<lparr>ba_execution_id = sum_id s, ba_name = sum_name s, ba_total_seconds = wall, ba_lifecycle = phases_of_run,
       ba_critical_path = critical, ba_throughput = progress,
       ba_bottlenecks = found @ found_network @ found_setup @ found_logical @ option_to_list hot @ option_to_list churn @
         option_to_list sample_hot,
       ba_deep_profile = deep, ba_python_hotspots = take 100 all_hotspots, ba_sample_profile = sampled,
       ba_python_sample_hotspots = s_hotspots, ba_process_observer = observer, ba_process_hotspots = process_hotspots,
       ba_semantic_capture = semantic, ba_subprocess_calls = calls, ba_http_capture = http, ba_http_requests = requests,
       ba_network_capture = network, ba_network_connections = take max_capture_summaries connections,
       ba_network_connection_hotspots = take max_capture_summaries c_hotspots, ba_network_setup_capture = setup,
       ba_network_setup_phases = take max_capture_summaries phases,
       ba_network_setup_hotspots = take max_capture_summaries p_hotspots, ba_logical_operation_capture = logical,
       ba_logical_operations = take max_capture_summaries operations,
       ba_logical_operation_hotspots = take max_capture_summaries l_hotspots\<rparr>))))))))))))))))))))))))"

definition analyze_reader ::
  "(pystr \<Rightarrow> pystr) \<Rightarrow> (pystr \<Rightarrow> pystr) \<Rightarrow> reader \<Rightarrow> execution_summary option \<Rightarrow> batch_analysis res" where
  "analyze_reader lower casefold rd summary =
     rbind (case summary of None \<Rightarrow> inspect_reader rd | Some s \<Rightarrow> Inr s) (analyze_with lower casefold rd)"

end
