(* ===== verification/CaptureFacts.thy ===== *)
theory CaptureFacts
  imports CaptureLaws Analyzer
begin

text \<open>
  What the summaries of the captures say of the run: the hotspots partition the operations, a capture
  that is reported complete accounts for every event, and an attribute that cannot be hashed ends
  the analysis.
\<close>

section \<open>Hotspots\<close>

text \<open>The counts of a list of operations that have an outcome and a duration.\<close>

abbreviation outcome_adder ::
  "pystr \<Rightarrow> pystr \<Rightarrow> ('o \<Rightarrow> pystr) \<Rightarrow> ('o \<Rightarrow> pyfloat option) \<Rightarrow> 'o \<Rightarrow> hotspot_counts \<Rightarrow> hotspot_counts" where
  "outcome_adder completed failed outcome duration \<equiv> (\<lambda>x. add_operation completed failed (outcome x) (duration x))"

lemma add_duration_counts [simp]:
  "hc_count (add_duration d c) = hc_count c" "hc_completed (add_duration d c) = hc_completed c"
  "hc_failed (add_duration d c) = hc_failed c" "hc_unfinished (add_duration d c) = hc_unfinished c"
  by (simp_all add: add_duration_def split: option.splits)

lemma fold_counts:
  assumes "completed \<noteq> failed"
  shows "hc_count (fold (outcome_adder completed failed outcome duration) xs c) = hc_count c + int (length xs)"
    "hc_completed (fold (outcome_adder completed failed outcome duration) xs c) =
       hc_completed c + int (length (filter (\<lambda>x. outcome x = completed) xs))"
    "hc_failed (fold (outcome_adder completed failed outcome duration) xs c) =
       hc_failed c + int (length (filter (\<lambda>x. outcome x = failed) xs))"
    "hc_unfinished (fold (outcome_adder completed failed outcome duration) xs c) =
       hc_unfinished c + int (length (filter (\<lambda>x. outcome x \<noteq> completed \<and> outcome x \<noteq> failed) xs))"
  by (induction xs arbitrary: c) (use assms in \<open>auto simp: add_operation_def\<close>)

lemma hotspot_table_snoc: "hotspot_table key add (xs @ [x]) = add_to_hotspot key add x (hotspot_table key add xs)"
  by (simp add: hotspot_table_def)

lemma hotspot_table_distinct: "distinct (map fst (hotspot_table key add xs))"
proof (induction xs rule: rev_induct)
  case (snoc x xs)
  then show ?case by (simp add: hotspot_table_snoc add_to_hotspot_def split: option.splits)
qed (simp add: hotspot_table_def)

lemma hotspot_table_get:
  "dget (hotspot_table key add xs) k = (case filter (\<lambda>x. key x = k) xs of
     [] \<Rightarrow> None | y # ys \<Rightarrow> Some (y, fold add (y # ys) no_counts))"
proof (induction xs arbitrary: k rule: rev_induct)
  case (snoc x xs)
  show ?case
  proof (cases "filter (\<lambda>y. key y = key x) xs")
    case Nil
    then have "dget (hotspot_table key add xs) (key x) = None" using snoc [of "key x"] by simp
    with Nil snoc [of k] show ?thesis by (auto simp: hotspot_table_snoc add_to_hotspot_def split: list.splits)
  next
    case (Cons y ys)
    then have "dget (hotspot_table key add xs) (key x) = Some (y, fold add (y # ys) no_counts)" using snoc [of "key x"] by simp
    with Cons snoc [of k] show ?thesis by (auto simp: hotspot_table_snoc add_to_hotspot_def split: list.splits)
  qed
qed (simp add: hotspot_table_def)

lemma hotspot_table_mem:
  assumes "(k, y, c) \<in> set (hotspot_table key add xs)"
  shows "key y = k \<and> y \<in> set xs \<and> c = fold add (filter (\<lambda>x. key x = k) xs) no_counts"
proof -
  have "dget (hotspot_table key add xs) k = Some (y, c)" using assms hotspot_table_distinct [of key add xs] by simp
  then obtain ys where ys: "filter (\<lambda>x. key x = k) xs = y # ys" "c = fold add (y # ys) no_counts"
    by (auto simp: hotspot_table_get split: list.splits)
  from ys(1) have "y \<in> set (filter (\<lambda>x. key x = k) xs)" by (metis list.set_intros(1))
  then have "key y = k \<and> y \<in> set xs" by simp
  with ys show ?thesis by simp
qed

lemma sum_list_dset:
  fixes f :: "'k \<times> 'v \<Rightarrow> int"
  shows "sum_list (map f (dset k w d)) = sum_list (map f d) + f (k, w) - (case dget d k of None \<Rightarrow> 0 | Some v \<Rightarrow> f (k, v))"
  by (induction d) auto

lemma hotspot_table_total:
  assumes "\<And>x c. hc_count (add x c) = hc_count c + 1"
  shows "sum_list (map (\<lambda>(_, _, c). hc_count c) (hotspot_table key add xs)) = int (length xs)"
proof (induction xs rule: rev_induct)
  case (snoc x xs)
  then show ?case
    by (auto simp: hotspot_table_snoc add_to_hotspot_def sum_list_dset assms no_counts_def split: option.splits)
qed (simp add: hotspot_table_def)

lemma add_operation_count: "hc_count (add_operation completed failed outcome duration c) = hc_count c + 1"
  by (simp add: add_operation_def)

lemma sum_list_sort_key: "sum_list (map (f :: 'a \<Rightarrow> int) (sort_key g xs)) = sum_list (map f xs)"
proof -
  have "mset (map f (sort_key g xs)) = mset (map f xs)" by simp
  then show ?thesis by (metis sum_mset_sum_list)
qed

lemma three_outcomes:
  "a \<noteq> b \<Longrightarrow> length (filter (\<lambda>x. f x = a) xs) + length (filter (\<lambda>x. f x = b) xs) +
    length (filter (\<lambda>x. f x \<noteq> a \<and> f x \<noteq> b) xs) = length xs"
  by (induction xs) auto

lemma folded_counts:
  assumes "c = fold (outcome_adder (lit a) (lit b) outcome duration) g no_counts" and "a \<noteq> b"
  shows "hc_count c = int (length g) \<and> hc_completed c = int (length (filter (\<lambda>x. outcome x = lit a) g)) \<and>
    hc_failed c = int (length (filter (\<lambda>x. outcome x = lit b) g)) \<and>
    hc_completed c + hc_failed c + hc_unfinished c = hc_count c"
proof -
  have ne: "lit a \<noteq> lit b" using assms(2) by simp
  show ?thesis
    using three_outcomes [OF ne, of outcome g] unfolding assms(1) fold_counts [OF ne]
    by (simp add: no_counts_def flip: of_nat_add)
qed

lemma lex_first: "(a, b) \<le> (c, d) \<Longrightarrow> (a :: int) \<le> c"
  by auto

lemma sorted_map_mono:
  assumes "sorted (map f xs)" and "\<And>x y. f x \<le> f y \<Longrightarrow> g x \<le> g y"
  shows "sorted (map g xs)"
  using assms(1) by (induction xs) (auto intro: assms(2))

definition logical_group :: "logical_operation list \<Rightarrow> logical_hotspot \<Rightarrow> logical_operation list" where
  "logical_group xs h = filter (\<lambda>x. logical_key x = (caller_id (lh_caller h), lh_category h, lh_operation h, lh_adapter h)) xs"

definition hotspot_sound :: "logical_operation list \<Rightarrow> logical_hotspot \<Rightarrow> bool" where
  "hotspot_sound xs h \<longleftrightarrow>
     (let c = lh_counts h; g = logical_group xs h; number = (\<lambda>s. int (length (filter (\<lambda>x. lo_outcome x = lit s) g))) in
      hc_count c = int (length g) \<and> 0 < hc_count c \<and> hc_completed c = number ''completed'' \<and>
      hc_failed c = number ''operation_error'' \<and> hc_completed c + hc_failed c + hc_unfinished c = hc_count c)"

lemma logical_hotspots_total: "sum_list (map (\<lambda>h. hc_count (lh_counts h)) (logical_hotspots xs)) = int (length xs)"
proof -
  let ?t = "hotspot_table logical_key add_logical xs"
  have "sum_list (map (\<lambda>h. hc_count (lh_counts h)) (logical_hotspots xs)) = sum_list (map (\<lambda>(_, _, c). hc_count c) ?t)"
    unfolding logical_hotspots_def sum_list_sort_key by (intro arg_cong [where f = sum_list]) auto
  also have "\<dots> = int (length xs)" by (rule hotspot_table_total) (simp add: add_logical_def add_operation_count)
  finally show ?thesis .
qed

text \<open>The hotspots of the logical operations partition them: their counts add up to the number of
  operations, each holds exactly the operations of its caller, category, operation and adapter with their
  outcomes, no two hotspots have the same key, and those with more failures come first.\<close>

theorem logical_hotspots_partition_operations:
  "sum_list (map (\<lambda>h. hc_count (lh_counts h)) (logical_hotspots xs)) = int (length xs) \<and>
    list_all (hotspot_sound xs) (logical_hotspots xs) \<and>
    distinct (map (\<lambda>h. (caller_id (lh_caller h), lh_category h, lh_operation h, lh_adapter h)) (logical_hotspots xs)) \<and>
    sorted (map (\<lambda>h. - hc_failed (lh_counts h)) (logical_hotspots xs))"
proof -
  let ?key = "\<lambda>h. (caller_id (lh_caller h), lh_category h, lh_operation h, lh_adapter h)"
  let ?t = "hotspot_table logical_key add_logical xs"
  let ?make = "\<lambda>(_, x, c). \<lparr>lh_category = lo_category x, lh_operation = lo_operation x, lh_adapter = lo_adapter x,
      lh_counts = c, lh_caller = lo_caller x\<rparr>"
  let ?rank = "\<lambda>h. (- hc_failed (lh_counts h), - hc_count (lh_counts h), descending (hc_total_seconds (lh_counts h)),
        lh_category h, lh_operation h, caller_name (lh_caller h), lh_adapter h)"
  have hs: "logical_hotspots xs = sort_key ?rank (map ?make ?t)" by (simp add: logical_hotspots_def)
  have add: "add_logical = outcome_adder (lit ''completed'') (lit ''operation_error'') lo_outcome lo_duration_seconds"
    by (simp add: fun_eq_iff add_logical_def)
  have key: "?key (?make e) = fst e" if "e \<in> set ?t" for e
  proof -
    obtain k x c where e: "e = (k, x, c)" by (cases e)
    have "logical_key x = k" using hotspot_table_mem [of k x c logical_key add_logical xs] that by (simp add: e)
    then show ?thesis by (simp add: e logical_key_def)
  qed
  have "map ?key (map ?make ?t) = map fst ?t" using key by auto
  then have "distinct (map ?key (map ?make ?t))" using hotspot_table_distinct by metis
  moreover have "mset (map ?key (logical_hotspots xs)) = mset (map ?key (map ?make ?t))"
    unfolding hs by (simp add: multiset.map_comp)
  ultimately have distinct: "distinct (map ?key (logical_hotspots xs))" using mset_eq_imp_distinct_iff by blast
  have "hotspot_sound xs h" if "h \<in> set (logical_hotspots xs)" for h
  proof -
    from that obtain k x c where e: "(k, x, c) \<in> set ?t" and h: "h = ?make (k, x, c)" by (auto simp: hs)
    note m = hotspot_table_mem [OF e]
    have g: "logical_group xs h = filter (\<lambda>y. logical_key y = k) xs" using m by (auto simp: logical_group_def h logical_key_def)
    have "x \<in> set (logical_group xs h)" using m by (simp add: g)
    then have "0 < length (logical_group xs h)" by (rule length_pos_if_in_set)
    moreover have c: "c = fold (outcome_adder (lit ''completed'') (lit ''operation_error'') lo_outcome lo_duration_seconds)
        (logical_group xs h) no_counts" using m unfolding add g by simp
    moreover note folded_counts [OF c, simplified]
    moreover have "lh_counts h = c" by (simp add: h)
    ultimately show ?thesis unfolding hotspot_sound_def Let_def by simp
  qed
  then have sound: "list_all (hotspot_sound xs) (logical_hotspots xs)" by (simp add: list_all_iff)
  have "sorted (map ?rank (logical_hotspots xs))" unfolding hs by (rule sorted_sort_key)
  then have "sorted (map (\<lambda>h. - hc_failed (lh_counts h)) (logical_hotspots xs))"
    by (rule sorted_map_mono) (erule lex_first)
  with logical_hotspots_total sound distinct show ?thesis by (intro conjI)
qed

section \<open>Complete captures\<close>

lemma lit_unavailable [simp]: "lit ''complete'' \<noteq> lit ''invalid''" "lit ''complete'' \<noteq> lit ''unavailable''"
  by simp_all

lemma complete_summary:
  assumes "cs_status (summary_of d operation rejected event_count invalid_events caller_count attributed invalid_callers adapters hotspots) = lit ''complete''"
  shows "\<not> rejected \<and> invalid_events = 0 \<and> semantic_count (jget d (operation @ ''_count'')) = Some event_count"
  using assms by (auto simp: summary_of_def Let_def raw_counts_def split: if_splits)

lemma complete_attribution:
  assumes "at_status (caller_attribution_counts raw target n caller_count attributed invalid_callers) = lit ''complete''"
  shows "invalid_callers = 0 \<and> at_attributed_count (caller_attribution_counts raw target n caller_count attributed invalid_callers) = attributed \<and>
    at_attributed_count (caller_attribution_counts raw target n caller_count attributed invalid_callers) +
    at_unattributed_count (caller_attribution_counts raw target n caller_count attributed invalid_callers) = n"
proof (cases raw)
  case (JObj d)
  then show ?thesis
    using assms
    by (auto simp: caller_attribution_counts_def attribution_fallback_def Let_def attribution_inconsistent_def
      split: option.splits if_splits)
qed (use assms in \<open>simp_all add: caller_attribution_counts_def attribution_fallback_def\<close>)

lemma declared_adapters_ok:
  assumes "declared_adapters raw known required observed = (adapters, False)"
  shows "sorted adapters \<and> distinct adapters \<and> set adapters \<subseteq> set known \<and> set observed \<subseteq> set adapters"
  using assms by (cases raw) (auto simp: declared_adapters_def Let_def split: if_splits)

text \<open>C22. A logical capture that is reported complete accounts for its run: the declared count is that of the
  returned operations and of the hotspots, every logical event is one of them, and the adapters it
  declares are known and include those observed; when the attribution is complete too, no target is
  invalid and the attributed and unattributed operations add up.\<close>

theorem complete_capture_accounts_for_run:
  assumes "analyze_logical events edges metadata = Inr (xs, hs, Some s)" and "cs_status s = lit ''complete''"
    and "distinct (map ev_id events)"
  shows "cs_operation_count s = int (length xs) \<and> cs_operation_count s = count_events is_logical_event events \<and>
    cs_invalid_event_count s = 0 \<and> cs_hotspot_count s = int (length hs) \<and>
    sum_list (map (\<lambda>h. hc_count (lh_counts h)) hs) = cs_operation_count s \<and>
    lo_adapter ` set xs \<subseteq> set (cs_adapters s) \<and> set (cs_adapters s) \<subseteq> set logical_adapters \<and> distinct (cs_adapters s) \<and>
    (at_status (cs_attribution s) \<noteq> lit ''complete'' \<or>
     at_attributed_count (cs_attribution s) + at_unattributed_count (cs_attribution s) = int (length xs) \<and>
     int (length (filter (\<lambda>x. lo_caller x \<noteq> None) xs)) \<le> at_attributed_count (cs_attribution s))"
proof -
  obtain invalid_events invalid_callers caller_count attributed observed where
    run: "logical_operations events edges = Inr (xs, invalid_events, invalid_callers, caller_count, attributed, observed)" and
    hs: "hs = logical_hotspots xs" and
    summary: "logical_capture_summary metadata (count_events is_logical_event events) invalid_events caller_count attributed
      invalid_callers observed (int (length hs)) = Some s"
    using assms(1) by (auto simp: analyze_logical_def rbind_eq_Inr_iff Let_def)
  obtain callers ys where c: "operation_callers events edges logical_contract = Inr (callers, invalid_callers)" and
    r: "read_operations is_logical_event (logical_operation_of callers) events = Inr (ys, invalid_events)" and
    xs: "xs = sort_key (\<lambda>x. (lo_started_at_ns x, lo_parent_pid x, lo_event_id x)) ys" and
    a: "attributed = int (length callers)" and o: "observed = sort (remdups (map lo_adapter ys))"
    using run by (auto simp: logical_operations_def rbind_eq_Inr_iff)
  obtain d adapters unacceptable where
    decl: "declared_adapters (jget d ''adapters'') logical_adapters None observed = (adapters, unacceptable)" and
    s: "s = summary_of d ''operation'' (logical_capture_rejected d adapters unacceptable (count_events is_logical_event events))
      (count_events is_logical_event events) invalid_events caller_count attributed invalid_callers adapters (int (length hs))"
    using summary by (auto simp: logical_capture_summary_def split: option.splits prod.splits)
  note whole = complete_summary [OF assms(2) [unfolded s]]
  then have "\<not> unacceptable" by (simp add: logical_capture_rejected_def)
  then have adapters: "distinct adapters" "set adapters \<subseteq> set logical_adapters" "set observed \<subseteq> set adapters"
    using declared_adapters_ok [of "jget d ''adapters''" logical_adapters None observed adapters] decl by simp_all
  have count: "int (length xs) = count_events is_logical_event events"
    using operations.counts_every_event [OF r] whole by (simp add: xs count_events_def)
  have operation_count: "cs_operation_count s = count_events is_logical_event events"
    using whole by (simp add: s summary_of_def Let_def raw_counts_def count_or_zero_def)
  have "sum_list (map (\<lambda>h. hc_count (lh_counts h)) hs) = int (length xs)" unfolding hs by (rule logical_hotspots_total)
  moreover have "lo_adapter ` set xs \<subseteq> set adapters" using adapters(3) by (simp add: o xs)
  moreover have "cs_adapters s = adapters" "cs_invalid_event_count s = invalid_events" "cs_hotspot_count s = int (length hs)"
    by (simp_all add: s summary_of_def Let_def)
  moreover have "length (filter (\<lambda>x. lo_caller x \<noteq> None) xs) \<le> length callers"
  proof -
    have "mset (filter (\<lambda>x. lo_caller x \<noteq> None) xs) = mset (filter (\<lambda>x. lo_caller x \<noteq> None) ys)" by (simp add: xs)
    then have "length (filter (\<lambda>x. lo_caller x \<noteq> None) xs) = length (filter (\<lambda>x. lo_caller x \<noteq> None) ys)" by (rule mset_eq_length)
    then show ?thesis using operations.callers_justified [OF c r assms(3)] by simp
  qed
  moreover have "at_attributed_count (cs_attribution s) = attributed \<and>
      at_attributed_count (cs_attribution s) + at_unattributed_count (cs_attribution s) = count_events is_logical_event events"
    if "at_status (cs_attribution s) = lit ''complete''"
  proof -
    have attribution: "cs_attribution s = caller_attribution_counts (jget d ''caller_attribution'') ''operation''
        (count_events is_logical_event events) caller_count attributed invalid_callers"
      by (simp add: s summary_of_def Let_def)
    show ?thesis using complete_attribution [OF that [unfolded attribution]] unfolding attribution by blast
  qed
  ultimately show ?thesis using adapters count operation_count whole a by auto
qed

text \<open>One database command and the metadata of its complete capture.\<close>

definition sample_command :: event where
  "sample_command = \<lparr>ev_id = lit ''q'', ev_kind = lit ''database.execute'', ev_name = lit ''Database execute'',
     ev_entity_id = None, ev_started_at_ns = Some 3, ev_finished_at_ns = Some 5, ev_clock_domain = None,
     ev_uncertainty_ns = None, ev_sequence = None, ev_attributes =
       map (\<lambda>(k, j). (lit k, j)) ([(''source'', jtext ''python-logical-operation-wrapper''), (''category'', jtext ''database''),
         (''operation'', jtext ''execute''), (''adapter'', jtext ''stdlib.sqlite3.Cursor''), (''parent_pid'', JInt 7),
         (''role'', jtext ''root''), (''outcome'', jtext ''completed''), (''duration_boundary'', jtext ''logical_operation'')] @
       map (\<lambda>k. (k, JBool False)) [''statement_captured'', ''parameters_captured'', ''payload_captured'',
         ''queue_item_captured'', ''queue_identity_captured'', ''return_value_captured''])\<rparr>"

definition sample_capture_metadata :: attrs where
  "sample_capture_metadata = [(lit ''capture'', JObj [(lit ''instrumentation'', JObj [(lit ''logical_operation_capture'', JObj
     (map (\<lambda>(k, j). (lit k, j)) ([(''status'', jtext ''complete''), (''observer'', jtext ''python-logical-operation-wrapper''),
         (''zero_code'', JBool True), (''deep_only'', JBool True), (''process_count'', JInt 1), (''operation_count'', JInt 1),
         (''dropped_operation_count'', JInt 0), (''callback_error_count'', JInt 0),
         (''adapters'', JList [jtext ''stdlib.sqlite3.Cursor''])] @
       map (\<lambda>k. (k, JBool False)) [''statement_captured'', ''parameters_captured'', ''payload_captured'',
         ''queue_item_captured'', ''queue_identity_captured'', ''return_value_captured''])))])])]"

theorem complete_capture_accounts_for_run_witness:
  "\<exists>xs hs s. analyze_logical [sample_command] [] sample_capture_metadata = Inr (xs, hs, Some s) \<and>
     cs_status s = lit ''complete'' \<and> cs_operation_count s = int (length xs) \<and> length xs = 1"
proof -
  have "case logical_operations [sample_command] [] of Inr (xs, i, n, m, k, adapters) \<Rightarrow>
      length xs = 1 \<and> length (logical_hotspots xs) = 1 \<and> i = 0 \<and> n = 0 \<and> m = 0 \<and> k = 0 \<and>
      adapters = [lit ''stdlib.sqlite3.Cursor''] | _ \<Rightarrow> False"
    by code_simp
  then obtain xs where operations: "logical_operations [sample_command] [] = Inr (xs, 0, 0, 0, 0, [lit ''stdlib.sqlite3.Cursor''])"
      "length xs = 1" "length (logical_hotspots xs) = 1"
    by (auto split: sum.splits)
  have "count_events is_logical_event [sample_command] = 1" by code_simp
  moreover have "case logical_capture_summary sample_capture_metadata 1 0 0 0 0 [lit ''stdlib.sqlite3.Cursor''] 1 of
      Some s \<Rightarrow> cs_status s = lit ''complete'' | _ \<Rightarrow> False"
    by code_simp
  ultimately obtain hs s where run: "analyze_logical [sample_command] [] sample_capture_metadata = Inr (xs, hs, Some s)"
      "cs_status s = lit ''complete''"
    using operations by (auto simp: analyze_logical_def Let_def split: option.splits)
  have "distinct (map ev_id [sample_command])" by simp
  note law = complete_capture_accounts_for_run [OF run(1,2) this]
  show ?thesis using run operations(2) law by (intro exI [of _ xs] exI [of _ hs] exI [of _ s] conjI) simp_all
qed

section \<open>Attributes that cannot be hashed\<close>

lemma any_of_step: "c = Inr False \<Longrightarrow> any_of (c # cs) = any_of cs"
  by simp

lemma jget_dset: "jget (dset (lit k) j d) k' = (if k' = k then j else jget d k')"
  by (simp add: jget_def)

lemma malformed_role_list:
  assumes "connection_malformed v = Inr False"
  shows "connection_malformed (v\<lparr>ev_attributes := dset (lit ''role'') (JList js) (ev_attributes v)\<rparr>) = Inl TypeError"
proof -
  define w where "w = v\<lparr>ev_attributes := dset (lit ''role'') (JList js) (ev_attributes v)\<rparr>"
  have same: "eget w k = eget v k" if "k \<noteq> ''role''" for k using that by (simp add: w_def jget_dset)
  have role: "eget w ''role'' = JList js" by (simp add: w_def jget_dset)
  have rest: "ev_started_at_ns w = ev_started_at_ns v" "ev_name w = ev_name v" by (simp_all add: w_def)
  have keys: "eget w ''source'' = eget v ''source''" "eget w ''adapter'' = eget v ''adapter''"
    "eget w ''transport'' = eget v ''transport''" "eget w ''address_family'' = eget v ''address_family''"
    "eget w ''server_address'' = eget v ''server_address''" "eget w ''server_identity_policy'' = eget v ''server_identity_policy''"
    "eget w ''server_port'' = eget v ''server_port''" "eget w ''tls_requested'' = eget v ''tls_requested''"
    "eget w ''parent_pid'' = eget v ''parent_pid''"
    by (rule same; simp)+
  note ok = assms [unfolded connection_malformed_def any_of_False_iff list.pred_inject]
  have "connection_malformed w = any_of [not_member (JList js) roles, not_member (eget w ''outcome'') connection_outcomes,
     Inr (\<not> null_or filled_text (eget w ''error.type'')),
     Inr (\<not> all_false (ev_attributes w) [''path_captured'', ''credentials_captured'']),
     Inr (eget w ''duration_boundary'' \<noteq> jtext ''connection_ready'')]"
    unfolding connection_malformed_def rest keys role
    by (insert ok, elim conjE) ((subst any_of_step, assumption)+, rule refl)
  then show ?thesis unfolding w_def by simp
qed

text \<open>An event that is a valid connection with a list in place of its role is not counted as invalid:
  the membership test raises and ends the analysis.\<close>

theorem unhashable_role_ends_analysis:
  assumes "connection_of callers v = Inr (Some c)"
  shows "connection_of callers (v\<lparr>ev_attributes := dset (lit ''role'') (JList js) (ev_attributes v)\<rparr>) = Inl TypeError"
proof -
  have "connection_malformed v = Inr False" using assms by (auto simp: connection_of_def rbind_eq_Inr_iff split: if_splits)
  from malformed_role_list [OF this] show ?thesis by (simp add: connection_of_def)
qed

theorem unhashable_role_ends_analysis_witness:
  "\<exists>c. connection_of [] sample_connection = Inr (Some c) \<and>
     connection_of [] (sample_connection\<lparr>ev_attributes := dset (lit ''role'') (JList []) (ev_attributes sample_connection)\<rparr>) =
       Inl TypeError"
proof -
  have "case connection_of [] sample_connection of Inr (Some c) \<Rightarrow> True | _ \<Rightarrow> False" by code_simp
  then obtain c where run: "connection_of [] sample_connection = Inr (Some c)" by (auto split: sum.splits option.splits)
  from run unhashable_role_ends_analysis [OF run] show ?thesis by blast
qed

end
