(* ===== verification/Composition.thy ===== *)
theory Composition
  imports CaptureFacts VerifyLaws
begin

text \<open>
  The composition of the parts: \<open>rundiff/compare.py\<close> reads the analysis of both runs, and
  \<open>proofline/verify.py\<close> the comparison. The comparison and the verification take the analysis as an
  argument; here it is the batch analysis of the snapshot, of which they read the statuses of the captures
  and the critical path. The evidence behind a verdict is traced back to the events of the two runs.
\<close>

section \<open>The analysis that the comparison reads\<close>

definition capture_view :: "captured_summary option \<Rightarrow> capture_summary" where
  "capture_view = map_option (\<lambda>s. (cs_status s, Some (cs_dropped_count s)))"

definition analysis_view_of :: "batch_analysis \<Rightarrow> analysis_view" where
  "analysis_view_of a =
     \<lparr>av_semantic_capture = capture_view (ba_semantic_capture a), av_http_capture = capture_view (ba_http_capture a),
      av_network_capture = capture_view (ba_network_capture a),
      av_network_setup_capture = capture_view (ba_network_setup_capture a),
      av_logical_operation_capture = capture_view (ba_logical_operation_capture a),
      av_critical_path = map_option (\<lambda>p. \<lparr>cp_duration_seconds = cr_duration_seconds p, cp_certainty = cr_certainty p\<rparr>)
        (ba_critical_path a)\<rparr>"

definition analyze_for_diff ::
  "(pystr \<Rightarrow> pystr) \<Rightarrow> (pystr \<Rightarrow> pystr) \<Rightarrow> reader \<Rightarrow> execution_summary \<Rightarrow> analysis_view res" where
  "analyze_for_diff lower casefold rd s =
     rbind (analyze_reader lower casefold rd (Some s)) (\<lambda>a. Inr (analysis_view_of a))"

definition compare_runs ::
  "(pyfloat list \<Rightarrow> pyfloat) \<Rightarrow> (pystr \<Rightarrow> pystr) \<Rightarrow> (pystr \<Rightarrow> pystr) \<Rightarrow> reader \<Rightarrow> reader \<Rightarrow> execution_diff res" where
  "compare_runs sql_total lower casefold = compare_readers sql_total (analyze_for_diff lower casefold)"

definition verify_runs ::
  "(pyfloat list \<Rightarrow> pyfloat) \<Rightarrow> (pystr \<Rightarrow> pystr) \<Rightarrow> (pystr \<Rightarrow> pystr) \<Rightarrow> contract list \<Rightarrow> reader \<Rightarrow> reader \<Rightarrow>
     (verification_report \<times> execution_diff) res" where
  "verify_runs sql_total lower casefold = verify_contracts sql_total (analyze_for_diff lower casefold)"

section \<open>Captures that account for their events\<close>

definition capture_accounts :: "captured_summary option \<Rightarrow> (event \<Rightarrow> bool) \<Rightarrow> event list \<Rightarrow> bool" where
  "capture_accounts s relevant events = (case s of None \<Rightarrow> True
   | Some c \<Rightarrow> cs_status c = lit ''invalid'' \<or>
       cs_operation_count c = count_events relevant events \<and> cs_invalid_event_count c = 0)"

definition analysis_accounts :: "batch_analysis \<Rightarrow> event list \<Rightarrow> bool" where
  "analysis_accounts a events \<longleftrightarrow>
     capture_accounts (ba_semantic_capture a) is_subprocess_event events \<and>
     capture_accounts (ba_http_capture a) is_http_event events \<and>
     capture_accounts (ba_network_capture a) is_connection_event events \<and>
     capture_accounts (ba_network_setup_capture a) is_setup_event events \<and>
     capture_accounts (ba_logical_operation_capture a) is_logical_event events"

lemma summary_accounts:
  "capture_accounts (Some (summary_of d operation rejected (count_events relevant events) invalid_events caller_count attributed
     invalid_callers adapters hotspots)) relevant events"
  by (auto simp: capture_accounts_def summary_of_def Let_def raw_counts_def count_or_zero_def)

lemma no_summary_accounts [simp]: "capture_accounts None relevant events"
  by (simp add: capture_accounts_def)

lemma capture_summaries_account:
  "capture_accounts (semantic_capture_summary m (count_events P events) i cc n ic) P events"
  "capture_accounts (http_capture_summary m (count_events P events) i cc n ic ad) P events"
  "capture_accounts (network_capture_summary m (count_events P events) i cc n ic ad h) P events"
  "capture_accounts (setup_capture_summary m (count_events P events) i cc n ic ad h) P events"
  "capture_accounts (logical_capture_summary m (count_events P events) i cc n ic ad h) P events"
  unfolding semantic_capture_summary_def http_capture_summary_def network_capture_summary_def setup_capture_summary_def
    logical_capture_summary_def
  by (auto simp: summary_accounts split: option.splits prod.splits)

lemma analyses_account:
  "analyze_subprocesses events edges m ob = Inr (calls, s) \<Longrightarrow> capture_accounts s is_subprocess_event events"
  "analyze_http events edges m = Inr (requests, s) \<Longrightarrow> capture_accounts s is_http_event events"
  "analyze_network events edges m = Inr (connections, ch, s) \<Longrightarrow> capture_accounts s is_connection_event events"
  "analyze_setup events edges m = Inr (phases, ph, s) \<Longrightarrow> capture_accounts s is_setup_event events"
  "analyze_logical events edges m = Inr (operations, lh, s) \<Longrightarrow> capture_accounts s is_logical_event events"
  by (auto simp: analyze_subprocesses_def analyze_http_def analyze_network_def analyze_setup_def analyze_logical_def Let_def
      rbind_eq_Inr_iff capture_summaries_account)

lemma analysis_law:
  assumes "analyze_reader lower casefold rd (Some s) = Inr a"
  shows "\<exists>events. read_events rd = Inr events \<and> analysis_accounts a events"
proof -
  have "analyze_with lower casefold rd s = Inr a" using assms by (simp add: analyze_reader_def)
  then show ?thesis
    unfolding analyze_with_def rbind_eq_Inr_iff Let_def analysis_accounts_def
    by (elim exE conjE) (auto simp: rbind_eq_Inr_iff analyses_account)
qed

section \<open>The evidence behind an equivalence\<close>

definition capture_settled :: "string list \<Rightarrow> captured_summary option \<Rightarrow> (event \<Rightarrow> bool) \<Rightarrow> event list \<Rightarrow> bool" where
  "capture_settled statuses s relevant events = (case s of None \<Rightarrow> True
   | Some c \<Rightarrow> cs_status c \<in> lit ` set statuses \<and>
       cs_operation_count c = count_events relevant events \<and> cs_invalid_event_count c = 0)"

text \<open>Every capture of the run is absent or complete, declares as many operations as the run has events of
  its kind and found none of them invalid; the capture of logical operations may be unavailable.\<close>

definition analysis_settled :: "batch_analysis \<Rightarrow> event list \<Rightarrow> bool" where
  "analysis_settled a events \<longleftrightarrow>
     capture_settled [''complete''] (ba_semantic_capture a) is_subprocess_event events \<and>
     capture_settled [''complete''] (ba_http_capture a) is_http_event events \<and>
     capture_settled [''complete''] (ba_network_capture a) is_connection_event events \<and>
     capture_settled [''complete''] (ba_network_setup_capture a) is_setup_event events \<and>
     capture_settled [''complete'', ''unavailable''] (ba_logical_operation_capture a) is_logical_event events"

definition run_settled :: "(pystr \<Rightarrow> pystr) \<Rightarrow> (pystr \<Rightarrow> pystr) \<Rightarrow> reader \<Rightarrow> bool" where
  "run_settled lower casefold rd \<longleftrightarrow>
     (case rbind (inspect_reader rd) (\<lambda>s. rbind (analyze_reader lower casefold rd (Some s)) (\<lambda>a.
        rbind (read_events rd) (\<lambda>events. Inr (analysis_settled a events)))) of Inl _ \<Rightarrow> False | Inr b \<Rightarrow> b)"

lemma agreeing_capture_settled:
  assumes "capture_accounts s P events" and "map_option fst (capture_view s) \<in> {None, Some (lit ''complete'')}"
  shows "capture_settled [''complete''] s P events"
  using assms by (auto simp: capture_accounts_def capture_settled_def capture_view_def split: option.splits)

lemma optional_capture_settled:
  assumes "capture_accounts s P events"
    and "absent_status (fst (capture_observation (capture_view s))) \<or>
      fst (capture_observation (capture_view s)) = Some (lit ''complete'')"
  shows "capture_settled [''complete'', ''unavailable''] s P events"
  using assms
  by (auto simp: capture_accounts_def capture_settled_def capture_view_def absent_status_def capture_observation_def
      split: option.splits)

lemma capture_agrees_parts:
  "capture_agrees b c \<Longrightarrow> map_option fst b \<in> {None, Some (lit ''complete'')} \<and> map_option fst c \<in> {None, Some (lit ''complete'')}"
  by (auto simp: capture_agrees_def)

lemma optional_complete_parts:
  "optional_semantic_observation_complete b c \<Longrightarrow>
     (absent_status b \<or> b = Some (lit ''complete'')) \<and> (absent_status c \<or> c = Some (lit ''complete''))"
  by (auto simp: optional_semantic_observation_complete_def)

lemma gathered_analysis: "gather_facts sql_total rd s a = Inr f \<Longrightarrow> rf_analysis f = a"
  by (auto simp: gather_facts_def rbind_eq_Inr_iff)

lemma compare_runs_parts:
  assumes "compare_runs sql_total lower casefold b c = Inr d"
  obtains bs cs ba ca bf cf where
    "inspect_reader b = Inr bs" "analyze_reader lower casefold b (Some bs) = Inr ba" "rf_analysis bf = analysis_view_of ba"
    "inspect_reader c = Inr cs" "analyze_reader lower casefold c (Some cs) = Inr ca" "rf_analysis cf = analysis_view_of ca"
    "diff_facts bf cf = Inr d"
proof -
  obtain bs cs ba ca bf cf where
      "inspect_reader b = Inr bs" "inspect_reader c = Inr cs"
      "analyze_reader lower casefold b (Some bs) = Inr ba" "analyze_reader lower casefold c (Some cs) = Inr ca"
      "gather_facts sql_total b bs (analysis_view_of ba) = Inr bf" "gather_facts sql_total c cs (analysis_view_of ca) = Inr cf"
      "diff_facts bf cf = Inr d"
    using assms by (auto simp: compare_runs_def compare_readers_def analyze_for_diff_def rbind_eq_Inr_iff)
  then show ?thesis using that gathered_analysis by blast
qed

text \<open>C4. Two runs are called equivalent only on evidence that accounts for both: the analysis of either
  returns, and every capture of it is absent or complete, with as many operations as the run has events of
  its kind and none invalid.\<close>

theorem equivalent_runs_account_for_their_events:
  assumes "compare_runs sql_total lower casefold b c = Inr d" and "ed_outcome d = lit ''equivalent''"
  shows "run_settled lower casefold b \<and> run_settled lower casefold c"
proof -
  obtain bs cs ba ca bf cf where parts:
      "inspect_reader b = Inr bs" "analyze_reader lower casefold b (Some bs) = Inr ba" "rf_analysis bf = analysis_view_of ba"
      "inspect_reader c = Inr cs" "analyze_reader lower casefold c (Some cs) = Inr ca" "rf_analysis cf = analysis_view_of ca"
      "diff_facts bf cf = Inr d"
    by (rule compare_runs_parts [OF assms(1)])
  obtain be ce where events: "read_events b = Inr be" "analysis_accounts ba be" "read_events c = Inr ce" "analysis_accounts ca ce"
    using analysis_law [OF parts(2)] analysis_law [OF parts(5)] by blast
  note evidence = assms(2) [unfolded diff_facts_equivalent_iff [OF parts(7)]]
  have views: "capture_agrees (capture_view (ba_semantic_capture ba)) (capture_view (ba_semantic_capture ca))"
      "capture_agrees (capture_view (ba_http_capture ba)) (capture_view (ba_http_capture ca))"
      "capture_agrees (capture_view (ba_network_capture ba)) (capture_view (ba_network_capture ca))"
      "capture_agrees (capture_view (ba_network_setup_capture ba)) (capture_view (ba_network_setup_capture ca))"
      "optional_semantic_observation_complete (fst (capture_observation (capture_view (ba_logical_operation_capture ba))))
         (fst (capture_observation (capture_view (ba_logical_operation_capture ca))))"
    using evidence by (simp_all add: parts(3,6) analysis_view_of_def)
  have "analysis_settled ba be" "analysis_settled ca ce"
    using events(2,4) views(1-4) [THEN capture_agrees_parts] views(5) [THEN optional_complete_parts]
    unfolding analysis_settled_def analysis_accounts_def
    by (intro conjI agreeing_capture_settled optional_capture_settled; blast)+
  then show ?thesis using parts(1,2,4,5) events(1,3) by (simp add: run_settled_def)
qed

text \<open>A run that ended without output and that no observer watched.\<close>

definition idle_digest :: string where
  "idle_digest = ''\"e3b0c44298fc1c149afbf4c8996fb92427ae41e4649b934ca495991b7852b855\"''"

definition idle_stream :: string where
  "idle_stream = ''{\"bytes\":0,\"sha256\":'' @ idle_digest @ ''}''"

definition idle_metadata :: string where
  "idle_metadata = ''{\"output\":{\"stdout\":'' @ idle_stream @ '',\"stderr\":'' @ idle_stream @ ''}}''"

definition idle_run :: "string \<Rightarrow> reader" where
  "idle_run i = \<lparr>rd_db = empty_db\<lparr>
     db_manifest := [(OStr (lit ''schema_version''), OStr schema_version_text), (OStr (lit ''producer_version''), OStr (lit ''0.1''))],
     db_executions := [\<lparr>xr_id = OStr (lit i), xr_name = OStr (lit ''run''), xr_started_at_ns = OInt 0, xr_finished_at_ns = OInt 1000,
       xr_command_json = OStr (lit ''[\"true\"]''), xr_working_directory = OStr (lit ''/''), xr_exit_code = OInt 0,
       xr_revision = ONone, xr_metadata_json = OStr (lit idle_metadata)\<rparr>]\<rparr>, rd_has_attachments = True\<rparr>"

theorem equivalent_runs_account_for_their_events_witness:
  "\<exists>d. compare_runs float_sum id id (idle_run ''a'') (idle_run ''b'') = Inr d \<and> ed_outcome d = lit ''equivalent'' \<and>
     run_settled id id (idle_run ''a'')"
proof -
  have "(case compare_runs float_sum id id (idle_run ''a'') (idle_run ''b'') of
      Inr d \<Rightarrow> ed_outcome d = lit ''equivalent'' | _ \<Rightarrow> False)"
    by code_simp
  then obtain d where run: "compare_runs float_sum id id (idle_run ''a'') (idle_run ''b'') = Inr d"
      "ed_outcome d = lit ''equivalent''"
    by (auto split: sum.splits)
  from run equivalent_runs_account_for_their_events [OF run] show ?thesis by blast
qed

end
