(* ===== verification/ProfileParsing.thy ===== *)
theory ProfileParsing
  imports ProfileSummary JsonSupport
begin

text \<open>
  \<open>deep_profile/_common.py\<close>, \<open>deep_profile/_parsing.py\<close> and the typed readers of
  \<open>deep_profile/_session.py\<close>: the reports that profiled processes leave behind are read as JSON, every
  field is checked, and whatever does not fit raises \<open>DeepProfileError\<close>.

  A payload is the decoded text of one report, \<open>None\<close> when its bytes do not decode. (The depth at which the
  interpreter's JSON scanner gives up with \<open>RecursionError\<close>, an invalid report too, is not modelled.)
\<close>

section \<open>Shared helpers\<close>

definition deep_error :: "string \<Rightarrow> 'a res" where
  "deep_error message = Inl (DeepProfileError (lit message))"

definition deep_unless :: "bool \<Rightarrow> string \<Rightarrow> unit res" where
  "deep_unless ok message = raise_if (\<not> ok) (DeepProfileError (lit message))"

lemma deep_error_not_Inr [simp]: "deep_error m \<noteq> Inr x"
  by (simp add: deep_error_def)

lemma deep_unless_Inr_iff [res_simps]: "deep_unless b m = Inr u \<longleftrightarrow> b"
  by (simp add: deep_unless_def raise_if_Inr_iff)

lemma deep_unless_True [simp]: "deep_unless True m = Inr ()"
  by (simp add: deep_unless_def)

definition process_role_of :: "int \<Rightarrow> int option \<Rightarrow> pystr" where
  "process_role_of pid root_pid = (case root_pid of None \<Rightarrow> lit ''unknown''
     | Some r \<Rightarrow> if pid = r then lit ''root'' else lit ''descendant'')"

definition bounded_sum :: "int \<Rightarrow> int \<Rightarrow> string \<Rightarrow> int res" where
  "bounded_sum a b label =
     (if max_int64 < a + b then deep_error (label @ '' exceeds the supported integer range'') else Inr (a + b))"

lemma bounded_sum_Inr_iff [res_simps]: "bounded_sum a b l = Inr n \<longleftrightarrow> n = a + b \<and> a + b \<le> max_int64"
  by (auto simp: bounded_sum_def)

section \<open>Typed readers\<close>

definition doc_object :: "json \<Rightarrow> string \<Rightarrow> attrs res" where
  "doc_object j label = (case j of JObj d \<Rightarrow> Inr d | _ \<Rightarrow> deep_error (label @ '' must be an object''))"

definition doc_list :: "json \<Rightarrow> string \<Rightarrow> json list res" where
  "doc_list j label = (case j of JList vs \<Rightarrow> Inr vs | _ \<Rightarrow> deep_error (label @ '' must be an array''))"

definition doc_text :: "json \<Rightarrow> string \<Rightarrow> pystr res" where
  "doc_text j label = (case j of
     JStr s \<Rightarrow>
       (if s = [] then deep_error (label @ '' must be a non-empty string'')
        else if \<not> utf8_ok s then deep_error (label @ '' must be valid UTF-8'')
        else if 4096 < utf8_length s then deep_error (label @ '' exceeds the 4096-byte limit'')
        else Inr s)
   | _ \<Rightarrow> deep_error (label @ '' must be a non-empty string''))"

definition doc_integer :: "json \<Rightarrow> string \<Rightarrow> int res" where
  "doc_integer j label = (case j of
     JInt n \<Rightarrow> if 0 \<le> n \<and> n \<le> max_int64 then Inr n else deep_error (label @ '' must be a bounded non-negative integer'')
   | _ \<Rightarrow> deep_error (label @ '' must be a bounded non-negative integer''))"

definition doc_boolean :: "json \<Rightarrow> string \<Rightarrow> bool res" where
  "doc_boolean j label = (case j of JBool b \<Rightarrow> Inr b | _ \<Rightarrow> deep_error (label @ '' must be a boolean''))"

definition doc_optional_boolean :: "json \<Rightarrow> string \<Rightarrow> bool option res" where
  "doc_optional_boolean j label = (if j = JNull then Inr None else rbind (doc_boolean j label) (\<lambda>b. Inr (Some b)))"

definition doc_optional_signed_integer :: "json \<Rightarrow> string \<Rightarrow> int option res" where
  "doc_optional_signed_integer j label = (case j of
     JNull \<Rightarrow> Inr None
   | JInt n \<Rightarrow> if - max_int64 \<le> n \<and> n \<le> max_int64 then Inr (Some n)
       else deep_error (label @ '' must be a bounded integer or null'')
   | _ \<Rightarrow> deep_error (label @ '' must be a bounded integer or null''))"

definition doc_optional_nonnegative_integer :: "json \<Rightarrow> string \<Rightarrow> int option res" where
  "doc_optional_nonnegative_integer j label =
     (if j = JNull then Inr None else rbind (doc_integer j label) (\<lambda>n. Inr (Some n)))"

definition doc_optional_text :: "json \<Rightarrow> string \<Rightarrow> pystr option res" where
  "doc_optional_text j label = (if j = JNull then Inr None else rbind (doc_text j label) (\<lambda>s. Inr (Some s)))"

text \<open>The ladder of comparisons that admits a literal.\<close>

definition doc_literal :: "json \<Rightarrow> string list \<Rightarrow> string \<Rightarrow> pystr res" where
  "doc_literal j names message =
     (case j of JStr s \<Rightarrow> if s \<in> set (map lit names) then Inr s else deep_error message | _ \<Rightarrow> deep_error message)"

lemma doc_object_Inr_iff [res_simps]: "doc_object j l = Inr d \<longleftrightarrow> j = JObj d"
  by (auto simp: doc_object_def split: json.splits)

lemma doc_list_Inr_iff [res_simps]: "doc_list j l = Inr vs \<longleftrightarrow> j = JList vs"
  by (auto simp: doc_list_def split: json.splits)

definition text_ok :: "pystr \<Rightarrow> bool" where
  "text_ok s \<longleftrightarrow> s \<noteq> [] \<and> utf8_ok s \<and> utf8_length s \<le> 4096"

lemma doc_text_Inr_iff [res_simps]: "doc_text j l = Inr s \<longleftrightarrow> j = JStr s \<and> text_ok s"
  by (auto simp: doc_text_def text_ok_def split: json.splits if_splits)

lemma doc_integer_Inr_iff [res_simps]: "doc_integer j l = Inr n \<longleftrightarrow> j = JInt n \<and> 0 \<le> n \<and> n \<le> max_int64"
  by (auto simp: doc_integer_def split: json.splits if_splits)

lemma doc_boolean_Inr_iff [res_simps]: "doc_boolean j l = Inr b \<longleftrightarrow> j = JBool b"
  by (auto simp: doc_boolean_def split: json.splits)

lemma doc_optional_boolean_Inr_iff [res_simps]:
  "doc_optional_boolean j l = Inr v \<longleftrightarrow> (case v of None \<Rightarrow> j = JNull | Some b \<Rightarrow> j = JBool b)"
  by (auto simp: doc_optional_boolean_def res_simps split: option.splits)

lemma doc_optional_signed_integer_Inr_iff [res_simps]:
  "doc_optional_signed_integer j l = Inr v \<longleftrightarrow>
     (case v of None \<Rightarrow> j = JNull | Some n \<Rightarrow> j = JInt n \<and> - max_int64 \<le> n \<and> n \<le> max_int64)"
  by (auto simp: doc_optional_signed_integer_def split: json.splits option.splits)

lemma doc_optional_nonnegative_integer_Inr_iff [res_simps]:
  "doc_optional_nonnegative_integer j l = Inr v \<longleftrightarrow>
     (case v of None \<Rightarrow> j = JNull | Some n \<Rightarrow> j = JInt n \<and> 0 \<le> n \<and> n \<le> max_int64)"
  by (auto simp: doc_optional_nonnegative_integer_def res_simps split: option.splits)

lemma doc_optional_text_Inr_iff [res_simps]:
  "doc_optional_text j l = Inr v \<longleftrightarrow> (case v of None \<Rightarrow> j = JNull | Some s \<Rightarrow> j = JStr s \<and> text_ok s)"
  by (auto simp: doc_optional_text_def res_simps split: option.splits)

lemma doc_literal_Inr_iff [res_simps]: "doc_literal j ns m = Inr s \<longleftrightarrow> j = JStr s \<and> s \<in> lit ` set ns"
  by (auto simp: doc_literal_def split: json.splits)

section \<open>Documents\<close>

type_synonym payload = "pystr option"

definition reject_document_constant :: const_hook where
  "reject_document_constant name = Inl (ValueError (lit ''non-finite constant '' @ name))"

definition parse_document :: "payload \<Rightarrow> attrs res" where
  "parse_document p =
     (case p of None \<Rightarrow> deep_error ''generated deep-profile evidence is invalid JSON''
      | Some t \<Rightarrow> (case json_loads reject_document_constant t of
          Inl _ \<Rightarrow> deep_error ''generated deep-profile evidence is invalid JSON''
        | Inr v \<Rightarrow> doc_object (json_of_obj v) ''deep-profile document''))"

definition has_field :: "attrs \<Rightarrow> string \<Rightarrow> bool" where
  "has_field d k \<longleftrightarrow> has_key d (lit k)"

definition profile_checkpoint_interval_ns :: int where
  "profile_checkpoint_interval_ns = 500000000"

definition profile_first_checkpoint_delay_ns :: int where
  "profile_first_checkpoint_delay_ns = 50000000"

definition is_checkpoint :: "attrs \<Rightarrow> bool" where
  "is_checkpoint document \<longleftrightarrow> jget_or document ''snapshot_kind'' (jtext ''final'') = jtext ''checkpoint''"

definition snapshot_kind :: "attrs \<Rightarrow> string \<Rightarrow> pystr res" where
  "snapshot_kind document label =
     rbind (if has_field document ''snapshot_kind'' then
        rbind (doc_integer (jget document ''checkpoint_interval_ns'') (label @ '' checkpoint interval'')) (\<lambda>interval.
        rbind (deep_unless (interval = profile_checkpoint_interval_ns) (label @ '' checkpoint interval is unsupported'')) (\<lambda>_.
        if jget document ''first_checkpoint_delay_ns'' = JNull then Inr ()
        else rbind (doc_integer (jget document ''first_checkpoint_delay_ns'') (label @ '' first checkpoint delay'')) (\<lambda>delay.
          deep_unless (delay = profile_first_checkpoint_delay_ns) (label @ '' first checkpoint delay is unsupported''))))
      else Inr ()) (\<lambda>_.
     doc_literal (jget_or document ''snapshot_kind'' (jtext ''final'')) [''checkpoint'', ''final'']
       (label @ '' snapshot kind is unsupported''))"

definition registration_only :: "attrs \<Rightarrow> string \<Rightarrow> pystr \<Rightarrow> bool res" where
  "registration_only document label kind =
     rbind (doc_boolean (jget_or document ''registration_only'' (JBool False)) (label @ '' registration marker'')) (\<lambda>b.
     rbind (deep_unless (\<not> b \<or> kind = lit ''checkpoint'') (label @ '' final report cannot be registration-only'')) (\<lambda>_.
     Inr b))"

definition observer_integrity_of :: "attrs \<Rightarrow> (int \<times> int) option res" where
  "observer_integrity_of document =
     (if jget document ''observer_integrity'' = JNull then Inr None
      else rbind (doc_object (jget document ''observer_integrity'') ''deep-profile observer integrity'') (\<lambda>integrity.
      rbind (doc_integer (jget integrity ''format_version'') ''deep-profile observer integrity format version'') (\<lambda>version.
      rbind (deep_unless (version = 1) ''deep-profile observer integrity format version is unsupported'') (\<lambda>_.
      rbind (doc_integer (jget integrity ''profile_hook_setter_call_count'') ''deep-profile profile-hook setter call count'') (\<lambda>p.
      rbind (doc_integer (jget integrity ''trace_hook_setter_call_count'') ''deep-profile trace-hook setter call count'') (\<lambda>t.
      Inr (Some (p, t))))))))"

definition filtered_control_flow_exception_types :: "string list" where
  "filtered_control_flow_exception_types = [''GeneratorExit'', ''StopAsyncIteration'', ''StopIteration'']"

definition python_exception_filter :: "attrs \<Rightarrow> bool res" where
  "python_exception_filter document =
     (if jget document ''python_exception_filter'' = JNull then Inr False
      else rbind (doc_object (jget document ''python_exception_filter'') ''deep-profile Python exception filter'') (\<lambda>f.
      rbind (doc_integer (jget f ''format_version'') ''deep-profile Python exception filter format version'') (\<lambda>version.
      rbind (deep_unless (version = 1) ''deep-profile Python exception filter format version is unsupported'') (\<lambda>_.
      rbind (doc_list (jget f ''filtered_exception_types'') ''deep-profile filtered exception types'') (\<lambda>types.
      rbind (deep_unless (jget f ''event_semantics'' = jtext ''exact_type_identity'' \<and>
          is_true (jget f ''exception_type_identity_inspected'') \<and> is_false (jget f ''exception_types_captured'') \<and>
          types = map jtext filtered_control_flow_exception_types)
          ''deep-profile Python exception filter metadata is invalid'') (\<lambda>_.
      Inr True))))))"

end
