(* ===== verification/Heapq.thy ===== *)
theory Heapq
  imports Prelude
begin

text \<open>
  \<open>heapq.heappush\<close> and \<open>heapq.heapreplace\<close> as the standard library defines them on a list, and the
  bounded selection the evidence loaders of \<open>deep_profile\<close> build with them: push while there is room,
  then replace the least entry by a greater one. An entry is a pair of a rank and a payload, and entries
  compare by rank. (The ranks of the program end in a running ordinal or in a unique key, so two entries
  never tie and the payload is never compared.)

  The selection is proved once against the contract of the two operations (locale \<open>least_first\<close>) and
  the contract is then discharged for the list heap: what survives are the greatest entries offered.
\<close>

section \<open>The list heap\<close>

definition parent :: "nat \<Rightarrow> nat" where
  "parent i = (i - 1) div 2"

text \<open>\<open>_siftdown(heap, 0, pos)\<close> with the entry \<open>e\<close> in hand: the hole moves towards the first place.\<close>

function siftdown :: "('k::linorder \<times> 'a) list \<Rightarrow> nat \<Rightarrow> 'k \<times> 'a \<Rightarrow> ('k \<times> 'a) list" where
  "siftdown h pos e =
     (if 0 < pos \<and> fst e < fst (h ! parent pos) then siftdown (h[pos := h ! parent pos]) (parent pos) e
      else h[pos := e])"
  by pat_completeness auto
termination
  by (relation "measure (\<lambda>(h, pos, e). pos)") (auto simp: parent_def)

text \<open>\<open>_siftup(heap, pos)\<close>: the smaller child moves up until the hole is a leaf, and \<open>_siftdown\<close> follows.\<close>

definition smaller_child :: "('k::linorder \<times> 'a) list \<Rightarrow> nat \<Rightarrow> nat" where
  "smaller_child h pos = (let child = 2 * pos + 1; right = child + 1
     in if right < length h \<and> \<not> fst (h ! child) < fst (h ! right) then right else child)"

function siftup :: "('k::linorder \<times> 'a) list \<Rightarrow> nat \<Rightarrow> 'k \<times> 'a \<Rightarrow> ('k \<times> 'a) list" where
  "siftup h pos e =
     (if 2 * pos + 1 < length h
      then siftup (h[pos := h ! smaller_child h pos]) (smaller_child h pos) e
      else siftdown h pos e)"
  by pat_completeness auto
termination
  by (relation "measure (\<lambda>(h, pos, e). length h - pos)") (auto simp: smaller_child_def Let_def)

declare siftdown.simps [simp del] siftup.simps [simp del]

definition heappush :: "('k::linorder \<times> 'a) list \<Rightarrow> 'k \<times> 'a \<Rightarrow> ('k \<times> 'a) list" where
  "heappush h e = siftdown (h @ [e]) (length h) e"

definition heapreplace :: "('k::linorder \<times> 'a) list \<Rightarrow> 'k \<times> 'a \<Rightarrow> ('k \<times> 'a) list" where
  "heapreplace h e = siftup (h[0 := e]) 0 e"

definition heap_ok :: "('k::linorder \<times> 'a) list \<Rightarrow> bool" where
  "heap_ok h \<longleftrightarrow> (\<forall>i<length h. 0 < i \<longrightarrow> fst (h ! parent i) \<le> fst (h ! i))"

subsection \<open>The entries of the heap\<close>

lemma parent_less: "0 < i \<Longrightarrow> parent i < i"
  by (auto simp: parent_def)

lemma mset_move_hole:
  assumes "i < length h" "j < length h" "i \<noteq> j"
  shows "mset ((h[i := h ! j])[j := e]) = mset (h[i := e])"
proof -
  have "(h[i := h ! j])[j := e] = (h[i := e])[i := (h[i := e]) ! j, j := (h[i := e]) ! i]"
    using assms by (simp add: list_update_swap)
  then show ?thesis
    using assms mset_swap [of j "h[i := e]" i] by simp
qed

lemma mset_siftdown: "pos < length h \<Longrightarrow> mset (siftdown h pos e) = mset (h[pos := e])"
proof (induction h pos e rule: siftdown.induct)
  case (1 h pos e)
  show ?case
  proof (cases "0 < pos \<and> fst e < fst (h ! parent pos)")
    case True
    then have less: "parent pos < pos" using parent_less by blast
    then have "mset ((h[pos := h ! parent pos])[parent pos := e]) = mset (h[pos := e])"
      using 1 by (intro mset_move_hole) auto
    with True less "1.IH" "1.prems" show ?thesis by (subst siftdown.simps) simp
  next
    case False
    then show ?thesis by (subst siftdown.simps) (simp only: if_False)
  qed
qed

lemma smaller_child_range:
  "2 * pos + 1 < length h \<Longrightarrow> pos < smaller_child h pos \<and> smaller_child h pos < length h"
  by (auto simp: smaller_child_def Let_def)

lemma mset_siftup: "pos < length h \<Longrightarrow> mset (siftup h pos e) = mset (h[pos := e])"
proof (induction h pos e rule: siftup.induct)
  case (1 h pos e)
  show ?case
  proof (cases "2 * pos + 1 < length h")
    case True
    let ?c = "smaller_child h pos"
    have c: "pos < ?c" "?c < length h" using smaller_child_range [OF True] by auto
    then have "mset ((h[pos := h ! ?c])[?c := e]) = mset (h[pos := e])"
      using 1 by (intro mset_move_hole) auto
    with True c "1.IH" show ?thesis by (subst siftup.simps) simp
  next
    case False
    then show ?thesis using "1.prems" by (subst siftup.simps) (simp add: mset_siftdown)
  qed
qed

lemma mset_heappush: "mset (heappush h e) = add_mset e (mset h)"
  by (simp add: heappush_def mset_siftdown)

lemma mset_heapreplace: "h \<noteq> [] \<Longrightarrow> mset (heapreplace h e) = add_mset e (mset h - {#h ! 0#})"
  by (simp add: heapreplace_def mset_siftup mset_update)

subsection \<open>The order of the heap\<close>

text \<open>
  With a hole at \<open>pos\<close>, every other place is ordered against its parent, and the children of the hole
  are ordered against the parent of the hole.
\<close>

definition heap_but :: "('k::linorder \<times> 'a) list \<Rightarrow> nat \<Rightarrow> bool" where
  "heap_but h pos \<longleftrightarrow>
     (\<forall>i<length h. 0 < i \<and> i \<noteq> pos \<and> parent i \<noteq> pos \<longrightarrow> fst (h ! parent i) \<le> fst (h ! i)) \<and>
     (\<forall>i<length h. 0 < i \<and> 0 < pos \<and> parent i = pos \<longrightarrow> fst (h ! parent pos) \<le> fst (h ! i))"

lemma heap_siftdown:
  assumes "pos < length h" "heap_but h pos"
    and "\<And>i. i < length h \<Longrightarrow> 0 < i \<Longrightarrow> parent i = pos \<Longrightarrow> fst e \<le> fst (h ! i)"
  shows "heap_ok (siftdown h pos e)"
  using assms
proof (induction h pos e rule: siftdown.induct)
  case (1 h pos e)
  note but = "1.prems"(2) [unfolded heap_but_def]
  show ?case
  proof (cases "0 < pos \<and> fst e < fst (h ! parent pos)")
    case True
    let ?p = "parent pos" and ?h = "h[pos := h ! parent pos]"
    have less: "?p < pos" using True parent_less by blast
    have up: "fst (h ! ?p) \<le> fst (h ! i)" if "i < length h" "0 < i" "parent i = ?p" "i \<noteq> pos" for i
      using that less but by (metis (no_types, lifting) nat_neq_iff)
    have "heap_but ?h ?p"
      unfolding heap_but_def
    proof (intro conjI allI impI)
      fix i assume i: "i < length ?h" "0 < i \<and> i \<noteq> ?p \<and> parent i \<noteq> ?p"
      show "fst (?h ! parent i) \<le> fst (?h ! i)"
      proof (cases "parent i = pos")
        case pos: True
        then have "i \<noteq> pos" using i parent_less [of i] by auto
        with pos i but "1.prems"(1) True show ?thesis by auto
      next
        case False
        with i have "i \<noteq> pos" by auto
        with False i but show ?thesis by auto
      qed
    next
      fix i assume i: "i < length ?h" "0 < i \<and> 0 < ?p \<and> parent i = ?p"
      have pp: "fst (h ! parent ?p) \<le> fst (h ! ?p)"
        using but i less "1.prems"(1) parent_less [of ?p] by auto
      moreover have "fst (h ! ?p) \<le> fst (?h ! i)"
        using up [of i] i "1.prems"(1) by (cases "i = pos") auto
      moreover have "parent ?p \<noteq> pos" using i less parent_less [of ?p] by auto
      ultimately show "fst (?h ! parent ?p) \<le> fst (?h ! i)" by auto
    qed
    moreover have "fst e \<le> fst (?h ! i)" if "i < length ?h" "0 < i" "parent i = ?p" for i
      using up [of i] that True "1.prems"(1) by (cases "i = pos") auto
    ultimately have "heap_ok (siftdown ?h ?p e)"
      using "1.IH" True less "1.prems"(1) by simp
    with True show ?thesis by (subst siftdown.simps) simp
  next
    case False
    have "heap_ok (h[pos := e])"
      unfolding heap_ok_def
    proof (intro allI impI)
      fix i assume i: "i < length (h[pos := e])" "0 < i"
      then have "parent i < i" by (rule_tac parent_less)
      with i False but "1.prems"(1,3) show "fst (h[pos := e] ! parent i) \<le> fst (h[pos := e] ! i)"
        by (cases "i = pos"; cases "parent i = pos") auto
    qed
    with False show ?thesis by (subst siftdown.simps) (simp only: if_False)
  qed
qed

lemma smaller_child_least:
  assumes "i < length h" "0 < i" "parent i = pos"
  shows "fst (h ! smaller_child h pos) \<le> fst (h ! i)" "parent (smaller_child h pos) = pos"
proof -
  have "i = 2 * pos + 1 \<or> i = 2 * pos + 2"
    using assms by (auto simp: parent_def)
  with assms show "fst (h ! smaller_child h pos) \<le> fst (h ! i)" "parent (smaller_child h pos) = pos"
    by (auto simp: smaller_child_def Let_def parent_def)
qed

lemma heap_siftup: "pos < length h \<Longrightarrow> heap_but h pos \<Longrightarrow> heap_ok (siftup h pos e)"
proof (induction h pos e rule: siftup.induct)
  case (1 h pos e)
  note but = "1.prems"(2) [unfolded heap_but_def]
  show ?case
  proof (cases "2 * pos + 1 < length h")
    case True
    let ?c = "smaller_child h pos"
    let ?h = "h[pos := h ! ?c]"
    have c: "pos < ?c" "?c < length h" using smaller_child_range [OF True] by auto
    have pc: "parent ?c = pos" by (rule smaller_child_least(2) [OF True]) (simp_all add: parent_def)
    have "heap_but ?h ?c"
      unfolding heap_but_def
    proof (intro conjI allI impI)
      fix i assume i: "i < length ?h" "0 < i \<and> i \<noteq> ?c \<and> parent i \<noteq> ?c"
      consider "i = pos" | "i \<noteq> pos" "parent i = pos" | "i \<noteq> pos" "parent i \<noteq> pos" by blast
      then show "fst (?h ! parent i) \<le> fst (?h ! i)"
      proof cases
        case 1
        then have "parent pos \<noteq> pos" using i parent_less [of pos] by auto
        with 1 i c pc but show ?thesis by auto
      next
        case 2
        with i c smaller_child_least(1) [of i h pos] show ?thesis by auto
      next
        case 3
        with i but show ?thesis by auto
      qed
    next
      fix i assume i: "i < length ?h" "0 < i \<and> 0 < ?c \<and> parent i = ?c"
      then have "i \<noteq> pos" using c parent_less [of i] by auto
      moreover have "fst (h ! ?c) \<le> fst (h ! i)"
        using i but c \<open>i \<noteq> pos\<close> by (metis length_list_update less_irrefl)
      ultimately show "fst (?h ! parent ?c) \<le> fst (?h ! i)"
        using c pc by auto
    qed
    then have "heap_ok (siftup ?h ?c e)" using "1.IH" True c by simp
    with True show ?thesis by (subst siftup.simps) simp
  next
    case False
    have "heap_ok (siftdown h pos e)"
      using "1.prems" False by (intro heap_siftdown) (auto simp: parent_def)
    with False show ?thesis by (subst siftup.simps) simp
  qed
qed

lemma heap_heappush:
  assumes "heap_ok h"
  shows "heap_ok (heappush h e)"
  unfolding heappush_def
proof (rule heap_siftdown)
  show "heap_but (h @ [e]) (length h)"
    unfolding heap_but_def
  proof (intro conjI allI impI)
    fix i assume i: "i < length (h @ [e])" "0 < i \<and> i \<noteq> length h \<and> parent i \<noteq> length h"
    then have "i < length h" "parent i < length h" using parent_less [of i] by auto
    with i assms show "fst ((h @ [e]) ! parent i) \<le> fst ((h @ [e]) ! i)"
      by (simp add: nth_append heap_ok_def)
  next
    fix i assume "i < length (h @ [e])" "0 < i \<and> 0 < length h \<and> parent i = length h"
    then show "fst ((h @ [e]) ! parent (length h)) \<le> fst ((h @ [e]) ! i)"
      using parent_less [of i] by auto
  qed
next
  fix i assume "i < length (h @ [e])" "0 < i" "parent i = length h"
  then show "fst e \<le> fst ((h @ [e]) ! i)" using parent_less [of i] by auto
qed simp

lemma heap_heapreplace:
  assumes "heap_ok h" "h \<noteq> []"
  shows "heap_ok (heapreplace h e)"
  unfolding heapreplace_def
proof (rule heap_siftup)
  show "heap_but (h[0 := e]) 0"
    using assms by (auto simp: heap_but_def heap_ok_def nth_list_update)
qed (use assms in simp)

lemma heap_least:
  assumes "heap_ok h" "i < length h"
  shows "fst (h ! 0) \<le> fst (h ! i)"
  using assms(2)
proof (induction i rule: less_induct)
  case (less i)
  show ?case
  proof (cases "i = 0")
    case False
    then have p: "parent i < i" by (intro parent_less) simp
    then have "fst (h ! 0) \<le> fst (h ! parent i)" using less by simp
    also have "\<dots> \<le> fst (h ! i)" using assms(1) less.prems False by (simp add: heap_ok_def)
    finally show ?thesis .
  qed simp
qed

section \<open>Selecting the greatest entries\<close>

text \<open>One round of the selection: \<open>heappush\<close> below the limit, \<open>heapreplace\<close> for a greater entry.\<close>

definition offer :: "nat \<Rightarrow> 'k::linorder \<times> 'a \<Rightarrow> ('k \<times> 'a) list \<Rightarrow> ('k \<times> 'a) list" where
  "offer n e h = (if length h < n then heappush h e
     else if fst (h ! 0) < fst e then heapreplace h e else h)"

definition select_greatest :: "nat \<Rightarrow> ('k::linorder \<times> 'a) list \<Rightarrow> ('k \<times> 'a) list" where
  "select_greatest n es = fold (offer n) es []"

text \<open>
  The contract of a queue that yields its least entry first, over any representation: \<open>keep\<close> is the
  invariant, \<open>least\<close> the entry to give up first.
\<close>

locale least_first =
  fixes keep :: "'q \<Rightarrow> bool"
    and entries :: "'q \<Rightarrow> ('k::linorder \<times> 'a) multiset"
    and least :: "'q \<Rightarrow> 'k \<times> 'a"
    and nothing :: 'q
    and push :: "'q \<Rightarrow> 'k \<times> 'a \<Rightarrow> 'q"
    and replace :: "'q \<Rightarrow> 'k \<times> 'a \<Rightarrow> 'q"
  assumes keep_nothing: "keep nothing"
    and entries_nothing: "entries nothing = {#}"
    and push: "keep q \<Longrightarrow> keep (push q e)" "keep q \<Longrightarrow> entries (push q e) = add_mset e (entries q)"
    and replace: "keep q \<Longrightarrow> entries q \<noteq> {#} \<Longrightarrow> keep (replace q e)"
      "keep q \<Longrightarrow> entries q \<noteq> {#} \<Longrightarrow> entries (replace q e) = add_mset e (entries q - {#least q#})"
    and least: "keep q \<Longrightarrow> entries q \<noteq> {#} \<Longrightarrow> least q \<in># entries q"
      "keep q \<Longrightarrow> x \<in># entries q \<Longrightarrow> fst (least q) \<le> fst x"
begin

definition offered :: "nat \<Rightarrow> 'k \<times> 'a \<Rightarrow> 'q \<Rightarrow> 'q" where
  "offered n e q = (if size (entries q) < n then push q e
     else if fst (least q) < fst e then replace q e else q)"

text \<open>The entries kept are as many as the limit allows, and no entry given up ranks above one kept.\<close>

lemma offered_keeps_greatest:
  assumes n: "0 < n"
  shows "keep (fold (offered n) es nothing) \<and>
    (\<exists>lost. mset es = entries (fold (offered n) es nothing) + lost \<and>
      size (entries (fold (offered n) es nothing)) = min n (length es) \<and>
      (\<forall>x\<in>#lost. \<forall>y\<in>#entries (fold (offered n) es nothing). fst x \<le> fst y))"
proof (induction es rule: rev_induct)
  case Nil
  then show ?case by (simp add: keep_nothing entries_nothing)
next
  case (snoc e es)
  let ?q = "fold (offered n) es nothing"
  obtain lost where q: "keep ?q" and split: "mset es = entries ?q + lost"
    and size: "size (entries ?q) = min n (length es)"
    and lost: "\<And>x y. x \<in># lost \<Longrightarrow> y \<in># entries ?q \<Longrightarrow> fst x \<le> fst y"
    using snoc by blast
  consider "size (entries ?q) < n" | "\<not> size (entries ?q) < n" "fst (least ?q) < fst e"
    | "\<not> size (entries ?q) < n" "\<not> fst (least ?q) < fst e" by blast
  then show ?case
  proof cases
    case 1
    then have "length es < n" using size by simp
    moreover from this have "lost = {#}"
      using split size by (metis min.strict_order_iff min.commute add_cancel_right_right size_eq_0_iff_empty size_mset size_union less_imp_le min_absorb2)
    moreover have step: "fold (offered n) (es @ [e]) nothing = push ?q e"
      using 1 by (simp add: offered_def [of n e])
    ultimately show ?thesis
      unfolding step using split size push [OF q] by (intro conjI exI [of _ lost]) simp_all
  next
    case 2
    then have full: "entries ?q \<noteq> {#}" using n by auto
    note r = replace [OF q full] and l = least [OF q]
    have le: "fst x \<le> fst y" if x: "x \<in># add_mset (least ?q) lost" and y: "y \<in># entries (replace ?q e)" for x y
    proof -
      have y': "y = e \<or> y \<in># entries ?q" using y r(2) by (auto dest: in_diffD)
      have "fst x \<le> fst (least ?q)"
        using x lost [OF _ l(1) [OF full]] by (cases "x \<in># lost") simp_all
      also have "\<dots> \<le> fst y" using y' 2 l(2) [of y] by (cases "y = e") simp_all
      finally show ?thesis .
    qed
    have "mset (es @ [e]) = entries (replace ?q e) + add_mset (least ?q) lost"
      using split r(2) l(1) [OF full] by simp
    moreover have "size (entries (replace ?q e)) = size (entries ?q)"
      using r(2) l(1) [OF full] full by (simp add: size_Diff_singleton nonempty_has_size)
    moreover have step: "fold (offered n) (es @ [e]) nothing = replace ?q e"
      using 2 by (simp add: offered_def [of n e])
    ultimately show ?thesis
      unfolding step using 2 size r(1) le by (intro conjI exI [of _ "add_mset (least ?q) lost"]) simp_all
  next
    case 3
    have "mset (es @ [e]) = entries ?q + add_mset e lost" using split by simp
    moreover have "fst x \<le> fst y" if "x \<in># add_mset e lost" "y \<in># entries ?q" for x y
    proof (cases "x = e")
      case True
      with 3 have "fst x \<le> fst (least ?q)" by simp
      also have "\<dots> \<le> fst y" by (rule least(2) [OF q that(2)])
      finally show ?thesis .
    next
      case False
      with that lost show ?thesis by simp
    qed
    moreover have step: "fold (offered n) (es @ [e]) nothing = ?q"
      using 3 by (simp add: offered_def [of n e])
    ultimately show ?thesis
      unfolding step using 3 q size by (intro conjI exI [of _ "add_mset e lost"]) simp_all
  qed
qed

end

interpretation list_heap: least_first heap_ok mset "\<lambda>h. h ! 0" "[]" heappush heapreplace
proof unfold_locales
  fix q :: "('a \<times> 'b) list" and e x :: "'a \<times> 'b"
  show "heap_ok ([] :: ('a \<times> 'b) list)" by (simp add: heap_ok_def)
  show "heap_ok q \<Longrightarrow> heap_ok (heappush q e)" by (rule heap_heappush)
  show "mset (heappush q e) = add_mset e (mset q)" by (rule mset_heappush)
  show "heap_ok q \<Longrightarrow> mset q \<noteq> {#} \<Longrightarrow> heap_ok (heapreplace q e)" by (simp add: heap_heapreplace)
  show "mset q \<noteq> {#} \<Longrightarrow> mset (heapreplace q e) = add_mset e (mset q - {#q ! 0#})"
    by (simp add: mset_heapreplace)
  show "mset q \<noteq> {#} \<Longrightarrow> q ! 0 \<in># mset q" by simp
  show "heap_ok q \<Longrightarrow> x \<in># mset q \<Longrightarrow> fst (q ! 0) \<le> fst x"
    using heap_least by (fastforce simp: in_set_conv_nth)
qed simp_all

lemma offer_offered: "offer n = list_heap.offered n"
  by (intro ext) (simp add: offer_def list_heap.offered_def)

lemma select_greatest_law:
  assumes "0 < n"
  obtains lost where "mset es = mset (select_greatest n es) + lost"
    "length (select_greatest n es) = min n (length es)"
    "\<And>x y. x \<in># lost \<Longrightarrow> y \<in> set (select_greatest n es) \<Longrightarrow> fst x \<le> fst y"
proof -
  from list_heap.offered_keeps_greatest [OF assms, of es] obtain lost
    where "mset es = mset (select_greatest n es) + lost"
      and "length (select_greatest n es) = min n (length es)"
      and "\<forall>x\<in>#lost. \<forall>y\<in>set (select_greatest n es). fst x \<le> fst y"
    unfolding select_greatest_def offer_offered by auto
  then show thesis by (intro that) auto
qed

lemma select_greatest_subset: "0 < n \<Longrightarrow> set (select_greatest n es) \<subseteq> set es"
  by (rule select_greatest_law [of n es]) (auto dest!: arg_cong [of _ _ set_mset])

end
