(* ===== verification/BoundaryEvidence.thy ===== *)
theory BoundaryEvidence
  imports ProfileParsing Heapq
begin

text \<open>
  The parts of \<open>deep_profile/_evidence.py\<close>, \<open>_parsing.py\<close> and of the five \<open>_*_capture_evidence\<close> functions
  that do not depend on the kind of boundary: who called, the call sites and the edges that attribute
  retained records to them, the tally over the reports of all processes and the result it ends in.

  The five functions of the source share one text up to the fields they read. Here that text is
  \<open>capture_evidence\<close>, with the reader of one report, the ranking and the event of a record as arguments; the
  theory \<open>BoundaryRecords\<close> gives the five instances. \<open>digest\<close> stands for the hexadecimal SHA-256 of the UTF-8
  encoding of a text.
\<close>

section \<open>Callers\<close>

record function_identity =
  fi_module :: pystr
  fi_qualname :: pystr
  fi_filename :: pystr
  fi_firstlineno :: int
  fi_scope :: pystr

definition fi_name :: "function_identity \<Rightarrow> pystr" where
  "fi_name i = fi_module i @ lit ''.'' @ fi_qualname i"

definition fi_native :: "function_identity \<Rightarrow> bool" where
  "fi_native i \<longleftrightarrow> fi_filename i = lit ''<native>''"

record record_caller =
  rc_identity :: function_identity
  rc_observation :: pystr

text \<open>\<open>_subprocess_caller\<close>, used by every kind of record\<close>

definition read_caller :: "json \<Rightarrow> record_caller res" where
  "read_caller j =
     rbind (doc_object j ''semantic subprocess caller'') (\<lambda>item.
     rbind (doc_text (jget item ''scope'') ''semantic subprocess caller scope'') (\<lambda>scope.
     rbind (deep_unless (scope \<in> set scopes) ''semantic subprocess caller scope is unsupported'') (\<lambda>_.
     rbind (doc_literal (jget item ''observation'') [''exact'', ''sampled'']
       ''semantic subprocess caller observation is unsupported'') (\<lambda>observation.
     rbind (doc_text (jget item ''module'') ''semantic subprocess caller module'') (\<lambda>m.
     rbind (doc_text (jget item ''qualname'') ''semantic subprocess caller qualified name'') (\<lambda>q.
     rbind (doc_text (jget item ''filename'') ''semantic subprocess caller filename'') (\<lambda>f.
     rbind (doc_integer (jget item ''firstlineno'') ''semantic subprocess caller first line'') (\<lambda>n.
     Inr \<lparr>rc_identity = \<lparr>fi_module = m, fi_qualname = q, fi_filename = f, fi_firstlineno = n, fi_scope = scope\<rparr>,
          rc_observation = observation\<rparr>))))))))"

text \<open>A caller that does not read leaves the record without one, and marks it.\<close>

definition record_caller_of :: "attrs \<Rightarrow> record_caller option \<times> pystr" where
  "record_caller_of item =
     (if jget item ''caller'' = JNull then (None, lit ''unavailable'')
      else case read_caller (jget item ''caller'') of
        Inl _ \<Rightarrow> (None, lit ''invalid'') | Inr c \<Rightarrow> (Some c, lit ''complete''))"

text \<open>The fields that the records of all five kinds have.\<close>

record boundary_record =
  br_identifier :: int
  br_parent_pid :: int
  br_started_at_ns :: int
  br_duration_ns :: "int option"
  br_outcome :: pystr
  br_error_type :: "pystr option"
  br_caller :: "record_caller option"
  br_caller_status :: pystr

section \<open>Attribution\<close>

record caller_event_contract =
  cc_namespace :: pystr
  cc_source :: pystr
  cc_count_attribute :: string
  cc_relation :: pystr

definition identity_text :: "function_identity \<Rightarrow> pystr" where
  "identity_text i = join [0] [fi_module i, fi_qualname i, fi_filename i, int_text (fi_firstlineno i), fi_scope i]"

definition caller_event_id :: "(pystr \<Rightarrow> pystr) \<Rightarrow> caller_event_contract \<Rightarrow> function_identity \<Rightarrow> pystr" where
  "caller_event_id digest c i = cc_namespace c @ lit '':'' @ digest (identity_text i)"

definition caller_event :: "(pystr \<Rightarrow> pystr) \<Rightarrow> caller_event_contract \<Rightarrow> pystr \<Rightarrow> function_identity \<Rightarrow> int \<Rightarrow> event" where
  "caller_event digest c entity i n =
     \<lparr>ev_id = caller_event_id digest c i, ev_kind = lit ''python.callsite'', ev_name = fi_name i,
      ev_entity_id = Some entity, ev_started_at_ns = None, ev_finished_at_ns = None, ev_clock_domain = None,
      ev_uncertainty_ns = None, ev_sequence = None,
      ev_attributes = [(lit ''source'', JStr (cc_source c)), (lit ''scope'', JStr (fi_scope i)),
        (lit ''module'', JStr (fi_module i)), (lit ''qualname'', JStr (fi_qualname i)),
        (lit ''filename'', JStr (fi_filename i)), (lit ''firstlineno'', JInt (fi_firstlineno i)),
        (lit (cc_count_attribute c), JInt n), (lit ''arguments_captured'', JBool False),
        (lit ''locals_captured'', JBool False)]\<rparr>"

definition caller_edge :: "(pystr \<Rightarrow> pystr) \<Rightarrow> caller_event_contract \<Rightarrow> record_caller \<Rightarrow> pystr \<Rightarrow> pystr \<Rightarrow> causal_edge" where
  "caller_edge digest c caller target relation =
     \<lparr>edge_source = caller_event_id digest c (rc_identity caller), edge_target = target, edge_kind = relation,
      edge_confidence = (if rc_observation caller = lit ''exact'' then Fin 1 else rnd (9 / 10)),
      edge_attributes = [(lit ''source'', JStr (cc_source c)), (lit ''observation'', JStr (rc_observation caller))]\<rparr>"

definition identity_key :: "function_identity \<times> int \<Rightarrow> pystr \<times> pystr \<times> int \<times> pystr" where
  "identity_key ic = (fi_name (fst ic), fi_filename (fst ic), fi_firstlineno (fst ic), fi_scope (fst ic))"

text \<open>\<open>_caller_evidence\<close>: the call sites in order, one edge per attributed record, and both counts.\<close>

definition attributed :: "('a boundary_record_scheme) list \<Rightarrow> (record_caller \<times> 'a boundary_record_scheme) list" where
  "attributed records = List.map_filter (\<lambda>r. case br_caller r of None \<Rightarrow> None | Some c \<Rightarrow> Some (c, r)) records"

definition caller_evidence ::
  "(pystr \<Rightarrow> pystr) \<Rightarrow> caller_event_contract \<Rightarrow> pystr \<Rightarrow> ('a boundary_record_scheme \<Rightarrow> pystr) \<Rightarrow>
   ('a boundary_record_scheme \<Rightarrow> pystr) \<Rightarrow> 'a boundary_record_scheme list \<Rightarrow> event list \<times> causal_edge list \<times> int \<times> int" where
  "caller_evidence digest c entity target relation records =
     (let callers = attributed records;
          edges = map (\<lambda>(caller, r). caller_edge digest c caller (target r) (relation r)) callers
      in (map (\<lambda>(i, n). caller_event digest c entity i n)
            (sort_key identity_key (tally (map (\<lambda>(caller, r). rc_identity caller) callers))),
          edges, int (length edges), int (length records) - int (length edges)))"

section \<open>The status of a capture\<close>

definition retained_capture_status :: "bool \<Rightarrow> int \<Rightarrow> int \<Rightarrow> pystr" where
  "retained_capture_status partial dropped callback_errors =
     (if partial then lit ''partial''
      else if dropped \<noteq> 0 \<or> callback_errors \<noteq> 0 then lit ''truncated'' else lit ''complete'')"

definition caller_capture_status :: "int \<Rightarrow> bool \<Rightarrow> int \<Rightarrow> int \<Rightarrow> int \<Rightarrow> pystr" where
  "caller_capture_status invalid partial unattributed callback_errors dropped =
     (if invalid \<noteq> 0 then lit ''invalid''
      else if partial \<or> unattributed \<noteq> 0 \<or> callback_errors \<noteq> 0 then lit ''partial''
      else if dropped \<noteq> 0 then lit ''truncated'' else lit ''complete'')"

section \<open>One report\<close>

text \<open>
  What a report says of one kind of boundary: nothing (its format has no such section), the section is
  switched off, or the checked counts, records and adapters.
\<close>

record 'r document_evidence =
  de_dropped :: int
  de_callback_errors :: int
  de_caller_errors :: int
  de_records :: "'r list"
  de_adapters :: "pystr list"

datatype 'r reading = Missing | Disabled | Found "'r document_evidence"

text \<open>The set of adapters a report declares: known ones, none twice.\<close>

fun read_adapters :: "string list \<Rightarrow> string \<Rightarrow> pystr list \<Rightarrow> json list \<Rightarrow> pystr list res" where
  "read_adapters known label seen [] = Inr (rev seen)"
| "read_adapters known label seen (j # js) =
     rbind (doc_text j label) (\<lambda>a.
     rbind (deep_unless (a \<in> set (map lit known) \<and> a \<notin> set seen) (label @ ''s are unsupported'')) (\<lambda>_.
     read_adapters known label (a # seen) js))"

definition registration_contains :: "'x list \<Rightarrow> int \<Rightarrow> int \<Rightarrow> int \<Rightarrow> bool" where
  "registration_contains records dropped callback_errors caller_errors \<longleftrightarrow>
     records \<noteq> [] \<or> dropped \<noteq> 0 \<or> callback_errors \<noteq> 0 \<or> caller_errors \<noteq> 0"

definition distinct_ids :: "'a boundary_record_scheme list \<Rightarrow> bool" where
  "distinct_ids records \<longleftrightarrow> distinct (map br_identifier records)"

section \<open>All reports\<close>

type_synonym rank = "int \<times> int \<times> int \<times> int \<times> int \<times> int"

record 'r boundary_tally =
  bt_selected :: "(rank \<times> 'r) list"
  bt_process_count :: int
  bt_dropped :: int
  bt_callback_errors :: int
  bt_caller_errors :: int
  bt_invalid_callers :: int
  bt_ordinal :: int
  bt_missing :: bool
  bt_checkpoint :: bool
  bt_incomplete :: bool
  bt_invalid :: bool
  bt_adapters :: "pystr list"

definition empty_tally :: "'r boundary_tally" where
  "empty_tally = \<lparr>bt_selected = [], bt_process_count = 0, bt_dropped = 0, bt_callback_errors = 0, bt_caller_errors = 0,
     bt_invalid_callers = 0, bt_ordinal = 0, bt_missing = False, bt_checkpoint = False, bt_incomplete = False,
     bt_invalid = False, bt_adapters = []\<rparr>"

definition record_rank :: "bool \<Rightarrow> int \<Rightarrow> 'a boundary_record_scheme \<Rightarrow> rank" where
  "record_rank important ordinal r = (if important then 1 else 0, case br_duration_ns r of None \<Rightarrow> 0 | Some d \<Rightarrow> d,
     - br_started_at_ns r, - br_parent_pid r, - br_identifier r, ordinal)"

definition absorb_record ::
  "nat \<Rightarrow> ('a boundary_record_scheme \<Rightarrow> bool) \<Rightarrow> ('a boundary_record_scheme \<Rightarrow> bool) \<Rightarrow> 'a boundary_record_scheme \<Rightarrow>
   'a boundary_record_scheme boundary_tally \<Rightarrow> 'a boundary_record_scheme boundary_tally" where
  "absorb_record limit important incomplete r t =
     t\<lparr>bt_ordinal := bt_ordinal t + 1,
       bt_invalid_callers := bt_invalid_callers t + (if br_caller_status r = lit ''invalid'' then 1 else 0),
       bt_incomplete := bt_incomplete t \<or> incomplete r,
       bt_selected := offer limit (record_rank (important r) (bt_ordinal t + 1) r, r) (bt_selected t)\<rparr>"

text \<open>
  The counts grow one by one, so a sum out of range leaves the ones before it in place; the report is
  then invalid and its records are not looked at. (The messages of these errors never leave the loop, so
  the three sums share the label of the first.)
\<close>

definition absorb_report ::
  "nat \<Rightarrow> ('a boundary_record_scheme \<Rightarrow> bool) \<Rightarrow> ('a boundary_record_scheme \<Rightarrow> bool) \<Rightarrow> string \<Rightarrow> attrs \<Rightarrow>
   'a boundary_record_scheme document_evidence \<Rightarrow> 'a boundary_record_scheme boundary_tally \<Rightarrow>
   'a boundary_record_scheme boundary_tally" where
  "absorb_report limit important incomplete label document e t0 =
     (let t1 = t0\<lparr>bt_adapters := bt_adapters t0 @ filter (\<lambda>a. a \<notin> set (bt_adapters t0)) (de_adapters e),
                  bt_process_count := bt_process_count t0 + 1\<rparr>
      in case bounded_sum (bt_dropped t1) (de_dropped e) label of Inl _ \<Rightarrow> t1\<lparr>bt_invalid := True\<rparr> | Inr dropped \<Rightarrow>
     (let t2 = t1\<lparr>bt_dropped := dropped\<rparr>
      in case bounded_sum (bt_callback_errors t2) (de_callback_errors e) label of Inl _ \<Rightarrow> t2\<lparr>bt_invalid := True\<rparr> | Inr errors \<Rightarrow>
     (let t3 = t2\<lparr>bt_callback_errors := errors\<rparr>
      in case bounded_sum (bt_caller_errors t3) (de_caller_errors e) label of Inl _ \<Rightarrow> t3\<lparr>bt_invalid := True\<rparr> | Inr errors \<Rightarrow>
     (let t4 = t3\<lparr>bt_caller_errors := errors, bt_checkpoint := bt_checkpoint t3 \<or> is_checkpoint document\<rparr>
      in fold (absorb_record limit important incomplete) (de_records e) t4))))"

definition absorb_document ::
  "(attrs \<Rightarrow> json \<Rightarrow> 'a boundary_record_scheme reading res) \<Rightarrow> nat \<Rightarrow> ('a boundary_record_scheme \<Rightarrow> bool) \<Rightarrow>
   ('a boundary_record_scheme \<Rightarrow> bool) \<Rightarrow> string \<Rightarrow> attrs \<Rightarrow> 'a boundary_record_scheme boundary_tally \<Rightarrow>
   'a boundary_record_scheme boundary_tally" where
  "absorb_document reader limit important incomplete label document t =
     (if jget document ''semantic_capture'' = JNull then t\<lparr>bt_missing := True\<rparr>
      else case reader document (jget document ''semantic_capture'') of
        Inl _ \<Rightarrow> t\<lparr>bt_invalid := True\<rparr>
      | Inr Missing \<Rightarrow> t\<lparr>bt_missing := True\<rparr>
      | Inr Disabled \<Rightarrow> t
      | Inr (Found e) \<Rightarrow> absorb_report limit important incomplete label document e t)"

text \<open>A payload that is no JSON object raises out of the loop.\<close>

fun absorb_payloads :: "(attrs \<Rightarrow> 't \<Rightarrow> 't) \<Rightarrow> payload list \<Rightarrow> 't \<Rightarrow> 't res" where
  "absorb_payloads step [] t = Inr t"
| "absorb_payloads step (p # ps) t = rbind (parse_document p) (\<lambda>document. absorb_payloads step ps (step document t))"

section \<open>The evidence of a kind\<close>

record boundary_capture =
  bc_events :: "event list"
  bc_caller_events :: "event list"
  bc_caller_edges :: "causal_edge list"
  bc_status :: pystr
  bc_process_count :: int
  bc_dropped :: int
  bc_callback_errors :: int
  bc_caller_status :: pystr
  bc_attributed :: int
  bc_unattributed :: int
  bc_invalid_callers :: int
  bc_caller_errors :: int
  bc_adapters :: "pystr list"

definition no_capture :: "string \<Rightarrow> int \<Rightarrow> int \<Rightarrow> int \<Rightarrow> boundary_capture" where
  "no_capture status processes invalid_callers caller_errors =
     \<lparr>bc_events = [], bc_caller_events = [], bc_caller_edges = [], bc_status = lit status, bc_process_count = processes,
      bc_dropped = 0, bc_callback_errors = 0, bc_caller_status = lit status, bc_attributed = 0, bc_unattributed = 0,
      bc_invalid_callers = invalid_callers, bc_caller_errors = caller_errors, bc_adapters = []\<rparr>"

definition record_key :: "'a boundary_record_scheme \<Rightarrow> int \<times> int \<times> int" where
  "record_key r = (br_started_at_ns r, br_parent_pid r, br_identifier r)"

definition selected_records :: "'a boundary_record_scheme boundary_tally \<Rightarrow> 'a boundary_record_scheme list" where
  "selected_records t = sort_key record_key (map snd (bt_selected t))"

text \<open>
  What distinguishes one kind from another. \<open>ck_keeps_invalid\<close> says which counts an invalid capture still
  reports: the callers that did not read, and the errors of the caller callbacks.
\<close>

record 'r capture_kind =
  ck_reader :: "attrs \<Rightarrow> json \<Rightarrow> 'r reading res"
  ck_limit :: nat
  ck_important :: "'r \<Rightarrow> bool"
  ck_incomplete :: "'r \<Rightarrow> bool"
  ck_label :: string
  ck_contract :: caller_event_contract
  ck_event_id :: "'r \<Rightarrow> pystr"
  ck_relation :: "'r \<Rightarrow> pystr"
  ck_event :: "pystr \<Rightarrow> int option \<Rightarrow> 'r \<Rightarrow> event"
  ck_keeps_invalid :: "bool \<times> bool"

definition tally_of ::
  "'a boundary_record_scheme capture_kind \<Rightarrow> payload list \<Rightarrow> 'a boundary_record_scheme boundary_tally res" where
  "tally_of k payloads =
     absorb_payloads (absorb_document (ck_reader k) (ck_limit k) (ck_important k) (ck_incomplete k) (ck_label k)) payloads empty_tally"

definition capture_of_tally ::
  "(pystr \<Rightarrow> pystr) \<Rightarrow> 'a boundary_record_scheme capture_kind \<Rightarrow> pystr \<Rightarrow> int option \<Rightarrow>
   'a boundary_record_scheme boundary_tally \<Rightarrow> boundary_capture res" where
  "capture_of_tally digest k entity root_pid t =
     (if bt_invalid t then
        Inr (no_capture ''invalid'' (bt_process_count t) (if fst (ck_keeps_invalid k) then bt_invalid_callers t else 0)
          (if snd (ck_keeps_invalid k) then bt_caller_errors t else 0))
      else if bt_process_count t = 0 then Inr (no_capture ''unavailable'' 0 0 0)
      else let records = selected_records t in
     rbind (bounded_sum (bt_dropped t) (bt_ordinal t - int (length records)) (ck_label k)) (\<lambda>dropped.
     (case caller_evidence digest (ck_contract k) entity (ck_event_id k) (ck_relation k) records of
        (caller_events, edges, attributed_count, unattributed_count) \<Rightarrow>
      Inr \<lparr>bc_events = map (ck_event k entity root_pid) records, bc_caller_events = caller_events, bc_caller_edges = edges,
        bc_status = retained_capture_status (bt_missing t \<or> bt_checkpoint t \<or> bt_incomplete t) dropped (bt_callback_errors t),
        bc_process_count = bt_process_count t, bc_dropped = dropped, bc_callback_errors = bt_callback_errors t,
        bc_caller_status = caller_capture_status (bt_invalid_callers t) (bt_missing t \<or> bt_checkpoint t)
          unattributed_count (bt_caller_errors t) dropped,
        bc_attributed = attributed_count, bc_unattributed = unattributed_count,
        bc_invalid_callers = bt_invalid_callers t, bc_caller_errors = bt_caller_errors t,
        bc_adapters = sort (bt_adapters t)\<rparr>)))"

definition capture_evidence ::
  "(pystr \<Rightarrow> pystr) \<Rightarrow> 'a boundary_record_scheme capture_kind \<Rightarrow> pystr \<Rightarrow> int option \<Rightarrow> payload list \<Rightarrow> boundary_capture res" where
  "capture_evidence digest k entity root_pid payloads = rbind (tally_of k payloads) (capture_of_tally digest k entity root_pid)"

end
