(* ===== verification/BoundaryRecords.thy ===== *)
theory BoundaryRecords
  imports BoundaryEvidence
begin

text \<open>
  The five kinds of boundary a report describes: \<open>deep_profile/_parsing.py\<close> (subprocesses),
  \<open>_subprocess.py\<close>, \<open>_http.py\<close>, \<open>_network.py\<close> (connections and setup phases) and \<open>_logical.py\<close>. For each its record,
  the checks on a raw record and on the section of a report, the event it becomes, and its evidence as
  an instance of \<open>capture_evidence\<close>.
\<close>

section \<open>Fields that every record has\<close>

definition record_pid :: "attrs \<Rightarrow> string \<Rightarrow> string \<Rightarrow> int \<Rightarrow> int res" where
  "record_pid item label message document_pid =
     rbind (doc_integer (jget item ''parent_pid'') label) (\<lambda>pid.
     rbind (deep_unless (0 < pid \<and> pid = document_pid) message) (\<lambda>_. Inr pid))"

definition record_start :: "attrs \<Rightarrow> string \<Rightarrow> int res" where
  "record_start item label =
     rbind (doc_integer (jget item ''started_at_ns'') label) (\<lambda>start.
     rbind (deep_unless (0 < start) (label @ '' must be positive'')) (\<lambda>_. Inr start))"

definition max_executable_characters :: nat where
  "max_executable_characters = 256"

definition record_error_type :: "attrs \<Rightarrow> string \<Rightarrow> string \<Rightarrow> pystr option res" where
  "record_error_type item label message =
     rbind (doc_optional_text (jget item ''error_type'') label) (\<lambda>error.
     rbind (deep_unless (case error of None \<Rightarrow> True | Some e \<Rightarrow> length e \<le> max_executable_characters) message) (\<lambda>_.
     Inr error))"

definition record_finish :: "int \<Rightarrow> int option \<Rightarrow> string \<Rightarrow> unit res" where
  "record_finish start duration label =
     (case duration of None \<Rightarrow> Inr () | Some d \<Rightarrow> rbind (bounded_sum start d label) (\<lambda>_. Inr ()))"

definition record_port :: "attrs \<Rightarrow> string \<Rightarrow> int option res" where
  "record_port item label =
     rbind (doc_optional_nonnegative_integer (jget item ''server_port'') label) (\<lambda>port.
     rbind (deep_unless (case port of None \<Rightarrow> True | Some p \<Rightarrow> 0 < p \<and> p \<le> 65535) (label @ '' is invalid'')) (\<lambda>_.
     Inr port))"

definition server_redacted :: "attrs \<Rightarrow> bool" where
  "server_redacted item \<longleftrightarrow> jget item ''server_address'' = JNull \<and> jget item ''server_identity_policy'' = jtext ''redact''"

text \<open>What an event says of its record besides the fields of its kind.\<close>

definition seconds_of :: "int \<Rightarrow> pyfloat" where
  "seconds_of n = rnd (of_int n / 1000000000)"

definition caller_attribute :: "(pystr \<Rightarrow> pystr) \<Rightarrow> caller_event_contract \<Rightarrow> 'a boundary_record_scheme \<Rightarrow> attrs" where
  "caller_attribute digest c r = (case br_caller r of None \<Rightarrow> []
     | Some caller \<Rightarrow> [(lit ''caller_event_id'', JStr (caller_event_id digest c (rc_identity caller)))])"

definition duration_attribute :: "'a boundary_record_scheme \<Rightarrow> attrs" where
  "duration_attribute r = (case br_duration_ns r of None \<Rightarrow> [] | Some d \<Rightarrow> [(lit ''duration_seconds'', JFloat (seconds_of d))])"

definition error_attributes :: "pystr option \<Rightarrow> attrs" where
  "error_attributes error = (case error of None \<Rightarrow> []
     | Some e \<Rightarrow> [(lit ''error'', JBool True), (lit ''error.type'', JStr e)])"

definition optional_int :: "string \<Rightarrow> int option \<Rightarrow> attrs" where
  "optional_int k v = (case v of None \<Rightarrow> [] | Some n \<Rightarrow> [(lit k, JInt n)])"

definition false_attributes :: "string list \<Rightarrow> attrs" where
  "false_attributes ks = map (\<lambda>k. (lit k, JBool False)) ks"

definition record_event_id :: "string \<Rightarrow> 'a boundary_record_scheme \<Rightarrow> pystr" where
  "record_event_id namespace r = lit namespace @ lit '':'' @ int_text (br_parent_pid r) @ lit '':'' @ int_text (br_identifier r)"

definition record_event :: "pystr \<Rightarrow> pystr \<Rightarrow> pystr \<Rightarrow> pystr \<Rightarrow> attrs \<Rightarrow> 'a boundary_record_scheme \<Rightarrow> event" where
  "record_event i kind name entity attributes r =
     \<lparr>ev_id = i, ev_kind = kind, ev_name = name, ev_entity_id = Some entity, ev_started_at_ns = Some (br_started_at_ns r),
      ev_finished_at_ns = (case br_duration_ns r of None \<Rightarrow> None | Some d \<Rightarrow> Some (br_started_at_ns r + d)),
      ev_clock_domain = Some (lit ''host.wall''), ev_uncertainty_ns = None, ev_sequence = None, ev_attributes = attributes\<rparr>"

definition json_of_optional :: "('a \<Rightarrow> json) \<Rightarrow> 'a option \<Rightarrow> json" where
  "json_of_optional f v = (case v of None \<Rightarrow> JNull | Some x \<Rightarrow> f x)"

text \<open>The counts of a section, checked against its records.\<close>

definition per_process_limit :: int where
  "per_process_limit = 256"

definition boundary_events_limit :: nat where
  "boundary_events_limit = 2000"

definition check_limit :: "attrs \<Rightarrow> string \<Rightarrow> string \<Rightarrow> unit res" where
  "check_limit semantic k label =
     rbind (doc_object (jget semantic ''limits'') ''semantic capture limits'') (\<lambda>limits.
     rbind (doc_integer (jget limits k) label) (\<lambda>n. deep_unless (n = per_process_limit) (label @ '' is unsupported'')))"

definition check_count :: "json list \<Rightarrow> int \<Rightarrow> string \<Rightarrow> unit res" where
  "check_count records declared message =
     deep_unless (declared = int (length records) \<and> int (length records) \<le> per_process_limit) message"

definition supported_format :: "attrs \<Rightarrow> bool" where
  "supported_format semantic \<longleftrightarrow> equals_int 2 (jget semantic ''format_version'') \<and>
     jget semantic ''observer'' = jtext ''python-runtime-boundary-wrapper''"

definition read_registration :: "attrs \<Rightarrow> json list \<Rightarrow> int \<Rightarrow> int \<Rightarrow> int \<Rightarrow> string \<Rightarrow> unit res" where
  "read_registration document records dropped callback_errors caller_errors message =
     rbind (doc_boolean (jget_or document ''registration_only'' (JBool False)) ''semantic capture registration marker'') (\<lambda>b.
     deep_unless (\<not> (b \<and> registration_contains records dropped callback_errors caller_errors)) message)"

section \<open>Subprocesses\<close>

record subprocess_record = boundary_record +
  sr_name :: pystr
  sr_child_pid :: "int option"
  sr_shell :: "bool option"
  sr_exit_code :: "int option"

definition subprocess_record :: "int \<Rightarrow> json \<Rightarrow> subprocess_record res" where
  "subprocess_record document_pid j =
     rbind (doc_object j ''semantic subprocess record'') (\<lambda>item.
     rbind (doc_integer (jget item ''id'') ''semantic subprocess id'') (\<lambda>identifier.
     rbind (doc_text (jget item ''name'') ''semantic subprocess executable'') (\<lambda>name.
     rbind (deep_unless (length name \<le> max_executable_characters) ''semantic subprocess executable exceeds its character limit'') (\<lambda>_.
     rbind (record_pid item ''semantic subprocess parent process id'' ''semantic subprocess parent process id is inconsistent'' document_pid) (\<lambda>pid.
     rbind (doc_optional_nonnegative_integer (jget item ''child_pid'') ''semantic subprocess child process id'') (\<lambda>child.
     rbind (deep_unless (case child of None \<Rightarrow> True | Some p \<Rightarrow> 0 < p) ''semantic subprocess child process id must be positive'') (\<lambda>_.
     rbind (doc_optional_boolean (jget item ''shell'') ''semantic subprocess shell marker'') (\<lambda>shell.
     rbind (record_start item ''semantic subprocess start'') (\<lambda>start.
     rbind (doc_optional_nonnegative_integer (jget item ''duration_ns'') ''semantic subprocess duration'') (\<lambda>duration.
     rbind (doc_optional_signed_integer (jget item ''exit_code'') ''semantic subprocess exit code'') (\<lambda>exit_code.
     rbind (doc_literal (jget item ''outcome'') [''exited'', ''launch_error'', ''unknown''] ''semantic subprocess outcome is unsupported'') (\<lambda>outcome.
     rbind (record_error_type item ''semantic subprocess launch error type'' ''semantic subprocess launch error type exceeds its character limit'') (\<lambda>error.
     rbind (deep_unless (\<not> (outcome = lit ''exited'' \<and> (child = None \<or> duration = None \<or> exit_code = None \<or> error \<noteq> None)))
       ''exited semantic subprocess evidence is incomplete'') (\<lambda>_.
     rbind (deep_unless (\<not> (outcome = lit ''launch_error'' \<and> (child \<noteq> None \<or> duration = None \<or> exit_code \<noteq> None \<or> error = None)))
       ''failed semantic subprocess launch evidence is inconsistent'') (\<lambda>_.
     rbind (deep_unless (\<not> (outcome = lit ''unknown'' \<and> (child = None \<or> duration \<noteq> None \<or> exit_code \<noteq> None \<or> error \<noteq> None)))
       ''unfinished semantic subprocess evidence is inconsistent'') (\<lambda>_.
     rbind (record_finish start duration ''semantic subprocess finish'') (\<lambda>_.
     Inr \<lparr>br_identifier = identifier, br_parent_pid = pid, br_started_at_ns = start, br_duration_ns = duration,
       br_outcome = outcome, br_error_type = error, br_caller = fst (record_caller_of item),
       br_caller_status = snd (record_caller_of item), sr_name = name, sr_child_pid = child, sr_shell = shell,
       sr_exit_code = exit_code\<rparr>)))))))))))))))))"

definition subprocess_caller_contract :: caller_event_contract where
  "subprocess_caller_contract = \<lparr>cc_namespace = lit ''semantic:caller'', cc_source = lit ''python-subprocess-wrapper'',
     cc_count_attribute = ''subprocess_count'', cc_relation = lit ''launches''\<rparr>"

definition subprocess_event :: "(pystr \<Rightarrow> pystr) \<Rightarrow> pystr \<Rightarrow> int option \<Rightarrow> subprocess_record \<Rightarrow> event" where
  "subprocess_event digest entity root_pid r = record_event (record_event_id ''semantic:subprocess'' r)
     (lit ''subprocess.run'') (sr_name r) entity
     ([(lit ''source'', jtext ''python-subprocess-wrapper''), (lit ''parent_pid'', JInt (br_parent_pid r)),
       (lit ''role'', JStr (process_role_of (br_parent_pid r) root_pid)), (lit ''shell'', json_of_optional JBool (sr_shell r)),
       (lit ''outcome'', JStr (br_outcome r)), (lit ''arguments_captured'', JBool False)] @
      caller_attribute digest subprocess_caller_contract r @ optional_int ''child_pid'' (sr_child_pid r) @
      optional_int ''exit_code'' (sr_exit_code r) @ duration_attribute r @
      error_attributes (case br_error_type r of Some e \<Rightarrow> Some e
        | None \<Rightarrow> (case sr_exit_code r of None \<Rightarrow> None | Some n \<Rightarrow> if n \<noteq> 0 then Some (lit ''subprocess_exit'') else None))) r"

definition read_subprocesses :: "attrs \<Rightarrow> json \<Rightarrow> subprocess_record reading res" where
  "read_subprocesses document j =
     rbind (doc_object j ''semantic capture'') (\<lambda>semantic.
     rbind (deep_unless (equals_int 2 (jget semantic ''format_version'')) ''semantic capture format version is unsupported'') (\<lambda>_.
     rbind (deep_unless (jget semantic ''observer'' = jtext ''python-runtime-boundary-wrapper'') ''semantic capture observer is unsupported'') (\<lambda>_.
     rbind (check_limit semantic ''max_subprocesses'' ''semantic capture subprocess limit'') (\<lambda>_.
     rbind (doc_integer (jget document ''pid'') ''semantic capture process id'') (\<lambda>pid.
     rbind (doc_list (jget semantic ''subprocesses'') ''semantic subprocesses'') (\<lambda>raw.
     rbind (doc_integer (jget semantic ''subprocess_count'') ''semantic capture subprocess count'') (\<lambda>declared.
     rbind (check_count raw declared ''semantic capture subprocess count is inconsistent'') (\<lambda>_.
     rbind (doc_integer (jget semantic ''dropped_subprocess_count'') ''semantic capture dropped subprocess count'') (\<lambda>dropped.
     rbind (doc_integer (jget semantic ''callback_error_count'') ''semantic capture callback error count'') (\<lambda>callback_errors.
     rbind (doc_integer (jget semantic ''caller_callback_error_count'') ''semantic caller callback error count'') (\<lambda>caller_errors.
     rbind (read_registration document raw dropped callback_errors caller_errors ''semantic capture registration contains evidence'') (\<lambda>_.
     rbind (traverse (subprocess_record pid) raw) (\<lambda>records.
     rbind (deep_unless (distinct_ids records) ''semantic subprocess ids must be unique per process'') (\<lambda>_.
     Inr (Found \<lparr>de_dropped = dropped, de_callback_errors = callback_errors, de_caller_errors = caller_errors,
       de_records = records, de_adapters = []\<rparr>)))))))))))))))"

definition subprocess_kind :: "(pystr \<Rightarrow> pystr) \<Rightarrow> subprocess_record capture_kind" where
  "subprocess_kind digest = \<lparr>ck_reader = read_subprocesses, ck_limit = boundary_events_limit,
     ck_important = (\<lambda>r. br_outcome r \<noteq> lit ''exited'' \<or> (case sr_exit_code r of None \<Rightarrow> False | Some n \<Rightarrow> n \<noteq> 0)),
     ck_incomplete = (\<lambda>r. br_outcome r = lit ''unknown'' \<or> sr_shell r = None \<or> sr_name r \<in> {lit ''<command>'', lit ''<unknown>''}),
     ck_label = ''semantic capture dropped subprocess count'', ck_contract = subprocess_caller_contract,
     ck_event_id = record_event_id ''semantic:subprocess'', ck_relation = (\<lambda>r. lit ''launches''),
     ck_event = subprocess_event digest, ck_keeps_invalid = (True, True)\<rparr>"

definition semantic_capture_evidence :: "(pystr \<Rightarrow> pystr) \<Rightarrow> pystr \<Rightarrow> int option \<Rightarrow> payload list \<Rightarrow> boundary_capture res" where
  "semantic_capture_evidence digest = capture_evidence digest (subprocess_kind digest)"

section \<open>HTTP requests\<close>

record request_record = boundary_record +
  rq_method :: pystr
  rq_scheme :: pystr
  rq_server_port :: "int option"
  rq_status_code :: "int option"
  rq_adapter :: pystr

definition boundary_http_adapters :: "string list" where
  "boundary_http_adapters = [''stdlib.http.client'', ''httpcore.sync'', ''httpcore.async'', ''aiohttp.async'']"

definition raw_method_ok :: "pystr \<Rightarrow> bool" where
  "raw_method_ok m \<longleftrightarrow> length m \<le> 32 \<and> (m = lit ''<method>'' \<or>
     list_all (\<lambda>c. c \<in> set (lit ''ABCDEFGHIJKLMNOPQRSTUVWXYZ-'')) m)"

definition http_request_record :: "int \<Rightarrow> json \<Rightarrow> request_record res" where
  "http_request_record document_pid j =
     rbind (doc_object j ''semantic HTTP request record'') (\<lambda>item.
     rbind (doc_integer (jget item ''id'') ''semantic HTTP request id'') (\<lambda>identifier.
     rbind (doc_text (jget item ''method'') ''semantic HTTP method'') (\<lambda>m.
     rbind (deep_unless (raw_method_ok m) ''semantic HTTP method is unsupported'') (\<lambda>_.
     rbind (doc_literal (jget item ''scheme'') [''http'', ''https''] ''semantic HTTP scheme is unsupported'') (\<lambda>scheme.
     rbind (deep_unless (server_redacted item) ''semantic HTTP server identity is not redacted'') (\<lambda>_.
     rbind (doc_literal (jget_or item ''adapter'' (jtext ''stdlib.http.client'')) boundary_http_adapters ''semantic HTTP adapter is unsupported'') (\<lambda>adapter.
     rbind (record_port item ''semantic HTTP server port'') (\<lambda>port.
     rbind (record_pid item ''semantic HTTP parent process id'' ''semantic HTTP parent process id is inconsistent'' document_pid) (\<lambda>pid.
     rbind (record_start item ''semantic HTTP request start'') (\<lambda>start.
     rbind (doc_optional_nonnegative_integer (jget item ''duration_ns'') ''semantic HTTP request duration'') (\<lambda>duration.
     rbind (doc_optional_nonnegative_integer (jget item ''status_code'') ''semantic HTTP response status'') (\<lambda>status.
     rbind (deep_unless (case status of None \<Rightarrow> True | Some n \<Rightarrow> 100 \<le> n \<and> n \<le> 999) ''semantic HTTP response status is invalid'') (\<lambda>_.
     rbind (doc_literal (jget item ''outcome'') [''response'', ''request_error'', ''closed'', ''unknown'']
       ''semantic HTTP request outcome is unsupported'') (\<lambda>outcome.
     rbind (record_error_type item ''semantic HTTP request error type'' ''semantic HTTP request error type exceeds its character limit'') (\<lambda>error.
     rbind (deep_unless (\<not> (outcome = lit ''response'' \<and> (duration = None \<or> error \<noteq> None)))
       ''semantic HTTP response evidence is inconsistent'') (\<lambda>_.
     rbind (deep_unless (\<not> (outcome = lit ''request_error'' \<and> (duration = None \<or> status \<noteq> None \<or> error = None)))
       ''failed semantic HTTP request evidence is inconsistent'') (\<lambda>_.
     rbind (deep_unless (\<not> (outcome = lit ''closed'' \<and> (duration = None \<or> status \<noteq> None \<or> error \<noteq> None)))
       ''closed semantic HTTP request evidence is inconsistent'') (\<lambda>_.
     rbind (deep_unless (\<not> (outcome = lit ''unknown'' \<and> (duration \<noteq> None \<or> status \<noteq> None \<or> error \<noteq> None)))
       ''unfinished semantic HTTP request evidence is inconsistent'') (\<lambda>_.
     rbind (record_finish start duration ''semantic HTTP request finish'') (\<lambda>_.
     Inr \<lparr>br_identifier = identifier, br_parent_pid = pid, br_started_at_ns = start, br_duration_ns = duration,
       br_outcome = outcome, br_error_type = error, br_caller = fst (record_caller_of item),
       br_caller_status = snd (record_caller_of item), rq_method = m, rq_scheme = scheme, rq_server_port = port,
       rq_status_code = status, rq_adapter = adapter\<rparr>))))))))))))))))))))"

definition http_caller_contract :: caller_event_contract where
  "http_caller_contract = \<lparr>cc_namespace = lit ''semantic:http-caller'', cc_source = lit ''python-http-client-wrapper'',
     cc_count_attribute = ''http_request_count'', cc_relation = lit ''requests''\<rparr>"

definition http_request_event :: "(pystr \<Rightarrow> pystr) \<Rightarrow> pystr \<Rightarrow> int option \<Rightarrow> request_record \<Rightarrow> event" where
  "http_request_event digest entity root_pid r = record_event (record_event_id ''semantic:http'' r)
     (lit ''http.client.request'') (lit ''HTTP '' @ rq_method r) entity
     ([(lit ''source'', jtext ''python-http-client-wrapper''), (lit ''adapter'', JStr (rq_adapter r)),
       (lit ''method'', JStr (rq_method r)), (lit ''scheme'', JStr (rq_scheme r)), (lit ''server_address'', JNull),
       (lit ''server_port'', json_of_optional JInt (rq_server_port r)), (lit ''server_identity_policy'', jtext ''redact''),
       (lit ''parent_pid'', JInt (br_parent_pid r)), (lit ''role'', JStr (process_role_of (br_parent_pid r) root_pid)),
       (lit ''outcome'', JStr (br_outcome r))] @
      false_attributes [''headers_captured'', ''body_captured'', ''path_captured'', ''query_captured'', ''response_body_captured''] @
      [(lit ''duration_boundary'', jtext ''response_headers'')] @
      caller_attribute digest http_caller_contract r @ optional_int ''status_code'' (rq_status_code r) @
      duration_attribute r @ error_attributes (br_error_type r)) r"

definition read_http_requests :: "attrs \<Rightarrow> json \<Rightarrow> request_record reading res" where
  "read_http_requests document j =
     rbind (doc_object j ''semantic capture'') (\<lambda>semantic.
     if equals_int 1 (jget semantic ''format_version'') then Inr Missing
     else rbind (deep_unless (supported_format semantic) ''semantic HTTP capture format is unsupported'') (\<lambda>_.
     rbind (check_limit semantic ''max_http_requests'' ''semantic HTTP request limit'') (\<lambda>_.
     rbind (deep_unless (jget semantic ''server_identity_policy'' = jtext ''redact'') ''semantic HTTP server identity policy is unsupported'') (\<lambda>_.
     rbind (doc_list (jget_or semantic ''http_adapters'' (JList [jtext ''stdlib.http.client''])) ''semantic HTTP adapters'') (\<lambda>raw_adapters.
     rbind (read_adapters boundary_http_adapters ''semantic HTTP adapter'' [] raw_adapters) (\<lambda>adapters.
     rbind (deep_unless (lit ''stdlib.http.client'' \<in> set adapters) ''semantic HTTP standard-library adapter is missing'') (\<lambda>_.
     rbind (doc_integer (jget document ''pid'') ''semantic HTTP capture process id'') (\<lambda>pid.
     rbind (doc_list (jget semantic ''http_requests'') ''semantic HTTP requests'') (\<lambda>raw.
     rbind (doc_integer (jget semantic ''http_request_count'') ''semantic HTTP request count'') (\<lambda>declared.
     rbind (check_count raw declared ''semantic HTTP request count is inconsistent'') (\<lambda>_.
     rbind (doc_integer (jget semantic ''dropped_http_request_count'') ''semantic dropped HTTP request count'') (\<lambda>dropped.
     rbind (doc_integer (jget semantic ''http_callback_error_count'') ''semantic HTTP callback error count'') (\<lambda>callback_errors.
     rbind (doc_integer (jget semantic ''http_caller_callback_error_count'') ''semantic HTTP caller callback error count'') (\<lambda>caller_errors.
     rbind (read_registration document raw dropped callback_errors caller_errors ''semantic HTTP registration contains evidence'') (\<lambda>_.
     rbind (traverse (http_request_record pid) raw) (\<lambda>records.
     rbind (deep_unless (list_all (\<lambda>r. rq_adapter r \<in> set adapters) records) ''semantic HTTP request adapter was not active'') (\<lambda>_.
     rbind (deep_unless (distinct_ids records) ''semantic HTTP ids must be unique per process'') (\<lambda>_.
     Inr (Found \<lparr>de_dropped = dropped, de_callback_errors = callback_errors, de_caller_errors = caller_errors,
       de_records = records, de_adapters = adapters\<rparr>)))))))))))))))))))"

definition http_kind :: "(pystr \<Rightarrow> pystr) \<Rightarrow> request_record capture_kind" where
  "http_kind digest = \<lparr>ck_reader = read_http_requests, ck_limit = boundary_events_limit,
     ck_important = (\<lambda>r. br_outcome r \<noteq> lit ''response'' \<or> (case rq_status_code r of None \<Rightarrow> False | Some n \<Rightarrow> 500 \<le> n)),
     ck_incomplete = (\<lambda>r. br_outcome r \<in> {lit ''closed'', lit ''unknown''} \<or> rq_method r = lit ''<method>'' \<or>
       (br_outcome r = lit ''response'' \<and> rq_status_code r = None)),
     ck_label = ''semantic dropped HTTP request count'', ck_contract = http_caller_contract,
     ck_event_id = record_event_id ''semantic:http'', ck_relation = (\<lambda>r. lit ''requests''),
     ck_event = http_request_event digest, ck_keeps_invalid = (True, False)\<rparr>"

definition http_capture_evidence :: "(pystr \<Rightarrow> pystr) \<Rightarrow> pystr \<Rightarrow> int option \<Rightarrow> payload list \<Rightarrow> boundary_capture res" where
  "http_capture_evidence digest = capture_evidence digest (http_kind digest)"

section \<open>Network connections\<close>

record connection_record = boundary_record +
  nr_adapter :: pystr
  nr_transport :: pystr
  nr_address_family :: pystr
  nr_server_port :: "int option"
  nr_tls_requested :: "bool option"

definition boundary_network_adapters :: "string list" where
  "boundary_network_adapters = [''stdlib.socket.connect'', ''asyncio.create_connection'', ''asyncio.create_unix_connection'']"

definition network_connection_record :: "int \<Rightarrow> json \<Rightarrow> connection_record res" where
  "network_connection_record document_pid j =
     rbind (doc_object j ''semantic network connection record'') (\<lambda>item.
     rbind (doc_integer (jget item ''id'') ''semantic network connection id'') (\<lambda>identifier.
     rbind (doc_text (jget item ''adapter'') ''semantic network adapter'') (\<lambda>adapter.
     rbind (deep_unless (adapter \<in> set (map lit boundary_network_adapters)) ''semantic network adapter is unsupported'') (\<lambda>_.
     rbind (doc_literal (jget item ''transport'') [''tcp'', ''unix''] ''semantic network transport is unsupported'') (\<lambda>transport.
     rbind (doc_literal (jget item ''address_family'') [''ipv4'', ''ipv6'', ''unix'', ''unknown'']
       ''semantic network address family is unsupported'') (\<lambda>family.
     rbind (deep_unless ((transport = lit ''unix'') = (family = lit ''unix''))
       ''semantic network transport and address family are inconsistent'') (\<lambda>_.
     rbind (deep_unless (server_redacted item) ''semantic network server identity is not redacted'') (\<lambda>_.
     rbind (record_port item ''semantic network server port'') (\<lambda>port.
     rbind (deep_unless (\<not> (transport = lit ''unix'' \<and> port \<noteq> None)) ''semantic Unix connection cannot contain a server port'') (\<lambda>_.
     rbind (doc_optional_boolean (jget item ''tls_requested'') ''semantic network TLS marker'') (\<lambda>tls.
     rbind (record_pid item ''semantic network parent process id'' ''semantic network parent process id is inconsistent'' document_pid) (\<lambda>pid.
     rbind (record_start item ''semantic network connection start'') (\<lambda>start.
     rbind (doc_optional_nonnegative_integer (jget item ''duration_ns'') ''semantic network connection duration'') (\<lambda>duration.
     rbind (doc_literal (jget item ''outcome'') [''connected'', ''connect_error'', ''unknown'']
       ''semantic network connection outcome is unsupported'') (\<lambda>outcome.
     rbind (record_error_type item ''semantic network connection error type'' ''semantic network error type exceeds its character limit'') (\<lambda>error.
     rbind (deep_unless (\<not> (outcome = lit ''connected'' \<and> (duration = None \<or> error \<noteq> None)))
       ''successful semantic network evidence is inconsistent'') (\<lambda>_.
     rbind (deep_unless (\<not> (outcome = lit ''connect_error'' \<and> (duration = None \<or> error = None)))
       ''failed semantic network evidence is inconsistent'') (\<lambda>_.
     rbind (deep_unless (\<not> (outcome = lit ''unknown'' \<and> (duration \<noteq> None \<or> error \<noteq> None)))
       ''unfinished semantic network evidence is inconsistent'') (\<lambda>_.
     rbind (record_finish start duration ''semantic network connection finish'') (\<lambda>_.
     Inr \<lparr>br_identifier = identifier, br_parent_pid = pid, br_started_at_ns = start, br_duration_ns = duration,
       br_outcome = outcome, br_error_type = error, br_caller = fst (record_caller_of item),
       br_caller_status = snd (record_caller_of item), nr_adapter = adapter, nr_transport = transport,
       nr_address_family = family, nr_server_port = port, nr_tls_requested = tls\<rparr>))))))))))))))))))))"

definition network_caller_contract :: caller_event_contract where
  "network_caller_contract = \<lparr>cc_namespace = lit ''semantic:network-caller'', cc_source = lit ''python-network-connection-wrapper'',
     cc_count_attribute = ''network_connection_count'', cc_relation = lit ''connects''\<rparr>"

definition network_connection_event :: "(pystr \<Rightarrow> pystr) \<Rightarrow> pystr \<Rightarrow> int option \<Rightarrow> connection_record \<Rightarrow> event" where
  "network_connection_event digest entity root_pid r = record_event (record_event_id ''semantic:network'' r)
     (lit ''network.connect'') ((if nr_transport r = lit ''tcp'' then lit ''TCP'' else lit ''UNIX'') @ lit '' connect'') entity
     ([(lit ''source'', jtext ''python-network-connection-wrapper''), (lit ''adapter'', JStr (nr_adapter r)),
       (lit ''transport'', JStr (nr_transport r)), (lit ''address_family'', JStr (nr_address_family r)),
       (lit ''server_address'', JNull), (lit ''server_port'', json_of_optional JInt (nr_server_port r)),
       (lit ''server_identity_policy'', jtext ''redact''), (lit ''tls_requested'', json_of_optional JBool (nr_tls_requested r)),
       (lit ''parent_pid'', JInt (br_parent_pid r)), (lit ''role'', JStr (process_role_of (br_parent_pid r) root_pid)),
       (lit ''outcome'', JStr (br_outcome r))] @
      false_attributes [''path_captured'', ''credentials_captured''] @
      [(lit ''duration_boundary'', jtext ''connection_ready'')] @
      caller_attribute digest network_caller_contract r @ duration_attribute r @ error_attributes (br_error_type r)) r"

definition read_network_connections :: "attrs \<Rightarrow> json \<Rightarrow> connection_record reading res" where
  "read_network_connections document j =
     rbind (doc_object j ''semantic capture'') (\<lambda>semantic.
     if equals_int 1 (jget semantic ''format_version'') \<or> \<not> has_field semantic ''network_connections'' then Inr Missing
     else rbind (deep_unless (supported_format semantic) ''semantic network capture format is unsupported'') (\<lambda>_.
     rbind (check_limit semantic ''max_network_connections'' ''semantic network connection limit'') (\<lambda>_.
     rbind (deep_unless (jget semantic ''server_identity_policy'' = jtext ''redact'') ''semantic network server identity policy is unsupported'') (\<lambda>_.
     rbind (doc_list (jget_or semantic ''network_adapters'' (JList [jtext ''stdlib.socket.connect''])) ''semantic network adapters'') (\<lambda>raw_adapters.
     rbind (read_adapters boundary_network_adapters ''semantic network adapter'' [] raw_adapters) (\<lambda>adapters.
     rbind (deep_unless (lit ''stdlib.socket.connect'' \<in> set adapters) ''semantic network standard-library adapter is missing'') (\<lambda>_.
     rbind (doc_integer (jget document ''pid'') ''semantic network capture process id'') (\<lambda>pid.
     rbind (doc_list (jget semantic ''network_connections'') ''semantic network connections'') (\<lambda>raw.
     rbind (doc_integer (jget semantic ''network_connection_count'') ''semantic network connection count'') (\<lambda>declared.
     rbind (check_count raw declared ''semantic network connection count is inconsistent'') (\<lambda>_.
     rbind (doc_integer (jget semantic ''dropped_network_connection_count'') ''semantic dropped network connection count'') (\<lambda>dropped.
     rbind (doc_integer (jget semantic ''network_callback_error_count'') ''semantic network callback error count'') (\<lambda>callback_errors.
     rbind (doc_integer (jget semantic ''network_caller_callback_error_count'') ''semantic network caller callback error count'') (\<lambda>caller_errors.
     rbind (read_registration document raw dropped callback_errors caller_errors ''semantic network registration contains evidence'') (\<lambda>_.
     rbind (traverse (network_connection_record pid) raw) (\<lambda>records.
     rbind (deep_unless (list_all (\<lambda>r. nr_adapter r \<in> set adapters) records) ''semantic network connection adapter was not active'') (\<lambda>_.
     rbind (deep_unless (distinct_ids records) ''semantic network ids must be unique per process'') (\<lambda>_.
     Inr (Found \<lparr>de_dropped = dropped, de_callback_errors = callback_errors, de_caller_errors = caller_errors,
       de_records = records, de_adapters = adapters\<rparr>)))))))))))))))))))"

definition network_kind :: "(pystr \<Rightarrow> pystr) \<Rightarrow> connection_record capture_kind" where
  "network_kind digest = \<lparr>ck_reader = read_network_connections, ck_limit = boundary_events_limit,
     ck_important = (\<lambda>r. br_outcome r \<noteq> lit ''connected''), ck_incomplete = (\<lambda>r. br_outcome r = lit ''unknown''),
     ck_label = ''semantic dropped network connection count'', ck_contract = network_caller_contract,
     ck_event_id = record_event_id ''semantic:network'', ck_relation = (\<lambda>r. lit ''connects''),
     ck_event = network_connection_event digest, ck_keeps_invalid = (False, False)\<rparr>"

definition network_capture_evidence :: "(pystr \<Rightarrow> pystr) \<Rightarrow> pystr \<Rightarrow> int option \<Rightarrow> payload list \<Rightarrow> boundary_capture res" where
  "network_capture_evidence digest = capture_evidence digest (network_kind digest)"

section \<open>Setup phases\<close>

record setup_record = boundary_record +
  pr_phase :: pystr
  pr_adapter :: pystr

definition boundary_setup_adapters :: "string list" where
  "boundary_setup_adapters = [''stdlib.socket.getaddrinfo'', ''stdlib.ssl.SSLObject.do_handshake'', ''stdlib.ssl.SSLSocket.do_handshake'']"

definition network_setup_record :: "int \<Rightarrow> json \<Rightarrow> setup_record res" where
  "network_setup_record document_pid j =
     rbind (doc_object j ''semantic network setup record'') (\<lambda>item.
     rbind (doc_integer (jget item ''id'') ''semantic network setup id'') (\<lambda>identifier.
     rbind (doc_literal (jget item ''phase'') [''dns'', ''tls''] ''semantic network setup phase is unsupported'') (\<lambda>phase.
     rbind (doc_text (jget item ''adapter'') ''semantic network setup adapter'') (\<lambda>adapter.
     rbind (deep_unless (adapter \<in> set (map lit boundary_setup_adapters)) ''semantic network setup adapter is unsupported'') (\<lambda>_.
     rbind (deep_unless ((phase = lit ''dns'') = (adapter = lit ''stdlib.socket.getaddrinfo''))
       ''semantic network setup phase and adapter are inconsistent'') (\<lambda>_.
     rbind (record_pid item ''semantic network setup process id'' ''semantic network setup process id is inconsistent'' document_pid) (\<lambda>pid.
     rbind (record_start item ''semantic network setup start'') (\<lambda>start.
     rbind (doc_optional_nonnegative_integer (jget item ''duration_ns'') ''semantic network setup duration'') (\<lambda>duration.
     rbind (doc_literal (jget item ''outcome'') [''completed'', ''setup_error'', ''unknown'']
       ''semantic network setup outcome is unsupported'') (\<lambda>outcome.
     rbind (record_error_type item ''semantic network setup error type'' ''semantic network setup error type exceeds its character limit'') (\<lambda>error.
     rbind (deep_unless (\<not> (outcome = lit ''completed'' \<and> (duration = None \<or> error \<noteq> None)))
       ''successful semantic network setup evidence is inconsistent'') (\<lambda>_.
     rbind (deep_unless (\<not> (outcome = lit ''setup_error'' \<and> (duration = None \<or> error = None)))
       ''failed semantic network setup evidence is inconsistent'') (\<lambda>_.
     rbind (deep_unless (\<not> (outcome = lit ''unknown'' \<and> (duration \<noteq> None \<or> error \<noteq> None)))
       ''unfinished semantic network setup evidence is inconsistent'') (\<lambda>_.
     rbind (record_finish start duration ''semantic network setup finish'') (\<lambda>_.
     Inr \<lparr>br_identifier = identifier, br_parent_pid = pid, br_started_at_ns = start, br_duration_ns = duration,
       br_outcome = outcome, br_error_type = error, br_caller = fst (record_caller_of item),
       br_caller_status = snd (record_caller_of item), pr_phase = phase, pr_adapter = adapter\<rparr>)))))))))))))))"

definition network_setup_caller_contract :: caller_event_contract where
  "network_setup_caller_contract = \<lparr>cc_namespace = lit ''semantic:network-setup-caller'', cc_source = lit ''python-network-setup-wrapper'',
     cc_count_attribute = ''network_setup_phase_count'', cc_relation = lit ''resolves''\<rparr>"

definition network_setup_event :: "(pystr \<Rightarrow> pystr) \<Rightarrow> pystr \<Rightarrow> int option \<Rightarrow> setup_record \<Rightarrow> event" where
  "network_setup_event digest entity root_pid r = record_event (record_event_id ''semantic:network-setup'' r)
     (if pr_phase r = lit ''dns'' then lit ''network.resolve'' else lit ''network.tls_handshake'')
     (if pr_phase r = lit ''dns'' then lit ''DNS resolution'' else lit ''TLS handshake'') entity
     ([(lit ''source'', jtext ''python-network-setup-wrapper''), (lit ''phase'', JStr (pr_phase r)),
       (lit ''adapter'', JStr (pr_adapter r)), (lit ''parent_pid'', JInt (br_parent_pid r)),
       (lit ''role'', JStr (process_role_of (br_parent_pid r) root_pid)), (lit ''outcome'', JStr (br_outcome r))] @
      false_attributes [''hostname_captured'', ''server_address_captured'', ''sni_captured'', ''certificate_captured'', ''credentials_captured''] @
      [(lit ''duration_boundary'', JStr (pr_phase r))] @
      caller_attribute digest network_setup_caller_contract r @ duration_attribute r @ error_attributes (br_error_type r)) r"

definition read_network_setup :: "attrs \<Rightarrow> json \<Rightarrow> setup_record reading res" where
  "read_network_setup document j =
     rbind (doc_object j ''semantic capture'') (\<lambda>semantic.
     if equals_int 1 (jget semantic ''format_version'') \<or> \<not> has_field semantic ''network_setup_phases'' then Inr Missing
     else rbind (deep_unless (supported_format semantic) ''semantic network setup capture format is unsupported'') (\<lambda>_.
     rbind (check_limit semantic ''max_network_setup_phases'' ''semantic network setup limit'') (\<lambda>_.
     rbind (doc_list (jget semantic ''network_setup_adapters'') ''semantic network setup adapters'') (\<lambda>raw_adapters.
     rbind (read_adapters boundary_setup_adapters ''semantic network setup adapter'' [] raw_adapters) (\<lambda>adapters.
     rbind (deep_unless (lit ''stdlib.socket.getaddrinfo'' \<in> set adapters) ''semantic DNS adapter is missing'') (\<lambda>_.
     rbind (doc_integer (jget document ''pid'') ''semantic network setup process id'') (\<lambda>pid.
     rbind (doc_list (jget semantic ''network_setup_phases'') ''semantic network setup phases'') (\<lambda>raw.
     rbind (doc_integer (jget semantic ''network_setup_count'') ''semantic network setup count'') (\<lambda>declared.
     rbind (check_count raw declared ''semantic network setup count is inconsistent'') (\<lambda>_.
     rbind (doc_integer (jget semantic ''dropped_network_setup_count'') ''semantic dropped network setup count'') (\<lambda>dropped.
     rbind (doc_integer (jget semantic ''network_setup_callback_error_count'') ''semantic network setup callback error count'') (\<lambda>callback_errors.
     rbind (doc_integer (jget semantic ''network_setup_caller_callback_error_count'') ''semantic network setup caller callback error count'') (\<lambda>caller_errors.
     rbind (read_registration document raw dropped callback_errors caller_errors ''semantic network setup registration contains evidence'') (\<lambda>_.
     rbind (traverse (network_setup_record pid) raw) (\<lambda>records.
     rbind (deep_unless (list_all (\<lambda>r. pr_adapter r \<in> set adapters) records) ''semantic network setup adapter was not active'') (\<lambda>_.
     rbind (deep_unless (distinct_ids records) ''semantic network setup ids must be unique per process'') (\<lambda>_.
     Inr (Found \<lparr>de_dropped = dropped, de_callback_errors = callback_errors, de_caller_errors = caller_errors,
       de_records = records, de_adapters = adapters\<rparr>))))))))))))))))))"

definition network_setup_kind :: "(pystr \<Rightarrow> pystr) \<Rightarrow> setup_record capture_kind" where
  "network_setup_kind digest = \<lparr>ck_reader = read_network_setup, ck_limit = boundary_events_limit,
     ck_important = (\<lambda>r. br_outcome r \<noteq> lit ''completed''), ck_incomplete = (\<lambda>r. br_outcome r = lit ''unknown''),
     ck_label = ''semantic dropped network setup count'', ck_contract = network_setup_caller_contract,
     ck_event_id = record_event_id ''semantic:network-setup'',
     ck_relation = (\<lambda>r. if pr_phase r = lit ''dns'' then lit ''resolves'' else lit ''handshakes''),
     ck_event = network_setup_event digest, ck_keeps_invalid = (False, False)\<rparr>"

definition network_setup_capture_evidence :: "(pystr \<Rightarrow> pystr) \<Rightarrow> pystr \<Rightarrow> int option \<Rightarrow> payload list \<Rightarrow> boundary_capture res" where
  "network_setup_capture_evidence digest = capture_evidence digest (network_setup_kind digest)"

section \<open>Logical operations\<close>

record operation_record = boundary_record +
  or_category :: pystr
  or_operation :: pystr
  or_adapter :: pystr
  or_status_code :: "int option"

definition boundary_adapter_categories :: "(string \<times> string) list" where
  "boundary_adapter_categories =
     [(''stdlib.asyncio.TaskGroup'', ''scheduler''), (''stdlib.asyncio.create_task'', ''scheduler''),
      (''stdlib.asyncio.ensure_future'', ''scheduler''), (''stdlib.asyncio.gather'', ''scheduler''),
      (''stdlib.wsgiref'', ''server''), (''uvicorn.h11'', ''server''), (''uvicorn.httptools'', ''server''),
      (''stdlib.concurrent.futures.ProcessPoolExecutor'', ''executor''),
      (''stdlib.concurrent.futures.ThreadPoolExecutor'', ''executor''),
      (''stdlib.asyncio.Queue'', ''queue''), (''stdlib.queue.Queue'', ''queue''),
      (''stdlib.sqlite3.Connection'', ''database''), (''stdlib.sqlite3.Cursor'', ''database''),
      (''sqlalchemy.engine.Connection'', ''database''), (''sqlalchemy.orm.Session'', ''database''),
      (''sqlalchemy.ext.asyncio.AsyncConnection'', ''database''), (''sqlalchemy.ext.asyncio.AsyncSession'', ''database''),
      (''redis.Redis'', ''cache''), (''redis.Pipeline'', ''cache''), (''redis.asyncio.Redis'', ''cache''),
      (''redis.asyncio.Pipeline'', ''cache''), (''pika.BlockingChannel'', ''broker''),
      (''aiokafka.AIOKafkaProducer'', ''broker''), (''aiokafka.AIOKafkaConsumer'', ''broker'')]"

definition boundary_category_operations :: "(string \<times> string list) list" where
  "boundary_category_operations =
     [(''broker'', [''consume'', ''publish'']), (''cache'', [''batch'', ''command'']),
      (''database'', [''commit'', ''execute'', ''executemany'', ''executescript'', ''rollback'']),
      (''executor'', [''task'']), (''queue'', [''get'', ''put'']), (''scheduler'', [''task'']), (''server'', [''request''])]"

definition boundary_operations :: "string list" where
  "boundary_operations = [''batch'', ''command'', ''commit'', ''consume'', ''execute'', ''executemany'', ''executescript'',
     ''get'', ''publish'', ''put'', ''rollback'', ''request'', ''task'']"

definition operation_in_category :: "pystr \<Rightarrow> pystr \<Rightarrow> bool" where
  "operation_in_category category operation \<longleftrightarrow>
     list_ex (\<lambda>(c, ns). category = lit c \<and> operation \<in> set (map lit ns)) boundary_category_operations"

definition adapter_in_category :: "pystr \<Rightarrow> pystr \<Rightarrow> bool" where
  "adapter_in_category adapter category \<longleftrightarrow>
     list_ex (\<lambda>(a, c). adapter = lit a \<and> category = lit c) boundary_adapter_categories"

definition logical_operation_record :: "int \<Rightarrow> json \<Rightarrow> operation_record res" where
  "logical_operation_record document_pid j =
     rbind (doc_object j ''semantic logical operation record'') (\<lambda>item.
     rbind (doc_integer (jget item ''id'') ''semantic logical operation id'') (\<lambda>identifier.
     rbind (doc_literal (jget item ''category'') (map fst boundary_category_operations)
       ''semantic logical operation category is unsupported'') (\<lambda>category.
     rbind (doc_literal (jget item ''operation'') boundary_operations ''semantic logical operation is unsupported'') (\<lambda>operation.
     rbind (deep_unless (operation_in_category category operation) ''semantic logical operation and category are inconsistent'') (\<lambda>_.
     rbind (doc_text (jget item ''adapter'') ''semantic logical operation adapter'') (\<lambda>adapter.
     rbind (deep_unless (adapter \<in> set (map (lit \<circ> fst) boundary_adapter_categories))
       ''semantic logical operation adapter is unsupported'') (\<lambda>_.
     rbind (deep_unless (adapter_in_category adapter category)
       ''semantic logical operation adapter and category are inconsistent'') (\<lambda>_.
     rbind (record_pid item ''semantic logical operation process id'' ''semantic logical operation process id is inconsistent'' document_pid) (\<lambda>pid.
     rbind (record_start item ''semantic logical operation start'') (\<lambda>start.
     rbind (doc_optional_nonnegative_integer (jget item ''duration_ns'') ''semantic logical operation duration'') (\<lambda>duration.
     rbind (doc_literal (jget item ''outcome'') [''completed'', ''operation_error'', ''unknown'']
       ''semantic logical operation outcome is unsupported'') (\<lambda>outcome.
     rbind (record_error_type item ''semantic logical operation error type'' ''semantic logical operation error type exceeds its character limit'') (\<lambda>error.
     rbind (deep_unless (\<not> (outcome = lit ''completed'' \<and> (duration = None \<or> error \<noteq> None)))
       ''successful semantic logical operation evidence is inconsistent'') (\<lambda>_.
     rbind (deep_unless (\<not> (outcome = lit ''operation_error'' \<and> (duration = None \<or> error = None)))
       ''failed semantic logical operation evidence is inconsistent'') (\<lambda>_.
     rbind (deep_unless (\<not> (outcome = lit ''unknown'' \<and> (duration \<noteq> None \<or> error \<noteq> None)))
       ''unfinished semantic logical operation evidence is inconsistent'') (\<lambda>_.
     rbind (doc_optional_nonnegative_integer (jget item ''status_code'') ''semantic logical operation HTTP status'') (\<lambda>status.
     rbind (deep_unless (case status of None \<Rightarrow> True | Some n \<Rightarrow> 100 \<le> n \<and> n \<le> 999)
       ''semantic logical operation HTTP status is invalid'') (\<lambda>_.
     rbind (deep_unless (category = lit ''server'' \<or> status = None) ''non-server logical operation has an HTTP status'') (\<lambda>_.
     rbind (deep_unless (\<not> (category = lit ''server'' \<and> (case status of None \<Rightarrow> False
         | Some n \<Rightarrow> 500 \<le> n \<and> (outcome \<noteq> lit ''operation_error'' \<or> error \<noteq> Some (lit ''HTTPStatusError'')))))
       ''failed server logical operation evidence is inconsistent'') (\<lambda>_.
     rbind (deep_unless (\<not> (category = lit ''server'' \<and> (case status of None \<Rightarrow> False
         | Some n \<Rightarrow> n < 500 \<and> outcome \<noteq> lit ''completed'')))
       ''successful server logical operation evidence is inconsistent'') (\<lambda>_.
     rbind (record_finish start duration ''semantic logical operation finish'') (\<lambda>_.
     Inr \<lparr>br_identifier = identifier, br_parent_pid = pid, br_started_at_ns = start, br_duration_ns = duration,
       br_outcome = outcome, br_error_type = error, br_caller = fst (record_caller_of item),
       br_caller_status = snd (record_caller_of item), or_category = category, or_operation = operation,
       or_adapter = adapter, or_status_code = status\<rparr>))))))))))))))))))))))"

definition boundary_operation_names :: "(string \<times> string) list" where
  "boundary_operation_names =
     [(''batch'', ''Cache batch''), (''command'', ''Cache command''), (''commit'', ''Database commit''),
      (''consume'', ''Broker consume''), (''execute'', ''Database execute''), (''executemany'', ''Database executemany''),
      (''executescript'', ''Database script''), (''get'', ''Queue get''), (''publish'', ''Broker publish''),
      (''put'', ''Queue put''), (''rollback'', ''Database rollback''), (''task'', ''Executor task'')]"

text \<open>The names cover every operation of the other categories, so the lookup never fails there.\<close>

definition logical_operation_name :: "operation_record \<Rightarrow> pystr" where
  "logical_operation_name r =
     (if or_category r = lit ''scheduler'' then lit ''Async task''
      else if or_category r = lit ''server'' then lit ''Inbound HTTP request''
      else case map_of (map (\<lambda>(n, t). (lit n, lit t)) boundary_operation_names) (or_operation r) of
        None \<Rightarrow> [] | Some t \<Rightarrow> t)"

definition logical_caller_contract :: caller_event_contract where
  "logical_caller_contract = \<lparr>cc_namespace = lit ''semantic:logical-operation-caller'', cc_source = lit ''python-logical-operation-wrapper'',
     cc_count_attribute = ''logical_operation_count'', cc_relation = lit ''performs''\<rparr>"

definition duration_boundary_of :: "pystr \<Rightarrow> string" where
  "duration_boundary_of category =
     (if category = lit ''executor'' then ''submission_to_completion''
      else if category = lit ''scheduler'' then ''creation_to_completion''
      else if category = lit ''server'' then ''request_to_response_completion'' else ''logical_operation'')"

definition logical_operation_event :: "(pystr \<Rightarrow> pystr) \<Rightarrow> pystr \<Rightarrow> int option \<Rightarrow> operation_record \<Rightarrow> event" where
  "logical_operation_event digest entity root_pid r = record_event (record_event_id ''semantic:logical-operation'' r)
     (or_category r @ lit ''.'' @ or_operation r) (logical_operation_name r) entity
     ([(lit ''source'', jtext ''python-logical-operation-wrapper''), (lit ''category'', JStr (or_category r)),
       (lit ''operation'', JStr (or_operation r)), (lit ''adapter'', JStr (or_adapter r)),
       (lit ''parent_pid'', JInt (br_parent_pid r)), (lit ''role'', JStr (process_role_of (br_parent_pid r) root_pid)),
       (lit ''outcome'', JStr (br_outcome r))] @
      false_attributes [''statement_captured'', ''parameters_captured'', ''payload_captured'', ''queue_item_captured'',
        ''queue_identity_captured'', ''callable_captured'', ''awaitable_captured'', ''task_name_captured'', ''context_captured'',
        ''arguments_captured'', ''return_value_captured'', ''http_method_captured'', ''route_captured'', ''url_captured'',
        ''headers_captured'', ''body_captured'', ''response_body_captured'', ''client_address_captured''] @
      [(lit ''duration_boundary'', jtext (duration_boundary_of (or_category r)))] @
      optional_int ''status_code'' (or_status_code r) @ caller_attribute digest logical_caller_contract r @
      duration_attribute r @ error_attributes (br_error_type r)) r"

definition read_logical_operations :: "attrs \<Rightarrow> json \<Rightarrow> operation_record reading res" where
  "read_logical_operations document j =
     rbind (doc_object j ''semantic capture'') (\<lambda>semantic.
     if \<not> has_field semantic ''logical_operation_capture_enabled'' then Inr Missing
     else rbind (doc_boolean (jget semantic ''logical_operation_capture_enabled'') ''semantic logical operation enabled marker'') (\<lambda>enabled.
     rbind (doc_list (jget semantic ''logical_operations'') ''semantic logical operations'') (\<lambda>raw.
     rbind (doc_integer (jget semantic ''logical_operation_count'') ''semantic logical operation count'') (\<lambda>declared.
     rbind (doc_integer (jget semantic ''dropped_logical_operation_count'') ''semantic dropped logical operation count'') (\<lambda>dropped.
     rbind (doc_integer (jget semantic ''logical_operation_callback_error_count'') ''semantic logical operation callback error count'') (\<lambda>callback_errors.
     rbind (doc_integer (jget semantic ''logical_operation_caller_callback_error_count'') ''semantic logical operation caller callback error count'') (\<lambda>caller_errors.
     rbind (doc_list (jget semantic ''logical_operation_adapters'') ''semantic logical operation adapters'') (\<lambda>raw_adapters.
     if \<not> enabled then
       rbind (deep_unless (\<not> (registration_contains raw dropped callback_errors caller_errors \<or> declared \<noteq> 0 \<or> raw_adapters \<noteq> []))
         ''disabled semantic logical operation capture contains evidence'') (\<lambda>_. Inr Disabled)
     else rbind (deep_unless (supported_format semantic) ''semantic logical operation capture format is unsupported'') (\<lambda>_.
     rbind (check_limit semantic ''max_logical_operations'' ''semantic logical operation limit'') (\<lambda>_.
     rbind (read_adapters (map fst boundary_adapter_categories) ''semantic logical operation adapter'' [] raw_adapters) (\<lambda>adapters.
     rbind (doc_integer (jget document ''pid'') ''semantic logical operation process id'') (\<lambda>pid.
     rbind (check_count raw declared ''semantic logical operation count is inconsistent'') (\<lambda>_.
     rbind (read_registration document raw dropped callback_errors caller_errors ''semantic logical operation registration contains evidence'') (\<lambda>_.
     rbind (traverse (logical_operation_record pid) raw) (\<lambda>records.
     rbind (deep_unless (list_all (\<lambda>r. or_adapter r \<in> set adapters) records) ''semantic logical operation adapter was not active'') (\<lambda>_.
     rbind (deep_unless (distinct_ids records) ''semantic logical operation ids must be unique per process'') (\<lambda>_.
     Inr (Found \<lparr>de_dropped = dropped, de_callback_errors = callback_errors, de_caller_errors = caller_errors,
       de_records = records, de_adapters = adapters\<rparr>))))))))))))))))))"

definition logical_kind_of :: "(pystr \<Rightarrow> pystr) \<Rightarrow> operation_record capture_kind" where
  "logical_kind_of digest = \<lparr>ck_reader = read_logical_operations, ck_limit = boundary_events_limit,
     ck_important = (\<lambda>r. br_outcome r \<noteq> lit ''completed''),
     ck_incomplete = (\<lambda>r. br_outcome r = lit ''unknown'' \<or> (or_category r = lit ''server'' \<and> or_status_code r = None)),
     ck_label = ''semantic dropped logical operation count'', ck_contract = logical_caller_contract,
     ck_event_id = record_event_id ''semantic:logical-operation'', ck_relation = (\<lambda>r. lit ''performs''),
     ck_event = logical_operation_event digest, ck_keeps_invalid = (False, False)\<rparr>"

definition logical_operation_capture_evidence :: "(pystr \<Rightarrow> pystr) \<Rightarrow> pystr \<Rightarrow> int option \<Rightarrow> payload list \<Rightarrow> boundary_capture res" where
  "logical_operation_capture_evidence digest = capture_evidence digest (logical_kind_of digest)"

section \<open>All boundaries of a run\<close>

record boundary_evidence =
  be_semantic :: boundary_capture
  be_http :: boundary_capture
  be_network :: boundary_capture
  be_network_setup :: boundary_capture
  be_logical_operation :: boundary_capture

definition boundary_evidence_of :: "(pystr \<Rightarrow> pystr) \<Rightarrow> pystr \<Rightarrow> int option \<Rightarrow> payload list \<Rightarrow> boundary_evidence res" where
  "boundary_evidence_of digest entity root_pid payloads =
     rbind (semantic_capture_evidence digest entity root_pid payloads) (\<lambda>s.
     rbind (http_capture_evidence digest entity root_pid payloads) (\<lambda>h.
     rbind (network_capture_evidence digest entity root_pid payloads) (\<lambda>n.
     rbind (network_setup_capture_evidence digest entity root_pid payloads) (\<lambda>p.
     rbind (logical_operation_capture_evidence digest entity root_pid payloads) (\<lambda>l.
     Inr \<lparr>be_semantic = s, be_http = h, be_network = n, be_network_setup = p, be_logical_operation = l\<rparr>)))))"

definition boundary_events :: "boundary_evidence \<Rightarrow> event list" where
  "boundary_events e = concat (map (\<lambda>c. bc_caller_events c @ bc_events c)
     [be_semantic e, be_http e, be_network e, be_network_setup e, be_logical_operation e])"

definition boundary_edges :: "boundary_evidence \<Rightarrow> causal_edge list" where
  "boundary_edges e = concat (map bc_caller_edges
     [be_semantic e, be_http e, be_network e, be_network_setup e, be_logical_operation e])"

end
