(* ===== verification/BoundaryFields.thy ===== *)
theory BoundaryFields
  imports BoundaryRecords CaptureFacts
begin

text \<open>
  What a raw record that passes the checks is known to satisfy, and what the analysis reads from the event
  it becomes: every retained record of the five kinds is read back field by field, with one exception among
  the server operations.
\<close>

section \<open>Looking up the attributes of an event\<close>

lemma jget_false: "jget (false_attributes ks @ d) k = (if k \<in> set ks then JBool False else jget d k)"
  by (induction ks) (auto simp: false_attributes_def jget_Cons)

lemma jget_caller: "jget (caller_attribute digest c r @ d) k =
    (if k = ''caller_event_id'' \<and> br_caller r \<noteq> None
     then JStr (caller_event_id digest c (rc_identity (the (br_caller r)))) else jget d k)"
  by (auto simp: caller_attribute_def jget_Cons split: option.splits)

lemma jget_optional: "jget (optional_int q v @ d) k = (if k = q \<and> v \<noteq> None then JInt (the v) else jget d k)"
  by (auto simp: optional_int_def jget_Cons split: option.splits)

lemma jget_duration: "jget (duration_attribute r @ d) k =
    (if k = ''duration_seconds'' \<and> br_duration_ns r \<noteq> None then JFloat (seconds_of (the (br_duration_ns r))) else jget d k)"
  by (auto simp: duration_attribute_def jget_Cons split: option.splits)

lemma jget_error: "jget (error_attributes v) k =
    (if v = None then JNull else if k = ''error'' then JBool True else if k = ''error.type'' then JStr (the v) else JNull)"
  by (auto simp: error_attributes_def jget_Cons jget_Nil split: option.splits)

lemmas jget_simps = jget_Cons jget_or_Cons jget_Nil jget_false jget_caller jget_optional jget_duration jget_error

lemma record_event_fields [simp]:
  "ev_id (record_event i kind name entity attributes r) = i"
  "ev_kind (record_event i kind name entity attributes r) = kind"
  "ev_name (record_event i kind name entity attributes r) = name"
  "ev_started_at_ns (record_event i kind name entity attributes r) = Some (br_started_at_ns r)"
  "ev_finished_at_ns (record_event i kind name entity attributes r) = map_option ((+) (br_started_at_ns r)) (br_duration_ns r)"
  "ev_attributes (record_event i kind name entity attributes r) = attributes"
  by (auto simp: record_event_def split: option.splits)

section \<open>Fields that every record has\<close>

definition caller_ok :: "record_caller \<Rightarrow> bool" where
  "caller_ok c \<longleftrightarrow> rc_observation c \<in> set observations \<and> fi_scope (rc_identity c) \<in> set scopes \<and>
     text_ok (fi_module (rc_identity c)) \<and> text_ok (fi_qualname (rc_identity c)) \<and>
     text_ok (fi_filename (rc_identity c)) \<and> 0 \<le> fi_firstlineno (rc_identity c)"

definition record_ok :: "int \<Rightarrow> 'a boundary_record_scheme \<Rightarrow> bool" where
  "record_ok pid r \<longleftrightarrow> 0 \<le> br_identifier r \<and> br_parent_pid r = pid \<and> 0 < pid \<and> pid \<le> max_int64 \<and>
     0 < br_started_at_ns r \<and> br_started_at_ns r \<le> max_int64 \<and>
     pred_option (\<lambda>d. 0 \<le> d \<and> br_started_at_ns r + d \<le> max_int64) (br_duration_ns r) \<and>
     pred_option text_ok (br_error_type r) \<and> pred_option caller_ok (br_caller r) \<and>
     (br_caller_status r = lit ''complete'' \<longleftrightarrow> br_caller r \<noteq> None)"

lemma read_caller_ok: "read_caller j = Inr c \<Longrightarrow> caller_ok c"
  unfolding read_caller_def rbind_eq_Inr_iff
  by (elim exE conjE) (auto simp: caller_ok_def observations_def res_simps)

lemma record_caller_ok:
  "pred_option caller_ok (fst (record_caller_of item))"
  "snd (record_caller_of item) = lit ''complete'' \<longleftrightarrow> fst (record_caller_of item) \<noteq> None"
  by (auto simp: record_caller_of_def read_caller_ok split: sum.splits)

text \<open>What the steps of the five parsers establish, each about the value it reads.\<close>

lemma record_pid_Inr: "record_pid item l m document_pid = Inr pid \<Longrightarrow> 0 < pid \<and> pid \<le> max_int64 \<and> pid = document_pid"
  by (auto simp: record_pid_def res_simps)

lemma record_start_Inr: "record_start item l = Inr n \<Longrightarrow> 0 < n \<and> n \<le> max_int64"
  by (auto simp: record_start_def res_simps)

lemma doc_integer_Inr: "doc_integer j l = Inr n \<Longrightarrow> 0 \<le> n \<and> n \<le> max_int64"
  by (simp add: doc_integer_Inr_iff)

lemma doc_text_Inr: "doc_text j l = Inr s \<Longrightarrow> text_ok s"
  by (simp add: doc_text_Inr_iff)

lemma doc_literal_Inr: "doc_literal j ns m = Inr s \<Longrightarrow> s \<in> lit ` set ns"
  by (simp add: doc_literal_Inr_iff)

lemma doc_optional_nonnegative_Inr: "doc_optional_nonnegative_integer j l = Inr v \<Longrightarrow> pred_option (\<lambda>n. 0 \<le> n \<and> n \<le> max_int64) v"
  by (cases v) (simp_all add: doc_optional_nonnegative_integer_Inr_iff)

lemma record_error_type_Inr: "record_error_type item l m = Inr v \<Longrightarrow> pred_option text_ok v"
  by (cases v) (auto simp: record_error_type_def res_simps)

lemma record_finish_Inr: "record_finish s d l = Inr u \<Longrightarrow> pred_option (\<lambda>n. s + n \<le> max_int64) d"
  by (cases d) (simp_all add: record_finish_def res_simps)

lemma record_port_Inr: "record_port item l = Inr v \<Longrightarrow> pred_option (\<lambda>p. 0 < p \<and> p \<le> 65535) v"
  by (cases v) (auto simp: record_port_def res_simps)

lemma deep_unless_Inr: "deep_unless b m = Inr u \<Longrightarrow> b"
  by (simp add: deep_unless_Inr_iff)

lemma case_option_pred: "(case v of None \<Rightarrow> True | Some x \<Rightarrow> P x) \<longleftrightarrow> pred_option P v"
  by (cases v) simp_all

lemma pred_option_conj: "pred_option P v \<Longrightarrow> pred_option Q v \<Longrightarrow> pred_option (\<lambda>x. P x \<and> Q x) v"
  by (cases v) simp_all

lemmas record_steps = record_pid_Inr record_start_Inr doc_integer_Inr doc_text_Inr doc_literal_Inr
  doc_optional_nonnegative_Inr record_error_type_Inr record_finish_Inr record_port_Inr deep_unless_Inr

text \<open>The fields that all five parsers read in the same way.\<close>

lemma record_okI:
  assumes "doc_integer j l = Inr identifier" "record_pid item l1 m1 document_pid = Inr pid" "record_start item l2 = Inr start"
    "doc_optional_nonnegative_integer j3 l3 = Inr duration" "record_error_type item l4 m4 = Inr error"
    "record_finish start duration l5 = Inr u"
    "br_identifier r = identifier" "br_parent_pid r = pid" "br_started_at_ns r = start" "br_duration_ns r = duration"
    "br_error_type r = error" "br_caller r = fst (record_caller_of item)" "br_caller_status r = snd (record_caller_of item)"
  shows "record_ok document_pid r"
proof -
  have "pred_option (\<lambda>d. 0 \<le> d \<and> start + d \<le> max_int64) duration"
    using doc_optional_nonnegative_Inr [OF assms(4)] record_finish_Inr [OF assms(6)] by (cases duration) simp_all
  then show ?thesis
    using doc_integer_Inr [OF assms(1)] record_pid_Inr [OF assms(2)] record_start_Inr [OF assms(3)]
      record_error_type_Inr [OF assms(5)] record_caller_ok [of item] assms(7-)
    by (simp add: record_ok_def)
qed

section \<open>Subprocesses\<close>

definition subprocess_ok :: "subprocess_record \<Rightarrow> bool" where
  "subprocess_ok r \<longleftrightarrow> sr_name r \<noteq> [] \<and> br_outcome r \<in> set subprocess_outcomes \<and> pred_option (\<lambda>p. 0 < p) (sr_child_pid r) \<and>
    (br_outcome r = lit ''exited'' \<longrightarrow> sr_child_pid r \<noteq> None \<and> br_duration_ns r \<noteq> None \<and> sr_exit_code r \<noteq> None \<and> br_error_type r = None) \<and>
    (br_outcome r = lit ''launch_error'' \<longrightarrow> sr_child_pid r = None \<and> br_duration_ns r \<noteq> None \<and> sr_exit_code r = None \<and> br_error_type r \<noteq> None) \<and>
    (br_outcome r = lit ''unknown'' \<longrightarrow> sr_child_pid r \<noteq> None \<and> br_duration_ns r = None \<and> sr_exit_code r = None \<and> br_error_type r = None)"

lemma subprocess_record_ok: "subprocess_record pid j = Inr r \<Longrightarrow> record_ok pid r \<and> subprocess_ok r"
  unfolding subprocess_record_def rbind_eq_Inr_iff
proof (elim exE conjE, intro conjI, goal_cases)
  case 1
  note r = 1(18) [symmetric]
  show ?case by (rule record_okI [OF 1(2) 1(5) 1(9) 1(10) 1(13) 1(17)]) (use r in simp_all)
next
  case 2
  note r = 2(18) [symmetric]
  show ?case
    using doc_text_Inr [OF 2(3)] doc_literal_Inr [OF 2(12)] 2(7,14-16) [THEN deep_unless_Inr] r
    by (simp add: subprocess_ok_def subprocess_outcomes_def case_option_pred text_ok_def)
qed

lemma role_member: "not_member (JStr (process_role_of pid root_pid)) roles = Inr False"
  by (simp add: not_member_def member_def roles_def process_role_of_def split: option.splits)

lemma role_literal: "literal_of roles (JStr (process_role_of pid root_pid)) = process_role_of pid root_pid"
  by (rule literal_of_member) (simp add: roles_def process_role_of_def split: option.splits)

lemma member_literal: "s \<in> set ns \<Longrightarrow> not_member (JStr s) ns = Inr False"
  by (simp add: not_member_def member_def)

lemma elapsed_of_record:
  assumes "record_ok pid r"
  shows "\<exists>x. elapsed_seconds (br_started_at_ns r) (map_option ((+) (br_started_at_ns r)) (br_duration_ns r)) = Inr x \<and>
    (x = None \<longleftrightarrow> br_duration_ns r = None)"
proof (cases "br_duration_ns r")
  case (Some d)
  have "\<exists>x. elapsed_seconds (br_started_at_ns r) (Some (br_started_at_ns r + d)) = Inr x"
    using assms Some by (intro elapsed_total) (auto simp: record_ok_def max_int64_def)
  then show ?thesis using Some by (auto simp: elapsed_seconds_def rbind_eq_Inr_iff)
qed (simp add: elapsed_seconds_def)

definition subprocess_error :: "subprocess_record \<Rightarrow> pystr option" where
  "subprocess_error r = (case br_error_type r of Some e \<Rightarrow> Some e
     | None \<Rightarrow> (case sr_exit_code r of None \<Rightarrow> None | Some n \<Rightarrow> if n \<noteq> 0 then Some (lit ''subprocess_exit'') else None))"

definition declared_caller :: "(pystr \<Rightarrow> pystr) \<Rightarrow> caller_event_contract \<Rightarrow> 'a boundary_record_scheme \<Rightarrow> json" where
  "declared_caller digest c r = (case br_caller r of None \<Rightarrow> JNull | Some caller \<Rightarrow> JStr (caller_event_id digest c (rc_identity caller)))"

lemma json_optional_int: "json_of_optional JInt v = (case v of None \<Rightarrow> JNull | Some n \<Rightarrow> JInt n)"
  by (simp add: json_of_optional_def)

lemma optional_lookup:
  "jget (optional_int q v @ d) k = (if k = q then (if v = None then jget d k else json_of_optional JInt v) else jget d k)"
  by (auto simp: optional_int_def jget_Cons json_of_optional_def split: option.splits)

lemma caller_lookup:
  "jget (caller_attribute digest c r @ d) k =
    (if k = ''caller_event_id'' then (if br_caller r = None then jget d k else declared_caller digest c r) else jget d k)"
  by (auto simp: caller_attribute_def declared_caller_def jget_Cons split: option.splits)

lemma error_lookup:
  "jget (error_attributes v) k =
    (if k = ''error'' then (if v = None then JNull else JBool True)
     else if k = ''error.type'' then json_of_optional JStr v else JNull)"
  by (auto simp: error_attributes_def jget_Cons jget_Nil json_of_optional_def split: option.splits)

lemma subprocess_event_fields:
  fixes r :: subprocess_record and digest entity root_pid
  defines "v \<equiv> subprocess_event digest entity root_pid r"
  shows "eget v ''source'' = jtext ''python-subprocess-wrapper''"
    "eget v ''parent_pid'' = JInt (br_parent_pid r)"
    "eget v ''role'' = JStr (process_role_of (br_parent_pid r) root_pid)"
    "eget v ''shell'' = json_of_optional JBool (sr_shell r)"
    "eget v ''outcome'' = JStr (br_outcome r)"
    "eget v ''arguments_captured'' = JBool False"
    "eget v ''caller_event_id'' = declared_caller digest subprocess_caller_contract r"
    "eget v ''child_pid'' = json_of_optional JInt (sr_child_pid r)"
    "eget v ''exit_code'' = json_of_optional JInt (sr_exit_code r)"
    "eget v ''error'' = (if subprocess_error r = None then JNull else JBool True)"
    "eget v ''error.type'' = json_of_optional JStr (subprocess_error r)"
  by (simp_all add: v_def subprocess_event_def subprocess_error_def [symmetric] jget_Cons jget_Nil caller_lookup
      optional_lookup jget_duration error_lookup declared_caller_def json_of_optional_def cong: if_cong)

named_theorems read_back \<open>checked fields of an event and their values\<close>

lemma optional_checks [read_back]:
  "null_or (int_in P) (json_of_optional JInt v) \<longleftrightarrow> pred_option P v"
  "null_or pid_ok (json_of_optional JInt v) \<longleftrightarrow> pred_option (\<lambda>n. 0 < n) v"
  "null_or (\<lambda>j. \<exists>y. bool_or_none j = Some y) (json_of_optional JBool b)"
  "null_or filled_text (json_of_optional JStr t) \<longleftrightarrow> pred_option (\<lambda>s. s \<noteq> []) t"
  "json_of_optional JInt v = JNull \<longleftrightarrow> v = None" "json_of_optional JStr t = JNull \<longleftrightarrow> t = None"
  "json_of_optional JInt v = JInt n \<longleftrightarrow> v = Some n" "json_of_optional JStr t = JStr s \<longleftrightarrow> t = Some s"
  "int_or_none (json_of_optional JInt v) = v" "bool_or_none (json_of_optional JBool b) = b"
  "text_or_none (json_of_optional JStr t) = t" "pid_ok (JInt n) \<longleftrightarrow> 0 < n"
  "is_false (JBool False)" "is_true (JBool True)" "\<not> is_true JNull" "pred_option (\<lambda>_. True) v"
  by (cases v; cases b; cases t; simp add: null_or_def int_in_def pid_ok_def bool_or_none_def filled_text_def
      json_of_optional_def int_or_none_def text_or_none_def is_false_def is_true_def)+

lemma subprocess_reads_back:
  assumes "record_ok pid r" "subprocess_ok r"
  shows "\<exists>x. subprocess_call_of callers observed (subprocess_event digest entity root_pid r) = Inr (Some x) \<and>
    sc_event_id x = record_event_id ''semantic:subprocess'' r \<and> sc_name x = sr_name r \<and> sc_parent_pid x = br_parent_pid r \<and>
    sc_role x = process_role_of pid root_pid \<and> sc_child_pid x = sr_child_pid r \<and> sc_shell x = sr_shell r \<and>
    sc_outcome x = br_outcome r \<and> sc_exit_code x = sr_exit_code r \<and> sc_started_at_ns x = br_started_at_ns r"
proof -
  let ?v = "subprocess_event digest entity root_pid r"
  have r: "br_parent_pid r = pid" "0 < pid" "pred_option text_ok (br_error_type r)" using assms(1) by (auto simp: record_ok_def)
  have event: "ev_id ?v = record_event_id ''semantic:subprocess'' r" "ev_name ?v = sr_name r"
    "ev_started_at_ns ?v = Some (br_started_at_ns r)" "ev_finished_at_ns ?v = map_option ((+) (br_started_at_ns r)) (br_duration_ns r)"
    by (simp_all add: subprocess_event_def)
  note ok = assms(2) [unfolded subprocess_ok_def]
  then have outcome: "br_outcome r \<in> set subprocess_outcomes" by simp
  have error: "pred_option (\<lambda>s. s \<noteq> []) (subprocess_error r)"
    using r(3) by (auto simp: subprocess_error_def text_ok_def split: option.splits)
  obtain x where x: "elapsed_seconds (br_started_at_ns r) (ev_finished_at_ns ?v) = Inr x"
    using elapsed_of_record [OF assms(1)] by (auto simp: event)
  have malformed: "subprocess_malformed ?v = Inr False"
    unfolding subprocess_malformed_def any_of_False_iff
    using ok r error by (simp add: subprocess_event_fields event role_member member_literal [OF outcome] read_back)
  have consistent: "\<not> subprocess_contradicts ?v (br_outcome r)"
    using ok by (auto simp: subprocess_contradicts_def Let_def subprocess_event_fields event read_back subprocess_error_def
      subprocess_outcomes_def split: option.splits)
  show ?thesis
    using malformed consistent x r literal_of_member [OF outcome]
    by (simp add: subprocess_call_of_def Let_def subprocess_event_fields event role_literal read_back)
qed

section \<open>HTTP requests\<close>

definition request_ok :: "request_record \<Rightarrow> bool" where
  "request_ok r \<longleftrightarrow> rq_method r \<noteq> [] \<and> raw_method_ok (rq_method r) \<and> rq_scheme r \<in> set http_schemes \<and>
    rq_adapter r \<in> set http_adapters \<and> pred_option (\<lambda>p. 0 < p \<and> p \<le> 65535) (rq_server_port r) \<and>
    pred_option (\<lambda>n. 100 \<le> n \<and> n \<le> 999) (rq_status_code r) \<and> br_outcome r \<in> set http_outcomes \<and>
    (br_outcome r = lit ''response'' \<longrightarrow> br_duration_ns r \<noteq> None \<and> br_error_type r = None) \<and>
    (br_outcome r = lit ''request_error'' \<longrightarrow> br_duration_ns r \<noteq> None \<and> rq_status_code r = None \<and> br_error_type r \<noteq> None) \<and>
    (br_outcome r = lit ''closed'' \<longrightarrow> br_duration_ns r \<noteq> None \<and> rq_status_code r = None \<and> br_error_type r = None) \<and>
    (br_outcome r = lit ''unknown'' \<longrightarrow> br_duration_ns r = None \<and> rq_status_code r = None \<and> br_error_type r = None)"

lemma http_request_record_ok: "http_request_record pid j = Inr r \<Longrightarrow> record_ok pid r \<and> request_ok r"
  unfolding http_request_record_def rbind_eq_Inr_iff
proof (elim exE conjE, intro conjI, goal_cases)
  case 1
  note r = 1(21) [symmetric]
  show ?case by (rule record_okI [OF 1(2) 1(9) 1(10) 1(11) 1(15) 1(20)]) (use r in simp_all)
next
  case 2
  note r = 2(21) [symmetric]
  show ?case
    using doc_text_Inr [OF 2(3)] doc_literal_Inr [OF 2(5)] doc_literal_Inr [OF 2(7)] record_port_Inr [OF 2(8)]
      doc_literal_Inr [OF 2(14)] 2(4,13,16-19) [THEN deep_unless_Inr] r
    by (simp add: request_ok_def http_schemes_def http_adapters_def boundary_http_adapters_def http_outcomes_def
        case_option_pred text_ok_def)
qed

lemma http_event_fields:
  fixes r :: request_record and digest entity root_pid
  defines "v \<equiv> http_request_event digest entity root_pid r"
  shows "eget v ''source'' = jtext ''python-http-client-wrapper''" "eget v ''method'' = JStr (rq_method r)"
    "jget_or (ev_attributes v) ''adapter'' j = JStr (rq_adapter r)" "eget v ''scheme'' = JStr (rq_scheme r)"
    "eget v ''server_address'' = JNull" "eget v ''server_identity_policy'' = jtext ''redact''"
    "eget v ''server_port'' = json_of_optional JInt (rq_server_port r)" "eget v ''parent_pid'' = JInt (br_parent_pid r)"
    "eget v ''role'' = JStr (process_role_of (br_parent_pid r) root_pid)" "eget v ''outcome'' = JStr (br_outcome r)"
    "eget v ''status_code'' = json_of_optional JInt (rq_status_code r)"
    "eget v ''caller_event_id'' = declared_caller digest http_caller_contract r"
    "eget v ''error'' = (if br_error_type r = None then JNull else JBool True)"
    "eget v ''error.type'' = json_of_optional JStr (br_error_type r)"
    "all_false (ev_attributes v) [''headers_captured'', ''body_captured'', ''path_captured'', ''query_captured'', ''response_body_captured'']"
    "eget v ''duration_boundary'' = jtext ''response_headers''"
  by (simp_all add: v_def http_request_event_def jget_Cons jget_or_Cons jget_Nil jget_false caller_lookup optional_lookup
      jget_duration error_lookup declared_caller_def json_of_optional_def all_false_def is_false_def cong: if_cong)

lemma http_reads_back:
  assumes "record_ok pid r" "request_ok r"
  shows "\<exists>x. http_request_of callers (http_request_event digest entity root_pid r) = Inr (Some x) \<and>
    hr_event_id x = record_event_id ''semantic:http'' r \<and> hr_method x = rq_method r \<and> hr_scheme x = rq_scheme r \<and>
    hr_server_port x = rq_server_port r \<and> hr_parent_pid x = br_parent_pid r \<and> hr_role x = process_role_of pid root_pid \<and>
    hr_outcome x = br_outcome r \<and> hr_status_code x = rq_status_code r \<and> hr_error_type x = br_error_type r \<and>
    hr_started_at_ns x = br_started_at_ns r \<and> hr_adapter x = rq_adapter r"
proof -
  let ?v = "http_request_event digest entity root_pid r"
  have r: "br_parent_pid r = pid" "0 < pid" "pred_option (\<lambda>s. s \<noteq> []) (br_error_type r)"
    using assms(1) by (auto simp: record_ok_def text_ok_def elim!: option.pred_mono_strong)
  have event: "ev_id ?v = record_event_id ''semantic:http'' r" "ev_name ?v = lit ''HTTP '' @ rq_method r"
    "ev_started_at_ns ?v = Some (br_started_at_ns r)" "ev_finished_at_ns ?v = map_option ((+) (br_started_at_ns r)) (br_duration_ns r)"
    by (simp_all add: http_request_event_def)
  note ok = assms(2) [unfolded request_ok_def]
  then have outcome: "br_outcome r \<in> set http_outcomes" and scheme: "rq_scheme r \<in> set http_schemes" by simp_all
  obtain x where x: "elapsed_seconds (br_started_at_ns r) (ev_finished_at_ns ?v) = Inr x"
    using elapsed_of_record [OF assms(1)] by (auto simp: event)
  have malformed: "http_malformed ?v = Inr False"
    unfolding http_malformed_def any_of_False_iff
    using ok r by (simp add: http_event_fields event role_member member_literal [OF outcome] member_literal [OF scheme]
      read_back method_ok_def raw_method_ok_def known_text_def port_ok_def)
  have consistent: "\<not> http_contradicts ?v (br_outcome r)"
    using ok by (auto simp: http_contradicts_def Let_def http_event_fields event read_back)
  show ?thesis
    using malformed consistent x r literal_of_member [OF outcome] literal_of_member [OF scheme]
    by (simp add: http_request_of_def Let_def http_event_fields event role_literal read_back)
qed

section \<open>Network connections\<close>

definition connection_ok :: "connection_record \<Rightarrow> bool" where
  "connection_ok r \<longleftrightarrow> nr_adapter r \<in> set network_adapters \<and> nr_transport r \<in> set transports \<and>
    nr_address_family r \<in> set address_families \<and> (nr_transport r = lit ''unix'') = (nr_address_family r = lit ''unix'') \<and>
    pred_option (\<lambda>p. 0 < p \<and> p \<le> 65535) (nr_server_port r) \<and> (nr_transport r = lit ''unix'' \<longrightarrow> nr_server_port r = None) \<and>
    br_outcome r \<in> set connection_outcomes \<and>
    (br_outcome r = lit ''connected'' \<longrightarrow> br_duration_ns r \<noteq> None \<and> br_error_type r = None) \<and>
    (br_outcome r = lit ''connect_error'' \<longrightarrow> br_duration_ns r \<noteq> None \<and> br_error_type r \<noteq> None) \<and>
    (br_outcome r = lit ''unknown'' \<longrightarrow> br_duration_ns r = None \<and> br_error_type r = None)"

lemma network_connection_record_ok: "network_connection_record pid j = Inr r \<Longrightarrow> record_ok pid r \<and> connection_ok r"
  unfolding network_connection_record_def rbind_eq_Inr_iff
proof (elim exE conjE, intro conjI, goal_cases)
  case 1
  note r = 1(21) [symmetric]
  show ?case by (rule record_okI [OF 1(2) 1(12) 1(13) 1(14) 1(16) 1(20)]) (use r in simp_all)
next
  case 2
  note r = 2(21) [symmetric]
  show ?case
    using doc_literal_Inr [OF 2(5)] doc_literal_Inr [OF 2(6)] record_port_Inr [OF 2(9)]
      doc_literal_Inr [OF 2(15)] 2(4,7,10,17-19) [THEN deep_unless_Inr] r
    by (simp add: connection_ok_def transports_def address_families_def network_adapters_def boundary_network_adapters_def
        connection_outcomes_def)
qed

lemma connection_event_fields:
  fixes r :: connection_record and digest entity root_pid
  defines "v \<equiv> network_connection_event digest entity root_pid r"
  shows "eget v ''source'' = jtext ''python-network-connection-wrapper''" "eget v ''adapter'' = JStr (nr_adapter r)"
    "eget v ''transport'' = JStr (nr_transport r)" "eget v ''address_family'' = JStr (nr_address_family r)"
    "eget v ''server_address'' = JNull" "eget v ''server_identity_policy'' = jtext ''redact''"
    "eget v ''server_port'' = json_of_optional JInt (nr_server_port r)"
    "eget v ''tls_requested'' = json_of_optional JBool (nr_tls_requested r)" "eget v ''parent_pid'' = JInt (br_parent_pid r)"
    "eget v ''role'' = JStr (process_role_of (br_parent_pid r) root_pid)" "eget v ''outcome'' = JStr (br_outcome r)"
    "eget v ''caller_event_id'' = declared_caller digest network_caller_contract r"
    "eget v ''error'' = (if br_error_type r = None then JNull else JBool True)"
    "eget v ''error.type'' = json_of_optional JStr (br_error_type r)"
    "all_false (ev_attributes v) [''path_captured'', ''credentials_captured'']"
    "eget v ''duration_boundary'' = jtext ''connection_ready''"
  by (simp_all add: v_def network_connection_event_def jget_Cons jget_Nil jget_false caller_lookup
      jget_duration error_lookup declared_caller_def json_of_optional_def all_false_def is_false_def cong: if_cong)

lemma connection_reads_back:
  assumes "record_ok pid r" "connection_ok r"
  shows "\<exists>x. connection_of callers (network_connection_event digest entity root_pid r) = Inr (Some x) \<and>
    nc_event_id x = record_event_id ''semantic:network'' r \<and> nc_adapter x = nr_adapter r \<and> nc_transport x = nr_transport r \<and>
    nc_address_family x = nr_address_family r \<and> nc_server_port x = nr_server_port r \<and> nc_tls_requested x = nr_tls_requested r \<and>
    nc_parent_pid x = br_parent_pid r \<and> nc_role x = process_role_of pid root_pid \<and> nc_outcome x = br_outcome r \<and>
    nc_error_type x = br_error_type r \<and> nc_started_at_ns x = br_started_at_ns r"
proof -
  let ?v = "network_connection_event digest entity root_pid r"
  have r: "br_parent_pid r = pid" "0 < pid" "pred_option (\<lambda>s. s \<noteq> []) (br_error_type r)"
    using assms(1) by (auto simp: record_ok_def text_ok_def elim!: option.pred_mono_strong)
  have event: "ev_id ?v = record_event_id ''semantic:network'' r"
    "ev_name ?v = (if nr_transport r = lit ''tcp'' then lit ''TCP'' else lit ''UNIX'') @ lit '' connect''"
    "ev_started_at_ns ?v = Some (br_started_at_ns r)" "ev_finished_at_ns ?v = map_option ((+) (br_started_at_ns r)) (br_duration_ns r)"
    by (simp_all add: network_connection_event_def)
  note ok = assms(2) [unfolded connection_ok_def]
  then have outcome: "br_outcome r \<in> set connection_outcomes" and transport: "nr_transport r \<in> set transports"
    and family: "nr_address_family r \<in> set address_families" by simp_all
  obtain x where x: "elapsed_seconds (br_started_at_ns r) (ev_finished_at_ns ?v) = Inr x"
    using elapsed_of_record [OF assms(1)] by (auto simp: event)
  have malformed: "connection_malformed ?v = Inr False"
    unfolding connection_malformed_def any_of_False_iff
    using ok r by (simp add: connection_event_fields event role_member member_literal [OF outcome]
      read_back known_text_def port_ok_def connection_title_def flip: lit_append)
  have consistent: "\<not> outcome_contradicts ?v (lit ''connected'') (lit ''connect_error'') (br_outcome r)"
    using ok by (auto simp: outcome_contradicts_def Let_def connection_event_fields event read_back)
  show ?thesis
    using malformed consistent x r literal_of_member [OF outcome] literal_of_member [OF transport] literal_of_member [OF family]
    by (simp add: connection_of_def Let_def connection_event_fields event role_literal read_back)
qed

section \<open>Setup phases\<close>

definition phase_ok :: "setup_record \<Rightarrow> bool" where
  "phase_ok r \<longleftrightarrow> pr_phase r \<in> set phase_names \<and> pr_adapter r \<in> set setup_adapters \<and>
    (pr_phase r = lit ''dns'') = (pr_adapter r = resolver_adapter) \<and> br_outcome r \<in> set setup_outcomes \<and>
    (br_outcome r = lit ''completed'' \<longrightarrow> br_duration_ns r \<noteq> None \<and> br_error_type r = None) \<and>
    (br_outcome r = lit ''setup_error'' \<longrightarrow> br_duration_ns r \<noteq> None \<and> br_error_type r \<noteq> None) \<and>
    (br_outcome r = lit ''unknown'' \<longrightarrow> br_duration_ns r = None \<and> br_error_type r = None)"

lemma network_setup_record_ok: "network_setup_record pid j = Inr r \<Longrightarrow> record_ok pid r \<and> phase_ok r"
  unfolding network_setup_record_def rbind_eq_Inr_iff
proof (elim exE conjE, intro conjI, goal_cases)
  case 1
  note r = 1(16) [symmetric]
  show ?case by (rule record_okI [OF 1(2) 1(7) 1(8) 1(9) 1(11) 1(15)]) (use r in simp_all)
next
  case 2
  note r = 2(16) [symmetric]
  show ?case
    using doc_literal_Inr [OF 2(3)] doc_literal_Inr [OF 2(10)] 2(5,6,12-14) [THEN deep_unless_Inr] r
    by (simp add: phase_ok_def phase_names_def setup_adapters_def boundary_setup_adapters_def resolver_adapter_def setup_outcomes_def)
qed

lemma setup_event_fields:
  fixes r :: setup_record and digest entity root_pid
  defines "v \<equiv> network_setup_event digest entity root_pid r"
  shows "eget v ''source'' = jtext ''python-network-setup-wrapper''" "eget v ''phase'' = JStr (pr_phase r)"
    "eget v ''adapter'' = JStr (pr_adapter r)" "eget v ''parent_pid'' = JInt (br_parent_pid r)"
    "eget v ''role'' = JStr (process_role_of (br_parent_pid r) root_pid)" "eget v ''outcome'' = JStr (br_outcome r)"
    "eget v ''caller_event_id'' = declared_caller digest network_setup_caller_contract r"
    "eget v ''error'' = (if br_error_type r = None then JNull else JBool True)"
    "eget v ''error.type'' = json_of_optional JStr (br_error_type r)"
    "all_false (ev_attributes v) [''hostname_captured'', ''server_address_captured'', ''sni_captured'', ''certificate_captured'', ''credentials_captured'']"
    "eget v ''duration_boundary'' = JStr (pr_phase r)"
  by (simp_all add: v_def network_setup_event_def jget_Cons jget_Nil jget_false caller_lookup
      jget_duration error_lookup declared_caller_def json_of_optional_def all_false_def is_false_def cong: if_cong)

lemma setup_reads_back:
  assumes "record_ok pid r" "phase_ok r"
  shows "\<exists>x. setup_phase_of callers (network_setup_event digest entity root_pid r) = Inr (Some x) \<and>
    np_event_id x = record_event_id ''semantic:network-setup'' r \<and> np_phase x = pr_phase r \<and> np_adapter x = pr_adapter r \<and>
    np_parent_pid x = br_parent_pid r \<and> np_role x = process_role_of pid root_pid \<and> np_outcome x = br_outcome r \<and>
    np_error_type x = br_error_type r \<and> np_started_at_ns x = br_started_at_ns r"
proof -
  let ?v = "network_setup_event digest entity root_pid r"
  have r: "br_parent_pid r = pid" "0 < pid" "pred_option (\<lambda>s. s \<noteq> []) (br_error_type r)"
    using assms(1) by (auto simp: record_ok_def text_ok_def elim!: option.pred_mono_strong)
  have event: "ev_id ?v = record_event_id ''semantic:network-setup'' r"
    "ev_kind ?v = (if pr_phase r = lit ''dns'' then lit ''network.resolve'' else lit ''network.tls_handshake'')"
    "ev_name ?v = (if pr_phase r = lit ''dns'' then lit ''DNS resolution'' else lit ''TLS handshake'')"
    "ev_started_at_ns ?v = Some (br_started_at_ns r)" "ev_finished_at_ns ?v = map_option ((+) (br_started_at_ns r)) (br_duration_ns r)"
    by (simp_all add: network_setup_event_def)
  note ok = assms(2) [unfolded phase_ok_def]
  then have outcome: "br_outcome r \<in> set setup_outcomes" and phase: "pr_phase r \<in> set phase_names" by simp_all
  have expected: "expected_phase (JStr (pr_phase r)) = Some (ev_kind ?v, ev_name ?v)"
    using phase by (auto simp: expected_phase_def event phase_names_def)
  obtain x where x: "elapsed_seconds (br_started_at_ns r) (ev_finished_at_ns ?v) = Inr x"
    using elapsed_of_record [OF assms(1)] by (auto simp: event)
  have malformed: "setup_malformed ?v = Inr False"
    unfolding setup_malformed_def any_of_False_iff
    using ok r expected by (simp add: setup_event_fields event(4) role_member member_literal [OF outcome] read_back known_text_def)
  have consistent: "\<not> outcome_contradicts ?v (lit ''completed'') (lit ''setup_error'') (br_outcome r)"
    using ok by (auto simp: outcome_contradicts_def Let_def setup_event_fields event read_back)
  show ?thesis
    using malformed consistent x r literal_of_member [OF outcome] literal_of_member [OF phase]
    by (simp add: setup_phase_of_def Let_def setup_event_fields event role_literal read_back)
qed

section \<open>Logical operations\<close>

definition operation_ok :: "operation_record \<Rightarrow> bool" where
  "operation_ok r \<longleftrightarrow> operation_in_category (or_category r) (or_operation r) \<and> adapter_in_category (or_adapter r) (or_category r) \<and>
    br_outcome r \<in> set logical_outcomes \<and>
    (br_outcome r = lit ''completed'' \<longrightarrow> br_duration_ns r \<noteq> None \<and> br_error_type r = None) \<and>
    (br_outcome r = lit ''operation_error'' \<longrightarrow> br_duration_ns r \<noteq> None \<and> br_error_type r \<noteq> None) \<and>
    (br_outcome r = lit ''unknown'' \<longrightarrow> br_duration_ns r = None \<and> br_error_type r = None) \<and>
    pred_option (\<lambda>n. 100 \<le> n \<and> n \<le> 999) (or_status_code r) \<and> (or_category r = lit ''server'' \<or> or_status_code r = None) \<and>
    pred_option (\<lambda>n. if 500 \<le> n then br_outcome r = lit ''operation_error'' \<and> br_error_type r = Some (lit ''HTTPStatusError'')
      else br_outcome r = lit ''completed'') (or_status_code r)"

lemma logical_operation_record_ok: "logical_operation_record pid j = Inr r \<Longrightarrow> record_ok pid r \<and> operation_ok r"
  unfolding logical_operation_record_def rbind_eq_Inr_iff
proof (elim exE conjE, intro conjI, goal_cases)
  case 1
  note r = 1(23) [symmetric]
  show ?case by (rule record_okI [OF 1(2) 1(9) 1(10) 1(11) 1(13) 1(22)]) (use r in simp_all)
next
  case 2
  note r = 2(23) [symmetric]
  show ?case
    using doc_literal_Inr [OF 2(12)] 2(5,8,14-16,18-21) [THEN deep_unless_Inr] r
    by (cases "or_status_code r") (simp_all add: operation_ok_def logical_outcomes_def)
qed

text \<open>The kinds, names and adapters of the operations are those the analysis expects.\<close>

lemma operation_cases:
  assumes "operation_in_category category operation"
  shows "dget operation_titles (category, operation) =
      Some (if category = lit ''scheduler'' then lit ''Async task'' else if category = lit ''server'' then lit ''Inbound HTTP request''
        else case map_of (map (\<lambda>(n, t). (lit n, lit t)) boundary_operation_names) operation of None \<Rightarrow> [] | Some t \<Rightarrow> t)"
    "category \<in> set logical_categories" "operation \<in> set logical_names"
proof -
  have all: "list_all (\<lambda>(c, ns). list_all (\<lambda>n.
      dget operation_titles (lit c, lit n) =
        Some (if lit c = lit ''scheduler'' then lit ''Async task'' else if lit c = lit ''server'' then lit ''Inbound HTTP request''
          else case map_of (map (\<lambda>(n, t). (lit n, lit t)) boundary_operation_names) (lit n) of None \<Rightarrow> [] | Some t \<Rightarrow> t) \<and>
      List.member logical_categories (lit c) \<and> List.member logical_names (lit n)) ns) boundary_category_operations"
    by code_simp
  obtain c ns n where "(c, ns) \<in> set boundary_category_operations" "n \<in> set ns" "category = lit c" "operation = lit n"
    using assms by (auto simp: operation_in_category_def list_ex_iff)
  with all show "dget operation_titles (category, operation) =
      Some (if category = lit ''scheduler'' then lit ''Async task'' else if category = lit ''server'' then lit ''Inbound HTTP request''
        else case map_of (map (\<lambda>(n, t). (lit n, lit t)) boundary_operation_names) operation of None \<Rightarrow> [] | Some t \<Rightarrow> t)"
    "category \<in> set logical_categories" "operation \<in> set logical_names"
    unfolding list_all_iff by fastforce+
qed

lemma adapter_cases:
  assumes "adapter_in_category adapter category"
  shows "adapter \<in> set logical_adapters" "dget adapter_categories adapter = Some category"
proof -
  have all: "list_all (\<lambda>(a, c). dget adapter_categories (lit a) = Some (lit c)) boundary_adapter_categories"
    by code_simp
  obtain a c where "(a, c) \<in> set boundary_adapter_categories" "adapter = lit a" "category = lit c"
    using assms by (auto simp: adapter_in_category_def list_ex_iff)
  with all show found: "dget adapter_categories adapter = Some category" unfolding list_all_iff by fastforce
  then show "adapter \<in> set logical_adapters"
    unfolding logical_adapters_def by (metis map_of_SomeD fst_conv image_eqI set_map)
qed

lemma operation_event_fields:
  fixes r :: operation_record and digest entity root_pid
  defines "v \<equiv> logical_operation_event digest entity root_pid r"
  shows "eget v ''source'' = jtext ''python-logical-operation-wrapper''" "eget v ''category'' = JStr (or_category r)"
    "eget v ''operation'' = JStr (or_operation r)" "eget v ''adapter'' = JStr (or_adapter r)" "eget v ''parent_pid'' = JInt (br_parent_pid r)"
    "eget v ''role'' = JStr (process_role_of (br_parent_pid r) root_pid)" "eget v ''outcome'' = JStr (br_outcome r)"
    "eget v ''duration_boundary'' = jtext (duration_boundary_of (or_category r))"
    "eget v ''status_code'' = json_of_optional JInt (or_status_code r)"
    "eget v ''caller_event_id'' = declared_caller digest logical_caller_contract r"
    "eget v ''error'' = (if br_error_type r = None then JNull else JBool True)"
    "eget v ''error.type'' = json_of_optional JStr (br_error_type r)"
    "all_false (ev_attributes v) [''statement_captured'', ''parameters_captured'', ''payload_captured'', ''queue_item_captured'',
        ''queue_identity_captured'', ''return_value_captured'']"
    "all_false (ev_attributes v) [''callable_captured'', ''arguments_captured'']"
    "all_false (ev_attributes v) [''callable_captured'', ''awaitable_captured'', ''task_name_captured'', ''context_captured'', ''arguments_captured'']"
    "all_false (ev_attributes v) [''http_method_captured'', ''route_captured'', ''url_captured'', ''headers_captured'',
        ''body_captured'', ''response_body_captured'', ''client_address_captured'']"
  by (simp_all add: v_def logical_operation_event_def jget_Cons jget_Nil jget_false caller_lookup optional_lookup
      jget_duration error_lookup declared_caller_def json_of_optional_def all_false_def is_false_def cong: if_cong)

lemma operation_event_facts:
  "ev_id (logical_operation_event digest entity root_pid r) = record_event_id ''semantic:logical-operation'' r"
  "ev_kind (logical_operation_event digest entity root_pid r) = or_category r @ lit ''.'' @ or_operation r"
  "ev_name (logical_operation_event digest entity root_pid r) = logical_operation_name r"
  "ev_started_at_ns (logical_operation_event digest entity root_pid r) = Some (br_started_at_ns r)"
  "ev_finished_at_ns (logical_operation_event digest entity root_pid r) = map_option ((+) (br_started_at_ns r)) (br_duration_ns r)"
  by (simp_all add: logical_operation_event_def)

lemma boundary_expected: "logical_boundary (JStr category) = jtext (duration_boundary_of category)"
  by (simp add: logical_boundary_def duration_boundary_of_def)

text \<open>A server operation without a status code is well-formed for the analysis only when it completed.\<close>

definition coded :: "operation_record \<Rightarrow> bool" where
  "coded r \<longleftrightarrow> or_category r = lit ''server'' \<and> or_status_code r = None \<longrightarrow> br_outcome r = lit ''completed''"

lemma server_reads_back:
  assumes "operation_ok r" "or_category r = lit ''server''"
  shows "server_malformed (logical_operation_event digest entity root_pid r) \<longleftrightarrow> \<not> coded r"
proof (cases "or_status_code r")
  case None
  then show ?thesis
    using assms(2) by (simp add: server_malformed_def Let_def operation_event_fields read_back coded_def json_of_optional_def null_or_def int_in_def)
next
  case (Some n)
  then show ?thesis
    using assms by (auto simp: server_malformed_def Let_def operation_event_fields read_back coded_def operation_ok_def json_of_optional_def
      null_or_def int_in_def split: if_splits)
qed

lemma any_of_append: "any_of (xs @ ys) = rbind (any_of xs) (\<lambda>b. if b then Inr True else any_of ys)"
  by (induction xs) (auto simp: rbind_def split: sum.splits)

lemma operation_reads_back:
  assumes "record_ok pid r" "operation_ok r"
  shows "if coded r then \<exists>x. logical_operation_of callers (logical_operation_event digest entity root_pid r) = Inr (Some x) \<and>
      lo_event_id x = record_event_id ''semantic:logical-operation'' r \<and> lo_category x = or_category r \<and>
      lo_operation x = or_operation r \<and> lo_adapter x = or_adapter r \<and> lo_parent_pid x = br_parent_pid r \<and>
      lo_role x = process_role_of pid root_pid \<and> lo_outcome x = br_outcome r \<and> lo_error_type x = br_error_type r \<and>
      lo_status_code x = or_status_code r \<and> lo_started_at_ns x = br_started_at_ns r
    else logical_operation_of callers (logical_operation_event digest entity root_pid r) = Inr None"
proof -
  let ?v = "logical_operation_event digest entity root_pid r"
  have r: "br_parent_pid r = pid" "0 < pid" "pred_option (\<lambda>s. s \<noteq> []) (br_error_type r)"
    using assms(1) by (auto simp: record_ok_def text_ok_def elim!: option.pred_mono_strong)
  note ok = assms(2) [unfolded operation_ok_def]
  then have outcome: "br_outcome r \<in> set logical_outcomes" by simp
  note op = operation_cases [of "or_category r" "or_operation r"] and adapter = adapter_cases [of "or_adapter r" "or_category r"]
  obtain x where x: "elapsed_seconds (br_started_at_ns r) (ev_finished_at_ns ?v) = Inr x"
    using elapsed_of_record [OF assms(1)] by (auto simp: operation_event_facts)
  have server: "or_category r = lit ''server'' \<Longrightarrow> server_malformed ?v = (\<not> coded r)"
    using server_reads_back [OF assms(2)] by simp
  let ?head = "[Inr (ev_started_at_ns ?v = None), Inr (logical_kind (eget ?v ''category'') (eget ?v ''operation'') \<noteq> Some (ev_kind ?v)),
      Inr (logical_title (eget ?v ''category'') (eget ?v ''operation'') \<noteq> Some (ev_name ?v)),
      Inr (\<not> known_text logical_adapters (eget ?v ''adapter'')),
      Inr (dget adapter_categories (the_text (eget ?v ''adapter'')) \<noteq> text_or_none (eget ?v ''category'')),
      Inr (\<not> pid_ok (eget ?v ''parent_pid'')), not_member (eget ?v ''role'') roles, not_member (eget ?v ''outcome'') logical_outcomes]"
  let ?tail = "[Inr (\<not> null_or filled_text (eget ?v ''error.type'')),
      Inr (\<not> all_false (ev_attributes ?v) [''statement_captured'', ''parameters_captured'', ''payload_captured'',
        ''queue_item_captured'', ''queue_identity_captured'', ''return_value_captured'']),
      Inr (eget ?v ''duration_boundary'' \<noteq> logical_boundary (eget ?v ''category'')),
      Inr (eget ?v ''category'' = jtext ''executor'' \<and> \<not> all_false (ev_attributes ?v) [''callable_captured'', ''arguments_captured'']),
      Inr (eget ?v ''category'' = jtext ''scheduler'' \<and> \<not> all_false (ev_attributes ?v) [''callable_captured'', ''awaitable_captured'',
        ''task_name_captured'', ''context_captured'', ''arguments_captured'']),
      Inr (eget ?v ''category'' = jtext ''server'' \<and> server_malformed ?v),
      Inr (eget ?v ''category'' \<noteq> jtext ''server'' \<and> eget ?v ''status_code'' \<noteq> JNull)]"
  have "logical_malformed ?v = any_of (?head @ ?tail)" by (simp add: logical_malformed_def Let_def)
  moreover have "any_of ?head = Inr False"
    unfolding any_of_False_iff
    using ok r op adapter by (simp add: operation_event_fields operation_event_facts logical_kind_def logical_title_def
      logical_operation_name_def role_member member_literal [OF outcome] read_back known_text_def text_or_none_def)
  moreover have "any_of ?tail = Inr (\<not> coded r)"
    using ok r(3) server boundary_expected by (cases "or_category r = lit ''server''")
      (simp_all add: operation_event_fields read_back coded_def)
  ultimately have malformed: "logical_malformed ?v = Inr (\<not> coded r)" by (simp only: any_of_append rbind_simps if_False)
  have consistent: "\<not> outcome_contradicts ?v (lit ''completed'') (lit ''operation_error'') (br_outcome r)"
    using ok by (auto simp: outcome_contradicts_def Let_def operation_event_fields operation_event_facts read_back)
  show ?thesis
    using malformed consistent x r literal_of_member [OF outcome] op ok
    by (simp add: logical_operation_of_def Let_def operation_event_fields operation_event_facts role_literal read_back known_text_def)
qed

end
