(* ===== verification/BoundaryTally.thy ===== *)
theory BoundaryTally
  imports BoundaryFields
begin

text \<open>
  The tally over the reports of a run, against its specification: unless some report is invalid, the tally
  holds the sums over all reports that describe the boundary, and its selection is what the bounded
  selection keeps of all their records in order. What follows is the accounting of a capture: every record
  a report holds is retained or counted as dropped, and the retained ones are the important and the longest.
\<close>

section \<open>What the reports say\<close>

lemma map_filter_snoc: "List.map_filter f (xs @ [x]) = List.map_filter f xs @ (case f x of None \<Rightarrow> [] | Some y \<Rightarrow> [y])"
  by (simp add: List.map_filter_def split: option.splits)

definition reading_of :: "'r capture_kind \<Rightarrow> attrs \<Rightarrow> 'r reading res" where
  "reading_of k document =
     (if jget document ''semantic_capture'' = JNull then Inr Missing
      else ck_reader k document (jget document ''semantic_capture''))"

definition evidence_of :: "'r capture_kind \<Rightarrow> attrs \<Rightarrow> 'r document_evidence option" where
  "evidence_of k document = (case reading_of k document of Inr (Found e) \<Rightarrow> Some e | _ \<Rightarrow> None)"

definition evidences :: "'r capture_kind \<Rightarrow> attrs list \<Rightarrow> 'r document_evidence list" where
  "evidences k documents = List.map_filter (evidence_of k) documents"

definition observed_records :: "'r capture_kind \<Rightarrow> attrs list \<Rightarrow> 'r list" where
  "observed_records k documents = concat (map de_records (evidences k documents))"

text \<open>The records with their ranks, the ordinals counting on from \<open>n\<close>.\<close>

fun ranked :: "('a boundary_record_scheme \<Rightarrow> bool) \<Rightarrow> int \<Rightarrow> 'a boundary_record_scheme list \<Rightarrow> (rank \<times> 'a boundary_record_scheme) list" where
  "ranked important n [] = []"
| "ranked important n (r # rs) = (record_rank (important r) (n + 1) r, r) # ranked important (n + 1) rs"

lemma map_snd_ranked [simp]: "map snd (ranked important n rs) = rs"
  by (induction rs arbitrary: n) simp_all

lemma length_ranked [simp]: "length (ranked important n rs) = length rs"
  by (induction rs arbitrary: n) simp_all

lemma ranked_append: "ranked important n (rs @ qs) = ranked important n rs @ ranked important (n + int (length rs)) qs"
  by (induction rs arbitrary: n) (simp_all add: algebra_simps)

definition invalid_callers :: "'a boundary_record_scheme list \<Rightarrow> int" where
  "invalid_callers rs = int (length (filter (\<lambda>r. br_caller_status r = lit ''invalid'') rs))"

section \<open>The tally holds the sums\<close>

lemma fold_absorb_record:
  "fold (absorb_record limit important incomplete) rs t =
     t\<lparr>bt_ordinal := bt_ordinal t + int (length rs), bt_invalid_callers := bt_invalid_callers t + invalid_callers rs,
       bt_incomplete := bt_incomplete t \<or> list_ex incomplete rs,
       bt_selected := fold (offer limit) (ranked important (bt_ordinal t) rs) (bt_selected t)\<rparr>"
  by (induction rs arbitrary: t) (simp_all add: absorb_record_def invalid_callers_def)

lemma absorb_report_valid:
  assumes "\<not> bt_invalid (absorb_report limit important incomplete label document e t)"
  shows "\<not> bt_invalid t \<and> bt_dropped t + de_dropped e \<le> max_int64 \<and>
    absorb_report limit important incomplete label document e t =
     t\<lparr>bt_selected := fold (offer limit) (ranked important (bt_ordinal t) (de_records e)) (bt_selected t),
       bt_process_count := bt_process_count t + 1, bt_dropped := bt_dropped t + de_dropped e,
       bt_callback_errors := bt_callback_errors t + de_callback_errors e,
       bt_caller_errors := bt_caller_errors t + de_caller_errors e,
       bt_invalid_callers := bt_invalid_callers t + invalid_callers (de_records e),
       bt_ordinal := bt_ordinal t + int (length (de_records e)),
       bt_checkpoint := bt_checkpoint t \<or> is_checkpoint document,
       bt_incomplete := bt_incomplete t \<or> list_ex incomplete (de_records e),
       bt_adapters := bt_adapters t @ filter (\<lambda>a. a \<notin> set (bt_adapters t)) (de_adapters e)\<rparr>"
  using assms
  by (auto simp: absorb_report_def Let_def bounded_sum_def deep_error_def fold_absorb_record split: if_splits)

lemma absorb_report_invalid: "bt_invalid t \<Longrightarrow> bt_invalid (absorb_report limit important incomplete label document e t)"
  using absorb_report_valid by blast

definition tally_spec :: "'a boundary_record_scheme capture_kind \<Rightarrow> attrs list \<Rightarrow> 'a boundary_record_scheme boundary_tally \<Rightarrow> bool" where
  "tally_spec k documents t \<longleftrightarrow>
     bt_selected t = select_greatest (ck_limit k) (ranked (ck_important k) 0 (observed_records k documents)) \<and>
     bt_process_count t = int (length (evidences k documents)) \<and>
     bt_dropped t = sum_list (map de_dropped (evidences k documents)) \<and>
     bt_callback_errors t = sum_list (map de_callback_errors (evidences k documents)) \<and>
     bt_caller_errors t = sum_list (map de_caller_errors (evidences k documents)) \<and>
     bt_invalid_callers t = invalid_callers (observed_records k documents) \<and>
     bt_ordinal t = int (length (observed_records k documents)) \<and>
     (bt_missing t \<longleftrightarrow> list_ex (\<lambda>d. reading_of k d = Inr Missing) documents) \<and>
     (bt_checkpoint t \<longleftrightarrow> list_ex (\<lambda>d. evidence_of k d \<noteq> None \<and> is_checkpoint d) documents) \<and>
     (bt_incomplete t \<longleftrightarrow> list_ex (ck_incomplete k) (observed_records k documents)) \<and>
     distinct (bt_adapters t) \<and> set (bt_adapters t) = (\<Union>e\<in>set (evidences k documents). set (de_adapters e))"

text \<open>The adapters a report declares are without repetition; the readers check it.\<close>

definition adapters_distinct :: "'r capture_kind \<Rightarrow> bool" where
  "adapters_distinct k \<longleftrightarrow> (\<forall>document j e. ck_reader k document j = Inr (Found e) \<longrightarrow> distinct (de_adapters e))"

abbreviation absorb_step :: "'a boundary_record_scheme capture_kind \<Rightarrow> attrs \<Rightarrow> 'a boundary_record_scheme boundary_tally \<Rightarrow> 'a boundary_record_scheme boundary_tally" where
  "absorb_step k \<equiv> absorb_document (ck_reader k) (ck_limit k) (ck_important k) (ck_incomplete k) (ck_label k)"

lemma absorb_step_cases:
  "absorb_step k d t = (case reading_of k d of
     Inl _ \<Rightarrow> t\<lparr>bt_invalid := True\<rparr> | Inr Missing \<Rightarrow> t\<lparr>bt_missing := True\<rparr> | Inr Disabled \<Rightarrow> t
   | Inr (Found e) \<Rightarrow> absorb_report (ck_limit k) (ck_important k) (ck_incomplete k) (ck_label k) d e t)"
  by (simp add: absorb_document_def reading_of_def)

lemma absorb_step_invalid: "bt_invalid t \<Longrightarrow> bt_invalid (absorb_step k d t)"
  by (auto simp: absorb_step_cases absorb_report_invalid split: sum.splits reading.splits)

lemma tally_spec_step:
  assumes "adapters_distinct k" "\<not> bt_invalid (absorb_step k d t)" "tally_spec k ds t"
  shows "tally_spec k (ds @ [d]) (absorb_step k d t) \<and> (\<exists>r. reading_of k d = Inr r)"
proof (cases "reading_of k d")
  case (Inl x)
  with assms(2) show ?thesis by (simp add: absorb_step_cases)
next
  case (Inr x)
  note spec = assms(3) [unfolded tally_spec_def]
  show ?thesis
  proof (cases x)
    case Missing
    then show ?thesis using Inr spec
      by (simp add: absorb_step_cases tally_spec_def observed_records_def evidences_def evidence_of_def map_filter_snoc)
  next
    case Disabled
    then show ?thesis using Inr spec
      by (simp add: absorb_step_cases tally_spec_def observed_records_def evidences_def evidence_of_def map_filter_snoc)
  next
    case (Found e)
    let ?t = "absorb_report (ck_limit k) (ck_important k) (ck_incomplete k) (ck_label k) d e t"
    have step: "absorb_step k d t = ?t" using Inr Found by (simp add: absorb_step_cases)
    have valid: "\<not> bt_invalid ?t" using assms(2) step by simp
    note t = conjunct2 [OF conjunct2 [OF absorb_report_valid [OF valid]]]
    have ev: "evidences k (ds @ [d]) = evidences k ds @ [e]" "observed_records k (ds @ [d]) = observed_records k ds @ de_records e"
      "evidence_of k d = Some e" "reading_of k d \<noteq> Inr Missing"
      using Inr Found by (simp_all add: evidences_def observed_records_def evidence_of_def map_filter_snoc)
    have "distinct (de_adapters e)"
      using assms(1) Inr Found by (auto simp: adapters_distinct_def reading_of_def split: if_splits)
    then have "tally_spec k (ds @ [d]) ?t"
      using spec Inr by (auto simp: t tally_spec_def ev ranked_append select_greatest_def invalid_callers_def)
    then show ?thesis using Inr step by simp
  qed
qed

lemma absorb_payloads_documents:
  assumes "absorb_payloads step ps t = Inr t'"
  shows "\<exists>ds. traverse parse_document ps = Inr ds \<and> t' = fold step ds t"
  using assms
proof (induction ps arbitrary: t)
  case (Cons p ps)
  then obtain d where "parse_document p = Inr d" "absorb_payloads step ps (step d t) = Inr t'" by (auto simp: rbind_eq_Inr_iff)
  with Cons.IH [OF this(2)] show ?case by auto
qed simp

lemma fold_invalid: "bt_invalid t \<Longrightarrow> bt_invalid (fold (absorb_step k) ds t)"
  by (induction ds arbitrary: t) (simp_all add: absorb_step_invalid)

lemma tally_meets_spec:
  assumes "adapters_distinct k" "\<not> bt_invalid (fold (absorb_step k) ds empty_tally)"
  shows "tally_spec k ds (fold (absorb_step k) ds empty_tally) \<and> (\<forall>d\<in>set ds. \<exists>r. reading_of k d = Inr r)"
  using assms(2)
proof (induction ds rule: rev_induct)
  case Nil
  then show ?case
    by (simp add: tally_spec_def empty_tally_def evidences_def observed_records_def select_greatest_def invalid_callers_def map_filter_simps)
next
  case (snoc d ds)
  let ?t = "fold (absorb_step k) ds empty_tally"
  have valid: "\<not> bt_invalid (absorb_step k d ?t)" using snoc.prems by simp
  then have "\<not> bt_invalid ?t" using absorb_step_invalid by blast
  from snoc.IH [OF this] have IH: "tally_spec k ds ?t" "\<forall>d\<in>set ds. \<exists>r. reading_of k d = Inr r" by simp_all
  from tally_spec_step [OF assms(1) valid IH(1)] IH(2) show ?case by simp
qed

text \<open>The adapters of a report read without repetition.\<close>

lemma read_adapters_distinct:
  "read_adapters known label seen js = Inr as \<Longrightarrow> distinct seen \<Longrightarrow> distinct as \<and> set as \<subseteq> set seen \<union> lit ` set known"
proof (induction known label seen js rule: read_adapters.induct)
  case (2 known label seen j js)
  then obtain a where a: "doc_text j label = Inr a" "a \<in> lit ` set known" "a \<notin> set seen"
    and rest: "read_adapters known label (a # seen) js = Inr as"
    by (auto simp: rbind_eq_Inr_iff deep_unless_Inr_iff)
  from 2(1) [OF a(1) _ rest] a 2(3) show ?case by (auto simp: deep_unless_Inr_iff)
qed auto

end
