(* ===== verification/BoundaryLaws.thy ===== *)
theory BoundaryLaws
  imports BoundaryTally
begin

text \<open>
  The contract of a kind of boundary (locale \<open>boundary_kind\<close>: its reader admits a report only with distinct,
  well-formed records of the process that wrote it), what it gives for the evidence of any kind, and its
  interpretation on the five kinds: every record that a report holds is retained or counted as dropped, and
  the retained ones are the most important.
\<close>

section \<open>The contract of a kind\<close>

definition importance :: "'a boundary_record_scheme capture_kind \<Rightarrow> 'a boundary_record_scheme \<Rightarrow> int \<times> int" where
  "importance k r = (if ck_important k r then 1 else 0, case br_duration_ns r of None \<Rightarrow> 0 | Some d \<Rightarrow> d)"

text \<open>What the evidence of a kind says of the reports it was built from.\<close>

definition nothing_captured :: "boundary_capture \<Rightarrow> bool" where
  "nothing_captured c \<longleftrightarrow> bc_events c = [] \<and> bc_caller_events c = [] \<and> bc_caller_edges c = [] \<and> bc_dropped c = 0 \<and>
     bc_attributed c = 0 \<and> bc_unattributed c = 0"

definition retains ::
  "'a boundary_record_scheme capture_kind \<Rightarrow> attrs list \<Rightarrow> 'a boundary_record_scheme list \<Rightarrow> bool" where
  "retains k documents records \<longleftrightarrow> sorted (map record_key records) \<and>
     length records = min (ck_limit k) (length (observed_records k documents)) \<and>
     (\<exists>lost. mset (observed_records k documents) = mset records + lost \<and>
       (\<forall>x\<in>#lost. \<forall>y\<in>set records. importance k x \<le> importance k y))"

definition accounts ::
  "(pystr \<Rightarrow> pystr) \<Rightarrow> 'a boundary_record_scheme capture_kind \<Rightarrow> pystr \<Rightarrow> int option \<Rightarrow> attrs list \<Rightarrow> boundary_capture \<Rightarrow> bool" where
  "accounts digest k entity root_pid documents c \<longleftrightarrow>
     (if bc_status c = lit ''invalid'' then nothing_captured c
      else list_all (\<lambda>d. \<exists>r. reading_of k d = Inr r) documents \<and>
        bc_process_count c = int (length (evidences k documents)) \<and>
        (if evidences k documents = [] then bc_status c = lit ''unavailable'' \<and> nothing_captured c
         else \<exists>records. retains k documents records \<and> bc_events c = map (ck_event k entity root_pid) records \<and>
           (bc_caller_events c, bc_caller_edges c, bc_attributed c, bc_unattributed c) =
             caller_evidence digest (ck_contract k) entity (ck_event_id k) (ck_relation k) records \<and>
           bc_dropped c + int (length records) = sum_list (map de_dropped (evidences k documents)) +
             int (length (observed_records k documents)) \<and> bc_dropped c \<le> max_int64))"

lemma record_rank_le: "record_rank (ck_important k x) n x \<le> record_rank (ck_important k y) m y \<Longrightarrow> importance k x \<le> importance k y"
  by (cases "ck_important k x"; cases "ck_important k y") (auto simp: record_rank_def importance_def less_eq_prod_def)

lemma ranked_rank: "(q, r) \<in> set (ranked important n rs) \<Longrightarrow> \<exists>m. q = record_rank (important r) m r"
  by (induction rs arbitrary: n) auto

text \<open>Without an invalid report, the selection retains the most important records.\<close>

lemma spec_retains:
  assumes "0 < ck_limit k" "tally_spec k documents t"
  shows "retains k documents (selected_records t)"
proof -
  let ?rs = "observed_records k documents"
  let ?es = "ranked (ck_important k) 0 ?rs"
  have sel: "bt_selected t = select_greatest (ck_limit k) ?es" using assms(2) by (simp add: tally_spec_def)
  obtain lost where split: "mset ?es = mset (bt_selected t) + lost" and len: "length (bt_selected t) = min (ck_limit k) (length ?rs)"
    and less: "\<And>x y. x \<in># lost \<Longrightarrow> y \<in> set (bt_selected t) \<Longrightarrow> fst x \<le> fst y"
    using select_greatest_law [OF assms(1), of ?es] unfolding sel by auto
  have "mset (map snd ?es) = image_mset snd (mset (bt_selected t) + lost)" unfolding split [symmetric] mset_map by (rule refl)
  then have records: "mset ?rs = mset (selected_records t) + image_mset snd lost" by (simp add: selected_records_def)
  have "importance k x \<le> importance k y" if x: "x \<in># image_mset snd lost" and y: "y \<in> set (selected_records t)" for x y
  proof -
    obtain q where q: "(q, x) \<in># lost" using x by auto
    obtain p where p: "(p, y) \<in> set (bt_selected t)" using y by (auto simp: selected_records_def)
    have "(q, x) \<in># mset ?es" "(p, y) \<in># mset ?es" using q p split by auto
    then have "(q, x) \<in> set ?es" "(p, y) \<in> set ?es" by simp_all
    from this [THEN ranked_rank] obtain n m where "q = record_rank (ck_important k x) n x" "p = record_rank (ck_important k y) m y"
      by blast
    with less [OF q p] show ?thesis by (auto dest: record_rank_le)
  qed
  with records len show ?thesis
    by (auto simp: retains_def selected_records_def)
qed

lemma not_invalid: "retained_capture_status p d e \<noteq> lit ''invalid''"
  by (simp add: retained_capture_status_def)

locale boundary_kind =
  fixes k :: "'a boundary_record_scheme capture_kind" and good :: "'a boundary_record_scheme \<Rightarrow> bool"
  assumes reader: "ck_reader k document j = Inr (Found e) \<Longrightarrow> distinct (de_adapters e) \<and> distinct_ids (de_records e) \<and>
      0 \<le> de_dropped e \<and> (\<exists>pid. jget document ''pid'' = JInt pid \<and> (\<forall>r\<in>set (de_records e). record_ok pid r \<and> good r))"
    and limit: "0 < ck_limit k"
begin

lemma adapters: "adapters_distinct k"
  using reader by (auto simp: adapters_distinct_def)

lemma evidence_accounts:
  assumes "capture_evidence digest k entity root_pid payloads = Inr c"
  shows "\<exists>documents. traverse parse_document payloads = Inr documents \<and> accounts digest k entity root_pid documents c"
proof -
  obtain t where t: "tally_of k payloads = Inr t" and c: "capture_of_tally digest k entity root_pid t = Inr c"
    using assms by (auto simp: capture_evidence_def rbind_eq_Inr_iff)
  obtain ds where ds: "traverse parse_document payloads = Inr ds" and fold: "t = fold (absorb_step k) ds empty_tally"
    using absorb_payloads_documents [OF t [unfolded tally_of_def]] by blast
  have "accounts digest k entity root_pid ds c"
  proof (cases "bt_invalid t")
    case True
    then show ?thesis using c by (auto simp: capture_of_tally_def accounts_def no_capture_def nothing_captured_def)
  next
    case False
    from tally_meets_spec [OF adapters False [unfolded fold]]
    have spec: "tally_spec k ds t" and read: "list_all (\<lambda>d. \<exists>r. reading_of k d = Inr r) ds"
      by (simp_all add: fold list_all_iff)
    note eqs = spec [unfolded tally_spec_def]
    show ?thesis
    proof (cases "evidences k ds = []")
      case True
      then have "bt_process_count t = 0" using eqs by simp
      then show ?thesis using c False read True by (auto simp: capture_of_tally_def accounts_def no_capture_def nothing_captured_def)
    next
      case some: False
      then have "bt_process_count t \<noteq> 0" using eqs by simp
      then obtain dropped where dropped: "bounded_sum (bt_dropped t) (bt_ordinal t - int (length (selected_records t))) (ck_label k) = Inr dropped"
        using c False by (auto simp: capture_of_tally_def Let_def rbind_eq_Inr_iff)
      obtain ce ed a u where ce: "caller_evidence digest (ck_contract k) entity (ck_event_id k) (ck_relation k) (selected_records t) = (ce, ed, a, u)"
        by (metis prod_cases4)
      have "bc_status c \<noteq> lit ''invalid''" "bc_process_count c = bt_process_count t"
        "bc_events c = map (ck_event k entity root_pid) (selected_records t)" "bc_dropped c = dropped"
        "(bc_caller_events c, bc_caller_edges c, bc_attributed c, bc_unattributed c) = (ce, ed, a, u)"
        using c False \<open>bt_process_count t \<noteq> 0\<close> dropped ce by (auto simp: capture_of_tally_def Let_def not_invalid)
      with some read eqs dropped ce spec_retains [OF limit spec] show ?thesis
        by (auto simp: accounts_def bounded_sum_Inr_iff)
    qed
  qed
  with ds show ?thesis by blast
qed

lemma observed_record:
  assumes "r \<in> set (observed_records k documents)"
  shows "\<exists>d\<in>set documents. \<exists>pid. jget d ''pid'' = JInt pid \<and> record_ok pid r \<and> good r"
proof -
  obtain e d where e: "r \<in> set (de_records e)" and d: "d \<in> set documents" "evidence_of k d = Some e"
    using assms by (auto simp: observed_records_def evidences_def map_filter_def)
  then have "ck_reader k d (jget d ''semantic_capture'') = Inr (Found e)"
    by (auto simp: evidence_of_def reading_of_def split: sum.splits reading.splits if_splits)
  from reader [OF this] e d show ?thesis by blast
qed

text \<open>Records of processes with different ids are told apart by process and number.\<close>

lemma observed_distinct:
  assumes "distinct (map (\<lambda>d. jget d ''pid'') documents)"
  shows "distinct (map (\<lambda>r. (br_parent_pid r, br_identifier r)) (observed_records k documents))"
  using assms
proof (induction documents)
  case Nil
  then show ?case by (simp add: observed_records_def evidences_def)
next
  case (Cons d ds)
  have IH: "distinct (map (\<lambda>r. (br_parent_pid r, br_identifier r)) (observed_records k ds))" using Cons by simp
  show ?case
  proof (cases "evidence_of k d")
    case None
    then show ?thesis using IH by (simp add: observed_records_def evidences_def)
  next
    case (Some e)
    then have found: "ck_reader k d (jget d ''semantic_capture'') = Inr (Found e)"
      by (auto simp: evidence_of_def reading_of_def split: sum.splits reading.splits if_splits)
    from reader [OF found] obtain pid where pid: "jget d ''pid'' = JInt pid" and ids: "distinct_ids (de_records e)"
      and own: "\<And>r. r \<in> set (de_records e) \<Longrightarrow> br_parent_pid r = pid" by (auto simp: record_ok_def)
    have "observed_records k (d # ds) = de_records e @ observed_records k ds"
      using Some by (simp add: observed_records_def evidences_def)
    moreover have "distinct (map (\<lambda>r. (br_parent_pid r, br_identifier r)) (de_records e))"
      using ids own by (auto simp: distinct_ids_def distinct_map inj_on_def)
    moreover have "br_parent_pid r \<noteq> pid" if "r \<in> set (observed_records k ds)" for r
      using observed_record [OF that] Cons.prems pid by (auto simp: record_ok_def image_iff)
    ultimately show ?thesis using IH own by force
  qed
qed

end

section \<open>The five kinds\<close>

lemma if_Missing: "(if b then Inr Missing else m) = Inr (Found e) \<longleftrightarrow> \<not> b \<and> m = Inr (Found e)"
  by simp

lemma if_Disabled:
  "(if \<not> b then rbind n (\<lambda>_. Inr Disabled) else m) = Inr (Found e) \<longleftrightarrow> b \<and> m = Inr (Found e)"
  by (auto simp: rbind_eq_Inr_iff)

lemma parsed_records: "traverse parse raw = Inr rs \<Longrightarrow> (\<And>j r. parse j = Inr r \<Longrightarrow> P r) \<Longrightarrow> \<forall>r\<in>set rs. P r"
  using traverse_Inr_mem by metis

lemma declared_pid: "doc_integer (jget d k) l = Inr pid \<Longrightarrow> jget d k = JInt pid"
  by (simp add: doc_integer_Inr_iff)

lemma read_subprocesses_ok:
  "read_subprocesses document j = Inr (Found e) \<Longrightarrow> distinct (de_adapters e) \<and> distinct_ids (de_records e) \<and> 0 \<le> de_dropped e \<and>
    (\<exists>pid. jget document ''pid'' = JInt pid \<and> (\<forall>r\<in>set (de_records e). record_ok pid r \<and> subprocess_ok r))"
  unfolding read_subprocesses_def rbind_eq_Inr_iff
proof (elim exE conjE, goal_cases)
  case 1
  note e = 1(15) [symmetric]
  show ?case
    using declared_pid [OF 1(5)] doc_integer_Inr [OF 1(9)] parsed_records [OF 1(13) subprocess_record_ok]
      deep_unless_Inr [OF 1(14)] e by simp
qed

lemma read_http_requests_ok:
  "read_http_requests document j = Inr (Found e) \<Longrightarrow> distinct (de_adapters e) \<and> distinct_ids (de_records e) \<and> 0 \<le> de_dropped e \<and>
    (\<exists>pid. jget document ''pid'' = JInt pid \<and> (\<forall>r\<in>set (de_records e). record_ok pid r \<and> request_ok r))"
  unfolding read_http_requests_def rbind_eq_Inr_iff if_Missing
proof (elim exE conjE, goal_cases)
  case 1
  note e = 1(20) [symmetric]
  show ?case
    using declared_pid [OF 1(9)] read_adapters_distinct [OF 1(7)] doc_integer_Inr [OF 1(13)]
      parsed_records [OF 1(17) http_request_record_ok] deep_unless_Inr [OF 1(19)] e by simp
qed

lemma read_network_connections_ok:
  "read_network_connections document j = Inr (Found e) \<Longrightarrow> distinct (de_adapters e) \<and> distinct_ids (de_records e) \<and> 0 \<le> de_dropped e \<and>
    (\<exists>pid. jget document ''pid'' = JInt pid \<and> (\<forall>r\<in>set (de_records e). record_ok pid r \<and> connection_ok r))"
  unfolding read_network_connections_def rbind_eq_Inr_iff if_Missing
proof (elim exE conjE, goal_cases)
  case 1
  note e = 1(20) [symmetric]
  show ?case
    using declared_pid [OF 1(9)] read_adapters_distinct [OF 1(7)] doc_integer_Inr [OF 1(13)]
      parsed_records [OF 1(17) network_connection_record_ok] deep_unless_Inr [OF 1(19)] e by simp
qed

lemma read_network_setup_ok:
  "read_network_setup document j = Inr (Found e) \<Longrightarrow> distinct (de_adapters e) \<and> distinct_ids (de_records e) \<and> 0 \<le> de_dropped e \<and>
    (\<exists>pid. jget document ''pid'' = JInt pid \<and> (\<forall>r\<in>set (de_records e). record_ok pid r \<and> phase_ok r))"
  unfolding read_network_setup_def rbind_eq_Inr_iff if_Missing
proof (elim exE conjE, goal_cases)
  case 1
  note e = 1(19) [symmetric]
  show ?case
    using declared_pid [OF 1(8)] read_adapters_distinct [OF 1(6)] doc_integer_Inr [OF 1(12)]
      parsed_records [OF 1(16) network_setup_record_ok] deep_unless_Inr [OF 1(18)] e by simp
qed

lemma read_logical_operations_ok:
  "read_logical_operations document j = Inr (Found e) \<Longrightarrow> distinct (de_adapters e) \<and> distinct_ids (de_records e) \<and> 0 \<le> de_dropped e \<and>
    (\<exists>pid. jget document ''pid'' = JInt pid \<and> (\<forall>r\<in>set (de_records e). record_ok pid r \<and> operation_ok r))"
  unfolding read_logical_operations_def rbind_eq_Inr_iff if_Missing if_Disabled
proof (elim exE conjE, goal_cases)
  case 1
  note e = 1(20) [symmetric]
  show ?case
    using declared_pid [OF 1(14)] read_adapters_distinct [OF 1(13)] doc_integer_Inr [OF 1(6)]
      parsed_records [OF 1(17) logical_operation_record_ok] deep_unless_Inr [OF 1(19)] e by simp
qed

interpretation subprocess_boundary: boundary_kind "subprocess_kind digest" subprocess_ok for digest
  by unfold_locales (simp_all add: subprocess_kind_def boundary_events_limit_def read_subprocesses_ok)

interpretation http_boundary: boundary_kind "http_kind digest" request_ok for digest
  by unfold_locales (simp_all add: http_kind_def boundary_events_limit_def read_http_requests_ok)

interpretation network_boundary: boundary_kind "network_kind digest" connection_ok for digest
  by unfold_locales (simp_all add: network_kind_def boundary_events_limit_def read_network_connections_ok)

interpretation setup_boundary: boundary_kind "network_setup_kind digest" phase_ok for digest
  by unfold_locales (simp_all add: network_setup_kind_def boundary_events_limit_def read_network_setup_ok)

interpretation logical_boundary_kind: boundary_kind "logical_kind_of digest" operation_ok for digest
  by unfold_locales (simp_all add: logical_kind_of_def boundary_events_limit_def read_logical_operations_ok)

end
