(* ===== verification/BoundaryReadBack.thy ===== *)
theory BoundaryReadBack
  imports BoundaryLaws
begin

text \<open>
  The evidence the normalization writes is the evidence the analysis reads: the call sites and edges of
  \<open>caller_evidence\<close> attribute exactly the retained records that named a caller, with none invalid, and the
  events of the five kinds are read with none malformed.
\<close>

section \<open>Attribution by exact evidence\<close>

text \<open>An edge that the attribution accepts whatever it accepted before.\<close>

definition accepted ::
  "caller_contract \<Rightarrow> (pystr, event) dict \<Rightarrow> (pystr, event) dict \<Rightarrow> causal_edge \<Rightarrow> bool" where
  "accepted c table targets e \<longleftrightarrow> (\<exists>source target.
     dget table (edge_source e) = Some source \<and> ev_id source = edge_source e \<and>
     dget table (edge_target e) = Some target \<and> ev_id target = edge_target e \<and>
     ev_kind source = callsite_kind \<and> relation_for c target = Some (edge_kind e) \<and>
     (\<forall>callers. \<not> has_key callers (edge_target e) \<longrightarrow> caller_invalid c source target e callers = Inr False))"

definition attribution_entry :: "(pystr, event) dict \<Rightarrow> causal_edge \<Rightarrow> pystr \<times> caller_attribution" where
  "attribution_entry table e = (edge_target e, attribution_of (the (dget table (edge_source e))) e)"

lemma caller_step_other:
  assumes "\<not> has_key targets (edge_target e)" "\<And>i v. dget table i = Some v \<Longrightarrow> ev_id v = i"
  shows "caller_step c table targets e st = Inr st"
  using assms by (cases st) (auto simp: caller_step_def split: option.splits)

lemma caller_step_accepted:
  assumes "has_key targets (edge_target e)" "accepted c table targets e" "edge_target e \<notin> fst ` set callers"
  shows "caller_step c table targets e (callers, invalid) = Inr (callers @ [attribution_entry table e], invalid)"
proof -
  obtain source target where f: "dget table (edge_source e) = Some source" "dget table (edge_target e) = Some target"
    "ev_id target = edge_target e" "ev_kind source = callsite_kind" "relation_for c target = Some (edge_kind e)"
    "\<forall>callers. \<not> has_key callers (edge_target e) \<longrightarrow> caller_invalid c source target e callers = Inr False"
    using assms(2) unfolding accepted_def by blast
  have "caller_invalid c source target e callers = Inr False" using f(6) assms(3) by (simp add: has_key_def)
  with f assms(1,3) show ?thesis by (simp add: caller_step_def attribution_entry_def update_new_key)
qed

lemma caller_loop_exact:
  assumes "\<And>i v. dget table i = Some v \<Longrightarrow> ev_id v = i"
    and "\<forall>e\<in>set es. has_key targets (edge_target e) \<longrightarrow> accepted c table targets e"
    and "distinct (map edge_target (filter (\<lambda>e. has_key targets (edge_target e)) es))"
    and "\<forall>e\<in>set es. edge_target e \<notin> fst ` set callers"
  shows "caller_loop c table targets es (callers, invalid) =
    Inr (callers @ map (attribution_entry table) (filter (\<lambda>e. has_key targets (edge_target e)) es), invalid)"
  using assms(2-)
proof (induction es arbitrary: callers)
  case (Cons e es)
  show ?case
  proof (cases "has_key targets (edge_target e)")
    case True
    let ?callers = "callers @ [attribution_entry table e]"
    have step: "caller_step c table targets e (callers, invalid) = Inr (?callers, invalid)"
      using Cons.prems True by (intro caller_step_accepted) simp_all
    have "caller_loop c table targets es (?callers, invalid) =
        Inr (?callers @ map (attribution_entry table) (filter (\<lambda>e. has_key targets (edge_target e)) es), invalid)"
    proof (cases "\<exists>e'\<in>set es. edge_target e' = edge_target e")
      case dup: True
      then obtain e' where "e' \<in> set es" "edge_target e' = edge_target e" by blast
      then have "edge_target e \<in> edge_target ` set (filter (\<lambda>e. has_key targets (edge_target e)) es)"
        using True by (intro image_eqI [of _ _ e']) simp_all
      then show ?thesis using Cons.prems(2) True by simp
    next
      case False
      then show ?thesis using Cons.prems True by (intro Cons.IH) (auto simp: attribution_entry_def)
    qed
    with step True show ?thesis by simp
  next
    case False
    then have "caller_step c table targets e (callers, invalid) = Inr (callers, invalid)"
      using assms(1) by (intro caller_step_other) simp_all
    with Cons False show ?thesis by simp
  qed
qed simp

lemma remdups_Nil_parts: "remdups (a @ b @ c) = [] \<longleftrightarrow> a = [] \<and> b = [] \<and> c = []"
  by simp

text \<open>When every operation that names a caller has an accepted edge and the counts of the call sites agree,
  the attribution is exact.\<close>

lemma operation_callers_exact:
  fixes events edges c
  defines "table \<equiv> event_table events" and "targets \<equiv> event_table (filter (contract_targets c) events)"
  defines "own \<equiv> filter (\<lambda>e. has_key targets (edge_target e)) edges"
  assumes ok: "\<forall>e\<in>set own. accepted c table targets e" "distinct (map edge_target own)"
    and named: "\<forall>v\<in>set events. contract_targets c v \<longrightarrow> null_or filled_text (eget v ''caller_event_id'') \<and>
      (eget v ''caller_event_id'' \<noteq> JNull \<longrightarrow> ev_id v \<in> edge_target ` set own)"
    and counts: "\<forall>e\<in>set own. \<forall>source. dget table (edge_source e) = Some source \<longrightarrow>
      count_agrees c source (length (filter (\<lambda>e'. edge_source e' = edge_source e) own))"
  shows "operation_callers events edges c = Inr (map (attribution_entry table) own, 0)"
proof -
  let ?callers = "map (attribution_entry table) own"
  have id: "\<And>i v. dget table i = Some v \<Longrightarrow> ev_id v = i" unfolding table_def using event_table_get by blast
  have target: "v \<in> set events \<and> contract_targets c v" if "(i, v) \<in> set targets" for i v
    using event_table_mem [OF that [unfolded targets_def]] by simp
  have mis: "misdeclared targets = []"
    using named target by (force simp: misdeclared_def filter_empty_conv)
  have loop: "caller_loop c table targets edges ([], misdeclared targets) = Inr (?callers, [])"
    using caller_loop_exact [OF id, where es = edges and targets = targets and c = c and callers = "[]" and invalid = "[]"] ok unfolding own_def mis by simp
  have entry: "ca_event_id (snd (attribution_entry table e)) = edge_source e" if "e \<in> set own" for e
    using ok(1) that by (auto simp: accepted_def attribution_entry_def attribution_of_def)
  have own_at: "own_targets ?callers k = map edge_target (filter (\<lambda>e. edge_source e = k) own)" for k
  proof -
    have "filter (\<lambda>(i, a). ca_event_id a = k) ?callers = map (attribution_entry table) (filter (\<lambda>e. edge_source e = k) own)"
      unfolding filter_map comp_def using entry by (intro arg_cong [of _ _ "map _"] filter_cong) (auto simp: case_prod_beta)
    then show ?thesis by (simp add: own_targets_def attribution_entry_def)
  qed
  have "\<exists>source. dget table k = Some source \<and> count_agrees c source (length ts)" if "(k, ts) \<in> set (callers_targets ?callers)" for k ts
  proof -
    from that obtain e where e: "e \<in> set own" "k = edge_source e" and ts: "ts = own_targets ?callers k"
      by (auto simp: callers_targets_mem entry)
    obtain source where "dget table k = Some source" using ok(1) e by (auto simp: accepted_def)
    with counts e ts show ?thesis by (simp add: own_at)
  qed
  then have "traverse (\<lambda>(i, ts). rbind (find table i) (\<lambda>source. Inr (if count_agrees c source (length ts) then [] else ts)))
      (callers_targets ?callers) = Inr (map (\<lambda>_. []) (callers_targets ?callers))"
    by (intro traverse_map_Inr) force
  then have wrong: "miscounted c table ?callers = Inr []"
    by (simp add: miscounted_def)
  have unres: "unresolved targets ?callers = []"
  proof -
    have "has_key ?callers i" if "(i, v) \<in> set targets" "eget v ''caller_event_id'' \<noteq> JNull" for i v
    proof -
      have "ev_id v = i" using event_table_mem [OF that(1) [unfolded targets_def]] by simp
      then have "i \<in> edge_target ` set own" using named target [OF that(1)] that(2) by blast
      then show ?thesis by (force simp: has_key_def attribution_entry_def)
    qed
    then show ?thesis by (force simp: unresolved_def filter_empty_conv)
  qed
  show ?thesis
    using loop wrong unres unfolding operation_callers_def table_def targets_def by (simp add: Let_def)
qed

section \<open>The call sites of a kind\<close>

text \<open>The attribution that the analysis gives to a record with a caller.\<close>

definition attribution_from :: "(pystr \<Rightarrow> pystr) \<Rightarrow> caller_event_contract \<Rightarrow> record_caller \<Rightarrow> caller_attribution" where
  "attribution_from digest cc caller = (let i = rc_identity caller in
     \<lparr>ca_event_id = caller_event_id digest cc i, ca_name = fi_name i, ca_module = fi_module i, ca_qualname = fi_qualname i,
      ca_filename = fi_filename i, ca_firstlineno = fi_firstlineno i, ca_scope = fi_scope i,
      ca_observation = rc_observation caller, ca_confidence = (if rc_observation caller = lit ''exact'' then Fin 1 else rnd (9 / 10))\<rparr>)"

definition caller_fields :: "string list" where
  "caller_fields = [''source'', ''scope'', ''module'', ''qualname'', ''filename'', ''firstlineno'', ''arguments_captured'', ''locals_captured'']"

lemma caller_event_fields:
  fixes digest cc entity i n
  defines "v \<equiv> caller_event digest cc entity i n"
  assumes "cc_count_attribute cc \<notin> set caller_fields"
  shows "eget v ''source'' = JStr (cc_source cc)" "eget v ''scope'' = JStr (fi_scope i)" "eget v ''module'' = JStr (fi_module i)"
    "eget v ''qualname'' = JStr (fi_qualname i)" "eget v ''filename'' = JStr (fi_filename i)"
    "eget v ''firstlineno'' = JInt (fi_firstlineno i)" "eget v ''arguments_captured'' = JBool False"
    "eget v ''locals_captured'' = JBool False" "eget v (cc_count_attribute cc) = JInt n"
  using assms(2) by (auto simp: v_def caller_event_def jget_Cons caller_fields_def)

lemma caller_event_basics [simp]:
  "ev_id (caller_event digest cc entity i n) = caller_event_id digest cc i"
  "ev_kind (caller_event digest cc entity i n) = callsite_kind"
  "ev_name (caller_event digest cc entity i n) = fi_name i"
  by (simp_all add: caller_event_def callsite_kind_def)

lemma caller_edge_basics [simp]:
  "edge_source (caller_edge digest cc caller t rel) = caller_event_id digest cc (rc_identity caller)"
  "edge_target (caller_edge digest cc caller t rel) = t" "edge_kind (caller_edge digest cc caller t rel) = rel"
  "edge_confidence (caller_edge digest cc caller t rel) = (if rc_observation caller = lit ''exact'' then Fin 1 else rnd (9 / 10))"
  "jget (edge_attributes (caller_edge digest cc caller t rel)) ''source'' = JStr (cc_source cc)"
  "jget (edge_attributes (caller_edge digest cc caller t rel)) ''observation'' = JStr (rc_observation caller)"
  by (simp_all add: caller_edge_def jget_Cons)

lemma isclose_same: "isfinite x \<Longrightarrow> isclose r a x x"
  by (cases x) (simp_all add: isclose_def feq_def)

lemma isclose_confidence:
  "isclose tolerance (Fin 0) (if b then Fin 1 else rnd (9 / 10)) (if b then Fin 1 else rnd (9 / 10))"
proof -
  have "isfinite (rnd (9 / 10))" by code_simp
  then show ?thesis by (simp add: isclose_same)
qed

lemma attributed_mem: "(caller, r) \<in> set (attributed rs) \<longleftrightarrow> r \<in> set rs \<and> br_caller r = Some caller"
  by (induction rs) (auto simp: attributed_def split: option.splits)

lemma attributed_snd: "map snd (attributed rs) = filter (\<lambda>r. br_caller r \<noteq> None) rs"
  by (induction rs) (auto simp: attributed_def split: option.splits)

lemma tally_entry: "(x, n) \<in> set (tally xs) \<longleftrightarrow> x \<in> set xs \<and> n = int (count_list xs x)"
proof -
  have d: "distinct (map fst (tally xs))" by (rule distinct_keys_tally)
  have "(x, n) \<in> set (tally xs) \<longleftrightarrow> dget (tally xs) x = Some n" using d by simp
  moreover have "dget_or (tally xs) x 0 = int (count_list xs x)" by (rule dget_or_tally)
  moreover have "has_key (tally xs) x \<longleftrightarrow> x \<in> set xs" by (simp add: has_key_def keys_tally)
  ultimately show ?thesis by (auto simp: dget_or_def has_key_iff split: option.splits)
qed

lemma tally_length: "length (tally xs) = card (set xs)"
proof -
  have "length (tally xs) = card (set (map fst (tally xs)))"
    using distinct_card [OF distinct_keys_tally [of xs]] by simp
  then show ?thesis by (simp add: keys_tally)
qed

lemma count_list_filter: "count_list xs x = length (filter (\<lambda>y. y = x) xs)"
  by (induction xs) auto

locale attributed_kind = boundary_kind k good for k good +
  fixes digest :: "pystr \<Rightarrow> pystr" and c :: caller_contract and namespace :: string
  assumes contract: "cc_source (ck_contract k) = ct_source c" "cc_count_attribute (ck_contract k) = ct_count_attribute c"
      "ct_count_attribute c \<notin> set caller_fields"
    and event: "ev_id (ck_event k entity root_pid r) = record_event_id namespace r" "ck_event_id k = record_event_id namespace"
      "eget (ck_event k entity root_pid r) ''caller_event_id'' = declared_caller digest (ck_contract k) r"
    and target: "good r \<Longrightarrow> contract_targets c (ck_event k entity root_pid r)"
      "good r \<Longrightarrow> relation_for c (ck_event k entity root_pid r) = Some (ck_relation k r)"
begin

lemma caller_accepted:
  assumes "caller_ok caller" "good r" "br_caller r = Some caller" "0 < n"
    "e = caller_edge digest (ck_contract k) caller (record_event_id namespace r) (ck_relation k r)"
    "\<not> has_key callers (record_event_id namespace r)"
  shows "caller_invalid c (caller_event digest (ck_contract k) entity (rc_identity caller) n) (ck_event k entity root_pid r) e callers = Inr False"
proof -
  have fields: "cc_count_attribute (ck_contract k) \<notin> set caller_fields" using contract by simp
  note f = caller_event_fields [OF fields, unfolded contract(1,2)]
  have scope: "not_member (JStr (fi_scope (rc_identity caller))) scopes = Inr False"
    and obs: "not_member (JStr (rc_observation caller)) observations = Inr False"
    using assms(1) by (simp_all add: member_literal caller_ok_def)
  show ?thesis
    unfolding caller_invalid_def any_of_False_iff
    using assms scope obs isclose_confidence
    by (simp add: f event contract declared_caller_def is_false_def filled_text_def int_in_def caller_ok_def text_ok_def
        fi_name_def expected_confidence_def)
qed

lemma attribution_exact:
  assumes ok: "\<And>r. r \<in> set rs \<Longrightarrow> good r \<and> pred_option caller_ok (br_caller r)"
    and ids: "distinct (map (record_event_id namespace) rs)"
    and inj: "inj_on (\<lambda>i. digest (identity_text i)) (set (map (\<lambda>(caller, r). rc_identity caller) (attributed rs)))"
    and ce: "caller_evidence digest (ck_contract k) entity (ck_event_id k) (ck_relation k) rs = (ces, es, a, u)"
    and one: "distinct (map ev_id events)"
    and present: "set ces \<subseteq> set events" "ck_event k entity root_pid ` set rs \<subseteq> set events"
    and others: "\<And>v. v \<in> set events \<Longrightarrow> contract_targets c v \<Longrightarrow> v \<in> ck_event k entity root_pid ` set rs"
    and edges: "filter (\<lambda>e. edge_target e \<in> record_event_id namespace ` set rs) edges = es"
  shows "operation_callers events edges c =
    Inr (map (\<lambda>(caller, r). (record_event_id namespace r, attribution_from digest (ck_contract k) caller)) (attributed rs), 0)"
proof -
  let ?cc = "ck_contract k" and ?table = "event_table events" and ?targets = "event_table (filter (contract_targets c) events)"
  let ?edge = "\<lambda>(caller, r). caller_edge digest ?cc caller (record_event_id namespace r) (ck_relation k r)"
  let ?identities = "map (\<lambda>(caller, r). rc_identity caller) (attributed rs)"
  let ?count = "\<lambda>caller. int (count_list ?identities (rc_identity caller))"
  let ?source = "\<lambda>caller. caller_event digest ?cc entity (rc_identity caller) (?count caller)"
  have es: "es = map ?edge (attributed rs)" and
    ces: "ces = map (\<lambda>(i, n). caller_event digest ?cc entity i n) (sort_key identity_key (tally ?identities))"
    using ce by (simp_all add: caller_evidence_def Let_def event)
  have key: "has_key ?targets i \<longleftrightarrow> i \<in> record_event_id namespace ` set rs" for i
  proof -
    have "set (filter (contract_targets c) events) = ck_event k entity root_pid ` set rs"
      using others present(2) ok target by auto
    then have "ev_id ` set (filter (contract_targets c) events) = record_event_id namespace ` set rs"
      by (simp add: image_image event)
    then show ?thesis by (simp del: set_filter)
  qed
  then have own: "filter (\<lambda>e. has_key ?targets (edge_target e)) edges = es" using edges by simp
  have source: "dget ?table (caller_event_id digest ?cc (rc_identity caller)) = Some (?source caller) \<and> 0 < ?count caller"
    if "(caller, r) \<in> set (attributed rs)" for caller r
  proof -
    have mem: "rc_identity caller \<in> set ?identities" using that by force
    then have "(rc_identity caller, ?count caller) \<in> set (tally ?identities)" by (simp add: tally_entry)
    then have "?source caller \<in> set ces" unfolding ces by force
    then have "?source caller \<in> set events" using present(1) by blast
    moreover have "0 < ?count caller" using mem count_list_0_iff [of ?identities "rc_identity caller"] by linarith
    ultimately show ?thesis using event_table_unique [OF one, of "?source caller"] by simp
  qed
  have operation: "dget ?table (record_event_id namespace r) = Some (ck_event k entity root_pid r)" if "r \<in> set rs" for r
    using event_table_unique [OF one, of "ck_event k entity root_pid r"] present(2) that by (auto simp: event)
  have accepted: "accepted c ?table ?targets (?edge p)" if "p \<in> set (attributed rs)" for p
  proof -
    obtain caller r where p: "p = (caller, r)" by (cases p)
    with that have r: "r \<in> set rs" "br_caller r = Some caller" by (simp_all add: attributed_mem)
    with ok [OF r(1)] have good: "good r" "caller_ok caller" by simp_all
    note s = source [OF that [unfolded p]]
    show ?thesis
      unfolding accepted_def p
      using s operation [OF r(1)] target(2) [OF good(1)] caller_accepted [OF good(2,1) r(2)]
      by (intro exI [of _ "?source caller"] exI [of _ "ck_event k entity root_pid r"]) (auto simp: event)
  qed
  have same: "length (filter (\<lambda>e. edge_source e = caller_event_id digest ?cc (rc_identity caller)) es) =
      count_list ?identities (rc_identity caller)" if "(caller, r) \<in> set (attributed rs)" for caller r
  proof -
    have "caller_event_id digest ?cc (rc_identity d) = caller_event_id digest ?cc (rc_identity caller) \<longleftrightarrow> rc_identity d = rc_identity caller"
      if "(d, q) \<in> set (attributed rs)" for d q
      using inj_onD [OF inj, of "rc_identity d" "rc_identity caller"] that \<open>(caller, r) \<in> _\<close>
      by (force simp: caller_event_id_def)
    then have "filter (\<lambda>e. edge_source e = caller_event_id digest ?cc (rc_identity caller)) es =
        map ?edge (filter (\<lambda>(d, q). rc_identity d = rc_identity caller) (attributed rs))"
      unfolding es filter_map by (intro arg_cong [of _ _ "map ?edge"] filter_cong) auto
    moreover have "length (filter (\<lambda>(d, q). rc_identity d = rc_identity caller) (attributed rs)) =
        count_list ?identities (rc_identity caller)"
      by (simp add: count_list_filter filter_map comp_def) (rule arg_cong [of _ _ length], rule filter_cong, auto)
    ultimately show ?thesis by simp
  qed
  have "operation_callers events edges c = Inr (map (attribution_entry ?table) es, 0)"
  proof (rule operation_callers_exact [of c events edges, unfolded own])
    show "\<forall>e\<in>set es. accepted c ?table ?targets e" using accepted by (auto simp: es simp del: split_paired_All)
    have "map edge_target es = map (record_event_id namespace) (map snd (attributed rs))"
      by (simp add: es case_prod_beta)
    then show "distinct (map edge_target es)"
      using ids by (simp only: attributed_snd distinct_map_filter)
    show "\<forall>v\<in>set events. contract_targets c v \<longrightarrow> null_or filled_text (eget v ''caller_event_id'') \<and>
        (eget v ''caller_event_id'' \<noteq> JNull \<longrightarrow> ev_id v \<in> edge_target ` set es)"
    proof (intro ballI impI)
      fix v assume "v \<in> set events" "contract_targets c v"
      then obtain r where r: "r \<in> set rs" "v = ck_event k entity root_pid r" using others by blast
      have "ev_id v \<in> edge_target ` set es" if "br_caller r = Some caller" for caller
      proof -
        have "?edge (caller, r) \<in> set es" using that r(1) by (force simp: es attributed_mem)
        then show ?thesis by (rule image_eqI [rotated]) (simp add: r(2) event)
      qed
      then show "null_or filled_text (eget v ''caller_event_id'') \<and>
          (eget v ''caller_event_id'' \<noteq> JNull \<longrightarrow> ev_id v \<in> edge_target ` set es)"
        by (auto simp: r(2) event declared_caller_def null_or_def filled_text_def caller_event_id_def split: option.splits)
    qed
    show "\<forall>e\<in>set es. \<forall>source. dget ?table (edge_source e) = Some source \<longrightarrow>
        count_agrees c source (length (filter (\<lambda>e'. edge_source e' = edge_source e) es))"
    proof (intro ballI allI impI)
      fix e w assume e: "e \<in> set es" and w: "dget ?table (edge_source e) = Some w"
      then obtain caller r where p: "(caller, r) \<in> set (attributed rs)" "e = ?edge (caller, r)" by (auto simp: es)
      with w source [OF p(1)] have "w = ?source caller" by simp
      then show "count_agrees c w (length (filter (\<lambda>e'. edge_source e' = edge_source e) es))"
        using same [OF p(1)] caller_event_fields(9) [of ?cc] contract p(2) by (simp add: count_agrees_def)
    qed
  qed
  moreover have "attribution_entry ?table (?edge (caller, r)) = (record_event_id namespace r, attribution_from digest ?cc caller)"
    if p: "(caller, r) \<in> set (attributed rs)" for caller r
  proof -
    have "caller_ok caller" using p ok [of r] by (simp add: attributed_mem)
    then have "fi_scope (rc_identity caller) \<in> set scopes" "rc_observation caller \<in> set observations" by (simp_all add: caller_ok_def)
    moreover have fields: "cc_count_attribute ?cc \<notin> set caller_fields" using contract by simp
    ultimately show ?thesis
      using source [OF p] by (simp add: attribution_entry_def attribution_of_def attribution_from_def Let_def
        caller_event_fields [OF fields] literal_of_member)
  qed
  then have "map (attribution_entry ?table) es =
      map (\<lambda>(caller, r). (record_event_id namespace r, attribution_from digest ?cc caller)) (attributed rs)"
    unfolding es map_map by (intro map_cong [OF refl]) auto
  ultimately show ?thesis by simp
qed

end

end
