(* ===== verification/IdTexts.thy ===== *)
theory IdTexts
  imports Prelude
begin

text \<open>
  Ids are put together from texts with colons between them; what can be read back from such an id.
\<close>

definition undigits :: "pystr \<Rightarrow> int" where
  "undigits s = foldl (\<lambda>a c. 10 * a + (int c - 48)) 0 s"

lemma undigits_digits: "0 \<le> n \<Longrightarrow> undigits (digits n) = n"
proof (induction n rule: digits.induct)
  case (1 n)
  show ?case
  proof (cases "n < 10")
    case True
    then show ?thesis using 1 by (subst digits.simps) (simp add: undigits_def)
  next
    case False
    then have "undigits (digits (n div 10)) = n div 10" using 1 by simp
    with False show ?thesis by (subst digits.simps) (simp add: undigits_def)
  qed
qed

lemma int_text_inject: "0 \<le> a \<Longrightarrow> 0 \<le> b \<Longrightarrow> int_text a = int_text b \<longleftrightarrow> a = b"
  unfolding int_text_def by (metis undigits_digits not_le)

lemma colon_not_digit: "0 \<le> n \<Longrightarrow> 58 \<notin> set (int_text n)"
  using digits_range by (fastforce simp: int_text_def)

lemma colon: "lit '':'' = [58]"
  by (simp add: lit_def)

lemma split_colon: "58 \<notin> set x \<Longrightarrow> 58 \<notin> set y \<Longrightarrow> x @ (58 :: nat) # r = y @ 58 # s \<longleftrightarrow> x = y \<and> r = s"
proof (induction x arbitrary: y)
  case (Cons a x)
  then show ?case by (cases y) auto
next
  case Nil
  then show ?case by (cases y) auto
qed

lemma int_text_eq: "int_text a = int_text b \<longleftrightarrow> a = b"
proof -
  have minus: "45 \<notin> set (digits n)" for n using digits_range by fastforce
  show ?thesis
  proof (cases "0 \<le> a \<and> 0 \<le> b")
    case True
    then show ?thesis by (simp add: int_text_inject)
  next
    case False
    have inj: "digits (- a) = digits (- b) \<longleftrightarrow> a = b" if "a < 0" "b < 0"
      using that undigits_digits [of "- a"] undigits_digits [of "- b"] by (metis neg_equal_iff_equal less_imp_le neg_0_le_iff_le)
    have "digits n \<noteq> 45 # t" "45 # t \<noteq> digits n" for n t using minus [of n] by (metis list.set_intros(1))+
    then show ?thesis using False inj by (cases "a < 0"; cases "b < 0") (auto simp: int_text_def lit_def)
  qed
qed

lemma split_nul: "0 \<notin> set x \<Longrightarrow> 0 \<notin> set y \<Longrightarrow> x @ (0 :: nat) # r = y @ 0 # s \<longleftrightarrow> x = y \<and> r = s"
proof (induction x arbitrary: y)
  case (Cons a x)
  then show ?case by (cases y) auto
next
  case Nil
  then show ?case by (cases y) auto
qed

lemma nul_not_digit: "0 \<notin> set (int_text n)"
proof -
  have "0 \<notin> set (digits k)" for k using digits_range [of 0 k] by auto
  then show ?thesis by (simp add: int_text_def lit_def)
qed

text \<open>The ids of a graph are put together from those of its parts.\<close>

lemma distinct_concat_map:
  assumes "distinct xs" "\<And>x. x \<in> set xs \<Longrightarrow> distinct (f x)"
    "\<And>x y. x \<in> set xs \<Longrightarrow> y \<in> set xs \<Longrightarrow> x \<noteq> y \<Longrightarrow> set (f x) \<inter> set (f y) = {}"
  shows "distinct (concat (map f xs))"
  using assms
proof (induction xs)
  case (Cons x xs)
  have "set (f x) \<inter> set (f y) = {}" if "y \<in> set xs" for y
    using Cons.prems that by (metis distinct.simps(2) list.set_intros)
  then show ?case using Cons by auto
qed simp

end
