(* ===== verification/EvidenceRoundTrip.thy ===== *)
theory EvidenceRoundTrip
  imports BoundaryReadBack IdTexts
begin

text \<open>
  The five kinds together: the ids of the evidence of a run never clash, and the analysis reads back what
  the normalization wrote, for all kinds at once.
\<close>

section \<open>Ids\<close>

lemma record_event_id_inject:
  assumes "record_ok p r" "record_ok q s"
  shows "record_event_id ns r = record_event_id ns s \<longleftrightarrow> br_parent_pid r = br_parent_pid s \<and> br_identifier r = br_identifier s"
proof -
  have "0 \<le> br_parent_pid r" "0 \<le> br_parent_pid s" "0 \<le> br_identifier r" "0 \<le> br_identifier s"
    using assms by (auto simp: record_ok_def)
  then show ?thesis
    using split_colon [OF colon_not_digit colon_not_digit, of "br_parent_pid r" "br_parent_pid s"]
    by (simp add: record_event_id_def colon int_text_inject)
qed

definition id_of_namespace :: "string \<Rightarrow> pystr \<Rightarrow> bool" where
  "id_of_namespace name i \<longleftrightarrow> (\<exists>rest. i = lit ''semantic:'' @ lit name @ 58 # rest)"

lemma id_of_namespaceI: "id_of_namespace ns (lit (''semantic:'' @ ns) @ [58] @ rest)"
  unfolding id_of_namespace_def lit_append by simp

lemma namespaces_apart:
  assumes "id_of_namespace a i" "id_of_namespace b i" "CHR '':'' \<notin> set a" "CHR '':'' \<notin> set b"
  shows "a = b"
proof -
  have no: "58 \<notin> set (lit c)" if "CHR '':'' \<notin> set c" for c
  proof
    assume "58 \<in> set (lit c)"
    then obtain x where "x \<in> set c" "of_char x = (58 :: nat)" by (auto simp: lit_def)
    moreover have "of_char (CHR '':'') = (58 :: nat)" by simp
    ultimately have "x = CHR '':''" by (metis of_char_eq_iff)
    with \<open>x \<in> set c\<close> that show False by simp
  qed
  from assms(1) obtain r where r: "i = lit ''semantic:'' @ lit a @ 58 # r" unfolding id_of_namespace_def ..
  from assms(2) obtain s where s: "i = lit ''semantic:'' @ lit b @ 58 # s" unfolding id_of_namespace_def ..
  note trans [OF r [symmetric] s]
  then have "lit a @ 58 # r = lit b @ 58 # s" by simp
  then show ?thesis using split_colon [OF no [OF assms(3)] no [OF assms(4)]] by simp
qed

text \<open>Lists of events under different names have different ids.\<close>

lemma concat_distinct_ids:
  assumes "distinct (map fst parts)" "list_all (\<lambda>(name, vs). CHR '':'' \<notin> set name \<and>
      list_all (\<lambda>v. id_of_namespace name (ev_id v)) vs \<and> distinct (map ev_id vs)) parts"
  shows "distinct (map ev_id (concat (map snd parts)))"
  using assms
proof (induction parts)
  case (Cons p parts)
  obtain name vs where p: "p = (name, vs)" by (cases p)
  have "ev_id v \<noteq> ev_id w" if v: "v \<in> set vs" and w: "w \<in> set (concat (map snd parts))" for v w
  proof
    assume same: "ev_id v = ev_id w"
    obtain name' ws where q: "(name', ws) \<in> set parts" "w \<in> set ws" using w by auto
    then have "id_of_namespace name' (ev_id w)" "CHR '':'' \<notin> set name'" using Cons.prems(2) by (auto simp: list_all_iff)
    moreover have "id_of_namespace name (ev_id v)" "CHR '':'' \<notin> set name" using Cons.prems(2) v by (auto simp: p list_all_iff)
    ultimately have "name = name'" using namespaces_apart same by simp
    with q(1) Cons.prems(1) show False by (force simp: p)
  qed
  moreover have "distinct (map ev_id vs)" using Cons.prems(2) by (simp add: p)
  moreover have "distinct (map ev_id (concat (map snd parts)))" using Cons by simp
  ultimately show ?case by (force simp: p)
qed simp

section \<open>One kind\<close>

lemmas contract_unfold = subprocess_contract_def http_contract_def network_contract_def network_setup_contract_def logical_contract_def

definition identities :: "'a boundary_record_scheme list \<Rightarrow> function_identity set" where
  "identities rs = {i. \<exists>r\<in>set rs. \<exists>caller. br_caller r = Some caller \<and> rc_identity caller = i}"

text \<open>The digest tells the callers of a run apart. (It is a hash of texts joined by NUL characters.)\<close>

definition told_apart :: "(pystr \<Rightarrow> pystr) \<Rightarrow> 'a boundary_record_scheme capture_kind \<Rightarrow> attrs list \<Rightarrow> bool" where
  "told_apart digest k documents \<longleftrightarrow> inj_on (\<lambda>i. digest (identity_text i)) (identities (observed_records k documents))"

definition one_process_per_report :: "attrs list \<Rightarrow> bool" where
  "one_process_per_report documents \<longleftrightarrow> distinct (map (\<lambda>d. jget d ''pid'') documents)"

lemma identities_attributed: "set (map (\<lambda>(caller, r). rc_identity caller) (attributed rs)) = identities rs"
  by (force simp: identities_def attributed_mem)

lemma caller_evidence_Nil: "caller_evidence digest cc entity f g [] = ([], [], 0, 0)"
  by (simp add: caller_evidence_def attributed_def tally_def)

lemma caller_evidence_parts:
  assumes "caller_evidence digest cc entity f g rs = (ces, es, a, u)"
  shows "ces = map (\<lambda>(i, n). caller_event digest cc entity i n)
      (sort_key identity_key (tally (map (\<lambda>(caller, r). rc_identity caller) (attributed rs))))"
    "es = map (\<lambda>(caller, r). caller_edge digest cc caller (f r) (g r)) (attributed rs)" "a = int (length (attributed rs))"
  using assms by (simp_all add: caller_evidence_def Let_def)

lemma retains_subset: "retains k documents rs \<Longrightarrow> set rs \<subseteq> set (observed_records k documents)"
  unfolding retains_def by (metis set_mset_mono set_mset_mset mset_subset_eq_add_left)

lemma retains_distinct:
  assumes "retains k documents rs" "distinct (map f (observed_records k documents))"
  shows "distinct (map f rs)"
proof -
  obtain lost where "mset (observed_records k documents) = mset rs + lost" using assms(1) by (auto simp: retains_def)
  then have "mset (map f (observed_records k documents)) = mset (map f rs) + image_mset f lost" by simp
  moreover obtain ys where "mset ys = image_mset f lost" using ex_mset by blast
  ultimately have "mset (map f (observed_records k documents)) = mset (map f rs @ ys)" by simp
  with assms(2) have "distinct (map f rs @ ys)" using mset_eq_imp_distinct_iff by blast
  then show ?thesis by simp
qed

definition all_contracts :: "caller_contract list" where
  "all_contracts = [subprocess_contract, http_contract, network_contract, network_setup_contract, logical_contract]"

text \<open>The evidence of one kind among that of the others.\<close>

definition evidence_part :: "caller_contract \<Rightarrow> string \<Rightarrow> string \<Rightarrow> boundary_capture \<Rightarrow> bool" where
  "evidence_part c ns cns b \<longleftrightarrow>
     (\<forall>v\<in>set (bc_events b). id_of_namespace ns (ev_id v) \<and> filter (\<lambda>c'. contract_targets c' v) all_contracts = [c]) \<and>
     (\<forall>v\<in>set (bc_caller_events b). id_of_namespace cns (ev_id v) \<and> ev_kind v = callsite_kind) \<and>
     (\<forall>e\<in>set (bc_caller_edges b). edge_target e \<in> ev_id ` set (bc_events b)) \<and>
     distinct (map ev_id (bc_caller_events b)) \<and> distinct (map ev_id (bc_events b))"

lemma no_callsite_targets: "ev_kind v = callsite_kind \<Longrightarrow> c \<in> set all_contracts \<Longrightarrow> \<not> contract_targets c v"
  by (auto simp: all_contracts_def contract_targets_def contract_unfold callsite_kind_def)

lemma part_targets:
  assumes "evidence_part c ns cns b" "c' \<in> set all_contracts"
  shows "filter (contract_targets c') (bc_caller_events b @ bc_events b) = (if c' = c then bc_events b else [])"
proof -
  have "contract_targets c' v \<longleftrightarrow> c' = c" if "v \<in> set (bc_events b)" for v
  proof -
    have "filter (\<lambda>c'. contract_targets c' v) all_contracts = [c]" using assms(1) that by (simp add: evidence_part_def)
    then have "set (filter (\<lambda>c'. contract_targets c' v) all_contracts) = {c}" by simp
    with assms(2) show ?thesis by auto
  qed
  moreover have "\<not> contract_targets c' v" if "v \<in> set (bc_caller_events b)" for v
    using assms that no_callsite_targets by (simp add: evidence_part_def)
  ultimately show ?thesis by (auto simp: filter_empty_conv filter_id_conv)
qed

lemma part_edges_own:
  "evidence_part c ns cns b \<Longrightarrow> filter (\<lambda>e. edge_target e \<in> ev_id ` set (bc_events b)) (bc_caller_edges b) = bc_caller_edges b"
  by (simp add: evidence_part_def filter_id_conv)

lemma part_edges_other:
  assumes "evidence_part c ns cns b" "evidence_part c' ns' cns' b'" "CHR '':'' \<notin> set ns" "CHR '':'' \<notin> set ns'" "ns \<noteq> ns'"
  shows "filter (\<lambda>e. edge_target e \<in> ev_id ` set (bc_events b')) (bc_caller_edges b) = []"
proof -
  have "edge_target e \<notin> ev_id ` set (bc_events b')" if e: "e \<in> set (bc_caller_edges b)" for e
  proof
    assume "edge_target e \<in> ev_id ` set (bc_events b')"
    then have "id_of_namespace ns' (edge_target e)" using assms(2) by (auto simp: evidence_part_def)
    moreover have "id_of_namespace ns (edge_target e)" using assms(1) e by (auto simp: evidence_part_def)
    ultimately show False using namespaces_apart assms(3-5) by blast
  qed
  then show ?thesis by (simp add: filter_empty_conv)
qed

context attributed_kind
begin

lemma capture_records:
  assumes "capture_evidence digest k entity root_pid payloads = Inr b" "traverse parse_document payloads = Inr ds"
    "one_process_per_report ds"
  obtains rs where "bc_events b = map (ck_event k entity root_pid) rs"
    "caller_evidence digest (ck_contract k) entity (ck_event_id k) (ck_relation k) rs =
      (bc_caller_events b, bc_caller_edges b, bc_attributed b, bc_unattributed b)"
    "distinct (map (record_event_id namespace) rs)" "set rs \<subseteq> set (observed_records k ds)"
    "\<And>r. r \<in> set rs \<Longrightarrow> good r \<and> (\<exists>pid. record_ok pid r)"
proof -
  have acc: "accounts digest k entity root_pid ds b" using evidence_accounts [OF assms(1)] assms(2) by auto
  have "\<exists>rs. bc_events b = map (ck_event k entity root_pid) rs \<and>
    caller_evidence digest (ck_contract k) entity (ck_event_id k) (ck_relation k) rs =
      (bc_caller_events b, bc_caller_edges b, bc_attributed b, bc_unattributed b) \<and> (rs = [] \<or> retains k ds rs)"
  proof (cases "nothing_captured b")
    case True
    then show ?thesis by (intro exI [of _ "[]"]) (simp add: nothing_captured_def caller_evidence_Nil)
  next
    case False
    with acc obtain rs where "retains k ds rs" "bc_events b = map (ck_event k entity root_pid) rs"
      "(bc_caller_events b, bc_caller_edges b, bc_attributed b, bc_unattributed b) =
         caller_evidence digest (ck_contract k) entity (ck_event_id k) (ck_relation k) rs"
      by (auto simp: accounts_def split: if_splits)
    then show ?thesis by (intro exI [of _ rs]) simp
  qed
  then obtain rs where rs: "bc_events b = map (ck_event k entity root_pid) rs"
    "caller_evidence digest (ck_contract k) entity (ck_event_id k) (ck_relation k) rs =
      (bc_caller_events b, bc_caller_edges b, bc_attributed b, bc_unattributed b)" "rs = [] \<or> retains k ds rs" by blast
  have sub: "set rs \<subseteq> set (observed_records k ds)" using rs(3) retains_subset by auto
  have ok: "good r \<and> (\<exists>pid. record_ok pid r)" if "r \<in> set rs" for r
    using observed_record [of r ds] sub that by blast
  have "distinct (map (\<lambda>r. (br_parent_pid r, br_identifier r)) rs)"
    using rs(3) retains_distinct observed_distinct [OF assms(3) [unfolded one_process_per_report_def]] by auto
  moreover have "record_event_id namespace r = record_event_id namespace s \<longleftrightarrow> br_parent_pid r = br_parent_pid s \<and> br_identifier r = br_identifier s"
    if "r \<in> set rs" "s \<in> set rs" for r s using ok [OF that(1)] ok [OF that(2)] record_event_id_inject by blast
  ultimately have "distinct (map (record_event_id namespace) rs)"
    by (auto simp: distinct_map inj_on_def)
  with rs sub ok show ?thesis by (intro that)
qed

lemma caller_ids_distinct:
  assumes "capture_evidence digest k entity root_pid payloads = Inr b" "traverse parse_document payloads = Inr ds"
    "one_process_per_report ds" "told_apart digest k ds"
  shows "distinct (map ev_id (bc_caller_events b)) \<and> distinct (map ev_id (bc_events b))"
proof -
  obtain rs where rs: "bc_events b = map (ck_event k entity root_pid) rs"
    "caller_evidence digest (ck_contract k) entity (ck_event_id k) (ck_relation k) rs =
      (bc_caller_events b, bc_caller_edges b, bc_attributed b, bc_unattributed b)"
    "distinct (map (record_event_id namespace) rs)" "set rs \<subseteq> set (observed_records k ds)"
    by (rule capture_records [OF assms(1-3)])
  let ?is = "map (\<lambda>(caller, r). rc_identity caller) (attributed rs)"
  have "map ev_id (bc_caller_events b) = map (\<lambda>i. caller_event_id digest (ck_contract k) i) (map fst (sort_key identity_key (tally ?is)))"
  proof -
    have "bc_caller_events b = map (\<lambda>(i, n). caller_event digest (ck_contract k) entity i n) (sort_key identity_key (tally ?is))"
      by (rule caller_evidence_parts(1) [OF rs(2)])
    then show ?thesis by (simp add: case_prod_beta)
  qed
  moreover have "distinct (map fst (sort_key identity_key (tally ?is)))"
  proof -
    have "mset (map fst (sort_key identity_key (tally ?is))) = mset (map fst (tally ?is))" by simp
    then show ?thesis using distinct_keys_tally mset_eq_imp_distinct_iff by blast
  qed
  moreover have "inj_on (caller_event_id digest (ck_contract k)) (set (map fst (sort_key identity_key (tally ?is))))"
  proof -
    have "set (map fst (sort_key identity_key (tally ?is))) \<subseteq> identities (observed_records k ds)"
      using rs(4) identities_attributed [of rs] by (auto simp: keys_tally simp flip: image_set) (auto simp: identities_def)
    then have "inj_on (\<lambda>i. digest (identity_text i)) (set (map fst (sort_key identity_key (tally ?is))))"
      using assms(4) inj_on_subset unfolding told_apart_def by blast
    then show ?thesis by (auto simp: inj_on_def caller_event_id_def)
  qed
  ultimately have "distinct (map ev_id (bc_caller_events b))" by (simp only: distinct_map)
  moreover have "map ev_id (bc_events b) = map (record_event_id namespace) rs" by (simp add: rs(1) event)
  ultimately show ?thesis using rs(3) by simp
qed

text \<open>In any run that holds this evidence and no other of its kind, the attribution is exact.\<close>

lemma capture_attribution:
  assumes run: "capture_evidence digest k entity root_pid payloads = Inr b" "traverse parse_document payloads = Inr ds"
      "one_process_per_report ds" "told_apart digest k ds"
    and one: "distinct (map ev_id events)"
    and present: "set (bc_caller_events b) \<subseteq> set events" "set (bc_events b) \<subseteq> set events"
    and others: "\<And>v. v \<in> set events \<Longrightarrow> contract_targets c v \<Longrightarrow> v \<in> set (bc_events b)"
    and edges: "filter (\<lambda>e. edge_target e \<in> ev_id ` set (bc_events b)) edges = bc_caller_edges b"
  shows "\<exists>callers. operation_callers events edges c = Inr (callers, 0) \<and> int (length callers) = bc_attributed b \<and>
    caller_total callers = int (length (bc_caller_events b))"
proof -
  obtain rs where rs: "bc_events b = map (ck_event k entity root_pid) rs"
    and ce: "caller_evidence digest (ck_contract k) entity (ck_event_id k) (ck_relation k) rs =
      (bc_caller_events b, bc_caller_edges b, bc_attributed b, bc_unattributed b)"
    and ids: "distinct (map (record_event_id namespace) rs)" and sub: "set rs \<subseteq> set (observed_records k ds)"
    and ok: "\<And>r. r \<in> set rs \<Longrightarrow> good r \<and> (\<exists>pid. record_ok pid r)"
    by (rule capture_records [OF run(1-3)]) blast
  let ?is = "map (\<lambda>(caller, r). rc_identity caller) (attributed rs)"
  have inj: "inj_on (\<lambda>i. digest (identity_text i)) (set ?is)"
  proof -
    have "set ?is \<subseteq> identities (observed_records k ds)" unfolding identities_attributed using sub by (auto simp: identities_def)
    then show ?thesis using run(4) inj_on_subset unfolding told_apart_def by blast
  qed
  have callers: "operation_callers events edges c =
    Inr (map (\<lambda>(caller, r). (record_event_id namespace r, attribution_from digest (ck_contract k) caller)) (attributed rs), 0)"
  proof (rule attribution_exact [OF _ ids inj ce one present(1)])
    show "good r \<and> pred_option caller_ok (br_caller r)" if "r \<in> set rs" for r
      using ok [OF that] by (auto simp: record_ok_def)
    show "ck_event k entity root_pid ` set rs \<subseteq> set events" using present(2) by (simp add: rs)
    show "v \<in> ck_event k entity root_pid ` set rs" if "v \<in> set events" "contract_targets c v" for v
      using others [OF that] by (simp add: rs)
    have "ev_id ` set (bc_events b) = record_event_id namespace ` set rs" by (simp add: rs image_image event)
    then show "filter (\<lambda>e. edge_target e \<in> record_event_id namespace ` set rs) edges = bc_caller_edges b"
      using edges by simp
  qed
  have "bc_attributed b = int (length (attributed rs))" by (rule caller_evidence_parts(3) [OF ce])
  moreover have "length (bc_caller_events b) = card (set ?is)"
  proof -
    have "bc_caller_events b = map (\<lambda>(i, n). caller_event digest (ck_contract k) entity i n) (sort_key identity_key (tally ?is))"
      by (rule caller_evidence_parts(1) [OF ce])
    then have "length (bc_caller_events b) = length (tally ?is)" by simp
    then show ?thesis by (simp only: tally_length)
  qed
  moreover have "caller_total (map (\<lambda>(caller, r). (record_event_id namespace r, attribution_from digest (ck_contract k) caller)) (attributed rs)) =
      int (card (set ?is))"
  proof -
    have "map (\<lambda>(i, a). ca_event_id a) (map (\<lambda>(caller, r). (record_event_id namespace r, attribution_from digest (ck_contract k) caller)) (attributed rs)) =
        map (caller_event_id digest (ck_contract k)) ?is"
      by (auto simp: attribution_from_def Let_def)
    moreover have "inj_on (caller_event_id digest (ck_contract k)) (set ?is)" using inj by (auto simp: inj_on_def caller_event_id_def)
    ultimately show ?thesis
      unfolding caller_total_def by (simp only: length_remdups_card_conv set_map card_image)
  qed
  ultimately show ?thesis using callers by simp
qed

text \<open>Such a capture is told from the evidence of the other kinds, and every event of it is read.\<close>

lemma capture_part:
  assumes run: "capture_evidence digest k entity root_pid payloads = Inr b" "traverse parse_document payloads = Inr ds"
      "one_process_per_report ds" "told_apart digest k ds"
    and names: "namespace = ''semantic:'' @ ns" "cc_namespace (ck_contract k) = lit (''semantic:'' @ cns)"
    and only: "\<And>r entity root_pid. good r \<Longrightarrow> filter (\<lambda>c'. contract_targets c' (ck_event k entity root_pid r)) all_contracts = [c]"
  shows "evidence_part c ns cns b"
proof -
  obtain rs where rs: "bc_events b = map (ck_event k entity root_pid) rs"
    and ce: "caller_evidence digest (ck_contract k) entity (ck_event_id k) (ck_relation k) rs =
      (bc_caller_events b, bc_caller_edges b, bc_attributed b, bc_unattributed b)"
    and ok: "\<And>r. r \<in> set rs \<Longrightarrow> good r \<and> (\<exists>pid. record_ok pid r)"
    by (rule capture_records [OF run(1-3)]) blast
  have own: "id_of_namespace ns (ev_id v) \<and> filter (\<lambda>c'. contract_targets c' v) all_contracts = [c]" if v: "v \<in> set (bc_events b)" for v
  proof -
    obtain r where r: "r \<in> set rs" "v = ck_event k entity root_pid r" using v by (auto simp: rs)
    have "id_of_namespace ns (ev_id v)"
      unfolding r(2) event names record_event_id_def colon by (rule id_of_namespaceI)
    with r ok only show ?thesis by simp
  qed
  have callers: "id_of_namespace cns (ev_id v) \<and> ev_kind v = callsite_kind" if v: "v \<in> set (bc_caller_events b)" for v
  proof -
    obtain i n where i: "v = caller_event digest (ck_contract k) entity i n"
      using v unfolding caller_evidence_parts(1) [OF ce] by auto
    have "id_of_namespace cns (ev_id v)"
      unfolding i caller_event_basics caller_event_id_def names colon by (rule id_of_namespaceI)
    then show ?thesis by (simp add: i)
  qed
  have edges: "edge_target e \<in> ev_id ` set (bc_events b)" if e: "e \<in> set (bc_caller_edges b)" for e
  proof -
    obtain caller r where "(caller, r) \<in> set (attributed rs)" "edge_target e = record_event_id namespace r"
      using e unfolding caller_evidence_parts(2) [OF ce] by (auto simp: event)
    then show ?thesis by (auto simp: attributed_mem rs event image_image)
  qed
  from own callers edges caller_ids_distinct [OF run] show ?thesis unfolding evidence_part_def by (intro conjI ballI) simp_all
qed

lemma capture_reads:
  assumes run: "capture_evidence digest k entity root_pid payloads = Inr b" "traverse parse_document payloads = Inr ds"
      "one_process_per_report ds" "told_apart digest k ds"
    and one: "distinct (map ev_id events)"
    and present: "set (bc_caller_events b) \<subseteq> set events" "filter (contract_targets c) events = bc_events b"
    and edges: "filter (\<lambda>e. edge_target e \<in> ev_id ` set (bc_events b)) edges = bc_caller_edges b"
    and parse: "\<And>callers pid r. record_ok pid r \<Longrightarrow> good r \<Longrightarrow>
      (if bad (ck_event k entity root_pid r) then parse callers (ck_event k entity root_pid r) = Inr None
       else \<exists>x. parse callers (ck_event k entity root_pid r) = Inr (Some x) \<and> key x = ev_id (ck_event k entity root_pid r))"
  obtains callers xs where "operation_callers events edges c = Inr (callers, 0)" "int (length callers) = bc_attributed b"
    "caller_total callers = int (length (bc_caller_events b))"
    "read_operations (contract_targets c) (parse callers) events = Inr (xs, int (length (filter bad (bc_events b))))"
    "map key xs = map ev_id (filter (\<lambda>v. \<not> bad v) (bc_events b))"
proof -
  have mem: "v \<in> set (bc_events b) \<longleftrightarrow> v \<in> set events \<and> contract_targets c v" for v
    unfolding present(2) [symmetric] by auto
  obtain callers where callers: "operation_callers events edges c = Inr (callers, 0)" "int (length callers) = bc_attributed b"
    "caller_total callers = int (length (bc_caller_events b))"
    using capture_attribution [OF run one present(1) _ _ edges] mem by blast
  obtain rs where rs: "bc_events b = map (ck_event k entity root_pid) rs"
    and ok: "\<And>r. r \<in> set rs \<Longrightarrow> good r \<and> (\<exists>pid. record_ok pid r)"
    by (rule capture_records [OF run(1-3)]) blast
  have "\<exists>xs. read_operations (\<lambda>_. True) (parse callers) (map (ck_event k entity root_pid) rs) =
      Inr (xs, int (length (filter bad (map (ck_event k entity root_pid) rs)))) \<and>
      map key xs = map ev_id (filter (\<lambda>v. \<not> bad v) (map (ck_event k entity root_pid) rs))"
    using ok
  proof (induction rs)
    case Nil
    then show ?case by (simp add: read_operations_def List.map_filter_def)
  next
    case (Cons r rs)
    then obtain xs where xs: "read_operations (\<lambda>_. True) (parse callers) (map (ck_event k entity root_pid) rs) =
        Inr (xs, int (length (filter bad (map (ck_event k entity root_pid) rs))))"
      "map key xs = map ev_id (filter (\<lambda>v. \<not> bad v) (map (ck_event k entity root_pid) rs))" by auto
    obtain pid where "good r" "record_ok pid r" using Cons.prems by auto
    from parse [OF this(2,1), of callers] xs show ?case
      by (cases "bad (ck_event k entity root_pid r)")
        (auto simp: read_operations_def rbind_eq_Inr_iff map_filter_simps)
  qed
  then obtain xs where xs: "read_operations (\<lambda>_. True) (parse callers) (bc_events b) = Inr (xs, int (length (filter bad (bc_events b))))"
      "map key xs = map ev_id (filter (\<lambda>v. \<not> bad v) (bc_events b))" by (auto simp: rs)
  have "read_operations (contract_targets c) (parse callers) events = read_operations (\<lambda>_. True) (parse callers) (bc_events b)"
    by (simp add: read_operations_def present(2))
  with callers xs show ?thesis by (intro that) simp_all
qed

end

section \<open>The five kinds\<close>

lemma event_ids:
  "ev_id (subprocess_event digest entity root_pid r1) = record_event_id ''semantic:subprocess'' r1"
  "ev_id (http_request_event digest entity root_pid r2) = record_event_id ''semantic:http'' r2"
  "ev_id (network_connection_event digest entity root_pid r3) = record_event_id ''semantic:network'' r3"
  "ev_id (network_setup_event digest entity root_pid r4) = record_event_id ''semantic:network-setup'' r4"
  "ev_id (logical_operation_event digest entity root_pid r5) = record_event_id ''semantic:logical-operation'' r5"
  by (simp_all add: subprocess_event_def http_request_event_def network_connection_event_def network_setup_event_def
      logical_operation_event_def)

lemma event_kinds:
  "ev_kind (subprocess_event digest entity root_pid r1) = lit ''subprocess.run''"
  "ev_kind (http_request_event digest entity root_pid r2) = lit ''http.client.request''"
  "ev_kind (network_connection_event digest entity root_pid r3) = lit ''network.connect''"
  "ev_kind (network_setup_event digest entity root_pid r4) =
     (if pr_phase r4 = lit ''dns'' then lit ''network.resolve'' else lit ''network.tls_handshake'')"
  by (simp_all add: subprocess_event_def http_request_event_def network_connection_event_def network_setup_event_def)

lemmas kind_defs = subprocess_kind_def http_kind_def network_kind_def network_setup_kind_def logical_kind_of_def

lemmas contract_defs = contract_unfold
  subprocess_caller_contract_def http_caller_contract_def network_caller_contract_def network_setup_caller_contract_def
  logical_caller_contract_def caller_fields_def

lemmas event_fields = subprocess_event_fields http_event_fields connection_event_fields setup_event_fields operation_event_fields

text \<open>No operation has the kind of another event.\<close>

lemma operation_kind:
  assumes "operation_ok r"
  shows "or_category r @ lit ''.'' @ or_operation r \<notin> {callsite_kind, lit ''subprocess.run'', lit ''http.client.request'',
    lit ''network.connect'', lit ''network.resolve'', lit ''network.tls_handshake''}"
proof -
  have all: "list_all (\<lambda>(c, ns). list_all (\<lambda>n. \<not> List.member [callsite_kind, lit ''subprocess.run'', lit ''http.client.request'',
      lit ''network.connect'', lit ''network.resolve'', lit ''network.tls_handshake''] (lit c @ lit ''.'' @ lit n)) ns)
      boundary_category_operations"
    by code_simp
  obtain c ns n where "(c, ns) \<in> set boundary_category_operations" "n \<in> set ns" "or_category r = lit c" "or_operation r = lit n"
    using assms by (auto simp: operation_ok_def operation_in_category_def list_ex_iff)
  with all show ?thesis unfolding list_all_iff by fastforce
qed

lemma operation_targets:
  assumes "operation_ok r"
  shows "filter (\<lambda>c'. contract_targets c' (logical_operation_event digest entity root_pid r)) all_contracts = [logical_contract]"
  using operation_kind [OF assms]
  by (simp add: all_contracts_def contract_targets_def operation_event_fields operation_event_facts contract_unfold map_filter_simps)

interpretation subprocess_attribution:
  attributed_kind "subprocess_kind digest" subprocess_ok digest subprocess_contract "''semantic:subprocess''" for digest
  by unfold_locales (simp_all add: kind_defs contract_defs event_fields event_ids event_kinds contract_targets_def relation_for_def
    map_filter_simps)

interpretation http_attribution:
  attributed_kind "http_kind digest" request_ok digest http_contract "''semantic:http''" for digest
  by unfold_locales (simp_all add: kind_defs contract_defs event_fields event_ids event_kinds contract_targets_def relation_for_def
    map_filter_simps)

interpretation network_attribution:
  attributed_kind "network_kind digest" connection_ok digest network_contract "''semantic:network''" for digest
  by unfold_locales (simp_all add: kind_defs contract_defs event_fields event_ids event_kinds contract_targets_def relation_for_def
    map_filter_simps)

interpretation setup_attribution:
  attributed_kind "network_setup_kind digest" phase_ok digest network_setup_contract "''semantic:network-setup''" for digest
  by unfold_locales (auto simp: kind_defs contract_defs event_fields event_ids event_kinds contract_targets_def relation_for_def
    map_filter_simps)

interpretation logical_attribution:
  attributed_kind "logical_kind_of digest" operation_ok digest logical_contract "''semantic:logical-operation''" for digest
proof unfold_locales
  fix r entity root_pid assume "operation_ok r"
  from operation_kind [OF this] show "contract_targets logical_contract (ck_event (logical_kind_of digest) entity root_pid r)"
    by (simp add: kind_defs contract_defs event_fields operation_event_facts contract_targets_def map_filter_simps)
qed (simp_all add: kind_defs contract_defs event_fields event_ids relation_for_def)

end
