(* ===== verification/NormalizedEvidence.thy ===== *)
theory NormalizedEvidence
  imports EvidenceRoundTrip
begin

text \<open>
  The properties of the normalized evidence of all five kinds together: its ids never clash, the analysis
  reads back what the normalization wrote, and the counts account for every observed record.
\<close>

section \<open>The parts of the evidence\<close>

definition callers_told_apart :: "(pystr \<Rightarrow> pystr) \<Rightarrow> attrs list \<Rightarrow> bool" where
  "callers_told_apart digest documents \<longleftrightarrow>
     told_apart digest (subprocess_kind digest) documents \<and> told_apart digest (http_kind digest) documents \<and>
     told_apart digest (network_kind digest) documents \<and> told_apart digest (network_setup_kind digest) documents \<and>
     told_apart digest (logical_kind_of digest) documents"

definition told_apart_parts :: "boundary_evidence \<Rightarrow> bool" where
  "told_apart_parts e \<longleftrightarrow>
     evidence_part subprocess_contract ''subprocess'' ''caller'' (be_semantic e) \<and>
     evidence_part http_contract ''http'' ''http-caller'' (be_http e) \<and>
     evidence_part network_contract ''network'' ''network-caller'' (be_network e) \<and>
     evidence_part network_setup_contract ''network-setup'' ''network-setup-caller'' (be_network_setup e) \<and>
     evidence_part logical_contract ''logical-operation'' ''logical-operation-caller'' (be_logical_operation e)"

lemma parts:
  assumes "told_apart_parts e"
  shows "evidence_part subprocess_contract ''subprocess'' ''caller'' (be_semantic e)"
    "evidence_part http_contract ''http'' ''http-caller'' (be_http e)"
    "evidence_part network_contract ''network'' ''network-caller'' (be_network e)"
    "evidence_part network_setup_contract ''network-setup'' ''network-setup-caller'' (be_network_setup e)"
    "evidence_part logical_contract ''logical-operation'' ''logical-operation-caller'' (be_logical_operation e)"
  using assms by (simp_all only: told_apart_parts_def)

lemma event_targets:
  "filter (\<lambda>c'. contract_targets c' (subprocess_event digest entity root_pid r1)) all_contracts = [subprocess_contract]"
  "filter (\<lambda>c'. contract_targets c' (http_request_event digest entity root_pid r2)) all_contracts = [http_contract]"
  "filter (\<lambda>c'. contract_targets c' (network_connection_event digest entity root_pid r3)) all_contracts = [network_contract]"
  "filter (\<lambda>c'. contract_targets c' (network_setup_event digest entity root_pid r4)) all_contracts = [network_setup_contract]"
  by (auto simp: all_contracts_def contract_targets_def event_fields event_kinds contract_unfold)

lemma evidence_runs:
  assumes "boundary_evidence_of digest entity root_pid payloads = Inr e"
  shows "capture_evidence digest (subprocess_kind digest) entity root_pid payloads = Inr (be_semantic e)"
    "capture_evidence digest (http_kind digest) entity root_pid payloads = Inr (be_http e)"
    "capture_evidence digest (network_kind digest) entity root_pid payloads = Inr (be_network e)"
    "capture_evidence digest (network_setup_kind digest) entity root_pid payloads = Inr (be_network_setup e)"
    "capture_evidence digest (logical_kind_of digest) entity root_pid payloads = Inr (be_logical_operation e)"
  using assms by (auto simp: boundary_evidence_of_def rbind_eq_Inr_iff semantic_capture_evidence_def http_capture_evidence_def
    network_capture_evidence_def network_setup_capture_evidence_def logical_operation_capture_evidence_def)

lemma evidence_parts:
  assumes run: "boundary_evidence_of digest entity root_pid payloads = Inr e" "traverse parse_document payloads = Inr ds"
    "one_process_per_report ds" "callers_told_apart digest ds"
  shows "told_apart_parts e"
proof -
  note runs = evidence_runs [OF run(1)] and apart = run(4) [unfolded callers_told_apart_def]
  have "evidence_part subprocess_contract ''subprocess'' ''caller'' (be_semantic e)"
    by (rule subprocess_attribution.capture_part [OF runs(1) run(2,3)])
      (use apart in \<open>simp_all add: kind_defs contract_defs event_targets\<close>)
  moreover have "evidence_part http_contract ''http'' ''http-caller'' (be_http e)"
    by (rule http_attribution.capture_part [OF runs(2) run(2,3)])
      (use apart in \<open>simp_all add: kind_defs contract_defs event_targets\<close>)
  moreover have "evidence_part network_contract ''network'' ''network-caller'' (be_network e)"
    by (rule network_attribution.capture_part [OF runs(3) run(2,3)])
      (use apart in \<open>simp_all add: kind_defs contract_defs event_targets\<close>)
  moreover have "evidence_part network_setup_contract ''network-setup'' ''network-setup-caller'' (be_network_setup e)"
    by (rule setup_attribution.capture_part [OF runs(4) run(2,3)])
      (use apart in \<open>simp_all add: kind_defs contract_defs event_targets\<close>)
  moreover have "evidence_part logical_contract ''logical-operation'' ''logical-operation-caller'' (be_logical_operation e)"
    by (rule logical_attribution.capture_part [OF runs(5) run(2,3)])
      (use apart in \<open>simp_all add: kind_defs contract_defs operation_targets\<close>)
  ultimately show ?thesis unfolding told_apart_parts_def by (intro conjI)
qed

section \<open>Ids\<close>

lemma parts_distinct_ids:
  assumes "told_apart_parts e"
  shows "distinct (map ev_id (boundary_events e))"
proof -
  let ?parts = "[(''caller'', bc_caller_events (be_semantic e)), (''subprocess'', bc_events (be_semantic e)),
    (''http-caller'', bc_caller_events (be_http e)), (''http'', bc_events (be_http e)),
    (''network-caller'', bc_caller_events (be_network e)), (''network'', bc_events (be_network e)),
    (''network-setup-caller'', bc_caller_events (be_network_setup e)), (''network-setup'', bc_events (be_network_setup e)),
    (''logical-operation-caller'', bc_caller_events (be_logical_operation e)), (''logical-operation'', bc_events (be_logical_operation e))]"
  have "distinct (map ev_id (concat (map snd ?parts)))"
    by (rule concat_distinct_ids) (use assms in \<open>simp_all add: told_apart_parts_def evidence_part_def list_all_iff\<close>)
  then show ?thesis by (simp add: boundary_events_def)
qed

lemma boundary_targets:
  assumes "told_apart_parts e"
  shows "filter (contract_targets subprocess_contract) (boundary_events e) = bc_events (be_semantic e)"
    "filter (contract_targets http_contract) (boundary_events e) = bc_events (be_http e)"
    "filter (contract_targets network_contract) (boundary_events e) = bc_events (be_network e)"
    "filter (contract_targets network_setup_contract) (boundary_events e) = bc_events (be_network_setup e)"
    "filter (contract_targets logical_contract) (boundary_events e) = bc_events (be_logical_operation e)"
proof -
  have all: "subprocess_contract \<in> set all_contracts" "http_contract \<in> set all_contracts" "network_contract \<in> set all_contracts"
    "network_setup_contract \<in> set all_contracts" "logical_contract \<in> set all_contracts" by (simp_all add: all_contracts_def)
  have "distinct all_contracts" by (simp add: all_contracts_def contract_unfold)
  then have ne: "subprocess_contract \<noteq> http_contract" "subprocess_contract \<noteq> network_contract" "subprocess_contract \<noteq> network_setup_contract"
    "subprocess_contract \<noteq> logical_contract" "http_contract \<noteq> network_contract" "http_contract \<noteq> network_setup_contract"
    "http_contract \<noteq> logical_contract" "network_contract \<noteq> network_setup_contract" "network_contract \<noteq> logical_contract"
    "network_setup_contract \<noteq> logical_contract" by (simp_all add: all_contracts_def)
  note parts = parts [OF assms, THEN part_targets, unfolded filter_append]
  show "filter (contract_targets subprocess_contract) (boundary_events e) = bc_events (be_semantic e)"
    "filter (contract_targets http_contract) (boundary_events e) = bc_events (be_http e)"
    "filter (contract_targets network_contract) (boundary_events e) = bc_events (be_network e)"
    "filter (contract_targets network_setup_contract) (boundary_events e) = bc_events (be_network_setup e)"
    "filter (contract_targets logical_contract) (boundary_events e) = bc_events (be_logical_operation e)"
    using parts(1) [OF all(1)] parts(2) [OF all(1)] parts(3) [OF all(1)] parts(4) [OF all(1)] parts(5) [OF all(1)]
      parts(1) [OF all(2)] parts(2) [OF all(2)] parts(3) [OF all(2)] parts(4) [OF all(2)] parts(5) [OF all(2)]
      parts(1) [OF all(3)] parts(2) [OF all(3)] parts(3) [OF all(3)] parts(4) [OF all(3)] parts(5) [OF all(3)]
      parts(1) [OF all(4)] parts(2) [OF all(4)] parts(3) [OF all(4)] parts(4) [OF all(4)] parts(5) [OF all(4)]
      parts(1) [OF all(5)] parts(2) [OF all(5)] parts(3) [OF all(5)] parts(4) [OF all(5)] parts(5) [OF all(5)] ne
    by (simp_all add: boundary_events_def)
qed

lemma boundary_own_edges:
  assumes "told_apart_parts e" "b \<in> {be_semantic e, be_http e, be_network e, be_network_setup e, be_logical_operation e}"
  shows "filter (\<lambda>d. edge_target d \<in> ev_id ` set (bc_events b)) (boundary_edges e) = bc_caller_edges b"
proof -
  note p = parts [OF assms(1)]
  have "filter (\<lambda>d. edge_target d \<in> ev_id ` set (bc_events (be_semantic e))) (boundary_edges e) = bc_caller_edges (be_semantic e)"
    using part_edges_own [OF p(1)] p(2-5) [THEN part_edges_other [OF _ p(1)]] by (simp add: boundary_edges_def)
  moreover have "filter (\<lambda>d. edge_target d \<in> ev_id ` set (bc_events (be_http e))) (boundary_edges e) = bc_caller_edges (be_http e)"
    using part_edges_own [OF p(2)] p(1,3-5) [THEN part_edges_other [OF _ p(2)]] by (simp add: boundary_edges_def)
  moreover have "filter (\<lambda>d. edge_target d \<in> ev_id ` set (bc_events (be_network e))) (boundary_edges e) = bc_caller_edges (be_network e)"
    using part_edges_own [OF p(3)] p(1,2,4,5) [THEN part_edges_other [OF _ p(3)]] by (simp add: boundary_edges_def)
  moreover have "filter (\<lambda>d. edge_target d \<in> ev_id ` set (bc_events (be_network_setup e))) (boundary_edges e) = bc_caller_edges (be_network_setup e)"
    using part_edges_own [OF p(4)] p(1-3,5) [THEN part_edges_other [OF _ p(4)]] by (simp add: boundary_edges_def)
  moreover have "filter (\<lambda>d. edge_target d \<in> ev_id ` set (bc_events (be_logical_operation e))) (boundary_edges e) = bc_caller_edges (be_logical_operation e)"
    using part_edges_own [OF p(5)] p(1-4) [THEN part_edges_other [OF _ p(5)]] by (simp add: boundary_edges_def)
  ultimately show ?thesis using assms(2) by blast
qed

section \<open>Reading the evidence\<close>

lemma event_relevance:
  "is_subprocess_event = contract_targets subprocess_contract" "is_http_event = contract_targets http_contract"
  "is_connection_event = contract_targets network_contract" "is_setup_event = contract_targets network_setup_contract"
  "is_logical_event = contract_targets logical_contract"
  by (auto simp: fun_eq_iff is_subprocess_event_def is_http_event_def is_connection_event_def is_setup_event_def is_logical_event_def
      contract_targets_def contract_unfold map_filter_simps)

lemma boundary_present:
  "b \<in> {be_semantic e, be_http e, be_network e, be_network_setup e, be_logical_operation e} \<Longrightarrow>
   set (bc_caller_events b) \<subseteq> set (boundary_events e)"
  by (auto simp: boundary_events_def)

text \<open>All events of the capture \<open>b\<close>, or as many of them as a summary holds, are among the entries \<open>xs\<close>.\<close>

definition keeps :: "nat \<Rightarrow> ('x \<Rightarrow> pystr) \<Rightarrow> 'x list \<Rightarrow> event list \<Rightarrow> bool" where
  "keeps n key xs events \<longleftrightarrow> length xs = min n (length events) \<and> (\<exists>lost. mset (map ev_id events) = mset (map key xs) + lost)"

lemma keeps_take_sorted:
  assumes "map key xs = map ev_id events"
  shows "keeps n key (take n (sort_key f xs)) events"
proof -
  have "length xs = length events" using arg_cong [OF assms, of length] by simp
  moreover have "mset (map ev_id events) = mset (map key (take n (sort_key f xs))) + mset (map key (drop n (sort_key f xs)))"
  proof -
    have "mset (map ev_id events) = image_mset key (mset (sort_key f xs))" by (simp flip: assms)
    also have "\<dots> = image_mset key (mset (take n (sort_key f xs) @ drop n (sort_key f xs)))" by simp
    finally show ?thesis unfolding mset_append by simp
  qed
  ultimately show ?thesis by (auto simp: keeps_def)
qed

lemma mset_sorted: "map key xs = map ev_id events \<Longrightarrow> mset (map key (sort_key f xs)) = mset (map ev_id events)"
  by (metis mset_map mset_sort)

text \<open>A server operation that has no status code and did not complete.\<close>

definition server_uncoded :: "event \<Rightarrow> bool" where
  "server_uncoded v \<longleftrightarrow> eget v ''category'' = jtext ''server'' \<and> eget v ''status_code'' = JNull \<and> eget v ''outcome'' \<noteq> jtext ''completed''"

lemma server_uncoded_event: "server_uncoded (logical_operation_event digest entity root_pid r) \<longleftrightarrow> \<not> coded r"
  by (auto simp: server_uncoded_def coded_def operation_event_fields json_of_optional_def split: option.splits)

lemma subprocess_evidence_read:
  assumes run: "boundary_evidence_of digest entity root_pid payloads = Inr e" "traverse parse_document payloads = Inr ds"
    "one_process_per_report ds" "callers_told_apart digest ds"
  shows "\<exists>xs. subprocess_calls (boundary_events e) (boundary_edges e) observed =
      Inr (xs, 0, 0, int (length (bc_caller_events (be_semantic e))), bc_attributed (be_semantic e)) \<and>
    keeps max_subprocess_call_summaries sc_event_id xs (bc_events (be_semantic e))"
proof -
  note part = evidence_parts [OF run]
  have apart: "told_apart digest (subprocess_kind digest) ds" using run(4) by (simp add: callers_told_apart_def)
  obtain callers xs where c: "operation_callers (boundary_events e) (boundary_edges e) subprocess_contract = Inr (callers, 0)"
      "int (length callers) = bc_attributed (be_semantic e)" "caller_total callers = int (length (bc_caller_events (be_semantic e)))"
    and r: "read_operations (contract_targets subprocess_contract) (subprocess_call_of callers observed) (boundary_events e) = Inr (xs, 0)"
      "map sc_event_id xs = map ev_id (bc_events (be_semantic e))"
    by (rule subprocess_attribution.capture_reads [OF evidence_runs(1) [OF run(1)] run(2,3) apart parts_distinct_ids [OF part]
          boundary_present boundary_targets(1) [OF part] boundary_own_edges [OF part],
        where parse = "\<lambda>callers. subprocess_call_of callers observed" and bad = "\<lambda>_. False" and key = sc_event_id])
      (use subprocess_reads_back in \<open>force simp: kind_defs event_ids\<close>)+
  show ?thesis
    unfolding subprocess_calls_def event_relevance using c r keeps_take_sorted [OF r(2)] by simp
qed

lemma http_evidence_read:
  assumes run: "boundary_evidence_of digest entity root_pid payloads = Inr e" "traverse parse_document payloads = Inr ds"
    "one_process_per_report ds" "callers_told_apart digest ds"
  shows "\<exists>xs adapters. http_requests (boundary_events e) (boundary_edges e) =
      Inr (xs, 0, 0, int (length (bc_caller_events (be_http e))), bc_attributed (be_http e), adapters) \<and>
    keeps max_http_request_summaries hr_event_id xs (bc_events (be_http e))"
proof -
  note part = evidence_parts [OF run]
  have apart: "told_apart digest (http_kind digest) ds" using run(4) by (simp add: callers_told_apart_def)
  obtain callers xs where c: "operation_callers (boundary_events e) (boundary_edges e) http_contract = Inr (callers, 0)"
      "int (length callers) = bc_attributed (be_http e)" "caller_total callers = int (length (bc_caller_events (be_http e)))"
    and r: "read_operations (contract_targets http_contract) (http_request_of callers) (boundary_events e) = Inr (xs, 0)"
      "map hr_event_id xs = map ev_id (bc_events (be_http e))"
    by (rule http_attribution.capture_reads [OF evidence_runs(2) [OF run(1)] run(2,3) apart parts_distinct_ids [OF part]
          boundary_present boundary_targets(2) [OF part] boundary_own_edges [OF part],
        where parse = "\<lambda>callers. http_request_of callers" and bad = "\<lambda>_. False" and key = hr_event_id])
      (use http_reads_back in \<open>force simp: kind_defs event_ids\<close>)+
  show ?thesis
    unfolding http_requests_def event_relevance using c r keeps_take_sorted [OF r(2)] by simp
qed

lemma network_evidence_read:
  assumes run: "boundary_evidence_of digest entity root_pid payloads = Inr e" "traverse parse_document payloads = Inr ds"
    "one_process_per_report ds" "callers_told_apart digest ds"
  shows "\<exists>xs adapters. network_connections (boundary_events e) (boundary_edges e) =
      Inr (xs, 0, 0, int (length (bc_caller_events (be_network e))), bc_attributed (be_network e), adapters) \<and>
    mset (map nc_event_id xs) = mset (map ev_id (bc_events (be_network e)))"
proof -
  note part = evidence_parts [OF run]
  have apart: "told_apart digest (network_kind digest) ds" using run(4) by (simp add: callers_told_apart_def)
  obtain callers xs where c: "operation_callers (boundary_events e) (boundary_edges e) network_contract = Inr (callers, 0)"
      "int (length callers) = bc_attributed (be_network e)" "caller_total callers = int (length (bc_caller_events (be_network e)))"
    and r: "read_operations (contract_targets network_contract) (connection_of callers) (boundary_events e) = Inr (xs, 0)"
      "map nc_event_id xs = map ev_id (bc_events (be_network e))"
    by (rule network_attribution.capture_reads [OF evidence_runs(3) [OF run(1)] run(2,3) apart parts_distinct_ids [OF part]
          boundary_present boundary_targets(3) [OF part] boundary_own_edges [OF part],
        where parse = "\<lambda>callers. connection_of callers" and bad = "\<lambda>_. False" and key = nc_event_id])
      (use connection_reads_back in \<open>force simp: kind_defs event_ids\<close>)+
  show ?thesis
    unfolding network_connections_def event_relevance using c r mset_sorted [OF r(2)] by simp
qed

lemma setup_evidence_read:
  assumes run: "boundary_evidence_of digest entity root_pid payloads = Inr e" "traverse parse_document payloads = Inr ds"
    "one_process_per_report ds" "callers_told_apart digest ds"
  shows "\<exists>xs adapters. setup_phases (boundary_events e) (boundary_edges e) =
      Inr (xs, 0, 0, int (length (bc_caller_events (be_network_setup e))), bc_attributed (be_network_setup e), adapters) \<and>
    mset (map np_event_id xs) = mset (map ev_id (bc_events (be_network_setup e)))"
proof -
  note part = evidence_parts [OF run]
  have apart: "told_apart digest (network_setup_kind digest) ds" using run(4) by (simp add: callers_told_apart_def)
  obtain callers xs where c: "operation_callers (boundary_events e) (boundary_edges e) network_setup_contract = Inr (callers, 0)"
      "int (length callers) = bc_attributed (be_network_setup e)" "caller_total callers = int (length (bc_caller_events (be_network_setup e)))"
    and r: "read_operations (contract_targets network_setup_contract) (setup_phase_of callers) (boundary_events e) = Inr (xs, 0)"
      "map np_event_id xs = map ev_id (bc_events (be_network_setup e))"
    by (rule setup_attribution.capture_reads [OF evidence_runs(4) [OF run(1)] run(2,3) apart parts_distinct_ids [OF part]
          boundary_present boundary_targets(4) [OF part] boundary_own_edges [OF part],
        where parse = "\<lambda>callers. setup_phase_of callers" and bad = "\<lambda>_. False" and key = np_event_id])
      (use setup_reads_back in \<open>force simp: kind_defs event_ids\<close>)+
  show ?thesis
    unfolding setup_phases_def event_relevance using c r mset_sorted [OF r(2)] by simp
qed

text \<open>The one exception: a server operation that did not complete and has no status code.\<close>

lemma logical_evidence_read:
  assumes run: "boundary_evidence_of digest entity root_pid payloads = Inr e" "traverse parse_document payloads = Inr ds"
    "one_process_per_report ds" "callers_told_apart digest ds"
  shows "\<exists>xs adapters. logical_operations (boundary_events e) (boundary_edges e) =
      Inr (xs, int (length (filter server_uncoded (bc_events (be_logical_operation e)))), 0,
        int (length (bc_caller_events (be_logical_operation e))), bc_attributed (be_logical_operation e), adapters) \<and>
    mset (map lo_event_id xs) = mset (map ev_id (filter (\<lambda>v. \<not> server_uncoded v) (bc_events (be_logical_operation e))))"
proof -
  note part = evidence_parts [OF run]
  have apart: "told_apart digest (logical_kind_of digest) ds" using run(4) by (simp add: callers_told_apart_def)
  obtain callers xs where c: "operation_callers (boundary_events e) (boundary_edges e) logical_contract = Inr (callers, 0)"
      "int (length callers) = bc_attributed (be_logical_operation e)"
      "caller_total callers = int (length (bc_caller_events (be_logical_operation e)))"
    and r: "read_operations (contract_targets logical_contract) (logical_operation_of callers) (boundary_events e) =
        Inr (xs, int (length (filter server_uncoded (bc_events (be_logical_operation e)))))"
      "map lo_event_id xs = map ev_id (filter (\<lambda>v. \<not> server_uncoded v) (bc_events (be_logical_operation e)))"
    by (rule logical_attribution.capture_reads [OF evidence_runs(5) [OF run(1)] run(2,3) apart parts_distinct_ids [OF part]
          boundary_present boundary_targets(5) [OF part] boundary_own_edges [OF part],
        where parse = "\<lambda>callers. logical_operation_of callers" and bad = server_uncoded and key = lo_event_id])
      (use operation_reads_back in \<open>fastforce simp: kind_defs event_ids server_uncoded_event split: if_splits\<close>)+
  show ?thesis
    unfolding logical_operations_def event_relevance using c r mset_sorted [OF r(2)] by simp
qed

end
