(* ===== verification/BoundaryProperties.thy ===== *)
theory BoundaryProperties
  imports NormalizedEvidence IdTexts
begin

text \<open>
  What the normalization of the boundary evidence promises, for all five kinds at once, with the sample
  report on which each statement is witnessed.
\<close>

section \<open>Evidence of parsed reports\<close>

text \<open>Parsing and tallying can be taken apart.\<close>

definition capture_documents ::
  "(pystr \<Rightarrow> pystr) \<Rightarrow> 'a boundary_record_scheme capture_kind \<Rightarrow> pystr \<Rightarrow> int option \<Rightarrow> attrs list \<Rightarrow> boundary_capture res" where
  "capture_documents digest k entity root_pid documents = capture_of_tally digest k entity root_pid (fold (absorb_step k) documents empty_tally)"

definition documents_evidence :: "(pystr \<Rightarrow> pystr) \<Rightarrow> pystr \<Rightarrow> int option \<Rightarrow> attrs list \<Rightarrow> boundary_evidence res" where
  "documents_evidence digest entity root_pid documents =
     rbind (capture_documents digest (subprocess_kind digest) entity root_pid documents) (\<lambda>s.
     rbind (capture_documents digest (http_kind digest) entity root_pid documents) (\<lambda>h.
     rbind (capture_documents digest (network_kind digest) entity root_pid documents) (\<lambda>n.
     rbind (capture_documents digest (network_setup_kind digest) entity root_pid documents) (\<lambda>p.
     rbind (capture_documents digest (logical_kind_of digest) entity root_pid documents) (\<lambda>l.
     Inr \<lparr>be_semantic = s, be_http = h, be_network = n, be_network_setup = p, be_logical_operation = l\<rparr>)))))"

lemma absorb_payloads_parsed:
  "traverse parse_document payloads = Inr documents \<Longrightarrow> absorb_payloads step payloads t = Inr (fold step documents t)"
  by (induction payloads arbitrary: documents t) (auto simp: rbind_eq_Inr_iff)

lemma boundary_evidence_parsed:
  assumes "traverse parse_document payloads = Inr documents"
  shows "boundary_evidence_of digest entity root_pid payloads = documents_evidence digest entity root_pid documents"
  by (simp add: boundary_evidence_of_def documents_evidence_def semantic_capture_evidence_def http_capture_evidence_def
      network_capture_evidence_def network_setup_capture_evidence_def logical_operation_capture_evidence_def
      capture_evidence_def capture_documents_def tally_of_def absorb_payloads_parsed [OF assms])

section \<open>A report\<close>

text \<open>Process 7 ran one subprocess, which exited with status 1, and lost two more.\<close>

definition sample_document :: attrs where
  "sample_document = [(lit ''pid'', JInt 7), (lit ''semantic_capture'', JObj [(lit ''format_version'', JInt 2), (lit ''observer'', jtext
     ''python-runtime-boundary-wrapper''), (lit ''limits'', JObj [(lit ''max_subprocesses'', JInt 256)]), (lit
     ''subprocesses'', JList [JObj [(lit ''id'', JInt 1), (lit ''name'', jtext ''git''), (lit ''parent_pid'', JInt 7), (lit
     ''child_pid'', JInt 8), (lit ''started_at_ns'', JInt 5), (lit ''duration_ns'', JInt 4), (lit ''exit_code'', JInt 1),
     (lit ''outcome'', jtext ''exited''), (lit ''caller'', JObj [(lit ''scope'', jtext ''application''), (lit
     ''observation'', jtext ''exact''), (lit ''module'', jtext ''m''), (lit ''qualname'', jtext ''f''), (lit ''filename'',
     jtext ''a''), (lit ''firstlineno'', JInt 3)])]]), (lit ''subprocess_count'', JInt 1), (lit ''dropped_subprocess_count'',
     JInt 2), (lit ''callback_error_count'', JInt 0), (lit ''caller_callback_error_count'', JInt 0)])]"

definition sample_payload :: payload where
  "sample_payload = Some (lit (''{\"pid\":7,\"semantic_capture\":{\"format_version\":2,\"observer\":\"python-runtime-boundary-wrapper\",\"limits'' @
     ''\":{\"max_subprocesses\":256},\"subprocesses\":[{\"id\":1,\"name\":\"git\",\"parent_pid\":7,\"child_pid\":8,\"starte'' @
     ''d_at_ns\":5,\"duration_ns\":4,\"exit_code\":1,\"outcome\":\"exited\",\"caller\":{\"scope\":\"application\",\"observa'' @
     ''tion\":\"exact\",\"module\":\"m\",\"qualname\":\"f\",\"filename\":\"a\",\"firstlineno\":3}}],\"subprocess_count\":1,\"dr'' @
     ''opped_subprocess_count\":2,\"callback_error_count\":0,\"caller_callback_error_count\":0}}''))"

lemma sample_parsed: "traverse parse_document [sample_payload] = Inr [sample_document]"
proof -
  have "(case parse_document sample_payload of Inr d \<Rightarrow> d = sample_document | _ \<Rightarrow> False)" by code_simp
  then show ?thesis by (auto split: sum.splits)
qed

lemma sample_evidence:
  "(case documents_evidence id (lit ''e'') (Some 7) [sample_document] of
      Inr e \<Rightarrow> length (bc_events (be_semantic e)) = 1 \<and> bc_attributed (be_semantic e) = 1 \<and>
        bc_status (be_semantic e) \<noteq> lit ''invalid'' \<and> bc_dropped (be_semantic e) = 2
    | _ \<Rightarrow> False)"
  by code_simp

section \<open>The properties\<close>

text \<open>The callers that the reports name, and those whose texts have no NUL character, which separates the parts
  of the text that is digested.\<close>

definition caller_identities :: "(pystr \<Rightarrow> pystr) \<Rightarrow> attrs list \<Rightarrow> function_identity set" where
  "caller_identities digest documents =
     identities (observed_records (subprocess_kind digest) documents) \<union> identities (observed_records (http_kind digest) documents) \<union>
     identities (observed_records (network_kind digest) documents) \<union> identities (observed_records (network_setup_kind digest) documents) \<union>
     identities (observed_records (logical_kind_of digest) documents)"

definition plain_identity :: "function_identity \<Rightarrow> bool" where
  "plain_identity i \<longleftrightarrow> 0 \<notin> set (fi_module i) \<and> 0 \<notin> set (fi_qualname i) \<and> 0 \<notin> set (fi_filename i)"

lemma identity_text_inject:
  assumes "plain_identity i" "plain_identity j"
  shows "identity_text i = identity_text j \<longleftrightarrow> i = j"
  using assms
  by (auto simp: identity_text_def plain_identity_def split_nul nul_not_digit int_text_eq intro: function_identity.equality)

text \<open>With NUL characters it is not: two callers may have one text.\<close>

definition nul_caller :: "pystr \<Rightarrow> pystr \<Rightarrow> json" where
  "nul_caller m q = JObj [(lit ''scope'', jtext ''library''), (lit ''observation'', jtext ''exact''), (lit ''module'', JStr m),
     (lit ''qualname'', JStr q), (lit ''filename'', jtext ''d''), (lit ''firstlineno'', JInt 1)]"

lemma identity_texts_collide:
  "(case (read_caller (nul_caller [97] [98, 0, 99]), read_caller (nul_caller [97, 0, 98] [99])) of
      (Inr c, Inr c') \<Rightarrow> rc_identity c \<noteq> rc_identity c' \<and> identity_text (rc_identity c) = identity_text (rc_identity c')
    | _ \<Rightarrow> False)"
  by code_simp

lemma plain_callers_told_apart:
  assumes "\<forall>i\<in>caller_identities digest documents. plain_identity i" "inj_on digest (identity_text ` caller_identities digest documents)"
  shows "callers_told_apart digest documents"
proof -
  have all: "inj_on (\<lambda>i. digest (identity_text i)) (caller_identities digest documents)"
    using assms identity_text_inject by (auto simp: inj_on_def)
  have "told_apart digest k documents" if "identities (observed_records k documents) \<subseteq> caller_identities digest documents"
    for k :: "'a boundary_record_scheme capture_kind"
    using inj_on_subset [OF all that] by (simp add: told_apart_def)
  then show ?thesis unfolding callers_told_apart_def
    using inj_on_subset [OF all] by (auto simp: told_apart_def caller_identities_def)
qed

text \<open>C23. Whatever the reports hold, no two events of the normalized evidence share an id: neither those of the
  records nor those of their callers, whose ids are digests of their texts. The reports come from different
  processes, the module, function and file names of the callers have no NUL character, and the digest (SHA-256) does
  not collide on the texts of these callers.\<close>

theorem boundary_ids_distinct:
  assumes "boundary_evidence_of digest entity root_pid payloads = Inr e" "traverse parse_document payloads = Inr documents"
    "one_process_per_report documents" "\<forall>i\<in>caller_identities digest documents. plain_identity i"
    "inj_on digest (identity_text ` caller_identities digest documents)"
  shows "distinct (map ev_id (boundary_events e))"
  by (rule parts_distinct_ids [OF evidence_parts [OF assms(1-3) plain_callers_told_apart [OF assms(4,5)]]])

lemma told_apart_single:
  assumes "length (observed_records k documents) \<le> 1"
  shows "told_apart digest k documents"
proof -
  have "observed_records k documents = [] \<or> (\<exists>r. observed_records k documents = [r])"
    using assms by (cases "observed_records k documents") auto
  then show ?thesis by (auto simp: told_apart_def identities_def inj_on_def)
qed

lemma sample_one_process: "one_process_per_report [sample_document]"
  by (simp add: one_process_per_report_def)

lemma sample_callers: "callers_told_apart id [sample_document]"
proof -
  have "length (observed_records (subprocess_kind id) [sample_document]) \<le> 1" by code_simp
  moreover have "length (observed_records (http_kind id) [sample_document]) \<le> 1" by code_simp
  moreover have "length (observed_records (network_kind id) [sample_document]) \<le> 1" by code_simp
  moreover have "length (observed_records (network_setup_kind id) [sample_document]) \<le> 1" by code_simp
  moreover have "length (observed_records (logical_kind_of id) [sample_document]) \<le> 1" by code_simp
  ultimately show ?thesis unfolding callers_told_apart_def by (intro conjI told_apart_single)
qed

lemma sample_run:
  obtains e where "boundary_evidence_of id (lit ''e'') (Some 7) [sample_payload] = Inr e"
    "length (bc_events (be_semantic e)) = 1" "bc_attributed (be_semantic e) = 1"
    "bc_status (be_semantic e) \<noteq> lit ''invalid''" "bc_dropped (be_semantic e) = 2"
  using sample_evidence unfolding boundary_evidence_parsed [OF sample_parsed, symmetric] by (auto split: sum.splits)

theorem boundary_ids_distinct_witness:
  "\<exists>e. boundary_evidence_of id (lit ''e'') (Some 7) [sample_payload] = Inr e \<and> distinct (map ev_id (boundary_events e)) \<and>
     length (bc_events (be_semantic e)) = 1"
proof -
  obtain e where e: "boundary_evidence_of id (lit ''e'') (Some 7) [sample_payload] = Inr e" "length (bc_events (be_semantic e)) = 1"
    by (rule sample_run)
  have "list_all plain_identity (concat (map (\<lambda>r. case br_caller r of None \<Rightarrow> [] | Some c \<Rightarrow> [rc_identity c])
      (observed_records (subprocess_kind id) [sample_document])))" by code_simp
  then have "\<forall>i\<in>identities (observed_records (subprocess_kind id) [sample_document]). plain_identity i"
    by (fastforce simp: identities_def list_all_iff)
  moreover have "observed_records (http_kind id) [sample_document] = []" "observed_records (network_kind id) [sample_document] = []"
    "observed_records (network_setup_kind id) [sample_document] = []" "observed_records (logical_kind_of id) [sample_document] = []"
    by code_simp+
  ultimately have "\<forall>i\<in>caller_identities id [sample_document]. plain_identity i"
    by (simp add: caller_identities_def) (simp add: identities_def)
  from e boundary_ids_distinct [OF e(1) sample_parsed sample_one_process this] show ?thesis by simp
qed

text \<open>C9. The analysis reads all of the normalized evidence back: every retained event of the five kinds is
  read, up to the length of the summaries, no event and no attribution counts as invalid, and the call sites
  and the attributed operations are those that the normalization counted. The one exception are server
  operations without a status code that did not complete, which the analysis counts as invalid.\<close>

theorem normalized_evidence_read_back:
  assumes "boundary_evidence_of digest entity root_pid payloads = Inr e" "traverse parse_document payloads = Inr documents"
    "one_process_per_report documents" "callers_told_apart digest documents"
  defines "events \<equiv> boundary_events e" and "edges \<equiv> boundary_edges e"
    and "callers \<equiv> \<lambda>b. int (length (bc_caller_events b))" and "named \<equiv> bc_attributed"
  shows "(\<exists>xs. subprocess_calls events edges observed = Inr (xs, 0, 0, callers (be_semantic e), named (be_semantic e)) \<and>
        keeps max_subprocess_call_summaries sc_event_id xs (bc_events (be_semantic e))) \<and>
    (\<exists>xs adapters. http_requests events edges = Inr (xs, 0, 0, callers (be_http e), named (be_http e), adapters) \<and>
        keeps max_http_request_summaries hr_event_id xs (bc_events (be_http e))) \<and>
    (\<exists>xs adapters. network_connections events edges = Inr (xs, 0, 0, callers (be_network e), named (be_network e), adapters) \<and>
        mset (map nc_event_id xs) = mset (map ev_id (bc_events (be_network e)))) \<and>
    (\<exists>xs adapters. setup_phases events edges = Inr (xs, 0, 0, callers (be_network_setup e), named (be_network_setup e), adapters) \<and>
        mset (map np_event_id xs) = mset (map ev_id (bc_events (be_network_setup e)))) \<and>
    (\<exists>xs adapters. logical_operations events edges =
        Inr (xs, int (length (filter server_uncoded (bc_events (be_logical_operation e)))), 0,
          callers (be_logical_operation e), named (be_logical_operation e), adapters) \<and>
        mset (map lo_event_id xs) = mset (map ev_id (filter (\<lambda>v. \<not> server_uncoded v) (bc_events (be_logical_operation e)))))"
  unfolding events_def edges_def callers_def named_def
  using subprocess_evidence_read [OF assms(1-4), of observed] http_evidence_read [OF assms(1-4)] network_evidence_read [OF assms(1-4)]
    setup_evidence_read [OF assms(1-4)] logical_evidence_read [OF assms(1-4)] by (intro conjI)

theorem normalized_evidence_read_back_witness:
  "\<exists>e xs. boundary_evidence_of id (lit ''e'') (Some 7) [sample_payload] = Inr e \<and>
     subprocess_calls (boundary_events e) (boundary_edges e) [] = Inr (xs, 0, 0, int (length (bc_caller_events (be_semantic e))), 1) \<and>
     keeps max_subprocess_call_summaries sc_event_id xs (bc_events (be_semantic e))"
proof -
  obtain e where e: "boundary_evidence_of id (lit ''e'') (Some 7) [sample_payload] = Inr e" "bc_attributed (be_semantic e) = 1"
    by (rule sample_run)
  have "\<exists>xs. subprocess_calls (boundary_events e) (boundary_edges e) [] =
      Inr (xs, 0, 0, int (length (bc_caller_events (be_semantic e))), bc_attributed (be_semantic e)) \<and>
      keeps max_subprocess_call_summaries sc_event_id xs (bc_events (be_semantic e))"
    by (rule conjunct1 [OF normalized_evidence_read_back [OF e(1) sample_parsed sample_one_process sample_callers]])
  with e show ?thesis by simp
qed

text \<open>C14. The evidence of each kind accounts for the records of all reports: it retains the most important
  ones in order of time, at most 2,000, adds the others to the number of dropped records, and attributes
  what it retained; an invalid capture holds no evidence at all.\<close>

theorem boundary_evidence_accounts:
  assumes "boundary_evidence_of digest entity root_pid payloads = Inr e"
  shows "\<exists>documents. traverse parse_document payloads = Inr documents \<and>
    accounts digest (subprocess_kind digest) entity root_pid documents (be_semantic e) \<and>
    accounts digest (http_kind digest) entity root_pid documents (be_http e) \<and>
    accounts digest (network_kind digest) entity root_pid documents (be_network e) \<and>
    accounts digest (network_setup_kind digest) entity root_pid documents (be_network_setup e) \<and>
    accounts digest (logical_kind_of digest) entity root_pid documents (be_logical_operation e)"
proof -
  note runs = evidence_runs [OF assms]
  note acc = subprocess_boundary.evidence_accounts [OF runs(1)] http_boundary.evidence_accounts [OF runs(2)]
    network_boundary.evidence_accounts [OF runs(3)] setup_boundary.evidence_accounts [OF runs(4)]
    logical_boundary_kind.evidence_accounts [OF runs(5)]
  from acc(1) obtain documents where documents: "traverse parse_document payloads = Inr documents" by blast
  with acc show ?thesis by (intro exI [of _ documents]) simp
qed

theorem boundary_evidence_accounts_witness:
  "\<exists>e. boundary_evidence_of id (lit ''e'') (Some 7) [sample_payload] = Inr e \<and> bc_status (be_semantic e) \<noteq> lit ''invalid'' \<and>
     bc_dropped (be_semantic e) = 2 \<and> accounts id (subprocess_kind id) (lit ''e'') (Some 7) [sample_document] (be_semantic e)"
proof -
  obtain e where e: "boundary_evidence_of id (lit ''e'') (Some 7) [sample_payload] = Inr e" "bc_status (be_semantic e) \<noteq> lit ''invalid''"
    "bc_dropped (be_semantic e) = 2" by (rule sample_run)
  from e boundary_evidence_accounts [OF e(1)] sample_parsed show ?thesis by auto
qed

text \<open>C40. A server operation that is in progress when its report is written passes the checks of the
  normalization, and the event it becomes is malformed for the analysis.\<close>

theorem unfinished_server_operation_rejected:
  assumes "logical_operation_record pid j = Inr r" "or_category r = lit ''server''" "br_outcome r = lit ''unknown''" "or_status_code r = None"
  shows "logical_operation_of callers (logical_operation_event digest entity root_pid r) = Inr None"
proof -
  have "\<not> coded r" using assms by (simp add: coded_def)
  then show ?thesis using logical_operation_record_ok [OF assms(1)] operation_reads_back by fastforce
qed

definition serving_record :: json where
  "serving_record = JObj [(lit ''id'', JInt 1), (lit ''category'', jtext ''server''), (lit ''operation'', jtext ''request''),
     (lit ''adapter'', jtext ''stdlib.wsgiref''), (lit ''parent_pid'', JInt 7), (lit ''started_at_ns'', JInt 6),
     (lit ''outcome'', jtext ''unknown'')]"

theorem unfinished_server_operation_rejected_witness:
  "\<exists>r. logical_operation_record 7 serving_record = Inr r \<and>
     logical_operation_of [] (logical_operation_event id (lit ''e'') (Some 7) r) = Inr None"
proof -
  have "(case logical_operation_record 7 serving_record of
      Inr r \<Rightarrow> or_category r = lit ''server'' \<and> br_outcome r = lit ''unknown'' \<and> or_status_code r = None | _ \<Rightarrow> False)"
    by code_simp
  then obtain r where r: "logical_operation_record 7 serving_record = Inr r" "or_category r = lit ''server''"
    "br_outcome r = lit ''unknown''" "or_status_code r = None" by (auto split: sum.splits)
  from r unfinished_server_operation_rejected [OF r] show ?thesis by blast
qed

end
