(* ===== verification/JobRecord.thy ===== *)
theory JobRecord
  imports ProfileSummary JsonSupport
begin

text \<open>
  The record of one capture job and its form on disk: \<open>capture_jobs/_common.py\<close> and
  \<open>capture_jobs/_models.py\<close>. A worker keeps its job in a file that any later command reads back, so every
  field is checked. The two literal types are datatypes; the counters that the source keeps per stream
  under the prefixes \<open>stdout\<close> and \<open>stderr\<close> are one record each.
\<close>

section \<open>Checks\<close>

definition job_error :: "string \<Rightarrow> 'a res" where
  "job_error message = Inl (CaptureJobError (lit message))"

definition job_unless :: "bool \<Rightarrow> string \<Rightarrow> unit res" where
  "job_unless ok message = raise_if (\<not> ok) (CaptureJobError (lit message))"

lemma job_unless_Inr_iff [res_simps]: "job_unless b m = Inr u \<longleftrightarrow> b"
  by (simp add: job_unless_def raise_if_Inr_iff)

lemma job_unless_True [simp]: "job_unless True m = Inr ()"
  by (simp add: job_unless_def)

lemma job_error_not_Inr [simp]: "job_error m \<noteq> Inr x"
  by (simp add: job_error_def)

definition job_id_ok :: "pystr \<Rightarrow> bool" where
  "job_id_ok s \<longleftrightarrow> length s = 32 \<and> list_all (\<lambda>c. c \<in> set (lit ''0123456789abcdef'')) s"

definition validate_job_id :: "pystr \<Rightarrow> pystr res" where
  "validate_job_id s = rbind (job_unless (job_id_ok s) ''capture job ID must be 32 lowercase hexadecimal characters'') (\<lambda>_. Inr s)"

definition max_job_operation_bytes :: nat where
  "max_job_operation_bytes = 128"

definition validate_operation :: "json \<Rightarrow> pystr res" where
  "validate_operation j = (case j of
     JStr s \<Rightarrow>
       (if s = [] \<or> 0 \<in> set s then job_error ''capture job operation is invalid''
        else if \<not> utf8_ok s then job_error ''capture job operation must be valid UTF-8''
        else if max_job_operation_bytes < utf8_length s then job_error ''capture job operation cannot exceed 128 bytes''
        else Inr s)
   | _ \<Rightarrow> job_error ''capture job operation is invalid'')"

definition job_integer :: "json \<Rightarrow> string \<Rightarrow> int \<Rightarrow> int \<Rightarrow> int res" where
  "job_integer j label lo hi = (case j of
     JInt n \<Rightarrow> if lo \<le> n \<and> n \<le> hi then Inr n else job_error (''capture job '' @ label @ '' is invalid'')
   | _ \<Rightarrow> job_error (''capture job '' @ label @ '' is invalid''))"

definition job_optional_integer :: "json \<Rightarrow> string \<Rightarrow> int \<Rightarrow> int \<Rightarrow> int option res" where
  "job_optional_integer j label lo hi = (if j = JNull then Inr None else rbind (job_integer j label lo hi) (\<lambda>n. Inr (Some n)))"

definition job_boolean :: "json \<Rightarrow> string \<Rightarrow> bool res" where
  "job_boolean j label = (case j of JBool b \<Rightarrow> Inr b | _ \<Rightarrow> job_error (''capture job '' @ label @ '' is invalid''))"

definition operation_name_ok :: "pystr \<Rightarrow> bool" where
  "operation_name_ok s \<longleftrightarrow> s \<noteq> [] \<and> 0 \<notin> set s \<and> utf8_ok s \<and> utf8_length s \<le> max_job_operation_bytes"

lemma validate_operation_Inr_iff [res_simps]: "validate_operation j = Inr s \<longleftrightarrow> j = JStr s \<and> operation_name_ok s"
  by (auto simp: validate_operation_def operation_name_ok_def split: json.splits if_splits)

lemma job_integer_Inr_iff [res_simps]: "job_integer j l lo hi = Inr n \<longleftrightarrow> j = JInt n \<and> lo \<le> n \<and> n \<le> hi"
  by (auto simp: job_integer_def split: json.splits if_splits)

lemma job_optional_integer_Inr_iff [res_simps]:
  "job_optional_integer j l lo hi = Inr v \<longleftrightarrow> (case v of None \<Rightarrow> j = JNull | Some n \<Rightarrow> j = JInt n \<and> lo \<le> n \<and> n \<le> hi)"
  by (auto simp: job_optional_integer_def res_simps split: option.splits)

lemma job_optional_integer_pred: "job_optional_integer j l lo hi = Inr v \<Longrightarrow> pred_option (\<lambda>n. lo \<le> n \<and> n \<le> hi) v"
  by (simp add: job_optional_integer_Inr_iff split: option.splits)

lemma job_boolean_Inr_iff [res_simps]: "job_boolean j l = Inr b \<longleftrightarrow> j = JBool b"
  by (auto simp: job_boolean_def split: json.splits)

section \<open>The job\<close>

datatype job_state = Starting | Running | Complete | Failed | Lost

datatype retention = NoOutput | Head | HeadTail

record stream_state =
  ss_size_bytes :: int
  ss_truncated :: bool
  ss_head_size_bytes :: int
  ss_tail_size_bytes :: int
  ss_omitted_bytes :: int
  ss_omitted_bytes_truncated :: bool

definition empty_stream :: stream_state where
  "empty_stream = \<lparr>ss_size_bytes = 0, ss_truncated = False, ss_head_size_bytes = 0, ss_tail_size_bytes = 0,
     ss_omitted_bytes = 0, ss_omitted_bytes_truncated = False\<rparr>"

record capture_job =
  jb_id :: pystr
  jb_operation :: pystr
  jb_state :: job_state
  jb_worker_pid :: "int option"
  jb_started_at_ns :: int
  jb_updated_at_ns :: int
  jb_client_disconnected :: bool
  jb_exit_status :: "int option"
  jb_artifacts :: "pystr list"
  jb_detached :: bool
  jb_retention :: retention
  jb_stdout :: stream_state
  jb_stderr :: stream_state

fun state_text :: "job_state \<Rightarrow> pystr" where
  "state_text Starting = lit ''starting''"
| "state_text Running = lit ''running''"
| "state_text Complete = lit ''complete''"
| "state_text Failed = lit ''failed''"
| "state_text Lost = lit ''lost''"

fun retention_text :: "retention \<Rightarrow> pystr" where
  "retention_text NoOutput = lit ''none''"
| "retention_text Head = lit ''head''"
| "retention_text HeadTail = lit ''head-tail''"

definition terminal_state :: "job_state \<Rightarrow> bool" where
  "terminal_state s \<longleftrightarrow> s \<in> {Complete, Failed, Lost}"

definition terminal :: "capture_job \<Rightarrow> bool" where
  "terminal job \<longleftrightarrow> terminal_state (jb_state job)"

definition job_output_limit :: int where
  "job_output_limit = 1048576"

definition job_output_head_limit :: int where
  "job_output_head_limit = job_output_limit div 2"

definition job_output_tail_limit :: int where
  "job_output_tail_limit = job_output_limit - job_output_head_limit"

fun output_limits :: "retention \<Rightarrow> int \<times> int" where
  "output_limits NoOutput = (0, 0)"
| "output_limits Head = (job_output_limit, 0)"
| "output_limits HeadTail = (job_output_head_limit, job_output_tail_limit)"

section \<open>Writing\<close>

definition stream_fields :: "string \<Rightarrow> stream_state \<Rightarrow> attrs" where
  "stream_fields p s =
     [(lit (p @ ''_size_bytes''), JInt (ss_size_bytes s)), (lit (p @ ''_head_size_bytes''), JInt (ss_head_size_bytes s)),
      (lit (p @ ''_tail_size_bytes''), JInt (ss_tail_size_bytes s)), (lit (p @ ''_omitted_bytes''), JInt (ss_omitted_bytes s)),
      (lit (p @ ''_omitted_bytes_truncated''), JBool (ss_omitted_bytes_truncated s)), (lit (p @ ''_truncated''), JBool (ss_truncated s))]"

definition job_output :: "capture_job \<Rightarrow> attrs" where
  "job_output job =
     [(lit ''retained'', JBool (jb_detached job)), (lit ''limit_bytes_per_stream'', JInt job_output_limit),
      (lit ''retention_strategy'', JStr (retention_text (jb_retention job))),
      (lit ''head_limit_bytes_per_stream'', JInt (fst (output_limits (jb_retention job)))),
      (lit ''tail_limit_bytes_per_stream'', JInt (snd (output_limits (jb_retention job))))] @
     stream_fields ''stdout'' (jb_stdout job) @ stream_fields ''stderr'' (jb_stderr job)"

definition json_of_int_option :: "int option \<Rightarrow> json" where
  "json_of_int_option v = (case v of None \<Rightarrow> JNull | Some n \<Rightarrow> JInt n)"

text \<open>The model adapter writes the fields that are not excluded, and the computed one last.\<close>

definition job_value :: "capture_job \<Rightarrow> attrs" where
  "job_value job =
     [(lit ''job_id'', JStr (jb_id job)), (lit ''operation'', JStr (jb_operation job)), (lit ''state'', JStr (state_text (jb_state job))),
      (lit ''worker_pid'', json_of_int_option (jb_worker_pid job)), (lit ''started_at_ns'', JInt (jb_started_at_ns job)),
      (lit ''updated_at_ns'', JInt (jb_updated_at_ns job)), (lit ''client_disconnected'', JBool (jb_client_disconnected job)),
      (lit ''exit_status'', json_of_int_option (jb_exit_status job)), (lit ''artifacts'', JList (map JStr (jb_artifacts job))),
      (lit ''detached'', JBool (jb_detached job)), (lit ''output'', JObj (job_output job))]"

definition capture_job_document :: "capture_job \<Rightarrow> attrs res" where
  "capture_job_document job = output_document (lit ''runtime.capture_job'') [(lit ''job'', JObj (job_value job))]"

definition capture_jobs_document :: "capture_job list \<Rightarrow> attrs res" where
  "capture_jobs_document jobs = output_document (lit ''runtime.capture_jobs'') [(lit ''jobs'', JList (map (JObj \<circ> job_value) jobs))]"

definition job_format_version :: int where
  "job_format_version = 2"

definition stored_value :: "capture_job \<Rightarrow> json" where
  "stored_value job = JObj ((lit ''format_version'', JInt job_format_version) # job_value job)"

section \<open>Reading\<close>

definition max_job_omitted_bytes :: int where
  "max_job_omitted_bytes = 2 ^ 63 - 1"

definition stream_state_of :: "attrs \<Rightarrow> string \<Rightarrow> int \<Rightarrow> int \<Rightarrow> stream_state res" where
  "stream_state_of output p head_limit tail_limit =
     rbind (job_integer (jget output (p @ ''_size_bytes'')) (p @ '' size'') 0 job_output_limit) (\<lambda>n.
     rbind (job_boolean (jget output (p @ ''_truncated'')) (p @ '' truncation state'')) (\<lambda>truncated.
     rbind (job_integer (jget output (p @ ''_head_size_bytes'')) (p @ '' head size'') 0 head_limit) (\<lambda>h.
     rbind (job_integer (jget output (p @ ''_tail_size_bytes'')) (p @ '' tail size'') 0 tail_limit) (\<lambda>t.
     rbind (job_integer (jget output (p @ ''_omitted_bytes'')) (p @ '' omitted size'') 0 max_job_omitted_bytes) (\<lambda>omitted.
     rbind (job_boolean (jget output (p @ ''_omitted_bytes_truncated'')) (p @ '' omitted output state'')) (\<lambda>omitted_truncated.
     rbind (job_unless (n = h + t) (''capture job '' @ p @ '' segment sizes are inconsistent'')) (\<lambda>_.
     rbind (job_unless (\<not> ((omitted \<noteq> 0 \<or> omitted_truncated) \<and> \<not> truncated))
       (''capture job omitted '' @ p @ '' is not marked truncated'')) (\<lambda>_.
     Inr \<lparr>ss_size_bytes = n, ss_truncated = truncated, ss_head_size_bytes = h, ss_tail_size_bytes = t,
       ss_omitted_bytes = omitted, ss_omitted_bytes_truncated = omitted_truncated\<rparr>))))))))"

text \<open>\<open>os.fsencode\<close>: UTF-8, where the surrogates that stand for undecodable bytes become those bytes again.\<close>

definition escaped_byte :: "nat \<Rightarrow> bool" where
  "escaped_byte c \<longleftrightarrow> 0xDC80 \<le> c \<and> c \<le> 0xDCFF"

definition path_encodable :: "pystr \<Rightarrow> bool" where
  "path_encodable s \<longleftrightarrow> list_all (\<lambda>c. \<not> is_surrogate c \<or> escaped_byte c) s"

definition path_length :: "pystr \<Rightarrow> nat" where
  "path_length s = sum_list (map (\<lambda>c. if escaped_byte c then 1 else utf8_width c) s)"

definition max_job_artifacts :: nat where
  "max_job_artifacts = 4"

definition max_job_artifact_bytes :: nat where
  "max_job_artifact_bytes = 4096"

definition read_artifact :: "json \<Rightarrow> pystr res" where
  "read_artifact j = (case j of
     JStr s \<Rightarrow>
       (if 0 \<in> set s then job_error ''capture job artifact path is invalid''
        else if \<not> path_encodable s then job_error ''capture job artifact path is invalid''
        else if max_job_artifact_bytes < path_length s then job_error ''capture job artifact path exceeds its byte limit''
        else Inr s)
   | _ \<Rightarrow> job_error ''capture job artifact path is invalid'')"

definition read_artifacts :: "json \<Rightarrow> pystr list res" where
  "read_artifacts j = (case j of
     JList vs \<Rightarrow> if max_job_artifacts < length vs then job_error ''capture job artifacts are invalid'' else traverse read_artifact vs
   | _ \<Rightarrow> job_error ''capture job artifacts are invalid'')"

definition state_of_text :: "pystr \<Rightarrow> job_state" where
  "state_of_text s = (if s = lit ''starting'' then Starting else if s = lit ''running'' then Running
     else if s = lit ''complete'' then Complete else if s = lit ''failed'' then Failed else Lost)"

definition retention_of_text :: "pystr \<Rightarrow> retention" where
  "retention_of_text s = (if s = lit ''none'' then NoOutput else if s = lit ''head'' then Head else HeadTail)"

definition state_names :: "pystr list" where
  "state_names = [lit ''starting'', lit ''running'', lit ''complete'', lit ''failed'', lit ''lost'']"

definition retention_names :: "pystr list" where
  "retention_names = [lit ''none'', lit ''head'', lit ''head-tail'']"

text \<open>\<open>value not in {...}\<close> raises \<open>TypeError\<close> on a list or an object.\<close>

definition read_named :: "json \<Rightarrow> pystr list \<Rightarrow> string \<Rightarrow> pystr res" where
  "read_named j names message = rbind (not_member j names) (\<lambda>bad. rbind (job_unless (\<not> bad) message) (\<lambda>_. Inr (the_text j)))"

definition capture_job_from_value :: "json \<Rightarrow> pystr \<Rightarrow> capture_job res" where
  "capture_job_from_value j expected =
     (case j of JObj value \<Rightarrow>
     rbind (job_unless (equals_int job_format_version (jget value ''format_version'')) ''capture job state version is unsupported'') (\<lambda>_.
     rbind (job_unless (jget value ''job_id'' = JStr expected) ''capture job state identity does not match its directory'') (\<lambda>_.
     rbind (validate_operation (jget value ''operation'')) (\<lambda>operation.
     rbind (read_named (jget value ''state'') state_names ''capture job state is invalid'') (\<lambda>state_value.
     let s = state_of_text state_value in
     rbind (job_optional_integer (jget value ''worker_pid'') ''worker PID'' 1 max_int64) (\<lambda>worker_pid.
     rbind (job_integer (jget value ''started_at_ns'') ''start timestamp'' 0 max_int64) (\<lambda>started.
     rbind (job_integer (jget value ''updated_at_ns'') ''update timestamp'' 0 max_int64) (\<lambda>updated.
     rbind (job_unless (started \<le> updated) ''capture job update precedes its start'') (\<lambda>_.
     rbind (job_boolean (jget value ''client_disconnected'') ''client-disconnection state'') (\<lambda>disconnected.
     rbind (job_optional_integer (jget value ''exit_status'') ''exit status'' 0 255) (\<lambda>exit_status.
     rbind (read_artifacts (jget value ''artifacts'')) (\<lambda>artifacts.
     rbind (job_boolean (jget value ''detached'') ''detached state'') (\<lambda>detached.
     (case jget value ''output'' of JObj output \<Rightarrow>
     rbind (job_unless (jget output ''retained'' = JBool detached) ''capture job output retention state is invalid'') (\<lambda>_.
     rbind (job_unless (equals_int job_output_limit (jget output ''limit_bytes_per_stream'')) ''capture job output limit is unsupported'') (\<lambda>_.
     rbind (read_named (jget output ''retention_strategy'') retention_names ''capture job output retention strategy is invalid'') (\<lambda>strategy.
     let kept = retention_of_text strategy; limits = output_limits kept in
     rbind (job_unless (equals_int (fst limits) (jget output ''head_limit_bytes_per_stream'') \<and>
       equals_int (snd limits) (jget output ''tail_limit_bytes_per_stream'')) ''capture job output segment limits are unsupported'') (\<lambda>_.
     rbind (stream_state_of output ''stdout'' (fst limits) (snd limits)) (\<lambda>stdout.
     rbind (stream_state_of output ''stderr'' (fst limits) (snd limits)) (\<lambda>stderr.
     rbind (job_unless (\<not> (detached \<and> kept = NoOutput)) ''detached capture job must retain output'') (\<lambda>_.
     rbind (job_unless (\<not> (\<not> detached \<and> kept \<noteq> NoOutput)) ''attached capture job cannot retain output'') (\<lambda>_.
     rbind (job_unless (\<not> (\<not> detached \<and> (stdout \<noteq> empty_stream \<or> stderr \<noteq> empty_stream)))
       ''attached capture job cannot retain output'') (\<lambda>_.
     rbind (job_unless (\<not> (s = Running \<and> worker_pid = None)) ''running capture job must have a worker PID'') (\<lambda>_.
     rbind (job_unless (\<not> (s \<in> {Starting, Running} \<and> exit_status \<noteq> None)) ''active capture job cannot have an exit status'') (\<lambda>_.
     rbind (job_unless (\<not> (s \<in> {Complete, Failed} \<and> exit_status = None)) ''finished capture job must have an exit status'') (\<lambda>_.
     Inr \<lparr>jb_id = expected, jb_operation = operation, jb_state = s, jb_worker_pid = worker_pid, jb_started_at_ns = started,
       jb_updated_at_ns = updated, jb_client_disconnected = disconnected, jb_exit_status = exit_status, jb_artifacts = artifacts,
       jb_detached = detached, jb_retention = kept, jb_stdout = stdout, jb_stderr = stderr\<rparr>))))))))))))
      | _ \<Rightarrow> job_error ''capture job output state is invalid'')))))))))))))
    | _ \<Rightarrow> job_error ''capture job state must be an object'')"

section \<open>What a stored job satisfies\<close>

definition stream_ok :: "int \<times> int \<Rightarrow> stream_state \<Rightarrow> bool" where
  "stream_ok limits s \<longleftrightarrow> 0 \<le> ss_head_size_bytes s \<and> ss_head_size_bytes s \<le> fst limits \<and>
     0 \<le> ss_tail_size_bytes s \<and> ss_tail_size_bytes s \<le> snd limits \<and>
     ss_size_bytes s = ss_head_size_bytes s + ss_tail_size_bytes s \<and>
     0 \<le> ss_omitted_bytes s \<and> ss_omitted_bytes s \<le> max_job_omitted_bytes \<and>
     (ss_omitted_bytes s \<noteq> 0 \<or> ss_omitted_bytes_truncated s \<longrightarrow> ss_truncated s)"

definition artifact_ok :: "pystr \<Rightarrow> bool" where
  "artifact_ok s \<longleftrightarrow> 0 \<notin> set s \<and> path_encodable s \<and> path_length s \<le> max_job_artifact_bytes"

definition job_ok :: "capture_job \<Rightarrow> bool" where
  "job_ok job \<longleftrightarrow> operation_name_ok (jb_operation job) \<and> pred_option (\<lambda>n. 1 \<le> n \<and> n \<le> max_int64) (jb_worker_pid job) \<and>
     0 \<le> jb_started_at_ns job \<and> jb_started_at_ns job \<le> jb_updated_at_ns job \<and> jb_updated_at_ns job \<le> max_int64 \<and>
     pred_option (\<lambda>n. 0 \<le> n \<and> n \<le> 255) (jb_exit_status job) \<and>
     length (jb_artifacts job) \<le> max_job_artifacts \<and> list_all artifact_ok (jb_artifacts job) \<and>
     stream_ok (output_limits (jb_retention job)) (jb_stdout job) \<and> stream_ok (output_limits (jb_retention job)) (jb_stderr job) \<and>
     (jb_detached job \<longleftrightarrow> jb_retention job \<noteq> NoOutput) \<and>
     (\<not> jb_detached job \<longrightarrow> jb_stdout job = empty_stream \<and> jb_stderr job = empty_stream) \<and>
     (jb_state job = Running \<longrightarrow> jb_worker_pid job \<noteq> None) \<and>
     (jb_state job \<in> {Starting, Running} \<longrightarrow> jb_exit_status job = None) \<and>
     (jb_state job \<in> {Complete, Failed} \<longrightarrow> jb_exit_status job \<noteq> None)"

lemma read_named_Inr_iff [res_simps]: "read_named j names m = Inr s \<longleftrightarrow> j = JStr s \<and> s \<in> set names"
proof (cases j)
  case (JStr t)
  then show ?thesis by (auto simp: read_named_def not_member_def member_def res_simps)
qed (simp_all add: read_named_def not_member_def member_def res_simps)

lemma read_artifact_Inr_iff [res_simps]: "read_artifact j = Inr s \<longleftrightarrow> j = JStr s \<and> artifact_ok s"
  by (auto simp: read_artifact_def artifact_ok_def split: json.splits if_splits)

lemma read_artifacts_Inr_iff [res_simps]:
  "read_artifacts j = Inr ss \<longleftrightarrow> j = JList (map JStr ss) \<and> length ss \<le> max_job_artifacts \<and> list_all artifact_ok ss"
proof -
  have "list_all2 (\<lambda>x y. x = JStr y \<and> artifact_ok y) vs ss \<longleftrightarrow> vs = map JStr ss \<and> list_all artifact_ok ss" for vs
    by (induction ss arbitrary: vs) (auto simp: list_all2_Cons2)
  then have items: "traverse read_artifact vs = Inr ss \<longleftrightarrow> vs = map JStr ss \<and> list_all artifact_ok ss" for vs
    by (simp add: traverse_eq_Inr_iff read_artifact_Inr_iff)
  show ?thesis
  proof (cases j)
    case (JList vs)
    show ?thesis
    proof (cases "vs = map JStr ss")
      case True
      then show ?thesis using items [of vs] by (simp add: JList read_artifacts_def job_error_def)
    next
      case False
      then show ?thesis using items [of vs] by (simp add: JList read_artifacts_def job_error_def)
    qed
  qed (simp_all add: read_artifacts_def job_error_def)
qed

lemma state_of_state_text [simp]: "state_of_text (state_text s) = s"
  by (cases s) (simp_all add: state_of_text_def)

lemma state_text_known [simp]: "state_text s \<in> set state_names"
  by (cases s) (simp_all add: state_names_def)

lemma retention_of_retention_text [simp]: "retention_of_text (retention_text r) = r"
  by (cases r) (simp_all add: retention_of_text_def)

lemma retention_text_known [simp]: "retention_text r \<in> set retention_names"
  by (cases r) (simp_all add: retention_names_def)

lemma output_limits_bounds: "0 \<le> fst (output_limits r)" "0 \<le> snd (output_limits r)" "fst (output_limits r) + snd (output_limits r) \<le> job_output_limit"
  by (cases r; simp add: job_output_limit_def job_output_head_limit_def job_output_tail_limit_def)+

lemma equals_int_JInt [simp]: "equals_int n (JInt m) \<longleftrightarrow> n = m"
  by (auto simp: equals_int_def)

lemma json_of_int_option_cases: "(case v of None \<Rightarrow> json_of_int_option v = JNull | Some n \<Rightarrow> json_of_int_option v = JInt n)"
  by (simp add: json_of_int_option_def split: option.splits)

lemma stream_state_of_Inr: "stream_state_of output p h t = Inr s \<Longrightarrow> stream_ok (h, t) s"
  by (auto simp: stream_state_of_def res_simps stream_ok_def)

lemma stream_state_round_trip:
  assumes "stream_ok (output_limits r) s"
    and "jget output (p @ ''_size_bytes'') = JInt (ss_size_bytes s)" "jget output (p @ ''_truncated'') = JBool (ss_truncated s)"
    "jget output (p @ ''_head_size_bytes'') = JInt (ss_head_size_bytes s)" "jget output (p @ ''_tail_size_bytes'') = JInt (ss_tail_size_bytes s)"
    "jget output (p @ ''_omitted_bytes'') = JInt (ss_omitted_bytes s)"
    "jget output (p @ ''_omitted_bytes_truncated'') = JBool (ss_omitted_bytes_truncated s)"
  shows "stream_state_of output p (fst (output_limits r)) (snd (output_limits r)) = Inr s"
proof -
  have n: "ss_size_bytes s \<le> job_output_limit" "0 \<le> ss_size_bytes s"
    using assms(1) output_limits_bounds [of r] by (auto simp: stream_ok_def)
  have "s = \<lparr>ss_size_bytes = ss_size_bytes s, ss_truncated = ss_truncated s, ss_head_size_bytes = ss_head_size_bytes s,
     ss_tail_size_bytes = ss_tail_size_bytes s, ss_omitted_bytes = ss_omitted_bytes s,
     ss_omitted_bytes_truncated = ss_omitted_bytes_truncated s\<rparr>" by simp
  with n assms(1) show ?thesis
    unfolding stream_state_of_def assms(2-7) rbind_eq_Inr_iff job_integer_Inr_iff job_boolean_Inr_iff job_unless_Inr_iff json.inject
    by (auto simp: stream_ok_def)
qed

lemma job_output_fields:
  fixes job :: capture_job
  defines "d \<equiv> job_output job"
  shows "jget d ''retained'' = JBool (jb_detached job)" "jget d ''limit_bytes_per_stream'' = JInt job_output_limit"
    "jget d ''retention_strategy'' = JStr (retention_text (jb_retention job))"
    "jget d ''head_limit_bytes_per_stream'' = JInt (fst (output_limits (jb_retention job)))"
    "jget d ''tail_limit_bytes_per_stream'' = JInt (snd (output_limits (jb_retention job)))"
  by (simp_all add: d_def job_output_def jget_Cons)

lemma job_output_streams:
  assumes "stream_ok (output_limits (jb_retention job)) (jb_stdout job)" "stream_ok (output_limits (jb_retention job)) (jb_stderr job)"
  defines "d \<equiv> job_output job" and "h \<equiv> fst (output_limits (jb_retention job))" and "t \<equiv> snd (output_limits (jb_retention job))"
  shows "stream_state_of d ''stdout'' h t = Inr (jb_stdout job)" "stream_state_of d ''stderr'' h t = Inr (jb_stderr job)"
  unfolding d_def h_def t_def
  by (rule stream_state_round_trip [OF assms(1)]; simp add: job_output_def stream_fields_def jget_Cons)
    (rule stream_state_round_trip [OF assms(2)]; simp add: job_output_def stream_fields_def jget_Cons)

lemma job_value_fields:
  fixes job :: capture_job
  defines "d \<equiv> (lit ''format_version'', JInt job_format_version) # job_value job"
  shows "jget d ''format_version'' = JInt job_format_version" "jget d ''job_id'' = JStr (jb_id job)" "jget d ''operation'' = JStr (jb_operation job)"
    "jget d ''state'' = JStr (state_text (jb_state job))" "jget d ''worker_pid'' = json_of_int_option (jb_worker_pid job)"
    "jget d ''started_at_ns'' = JInt (jb_started_at_ns job)" "jget d ''updated_at_ns'' = JInt (jb_updated_at_ns job)"
    "jget d ''client_disconnected'' = JBool (jb_client_disconnected job)" "jget d ''exit_status'' = json_of_int_option (jb_exit_status job)"
    "jget d ''artifacts'' = JList (map JStr (jb_artifacts job))" "jget d ''detached'' = JBool (jb_detached job)"
    "jget d ''output'' = JObj (job_output job)"
  by (simp_all add: d_def job_value_def jget_Cons)

text \<open>What was written is read back, and only what satisfies the invariant is read.\<close>

lemma job_round_trip:
  assumes "job_ok job"
  shows "capture_job_from_value (stored_value job) (jb_id job) = Inr job"
proof -
  note ok = assms [unfolded job_ok_def]
  have pid: "job_optional_integer (json_of_int_option (jb_worker_pid job)) ''worker PID'' 1 max_int64 = Inr (jb_worker_pid job)"
    using ok by (auto simp: res_simps json_of_int_option_def split: option.splits)
  have status: "job_optional_integer (json_of_int_option (jb_exit_status job)) ''exit status'' 0 255 = Inr (jb_exit_status job)"
    using ok by (auto simp: res_simps json_of_int_option_def split: option.splits)
  have operation: "validate_operation (JStr (jb_operation job)) = Inr (jb_operation job)"
    using ok by (simp add: validate_operation_Inr_iff)
  have artifacts: "read_artifacts (JList (map JStr (jb_artifacts job))) = Inr (jb_artifacts job)"
    using ok by (simp add: read_artifacts_Inr_iff)
  have named: "read_named (JStr (state_text (jb_state job))) state_names m = Inr (state_text (jb_state job))"
    "read_named (JStr (retention_text (jb_retention job))) retention_names m = Inr (retention_text (jb_retention job))" for m
    by (simp_all add: read_named_Inr_iff)
  have times: "job_integer (JInt (jb_started_at_ns job)) l 0 max_int64 = Inr (jb_started_at_ns job)"
    "job_integer (JInt (jb_updated_at_ns job)) l 0 max_int64 = Inr (jb_updated_at_ns job)" for l
    using ok by (simp_all add: job_integer_Inr_iff)
  have bools: "job_boolean (JBool b) l = Inr b" for b l by (simp add: job_boolean_Inr_iff)
  have streams: "stream_ok (output_limits (jb_retention job)) (jb_stdout job)" "stream_ok (output_limits (jb_retention job)) (jb_stderr job)"
    using ok by simp_all
  have conditions: "jb_started_at_ns job \<le> jb_updated_at_ns job"
    "\<not> (jb_detached job \<and> jb_retention job = NoOutput)" "\<not> (\<not> jb_detached job \<and> jb_retention job \<noteq> NoOutput)"
    "\<not> (\<not> jb_detached job \<and> (jb_stdout job \<noteq> empty_stream \<or> jb_stderr job \<noteq> empty_stream))"
    "\<not> (jb_state job = Running \<and> jb_worker_pid job = None)" "\<not> (jb_state job \<in> {Starting, Running} \<and> jb_exit_status job \<noteq> None)"
    "\<not> (jb_state job \<in> {Complete, Failed} \<and> jb_exit_status job = None)"
    using ok by auto
  show ?thesis
    unfolding stored_value_def capture_job_from_value_def json.case job_value_fields job_output_fields pid status operation artifacts
      named times bools Let_def rbind_simps equals_int_JInt state_of_state_text retention_of_retention_text
      job_output_streams [OF streams]
    by (simp only: conditions simp_thms job_unless_True rbind_simps) simp
qed

lemma job_value_read:
  assumes "capture_job_from_value j expected = Inr job"
  shows "jb_id job = expected \<and> job_ok job"
proof -
  obtain d where j: "j = JObj d" using assms by (cases j) (simp_all add: capture_job_from_value_def)
  have "\<exists>output. jget d ''output'' = JObj output"
    using assms unfolding capture_job_from_value_def j json.case rbind_eq_Inr_iff Let_def
    by (elim exE conjE) (cases "jget d ''output''"; simp)
  then obtain out where out: "jget d ''output'' = JObj out" ..
  show ?thesis
    using assms unfolding capture_job_from_value_def j json.case out rbind_eq_Inr_iff Let_def
  proof (elim exE conjE, goal_cases)
    case 1
    note r = 1(25) [unfolded sum.inject, symmetric]
    show ?case
      unfolding job_ok_def r capture_job.simps
      using 1(3) [unfolded validate_operation_Inr_iff] job_optional_integer_pred [OF 1(5)] 1(6,7) [unfolded job_integer_Inr_iff]
        1(8,19-24) [unfolded job_unless_Inr_iff] job_optional_integer_pred [OF 1(10)] 1(11) [unfolded read_artifacts_Inr_iff]
        stream_state_of_Inr [OF 1(17)] stream_state_of_Inr [OF 1(18)]
      by (intro conjI; (simp; fail)?) auto
  qed
qed

end
