(* ===== verification/JobStore.thy ===== *)
theory JobStore
  imports JobRecord
begin

text \<open>
  The directory of the capture jobs: \<open>capture_jobs/_repository.py\<close> and \<open>capture_jobs/_output.py\<close>. Every job
  has a directory with its state, the lock its worker holds while it is alive, the channel for
  cancellation and the retained output. The state file is given by the value that \<open>json.loads\<close> returns for
  it, or by the message of the error that reading it ends in; the files are private as they were created,
  and the operating system's part of a message is left out. An operation that fails leaves the directory
  as it is, unless its result says otherwise. A directory whose creation or removal has been cut off lacks some
  of its entries. Beside the entries of a directory stands the relay of each output stream that its worker keeps
  in memory (\<open>capture_worker.py\<close>).
\<close>

section \<open>The relay of the output\<close>

text \<open>The last bytes of a stream, in the chunks they came in.\<close>

record retained_tail =
  rt_chunks :: "nat list list"
  rt_size_bytes :: int

definition empty_tail :: retained_tail where
  "empty_tail = \<lparr>rt_chunks = [], rt_size_bytes = 0\<rparr>"

fun trim_tail :: "nat list list \<Rightarrow> int \<Rightarrow> retained_tail res" where
  "trim_tail [] n = (if job_output_tail_limit < n then Inl IndexError else Inr \<lparr>rt_chunks = [], rt_size_bytes = n\<rparr>)"
| "trim_tail (first # chunks) n =
     (if job_output_tail_limit < n then
        let excess = n - job_output_tail_limit in
        if int (length first) \<le> excess then trim_tail chunks (n - int (length first))
        else Inr \<lparr>rt_chunks = drop (nat excess) first # chunks, rt_size_bytes = n - excess\<rparr>
      else Inr \<lparr>rt_chunks = first # chunks, rt_size_bytes = n\<rparr>)"

definition append_tail :: "nat list \<Rightarrow> retained_tail \<Rightarrow> retained_tail res" where
  "append_tail content tail =
     (if content = [] then Inr tail
      else if job_output_tail_limit \<le> int (length content)
      then let retained = drop (length content - nat job_output_tail_limit) content
        in Inr \<lparr>rt_chunks = [retained], rt_size_bytes = int (length retained)\<rparr>
      else trim_tail (rt_chunks tail @ [content]) (rt_size_bytes tail + int (length content)))"

definition tail_snapshot :: "retained_tail \<Rightarrow> nat list" where
  "tail_snapshot tail = concat (rt_chunks tail)"

record output_relay =
  or_head_size_bytes :: int
  or_total_size_bytes :: int
  or_tail :: retained_tail

definition empty_relay :: output_relay where
  "empty_relay = \<lparr>or_head_size_bytes = 0, or_total_size_bytes = 0, or_tail = empty_tail\<rparr>"

text \<open>\<open>content[:n]\<close>\<close>

definition slice_to :: "int \<Rightarrow> 'a list \<Rightarrow> 'a list" where
  "slice_to n xs = (if 0 \<le> n then take (nat n) xs else take (length xs - nat (- n)) xs)"

text \<open>What is written to the head file for one chunk, and the relay after it.\<close>

definition relay_chunk :: "nat list \<Rightarrow> output_relay \<Rightarrow> (nat list \<times> output_relay) res" where
  "relay_chunk content r =
     (let head = slice_to (job_output_head_limit - or_head_size_bytes r) content in
      rbind (append_tail (drop (length head) content) (or_tail r)) (\<lambda>tail.
      Inr (head, \<lparr>or_head_size_bytes = or_head_size_bytes r + int (length head),
        or_total_size_bytes = or_total_size_bytes r + int (length content), or_tail = tail\<rparr>)))"

datatype relay_state = Unopened | Relaying output_relay | Stopped

section \<open>The directory\<close>

datatype state_file = NoState | BadState pystr | Stored json

datatype lock_file = NoLock | BadLock | Free | Held

datatype cancel_channel = NoChannel | BadChannel | NoReader | Listening nat

record job_dir =
  jd_state :: state_file
  jd_lock :: lock_file
  jd_channel :: cancel_channel
  jd_stdout :: "nat list option"
  jd_stderr :: "nat list option"
  jd_stdout_tail :: "nat list option"
  jd_stderr_tail :: "nat list option"
  jd_stdout_relay :: relay_state
  jd_stderr_relay :: relay_state

record job_root =
  jr_jobs :: "(pystr, job_dir) dict"
  jr_others :: nat

definition max_job_directory_entries :: nat where
  "max_job_directory_entries = 10000"

definition max_retained_jobs :: nat where
  "max_retained_jobs = 100"

definition max_job_state_bytes :: nat where
  "max_job_state_bytes = 65536"

definition job_retention_ns :: int where
  "job_retention_ns = 7 * 24 * 60 * 60 * 1000000000"

definition job_startup_grace_ns :: int where
  "job_startup_grace_ns = 5000000000"

definition set_dir :: "pystr \<Rightarrow> job_dir \<Rightarrow> job_root \<Rightarrow> job_root" where
  "set_dir i d store = store\<lparr>jr_jobs := dset i d (jr_jobs store)\<rparr>"

definition job_directories :: "job_root \<Rightarrow> pystr list res" where
  "job_directories store =
     (if max_job_directory_entries < length (jr_jobs store) + jr_others store then job_error ''capture job directory contains too many entries''
      else Inr (filter (\<lambda>i. length i = 32) (map fst (jr_jobs store))))"

definition current_capture_job_id :: "pystr option \<Rightarrow> pystr option res" where
  "current_capture_job_id raw = (case raw of None \<Rightarrow> Inr None | Some i \<Rightarrow> rbind (validate_job_id i) (\<lambda>i. Inr (Some i)))"

definition required_capture_job_id :: "pystr option \<Rightarrow> pystr res" where
  "required_capture_job_id raw = (case raw of None \<Rightarrow> job_error ''capture worker has no job identity'' | Some i \<Rightarrow> validate_job_id i)"

section \<open>The state file\<close>

definition read_capture_job :: "job_root \<Rightarrow> pystr \<Rightarrow> capture_job res" where
  "read_capture_job store i =
     rbind (validate_job_id i) (\<lambda>i.
     case dget (jr_jobs store) i of
       None \<Rightarrow> Inl (CaptureJobError (lit ''capture job does not exist: '' @ i))
     | Some d \<Rightarrow> (case jd_state d of
         NoState \<Rightarrow> Inl (CaptureJobError (lit ''capture job does not exist: '' @ i))
       | BadState m \<Rightarrow> Inl (CaptureJobError m)
       | Stored j \<Rightarrow> capture_job_from_value j i))"

text \<open>The length of \<open>json.dumps(document, sort_keys=True)\<close>, which is ASCII.\<close>

fun json_size :: "json \<Rightarrow> nat" where
  "json_size JNull = 4"
| "json_size (JBool b) = (if b then 4 else 5)"
| "json_size (JInt n) = length (int_text n)"
| "json_size (JFloat x) = (case x of Fin v \<Rightarrow> length (float_repr v) | _ \<Rightarrow> 0)"
| "json_size (JStr s) = length (encode_string s)"
| "json_size (JList vs) = 2 + 2 * (length vs - 1) + sum_list (map json_size vs)"
| "json_size (JObj d) = 2 + 2 * (length d - 1) + sum_list (map (\<lambda>(k, v). length (encode_string k) + 2 + json_size v) d)"

definition write_capture_job :: "job_root \<Rightarrow> capture_job \<Rightarrow> job_root res" where
  "write_capture_job store job =
     rbind (validate_job_id (jb_id job)) (\<lambda>i.
     rbind (job_unless (json_size (stored_value job) \<le> max_job_state_bytes) ''capture job state exceeds its byte limit'') (\<lambda>_.
     case dget (jr_jobs store) i of
       None \<Rightarrow> job_error ''could not update capture job''
     | Some d \<Rightarrow> Inr (set_dir i (d\<lparr>jd_state := Stored (stored_value job)\<rparr>) store)))"

definition update_capture_job :: "job_root \<Rightarrow> pystr \<Rightarrow> (capture_job \<Rightarrow> capture_job res) \<Rightarrow> (capture_job \<times> job_root) res" where
  "update_capture_job store i update =
     rbind (read_capture_job store i) (\<lambda>job. rbind (update job) (\<lambda>updated.
     rbind (write_capture_job store updated) (\<lambda>store'. Inr (updated, store'))))"

definition within_startup_grace :: "int \<Rightarrow> capture_job \<Rightarrow> bool" where
  "within_startup_grace now job \<longleftrightarrow> jb_state job = Starting \<and> now - jb_started_at_ns job < job_startup_grace_ns"

section \<open>Liveness and cancellation\<close>

text \<open>Whether the lock was taken; \<open>False\<close> when another process holds it.\<close>

definition try_acquire_lock :: "job_root \<Rightarrow> pystr \<Rightarrow> bool res" where
  "try_acquire_lock store i =
     rbind (validate_job_id i) (\<lambda>i.
     case dget (jr_jobs store) i of
       None \<Rightarrow> job_error ''could not inspect capture job liveness''
     | Some d \<Rightarrow> (case jd_lock d of NoLock \<Rightarrow> job_error ''could not inspect capture job liveness''
         | BadLock \<Rightarrow> job_error ''capture job liveness lock is invalid''
         | Free \<Rightarrow> Inr True | Held \<Rightarrow> Inr False))"

definition set_lock :: "pystr \<Rightarrow> lock_file \<Rightarrow> job_root \<Rightarrow> job_root" where
  "set_lock i l store = (case dget (jr_jobs store) i of None \<Rightarrow> store | Some d \<Rightarrow> set_dir i (d\<lparr>jd_lock := l\<rparr>) store)"

definition request_cancel :: "job_root \<Rightarrow> pystr \<Rightarrow> (bool \<times> job_root) res" where
  "request_cancel store i =
     rbind (validate_job_id i) (\<lambda>i.
     case dget (jr_jobs store) i of
       None \<Rightarrow> Inr (False, store)
     | Some d \<Rightarrow> (case jd_channel d of
         NoChannel \<Rightarrow> Inr (False, store)
       | BadChannel \<Rightarrow> job_error ''capture job cancellation channel is invalid''
       | NoReader \<Rightarrow> Inr (False, store)
       | Listening n \<Rightarrow> Inr (True, set_dir i (d\<lparr>jd_channel := Listening (Suc n)\<rparr>) store)))"

section \<open>Retained output\<close>

datatype stream = Stdout | Stderr

fun stream_of :: "stream \<Rightarrow> capture_job \<Rightarrow> stream_state" where
  "stream_of Stdout job = jb_stdout job"
| "stream_of Stderr job = jb_stderr job"

fun with_stream :: "stream \<Rightarrow> stream_state \<Rightarrow> capture_job \<Rightarrow> capture_job" where
  "with_stream Stdout s job = job\<lparr>jb_stdout := s\<rparr>"
| "with_stream Stderr s job = job\<lparr>jb_stderr := s\<rparr>"

fun output_path :: "stream \<Rightarrow> job_dir \<Rightarrow> nat list option" where
  "output_path Stdout d = jd_stdout d"
| "output_path Stderr d = jd_stderr d"

fun output_tail_path :: "stream \<Rightarrow> job_dir \<Rightarrow> nat list option" where
  "output_tail_path Stdout d = jd_stdout_tail d"
| "output_tail_path Stderr d = jd_stderr_tail d"

definition output_file :: "bool \<Rightarrow> stream \<Rightarrow> job_root \<Rightarrow> pystr \<Rightarrow> nat list option" where
  "output_file tail stream store i = (case dget (jr_jobs store) i of None \<Rightarrow> None
     | Some d \<Rightarrow> if tail then output_tail_path stream d else output_path stream d)"

definition output_file_size :: "nat list option \<Rightarrow> int \<Rightarrow> int res" where
  "output_file_size file limit = (case file of
     None \<Rightarrow> job_error ''could not inspect capture job output''
   | Some bytes \<Rightarrow> rbind (job_unless (int (length bytes) \<le> limit) ''capture job output file is invalid'') (\<lambda>_. Inr (int (length bytes))))"

definition with_sizes :: "int \<Rightarrow> int \<Rightarrow> stream_state \<Rightarrow> stream_state" where
  "with_sizes h t s = s\<lparr>ss_size_bytes := h + t, ss_head_size_bytes := h, ss_tail_size_bytes := t\<rparr>"

definition output_tail_sizes :: "job_root \<Rightarrow> capture_job \<Rightarrow> (int \<times> int) res" where
  "output_tail_sizes store job =
     (if jb_retention job = HeadTail
      then rbind (output_file_size (output_file True Stdout store (jb_id job)) (snd (output_limits (jb_retention job)))) (\<lambda>stdout_tail.
        rbind (output_file_size (output_file True Stderr store (jb_id job)) (snd (output_limits (jb_retention job)))) (\<lambda>stderr_tail.
        Inr (stdout_tail, stderr_tail)))
      else Inr (0, 0))"

definition refresh_output_sizes :: "job_root \<Rightarrow> capture_job \<Rightarrow> capture_job res" where
  "refresh_output_sizes store job =
     (if \<not> jb_detached job then Inr job
      else let head_limit = fst (output_limits (jb_retention job)) in
        rbind (output_file_size (output_file False Stdout store (jb_id job)) head_limit) (\<lambda>stdout_head.
        rbind (output_file_size (output_file False Stderr store (jb_id job)) head_limit) (\<lambda>stderr_head.
        rbind (output_tail_sizes store job) (\<lambda>(stdout_tail, stderr_tail).
        Inr (job\<lparr>jb_stdout := with_sizes stdout_head stdout_tail (jb_stdout job),
                 jb_stderr := with_sizes stderr_head stderr_tail (jb_stderr job)\<rparr>)))))"

text \<open>Any bytes from an offset to the end.\<close>

definition read_output_segment :: "nat list option \<Rightarrow> nat \<Rightarrow> int \<Rightarrow> nat list res" where
  "read_output_segment file offset limit = (case file of
     None \<Rightarrow> job_error ''could not read capture job output''
   | Some bytes \<Rightarrow>
     rbind (job_unless (int (length bytes) \<le> limit) ''capture job output file is invalid'') (\<lambda>_.
     rbind (job_unless (offset \<le> length bytes) ''capture job offset exceeds retained output'') (\<lambda>_.
     Inr (drop offset bytes))))"

definition set_tail :: "stream \<Rightarrow> nat list \<Rightarrow> job_dir \<Rightarrow> job_dir" where
  "set_tail stream content d = (case stream of Stdout \<Rightarrow> d\<lparr>jd_stdout_tail := Some content\<rparr> | Stderr \<Rightarrow> d\<lparr>jd_stderr_tail := Some content\<rparr>)"

definition append_output :: "stream \<Rightarrow> nat list \<Rightarrow> job_dir \<Rightarrow> job_dir" where
  "append_output stream bytes d = (case stream of
     Stdout \<Rightarrow> d\<lparr>jd_stdout := map_option (\<lambda>old. old @ bytes) (jd_stdout d)\<rparr>
   | Stderr \<Rightarrow> d\<lparr>jd_stderr := map_option (\<lambda>old. old @ bytes) (jd_stderr d)\<rparr>)"

fun relay_of :: "stream \<Rightarrow> job_dir \<Rightarrow> relay_state" where
  "relay_of Stdout d = jd_stdout_relay d"
| "relay_of Stderr d = jd_stderr_relay d"

definition set_relay :: "stream \<Rightarrow> relay_state \<Rightarrow> job_dir \<Rightarrow> job_dir" where
  "set_relay stream r d = (case stream of Stdout \<Rightarrow> d\<lparr>jd_stdout_relay := r\<rparr> | Stderr \<Rightarrow> d\<lparr>jd_stderr_relay := r\<rparr>)"

text \<open>The tail is replaced as a whole.\<close>

definition checkpoint_output_tail_file :: "stream \<Rightarrow> nat list \<Rightarrow> int \<Rightarrow> job_root \<Rightarrow> pystr \<Rightarrow> job_root res" where
  "checkpoint_output_tail_file stream content limit store i =
     rbind (job_unless (int (length content) \<le> limit) ''capture job output exceeds its byte limit'') (\<lambda>_.
     case dget (jr_jobs store) i of
       None \<Rightarrow> job_error ''could not checkpoint capture job output''
     | Some d \<Rightarrow> (case output_tail_path stream d of
         None \<Rightarrow> job_error ''could not checkpoint capture job output''
       | Some bytes \<Rightarrow>
         rbind (job_unless (int (length bytes) \<le> limit) ''capture job output file is invalid'') (\<lambda>_.
         Inr (set_dir i (set_tail stream content d) store))))"

definition output_offset :: "json \<Rightarrow> string \<Rightarrow> nat res" where
  "output_offset j label = (case j of
     JInt n \<Rightarrow> if 0 \<le> n \<and> n \<le> job_output_limit then Inr (nat n) else job_error (''capture job '' @ label @ '' offset is invalid'')
   | _ \<Rightarrow> job_error (''capture job '' @ label @ '' offset is invalid''))"

section \<open>Retention\<close>

text \<open>A \<open>CaptureJobError\<close> is caught; any other error is not.\<close>

definition catch_job_error :: "'a \<Rightarrow> 'a res \<Rightarrow> 'a res" where
  "catch_job_error x r = (case r of Inl (CaptureJobError _) \<Rightarrow> Inr x | _ \<Rightarrow> r)"

fun terminal_jobs :: "job_root \<Rightarrow> pystr list \<Rightarrow> (int \<times> pystr) list res" where
  "terminal_jobs store [] = Inr []"
| "terminal_jobs store (i # is) =
     rbind (catch_job_error None (rbind (read_capture_job store i) (\<lambda>job. Inr (Some job)))) (\<lambda>found.
     rbind (terminal_jobs store is) (\<lambda>rest.
     Inr (case found of Some job \<Rightarrow> if terminal job then (jb_updated_at_ns job, i) # rest else rest | None \<Rightarrow> rest)))"

definition expired_jobs :: "int \<Rightarrow> (int \<times> pystr) list \<Rightarrow> pystr list" where
  "expired_jobs now finished =
     (let newest = rev (sort finished)
      in map snd (drop max_retained_jobs newest @ filter (\<lambda>(updated, _). updated < now - job_retention_ns) (take max_retained_jobs newest)))"

definition prune_capture_jobs :: "int \<Rightarrow> job_root \<Rightarrow> job_root res" where
  "prune_capture_jobs now store =
     rbind (job_directories store) (\<lambda>is. rbind (terminal_jobs store is) (\<lambda>finished.
     Inr (store\<lparr>jr_jobs := filter (\<lambda>(i, _). i \<notin> set (expired_jobs now finished)) (jr_jobs store)\<rparr>)))"

end
