(* ===== verification/JobService.thy ===== *)
theory JobService
  imports JobStore
begin

text \<open>
  The operations on capture jobs: \<open>capture_jobs/_service.py\<close>. Clock readings, the identifiers that
  \<open>uuid4\<close> gives, the process id and the job named by the environment are arguments. An operation that may
  fail after it has changed the directory returns its result and the directory; the others return both
  only when they succeed.
\<close>

section \<open>Creating, starting and finishing a job\<close>

definition new_job_dir :: "bool \<Rightarrow> job_dir" where
  "new_job_dir detached = (let file = (if detached then Some [] else None) in
     \<lparr>jd_state = NoState, jd_lock = Free, jd_channel = NoReader, jd_stdout = file, jd_stderr = file,
      jd_stdout_tail = file, jd_stderr_tail = file, jd_stdout_relay = Unopened, jd_stderr_relay = Unopened\<rparr>)"

text \<open>The directory while it is created: \<open>stage_dir detached k\<close> has the first \<open>k\<close> of its entries.\<close>

definition bare_dir :: job_dir where
  "bare_dir = \<lparr>jd_state = NoState, jd_lock = NoLock, jd_channel = NoChannel, jd_stdout = None, jd_stderr = None,
     jd_stdout_tail = None, jd_stderr_tail = None, jd_stdout_relay = Unopened, jd_stderr_relay = Unopened\<rparr>"

definition creation_parts :: "bool \<Rightarrow> (job_dir \<Rightarrow> job_dir) list" where
  "creation_parts detached =
     [\<lambda>d. d\<lparr>jd_lock := Free\<rparr>, \<lambda>d. d\<lparr>jd_channel := NoReader\<rparr>] @
     (if detached then [\<lambda>d. d\<lparr>jd_stdout := Some []\<rparr>, \<lambda>d. d\<lparr>jd_stderr := Some []\<rparr>, \<lambda>d. d\<lparr>jd_stdout_tail := Some []\<rparr>,
        \<lambda>d. d\<lparr>jd_stderr_tail := Some []\<rparr>]
      else [])"

definition stage_dir :: "bool \<Rightarrow> nat \<Rightarrow> job_dir" where
  "stage_dir detached k = fold (\<lambda>part. part) (take k (creation_parts detached)) bare_dir"

definition new_job :: "pystr \<Rightarrow> pystr \<Rightarrow> bool \<Rightarrow> int \<Rightarrow> capture_job" where
  "new_job i operation detached now = \<lparr>jb_id = i, jb_operation = operation, jb_state = Starting, jb_worker_pid = None,
     jb_started_at_ns = now, jb_updated_at_ns = now, jb_client_disconnected = False, jb_exit_status = None, jb_artifacts = [],
     jb_detached = detached, jb_retention = (if detached then HeadTail else NoOutput), jb_stdout = empty_stream, jb_stderr = empty_stream\<rparr>"

fun allocate_job :: "pystr \<Rightarrow> bool \<Rightarrow> int \<Rightarrow> pystr list \<Rightarrow> job_root \<Rightarrow> capture_job res \<times> job_root" where
  "allocate_job operation detached now [] store = (job_error ''could not allocate a unique capture job identity'', store)"
| "allocate_job operation detached now (i # is) store =
     (if has_key (jr_jobs store) i then allocate_job operation detached now is store
      else case write_capture_job (set_dir i (new_job_dir detached) store) (new_job i operation detached now) of
        Inl e \<Rightarrow> (Inl e, store) | Inr store' \<Rightarrow> (Inr (new_job i operation detached now), store'))"

definition create_capture_job :: "json \<Rightarrow> bool \<Rightarrow> int \<Rightarrow> int \<Rightarrow> pystr list \<Rightarrow> job_root \<Rightarrow> capture_job res \<times> job_root" where
  "create_capture_job operation detached prune_now now ids store =
     (case validate_operation operation of Inl e \<Rightarrow> (Inl e, store) | Inr name \<Rightarrow>
     (case prune_capture_jobs prune_now store of Inl e \<Rightarrow> (Inl e, store) | Inr store' \<Rightarrow>
      allocate_job name detached now (take 32 ids) store'))"

definition failed_start :: "int \<Rightarrow> capture_job \<Rightarrow> capture_job" where
  "failed_start now job = (if terminal job then job
     else job\<lparr>jb_state := Failed, jb_updated_at_ns := now, jb_exit_status := Some 2\<rparr>)"

definition fail_capture_job_start :: "pystr \<Rightarrow> int \<Rightarrow> job_root \<Rightarrow> job_root res" where
  "fail_capture_job_start i now store =
     catch_job_error store
       (rbind (try_acquire_lock store i) (\<lambda>acquired.
        if \<not> acquired then Inr store
        else rbind (update_capture_job store i (\<lambda>job. Inr (failed_start now job))) (\<lambda>(job, store'). Inr store')))"

definition started :: "int \<Rightarrow> int \<Rightarrow> capture_job \<Rightarrow> capture_job res" where
  "started pid now job =
     rbind (job_unless (jb_state job = Starting) ''capture job is no longer starting'') (\<lambda>_.
     Inr (job\<lparr>jb_state := Running, jb_worker_pid := Some pid, jb_updated_at_ns := now\<rparr>))"

text \<open>The worker keeps the lock.\<close>

definition start_current_capture_job :: "pystr option \<Rightarrow> int \<Rightarrow> int \<Rightarrow> job_root \<Rightarrow> job_root res" where
  "start_current_capture_job current pid now store =
     rbind (required_capture_job_id current) (\<lambda>i.
     rbind (try_acquire_lock store i) (\<lambda>acquired.
     rbind (job_unless acquired ''capture job liveness lock is already held'') (\<lambda>_.
     rbind (update_capture_job store i (started pid now)) (\<lambda>(job, store').
     Inr (set_lock i Held store')))))"

definition finished :: "int \<Rightarrow> bool \<Rightarrow> int \<Rightarrow> capture_job \<Rightarrow> capture_job" where
  "finished exit_status failed now job =
     job\<lparr>jb_state := if failed then Failed else Complete, jb_updated_at_ns := now, jb_exit_status := Some exit_status\<rparr>"

definition finish_current_capture_job :: "pystr option \<Rightarrow> int \<Rightarrow> bool \<Rightarrow> int \<Rightarrow> int \<Rightarrow> job_root \<Rightarrow> unit res \<times> job_root" where
  "finish_current_capture_job current exit_status failed now prune_now store =
     (case rbind (required_capture_job_id current) (\<lambda>i.
        rbind (job_unless (0 \<le> exit_status \<and> exit_status \<le> 255) ''capture job exit status is invalid'') (\<lambda>_.
        update_capture_job store i (\<lambda>job. Inr (finished exit_status failed now job)))) of
      Inl e \<Rightarrow> (Inl e, store)
    | Inr (job, store') \<Rightarrow> (case prune_capture_jobs prune_now store' of Inl e \<Rightarrow> (Inl e, store') | Inr store'' \<Rightarrow> (Inr (), store'')))"

section \<open>What the worker reports while it runs\<close>

text \<open>The channel for cancellation has a reader from then on.\<close>

definition open_cancel_channel :: "pystr option \<Rightarrow> job_root \<Rightarrow> job_root res" where
  "open_cancel_channel current store =
     rbind (required_capture_job_id current) (\<lambda>i.
     case dget (jr_jobs store) i of
       None \<Rightarrow> job_error ''could not open capture job cancellation channel''
     | Some d \<Rightarrow> (case jd_channel d of
         NoChannel \<Rightarrow> job_error ''could not open capture job cancellation channel''
       | BadChannel \<Rightarrow> job_error ''capture job cancellation channel is invalid''
       | NoReader \<Rightarrow> Inr (set_dir i (d\<lparr>jd_channel := Listening 0\<rparr>) store)
       | Listening n \<Rightarrow> Inr store))"

definition open_output_sink :: "pystr option \<Rightarrow> stream \<Rightarrow> job_root \<Rightarrow> unit res" where
  "open_output_sink current stream store =
     rbind (required_capture_job_id current) (\<lambda>i.
     rbind (read_capture_job store i) (\<lambda>job.
     rbind (job_unless (jb_detached job) ''capture job does not retain detached output'') (\<lambda>_.
     rbind (output_file_size (output_file False stream store i) (fst (output_limits (jb_retention job)))) (\<lambda>_. Inr ()))))"

definition checkpoint_output_tail :: "pystr option \<Rightarrow> stream \<Rightarrow> nat list \<Rightarrow> job_root \<Rightarrow> job_root res" where
  "checkpoint_output_tail current stream content store =
     rbind (required_capture_job_id current) (\<lambda>i.
     rbind (job_unless (int (length content) \<le> job_output_tail_limit) ''capture job output tail is invalid'') (\<lambda>_.
     rbind (read_capture_job store i) (\<lambda>job.
     rbind (job_unless (jb_detached job \<and> jb_retention job = HeadTail) ''capture job does not retain output tails'') (\<lambda>_.
     checkpoint_output_tail_file stream content job_output_tail_limit store i))))"

record output_mark =
  om_head_size_bytes :: int
  om_tail_size_bytes :: int
  om_omitted_bytes :: int
  om_omitted_bytes_truncated :: bool
  om_truncated :: bool

definition marked_output :: "stream \<Rightarrow> output_mark \<Rightarrow> int \<Rightarrow> capture_job \<Rightarrow> capture_job res" where
  "marked_output stream m now job =
     (let limits = output_limits (jb_retention job); previous = stream_of stream job;
          h = om_head_size_bytes m; t = om_tail_size_bytes m in
     rbind (job_unless (jb_detached job) ''capture job does not retain detached output'') (\<lambda>_.
     rbind (job_unless (h \<le> fst limits) ''capture job output head exceeds its byte limit'') (\<lambda>_.
     rbind (job_unless (t \<le> snd limits) ''capture job output tail exceeds its byte limit'') (\<lambda>_.
     rbind (job_unless (ss_size_bytes previous \<le> h + t) ''capture job output size cannot decrease'') (\<lambda>_.
     rbind (job_unless (ss_head_size_bytes previous \<le> h \<and> ss_tail_size_bytes previous \<le> t)
       ''capture job output segment size cannot decrease'') (\<lambda>_.
     rbind (job_unless (ss_omitted_bytes previous \<le> om_omitted_bytes m) ''capture job omitted output size cannot decrease'') (\<lambda>_.
     Inr (with_stream stream
       \<lparr>ss_size_bytes = h + t, ss_truncated = (ss_truncated previous \<or> om_truncated m), ss_head_size_bytes = h, ss_tail_size_bytes = t,
        ss_omitted_bytes = om_omitted_bytes m,
        ss_omitted_bytes_truncated = (ss_omitted_bytes_truncated previous \<or> om_omitted_bytes_truncated m)\<rparr>
       (job\<lparr>jb_updated_at_ns := now\<rparr>)))))))))"

definition mark_capture_job_output :: "pystr option \<Rightarrow> stream \<Rightarrow> output_mark \<Rightarrow> int \<Rightarrow> job_root \<Rightarrow> job_root res" where
  "mark_capture_job_output current stream m now store =
     rbind (required_capture_job_id current) (\<lambda>i.
     rbind (job_unless (0 \<le> om_head_size_bytes m \<and> om_head_size_bytes m \<le> job_output_limit \<and>
         0 \<le> om_tail_size_bytes m \<and> om_tail_size_bytes m \<le> job_output_tail_limit \<and>
         om_head_size_bytes m + om_tail_size_bytes m \<le> job_output_limit) ''capture job output size is invalid'') (\<lambda>_.
     rbind (job_unless (0 \<le> om_omitted_bytes m \<and> om_omitted_bytes m \<le> max_job_omitted_bytes)
       ''capture job omitted output size is invalid'') (\<lambda>_.
     rbind (job_unless (\<not> ((om_omitted_bytes m \<noteq> 0 \<or> om_omitted_bytes_truncated m) \<and> \<not> om_truncated m))
       ''capture job omitted output must be truncated'') (\<lambda>_.
     rbind (update_capture_job store i (marked_output stream m now)) (\<lambda>(job, store'). Inr store')))))"

text \<open>What the relay reports of a stream: the last bytes go to the tail file, and the sizes to the job.\<close>

definition relay_mark :: "bool \<Rightarrow> output_relay \<Rightarrow> output_mark" where
  "relay_mark incomplete r =
     (let omitted_size = max 0 (or_total_size_bytes r - job_output_limit) in
      \<lparr>om_head_size_bytes = or_head_size_bytes r, om_tail_size_bytes = int (length (tail_snapshot (or_tail r))),
       om_omitted_bytes = min omitted_size max_job_omitted_bytes,
       om_omitted_bytes_truncated = (max_job_omitted_bytes < omitted_size \<or> incomplete),
       om_truncated = (omitted_size \<noteq> 0 \<or> incomplete)\<rparr>)"

definition checkpoint_detached_output ::
  "pystr option \<Rightarrow> stream \<Rightarrow> bool \<Rightarrow> output_relay \<Rightarrow> int \<Rightarrow> job_root \<Rightarrow> unit res \<times> job_root" where
  "checkpoint_detached_output current stream incomplete r now store =
     (case checkpoint_output_tail current stream (tail_snapshot (or_tail r)) store of Inl e \<Rightarrow> (Inl e, store)
      | Inr store' \<Rightarrow> (case mark_capture_job_output current stream (relay_mark incomplete r) now store' of
          Inl e \<Rightarrow> (Inl e, store') | Inr store'' \<Rightarrow> (Inr (), store'')))"

text \<open>
  The loop of the relay. A turn gives the bytes that could be read, none when nothing came, and the reading of
  the clock at which a checkpoint is made when half a second has passed since the last one.
\<close>

type_synonym relay_turn = "nat list \<times> int option"

definition write_head :: "pystr \<Rightarrow> stream \<Rightarrow> nat list \<Rightarrow> job_root \<Rightarrow> job_root" where
  "write_head i stream head store = (case dget (jr_jobs store) i of None \<Rightarrow> store | Some d \<Rightarrow> set_dir i (append_output stream head d) store)"

fun drain_loop :: "pystr \<Rightarrow> stream \<Rightarrow> relay_turn list \<Rightarrow> bool \<Rightarrow> output_relay \<Rightarrow> job_root \<Rightarrow> output_relay res \<times> job_root" where
  "drain_loop i stream [] dirty r store = (Inr r, store)"
| "drain_loop i stream ((content, due) # turns) dirty r store =
     (case relay_chunk content r of Inl e \<Rightarrow> (Inl e, store)
      | Inr (head, r') \<Rightarrow>
        let store' = write_head i stream head store; dirty' = (dirty \<or> drop (length head) content \<noteq> []) in
        (case due of
          Some now \<Rightarrow>
            if dirty' then (case checkpoint_detached_output (Some i) stream False r' now store' of
              (Inl e, store'') \<Rightarrow> (Inl e, store'') | (Inr _, store'') \<Rightarrow> drain_loop i stream turns False r' store'')
            else drain_loop i stream turns dirty' r' store'
        | None \<Rightarrow> drain_loop i stream turns dirty' r' store'))"

definition drain_detached_output ::
  "pystr option \<Rightarrow> stream \<Rightarrow> relay_turn list \<Rightarrow> bool \<Rightarrow> int \<Rightarrow> job_root \<Rightarrow> unit res \<times> job_root" where
  "drain_detached_output current stream turns incomplete now store =
     (case rbind (open_output_sink current stream store) (\<lambda>_. required_capture_job_id current) of Inl e \<Rightarrow> (Inl e, store)
      | Inr i \<Rightarrow> (case drain_loop i stream turns False empty_relay store of
          (Inl e, store') \<Rightarrow> (Inl e, store')
        | (Inr r, store') \<Rightarrow> checkpoint_detached_output current stream incomplete r now store'))"

definition quietly_update :: "pystr option \<Rightarrow> (capture_job \<Rightarrow> capture_job res) \<Rightarrow> job_root \<Rightarrow> job_root res" where
  "quietly_update current update store =
     rbind (current_capture_job_id current) (\<lambda>named.
     case named of None \<Rightarrow> Inr store
     | Some i \<Rightarrow> catch_job_error store (rbind (update_capture_job store i update) (\<lambda>(job, store'). Inr store')))"

definition disconnected :: "int \<Rightarrow> capture_job \<Rightarrow> capture_job" where
  "disconnected now job = job\<lparr>jb_updated_at_ns := now, jb_client_disconnected := True\<rparr>"

definition mark_capture_job_disconnected :: "pystr option \<Rightarrow> int \<Rightarrow> job_root \<Rightarrow> job_root res" where
  "mark_capture_job_disconnected current now = quietly_update current (\<lambda>job. Inr (disconnected now job))"

definition cut_off :: "stream_state \<Rightarrow> stream_state" where
  "cut_off s = s\<lparr>ss_truncated := True, ss_omitted_bytes_truncated := True\<rparr>"

definition incomplete_output :: "int \<Rightarrow> capture_job \<Rightarrow> capture_job" where
  "incomplete_output now job = (if \<not> jb_detached job then job
     else job\<lparr>jb_updated_at_ns := now, jb_stdout := cut_off (jb_stdout job), jb_stderr := cut_off (jb_stderr job)\<rparr>)"

definition mark_capture_job_output_incomplete :: "pystr option \<Rightarrow> int \<Rightarrow> job_root \<Rightarrow> job_root res" where
  "mark_capture_job_output_incomplete current now = quietly_update current (\<lambda>job. Inr (incomplete_output now job))"

text \<open>\<open>os.path.abspath\<close> is an argument.\<close>

definition artifact_value :: "(pystr \<Rightarrow> pystr) \<Rightarrow> pystr \<Rightarrow> pystr res" where
  "artifact_value abspath path =
     rbind (job_unless (path_encodable (abspath path)) ''could not identify capture job artifact'') (\<lambda>_.
     rbind (job_unless (path_length (abspath path) \<le> max_job_artifact_bytes) ''capture job artifact paths cannot exceed 4096 bytes'') (\<lambda>_.
     Inr (abspath path)))"

definition with_artifacts :: "pystr list \<Rightarrow> int \<Rightarrow> capture_job \<Rightarrow> capture_job" where
  "with_artifacts artifacts now job = job\<lparr>jb_updated_at_ns := now, jb_artifacts := artifacts\<rparr>"

definition record_capture_job_artifacts :: "(pystr \<Rightarrow> pystr) \<Rightarrow> pystr option \<Rightarrow> pystr list \<Rightarrow> int \<Rightarrow> job_root \<Rightarrow> job_root res" where
  "record_capture_job_artifacts abspath current paths now store =
     rbind (current_capture_job_id current) (\<lambda>named.
     case named of None \<Rightarrow> Inr store
     | Some i \<Rightarrow> catch_job_error store
         (rbind (job_unless (length paths \<le> max_job_artifacts) ''capture job cannot retain more than 4 artifact paths'') (\<lambda>_.
          rbind (traverse (artifact_value abspath) paths) (\<lambda>artifacts.
          rbind (update_capture_job store i (\<lambda>job. Inr (with_artifacts artifacts now job))) (\<lambda>(job, store'). Inr store')))))"

section \<open>Loading jobs\<close>

definition lost :: "int \<Rightarrow> capture_job \<Rightarrow> capture_job" where
  "lost now job = (let mark = \<lambda>s. if jb_detached job then cut_off s else s in
     job\<lparr>jb_state := Lost, jb_updated_at_ns := now, jb_exit_status := None, jb_stdout := mark (jb_stdout job), jb_stderr := mark (jb_stderr job)\<rparr>)"

record clock_readings =
  ck_first :: int
  ck_second :: int
  ck_update :: int

text \<open>
  The job is read once without the lock (from the directory as it was then, \<open>before\<close>) and, when its worker
  may have died, once more under the lock.
\<close>

definition load_capture_job :: "pystr \<Rightarrow> clock_readings \<Rightarrow> job_root \<Rightarrow> job_root \<Rightarrow> (capture_job \<times> job_root) res" where
  "load_capture_job i clock before store =
     rbind (validate_job_id i) (\<lambda>i.
     rbind (rbind (read_capture_job before i) (refresh_output_sizes before)) (\<lambda>job.
     if terminal job \<or> within_startup_grace (ck_first clock) job then Inr (job, store)
     else rbind (try_acquire_lock store i) (\<lambda>acquired.
       if \<not> acquired then Inr (job, store)
       else rbind (rbind (read_capture_job store i) (refresh_output_sizes store)) (\<lambda>current.
         if terminal current \<or> within_startup_grace (ck_second clock) current then Inr (current, store)
         else rbind (write_capture_job store (lost (ck_update clock) current)) (\<lambda>store'.
           Inr (lost (ck_update clock) current, store'))))))"

fun load_listed :: "(pystr \<Rightarrow> clock_readings) \<Rightarrow> pystr list \<Rightarrow> job_root \<Rightarrow> capture_job list res \<times> job_root" where
  "load_listed clock [] store = (Inr [], store)"
| "load_listed clock (i # is) store =
     (case catch_job_error (None, store) (rbind (load_capture_job i (clock i) store store) (\<lambda>(job, store'). Inr (Some job, store'))) of
        Inl e \<Rightarrow> (Inl e, store)
      | Inr (found, store') \<Rightarrow> (case load_listed clock is store' of
          (Inl e, store'') \<Rightarrow> (Inl e, store'')
        | (Inr jobs, store'') \<Rightarrow> (Inr (case found of None \<Rightarrow> jobs | Some job \<Rightarrow> job # jobs), store'')))"

definition list_capture_jobs :: "(pystr \<Rightarrow> clock_readings) \<Rightarrow> job_root \<Rightarrow> capture_job list res \<times> job_root" where
  "list_capture_jobs clock store =
     (case job_directories store of Inl e \<Rightarrow> (Inl e, store)
      | Inr is \<Rightarrow> (case load_listed clock is store of
          (Inl e, store') \<Rightarrow> (Inl e, store')
        | (Inr jobs, store') \<Rightarrow> (Inr (take max_retained_jobs (rev (sort_key (\<lambda>job. (jb_started_at_ns job, jb_id job)) jobs))), store')))"

record capture_job_output =
  jo_stdout :: "nat list"
  jo_stderr :: "nat list"
  jo_stdout_truncated :: bool
  jo_stderr_truncated :: bool
  jo_state :: job_state
  jo_stdout_tail :: "nat list"
  jo_stderr_tail :: "nat list"
  jo_stdout_omitted_bytes :: int
  jo_stdout_omitted_bytes_truncated :: bool
  jo_stderr_omitted_bytes :: int
  jo_stderr_omitted_bytes_truncated :: bool

definition read_capture_job_output :: "pystr \<Rightarrow> json \<Rightarrow> json \<Rightarrow> clock_readings \<Rightarrow> job_root \<Rightarrow> job_root \<Rightarrow> (capture_job_output \<times> job_root) res" where
  "read_capture_job_output i stdout_offset stderr_offset clock before store =
     rbind (validate_job_id i) (\<lambda>i.
     rbind (output_offset stdout_offset ''stdout'') (\<lambda>from_stdout.
     rbind (output_offset stderr_offset ''stderr'') (\<lambda>from_stderr.
     rbind (load_capture_job i clock before store) (\<lambda>(job, store').
     rbind (raise_if (\<not> jb_detached job) (CaptureJobError (lit ''capture job does not retain output: '' @ i))) (\<lambda>_.
     let limits = output_limits (jb_retention job) in
     rbind (read_output_segment (output_file False Stdout store' i) from_stdout (fst limits)) (\<lambda>stdout.
     rbind (read_output_segment (output_file False Stderr store' i) from_stderr (fst limits)) (\<lambda>stderr.
     rbind (if terminal job \<and> jb_retention job = HeadTail
       then rbind (read_output_segment (output_file True Stdout store' i) 0 job_output_tail_limit) (\<lambda>a.
         rbind (read_output_segment (output_file True Stderr store' i) 0 job_output_tail_limit) (\<lambda>b. Inr (a, b)))
       else Inr ([], [])) (\<lambda>(stdout_tail, stderr_tail).
     Inr (\<lparr>jo_stdout = stdout, jo_stderr = stderr, jo_stdout_truncated = ss_truncated (jb_stdout job),
       jo_stderr_truncated = ss_truncated (jb_stderr job), jo_state = jb_state job, jo_stdout_tail = stdout_tail, jo_stderr_tail = stderr_tail,
       jo_stdout_omitted_bytes = ss_omitted_bytes (jb_stdout job),
       jo_stdout_omitted_bytes_truncated = ss_omitted_bytes_truncated (jb_stdout job),
       jo_stderr_omitted_bytes = ss_omitted_bytes (jb_stderr job),
       jo_stderr_omitted_bytes_truncated = ss_omitted_bytes_truncated (jb_stderr job)\<rparr>, store')))))))))"

end
