(* ===== verification/JobWaiting.thy ===== *)
theory JobWaiting
  imports JobService
begin

text \<open>
  Waiting for a job and cancelling it, the two loops of \<open>capture_jobs/_service.py\<close>, and the texts shown for
  jobs. Other processes act between any two looks at the directory: each poll of a loop is given by what
  they do before it and between its two readings, and by the clock readings. A loop that has not returned
  when the given polls are over is \<open>None\<close>.
\<close>

section \<open>Waiting\<close>

record poll =
  pl_before :: "job_root \<Rightarrow> job_root"
  pl_between :: "job_root \<Rightarrow> job_root"
  pl_clock :: clock_readings
  pl_monotonic :: pyfloat

definition poll_load :: "pystr \<Rightarrow> poll \<Rightarrow> job_root \<Rightarrow> capture_job res \<times> job_root" where
  "poll_load i p store =
     (let seen = pl_before p store; now = pl_between p seen in
      case load_capture_job i (pl_clock p) seen now of Inl e \<Rightarrow> (Inl e, now) | Inr (job, store') \<Rightarrow> (Inr job, store'))"

definition deadline_passed :: "pyfloat option \<Rightarrow> poll \<Rightarrow> bool" where
  "deadline_passed deadline p \<longleftrightarrow> (case deadline of None \<Rightarrow> False | Some d \<Rightarrow> fle d (pl_monotonic p))"

fun wait_loop :: "pystr \<Rightarrow> pyfloat option \<Rightarrow> poll list \<Rightarrow> job_root \<Rightarrow> (capture_job res \<times> job_root) option" where
  "wait_loop i deadline [] store = None"
| "wait_loop i deadline (p # ps) store =
     (case poll_load i p store of
        (Inl e, store') \<Rightarrow> Some (Inl e, store')
      | (Inr job, store') \<Rightarrow>
        if terminal job then Some (Inr job, store')
        else if deadline_passed deadline p then Some (Inl (CaptureJobError (lit ''capture job wait timed out: '' @ i)), store')
        else wait_loop i deadline ps store')"

definition wait_capture_job ::
  "pystr \<Rightarrow> pyfloat option \<Rightarrow> pyfloat \<Rightarrow> poll list \<Rightarrow> job_root \<Rightarrow> (capture_job res \<times> job_root) option" where
  "wait_capture_job i timeout start polls store = (case timeout of
     None \<Rightarrow> wait_loop i None polls store
   | Some t \<Rightarrow>
     if \<not> isfinite t \<or> flt t (Fin 0) then Some (job_error ''capture job wait timeout must be a finite non-negative number'', store)
     else wait_loop i (Some (fadd start t)) polls store)"

section \<open>Cancelling\<close>

definition job_cancel_timeout :: pyfloat where
  "job_cancel_timeout = Fin 5"

fun cancel_loop :: "pystr \<Rightarrow> pyfloat \<Rightarrow> poll list \<Rightarrow> job_root \<Rightarrow> (capture_job res \<times> job_root) option" where
  "cancel_loop i deadline [] store = None"
| "cancel_loop i deadline (p # ps) store =
     (case request_cancel store i of
        Inl e \<Rightarrow> Some (Inl e, store)
      | Inr (sent, store') \<Rightarrow>
        if sent then wait_capture_job i (Some (fmax (Fin 0) (fsub deadline (pl_monotonic p)))) (pl_monotonic p) ps store'
        else (case poll_load i p store' of
          (Inl e, store'') \<Rightarrow> Some (Inl e, store'')
        | (Inr job, store'') \<Rightarrow>
          if terminal job then Some (Inr job, store'')
          else if fle deadline (pl_monotonic p) then Some (Inl (CaptureJobError (lit ''capture job cancellation timed out: '' @ i)), store'')
          else cancel_loop i deadline ps store''))"

definition cancel_capture_job :: "pystr \<Rightarrow> poll \<Rightarrow> poll list \<Rightarrow> job_root \<Rightarrow> (capture_job res \<times> job_root) option" where
  "cancel_capture_job i first polls store =
     (case poll_load i first store of
        (Inl e, store') \<Rightarrow> Some (Inl e, store')
      | (Inr job, store') \<Rightarrow>
        if terminal job then Some (Inl (CaptureJobError (lit ''capture job is not running: '' @ i)), store')
        else cancel_loop i (fadd (pl_monotonic first) job_cancel_timeout) polls store')"

section \<open>Texts\<close>

definition shown_bool :: "bool \<Rightarrow> pystr" where
  "shown_bool b = (if b then lit ''true'' else lit ''false'')"

definition shown_int_option :: "int option \<Rightarrow> pystr" where
  "shown_int_option v = (case v of None \<Rightarrow> lit ''unavailable'' | Some n \<Rightarrow> int_text n)"

definition render_omitted_output :: "stream_state \<Rightarrow> pystr" where
  "render_omitted_output s = (if ss_omitted_bytes_truncated s then lit ''at least '' else []) @ int_text (ss_omitted_bytes s) @ lit '' bytes''"

definition render_stream :: "string \<Rightarrow> stream_state \<Rightarrow> pystr list" where
  "render_stream p s =
     [lit (p @ '' retained:     '') @ int_text (ss_size_bytes s) @ lit '' bytes'',
      lit (p @ '' head/tail:    '') @ int_text (ss_head_size_bytes s) @ lit ''/'' @ int_text (ss_tail_size_bytes s) @ lit '' bytes'',
      lit (p @ '' omitted:      '') @ render_omitted_output s,
      lit (p @ '' truncated:    '') @ shown_bool (ss_truncated s)]"

definition render_capture_job :: "capture_job \<Rightarrow> pystr" where
  "render_capture_job job = join [10]
     ([lit ''CAPTURE JOB'', [],
       lit ''id:                  '' @ jb_id job, lit ''operation:           '' @ jb_operation job,
       lit ''state:               '' @ state_text (jb_state job), lit ''worker pid:          '' @ shown_int_option (jb_worker_pid job),
       lit ''detached:            '' @ shown_bool (jb_detached job), lit ''output retention:    '' @ retention_text (jb_retention job),
       lit ''client disconnected: '' @ shown_bool (jb_client_disconnected job),
       lit ''exit status:         '' @ shown_int_option (jb_exit_status job)] @
      render_stream ''stdout'' (jb_stdout job) @ render_stream ''stderr'' (jb_stderr job) @
      [lit ''artifacts:'', if jb_artifacts job = [] then lit ''  none'' else join [10] (map (\<lambda>a. lit ''  - '' @ a) (jb_artifacts job))])"

definition padded :: "nat \<Rightarrow> pystr \<Rightarrow> pystr" where
  "padded n s = s @ replicate (n - length s) 32"

definition render_capture_jobs :: "capture_job list \<Rightarrow> pystr" where
  "render_capture_jobs jobs =
     (if jobs = [] then join [10] [lit ''CAPTURE JOBS'', [], lit ''No retained capture jobs.'']
      else join [10] ([lit ''CAPTURE JOBS'', [], lit ''ID                                STATE     MODE      OPERATION''] @
        map (\<lambda>job. jb_id job @ lit ''  '' @ padded 9 (state_text (jb_state job)) @ lit '' '' @
          padded 9 (if jb_detached job then lit ''detached'' else lit ''attached'') @ lit '' '' @ jb_operation job) jobs))"

end
