(* ===== verification/JobLaws.thy ===== *)
theory JobLaws
  imports JobWaiting
begin

text \<open>
  What the operations on one job keep, and what the operations on the directory do: a job that was read is
  well formed, and each operation of the service leaves a well-formed job, provided that the clock has not
  gone back behind the start of the job.
\<close>

section \<open>One job\<close>

lemma limits_simps [simp]: "fst (output_limits r) \<le> job_output_limit" "snd (output_limits r) \<le> job_output_tail_limit"
  by (cases r; simp add: job_output_limit_def job_output_head_limit_def job_output_tail_limit_def)+

lemma empty_stream_ok [simp]: "stream_ok (output_limits r) empty_stream"
  using output_limits_bounds [of r] by (simp add: stream_ok_def empty_stream_def max_job_omitted_bytes_def)

lemma cut_off_ok [simp]: "stream_ok l s \<Longrightarrow> stream_ok l (cut_off s)"
  by (simp add: stream_ok_def cut_off_def)

lemma with_sizes_ok: "stream_ok l s \<Longrightarrow> 0 \<le> h \<Longrightarrow> h \<le> fst l \<Longrightarrow> 0 \<le> t \<Longrightarrow> t \<le> snd l \<Longrightarrow> stream_ok l (with_sizes h t s)"
  by (simp add: stream_ok_def with_sizes_def)

lemma new_job_ok: "operation_name_ok name \<Longrightarrow> 0 \<le> now \<Longrightarrow> now \<le> max_int64 \<Longrightarrow> job_ok (new_job i name detached now)"
  by (simp add: job_ok_def new_job_def)

text \<open>The step that an update makes at a time the job can be updated at.\<close>

definition timely :: "int \<Rightarrow> capture_job \<Rightarrow> bool" where
  "timely now job \<longleftrightarrow> jb_started_at_ns job \<le> now \<and> now \<le> max_int64"

lemma failed_start_ok: "job_ok job \<Longrightarrow> timely now job \<Longrightarrow> job_ok (failed_start now job)"
  by (auto simp: job_ok_def failed_start_def timely_def)

lemma started_ok: "job_ok job \<Longrightarrow> timely now job \<Longrightarrow> 1 \<le> pid \<Longrightarrow> pid \<le> max_int64 \<Longrightarrow> started pid now job = Inr job' \<Longrightarrow> job_ok job'"
  by (auto simp: started_def res_simps job_ok_def timely_def)

lemma finished_ok: "job_ok job \<Longrightarrow> timely now job \<Longrightarrow> 0 \<le> status \<Longrightarrow> status \<le> 255 \<Longrightarrow> job_ok (finished status failed now job)"
  by (auto simp: job_ok_def finished_def timely_def)

lemma disconnected_ok: "job_ok job \<Longrightarrow> timely now job \<Longrightarrow> job_ok (disconnected now job)"
  by (auto simp: job_ok_def disconnected_def timely_def)

lemma incomplete_output_ok: "job_ok job \<Longrightarrow> timely now job \<Longrightarrow> job_ok (incomplete_output now job)"
  by (auto simp: job_ok_def incomplete_output_def timely_def)

lemma with_artifacts_ok:
  "job_ok job \<Longrightarrow> timely now job \<Longrightarrow> length artifacts \<le> max_job_artifacts \<Longrightarrow> list_all artifact_ok artifacts \<Longrightarrow>
   job_ok (with_artifacts artifacts now job)"
  by (auto simp: job_ok_def with_artifacts_def timely_def)

lemma lost_ok: "job_ok job \<Longrightarrow> timely now job \<Longrightarrow> job_ok (lost now job)"
  by (auto simp: job_ok_def lost_def timely_def Let_def)

definition mark_ok :: "output_mark \<Rightarrow> bool" where
  "mark_ok m \<longleftrightarrow> 0 \<le> om_head_size_bytes m \<and> 0 \<le> om_tail_size_bytes m \<and>
     0 \<le> om_omitted_bytes m \<and> om_omitted_bytes m \<le> max_job_omitted_bytes \<and>
     (om_omitted_bytes m \<noteq> 0 \<or> om_omitted_bytes_truncated m \<longrightarrow> om_truncated m)"

lemma marked_output_ok:
  assumes "job_ok job" "timely now job" "mark_ok m" "marked_output stream m now job = Inr job'"
  shows "job_ok job'"
proof -
  let ?s = "\<lparr>ss_size_bytes = om_head_size_bytes m + om_tail_size_bytes m, ss_truncated = (ss_truncated (stream_of stream job) \<or> om_truncated m),
       ss_head_size_bytes = om_head_size_bytes m, ss_tail_size_bytes = om_tail_size_bytes m, ss_omitted_bytes = om_omitted_bytes m,
       ss_omitted_bytes_truncated = (ss_omitted_bytes_truncated (stream_of stream job) \<or> om_omitted_bytes_truncated m)\<rparr>"
  have job': "job' = with_stream stream ?s (job\<lparr>jb_updated_at_ns := now\<rparr>)" and detached: "jb_detached job"
    and sizes: "om_head_size_bytes m \<le> fst (output_limits (jb_retention job))" "om_tail_size_bytes m \<le> snd (output_limits (jb_retention job))"
    using assms(4) by (simp_all add: marked_output_def Let_def res_simps)
  have "stream_ok (output_limits (jb_retention job)) (stream_of stream job)"
    using assms(1) by (cases stream) (simp_all add: job_ok_def)
  with sizes assms(3) have "stream_ok (output_limits (jb_retention job)) ?s" by (auto simp: stream_ok_def mark_ok_def)
  moreover have "jb_started_at_ns job \<le> now" "now \<le> max_int64" using assms(2) by (simp_all add: timely_def)
  ultimately show ?thesis
    using assms(1) detached unfolding job' job_ok_def by (cases stream) simp_all
qed

text \<open>None of them changes the id, the start or the retention, and a finished job stays finished.\<close>

definition same_job :: "capture_job \<Rightarrow> capture_job \<Rightarrow> bool" where
  "same_job job job' \<longleftrightarrow> jb_id job' = jb_id job \<and> jb_started_at_ns job' = jb_started_at_ns job \<and> jb_retention job' = jb_retention job \<and>
     (terminal job \<longrightarrow> terminal job')"

lemma same_job_updates [simp]:
  "same_job job (failed_start now job)" "same_job job (finished status failed now job)" "same_job job (disconnected now job)"
  "same_job job (incomplete_output now job)" "same_job job (with_artifacts artifacts now job)" "same_job job (lost now job)"
  by (simp_all add: same_job_def failed_start_def finished_def disconnected_def incomplete_output_def with_artifacts_def lost_def
      terminal_def terminal_state_def Let_def)

lemma same_job_started: "started pid now job = Inr job' \<Longrightarrow> same_job job job'"
  by (auto simp: same_job_def started_def terminal_def terminal_state_def res_simps)

lemma same_job_marked: "marked_output stream m now job = Inr job' \<Longrightarrow> same_job job job'"
  by (cases stream) (auto simp: same_job_def marked_output_def terminal_def res_simps Let_def)

end
