(* ===== verification/JobStoreLaws.thy ===== *)
theory JobStoreLaws
  imports JobLaws
begin

text \<open>
  What the relay of a worker keeps of the output of its job, and the invariant of the directory: every entry has
  a valid id and output files that fit its relays, and either no state file or that of a well-formed job.
\<close>

section \<open>The relay of the output\<close>

definition last_bytes :: "nat \<Rightarrow> 'a list \<Rightarrow> 'a list" where
  "last_bytes n xs = drop (length xs - n) xs"

lemma last_bytes_append: "last_bytes n (last_bytes n xs @ ys) = last_bytes n (xs @ ys)"
  by (cases "length xs \<le> n") (simp_all add: last_bytes_def add.commute)

lemma last_bytes_all [simp]: "length xs \<le> n \<Longrightarrow> last_bytes n xs = xs"
  by (simp add: last_bytes_def)

lemma length_last_bytes [simp]: "length (last_bytes n xs) = min (length xs) n"
  by (simp add: last_bytes_def)

lemma last_bytes_skip: "n \<le> length ys \<Longrightarrow> last_bytes n (xs @ ys) = last_bytes n ys"
  by (simp add: last_bytes_def)

definition head_room :: nat where
  "head_room = nat job_output_head_limit"

definition tail_room :: nat where
  "tail_room = nat job_output_tail_limit"

lemma rooms: "int head_room = job_output_head_limit" "int tail_room = job_output_tail_limit" "0 < tail_room"
  "job_output_limit = int head_room + int tail_room" "nat job_output_head_limit = head_room" "nat job_output_tail_limit = tail_room"
  by (simp_all add: head_room_def tail_room_def job_output_head_limit_def job_output_tail_limit_def job_output_limit_def)

text \<open>The tail after the bytes \<open>out\<close>.\<close>

definition tail_holds :: "nat list \<Rightarrow> retained_tail \<Rightarrow> bool" where
  "tail_holds out tail \<longleftrightarrow> tail_snapshot tail = last_bytes tail_room out \<and> rt_size_bytes tail = int (length (tail_snapshot tail))"

lemma trim_tail_holds:
  "n = int (length (concat chunks)) \<Longrightarrow> \<exists>tail. trim_tail chunks n = Inr tail \<and> tail_holds (concat chunks) tail"
proof (induction chunks arbitrary: n)
  case Nil
  then show ?case using rooms by (simp add: tail_holds_def tail_snapshot_def)
next
  case (Cons first chunks)
  let ?T = tail_room
  show ?case
  proof (cases "job_output_tail_limit < n")
    case False
    then have "length (concat (first # chunks)) \<le> ?T" using Cons.prems rooms by linarith
    then show ?thesis using False Cons.prems by (simp add: tail_holds_def tail_snapshot_def)
  next
    case big: True
    show ?thesis
    proof (cases "int (length first) \<le> n - job_output_tail_limit")
      case True
      then have "?T \<le> length (concat chunks)" using Cons.prems rooms by simp
      then have "last_bytes ?T (first @ concat chunks) = last_bytes ?T (concat chunks)" by (rule last_bytes_skip)
      moreover obtain tail where "trim_tail chunks (n - int (length first)) = Inr tail" "tail_holds (concat chunks) tail"
        using Cons.IH [of "n - int (length first)"] Cons.prems by auto
      ultimately show ?thesis using big True by (simp add: tail_holds_def)
    next
      case False
      have "nat (n - job_output_tail_limit) = length (first @ concat chunks) - ?T" using Cons.prems rooms by simp
      moreover have "length (first @ concat chunks) - ?T \<le> length first" using False Cons.prems rooms by simp
      ultimately have "drop (nat (n - job_output_tail_limit)) first @ concat chunks = last_bytes ?T (first @ concat chunks)"
        by (simp add: last_bytes_def)
      moreover have "?T \<le> length (first @ concat chunks)" using big Cons.prems rooms by simp
      ultimately show ?thesis using False big Cons.prems rooms by (simp add: tail_holds_def tail_snapshot_def Let_def)
    qed
  qed
qed

lemma append_tail_holds:
  assumes "tail_holds out tail"
  shows "\<exists>tail'. append_tail content tail = Inr tail' \<and> tail_holds (out @ content) tail'"
proof -
  consider "content = []" | "content \<noteq> []" "tail_room \<le> length content" | "content \<noteq> []" "length content < tail_room" by linarith
  then show ?thesis
  proof cases
    case 1
    then show ?thesis using assms by (simp add: append_tail_def)
  next
    case 2
    then have "job_output_tail_limit \<le> int (length content)" using rooms(2) by linarith
    moreover have "last_bytes tail_room (out @ content) = last_bytes tail_room content" using 2(2) by (rule last_bytes_skip)
    ultimately show ?thesis using 2 rooms(6) by (simp add: append_tail_def tail_holds_def tail_snapshot_def last_bytes_def Let_def)
  next
    case 3
    then have "\<not> job_output_tail_limit \<le> int (length content)" using rooms(2) by linarith
    moreover obtain tail' where "trim_tail (rt_chunks tail @ [content]) (rt_size_bytes tail + int (length content)) = Inr tail'"
        "tail_holds (concat (rt_chunks tail @ [content])) tail'"
      using trim_tail_holds [of "rt_size_bytes tail + int (length content)" "rt_chunks tail @ [content]"] assms
      by (auto simp: tail_holds_def tail_snapshot_def)
    ultimately show ?thesis
      using assms 3(1) last_bytes_append [of tail_room out content] by (simp add: append_tail_def tail_holds_def tail_snapshot_def)
  qed
qed

text \<open>The relay after the bytes \<open>out\<close>: the first of them are in the head file, the last of the others in the tail.\<close>

definition relay_holds :: "nat list \<Rightarrow> output_relay \<Rightarrow> bool" where
  "relay_holds out r \<longleftrightarrow> or_head_size_bytes r = int (length (take head_room out)) \<and> or_total_size_bytes r = int (length out) \<and>
     tail_holds (drop head_room out) (or_tail r)"

lemma empty_relay_holds: "relay_holds [] empty_relay"
  by (simp add: relay_holds_def empty_relay_def tail_holds_def tail_snapshot_def empty_tail_def)

lemma relay_chunk_holds:
  assumes "relay_holds out r"
  shows "\<exists>head r'. relay_chunk content r = Inr (head, r') \<and> relay_holds (out @ content) r' \<and>
    take head_room (out @ content) = take head_room out @ head \<and> head = take (head_room - length out) content"
proof -
  have head: "slice_to (job_output_head_limit - or_head_size_bytes r) content = take (head_room - length out) content"
  proof (cases "length out < head_room")
    case True
    then have "job_output_head_limit - or_head_size_bytes r = int (head_room - length out)"
      using assms rooms(1) by (simp add: relay_holds_def)
    then show ?thesis by (simp add: slice_to_def)
  next
    case False
    then have "job_output_head_limit - or_head_size_bytes r = 0" using assms rooms(1) by (simp add: relay_holds_def)
    then show ?thesis using False by (simp add: slice_to_def)
  qed
  have rest: "drop head_room out @ drop (length (take (head_room - length out) content)) content = drop head_room (out @ content)"
    by (simp add: min_def)
  let ?head = "take (head_room - length out) content"
  obtain tail where tail: "append_tail (drop (length ?head) content) (or_tail r) = Inr tail" "tail_holds (drop head_room (out @ content)) tail"
    using append_tail_holds [of "drop head_room out" "or_tail r"] assms unfolding relay_holds_def rest [symmetric] by blast
  let ?r = "\<lparr>or_head_size_bytes = or_head_size_bytes r + int (length ?head), or_total_size_bytes = or_total_size_bytes r + int (length content),
      or_tail = tail\<rparr>"
  have "relay_chunk content r = Inr (?head, ?r)" by (simp only: relay_chunk_def head Let_def tail(1) rbind_simps)
  moreover have "relay_holds (out @ content) ?r" using assms tail(2) by (simp add: relay_holds_def)
  ultimately show ?thesis by (intro exI [of _ ?head] exI [of _ ?r]) simp
qed

section \<open>Well-formed directories\<close>

text \<open>What may be in an output file, given the relay that writes it.\<close>

definition relay_ok :: "relay_state \<Rightarrow> nat list option \<Rightarrow> bool" where
  "relay_ok relay file \<longleftrightarrow> (case relay of
     Unopened \<Rightarrow> file = None \<or> file = Some []
   | Relaying r \<Rightarrow> \<exists>out. relay_holds out r \<and> (file = None \<or> file = Some (take head_room out))
   | Stopped \<Rightarrow> pred_option (\<lambda>bytes. length bytes \<le> head_room) file)"

definition dir_ok :: "job_dir \<Rightarrow> bool" where
  "dir_ok d \<longleftrightarrow> relay_ok (jd_stdout_relay d) (jd_stdout d) \<and> relay_ok (jd_stderr_relay d) (jd_stderr d) \<and>
     pred_option (\<lambda>bytes. length bytes \<le> tail_room) (jd_stdout_tail d) \<and> pred_option (\<lambda>bytes. length bytes \<le> tail_room) (jd_stderr_tail d)"

lemma relay_ok_size: "relay_ok relay (Some bytes) \<Longrightarrow> length bytes \<le> head_room"
  by (auto simp: relay_ok_def split: relay_state.splits)

lemma relay_ok_missing: "relay_ok relay file \<Longrightarrow> relay_ok relay None"
  by (auto simp: relay_ok_def split: relay_state.splits)

definition files_there :: "job_dir \<Rightarrow> bool" where
  "files_there d \<longleftrightarrow> jd_stdout d \<noteq> None \<and> jd_stderr d \<noteq> None \<and> jd_stdout_tail d \<noteq> None \<and> jd_stderr_tail d \<noteq> None"

text \<open>Only of a finished job the files may be missing, when its removal has begun.\<close>

definition holds_job :: "int \<Rightarrow> capture_job \<Rightarrow> job_dir \<Rightarrow> bool" where
  "holds_job clock job d \<longleftrightarrow> jd_state d = Stored (stored_value job) \<and> job_ok job \<and> jb_started_at_ns job \<le> clock \<and>
     (terminal job \<or> jb_retention job = NoOutput \<or> files_there d)"

definition entry_ok :: "int \<Rightarrow> pystr \<Rightarrow> job_dir \<Rightarrow> bool" where
  "entry_ok clock i d \<longleftrightarrow> job_id_ok i \<and> dir_ok d \<and> (jd_state d = NoState \<or> (\<exists>job. jb_id job = i \<and> holds_job clock job d))"

definition store_ok :: "int \<Rightarrow> job_root \<Rightarrow> bool" where
  "store_ok clock store \<longleftrightarrow> (\<forall>i d. dget (jr_jobs store) i = Some d \<longrightarrow> entry_ok clock i d)"

lemma store_okD: "store_ok clock store \<Longrightarrow> dget (jr_jobs store) i = Some d \<Longrightarrow> entry_ok clock i d"
  by (simp add: store_ok_def)

lemma store_ok_job:
  assumes "store_ok clock store" "dget (jr_jobs store) i = Some d" "jd_state d \<noteq> NoState"
  obtains job where "job_id_ok i" "jb_id job = i" "holds_job clock job d"
  using store_okD [OF assms(1,2)] assms(3) unfolding entry_ok_def by blast

lemma store_ok_mono: "store_ok clock store \<Longrightarrow> clock \<le> clock' \<Longrightarrow> store_ok clock' store"
  unfolding store_ok_def entry_ok_def holds_job_def by (meson order_trans)

lemma store_ok_set_entry: "store_ok clock store \<Longrightarrow> entry_ok clock i d \<Longrightarrow> store_ok clock (set_dir i d store)"
  by (simp add: store_ok_def set_dir_def)

lemma store_ok_set_dir:
  assumes "store_ok clock store" "job_id_ok i" "jb_id job = i" "holds_job clock job d" "dir_ok d"
  shows "store_ok clock (set_dir i d store)"
  using assms by (intro store_ok_set_entry) (auto simp: entry_ok_def)

lemma read_held:
  assumes "dget (jr_jobs store) i = Some d" "job_id_ok i" "jb_id job = i" "holds_job clock job d"
  shows "read_capture_job store i = Inr job"
  using assms job_round_trip [of job] by (simp add: read_capture_job_def validate_job_id_def holds_job_def)

lemma read_capture_job_Inr:
  assumes "store_ok clock store" "read_capture_job store i = Inr job"
  obtains d where "dget (jr_jobs store) i = Some d" "job_id_ok i" "jb_id job = i" "holds_job clock job d" "dir_ok d"
proof -
  obtain d where d: "dget (jr_jobs store) i = Some d"
    using assms(2) by (auto simp: read_capture_job_def validate_job_id_def rbind_eq_Inr_iff split: option.splits)
  then have state: "jd_state d \<noteq> NoState" using assms(2) by (auto simp: read_capture_job_def validate_job_id_def rbind_eq_Inr_iff)
  obtain job' where job': "job_id_ok i" "jb_id job' = i" "holds_job clock job' d" by (rule store_ok_job [OF assms(1) d state])
  then have "job' = job" using read_held [OF d] assms(2) by simp
  moreover have "dir_ok d" using store_okD [OF assms(1) d] by (simp add: entry_ok_def)
  ultimately show ?thesis using d job' by (intro that) simp_all
qed

lemma write_capture_job_Inr:
  assumes "write_capture_job store job = Inr store'"
  obtains d where "dget (jr_jobs store) (jb_id job) = Some d" "job_id_ok (jb_id job)"
    "store' = set_dir (jb_id job) (d\<lparr>jd_state := Stored (stored_value job)\<rparr>) store"
  using assms by (auto simp: write_capture_job_def validate_job_id_def rbind_eq_Inr_iff job_unless_Inr_iff split: option.splits)

lemma dir_ok_state [simp]: "dir_ok (d\<lparr>jd_state := x\<rparr>) = dir_ok d" "files_there (d\<lparr>jd_state := x\<rparr>) = files_there d"
  by (simp_all add: dir_ok_def files_there_def)

lemma holds_job_updated:
  assumes "holds_job clock job d" "job_ok job'" "same_job job job'"
  shows "holds_job clock job' (d\<lparr>jd_state := Stored (stored_value job')\<rparr>)"
  using assms by (auto simp: holds_job_def same_job_def)

text \<open>An update that keeps a job well formed keeps the directory well formed.\<close>

lemma update_capture_job_ok:
  assumes "store_ok clock store" "update_capture_job store i f = Inr (job', store')"
    and keeps: "\<And>job. job_ok job \<Longrightarrow> jb_started_at_ns job \<le> clock \<Longrightarrow> f job = Inr job' \<Longrightarrow> job_ok job' \<and> same_job job job'"
  shows "store_ok clock store'"
proof -
  obtain job where job: "read_capture_job store i = Inr job" "f job = Inr job'" "write_capture_job store job' = Inr store'"
    using assms(2) by (auto simp: update_capture_job_def rbind_eq_Inr_iff)
  obtain d where d: "dget (jr_jobs store) i = Some d" "job_id_ok i" "jb_id job = i" "holds_job clock job d" "dir_ok d"
    by (rule read_capture_job_Inr [OF assms(1) job(1)])
  have ok: "job_ok job'" "same_job job job'" using keeps [OF _ _ job(2)] d(4) by (simp_all add: holds_job_def)
  then have i: "jb_id job' = i" using d(3) by (simp add: same_job_def)
  obtain d' where "dget (jr_jobs store) (jb_id job') = Some d'" "store' = set_dir (jb_id job') (d'\<lparr>jd_state := Stored (stored_value job')\<rparr>) store"
    by (rule write_capture_job_Inr [OF job(3)])
  then show ?thesis
    using store_ok_set_dir [OF assms(1) d(2) i holds_job_updated [OF d(4) ok]] d(1,5) i by simp
qed

lemma dget_filter_keys: "dget (filter (\<lambda>(i, _). P i) ds) i = (if P i then dget ds i else None)"
  by (induction ds) auto

lemma store_ok_filter: "store_ok clock store \<Longrightarrow> store_ok clock (store\<lparr>jr_jobs := filter (\<lambda>(i, _). P i) (jr_jobs store)\<rparr>)"
  by (simp add: store_ok_def dget_filter_keys)

lemma prune_ok: "store_ok clock store \<Longrightarrow> prune_capture_jobs now store = Inr store' \<Longrightarrow> store_ok clock store'"
  by (auto simp: prune_capture_jobs_def rbind_eq_Inr_iff intro: store_ok_filter)

text \<open>A change of a directory apart from its state file.\<close>

lemma store_ok_touch:
  assumes "store_ok clock store" "dget (jr_jobs store) i = Some d" "jd_state d' = jd_state d"
    and "dir_ok d \<Longrightarrow> dir_ok d'" "files_there d \<Longrightarrow> files_there d'"
  shows "store_ok clock (set_dir i d' store)"
proof (rule store_ok_set_entry [OF assms(1)])
  show "entry_ok clock i d'" using store_okD [OF assms(1,2)] assms(3-5) by (auto simp: entry_ok_def holds_job_def)
qed

lemma store_ok_stateless:
  "store_ok clock store \<Longrightarrow> job_id_ok i \<Longrightarrow> jd_state d = NoState \<Longrightarrow> dir_ok d \<Longrightarrow> store_ok clock (set_dir i d store)"
  by (rule store_ok_set_entry) (simp_all add: entry_ok_def)

section \<open>The files of a job\<close>

lemma output_file_size_within: "int (length bytes) \<le> limit \<Longrightarrow> \<exists>n. output_file_size (Some bytes) limit = Inr n"
  by (simp add: output_file_size_def)

lemma output_file_size_Inr: "output_file_size file limit = Inr n \<Longrightarrow> 0 \<le> n \<and> n \<le> limit"
  by (auto simp: output_file_size_def res_simps split: option.splits)

lemma output_tail_sizes_Inr:
  assumes "output_tail_sizes store job = Inr (c, e)"
  shows "0 \<le> c \<and> c \<le> snd (output_limits (jb_retention job)) \<and> 0 \<le> e \<and> e \<le> snd (output_limits (jb_retention job))"
proof (cases "jb_retention job = HeadTail")
  case True
  then have "output_file_size (output_file True Stdout store (jb_id job)) (snd (output_limits (jb_retention job))) = Inr c"
    "output_file_size (output_file True Stderr store (jb_id job)) (snd (output_limits (jb_retention job))) = Inr e"
    using assms by (simp_all add: output_tail_sizes_def rbind_eq_Inr_iff)
  then show ?thesis by (simp add: output_file_size_Inr)
next
  case False
  then show ?thesis using assms output_limits_bounds [of "jb_retention job"] by (simp add: output_tail_sizes_def)
qed

lemma refresh_ok:
  assumes "job_ok job" "refresh_output_sizes store job = Inr job'"
  shows "job_ok job' \<and> same_job job job' \<and> jb_state job' = jb_state job \<and> jb_updated_at_ns job' = jb_updated_at_ns job"
proof (cases "jb_detached job")
  case True
  obtain a b c e where heads: "output_file_size (output_file False Stdout store (jb_id job)) (fst (output_limits (jb_retention job))) = Inr a"
    "output_file_size (output_file False Stderr store (jb_id job)) (fst (output_limits (jb_retention job))) = Inr b"
    and tails: "output_tail_sizes store job = Inr (c, e)"
    and job': "job' = job\<lparr>jb_stdout := with_sizes a c (jb_stdout job), jb_stderr := with_sizes b e (jb_stderr job)\<rparr>"
    using assms(2) True by (auto simp: refresh_output_sizes_def Let_def rbind_eq_Inr_iff)
  have "stream_ok (output_limits (jb_retention job)) (with_sizes a c (jb_stdout job))"
    "stream_ok (output_limits (jb_retention job)) (with_sizes b e (jb_stderr job))"
    using assms(1) output_file_size_Inr [OF heads(1)] output_file_size_Inr [OF heads(2)] output_tail_sizes_Inr [OF tails]
    by (simp_all add: job_ok_def with_sizes_ok)
  then show ?thesis using assms(1) True by (simp add: job' job_ok_def same_job_def terminal_def)
next
  case False
  then show ?thesis using assms by (simp add: refresh_output_sizes_def same_job_def)
qed

lemma head_room_limits: "r \<noteq> NoOutput \<Longrightarrow> int head_room \<le> fst (output_limits r)" "int tail_room = snd (output_limits HeadTail)"
  by (cases r; simp add: head_room_def tail_room_def job_output_head_limit_def job_output_limit_def job_output_tail_limit_def)+

lemma refresh_defined:
  assumes "dget (jr_jobs store) (jb_id job) = Some d" "job_ok job" "dir_ok d" "jb_retention job = NoOutput \<or> files_there d"
  shows "\<exists>job'. refresh_output_sizes store job = Inr job'"
proof (cases "jb_detached job")
  case True
  then have r: "jb_retention job \<noteq> NoOutput" using assms(2) by (simp add: job_ok_def)
  then obtain a b c e where files: "jd_stdout d = Some a" "jd_stderr d = Some b" "jd_stdout_tail d = Some c" "jd_stderr_tail d = Some e"
    using assms(4) by (auto simp: files_there_def)
  then have heads: "int (length a) \<le> fst (output_limits (jb_retention job))" "int (length b) \<le> fst (output_limits (jb_retention job))"
    using assms(3) relay_ok_size [of "jd_stdout_relay d" a] relay_ok_size [of "jd_stderr_relay d" b] head_room_limits(1) [OF r]
    by (auto simp: dir_ok_def)
  have tails: "int (length c) \<le> snd (output_limits HeadTail)" "int (length e) \<le> snd (output_limits HeadTail)"
    using assms(3) files rooms(2) by (auto simp: dir_ok_def)
  have "\<exists>c e. output_tail_sizes store job = Inr (c, e)"
    using output_file_size_within [OF tails(1)] output_file_size_within [OF tails(2)] assms(1)
    by (auto simp: output_tail_sizes_def output_file_def files)
  with output_file_size_within [OF heads(1)] output_file_size_within [OF heads(2)] show ?thesis
    using assms(1) by (auto simp: refresh_output_sizes_def Let_def output_file_def files)
qed (simp add: refresh_output_sizes_def)

end
