(* ===== verification/JobSteps.thy ===== *)
theory JobSteps
  imports JobStoreLaws
begin

text \<open>
  The processes that act on the directory, as a step relation on the latest clock reading and the directory,
  and its invariant. The worker of a job acts while it holds the lock of the job, or when the lock file has been
  removed under it; it loses the lock when it ends, however it ends. The first reading of a load may be of any
  earlier directory. The operations that make several changes are both one step and a sequence of smaller ones,
  so that a process may be killed between any two of them: a job directory is made entry by entry before its state
  is written, finished jobs and directories without a state are removed entry by entry, the end of a job is recorded
  before old jobs are pruned, the tail file is emptied before it is written, and the head file may get only a part
  of a chunk. The state file itself is replaced at once (\<open>os.replace\<close>).
  What is done under a lock that is released again (failing a start, starting, marking as lost) is one step: another
  process finds the lock taken and changes nothing. The readings of the clock never go back; \<open>clock_step_back_loses_job\<close>
  in \<open>JobProperties\<close> shows what is lost when they do.
\<close>

definition reads :: "int \<Rightarrow> int \<Rightarrow> int \<Rightarrow> bool" where
  "reads c t c' \<longleftrightarrow> c \<le> t \<and> t \<le> c' \<and> c' \<le> max_int64"

definition working :: "job_root \<Rightarrow> pystr \<Rightarrow> bool" where
  "working store i \<longleftrightarrow> (\<exists>d. dget (jr_jobs store) i = Some d \<and> jd_lock d = Held)"

definition at_work :: "job_root \<Rightarrow> pystr \<Rightarrow> bool" where
  "at_work store i \<longleftrightarrow> (\<exists>d. dget (jr_jobs store) i = Some d \<and> (jd_lock d = Held \<or> jd_lock d = NoLock))"

text \<open>What may be removed, and the directory after one of its entries has been removed.\<close>

definition removable :: "job_root \<Rightarrow> pystr \<Rightarrow> job_dir \<Rightarrow> bool" where
  "removable store i d \<longleftrightarrow> jd_state d = NoState \<or> (\<exists>job. read_capture_job store i = Inr job \<and> terminal job)"

definition removals :: "job_dir \<Rightarrow> job_dir list" where
  "removals d = [d\<lparr>jd_state := NoState\<rparr>, d\<lparr>jd_lock := NoLock\<rparr>, d\<lparr>jd_channel := NoChannel\<rparr>, d\<lparr>jd_stdout := None\<rparr>,
     d\<lparr>jd_stderr := None\<rparr>, d\<lparr>jd_stdout_tail := None\<rparr>, d\<lparr>jd_stderr_tail := None\<rparr>]"

definition emptied :: "job_dir \<Rightarrow> bool" where
  "emptied d \<longleftrightarrow> jd_state d = NoState \<and> jd_lock d = NoLock \<and> jd_channel d = NoChannel \<and> jd_stdout d = None \<and> jd_stderr d = None \<and>
     jd_stdout_tail d = None \<and> jd_stderr_tail d = None"

definition drop_dir :: "pystr \<Rightarrow> job_root \<Rightarrow> job_root" where
  "drop_dir i store = store\<lparr>jr_jobs := filter (\<lambda>(k, _). k \<noteq> i) (jr_jobs store)\<rparr>"

definition stop_relay :: "relay_state \<Rightarrow> relay_state" where
  "stop_relay r = (case r of Unopened \<Rightarrow> Unopened | _ \<Rightarrow> Stopped)"

inductive service_step :: "int \<times> job_root \<Rightarrow> int \<times> job_root \<Rightarrow> bool" where
  tick: "reads c c' c' \<Longrightarrow> service_step (c, s) (c', s)"
| create: "create_capture_job operation detached t0 t ids s = (r, s') \<Longrightarrow> list_all job_id_ok ids \<Longrightarrow> reads c t c' \<Longrightarrow>
    service_step (c, s) (c', s')"
| make_directory: "\<not> has_key (jr_jobs s) i \<Longrightarrow> job_id_ok i \<Longrightarrow> service_step (c, s) (c, set_dir i (stage_dir detached 0) s)"
| make_part: "dget (jr_jobs s) i = Some (stage_dir detached k) \<Longrightarrow> k < length (creation_parts detached) \<Longrightarrow>
    service_step (c, s) (c, set_dir i (stage_dir detached (Suc k)) s)"
| make_state: "dget (jr_jobs s) i = Some (new_job_dir detached) \<Longrightarrow> operation_name_ok operation \<Longrightarrow> reads 0 t c \<Longrightarrow>
    write_capture_job s (new_job i operation detached t) = Inr s' \<Longrightarrow> service_step (c, s) (c, s')"
| remove_part: "dget (jr_jobs s) i = Some d \<Longrightarrow> removable s i d \<Longrightarrow> d' \<in> set (removals d) \<Longrightarrow> service_step (c, s) (c, set_dir i d' s)"
| remove_directory: "dget (jr_jobs s) i = Some d \<Longrightarrow> emptied d \<Longrightarrow> service_step (c, s) (c, drop_dir i s)"
| fail_start: "fail_capture_job_start i t s = Inr s' \<Longrightarrow> reads c t c' \<Longrightarrow> service_step (c, s) (c', s')"
| start: "start_current_capture_job (Some i) pid t s = Inr s' \<Longrightarrow> 1 \<le> pid \<Longrightarrow> pid \<le> max_int64 \<Longrightarrow> reads c t c' \<Longrightarrow>
    service_step (c, s) (c', s')"
| open_channel: "open_cancel_channel (Some i) s = Inr s' \<Longrightarrow> at_work s i \<Longrightarrow> service_step (c, s) (c, s')"
| open_relay: "open_output_sink (Some i) stream s = Inr () \<Longrightarrow> at_work s i \<Longrightarrow> dget (jr_jobs s) i = Some d \<Longrightarrow> relay_of stream d = Unopened \<Longrightarrow>
    service_step (c, s) (c, set_dir i (set_relay stream (Relaying empty_relay) d) s)"
| write_output: "dget (jr_jobs s) i = Some d \<Longrightarrow> relay_of stream d = Relaying r \<Longrightarrow> relay_chunk content r = Inr (head, r') \<Longrightarrow>
    service_step (c, s) (c, set_dir i (set_relay stream (Relaying r') (append_output stream head d)) s)"
| cut_output: "dget (jr_jobs s) i = Some d \<Longrightarrow> relay_of stream d = Relaying r \<Longrightarrow> relay_chunk content r = Inr (head, r') \<Longrightarrow>
    service_step (c, s) (c, set_dir i (set_relay stream Stopped (append_output stream (take k head) d)) s)"
| write_tail: "checkpoint_output_tail (Some i) stream content s = Inr s' \<Longrightarrow> at_work s i \<Longrightarrow> service_step (c, s) (c, s')"
| cut_tail: "checkpoint_output_tail (Some i) stream content s = Inr s' \<Longrightarrow> at_work s i \<Longrightarrow> dget (jr_jobs s) i = Some d \<Longrightarrow>
    service_step (c, s) (c, set_dir i (set_tail stream (take k content) d) s)"
| mark_output: "mark_capture_job_output (Some i) stream m t s = Inr s' \<Longrightarrow> at_work s i \<Longrightarrow> reads c t c' \<Longrightarrow> service_step (c, s) (c', s')"
| mark_disconnected: "mark_capture_job_disconnected (Some i) t s = Inr s' \<Longrightarrow> at_work s i \<Longrightarrow> reads c t c' \<Longrightarrow> service_step (c, s) (c', s')"
| mark_incomplete: "mark_capture_job_output_incomplete (Some i) t s = Inr s' \<Longrightarrow> at_work s i \<Longrightarrow> reads c t c' \<Longrightarrow>
    service_step (c, s) (c', s')"
| record_artifacts: "record_capture_job_artifacts abspath (Some i) paths t s = Inr s' \<Longrightarrow> \<forall>p. 0 \<notin> set (abspath p) \<Longrightarrow> at_work s i \<Longrightarrow>
    reads c t c' \<Longrightarrow> service_step (c, s) (c', s')"
| finish: "finish_current_capture_job (Some i) status failed t t0 s = (r, s') \<Longrightarrow> at_work s i \<Longrightarrow> reads c t c' \<Longrightarrow>
    service_step (c, s) (c', s')"
| record_finish: "update_capture_job s i (\<lambda>job. Inr (finished status failed t job)) = Inr (job, s') \<Longrightarrow> 0 \<le> status \<Longrightarrow> status \<le> 255 \<Longrightarrow>
    at_work s i \<Longrightarrow> reads c t c' \<Longrightarrow> service_step (c, s) (c', s')"
| worker_ends: "dget (jr_jobs s) i = Some d \<Longrightarrow> jd_lock d = Held \<Longrightarrow>
    service_step (c, s) (c, set_dir i (d\<lparr>jd_lock := Free, jd_channel := NoReader,
      jd_stdout_relay := stop_relay (jd_stdout_relay d), jd_stderr_relay := stop_relay (jd_stderr_relay d)\<rparr>) s)"
| cancel: "request_cancel s i = Inr (sent, s') \<Longrightarrow> service_step (c, s) (c, s')"
| load: "load_capture_job i clock before s = Inr (job, s') \<Longrightarrow> reads c (ck_update clock) c' \<Longrightarrow> service_step (c, s) (c', s')"

section \<open>Every step keeps the directory well formed\<close>

lemma timely_reads: "jb_started_at_ns job \<le> c \<Longrightarrow> reads c t c' \<Longrightarrow> timely t job"
  by (simp add: timely_def reads_def)

lemma store_ok_reads: "store_ok c s \<Longrightarrow> reads c t c' \<Longrightarrow> store_ok c' s"
  using store_ok_mono by (simp add: reads_def)

lemma stage_dir_ok: "dir_ok (stage_dir detached k) \<and> jd_state (stage_dir detached k) = NoState"
proof -
  have *: "dir_ok (fold (\<lambda>part. part) (take k parts) d) \<and> jd_state (fold (\<lambda>part. part) (take k parts) d) = NoState"
    if "\<forall>part\<in>set parts. \<forall>d. blank d \<longrightarrow> blank (part d)" "blank d" and blank: "blank = (\<lambda>d. jd_state d = NoState \<and> dir_ok d \<and>
      jd_stdout_relay d = Unopened \<and> jd_stderr_relay d = Unopened)" for parts d blank
  proof -
    have "blank (fold (\<lambda>part. part) (take k parts) d)" using that(1,2)
    proof (induction k arbitrary: parts d)
      case (Suc k)
      then show ?case by (cases parts) simp_all
    qed simp
    then show ?thesis by (simp add: blank)
  qed
  show ?thesis unfolding stage_dir_def
    by (rule *) (auto simp: creation_parts_def bare_dir_def dir_ok_def relay_ok_def)
qed

lemma new_job_dir_stage: "new_job_dir detached = stage_dir detached (length (creation_parts detached))"
  by (cases detached) (simp_all add: new_job_dir_def stage_dir_def creation_parts_def bare_dir_def Let_def)

lemma new_job_dir_ok: "dir_ok (new_job_dir detached)"
  unfolding new_job_dir_stage using stage_dir_ok by blast

lemma allocate_job_ok:
  assumes "allocate_job name detached now ids s = (r, s')" "list_all job_id_ok ids" "operation_name_ok name"
    "0 \<le> now" "now \<le> c" "c \<le> max_int64" "store_ok c s"
  shows "store_ok c s'"
  using assms(1,2)
proof (induction ids)
  case Nil
  then show ?case using assms(7) by simp
next
  case (Cons i ids)
  show ?case
  proof (cases "has_key (jr_jobs s) i")
    case True
    then show ?thesis using Cons by simp
  next
    case False
    show ?thesis
    proof (cases "write_capture_job (set_dir i (new_job_dir detached) s) (new_job i name detached now)")
      case (Inl e)
      then show ?thesis using Cons.prems False assms(7) by simp
    next
      case (Inr s'')
      let ?job = "new_job i name detached now"
      let ?d = "(new_job_dir detached)\<lparr>jd_state := Stored (stored_value ?job)\<rparr>"
      have id: "jb_id ?job = i" by (simp add: new_job_def)
      obtain d where d: "dget (jr_jobs (set_dir i (new_job_dir detached) s)) (jb_id ?job) = Some d"
        "s'' = set_dir (jb_id ?job) (d\<lparr>jd_state := Stored (stored_value ?job)\<rparr>) (set_dir i (new_job_dir detached) s)"
        by (rule write_capture_job_Inr [OF Inr])
      have "s' = s''" using Cons.prems(1) False Inr by simp
      moreover have "d = new_job_dir detached" using d(1) by (simp add: id set_dir_def)
      ultimately have s': "dget (jr_jobs s') = (dget (jr_jobs s))(i \<mapsto> ?d)"
        using d(2) by (simp add: id set_dir_def)
      have "holds_job c ?job ?d"
        using new_job_ok [OF assms(3,4), of i detached] assms(5,6)
        by (simp add: holds_job_def new_job_def files_there_def new_job_dir_def Let_def)
      then have "entry_ok c i ?d" using Cons.prems new_job_dir_ok [of detached] id by (auto simp: entry_ok_def)
      then show ?thesis using assms(7) unfolding store_ok_def s' by auto
    qed
  qed
qed

lemma create_ok:
  assumes "create_capture_job operation detached t0 t ids s = (r, s')" "list_all job_id_ok ids" "reads c t c'" "0 \<le> c" "store_ok c s"
  shows "store_ok c' s'"
proof -
  have s: "store_ok c' s" by (rule store_ok_reads [OF assms(5,3)])
  show ?thesis
  proof (cases "validate_operation operation")
    case (Inr name)
    then have name: "operation_name_ok name" by (simp add: validate_operation_Inr_iff)
    show ?thesis
    proof (cases "prune_capture_jobs t0 s")
      case pruned: (Inr s1)
      have "allocate_job name detached t (take 32 ids) s1 = (r, s')"
        using assms(1) Inr pruned by (simp add: create_capture_job_def)
      then show ?thesis
        by (rule allocate_job_ok) (use assms name prune_ok [OF s pruned] in \<open>auto simp: reads_def list_all_iff dest: in_set_takeD\<close>)
    qed (use assms(1) s Inr in \<open>simp add: create_capture_job_def\<close>)
  qed (use assms(1) s in \<open>simp add: create_capture_job_def\<close>)
qed

lemma catch_job_error_Inr: "catch_job_error x r = Inr y \<Longrightarrow> y = x \<or> r = Inr y"
  by (auto simp: catch_job_error_def split: sum.splits err.splits)

text \<open>An update under a clock reading.\<close>

lemma update_reads_ok:
  assumes "store_ok c s" "reads c t c'" "update_capture_job s i f = Inr (job', s')"
    and "\<And>job. job_ok job \<Longrightarrow> timely t job \<Longrightarrow> f job = Inr job' \<Longrightarrow> job_ok job' \<and> same_job job job'"
  shows "store_ok c' s'"
proof (rule store_ok_mono)
  show "store_ok c s'" by (rule update_capture_job_ok [OF assms(1,3)]) (use assms(4) timely_reads [OF _ assms(2)] in blast)
  show "c \<le> c'" using assms(2) by (simp add: reads_def)
qed

lemma quietly_update_ok:
  assumes "store_ok c s" "reads c t c'" "quietly_update (Some i) f s = Inr s'"
    and "\<And>job job'. job_ok job \<Longrightarrow> timely t job \<Longrightarrow> f job = Inr job' \<Longrightarrow> job_ok job' \<and> same_job job job'"
  shows "store_ok c' s'"
proof -
  have "s' = s \<or> (\<exists>job'. update_capture_job s i f = Inr (job', s'))"
    using assms(3) by (auto simp: quietly_update_def current_capture_job_id_def validate_job_id_def rbind_eq_Inr_iff
        dest!: catch_job_error_Inr)
  then show ?thesis using store_ok_reads [OF assms(1,2)] update_reads_ok [OF assms(1,2)] assms(4) by blast
qed

lemma set_lock_ok: "store_ok c s \<Longrightarrow> store_ok c (set_lock i l s)"
  by (auto simp: set_lock_def dir_ok_def files_there_def intro: store_ok_touch split: option.splits)

lemma fail_start_ok: "store_ok c s \<Longrightarrow> reads c t c' \<Longrightarrow> fail_capture_job_start i t s = Inr s' \<Longrightarrow> store_ok c' s'"
  unfolding fail_capture_job_start_def
  by (drule catch_job_error_Inr)
    (auto simp: rbind_eq_Inr_iff failed_start_ok split: if_splits intro: store_ok_reads update_reads_ok)

lemma start_ok:
  assumes "store_ok c s" "reads c t c'" "start_current_capture_job (Some i) pid t s = Inr s'" "1 \<le> pid" "pid \<le> max_int64"
  shows "store_ok c' s'"
proof -
  obtain job s1 where "update_capture_job s i (started pid t) = Inr (job, s1)" and s': "s' = set_lock i Held s1"
    using assms(3) by (auto simp: start_current_capture_job_def required_capture_job_id_def validate_job_id_def rbind_eq_Inr_iff)
  then have "store_ok c' s1"
    using update_reads_ok [OF assms(1,2)] started_ok same_job_started assms(4,5) by blast
  then show ?thesis unfolding s' by (rule set_lock_ok)
qed

lemma mark_output_ok:
  assumes "store_ok c s" "reads c t c'" "mark_capture_job_output (Some i) stream m t s = Inr s'"
  shows "store_ok c' s'"
proof -
  obtain job where "update_capture_job s i (marked_output stream m t) = Inr (job, s')" and "mark_ok m"
    using assms(3) by (auto simp: mark_capture_job_output_def required_capture_job_id_def validate_job_id_def rbind_eq_Inr_iff
        job_unless_Inr_iff mark_ok_def)
  then show ?thesis using update_reads_ok [OF assms(1,2)] marked_output_ok same_job_marked by blast
qed

lemma artifact_values_ok:
  "\<forall>p. 0 \<notin> set (abspath p) \<Longrightarrow> traverse (artifact_value abspath) paths = Inr artifacts \<Longrightarrow>
   length artifacts = length paths \<and> list_all artifact_ok artifacts"
  by (induction paths arbitrary: artifacts) (auto simp: res_simps artifact_value_def artifact_ok_def)

lemma record_artifacts_ok:
  assumes "store_ok c s" "reads c t c'" "record_capture_job_artifacts abspath (Some i) paths t s = Inr s'" "\<forall>p. 0 \<notin> set (abspath p)"
  shows "store_ok c' s'"
proof -
  consider "s' = s" | artifacts job where "length artifacts \<le> max_job_artifacts" "list_all artifact_ok artifacts"
      "update_capture_job s i (\<lambda>job. Inr (with_artifacts artifacts t job)) = Inr (job, s')"
    using assms(3) artifact_values_ok [OF assms(4), of paths]
    by (auto simp: record_capture_job_artifacts_def current_capture_job_id_def validate_job_id_def rbind_eq_Inr_iff job_unless_Inr_iff
        dest!: catch_job_error_Inr) metis
  then show ?thesis
  proof cases
    case 1
    then show ?thesis using store_ok_reads [OF assms(1,2)] by simp
  next
    case 2
    show ?thesis by (rule update_reads_ok [OF assms(1,2) 2(3)]) (use 2(1,2) in \<open>auto simp: with_artifacts_ok\<close>)
  qed
qed

lemma finish_ok:
  assumes "store_ok c s" "reads c t c'" "finish_current_capture_job (Some i) status failed t t0 s = (r, s')"
  shows "store_ok c' s'"
proof (cases "rbind (required_capture_job_id (Some i)) (\<lambda>i.
    rbind (job_unless (0 \<le> status \<and> status \<le> 255) ''capture job exit status is invalid'') (\<lambda>_.
    update_capture_job s i (\<lambda>job. Inr (finished status failed t job))))")
  case (Inl e)
  then show ?thesis using assms(3) store_ok_reads [OF assms(1,2)] by (simp add: finish_current_capture_job_def)
next
  case (Inr p)
  obtain job s1 where p: "p = (job, s1)" by (cases p)
  then have "update_capture_job s i (\<lambda>job. Inr (finished status failed t job)) = Inr (job, s1)" "0 \<le> status" "status \<le> 255"
    using Inr by (auto simp: required_capture_job_id_def validate_job_id_def rbind_eq_Inr_iff job_unless_Inr_iff)
  then have s1: "store_ok c' s1" by (intro update_reads_ok [OF assms(1,2)]) (auto simp: finished_ok)
  show ?thesis
  proof (cases "prune_capture_jobs t0 s1")
    case (Inl e)
    then show ?thesis using assms(3) Inr p s1 by (simp add: finish_current_capture_job_def)
  next
    case pruned: (Inr s2)
    then show ?thesis using assms(3) Inr p prune_ok [OF s1 pruned] by (simp add: finish_current_capture_job_def)
  qed
qed

lemma open_channel_ok:
  assumes "store_ok c s" "open_cancel_channel (Some i) s = Inr s'"
  shows "store_ok c s'"
proof -
  obtain d where d: "dget (jr_jobs s) i = Some d" and s': "s' = s \<or> s' = set_dir i (d\<lparr>jd_channel := Listening 0\<rparr>) s"
    using assms(2) by (auto simp: open_cancel_channel_def required_capture_job_id_def validate_job_id_def rbind_eq_Inr_iff
        split: option.splits cancel_channel.splits)
  have "store_ok c (set_dir i (d\<lparr>jd_channel := Listening 0\<rparr>) s)" by (rule store_ok_touch [OF assms(1) d]) (simp_all add: dir_ok_def files_there_def)
  with s' assms(1) show ?thesis by auto
qed

lemma cancel_ok:
  assumes "store_ok c s" "request_cancel s i = Inr (sent, s')"
  shows "store_ok c s'"
proof -
  have "s' = s \<or> (\<exists>d n. dget (jr_jobs s) i = Some d \<and> s' = set_dir i (d\<lparr>jd_channel := Listening n\<rparr>) s)"
    using assms(2) by (auto simp: request_cancel_def validate_job_id_def rbind_eq_Inr_iff split: option.splits cancel_channel.splits)
  then show ?thesis using assms(1) by (auto intro: store_ok_touch simp: dir_ok_def files_there_def)
qed

lemma tail_checkpoint:
  assumes "checkpoint_output_tail (Some i) stream content s = Inr s'"
  obtains d where "dget (jr_jobs s) i = Some d" "length content \<le> tail_room" "output_tail_path stream d \<noteq> None"
    "s' = set_dir i (set_tail stream content d) s"
  using assms rooms(2)
  by (auto simp: checkpoint_output_tail_def checkpoint_output_tail_file_def required_capture_job_id_def validate_job_id_def
      rbind_eq_Inr_iff job_unless_Inr_iff split: option.splits)

lemma set_tail_ok:
  assumes "store_ok c s" "dget (jr_jobs s) i = Some d" "length content \<le> tail_room"
  shows "store_ok c (set_dir i (set_tail stream content d) s)"
  by (rule store_ok_touch [OF assms(1,2)]) (use assms(3) in \<open>cases stream; auto simp: set_tail_def dir_ok_def files_there_def\<close>)+

lemma write_tail_ok: "store_ok c s \<Longrightarrow> checkpoint_output_tail (Some i) stream content s = Inr s' \<Longrightarrow> store_ok c s'"
  by (metis tail_checkpoint set_tail_ok)

lemma cut_tail_ok:
  assumes "store_ok c s" "checkpoint_output_tail (Some i) stream content s = Inr s'" "dget (jr_jobs s) i = Some d"
  shows "store_ok c (set_dir i (set_tail stream (take k content) d) s)"
proof -
  have "length content \<le> tail_room" by (rule tail_checkpoint [OF assms(2)])
  then show ?thesis by (intro set_tail_ok [OF assms(1,3)]) simp
qed

text \<open>The relays and the head files.\<close>

lemma relay_step_ok:
  assumes "store_ok c s" "dget (jr_jobs s) i = Some d"
    and "relay_ok (relay_of stream d) (output_path stream d) \<Longrightarrow> relay_ok r (map_option (\<lambda>old. old @ bytes) (output_path stream d))"
  shows "store_ok c (set_dir i (set_relay stream r (append_output stream bytes d)) s)"
proof (rule store_ok_touch [OF assms(1,2)])
  let ?d = "set_relay stream r (append_output stream bytes d)"
  show "jd_state ?d = jd_state d" by (cases stream) (simp_all add: set_relay_def append_output_def)
  show "dir_ok ?d" if "dir_ok d"
    using that assms(3) by (cases stream) (simp_all add: set_relay_def append_output_def dir_ok_def)
  show "files_there ?d" if "files_there d"
    using that by (cases stream) (simp_all add: set_relay_def append_output_def files_there_def)
qed

lemma relay_chunk_ok:
  assumes "relay_ok (Relaying r) file" "relay_chunk content r = Inr (head, r')"
  shows "relay_ok (Relaying r') (map_option (\<lambda>old. old @ head) file)"
    and "relay_ok Stopped (map_option (\<lambda>old. old @ take k head) file)"
proof -
  obtain out where out: "relay_holds out r" "file = None \<or> file = Some (take head_room out)"
    using assms(1) by (auto simp: relay_ok_def)
  obtain h r2 where chunk: "relay_chunk content r = Inr (h, r2)" "relay_holds (out @ content) r2"
      "take head_room (out @ content) = take head_room out @ h"
    using relay_chunk_holds [OF out(1), of content] by blast
  have "h = head" "r2 = r'" using chunk(1) assms(2) by simp_all
  note after = chunk(2,3) [unfolded this]
  show "relay_ok (Relaying r') (map_option (\<lambda>old. old @ head) file)"
    unfolding relay_ok_def relay_state.case by (rule exI [of _ "out @ content"])
      (use out(2) after(1) in \<open>auto simp only: after(2) option.map option.inject simp_thms\<close>)
  have "length (take head_room out @ head) \<le> head_room" unfolding after(2) [symmetric] by simp
  then show "relay_ok Stopped (map_option (\<lambda>old. old @ take k head) file)"
    unfolding relay_ok_def relay_state.case using out(2) by (elim disjE) (simp_all only: option.map option.pred_inject, simp)
qed

lemma write_output_ok:
  assumes "store_ok c s" "dget (jr_jobs s) i = Some d" "relay_of stream d = Relaying r" "relay_chunk content r = Inr (head, r')"
  shows "store_ok c (set_dir i (set_relay stream (Relaying r') (append_output stream head d)) s)"
    and "store_ok c (set_dir i (set_relay stream Stopped (append_output stream (take k head) d)) s)"
  by (rule relay_step_ok [OF assms(1,2)], use relay_chunk_ok [OF _ assms(4)] assms(3) in simp)+

lemma open_relay_ok:
  assumes "store_ok c s" "dget (jr_jobs s) i = Some d" "relay_of stream d = Unopened"
  shows "store_ok c (set_dir i (set_relay stream (Relaying empty_relay) d) s)"
proof -
  have "append_output stream [] d = d" by (cases stream) (simp_all add: append_output_def option.map_ident)
  moreover have "store_ok c (set_dir i (set_relay stream (Relaying empty_relay) (append_output stream [] d)) s)"
  proof (rule relay_step_ok [OF assms(1,2)])
    assume "relay_ok (relay_of stream d) (output_path stream d)"
    then have "output_path stream d = None \<or> output_path stream d = Some []" by (simp add: assms(3) relay_ok_def)
    then show "relay_ok (Relaying empty_relay) (map_option (\<lambda>old. old @ []) (output_path stream d))"
      using empty_relay_holds by (auto simp: relay_ok_def)
  qed
  ultimately show ?thesis by simp
qed

lemma stop_relay_ok: "relay_ok r file \<Longrightarrow> relay_ok (stop_relay r) file"
  by (auto simp: relay_ok_def stop_relay_def pred_option_def split: relay_state.splits)

text \<open>Making and removing a directory entry by entry.\<close>

lemma make_part_ok: "store_ok c s \<Longrightarrow> job_id_ok i \<Longrightarrow> store_ok c (set_dir i (stage_dir detached k) s)"
  using stage_dir_ok by (intro store_ok_stateless) auto

lemma make_state_ok:
  assumes "store_ok c s" "dget (jr_jobs s) i = Some (new_job_dir detached)" "operation_name_ok name" "reads 0 t c"
    "write_capture_job s (new_job i name detached t) = Inr s'"
  shows "store_ok c s'"
proof -
  let ?job = "new_job i name detached t"
  have id: "jb_id ?job = i" by (simp add: new_job_def)
  obtain d where d: "dget (jr_jobs s) i = Some d" "job_id_ok i" "s' = set_dir i (d\<lparr>jd_state := Stored (stored_value ?job)\<rparr>) s"
    using write_capture_job_Inr [OF assms(5)] unfolding id by metis
  have "holds_job c ?job (d\<lparr>jd_state := Stored (stored_value ?job)\<rparr>)"
    using new_job_ok [OF assms(3), of t i detached] assms(2,4) d(1)
    by (auto simp: holds_job_def new_job_def files_there_def new_job_dir_def Let_def reads_def)
  moreover have "dir_ok (d\<lparr>jd_state := Stored (stored_value ?job)\<rparr>)" using assms(2) d(1) new_job_dir_ok by simp
  ultimately show ?thesis unfolding d(3) by (intro store_ok_set_dir [OF assms(1) d(2) id])
qed

lemma remove_part_ok:
  assumes "store_ok c s" "dget (jr_jobs s) i = Some d" "removable s i d" "d' \<in> set (removals d)"
  shows "store_ok c (set_dir i d' s)"
proof (rule store_ok_set_entry [OF assms(1)])
  have entry: "entry_ok c i d" by (rule store_okD [OF assms(1,2)])
  have dir: "dir_ok d'" using entry assms(4) by (auto simp: entry_ok_def removals_def dir_ok_def intro: relay_ok_missing)
  have state: "jd_state d' = jd_state d \<or> jd_state d' = NoState" using assms(4) by (auto simp: removals_def)
  consider "jd_state d' = NoState" | job where "jd_state d' = jd_state d" "read_capture_job s i = Inr job" "terminal job"
    using state assms(3) by (auto simp: removable_def)
  then show "entry_ok c i d'"
  proof cases
    case 1
    then show ?thesis using entry dir by (simp add: entry_ok_def)
  next
    case (2 job)
    obtain d0 where "dget (jr_jobs s) i = Some d0" "jb_id job = i" "holds_job c job d0" by (rule read_capture_job_Inr [OF assms(1) 2(2)])
    then have "jb_id job = i \<and> holds_job c job d'" using assms(2) 2(1,3) by (simp add: holds_job_def)
    then show ?thesis using entry dir unfolding entry_ok_def by blast
  qed
qed

lemma drop_dir_ok: "store_ok c s \<Longrightarrow> store_ok c (drop_dir i s)"
  unfolding drop_dir_def by (rule store_ok_filter)

lemma record_finish_ok:
  assumes "store_ok c s" "reads c t c'" "update_capture_job s i (\<lambda>job. Inr (finished status failed t job)) = Inr (job, s')" "0 \<le> status" "status \<le> 255"
  shows "store_ok c' s'"
  by (rule update_reads_ok [OF assms(1-3)]) (use assms(4,5) in \<open>auto simp: finished_ok\<close>)

text \<open>What a load changes: nothing, or it marks a job as lost whose lock was free.\<close>

lemma load_capture_job_Inr:
  assumes "load_capture_job i clock before s = Inr (job, s')"
  obtains "s' = s"
  | held current where "try_acquire_lock s i = Inr True" "read_capture_job s i = Inr held" "refresh_output_sizes s held = Inr current"
      "\<not> terminal current" "\<not> within_startup_grace (ck_second clock) current" "job = lost (ck_update clock) current"
      "write_capture_job s job = Inr s'"
  using assms by (auto simp: load_capture_job_def validate_job_id_def rbind_eq_Inr_iff split: if_splits)

lemma load_ok:
  assumes "store_ok c s" "load_capture_job i clock before s = Inr (job, s')" "reads c (ck_update clock) c'"
  shows "store_ok c' s'"
  using load_capture_job_Inr [OF assms(2)]
proof cases
  case 1
  then show ?thesis using store_ok_reads [OF assms(1,3)] by simp
next
  case (2 held current)
  have "update_capture_job s i (\<lambda>held. rbind (refresh_output_sizes s held) (\<lambda>current. Inr (lost (ck_update clock) current))) = Inr (job, s')"
    using 2 by (simp add: update_capture_job_def)
  then show ?thesis
  proof (rule update_reads_ok [OF assms(1,3)])
    fix j assume j: "job_ok j" "timely (ck_update clock) j"
      and "rbind (refresh_output_sizes s j) (\<lambda>current. Inr (lost (ck_update clock) current)) = Inr job"
    then obtain cur where cur: "refresh_output_sizes s j = Inr cur" "job = lost (ck_update clock) cur" by (auto simp: rbind_eq_Inr_iff)
    note r = refresh_ok [OF j(1) cur(1)]
    then have "timely (ck_update clock) cur" using j(2) by (simp add: timely_def same_job_def)
    with r have "job_ok job" unfolding cur(2) by (intro lost_ok) simp_all
    moreover have "same_job j job" using r same_job_updates(6) [of cur] by (simp add: same_job_def cur(2))
    ultimately show "job_ok job \<and> same_job j job" ..
  qed
qed

lemma service_step_clock: "service_step (c, s) (c', s') \<Longrightarrow> c \<le> c'"
  by (erule service_step.cases) (simp_all add: reads_def)

theorem service_step_ok:
  assumes "service_step (c, s) (c', s')" "store_ok c s" "0 \<le> c"
  shows "store_ok c' s'"
  using assms(1)
proof cases
  case (mark_disconnected i t)
  show ?thesis
    by (rule quietly_update_ok [OF assms(2) mark_disconnected(3) mark_disconnected(1) [unfolded mark_capture_job_disconnected_def]])
      (auto simp: disconnected_ok)
next
  case (mark_incomplete i t)
  show ?thesis
    by (rule quietly_update_ok [OF assms(2) mark_incomplete(3) mark_incomplete(1) [unfolded mark_capture_job_output_incomplete_def]])
      (auto simp: incomplete_output_ok)
next
  case (worker_ends i d)
  show ?thesis unfolding worker_ends(1,2)
    by (rule store_ok_touch [OF assms(2) worker_ends(3)]) (simp_all add: dir_ok_def files_there_def stop_relay_ok)
next
  case (make_part i detached k)
  have "job_id_ok i" using store_okD [OF assms(2) make_part(3)] by (simp add: entry_ok_def)
  then show ?thesis unfolding make_part(1,2) by (rule make_part_ok [OF assms(2)])
qed (use assms(2,3) in \<open>blast intro: store_ok_reads create_ok make_part_ok make_state_ok remove_part_ok drop_dir_ok fail_start_ok start_ok
    open_channel_ok open_relay_ok write_output_ok write_tail_ok cut_tail_ok mark_output_ok record_artifacts_ok record_finish_ok finish_ok
    cancel_ok load_ok\<close>)+

end
