(* ===== verification/JobFacts.thy ===== *)
theory JobFacts
  imports JobSteps
begin

text \<open>
  Facts about the capture-job service that its properties rest on: the recorded state of a job and which
  steps can make it a lost one, and how long a state file gets.
\<close>

section \<open>The state of a job in a directory\<close>

definition state_at :: "job_root \<Rightarrow> pystr \<Rightarrow> job_state option" where
  "state_at s i = (case read_capture_job s i of Inl _ \<Rightarrow> None | Inr job \<Rightarrow> Some (jb_state job))"

lemma read_capture_job_eq:
  "read_capture_job s i =
     (if \<not> job_id_ok i then job_error ''capture job ID must be 32 lowercase hexadecimal characters''
      else case dget (jr_jobs s) i of
        None \<Rightarrow> Inl (CaptureJobError (lit ''capture job does not exist: '' @ i))
      | Some d \<Rightarrow> (case jd_state d of
          NoState \<Rightarrow> Inl (CaptureJobError (lit ''capture job does not exist: '' @ i))
        | BadState m \<Rightarrow> Inl (CaptureJobError m)
        | Stored j \<Rightarrow> capture_job_from_value j i))"
  by (simp add: read_capture_job_def validate_job_id_def job_unless_def job_error_def)

lemma read_same_dir: "dget (jr_jobs s) i = dget (jr_jobs s') i \<Longrightarrow> read_capture_job s i = read_capture_job s' i"
  unfolding read_capture_job_eq by simp

lemma state_at_same: "dget (jr_jobs s) i = dget (jr_jobs s') i \<Longrightarrow> state_at s i = state_at s' i"
  using read_same_dir [of s i s'] by (simp add: state_at_def)

lemma state_at_touch: "dget (jr_jobs s) i = Some d \<Longrightarrow> jd_state d' = jd_state d \<Longrightarrow> state_at (set_dir i d' s) k = state_at s k"
  by (simp add: state_at_def read_capture_job_eq set_dir_def)

lemma state_at_stateless: "jd_state d' = NoState \<Longrightarrow> state_at (set_dir k d' s) i = Some x \<Longrightarrow> state_at s i = Some x"
  by (auto simp: state_at_def read_capture_job_eq set_dir_def split: if_splits)

lemma state_at_dropped: "state_at (drop_dir k s) i = Some x \<Longrightarrow> state_at s i = Some x"
  by (auto simp: state_at_def read_capture_job_eq drop_dir_def dget_filter_keys split: if_splits)

lemma stored_state:
  assumes "stored_value a = stored_value b"
  shows "jb_state a = jb_state b"
proof -
  have "jget ((lit ''format_version'', JInt job_format_version) # job_value a) ''state'' =
      jget ((lit ''format_version'', JInt job_format_version) # job_value b) ''state''"
    using assms by (simp only: stored_value_def json.inject)
  then have "state_of_text (state_text (jb_state a)) = state_of_text (state_text (jb_state b))"
    by (simp only: job_value_fields json.inject)
  then show ?thesis by simp
qed

lemma state_at_stored:
  assumes "store_ok c s" "dget (jr_jobs s) i = Some d" "jd_state d = Stored (stored_value job)"
  shows "state_at s i = Some (jb_state job)"
proof -
  obtain held where held: "job_id_ok i" "jb_id held = i" "holds_job c held d"
    by (rule store_ok_job [OF assms(1,2)]) (use assms(3) in simp)
  then have "jb_state held = jb_state job" using assms(3) by (intro stored_state) (simp add: holds_job_def)
  then show ?thesis using read_held [OF assms(2) held] by (simp add: state_at_def)
qed

lemma read_capture_job_id: "read_capture_job s i = Inr job \<Longrightarrow> jb_id job = i \<and> job_id_ok i"
  using job_value_read
  by (auto simp: read_capture_job_def validate_job_id_def rbind_eq_Inr_iff job_unless_Inr_iff split: option.splits state_file.splits)

lemma read_capture_job_Inr_ok: "read_capture_job s i = Inr job \<Longrightarrow> jb_id job = i \<and> job_id_ok i \<and> job_ok job"
  using job_value_read
  by (auto simp: read_capture_job_def validate_job_id_def rbind_eq_Inr_iff job_unless_Inr_iff split: option.splits state_file.splits)

text \<open>An update that does not turn a job into a lost one leaves no job lost that was not.\<close>

lemma update_not_lost:
  assumes "update_capture_job s k f = Inr (job', s')" "store_ok c s'" "state_at s' i = Some Lost"
    and "\<And>job. f job = Inr job' \<Longrightarrow> jb_id job' = jb_id job \<and> (jb_state job' = Lost \<longrightarrow> jb_state job = Lost)"
  shows "state_at s i = Some Lost"
proof -
  obtain job where job: "read_capture_job s k = Inr job" "f job = Inr job'" "write_capture_job s job' = Inr s'"
    using assms(1) by (auto simp: update_capture_job_def rbind_eq_Inr_iff)
  have k: "jb_id job' = k" using assms(4) [OF job(2)] read_capture_job_id [OF job(1)] by simp
  obtain d where d: "s' = set_dir (jb_id job') (d\<lparr>jd_state := Stored (stored_value job')\<rparr>) s"
    by (rule write_capture_job_Inr [OF job(3)])
  show ?thesis
  proof (cases "i = k")
    case True
    have "dget (jr_jobs s') k = Some (d\<lparr>jd_state := Stored (stored_value job')\<rparr>)" by (simp add: d k set_dir_def)
    then have "state_at s' k = Some (jb_state job')" by (rule state_at_stored [OF assms(2)]) simp
    then show ?thesis using assms(3,4) job(1,2) True by (simp add: state_at_def)
  next
    case False
    then have "state_at s' i = state_at s i" by (intro state_at_same) (simp add: d k set_dir_def)
    with assms(3) show ?thesis by simp
  qed
qed

lemma prune_state: "prune_capture_jobs now s = Inr s' \<Longrightarrow> state_at s' i = Some x \<Longrightarrow> state_at s i = Some x"
  by (auto simp: prune_capture_jobs_def rbind_eq_Inr_iff state_at_def read_capture_job_eq dget_filter_keys split: if_splits)

lemma allocate_state:
  assumes "allocate_job name detached now ids s = (r, s')" "store_ok c s'" "state_at s' i = Some Lost"
  shows "state_at s i = Some Lost"
  using assms(1)
proof (induction ids)
  case Nil
  then show ?case using assms(3) by simp
next
  case (Cons k ids)
  show ?case
  proof (cases "has_key (jr_jobs s) k")
    case True
    then show ?thesis using Cons by simp
  next
    case False
    show ?thesis
    proof (cases "write_capture_job (set_dir k (new_job_dir detached) s) (new_job k name detached now)")
      case (Inl e)
      then show ?thesis using Cons.prems False assms(3) by simp
    next
      case (Inr s1)
      then have s1: "s' = s1" using Cons.prems False by simp
      have id: "jb_id (new_job k name detached now) = k" by (simp add: new_job_def)
      obtain d where d: "s1 = set_dir k (d\<lparr>jd_state := Stored (stored_value (new_job k name detached now))\<rparr>) (set_dir k (new_job_dir detached) s)"
        using write_capture_job_Inr [OF Inr] id by metis
      have "state_at s' k = Some Starting"
        using state_at_stored [OF assms(2), of k _ "new_job k name detached now"] by (simp add: s1 d set_dir_def new_job_def)
      then have "i \<noteq> k" using assms(3) by auto
      then have "state_at s' i = state_at s i" by (intro state_at_same) (simp add: s1 d set_dir_def)
      then show ?thesis using assms(3) by simp
    qed
  qed
qed

lemma make_state_state:
  assumes "write_capture_job s (new_job k operation detached t) = Inr s'" "store_ok c s'" "state_at s' i = Some Lost"
  shows "state_at s i = Some Lost"
proof -
  have id: "jb_id (new_job k operation detached t) = k" by (simp add: new_job_def)
  obtain d where d: "s' = set_dir k (d\<lparr>jd_state := Stored (stored_value (new_job k operation detached t))\<rparr>) s"
    using write_capture_job_Inr [OF assms(1)] id by metis
  have "state_at s' k = Some Starting"
    using state_at_stored [OF assms(2), of k _ "new_job k operation detached t"] by (simp add: d set_dir_def new_job_def)
  then have "i \<noteq> k" using assms(3) by auto
  then have "state_at s' i = state_at s i" by (intro state_at_same) (simp add: d set_dir_def)
  then show ?thesis using assms(3) by simp
qed

lemma create_state:
  assumes "create_capture_job operation detached t0 t ids s = (r, s')" "store_ok c s'" "state_at s' i = Some Lost"
  shows "state_at s i = Some Lost"
proof (cases "validate_operation operation")
  case (Inr name)
  show ?thesis
  proof (cases "prune_capture_jobs t0 s")
    case pruned: (Inr s1)
    then have "allocate_job name detached t (take 32 ids) s1 = (r, s')" using assms(1) Inr by (simp add: create_capture_job_def)
    then have "state_at s1 i = Some Lost" by (rule allocate_state [OF _ assms(2,3)])
    then show ?thesis by (rule prune_state [OF pruned])
  qed (use assms Inr in \<open>simp add: create_capture_job_def\<close>)
qed (use assms in \<open>simp add: create_capture_job_def\<close>)

lemma quiet_state:
  assumes "quietly_update (Some k) f s = Inr s'" "store_ok c s'" "state_at s' i = Some Lost"
    and "\<And>job job'. f job = Inr job' \<Longrightarrow> jb_id job' = jb_id job \<and> (jb_state job' = Lost \<longrightarrow> jb_state job = Lost)"
  shows "state_at s i = Some Lost"
proof -
  have "s' = s \<or> (\<exists>job'. update_capture_job s k f = Inr (job', s'))"
    using assms(1) by (auto simp: quietly_update_def current_capture_job_id_def validate_job_id_def rbind_eq_Inr_iff
        dest!: catch_job_error_Inr)
  then show ?thesis using update_not_lost [OF _ assms(2,3)] assms(3,4) by blast
qed

section \<open>A live worker keeps its job\<close>

lemma try_acquire_lock_True: "try_acquire_lock s i = Inr True \<Longrightarrow> \<not> working s i"
  by (auto simp: try_acquire_lock_def validate_job_id_def working_def rbind_eq_Inr_iff split: option.splits lock_file.splits)

lemma load_state:
  assumes "load_capture_job k clock before s = Inr (job, s')" "store_ok c s'" "state_at s' i = Some Lost" "working s i"
  shows "state_at s i = Some Lost"
  using load_capture_job_Inr [OF assms(1)]
proof cases
  case 1
  then show ?thesis using assms(3) by simp
next
  case (2 held current)
  have i: "i \<noteq> k" using try_acquire_lock_True [OF 2(1)] assms(4) by auto
  obtain d where held: "job_ok held" "jb_id held = k"
    using 2(2) job_value_read
    by (auto simp: read_capture_job_eq job_error_def split: if_splits option.splits state_file.splits)
  then have "jb_id job = k" using refresh_ok [OF held(1) 2(3)] 2(6) same_job_updates(6) [of current] by (simp add: same_job_def)
  then obtain d where "s' = set_dir k d s" using write_capture_job_Inr [OF 2(7)] by metis
  then have "state_at s' i = state_at s i" using i by (intro state_at_same) (simp add: set_dir_def)
  with assms(3) show ?thesis by simp
qed

lemma fail_start_state:
  assumes "fail_capture_job_start k t s = Inr s'" "store_ok c s'" "state_at s' i = Some Lost"
  shows "state_at s i = Some Lost"
proof -
  have "s' = s \<or> (\<exists>job. update_capture_job s k (\<lambda>job. Inr (failed_start t job)) = Inr (job, s'))"
    using assms(1) unfolding fail_capture_job_start_def by (auto dest!: catch_job_error_Inr simp: rbind_eq_Inr_iff split: if_splits)
  moreover have "jb_id (failed_start t job) = jb_id job \<and> (jb_state (failed_start t job) = Lost \<longrightarrow> jb_state job = Lost)" for job
    by (simp add: failed_start_def)
  ultimately show ?thesis using update_not_lost [OF _ assms(2,3)] assms(3) by blast
qed

lemma start_state:
  assumes "start_current_capture_job (Some k) pid t s = Inr s'" "store_ok c s" "reads c t c'" "1 \<le> pid" "pid \<le> max_int64"
    "state_at s' i = Some Lost"
  shows "state_at s i = Some Lost"
proof -
  obtain job s1 where u: "update_capture_job s k (started pid t) = Inr (job, s1)" and s': "s' = set_lock k Held s1"
    using assms(1) by (auto simp: start_current_capture_job_def required_capture_job_id_def validate_job_id_def rbind_eq_Inr_iff)
  have lost: "state_at s1 i = Some Lost"
    using assms(6) unfolding s' set_lock_def by (simp add: state_at_touch split: option.splits)
  have ok: "store_ok c' s1"
    using update_reads_ok [OF assms(2,3) u] started_ok same_job_started assms(4,5) by blast
  show ?thesis by (rule update_not_lost [OF u ok lost]) (auto simp: started_def res_simps)
qed

lemma finish_state:
  assumes "finish_current_capture_job (Some k) status failed t t0 s = (r, s')" "store_ok c s" "reads c t c'" "state_at s' i = Some Lost"
  shows "state_at s i = Some Lost"
proof (cases "rbind (required_capture_job_id (Some k)) (\<lambda>i.
    rbind (job_unless (0 \<le> status \<and> status \<le> 255) ''capture job exit status is invalid'') (\<lambda>_.
    update_capture_job s i (\<lambda>job. Inr (finished status failed t job))))")
  case (Inl e)
  then show ?thesis using assms(1,4) by (simp add: finish_current_capture_job_def)
next
  case (Inr p)
  obtain job s1 where p: "p = (job, s1)" by (cases p)
  then have u: "update_capture_job s k (\<lambda>job. Inr (finished status failed t job)) = Inr (job, s1)" "0 \<le> status" "status \<le> 255"
    using Inr by (auto simp: required_capture_job_id_def validate_job_id_def rbind_eq_Inr_iff job_unless_Inr_iff)
  have s1: "store_ok c' s1" by (rule update_reads_ok [OF assms(2,3) u(1)]) (use u in \<open>auto simp: finished_ok\<close>)
  have "state_at s1 i = Some Lost"
  proof (cases "prune_capture_jobs t0 s1")
    case pruned: (Inr s2)
    then have "s' = s2" using assms(1) Inr p by (simp add: finish_current_capture_job_def)
    then show ?thesis using prune_state [OF pruned] assms(4) by simp
  qed (use assms(1,4) Inr p in \<open>simp add: finish_current_capture_job_def\<close>)
  then show ?thesis by (rule update_not_lost [OF u(1) s1]) (auto simp: finished_def split: if_splits)
qed

lemma artifacts_state:
  assumes "record_capture_job_artifacts abspath (Some k) paths t s = Inr s'" "store_ok c s'" "state_at s' i = Some Lost"
  shows "state_at s i = Some Lost"
proof -
  have "s' = s \<or> (\<exists>artifacts job. update_capture_job s k (\<lambda>job. Inr (with_artifacts artifacts t job)) = Inr (job, s'))"
    using assms(1) by (auto simp: record_capture_job_artifacts_def current_capture_job_id_def validate_job_id_def rbind_eq_Inr_iff
        dest!: catch_job_error_Inr)
  moreover have "jb_id (with_artifacts artifacts t job) = jb_id job \<and> jb_state (with_artifacts artifacts t job) = jb_state job" for artifacts job
    by (simp add: with_artifacts_def)
  ultimately show ?thesis using update_not_lost [OF _ assms(2,3)] assms(3) by (elim disjE exE) (simp, fastforce)
qed

lemma step_keeps_working_job:
  assumes "service_step (c, s) (c', s')" "store_ok c s" "0 \<le> c" "working s i" "state_at s' i = Some Lost"
  shows "state_at s i = Some Lost"
  using assms(1)
proof cases
  case (create operation detached t0 t ids r)
  then show ?thesis using create_state service_step_ok [OF assms(1-3)] assms(5) by blast
next
  case (fail_start k t)
  then show ?thesis using fail_start_state service_step_ok [OF assms(1-3)] assms(5) by blast
next
  case (start k pid t)
  then show ?thesis using start_state assms(2,5) by blast
next
  case (open_channel k)
  then show ?thesis
    using assms(5) by (auto simp: open_cancel_channel_def required_capture_job_id_def validate_job_id_def rbind_eq_Inr_iff state_at_touch
        split: option.splits cancel_channel.splits)
next
  case (make_directory k detached)
  then show ?thesis using state_at_stateless stage_dir_ok assms(5) by blast
next
  case (make_part k detached j)
  then show ?thesis using state_at_stateless stage_dir_ok assms(5) by blast
next
  case (make_state k detached operation t)
  then show ?thesis using make_state_state service_step_ok [OF assms(1-3)] assms(5) by blast
next
  case (remove_part k d d')
  have "jd_state d' = NoState \<or> jd_state d' = jd_state d" using remove_part(5) by (auto simp: removals_def)
  then show ?thesis
    using state_at_stateless [of d' k s i Lost] state_at_touch [OF remove_part(3), of d' i] assms(5) unfolding remove_part(2) by auto
next
  case (remove_directory k d)
  then show ?thesis using state_at_dropped [of k s i Lost] assms(5) by blast
next
  case (open_relay k stream d)
  have "state_at s' i = state_at s i"
    unfolding open_relay(2) by (rule state_at_touch [OF open_relay(5)]) (cases stream; simp add: set_relay_def)
  with assms(5) show ?thesis by simp
next
  case (write_output k d stream r content head r')
  have "state_at s' i = state_at s i"
    unfolding write_output(2) by (rule state_at_touch [OF write_output(3)]) (cases stream; simp add: set_relay_def append_output_def)
  with assms(5) show ?thesis by simp
next
  case (cut_output k d stream r content head r' j)
  have "state_at s' i = state_at s i"
    unfolding cut_output(2) by (rule state_at_touch [OF cut_output(3)]) (cases stream; simp add: set_relay_def append_output_def)
  with assms(5) show ?thesis by simp
next
  case (cut_tail k stream content s1 d j)
  have "state_at s' i = state_at s i"
    unfolding cut_tail(2) by (rule state_at_touch [OF cut_tail(5)]) (cases stream; simp add: set_tail_def)
  with assms(5) show ?thesis by simp
next
  case (record_finish k status failed t job)
  show ?thesis
    by (rule update_not_lost [OF record_finish(1) service_step_ok [OF assms(1-3)] assms(5)]) (auto simp: finished_def split: if_splits)
next
  case (write_tail k stream content)
  then obtain d where d: "dget (jr_jobs s) k = Some d" "s' = set_dir k (set_tail stream content d) s"
    by (auto simp: checkpoint_output_tail_def checkpoint_output_tail_file_def required_capture_job_id_def validate_job_id_def
        rbind_eq_Inr_iff split: option.splits)
  have "state_at s' i = state_at s i"
    unfolding d(2) by (rule state_at_touch [OF d(1)]) (cases stream; simp add: set_tail_def)
  with assms(5) show ?thesis by simp
next
  case (mark_output k stream m t)
  then obtain job where u: "update_capture_job s k (marked_output stream m t) = Inr (job, s')"
    by (auto simp: mark_capture_job_output_def required_capture_job_id_def validate_job_id_def rbind_eq_Inr_iff)
  show ?thesis
    by (rule update_not_lost [OF u service_step_ok [OF assms(1-3)] assms(5)])
      (cases stream; auto simp: marked_output_def Let_def res_simps)
next
  case (mark_disconnected k t)
  show ?thesis
    by (rule quiet_state [OF mark_disconnected(1) [unfolded mark_capture_job_disconnected_def] service_step_ok [OF assms(1-3)] assms(5)])
      (auto simp: disconnected_def)
next
  case (mark_incomplete k t)
  show ?thesis
    by (rule quiet_state [OF mark_incomplete(1) [unfolded mark_capture_job_output_incomplete_def] service_step_ok [OF assms(1-3)] assms(5)])
      (auto simp: incomplete_output_def)
next
  case (record_artifacts abspath k paths t)
  then show ?thesis using artifacts_state service_step_ok [OF assms(1-3)] assms(5) by blast
next
  case (finish k status failed t t0 r)
  then show ?thesis using finish_state assms(2,5) by blast
next
  case (worker_ends k d)
  have "state_at s' i = state_at s i" unfolding worker_ends(2) by (rule state_at_touch [OF worker_ends(3)]) simp
  with assms(5) show ?thesis by simp
next
  case (cancel k sent)
  then show ?thesis
    using assms(5) by (auto simp: request_cancel_def validate_job_id_def rbind_eq_Inr_iff state_at_touch split: option.splits cancel_channel.splits)
next
  case (load k clock before job)
  then show ?thesis using load_state service_step_ok [OF assms(1-3)] assms(4,5) by blast
qed (use assms(5) in simp)

lemma refresh_artifacts: "refresh_output_sizes s job = Inr job' \<Longrightarrow> jb_artifacts job' = jb_artifacts job"
  by (auto simp: refresh_output_sizes_def rbind_eq_Inr_iff Let_def split: if_splits)

section \<open>A job updated before its start\<close>

lemma update_before_start_rejected:
  assumes "operation_name_ok (jb_operation job)" "pred_option (\<lambda>n. 1 \<le> n \<and> n \<le> max_int64) (jb_worker_pid job)"
    "0 \<le> jb_started_at_ns job" "jb_started_at_ns job \<le> max_int64" "0 \<le> jb_updated_at_ns job" "jb_updated_at_ns job < jb_started_at_ns job"
  shows "capture_job_from_value (stored_value job) (jb_id job) = job_error ''capture job update precedes its start''"
proof -
  have pid: "job_optional_integer (json_of_int_option (jb_worker_pid job)) ''worker PID'' 1 max_int64 = Inr (jb_worker_pid job)"
    using assms(2) by (auto simp: res_simps json_of_int_option_def split: option.splits)
  have operation: "validate_operation (JStr (jb_operation job)) = Inr (jb_operation job)" using assms(1) by (simp add: validate_operation_Inr_iff)
  have named: "read_named (JStr (state_text (jb_state job))) state_names m = Inr (state_text (jb_state job))" for m
    by (simp add: read_named_Inr_iff)
  have times: "job_integer (JInt (jb_started_at_ns job)) l 0 max_int64 = Inr (jb_started_at_ns job)"
    "job_integer (JInt (jb_updated_at_ns job)) l 0 max_int64 = Inr (jb_updated_at_ns job)" for l
    using assms(3-6) by (simp_all add: job_integer_Inr_iff)
  have late: "(jb_started_at_ns job \<le> jb_updated_at_ns job) = False" using assms(6) by simp
  show ?thesis
    unfolding stored_value_def capture_job_from_value_def json.case job_value_fields pid operation named times Let_def rbind_simps
      equals_int_JInt late
    by (simp add: job_unless_def job_error_def)
qed

section \<open>Retention\<close>

text \<open>When a job that can be read ended, as far as its state file says.\<close>

definition ended_at :: "job_root \<Rightarrow> pystr \<Rightarrow> int option" where
  "ended_at s i = (case read_capture_job s i of Inl _ \<Rightarrow> None | Inr job \<Rightarrow> if terminal job then Some (jb_updated_at_ns job) else None)"

lemma terminal_jobs_set: "terminal_jobs s is = Inr ended \<Longrightarrow> set ended = {(t, i). i \<in> set is \<and> ended_at s i = Some t}"
proof (induction "is" arbitrary: ended)
  case (Cons i "is")
  obtain found rest where found: "catch_job_error None (rbind (read_capture_job s i) (\<lambda>job. Inr (Some job))) = Inr found"
    and rest: "terminal_jobs s is = Inr rest"
    and ended: "ended = (case found of Some job \<Rightarrow> if terminal job then (jb_updated_at_ns job, i) # rest else rest | None \<Rightarrow> rest)"
    using Cons.prems by (auto simp: rbind_eq_Inr_iff)
  have "ended_at s i = (case found of Some job \<Rightarrow> if terminal job then Some (jb_updated_at_ns job) else None | None \<Rightarrow> None)"
    using found by (auto simp: ended_at_def catch_job_error_def split: sum.splits err.splits)
  with Cons.IH [OF rest] ended show ?case by (auto split: option.splits if_splits)
qed simp

lemma ended_length: "ended_at s i = Some t \<Longrightarrow> length i = 32 \<and> i \<in> set (map fst (jr_jobs s))"
  by (auto simp: ended_at_def read_capture_job_eq job_id_ok_def job_error_def split: if_splits option.splits dest!: map_of_SomeD
      intro: rev_image_eqI)

lemma prune_Inr:
  assumes "prune_capture_jobs now s = Inr s'"
  obtains ended where "set ended = {(t, i). ended_at s i = Some t}"
    "\<And>i. dget (jr_jobs s') i = (if i \<in> set (expired_jobs now ended) then None else dget (jr_jobs s) i)"
proof -
  obtain "is" ended where "job_directories s = Inr is" "terminal_jobs s is = Inr ended"
    and s': "s' = s\<lparr>jr_jobs := filter (\<lambda>(i, _). i \<notin> set (expired_jobs now ended)) (jr_jobs s)\<rparr>"
    using assms by (auto simp: prune_capture_jobs_def rbind_eq_Inr_iff)
  then have "is = filter (\<lambda>i. length i = 32) (map fst (jr_jobs s))" "set ended = {(t, i). i \<in> set is \<and> ended_at s i = Some t}"
    using terminal_jobs_set by (simp_all add: job_directories_def job_error_def split: if_splits)
  then have "set ended = {(t, i). ended_at s i = Some t}" using ended_length by fastforce
  then show thesis by (rule that) (simp add: s' dget_filter_keys)
qed

lemma expired_subset: "i \<in> set (expired_jobs now ended) \<Longrightarrow> \<exists>t. (t, i) \<in> set ended"
  by (auto simp: expired_jobs_def Let_def dest!: in_set_dropD in_set_takeD)

lemma ended_at_pruned:
  "dget (jr_jobs s') i = (if b then None else dget (jr_jobs s) i) \<Longrightarrow> ended_at s' i = (if b then None else ended_at s i)"
  by (simp add: ended_at_def read_capture_job_eq job_error_def)

section \<open>Operations as sequences of steps\<close>

lemma dset_dset [simp]: "dset k v (dset k w d) = dset k v d"
  by (induction d) auto

lemma set_dir_set_dir [simp]: "set_dir i d (set_dir i d' s) = set_dir i d s"
  by (simp add: set_dir_def)

lemma filter_dset: "\<not> P k \<Longrightarrow> filter (\<lambda>(i, _). P i) (dset k v d) = filter (\<lambda>(i, _). P i) d"
  by (induction d) auto

lemma drop_set_dir [simp]: "drop_dir i (set_dir i d s) = drop_dir i s"
  by (simp add: drop_dir_def set_dir_def filter_dset)

lemma make_stages:
  assumes "\<not> has_key (jr_jobs s) i" "job_id_ok i"
  shows "k \<le> length (creation_parts detached) \<Longrightarrow> service_step\<^sup>*\<^sup>* (c, s) (c, set_dir i (stage_dir detached k) s)"
proof (induction k)
  case 0
  show ?case by (rule r_into_rtranclp, rule service_step.make_directory [OF assms])
next
  case (Suc k)
  have "service_step (c, set_dir i (stage_dir detached k) s) (c, set_dir i (stage_dir detached (Suc k)) (set_dir i (stage_dir detached k) s))"
    by (rule service_step.make_part) (use Suc.prems in \<open>simp_all add: set_dir_def\<close>)
  with Suc show ?case by (simp add: rtranclp.rtrancl_into_rtrancl)
qed

lemma allocate_in_stages:
  assumes "allocate_job name detached t ids s = (Inr job, s')" "list_all job_id_ok ids" "operation_name_ok name" "reads 0 t c"
  shows "service_step\<^sup>*\<^sup>* (c, s) (c, s')"
  using assms(1,2)
proof (induction ids)
  case (Cons i ids)
  show ?case
  proof (cases "has_key (jr_jobs s) i")
    case False
    then have w: "write_capture_job (set_dir i (new_job_dir detached) s) (new_job i name detached t) = Inr s'"
      using Cons.prems by (auto split: sum.splits)
    have "service_step\<^sup>*\<^sup>* (c, s) (c, set_dir i (new_job_dir detached) s)"
      unfolding new_job_dir_stage by (rule make_stages [OF False]) (use Cons.prems in simp_all)
    moreover have "service_step (c, set_dir i (new_job_dir detached) s) (c, s')"
      by (rule service_step.make_state [OF _ assms(3,4) w]) (simp add: set_dir_def)
    ultimately show ?thesis by (rule rtranclp.rtrancl_into_rtrancl)
  qed (use Cons in simp)
qed (simp add: job_error_def)

lemma remove_next:
  assumes "service_step\<^sup>*\<^sup>* (c, s) (c, set_dir i d s)" "jd_state d = NoState" "d' \<in> set (removals d)"
  shows "service_step\<^sup>*\<^sup>* (c, s) (c, set_dir i d' s)"
proof -
  have "service_step (c, set_dir i d s) (c, set_dir i d' (set_dir i d s))"
    by (rule service_step.remove_part [OF _ _ assms(3)]) (use assms(2) in \<open>simp_all add: set_dir_def removable_def\<close>)
  with assms(1) show ?thesis by (simp add: rtranclp.rtrancl_into_rtrancl)
qed

lemma remove_in_stages:
  assumes "dget (jr_jobs s) i = Some d" "removable s i d"
  shows "service_step\<^sup>*\<^sup>* (c, s) (c, drop_dir i s)"
proof -
  let ?d = "d\<lparr>jd_state := NoState\<rparr>"
  have "service_step (c, s) (c, set_dir i ?d s)"
    by (rule service_step.remove_part [OF assms]) (simp add: removals_def)
  then have "service_step\<^sup>*\<^sup>* (c, s) (c, set_dir i ?d s)" by (rule r_into_rtranclp)
  then have "service_step\<^sup>*\<^sup>* (c, s) (c, set_dir i (?d\<lparr>jd_lock := NoLock\<rparr>) s)" by (rule remove_next) (simp_all add: removals_def)
  then have "service_step\<^sup>*\<^sup>* (c, s) (c, set_dir i (?d\<lparr>jd_lock := NoLock, jd_channel := NoChannel\<rparr>) s)"
    by (rule remove_next) (simp_all add: removals_def)
  then have "service_step\<^sup>*\<^sup>* (c, s) (c, set_dir i (?d\<lparr>jd_lock := NoLock, jd_channel := NoChannel, jd_stdout := None\<rparr>) s)"
    by (rule remove_next) (simp_all add: removals_def)
  then have "service_step\<^sup>*\<^sup>* (c, s) (c, set_dir i (?d\<lparr>jd_lock := NoLock, jd_channel := NoChannel, jd_stdout := None, jd_stderr := None\<rparr>) s)"
    by (rule remove_next) (simp_all add: removals_def)
  then have "service_step\<^sup>*\<^sup>* (c, s) (c, set_dir i (?d\<lparr>jd_lock := NoLock, jd_channel := NoChannel, jd_stdout := None, jd_stderr := None,
      jd_stdout_tail := None\<rparr>) s)"
    by (rule remove_next) (simp_all add: removals_def)
  then have all: "service_step\<^sup>*\<^sup>* (c, s) (c, set_dir i (?d\<lparr>jd_lock := NoLock, jd_channel := NoChannel, jd_stdout := None, jd_stderr := None,
      jd_stdout_tail := None, jd_stderr_tail := None\<rparr>) s)" (is "service_step\<^sup>*\<^sup>* _ (c, set_dir i ?e s)")
    by (rule remove_next) (simp_all add: removals_def)
  have "service_step (c, set_dir i ?e s) (c, drop_dir i (set_dir i ?e s))"
    by (rule service_step.remove_directory [of _ _ ?e]) (simp_all add: set_dir_def emptied_def)
  with all show ?thesis by (simp add: rtranclp.rtrancl_into_rtrancl)
qed

lemma drop_dir_filter:
  "(drop_dir i s)\<lparr>jr_jobs := filter (\<lambda>(k, _). k \<notin> A) (jr_jobs (drop_dir i s))\<rparr> = s\<lparr>jr_jobs := filter (\<lambda>(k, _). k \<notin> insert i A) (jr_jobs s)\<rparr>"
proof -
  have "filter (\<lambda>(k, _). k \<notin> A) (filter (\<lambda>(k, _). k \<noteq> i) ds) = filter (\<lambda>(k, _). k \<notin> insert i A) ds" for ds :: "(pystr \<times> job_dir) list"
    by (induction ds) auto
  then show ?thesis by (simp add: drop_dir_def)
qed

lemma read_dropped: "k \<noteq> i \<Longrightarrow> read_capture_job (drop_dir i s) k = read_capture_job s k"
  by (rule read_same_dir) (simp add: drop_dir_def dget_filter_keys)

lemma removed_in_stages:
  "\<forall>i\<in>set is. \<exists>job. read_capture_job s i = Inr job \<and> terminal job \<Longrightarrow>
   service_step\<^sup>*\<^sup>* (c, s) (c, s\<lparr>jr_jobs := filter (\<lambda>(k, _). k \<notin> set is) (jr_jobs s)\<rparr>)"
proof (induction "is" arbitrary: s)
  case (Cons i "is")
  show ?case
  proof (cases "i \<in> set is")
    case True
    then show ?thesis using Cons by (simp add: insert_absorb)
  next
    case False
    obtain job where job: "read_capture_job s i = Inr job" "terminal job" using Cons.prems by auto
    then obtain d where d: "dget (jr_jobs s) i = Some d" by (auto simp: read_capture_job_eq job_error_def split: if_splits option.splits)
    have "service_step\<^sup>*\<^sup>* (c, s) (c, drop_dir i s)" by (rule remove_in_stages [OF d]) (use job in \<open>auto simp: removable_def\<close>)
    moreover have "service_step\<^sup>*\<^sup>* (c, drop_dir i s) (c, (drop_dir i s)\<lparr>jr_jobs := filter (\<lambda>(k, _). k \<notin> set is) (jr_jobs (drop_dir i s))\<rparr>)"
    proof (rule Cons.IH, rule ballI)
      fix k assume k: "k \<in> set is"
      then have "read_capture_job (drop_dir i s) k = read_capture_job s k" using False by (intro read_dropped) auto
      then show "\<exists>job. read_capture_job (drop_dir i s) k = Inr job \<and> terminal job" using Cons.prems k by simp
    qed
    ultimately show ?thesis unfolding drop_dir_filter by simp
  qed
qed simp

lemma prune_in_stages:
  assumes "prune_capture_jobs now s = Inr s'"
  shows "service_step\<^sup>*\<^sup>* (c, s) (c, s')"
proof -
  obtain "is" ended where "terminal_jobs s is = Inr ended"
    and s': "s' = s\<lparr>jr_jobs := filter (\<lambda>(i, _). i \<notin> set (expired_jobs now ended)) (jr_jobs s)\<rparr>"
    using assms by (auto simp: prune_capture_jobs_def rbind_eq_Inr_iff)
  then have "\<exists>job. read_capture_job s i = Inr job \<and> terminal job" if "i \<in> set (expired_jobs now ended)" for i
    using expired_subset [OF that] terminal_jobs_set by (fastforce simp: ended_at_def split: sum.splits if_splits)
  then show ?thesis unfolding s' by (intro removed_in_stages) blast
qed

text \<open>
  Creating a job is pruning, making a directory entry by entry and writing the state, and finishing it is recording
  its end and pruning.
\<close>

lemma create_in_stages:
  assumes "create_capture_job operation detached t0 t ids s = (Inr job, s')" "list_all job_id_ok ids" "reads c t c'" "0 \<le> c"
  shows "service_step\<^sup>*\<^sup>* (c, s) (c', s')"
proof -
  obtain name s1 where name: "validate_operation operation = Inr name" and s1: "prune_capture_jobs t0 s = Inr s1"
    and made: "allocate_job name detached t (take 32 ids) s1 = (Inr job, s')"
    using assms(1) by (auto simp: create_capture_job_def split: sum.splits)
  have "service_step (c, s) (c', s)" by (rule service_step.tick) (use assms(3) in \<open>simp add: reads_def\<close>)
  moreover have "service_step\<^sup>*\<^sup>* (c', s) (c', s1)" by (rule prune_in_stages [OF s1])
  moreover have "service_step\<^sup>*\<^sup>* (c', s1) (c', s')"
    by (rule allocate_in_stages [OF made])
      (use assms(2-4) name in \<open>auto simp: reads_def list_all_iff validate_operation_Inr_iff dest: in_set_takeD\<close>)
  ultimately show ?thesis by (meson converse_rtranclp_into_rtranclp rtranclp_trans)
qed

lemma finish_in_stages:
  assumes "finish_current_capture_job (Some i) status failed t t0 s = (Inr (), s')" "working s i" "reads c t c'"
  shows "service_step\<^sup>*\<^sup>* (c, s) (c', s')"
proof -
  obtain job s1 where u: "update_capture_job s i (\<lambda>job. Inr (finished status failed t job)) = Inr (job, s1)" "0 \<le> status" "status \<le> 255"
    and s': "prune_capture_jobs t0 s1 = Inr s'"
    using assms(1) by (auto simp: finish_current_capture_job_def required_capture_job_id_def validate_job_id_def rbind_eq_Inr_iff
        job_unless_Inr_iff split: sum.splits)
  have "service_step (c, s) (c', s1)"
    by (rule service_step.record_finish [OF u _ assms(3)]) (use assms(2) in \<open>auto simp: working_def at_work_def\<close>)
  then show ?thesis using prune_in_stages [OF s', of c'] by (rule converse_rtranclp_into_rtranclp)
qed

section \<open>The size of the state file\<close>

lemma escape_char_length: "length (escape_char c) \<le> 12"
  by (simp add: escape_char_def u_escape_def hex4_def)

lemma encode_string_length: "length (encode_string s) \<le> 12 * length s + 2"
proof -
  have "length (concat (map escape_char s)) \<le> 12 * length s"
  proof (induction s)
    case (Cons c s)
    then show ?case using escape_char_length [of c] by simp
  qed simp
  then show ?thesis by (simp add: encode_string_def)
qed

lemma digits_length: "n < 10 ^ k \<Longrightarrow> 0 < k \<Longrightarrow> length (digits n) \<le> k"
proof (induction k arbitrary: n)
  case (Suc k)
  show ?case
  proof (cases "n < 10")
    case True
    then show ?thesis by (simp add: digits.simps [of n])
  next
    case False
    then have "n div 10 < 10 ^ k" using Suc.prems(1) by auto
    moreover have "0 < k" using False Suc.prems(1) by (cases k) auto
    ultimately show ?thesis using Suc.IH [of "n div 10"] False by (simp add: digits.simps [of n])
  qed
qed simp

lemma int_text_length: "0 \<le> n \<Longrightarrow> n \<le> max_int64 \<Longrightarrow> length (int_text n) \<le> 19"
  using digits_length [of n 19] by (simp add: int_text_def max_int64_def)

text \<open>Artifact paths that leave room for the other fields.\<close>

definition artifacts_fit :: "pystr list \<Rightarrow> bool" where
  "artifacts_fit paths \<longleftrightarrow> sum_list (map (\<lambda>p. length (encode_string p)) paths) \<le> 40000"

lemma json_size_optional: "pred_option (\<lambda>n. lo \<le> n \<and> n \<le> hi) v \<Longrightarrow> 0 \<le> lo \<Longrightarrow> hi \<le> max_int64 \<Longrightarrow> json_size (json_of_int_option v) \<le> 19"
  by (cases v) (simp_all add: json_of_int_option_def int_text_length)

lemma name_sizes:
  shows "length (encode_string (lit ''format_version'')) = 16"
    "length (encode_string (lit ''job_id'')) = 8"
    "length (encode_string (lit ''operation'')) = 11"
    "length (encode_string (lit ''state'')) = 7"
    "length (encode_string (lit ''worker_pid'')) = 12"
    "length (encode_string (lit ''started_at_ns'')) = 15"
    "length (encode_string (lit ''updated_at_ns'')) = 15"
    "length (encode_string (lit ''client_disconnected'')) = 21"
    "length (encode_string (lit ''exit_status'')) = 13"
    "length (encode_string (lit ''artifacts'')) = 11"
    "length (encode_string (lit ''detached'')) = 10"
    "length (encode_string (lit ''output'')) = 8"
    "length (encode_string (lit ''retained'')) = 10"
    "length (encode_string (lit ''limit_bytes_per_stream'')) = 24"
    "length (encode_string (lit ''retention_strategy'')) = 20"
    "length (encode_string (lit ''head_limit_bytes_per_stream'')) = 29"
    "length (encode_string (lit ''tail_limit_bytes_per_stream'')) = 29"
    "length (encode_string (lit ''stdout_size_bytes'')) = 19"
    "length (encode_string (lit ''stdout_head_size_bytes'')) = 24"
    "length (encode_string (lit ''stdout_tail_size_bytes'')) = 24"
    "length (encode_string (lit ''stdout_omitted_bytes'')) = 22"
    "length (encode_string (lit ''stdout_omitted_bytes_truncated'')) = 32"
    "length (encode_string (lit ''stdout_truncated'')) = 18"
    "length (encode_string (lit ''stderr_size_bytes'')) = 19"
    "length (encode_string (lit ''stderr_head_size_bytes'')) = 24"
    "length (encode_string (lit ''stderr_tail_size_bytes'')) = 24"
    "length (encode_string (lit ''stderr_omitted_bytes'')) = 22"
    "length (encode_string (lit ''stderr_omitted_bytes_truncated'')) = 32"
    "length (encode_string (lit ''stderr_truncated'')) = 18"
  by code_simp+

lemma state_text_size: "length (encode_string (state_text x)) \<le> 12"
  by (cases x) (simp_all, code_simp+)

lemma retention_text_size: "length (encode_string (retention_text x)) \<le> 12"
  by (cases x) (simp_all, code_simp+)

lemma stream_fields_size:
  assumes "stream_ok (output_limits r) x" "p \<in> {''stdout'', ''stderr''}"
  shows "sum_list (map (\<lambda>(k, v). length (encode_string k) + 2 + json_size v) (stream_fields p x)) \<le> 400"
proof -
  have "output_limits r \<in> {(0, 0), (job_output_limit, 0), (job_output_head_limit, job_output_tail_limit)}" by (cases r) simp_all
  then have "0 \<le> ss_size_bytes x" "ss_size_bytes x \<le> max_int64" "0 \<le> ss_head_size_bytes x" "ss_head_size_bytes x \<le> max_int64"
    "0 \<le> ss_tail_size_bytes x" "ss_tail_size_bytes x \<le> max_int64" "0 \<le> ss_omitted_bytes x" "ss_omitted_bytes x \<le> max_int64"
    using assms(1) by (auto simp: stream_ok_def job_output_limit_def job_output_head_limit_def job_output_tail_limit_def
        max_job_omitted_bytes_def max_int64_def)
  note n = int_text_length [OF this(1,2)] int_text_length [OF this(3,4)] int_text_length [OF this(5,6)] int_text_length [OF this(7,8)]
  show ?thesis using assms(2) n by (auto simp: stream_fields_def name_sizes)
qed

text \<open>A state file of a well-formed job whose artifact paths are short enough is never too long.\<close>

lemma utf8_length_ge: "length s \<le> utf8_length s"
  by (induction s) (simp_all add: utf8_length_def utf8_width_def)

lemma job_output_size:
  assumes "job_ok job"
  shows "json_size (JObj (job_output job)) \<le> 1200"
proof -
  have r: "output_limits (jb_retention job) \<in> {(0, 0), (job_output_limit, 0), (job_output_head_limit, job_output_tail_limit)}"
    by (cases "jb_retention job") simp_all
  have limits: "length (int_text job_output_limit) \<le> 19" "length (int_text (fst (output_limits (jb_retention job)))) \<le> 19"
    "length (int_text (snd (output_limits (jb_retention job)))) \<le> 19"
    using r by (auto intro!: int_text_length simp: job_output_limit_def job_output_head_limit_def job_output_tail_limit_def max_int64_def)
  have streams: "stream_ok (output_limits (jb_retention job)) (jb_stdout job)" "stream_ok (output_limits (jb_retention job)) (jb_stderr job)"
    using assms by (simp_all add: job_ok_def)
  have n: "length (job_output job) = 17" by (simp add: job_output_def stream_fields_def)
  show ?thesis
    using limits stream_fields_size [OF streams(1), of "''stdout''"] stream_fields_size [OF streams(2), of "''stderr''"]
      retention_text_size [of "jb_retention job"]
    by (simp only: json_size.simps n) (simp add: job_output_def name_sizes)
qed

lemma stored_value_fits:
  assumes "job_ok job" "length (jb_id job) = 32" "artifacts_fit (jb_artifacts job)"
  shows "json_size (stored_value job) \<le> max_job_state_bytes"
proof -
  have i: "length (encode_string (jb_id job)) \<le> 386" using encode_string_length [of "jb_id job"] assms(2) by simp
  have "length (jb_operation job) \<le> 128"
    using assms(1) utf8_length_ge [of "jb_operation job"] by (simp add: job_ok_def operation_name_ok_def max_job_operation_bytes_def)
  then have op: "length (encode_string (jb_operation job)) \<le> 1538" using encode_string_length [of "jb_operation job"] by simp
  have pid: "json_size (json_of_int_option (jb_worker_pid job)) \<le> 19"
    by (rule json_size_optional [of 1 max_int64]) (use assms(1) in \<open>simp_all add: job_ok_def\<close>)
  have status: "json_size (json_of_int_option (jb_exit_status job)) \<le> 19"
    by (rule json_size_optional [of 0 255]) (use assms(1) in \<open>simp_all add: job_ok_def max_int64_def\<close>)
  have "0 \<le> jb_started_at_ns job" "jb_started_at_ns job \<le> max_int64" "0 \<le> jb_updated_at_ns job" "jb_updated_at_ns job \<le> max_int64"
    using assms(1) by (simp_all add: job_ok_def)
  note times = int_text_length [OF this(1,2)] int_text_length [OF this(3,4)]
  have version: "length (int_text job_format_version) \<le> 19"
    by (rule int_text_length) (simp_all add: job_format_version_def max_int64_def)
  have paths: "json_size (JList (map JStr (jb_artifacts job))) \<le> 40012"
  proof -
    have "length (jb_artifacts job) \<le> 4" using assms(1) by (simp add: job_ok_def max_job_artifacts_def)
    moreover have "json_size (JList (map JStr (jb_artifacts job))) =
        2 + 2 * (length (jb_artifacts job) - 1) + sum_list (map (\<lambda>p. length (encode_string p)) (jb_artifacts job))"
      by (simp add: comp_def)
    ultimately show ?thesis using assms(3) unfolding artifacts_fit_def by linarith
  qed
  have bool: "(if b then 4 else 5) \<le> (5::nat)" for b by simp
  have state: "length (encode_string (state_text (jb_state job))) \<le> 12" by (rule state_text_size)
  let ?d = "(lit ''format_version'', JInt job_format_version) # job_value job"
  have "json_size (JObj ?d) \<le> 2 + 2 * 12 + sum_list (map (\<lambda>(k, v). length (encode_string k) + 2 + json_size v) ?d)"
    unfolding json_size.simps(7) by (intro add_mono order_refl) (simp add: job_value_def)
  also have "\<dots> \<le> max_job_state_bytes"
    using i op pid status times version state paths job_output_size [OF assms(1)]
    unfolding job_value_def list.map sum_list.Cons sum_list.Nil prod.case name_sizes max_job_state_bytes_def json_size.simps(2,3,5)
    using bool [of "jb_client_disconnected job"] bool [of "jb_detached job"] by linarith
  finally show ?thesis by (simp only: stored_value_def)
qed

end
