(* ===== verification/JobProperties.thy ===== *)
theory JobProperties
  imports JobFacts JobWaiting
begin

text \<open>
  What the capture-job service promises: reachable directories hold readable jobs only, a job whose worker
  lives is never lost and waiting for one whose worker is gone ends, and retention removes nothing else than
  old finished jobs.
\<close>

section \<open>Reachable directories\<close>

definition empty_root :: "nat \<Rightarrow> job_root" where
  "empty_root n = \<lparr>jr_jobs = [], jr_others = n\<rparr>"

lemma reachable_ok:
  assumes "service_step\<^sup>*\<^sup>* (c0, empty_root n) (c, s)" "0 \<le> c0"
  shows "store_ok c s \<and> 0 \<le> c"
  using assms(1)
proof (induction rule: rtranclp_induct2)
  case refl
  then show ?case using assms(2) by (simp add: store_ok_def empty_root_def)
next
  case (step c s c' s')
  then show ?case using service_step_ok [of c s c' s'] service_step_clock [of c s c' s'] by simp
qed

lemma entry_readable:
  assumes "store_ok c s" "dget (jr_jobs s) i = Some d" "jd_state d \<noteq> NoState"
  shows "\<exists>job. read_capture_job s i = Inr job \<and> job_ok job \<and> (terminal job \<or> (\<exists>job'. refresh_output_sizes s job = Inr job'))"
proof -
  obtain job where job: "job_id_ok i" "jb_id job = i" "holds_job c job d" by (rule store_ok_job [OF assms])
  have "dir_ok d" using store_okD [OF assms(1,2)] by (simp add: entry_ok_def)
  then have "terminal job \<or> (\<exists>job'. refresh_output_sizes s job = Inr job')"
    using refresh_defined [of s job d] assms(2) job(2,3) by (auto simp: holds_job_def)
  then show ?thesis using read_held [OF assms(2) job] job(3) by (auto simp: holds_job_def)
qed

lemma dir_ok_sizes:
  assumes "dir_ok d"
  shows "pred_option (\<lambda>bytes. int (length bytes) \<le> job_output_head_limit) (output_path stream d) \<and>
    pred_option (\<lambda>bytes. int (length bytes) \<le> job_output_tail_limit) (output_tail_path stream d)"
proof -
  have "int (length bytes) \<le> job_output_head_limit" if "relay_ok r (Some bytes)" for r bytes
    using relay_ok_size [OF that] rooms(1) by linarith
  moreover have "int (length bytes) \<le> job_output_tail_limit" if "length bytes \<le> tail_room" for bytes :: "nat list"
    using that rooms(2) by linarith
  ultimately show ?thesis using assms by (cases stream) (auto simp: dir_ok_def pred_option_def)
qed

text \<open>C8. Whatever the commands, the workers and the readers of jobs do, in any order, whatever of them fail and whatever
  process is killed between two of its changes, every entry of the directory has a valid id, its retained output is
  within its limits, and it either has no state file, because its creation or removal has not ended, or its state file
  is that of a well-formed job; of a job that has not ended no output file is missing, so that its sizes can be read.
  The readings of the clock do not go back.\<close>

theorem reachable_jobs_readable:
  assumes "service_step\<^sup>*\<^sup>* (c0, empty_root n) (c, s)" "0 \<le> c0" "dget (jr_jobs s) i = Some d"
  shows "job_id_ok i \<and>
    (\<forall>stream. pred_option (\<lambda>bytes. int (length bytes) \<le> job_output_head_limit) (output_path stream d) \<and>
       pred_option (\<lambda>bytes. int (length bytes) \<le> job_output_tail_limit) (output_tail_path stream d)) \<and>
    (jd_state d = NoState \<or>
      (\<exists>job. read_capture_job s i = Inr job \<and> job_ok job \<and> (terminal job \<or> (\<exists>job'. refresh_output_sizes s job = Inr job'))))"
proof -
  have ok: "store_ok c s" using reachable_ok [OF assms(1,2)] by simp
  have entry: "entry_ok c i d" by (rule store_okD [OF ok assms(3)])
  have "jd_state d = NoState \<or> (\<exists>job. read_capture_job s i = Inr job \<and> job_ok job \<and>
      (terminal job \<or> (\<exists>job'. refresh_output_sizes s job = Inr job')))"
    using entry_readable [OF ok assms(3)] by blast
  moreover have "\<forall>stream. pred_option (\<lambda>bytes. int (length bytes) \<le> job_output_head_limit) (output_path stream d) \<and>
      pred_option (\<lambda>bytes. int (length bytes) \<le> job_output_tail_limit) (output_tail_path stream d)"
    using dir_ok_sizes entry by (simp add: entry_ok_def)
  ultimately show ?thesis using entry by (simp add: entry_ok_def)
qed

definition sample_id :: pystr where
  "sample_id = replicate 32 97"

definition sample_job :: capture_job where
  "sample_job = new_job sample_id (lit ''capture'') True 7"

definition sample_root :: job_root where
  "sample_root = \<lparr>jr_jobs = [(sample_id, (new_job_dir True)\<lparr>jd_state := Stored (stored_value sample_job)\<rparr>)], jr_others = 0\<rparr>"

lemma sample_created: "create_capture_job (JStr (lit ''capture'')) True 5 7 [sample_id] (empty_root 0) = (Inr sample_job, sample_root)"
  by code_simp

lemma sample_reachable: "service_step\<^sup>*\<^sup>* (0, empty_root 0) (8, sample_root)"
proof (rule r_into_rtranclp, rule service_step.create [OF sample_created])
  show "list_all job_id_ok [sample_id]" by code_simp
  show "reads 0 7 8" by (simp add: reads_def max_int64_def)
qed

theorem reachable_jobs_readable_witness:
  "\<exists>s d. service_step\<^sup>*\<^sup>* (0, empty_root 0) (8, s) \<and> dget (jr_jobs s) sample_id = Some d \<and> (jd_state d = NoState \<or>
    (\<exists>job. read_capture_job s sample_id = Inr job \<and> job_ok job \<and> (terminal job \<or> (\<exists>job'. refresh_output_sizes s job = Inr job'))))"
proof -
  have d: "dget (jr_jobs sample_root) sample_id = Some ((new_job_dir True)\<lparr>jd_state := Stored (stored_value sample_job)\<rparr>)"
    by (simp add: sample_root_def)
  show ?thesis using reachable_jobs_readable [OF sample_reachable _ d] sample_reachable d by auto
qed

text \<open>A directory whose creation was cut off is reachable.\<close>

lemma unfinished_creation_reachable: "service_step\<^sup>*\<^sup>* (0, empty_root 0) (0, set_dir sample_id (stage_dir True 3) (empty_root 0))"
proof (rule make_stages)
  show "job_id_ok sample_id" by code_simp
qed (simp_all add: empty_root_def creation_parts_def has_key_iff)

text \<open>C39. The state file of a job is read back as the job exactly when the job is well formed: its texts, times
  and sizes are within their limits, its update does not precede its start, and its worker, exit status and
  output are those its state allows.\<close>

theorem stored_job_round_trip: "capture_job_from_value (stored_value job) (jb_id job) = Inr job \<longleftrightarrow> job_ok job"
  using job_round_trip job_value_read by blast

section \<open>The output that is kept\<close>

text \<open>The sizes of a stream of \<open>n\<close> bytes.\<close>

definition kept_stream :: "bool \<Rightarrow> nat \<Rightarrow> stream_state" where
  "kept_stream incomplete n = (let h = min n head_room; t = min (n - head_room) tail_room; omitted = int (n - (head_room + tail_room)) in
     \<lparr>ss_size_bytes = int h + int t, ss_truncated = (omitted \<noteq> 0 \<or> incomplete), ss_head_size_bytes = int h, ss_tail_size_bytes = int t,
      ss_omitted_bytes = min omitted max_job_omitted_bytes, ss_omitted_bytes_truncated = (max_job_omitted_bytes < omitted \<or> incomplete)\<rparr>)"

lemma kept_nothing: "kept_stream False 0 = empty_stream"
  by (simp add: kept_stream_def empty_stream_def max_job_omitted_bytes_def)

lemma omitted_size: "max 0 (int n - job_output_limit) = int (n - (head_room + tail_room))"
  using rooms(4) by simp

lemma kept_and_omitted: "n - min n h - min (n - h) t = n - (h + t)" for n :: nat
  by (simp add: min_def)

lemma relay_mark_kept:
  assumes "relay_holds out r"
  shows
    "om_head_size_bytes (relay_mark incomplete r) = ss_head_size_bytes (kept_stream incomplete (length out))"
    "om_tail_size_bytes (relay_mark incomplete r) = ss_tail_size_bytes (kept_stream incomplete (length out))"
    "om_omitted_bytes (relay_mark incomplete r) = ss_omitted_bytes (kept_stream incomplete (length out))"
    "om_omitted_bytes_truncated (relay_mark incomplete r) = ss_omitted_bytes_truncated (kept_stream incomplete (length out))"
    "om_truncated (relay_mark incomplete r) = ss_truncated (kept_stream incomplete (length out))"
    "ss_size_bytes (kept_stream incomplete (length out)) = ss_head_size_bytes (kept_stream incomplete (length out)) + ss_tail_size_bytes (kept_stream incomplete (length out))"
proof -
  have head: "or_head_size_bytes r = int (min (length out) head_room)" using assms(1) by (simp add: relay_holds_def)
  have tail: "length (tail_snapshot (or_tail r)) = min (length out - head_room) tail_room"
    using assms(1) by (simp add: relay_holds_def tail_holds_def)
  have size: "max 0 (or_total_size_bytes r - job_output_limit) =
      int (length out - (head_room + tail_room))"
    using assms(1) omitted_size [of "length out"] by (simp add: relay_holds_def)
  show
    "om_head_size_bytes (relay_mark incomplete r) = ss_head_size_bytes (kept_stream incomplete (length out))"
    "om_tail_size_bytes (relay_mark incomplete r) = ss_tail_size_bytes (kept_stream incomplete (length out))"
    "om_omitted_bytes (relay_mark incomplete r) = ss_omitted_bytes (kept_stream incomplete (length out))"
    "om_omitted_bytes_truncated (relay_mark incomplete r) = ss_omitted_bytes_truncated (kept_stream incomplete (length out))"
    "om_truncated (relay_mark incomplete r) = ss_truncated (kept_stream incomplete (length out))"
    "ss_size_bytes (kept_stream incomplete (length out)) = ss_head_size_bytes (kept_stream incomplete (length out)) + ss_tail_size_bytes (kept_stream incomplete (length out))"
    unfolding relay_mark_def kept_stream_def Let_def size head tail by simp_all
qed

lemma kept_stream_mono:
  assumes "n \<le> m"
  shows "ss_head_size_bytes (kept_stream b n) \<le> ss_head_size_bytes (kept_stream c m)"
    "ss_tail_size_bytes (kept_stream b n) \<le> ss_tail_size_bytes (kept_stream c m)"
    "ss_omitted_bytes (kept_stream b n) \<le> ss_omitted_bytes (kept_stream c m)"
    "ss_size_bytes (kept_stream b n) \<le> ss_size_bytes (kept_stream c m)"
    "ss_truncated (kept_stream False n) \<Longrightarrow> ss_truncated (kept_stream c m)"
    "ss_omitted_bytes_truncated (kept_stream False n) \<Longrightarrow> ss_omitted_bytes_truncated (kept_stream c m)"
proof -
  have "n - (head_room + tail_room) \<le> m - (head_room + tail_room)" using assms by simp
  then have "int (n - (head_room + tail_room)) \<le> int (m - (head_room + tail_room))" by (simp only: zle_int)
  then show "ss_omitted_bytes (kept_stream b n) \<le> ss_omitted_bytes (kept_stream c m)"
    "ss_omitted_bytes_truncated (kept_stream False n) \<Longrightarrow> ss_omitted_bytes_truncated (kept_stream c m)"
    by (auto simp: kept_stream_def Let_def)
  show "ss_head_size_bytes (kept_stream b n) \<le> ss_head_size_bytes (kept_stream c m)"
    "ss_tail_size_bytes (kept_stream b n) \<le> ss_tail_size_bytes (kept_stream c m)"
    "ss_size_bytes (kept_stream b n) \<le> ss_size_bytes (kept_stream c m)"
    "ss_truncated (kept_stream False n) \<Longrightarrow> ss_truncated (kept_stream c m)"
    using assms by (simp_all add: kept_stream_def Let_def)
qed

text \<open>The job and its directory after the relay has taken the bytes \<open>out\<close> of a stream.\<close>

definition relayed :: "stream \<Rightarrow> pystr \<Rightarrow> nat list \<Rightarrow> int \<Rightarrow> capture_job \<Rightarrow> job_root \<Rightarrow> bool" where
  "relayed stream i out begun job s \<longleftrightarrow> read_capture_job s i = Inr job \<and> jb_retention job = HeadTail \<and> artifacts_fit (jb_artifacts job) \<and>
     jb_started_at_ns job = begun \<and> (\<exists>n \<le> length out. stream_of stream job = kept_stream False n) \<and>
     output_file False stream s i = Some (take head_room out) \<and>
     (\<exists>tail. output_file True stream s i = Some tail \<and> length tail \<le> tail_room)"

lemma read_stored:
  assumes "dget (jr_jobs s) i = Some d" "jd_state d = Stored (stored_value job)" "job_ok job" "jb_id job = i" "job_id_ok i"
  shows "read_capture_job s i = Inr job"
  using assms job_round_trip [of job] by (simp add: read_capture_job_def validate_job_id_def)

lemma read_same_state:
  "dget (jr_jobs s) i = Some d \<Longrightarrow> dget (jr_jobs s') i = Some d' \<Longrightarrow> jd_state d' = jd_state d \<Longrightarrow> read_capture_job s' i = read_capture_job s i"
  by (simp add: read_capture_job_eq)

lemma with_stream_simps [simp]:
  "stream_of stream (with_stream stream x job) = x" "jb_id (with_stream stream x job) = jb_id job"
  "jb_retention (with_stream stream x job) = jb_retention job" "jb_artifacts (with_stream stream x job) = jb_artifacts job"
  "jb_started_at_ns (with_stream stream x job) = jb_started_at_ns job"
  by (cases stream; simp)+

lemma marked_kept:
  assumes "relay_holds out r" "jb_detached job" "jb_retention job = HeadTail" "stream_of stream job = kept_stream False n" "n \<le> length out"
  shows "marked_output stream (relay_mark incomplete r) now job =
    Inr (with_stream stream (kept_stream incomplete (length out)) (job\<lparr>jb_updated_at_ns := now\<rparr>))"
proof -
  note mark = relay_mark_kept [OF assms(1), of incomplete]
  note mono = kept_stream_mono(1-4) [OF assms(5), where b = False and c = incomplete]
    kept_stream_mono(5,6) [OF assms(5), where c = incomplete]
  have limits: "ss_head_size_bytes (kept_stream incomplete (length out)) \<le> fst (output_limits HeadTail)"
    "ss_tail_size_bytes (kept_stream incomplete (length out)) \<le> snd (output_limits HeadTail)"
    using rooms(1,2) by (simp_all add: kept_stream_def Let_def)
  have prev: "ss_size_bytes (kept_stream False n) \<le> ss_head_size_bytes (kept_stream incomplete (length out)) +
      ss_tail_size_bytes (kept_stream incomplete (length out))"
    using mono(4) mark(6) by simp
  have "kept_stream incomplete (length out) =
     \<lparr>ss_size_bytes = ss_head_size_bytes (kept_stream incomplete (length out)) + ss_tail_size_bytes (kept_stream incomplete (length out)),
      ss_truncated = (ss_truncated (kept_stream False n) \<or> ss_truncated (kept_stream incomplete (length out))),
      ss_head_size_bytes = ss_head_size_bytes (kept_stream incomplete (length out)),
      ss_tail_size_bytes = ss_tail_size_bytes (kept_stream incomplete (length out)),
      ss_omitted_bytes = ss_omitted_bytes (kept_stream incomplete (length out)),
      ss_omitted_bytes_truncated = (ss_omitted_bytes_truncated (kept_stream False n) \<or>
        ss_omitted_bytes_truncated (kept_stream incomplete (length out)))\<rparr>"
    using mono(5,6) mark(6) by (intro stream_state.equality) auto
  then show ?thesis
    unfolding marked_output_def Let_def assms(3,4) mark(1-5) using assms(2) limits prev mono(1-3) by (simp add: job_unless_def)
qed

lemma relay_mark_ok:
  assumes "relay_holds out r"
  shows "mark_ok (relay_mark incomplete r)"
  unfolding mark_ok_def relay_mark_kept [OF assms] by (auto simp: kept_stream_def Let_def max_job_omitted_bytes_def)

lemma checkpoint_relayed:
  assumes "relayed stream i out begun job s" "relay_holds out r" "begun \<le> now" "now \<le> max_int64"
  shows "\<exists>s' job'. checkpoint_detached_output (Some i) stream incomplete r now s = (Inr (), s') \<and> read_capture_job s' i = Inr job' \<and>
    jb_retention job' = HeadTail \<and> jb_artifacts job' = jb_artifacts job \<and> jb_started_at_ns job' = begun \<and>
    stream_of stream job' = kept_stream incomplete (length out) \<and>
    output_file False stream s' i = Some (take head_room out) \<and>
    output_file True stream s' i = Some (last_bytes tail_room (drop head_room out))"
proof -
  obtain n tail where job: "read_capture_job s i = Inr job" "jb_retention job = HeadTail" "artifacts_fit (jb_artifacts job)"
      "jb_started_at_ns job = begun" "n \<le> length out" "stream_of stream job = kept_stream False n"
    and files: "output_file False stream s i = Some (take head_room out)" "output_file True stream s i = Some tail" "length tail \<le> tail_room"
    using assms(1) unfolding relayed_def by blast
  have ok: "jb_id job = i" "job_id_ok i" "job_ok job" using read_capture_job_Inr_ok [OF job(1)] by simp_all
  have detached: "jb_detached job" using ok(3) job(2) by (simp add: job_ok_def)
  obtain d where d: "dget (jr_jobs s) i = Some d" using files(1) by (auto simp: output_file_def split: option.splits)
  let ?content = "tail_snapshot (or_tail r)"
  have content: "?content = last_bytes tail_room (drop head_room out)" using assms(2) by (simp add: relay_holds_def tail_holds_def)
  have fits: "int (length ?content) \<le> job_output_tail_limit" unfolding content using rooms(2) by simp
  have old: "output_tail_path stream d = Some tail" "int (length tail) \<le> job_output_tail_limit"
    using files(2,3) d rooms(2) by (simp_all add: output_file_def)
  let ?d = "set_tail stream ?content d" and ?job = "with_stream stream (kept_stream incomplete (length out)) (job\<lparr>jb_updated_at_ns := now\<rparr>)"
  let ?s = "set_dir i ?d s"
  have tail_step: "checkpoint_output_tail (Some i) stream ?content s = Inr ?s"
    using ok(2) job(1,2) detached fits d old
    by (simp add: checkpoint_output_tail_def checkpoint_output_tail_file_def required_capture_job_id_def validate_job_id_def job_unless_def)
  have "jd_state ?d = jd_state d" by (cases stream) (simp_all add: set_tail_def)
  then have read: "read_capture_job ?s i = Inr job"
    unfolding job(1) [symmetric] by (rule read_same_state [OF d, rotated]) (simp add: set_dir_def)
  have marked: "marked_output stream (relay_mark incomplete r) now job = Inr ?job" by (rule marked_kept [OF assms(2) detached job(2,6,5)])
  have ok': "job_ok ?job"
    by (rule marked_output_ok [OF ok(3) _ relay_mark_ok [OF assms(2)] marked]) (use assms(3,4) job(4) in \<open>simp add: timely_def\<close>)
  have size: "json_size (stored_value ?job) \<le> max_job_state_bytes"
    by (rule stored_value_fits [OF ok']) (use ok(1,2) job(3) in \<open>simp_all add: job_id_ok_def\<close>)
  let ?e = "?d\<lparr>jd_state := Stored (stored_value ?job)\<rparr>"
  have update: "update_capture_job ?s i (marked_output stream (relay_mark incomplete r) now) = Inr (?job, set_dir i ?e s)"
    using read marked size ok(1,2)
    by (simp add: update_capture_job_def write_capture_job_def validate_job_id_def job_unless_def set_dir_def)
  have guards: "0 \<le> om_head_size_bytes m \<and> om_head_size_bytes m \<le> job_output_limit \<and> 0 \<le> om_tail_size_bytes m \<and>
      om_tail_size_bytes m \<le> job_output_tail_limit \<and> om_head_size_bytes m + om_tail_size_bytes m \<le> job_output_limit"
    "0 \<le> om_omitted_bytes m \<and> om_omitted_bytes m \<le> max_job_omitted_bytes"
    "\<not> ((om_omitted_bytes m \<noteq> 0 \<or> om_omitted_bytes_truncated m) \<and> \<not> om_truncated m)" if "m = relay_mark incomplete r" for m
    using relay_mark_ok [OF assms(2), of incomplete] rooms(2,4) unfolding mark_ok_def that relay_mark_kept [OF assms(2)]
    by (auto simp: kept_stream_def Let_def)
  have mark_step: "mark_capture_job_output (Some i) stream (relay_mark incomplete r) now ?s = Inr (set_dir i ?e s)"
    using guards [OF refl] ok(2) update
    by (simp add: mark_capture_job_output_def required_capture_job_id_def validate_job_id_def job_unless_def)
  have after: "dget (jr_jobs (set_dir i ?e s)) i = Some ?e" by (simp add: set_dir_def)
  have "read_capture_job (set_dir i ?e s) i = Inr ?job"
    by (rule read_stored [OF after _ ok' _ ok(2)]) (simp_all add: ok(1))
  moreover have "output_file False stream (set_dir i ?e s) i = Some (take head_room out)"
    using files(1) d after by (cases stream) (simp_all add: output_file_def set_tail_def)
  moreover have "output_file True stream (set_dir i ?e s) i = Some (last_bytes tail_room (drop head_room out))"
    using after content by (cases stream) (simp_all add: output_file_def set_tail_def)
  moreover have "checkpoint_detached_output (Some i) stream incomplete r now s = (Inr (), set_dir i ?e s)"
    by (simp add: checkpoint_detached_output_def tail_step mark_step)
  ultimately show ?thesis using job(2,4) by (intro exI [of _ "set_dir i ?e s"] exI [of _ ?job]) simp
qed

lemma write_head_relayed:
  assumes "relayed stream i out begun job s" "take head_room (out @ content) = take head_room out @ head"
  shows "relayed stream i (out @ content) begun job (write_head i stream head s)"
proof -
  obtain d where d: "dget (jr_jobs s) i = Some d"
    using assms(1) by (auto simp: relayed_def output_file_def split: option.splits)
  let ?d = "append_output stream head d"
  have s: "write_head i stream head s = set_dir i ?d s" by (simp add: write_head_def d)
  have after: "dget (jr_jobs (set_dir i ?d s)) i = Some ?d" by (simp add: set_dir_def)
  have "jd_state ?d = jd_state d" by (cases stream) (simp_all add: append_output_def)
  with d after have "read_capture_job (set_dir i ?d s) i = read_capture_job s i" by (rule read_same_state)
  moreover have "output_file False stream (set_dir i ?d s) i = map_option (\<lambda>old. old @ head) (output_file False stream s i)"
    "output_file True stream (set_dir i ?d s) i = output_file True stream s i"
    using after d by (cases stream; simp add: output_file_def append_output_def)+
  moreover have "\<exists>n\<le>length (out @ content). stream_of stream job = kept_stream False n"
    using assms(1) unfolding relayed_def by (metis le_add1 le_trans length_append)
  ultimately show ?thesis using assms unfolding relayed_def s by simp
qed

definition relay_times :: "relay_turn list \<Rightarrow> int list" where
  "relay_times turns = concat (map (\<lambda>(content, due). case due of None \<Rightarrow> [] | Some t \<Rightarrow> [t]) turns)"

lemma drain_loop_relayed:
  "relayed stream i out begun job s \<Longrightarrow> relay_holds out r \<Longrightarrow> \<forall>t\<in>set (relay_times turns). begun \<le> t \<and> t \<le> max_int64 \<Longrightarrow>
   \<exists>r' s' job'. drain_loop i stream turns dirty r s = (Inr r', s') \<and> relay_holds (out @ concat (map fst turns)) r' \<and>
     relayed stream i (out @ concat (map fst turns)) begun job' s'"
proof (induction turns arbitrary: out dirty r s job)
  case Nil
  then show ?case by auto
next
  case (Cons turn turns)
  obtain content due where turn: "turn = (content, due)" by (cases turn)
  obtain head r1 where chunk: "relay_chunk content r = Inr (head, r1)" "relay_holds (out @ content) r1"
      "take head_room (out @ content) = take head_room out @ head"
    using relay_chunk_holds [OF Cons.prems(2), of content] by blast
  let ?s = "write_head i stream head s" and ?dirty = "dirty \<or> drop (length head) content \<noteq> []"
  have here: "relayed stream i (out @ content) begun job ?s" by (rule write_head_relayed [OF Cons.prems(1) chunk(3)])
  have times: "\<forall>t\<in>set (relay_times turns). begun \<le> t \<and> t \<le> max_int64" using Cons.prems(3) by (simp add: relay_times_def)
  show ?case
  proof (cases "due \<noteq> None \<and> ?dirty")
    case False
    then have "drain_loop i stream (turn # turns) dirty r s = drain_loop i stream turns ?dirty r1 ?s"
      using chunk(1) by (auto simp: turn Let_def split: option.splits)
    then show ?thesis using Cons.IH [OF here chunk(2) times, of ?dirty] by (simp add: turn)
  next
    case True
    then obtain t where t: "due = Some t" by auto
    then have "begun \<le> t" "t \<le> max_int64" using Cons.prems(3) by (simp_all add: relay_times_def turn)
    from checkpoint_relayed [OF here chunk(2) this, of False] obtain s2 job2 where
      check: "checkpoint_detached_output (Some i) stream False r1 t ?s = (Inr (), s2)" and job2: "read_capture_job s2 i = Inr job2"
        "jb_retention job2 = HeadTail" "jb_artifacts job2 = jb_artifacts job" "jb_started_at_ns job2 = begun"
        "stream_of stream job2 = kept_stream False (length (out @ content))"
        "output_file False stream s2 i = Some (take head_room (out @ content))"
        "output_file True stream s2 i = Some (last_bytes tail_room (drop head_room (out @ content)))"
      by blast
    have "relayed stream i (out @ content) begun job2 s2"
      using job2 here unfolding relayed_def by (simp del: take_append drop_append length_append) blast
    moreover have "drain_loop i stream (turn # turns) dirty r s = drain_loop i stream turns False r1 s2"
      using True chunk(1) check by (simp add: turn t Let_def)
    ultimately show ?thesis using Cons.IH [OF _ chunk(2) times, of job2 s2 False] by (simp add: turn)
  qed
qed

lemma split_kept:
  "\<exists>skipped. xs = take h xs @ skipped @ last_bytes t (drop h xs) \<and>
     length xs - length (take h xs) - length (last_bytes t (drop h xs)) = length skipped \<and>
     (skipped = [] \<or> length (last_bytes t (drop h xs)) = t)"
proof -
  let ?skipped = "take (length (drop h xs) - t) (drop h xs)"
  have "?skipped @ last_bytes t (drop h xs) = drop h xs" unfolding last_bytes_def by (rule append_take_drop_id)
  then have "xs = take h xs @ ?skipped @ last_bytes t (drop h xs)" by simp
  moreover have "length xs - length (take h xs) - length (last_bytes t (drop h xs)) = length ?skipped"
    "?skipped = [] \<or> length (last_bytes t (drop h xs)) = t"
    by (auto simp: min_def)
  ultimately show ?thesis by blast
qed

text \<open>C37. The relay of a worker loses no output without counting it: for every stream of a detached job, however its
  bytes come in and whenever the checkpoints are made, the head file ends with the first bytes of the stream and the
  tail file with the last of the others, both filled up to their limits, and the job records the sizes of both and,
  up to the largest number it can, how many bytes are in neither of them.\<close>

theorem relayed_output_accounted:
  assumes "read_capture_job s i = Inr job" "jb_retention job = HeadTail" "stream_of stream job = empty_stream" "artifacts_fit (jb_artifacts job)"
    and "output_file False stream s i = Some []" "output_file True stream s i = Some []"
    and "\<forall>t\<in>set (now # relay_times turns). jb_started_at_ns job \<le> t \<and> t \<le> max_int64"
  shows "\<exists>s' job' head tail. drain_detached_output (Some i) stream turns incomplete now s = (Inr (), s') \<and>
    output_file False stream s' i = Some head \<and> output_file True stream s' i = Some tail \<and> read_capture_job s' i = Inr job' \<and>
    (let out = concat (map fst turns); kept = stream_of stream job'; omitted = int (length out - length head - length tail) in
      head = take (nat job_output_head_limit) out \<and>
      (\<exists>skipped. out = head @ skipped @ tail \<and> omitted = int (length skipped) \<and> (skipped = [] \<or> int (length tail) = job_output_tail_limit)) \<and>
      ss_head_size_bytes kept = int (length head) \<and> ss_tail_size_bytes kept = int (length tail) \<and>
      ss_omitted_bytes kept = min omitted max_job_omitted_bytes \<and>
      (ss_truncated kept \<longleftrightarrow> omitted \<noteq> 0 \<or> incomplete) \<and>
      (ss_omitted_bytes_truncated kept \<longleftrightarrow> max_job_omitted_bytes < omitted \<or> incomplete))"
proof -
  have begun: "\<forall>t\<in>set (relay_times turns). jb_started_at_ns job \<le> t \<and> t \<le> max_int64" "jb_started_at_ns job \<le> now" "now \<le> max_int64"
    using assms(7) by simp_all
  note ok = read_capture_job_Inr_ok [OF assms(1)]
  have "relayed stream i [] (jb_started_at_ns job) job s"
    unfolding relayed_def using assms(1-6) by (auto simp: kept_nothing)
  from drain_loop_relayed [OF this empty_relay_holds begun(1), of False] obtain r s1 job1 where
    loop: "drain_loop i stream turns False empty_relay s = (Inr r, s1)" and r: "relay_holds (concat (map fst turns)) r"
    and s1: "relayed stream i (concat (map fst turns)) (jb_started_at_ns job) job1 s1"
    by auto
  let ?out = "concat (map fst turns)"
  let ?head = "take head_room ?out" and ?tail = "last_bytes tail_room (drop head_room ?out)"
  from checkpoint_relayed [OF s1 r begun(2,3), of incomplete] obtain s' job' where
    last: "checkpoint_detached_output (Some i) stream incomplete r now s1 = (Inr (), s')" "read_capture_job s' i = Inr job'"
      "stream_of stream job' = kept_stream incomplete (length ?out)" "output_file False stream s' i = Some ?head" "output_file True stream s' i = Some ?tail"
    by blast
  have "open_output_sink (Some i) stream s = Inr ()"
    using ok assms(1,2,5) output_limits_bounds(1) [of "jb_retention job"]
    by (simp add: open_output_sink_def required_capture_job_id_def validate_job_id_def job_unless_def job_ok_def output_file_size_def)
  then have drain: "drain_detached_output (Some i) stream turns incomplete now s = (Inr (), s')"
    using ok loop last(1) by (simp add: drain_detached_output_def required_capture_job_id_def validate_job_id_def job_unless_def)
  have sizes: "length ?head = min (length ?out) head_room" "length ?tail = min (length ?out - head_room) tail_room"
    "length ?out - length ?head - length ?tail = length ?out - (head_room + tail_room)"
    using kept_and_omitted [of "length ?out" head_room tail_room] by simp_all
  have kept: "ss_head_size_bytes (kept_stream incomplete (length ?out)) = int (length ?head)"
    "ss_tail_size_bytes (kept_stream incomplete (length ?out)) = int (length ?tail)"
    "ss_omitted_bytes (kept_stream incomplete (length ?out)) = min (int (length ?out - length ?head - length ?tail)) max_job_omitted_bytes"
    "ss_truncated (kept_stream incomplete (length ?out)) \<longleftrightarrow> int (length ?out - length ?head - length ?tail) \<noteq> 0 \<or> incomplete"
    "ss_omitted_bytes_truncated (kept_stream incomplete (length ?out)) \<longleftrightarrow>
       max_job_omitted_bytes < int (length ?out - length ?head - length ?tail) \<or> incomplete"
    unfolding sizes(3) unfolding sizes(1,2) kept_stream_def Let_def by simp_all
  obtain skipped where skipped: "?out = ?head @ skipped @ ?tail" "length ?out - length ?head - length ?tail = length skipped"
      "skipped = [] \<or> length ?tail = tail_room"
    using split_kept by blast
  have full: "skipped = [] \<or> int (length ?tail) = job_output_tail_limit" using skipped(3) rooms(2) by presburger
  show ?thesis
  proof (intro exI conjI)
    show "drain_detached_output (Some i) stream turns incomplete now s = (Inr (), s')" by (rule drain)
    show "read_capture_job s' i = Inr job'" by (rule last(2))
    show "output_file False stream s' i = Some ?head" "output_file True stream s' i = Some ?tail" by (rule last(4), rule last(5))
    show "let out = ?out; kept = stream_of stream job'; omitted = int (length out - length ?head - length ?tail) in
      ?head = take (nat job_output_head_limit) out \<and>
      (\<exists>skipped. out = ?head @ skipped @ ?tail \<and> omitted = int (length skipped) \<and> (skipped = [] \<or> int (length ?tail) = job_output_tail_limit)) \<and>
      ss_head_size_bytes kept = int (length ?head) \<and> ss_tail_size_bytes kept = int (length ?tail) \<and>
      ss_omitted_bytes kept = min omitted max_job_omitted_bytes \<and>
      (ss_truncated kept \<longleftrightarrow> omitted \<noteq> 0 \<or> incomplete) \<and>
      (ss_omitted_bytes_truncated kept \<longleftrightarrow> max_job_omitted_bytes < omitted \<or> incomplete)"
      unfolding Let_def last(3) kept rooms(5) using skipped(1,2) full by (intro conjI exI [of _ skipped] refl) simp_all
  qed
qed

lemma sample_store: "store_ok 8 sample_root"
  using reachable_ok [OF sample_reachable] by simp

lemma sample_read: "read_capture_job sample_root sample_id = Inr sample_job"
proof (rule read_held)
  show "dget (jr_jobs sample_root) sample_id = Some ((new_job_dir True)\<lparr>jd_state := Stored (stored_value sample_job)\<rparr>)"
    by (simp add: sample_root_def)
  show "job_id_ok sample_id" "jb_id sample_job = sample_id" by code_simp+
  have "operation_name_ok (lit ''capture'')" by code_simp
  then have "job_ok sample_job" unfolding sample_job_def by (rule new_job_ok) (simp_all add: max_int64_def)
  moreover have "jb_started_at_ns sample_job \<le> 8" "files_there (new_job_dir True)" by code_simp+
  ultimately show "holds_job 8 sample_job ((new_job_dir True)\<lparr>jd_state := Stored (stored_value sample_job)\<rparr>)"
    by (simp add: holds_job_def)
qed

theorem relayed_output_accounted_witness:
  "\<exists>s' job'. drain_detached_output (Some sample_id) Stdout [([104], Some 8), ([105], None)] False 9 sample_root = (Inr (), s') \<and>
    output_file False Stdout s' sample_id = Some [104, 105] \<and> read_capture_job s' sample_id = Inr job' \<and>
    ss_head_size_bytes (jb_stdout job') = 2 \<and> \<not> ss_truncated (jb_stdout job')"
proof -
  let ?turns = "[([104], Some 8), ([105], None)] :: relay_turn list"
  have "\<exists>s' job' head tail. drain_detached_output (Some sample_id) Stdout ?turns False 9 sample_root = (Inr (), s') \<and>
    output_file False Stdout s' sample_id = Some head \<and> output_file True Stdout s' sample_id = Some tail \<and>
    read_capture_job s' sample_id = Inr job' \<and>
    (let out = concat (map fst ?turns); kept = stream_of Stdout job'; omitted = int (length out - length head - length tail) in
      head = take (nat job_output_head_limit) out \<and>
      (\<exists>skipped. out = head @ skipped @ tail \<and> omitted = int (length skipped) \<and> (skipped = [] \<or> int (length tail) = job_output_tail_limit)) \<and>
      ss_head_size_bytes kept = int (length head) \<and> ss_tail_size_bytes kept = int (length tail) \<and>
      ss_omitted_bytes kept = min omitted max_job_omitted_bytes \<and>
      (ss_truncated kept \<longleftrightarrow> omitted \<noteq> 0 \<or> False) \<and>
      (ss_omitted_bytes_truncated kept \<longleftrightarrow> max_job_omitted_bytes < omitted \<or> False))"
  proof (rule relayed_output_accounted [OF sample_read])
    show "output_file False Stdout sample_root sample_id = Some []" "output_file True Stdout sample_root sample_id = Some []"
      "stream_of Stdout sample_job = empty_stream" "jb_retention sample_job = HeadTail"
      by code_simp+
  qed (simp_all add: sample_job_def new_job_def artifacts_fit_def relay_times_def max_int64_def)
  moreover have "take (nat job_output_head_limit) [104, 105 :: nat] = [104, 105]" by (simp add: job_output_head_limit_def job_output_limit_def)
  ultimately show ?thesis by (auto simp: Let_def)
qed

section \<open>Lost jobs\<close>

text \<open>C7. A job whose worker holds the lock is not marked as lost by any step of any process, so that only
  a job whose worker has ended without recording its result is ever reported as lost.\<close>

theorem live_worker_never_lost:
  assumes "service_step\<^sup>*\<^sup>* (c0, empty_root n) (c, s)" "0 \<le> c0" "service_step (c, s) (c', s')" "working s i" "state_at s i \<noteq> Some Lost"
  shows "state_at s' i \<noteq> Some Lost"
  using step_keeps_working_job [OF assms(3) _ _ assms(4)] reachable_ok [OF assms(1,2)] assms(5) by blast

lemma sample_started: "\<exists>s. start_current_capture_job (Some sample_id) 11 9 sample_root = Inr s \<and> working s sample_id \<and> state_at s sample_id = Some Running"
  unfolding working_def
proof -
  have "(case start_current_capture_job (Some sample_id) 11 9 sample_root of Inr s \<Rightarrow>
      map_option jd_lock (dget (jr_jobs s) sample_id) = Some Held \<and> state_at s sample_id = Some Running | _ \<Rightarrow> False)" by code_simp
  then show "\<exists>s. start_current_capture_job (Some sample_id) 11 9 sample_root = Inr s \<and>
      (\<exists>d. dget (jr_jobs s) sample_id = Some d \<and> jd_lock d = Held) \<and> state_at s sample_id = Some Running"
    by (auto split: sum.splits)
qed

theorem live_worker_never_lost_witness:
  "\<exists>c s. service_step\<^sup>*\<^sup>* (0, empty_root 0) (c, s) \<and> state_at s sample_id \<noteq> Some Lost"
proof -
  obtain s where s: "start_current_capture_job (Some sample_id) 11 9 sample_root = Inr s" "working s sample_id" "state_at s sample_id = Some Running"
    using sample_started by blast
  have "service_step (8, sample_root) (10, s)"
    by (rule service_step.start [OF s(1)]) (simp_all add: reads_def max_int64_def)
  then have r: "service_step\<^sup>*\<^sup>* (0, empty_root 0) (10, s)" using sample_reachable by (rule rtranclp.rtrancl_into_rtrancl [rotated])
  have t: "service_step (10, s) (11, s)" by (rule service_step.tick) (simp add: reads_def max_int64_def)
  have "state_at s sample_id \<noteq> Some Lost" by (rule live_worker_never_lost [OF r _ t s(2)]) (simp_all add: s(3))
  with r show ?thesis by blast
qed

section \<open>Waiting\<close>

text \<open>The directory after the polls of a wait that goes on.\<close>

fun waited :: "pystr \<Rightarrow> poll list \<Rightarrow> job_root \<Rightarrow> job_root" where
  "waited i [] s = s"
| "waited i (p # ps) s = waited i ps (snd (poll_load i p s))"

lemma wait_loop_goes_on:
  "wait_loop i deadline ps s = None \<Longrightarrow> wait_loop i deadline (ps @ qs) s = wait_loop i deadline qs (waited i ps s)"
  by (induction ps arbitrary: s) (auto split: prod.splits sum.splits if_splits)

text \<open>No output file of the job is missing; this may happen only when it has ended and is being removed.\<close>

definition kept_whole :: "job_root \<Rightarrow> capture_job \<Rightarrow> bool" where
  "kept_whole store job \<longleftrightarrow> \<not> terminal job \<or> jb_retention job = NoOutput \<or> pred_option files_there (dget (jr_jobs store) (jb_id job))"

lemma refresh_kept_whole:
  assumes "dget (jr_jobs s) i = Some d" "jb_id job = i" "holds_job c job d" "dir_ok d" "kept_whole s job"
  shows "\<exists>job'. refresh_output_sizes s job = Inr job'"
  using assms by (intro refresh_defined [of s job d]) (auto simp: holds_job_def kept_whole_def)

lemma load_dead_worker:
  assumes "store_ok c seen" "store_ok c now" "c \<le> ck_update clock" "ck_update clock \<le> max_int64"
    "read_capture_job seen i = Inr old" "read_capture_job now i = Inr held" "try_acquire_lock now i = Inr True"
    "\<not> within_startup_grace (ck_first clock) old" "\<not> within_startup_grace (ck_second clock) held" "artifacts_fit (jb_artifacts held)"
    and whole: "kept_whole seen old" "kept_whole now held"
  shows "\<exists>job s. load_capture_job i clock seen now = Inr (job, s) \<and> terminal job \<and> jb_id job = i"
proof -
  obtain d where d: "dget (jr_jobs seen) i = Some d" "job_id_ok i" "jb_id old = i" "holds_job c old d" "dir_ok d"
    by (rule read_capture_job_Inr [OF assms(1,5)])
  obtain e where e: "dget (jr_jobs now) i = Some e" "job_id_ok i" "jb_id held = i" "holds_job c held e" "dir_ok e"
    by (rule read_capture_job_Inr [OF assms(2,6)])
  obtain old' where old': "refresh_output_sizes seen old = Inr old'" using refresh_kept_whole [OF d(1,3-5) whole(1)] by blast
  obtain held' where held': "refresh_output_sizes now held = Inr held'" using refresh_kept_whole [OF e(1,3-5) whole(2)] by blast
  have ok: "job_ok old" "job_ok held" "jb_started_at_ns held \<le> c" using d(4) e(4) by (simp_all add: holds_job_def)
  note r = refresh_ok [OF ok(1) old'] refresh_ok [OF ok(2) held']
  have fits: "jb_artifacts held' = jb_artifacts held" by (rule refresh_artifacts [OF held'])
  have grace: "\<not> within_startup_grace (ck_first clock) old'" "\<not> within_startup_grace (ck_second clock) held'"
    using assms(8,9) r by (simp_all add: within_startup_grace_def same_job_def)
  have timely: "timely (ck_update clock) held'" using r(2) ok(3) assms(3,4) by (simp add: timely_def same_job_def)
  have lost: "job_ok (lost (ck_update clock) held')" by (rule lost_ok) (use r(2) timely in simp_all)
  have id: "jb_id (lost (ck_update clock) held') = i" "jb_artifacts (lost (ck_update clock) held') = jb_artifacts held"
    using r(2) e(3) by (simp_all add: lost_def Let_def same_job_def fits)
  have size: "json_size (stored_value (lost (ck_update clock) held')) \<le> max_job_state_bytes"
    by (rule stored_value_fits [OF lost]) (use id d(2) assms(10) in \<open>simp_all add: job_id_ok_def\<close>)
  have "\<exists>s. write_capture_job now (lost (ck_update clock) held') = Inr s"
    using size e(1,2) id(1) by (simp add: write_capture_job_def validate_job_id_def)
  then obtain s where s: "write_capture_job now (lost (ck_update clock) held') = Inr s" ..
  have t: "terminal (lost (ck_update clock) held')" by (simp add: terminal_def terminal_state_def lost_def Let_def)
  show ?thesis
    using assms(5-7) old' held' grace s t id(1) d(2,3) e(3) r
    by (auto simp: load_capture_job_def validate_job_id_def same_job_def)
qed

text \<open>C19. Waiting for a job whose worker is gone ends: whatever the earlier looks saw, the first look at which the
  lock is free and the startup grace is over returns a job in a terminal state. The output files of a job that has
  ended are still all there at that look; those of a job that has not ended always are.\<close>

theorem dead_worker_ends_wait:
  assumes "wait_loop i deadline ps s = None"
    and "seen = pl_before p (waited i ps s)" "now = pl_between p seen" "store_ok c seen" "store_ok c now"
    and "c \<le> ck_update (pl_clock p)" "ck_update (pl_clock p) \<le> max_int64"
    and "read_capture_job seen i = Inr old" "read_capture_job now i = Inr held" "try_acquire_lock now i = Inr True"
    and "\<not> within_startup_grace (ck_first (pl_clock p)) old" "\<not> within_startup_grace (ck_second (pl_clock p)) held"
    and "artifacts_fit (jb_artifacts held)" "kept_whole seen old" "kept_whole now held"
  shows "\<exists>job s'. wait_loop i deadline (ps @ p # qs) s = Some (Inr job, s') \<and> terminal job \<and> jb_id job = i"
proof -
  obtain job s' where "load_capture_job i (pl_clock p) seen now = Inr (job, s')" "terminal job" "jb_id job = i"
    using load_dead_worker [OF assms(4-15)] by blast
  then show ?thesis unfolding wait_loop_goes_on [OF assms(1)] using assms(2,3) by (auto simp: poll_load_def Let_def)
qed

definition late_poll :: poll where
  "late_poll = \<lparr>pl_before = id, pl_between = id, pl_clock = \<lparr>ck_first = 6000000000, ck_second = 6000000000, ck_update = 6000000000\<rparr>,
     pl_monotonic = Fin 2\<rparr>"

theorem dead_worker_ends_wait_witness:
  "\<exists>job s'. wait_loop sample_id None ([] @ late_poll # []) sample_root = Some (Inr job, s') \<and> terminal job \<and> jb_id job = sample_id"
proof (rule dead_worker_ends_wait [OF _ refl refl, where c = 8 and old = sample_job and held = sample_job])
  show "try_acquire_lock (pl_between late_poll (pl_before late_poll (waited sample_id [] sample_root))) sample_id = Inr True"
    by (simp add: late_poll_def) code_simp
qed (simp_all add: late_poll_def sample_store sample_read max_int64_def sample_job_def new_job_def within_startup_grace_def job_startup_grace_ns_def artifacts_fit_def
    kept_whole_def terminal_def terminal_state_def)

text \<open>A wait with a deadline ends: it has returned at the latest when the monotonic clock of a look has
  reached the deadline, whatever the other processes do.\<close>

theorem deadline_ends_wait: "fle deadline (pl_monotonic p) \<Longrightarrow> wait_loop i (Some deadline) (ps @ p # qs) s \<noteq> None"
  by (induction ps arbitrary: s) (auto simp: deadline_passed_def split: prod.splits sum.splits)

section \<open>Retention\<close>

text \<open>C20. Pruning removes finished jobs only: an active or unreadable job stays, at most a hundred finished jobs stay and
  none of them is older than seven days, and a finished job that is removed before it is that old is no newer than
  any that stays.\<close>

theorem prune_keeps_active_and_newest:
  assumes "prune_capture_jobs now s = Inr s'"
  shows "(ended_at s i = None \<longrightarrow> dget (jr_jobs s') i = dget (jr_jobs s) i) \<and>
    card {k. ended_at s' k \<noteq> None} \<le> max_retained_jobs \<and>
    (ended_at s' k = Some t \<longrightarrow> ended_at s k = Some t \<and> now - job_retention_ns \<le> t) \<and>
    (ended_at s' k = Some t \<and> ended_at s i = Some u \<and> dget (jr_jobs s') i = None \<and> now - job_retention_ns \<le> u \<longrightarrow> u \<le> t)"
proof -
  obtain ended where ended: "set ended = {(t, i). ended_at s i = Some t}"
    and s': "\<And>i. dget (jr_jobs s') i = (if i \<in> set (expired_jobs now ended) then None else dget (jr_jobs s) i)"
    by (rule prune_Inr [OF assms]) blast
  note pruned = ended_at_pruned [OF s']
  let ?newest = "rev (sort ended)"
  have split: "set ended = set (take max_retained_jobs ?newest) \<union> set (drop max_retained_jobs ?newest)"
    by (metis append_take_drop_id set_append set_rev set_sort)
  have kept: "(t, k) \<in> set (take max_retained_jobs ?newest) \<and> now - job_retention_ns \<le> t" if "ended_at s' k = Some t" for k t
  proof -
    have k: "(t, k) \<in> set ended" "k \<notin> set (expired_jobs now ended)" using that pruned [of k] ended by (auto split: if_splits)
    then have "(t, k) \<notin> set (drop max_retained_jobs ?newest)" by (force simp: expired_jobs_def Let_def)
    then have "(t, k) \<in> set (take max_retained_jobs ?newest)" using k(1) split by blast
    then show ?thesis using k(2) by (force simp: expired_jobs_def Let_def)
  qed
  have sub: "{k. ended_at s' k \<noteq> None} \<subseteq> snd ` set (take max_retained_jobs ?newest)" using kept by force
  have card: "card {k. ended_at s' k \<noteq> None} \<le> max_retained_jobs"
  proof -
    have "card {k. ended_at s' k \<noteq> None} \<le> card (snd ` set (take max_retained_jobs ?newest))" by (rule card_mono) (use sub in simp_all)
    also have "\<dots> \<le> length (take max_retained_jobs ?newest)" using card_image_le card_length le_trans by blast
    also have "\<dots> \<le> max_retained_jobs" by simp
    finally show ?thesis .
  qed
  have older: "u \<le> t" if "ended_at s' k = Some t" "ended_at s i = Some u" "dget (jr_jobs s') i = None" "now - job_retention_ns \<le> u" for k i t u
  proof -
    have "dget (jr_jobs s) i \<noteq> None" using that(2) by (auto simp: ended_at_def read_capture_job_eq job_error_def split: if_splits option.splits)
    then have "i \<in> set (expired_jobs now ended)" using s' [of i] that(3) by (simp split: if_splits)
    then have "\<exists>v. (v, i) \<in> set (drop max_retained_jobs ?newest) \<or>
        (v, i) \<in> set (take max_retained_jobs ?newest) \<and> v < now - job_retention_ns"
      unfolding expired_jobs_def Let_def by force
    then obtain v where v: "(v, i) \<in> set (drop max_retained_jobs ?newest) \<or>
        (v, i) \<in> set (take max_retained_jobs ?newest) \<and> v < now - job_retention_ns" ..
    then have "(v, i) \<in> set ended" using split by blast
    then have "v = u" using that(2) by (simp add: ended)
    then have "(u, i) \<in> set (drop max_retained_jobs ?newest)" using v that(4) by auto
    moreover have "(t, k) \<in> set (take max_retained_jobs ?newest)" using kept [OF that(1)] ..
    moreover have "sorted_wrt (\<lambda>x y. y \<le> x) (take max_retained_jobs ?newest @ drop max_retained_jobs ?newest)"
      by (simp add: sorted_wrt_rev)
    ultimately have "(u, i) \<le> (t, k)" unfolding sorted_wrt_append by blast
    then show ?thesis by (auto simp: less_eq_prod_def)
  qed
  have kept_end: "ended_at s k = Some t" if "ended_at s' k = Some t" using that pruned [of k] by (simp split: if_splits)
  have active: "dget (jr_jobs s') i = dget (jr_jobs s) i" if "ended_at s i = None"
    using expired_subset [of i now ended] ended s' [of i] that by auto
  show ?thesis using active card kept_end kept older by blast
qed

theorem prune_keeps_active_and_newest_witness:
  "\<exists>s'. prune_capture_jobs 9 sample_root = Inr s' \<and> (ended_at sample_root sample_id = None \<longrightarrow>
    dget (jr_jobs s') sample_id = dget (jr_jobs sample_root) sample_id) \<and> card {k. ended_at s' k \<noteq> None} \<le> max_retained_jobs"
proof -
  have "(case prune_capture_jobs 9 sample_root of Inr s' \<Rightarrow> True | _ \<Rightarrow> False)" by code_simp
  then obtain s' where s': "prune_capture_jobs 9 sample_root = Inr s'" by (auto split: sum.splits)
  with prune_keeps_active_and_newest [OF s', of sample_id] show ?thesis by blast
qed

text \<open>A directory without a state file is never removed by pruning.\<close>

lemma unfinished_creation_kept:
  assumes "prune_capture_jobs now s = Inr s'" "dget (jr_jobs s) i = Some d" "jd_state d = NoState"
  shows "dget (jr_jobs s') i = Some d"
proof -
  obtain ended where ended: "set ended = {(t, i). ended_at s i = Some t}"
    and s': "\<And>i. dget (jr_jobs s') i = (if i \<in> set (expired_jobs now ended) then None else dget (jr_jobs s) i)"
    by (rule prune_Inr [OF assms(1)]) blast
  have "ended_at s i = None" using assms(2,3) by (simp add: ended_at_def read_capture_job_eq job_error_def)
  then have "i \<notin> set (expired_jobs now ended)" using expired_subset ended by fastforce
  then show ?thesis using s' assms(2) by simp
qed

section \<open>A clock that steps back\<close>

text \<open>When the wall clock has gone back behind the start of a job, recording its end succeeds but leaves a
  state file that cannot be read any more, and that no pruning ever removes.\<close>

theorem clock_step_back_loses_job:
  assumes "read_capture_job s i = Inr job" "0 \<le> t" "t < jb_started_at_ns job" "0 \<le> status" "status \<le> 255"
    "update_capture_job s i (\<lambda>job. Inr (finished status failed t job)) = Inr (job', s')"
  shows "read_capture_job s' i = job_error ''capture job update precedes its start'' \<and>
    (\<forall>now s''. prune_capture_jobs now s' = Inr s'' \<longrightarrow> dget (jr_jobs s'') i = dget (jr_jobs s') i)"
proof -
  have job: "jb_id job = i" "job_id_ok i" "job_ok job" using read_capture_job_Inr_ok [OF assms(1)] by simp_all
  have job': "job' = finished status failed t job" and w: "write_capture_job s job' = Inr s'"
    using assms(1,6) by (auto simp: update_capture_job_def rbind_eq_Inr_iff)
  have i: "jb_id job' = i" by (simp add: job' finished_def job(1))
  obtain d where "s' = set_dir (jb_id job') (d\<lparr>jd_state := Stored (stored_value job')\<rparr>) s" by (rule write_capture_job_Inr [OF w])
  then have d: "dget (jr_jobs s') i = Some (d\<lparr>jd_state := Stored (stored_value job')\<rparr>)" by (simp add: i set_dir_def)
  have "capture_job_from_value (stored_value job') (jb_id job') = job_error ''capture job update precedes its start''"
    unfolding job' by (rule update_before_start_rejected) (use job(3) assms(2,3) in \<open>simp_all add: job_ok_def finished_def\<close>)
  then have read: "read_capture_job s' i = job_error ''capture job update precedes its start''"
    using d i job(2) by (simp add: read_capture_job_eq)
  then have "ended_at s' i = None" by (simp add: ended_at_def job_error_def)
  then have "dget (jr_jobs s'') i = dget (jr_jobs s') i" if "prune_capture_jobs now s' = Inr s''" for now s''
    using that by (elim prune_Inr) (use expired_subset in force)
  with read show ?thesis by blast
qed

theorem clock_step_back_loses_job_witness:
  "\<exists>job' s'. update_capture_job sample_root sample_id (\<lambda>job. Inr (finished 0 False 6 job)) = Inr (job', s') \<and>
    read_capture_job s' sample_id = job_error ''capture job update precedes its start''"
proof -
  have "(case update_capture_job sample_root sample_id (\<lambda>job. Inr (finished 0 False 6 job)) of Inr _ \<Rightarrow> True | _ \<Rightarrow> False)" by code_simp
  then obtain job' s' where u: "update_capture_job sample_root sample_id (\<lambda>job. Inr (finished 0 False 6 job)) = Inr (job', s')"
    by (auto split: sum.splits)
  have "6 < jb_started_at_ns sample_job" by (simp add: sample_job_def new_job_def)
  with clock_step_back_loses_job [OF sample_read _ _ _ _ u] u show ?thesis by auto
qed

end
