(* ===== verification/JsonLoading.thy ===== *)
theory JsonLoading
  imports Utf8 PyJson ProfileSummary
begin

text \<open>
  The two readers of \<open>json_support.py\<close> that the providers share: a bounded JSON document and an RFC 3339
  timestamp. The bytes of a file are \<open>None\<close> when it cannot be read; the path and the position in the
  messages are left out, and so is the depth at which the interpreter's scanner gives up (its \<open>RecursionError\<close>
  would be a \<open>JsonInputError\<close> here). Timestamps are those of Python 3.12 and 3.13: \<open>datetime.fromisoformat\<close> refuses the
  hour 24, which Python 3.14 accepts as the midnight that ends the day.
\<close>

section \<open>Documents\<close>

definition input_error :: "string \<Rightarrow> 'a res" where
  "input_error message = Inl (JsonInputError (lit message))"

definition load_bounded_json :: "string \<Rightarrow> string \<Rightarrow> nat \<Rightarrow> nat list option \<Rightarrow> json res" where
  "load_bounded_json label syntax_label max_bytes source =
     (case source of None \<Rightarrow> input_error (''could not read '' @ label)
      | Some raw \<Rightarrow>
        if max_bytes < length raw then input_error (label @ '' exceeds the input limit'')
        else (case utf8_decode raw of None \<Rightarrow> input_error (label @ '' must be UTF-8'')
        | Some s \<Rightarrow> (case json_loads reject_nonfinite_constant s of
            Inr v \<Rightarrow> Inr (json_of_obj v)
          | Inl JSONDecodeError \<Rightarrow> input_error (''invalid '' @ syntax_label @ '' JSON'')
          | Inl (ValueError m) \<Rightarrow> Inl (JsonInputError (cat [lit (''invalid '' @ syntax_label @ '' JSON: ''), m]))
          | Inl e \<Rightarrow> Inl e)))"

section \<open>The calendar\<close>

definition leap_year :: "int \<Rightarrow> bool" where
  "leap_year y \<longleftrightarrow> 4 dvd y \<and> (\<not> 100 dvd y \<or> 400 dvd y)"

definition month_lengths :: "int \<Rightarrow> int list" where
  "month_lengths y = [31, if leap_year y then 29 else 28, 31, 30, 31, 30, 31, 31, 30, 31, 30, 31]"

definition days_in_month :: "int \<Rightarrow> nat \<Rightarrow> int" where
  "days_in_month y m = month_lengths y ! (m - 1)"

definition days_before_month :: "int \<Rightarrow> nat \<Rightarrow> int" where
  "days_before_month y m = sum_list (take (m - 1) (month_lengths y))"

definition days_before_year :: "int \<Rightarrow> int" where
  "days_before_year y = (y - 1) * 365 + (y - 1) div 4 - (y - 1) div 100 + (y - 1) div 400"

text \<open>\<open>date.toordinal()\<close>, the first of January of the year 1 being the day 1.\<close>

definition ordinal :: "int \<Rightarrow> nat \<Rightarrow> int \<Rightarrow> int" where
  "ordinal y m d = days_before_year y + days_before_month y m + d"

definition epoch_ordinal :: int where
  "epoch_ordinal = 719163"

definition seconds_per_day :: int where
  "seconds_per_day = 86400"

text \<open>A point in time of a naive \<open>datetime\<close>, in seconds since the start of the year 1.\<close>

definition local_seconds :: "int \<Rightarrow> nat \<Rightarrow> int \<Rightarrow> int \<Rightarrow> int \<Rightarrow> int \<Rightarrow> int" where
  "local_seconds y m d h mi s = (ordinal y m d - 1) * seconds_per_day + h * 3600 + mi * 60 + s"

definition max_datetime_seconds :: int where
  "max_datetime_seconds = 3652059 * 86400"

section \<open>RFC 3339 timestamps\<close>

text \<open>
  \<open>digit\<close> is the value of the decimal digits of Unicode, which \<open>\d\<close> and \<open>int()\<close> accept; a pattern is given
  by its characters, \<open>d\<close> standing for a digit.
\<close>

definition shaped :: "(nat \<Rightarrow> nat option) \<Rightarrow> string \<Rightarrow> pystr \<Rightarrow> bool" where
  "shaped digit pattern s \<longleftrightarrow> list_all2 (\<lambda>p c. if p = 100 then digit c \<noteq> None else c = p) (lit pattern) s"

definition date_time_pattern :: string where
  "date_time_pattern = ''dddd-dd-ddTdd:dd:dd''"

definition zone_ok :: "(nat \<Rightarrow> nat option) \<Rightarrow> pystr \<Rightarrow> bool" where
  "zone_ok digit z \<longleftrightarrow> z = lit ''Z'' \<or> shaped digit ''+dd:dd'' z \<or> shaped digit ''-dd:dd'' z"

text \<open>The fraction without its point, and what follows it.\<close>

definition split_fraction :: "(nat \<Rightarrow> nat option) \<Rightarrow> pystr \<Rightarrow> (pystr \<times> pystr) option" where
  "split_fraction digit s = (case s of
     c # r \<Rightarrow> if c \<noteq> 46 then Some ([], s)
       else let f = takeWhile (\<lambda>c. digit c \<noteq> None) r in
         if 1 \<le> length f \<and> length f \<le> 9 then Some (f, drop (length f) r) else None
   | [] \<Rightarrow> Some ([], []))"

datatype timestamp_match = NoMatch | WithoutZone | Matched pystr pystr pystr

definition match_timestamp :: "(nat \<Rightarrow> nat option) \<Rightarrow> pystr \<Rightarrow> timestamp_match" where
  "match_timestamp digit s =
     (if \<not> shaped digit date_time_pattern (take 19 s) then NoMatch
      else case split_fraction digit (drop 19 s) of None \<Rightarrow> NoMatch
      | Some (f, z) \<Rightarrow> if z = [] then WithoutZone else if zone_ok digit z then Matched (take 19 s) f z else NoMatch)"

definition number_at :: "pystr \<Rightarrow> nat \<Rightarrow> nat \<Rightarrow> int" where
  "number_at s i n = digits_value (take n (drop i s))"

text \<open>\<open>datetime.fromisoformat\<close> on text of this shape; it takes ASCII digits only and, up to Python 3.13, hours below 24.\<close>

definition zone_offset :: "pystr \<Rightarrow> int" where
  "zone_offset z = (if z = lit ''Z'' then 0
     else (if hd z = 45 then -1 else 1) * (number_at z 1 2 * 3600 + number_at z 4 2 * 60))"

definition from_isoformat :: "pystr \<Rightarrow> pystr \<Rightarrow> (int \<times> int) option" where
  "from_isoformat whole zone =
     (let y = number_at whole 0 4; m = nat (number_at whole 5 2); d = number_at whole 8 2;
          h = number_at whole 11 2; mi = number_at whole 14 2; s = number_at whole 17 2; offset = zone_offset zone
      in if list_all (\<lambda>c. c < 128) (whole @ zone) \<and> 1 \<le> y \<and> 1 \<le> m \<and> m \<le> 12 \<and> 1 \<le> d \<and> d \<le> days_in_month y m \<and>
           h < 24 \<and> mi < 60 \<and> s < 60 \<and> \<bar>offset\<bar> < seconds_per_day
         then Some (local_seconds y m d h mi s, offset) else None)"

text \<open>\<open>astimezone(UTC)\<close> leaves the range of \<open>datetime\<close> near its ends.\<close>

definition utc_seconds :: "int \<times> int \<Rightarrow> int res" where
  "utc_seconds p = (let t = fst p - snd p in
     if 0 \<le> t \<and> t < max_datetime_seconds then Inr (t - (epoch_ordinal - 1) * seconds_per_day) else Inl OverflowError)"

fun fraction_value :: "(nat \<Rightarrow> nat option) \<Rightarrow> pystr \<Rightarrow> nat \<Rightarrow> int" where
  "fraction_value digit [] n = 0"
| "fraction_value digit (c # s) n = int (the (digit c)) * 10 ^ (n - 1) + fraction_value digit s (n - 1)"

definition value_error :: "pystr list \<Rightarrow> 'a res" where
  "value_error parts = Inl (ValueError (cat parts))"

definition parse_rfc3339_nanoseconds :: "(nat \<Rightarrow> nat option) \<Rightarrow> string \<Rightarrow> bool \<Rightarrow> json \<Rightarrow> int option res" where
  "parse_rfc3339_nanoseconds digit label is_optional v =
     (if is_optional \<and> (v = JNull \<or> v = JStr []) then Inr None
      else case v of
        JStr s \<Rightarrow> (case match_timestamp digit s of
          NoMatch \<Rightarrow> value_error [lit ''invalid '', lit label, lit '': '', s]
        | WithoutZone \<Rightarrow> value_error [lit label, lit '' requires a timezone: '', s]
        | Matched whole fraction zone \<Rightarrow> (case from_isoformat whole zone of
            None \<Rightarrow> value_error [lit ''invalid '', lit label, lit '': '', s]
          | Some p \<Rightarrow> rbind (utc_seconds p) (\<lambda>seconds.
              let t = seconds * 1000000000 + fraction_value digit fraction 9 in
              if - (2 ^ 63) \<le> t \<and> t \<le> max_int64 then Inr (Some t)
              else value_error [lit label, lit '' exceeds runpack range: '', s])))
      | _ \<Rightarrow> value_error [lit label, lit '' must be an RFC 3339 string''])"

section \<open>Laws\<close>

definition ascii_digit :: "nat \<Rightarrow> nat option" where
  "ascii_digit c = (if is_digit c then Some (c - 48) else None)"

end
