(* ===== verification/Enrichment.thy ===== *)
theory Enrichment
  imports StorageQueries StorageTables
begin

text \<open>
  \<open>providers/enrichment.py\<close>: an operation of a provider runs on a copy of a runpack, which replaces nothing
  and is published only when the operation returns. The staging directory, the descriptors and the checks
  against files that are replaced in between are left out; what the destination looks like is an argument.
\<close>

definition enrichment_error :: "string \<Rightarrow> 'a res" where
  "enrichment_error message = Inl (EnrichmentError (lit message))"

record destination =
  ds_exists :: bool
  ds_has_directory :: bool

definition validate_enrichment_destination :: "destination \<Rightarrow> unit res" where
  "validate_enrichment_destination output =
     (if ds_exists output then enrichment_error ''refusing to overwrite existing runpack''
      else if \<not> ds_has_directory output then enrichment_error ''output directory does not exist'' else Inr ())"

definition snapshot_conn :: "pystr \<Rightarrow> db \<Rightarrow> conn" where
  "snapshot_conn temporary source = \<lparr>conn_path = temporary, conn_committed = source, conn_working = source\<rparr>"

text \<open>The value of the operation and the tables that are published.\<close>

definition enrich_copy :: "destination \<Rightarrow> pystr \<Rightarrow> db \<Rightarrow> 'a stmt \<Rightarrow> ('a \<times> db) res" where
  "enrich_copy output temporary source operation =
     rbind (validate_enrichment_destination output) (\<lambda>_.
     case operation (snapshot_conn temporary source) of
       (c, Inl e) \<Rightarrow> Inl e
     | (c, Inr x) \<Rightarrow> Inr (x, conn_committed c))"

text \<open>\<open>with RunpackReader(writer.path) as reader\<close>: another connection sees what was committed.\<close>

definition sread :: "(reader \<Rightarrow> 'a res) \<Rightarrow> 'a stmt" where
  "sread f c = (c, f \<lparr>rd_db = conn_committed c, rd_has_attachments = True\<rparr>)"

text \<open>The bounds of the execution are expanded to the times of the added events.\<close>

definition event_timestamps :: "event list \<Rightarrow> int list" where
  "event_timestamps vs = concat (map (\<lambda>v. (case ev_started_at_ns v of None \<Rightarrow> [] | Some t \<Rightarrow> [t]) @
     (case ev_finished_at_ns v of None \<Rightarrow> [] | Some t \<Rightarrow> [t])) vs)"

definition expand_to :: "int list \<Rightarrow> unit stmt" where
  "expand_to ts = (if ts = [] then sreturn () else expand_execution_bounds (Min (set ts)) (Some (Max (set ts))))"

lemma enrich_copy_Inr:
  assumes "enrich_copy output temporary source operation = Inr (x, d)"
  obtains c where "operation (snapshot_conn temporary source) = (c, Inr x)" "d = conn_committed c" "\<not> ds_exists output"
proof -
  obtain c r where c: "operation (snapshot_conn temporary source) = (c, r)" by fastforce
  then show thesis
    using assms that [of c] by (auto simp: enrich_copy_def validate_enrichment_destination_def enrichment_error_def
        rbind_eq_Inr_iff split: if_splits sum.splits)
qed

lemma sread_returns: "sread f c = (c', Inr x) \<longleftrightarrow> c' = c \<and> f \<lparr>rd_db = conn_committed c, rd_has_attachments = True\<rparr> = Inr x"
  by (auto simp: sread_def)

end
