(* ===== verification/TemporalHistory.thy ===== *)
theory TemporalHistory
  imports JsonLoading Enrichment
begin

text \<open>
  \<open>providers/builtins/temporal/enrichment.py\<close>: the history of a Temporal workflow is checked as a sequence of
  lifecycle events, its activities are put together, and events and causal edges for the workflow, the queues
  and the executions are added to a runpack. \<open>digit\<close> is the table of Unicode's decimal digits.
\<close>

definition temporal_error :: "pystr list \<Rightarrow> 'a res" where
  "temporal_error parts = Inl (TemporalHistoryImportError (cat parts))"

definition temporal_unless :: "bool \<Rightarrow> pystr list \<Rightarrow> unit res" where
  "temporal_unless ok parts = raise_if (\<not> ok) (TemporalHistoryImportError (cat parts))"

section \<open>Records\<close>

record history_event =
  he_id :: int
  he_timestamp_ns :: int
  he_type :: pystr
  he_attributes :: attrs

record activity =
  ac_activity_id :: pystr
  ac_activity_type :: pystr
  ac_scheduled :: history_event
  ac_started :: "history_event option"
  ac_terminal :: "history_event option"
  ac_attempt :: "int option"
  ac_outcome :: "pystr option"

record history =
  hi_workflow_id :: "pystr option"
  hi_workflow_type :: pystr
  hi_started :: history_event
  hi_terminal :: "history_event option"
  hi_outcome :: "pystr option"
  hi_activities :: "activity list"

record temporal_result =
  ti_activity_count :: nat
  ti_queue_wait_count :: nat
  ti_fallback_execution_count :: nat
  ti_event_count :: nat
  ti_edge_count :: nat
  ti_correlation_count :: nat

definition workflow_started :: pystr where
  "workflow_started = lit ''EVENT_TYPE_WORKFLOW_EXECUTION_STARTED''"

definition activity_scheduled :: pystr where
  "activity_scheduled = lit ''EVENT_TYPE_ACTIVITY_TASK_SCHEDULED''"

definition activity_started :: pystr where
  "activity_started = lit ''EVENT_TYPE_ACTIVITY_TASK_STARTED''"

definition activity_terminals :: "(pystr, string \<times> pystr) dict" where
  "activity_terminals =
     [(lit ''EVENT_TYPE_ACTIVITY_TASK_COMPLETED'', ''activityTaskCompletedEventAttributes'', lit ''completed''),
      (lit ''EVENT_TYPE_ACTIVITY_TASK_FAILED'', ''activityTaskFailedEventAttributes'', lit ''failed''),
      (lit ''EVENT_TYPE_ACTIVITY_TASK_TIMED_OUT'', ''activityTaskTimedOutEventAttributes'', lit ''timed_out''),
      (lit ''EVENT_TYPE_ACTIVITY_TASK_CANCELED'', ''activityTaskCanceledEventAttributes'', lit ''canceled'')]"

definition workflow_terminals :: "(pystr, pystr) dict" where
  "workflow_terminals =
     [(lit ''EVENT_TYPE_WORKFLOW_EXECUTION_COMPLETED'', lit ''completed''),
      (lit ''EVENT_TYPE_WORKFLOW_EXECUTION_FAILED'', lit ''failed''),
      (lit ''EVENT_TYPE_WORKFLOW_EXECUTION_TIMED_OUT'', lit ''timed_out''),
      (lit ''EVENT_TYPE_WORKFLOW_EXECUTION_CANCELED'', lit ''canceled''),
      (lit ''EVENT_TYPE_WORKFLOW_EXECUTION_TERMINATED'', lit ''terminated''),
      (lit ''EVENT_TYPE_WORKFLOW_EXECUTION_CONTINUED_AS_NEW'', lit ''continued_as_new'')]"

definition max_temporal_history_bytes :: nat where
  "max_temporal_history_bytes = 64 * 1024 * 1024"

definition max_temporal_history_events :: nat where
  "max_temporal_history_events = 200000"

section \<open>Values\<close>

definition temporal_object :: "json \<Rightarrow> pystr \<Rightarrow> attrs res" where
  "temporal_object j label = (case j of JObj d \<Rightarrow> Inr d | _ \<Rightarrow> temporal_error [label, lit '' must be an object''])"

definition temporal_list :: "json \<Rightarrow> pystr \<Rightarrow> json list res" where
  "temporal_list j label = (case j of JList vs \<Rightarrow> Inr vs | _ \<Rightarrow> temporal_error [label, lit '' must be a list''])"

definition temporal_string :: "json \<Rightarrow> pystr \<Rightarrow> pystr res" where
  "temporal_string j label = (case j of
     JStr s \<Rightarrow> if s = [] then temporal_error [label, lit '' must be a non-empty string'']
       else if \<not> utf8_ok s then temporal_error [label, lit '' must be valid UTF-8''] else Inr s
   | _ \<Rightarrow> temporal_error [label, lit '' must be a non-empty string''])"

definition temporal_optional_string :: "json \<Rightarrow> pystr \<Rightarrow> pystr option res" where
  "temporal_optional_string j label = (case j of
     JNull \<Rightarrow> Inr None
   | JStr s \<Rightarrow> if s = [] then temporal_error [label, lit '' must be a string'']
       else if \<not> utf8_ok s then temporal_error [label, lit '' must be valid UTF-8''] else Inr (Some s)
   | _ \<Rightarrow> temporal_error [label, lit '' must be a string''])"

text \<open>\<open>int()\<close> refuses more than 4300 digits with a \<open>ValueError\<close> of its own.\<close>

definition ascii_integer :: "pystr \<Rightarrow> int res" where
  "ascii_integer s = (if 4300 < length s then Inl (ValueError (lit ''int string conversion limit'')) else Inr (digits_value s))"

definition positive_integer :: "json \<Rightarrow> pystr \<Rightarrow> int res" where
  "positive_integer j label =
     rbind (case j of
         JStr s \<Rightarrow> if s \<noteq> [] \<and> list_all is_digit s then ascii_integer s else temporal_error [label, lit '' must be a positive integer'']
       | JInt n \<Rightarrow> Inr n
       | _ \<Rightarrow> temporal_error [label, lit '' must be a positive integer'']) (\<lambda>n.
     rbind (temporal_unless (0 < n) [label, lit '' must be a positive integer'']) (\<lambda>_.
     rbind (temporal_unless (n \<le> max_int64) [label, lit '' exceeds the runpack integer range'']) (\<lambda>_. Inr n)))"

definition optional_event_reference :: "json \<Rightarrow> pystr \<Rightarrow> int option res" where
  "optional_event_reference j label =
     (if j = JNull \<or> equals_int 0 j \<or> j = JStr (lit ''0'') then Inr None
      else rbind (positive_integer j label) (\<lambda>n. Inr (Some n)))"

definition temporal_timestamp :: "(nat \<Rightarrow> nat option) \<Rightarrow> json \<Rightarrow> int res" where
  "temporal_timestamp digit j =
     (case parse_rfc3339_nanoseconds digit ''Temporal eventTime'' False j of
        Inl (ValueError m) \<Rightarrow> temporal_error [m]
      | Inl e \<Rightarrow> Inl e
      | Inr v \<Rightarrow> assert_some v)"

section \<open>The events of a history\<close>

definition load_history :: "nat list option \<Rightarrow> attrs list res" where
  "load_history source =
     rbind (case load_bounded_json ''Temporal history'' ''Temporal history'' max_temporal_history_bytes source of
         Inl (JsonInputError m) \<Rightarrow> temporal_error [m] | r \<Rightarrow> r) (\<lambda>document.
     rbind (temporal_object document (lit ''Temporal history'')) (\<lambda>d.
     rbind (temporal_list (jget d ''events'') (lit ''Temporal events'')) (\<lambda>events.
     rbind (temporal_unless (length events \<le> max_temporal_history_events)
       [lit ''Temporal history exceeds the 200000-event input limit'']) (\<lambda>_.
     traverse (\<lambda>e. temporal_object e (lit ''Temporal event'')) events))))"

definition attribute_key :: "pystr \<Rightarrow> string option" where
  "attribute_key kind =
     (if kind = workflow_started then Some ''workflowExecutionStartedEventAttributes''
      else if kind = activity_scheduled then Some ''activityTaskScheduledEventAttributes''
      else if kind = activity_started then Some ''activityTaskStartedEventAttributes''
      else map_option fst (dget activity_terminals kind))"

definition event_attributes :: "attrs \<Rightarrow> string \<Rightarrow> int \<Rightarrow> attrs res" where
  "event_attributes event key i =
     temporal_object (jget_or event key (JObj [])) (cat [lit ''Temporal event '', int_text i, lit '' '', lit key])"

definition read_history_event :: "(nat \<Rightarrow> nat option) \<Rightarrow> int \<Rightarrow> int option \<Rightarrow> attrs \<Rightarrow> history_event res" where
  "read_history_event digit previous_id previous_timestamp event =
     rbind (positive_integer (jget event ''eventId'') (lit ''Temporal eventId'')) (\<lambda>i.
     rbind (temporal_unless (previous_id < i) [lit ''Temporal eventId values must be strictly increasing'']) (\<lambda>_.
     rbind (temporal_timestamp digit (jget event ''eventTime'')) (\<lambda>timestamp.
     rbind (temporal_unless (case previous_timestamp of None \<Rightarrow> True | Some t \<Rightarrow> t \<le> timestamp)
       [lit ''Temporal eventTime values must be non-decreasing'']) (\<lambda>_.
     rbind (temporal_string (jget event ''eventType'') (cat [lit ''Temporal event '', int_text i, lit '' eventType''])) (\<lambda>kind.
     rbind (case attribute_key kind of None \<Rightarrow> Inr [] | Some key \<Rightarrow> event_attributes event key i) (\<lambda>attributes.
     Inr \<lparr>he_id = i, he_timestamp_ns = timestamp, he_type = kind, he_attributes = attributes\<rparr>))))))"

fun read_history_events :: "(nat \<Rightarrow> nat option) \<Rightarrow> int \<Rightarrow> int option \<Rightarrow> attrs list \<Rightarrow> history_event list res" where
  "read_history_events digit previous_id previous_timestamp [] = Inr []"
| "read_history_events digit previous_id previous_timestamp (e # es) =
     rbind (read_history_event digit previous_id previous_timestamp e) (\<lambda>event.
     rbind (read_history_events digit (he_id event) (Some (he_timestamp_ns event)) es) (\<lambda>events. Inr (event # events)))"

definition normalize_events :: "(nat \<Rightarrow> nat option) \<Rightarrow> attrs list \<Rightarrow> history_event list res" where
  "normalize_events digit raw =
     rbind (temporal_unless (raw \<noteq> []) [lit ''Temporal history must contain at least one event'']) (\<lambda>_.
     read_history_events digit 0 None raw)"

section \<open>The activities of a history\<close>

record lifecycles =
  lc_scheduled :: "(int, pystr \<times> pystr \<times> history_event) dict"
  lc_started :: "(int, history_event \<times> int) dict"
  lc_terminals :: "(int, history_event \<times> pystr) dict"

definition no_lifecycles :: lifecycles where
  "no_lifecycles = \<lparr>lc_scheduled = [], lc_started = [], lc_terminals = []\<rparr>"

definition event_label :: "string \<Rightarrow> history_event \<Rightarrow> string \<Rightarrow> pystr" where
  "event_label what e field = cat [lit (''Temporal activity '' @ what @ '' event ''), int_text (he_id e), lit ('' '' @ field)]"

definition schedule_activity :: "history_event \<Rightarrow> lifecycles \<Rightarrow> lifecycles res" where
  "schedule_activity e l =
     rbind (temporal_string (jget (he_attributes e) ''activityId'') (event_label ''scheduled'' e ''activityId'')) (\<lambda>activity_id.
     rbind (temporal_object (jget (he_attributes e) ''activityType'') (event_label ''scheduled'' e ''activityType'')) (\<lambda>type_object.
     rbind (temporal_string (jget type_object ''name'') (event_label ''scheduled'' e ''activityType.name'')) (\<lambda>activity_type.
     Inr (l\<lparr>lc_scheduled := dset (he_id e) (activity_id, activity_type, e) (lc_scheduled l)\<rparr>))))"

definition start_activity :: "history_event \<Rightarrow> lifecycles \<Rightarrow> lifecycles res" where
  "start_activity e l =
     rbind (positive_integer (jget (he_attributes e) ''scheduledEventId'') (event_label ''started'' e ''scheduledEventId'')) (\<lambda>i.
     rbind (temporal_unless (has_key (lc_scheduled l) i)
       [lit ''activity started event '', int_text (he_id e), lit '' references unknown scheduled event '', int_text i]) (\<lambda>_.
     rbind (temporal_unless (\<not> has_key (lc_started l) i)
       [lit ''activity scheduled event '', int_text i, lit '' has multiple started events'']) (\<lambda>_.
     rbind (positive_integer (jget (he_attributes e) ''attempt'') (event_label ''started'' e ''attempt'')) (\<lambda>attempt.
     Inr (l\<lparr>lc_started := dset i (e, attempt) (lc_started l)\<rparr>)))))"

definition check_started_reference :: "history_event list \<Rightarrow> history_event \<Rightarrow> pystr \<Rightarrow> int \<Rightarrow> lifecycles \<Rightarrow> int option \<Rightarrow> unit res" where
  "check_started_reference events e outcome i l started_id =
     (case started_id of
        Some s \<Rightarrow>
          rbind (temporal_unless (\<exists>r\<in>set events. he_id r = s \<and> he_type r = activity_started)
            [lit ''activity terminal event '', int_text (he_id e), lit '' references unknown started event '', int_text s]) (\<lambda>_.
          temporal_unless (case dget (lc_started l) i of None \<Rightarrow> False | Some (r, _) \<Rightarrow> he_id r = s)
            [lit ''activity terminal event '', int_text (he_id e), lit '' startedEventId does not match scheduled event '', int_text i])
      | None \<Rightarrow> temporal_unless (\<not> (has_key (lc_started l) i \<and> outcome \<noteq> lit ''timed_out''))
            [lit ''activity terminal event '', int_text (he_id e), lit '' is missing startedEventId''])"

definition end_activity :: "history_event list \<Rightarrow> history_event \<Rightarrow> pystr \<Rightarrow> lifecycles \<Rightarrow> lifecycles res" where
  "end_activity events e outcome l =
     rbind (positive_integer (jget (he_attributes e) ''scheduledEventId'') (event_label ''terminal'' e ''scheduledEventId'')) (\<lambda>i.
     rbind (temporal_unless (has_key (lc_scheduled l) i)
       [lit ''activity terminal event '', int_text (he_id e), lit '' references unknown scheduled event '', int_text i]) (\<lambda>_.
     rbind (temporal_unless (\<not> has_key (lc_terminals l) i)
       [lit ''activity scheduled event '', int_text i, lit '' has multiple terminal events'']) (\<lambda>_.
     rbind (optional_event_reference (jget (he_attributes e) ''startedEventId'') (event_label ''terminal'' e ''startedEventId'')) (\<lambda>started_id.
     rbind (check_started_reference events e outcome i l started_id) (\<lambda>_.
     Inr (l\<lparr>lc_terminals := dset i (e, outcome) (lc_terminals l)\<rparr>))))))"

definition lifecycle_step :: "history_event list \<Rightarrow> history_event \<Rightarrow> lifecycles \<Rightarrow> lifecycles res" where
  "lifecycle_step events e l =
     (if he_type e = activity_scheduled then schedule_activity e l
      else if he_type e = activity_started then start_activity e l
      else case dget activity_terminals (he_type e) of None \<Rightarrow> Inr l | Some (_, outcome) \<Rightarrow> end_activity events e outcome l)"

fun read_lifecycles :: "history_event list \<Rightarrow> history_event list \<Rightarrow> lifecycles \<Rightarrow> lifecycles res" where
  "read_lifecycles events [] l = Inr l"
| "read_lifecycles events (e # es) l = rbind (lifecycle_step events e l) (read_lifecycles events es)"

definition activity_of :: "lifecycles \<Rightarrow> int \<times> pystr \<times> pystr \<times> history_event \<Rightarrow> activity" where
  "activity_of l s = (case s of (i, activity_id, activity_type, e) \<Rightarrow>
     \<lparr>ac_activity_id = activity_id, ac_activity_type = activity_type, ac_scheduled = e,
      ac_started = map_option fst (dget (lc_started l) i), ac_terminal = map_option fst (dget (lc_terminals l) i),
      ac_attempt = map_option snd (dget (lc_started l) i), ac_outcome = map_option snd (dget (lc_terminals l) i)\<rparr>)"

definition read_history :: "(nat \<Rightarrow> nat option) \<Rightarrow> attrs list \<Rightarrow> history res" where
  "read_history digit raw =
     rbind (normalize_events digit raw) (\<lambda>events.
     rbind (temporal_unless (he_type (hd events) = workflow_started)
       [lit ''Temporal history must start with WorkflowExecutionStarted'']) (\<lambda>_.
     rbind (temporal_unless (length (filter (\<lambda>e. he_type e = workflow_started) events) = 1)
       [lit ''Temporal history must contain one workflow start event'']) (\<lambda>_.
     rbind (temporal_object (jget (he_attributes (hd events)) ''workflowType'') (lit ''Temporal workflowType'')) (\<lambda>type_object.
     rbind (temporal_string (jget type_object ''name'') (lit ''Temporal workflowType.name'')) (\<lambda>workflow_type.
     rbind (temporal_optional_string (jget (he_attributes (hd events)) ''workflowId'') (lit ''Temporal workflowId'')) (\<lambda>workflow_id.
     let terminals = filter (\<lambda>e. has_key workflow_terminals (he_type e)) events in
     rbind (temporal_unless (length terminals \<le> 1) [lit ''Temporal history contains multiple workflow terminals'']) (\<lambda>_.
     rbind (temporal_unless (terminals = [] \<or> hd terminals = last events)
       [lit ''Temporal workflow terminal must be the last history event'']) (\<lambda>_.
     rbind (read_lifecycles events events no_lifecycles) (\<lambda>l.
     let terminal = (case terminals of [] \<Rightarrow> None | t # _ \<Rightarrow> Some t) in
     Inr \<lparr>hi_workflow_id = workflow_id, hi_workflow_type = workflow_type, hi_started = hd events, hi_terminal = terminal,
       hi_outcome = Option.bind terminal (\<lambda>t. dget workflow_terminals (he_type t)),
       hi_activities = map (activity_of l) (sort_key fst (lc_scheduled l))\<rparr>)))))))))"

section \<open>Events and edges\<close>

definition temporal_source :: attrs where
  "temporal_source = [(lit ''source'', JStr (lit ''temporal-history''))]"

definition optional_field :: "string \<Rightarrow> ('a \<Rightarrow> json) \<Rightarrow> 'a option \<Rightarrow> attrs" where
  "optional_field k f v = (case v of None \<Rightarrow> [] | Some x \<Rightarrow> [(lit k, f x)])"

definition activity_attributes :: "activity \<Rightarrow> attrs" where
  "activity_attributes a =
     [(lit ''adapter'', JStr (lit ''temporal-history'')), (lit ''temporal.activity_id'', JStr (ac_activity_id a)),
      (lit ''temporal.activity_type'', JStr (ac_activity_type a)), (lit ''temporal.scheduled_event_id'', JInt (he_id (ac_scheduled a))),
      (lit ''temporal.state'', JStr (case ac_outcome a of Some o' \<Rightarrow> o' | None \<Rightarrow>
         if ac_started a \<noteq> None then lit ''started'' else lit ''scheduled''))] @
     optional_field ''temporal.started_event_id'' (\<lambda>e. JInt (he_id e)) (ac_started a) @
     optional_field ''temporal.attempt'' JInt (ac_attempt a) @
     optional_field ''temporal.terminal_event_id'' (\<lambda>e. JInt (he_id e)) (ac_terminal a) @
     optional_field ''temporal.outcome'' JStr (ac_outcome a)"

definition run_activity_name :: "activity \<Rightarrow> pystr" where
  "run_activity_name a = lit ''RunActivity:'' @ ac_activity_type a"

definition otel_activity_match :: "activity \<Rightarrow> pystr option \<Rightarrow> event list \<Rightarrow> event option" where
  "otel_activity_match a workflow_id existing =
     (case filter (\<lambda>v. ev_kind v = lit ''server.request'' \<and> ev_name v = run_activity_name a \<and>
         jget (ev_attributes v) ''temporalActivityID'' = JStr (ac_activity_id a) \<and>
         (case workflow_id of None \<Rightarrow> True | Some w \<Rightarrow> jget (ev_attributes v) ''temporalWorkflowID'' = JStr w)) existing of
        [v] \<Rightarrow> Some v
      | _ \<Rightarrow> None)"

definition temporal_event :: "pystr \<Rightarrow> pystr \<Rightarrow> pystr \<Rightarrow> int \<Rightarrow> int option \<Rightarrow> int \<Rightarrow> attrs \<Rightarrow> event" where
  "temporal_event i kind name started finished sequence attributes =
     \<lparr>ev_id = i, ev_kind = kind, ev_name = name, ev_entity_id = None, ev_started_at_ns = Some started, ev_finished_at_ns = finished,
      ev_clock_domain = Some (lit ''temporal.history''), ev_uncertainty_ns = None, ev_sequence = Some sequence, ev_attributes = attributes\<rparr>"

definition temporal_edge :: "pystr \<Rightarrow> pystr \<Rightarrow> string \<Rightarrow> causal_edge" where
  "temporal_edge a b kind = \<lparr>edge_source = a, edge_target = b, edge_kind = lit kind, edge_confidence = Fin 1, edge_attributes = temporal_source\<rparr>"

definition workflow_event_id :: "history \<Rightarrow> pystr" where
  "workflow_event_id h = lit ''temporal:workflow:'' @ int_text (he_id (hi_started h))"

definition activity_event_id :: "activity \<Rightarrow> pystr" where
  "activity_event_id a = lit ''temporal:activity:'' @ int_text (he_id (ac_scheduled a))"

definition queue_event_id :: "activity \<Rightarrow> pystr" where
  "queue_event_id a = activity_event_id a @ lit '':queue''"

definition workflow_event :: "history \<Rightarrow> event" where
  "workflow_event h = temporal_event (workflow_event_id h) (lit ''run'') (hi_workflow_type h) (he_timestamp_ns (hi_started h))
     (map_option he_timestamp_ns (hi_terminal h)) (he_id (hi_started h))
     ([(lit ''adapter'', JStr (lit ''temporal-history'')), (lit ''temporal.workflow_type'', JStr (hi_workflow_type h)),
       (lit ''temporal.started_event_id'', JInt (he_id (hi_started h))),
       (lit ''temporal.state'', JStr (case hi_outcome h of Some o' \<Rightarrow> o' | None \<Rightarrow> lit ''running''))] @
      optional_field ''temporal.workflow_id'' JStr (hi_workflow_id h) @
      optional_field ''temporal.terminal_event_id'' (\<lambda>e. JInt (he_id e)) (hi_terminal h) @
      optional_field ''temporal.outcome'' JStr (hi_outcome h))"

definition activity_event :: "activity \<Rightarrow> event" where
  "activity_event a = temporal_event (activity_event_id a) (lit ''temporal.activity'') (ac_activity_type a)
     (he_timestamp_ns (ac_scheduled a)) (map_option he_timestamp_ns (ac_terminal a)) (he_id (ac_scheduled a)) (activity_attributes a)"

definition queue_event :: "activity \<Rightarrow> event" where
  "queue_event a = temporal_event (queue_event_id a) (lit ''queue.wait'') (ac_activity_type a @ lit '' queue'')
     (he_timestamp_ns (ac_scheduled a))
     (map_option he_timestamp_ns (case ac_started a of Some e \<Rightarrow> Some e | None \<Rightarrow> ac_terminal a)) (he_id (ac_scheduled a))
     (activity_attributes a @ [(lit ''temporal.queue_outcome'', JStr (if ac_started a \<noteq> None then lit ''started''
        else case ac_outcome a of Some o' \<Rightarrow> o' | None \<Rightarrow> lit ''waiting''))])"

definition execution_event :: "activity \<Rightarrow> history_event \<Rightarrow> history_event \<Rightarrow> event" where
  "execution_event a s t = temporal_event (activity_event_id a @ lit '':execution'') (lit ''operation'') (run_activity_name a)
     (he_timestamp_ns s) (Some (he_timestamp_ns t)) (he_id s) (activity_attributes a)"

text \<open>The correlated event of an activity, or the one made up for it.\<close>

datatype activity_execution = Correlated event | Fallback event | NoExecution

definition activity_execution_of :: "history \<Rightarrow> event list \<Rightarrow> activity \<Rightarrow> activity_execution" where
  "activity_execution_of h existing a =
     (case (if length (filter (\<lambda>b. ac_activity_id b = ac_activity_id a \<and> ac_activity_type b = ac_activity_type a) (hi_activities h)) = 1
            then otel_activity_match a (hi_workflow_id h) existing else None) of
        Some v \<Rightarrow> Correlated v
      | None \<Rightarrow> (case (ac_started a, ac_terminal a) of (Some s, Some t) \<Rightarrow> Fallback (execution_event a s t) | _ \<Rightarrow> NoExecution))"

definition activity_events :: "history \<Rightarrow> event list \<Rightarrow> activity \<Rightarrow> event list" where
  "activity_events h existing a = [activity_event a, queue_event a] @
     (case activity_execution_of h existing a of Fallback v \<Rightarrow> [v] | _ \<Rightarrow> [])"

definition activity_edges :: "history \<Rightarrow> event list \<Rightarrow> activity \<Rightarrow> causal_edge list" where
  "activity_edges h existing a =
     [temporal_edge (workflow_event_id h) (activity_event_id a) ''parent'', temporal_edge (activity_event_id a) (queue_event_id a) ''parent''] @
     (case activity_execution_of h existing a of
        NoExecution \<Rightarrow> [] | Correlated v \<Rightarrow> [temporal_edge (queue_event_id a) (ev_id v) ''dispatches'']
      | Fallback v \<Rightarrow> [temporal_edge (queue_event_id a) (ev_id v) ''dispatches''])"

definition history_events :: "history \<Rightarrow> event list \<Rightarrow> event list" where
  "history_events h existing = workflow_event h # concat (map (activity_events h existing) (hi_activities h))"

definition history_edges :: "history \<Rightarrow> event list \<Rightarrow> causal_edge list" where
  "history_edges h existing = concat (map (activity_edges h existing) (hi_activities h))"

definition correlation_count :: "history \<Rightarrow> event list \<Rightarrow> nat" where
  "correlation_count h existing =
     length (filter (\<lambda>a. case activity_execution_of h existing a of Correlated _ \<Rightarrow> True | _ \<Rightarrow> False) (hi_activities h))"

definition fallback_count :: "history \<Rightarrow> event list \<Rightarrow> nat" where
  "fallback_count h existing =
     length (filter (\<lambda>a. case activity_execution_of h existing a of Fallback _ \<Rightarrow> True | _ \<Rightarrow> False) (hi_activities h))"

definition normalize_history :: "history \<Rightarrow> event list \<Rightarrow> (event list \<times> causal_edge list \<times> nat \<times> nat) res" where
  "normalize_history h existing =
     (case List.find (\<lambda>v. ev_id v \<in> ev_id ` set existing) (history_events h existing) of
        Some v \<Rightarrow> temporal_error [lit ''Temporal history event already exists: '', ev_id v]
      | None \<Rightarrow> Inr (history_events h existing, history_edges h existing, correlation_count h existing, fallback_count h existing))"

section \<open>The import\<close>

definition append_history :: "history \<Rightarrow> temporal_result stmt" where
  "append_history h =
     sbind (sread (\<lambda>r. rbind (read_events r) (normalize_history h))) (\<lambda>(events, edges, correlations, fallbacks).
     sbind (expand_to (event_timestamps events)) (\<lambda>_.
     sbind (add_event_graph events edges) (\<lambda>_.
     sreturn \<lparr>ti_activity_count = length (hi_activities h), ti_queue_wait_count = length (hi_activities h),
       ti_fallback_execution_count = fallbacks, ti_event_count = length events, ti_edge_count = length edges,
       ti_correlation_count = correlations\<rparr>)))"

definition import_temporal_history ::
  "(nat \<Rightarrow> nat option) \<Rightarrow> destination \<Rightarrow> pystr \<Rightarrow> db \<Rightarrow> nat list option \<Rightarrow> (temporal_result \<times> db) res" where
  "import_temporal_history digit output temporary runpack source =
     rbind (validate_enrichment_destination output) (\<lambda>_.
     rbind (rbind (load_history source) (read_history digit)) (\<lambda>h.
     enrich_copy output temporary runpack (append_history h)))"

end
