(* ===== verification/CalendarLaws.thy ===== *)
theory CalendarLaws
  imports JsonLoading
begin

text \<open>
  The calendar behind the RFC 3339 timestamps counts days without gaps, so that timestamps in UTC are ordered
  as their texts are; and what a timestamp that does not fit ends in.
\<close>

section \<open>Days\<close>

definition valid_date :: "int \<Rightarrow> nat \<Rightarrow> int \<Rightarrow> bool" where
  "valid_date y m d \<longleftrightarrow> 1 \<le> m \<and> m \<le> 12 \<and> 1 \<le> d \<and> d \<le> days_in_month y m"

lemma days_before_next_month:
  assumes "1 \<le> m" "m < 12"
  shows "days_before_month y (Suc m) = days_before_month y m + days_in_month y m"
proof -
  have "m - 1 < length (month_lengths y)" using assms by (simp add: month_lengths_def)
  then have "take (Suc (m - 1)) (month_lengths y) = take (m - 1) (month_lengths y) @ [month_lengths y ! (m - 1)]"
    by (rule take_Suc_conv_app_nth)
  then show ?thesis using assms by (simp add: days_before_month_def days_in_month_def)
qed

lemma days_in_month_pos: "1 \<le> m \<Longrightarrow> m \<le> 12 \<Longrightarrow> 28 \<le> days_in_month y m"
proof -
  assume "1 \<le> m" "m \<le> 12"
  then have "days_in_month y m \<in> set (month_lengths y)" unfolding days_in_month_def by (intro nth_mem) (simp add: month_lengths_def)
  then show ?thesis by (auto simp: month_lengths_def split: if_splits)
qed

lemma year_length: "days_before_month y 12 + days_in_month y 12 = (if leap_year y then 366 else 365)"
  by (simp add: days_before_month_def days_in_month_def month_lengths_def)

lemma days_before_month_mono: "1 \<le> m \<Longrightarrow> m < m' \<Longrightarrow> m' \<le> 12 \<Longrightarrow> days_before_month y m + days_in_month y m \<le> days_before_month y m'"
proof (induction m')
  case (Suc m')
  show ?case
  proof (cases "m = m'")
    case True
    then show ?thesis using Suc.prems days_before_next_month [of m y] by simp
  next
    case False
    then show ?thesis
      using Suc.prems Suc.IH days_before_next_month [of m' y] days_in_month_pos [of m' y] by simp
  qed
qed simp

lemma days_before_next_year: "days_before_year (y + 1) = days_before_year y + (if leap_year y then 366 else 365)"
proof -
  have step: "y div k = (y - 1) div k + (if k dvd y then 1 else 0)" if "0 < k" for k :: int
  proof (cases "k dvd y")
    case True
    then obtain q where "y = k * q" ..
    then have "y - 1 = k * (q - 1) + (k - 1)" by (simp add: algebra_simps)
    then have "(y - 1) div k = q - 1" by (rule int_div_pos_eq) (use that in simp_all)
    then show ?thesis using \<open>y = k * q\<close> that by simp
  next
    case False
    then have "0 < y mod k" using that by (simp add: dvd_eq_mod_eq_0 order.strict_iff_order)
    then have "y - 1 = k * (y div k) + (y mod k - 1)" "0 \<le> y mod k - 1" "y mod k - 1 < k"
      using pos_mod_bound [OF that, of y] by (simp_all add: algebra_simps)
    then have "(y - 1) div k = y div k" by (rule int_div_pos_eq)
    with False show ?thesis by simp
  qed
  have regroup: "y * 365 + a' - b' + c' = (y - 1) * 365 + a - b + c + 365 + p - q + r" if "a' = a + p" "b' = b + q" "c' = c + r"
    for a b c a' b' c' p q r :: int using that by (simp add: algebra_simps)
  have mults: "400 dvd y \<Longrightarrow> 100 dvd y" "100 dvd y \<Longrightarrow> 4 dvd y" by (auto elim: dvd_trans [rotated])
  have "days_before_year (y + 1) = y * 365 + y div 4 - y div 100 + y div 400" by (simp add: days_before_year_def)
  also have "\<dots> = days_before_year y + 365 + (if 4 dvd y then 1 else 0) - (if 100 dvd y then 1 else 0) + (if 400 dvd y then 1 else 0)"
    unfolding days_before_year_def by (rule regroup; rule step) simp_all
  also have "\<dots> = days_before_year y + (if leap_year y then 366 else 365)" using mults by (cases "4 dvd y"; cases "100 dvd y"; cases "400 dvd y") (simp_all add: leap_year_def)
  finally show ?thesis .
qed

lemma days_before_year_mono: "y < y' \<Longrightarrow> days_before_year (y + 1) \<le> days_before_year y'"
proof -
  assume "y < y'"
  then have "y + 1 \<le> y'" by simp
  then show ?thesis
  proof (induction rule: int_ge_induct)
    case (step i)
    then show ?case using days_before_next_year [of i] by (simp split: if_splits)
  qed simp
qed

lemma ordinal_bounds:
  assumes "valid_date y m d"
  shows "days_before_year y < ordinal y m d" "ordinal y m d \<le> days_before_year (y + 1)"
proof -
  have m: "1 \<le> m" "m \<le> 12" "1 \<le> d" "d \<le> days_in_month y m" using assms by (simp_all add: valid_date_def)
  have "0 \<le> days_before_month y m"
    using m days_before_month_mono [of 1 m y] days_in_month_pos [of 1 y] by (cases "m = 1") (auto simp: days_before_month_def)
  then show "days_before_year y < ordinal y m d" using m by (simp add: ordinal_def)
  have "days_before_month y m + days_in_month y m \<le> days_before_month y 12 + days_in_month y 12"
    using m days_before_month_mono [of m 12 y] days_in_month_pos [of 12 y] by (cases "m = 12") auto
  then show "ordinal y m d \<le> days_before_year (y + 1)"
    using m(4) year_length [of y] days_before_next_year [of y] by (simp add: ordinal_def)
qed

lemma ordinal_less:
  assumes "valid_date y m d" "valid_date y' m' d'" "y < y' \<or> y = y' \<and> (m < m' \<or> m = m' \<and> d < d')"
  shows "ordinal y m d < ordinal y' m' d'"
  using assms(3)
proof (elim disjE conjE)
  assume "y < y'"
  then show ?thesis using ordinal_bounds [OF assms(1)] ordinal_bounds [OF assms(2)] days_before_year_mono [of y y'] by linarith
next
  assume "y = y'" "m < m'"
  then show ?thesis using assms(1,2) days_before_month_mono [of m m' y] by (simp add: ordinal_def valid_date_def)
next
  assume "y = y'" "m = m'" "d < d'"
  then show ?thesis by (simp add: ordinal_def)
qed

text \<open>The day after a day has the next number.\<close>

definition next_date :: "int \<Rightarrow> nat \<Rightarrow> int \<Rightarrow> int \<times> nat \<times> int" where
  "next_date y m d = (if d < days_in_month y m then (y, m, d + 1) else if m < 12 then (y, m + 1, 1) else (y + 1, 1, 1))"

lemma next_ordinal:
  assumes "valid_date y m d" "next_date y m d = (y', m', d')"
  shows "valid_date y' m' d' \<and> ordinal y' m' d' = ordinal y m d + 1"
proof -
  have m: "1 \<le> m" "m \<le> 12" "1 \<le> d" "d \<le> days_in_month y m" using assms(1) by (simp_all add: valid_date_def)
  have first: "days_before_month (y + 1) 1 = 0" by (simp add: days_before_month_def)
  consider "d < days_in_month y m" | "d = days_in_month y m" "m < 12" | "d = days_in_month y m" "m = 12" using m by linarith
  then show ?thesis
  proof cases
    case 1
    then show ?thesis using assms(2) m by (auto simp: next_date_def valid_date_def ordinal_def)
  next
    case 2
    then show ?thesis using assms(2) m days_before_next_month [of m y] days_in_month_pos [of "Suc m" y]
      by (auto simp: next_date_def valid_date_def ordinal_def)
  next
    case 3
    then show ?thesis using assms(2) m first year_length [of y] days_before_next_year [of y] days_in_month_pos [of 1 "y + 1"]
      by (auto simp: next_date_def valid_date_def ordinal_def)
  qed
qed

section \<open>Texts and numbers\<close>

lemma less_append:
  fixes a b c d :: pystr
  shows "length a = length b \<Longrightarrow> a @ c < b @ d \<longleftrightarrow> a < b \<or> a = b \<and> c < d"
  by (induction a b rule: list_induct2) auto

lemma digits_value_fold: "fold (\<lambda>c n. n * 10 + int (c - 48)) ds k = k * 10 ^ length ds + digits_value ds"
proof (induction ds arbitrary: k)
  case (Cons c ds)
  show ?case using Cons [of "k * 10 + int (c - 48)"] Cons [of "int (c - 48)"] by (simp add: digits_value_def algebra_simps)
qed (simp add: digits_value_def)

lemma digits_value_Cons: "digits_value (c # ds) = int (c - 48) * 10 ^ length ds + digits_value ds"
  using digits_value_fold [of ds "int (c - 48)"] by (simp add: digits_value_def)

lemma digits_value_bounds: "list_all is_digit ds \<Longrightarrow> 0 \<le> digits_value ds \<and> digits_value ds < 10 ^ length ds"
proof (induction ds)
  case (Cons c ds)
  then have "0 \<le> int (c - 48)" "int (c - 48) \<le> 9" "0 \<le> digits_value ds" "digits_value ds < 10 ^ length ds" by (auto simp: is_digit_def)
  moreover have "int (c - 48) * 10 ^ length ds \<le> 9 * 10 ^ length ds" using calculation(2) by (intro mult_right_mono) auto
  moreover have "0 \<le> int (c - 48) * 10 ^ length ds" by simp
  ultimately have "digits_value (c # ds) < 9 * 10 ^ length ds + 10 ^ length ds" "0 \<le> digits_value (c # ds)"
    unfolding digits_value_Cons by linarith+
  then show ?case by simp
qed (simp add: digits_value_def)

lemma digits_value_less:
  "length a = length b \<Longrightarrow> list_all is_digit a \<Longrightarrow> list_all is_digit b \<Longrightarrow> digits_value a < digits_value b \<longleftrightarrow> a < b"
proof (induction a b rule: list_induct2)
  case (Cons c a d b)
  have bounds: "0 \<le> digits_value a" "digits_value a < 10 ^ length a" "0 \<le> digits_value b" "digits_value b < 10 ^ length a"
    using Cons.prems Cons.hyps digits_value_bounds [of a] digits_value_bounds [of b] by simp_all
  have cd: "48 \<le> c" "48 \<le> d" using Cons.prems by (simp_all add: is_digit_def)
  have lower: "digits_value (c # a) < digits_value (d # b)" if "c < d" "48 \<le> c" "digits_value a < 10 ^ length a" "0 \<le> digits_value b" "length a = length b"
    for c d a b
  proof -
    have "(int (c - 48) + 1) * 10 ^ length a \<le> int (d - 48) * 10 ^ length a" using that by (intro mult_right_mono) auto
    then show ?thesis using that by (simp add: digits_value_Cons algebra_simps)
  qed
  consider "c < d" | "c = d" | "d < c" by linarith
  then show ?case
  proof cases
    case 1
    have "digits_value (c # a) < digits_value (d # b)" by (rule lower [OF 1 cd(1) bounds(2,3) Cons.hyps(1)])
    then show ?thesis using 1 by simp
  next
    case 2
    then show ?thesis using Cons by (simp add: digits_value_Cons)
  next
    case 3
    have "digits_value (d # b) < digits_value (c # a)"
      by (rule lower [OF 3 cd(2) _ bounds(1)]) (use bounds(4) Cons.hyps(1) in simp_all)
    then show ?thesis using 3 by simp
  qed
qed simp

lemma digits_value_eq:
  "length a = length b \<Longrightarrow> list_all is_digit a \<Longrightarrow> list_all is_digit b \<Longrightarrow> digits_value a = digits_value b \<longleftrightarrow> a = b"
  using digits_value_less [of a b] digits_value_less [of b a] by force

section \<open>Timestamps in UTC\<close>

definition extends_ascii :: "(nat \<Rightarrow> nat option) \<Rightarrow> bool" where
  "extends_ascii digit \<longleftrightarrow> (\<forall>c<128. digit c = ascii_digit c)"

lemma ascii_digit_Some: "ascii_digit c \<noteq> None \<longleftrightarrow> is_digit c"
  by (simp add: ascii_digit_def)

lemma extends_ascii_digit: "extends_ascii digit \<Longrightarrow> is_digit c \<Longrightarrow> digit c = Some (c - 48)"
  by (simp add: extends_ascii_def ascii_digit_def is_digit_def)

lemma fraction_value_digits:
  assumes "extends_ascii digit"
  shows "length f \<le> n \<Longrightarrow> list_all is_digit f \<Longrightarrow> fraction_value digit f n = digits_value f * 10 ^ (n - length f)"
proof (induction f arbitrary: n)
  case (Cons c r)
  have "(10 :: int) ^ (n - 1) = 10 ^ length r * 10 ^ (n - Suc (length r))"
    using Cons.prems(1) by (simp flip: power_add)
  then show ?case
    using Cons.prems Cons.IH [of "n - 1"] extends_ascii_digit [OF assms, of c] by (simp add: digits_value_Cons algebra_simps)
qed (simp add: digits_value_def)

text \<open>The parts of a matched text: it is the date and time, the fraction and the zone.\<close>

definition fraction_text :: "pystr \<Rightarrow> pystr" where
  "fraction_text f = (if f = [] then [] else 46 # f)"

lemma match_timestamp_Matched:
  assumes "match_timestamp digit s = Matched whole f z"
  shows "s = whole @ fraction_text f @ z \<and> length whole = 19 \<and> shaped digit date_time_pattern whole \<and>
    length f \<le> 9 \<and> (\<forall>c\<in>set f. digit c \<noteq> None) \<and> zone_ok digit z"
proof -
  have shape: "shaped digit date_time_pattern (take 19 s)" and whole: "whole = take 19 s"
    and split: "split_fraction digit (drop 19 s) = Some (f, z)" and zone: "zone_ok digit z"
    using assms by (auto simp: match_timestamp_def split: if_splits option.splits)
  have "length (take 19 s) = 19" using shape by (auto simp: shaped_def date_time_pattern_def dest: list_all2_lengthD)
  moreover have "drop 19 s = fraction_text f @ z \<and> length f \<le> 9 \<and> (\<forall>c\<in>set f. digit c \<noteq> None)"
    using split by (auto simp: split_fraction_def fraction_text_def Let_def simp flip: dropWhile_eq_drop dest: set_takeWhileD split: list.splits if_splits)
  ultimately show ?thesis using shape whole zone by (metis append_take_drop_id)
qed

lemma shaped_date_time:
  assumes "shaped digit date_time_pattern s" "extends_ascii digit" "list_all (\<lambda>c. c < 128) s"
  obtains y m d h mi se where "s = y @ 45 # m @ 45 # d @ 84 # h @ 58 # mi @ 58 # se"
    "length y = 4" "length m = 2" "length d = 2" "length h = 2" "length mi = 2" "length se = 2" "list_all is_digit (y @ m @ d @ h @ mi @ se)"
proof -
  have ascii: "digit c \<noteq> None \<longleftrightarrow> is_digit c" if "c < 128" for c
    using that assms(2) ascii_digit_Some [of c] by (simp add: extends_ascii_def)
  have "lit date_time_pattern = [100, 100, 100, 100, 45, 100, 100, 45, 100, 100, 84, 100, 100, 58, 100, 100, 58, 100, 100]" by code_simp
  then obtain c0 c1 c2 c3 c5 c6 c8 c9 c11 c12 c14 c15 c17 c18
    where s: "s = [c0, c1, c2, c3, 45, c5, c6, 45, c8, c9, 84, c11, c12, 58, c14, c15, 58, c17, c18]"
      and d: "\<forall>c\<in>{c0, c1, c2, c3, c5, c6, c8, c9, c11, c12, c14, c15, c17, c18}. digit c \<noteq> None"
    using assms(1) by (auto simp: shaped_def list_all2_Cons1)
  have "\<forall>c\<in>{c0, c1, c2, c3, c5, c6, c8, c9, c11, c12, c14, c15, c17, c18}. is_digit c" using d assms(3) ascii unfolding s by simp
  then show thesis
    by (intro that [of "[c0, c1, c2, c3]" "[c5, c6]" "[c8, c9]" "[c11, c12]" "[c14, c15]" "[c17, c18]"]) (simp_all add: s)
qed

text \<open>What a timestamp in UTC says, and its text.\<close>

definition utc_text :: "pystr \<Rightarrow> pystr \<Rightarrow> pystr \<Rightarrow> pystr \<Rightarrow> pystr \<Rightarrow> pystr \<Rightarrow> pystr \<Rightarrow> pystr" where
  "utc_text y m d h mi se f = y @ 45 # m @ 45 # d @ 84 # h @ 58 # mi @ 58 # se @ fraction_text f @ [90]"

definition utc_value :: "pystr \<Rightarrow> pystr \<Rightarrow> pystr \<Rightarrow> pystr \<Rightarrow> pystr \<Rightarrow> pystr \<Rightarrow> pystr \<Rightarrow> int" where
  "utc_value y m d h mi se f =
     (local_seconds (digits_value y) (nat (digits_value m)) (digits_value d) (digits_value h) (digits_value mi) (digits_value se) -
       (epoch_ordinal - 1) * seconds_per_day) * 1000000000 + digits_value f * 10 ^ (9 - length f)"

definition utc_fields_ok :: "pystr \<Rightarrow> pystr \<Rightarrow> pystr \<Rightarrow> pystr \<Rightarrow> pystr \<Rightarrow> pystr \<Rightarrow> pystr \<Rightarrow> bool" where
  "utc_fields_ok y m d h mi se f \<longleftrightarrow> length y = 4 \<and> length m = 2 \<and> length d = 2 \<and> length h = 2 \<and> length mi = 2 \<and> length se = 2 \<and>
     length f \<le> 9 \<and> list_all is_digit (y @ m @ d @ h @ mi @ se @ f) \<and>
     valid_date (digits_value y) (nat (digits_value m)) (digits_value d) \<and> digits_value h < 24 \<and> digits_value mi < 60 \<and> digits_value se < 60"

lemma zone_of_utc:
  assumes "zone_ok digit z" "last z = 90" "extends_ascii digit"
  shows "z = [90]"
proof -
  have "digit 90 = None" using assms(3) by (simp add: extends_ascii_def ascii_digit_def is_digit_def)
  moreover have "lit ''+dd:dd'' = [43, 100, 100, 58, 100, 100]" "lit ''-dd:dd'' = [45, 100, 100, 58, 100, 100]" "lit ''Z'' = [90]" by code_simp+
  ultimately show ?thesis using assms(1,2) by (auto simp: zone_ok_def shaped_def list_all2_Cons1)
qed

lemma parse_utc:
  assumes "parse_rfc3339_nanoseconds digit label opt (JStr s) = Inr (Some t)" "extends_ascii digit" "list_all (\<lambda>c. c < 128) s" "last s = 90"
  obtains y m d h mi se f where "s = utc_text y m d h mi se f" "t = utc_value y m d h mi se f" "utc_fields_ok y m d h mi se f"
proof -
  obtain whole f z p where match: "match_timestamp digit s = Matched whole f z" and iso: "from_isoformat whole z = Some p"
    and t: "rbind (utc_seconds p) (\<lambda>seconds. let t = seconds * 1000000000 + fraction_value digit f 9 in
              if - (2 ^ 63) \<le> t \<and> t \<le> max_int64 then Inr (Some t)
              else value_error [lit label, lit '' exceeds runpack range: '', s]) = Inr (Some t)"
    using assms(1) by (auto simp: parse_rfc3339_nanoseconds_def value_error_def split: if_splits timestamp_match.splits option.splits)
  note m = match_timestamp_Matched [OF match]
  have s: "s = whole @ fraction_text f @ z" using m by simp
  have "z \<noteq> []" using m by (auto simp: zone_ok_def shaped_def lit_def)
  then have z: "z = [90]" using m s assms(2,4) by (intro zone_of_utc [of digit]) auto
  obtain y mo d h mi se where whole: "whole = y @ 45 # mo @ 45 # d @ 84 # h @ 58 # mi @ 58 # se"
    and lens: "length y = 4" "length mo = 2" "length d = 2" "length h = 2" "length mi = 2" "length se = 2"
    and digs: "list_all is_digit (y @ mo @ d @ h @ mi @ se)"
    by (rule shaped_date_time [of digit whole]) (use m s assms(2,3) in auto)
  have f: "list_all is_digit f"
    using m assms(2,3) s by (auto simp: list_all_iff extends_ascii_def fraction_text_def simp flip: ascii_digit_Some split: if_splits)
  have numbers: "number_at whole 0 4 = digits_value y" "number_at whole 5 2 = digits_value mo" "number_at whole 8 2 = digits_value d"
    "number_at whole 11 2 = digits_value h" "number_at whole 14 2 = digits_value mi" "number_at whole 17 2 = digits_value se"
    by (simp_all add: number_at_def whole lens)
  have utc: "zone_offset [90] = 0" by code_simp
  have p: "p = (local_seconds (digits_value y) (nat (digits_value mo)) (digits_value d) (digits_value h) (digits_value mi) (digits_value se), 0)"
    and valid: "valid_date (digits_value y) (nat (digits_value mo)) (digits_value d)" "digits_value h < 24" "digits_value mi < 60" "digits_value se < 60"
    using iso by (auto simp: from_isoformat_def numbers z utc Let_def valid_date_def split: if_splits)
  have "fraction_value digit f 9 = digits_value f * 10 ^ (9 - length f)" using m f by (intro fraction_value_digits assms(2)) auto
  then have "t = utc_value y mo d h mi se f"
    using t by (auto simp: utc_seconds_def utc_value_def p Let_def value_error_def split: if_splits)
  then show thesis
    using that [of y mo d h mi se f] m f lens digs valid s z whole by (simp add: utc_text_def utc_fields_ok_def)
qed

lemma utc_text_less:
  assumes "utc_fields_ok y m d h mi se f" "utc_fields_ok y' m' d' h' mi' se' f'" "length f = length f'"
  shows "utc_text y m d h mi se f < utc_text y' m' d' h' mi' se' f' \<longleftrightarrow>
    y < y' \<or> y = y' \<and> (m < m' \<or> m = m' \<and> (d < d' \<or> d = d' \<and> (h < h' \<or> h = h' \<and> (mi < mi' \<or> mi = mi' \<and> (se < se' \<or> se = se' \<and> f < f')))))"
proof -
  have f: "fraction_text f @ [90] < fraction_text f' @ [90] \<longleftrightarrow> f < f'"
    using assms(3) by (cases "f = []") (auto simp: fraction_text_def less_append)
  show ?thesis using assms(1,2) unfolding utc_text_def utc_fields_ok_def by (simp add: less_append f)
qed

lemma mixed_radix_less:
  fixes a b k x y :: int
  assumes "a < b" "0 \<le> x" "x < k" "0 \<le> y"
  shows "a * k + x < b * k + y"
proof -
  have "(a + 1) * k \<le> b * k" using assms by (intro mult_right_mono) auto
  then show ?thesis using assms by (simp add: algebra_simps)
qed

lemma local_seconds_less:
  assumes "valid_date y m d" "valid_date y' m' d'" "0 \<le> h" "h < 24" "0 \<le> mi" "mi < 60" "0 \<le> se" "se < 60"
    "0 \<le> h'" "h' < 24" "0 \<le> mi'" "mi' < 60" "0 \<le> se'" "se' < 60"
    and less: "y < y' \<or> y = y' \<and> (m < m' \<or> m = m' \<and> (d < d' \<or> d = d' \<and> (h < h' \<or> h = h' \<and> (mi < mi' \<or> mi = mi' \<and> se < se'))))"
  shows "local_seconds y m d h mi se < local_seconds y' m' d' h' mi' se'"
proof -
  consider "y < y' \<or> y = y' \<and> (m < m' \<or> m = m' \<and> d < d')" | "y = y'" "m = m'" "d = d'" "h < h' \<or> h = h' \<and> (mi < mi' \<or> mi = mi' \<and> se < se')"
    using less by blast
  then show ?thesis
  proof cases
    case 1
    then have "(ordinal y m d - 1) * 86400 + (h * 3600 + mi * 60 + se) < (ordinal y' m' d' - 1) * 86400 + (h' * 3600 + mi' * 60 + se')"
      by (intro mixed_radix_less) (use ordinal_less [OF assms(1,2)] assms(3-14) in auto)
    then show ?thesis by (simp add: local_seconds_def seconds_per_day_def algebra_simps)
  next
    case 2
    then show ?thesis using assms(3-14) by (auto simp: local_seconds_def)
  qed
qed

lemma utc_value_less:
  assumes ok: "utc_fields_ok y m d h mi se f" "utc_fields_ok y' m' d' h' mi' se' f'" "length f = length f'"
    and less: "utc_text y m d h mi se f < utc_text y' m' d' h' mi' se' f'"
  shows "utc_value y m d h mi se f < utc_value y' m' d' h' mi' se' f'"
proof -
  note num = digits_value_less [THEN iffD2] digits_value_bounds
  have digs: "list_all is_digit y" "list_all is_digit m" "list_all is_digit d" "list_all is_digit h" "list_all is_digit mi" "list_all is_digit se" "list_all is_digit f"
    "list_all is_digit y'" "list_all is_digit m'" "list_all is_digit d'" "list_all is_digit h'" "list_all is_digit mi'" "list_all is_digit se'" "list_all is_digit f'"
    and lens: "length y = length y'" "length m = length m'" "length d = length d'" "length h = length h'" "length mi = length mi'" "length se = length se'"
    using ok by (simp_all add: utc_fields_ok_def)
  let ?S = "local_seconds (digits_value y) (nat (digits_value m)) (digits_value d) (digits_value h) (digits_value mi) (digits_value se)"
  let ?S' = "local_seconds (digits_value y') (nat (digits_value m')) (digits_value d') (digits_value h') (digits_value mi') (digits_value se')"
  let ?F = "digits_value f * 10 ^ (9 - length f)" and ?F' = "digits_value f' * 10 ^ (9 - length f')"
  have fraction: "0 \<le> digits_value g * 10 ^ (9 - length g) \<and> digits_value g * 10 ^ (9 - length g) < 1000000000"
    if "list_all is_digit g" "length g \<le> 9" for g
  proof -
    have "digits_value g * 10 ^ (9 - length g) < 10 ^ length g * 10 ^ (9 - length g)"
      using digits_value_bounds [OF that(1)] by (intro mult_strict_right_mono) auto
    also have "\<dots> = 10 ^ 9" using that(2) by (simp flip: power_add)
    finally show ?thesis using digits_value_bounds [OF that(1)] by simp
  qed
  have F: "0 \<le> ?F" "?F < 1000000000" "0 \<le> ?F'" using fraction [of f] fraction [of f'] ok digs by (simp_all add: utc_fields_ok_def)
  have lt: "y < y' \<or> y = y' \<and> (m < m' \<or> m = m' \<and> (d < d' \<or> d = d' \<and> (h < h' \<or> h = h' \<and> (mi < mi' \<or> mi = mi' \<and> (se < se' \<or> se = se' \<and> f < f')))))"
    using less utc_text_less [OF ok] by simp
  show ?thesis
  proof (cases "y = y' \<and> m = m' \<and> d = d' \<and> h = h' \<and> mi = mi' \<and> se = se'")
    case True
    then have "f < f'" using lt by auto
    then have "digits_value f < digits_value f'" using digits_value_less [of f f'] ok(3) digs by simp
    then have "?F < ?F'" using ok(3) by simp
    then show ?thesis using True by (simp add: utc_value_def)
  next
    case False
    have pos: "0 \<le> digits_value m" "0 \<le> digits_value m'" using digits_value_bounds [OF digs(2)] digits_value_bounds [OF digs(9)] by simp_all
    have months: "nat (digits_value m) < nat (digits_value m') \<longleftrightarrow> m < m'" "nat (digits_value m) = nat (digits_value m') \<longleftrightarrow> m = m'"
      using pos digits_value_less [of m m'] digits_value_eq [of m m'] lens digs by (simp_all add: eq_nat_nat_iff) linarith
    have parts: "digits_value a < digits_value b \<longleftrightarrow> a < b" "digits_value a = digits_value b \<longleftrightarrow> a = b"
      if "length a = length b" "list_all is_digit a" "list_all is_digit b" for a b
      using that digits_value_less digits_value_eq by simp_all
    note numbers = parts [OF lens(1) digs(1,8)] parts [OF lens(3) digs(3,10)] parts [OF lens(4) digs(4,11)] parts [OF lens(5) digs(5,12)]
      parts [OF lens(6) digs(6,13)]
    have "?S < ?S'"
    proof (rule local_seconds_less)
      show "digits_value y < digits_value y' \<or> digits_value y = digits_value y' \<and> (nat (digits_value m) < nat (digits_value m') \<or>
          nat (digits_value m) = nat (digits_value m') \<and> (digits_value d < digits_value d' \<or> digits_value d = digits_value d' \<and>
          (digits_value h < digits_value h' \<or> digits_value h = digits_value h' \<and> (digits_value mi < digits_value mi' \<or>
          digits_value mi = digits_value mi' \<and> digits_value se < digits_value se'))))"
        unfolding months numbers using lt False by blast
    qed (use ok digs digits_value_bounds in \<open>simp_all add: utc_fields_ok_def\<close>)
    then have "(?S - (epoch_ordinal - 1) * seconds_per_day) * 1000000000 + ?F < (?S' - (epoch_ordinal - 1) * seconds_per_day) * 1000000000 + ?F'"
      by (intro mixed_radix_less) (use F in auto)
    then show ?thesis by (simp add: utc_value_def)
  qed
qed

lemma timestamp_order:
  assumes "extends_ascii digit" "parse_rfc3339_nanoseconds digit l opt (JStr a) = Inr (Some t)" "parse_rfc3339_nanoseconds digit l' opt' (JStr b) = Inr (Some u)"
    "list_all (\<lambda>c. c < 128) (a @ b)" "last a = 90" "last b = 90" "length a = length b"
  shows "a < b \<longleftrightarrow> t < u"
proof -
  obtain y m d h mi se f where a: "a = utc_text y m d h mi se f" "t = utc_value y m d h mi se f" "utc_fields_ok y m d h mi se f"
    by (rule parse_utc [OF assms(2,1)]) (use assms(4,5) in auto)
  obtain y' m' d' h' mi' se' f' where b: "b = utc_text y' m' d' h' mi' se' f'" "u = utc_value y' m' d' h' mi' se' f'" "utc_fields_ok y' m' d' h' mi' se' f'"
    by (rule parse_utc [OF assms(3,1)]) (use assms(4,6) in auto)
  have "length f = length f'"
    using assms(7) a(1,3) b(1,3) by (auto simp: utc_text_def utc_fields_ok_def fraction_text_def split: if_splits)
  note order = utc_value_less [OF a(3) b(3) this] utc_value_less [OF b(3) a(3) this [symmetric]]
  consider "a < b" | "a = b" | "b < a" by fastforce
  then show ?thesis
  proof cases
    case 2
    then have "t = u" using assms(2,3) by (auto simp: parse_rfc3339_nanoseconds_def value_error_def Let_def res_simps
        split: if_splits timestamp_match.splits option.splits)
    with 2 show ?thesis by simp
  qed (use order a b in auto)
qed

end
