(* ===== verification/TemporalLaws.thy ===== *)
theory TemporalLaws
  imports TemporalHistory CalendarLaws IdTexts
begin

text \<open>
  What an accepted history satisfies: its events are in order, so the intervals of its activities are nested, and
  the events and edges that are made of it form a tree whose ids are new.
\<close>

section \<open>Values\<close>

lemma temporal_unless_Inr_iff [res_simps]: "temporal_unless b m = Inr u \<longleftrightarrow> b"
  by (simp add: temporal_unless_def raise_if_Inr_iff)

lemma temporal_error_not_Inr [simp]: "temporal_error m \<noteq> Inr x"
  by (simp add: temporal_error_def)

definition some_text :: "pystr \<Rightarrow> bool" where
  "some_text s \<longleftrightarrow> s \<noteq> [] \<and> utf8_ok s"

lemma temporal_string_Inr_iff [res_simps]: "temporal_string j l = Inr s \<longleftrightarrow> j = JStr s \<and> some_text s"
  by (auto simp: temporal_string_def some_text_def split: json.splits if_splits)

lemma temporal_object_Inr_iff [res_simps]: "temporal_object j l = Inr d \<longleftrightarrow> j = JObj d"
  by (auto simp: temporal_object_def split: json.splits)

lemma temporal_optional_string_Inr: "temporal_optional_string j l = Inr v \<Longrightarrow> pred_option some_text v"
  by (auto simp: temporal_optional_string_def some_text_def split: json.splits if_splits)

lemma positive_integer_Inr: "positive_integer j l = Inr n \<Longrightarrow> 1 \<le> n \<and> n \<le> max_int64"
  by (auto simp: positive_integer_def rbind_eq_Inr_iff temporal_unless_Inr_iff)

lemma parse_rfc3339_range:
  "parse_rfc3339_nanoseconds digit l opt j = Inr (Some t) \<Longrightarrow> - (2 ^ 63) \<le> t \<and> t \<le> max_int64"
  by (auto simp: parse_rfc3339_nanoseconds_def value_error_def Let_def rbind_eq_Inr_iff
      split: if_splits json.splits timestamp_match.splits option.splits)

lemma temporal_timestamp_Inr: "temporal_timestamp digit j = Inr t \<Longrightarrow> - (2 ^ 63) \<le> t \<and> t \<le> max_int64"
  using parse_rfc3339_range [of digit "''Temporal eventTime''" False j t]
  by (auto simp: temporal_timestamp_def assert_some_Inr_iff split: sum.splits err.splits)

section \<open>The events\<close>

definition history_event_ok :: "history_event \<Rightarrow> bool" where
  "history_event_ok e \<longleftrightarrow> 1 \<le> he_id e \<and> he_id e \<le> max_int64 \<and> - (2 ^ 63) \<le> he_timestamp_ns e \<and> he_timestamp_ns e \<le> max_int64 \<and>
     some_text (he_type e)"

definition precedes :: "history_event \<Rightarrow> history_event \<Rightarrow> bool" where
  "precedes a b \<longleftrightarrow> he_id a < he_id b \<and> he_timestamp_ns a \<le> he_timestamp_ns b"

lemma read_history_event_Inr:
  assumes "read_history_event digit p q e = Inr event"
  shows "history_event_ok event \<and> p < he_id event \<and> (case q of None \<Rightarrow> True | Some t \<Rightarrow> t \<le> he_timestamp_ns event)"
  using assms unfolding read_history_event_def rbind_eq_Inr_iff temporal_unless_Inr_iff temporal_string_Inr_iff
proof (elim exE conjE, goal_cases)
  case (1 i _ timestamp _ kind attributes)
  then show ?case
    using positive_integer_Inr [of "jget e ''eventId''" "lit ''Temporal eventId''" i] temporal_timestamp_Inr [of digit "jget e ''eventTime''" timestamp]
    by (cases q) (auto simp: history_event_ok_def)
qed

lemma read_history_events_Inr:
  "read_history_events digit p q raw = Inr events \<Longrightarrow>
     list_all history_event_ok events \<and> sorted_wrt precedes events \<and> length events = length raw \<and>
     (\<forall>e\<in>set events. p < he_id e \<and> (case q of None \<Rightarrow> True | Some t \<Rightarrow> t \<le> he_timestamp_ns e))"
proof (induction raw arbitrary: p q events)
  case (Cons r raw)
  obtain event rest where event: "read_history_event digit p q r = Inr event"
    and rest: "read_history_events digit (he_id event) (Some (he_timestamp_ns event)) raw = Inr rest" and events: "events = event # rest"
    using Cons.prems by (auto simp: rbind_eq_Inr_iff)
  note e = read_history_event_Inr [OF event] and r = Cons.IH [OF rest]
  have "\<forall>f\<in>set rest. p < he_id f \<and> (case q of None \<Rightarrow> True | Some t \<Rightarrow> t \<le> he_timestamp_ns f)"
    using e r by (cases q) fastforce+
  then show ?case using e r events by (auto simp: precedes_def)
qed simp

lemma precedes_by_id:
  assumes "sorted_wrt precedes events" "a \<in> set events" "b \<in> set events" "he_id a < he_id b"
  shows "he_timestamp_ns a \<le> he_timestamp_ns b"
  using assms
proof (induction events)
  case (Cons e events)
  then show ?case by (auto simp: precedes_def)
qed simp

section \<open>The activities\<close>

text \<open>The terminal event names no started event, and how the two events of an activity may be ordered.\<close>

definition names_no_start :: "history_event \<Rightarrow> bool" where
  "names_no_start e \<longleftrightarrow> (let j = jget (he_attributes e) ''startedEventId'' in j = JNull \<or> equals_int 0 j \<or> j = JStr (lit ''0''))"

definition ends_in_order :: "history_event option \<Rightarrow> history_event option \<Rightarrow> bool" where
  "ends_in_order begun ended \<longleftrightarrow> (case ended of None \<Rightarrow> True
     | Some t \<Rightarrow> (case begun of None \<Rightarrow> names_no_start t | Some s \<Rightarrow> he_id s < he_id t \<or> he_id t < he_id s \<and> names_no_start t))"

lemma optional_event_reference_None: "optional_event_reference (jget (he_attributes e) ''startedEventId'') l = Inr None \<longleftrightarrow> names_no_start e"
  by (auto simp: optional_event_reference_def names_no_start_def Let_def rbind_eq_Inr_iff)

definition lifecycles_ok :: "history_event list \<Rightarrow> lifecycles \<Rightarrow> bool" where
  "lifecycles_ok seen l \<longleftrightarrow> distinct (map fst (lc_scheduled l)) \<and>
     (\<forall>i a t e. dget (lc_scheduled l) i = Some (a, t, e) \<longrightarrow> e \<in> set seen \<and> he_id e = i \<and> some_text a \<and> some_text t) \<and>
     (\<forall>i e n. dget (lc_started l) i = Some (e, n) \<longrightarrow> e \<in> set seen \<and> i < he_id e \<and> 1 \<le> n \<and> n \<le> max_int64) \<and>
     (\<forall>i e o'. dget (lc_terminals l) i = Some (e, o') \<longrightarrow> e \<in> set seen \<and> i < he_id e \<and> some_text o') \<and>
     (\<forall>i. ends_in_order (map_option fst (dget (lc_started l) i)) (map_option fst (dget (lc_terminals l) i)))"

lemma lifecycles_okD:
  assumes "lifecycles_ok seen l"
  shows "dget (lc_scheduled l) i = Some (a, t, e) \<Longrightarrow> e \<in> set seen \<and> he_id e = i \<and> some_text a \<and> some_text t"
    and "dget (lc_started l) i = Some (f, n) \<Longrightarrow> f \<in> set seen \<and> i < he_id f \<and> 1 \<le> n \<and> n \<le> max_int64"
    and "dget (lc_terminals l) i = Some (f, o') \<Longrightarrow> f \<in> set seen \<and> i < he_id f \<and> some_text o'"
    and "ends_in_order (map_option fst (dget (lc_started l) i)) (map_option fst (dget (lc_terminals l) i))"
  using assms unfolding lifecycles_ok_def by blast+

lemma no_lifecycles_ok: "lifecycles_ok [] no_lifecycles"
  by (simp add: lifecycles_ok_def no_lifecycles_def ends_in_order_def)

lemma lifecycles_ok_more: "lifecycles_ok seen l \<Longrightarrow> lifecycles_ok (seen @ [e]) l"
  by (fastforce simp: lifecycles_ok_def)

lemma activity_terminals_texts: "dget activity_terminals k = Some (f, o') \<Longrightarrow> some_text o'"
  by (auto simp: activity_terminals_def some_text_def split: if_splits)

lemma schedule_activity_ok:
  assumes "schedule_activity e l = Inr l'" "lifecycles_ok seen l" "\<forall>a\<in>set seen. he_id a < he_id e"
  shows "lifecycles_ok (seen @ [e]) l'"
proof -
  obtain a t where l': "l' = l\<lparr>lc_scheduled := dset (he_id e) (a, t, e) (lc_scheduled l)\<rparr>" "some_text a" "some_text t"
    using assms(1) by (auto simp: schedule_activity_def rbind_eq_Inr_iff temporal_string_Inr_iff)
  show ?thesis
    using lifecycles_ok_more [OF assms(2), of e] l' by (auto simp: lifecycles_ok_def distinct_keys_dset split: if_splits)
qed

lemma scheduled_before:
  assumes "has_key (lc_scheduled l) i" "lifecycles_ok seen l" "\<forall>a\<in>set seen. he_id a < he_id e"
  shows "i < he_id e"
proof -
  obtain a t e' where "dget (lc_scheduled l) i = Some (a, t, e')" using assms(1) by (auto simp: has_key_iff)
  then show ?thesis using assms(2,3) unfolding lifecycles_ok_def by blast
qed

lemma start_activity_ok:
  assumes "start_activity e l = Inr l'" "lifecycles_ok seen l" "\<forall>a\<in>set seen. he_id a < he_id e"
  shows "lifecycles_ok (seen @ [e]) l'"
proof -
  obtain i n where l': "l' = l\<lparr>lc_started := dset i (e, n) (lc_started l)\<rparr>" "has_key (lc_scheduled l) i" "1 \<le> n \<and> n \<le> max_int64"
    and new: "\<not> has_key (lc_started l) i"
    using assms(1) by (auto simp: start_activity_def rbind_eq_Inr_iff temporal_unless_Inr_iff dest: positive_integer_Inr)
  have order: "ends_in_order (Some e) (map_option fst (dget (lc_terminals l) i))"
  proof (cases "dget (lc_terminals l) i")
    case (Some p)
    obtain t o' where p: "p = (t, o')" by (cases p)
    have "he_id t < he_id e" using lifecycles_okD(3) [OF assms(2) Some [unfolded p]] assms(3) by simp
    moreover have "dget (lc_started l) i = None" using new by (cases "dget (lc_started l) i") (auto simp: has_key_iff)
    then have "names_no_start t" using lifecycles_okD(4) [OF assms(2), of i] by (simp add: ends_in_order_def Some p)
    ultimately show ?thesis by (simp add: ends_in_order_def Some p)
  qed (simp add: ends_in_order_def)
  show ?thesis
    using lifecycles_ok_more [OF assms(2), of e] l' scheduled_before [OF l'(2) assms(2,3)] order
    by (auto simp: lifecycles_ok_def split: if_splits)
qed

lemma end_activity_ok:
  assumes "end_activity events e o' l = Inr l'" "lifecycles_ok seen l" "\<forall>a\<in>set seen. he_id a < he_id e" "some_text o'"
  shows "lifecycles_ok (seen @ [e]) l'"
proof -
  obtain i label where l': "l' = l\<lparr>lc_terminals := dset i (e, o') (lc_terminals l)\<rparr>" "has_key (lc_scheduled l) i"
    and start: "\<exists>r. optional_event_reference (jget (he_attributes e) ''startedEventId'') label = Inr r \<and>
      check_started_reference events e o' i l r = Inr ()"
    using assms(1) by (auto simp: end_activity_def rbind_eq_Inr_iff temporal_unless_Inr_iff)
  have order: "ends_in_order (map_option fst (dget (lc_started l) i)) (Some e)"
  proof (cases "dget (lc_started l) i")
    case (Some p)
    obtain s n where p: "p = (s, n)" by (cases p)
    show ?thesis using lifecycles_okD(2) [OF assms(2) Some [unfolded p]] assms(3) by (simp add: ends_in_order_def Some p)
  next
    case None
    then have "names_no_start e"
      using start by (auto simp: check_started_reference_def optional_event_reference_None temporal_unless_Inr_iff
          rbind_eq_Inr_iff split: option.splits)
    then show ?thesis by (simp add: ends_in_order_def None)
  qed
  show ?thesis
    using lifecycles_ok_more [OF assms(2), of e] l'(1) scheduled_before [OF l'(2) assms(2,3)] assms(4) order
    by (auto simp: lifecycles_ok_def split: if_splits)
qed

lemma lifecycle_step_ok:
  assumes "lifecycle_step events e l = Inr l'" "lifecycles_ok seen l" "\<forall>a\<in>set seen. he_id a < he_id e"
  shows "lifecycles_ok (seen @ [e]) l'"
  using assms(1) activity_terminals_texts schedule_activity_ok [OF _ assms(2,3)] start_activity_ok [OF _ assms(2,3)]
    end_activity_ok [OF _ assms(2,3)] lifecycles_ok_more [OF assms(2)]
  unfolding lifecycle_step_def by (auto split: if_splits option.splits prod.splits)

lemma read_lifecycles_ok:
  "read_lifecycles events es l = Inr l' \<Longrightarrow> lifecycles_ok seen l \<Longrightarrow> sorted_wrt precedes (seen @ es) \<Longrightarrow> lifecycles_ok (seen @ es) l'"
proof (induction es arbitrary: seen l)
  case (Cons e es)
  obtain l1 where step: "lifecycle_step events e l = Inr l1" and rest: "read_lifecycles events es l1 = Inr l'"
    using Cons.prems(1) by (auto simp: rbind_eq_Inr_iff)
  have "\<forall>a\<in>set seen. he_id a < he_id e" using Cons.prems(3) by (auto simp: sorted_wrt_append precedes_def)
  then have "lifecycles_ok (seen @ [e]) l1" by (rule lifecycle_step_ok [OF step Cons.prems(2)])
  then show ?case using Cons.IH [OF rest, of "seen @ [e]"] Cons.prems(3) by simp
qed simp

section \<open>The history\<close>

definition history_ok :: "history \<Rightarrow> bool" where
  "history_ok h \<longleftrightarrow> (\<exists>events. sorted_wrt precedes events \<and> list_all history_event_ok events \<and> events \<noteq> [] \<and> hi_started h = hd events \<and>
     (\<forall>t. hi_terminal h = Some t \<longrightarrow> t = last events) \<and> some_text (hi_workflow_type h) \<and> pred_option some_text (hi_workflow_id h) \<and>
     pred_option some_text (hi_outcome h) \<and> distinct (map (he_id \<circ> ac_scheduled) (hi_activities h)) \<and>
     (\<forall>a\<in>set (hi_activities h). ac_scheduled a \<in> set events \<and> some_text (ac_activity_id a) \<and> some_text (ac_activity_type a) \<and>
       pred_option (\<lambda>e. e \<in> set events \<and> he_id (ac_scheduled a) < he_id e) (ac_started a) \<and>
       pred_option (\<lambda>e. e \<in> set events \<and> he_id (ac_scheduled a) < he_id e) (ac_terminal a) \<and>
       pred_option (\<lambda>n. 1 \<le> n \<and> n \<le> max_int64) (ac_attempt a) \<and> pred_option some_text (ac_outcome a) \<and>
       ends_in_order (ac_started a) (ac_terminal a)))"

lemma workflow_terminals_texts: "dget workflow_terminals k = Some o' \<Longrightarrow> some_text o'"
  by (auto simp: workflow_terminals_def some_text_def split: if_splits)

lemma activities_ok:
  assumes "lifecycles_ok events l"
  defines "as \<equiv> map (activity_of l) (sort_key fst (lc_scheduled l))"
  shows "distinct (map (he_id \<circ> ac_scheduled) as) \<and>
     (\<forall>a\<in>set as. ac_scheduled a \<in> set events \<and> some_text (ac_activity_id a) \<and> some_text (ac_activity_type a) \<and>
       pred_option (\<lambda>e. e \<in> set events \<and> he_id (ac_scheduled a) < he_id e) (ac_started a) \<and>
       pred_option (\<lambda>e. e \<in> set events \<and> he_id (ac_scheduled a) < he_id e) (ac_terminal a) \<and>
       pred_option (\<lambda>n. 1 \<le> n \<and> n \<le> max_int64) (ac_attempt a) \<and> pred_option some_text (ac_outcome a) \<and>
       ends_in_order (ac_started a) (ac_terminal a))"
proof -
  have mem: "dget (lc_scheduled l) i = Some (a, t, e)" if "(i, a, t, e) \<in> set (lc_scheduled l)" for i a t e
    using assms(1) that by (simp add: lifecycles_ok_def)
  have id: "he_id (ac_scheduled (activity_of l x)) = fst x" if "x \<in> set (lc_scheduled l)" for x
  proof -
    obtain i b t e where x: "x = (i, b, t, e)" by (cases x)
    then show ?thesis
      using lifecycles_okD(1) [OF assms(1) mem [of i b t e]] that by (simp add: activity_of_def)
  qed
  have "map (he_id \<circ> ac_scheduled) as = map fst (sort_key fst (lc_scheduled l))" unfolding as_def using id by simp
  moreover have "distinct (map fst (sort_key fst (lc_scheduled l)))"
    using assms(1) by (simp add: lifecycles_ok_def distinct_map)
  moreover have "ac_scheduled a \<in> set events \<and> some_text (ac_activity_id a) \<and> some_text (ac_activity_type a) \<and>
       pred_option (\<lambda>e. e \<in> set events \<and> he_id (ac_scheduled a) < he_id e) (ac_started a) \<and>
       pred_option (\<lambda>e. e \<in> set events \<and> he_id (ac_scheduled a) < he_id e) (ac_terminal a) \<and>
       pred_option (\<lambda>n. 1 \<le> n \<and> n \<le> max_int64) (ac_attempt a) \<and> pred_option some_text (ac_outcome a) \<and>
       ends_in_order (ac_started a) (ac_terminal a)" if mem': "a \<in> set as" for a
  proof -
    obtain i b t e where a: "a = activity_of l (i, b, t, e)" and "(i, b, t, e) \<in> set (lc_scheduled l)"
      using mem' unfolding as_def set_map set_sort by fastforce
    note m = mem [OF this(2)]
    have sched: "e \<in> set events" "he_id e = i" "some_text b" "some_text t"
      using lifecycles_okD(1) [OF assms(1) m] by simp_all
    show ?thesis
      unfolding a activity_of_def prod.case activity.simps
      using sched lifecycles_okD(2,3) [OF assms(1)] lifecycles_okD(4) [OF assms(1), of i] by (auto simp: option.pred_set elem_set)
  qed
  ultimately show ?thesis by simp
qed

lemma last_is_max:
  assumes "sorted_wrt precedes events" "e \<in> set events" "e \<noteq> last events"
  shows "precedes e (last events)"
  using assms by (induction events rule: rev_induct) (auto simp: sorted_wrt_append)

lemma read_history_ok:
  assumes "read_history digit raw = Inr h"
  shows "history_ok h"
  using assms unfolding read_history_def rbind_eq_Inr_iff Let_def
proof (elim exE conjE, goal_cases)
  case (1 events _ _ type_object workflow_type workflow_id _ _ l)
  let ?t = "filter (\<lambda>e. has_key workflow_terminals (he_type e)) events"
  let ?terminal = "case ?t of [] \<Rightarrow> None | t # _ \<Rightarrow> Some t"
  have h: "h = \<lparr>hi_workflow_id = workflow_id, hi_workflow_type = workflow_type, hi_started = hd events, hi_terminal = ?terminal,
     hi_outcome = Option.bind ?terminal (\<lambda>t. dget workflow_terminals (he_type t)),
     hi_activities = map (activity_of l) (sort_key fst (lc_scheduled l))\<rparr>"
    using 1 by simp
  have raw: "raw \<noteq> []" "read_history_events digit 0 None raw = Inr events"
    using 1(1) by (auto simp: normalize_events_def rbind_eq_Inr_iff temporal_unless_Inr_iff)
  note events = read_history_events_Inr [OF raw(2)]
  have "lifecycles_ok ([] @ events) l"
    using 1 events by (intro read_lifecycles_ok [of events events no_lifecycles]) (simp_all add: no_lifecycles_ok)
  then have acts: "lifecycles_ok events l" by simp
  have terminal: "\<forall>t. ?terminal = Some t \<longrightarrow> t = last events"
    using 1 by (auto simp: temporal_unless_Inr_iff split: list.splits)
  have outcome: "pred_option some_text (Option.bind ?terminal (\<lambda>t. dget workflow_terminals (he_type t)))"
    using workflow_terminals_texts by (auto simp: option.pred_set elem_set split: list.splits bind_splits)
  have wid: "pred_option some_text workflow_id" by (rule temporal_optional_string_Inr) (use 1 in blast)
  have wtype: "some_text workflow_type" using 1 by (auto simp: temporal_string_Inr_iff)
  show ?case
    unfolding history_ok_def h history.simps
    using raw events terminal outcome wid wtype activities_ok [OF acts] by (intro exI [of _ events]) auto
qed

section \<open>The intervals\<close>

lemma history_intervals:
  assumes "history_ok h" "a \<in> set (hi_activities h)"
  shows "he_timestamp_ns (hi_started h) \<le> he_timestamp_ns (ac_scheduled a) \<and>
     (\<forall>w. hi_terminal h = Some w \<longrightarrow> he_timestamp_ns (ac_scheduled a) \<le> he_timestamp_ns w) \<and>
     (\<forall>e. ac_started a = Some e \<or> ac_terminal a = Some e \<longrightarrow>
       he_timestamp_ns (ac_scheduled a) \<le> he_timestamp_ns e \<and> (\<forall>w. hi_terminal h = Some w \<longrightarrow> he_timestamp_ns e \<le> he_timestamp_ns w)) \<and>
     (\<forall>s t. ac_started a = Some s \<and> ac_terminal a = Some t \<longrightarrow>
       he_timestamp_ns s \<le> he_timestamp_ns t \<or> he_id t < he_id s \<and> names_no_start t)"
proof -
  obtain events where sorted: "sorted_wrt precedes events" and ne: "events \<noteq> []" and first: "hi_started h = hd events"
    and final: "\<forall>t. hi_terminal h = Some t \<longrightarrow> t = last events"
    and act: "ac_scheduled a \<in> set events" "pred_option (\<lambda>e. e \<in> set events \<and> he_id (ac_scheduled a) < he_id e) (ac_started a)"
      "pred_option (\<lambda>e. e \<in> set events \<and> he_id (ac_scheduled a) < he_id e) (ac_terminal a)" "ends_in_order (ac_started a) (ac_terminal a)"
    using assms unfolding history_ok_def by blast
  have start: "he_timestamp_ns (hd events) \<le> he_timestamp_ns e" if "e \<in> set events" for e
    using that sorted ne by (cases events) (auto simp: precedes_def)
  have stop: "he_timestamp_ns e \<le> he_timestamp_ns w" if "e \<in> set events" "hi_terminal h = Some w" for e w
    using last_is_max [OF sorted that(1)] final that(2) by (auto simp: precedes_def)
  have inside: "e \<in> set events \<and> he_timestamp_ns (ac_scheduled a) \<le> he_timestamp_ns e"
    if "ac_started a = Some e \<or> ac_terminal a = Some e" for e
    using that act(1-3) precedes_by_id [OF sorted act(1), of e] by auto
  have order: "he_timestamp_ns s \<le> he_timestamp_ns t \<or> he_id t < he_id s \<and> names_no_start t"
    if "ac_started a = Some s" "ac_terminal a = Some t" for s t
    using act(4) that inside [of s] inside [of t] precedes_by_id [OF sorted, of s t] by (auto simp: ends_in_order_def)
  show ?thesis unfolding first using start [OF act(1)] stop act(1) inside order by blast
qed

section \<open>The ids\<close>

lemma activity_ids:
  assumes "history_ok h"
  shows "distinct (map (he_id \<circ> ac_scheduled) (hi_activities h))" "\<forall>a\<in>set (hi_activities h). 0 \<le> he_id (ac_scheduled a)"
  using assms unfolding history_ok_def by (fastforce simp: list_all_iff history_event_ok_def)+

lemma suffixed_id_inject:
  assumes "0 \<le> he_id (ac_scheduled a)" "0 \<le> he_id (ac_scheduled b)"
    and "r = [] \<or> (\<exists>r'. r = 58 # r')" "s = [] \<or> (\<exists>s'. s = 58 # s')"
  shows "activity_event_id a @ r = activity_event_id b @ s \<longleftrightarrow> he_id (ac_scheduled a) = he_id (ac_scheduled b) \<and> r = s"
proof -
  let ?a = "int_text (he_id (ac_scheduled a))" and ?b = "int_text (he_id (ac_scheduled b))"
  note c = colon_not_digit [OF assms(1)] colon_not_digit [OF assms(2)]
  have "?a @ r = ?b @ s \<longleftrightarrow> ?a = ?b \<and> r = s"
    using assms(3,4) c split_colon [OF c] by (auto simp: append_eq_append_conv2) (metis append_Nil2 in_set_conv_decomp)+
  then show ?thesis using int_text_inject [OF assms(1,2)] by (simp add: activity_event_id_def)
qed

lemma workflow_id_differs: "workflow_event_id h \<noteq> activity_event_id a @ r"
  by (simp add: workflow_event_id_def activity_event_id_def)

end
