(* ===== verification/TemporalTree.thy ===== *)
theory TemporalTree
  imports TemporalLaws
begin

text \<open>
  The events and edges that are made of an accepted history: the ids are distinct, every event but the one of
  the workflow has one edge that leads to it, and no event of the runpack is claimed by two activities.
\<close>

section \<open>The events and edges of one activity\<close>

definition execution_event_id :: "activity \<Rightarrow> pystr" where
  "execution_event_id a = activity_event_id a @ lit '':execution''"

definition own_ids :: "history \<Rightarrow> event list \<Rightarrow> activity \<Rightarrow> pystr list" where
  "own_ids h existing a = [activity_event_id a, queue_event_id a] @
     (case activity_execution_of h existing a of Fallback v \<Rightarrow> [execution_event_id a] | _ \<Rightarrow> [])"

lemma fallback_id: "activity_execution_of h existing a = Fallback v \<Longrightarrow> ev_id v = execution_event_id a"
  by (auto simp: activity_execution_of_def execution_event_def temporal_event_def execution_event_id_def split: option.splits)

lemma activity_event_ids: "map ev_id (activity_events h existing a) = own_ids h existing a"
  by (auto simp: activity_events_def own_ids_def activity_event_def queue_event_def temporal_event_def fallback_id
      split: activity_execution.splits)

definition correlated_ids :: "history \<Rightarrow> event list \<Rightarrow> activity \<Rightarrow> pystr list" where
  "correlated_ids h existing a = (case activity_execution_of h existing a of Correlated v \<Rightarrow> [ev_id v] | _ \<Rightarrow> [])"

lemma activity_edge_targets: "map edge_target (activity_edges h existing a) = own_ids h existing a @ correlated_ids h existing a"
  by (auto simp: activity_edges_def own_ids_def correlated_ids_def temporal_edge_def fallback_id split: activity_execution.splits)

lemma activity_edge_sources:
  "set (map edge_source (activity_edges h existing a)) \<subseteq> {workflow_event_id h, activity_event_id a, queue_event_id a}"
  by (auto simp: activity_edges_def temporal_edge_def split: activity_execution.splits)

definition id_suffixes :: "pystr set" where
  "id_suffixes = {[], lit '':queue'', lit '':execution''}"

lemma own_ids_suffixed: "i \<in> set (own_ids h existing a) \<Longrightarrow> \<exists>r\<in>id_suffixes. i = activity_event_id a @ r"
  by (auto simp: own_ids_def queue_event_id_def execution_event_id_def id_suffixes_def split: activity_execution.splits)

lemma id_suffixes_colon: "r \<in> id_suffixes \<Longrightarrow> r = [] \<or> (\<exists>r'. r = 58 # r')"
  by (auto simp: id_suffixes_def lit_def)

lemma own_ids_disjoint:
  assumes "0 \<le> he_id (ac_scheduled a)" "0 \<le> he_id (ac_scheduled b)" "he_id (ac_scheduled a) \<noteq> he_id (ac_scheduled b)"
  shows "set (own_ids h existing a) \<inter> set (own_ids h existing b) = {}"
proof (rule ccontr)
  assume "\<not> ?thesis"
  then obtain i where "i \<in> set (own_ids h existing a)" "i \<in> set (own_ids h existing b)" by blast
  then obtain r s where "r \<in> id_suffixes" "s \<in> id_suffixes" "activity_event_id a @ r = activity_event_id b @ s"
    using own_ids_suffixed by metis
  then show False
    using suffixed_id_inject [OF assms(1,2) id_suffixes_colon id_suffixes_colon] assms(3) by blast
qed

lemma own_ids_distinct: "distinct (own_ids h existing a)"
  by (auto simp: own_ids_def queue_event_id_def execution_event_id_def lit_def split: activity_execution.splits)

lemma own_ids_not_workflow: "workflow_event_id h \<notin> set (own_ids h existing a)"
  using own_ids_suffixed workflow_id_differs by metis

section \<open>Correlated events\<close>

lemma correlated:
  assumes "activity_execution_of h existing a = Correlated v"
  shows "v \<in> set existing" "ev_name v = run_activity_name a" "jget (ev_attributes v) ''temporalActivityID'' = JStr (ac_activity_id a)"
    "length (filter (\<lambda>b. ac_activity_id b = ac_activity_id a \<and> ac_activity_type b = ac_activity_type a) (hi_activities h)) = 1"
proof -
  obtain vs where one: "length (filter (\<lambda>b. ac_activity_id b = ac_activity_id a \<and> ac_activity_type b = ac_activity_type a) (hi_activities h)) = 1"
    and v: "otel_activity_match a (hi_workflow_id h) existing = Some v"
    using assms by (auto simp: activity_execution_of_def split: if_splits option.splits)
  let ?P = "\<lambda>v. ev_kind v = lit ''server.request'' \<and> ev_name v = run_activity_name a \<and>
         jget (ev_attributes v) ''temporalActivityID'' = JStr (ac_activity_id a) \<and>
         (case hi_workflow_id h of None \<Rightarrow> True | Some w \<Rightarrow> jget (ev_attributes v) ''temporalWorkflowID'' = JStr w)"
  have "filter ?P existing = [v]" using v unfolding otel_activity_match_def by (auto split: list.splits)
  then have "v \<in> set (filter ?P existing)" by (metis list.set_intros(1))
  with one show "v \<in> set existing" "ev_name v = run_activity_name a" "jget (ev_attributes v) ''temporalActivityID'' = JStr (ac_activity_id a)"
    "length (filter (\<lambda>b. ac_activity_id b = ac_activity_id a \<and> ac_activity_type b = ac_activity_type a) (hi_activities h)) = 1"
    by auto
qed

lemma correlated_once:
  assumes "activity_execution_of h existing a = Correlated v" "activity_execution_of h existing b = Correlated v"
    "a \<in> set (hi_activities h)" "b \<in> set (hi_activities h)"
  shows "a = b"
proof -
  note a = correlated [OF assms(1)] and b = correlated [OF assms(2)]
  have same: "ac_activity_id b = ac_activity_id a" "ac_activity_type b = ac_activity_type a"
    using a(2,3) b(2,3) by (simp_all add: run_activity_name_def)
  obtain x where "filter (\<lambda>b. ac_activity_id b = ac_activity_id a \<and> ac_activity_type b = ac_activity_type a) (hi_activities h) = [x]"
    using a(4) by (auto simp: length_Suc_conv)
  then have "{b \<in> set (hi_activities h). ac_activity_id b = ac_activity_id a \<and> ac_activity_type b = ac_activity_type a} = {x}"
    by (metis set_filter list.set(1,2))
  then have "a \<in> {x}" "b \<in> {x}" using assms(3,4) same by blast+
  then show ?thesis by simp
qed

lemma correlated_ids_disjoint:
  assumes "distinct (map ev_id existing)" "a \<in> set (hi_activities h)" "b \<in> set (hi_activities h)" "a \<noteq> b"
  shows "set (correlated_ids h existing a) \<inter> set (correlated_ids h existing b) = {}"
proof -
  have differ: "ev_id v \<noteq> ev_id w"
    if "activity_execution_of h existing a = Correlated v" "activity_execution_of h existing b = Correlated w" for v w
  proof
    assume "ev_id v = ev_id w"
    then have "v = w" using correlated(1) [OF that(1)] correlated(1) [OF that(2)] assms(1) by (metis distinct_map inj_onD)
    then show False using correlated_once [OF that(1) _ assms(2,3)] that(2) assms(4) by blast
  qed
  then show ?thesis
    by (cases "activity_execution_of h existing a"; cases "activity_execution_of h existing b")
      (use differ in \<open>fastforce simp: correlated_ids_def\<close>)+
qed

lemma correlated_ids_existing: "set (correlated_ids h existing a) \<subseteq> ev_id ` set existing"
  using correlated(1) by (auto simp: correlated_ids_def split: activity_execution.splits)

section \<open>The graph of the history\<close>

lemma history_event_ids:
  "map ev_id (history_events h existing) = workflow_event_id h # concat (map (own_ids h existing) (hi_activities h))"
  by (simp add: history_events_def workflow_event_def temporal_event_def map_concat activity_event_ids comp_def)

lemma history_edge_targets:
  "map edge_target (history_edges h existing) =
     concat (map (\<lambda>a. own_ids h existing a @ correlated_ids h existing a) (hi_activities h))"
  by (simp add: history_edges_def map_concat activity_edge_targets comp_def)

lemma activities_apart:
  assumes "history_ok h" "a \<in> set (hi_activities h)" "b \<in> set (hi_activities h)" "a \<noteq> b"
  shows "set (own_ids h existing a) \<inter> set (own_ids h existing b) = {}"
proof (rule own_ids_disjoint)
  show "0 \<le> he_id (ac_scheduled a)" "0 \<le> he_id (ac_scheduled b)" using activity_ids(2) [OF assms(1)] assms(2,3) by blast+
  show "he_id (ac_scheduled a) \<noteq> he_id (ac_scheduled b)"
    using activity_ids(1) [OF assms(1)] assms(2-4) by (auto simp: distinct_map inj_on_def)
qed

lemma activities_distinct: "history_ok h \<Longrightarrow> distinct (hi_activities h)"
  using activity_ids(1) by (simp add: distinct_map)

lemma history_ids_distinct: "history_ok h \<Longrightarrow> distinct (map ev_id (history_events h existing))"
  unfolding history_event_ids
  using own_ids_not_workflow distinct_concat_map [OF activities_distinct own_ids_distinct activities_apart] by fastforce

lemma normalize_history_Inr:
  assumes "normalize_history h existing = Inr (events, edges, m, n)"
  shows "events = history_events h existing" "edges = history_edges h existing"
    "set (map ev_id (history_events h existing)) \<inter> ev_id ` set existing = {}"
    "m = correlation_count h existing" "n = fallback_count h existing"
proof -
  have "List.find (\<lambda>v. ev_id v \<in> ev_id ` set existing) (history_events h existing) = None"
    using assms by (auto simp: normalize_history_def split: option.splits)
  then show "set (map ev_id (history_events h existing)) \<inter> ev_id ` set existing = {}"
    by (auto simp: find_None_iff)
qed (use assms in \<open>auto simp: normalize_history_def split: option.splits\<close>)

lemma history_targets_distinct:
  assumes ok: "history_ok h" and new: "set (map ev_id (history_events h existing)) \<inter> ev_id ` set existing = {}"
    and existing: "distinct (map ev_id existing)"
  shows "distinct (map edge_target (history_edges h existing))"
  unfolding history_edge_targets
proof (rule distinct_concat_map [OF activities_distinct [OF ok]])
  have own: "set (own_ids h existing a) \<inter> ev_id ` set existing = {}" if "a \<in> set (hi_activities h)" for a
    using new that unfolding history_event_ids by auto
  have corr: "set (own_ids h existing a) \<inter> set (correlated_ids h existing b) = {}" if "a \<in> set (hi_activities h)" for a b
    by (rule subset_empty [THEN iffD1, OF subset_trans [OF Int_mono [OF subset_refl correlated_ids_existing]]]) (simp add: own [OF that])
  fix a assume a: "a \<in> set (hi_activities h)"
  have "distinct (correlated_ids h existing a)" by (simp add: correlated_ids_def split: activity_execution.splits)
  then show "distinct (own_ids h existing a @ correlated_ids h existing a)"
    by (simp only: distinct_append own_ids_distinct corr [OF a] simp_thms)
  fix b assume b: "b \<in> set (hi_activities h)" "a \<noteq> b"
  show "set (own_ids h existing a @ correlated_ids h existing a) \<inter> set (own_ids h existing b @ correlated_ids h existing b) = {}"
    using activities_apart [OF ok a b, of existing] correlated_ids_disjoint [OF existing a b] corr [OF a, of b] corr [OF b(1), of a]
    by (simp only: set_append Int_Un_distrib Int_Un_distrib2 Un_empty Int_commute simp_thms)
qed

lemma history_targets:
  "set (map edge_target (history_edges h existing)) \<supseteq> set (map ev_id (tl (history_events h existing)))"
  using history_event_ids [of h existing] unfolding history_edge_targets map_tl by auto

lemma history_sources:
  "set (map edge_source (history_edges h existing)) \<subseteq> set (map ev_id (history_events h existing))"
proof -
  have "set (map edge_source (activity_edges h existing a)) \<subseteq> {workflow_event_id h} \<union> set (own_ids h existing a)" for a
    using activity_edge_sources [of h existing a] by (auto simp: own_ids_def)
  then show ?thesis unfolding history_event_ids history_edges_def by (auto simp: map_concat)
qed

lemma history_targets_not_workflow:
  assumes "set (map ev_id (history_events h existing)) \<inter> ev_id ` set existing = {}"
  shows "workflow_event_id h \<notin> set (map edge_target (history_edges h existing))"
proof -
  have "workflow_event_id h \<notin> set (correlated_ids h existing a)" for a
    using assms correlated_ids_existing [of h existing a] unfolding history_event_ids by auto
  then show ?thesis using own_ids_not_workflow unfolding history_edge_targets by simp
qed

section \<open>A tree\<close>

definition edge_pairs :: "causal_edge list \<Rightarrow> (pystr \<times> pystr) set" where
  "edge_pairs edges = (\<lambda>g. (edge_source g, edge_target g)) ` set edges"

lemma activity_edge_pairs:
  "edge_pairs (activity_edges h existing a) =
     {(workflow_event_id h, activity_event_id a), (activity_event_id a, queue_event_id a)} \<union>
     Pair (queue_event_id a) ` (case activity_execution_of h existing a of NoExecution \<Rightarrow> {} | Correlated v \<Rightarrow> {ev_id v} | Fallback v \<Rightarrow> {ev_id v})"
  by (auto simp: edge_pairs_def activity_edges_def temporal_edge_def split: activity_execution.splits)

lemma history_edge_pairs:
  "edge_pairs (history_edges h existing) = (\<Union>a\<in>set (hi_activities h). edge_pairs (activity_edges h existing a))"
  by (auto simp: edge_pairs_def history_edges_def)

text \<open>Every target is reached from the workflow.\<close>

lemma history_reachable:
  assumes "i \<in> set (map edge_target (history_edges h existing))"
  shows "(workflow_event_id h, i) \<in> (edge_pairs (history_edges h existing))\<^sup>*"
proof -
  let ?R = "edge_pairs (history_edges h existing)"
  obtain s where "(s, i) \<in> ?R" using assms by (auto simp: edge_pairs_def)
  then obtain a where a: "a \<in> set (hi_activities h)" "(s, i) \<in> edge_pairs (activity_edges h existing a)"
    unfolding history_edge_pairs by blast
  have sub: "edge_pairs (activity_edges h existing a) \<subseteq> ?R" using a(1) unfolding history_edge_pairs by blast
  have "(workflow_event_id h, activity_event_id a) \<in> ?R" "(activity_event_id a, queue_event_id a) \<in> ?R"
    using sub unfolding activity_edge_pairs by blast+
  then have "(workflow_event_id h, activity_event_id a) \<in> ?R\<^sup>*" "(workflow_event_id h, queue_event_id a) \<in> ?R\<^sup>*"
    by (blast intro: rtrancl_trans)+
  moreover have "s = workflow_event_id h \<or> s = activity_event_id a \<or> s = queue_event_id a" using a(2) unfolding activity_edge_pairs by auto
  ultimately have "(workflow_event_id h, s) \<in> ?R\<^sup>*" by blast
  then show ?thesis using \<open>(s, i) \<in> ?R\<close> by (rule rtrancl_into_rtrancl)
qed

text \<open>Reached from a node that no edge leads to, with one edge to every other node: there is no cycle.\<close>

lemma rooted_acyclic:
  assumes root: "r \<notin> Range R" and unique: "\<And>a b c. (a, c) \<in> R \<Longrightarrow> (b, c) \<in> R \<Longrightarrow> a = b"
    and reached: "\<And>b. b \<in> Range R \<Longrightarrow> (r, b) \<in> R\<^sup>*"
  shows "acyclic R"
proof (rule acyclicI, intro allI notI)
  fix x assume cycle: "(x, x) \<in> R\<^sup>+"
  have "\<not> (y, y) \<in> R\<^sup>+" if "(r, y) \<in> R\<^sup>*" for y
    using that
  proof (induction rule: rtrancl_induct)
    case base
    then show ?case using root by (metis RangeI tranclD2)
  next
    case (step y z)
    show ?case
    proof
      assume "(z, z) \<in> R\<^sup>+"
      then obtain w where w: "(z, w) \<in> R\<^sup>*" "(w, z) \<in> R" by (metis tranclD2)
      then have "w = y" using unique step.hyps(2) by blast
      then have "(y, y) \<in> R\<^sup>+" using step.hyps(2) w(1) by (metis rtrancl_into_trancl2)
      then show False using step.IH by simp
    qed
  qed
  then show False using reached cycle by (metis RangeI tranclD2)
qed

lemma distinct_targets_unique:
  assumes "distinct (map edge_target edges)" "(a, c) \<in> edge_pairs edges" "(b, c) \<in> edge_pairs edges"
  shows "a = b"
  using assms by (auto simp: edge_pairs_def distinct_map dest: inj_onD)

lemma history_acyclic:
  assumes "distinct (map edge_target (history_edges h existing))" "workflow_event_id h \<notin> set (map edge_target (history_edges h existing))"
  shows "acyclic (edge_pairs (history_edges h existing))"
proof (rule rooted_acyclic)
  have range: "Range (edge_pairs (history_edges h existing)) = set (map edge_target (history_edges h existing))"
    by (force simp: edge_pairs_def)
  show "workflow_event_id h \<notin> Range (edge_pairs (history_edges h existing))" unfolding range by (rule assms(2))
  show "(workflow_event_id h, b) \<in> (edge_pairs (history_edges h existing))\<^sup>*" if "b \<in> Range (edge_pairs (history_edges h existing))" for b
    using that unfolding range by (rule history_reachable)
qed (rule distinct_targets_unique [OF assms(1)])

end
