(* ===== verification/EnrichmentLaws.thy ===== *)
theory EnrichmentLaws
  imports Enrichment StorageInvariant
begin

text \<open>
  What an import that adds a graph of events leaves behind: the execution's bounds cover the times of the new
  events, the rows of the events and edges follow the old ones, and nothing else changed.
\<close>

lemma event_timestamps_covered:
  "v \<in> set vs \<Longrightarrow> pred_option (\<lambda>t. t \<in> set (event_timestamps vs)) (ev_started_at_ns v) \<and>
     pred_option (\<lambda>t. t \<in> set (event_timestamps vs)) (ev_finished_at_ns v)"
  by (cases "ev_started_at_ns v"; cases "ev_finished_at_ns v") (force simp: event_timestamps_def)+

text \<open>The row of the execution is the only one that is updated.\<close>

definition graph_added :: "event list \<Rightarrow> causal_edge list \<Rightarrow> db \<Rightarrow> db \<Rightarrow> bool" where
  "graph_added vs gs d d' \<longleftrightarrow> (\<exists>r s f rs ss. db_executions d = [r] \<and> xr_started_at_ns r = OInt s \<and> xr_finished_at_ns r = opt_int f \<and>
     traverse event_values vs = Inr rs \<and> traverse edge_values gs = Inr ss \<and>
     d' = d\<lparr>db_executions := [r\<lparr>xr_started_at_ns := OInt (min s (Min (set (event_timestamps vs)))),
         xr_finished_at_ns := opt_int (map_option (\<lambda>t. max t (Max (set (event_timestamps vs)))) f)\<rparr>],
       db_events := db_events d @ rs, db_edges := db_edges d @ ss\<rparr>)"

lemma expand_and_add:
  assumes wf: "wf_db d" and times: "event_timestamps vs \<noteq> []"
    and expand: "expand_to (event_timestamps vs) (snapshot_conn p d) = (c1, Inr ())" and add: "add_event_graph vs gs c1 = (c2, Inr ())"
  shows "graph_added vs gs d (conn_committed c2)" "wf_db (conn_committed c2)"
proof -
  let ?c = "snapshot_conn p d"
  have settled: "settled ?c" and d: "conn_committed ?c = d" by (simp_all add: snapshot_conn_def settled_def)
  have run: "expand_execution_bounds (Min (set (event_timestamps vs))) (Some (Max (set (event_timestamps vs)))) ?c = (c1, Inr ())"
    using expand times by (simp add: expand_to_def)
  have c1: "settled c1" "wf_db (conn_committed c1)"
    using safe_expand [of "Min (set (event_timestamps vs))" "Some (Max (set (event_timestamps vs)))" ?c] settled wf run
    by (simp_all add: safe_at_def d)
  show "wf_db (conn_committed c2)" using safe_add_event_graph [of vs gs c1] c1 add by (simp add: safe_at_def)
  obtain r s f where bounds: "db_executions d = [r]" "xr_started_at_ns r = OInt s" "xr_finished_at_ns r = opt_int f"
    "conn_committed c1 = put_executions [r\<lparr>xr_started_at_ns := OInt (min s (Min (set (event_timestamps vs)))),
       xr_finished_at_ns := opt_int (case f of None \<Rightarrow> None | Some t \<Rightarrow> Some (max t (Max (set (event_timestamps vs)))))\<rparr>] d"
    using expand_execution_bounds_returns [OF settled _ run] wf unfolding d option.case(2) by blast
  obtain rs ss where "traverse event_values vs = Inr rs" "traverse edge_values gs = Inr ss"
    "conn_committed c2 = (conn_committed c1)\<lparr>db_events := db_events (conn_committed c1) @ rs,
      db_edges := db_edges (conn_committed c1) @ ss\<rparr>"
    using event_graph_stored [OF c1(1) add] by blast
  then show "graph_added vs gs d (conn_committed c2)"
    unfolding graph_added_def using bounds by (intro exI [of _ r] exI [of _ s] exI [of _ f]) (cases f, auto)
qed

text \<open>A writer call that returns keeps the tables well formed.\<close>

lemma writer_call_keeps:
  assumes "safe_at wf_db m c" "m c = (c', Inr x)" "settled c" "wf_db (conn_committed c)"
  shows "settled c'" "wf_db (conn_committed c')"
  using assms by (simp_all add: safe_at_def)

lemma snapshot_conn_settled: "settled (snapshot_conn p d)" "conn_committed (snapshot_conn p d) = d"
  by (simp_all add: snapshot_conn_def settled_def)

lemma expand_to_keeps:
  "expand_to ts c = (c', Inr u) \<Longrightarrow> settled c \<Longrightarrow> wf_db (conn_committed c) \<Longrightarrow> settled c' \<and> wf_db (conn_committed c')"
  using writer_call_keeps [OF safe_expand] by (auto simp: expand_to_def sreturn_def split: if_splits)

section \<open>Imports\<close>

text \<open>
  What the imports of foreign evidence share: the destination is checked, the source is parsed, and the operation
  works on a copy that is published when it returns. An import brings a parser, which yields the evidence, and an
  operation that keeps the tables well formed.
\<close>

locale evidence_import =
  fixes parse :: "nat list option \<Rightarrow> 'h res"
    and operation :: "'h \<Rightarrow> 'a stmt"
  assumes operation_keeps: "operation h c = (c', Inr x) \<Longrightarrow> settled c \<Longrightarrow> wf_db (conn_committed c) \<Longrightarrow> wf_db (conn_committed c')"
begin

definition run_import :: "destination \<Rightarrow> pystr \<Rightarrow> db \<Rightarrow> nat list option \<Rightarrow> ('a \<times> db) res" where
  "run_import output temporary runpack source =
     rbind (validate_enrichment_destination output) (\<lambda>_. rbind (parse source) (\<lambda>h. enrich_copy output temporary runpack (operation h)))"

lemma run_import_Inr:
  assumes "run_import output temporary runpack source = Inr (x, published)"
  obtains h c where "parse source = Inr h" "operation h (snapshot_conn temporary runpack) = (c, Inr x)" "published = conn_committed c"
    "\<not> ds_exists output"
proof -
  obtain h where h: "parse source = Inr h" and copy: "enrich_copy output temporary runpack (operation h) = Inr (x, published)"
    using assms unfolding run_import_def rbind_eq_Inr_iff by blast
  show thesis using enrich_copy_Inr [OF copy] that [OF h] by blast
qed

lemma published_well_formed:
  assumes "run_import output temporary runpack source = Inr (x, published)" "wf_db runpack"
  shows "wf_db published \<and> \<not> ds_exists output"
proof -
  obtain h c where run: "operation h (snapshot_conn temporary runpack) = (c, Inr x)" and c: "published = conn_committed c" "\<not> ds_exists output"
    by (rule run_import_Inr [OF assms(1)])
  show ?thesis using operation_keeps [OF run] c assms(2) by (simp add: snapshot_conn_settled)
qed

end

end
