(* ===== verification/TemporalProperties.thy ===== *)
theory TemporalProperties
  imports TemporalTree EnrichmentLaws
begin

text \<open>
  What the import of a Temporal history promises, with a sample history on which each statement is witnessed.
\<close>

section \<open>A history\<close>

text \<open>An activity that was scheduled, started and completed in a workflow that completed.\<close>

definition sample_history_event :: "int \<Rightarrow> string \<Rightarrow> string \<Rightarrow> attrs \<Rightarrow> attrs" where
  "sample_history_event i time kind details =
     [(lit ''eventId'', JInt i), (lit ''eventTime'', jtext time), (lit ''eventType'', jtext kind)] @ details"

definition sample_raw_history :: "attrs list" where
  "sample_raw_history =
     [sample_history_event 1 ''2024-05-01T10:00:00Z'' ''EVENT_TYPE_WORKFLOW_EXECUTION_STARTED''
        [(lit ''workflowExecutionStartedEventAttributes'', JObj [(lit ''workflowType'', JObj [(lit ''name'', jtext ''Order'')])])],
      sample_history_event 5 ''2024-05-01T10:00:00.5Z'' ''EVENT_TYPE_ACTIVITY_TASK_SCHEDULED''
        [(lit ''activityTaskScheduledEventAttributes'', JObj [(lit ''activityId'', jtext ''a''),
          (lit ''activityType'', JObj [(lit ''name'', jtext ''Charge'')])])],
      sample_history_event 6 ''2024-05-01T10:00:01Z'' ''EVENT_TYPE_ACTIVITY_TASK_STARTED''
        [(lit ''activityTaskStartedEventAttributes'', JObj [(lit ''scheduledEventId'', JInt 5), (lit ''attempt'', JInt 1)])],
      sample_history_event 7 ''2024-05-01T10:00:03Z'' ''EVENT_TYPE_ACTIVITY_TASK_COMPLETED''
        [(lit ''activityTaskCompletedEventAttributes'', JObj [(lit ''scheduledEventId'', JInt 5), (lit ''startedEventId'', JInt 6)])],
      sample_history_event 8 ''2024-05-01T10:00:03Z'' ''EVENT_TYPE_WORKFLOW_EXECUTION_COMPLETED'' []]"

lemma sample_history_reads:
  "(case read_history ascii_digit sample_raw_history of
      Inr h \<Rightarrow> length (hi_activities h) = 1 \<and> he_timestamp_ns (hi_started h) = 1714557600000000000 \<and>
        map (\<lambda>a. map_option he_timestamp_ns (ac_terminal a)) (hi_activities h) = [Some 1714557603000000000] \<and>
        map ev_id (history_events h []) = [lit ''temporal:workflow:1'', lit ''temporal:activity:5'', lit ''temporal:activity:5:queue'',
          lit ''temporal:activity:5:execution''] \<and> (case normalize_history h [] of Inr (_, _, 0, Suc 0) \<Rightarrow> True | _ \<Rightarrow> False)
    | _ \<Rightarrow> False)"
  by code_simp

lemma correlations_and_fallbacks: "correlation_count h existing + fallback_count h existing \<le> length (hi_activities h)"
proof -
  have "length (filter P xs) + length (filter Q xs) \<le> length xs" if "\<And>x. \<not> (P x \<and> Q x)" for P Q and xs :: "activity list"
    using that by (induction xs) auto
  then show ?thesis unfolding correlation_count_def fallback_count_def by (auto split: activity_execution.splits)
qed

section \<open>The properties\<close>

text \<open>C18. In a history that is accepted the intervals are nested, but for one case: every activity is scheduled, started
  and ended within its workflow, neither started nor ended before it was scheduled, and not ended before it started,
  unless the history records its end first and that terminal event names no started event.\<close>

theorem history_intervals_nested:
  assumes "read_history digit raw = Inr h" "a \<in> set (hi_activities h)"
  shows "he_timestamp_ns (hi_started h) \<le> he_timestamp_ns (ac_scheduled a) \<and>
    (\<forall>w. hi_terminal h = Some w \<longrightarrow> he_timestamp_ns (ac_scheduled a) \<le> he_timestamp_ns w) \<and>
    (\<forall>e. ac_started a = Some e \<or> ac_terminal a = Some e \<longrightarrow>
      he_timestamp_ns (ac_scheduled a) \<le> he_timestamp_ns e \<and> (\<forall>w. hi_terminal h = Some w \<longrightarrow> he_timestamp_ns e \<le> he_timestamp_ns w)) \<and>
    (\<forall>s t. ac_started a = Some s \<and> ac_terminal a = Some t \<longrightarrow>
      he_timestamp_ns s \<le> he_timestamp_ns t \<or> he_id t < he_id s \<and> names_no_start t)"
  by (rule history_intervals [OF read_history_ok [OF assms(1)] assms(2)])

lemma sample_history:
  obtains h a where "read_history ascii_digit sample_raw_history = Inr h" "hi_activities h = [a]"
    "he_timestamp_ns (hi_started h) = 1714557600000000000" "map_option he_timestamp_ns (ac_terminal a) = Some 1714557603000000000"
    "map ev_id (history_events h []) = [lit ''temporal:workflow:1'', lit ''temporal:activity:5'', lit ''temporal:activity:5:queue'',
       lit ''temporal:activity:5:execution'']"
    "normalize_history h [] = Inr (history_events h [], history_edges h [], 0, 1)"
proof -
  obtain h where h: "read_history ascii_digit sample_raw_history = Inr h" "length (hi_activities h) = 1"
    "he_timestamp_ns (hi_started h) = 1714557600000000000" "map (\<lambda>a. map_option he_timestamp_ns (ac_terminal a)) (hi_activities h) = [Some 1714557603000000000]"
    "map ev_id (history_events h []) = [lit ''temporal:workflow:1'', lit ''temporal:activity:5'', lit ''temporal:activity:5:queue'',
       lit ''temporal:activity:5:execution'']" "case normalize_history h [] of Inr (_, _, 0, Suc 0) \<Rightarrow> True | _ \<Rightarrow> False"
    using sample_history_reads by (auto split: sum.splits)
  obtain a where a: "hi_activities h = [a]" using h(2) by (auto simp: length_Suc_conv)
  obtain vs gs where n: "normalize_history h [] = Inr (vs, gs, 0, 1)" using h(6) by (auto split: sum.splits prod.splits nat.splits)
  show thesis using that [OF h(1) a h(3) _ h(5)] h(4) n normalize_history_Inr(1,2) [OF n] by (simp add: a)
qed

theorem history_intervals_nested_witness:
  "\<exists>h a t. read_history ascii_digit sample_raw_history = Inr h \<and> hi_activities h = [a] \<and> ac_terminal a = Some t \<and>
     he_timestamp_ns (hi_started h) \<le> he_timestamp_ns (ac_scheduled a) \<and> he_timestamp_ns (ac_scheduled a) \<le> he_timestamp_ns t"
proof -
  obtain h a where h: "read_history ascii_digit sample_raw_history = Inr h" "hi_activities h = [a]"
    "map_option he_timestamp_ns (ac_terminal a) = Some 1714557603000000000"
    by (rule sample_history)
  have "a \<in> set (hi_activities h)" using h(2) by simp
  with history_intervals_nested [OF h(1), of a] h show ?thesis by auto
qed

text \<open>C11. The events and edges that are made of an accepted history form a tree that is new to the runpack: the ids
  of the events are distinct and not yet taken, every edge comes from one of them, the event of the workflow is the
  root, to which no edge leads, every other added event is reached from it and has exactly one edge that leads to it,
  no path of edges comes back to where it began, and no event of the runpack is claimed by two activities.\<close>

theorem history_graph_is_tree:
  assumes "read_history digit raw = Inr h" "normalize_history h existing = Inr (events, edges, correlated, fallbacks)"
    "distinct (map ev_id existing)"
  shows "distinct (map ev_id (events @ existing)) \<and> set (map edge_source edges) \<subseteq> set (map ev_id events) \<and>
    workflow_event_id h \<notin> set (map edge_target edges) \<and> ev_id (hd events) = workflow_event_id h \<and>
    set (map ev_id (tl events)) \<subseteq> set (map edge_target edges) \<and> distinct (map edge_target edges) \<and>
    (\<forall>i \<in> set (map ev_id events) \<union> set (map edge_target edges). (workflow_event_id h, i) \<in> (edge_pairs edges)\<^sup>*) \<and>
    acyclic (edge_pairs edges)"
proof -
  note ok = read_history_ok [OF assms(1)] and new = normalize_history_Inr [OF assms(2)]
  have "distinct (map ev_id (events @ existing))"
    using history_ids_distinct [OF ok, of existing] new(1,3) assms(3) by (simp add: image_image)
  moreover have "ev_id (hd events) = workflow_event_id h"
    using history_event_ids [of h existing] by (cases events) (simp_all add: new(1))
  moreover have "acyclic (edge_pairs edges)"
    unfolding new(2) by (rule history_acyclic [OF history_targets_distinct [OF ok new(3) assms(3)] history_targets_not_workflow [OF new(3)]])
  moreover have "(workflow_event_id h, i) \<in> (edge_pairs edges)\<^sup>*" if "i \<in> set (map ev_id events) \<union> set (map edge_target edges)" for i
  proof (cases "i = workflow_event_id h")
    case False
    then have "i \<in> set (map edge_target edges)"
      using that history_targets [of h existing] history_event_ids [of h existing] unfolding new(1,2) by (auto simp: map_tl)
    then show ?thesis unfolding new(2) by (rule history_reachable)
  qed simp
  ultimately show ?thesis
    using history_sources history_targets_not_workflow [OF new(3)] history_targets history_targets_distinct [OF ok new(3) assms(3)]
    unfolding new(1,2) by blast
qed

theorem history_graph_is_tree_witness:
  "\<exists>h edges. read_history ascii_digit sample_raw_history = Inr h \<and> normalize_history h [] = Inr (history_events h [], edges, 0, 1) \<and>
     length (history_events h []) = 4 \<and> distinct (map edge_target edges)"
proof -
  obtain h where h: "read_history ascii_digit sample_raw_history = Inr h"
    "normalize_history h [] = Inr (history_events h [], history_edges h [], 0, 1)"
    "map ev_id (history_events h []) = [lit ''temporal:workflow:1'', lit ''temporal:activity:5'', lit ''temporal:activity:5:queue'',
       lit ''temporal:activity:5:execution'']"
    by (rule sample_history)
  have "length (history_events h []) = 4" using arg_cong [OF h(3), of length] by simp
  with history_graph_is_tree [OF h(1,2)] h show ?thesis by auto
qed

section \<open>The import\<close>

definition parse_history :: "(nat \<Rightarrow> nat option) \<Rightarrow> nat list option \<Rightarrow> history res" where
  "parse_history digit source = rbind (load_history source) (read_history digit)"

lemma append_history_returns:
  assumes "append_history h c = (c2, Inr result)"
  obtains existing c1 where "read_events \<lparr>rd_db = conn_committed c, rd_has_attachments = True\<rparr> = Inr existing"
    "expand_to (event_timestamps (history_events h existing)) c = (c1, Inr ())"
    "add_event_graph (history_events h existing) (history_edges h existing) c1 = (c2, Inr ())"
    "result = \<lparr>ti_activity_count = length (hi_activities h), ti_queue_wait_count = length (hi_activities h),
       ti_fallback_execution_count = fallback_count h existing, ti_event_count = length (history_events h existing),
       ti_edge_count = length (history_edges h existing), ti_correlation_count = correlation_count h existing\<rparr>"
proof -
  obtain existing vs gs m n c1 where existing: "read_events \<lparr>rd_db = conn_committed c, rd_has_attachments = True\<rparr> = Inr existing"
    and normal: "normalize_history h existing = Inr (vs, gs, m, n)"
    and vs_steps: "expand_to (event_timestamps vs) c = (c1, Inr ())" "add_event_graph vs gs c1 = (c2, Inr ())"
    and vs_result: "result = \<lparr>ti_activity_count = length (hi_activities h), ti_queue_wait_count = length (hi_activities h),
       ti_fallback_execution_count = n, ti_event_count = length vs, ti_edge_count = length gs, ti_correlation_count = m\<rparr>"
    using assms unfolding append_history_def by (auto simp: stmt_simps sread_returns rbind_eq_Inr_iff sreturn_def)
  note n = normalize_history_Inr [OF normal]
  show thesis by (rule that [OF existing vs_steps [unfolded n(1,2)] vs_result [unfolded n]])
qed

interpretation temporal: evidence_import "parse_history digit" append_history for digit
proof
  fix h c c2 result
  assume run: "append_history h c = (c2, Inr result)" and ok: "settled c" "wf_db (conn_committed c)"
  obtain existing c1 where steps: "expand_to (event_timestamps (history_events h existing)) c = (c1, Inr ())"
    "add_event_graph (history_events h existing) (history_edges h existing) c1 = (c2, Inr ())"
    by (rule append_history_returns [OF run])
  have "settled c1 \<and> wf_db (conn_committed c1)" by (rule expand_to_keeps [OF steps(1) ok])
  then show "wf_db (conn_committed c2)" using writer_call_keeps(2) [OF safe_add_event_graph steps(2)] by blast
qed

lemma temporal_import: "import_temporal_history digit = temporal.run_import digit"
  by (intro ext) (simp add: import_temporal_history_def temporal.run_import_def parse_history_def)

text \<open>C17. An import of a Temporal history that succeeds publishes the tables of the runpack with exactly the rows of
  the history's events and edges behind the old ones and the bounds of the execution expanded to their times; it does
  not touch another table, and it counts what it added.\<close>

theorem temporal_import_appends:
  assumes "import_temporal_history digit output temporary runpack source = Inr (result, published)" "wf_db runpack"
  shows "\<exists>raw h existing. load_history source = Inr raw \<and> read_history digit raw = Inr h \<and>
    read_events \<lparr>rd_db = runpack, rd_has_attachments = True\<rparr> = Inr existing \<and>
    graph_added (history_events h existing) (history_edges h existing) runpack published \<and> wf_db published \<and>
    ti_event_count result = length (history_events h existing) \<and> ti_edge_count result = length (history_edges h existing) \<and>
    ti_correlation_count result + ti_fallback_execution_count result \<le> ti_activity_count result \<and>
    ti_activity_count result = length (hi_activities h)"
proof -
  obtain h c where parse: "parse_history digit source = Inr h" and run: "append_history h (snapshot_conn temporary runpack) = (c, Inr result)"
    and published: "published = conn_committed c"
    by (rule temporal.run_import_Inr [OF assms(1) [unfolded temporal_import]])
  obtain raw where h: "load_history source = Inr raw" "read_history digit raw = Inr h"
    using parse unfolding parse_history_def rbind_eq_Inr_iff by blast
  obtain existing c1 where existing: "read_events \<lparr>rd_db = runpack, rd_has_attachments = True\<rparr> = Inr existing"
    and steps: "expand_to (event_timestamps (history_events h existing)) (snapshot_conn temporary runpack) = (c1, Inr ())"
      "add_event_graph (history_events h existing) (history_edges h existing) c1 = (c, Inr ())"
    and result: "result = \<lparr>ti_activity_count = length (hi_activities h), ti_queue_wait_count = length (hi_activities h),
       ti_fallback_execution_count = fallback_count h existing, ti_event_count = length (history_events h existing),
       ti_edge_count = length (history_edges h existing), ti_correlation_count = correlation_count h existing\<rparr>"
    by (rule append_history_returns [OF run]) (simp add: snapshot_conn_settled)
  have times: "event_timestamps (history_events h existing) \<noteq> []"
    by (simp add: history_events_def event_timestamps_def workflow_event_def temporal_event_def)
  show ?thesis
    using h existing expand_and_add [OF assms(2) times steps] published result correlations_and_fallbacks [of h existing]
    by (intro exI [of _ raw] exI [of _ h] exI [of _ existing]) simp
qed

definition sample_destination :: destination where
  "sample_destination = \<lparr>ds_exists = False, ds_has_directory = True\<rparr>"

definition sample_history_source :: "nat list option" where
  "sample_history_source = Some (lit (''{\"events\":[{\"eventId\":1,\"eventTime\":\"2024-05-01T10:00:00Z\",\"eventType\":'' @
     ''\"EVENT_TYPE_WORKFLOW_EXECUTION_STARTED\",\"workflowExecutionStartedEventAttributes\":{\"workflowType\":{\"name\":\"O\"}}}]}''))"

lemma sample_history_import:
  "(case import_temporal_history ascii_digit sample_destination (lit ''t'') (conn_committed running_conn) sample_history_source of
      Inr (result, published) \<Rightarrow> ti_event_count result = 1 \<and> length (db_events published) = 1 | _ \<Rightarrow> False)"
  unfolding running_conn_def by code_simp

theorem temporal_import_appends_witness:
  "\<exists>result published h. import_temporal_history ascii_digit sample_destination (lit ''t'') (conn_committed running_conn) sample_history_source =
       Inr (result, published) \<and> ti_event_count result = 1 \<and>
     graph_added (history_events h []) (history_edges h []) (conn_committed running_conn) published \<and> wf_db published"
proof -
  obtain result published where run: "import_temporal_history ascii_digit sample_destination (lit ''t'') (conn_committed running_conn)
      sample_history_source = Inr (result, published)" "ti_event_count result = 1"
    using sample_history_import by (auto split: sum.splits)
  have "wf_db (conn_committed running_conn)" using writer_reachable_wf [OF running_conn_reachable] by blast
  from temporal_import_appends [OF run(1) this] obtain h existing where
    h: "read_events \<lparr>rd_db = conn_committed running_conn, rd_has_attachments = True\<rparr> = Inr existing"
      "graph_added (history_events h existing) (history_edges h existing) (conn_committed running_conn) published" "wf_db published"
    by blast
  have "read_events \<lparr>rd_db = conn_committed running_conn, rd_has_attachments = True\<rparr> = Inr []"
    unfolding running_conn_def by code_simp
  with run h show ?thesis by auto
qed

text \<open>C26. Timestamps of one length in UTC are ordered as their texts: for any two that the parser accepts, the text that
  comes first in the order of the characters is the earlier time.\<close>

theorem utc_timestamps_ordered_as_text:
  assumes "extends_ascii digit" "parse_rfc3339_nanoseconds digit l opt (JStr a) = Inr (Some t)"
    "parse_rfc3339_nanoseconds digit l' opt' (JStr b) = Inr (Some u)"
    "list_all (\<lambda>c. c < 128) (a @ b)" "last a = 90" "last b = 90" "length a = length b"
  shows "a < b \<longleftrightarrow> t < u"
  by (rule timestamp_order [OF assms])

theorem utc_timestamps_ordered_as_text_witness:
  "\<exists>t u. parse_rfc3339_nanoseconds ascii_digit ''t'' False (jtext ''2023-12-31T23:59:59.5Z'') = Inr (Some t) \<and>
     parse_rfc3339_nanoseconds ascii_digit ''t'' False (jtext ''2024-02-29T00:00:00.0Z'') = Inr (Some u) \<and> t < u"
proof -
  have parsed: "parse_rfc3339_nanoseconds ascii_digit ''t'' False (JStr (lit ''2023-12-31T23:59:59.5Z'')) = Inr (Some 1704067199500000000)"
    "parse_rfc3339_nanoseconds ascii_digit ''t'' False (JStr (lit ''2024-02-29T00:00:00.0Z'')) = Inr (Some 1709164800000000000)"
    by code_simp+
  have ascii: "extends_ascii ascii_digit" by (simp add: extends_ascii_def)
  have "list_all (\<lambda>c. c < 128) (lit ''2023-12-31T23:59:59.5Z'' @ lit ''2024-02-29T00:00:00.0Z'')"
    "last (lit ''2023-12-31T23:59:59.5Z'') = 90" "last (lit ''2024-02-29T00:00:00.0Z'') = 90"
    "length (lit ''2023-12-31T23:59:59.5Z'') = length (lit ''2024-02-29T00:00:00.0Z'')"
    "lit ''2023-12-31T23:59:59.5Z'' < lit ''2024-02-29T00:00:00.0Z''"
    by code_simp+
  with utc_timestamps_ordered_as_text [OF ascii parsed] parsed show ?thesis by simp
qed

section \<open>Defects\<close>

text \<open>A time within its offset of the first or last instant of \<open>datetime\<close> ends in an \<open>OverflowError\<close>, which no caller catches.\<close>

lemma timestamp_overflow_escapes:
  "parse_rfc3339_nanoseconds ascii_digit ''t'' False (jtext ''0001-01-01T00:00:00+00:01'') = Inl OverflowError"
  "temporal_timestamp ascii_digit (jtext ''0001-01-01T00:00:00+00:01'') = Inl OverflowError"
  by code_simp+

text \<open>An activity may have started after it ended: a terminal event that names no started event may come first. The
  execution that is made of it ends before it starts, so the import fails in the writer.\<close>

definition late_start_history :: "attrs list" where
  "late_start_history = take 2 sample_raw_history @
     [sample_history_event 6 ''2024-05-01T10:00:01Z'' ''EVENT_TYPE_ACTIVITY_TASK_CANCELED''
        [(lit ''activityTaskCanceledEventAttributes'', JObj [(lit ''scheduledEventId'', JInt 5)])],
      sample_history_event 7 ''2024-05-01T10:00:03Z'' ''EVENT_TYPE_ACTIVITY_TASK_STARTED''
        [(lit ''activityTaskStartedEventAttributes'', JObj [(lit ''scheduledEventId'', JInt 5), (lit ''attempt'', JInt 1)])]]"

lemma late_start_accepted:
  "(case read_history ascii_digit late_start_history of
      Inr h \<Rightarrow> list_all (\<lambda>v. case (ev_started_at_ns v, ev_finished_at_ns v) of (Some s, Some t) \<Rightarrow> s \<le> t | _ \<Rightarrow> True) (history_events h []) = False
    | _ \<Rightarrow> False)"
  by code_simp

end
