(* ===== verification/KubernetesSnapshot.thy ===== *)
theory KubernetesSnapshot
  imports JsonLoading Enrichment
begin

text \<open>
  \<open>providers/builtins/kubernetes/enrichment.py\<close>: the objects of a Kubernetes API snapshot become entities with
  their owners, lifecycle events, and edges for ownership, hosting, containment and the reported events; traces
  in the runpack are correlated with the pods they ran in. \<open>digit\<close> is the table of Unicode's decimal digits.
\<close>

definition k8s_error :: "pystr list \<Rightarrow> 'a res" where
  "k8s_error parts = Inl (KubernetesImportError (cat parts))"

definition k8s_unless :: "bool \<Rightarrow> pystr list \<Rightarrow> unit res" where
  "k8s_unless ok parts = raise_if (\<not> ok) (KubernetesImportError (cat parts))"

record k8s_result =
  kr_entity_count :: nat
  kr_event_count :: nat
  kr_edge_count :: nat
  kr_correlation_count :: nat

text \<open>The kinds with an entity, and \<open>kind.lower()\<close> of them.\<close>

definition workload_kinds :: "(pystr, pystr) dict" where
  "workload_kinds = [(lit ''Node'', lit ''node''), (lit ''Deployment'', lit ''deployment''), (lit ''ReplicaSet'', lit ''replicaset''),
     (lit ''Job'', lit ''job''), (lit ''Pod'', lit ''pod'')]"

definition is_workload :: "pystr \<Rightarrow> bool" where
  "is_workload kind \<longleftrightarrow> has_key workload_kinds kind"

definition max_kubernetes_snapshot_bytes :: nat where
  "max_kubernetes_snapshot_bytes = 64 * 1024 * 1024"

definition max_kubernetes_items :: nat where
  "max_kubernetes_items = 200000"

definition max_kubernetes_containers :: nat where
  "max_kubernetes_containers = 1000000"

section \<open>Values\<close>

definition k8s_object :: "json \<Rightarrow> pystr \<Rightarrow> attrs res" where
  "k8s_object j label = (case j of JObj d \<Rightarrow> Inr d | _ \<Rightarrow> k8s_error [label, lit '' must be an object''])"

definition k8s_list :: "json \<Rightarrow> pystr \<Rightarrow> json list res" where
  "k8s_list j label = (case j of JList vs \<Rightarrow> Inr vs | _ \<Rightarrow> k8s_error [label, lit '' must be a list''])"

definition k8s_utf8 :: "pystr \<Rightarrow> pystr \<Rightarrow> pystr res" where
  "k8s_utf8 s label = (if utf8_ok s then Inr s else k8s_error [label, lit '' must be valid UTF-8''])"

definition k8s_required_string :: "json \<Rightarrow> pystr \<Rightarrow> pystr res" where
  "k8s_required_string j label = (case j of
     JStr s \<Rightarrow> if s = [] then k8s_error [label, lit '' must be a non-empty string''] else k8s_utf8 s label
   | _ \<Rightarrow> k8s_error [label, lit '' must be a non-empty string''])"

definition k8s_optional_string :: "json \<Rightarrow> pystr \<Rightarrow> pystr res" where
  "k8s_optional_string j label = (case j of
     JNull \<Rightarrow> Inr [] | JStr s \<Rightarrow> k8s_utf8 s label | _ \<Rightarrow> k8s_error [label, lit '' must be a string''])"

definition k8s_field :: "attrs \<Rightarrow> string \<Rightarrow> pystr \<Rightarrow> attrs res" where
  "k8s_field d k label = k8s_object (jget_or d k (JObj [])) label"

definition item_metadata :: "attrs \<Rightarrow> attrs res" where
  "item_metadata item = k8s_field item ''metadata'' (lit ''Kubernetes metadata'')"

definition item_kind :: "attrs \<Rightarrow> pystr res" where
  "item_kind item = k8s_required_string (jget item ''kind'') (lit ''Kubernetes kind'')"

definition item_name :: "attrs \<Rightarrow> pystr res" where
  "item_name item = rbind (item_metadata item) (\<lambda>m. k8s_required_string (jget m ''name'') (lit ''metadata.name''))"

definition namespace_of :: "attrs \<Rightarrow> pystr res" where
  "namespace_of m = (case jget m ''namespace'' of
     JNull \<Rightarrow> Inr (lit ''default'')
   | JStr s \<Rightarrow> if s = [] then Inr (lit ''default'') else k8s_utf8 s (lit ''metadata.namespace'')
   | _ \<Rightarrow> k8s_error [lit ''metadata.namespace must be a string''])"

definition item_uid :: "attrs \<Rightarrow> pystr res" where
  "item_uid item = rbind (item_metadata item) (\<lambda>m.
     let named = rbind (item_kind item) (\<lambda>kind. rbind (namespace_of m) (\<lambda>namespace. rbind (item_name item) (\<lambda>name.
       Inr (cat [lit ''name:'', kind, lit '':'', namespace, lit '':'', name])))) in
     case jget m ''uid'' of
       JNull \<Rightarrow> named
     | JStr s \<Rightarrow> if s = [] then named else k8s_utf8 s (lit ''metadata.uid'')
     | _ \<Rightarrow> k8s_error [lit ''metadata.uid must be a string''])"

text \<open>\<open>urllib.parse.quote(value, safe="")\<close>: every byte of the UTF-8 encoding that is not unreserved.\<close>

definition unreserved :: "nat \<Rightarrow> bool" where
  "unreserved b \<longleftrightarrow> is_digit b \<or> (65 \<le> b \<and> b \<le> 90) \<or> (97 \<le> b \<and> b \<le> 122) \<or> b \<in> set (lit ''_.-~'')"

definition upper_hex_digit :: "nat \<Rightarrow> nat" where
  "upper_hex_digit n = (if n < 10 then 48 + n else 55 + n)"

definition quote_byte :: "nat \<Rightarrow> pystr" where
  "quote_byte b = (if unreserved b then [b] else [37, upper_hex_digit (b div 16), upper_hex_digit (b mod 16)])"

definition identity_component :: "pystr \<Rightarrow> pystr" where
  "identity_component s = concat (map quote_byte (utf8_encode s))"

definition workload_entity_id :: "pystr \<Rightarrow> pystr \<Rightarrow> pystr" where
  "workload_entity_id kind uid = cat [lit ''k8s:'', dget_or workload_kinds kind [], lit '':'', identity_component uid]"

definition lifecycle_event_id :: "pystr \<Rightarrow> pystr" where
  "lifecycle_event_id uid = cat [lit ''k8s:'', identity_component uid, lit '':lifecycle'']"

definition k8s_timestamp :: "(nat \<Rightarrow> nat option) \<Rightarrow> json \<Rightarrow> int option res" where
  "k8s_timestamp digit j = (case parse_rfc3339_nanoseconds digit ''Kubernetes timestamp'' True j of
     Inl (ValueError m) \<Rightarrow> k8s_error [m] | r \<Rightarrow> r)"

definition k8s_integer :: "json \<Rightarrow> pystr \<Rightarrow> int res" where
  "k8s_integer j label = (case j of
     JInt n \<Rightarrow> if n < 0 then k8s_error [label, lit '' must be a non-negative integer'']
       else if max_int64 < n then k8s_error [label, lit '' exceeds the runpack integer range''] else Inr n
   | _ \<Rightarrow> k8s_error [label, lit '' must be a non-negative integer''])"

definition is_jstr :: "json \<Rightarrow> bool" where
  "is_jstr j = (case j of JStr _ \<Rightarrow> True | _ \<Rightarrow> False)"

text \<open>The members of an object whose values are all strings.\<close>

definition string_members :: "attrs \<Rightarrow> pystr \<Rightarrow> attrs res" where
  "string_members d label = traverse (\<lambda>(k, v). rbind (k8s_utf8 k label) (\<lambda>k'. rbind (k8s_utf8 (the_text v) label) (\<lambda>v'. Inr (k', JStr v')))) d"

definition metadata_string_map :: "json \<Rightarrow> pystr \<Rightarrow> attrs res" where
  "metadata_string_map j label = (case j of
     JNull \<Rightarrow> Inr []
   | JObj d \<Rightarrow> if list_all (\<lambda>(_, v). is_jstr v) d then string_members d label else k8s_error [label, lit '' must map strings to strings'']
   | _ \<Rightarrow> k8s_error [label, lit '' must map strings to strings''])"

definition resource_map :: "json \<Rightarrow> attrs res" where
  "resource_map j = (let message = [lit ''container resource quantities must map strings to strings''] in case j of
     JObj d \<Rightarrow> if list_all (\<lambda>(_, v). is_jstr v) d then string_members d (lit ''container resource quantity'') else k8s_error message
   | _ \<Rightarrow> k8s_error message)"

definition item_attributes :: "attrs \<Rightarrow> attrs res" where
  "item_attributes item =
     rbind (item_metadata item) (\<lambda>m.
     rbind (item_uid item) (\<lambda>uid.
     rbind (namespace_of m) (\<lambda>namespace.
     rbind (metadata_string_map (jget m ''labels'') (lit ''metadata.labels'')) (\<lambda>labels.
     rbind (metadata_string_map (jget m ''annotations'') (lit ''metadata.annotations'')) (\<lambda>annotations.
     Inr [(lit ''k8s.uid'', JStr uid), (lit ''k8s.namespace'', JStr namespace), (lit ''k8s.labels'', JObj labels),
       (lit ''k8s.annotations'', JObj annotations)])))))"

definition load_snapshot :: "nat list option \<Rightarrow> attrs list res" where
  "load_snapshot source =
     rbind (case load_bounded_json ''Kubernetes snapshot'' ''Kubernetes'' max_kubernetes_snapshot_bytes source of
         Inl (JsonInputError m) \<Rightarrow> k8s_error [m] | r \<Rightarrow> r) (\<lambda>document.
     rbind (k8s_object document (lit ''Kubernetes snapshot'')) (\<lambda>d.
     rbind (k8s_list (jget d ''items'') (lit ''items'')) (\<lambda>items.
     rbind (k8s_unless (length items \<le> max_kubernetes_items) [lit ''Kubernetes snapshot exceeds the 200000-item input limit'']) (\<lambda>_.
     traverse (\<lambda>i. k8s_object i (lit ''Kubernetes item'')) items))))"

section \<open>Owners\<close>

definition owner_step :: "json \<Rightarrow> pystr list \<times> pystr list \<Rightarrow> (pystr list \<times> pystr list) res" where
  "owner_step raw state = (case state of (owners, controllers) \<Rightarrow>
     rbind (k8s_object raw (lit ''ownerReferences entry'')) (\<lambda>owner.
     rbind (k8s_required_string (jget owner ''uid'') (lit ''ownerReferences uid'')) (\<lambda>uid.
     rbind (k8s_unless (uid \<notin> set owners) [lit ''duplicate ownerReferences uid: '', uid]) (\<lambda>_.
     case jget owner ''controller'' of
       JNull \<Rightarrow> Inr (owners @ [uid], controllers)
     | JBool b \<Rightarrow> Inr (owners @ [uid], if b then controllers @ [uid] else controllers)
     | _ \<Rightarrow> k8s_error [lit ''ownerReferences controller must be a boolean'']))))"

fun fold_res :: "('a \<Rightarrow> 's \<Rightarrow> 's res) \<Rightarrow> 'a list \<Rightarrow> 's \<Rightarrow> 's res" where
  "fold_res f [] s = Inr s"
| "fold_res f (x # xs) s = rbind (f x s) (fold_res f xs)"

definition owner_uid :: "attrs \<Rightarrow> pystr option res" where
  "owner_uid item = rbind (item_metadata item) (\<lambda>m. case jget m ''ownerReferences'' of
     JNull \<Rightarrow> Inr None
   | JList owners \<Rightarrow> rbind (fold_res owner_step owners ([], [])) (\<lambda>(uids, controllers).
       rbind (k8s_unless (length controllers \<le> 1) [lit ''ownerReferences contains multiple controllers'']) (\<lambda>_.
       Inr (if controllers \<noteq> [] then Some (hd controllers) else if length uids = 1 then Some (hd uids) else None)))
   | _ \<Rightarrow> k8s_error [lit ''ownerReferences must be a list''])"

text \<open>The chain of owners from one object; what was walked before is complete.\<close>

definition owner_cycle :: "pystr \<Rightarrow> pystr list \<Rightarrow> err" where
  "owner_cycle uid trail = KubernetesImportError (cat (if length trail = 1 then [lit ''Kubernetes object cannot own itself: '', uid]
     else [lit ''Kubernetes owner relationships contain a cycle'']))"

function walk_owners :: "(pystr, pystr option) dict \<Rightarrow> pystr list \<Rightarrow> pystr \<Rightarrow> pystr list \<Rightarrow> pystr \<Rightarrow> pystr list res" where
  "walk_owners owners completed uid trail cur =
     (case dget owners cur of
        None \<Rightarrow> Inr trail
      | Some owner \<Rightarrow>
        if cur \<in> set completed then Inr trail
        else if cur \<in> set trail then Inl (owner_cycle uid trail)
        else case owner of None \<Rightarrow> Inr (cur # trail) | Some next_owner \<Rightarrow> walk_owners owners completed uid (cur # trail) next_owner)"
  by pat_completeness auto
termination
proof (relation "measure (\<lambda>(owners, completed, uid, trail, cur). card (fst ` set owners - set trail))")
  fix owners :: "(pystr, pystr option) dict" and completed trail :: "pystr list" and uid cur owner next_owner
  assume cur: "dget owners cur = Some owner" and new: "cur \<notin> set trail"
  have "cur \<in> fst ` set owners" using cur by (force dest: map_of_SomeD)
  then have "fst ` set owners - set (cur # trail) \<subset> fst ` set owners - set trail" using new by auto
  then show "((owners, completed, uid, cur # trail, next_owner), (owners, completed, uid, trail, cur))
      \<in> measure (\<lambda>(owners, completed, uid, trail, cur). card (fst ` set owners - set trail))"
    by (simp add: psubset_card_mono)
qed simp

declare walk_owners.simps [simp del]

fun check_owners :: "(pystr, pystr option) dict \<Rightarrow> pystr list \<Rightarrow> pystr list \<Rightarrow> unit res" where
  "check_owners owners completed [] = Inr ()"
| "check_owners owners completed (k # ks) =
     rbind (walk_owners owners completed k [] k) (\<lambda>trail. check_owners owners (trail @ completed) ks)"

section \<open>Identities\<close>

text \<open>Objects whose uid occurs once, and the nodes by their name.\<close>

definition count_step :: "attrs \<Rightarrow> (pystr, pystr list) dict \<Rightarrow> (pystr, pystr list) dict res" where
  "count_step item kinds =
     rbind (item_kind item) (\<lambda>kind.
     if is_workload kind \<or> kind = lit ''Event''
     then rbind (item_uid item) (\<lambda>uid. Inr (dset uid (kind # dget_or kinds uid []) kinds)) else Inr kinds)"

definition check_unique :: "attrs list \<Rightarrow> unit res" where
  "check_unique items =
     rbind (fold_res count_step items []) (\<lambda>kinds.
     case List.find (\<lambda>uid. 1 < length (dget_or kinds uid [])) (sort (map fst kinds)) of
       None \<Rightarrow> Inr ()
     | Some uid \<Rightarrow> k8s_error [if set (dget_or kinds uid []) = {lit ''Event''} then lit ''duplicate Kubernetes Event uid: ''
         else lit ''duplicate Kubernetes object uid: '', uid])"

record k8s_index =
  ki_entities :: "(pystr, pystr) dict"
  ki_nodes :: "(pystr, pystr) dict"

definition index_step :: "attrs \<Rightarrow> k8s_index \<Rightarrow> k8s_index res" where
  "index_step item x =
     rbind (item_kind item) (\<lambda>kind.
     if \<not> is_workload kind then Inr x
     else rbind (item_uid item) (\<lambda>uid.
       let x' = x\<lparr>ki_entities := dset uid (workload_entity_id kind uid) (ki_entities x)\<rparr> in
       if kind \<noteq> lit ''Node'' then Inr x'
       else rbind (item_name item) (\<lambda>name.
         rbind (k8s_unless (\<not> has_key (ki_nodes x) name) [lit ''duplicate Kubernetes Node name: '', name]) (\<lambda>_.
         Inr (x'\<lparr>ki_nodes := dset name uid (ki_nodes x)\<rparr>)))))"

definition owners_step :: "attrs \<Rightarrow> (pystr, pystr option) dict \<Rightarrow> (pystr, pystr option) dict res" where
  "owners_step item owners =
     rbind (item_kind item) (\<lambda>kind.
     if \<not> is_workload kind then Inr owners
     else rbind (item_uid item) (\<lambda>uid. rbind (owner_uid item) (\<lambda>owner. Inr (dset uid owner owners))))"

section \<open>Containers\<close>

definition status_step :: "json \<Rightarrow> (pystr, attrs) dict \<Rightarrow> (pystr, attrs) dict res" where
  "status_step raw statuses =
     rbind (k8s_object raw (lit ''container status'')) (\<lambda>status.
     rbind (k8s_required_string (jget status ''name'') (lit ''container status name'')) (\<lambda>name.
     rbind (k8s_unless (\<not> has_key statuses name) [lit ''duplicate container status name: '', name]) (\<lambda>_.
     Inr (dset name status statuses))))"

definition container_statuses :: "attrs \<Rightarrow> (pystr, attrs) dict res" where
  "container_statuses status = (case jget status ''containerStatuses'' of
     JNull \<Rightarrow> Inr []
   | JList raw \<Rightarrow> fold_res status_step raw []
   | _ \<Rightarrow> k8s_error [lit ''containerStatuses must be a list''])"

text \<open>The variants of a container state that are given: waiting, running, terminated.\<close>

definition state_variant :: "attrs \<Rightarrow> string \<Rightarrow> attrs option res" where
  "state_variant state name = (case jget state name of
     JNull \<Rightarrow> Inr None
   | v \<Rightarrow> rbind (k8s_object v (lit (name @ '' container state''))) (\<lambda>d. Inr (Some d)))"

definition container_state :: "attrs \<Rightarrow> (attrs option \<times> attrs option \<times> attrs option) res" where
  "container_state status =
     rbind (k8s_field status ''state'' (lit ''container state'')) (\<lambda>state.
     rbind (state_variant state ''waiting'') (\<lambda>waiting.
     rbind (state_variant state ''running'') (\<lambda>running.
     rbind (state_variant state ''terminated'') (\<lambda>terminated.
     rbind (k8s_unless (length (filter (\<lambda>v. v \<noteq> None) [waiting, running, terminated]) \<le> 1)
       [lit ''container state cannot contain more than one of waiting, running, or terminated'']) (\<lambda>_.
     Inr (waiting, running, terminated))))))"

fun container_finishes :: "(nat \<Rightarrow> nat option) \<Rightarrow> attrs list \<Rightarrow> int list option res" where
  "container_finishes digit [] = Inr (Some [])"
| "container_finishes digit (status # rest) =
     rbind (container_state status) (\<lambda>(_, _, terminated).
     case terminated of None \<Rightarrow> Inr None
     | Some t \<Rightarrow> rbind (k8s_timestamp digit (jget t ''finishedAt'')) (\<lambda>v.
         case v of None \<Rightarrow> Inr None
         | Some finish \<Rightarrow> rbind (container_finishes digit rest) (\<lambda>finishes. Inr (map_option ((#) finish) finishes))))"

definition container_name :: "json \<Rightarrow> pystr res" where
  "container_name raw = rbind (k8s_object raw (lit ''container'')) (\<lambda>c. k8s_required_string (jget c ''name'') (lit ''container name''))"

definition pod_containers :: "attrs \<Rightarrow> json list res" where
  "pod_containers spec = k8s_list (jget_or spec ''containers'' (JList [])) (lit ''Pod containers'')"

definition pod_finish :: "(nat \<Rightarrow> nat option) \<Rightarrow> attrs \<Rightarrow> attrs \<Rightarrow> int option res" where
  "pod_finish digit spec status =
     rbind (container_statuses status) (\<lambda>statuses.
     rbind (pod_containers spec) (\<lambda>containers.
     rbind (traverse container_name containers) (\<lambda>names.
     if statuses = [] \<or> \<not> set names \<subseteq> fst ` set statuses then Inr None
     else rbind (container_finishes digit (map snd statuses)) (\<lambda>finishes.
       Inr (map_option (\<lambda>ts. Max (set ts)) finishes)))))"

definition container_interval :: "(nat \<Rightarrow> nat option) \<Rightarrow> attrs \<Rightarrow> (int option \<times> int option) res" where
  "container_interval digit status =
     rbind (container_state status) (\<lambda>(_, running, terminated).
     rbind (k8s_timestamp digit (jget (case running of None \<Rightarrow> [] | Some r \<Rightarrow> r) ''startedAt'')) (\<lambda>started.
     case terminated of None \<Rightarrow> Inr (started, None)
     | Some t \<Rightarrow> rbind (k8s_timestamp digit (jget t ''startedAt'')) (\<lambda>again.
         rbind (k8s_timestamp digit (jget t ''finishedAt'')) (\<lambda>finished.
         Inr (case again of None \<Rightarrow> started | Some a \<Rightarrow> Some a, finished)))))"

section \<open>Workloads\<close>

definition k8s_event :: "pystr \<Rightarrow> pystr \<Rightarrow> pystr \<Rightarrow> pystr \<Rightarrow> int option \<Rightarrow> int option \<Rightarrow> attrs \<Rightarrow> event" where
  "k8s_event i kind name entity_id started finished attributes =
     \<lparr>ev_id = i, ev_kind = kind, ev_name = name, ev_entity_id = Some entity_id, ev_started_at_ns = started, ev_finished_at_ns = finished,
      ev_clock_domain = Some (lit ''kubernetes.apiserver''), ev_uncertainty_ns = None, ev_sequence = None, ev_attributes = attributes\<rparr>"

definition k8s_edge :: "pystr \<Rightarrow> pystr \<Rightarrow> string \<Rightarrow> causal_edge" where
  "k8s_edge a b kind = \<lparr>edge_source = a, edge_target = b, edge_kind = lit kind, edge_confidence = Fin 1,
     edge_attributes = [(lit ''source'', JStr (lit ''kubernetes''))]\<rparr>"

definition replica_attributes :: "pystr \<Rightarrow> attrs \<Rightarrow> attrs \<Rightarrow> attrs res" where
  "replica_attributes kind item status =
     rbind (k8s_field item ''spec'' (kind @ lit '' spec'')) (\<lambda>spec.
     traverse (\<lambda>(name, v). rbind (k8s_integer v (lit name)) (\<lambda>n. Inr (lit name, JInt n)))
       (filter (\<lambda>(_, v). v \<noteq> JNull)
         [(''k8s.replicas.desired'', jget spec ''replicas''), (''k8s.replicas.current'', jget status ''replicas''),
          (''k8s.replicas.ready'', jget status ''readyReplicas''), (''k8s.replicas.available'', jget status ''availableReplicas'')]))"

definition restart_count_of :: "attrs \<Rightarrow> int res" where
  "restart_count_of status = k8s_integer (jget_or status ''restartCount'' (JInt 0)) (lit ''container restart count'')"

definition restart_step :: "attrs \<Rightarrow> int \<Rightarrow> int res" where
  "restart_step status so_far =
     rbind (restart_count_of status) (\<lambda>n.
     rbind (k8s_unless (so_far + n \<le> max_int64) [lit ''total container restart count exceeds the runpack integer range'']) (\<lambda>_. Inr (so_far + n)))"

text \<open>What is specific to a kind: the name of the node of a pod, and the further attributes.\<close>

definition kind_attributes :: "pystr \<Rightarrow> attrs \<Rightarrow> attrs \<Rightarrow> (pystr \<times> attrs) res" where
  "kind_attributes kind item status =
     (if kind = lit ''Pod'' then
        rbind (container_statuses status) (\<lambda>statuses.
        rbind (fold_res restart_step (map snd statuses) 0) (\<lambda>restarts.
        rbind (k8s_field item ''spec'' (lit ''Pod spec'')) (\<lambda>spec.
        rbind (k8s_optional_string (jget spec ''nodeName'') (lit ''Pod spec.nodeName'')) (\<lambda>node.
        rbind (k8s_optional_string (jget status ''phase'') (lit ''Pod status.phase'')) (\<lambda>phase.
        Inr (node, [(lit ''k8s.node.name'', JStr node), (lit ''k8s.pod.phase'', JStr phase),
          (lit ''k8s.pod.restart_count'', JInt restarts)]))))))
      else if kind = lit ''Deployment'' \<or> kind = lit ''ReplicaSet'' then
        rbind (replica_attributes kind item status) (\<lambda>attributes. Inr ([], attributes))
      else Inr ([], []))"

definition workload_finish :: "(nat \<Rightarrow> nat option) \<Rightarrow> pystr \<Rightarrow> attrs \<Rightarrow> attrs \<Rightarrow> int option res" where
  "workload_finish digit kind item status =
     (if kind = lit ''Pod'' then rbind (k8s_field item ''spec'' (lit ''Pod spec'')) (\<lambda>spec. pod_finish digit spec status)
      else k8s_timestamp digit (jget status ''completionTime''))"

type_synonym k8s_graph = "entity list \<times> event list \<times> causal_edge list"

definition workload_records :: "(nat \<Rightarrow> nat option) \<Rightarrow> k8s_index \<Rightarrow> (pystr, pystr option) dict \<Rightarrow> attrs \<Rightarrow> k8s_graph res" where
  "workload_records digit x owners item =
     rbind (item_kind item) (\<lambda>kind.
     if \<not> is_workload kind then Inr ([], [], [])
     else rbind (item_uid item) (\<lambda>uid.
       let entity_id = workload_entity_id kind uid; lower_kind = dget_or workload_kinds kind []; parent_uid = dget_or owners uid None in
       rbind (item_attributes item) (\<lambda>attributes.
       rbind (k8s_field item ''status'' (kind @ lit '' status'')) (\<lambda>status.
       rbind (kind_attributes kind item status) (\<lambda>(node_name, further).
       rbind (item_name item) (\<lambda>name.
       rbind (item_metadata item) (\<lambda>m.
       rbind (k8s_timestamp digit (jget m ''creationTimestamp'')) (\<lambda>started.
       rbind (workload_finish digit kind item status) (\<lambda>finished.
       rbind (k8s_optional_string (jget status ''phase'') (kind @ lit '' status.phase'')) (\<lambda>phase.
       Inr ([\<lparr>ent_id = entity_id, ent_kind = lower_kind, ent_name = name,
               ent_parent_id = Option.bind parent_uid (dget (ki_entities x)), ent_attributes = attributes @ further\<rparr>],
            [k8s_event (lifecycle_event_id uid) (lit ''workload.'' @ lower_kind) name entity_id started finished [(lit ''phase'', JStr phase)]],
            case (if kind = lit ''Pod'' then dget (ki_nodes x) node_name else None) of None \<Rightarrow> []
            | Some node_uid \<Rightarrow> [k8s_edge (lifecycle_event_id node_uid) (lifecycle_event_id uid) ''hosts''])))))))))))"

definition owner_edges :: "k8s_index \<Rightarrow> (pystr, pystr option) dict \<Rightarrow> attrs \<Rightarrow> causal_edge list res" where
  "owner_edges x owners item =
     rbind (item_kind item) (\<lambda>kind.
     if \<not> is_workload kind then Inr []
     else rbind (item_uid item) (\<lambda>uid.
       Inr (case dget_or owners uid None of None \<Rightarrow> []
         | Some owner \<Rightarrow> if has_key (ki_entities x) owner then [k8s_edge (lifecycle_event_id owner) (lifecycle_event_id uid) ''owns''] else [])))"

section \<open>Containers of pods\<close>

definition container_records ::
  "(nat \<Rightarrow> nat option) \<Rightarrow> pystr \<Rightarrow> pystr \<Rightarrow> (pystr, attrs) dict \<Rightarrow> json \<Rightarrow> pystr list \<times> k8s_graph \<Rightarrow> (pystr list \<times> k8s_graph) res"
where
  "container_records digit pod_entity pod_event statuses raw state = (case state of (names, entities, events, edges) \<Rightarrow>
     rbind (k8s_object raw (lit ''container'')) (\<lambda>container.
     rbind (k8s_required_string (jget container ''name'') (lit ''container name'')) (\<lambda>name.
     rbind (k8s_unless (name \<notin> set names) [lit ''duplicate container name: '', name]) (\<lambda>_.
     rbind (k8s_field container ''resources'' (lit ''container resources'')) (\<lambda>resources.
     let entity_id = cat [pod_entity, lit '':container:'', identity_component name]; status = dget_or statuses name [] in
     rbind (k8s_optional_string (jget container ''image'') (lit ''container image'')) (\<lambda>image.
     rbind (resource_map (jget_or resources ''requests'' (JObj []))) (\<lambda>requests.
     rbind (resource_map (jget_or resources ''limits'' (JObj []))) (\<lambda>limits.
     rbind (restart_count_of status) (\<lambda>restarts.
     rbind (container_interval digit status) (\<lambda>(started, finished).
     Inr (names @ [name],
       entities @ [\<lparr>ent_id = entity_id, ent_kind = lit ''container'', ent_name = name, ent_parent_id = Some pod_entity,
         ent_attributes = [(lit ''image'', JStr image), (lit ''resources.requests'', JObj requests), (lit ''resources.limits'', JObj limits),
           (lit ''restart_count'', JInt restarts)]\<rparr>],
       events @ [k8s_event (entity_id @ lit '':lifecycle'') (lit ''workload.container'') name entity_id started finished
         [(lit ''restart_count'', JInt restarts)]],
       edges @ [k8s_edge pod_event (entity_id @ lit '':lifecycle'') ''contains''])))))))))))"

text \<open>The containers of one pod, and the number of containers so far.\<close>

definition pod_records :: "(nat \<Rightarrow> nat option) \<Rightarrow> k8s_index \<Rightarrow> attrs \<Rightarrow> nat \<times> k8s_graph \<Rightarrow> (nat \<times> k8s_graph) res" where
  "pod_records digit x item state = (case state of (n, entities, events, edges) \<Rightarrow>
     rbind (item_kind item) (\<lambda>kind.
     if kind \<noteq> lit ''Pod'' then Inr state
     else rbind (item_uid item) (\<lambda>uid.
       rbind (k8s_field item ''spec'' (lit ''Pod spec'')) (\<lambda>spec.
       rbind (k8s_field item ''status'' (lit ''Pod status'')) (\<lambda>status.
       rbind (container_statuses status) (\<lambda>statuses.
       rbind (pod_containers spec) (\<lambda>containers.
       rbind (k8s_unless (n + length containers \<le> max_kubernetes_containers)
         [lit ''Kubernetes snapshot exceeds the 1000000-container input limit'']) (\<lambda>_.
       case dget (ki_entities x) uid of None \<Rightarrow> Inr (n + length containers, entities, events, edges)
       | Some pod_entity \<Rightarrow>
         rbind (fold_res (container_records digit pod_entity (lifecycle_event_id uid) statuses) containers ([], entities, events, edges))
           (\<lambda>(names, entities', events', edges').
         let unknown = sort (filter (\<lambda>name. name \<notin> set names) (map fst statuses)) in
         rbind (k8s_unless (unknown = []) [lit ''containerStatuses contains names absent from Pod containers: '', join (lit '', '') unknown])
           (\<lambda>_. Inr (n + length containers, entities', events', edges')))))))))))"

section \<open>Reported events\<close>

definition reported_event :: "(nat \<Rightarrow> nat option) \<Rightarrow> k8s_index \<Rightarrow> attrs \<Rightarrow> (event list \<times> causal_edge list) res" where
  "reported_event digit x item =
     rbind (item_kind item) (\<lambda>kind.
     if kind \<noteq> lit ''Event'' then Inr ([], [])
     else rbind (item_uid item) (\<lambda>uid.
       rbind (k8s_field item ''involvedObject'' (lit ''Event involvedObject'')) (\<lambda>involved.
       rbind (k8s_optional_string (jget involved ''uid'') (lit ''Event involvedObject.uid'')) (\<lambda>involved_uid.
       case dget (ki_entities x) involved_uid of None \<Rightarrow> Inr ([], [])
       | Some entity_id \<Rightarrow>
         rbind (k8s_timestamp digit (jget item ''eventTime'')) (\<lambda>event_time.
         rbind (case event_time of Some t \<Rightarrow> Inr (Some t)
           | None \<Rightarrow> rbind (item_metadata item) (\<lambda>m. k8s_timestamp digit (jget m ''creationTimestamp''))) (\<lambda>timestamp.
         rbind (k8s_optional_string (jget item ''reason'') (lit ''Event reason'')) (\<lambda>reason.
         rbind (if reason \<noteq> [] then Inr reason else item_name item) (\<lambda>name.
         rbind (k8s_optional_string (jget item ''message'') (lit ''Event message'')) (\<lambda>message.
         rbind (k8s_optional_string (jget item ''type'') (lit ''Event type'')) (\<lambda>event_type.
         let i = lit ''k8s:event:'' @ identity_component uid in
         Inr ([k8s_event i (lit ''kubernetes.event'') name entity_id timestamp timestamp
                [(lit ''message'', JStr message), (lit ''type'', JStr event_type)]],
              [k8s_edge (lifecycle_event_id involved_uid) i ''emits''])))))))))))"

section \<open>The snapshot\<close>

definition entity_order :: "entity \<Rightarrow> nat \<times> pystr" where
  "entity_order e = (dget_or [(lit ''node'', 0), (lit ''deployment'', 0), (lit ''job'', 0), (lit ''replicaset'', 1), (lit ''pod'', 2),
     (lit ''container'', 3)] (ent_kind e) 3, ent_id e)"

record snapshot =
  sn_entities :: "entity list"
  sn_events :: "event list"
  sn_edges :: "causal_edge list"
  sn_lifecycles :: "(pystr, pystr) dict"

definition read_snapshot :: "(nat \<Rightarrow> nat option) \<Rightarrow> attrs list \<Rightarrow> snapshot res" where
  "read_snapshot digit items =
     rbind (check_unique items) (\<lambda>_.
     rbind (fold_res index_step items \<lparr>ki_entities = [], ki_nodes = []\<rparr>) (\<lambda>x.
     rbind (fold_res owners_step items []) (\<lambda>owners.
     rbind (check_owners owners [] (map fst owners)) (\<lambda>_.
     rbind (traverse (workload_records digit x owners) items) (\<lambda>workloads.
     rbind (traverse (owner_edges x owners) items) (\<lambda>owns.
     rbind (fold_res (pod_records digit x) items (0, concat (map fst workloads), concat (map (fst \<circ> snd) workloads),
       concat (map (snd \<circ> snd) workloads) @ concat owns)) (\<lambda>(_, entities, events, edges).
     rbind (traverse (reported_event digit x) items) (\<lambda>reported.
     Inr \<lparr>sn_entities = sort_key entity_order entities, sn_events = events @ concat (map fst reported),
       sn_edges = edges @ concat (map snd reported),
       sn_lifecycles = map (\<lambda>(uid, _). (uid, lifecycle_event_id uid)) (ki_entities x)\<rparr>))))))))"

section \<open>Correlation with the traces of the runpack\<close>

definition within_entity :: "event list \<Rightarrow> causal_edge \<Rightarrow> bool" where
  "within_entity events g \<longleftrightarrow> edge_kind g = lit ''parent'' \<and>
     (let owner = \<lambda>i. Option.bind (dget (rev (map (\<lambda>v. (ev_id v, ev_entity_id v)) events)) i) id
      in owner (edge_source g) = owner (edge_target g))"

definition root_events :: "event list \<Rightarrow> causal_edge list \<Rightarrow> pystr \<Rightarrow> pystr list" where
  "root_events events edges entity_id =
     (let inner = map edge_target (filter (within_entity events) edges)
      in map ev_id (filter (\<lambda>v. ev_entity_id v = Some entity_id \<and> ev_id v \<notin> set inner) events))"

definition correlate :: "(pystr, pystr) dict \<Rightarrow> entity list \<Rightarrow> event list \<Rightarrow> causal_edge list \<Rightarrow> causal_edge list" where
  "correlate pod_events entities events edges =
     concat (map (\<lambda>e. case jget (ent_attributes e) ''k8s.pod.uid'' of
         JStr uid \<Rightarrow> (case dget pod_events uid of None \<Rightarrow> []
           | Some pod_event \<Rightarrow> map (\<lambda>r. k8s_edge pod_event r ''correlates'') (root_events events edges (ent_id e)))
       | _ \<Rightarrow> []) entities)"

definition correlations :: "(pystr, pystr) dict \<Rightarrow> reader \<Rightarrow> causal_edge list res" where
  "correlations pod_events r =
     rbind (read_entities r) (\<lambda>entities. rbind (read_events r) (\<lambda>events. rbind (read_causal_edges r) (\<lambda>edges.
     Inr (correlate pod_events entities events edges))))"

definition append_snapshot :: "snapshot \<Rightarrow> k8s_result stmt" where
  "append_snapshot s =
     sbind (sread (correlations (sn_lifecycles s))) (\<lambda>correlated.
     sbind (expand_to (event_timestamps (sn_events s))) (\<lambda>_.
     sbind (add_entities (sn_entities s)) (\<lambda>_.
     sbind (add_events (sn_events s)) (\<lambda>_.
     sbind (add_causal_edges (sn_edges s @ correlated)) (\<lambda>_.
     sreturn \<lparr>kr_entity_count = length (sn_entities s), kr_event_count = length (sn_events s),
       kr_edge_count = length (sn_edges s @ correlated), kr_correlation_count = length correlated\<rparr>)))))"

definition import_kubernetes_snapshot ::
  "(nat \<Rightarrow> nat option) \<Rightarrow> destination \<Rightarrow> pystr \<Rightarrow> db \<Rightarrow> nat list option \<Rightarrow> (k8s_result \<times> db) res" where
  "import_kubernetes_snapshot digit output temporary runpack source =
     rbind (validate_enrichment_destination output) (\<lambda>_.
     rbind (rbind (load_snapshot source) (read_snapshot digit)) (\<lambda>s.
     enrich_copy output temporary runpack (append_snapshot s)))"

end
