(* ===== verification/KubernetesLaws.thy ===== *)
theory KubernetesLaws
  imports KubernetesSnapshot Utf8 IdTexts
begin

text \<open>
  The owners and the ids of a Kubernetes snapshot: the walk along the chains of owners finds exactly the cycles, and
  quoting is injective and leaves no colon, so the ids of the objects, of their containers and of the events can be
  told apart when the uids can.
\<close>

section \<open>Owners\<close>

definition owned_by :: "(pystr, pystr option) dict \<Rightarrow> (pystr \<times> pystr) set" where
  "owned_by owners = {(owner, uid). dget owners uid = Some (Some owner)}"

lemma owner_unique: "(v, u) \<in> owned_by owners \<Longrightarrow> (w, u) \<in> owned_by owners \<Longrightarrow> v = w"
  by (simp add: owned_by_def)

abbreviation well_owned :: "(pystr, pystr option) dict \<Rightarrow> pystr set" where
  "well_owned owners \<equiv> Wellfounded.acc (owned_by owners)"

lemma well_owned_root: "dget owners u = None \<or> dget owners u = Some None \<Longrightarrow> u \<in> well_owned owners"
  by (rule accI) (auto simp: owned_by_def)

lemma well_owned_step: "dget owners u = Some (Some v) \<Longrightarrow> v \<in> well_owned owners \<Longrightarrow> u \<in> well_owned owners"
  by (rule accI) (auto simp: owned_by_def)

lemma walk_owners_well_owned:
  "walk_owners owners completed uid trail cur = Inr visited \<Longrightarrow> set completed \<subseteq> well_owned owners \<Longrightarrow>
     cur \<in> well_owned owners \<and> set visited \<subseteq> set trail \<union> well_owned owners"
proof (induction owners completed uid trail cur rule: walk_owners.induct)
  case (1 owners completed uid trail cur)
  note run = 1(2) [unfolded walk_owners.simps [of owners completed uid trail cur]]
  show ?case
  proof (cases "dget owners cur")
    case None
    then show ?thesis using run well_owned_root by auto
  next
    case (Some owner)
    show ?thesis
    proof (cases owner)
      case None
      then show ?thesis using run Some well_owned_root [of owners cur] 1(3) by (auto split: if_splits)
    next
      case (Some v)
      then show ?thesis
        using run \<open>dget owners cur = Some owner\<close> 1(1) [OF \<open>dget owners cur = Some owner\<close> _ _ Some] 1(3) well_owned_step [of owners cur v]
        by (auto split: if_splits)
    qed
  qed
qed

lemma walk_owners_raises:
  "walk_owners owners completed uid trail cur = Inl e \<Longrightarrow> \<forall>t\<in>set trail. (cur, t) \<in> (owned_by owners)\<^sup>+ \<Longrightarrow>
     \<exists>v. (v, v) \<in> (owned_by owners)\<^sup>+"
proof (induction owners completed uid trail cur rule: walk_owners.induct)
  case (1 owners completed uid trail cur)
  note run = 1(2) [unfolded walk_owners.simps [of owners completed uid trail cur]]
  show ?case
  proof (cases "cur \<in> set trail")
    case True
    then show ?thesis using 1(3) by blast
  next
    case False
    then obtain v where v: "dget owners cur = Some (Some v)" "cur \<notin> set completed"
        "walk_owners owners completed uid (cur # trail) v = Inl e"
      using run by (auto split: option.splits if_splits)
    have step: "(v, cur) \<in> (owned_by owners)\<^sup>+" using v(1) by (auto simp: owned_by_def)
    then have "\<forall>t\<in>set (cur # trail). (v, t) \<in> (owned_by owners)\<^sup>+" using 1(3) by (auto intro: trancl_trans)
    then show ?thesis using 1(1) [OF v(1,2) False refl v(3)] by blast
  qed
qed

lemma check_owners_Inr:
  "check_owners owners completed ks = Inr u \<Longrightarrow> set completed \<subseteq> well_owned owners \<Longrightarrow> set ks \<subseteq> well_owned owners"
proof (induction ks arbitrary: completed)
  case (Cons k ks)
  obtain visited where walk: "walk_owners owners completed k [] k = Inr visited" and rest: "check_owners owners (visited @ completed) ks = Inr u"
    using Cons.prems(1) by (auto simp: rbind_eq_Inr_iff)
  note w = walk_owners_well_owned [OF walk Cons.prems(2)]
  then have "set (visited @ completed) \<subseteq> well_owned owners" using Cons.prems(2) by auto
  from Cons.IH [OF rest this] w show ?case by simp
qed simp

lemma check_owners_Inl: "check_owners owners completed ks = Inl e \<Longrightarrow> \<exists>v. (v, v) \<in> (owned_by owners)\<^sup>+"
proof (induction ks arbitrary: completed)
  case (Cons k ks)
  then show ?case using walk_owners_raises [of owners completed k "[]" k e] by (auto simp: rbind_def split: sum.splits)
qed simp

lemma owners_wf: "check_owners owners [] (map fst owners) = Inr () \<Longrightarrow> wf (owned_by owners)"
proof -
  assume "check_owners owners [] (map fst owners) = Inr ()"
  then have keys: "set (map fst owners) \<subseteq> well_owned owners" by (rule check_owners_Inr) simp
  have "u \<in> well_owned owners" for u
  proof (cases "dget owners u")
    case (Some w)
    then have "u \<in> set (map fst owners)" by (force dest: map_of_SomeD)
    then show ?thesis using keys by blast
  qed (simp add: well_owned_root)
  then show "wf (owned_by owners)" by (simp add: wf_iff_acc)
qed

lemma owners_checked_iff_acyclic: "check_owners owners [] (map fst owners) = Inr () \<longleftrightarrow> acyclic (owned_by owners)"
proof
  assume "acyclic (owned_by owners)"
  then show "check_owners owners [] (map fst owners) = Inr ()"
    using check_owners_Inl [of owners "[]" "map fst owners"]
    by (cases "check_owners owners [] (map fst owners)") (auto simp: acyclic_def)
qed (rule wf_acyclic, rule owners_wf)

section \<open>Quoting\<close>

fun utf8_value :: "nat list \<Rightarrow> nat" where
  "utf8_value [a] = a"
| "utf8_value [a, b] = 64 * (a - 192) + (b - 128)"
| "utf8_value [a, b, c] = 64 * (64 * (a - 224) + (b - 128)) + (c - 128)"
| "utf8_value [a, b, c, d] = 64 * (64 * (64 * (a - 240) + (b - 128)) + (c - 128)) + (d - 128)"
| "utf8_value _ = 0"

lemma utf8_value_bytes: "utf8_value (utf8_bytes c) = c"
proof -
  have "c div 4096 = c div 64 div 64" "c div 262144 = c div 64 div 64 div 64" by (simp_all flip: div_mult2_eq)
  then show ?thesis by (simp add: utf8_bytes_def)
qed

definition utf8_span :: "nat \<Rightarrow> nat" where
  "utf8_span b = (if b < 128 then 1 else if b < 224 then 2 else if b < 240 then 3 else 4)"

lemma utf8_bytes_width: "length (utf8_bytes c) = utf8_span (hd (utf8_bytes c))"
proof -
  have "c < 2048 \<Longrightarrow> c div 64 < 32" "c < 65536 \<Longrightarrow> c div 4096 < 16" by simp_all
  then show ?thesis by (auto simp: utf8_bytes_def utf8_span_def)
qed

lemma utf8_bytes_prefix: "utf8_bytes c @ r = utf8_bytes d @ s \<Longrightarrow> c = d \<and> r = s"
proof -
  assume eq: "utf8_bytes c @ r = utf8_bytes d @ s"
  have ne: "utf8_bytes n \<noteq> []" for n by (simp add: utf8_bytes_def)
  have "hd (utf8_bytes c) = hd (utf8_bytes d)" using arg_cong [OF eq, of hd] ne by simp
  then have "length (utf8_bytes c) = length (utf8_bytes d)" by (simp add: utf8_bytes_width)
  then have "utf8_bytes c = utf8_bytes d" "r = s" using eq by simp_all
  then show ?thesis using utf8_value_bytes by metis
qed

lemma upper_hex_digit_inject: "upper_hex_digit a = upper_hex_digit b \<longleftrightarrow> a = b"
  by (auto simp: upper_hex_digit_def)

lemma quote_byte_prefix: "quote_byte a @ r = quote_byte b @ s \<Longrightarrow> a = b \<and> r = s"
proof -
  assume eq: "quote_byte a @ r = quote_byte b @ s"
  have "\<not> unreserved 37" by (simp add: unreserved_def is_digit_def lit_def)
  moreover have "16 * (n div 16) + n mod 16 = n" for n :: nat by simp
  then have "a = b" if "a div 16 = b div 16" "a mod 16 = b mod 16" using that by metis
  ultimately show ?thesis using eq by (auto simp: quote_byte_def upper_hex_digit_inject split: if_splits)
qed

lemma concat_map_inject:
  assumes "\<And>a b r s. f a @ r = f b @ s \<Longrightarrow> a = b \<and> r = s" "\<And>a. f a \<noteq> []" "concat (map f xs) = concat (map f ys)"
  shows "xs = ys"
  using assms(3)
proof (induction xs arbitrary: ys)
  case Nil
  then show ?case using assms(2) by (cases ys) auto
next
  case (Cons x xs)
  then obtain y ys' where ys: "ys = y # ys'" using assms(2) by (cases ys) auto
  have "x = y \<and> concat (map f xs) = concat (map f ys')" using assms(1) Cons.prems by (simp add: ys)
  then show ?case using Cons.IH ys by blast
qed

lemma identity_component_inject: "identity_component a = identity_component b \<longleftrightarrow> a = b"
proof
  assume eq: "identity_component a = identity_component b"
  have eq': "utf8_encode a = utf8_encode b"
    by (rule concat_map_inject [OF quote_byte_prefix _ eq [unfolded identity_component_def]]) (auto simp: quote_byte_def)
  show "a = b" by (rule concat_map_inject [OF utf8_bytes_prefix _ eq' [unfolded utf8_encode_def]]) (auto simp: utf8_bytes_def)
qed simp

lemma identity_component_no_colon: "58 \<notin> set (identity_component s)"
proof -
  have "58 \<notin> set (quote_byte b)" for b
    by (auto simp: quote_byte_def upper_hex_digit_def unreserved_def is_digit_def lit_def)
  then show ?thesis by (auto simp: identity_component_def)
qed


section \<open>Ids\<close>

definition container_id :: "pystr \<Rightarrow> pystr \<Rightarrow> pystr" where
  "container_id pod name = cat [pod, lit '':container:'', identity_component name]"

lemma workload_id_shape: "workload_entity_id k u = lit ''k8s:'' @ dget_or workload_kinds k [] @ 58 # identity_component u"
  by (simp add: workload_entity_id_def lit_def)

lemma lifecycle_id_shape: "lifecycle_event_id u = lit ''k8s:'' @ identity_component u @ 58 # lit ''lifecycle''"
  by (simp add: lifecycle_event_id_def lit_def)

lemma container_id_shape:
  "container_id (workload_entity_id k u) n =
     lit ''k8s:'' @ dget_or workload_kinds k [] @ 58 # identity_component u @ 58 # lit ''container:'' @ identity_component n"
  by (simp add: container_id_def workload_id_shape) (simp add: lit_def)

lemma kind_no_colon: "58 \<notin> set (dget_or workload_kinds k [])"
  by (auto simp: workload_kinds_def dget_or_def lit_def split: if_splits)

lemma kind_not_event: "dget_or workload_kinds k [] \<noteq> lit ''event''"
  by (auto simp: workload_kinds_def dget_or_def)

lemma split_colon_end: "58 \<notin> set x \<Longrightarrow> 58 \<notin> set y \<Longrightarrow> x @ (58 :: nat) # r \<noteq> y"
  by auto

lemma workload_id_uid: "workload_entity_id k u = workload_entity_id k' u' \<Longrightarrow> u = u'"
  using split_colon [OF kind_no_colon kind_no_colon] by (simp add: workload_id_shape identity_component_inject)

lemma container_id_parts:
  "container_id (workload_entity_id k u) n = container_id (workload_entity_id k' u') n' \<Longrightarrow> u = u' \<and> n = n'"
  using split_colon [OF kind_no_colon kind_no_colon] split_colon [OF identity_component_no_colon identity_component_no_colon]
  by (simp add: container_id_shape identity_component_inject)

lemma container_id_no_workload: "container_id (workload_entity_id k u) n \<noteq> workload_entity_id k' u'"
  using split_colon [OF kind_no_colon kind_no_colon] split_colon_end [OF identity_component_no_colon identity_component_no_colon]
  unfolding container_id_shape unfolding workload_id_shape by simp

lemma lifecycle_id_uid: "lifecycle_event_id u = lifecycle_event_id u' \<Longrightarrow> u = u'"
  by (simp add: lifecycle_id_shape identity_component_inject)

lemma container_event_no_lifecycle: "container_id (workload_entity_id k u) n @ lit '':lifecycle'' \<noteq> lifecycle_event_id u'"
proof
  assume "container_id (workload_entity_id k u) n @ lit '':lifecycle'' = lifecycle_event_id u'"
  then have "identity_component u @ 58 # lit ''container:'' @ identity_component n @ lit '':lifecycle'' = lit ''lifecycle''"
    using split_colon [OF kind_no_colon identity_component_no_colon] by (simp add: container_id_shape lifecycle_id_shape)
  then show False using split_colon_end [OF identity_component_no_colon, of "lit ''lifecycle''"] by (simp add: lit_def)
qed

lemma reported_id_no_container: "lit ''k8s:event:'' @ identity_component u \<noteq> container_id (workload_entity_id k u') n @ r"
proof
  assume "lit ''k8s:event:'' @ identity_component u = container_id (workload_entity_id k u') n @ r"
  then have "lit ''event'' @ 58 # identity_component u =
      dget_or workload_kinds k [] @ 58 # identity_component u' @ 58 # lit ''container:'' @ identity_component n @ r"
    by (simp add: container_id_shape lit_def)
  then show False using split_colon [of "lit ''event''" "dget_or workload_kinds k []"] kind_no_colon kind_not_event [of k] by (simp add: lit_def)
qed

lemma reported_id_lifecycle:
  assumes "lit ''k8s:event:'' @ identity_component u = lifecycle_event_id u'"
  shows "u' = lit ''event'' \<and> u = lit ''lifecycle''"
proof -
  have plain: "identity_component (lit ''event'') = lit ''event''" "identity_component (lit ''lifecycle'') = lit ''lifecycle''"
    by code_simp+
  have "lit ''event'' @ 58 # identity_component u = identity_component u' @ 58 # lit ''lifecycle''"
    using assms by (simp add: lifecycle_id_shape lit_def)
  then have "lit ''event'' = identity_component u'" "identity_component u = lit ''lifecycle''"
    using split_colon [of "lit ''event''" "identity_component u'"] identity_component_no_colon by (auto simp: lit_def)
  then show ?thesis using plain identity_component_inject by metis
qed

end
