(* ===== verification/KubernetesObjects.thy ===== *)
theory KubernetesObjects
  imports KubernetesLaws
begin

text \<open>
  What the passes over the items of a Kubernetes snapshot collect: the identified objects, the index of their
  entities, the entities and events of the objects and of their containers, and the reported events.
\<close>

lemma k8s_unless_Inr_iff: "k8s_unless b m = Inr u \<longleftrightarrow> b"
  by (simp add: k8s_unless_def raise_if_Inr_iff)

section \<open>Identified items\<close>

definition item_identity :: "attrs \<Rightarrow> (pystr \<times> pystr) option" where
  "item_identity item = (case item_kind item of
     Inr kind \<Rightarrow> if is_workload kind \<or> kind = lit ''Event'' then (case item_uid item of Inr uid \<Rightarrow> Some (kind, uid) | _ \<Rightarrow> None) else None
   | _ \<Rightarrow> None)"

abbreviation identified :: "attrs list \<Rightarrow> (pystr \<times> pystr) list" where
  "identified items \<equiv> List.map_filter item_identity items"

definition workloads :: "attrs list \<Rightarrow> (pystr \<times> pystr) list" where
  "workloads items = filter (\<lambda>(kind, uid). is_workload kind) (identified items)"

lemma event_no_workload: "\<not> is_workload (lit ''Event'')"
  by (simp add: is_workload_def workload_kinds_def has_key_def)

lemma identified_Cons: "identified (item # items) = (case item_identity item of None \<Rightarrow> identified items | Some p \<Rightarrow> p # identified items)"
  by (simp add: map_filter_simps split: option.splits)

lemma identified_Nil: "identified [] = []"
  by (simp add: map_filter_simps)

lemma workloads_Cons:
  "workloads (item # items) = (case item_identity item of Some (kind, uid) \<Rightarrow>
     if is_workload kind then (kind, uid) # workloads items else workloads items | None \<Rightarrow> workloads items)"
  by (auto simp: workloads_def identified_Cons split: option.splits)

lemma count_step_Inr:
  "count_step item kinds = Inr kinds' \<Longrightarrow> kinds' = (case item_identity item of None \<Rightarrow> kinds
     | Some (kind, uid) \<Rightarrow> dset uid (kind # dget_or kinds uid []) kinds)"
  by (auto simp: count_step_def rbind_eq_Inr_iff item_identity_def split: if_splits)

lemma count_steps:
  "fold_res count_step items kinds = Inr kinds' \<Longrightarrow>
     length (dget_or kinds' u []) = length (dget_or kinds u []) + count_list (map snd (identified items)) u"
proof (induction items arbitrary: kinds)
  case (Cons item items)
  obtain kinds1 where step: "count_step item kinds = Inr kinds1" and rest: "fold_res count_step items kinds1 = Inr kinds'"
    using Cons.prems by (auto simp: rbind_eq_Inr_iff)
  have "length (dget_or kinds1 u []) = length (dget_or kinds u []) +
      (case item_identity item of Some (_, uid) \<Rightarrow> if uid = u then 1 else 0 | None \<Rightarrow> 0)"
    using count_step_Inr [OF step] by (simp split: option.splits)
  then show ?case using Cons.IH [OF rest] by (auto simp: identified_Cons split: option.splits)
qed (simp add: identified_Nil)

lemma count_at_most_one: "(\<And>u. count_list xs u \<le> 1) \<Longrightarrow> distinct xs"
proof (induction xs)
  case (Cons x xs)
  have "count_list xs u \<le> 1" for u using Cons.prems [of u] by (simp split: if_splits)
  moreover have "count_list xs x = 0" using Cons.prems [of x] by simp
  ultimately show ?case using Cons.IH by (simp add: count_list_0_iff)
qed simp

lemma check_unique_distinct: "check_unique items = Inr () \<Longrightarrow> distinct (map snd (identified items))"
proof (rule count_at_most_one)
  fix u assume "check_unique items = Inr ()"
  then obtain kinds where kinds: "fold_res count_step items [] = Inr kinds"
    and none: "List.find (\<lambda>uid. 1 < length (dget_or kinds uid [])) (sort (map fst kinds)) = None"
    by (auto simp: check_unique_def rbind_eq_Inr_iff k8s_error_def split: option.splits)
  have "length (dget_or kinds u []) \<le> 1"
  proof (cases "dget kinds u")
    case (Some ks)
    then have "u \<in> set (sort (map fst kinds))" by (force dest: map_of_SomeD)
    then show ?thesis using none by (auto simp: find_None_iff not_less)
  qed (simp add: dget_or_def)
  then show "count_list (map snd (identified items)) u \<le> 1" using count_steps [OF kinds, of u] by (simp add: dget_or_def)
qed

lemma workloads_distinct: "check_unique items = Inr () \<Longrightarrow> distinct (map snd (workloads items))"
  unfolding workloads_def using check_unique_distinct [of items] by (rule distinct_map_filter)

section \<open>The index\<close>

lemma index_step_Inr:
  "index_step item x = Inr x' \<Longrightarrow> ki_entities x' = (case item_identity item of None \<Rightarrow> ki_entities x
     | Some (kind, uid) \<Rightarrow> if is_workload kind then dset uid (workload_entity_id kind uid) (ki_entities x) else ki_entities x)"
proof -
  assume step: "index_step item x = Inr x'"
  then obtain kind where kind: "item_kind item = Inr kind" by (auto simp: index_step_def rbind_eq_Inr_iff)
  show ?thesis
  proof (cases "is_workload kind")
    case False
    then have "x' = x" using step kind by (simp add: index_step_def rbind_def)
    then show ?thesis using kind False by (auto simp: item_identity_def split: sum.splits)
  next
    case True
    obtain uid where uid: "item_uid item = Inr uid" using step kind True by (auto simp: index_step_def rbind_eq_Inr_iff)
    have "ki_entities x' = dset uid (workload_entity_id kind uid) (ki_entities x)"
    proof (cases "kind = lit ''Node''")
      case node: True
      then have "index_step item x = rbind (item_name item) (\<lambda>name.
         rbind (k8s_unless (\<not> has_key (ki_nodes x) name) [lit ''duplicate Kubernetes Node name: '', name]) (\<lambda>_.
         Inr (x\<lparr>ki_entities := dset uid (workload_entity_id kind uid) (ki_entities x), ki_nodes := dset name uid (ki_nodes x)\<rparr>)))"
        using True kind uid by (simp add: index_step_def rbind_def Let_def)
      with step obtain name where "Inr (x\<lparr>ki_entities := dset uid (workload_entity_id kind uid) (ki_entities x),
          ki_nodes := dset name uid (ki_nodes x)\<rparr>) = (Inr x' :: k8s_index res)"
        by (auto simp only: rbind_eq_Inr_iff)
      then show ?thesis by auto
    next
      case False
      then have "x' = x\<lparr>ki_entities := dset uid (workload_entity_id kind uid) (ki_entities x)\<rparr>"
        using step True kind uid by (simp add: index_step_def rbind_def Let_def)
      then show ?thesis by simp
    qed
    then show ?thesis using True kind uid by (simp add: item_identity_def)
  qed
qed

lemma index_steps:
  "fold_res index_step items x = Inr x' \<Longrightarrow> dget (ki_entities x') u = Some e \<Longrightarrow>
     dget (ki_entities x) u = Some e \<or> (\<exists>k. (k, u) \<in> set (workloads items) \<and> e = workload_entity_id k u)"
proof (induction items arbitrary: x)
  case (Cons item items)
  obtain x1 where step: "index_step item x = Inr x1" and rest: "fold_res index_step items x1 = Inr x'"
    using Cons.prems(1) by (auto simp: rbind_eq_Inr_iff)
  have "dget (ki_entities x1) u = Some e \<Longrightarrow>
      dget (ki_entities x) u = Some e \<or> (\<exists>k. item_identity item = Some (k, u) \<and> is_workload k \<and> e = workload_entity_id k u)"
    using index_step_Inr [OF step] by (auto split: option.splits if_splits)
  with Cons.IH [OF rest Cons.prems(2)] show ?case by (auto simp: workloads_Cons split: option.splits)
qed simp

lemma index_steps_keys:
  "fold_res index_step items x = Inr x' \<Longrightarrow> has_key (ki_entities x) u \<or> u \<in> snd ` set (workloads items) \<Longrightarrow> has_key (ki_entities x') u"
proof (induction items arbitrary: x)
  case (Cons item items)
  obtain x1 where step: "index_step item x = Inr x1" and rest: "fold_res index_step items x1 = Inr x'"
    using Cons.prems(1) by (auto simp: rbind_eq_Inr_iff)
  have "has_key (ki_entities x) u \<or> (\<exists>k. item_identity item = Some (k, u) \<and> is_workload k) \<Longrightarrow> has_key (ki_entities x1) u"
    using index_step_Inr [OF step] by (auto simp: has_key_iff split: option.splits)
  with Cons.IH [OF rest] Cons.prems(2) show ?case by (auto simp: workloads_Cons split: option.splits if_splits)
qed (auto simp: workloads_def identified_Nil)

section \<open>The objects\<close>

lemma item_identity_kind: "item_kind item = Inr kind \<Longrightarrow> \<not> is_workload kind \<Longrightarrow> item_identity item = Some (k, u) \<Longrightarrow> \<not> is_workload k"
  by (auto simp: item_identity_def split: if_splits sum.splits)

lemma workload_records_Inr:
  assumes step: "workload_records digit x owners item = Inr (es, vs, gs)"
  shows "(es = [] \<and> vs = [] \<and> workloads [item] = []) \<or>
     (\<exists>k u e v. workloads [item] = [(k, u)] \<and> es = [e] \<and> vs = [v] \<and> ent_id e = workload_entity_id k u \<and>
        ent_parent_id e = Option.bind (dget_or owners u None) (dget (ki_entities x)) \<and> ev_id v = lifecycle_event_id u)"
proof -
  obtain kind where kind: "item_kind item = Inr kind" using step by (auto simp: workload_records_def rbind_eq_Inr_iff)
  show ?thesis
  proof (cases "is_workload kind")
    case False
    then have "es = [] \<and> vs = []" using step kind by (simp add: workload_records_def rbind_def)
    moreover have "workloads [item] = []"
      using item_identity_kind [OF kind False] by (auto simp: workloads_Cons workloads_def identified_Nil split: option.splits)
    ultimately show ?thesis by simp
  next
    case True
    obtain uid where uid: "item_uid item = Inr uid" using step kind True by (auto simp: workload_records_def rbind_eq_Inr_iff)
    have "workloads [item] = [(kind, uid)]"
      using kind uid True by (simp add: workloads_Cons item_identity_def) (simp add: workloads_def identified_Nil)
    moreover have "\<exists>e v. es = [e] \<and> vs = [v] \<and> ent_id e = workload_entity_id kind uid \<and>
        ent_parent_id e = Option.bind (dget_or owners uid None) (dget (ki_entities x)) \<and> ev_id v = lifecycle_event_id uid"
      using step by (clarsimp simp: workload_records_def kind uid True Let_def rbind_eq_Inr_iff k8s_event_def)
    ultimately show ?thesis by blast
  qed
qed

lemma workloads_append_Cons: "workloads (item # items) = workloads [item] @ workloads items"
  by (auto simp: workloads_def identified_Cons identified_Nil split: option.splits)

abbreviation placed :: "entity list \<Rightarrow> (pystr \<times> pystr option) list" where
  "placed es \<equiv> map (\<lambda>e. (ent_id e, ent_parent_id e)) es"

definition workload_place :: "k8s_index \<Rightarrow> (pystr, pystr option) dict \<Rightarrow> pystr \<times> pystr \<Rightarrow> pystr \<times> pystr option" where
  "workload_place x owners = (\<lambda>(k, u). (workload_entity_id k u, Option.bind (dget_or owners u None) (dget (ki_entities x))))"

lemma workload_pass:
  "traverse (workload_records digit x owners) items = Inr ws \<Longrightarrow>
     placed (concat (map fst ws)) = map (workload_place x owners) (workloads items) \<and>
     map ev_id (concat (map (fst \<circ> snd) ws)) = map (lifecycle_event_id \<circ> snd) (workloads items)"
proof (induction items arbitrary: ws)
  case (Cons item items)
  obtain es vs gs rest where step: "workload_records digit x owners item = Inr (es, vs, gs)"
    and rest: "traverse (workload_records digit x owners) items = Inr rest" and ws: "ws = (es, vs, gs) # rest"
    using Cons.prems by (auto simp: rbind_eq_Inr_iff)
  from workload_records_Inr [OF step] Cons.IH [OF rest] show ?case
    unfolding workloads_append_Cons [of item items] ws workload_place_def by auto
qed (simp add: workloads_def identified_Nil)

section \<open>The containers\<close>

lemma container_records_Inr:
  assumes "container_records digit pod pod_event statuses raw (names, es, vs, gs) = Inr state"
  shows "\<exists>n e v g. n \<notin> set names \<and> state = (names @ [n], es @ [e], vs @ [v], gs @ [g]) \<and>
     ent_id e = container_id pod n \<and> ent_parent_id e = Some pod \<and> ev_id v = container_id pod n @ lit '':lifecycle''"
  using assms by (auto simp: container_records_def Let_def rbind_eq_Inr_iff k8s_unless_Inr_iff container_id_def k8s_event_def)

lemma containers_Inr:
  "fold_res (container_records digit pod pod_event statuses) raws (names, es, vs, gs) = Inr (names', es', vs', gs') \<Longrightarrow> distinct names \<Longrightarrow>
     \<exists>ns C V. distinct (names @ ns) \<and> names' = names @ ns \<and> es' = es @ C \<and> vs' = vs @ V \<and>
       placed C = map (\<lambda>n. (container_id pod n, Some pod)) ns \<and> map ev_id V = map (\<lambda>n. container_id pod n @ lit '':lifecycle'') ns"
proof (induction raws arbitrary: names es vs gs)
  case (Cons raw raws)
  obtain state where step: "container_records digit pod pod_event statuses raw (names, es, vs, gs) = Inr state"
    and rest: "fold_res (container_records digit pod pod_event statuses) raws state = Inr (names', es', vs', gs')"
    using Cons.prems(1) by (auto simp: rbind_eq_Inr_iff)
  obtain n e v g where new: "n \<notin> set names" and state: "state = (names @ [n], es @ [e], vs @ [v], gs @ [g])"
    and e: "ent_id e = container_id pod n" "ent_parent_id e = Some pod" "ev_id v = container_id pod n @ lit '':lifecycle''"
    using container_records_Inr [OF step] by blast
  obtain ns C V where ns: "distinct ((names @ [n]) @ ns)" "names' = (names @ [n]) @ ns" "es' = (es @ [e]) @ C" "vs' = (vs @ [v]) @ V"
      "placed C = map (\<lambda>n. (container_id pod n, Some pod)) ns" "map ev_id V = map (\<lambda>n. container_id pod n @ lit '':lifecycle'') ns"
    using Cons.IH [OF rest [unfolded state]] new Cons.prems(2) by auto
  then show ?case
    using e by (intro exI [of _ "n # ns"] exI [of _ "e # C"] exI [of _ "v # V"]) simp
qed simp

text \<open>A pod with containers: its uid, its entity and the names.\<close>

type_synonym pod = "pystr \<times> pystr \<times> pystr list"

definition pod_places :: "pod list \<Rightarrow> (pystr \<times> pystr option) list" where
  "pod_places ps = concat (map (\<lambda>(u, pod, ns). map (\<lambda>n. (container_id pod n, Some pod)) ns) ps)"

definition pod_event_ids :: "pod list \<Rightarrow> pystr list" where
  "pod_event_ids ps = concat (map (\<lambda>(u, pod, ns). map (\<lambda>n. container_id pod n @ lit '':lifecycle'') ns) ps)"

definition pods_ok :: "k8s_index \<Rightarrow> (pystr \<times> pystr) list \<Rightarrow> pod list \<Rightarrow> bool" where
  "pods_ok x is ps \<longleftrightarrow> set (map fst ps) \<subseteq> snd ` set is \<and> (distinct (map snd is) \<longrightarrow> distinct (map fst ps)) \<and>
     (\<forall>(u, pod, ns)\<in>set ps. dget (ki_entities x) u = Some pod \<and> distinct ns)"

lemma pod_records_Inr:
  assumes step: "pod_records digit x item (n, es, vs, gs) = Inr (n', es', vs', gs')"
  shows "\<exists>ps C V. es' = es @ C \<and> vs' = vs @ V \<and> placed C = pod_places ps \<and> map ev_id V = pod_event_ids ps \<and>
     pods_ok x (identified [item]) ps \<and> length ps \<le> 1"
proof -
  obtain kind where kind: "item_kind item = Inr kind" using step by (auto simp: pod_records_def rbind_eq_Inr_iff)
  have none: ?thesis if "es' = es" "vs' = vs"
    using that by (intro exI [of _ "[]"]) (simp add: pod_places_def pod_event_ids_def pods_ok_def)
  show ?thesis
  proof (cases "kind = lit ''Pod''")
    case False
    then have "es' = es" "vs' = vs" using step kind by (simp_all add: pod_records_def)
    then show ?thesis by (rule none)
  next
    case True
    obtain uid where uid: "item_uid item = Inr uid" using step kind True by (auto simp: pod_records_def rbind_eq_Inr_iff)
    have pod: "is_workload (lit ''Pod'')" by (simp add: is_workload_def workload_kinds_def has_key_def)
    have identified: "identified [item] = [(lit ''Pod'', uid)]"
      using kind uid True pod by (simp add: identified_Cons identified_Nil item_identity_def)
    show ?thesis
    proof (cases "dget (ki_entities x) uid")
      case None
      then have "es' = es" "vs' = vs" using step kind uid True by (auto simp: pod_records_def rbind_eq_Inr_iff)
      then show ?thesis by (rule none)
    next
      case (Some entity_id)
      obtain names statuses containers gs'' where
        fold: "fold_res (container_records digit entity_id (lifecycle_event_id uid) statuses) containers ([], es, vs, gs) = Inr (names, es', vs', gs'')"
        using step by (clarsimp simp: pod_records_def kind uid True Some rbind_eq_Inr_iff Let_def)
      obtain ns C V where "distinct ns" "es' = es @ C" "vs' = vs @ V"
        "placed C = map (\<lambda>n. (container_id entity_id n, Some entity_id)) ns" "map ev_id V = map (\<lambda>n. container_id entity_id n @ lit '':lifecycle'') ns"
        using containers_Inr [OF fold] by auto
      then show ?thesis
        using Some unfolding identified
        by (intro exI [of _ "[(uid, entity_id, ns)]"] exI [of _ C] exI [of _ V])
          (simp add: pod_places_def pod_event_ids_def pods_ok_def)
    qed
  qed
qed

lemma identified_append_Cons: "identified (item # items) = identified [item] @ identified items"
  by (simp add: identified_Cons identified_Nil split: option.splits)

lemma pods_ok_append:
  assumes "pods_ok x is ps" "pods_ok x js qs"
  shows "pods_ok x (is @ js) (ps @ qs)"
proof -
  have inside: "set (map fst ps) \<subseteq> snd ` set is" "set (map fst qs) \<subseteq> snd ` set js" using assms by (simp_all add: pods_ok_def)
  have "distinct (map fst (ps @ qs))" if "distinct (map snd (is @ js))"
  proof -
    have "distinct (map fst ps)" "distinct (map fst qs)" using that assms by (simp_all add: pods_ok_def)
    moreover have "set (map snd is) \<inter> set (map snd js) = {}" using that by (simp del: set_map)
    then have "set (map fst ps) \<inter> set (map fst qs) = {}" using inside unfolding set_map by blast
    ultimately show ?thesis by (simp del: set_map)
  qed
  then show ?thesis using inside assms by (auto simp: pods_ok_def)
qed

lemma pod_pass:
  "fold_res (pod_records digit x) items (n, es, vs, gs) = Inr (n', es', vs', gs') \<Longrightarrow>
     \<exists>ps C V. es' = es @ C \<and> vs' = vs @ V \<and> placed C = pod_places ps \<and> map ev_id V = pod_event_ids ps \<and> pods_ok x (identified items) ps"
proof (induction items arbitrary: n es vs gs)
  case Nil
  then show ?case by (intro exI [of _ "[]"]) (simp add: pod_places_def pod_event_ids_def pods_ok_def)
next
  case (Cons item items)
  obtain n1 es1 vs1 gs1 where step: "pod_records digit x item (n, es, vs, gs) = Inr (n1, es1, vs1, gs1)"
    and rest: "fold_res (pod_records digit x) items (n1, es1, vs1, gs1) = Inr (n', es', vs', gs')"
    using Cons.prems by (auto simp: rbind_eq_Inr_iff)
  obtain ps C V where 1: "es1 = es @ C" "vs1 = vs @ V" "placed C = pod_places ps" "map ev_id V = pod_event_ids ps"
      "pods_ok x (identified [item]) ps"
    using pod_records_Inr [OF step] by blast
  obtain qs D W where 2: "es' = es1 @ D" "vs' = vs1 @ W" "placed D = pod_places qs" "map ev_id W = pod_event_ids qs"
      "pods_ok x (identified items) qs"
    using Cons.IH [OF rest] by blast
  have "pods_ok x (identified (item # items)) (ps @ qs)"
    unfolding identified_append_Cons [of item items] by (rule pods_ok_append [OF 1(5) 2(5)])
  then show ?case
    using 1(1-4) 2(1-4) by (intro exI [of _ "ps @ qs"] exI [of _ "C @ D"] exI [of _ "V @ W"]) (simp add: pod_places_def pod_event_ids_def)
qed

section \<open>The reported events\<close>

definition reported_id :: "pystr \<Rightarrow> pystr" where
  "reported_id u = lit ''k8s:event:'' @ identity_component u"

lemma reported_event_Inr:
  assumes step: "reported_event digit x item = Inr (vs, gs)"
  shows "vs = [] \<or> (\<exists>u v. identified [item] = [(lit ''Event'', u)] \<and> vs = [v] \<and> ev_id v = reported_id u)"
proof -
  obtain kind where kind: "item_kind item = Inr kind" using step by (auto simp: reported_event_def rbind_eq_Inr_iff)
  show ?thesis
  proof (cases "kind = lit ''Event''")
    case False
    then show ?thesis using step kind by (simp add: reported_event_def)
  next
    case True
    obtain uid where uid: "item_uid item = Inr uid" using step kind True by (auto simp: reported_event_def rbind_eq_Inr_iff)
    have "identified [item] = [(lit ''Event'', uid)]" using kind uid True by (simp add: identified_Cons identified_Nil item_identity_def)
    moreover have "vs = [] \<or> (\<exists>v. vs = [v] \<and> ev_id v = reported_id uid)"
      using step by (auto simp: reported_event_def kind uid True rbind_eq_Inr_iff Let_def k8s_event_def reported_id_def split: option.splits)
    ultimately show ?thesis by blast
  qed
qed

definition reported_ok :: "(pystr \<times> pystr) list \<Rightarrow> pystr list \<Rightarrow> bool" where
  "reported_ok is us \<longleftrightarrow> (\<forall>u\<in>set us. (lit ''Event'', u) \<in> set is) \<and> (distinct (map snd is) \<longrightarrow> distinct us)"

lemma reported_pass:
  "traverse (reported_event digit x) items = Inr rs \<Longrightarrow>
     \<exists>us. map ev_id (concat (map fst rs)) = map reported_id us \<and> reported_ok (identified items) us"
proof (induction items arbitrary: rs)
  case Nil
  then show ?case by (simp add: reported_ok_def)
next
  case (Cons item items)
  obtain vs gs rest where step: "reported_event digit x item = Inr (vs, gs)"
    and rest: "traverse (reported_event digit x) items = Inr rest" and rs: "rs = (vs, gs) # rest"
    using Cons.prems by (auto simp: rbind_eq_Inr_iff)
  obtain us where us: "map ev_id (concat (map fst rest)) = map reported_id us" "reported_ok (identified items) us"
    using Cons.IH [OF rest] by blast
  from reported_event_Inr [OF step] show ?case
  proof
    assume "vs = []"
    then show ?thesis
      using us unfolding rs identified_append_Cons [of item items] by (intro exI [of _ us]) (auto simp: reported_ok_def)
  next
    assume "\<exists>u v. identified [item] = [(lit ''Event'', u)] \<and> vs = [v] \<and> ev_id v = reported_id u"
    then obtain u v where "identified [item] = [(lit ''Event'', u)]" "vs = [v]" "ev_id v = reported_id u" by blast
    then show ?thesis
      using us unfolding rs identified_append_Cons [of item items] by (intro exI [of _ "u # us"]) (force simp: reported_ok_def)
  qed
qed

section \<open>The snapshot\<close>

lemma read_snapshot_Inr:
  assumes "read_snapshot digit items = Inr s"
  obtains x owners ps us where "distinct (map snd (identified items))"
    "fold_res index_step items \<lparr>ki_entities = [], ki_nodes = []\<rparr> = Inr x" "wf (owned_by owners)"
    "mset (placed (sn_entities s)) = mset (map (workload_place x owners) (workloads items) @ pod_places ps)"
    "map ev_id (sn_events s) = map (lifecycle_event_id \<circ> snd) (workloads items) @ pod_event_ids ps @ map reported_id us"
    "pods_ok x (identified items) ps" "reported_ok (identified items) us"
  using assms unfolding read_snapshot_def rbind_eq_Inr_iff
proof (elim exE conjE, goal_cases)
  case (1 u1 x owners u2 ws owns r)
  obtain n es vs gs where r: "r = (n, es, vs, gs)" by (cases r)
  have unique: "distinct (map snd (identified items))" using 1 by (intro check_unique_distinct) simp
  have wf: "wf (owned_by owners)" using 1 by (intro owners_wf) simp
  have work: "traverse (workload_records digit x owners) items = Inr ws" using 1 by blast
  have pods: "fold_res (pod_records digit x) items (0, concat (map fst ws), concat (map (fst \<circ> snd) ws),
       concat (map (snd \<circ> snd) ws) @ concat owns) = Inr (n, es, vs, gs)" using 1 r by blast
  obtain reported where rep: "traverse (reported_event digit x) items = Inr reported"
    and s: "sn_entities s = sort_key entity_order es" "sn_events s = vs @ concat (map fst reported)"
    using 1 by (auto simp: r rbind_eq_Inr_iff)
  obtain ps C V where ps: "es = concat (map fst ws) @ C" "vs = concat (map (fst \<circ> snd) ws) @ V" "placed C = pod_places ps"
      "map ev_id V = pod_event_ids ps" "pods_ok x (identified items) ps"
    using pod_pass [OF pods] by blast
  obtain us where us: "map ev_id (concat (map fst reported)) = map reported_id us" "reported_ok (identified items) us"
    using reported_pass [OF rep] by blast
  note w = workload_pass [OF work]
  have "mset (placed (sn_entities s)) = mset (map (workload_place x owners) (workloads items) @ pod_places ps)"
  proof -
    have "placed es = map (workload_place x owners) (workloads items) @ pod_places ps"
      unfolding ps(1) map_append ps(3) by (simp only: w)
    then show ?thesis unfolding s(1) by (simp only: mset_map mset_sort flip: mset_map [of _ es])
  qed
  moreover have "map ev_id (sn_events s) = map (lifecycle_event_id \<circ> snd) (workloads items) @ pod_event_ids ps @ map reported_id us"
    using w ps(2,4) us(1) unfolding s(2) by simp
  moreover have "fold_res index_step items \<lparr>ki_entities = [], ki_nodes = []\<rparr> = Inr x" using 1 by blast
  ultimately show ?case using 1(1) unique wf ps(5) us(2) by blast
qed

end
