(* ===== verification/KubernetesProperties.thy ===== *)
theory KubernetesProperties
  imports KubernetesObjects EnrichmentLaws
begin

text \<open>
  What the import of a Kubernetes snapshot promises: the owners are free of cycles, the entities are a hierarchy that
  the writer accepts, and the ids of the events are distinct up to one collision.
\<close>

section \<open>The entities of a snapshot\<close>

lemma index_entity:
  assumes "fold_res index_step items \<lparr>ki_entities = [], ki_nodes = []\<rparr> = Inr x" "dget (ki_entities x) u = Some p"
  obtains k where "(k, u) \<in> set (workloads items)" "p = workload_entity_id k u"
  using index_steps [OF assms] by auto

definition pod_ok :: "(pystr \<times> pystr) list \<Rightarrow> pod \<Rightarrow> bool" where
  "pod_ok ws = (\<lambda>(u, pod, ns). (\<exists>k. (k, u) \<in> set ws \<and> pod = workload_entity_id k u) \<and> distinct ns)"

lemma pods_ok_pod:
  assumes "fold_res index_step items \<lparr>ki_entities = [], ki_nodes = []\<rparr> = Inr x" "pods_ok x is ps" "p \<in> set ps"
  shows "pod_ok (workloads items) p"
proof -
  obtain u pod ns where p: "p = (u, pod, ns)" by (cases p)
  have d: "dget (ki_entities x) u = Some pod" "distinct ns" using assms(2,3) by (auto simp: pods_ok_def p)
  obtain k where "(k, u) \<in> set (workloads items)" "pod = workload_entity_id k u" by (rule index_entity [OF assms(1) d(1)])
  then show ?thesis using d(2) by (auto simp: pod_ok_def p)
qed

lemma pod_parts_distinct:
  assumes ok: "\<And>p. p \<in> set ps \<Longrightarrow> pod_ok ws p" and uids: "distinct (map fst ps)"
    and inject: "\<And>k u k' u' n n'. f (workload_entity_id k u) n = f (workload_entity_id k' u') n' \<Longrightarrow> u = u' \<and> n = n'"
  shows "distinct (concat (map (\<lambda>(u, pod, ns). map (f pod) ns) ps))"
proof (rule distinct_concat_map)
  show "distinct ps" using uids by (simp add: distinct_map)
  show "distinct (case p of (u, pod, ns) \<Rightarrow> map (f pod) ns)" if "p \<in> set ps" for p
    using ok [OF that] inject by (fastforce simp: pod_ok_def distinct_map inj_on_def split: prod.splits)
  show "set (case p of (u, pod, ns) \<Rightarrow> map (f pod) ns) \<inter> set (case q of (u, pod, ns) \<Rightarrow> map (f pod) ns) = {}"
    if "p \<in> set ps" "q \<in> set ps" "p \<noteq> q" for p q
  proof -
    have "fst p \<noteq> fst q" using that uids by (auto simp: distinct_map dest: inj_onD)
    then show ?thesis using ok [OF that(1)] ok [OF that(2)] inject by (fastforce simp: pod_ok_def split: prod.splits)
  qed
qed

lemma workload_ids_distinct:
  assumes "distinct (map snd ws)" "\<And>k u k' u'. f (k, u) = f (k', u') \<Longrightarrow> u = u'"
  shows "distinct (map f ws)"
  using assms by (induction ws) (force simp: image_iff)+

definition places :: "k8s_index \<Rightarrow> (pystr, pystr option) dict \<Rightarrow> (pystr \<times> pystr) list \<Rightarrow> pod list \<Rightarrow> (pystr \<times> pystr option) list" where
  "places x owners ws ps = map (workload_place x owners) ws @ pod_places ps"

lemma place_ids:
  "map fst (places x owners ws ps) = map (\<lambda>(k, u). workload_entity_id k u) ws @ concat (map (\<lambda>(u, pod, ns). map (container_id pod) ns) ps)"
proof -
  have "map fst (pod_places ps) = concat (map (\<lambda>(u, pod, ns). map (container_id pod) ns) ps)"
    by (induction ps) (auto simp: pod_places_def)
  then show ?thesis by (simp add: places_def workload_place_def case_prod_beta)
qed

lemma place_ids_distinct:
  assumes "distinct (map snd ws)" "\<And>p. p \<in> set ps \<Longrightarrow> pod_ok ws p" "distinct (map fst ps)"
  shows "distinct (map fst (places x owners ws ps))"
proof -
  have "set (map (\<lambda>(k, u). workload_entity_id k u) ws) \<inter> set (concat (map (\<lambda>(u, pod, ns). map (container_id pod) ns) ps)) = {}"
  proof (rule ccontr)
    assume "\<not> ?thesis"
    then obtain k u u' pod ns n where *: "(u', pod, ns) \<in> set ps" "workload_entity_id k u = container_id pod n" by fastforce
    from assms(2) [OF *(1)] obtain l where "pod = workload_entity_id l u'" by (auto simp: pod_ok_def)
    then show False using *(2) container_id_no_workload by metis
  qed
  moreover have "distinct (map (\<lambda>(k, u). workload_entity_id k u) ws)"
    by (rule workload_ids_distinct [OF assms(1)]) (use workload_id_uid in auto)
  moreover have "distinct (concat (map (\<lambda>(u, pod, ns). map (container_id pod) ns) ps))"
    by (rule pod_parts_distinct [OF assms(2,3) container_id_parts])
  ultimately show ?thesis unfolding place_ids distinct_append by blast
qed

text \<open>The parents: an owner, or the pod of a container.\<close>

definition owner_ids :: "(pystr, pystr option) dict \<Rightarrow> (pystr \<times> pystr) set" where
  "owner_ids owners = {(workload_entity_id k v, workload_entity_id l u) | k l v u. (v, u) \<in> owned_by owners}"

definition container_ids :: "(pystr \<times> pystr) set" where
  "container_ids = {(workload_entity_id k u, container_id (workload_entity_id k u) n) | k u n. True}"

lemma parents_wf:
  assumes "wf (owned_by owners)"
  shows "wf (owner_ids owners \<union> container_ids)"
proof (rule wf_Un)
  let ?uid = "\<lambda>i. SOME u. \<exists>k. i = workload_entity_id k u"
  have uid: "?uid (workload_entity_id k u) = u" for k u
    by (rule some_equality) (use workload_id_uid in blast)+
  have "owner_ids owners \<subseteq> inv_image (owned_by owners) ?uid" by (auto simp: owner_ids_def uid)
  then show "wf (owner_ids owners)" by (rule wf_subset [OF wf_inv_image [OF assms]])
  have "container_ids \<subseteq> measure length" by (auto simp: container_ids_def container_id_def)
  then show "wf container_ids" by (rule wf_subset [OF wf_measure])
  show "Domain (owner_ids owners) \<inter> Range container_ids = {}"
    using container_id_no_workload by (fastforce simp: owner_ids_def container_ids_def)
qed

lemma place_parents:
  assumes index: "fold_res index_step items \<lparr>ki_entities = [], ki_nodes = []\<rparr> = Inr x"
    and pods: "\<And>p. p \<in> set ps \<Longrightarrow> pod_ok (workloads items) p" and mem: "(c, Some p) \<in> set (places x owners (workloads items) ps)"
  shows "(p, c) \<in> owner_ids owners \<union> container_ids \<and> p \<in> set (map fst (places x owners (workloads items) ps))"
proof -
  have known: "workload_entity_id k u \<in> set (map fst (places x owners (workloads items) ps))" if "(k, u) \<in> set (workloads items)" for k u
    using that unfolding place_ids by force
  consider (workload) k u where "(k, u) \<in> set (workloads items)" "c = workload_entity_id k u"
      "Option.bind (dget_or owners u None) (dget (ki_entities x)) = Some p"
    | (pod) u ns n where "(u, p, ns) \<in> set ps" "c = container_id p n"
    using mem by (auto simp: places_def workload_place_def pod_places_def)
  then show ?thesis
  proof cases
    case workload
    then obtain v where v: "dget_or owners u None = Some v" "dget (ki_entities x) v = Some p" by (auto simp: bind_eq_Some_conv)
    obtain l where l: "(l, v) \<in> set (workloads items)" "p = workload_entity_id l v" using index_entity [OF index v(2)] .
    have "(v, u) \<in> owned_by owners" using v(1) by (auto simp: owned_by_def dget_or_def split: option.splits)
    then show ?thesis using workload(2) l known by (auto simp: owner_ids_def)
  next
    case pod
    then obtain k where "(k, u) \<in> set (workloads items)" "p = workload_entity_id k u" using pods by (fastforce simp: pod_ok_def)
    moreover from this(2) pod(2) have "(p, c) \<in> container_ids" unfolding container_ids_def by blast
    ultimately show ?thesis using known by blast
  qed
qed

lemma placed_ids: "map fst (placed es) = map ent_id es"
  by simp

lemma hierarchy_of_wf:
  assumes "wf r" "\<And>e p. e \<in> set es \<Longrightarrow> ent_parent_id e = Some p \<Longrightarrow> (p, ent_id e) \<in> r \<and> p \<in> ent_id ` set es"
  shows "validate_entity_hierarchy es = Inr () \<longleftrightarrow> (\<forall>e\<in>set es. text_ok (ent_id e))"
proof -
  let ?ps = "parent_by_child (placed es)"
  have "parent_edges ?ps \<subseteq> r\<inverse>"
    using parent_by_child_get(1) [of "placed es"] assms(2) by (fastforce simp: parent_edges_def)
  then have "(parent_edges ?ps)\<^sup>+ \<subseteq> (r\<inverse>)\<^sup>+" by (rule trancl_mono_subset)
  moreover have "acyclic (r\<inverse>)" using wf_acyclic [OF assms(1)] by simp
  ultimately have no_cycle: "(c, c) \<notin> (parent_edges ?ps)\<^sup>+" for c by (auto simp: acyclic_def)
  have "ent_parent_id e \<noteq> Some (ent_id e)" if "e \<in> set es" for e
    using assms(2) [OF that] wf_not_refl [OF assms(1)] by blast
  moreover have "opt_text_ok (ent_parent_id e)" if "e \<in> set es" "\<forall>e\<in>set es. text_ok (ent_id e)" for e
    using assms(2) [OF that(1)] that(2) by (cases "ent_parent_id e") auto
  ultimately show ?thesis
    using no_cycle unfolding validate_entity_hierarchy_Inr entity_identity_Inr_iff by blast
qed

lemma snapshot_entities:
  assumes "read_snapshot digit items = Inr s"
  shows "distinct (map ent_id (sn_entities s)) \<and>
    (\<forall>e\<in>set (sn_entities s). \<forall>p. ent_parent_id e = Some p \<longrightarrow> p \<in> ent_id ` set (sn_entities s)) \<and>
    (validate_entity_hierarchy (sn_entities s) = Inr () \<longleftrightarrow> (\<forall>e\<in>set (sn_entities s). text_ok (ent_id e)))"
proof -
  obtain x owners ps us where unique: "distinct (map snd (identified items))"
    and index: "fold_res index_step items \<lparr>ki_entities = [], ki_nodes = []\<rparr> = Inr x" and wf: "wf (owned_by owners)"
    and es: "mset (placed (sn_entities s)) = mset (map (workload_place x owners) (workloads items) @ pod_places ps)"
    and ps: "pods_ok x (identified items) ps"
    by (rule read_snapshot_Inr [OF assms])
  let ?places = "places x owners (workloads items) ps"
  have es: "mset (placed (sn_entities s)) = mset ?places" using es by (simp only: places_def)
  have pods: "\<And>p. p \<in> set ps \<Longrightarrow> pod_ok (workloads items) p" by (rule pods_ok_pod [OF index ps])
  have "distinct (map snd (workloads items))" unfolding workloads_def using unique by (rule distinct_map_filter)
  moreover have "distinct (map fst ps)" using ps unique by (simp add: pods_ok_def)
  ultimately have "distinct (map fst ?places)" using place_ids_distinct [OF _ pods] by blast
  moreover have ids: "mset (map ent_id (sn_entities s)) = mset (map fst ?places)"
    using arg_cong [OF es, of "image_mset fst"] unfolding mset_map [symmetric] placed_ids .
  ultimately have distinct: "distinct (map ent_id (sn_entities s))" using mset_eq_imp_distinct_iff [OF ids] by simp
  have parent: "(p, ent_id e) \<in> owner_ids owners \<union> container_ids \<and> p \<in> ent_id ` set (sn_entities s)"
    if "e \<in> set (sn_entities s)" "ent_parent_id e = Some p" for e p
  proof -
    have "(ent_id e, Some p) \<in> set (placed (sn_entities s))" using that by force
    then have "(ent_id e, Some p) \<in> set ?places" using mset_eq_setD [OF es] by blast
    from place_parents [OF index pods this] show ?thesis using mset_eq_setD [OF ids] by simp
  qed
  show ?thesis using distinct parent hierarchy_of_wf [OF parents_wf [OF wf] parent] by blast
qed

section \<open>The events of a snapshot\<close>

lemma snapshot_events:
  assumes "read_snapshot digit items = Inr s"
    and apart: "lit ''event'' \<in> snd ` set (workloads items) \<Longrightarrow> (lit ''Event'', lit ''lifecycle'') \<notin> set (identified items)"
  shows "distinct (map ev_id (sn_events s))"
proof -
  obtain x owners ps us where unique: "distinct (map snd (identified items))"
    and index: "fold_res index_step items \<lparr>ki_entities = [], ki_nodes = []\<rparr> = Inr x"
    and vs: "map ev_id (sn_events s) = map (lifecycle_event_id \<circ> snd) (workloads items) @ pod_event_ids ps @ map reported_id us"
    and ps: "pods_ok x (identified items) ps" and us: "reported_ok (identified items) us"
    by (rule read_snapshot_Inr [OF assms(1)])
  have pods: "\<And>p. p \<in> set ps \<Longrightarrow> pod_ok (workloads items) p" by (rule pods_ok_pod [OF index ps])
  have "distinct (map snd (workloads items))" unfolding workloads_def using unique by (rule distinct_map_filter)
  then have "distinct (map (lifecycle_event_id \<circ> snd) (workloads items))"
    by (rule workload_ids_distinct) (use lifecycle_id_uid in simp)
  moreover have "distinct (pod_event_ids ps)"
    unfolding pod_event_ids_def
  proof (rule pod_parts_distinct [OF pods])
    show "distinct (map fst ps)" using ps unique by (simp add: pods_ok_def)
    show "u = u' \<and> n = n'" if "container_id (workload_entity_id k u) n @ lit '':lifecycle'' = container_id (workload_entity_id k' u') n' @ lit '':lifecycle''"
      for k u k' u' n n'
      by (rule container_id_parts) (use that in \<open>simp only: append_same_eq\<close>)
  qed
  moreover have "distinct (map reported_id us)"
    using us unique by (auto simp: reported_ok_def distinct_map inj_on_def reported_id_def identity_component_inject)
  moreover have container: "\<exists>k u n. i = container_id (workload_entity_id k u) n @ lit '':lifecycle''" if "i \<in> set (pod_event_ids ps)" for i
    using that pods by (fastforce simp: pod_event_ids_def pod_ok_def)
  moreover have reported: "reported_id u \<noteq> lifecycle_event_id v" if "u \<in> set us" "v \<in> snd ` set (workloads items)" for u v
  proof
    assume "reported_id u = lifecycle_event_id v"
    from reported_id_lifecycle [OF this [unfolded reported_id_def]] have "v = lit ''event''" "u = lit ''lifecycle''" by simp_all
    moreover from this(2) that(1) us have "(lit ''Event'', lit ''lifecycle'') \<in> set (identified items)" by (auto simp: reported_ok_def)
    ultimately show False using apart that(2) by blast
  qed
  moreover have "set (map (lifecycle_event_id \<circ> snd) (workloads items)) \<inter> set (pod_event_ids ps) = {}"
    using container container_event_no_lifecycle by fastforce
  moreover have "set (map (lifecycle_event_id \<circ> snd) (workloads items)) \<inter> set (map reported_id us) = {}"
    using reported by fastforce
  moreover have "set (pod_event_ids ps) \<inter> set (map reported_id us) = {}"
    using container reported_id_no_container unfolding reported_id_def by fastforce
  ultimately show ?thesis unfolding vs distinct_append set_append Int_Un_distrib by blast
qed

section \<open>A snapshot\<close>

text \<open>A replica set with a pod that it owns, the container of the pod and an event about it.\<close>

definition sample_item :: "string \<Rightarrow> string \<Rightarrow> attrs \<Rightarrow> attrs \<Rightarrow> attrs" where
  "sample_item kind uid metadata details =
     [(lit ''kind'', jtext kind), (lit ''metadata'', JObj ([(lit ''name'', jtext ''web''), (lit ''uid'', jtext uid)] @ metadata))] @ details"

definition sample_items :: "attrs list" where
  "sample_items =
     [sample_item ''Pod'' ''p1'' [(lit ''ownerReferences'', JList [JObj [(lit ''uid'', jtext ''r1''), (lit ''controller'', JBool True)]])]
        [(lit ''spec'', JObj [(lit ''containers'', JList [JObj [(lit ''name'', jtext ''main'')]])])],
      sample_item ''ReplicaSet'' ''r1'' [] [],
      sample_item ''Event'' ''e1'' [] [(lit ''involvedObject'', JObj [(lit ''uid'', jtext ''p1'')])]]"

lemma sample_items_read:
  "(case read_snapshot ascii_digit sample_items of
      Inr s \<Rightarrow> map ent_id (sn_entities s) = [lit ''k8s:replicaset:r1'', lit ''k8s:pod:p1'', lit ''k8s:pod:p1:container:main''] \<and>
        map ent_parent_id (sn_entities s) = [None, Some (lit ''k8s:replicaset:r1''), Some (lit ''k8s:pod:p1'')] \<and>
        map ev_id (sn_events s) = [lit ''k8s:p1:lifecycle'', lit ''k8s:r1:lifecycle'', lit ''k8s:pod:p1:container:main:lifecycle'',
          lit ''k8s:event:e1'']
    | _ \<Rightarrow> False)"
  by code_simp

lemma sample_snapshot:
  obtains s where "read_snapshot ascii_digit sample_items = Inr s"
    "map ent_id (sn_entities s) = [lit ''k8s:replicaset:r1'', lit ''k8s:pod:p1'', lit ''k8s:pod:p1:container:main'']"
    "map ev_id (sn_events s) = [lit ''k8s:p1:lifecycle'', lit ''k8s:r1:lifecycle'', lit ''k8s:pod:p1:container:main:lifecycle'',
       lit ''k8s:event:e1'']"
  using sample_items_read by (auto split: sum.splits)

section \<open>The properties\<close>

text \<open>The check of the owners passes exactly when no object owns itself, directly or along a chain of owners of any
  length; an owner outside the snapshot ends a chain.\<close>

theorem owners_accepted_iff_acyclic:
  "check_owners owners [] (map fst owners) = Inr () \<longleftrightarrow> acyclic (owned_by owners)"
  by (rule owners_checked_iff_acyclic)

text \<open>C13. The entities of a snapshot that is accepted have distinct ids, every parent is one of them, and they pass the
  hierarchy check of the writer exactly when their ids are within the length that the writer takes: no snapshot leads to
  an owner or a container that the writer refuses.\<close>

theorem snapshot_entities_form_hierarchy:
  assumes "read_snapshot digit items = Inr s"
  shows "distinct (map ent_id (sn_entities s)) \<and>
    (\<forall>e\<in>set (sn_entities s). \<forall>p. ent_parent_id e = Some p \<longrightarrow> p \<in> ent_id ` set (sn_entities s)) \<and>
    (validate_entity_hierarchy (sn_entities s) = Inr () \<longleftrightarrow> (\<forall>e\<in>set (sn_entities s). text_ok (ent_id e)))"
  by (rule snapshot_entities [OF assms])

theorem snapshot_entities_form_hierarchy_witness:
  "\<exists>s. read_snapshot ascii_digit sample_items = Inr s \<and> length (sn_entities s) = 3 \<and> distinct (map ent_id (sn_entities s)) \<and>
     validate_entity_hierarchy (sn_entities s) = Inr ()"
proof -
  obtain s where s: "read_snapshot ascii_digit sample_items = Inr s"
    "map ent_id (sn_entities s) = [lit ''k8s:replicaset:r1'', lit ''k8s:pod:p1'', lit ''k8s:pod:p1:container:main'']"
    by (rule sample_snapshot)
  have "list_all text_ok (map ent_id (sn_entities s))" unfolding s(2) by code_simp
  then have "\<forall>e\<in>set (sn_entities s). text_ok (ent_id e)" by (simp add: list_all_iff)
  moreover have "length (sn_entities s) = 3" using arg_cong [OF s(2), of length] by simp
  ultimately show ?thesis using snapshot_entities_form_hierarchy [OF s(1)] s(1) by blast
qed

text \<open>C30. The events of a snapshot that is accepted have distinct ids, whatever the uids and names contain, unless it
  holds an object with the uid event and an Event with the uid lifecycle.\<close>

theorem snapshot_event_ids_distinct:
  assumes "read_snapshot digit items = Inr s"
    and "\<not> (lit ''event'' \<in> snd ` set (workloads items) \<and> (lit ''Event'', lit ''lifecycle'') \<in> set (identified items))"
  shows "distinct (map ev_id (sn_events s))"
  using snapshot_events [OF assms(1)] assms(2) by blast

theorem snapshot_event_ids_distinct_witness:
  "\<exists>s. read_snapshot ascii_digit sample_items = Inr s \<and> length (sn_events s) = 4 \<and> distinct (map ev_id (sn_events s))"
proof -
  obtain s where s: "read_snapshot ascii_digit sample_items = Inr s"
    "map ev_id (sn_events s) = [lit ''k8s:p1:lifecycle'', lit ''k8s:r1:lifecycle'', lit ''k8s:pod:p1:container:main:lifecycle'',
       lit ''k8s:event:e1'']"
    by (rule sample_snapshot)
  have "lit ''event'' \<notin> set (map snd (workloads sample_items))" by code_simp
  then have "lit ''event'' \<notin> snd ` set (workloads sample_items)" by simp
  then have "distinct (map ev_id (sn_events s))" by (intro snapshot_event_ids_distinct [OF s(1)]) blast
  moreover have "length (sn_events s) = 4" using arg_cong [OF s(2), of length] by simp
  ultimately show ?thesis using s(1) by blast
qed

definition parse_snapshot :: "(nat \<Rightarrow> nat option) \<Rightarrow> nat list option \<Rightarrow> snapshot res" where
  "parse_snapshot digit source = rbind (load_snapshot source) (read_snapshot digit)"

lemma append_snapshot_returns:
  assumes "append_snapshot s c = (c4, Inr result)"
  obtains correlated c1 c2 c3 where "correlations (sn_lifecycles s) \<lparr>rd_db = conn_committed c, rd_has_attachments = True\<rparr> = Inr correlated"
    "expand_to (event_timestamps (sn_events s)) c = (c1, Inr ())" "add_entities (sn_entities s) c1 = (c2, Inr ())"
    "add_events (sn_events s) c2 = (c3, Inr ())" "add_causal_edges (sn_edges s @ correlated) c3 = (c4, Inr ())"
    "result = \<lparr>kr_entity_count = length (sn_entities s), kr_event_count = length (sn_events s),
       kr_edge_count = length (sn_edges s @ correlated), kr_correlation_count = length correlated\<rparr>"
  using assms that unfolding append_snapshot_def by (auto simp: stmt_simps sread_returns sreturn_def)

interpretation kubernetes: evidence_import "parse_snapshot digit" append_snapshot for digit
proof
  fix s c c4 result
  assume run: "append_snapshot s c = (c4, Inr result)" and ok: "settled c" "wf_db (conn_committed c)"
  obtain correlated c1 c2 c3 where steps: "expand_to (event_timestamps (sn_events s)) c = (c1, Inr ())" "add_entities (sn_entities s) c1 = (c2, Inr ())"
    "add_events (sn_events s) c2 = (c3, Inr ())" "add_causal_edges (sn_edges s @ correlated) c3 = (c4, Inr ())"
    by (rule append_snapshot_returns [OF run])
  have 1: "settled c1 \<and> wf_db (conn_committed c1)" by (rule expand_to_keeps [OF steps(1) ok])
  then have 2: "settled c2 \<and> wf_db (conn_committed c2)" using writer_call_keeps [OF safe_add_entities steps(2)] by blast
  then have "settled c3 \<and> wf_db (conn_committed c3)" using writer_call_keeps [OF safe_add_events steps(3)] by blast
  then show "wf_db (conn_committed c4)" using writer_call_keeps [OF safe_add_causal_edges steps(4)] by blast
qed

lemma kubernetes_import: "import_kubernetes_snapshot digit = kubernetes.run_import digit"
  by (intro ext) (simp add: import_kubernetes_snapshot_def kubernetes.run_import_def parse_snapshot_def)

text \<open>An import of a snapshot that succeeds never overwrites a file and publishes well-formed tables.\<close>

lemma kubernetes_import_well_formed:
  "import_kubernetes_snapshot digit output temporary runpack source = Inr (result, published) \<Longrightarrow> wf_db runpack \<Longrightarrow>
     wf_db published \<and> \<not> ds_exists output"
  unfolding kubernetes_import by (rule kubernetes.published_well_formed)

section \<open>Defects\<close>

text \<open>The one collision: an object with the uid event and an Event with the uid lifecycle get the same event id.\<close>

lemma event_ids_collide:
  "(case read_snapshot ascii_digit [sample_item ''Node'' ''event'' [] [],
       sample_item ''Event'' ''lifecycle'' [] [(lit ''involvedObject'', JObj [(lit ''uid'', jtext ''event'')])]] of
      Inr s \<Rightarrow> map ev_id (sn_events s) = [lit ''k8s:event:lifecycle'', lit ''k8s:event:lifecycle'']
    | _ \<Rightarrow> False)"
  by code_simp

end
