(* ===== verification/Spec2Isabelle.thy ===== *)
theory Spec2Isabelle
  imports StorageTables StorageQueries InspectRender RunDiffLaws VerifyLaws Validation LifecycleLaws LifecycleFacts AnnotationLaws Composition BoundaryProperties JobProperties TemporalProperties KubernetesProperties
begin

text \<open>
  Contrail records what a program did at run time in a \<open>.runpack\<close> file (an SQLite database)
  and inspects, analyses, compares and verifies such recordings. This library models the Python
  package \<open>runtime_tools\<close>; paths below are relative to \<open>src/src/runtime_tools\<close>.

  \<^bold>\<open>The program and its model.\<close> Captures and importers build records (\<open>model.py\<close>) and store them
  through \<open>RunpackWriter\<close>; everything else reads them through \<open>RunpackReader\<close>. On the reader stand
  the inspection of one run, the batch analysis (critical path), the comparison of two runs, and on
  the comparison the verification of contracts and the search for counterexamples.

  \<^item> \<open>Prelude\<close>: text as lists of code points, results \<open>err + 'a\<close> for code that may raise
    (\<open>rbind\<close>, \<open>traverse\<close>), insertion-ordered dictionaries, and the collections \<open>res_simps\<close>
    and \<open>text_simps\<close>. \<open>PyFloat\<close>: binary64 over exact rationals, rounding proved monotone and
    idempotent, and the number formats of the reports. \<open>PyJson\<close>: \<open>json.dumps\<close> and \<open>json.loads\<close>.
  \<^item> \<open>Model\<close>: the records of \<open>model.py\<close> and \<open>semantics.py\<close>. \<open>JsonSupport\<close>: the hooks of
    \<open>json_support.py\<close>.
  \<^item> \<open>StorageValidation\<close>, \<open>EntityHierarchy\<close>: the checks of \<open>storage/_validation.py\<close> and the
    parent-first order of entities. The JSON check is given for any room that the interpreter's stack has left.
  \<^item> \<open>StorageDb\<close>, \<open>StorageWriter\<close>: the tables with their constraints, a connection with a
    committed and a working state, and every operation of \<open>storage/_writer.py\<close>.
    \<open>StorageInvariant\<close> shows that the operations keep the tables well formed and commit all or
    nothing; \<open>StorageTables\<close> what they store (locales \<open>row_table\<close> and \<open>keyed_table\<close>,
    interpreted on the six tables).
  \<^item> \<open>StorageReader\<close>, \<open>StorageQueries\<close>: \<open>storage/_reader.py\<close>; the sweep behind the greatest
    concurrency (locale \<open>sweep\<close>) is proved to compute the peak overlap.
  \<^item> \<open>Terminal\<close>, \<open>Inspect\<close>, \<open>InspectRender\<close>: \<open>terminal.py\<close>, \<open>runpack.py\<close>, \<open>inspect.py\<close>;
    rendered text is bounded and printable, the causal tree ends and is complete unless it says not.
  \<^item> \<open>Utf8\<close>, \<open>Annotations\<close>: \<open>annotations.py\<close>, from the bytes of the stream to its events and edges, with
    strict UTF-8 and the loops of the hierarchy check shared with \<open>EntityHierarchy\<close>. \<open>AnnotationLaws\<close>: a
    loaded stream has valid, distinct and resolved events and edges and acyclic parents.
  \<^item> \<open>Lifecycle\<close>, \<open>Throughput\<close>, \<open>Bottlenecks\<close>: \<open>batchscope/analysis/_lifecycle.py\<close>, the merging
    of intervals and the critical path, the progress of a run, its phases and its bottlenecks.
    \<open>LifecycleLaws\<close> carries an invariant through the depth-first walk: no lookup fails, the path is a
    simple causal path, its times are the span and the measure of its intervals, and the cycle flag is
    exact. \<open>LifecycleFacts\<close>: descendants are reachable events, and a throughput is consistent.
  \<^item> \<open>Evidence\<close>, \<open>Callers\<close>, \<open>HttpCapture\<close>, \<open>NetworkCapture\<close>, \<open>LogicalCapture\<close>: the captured operations of
    \<open>batchscope/analysis\<close> (\<open>_values.py\<close>, \<open>_subprocess.py\<close>, \<open>_http.py\<close>, \<open>_network.py\<close>, \<open>_logical.py\<close>): their events
    and attribution to call sites, hotspots, bottlenecks and the summaries of the captures. \<open>ProfileMetrics\<close>,
    \<open>ProfileSummary\<close>, \<open>Hotspots\<close>: \<open>_profile_summary.py\<close>, \<open>_hotspots.py\<close> and \<open>_resources.py\<close>. \<open>Analyzer\<close>:
    \<open>_analyzer.py\<close>. \<open>CallerLaws\<close> justifies every attribution by an edge and a call site; \<open>CaptureLaws\<close> reads the
    five captures under one contract (locale \<open>operation_capture\<close>, interpreted on the five readers), which
    gives that events are counted once and nothing raises on hashable evidence; \<open>CaptureFacts\<close>: hotspots
    partition the operations, and a complete capture accounts for its run.
  \<^item> \<open>ProfileParsing\<close>, \<open>BoundaryEvidence\<close>, \<open>BoundaryRecords\<close>: the normalization of the reports of profiled
    processes in \<open>deep_profile\<close> (\<open>_parsing.py\<close>, \<open>_subprocess.py\<close>, \<open>_http.py\<close>, \<open>_network.py\<close>, \<open>_logical.py\<close>), which writes the
    operations that the analysis reads; \<open>Heapq\<close>: the bounded selection by a binary heap. \<open>BoundaryFields\<close>: one
    record and its event; \<open>BoundaryTally\<close>: the loop over the reports against its specification;
    \<open>BoundaryLaws\<close>, \<open>BoundaryReadBack\<close>, \<open>EvidenceRoundTrip\<close>, \<open>NormalizedEvidence\<close>: what all kinds share (locales
    \<open>boundary_kind\<close> and \<open>attributed_kind\<close>, interpreted on the five kinds) and their composition.
    \<open>BoundaryProperties\<close>: nothing is lost unaccounted, ids are distinct, and the analysis reads back what
    was written, except that it takes unfinished server operations for malformed.
  \<^item> \<open>JobRecord\<close>, \<open>JobStore\<close>, \<open>JobService\<close>, \<open>JobWaiting\<close>: \<open>capture_jobs\<close> (\<open>_common.py\<close>, \<open>_models.py\<close>, \<open>_repository.py\<close>,
    \<open>_output.py\<close>, \<open>_service.py\<close>) and the relay of a worker's output (\<open>capture_worker.py\<close>): a job and its state file, the
    directory with the locks, channels and output of the jobs, every operation of commands and workers on it, and
    the loops that wait for other processes. \<open>JobLaws\<close>, \<open>JobStoreLaws\<close>: each update keeps a job well formed, and the relay
    keeps the first and the last bytes; \<open>JobSteps\<close>: all processes as one step relation and its invariant, where a
    process may be killed between any two changes of an operation; \<open>JobFacts\<close>, \<open>JobProperties\<close>: the operations are
    sequences of these steps, jobs stay readable while the clock does not go back, no output is lost uncounted, only
    a job without a live worker is lost, waiting for one ends, and pruning removes old finished jobs only.
  \<^item> \<open>JsonLoading\<close>: the bounded loading and the timestamps of \<open>json_support.py\<close>; \<open>CalendarLaws\<close>: times in UTC are
    ordered as their texts. \<open>Enrichment\<close>: \<open>providers/enrichment.py\<close> up to its file handling; \<open>EnrichmentLaws\<close>: what the
    imports share (locale \<open>evidence_import\<close>, interpreted on both). \<open>TemporalHistory\<close>, \<open>KubernetesSnapshot\<close>:
    \<open>providers/builtins/temporal/enrichment.py\<close> and \<open>providers/builtins/kubernetes/enrichment.py\<close>, from the bytes of the
    source to the published tables. \<open>TemporalLaws\<close>, \<open>TemporalTree\<close>, \<open>TemporalProperties\<close>: the intervals of a history are nested, but for
    a start after an unreferring end, and its graph is a tree; \<open>KubernetesLaws\<close>, \<open>KubernetesObjects\<close>, \<open>KubernetesProperties\<close>: owners have no
    cycle, the entities are a hierarchy that the writer accepts, and ids are distinct; \<open>IdTexts\<close>: ids with colons.
  \<^item> \<open>RunDiff\<close>, \<open>RunDiffCompare\<close>: \<open>rundiff/compare.py\<close>. \<open>RunDiffLaws\<close>: the change lists
    (locale \<open>change_report\<close>, interpreted on the four reports) do not depend on the enumeration
    of Python sets, except those of edges; equivalence needs complete evidence.
  \<^item> \<open>Contracts\<close>, \<open>Verify\<close>: \<open>proofline/contracts.py\<close> and \<open>verify.py\<close>. \<open>VerifyLaws\<close> states
    when a claim is available and when it holds, and shows that the verdicts refine this.
  \<^item> \<open>Counterexamples\<close>: \<open>proofline/counterexamples.py\<close>. \<open>CounterexampleLaws\<close>: candidates are
    distinct, in range and within the budget, shrinking ends in a local minimum (locale
    \<open>tester_laws\<close>, interpreted on a pure test and on the search itself), and a reported
    counterexample was reproduced. \<open>Validation\<close>: \<open>proofline/validation.py\<close>.
  \<^item> \<open>Composition\<close>: the comparison and the verification on the batch analysis itself; an equivalence is
    traced back to captures that account for the events of both runs.

  \<^bold>\<open>Parameters.\<close> Code outside the package is an argument of the definitions that use it: SQLite's
  \<open>total()\<close> (\<open>sql_total\<close>), the Unicode tables \<open>printable\<close>, \<open>is_space\<close> and \<open>lower\<close>, the random numbers
  (\<open>randint\<close>, relied on to stay in its range), the digest of a call site (\<open>digest\<close>, relied on not to collide on the texts of the callers of a run, which are distinct when they have no NUL), the decimal digits of Unicode (\<open>digit\<close>, relied on to extend those of ASCII), and one experiment of a search (\<open>run\<close>); \<open>casefold\<close> is a table
  of Unicode too. The comparison takes the batch analysis as an argument (\<open>analyze\<close>), which \<open>Composition\<close> supplies. Python's sets are enumerated in an order that
  is an argument. The YAML loader and the file system supply values and are not modelled.

  \<^bold>\<open>Bounds and termination.\<close> The limits of the source (64-bit integers, field and attachment
  bytes, tree items, assertions, examples, parameters) are the constants of the model. The JSON scanner
  takes the length of its text as fuel, which is never exhausted; every other loop is a total
  function with a termination proof; the loops that wait for other processes take the list of their
  looks at the directory and are \<open>None\<close> when it ends before they return. The walk of the critical path ends by the number of untouched nodes and the length of its stack.

  \<^bold>\<open>Not modelled.\<close> Capture (processes, threads, sockets and the instrumentation injected into the
  observed program), the capture worker process but for the relay of its output, the importers of OpenTelemetry and Prometheus data, the file handling of an enrichment, artifact
  snapshots and digests, the command lines and the HTML reports are input and output around this
  core. Of \<open>storage/_validation.py\<close> the catalog check of a foreign database is not modelled. The recursion limit of the
  interpreter is modelled in \<open>StorageValidation\<close> only; elsewhere a document that nests too deep for it, which the
  program rejects with an error of its own, has its value here. Timestamps are those of Python 3.12 and 3.13, which
  refuse the hour 24.
\<close>

end
